(* ===== verification/Osva_Prelude.thy ===== *)
theory Osva_Prelude
  imports Main "HOL-Library.AList" "HOL-Library.Char_ord" "HOL-Library.List_Lexorder"
    "HOL-Library.Product_Lexorder"
begin

text \<open>
  Shared vocabulary of the development: results of fallible code, JavaScript strings and
  instants, insertion-ordered maps, and the lemmas and automation the components share.

  A throw is the value \<open>Inl e\<close>, a normal return \<open>Inr x\<close>. A \<open>string\<close> is a list of
  UTF-16 code units of the range 0 to 255 (a \<open>char\<close> each), so \<open>length\<close> is the
  source's \<open>.length\<close>. A \<open>Date\<close> is its time value in milliseconds, or the invalid
  date. A \<open>Map\<close> is an association list in insertion order: \<open>AList.update\<close> keeps
  the place of a key that is present and appends a new one, as \<open>Map.prototype.set\<close> does.
\<close>

named_theorems result_simps \<open>rewriting of results that are known to be normal returns\<close>
named_theorems state_names \<open>names of lifecycle states, as the source spells them\<close>

subsection \<open>Results\<close>

definition and_then :: "'e + 'a \<Rightarrow> ('a \<Rightarrow> 'e + 'b) \<Rightarrow> 'e + 'b" where
  "and_then r f = (case r of Inl e \<Rightarrow> Inl e | Inr x \<Rightarrow> f x)"

lemma and_then_simps [simp]:
  "and_then (Inl e) f = Inl e"
  "and_then (Inr x) f = f x"
  by (simp_all add: and_then_def)

lemma and_then_Inr [result_simps]:
  "and_then r f = Inr y \<longleftrightarrow> (\<exists>x. r = Inr x \<and> f x = Inr y)"
  by (cases r) auto

lemma and_then_Inl:
  "and_then r f = Inl e \<longleftrightarrow> r = Inl e \<or> (\<exists>x. r = Inr x \<and> f x = Inl e)"
  by (cases r) auto

lemma if_Inl_Inr [result_simps]:
  "(if b then Inl e else r) = Inr y \<longleftrightarrow> \<not> b \<and> r = Inr y"
  "(if b then r else Inl e) = Inr y \<longleftrightarrow> b \<and> r = Inr y"
  by auto

fun traverse :: "('a \<Rightarrow> 'e + 'b) \<Rightarrow> 'a list \<Rightarrow> 'e + 'b list" where
  "traverse f [] = Inr []"
| "traverse f (x # xs) =
     and_then (f x) (\<lambda>y. and_then (traverse f xs) (\<lambda>ys. Inr (y # ys)))"

text \<open>The first error of a list of checks, in the order the source makes them.\<close>

fun check_all :: "('a \<Rightarrow> 'e option) \<Rightarrow> 'a list \<Rightarrow> 'e option" where
  "check_all f [] = None"
| "check_all f (x # xs) = (case f x of Some e \<Rightarrow> Some e | None \<Rightarrow> check_all f xs)"

lemma check_all_None [simp]: "check_all f xs = None \<longleftrightarrow> (\<forall>x\<in>set xs. f x = None)"
  by (induction xs) (auto split: option.splits)

lemma check_all_Some: "check_all f xs = Some e \<Longrightarrow> \<exists>x\<in>set xs. f x = Some e"
  by (induction xs) (auto split: option.splits)

text \<open>\<open>x ?? y\<close> on optional values.\<close>

definition or_else :: "'a option \<Rightarrow> 'a option \<Rightarrow> 'a option" where
  "or_else x y = (case x of None \<Rightarrow> y | Some v \<Rightarrow> Some v)"

lemma or_else_simps [simp]:
  "or_else None y = y" "or_else (Some v) y = Some v"
  "or_else x y = None \<longleftrightarrow> x = None \<and> y = None" "or_else x None = x"
  "\<exists>w. or_else x (Some v) = Some w"
  by (auto simp: or_else_def split: option.splits)

definition after_check :: "'e option \<Rightarrow> 'e + 'a \<Rightarrow> 'e + 'a" where
  "after_check c r = (case c of Some e \<Rightarrow> Inl e | None \<Rightarrow> r)"

lemma after_check_simps [simp]:
  "after_check (Some e) r = Inl e"
  "after_check None r = r"
  by (simp_all add: after_check_def)

text \<open>Whether a result is a normal return, for concrete runs.\<close>

definition returns :: "'e + 'a \<Rightarrow> bool" where
  "returns r = (case r of Inl e \<Rightarrow> False | Inr x \<Rightarrow> True)"

lemma returnsE: "returns r \<Longrightarrow> \<exists>x. r = Inr x"
  by (cases r) (simp_all add: returns_def)

lemma after_check_Inr [result_simps]: "after_check c r = Inr y \<longleftrightarrow> c = None \<and> r = Inr y"
  by (cases c) auto

lemma after_check_Inl: "after_check c r = Inl e \<longleftrightarrow> c = Some e \<or> c = None \<and> r = Inl e"
  by (cases c) auto

subsection \<open>Strings\<close>

definition js_space :: "char \<Rightarrow> bool" where
  "js_space c \<longleftrightarrow> of_char c \<in> ({9, 10, 11, 12, 13, 32, 160} :: nat set)"

definition js_trim :: "string \<Rightarrow> string" where
  "js_trim s = rev (dropWhile js_space (rev (dropWhile js_space s)))"

definition js_blank :: "string \<Rightarrow> bool" where
  "js_blank s \<longleftrightarrow> length (js_trim s) = 0"

lemma js_blank_iff: "js_blank s \<longleftrightarrow> (\<forall>c\<in>set s. js_space c)"
proof -
  have "dropWhile js_space (rev (dropWhile js_space s)) = []
    \<longleftrightarrow> (\<forall>c\<in>set (dropWhile js_space s). js_space c)"
    by (simp add: dropWhile_eq_Nil_conv)
  also have "\<dots> \<longleftrightarrow> (\<forall>c\<in>set s. js_space c)"
    by (induction s) auto
  finally show ?thesis by (simp add: js_blank_def js_trim_def)
qed

lemma js_blank_Nil [simp]: "js_blank []"
  by (simp add: js_blank_iff)

lemma dropWhile_rev_dropWhile:
  "dropWhile P (rev (dropWhile P (rev (dropWhile P s)))) = rev (dropWhile P (rev (dropWhile P s)))"
proof -
  have d: "dropWhile P s = [] \<or> \<not> P (hd (dropWhile P s))" using hd_dropWhile by blast
  have gen: "d = [] \<or> \<not> P (hd d) \<Longrightarrow> dropWhile P (rev (dropWhile P (rev d))) = rev (dropWhile P (rev d))" for d
  proof (cases d)
    case (Cons c cs)
    assume "d = [] \<or> \<not> P (hd d)"
    with Cons have c: "\<not> P c" by simp
    have "dropWhile P (rev d) = dropWhile P (rev cs) @ [c]"
      using c Cons by (cases "\<forall>x\<in>set cs. P x") (auto simp: dropWhile_append)
    with c show ?thesis by simp
  qed simp
  from gen [OF d] show ?thesis .
qed

lemma js_trim_trim [simp]: "js_trim (js_trim s) = js_trim s"
  unfolding js_trim_def by (simp add: dropWhile_rev_dropWhile dropWhile_idem)

text \<open>Whether a string occurs in another, as \<open>String.prototype.includes\<close> decides it.\<close>

fun js_starts_with :: "string \<Rightarrow> string \<Rightarrow> bool" where
  "js_starts_with s [] = True"
| "js_starts_with [] (c # cs) = False"
| "js_starts_with (d # ds) (c # cs) = (c = d \<and> js_starts_with ds cs)"

fun js_includes :: "string \<Rightarrow> string \<Rightarrow> bool" where
  "js_includes [] p = js_starts_with [] p"
| "js_includes (c # cs) p = (js_starts_with (c # cs) p \<or> js_includes cs p)"

lemma js_starts_with_append [simp]: "js_starts_with (p @ s) p"
  by (induction p) auto

lemma js_includes_append: "js_includes (s @ p @ t) p"
proof (induction s)
  case Nil
  have "js_starts_with (p @ t) p" by simp
  then show ?case by (cases "p @ t") auto
next
  case (Cons c s)
  then show ?case by simp
qed

text \<open>\<open>split\<close> at a one-character separator: never empty, and joining restores the string.\<close>

fun js_split :: "char \<Rightarrow> string \<Rightarrow> string list" where
  "js_split d [] = [[]]"
| "js_split d (c # cs) =
     (if c = d then [] # js_split d cs
      else (case js_split d cs of [] \<Rightarrow> [[c]] | t # ts \<Rightarrow> (c # t) # ts))"

fun js_join :: "char \<Rightarrow> string list \<Rightarrow> string" where
  "js_join d [] = []"
| "js_join d [t] = t"
| "js_join d (t # u # ts) = t @ [d] @ js_join d (u # ts)"

lemma js_split_nonempty [simp]: "js_split d s \<noteq> []"
  by (induction s) (auto split: list.splits)

lemma js_join_split [simp]: "js_join d (js_split d s) = s"
proof (induction s)
  case Nil
  then show ?case by simp
next
  case (Cons c s)
  obtain t ts where "js_split d s = t # ts"
    by (meson js_split_nonempty neq_Nil_conv)
  with Cons show ?case by (cases ts) auto
qed

lemma js_split_no_sep: "d \<notin> set t \<Longrightarrow> js_split d t = [t]"
  by (induction t) auto

lemma js_split_append: "d \<notin> set t \<Longrightarrow> js_split d (t @ d # s) = t # js_split d s"
  by (induction t) auto

lemma js_split_join:
  "ts \<noteq> [] \<Longrightarrow> \<forall>t\<in>set ts. d \<notin> set t \<Longrightarrow> js_split d (js_join d ts) = ts"
proof (induction ts)
  case Nil
  then show ?case by simp
next
  case (Cons t ts)
  then show ?case by (cases ts) (auto simp: js_split_no_sep js_split_append)
qed

text \<open>A text in the single quotes of a message.\<close>

definition quoted :: "string \<Rightarrow> string" where
  "quoted s = CHR 0x27 # s @ [CHR 0x27]"

text \<open>Decimal digits of a natural number, as template literals print it.\<close>

fun nat_str :: "nat \<Rightarrow> string" where
  "nat_str n = (if n < 10 then [char_of (48 + n)] else nat_str (n div 10) @ [char_of (48 + n mod 10)])"

declare nat_str.simps [simp del]

subsection \<open>Instants\<close>

datatype js_date = InvalidDate | DateMs int

text \<open>\<open>new Date(t)\<close>: a time value beyond 8.64e15 ms of the epoch is the invalid date.\<close>

definition new_Date :: "int \<Rightarrow> js_date" where
  "new_Date t = (if \<bar>t\<bar> \<le> 8640000000000000 then DateMs t else InvalidDate)"

fun valid_date :: "js_date \<Rightarrow> bool" where
  "valid_date InvalidDate = False"
| "valid_date (DateMs t) = True"

text \<open>
  Comparisons of \<open>getTime()\<close> values: every comparison with the NaN of an invalid date is
  false.
\<close>

fun date_lt :: "js_date \<Rightarrow> js_date \<Rightarrow> bool" where
  "date_lt (DateMs a) (DateMs b) = (a < b)"
| "date_lt _ _ = False"

fun date_le :: "js_date \<Rightarrow> js_date \<Rightarrow> bool" where
  "date_le (DateMs a) (DateMs b) = (a \<le> b)"
| "date_le _ _ = False"

fun date_eq :: "js_date \<Rightarrow> js_date \<Rightarrow> bool" where
  "date_eq (DateMs a) (DateMs b) = (a = b)"
| "date_eq _ _ = False"

fun date_plus :: "js_date \<Rightarrow> int \<Rightarrow> js_date" where
  "date_plus (DateMs a) n = new_Date (a + n)"
| "date_plus InvalidDate n = InvalidDate"

lemma date_lt_trans: "date_lt a b \<Longrightarrow> date_lt b c \<Longrightarrow> date_lt a c"
  by (cases a; cases b; cases c) auto

lemma date_le_trans: "date_le a b \<Longrightarrow> date_le b c \<Longrightarrow> date_le a c"
  by (cases a; cases b; cases c) auto

lemma date_not_lt: "valid_date a \<Longrightarrow> valid_date b \<Longrightarrow> \<not> date_lt a b \<longleftrightarrow> date_le b a"
  by (cases a; cases b) auto

lemma date_le_refl [simp]: "date_le a a \<longleftrightarrow> valid_date a"
  by (cases a) auto

lemma date_lt_irrefl [simp]: "\<not> date_lt a a"
  by (cases a) auto

lemma date_lt_le: "date_lt a b \<Longrightarrow> date_le a b"
  by (cases a; cases b) auto

lemma date_le_not_lt: "date_le a b \<Longrightarrow> \<not> date_lt b a"
  by (cases a; cases b) auto

lemma date_le_valid: "date_le a b \<Longrightarrow> valid_date a \<and> valid_date b"
  by (cases a; cases b) auto

lemma date_eq_iff: "date_eq a b \<longleftrightarrow> valid_date a \<and> a = b"
  by (cases a; cases b) auto

instantiation js_date :: linorder
begin

definition less_eq_js_date :: "js_date \<Rightarrow> js_date \<Rightarrow> bool" where
  "less_eq_js_date a b \<longleftrightarrow> (case (a, b) of (InvalidDate, _) \<Rightarrow> True
     | (DateMs s, InvalidDate) \<Rightarrow> False | (DateMs s, DateMs t) \<Rightarrow> s \<le> t)"

definition less_js_date :: "js_date \<Rightarrow> js_date \<Rightarrow> bool" where
  "less_js_date a b \<longleftrightarrow> (case (a, b) of (_, InvalidDate) \<Rightarrow> False
     | (InvalidDate, DateMs t) \<Rightarrow> True | (DateMs s, DateMs t) \<Rightarrow> s < t)"

instance
  by standard (auto simp: less_eq_js_date_def less_js_date_def split: js_date.splits)

end

lemma date_le_less_eq: "date_le a b \<longleftrightarrow> valid_date a \<and> valid_date b \<and> a \<le> b"
  by (cases a; cases b) (auto simp: less_eq_js_date_def)

text \<open>
  The text \<open>Date.prototype.toISOString\<close> prints: the proleptic Gregorian date of the day,
  counted in eras of 400 years from the first of March, and the time of day. Years outside 0 to
  9999 have a sign and six digits.
\<close>

definition civil_from_days :: "int \<Rightarrow> int \<times> int \<times> int" where
  "civil_from_days days =
     (let z = days + 719468; era = z div 146097; doe = z mod 146097;
          yoe = (doe - doe div 1460 + doe div 36524 - doe div 146096) div 365;
          doy = doe - (365 * yoe + yoe div 4 - yoe div 100);
          mp = (5 * doy + 2) div 153;
          d = doy - (153 * mp + 2) div 5 + 1;
          m = (if mp < 10 then mp + 3 else mp - 9);
          y = yoe + era * 400
      in (if m \<le> 2 then y + 1 else y, m, d))"

definition padded :: "nat \<Rightarrow> int \<Rightarrow> string" where
  "padded width n = (let s = nat_str (nat n) in replicate (width - length s) (CHR ''0'') @ s)"

definition iso_text :: "int \<Rightarrow> string" where
  "iso_text t =
     (let (y, m, d) = civil_from_days (t div 86400000); ms = t mod 86400000;
          year = (if 0 \<le> y \<and> y \<le> 9999 then padded 4 y
                  else (if y < 0 then ''-'' else ''+'') @ padded 6 \<bar>y\<bar>)
      in year @ ''-'' @ padded 2 m @ ''-'' @ padded 2 d @ ''T'' @ padded 2 (ms div 3600000)
         @ '':'' @ padded 2 (ms div 60000 mod 60) @ '':'' @ padded 2 (ms div 1000 mod 60)
         @ ''.'' @ padded 3 (ms mod 1000) @ ''Z'')"

subsection \<open>Insertion-ordered maps\<close>

type_synonym ('k, 'v) js_map = "('k \<times> 'v) list"

abbreviation map_values :: "('k, 'v) js_map \<Rightarrow> 'v list" where
  "map_values m \<equiv> map snd m"

abbreviation map_keys :: "('k, 'v) js_map \<Rightarrow> 'k list" where
  "map_keys m \<equiv> map fst m"

lemma map_of_update [simp]: "map_of (AList.update k v m) = (map_of m)(k \<mapsto> v)"
  by (rule update_conv')

lemma map_of_SomeD_snd: "map_of m k = Some v \<Longrightarrow> v \<in> set (map_values m)"
  by (force dest: map_of_SomeD)

lemma distinct_keys_update: "distinct (map_keys m) \<Longrightarrow> distinct (map_keys (AList.update k v m))"
  by (rule distinct_update)

lemma update_fresh: "k \<notin> set (map_keys m) \<Longrightarrow> AList.update k v m = m @ [(k, v)]"
  by (induction m) auto

lemma set_values_update:
  "set (map_values (AList.update k v m)) \<subseteq> insert v (set (map_values m))"
  by (induction m) auto

lemma in_values_update:
  "x \<in> set (map_values (AList.update k v m)) \<Longrightarrow> x = v \<or> x \<in> set (map_values m)"
  using set_values_update [of k v m] by auto

lemma update_same: "map_of m k = Some v \<Longrightarrow> AList.update k v m = m"
  by (induction m) (auto split: if_splits)

lemma update_update: "AList.update k v (AList.update k w m) = AList.update k v m"
  by (induction m) auto

lemma values_map_of:
  assumes "distinct (map_keys m)"
  shows "v \<in> set (map_values m) \<longleftrightarrow> (\<exists>k. map_of m k = Some v)"
proof
  assume "v \<in> set (map_values m)"
  then obtain k where "(k, v) \<in> set m" by auto
  with assms have "map_of m k = Some v" by (rule map_of_is_SomeI)
  then show "\<exists>k. map_of m k = Some v" ..
qed (auto dest: map_of_SomeD_snd)

lemma find_Some_mem: "find P xs = Some x \<Longrightarrow> x \<in> set xs \<and> P x"
  by (induction xs) (auto split: if_splits)

text \<open>Every entry of a map is still there, changed at most as the relation says.\<close>

definition entries_kept :: "('v \<Rightarrow> 'v \<Rightarrow> bool) \<Rightarrow> ('k, 'v) js_map \<Rightarrow> ('k, 'v) js_map \<Rightarrow> bool" where
  "entries_kept R m m' \<longleftrightarrow> (\<forall>k v. map_of m k = Some v \<longrightarrow> (\<exists>v'. map_of m' k = Some v' \<and> R v v'))"

lemma entries_kept_refl: "(\<And>v. R v v) \<Longrightarrow> entries_kept R m m"
  by (simp add: entries_kept_def)

lemma entries_kept_trans:
  "(\<And>u v w. R u v \<Longrightarrow> R v w \<Longrightarrow> R u w) \<Longrightarrow> entries_kept R m m' \<Longrightarrow> entries_kept R m' m'' \<Longrightarrow> entries_kept R m m''"
  unfolding entries_kept_def by meson

lemma entries_kept_update:
  "(\<And>v. R v v) \<Longrightarrow> (\<And>u. map_of m k = Some u \<Longrightarrow> R u v) \<Longrightarrow> entries_kept R m (AList.update k v m)"
  by (auto simp: entries_kept_def)

end
