(* ===== verification/Osva_Errors.thy ===== *)
theory Osva_Errors
  imports Osva_Prelude
begin

text \<open>
  The lifecycle states of the contracts package (\<open>run-state.ts\<close>, \<open>workflow-state.ts\<close>,
  \<open>approval.ts\<close>, \<open>evaluation-suite.ts\<close>, \<open>office-state.ts\<close>, \<open>knowledge.ts\<close>)
  and the error classes the modelled code throws (\<open>domain/src/errors.ts\<close>,
  \<open>orchestration/src/errors.ts\<close>, \<open>adapters/memory/src/errors.ts\<close>), one constructor per
  class with the class's fields.
\<close>

subsection \<open>States\<close>

datatype run_state =
  Run_PENDING | Run_QUEUED | Run_RUNNING | Run_INTERRUPTED | Run_SUCCEEDED | Run_FAILED
  | Run_TIMED_OUT | Run_CANCELLED

datatype run_attempt_state =
  Att_PENDING | Att_RUNNING | Att_SUCCEEDED | Att_FAILED | Att_TIMED_OUT | Att_CANCELLED

datatype workflow_run_state =
  WR_PENDING | WR_RUNNING | WR_WAITING | WR_SUCCEEDED | WR_FAILED | WR_CANCELLED

datatype workflow_node_run_state =
  NR_PENDING | NR_RUNNING | NR_WAITING | NR_SUCCEEDED | NR_FAILED | NR_SKIPPED | NR_CANCELLED

datatype approval_request_state = AR_PENDING | AR_APPROVED | AR_REJECTED

datatype evaluation_run_state = ER_PENDING | ER_RUNNING | ER_COMPLETED | ER_FAILED | ER_CANCELLED

datatype assignment_state = As_PENDING | As_RUNNING | As_COMPLETED | As_FAILED | As_CANCELLED

datatype goal_state = Goal_OPEN | Goal_ACTIVE | Goal_COMPLETED | Goal_CANCELLED

datatype knowledge_index_state = KI_PENDING | KI_RUNNING | KI_READY | KI_FAILED

primrec run_state_name :: "run_state \<Rightarrow> string" where
  "run_state_name Run_PENDING = ''PENDING''"
| "run_state_name Run_QUEUED = ''QUEUED''"
| "run_state_name Run_RUNNING = ''RUNNING''"
| "run_state_name Run_INTERRUPTED = ''INTERRUPTED''"
| "run_state_name Run_SUCCEEDED = ''SUCCEEDED''"
| "run_state_name Run_FAILED = ''FAILED''"
| "run_state_name Run_TIMED_OUT = ''TIMED_OUT''"
| "run_state_name Run_CANCELLED = ''CANCELLED''"

primrec run_attempt_state_name :: "run_attempt_state \<Rightarrow> string" where
  "run_attempt_state_name Att_PENDING = ''PENDING''"
| "run_attempt_state_name Att_RUNNING = ''RUNNING''"
| "run_attempt_state_name Att_SUCCEEDED = ''SUCCEEDED''"
| "run_attempt_state_name Att_FAILED = ''FAILED''"
| "run_attempt_state_name Att_TIMED_OUT = ''TIMED_OUT''"
| "run_attempt_state_name Att_CANCELLED = ''CANCELLED''"

primrec workflow_run_state_name :: "workflow_run_state \<Rightarrow> string" where
  "workflow_run_state_name WR_PENDING = ''PENDING''"
| "workflow_run_state_name WR_RUNNING = ''RUNNING''"
| "workflow_run_state_name WR_WAITING = ''WAITING''"
| "workflow_run_state_name WR_SUCCEEDED = ''SUCCEEDED''"
| "workflow_run_state_name WR_FAILED = ''FAILED''"
| "workflow_run_state_name WR_CANCELLED = ''CANCELLED''"

primrec workflow_node_run_state_name :: "workflow_node_run_state \<Rightarrow> string" where
  "workflow_node_run_state_name NR_PENDING = ''PENDING''"
| "workflow_node_run_state_name NR_RUNNING = ''RUNNING''"
| "workflow_node_run_state_name NR_WAITING = ''WAITING''"
| "workflow_node_run_state_name NR_SUCCEEDED = ''SUCCEEDED''"
| "workflow_node_run_state_name NR_FAILED = ''FAILED''"
| "workflow_node_run_state_name NR_SKIPPED = ''SKIPPED''"
| "workflow_node_run_state_name NR_CANCELLED = ''CANCELLED''"

primrec approval_request_state_name :: "approval_request_state \<Rightarrow> string" where
  "approval_request_state_name AR_PENDING = ''PENDING''"
| "approval_request_state_name AR_APPROVED = ''APPROVED''"
| "approval_request_state_name AR_REJECTED = ''REJECTED''"

primrec evaluation_run_state_name :: "evaluation_run_state \<Rightarrow> string" where
  "evaluation_run_state_name ER_PENDING = ''PENDING''"
| "evaluation_run_state_name ER_RUNNING = ''RUNNING''"
| "evaluation_run_state_name ER_COMPLETED = ''COMPLETED''"
| "evaluation_run_state_name ER_FAILED = ''FAILED''"
| "evaluation_run_state_name ER_CANCELLED = ''CANCELLED''"

primrec assignment_state_name :: "assignment_state \<Rightarrow> string" where
  "assignment_state_name As_PENDING = ''PENDING''"
| "assignment_state_name As_RUNNING = ''RUNNING''"
| "assignment_state_name As_COMPLETED = ''COMPLETED''"
| "assignment_state_name As_FAILED = ''FAILED''"
| "assignment_state_name As_CANCELLED = ''CANCELLED''"

primrec goal_state_name :: "goal_state \<Rightarrow> string" where
  "goal_state_name Goal_OPEN = ''OPEN''"
| "goal_state_name Goal_ACTIVE = ''ACTIVE''"
| "goal_state_name Goal_COMPLETED = ''COMPLETED''"
| "goal_state_name Goal_CANCELLED = ''CANCELLED''"

primrec knowledge_index_state_name :: "knowledge_index_state \<Rightarrow> string" where
  "knowledge_index_state_name KI_PENDING = ''PENDING''"
| "knowledge_index_state_name KI_RUNNING = ''RUNNING''"
| "knowledge_index_state_name KI_READY = ''READY''"
| "knowledge_index_state_name KI_FAILED = ''FAILED''"

subsection \<open>Errors\<close>

datatype osva_error =
    DomainInvariantError string
  | InvalidRunTransitionError run_state run_state
  | InvalidRunAttemptTransitionError run_attempt_state run_attempt_state
  | InvalidWorkflowRunTransitionError workflow_run_state workflow_run_state
  | InvalidWorkflowNodeRunTransitionError workflow_node_run_state workflow_node_run_state
  | InvalidApprovalRequestTransitionError approval_request_state approval_request_state
  | InvalidEvaluationRunTransitionError evaluation_run_state evaluation_run_state
  | InvalidAssignmentTransitionError assignment_state assignment_state
  | InvalidGoalTransitionError goal_state goal_state
  | InvalidKnowledgeIndexTransitionError knowledge_index_state knowledge_index_state
  | InvalidAttemptSequenceError string
  | InvalidSubsequentAttemptError run_attempt_state
  | LifecycleConflictError string string string
  | RunNotFoundError string
  | RunAttemptNotFoundError string
  | RunStepNotFoundError string
  | WorkflowRunNotFoundError string
  | WorkflowNodeRunNotFoundError string
  | WorkflowWaitNotFoundError string
  | ApprovalRequestNotFoundError string
  | ApprovalOperationMismatchError "string option"
  | ApprovalExpiredError string
  | InvalidAgentManifestError string
  | InvalidWorkflowDefinitionError string
  | WorkflowDefinitionNotExecutableError string
  | WorkflowWaitCorrelationResolutionError string
  | WorkflowWaitResolutionConflictError string string
  | WorkflowWaitResolutionNotDueError string js_date js_date
  | WorkflowWaitEventNotEligibleError string string
  | WorkflowEventIdempotencyConflictError string string string
  | AgentNotFoundError string
  | AgentVersionNotFoundError string
  | BindingMismatchError string
  | IdentityMismatchError string
  | InvalidPersistedStateError string
  | EnqueueFailedError string string
  | JobQueueShutdownError string
  | DuplicateKeyError string string string
  | NotFoundError string string
  | CheckpointValidationError string string
  | PermissionDeniedError
  | RangeError string
  | OtherError string

text \<open>\<open>error instanceof DomainInvariantError\<close>: the class itself and its subclasses.\<close>

fun is_DomainInvariantError :: "osva_error \<Rightarrow> bool" where
  "is_DomainInvariantError (DomainInvariantError m) = True"
| "is_DomainInvariantError (InvalidSubsequentAttemptError s) = True"
| "is_DomainInvariantError (InvalidAgentManifestError m) = True"
| "is_DomainInvariantError (DuplicateKeyError what w k) = True"
| "is_DomainInvariantError (InvalidWorkflowDefinitionError m) = True"
| "is_DomainInvariantError (WorkflowDefinitionNotExecutableError v) = True"
| "is_DomainInvariantError (WorkflowWaitCorrelationResolutionError m) = True"
| "is_DomainInvariantError (WorkflowWaitResolutionConflictError x a) = True"
| "is_DomainInvariantError (WorkflowWaitResolutionNotDueError r d n) = True"
| "is_DomainInvariantError (WorkflowWaitEventNotEligibleError w e) = True"
| "is_DomainInvariantError (WorkflowEventIdempotencyConflictError w s k) = True"
| "is_DomainInvariantError _ = False"

fun is_LifecycleConflictError :: "osva_error \<Rightarrow> bool" where
  "is_LifecycleConflictError (LifecycleConflictError e i s) = True"
| "is_LifecycleConflictError _ = False"

text \<open>
  \<open>error instanceof DomainInvariantError && error.message.includes(p)\<close>: the recovery tests
  of the orchestration code, whose errors carry their message.
\<close>

fun domain_error_mentions :: "string \<Rightarrow> osva_error \<Rightarrow> bool" where
  "domain_error_mentions p (DomainInvariantError m) = js_includes m p"
| "domain_error_mentions p _ = False"

text \<open>\<open>date.toISOString()\<close>, which throws on the invalid date.\<close>

fun toISOString :: "js_date \<Rightarrow> osva_error + string" where
  "toISOString InvalidDate = Inl (RangeError ''Invalid time value'')"
| "toISOString (DateMs t) = Inr (iso_text t)"

end
