(* ===== verification/Js_Value.thy ===== *)
theory Js_Value
  imports Osva_Errors Complex_Main
begin

text \<open>
  JavaScript values and the JSON layer every component stands on: the canonical-JSON test of
  \<open>contracts/src/json-value.ts\<close>, the defensive copies of \<open>domain/src/internals.ts\<close>, the
  canonical equality of \<open>domain/src/json-equality.ts\<close> and the RFC 6901 pointers of
  \<open>contracts/src/json-pointer.ts\<close>.

  A number is a rational (every finite double is one), NaN or an infinity. An object is its
  own enumerable string-keyed properties in property order. \<open>JInstance\<close> is an object
  that is not a plain record (a class instance, or one with symbol keys), \<open>JFunction\<close> a
  function or a symbol.
\<close>

datatype js_num = Finite rat | NaN | Infinity bool

datatype jsv =
    JUndefined
  | JNull
  | JBool bool
  | JNumber js_num
  | JString string
  | JArray "jsv list"
  | JObject "(string \<times> jsv) list"
  | JInstance "(string \<times> jsv) list"
  | JFunction
  | JBigInt int

fun num_is_finite :: "js_num \<Rightarrow> bool" where
  "num_is_finite (Finite q) = True"
| "num_is_finite _ = False"

subsection \<open>The canonical-JSON test (json-value.ts)\<close>

text \<open>
  The source's test carries a \<open>WeakSet\<close> of the objects it has met. Values with object
  identity: every array and object has a reference number. The test answers and returns the
  set it grew, and \<open>every\<close> stops at the first failure.
\<close>

datatype jref =
    RUndefined
  | RNull
  | RBool bool
  | RNumber js_num
  | RString string
  | RArray nat "jref list"
  | RObject nat "(string \<times> jref) list"
  | RInstance nat "(string \<times> jref) list"
  | RFunction
  | RBigInt int

fun checkCanonicalJsonValue :: "jref \<Rightarrow> nat list \<Rightarrow> bool \<times> nat list"
and checkEvery :: "jref list \<Rightarrow> nat list \<Rightarrow> bool \<times> nat list"
and checkEveryField :: "(string \<times> jref) list \<Rightarrow> nat list \<Rightarrow> bool \<times> nat list" where
  "checkCanonicalJsonValue RNull seen = (True, seen)"
| "checkCanonicalJsonValue (RBool b) seen = (True, seen)"
| "checkCanonicalJsonValue (RString s) seen = (True, seen)"
| "checkCanonicalJsonValue (RNumber n) seen = (num_is_finite n, seen)"
| "checkCanonicalJsonValue (RArray i xs) seen =
     (if i \<in> set seen then (False, seen) else checkEvery xs (i # seen))"
| "checkCanonicalJsonValue (RObject i kvs) seen =
     (if i \<in> set seen then (False, seen) else checkEveryField kvs (i # seen))"
| "checkCanonicalJsonValue (RInstance i kvs) seen =
     (if i \<in> set seen then (False, seen) else (False, i # seen))"
| "checkCanonicalJsonValue RUndefined seen = (False, seen)"
| "checkCanonicalJsonValue RFunction seen = (False, seen)"
| "checkCanonicalJsonValue (RBigInt n) seen = (False, seen)"
| "checkEvery [] seen = (True, seen)"
| "checkEvery (x # xs) seen =
     (case checkCanonicalJsonValue x seen of
        (False, seen') \<Rightarrow> (False, seen')
      | (True, seen') \<Rightarrow> checkEvery xs seen')"
| "checkEveryField [] seen = (True, seen)"
| "checkEveryField ((k, x) # kvs) seen =
     (case checkCanonicalJsonValue x seen of
        (False, seen') \<Rightarrow> (False, seen')
      | (True, seen') \<Rightarrow> checkEveryField kvs seen')"

definition isCanonicalJsonValue :: "jref \<Rightarrow> bool" where
  "isCanonicalJsonValue v = fst (checkCanonicalJsonValue v [])"

text \<open>The value behind the references, its references in visiting order, and the test on trees.\<close>

primrec erase_refs :: "jref \<Rightarrow> jsv" where
  "erase_refs RUndefined = JUndefined"
| "erase_refs RNull = JNull"
| "erase_refs (RBool b) = JBool b"
| "erase_refs (RNumber n) = JNumber n"
| "erase_refs (RString s) = JString s"
| "erase_refs (RArray i xs) = JArray (List.map erase_refs xs)"
| "erase_refs (RObject i kvs) = JObject (List.map (map_prod id erase_refs) kvs)"
| "erase_refs (RInstance i kvs) = JInstance (List.map (map_prod id erase_refs) kvs)"
| "erase_refs RFunction = JFunction"
| "erase_refs (RBigInt n) = JBigInt n"

primrec refs_of :: "jref \<Rightarrow> nat list" where
  "refs_of RUndefined = []"
| "refs_of RNull = []"
| "refs_of (RBool b) = []"
| "refs_of (RNumber n) = []"
| "refs_of (RString s) = []"
| "refs_of (RArray i xs) = i # concat (List.map refs_of xs)"
| "refs_of (RObject i kvs) = i # concat (List.map snd (List.map (map_prod id refs_of) kvs))"
| "refs_of (RInstance i kvs) = i # concat (List.map snd (List.map (map_prod id refs_of) kvs))"
| "refs_of RFunction = []"
| "refs_of (RBigInt n) = []"

fun canonical_tree :: "jsv \<Rightarrow> bool" where
  "canonical_tree JNull = True"
| "canonical_tree (JBool b) = True"
| "canonical_tree (JString s) = True"
| "canonical_tree (JNumber n) = num_is_finite n"
| "canonical_tree (JArray xs) = (\<forall>x\<in>set xs. canonical_tree x)"
| "canonical_tree (JObject kvs) = (\<forall>kv\<in>set kvs. canonical_tree (snd kv))"
| "canonical_tree _ = False"

lemma seen_step:
  assumes "distinct r" "set r \<inter> set s = {}" "set s' = set r \<union> set s"
  shows "distinct c \<and> set c \<inter> set s' = {} \<longleftrightarrow> distinct (r @ c) \<and> set (r @ c) \<inter> set s = {}"
  using assms by auto

lemma check_spec:
  "\<exists>s'. checkCanonicalJsonValue v seen =
     (canonical_tree (erase_refs v) \<and> distinct (refs_of v) \<and> set (refs_of v) \<inter> set seen = {}, s')
   \<and> (fst (checkCanonicalJsonValue v seen) \<longrightarrow> set s' = set (refs_of v) \<union> set seen)"
  "\<exists>s'. checkEvery xs seen =
     ((\<forall>x\<in>set xs. canonical_tree (erase_refs x)) \<and> distinct (concat (List.map refs_of xs))
        \<and> set (concat (List.map refs_of xs)) \<inter> set seen = {}, s')
   \<and> (fst (checkEvery xs seen) \<longrightarrow> set s' = set (concat (List.map refs_of xs)) \<union> set seen)"
  "\<exists>s'. checkEveryField kvs seen =
     ((\<forall>kv\<in>set kvs. canonical_tree (erase_refs (snd kv)))
        \<and> distinct (concat (List.map (refs_of \<circ> snd) kvs))
        \<and> set (concat (List.map (refs_of \<circ> snd) kvs)) \<inter> set seen = {}, s')
   \<and> (fst (checkEveryField kvs seen) \<longrightarrow>
        set s' = set (concat (List.map (refs_of \<circ> snd) kvs)) \<union> set seen)"
proof (induction v seen and xs seen and kvs seen
    rule: checkCanonicalJsonValue_checkEvery_checkEveryField.induct)
  case (5 i xs seen)
  then show ?case by (cases "i \<in> set seen") auto
next
  case (6 i kvs seen)
  then show ?case by (cases "i \<in> set seen") (auto simp: comp_def)
next
  case (12 x xs seen)
  obtain b s' where x: "checkCanonicalJsonValue x seen = (b, s')" by force
  show ?case
  proof (cases b)
    case True
    with x 12(1) have b: "canonical_tree (erase_refs x)" "distinct (refs_of x)"
      "set (refs_of x) \<inter> set seen = {}" and s': "set s' = set (refs_of x) \<union> set seen" by auto
    let ?C = "concat (List.map refs_of xs)"
    from 12(2) [OF x [symmetric]] True obtain s'' where
      c: "checkEvery xs s' = ((\<forall>x\<in>set xs. canonical_tree (erase_refs x)) \<and> distinct ?C
          \<and> set ?C \<inter> set s' = {}, s'')"
      and g: "fst (checkEvery xs s') \<longrightarrow> set s'' = set ?C \<union> set s'" by blast
    have "fst (checkEvery xs s') \<longrightarrow> set s'' = set (refs_of x @ ?C) \<union> set seen"
      using g s' by auto
    with True x b(1) c seen_step [OF b(2,3) s', of ?C] show ?thesis
      by (intro exI [of _ s'']) (simp del: distinct_append set_append set_concat)
  next
    case False
    with x 12(1) show ?thesis by auto
  qed
next
  case (14 k x kvs seen)
  obtain b s' where x: "checkCanonicalJsonValue x seen = (b, s')" by force
  show ?case
  proof (cases b)
    case True
    with x 14(1) have b: "canonical_tree (erase_refs x)" "distinct (refs_of x)"
      "set (refs_of x) \<inter> set seen = {}" and s': "set s' = set (refs_of x) \<union> set seen" by auto
    let ?C = "concat (List.map (refs_of \<circ> snd) kvs)"
    from 14(2) [OF x [symmetric]] True obtain s'' where
      c: "checkEveryField kvs s' = ((\<forall>kv\<in>set kvs. canonical_tree (erase_refs (snd kv)))
          \<and> distinct ?C \<and> set ?C \<inter> set s' = {}, s'')"
      and g: "fst (checkEveryField kvs s') \<longrightarrow> set s'' = set ?C \<union> set s'" by blast
    have "fst (checkEveryField kvs s') \<longrightarrow> set s'' = set (refs_of x @ ?C) \<union> set seen"
      using g s' by auto
    with True x b(1) c seen_step [OF b(2,3) s', of ?C] show ?thesis
      by (intro exI [of _ s'']) (simp del: distinct_append set_append set_concat add: comp_def)
  next
    case False
    with x 14(1) show ?thesis by auto
  qed
qed auto

text \<open>
  The canonical-JSON test accepts exactly the trees of JSON values: the value is JSON
  data and no object occurs in it twice. A value that shares one object between two places
  is refused although it is neither cyclic nor unprintable.
\<close>

theorem isCanonicalJsonValue_iff:
  "isCanonicalJsonValue v \<longleftrightarrow> canonical_tree (erase_refs v) \<and> distinct (refs_of v)"
  using check_spec(1) [of v "[]"] by (auto simp: isCanonicalJsonValue_def)

subsection \<open>Defensive copies (internals.ts)\<close>

definition copyInstant :: "js_date \<Rightarrow> osva_error + js_date" where
  "copyInstant d =
     (case d of InvalidDate \<Rightarrow> Inl (DomainInvariantError ''Timestamp must be a valid Date.'')
      | DateMs t \<Rightarrow> Inr (DateMs t))"

definition copyOptInstant :: "js_date option \<Rightarrow> osva_error + js_date option" where
  "copyOptInstant d = (case d of None \<Rightarrow> Inr None | Some t \<Rightarrow> and_then (copyInstant t) (\<lambda>t'. Inr (Some t')))"

lemma copyInstant_Inr [result_simps]: "copyInstant d = Inr e \<longleftrightarrow> valid_date d \<and> e = d"
  by (cases d) (auto simp: copyInstant_def)

lemma copyInstant_valid [simp]: "valid_date d \<Longrightarrow> copyInstant d = Inr d"
  by (simp add: copyInstant_Inr)

lemma copyInstant_simps [simp]:
  "copyInstant InvalidDate = Inl (DomainInvariantError ''Timestamp must be a valid Date.'')"
  "copyInstant (DateMs t) = Inr (DateMs t)"
  by (simp_all add: copyInstant_def)

lemma copyOptInstant_Inr [result_simps]:
  "copyOptInstant d = Inr e \<longleftrightarrow> (\<forall>t. d = Some t \<longrightarrow> valid_date t) \<and> e = d"
  by (cases d) (auto simp: copyOptInstant_def result_simps)

definition requireNonEmptyString :: "string \<Rightarrow> string \<Rightarrow> osva_error + string" where
  "requireNonEmptyString value field =
     (if js_blank value then Inl (DomainInvariantError (field @ '' must be a non-empty string.''))
      else Inr value)"

definition requireBoundedNonEmptyString ::
    "string \<Rightarrow> string \<Rightarrow> nat \<Rightarrow> osva_error + string" where
  "requireBoundedNonEmptyString value field maxLength =
     and_then (requireNonEmptyString value field) (\<lambda>normalized.
       if maxLength < length normalized
       then Inl (DomainInvariantError
              (field @ '' must be at most '' @ nat_str maxLength @ '' characters.''))
       else Inr normalized)"

definition requirePositiveInteger :: "int \<Rightarrow> string \<Rightarrow> osva_error + int" where
  "requirePositiveInteger value field =
     (if value < 1 then Inl (DomainInvariantError (field @ '' must be a positive integer.''))
      else Inr value)"

definition requireNonNegativeInteger :: "int \<Rightarrow> string \<Rightarrow> osva_error + int" where
  "requireNonNegativeInteger value field =
     (if value < 0 then Inl (DomainInvariantError (field @ '' must be a non-negative integer.''))
      else Inr value)"

lemma requireNonEmptyString_Inr [result_simps]:
  "requireNonEmptyString v f = Inr w \<longleftrightarrow> \<not> js_blank v \<and> w = v"
  by (auto simp: requireNonEmptyString_def)

lemma requireBoundedNonEmptyString_Inr [result_simps]:
  "requireBoundedNonEmptyString v f n = Inr w \<longleftrightarrow> \<not> js_blank v \<and> length v \<le> n \<and> w = v"
  by (auto simp: requireBoundedNonEmptyString_def result_simps)

lemma requirePositiveInteger_Inr [result_simps]:
  "requirePositiveInteger n f = Inr m \<longleftrightarrow> 1 \<le> n \<and> m = n"
  by (auto simp: requirePositiveInteger_def)

text \<open>
  \<open>copy[key] = nested\<close> for every entry in turn, on a fresh record. An own property named
  \<open>__proto__\<close> (\<open>JSON.parse\<close> makes them) does not become one of the copy: the
  assignment calls the inherited setter, which changes the prototype when the value is an object
  and does nothing when it is not. The copy then no longer is a plain record.
\<close>

definition proto_key :: string where
  "proto_key = ''__proto__''"

fun js_object :: "jsv \<Rightarrow> bool" where
  "js_object (JArray xs) = True"
| "js_object (JObject kvs) = True"
| "js_object (JInstance kvs) = True"
| "js_object JFunction = True"
| "js_object _ = False"

definition assign_entries :: "(string \<times> jsv) list \<Rightarrow> jsv" where
  "assign_entries kvs =
     (let own = filter (\<lambda>kv. fst kv \<noteq> proto_key) kvs
      in if (\<exists>kv\<in>set kvs. fst kv = proto_key \<and> js_object (snd kv)) then JInstance own
         else JObject own)"

text \<open>
  \<open>cloneJsonLike\<close> rebuilds arrays and objects from their enumerable properties, so a class
  instance becomes a plain record. Freezing is not observable here: values do not change.
\<close>

primrec cloneJsonLike :: "jsv \<Rightarrow> jsv" where
  "cloneJsonLike JUndefined = JUndefined"
| "cloneJsonLike JNull = JNull"
| "cloneJsonLike (JBool b) = JBool b"
| "cloneJsonLike (JNumber n) = JNumber n"
| "cloneJsonLike (JString s) = JString s"
| "cloneJsonLike (JArray xs) = JArray (List.map cloneJsonLike xs)"
| "cloneJsonLike (JObject kvs) = assign_entries (List.map (map_prod id cloneJsonLike) kvs)"
| "cloneJsonLike (JInstance kvs) = assign_entries (List.map (map_prod id cloneJsonLike) kvs)"
| "cloneJsonLike JFunction = JFunction"
| "cloneJsonLike (JBigInt n) = JBigInt n"

definition freezeClone :: "jsv \<Rightarrow> jsv" where
  "freezeClone v = cloneJsonLike v"

text \<open>
  \<open>JSON.parse(JSON.stringify(v))\<close>. \<open>None\<close> at the top is \<open>JSON.stringify\<close> returning
  undefined; inside an array that is \<open>null\<close>, inside an object the property is left out. A
  BigInt throws. Non-finite numbers print as \<open>null\<close>.
\<close>

fun json_roundtrip :: "jsv \<Rightarrow> (unit + jsv option)"
and json_roundtrip_items :: "jsv list \<Rightarrow> (unit + jsv list)"
and json_roundtrip_fields :: "(string \<times> jsv) list \<Rightarrow> (unit + (string \<times> jsv) list)" where
  "json_roundtrip JUndefined = Inr None"
| "json_roundtrip JFunction = Inr None"
| "json_roundtrip (JBigInt n) = Inl ()"
| "json_roundtrip JNull = Inr (Some JNull)"
| "json_roundtrip (JBool b) = Inr (Some (JBool b))"
| "json_roundtrip (JNumber n) = Inr (Some (if num_is_finite n then JNumber n else JNull))"
| "json_roundtrip (JString s) = Inr (Some (JString s))"
| "json_roundtrip (JArray xs) = and_then (json_roundtrip_items xs) (\<lambda>ys. Inr (Some (JArray ys)))"
| "json_roundtrip (JObject kvs) =
     and_then (json_roundtrip_fields kvs) (\<lambda>ys. Inr (Some (JObject ys)))"
| "json_roundtrip (JInstance kvs) =
     and_then (json_roundtrip_fields kvs) (\<lambda>ys. Inr (Some (JObject ys)))"
| "json_roundtrip_items [] = Inr []"
| "json_roundtrip_items (x # xs) =
     and_then (json_roundtrip x) (\<lambda>y. and_then (json_roundtrip_items xs) (\<lambda>ys.
       Inr ((case y of None \<Rightarrow> JNull | Some v \<Rightarrow> v) # ys)))"
| "json_roundtrip_fields [] = Inr []"
| "json_roundtrip_fields ((k, x) # kvs) =
     and_then (json_roundtrip x) (\<lambda>y. and_then (json_roundtrip_fields kvs) (\<lambda>ys.
       Inr ((case y of None \<Rightarrow> [] | Some v \<Rightarrow> [(k, v)]) @ ys)))"

definition copyJsonValue :: "jsv \<Rightarrow> string \<Rightarrow> osva_error + jsv" where
  "copyJsonValue value field =
     (if value = JUndefined then Inl (DomainInvariantError (field @ '' is required.''))
      else case json_roundtrip value of
             Inr (Some v) \<Rightarrow> Inr (freezeClone v)
           | _ \<Rightarrow> Inl (DomainInvariantError (field @ '' must be JSON-compatible.'')))"

definition copyCanonicalJsonValue :: "jsv \<Rightarrow> string \<Rightarrow> osva_error + jsv" where
  "copyCanonicalJsonValue value field =
     (if \<not> canonical_tree value
      then Inl (DomainInvariantError (field @ '' must be JSON-compatible.''))
      else Inr (freezeClone value))"

text \<open>JSON data in which no object has an own property named \<open>__proto__\<close>.\<close>

fun plain_json :: "jsv \<Rightarrow> bool" where
  "plain_json JNull = True"
| "plain_json (JBool b) = True"
| "plain_json (JString s) = True"
| "plain_json (JNumber n) = num_is_finite n"
| "plain_json (JArray xs) = (\<forall>x\<in>set xs. plain_json x)"
| "plain_json (JObject kvs) = (\<forall>kv\<in>set kvs. fst kv \<noteq> proto_key \<and> plain_json (snd kv))"
| "plain_json _ = False"

lemma plain_json_canonical: "plain_json v \<Longrightarrow> canonical_tree v"
  by (induction v rule: plain_json.induct) auto

lemma assign_entries_plain: "\<forall>kv\<in>set kvs. fst kv \<noteq> proto_key \<Longrightarrow> assign_entries kvs = JObject kvs"
  by (auto simp: assign_entries_def)

lemma cloneJsonLike_plain [simp]: "plain_json v \<Longrightarrow> cloneJsonLike v = v"
proof (induction v)
  case (JObject kvs)
  have "List.map (map_prod id cloneJsonLike) kvs = kvs"
    using JObject by (force intro!: map_idI)
  with JObject show ?case by (simp add: assign_entries_plain)
qed (auto intro!: map_idI)

lemma json_roundtrip_canonical:
  "canonical_tree v \<Longrightarrow> json_roundtrip v = Inr (Some v)"
  "\<forall>x\<in>set xs. canonical_tree x \<Longrightarrow> json_roundtrip_items xs = Inr xs"
  "\<forall>kv\<in>set kvs. canonical_tree (snd kv) \<Longrightarrow> json_roundtrip_fields kvs = Inr kvs"
  by (induction v and xs and kvs rule: json_roundtrip_json_roundtrip_items_json_roundtrip_fields.induct)
     auto

lemma json_roundtrip_result:
  "json_roundtrip v = Inr (Some w) \<Longrightarrow> canonical_tree w"
  "json_roundtrip_items xs = Inr ys \<Longrightarrow> \<forall>x\<in>set ys. canonical_tree x"
  "json_roundtrip_fields kvs = Inr lvs \<Longrightarrow> \<forall>kv\<in>set lvs. canonical_tree (snd kv)"
proof (induction v and xs and kvs arbitrary: w and ys and lvs
    rule: json_roundtrip_json_roundtrip_items_json_roundtrip_fields.induct)
  case (12 x xs)
  then show ?case by (fastforce simp: result_simps split: option.splits)
next
  case (14 k x kvs)
  then show ?case by (fastforce simp: result_simps split: option.splits)
qed (auto simp: result_simps split: if_splits)

lemma canonical_not_undefined [simp]: "\<not> canonical_tree JUndefined"
  by simp

lemma copyJsonValue_plain [simp]: "plain_json v \<Longrightarrow> copyJsonValue v f = Inr v"
  by (auto simp: copyJsonValue_def json_roundtrip_canonical plain_json_canonical freezeClone_def)

lemma copyCanonicalJsonValue_plain [simp]: "plain_json v \<Longrightarrow> copyCanonicalJsonValue v f = Inr v"
  by (simp add: copyCanonicalJsonValue_def freezeClone_def plain_json_canonical)

text \<open>The names a value uses, and that copying uses no others.\<close>

fun uses_proto :: "jsv \<Rightarrow> bool" where
  "uses_proto (JArray xs) = (\<exists>x\<in>set xs. uses_proto x)"
| "uses_proto (JObject kvs) = (\<exists>kv\<in>set kvs. fst kv = proto_key \<or> uses_proto (snd kv))"
| "uses_proto (JInstance kvs) = (\<exists>kv\<in>set kvs. fst kv = proto_key \<or> uses_proto (snd kv))"
| "uses_proto _ = False"

lemma plain_json_iff: "plain_json v \<longleftrightarrow> canonical_tree v \<and> \<not> uses_proto v"
  by (induction v rule: plain_json.induct) auto

lemma json_roundtrip_uses:
  "json_roundtrip v = Inr (Some w) \<Longrightarrow> \<not> uses_proto v \<Longrightarrow> \<not> uses_proto w"
  "json_roundtrip_items xs = Inr ys \<Longrightarrow> \<forall>x\<in>set xs. \<not> uses_proto x \<Longrightarrow> \<forall>x\<in>set ys. \<not> uses_proto x"
  "json_roundtrip_fields kvs = Inr lvs \<Longrightarrow>
     \<forall>kv\<in>set kvs. fst kv \<noteq> proto_key \<and> \<not> uses_proto (snd kv) \<Longrightarrow>
     \<forall>kv\<in>set lvs. fst kv \<noteq> proto_key \<and> \<not> uses_proto (snd kv)"
proof (induction v and xs and kvs arbitrary: w and ys and lvs
    rule: json_roundtrip_json_roundtrip_items_json_roundtrip_fields.induct)
  case (12 x xs)
  then show ?case by (fastforce simp: result_simps split: option.splits)
next
  case (14 k x kvs)
  then show ?case by (fastforce simp: result_simps split: option.splits)
qed (auto simp: result_simps split: if_splits)

lemma copyJsonValue_result:
  assumes "copyJsonValue v f = Inr w" "\<not> uses_proto v"
  shows "plain_json w"
proof -
  from assms(1) obtain u where u: "json_roundtrip v = Inr (Some u)" "w = freezeClone u"
    by (auto simp: copyJsonValue_def split: if_splits sum.splits option.splits)
  have "plain_json u"
    using json_roundtrip_result(1) [OF u(1)] json_roundtrip_uses(1) [OF u(1) assms(2)]
    by (simp add: plain_json_iff)
  with u(2) show ?thesis by (simp add: freezeClone_def)
qed

lemma assign_entries_no_proto:
  "\<forall>kv\<in>set kvs. \<not> uses_proto (snd kv) \<Longrightarrow> \<not> uses_proto (assign_entries kvs)"
  by (auto simp: assign_entries_def Let_def)

lemma cloneJsonLike_no_proto [simp]: "\<not> uses_proto (cloneJsonLike v)"
proof (induction v)
  case (JObject kvs)
  then show ?case by (auto intro!: assign_entries_no_proto simp: prod_set_simps)
next
  case (JInstance kvs)
  then show ?case by (auto intro!: assign_entries_no_proto simp: prod_set_simps)
qed auto

lemma copyCanonicalJsonValue_undefined: "copyCanonicalJsonValue v f \<noteq> Inr JUndefined"
proof
  assume "copyCanonicalJsonValue v f = Inr JUndefined"
  then have "canonical_tree v" "cloneJsonLike v = JUndefined"
    by (auto simp: copyCanonicalJsonValue_def freezeClone_def split: if_splits)
  then show False by (cases v) (auto simp: assign_entries_def Let_def split: if_splits)
qed

lemma copyCanonicalJsonValue_no_proto: "copyCanonicalJsonValue v f = Inr w \<Longrightarrow> \<not> uses_proto w"
  by (auto simp: copyCanonicalJsonValue_def freezeClone_def split: if_splits)

text \<open>
  The copy a domain object keeps of a JSON-like value is canonical JSON, whatever the
  caller passed, and copying it again gives the same value: as long as no object in it has a
  property named \<open>__proto__\<close>.
\<close>

theorem copyJsonValue_idempotent:
  assumes "copyJsonValue v f = Inr w" and "\<not> uses_proto v"
  shows "canonical_tree w \<and> copyJsonValue w g = Inr w \<and> copyCanonicalJsonValue w h = Inr w"
  using copyJsonValue_result [OF assms] by (simp add: plain_json_canonical)

theorem copyJsonValue_idempotent_witness:
  "copyJsonValue (JArray [JUndefined, JNumber NaN, JInstance [(''a'', JFunction), (''b'', JBool True)]]) ''x''
     = Inr (JArray [JNull, JNull, JObject [(''b'', JBool True)]])
   \<and> copyJsonValue (JArray [JNull, JNull, JObject [(''b'', JBool True)]]) ''y''
     = Inr (JArray [JNull, JNull, JObject [(''b'', JBool True)]])"
proof -
  have "copyJsonValue (JArray [JUndefined, JNumber NaN, JInstance [(''a'', JFunction), (''b'', JBool True)]]) ''x''
     = Inr (JArray [JNull, JNull, JObject [(''b'', JBool True)]])"
    by (simp add: copyJsonValue_def freezeClone_def assign_entries_def proto_key_def)
  with copyJsonValue_idempotent [OF this, of "''y''" "''z''"] show ?thesis
    by (simp add: proto_key_def)
qed

text \<open>
  A value with an own \<open>__proto__\<close> property loses it in the copy, and the copy is no
  canonical JSON value any more: copying it a second time with \<open>copyCanonicalJsonValue\<close> throws.
\<close>

theorem copyJsonValue_loses_proto:
  "canonical_tree (JObject [(''__proto__'', JObject [(''admin'', JBool True)])])
   \<and> copyJsonValue (JObject [(''__proto__'', JObject [(''admin'', JBool True)])]) f = Inr (JInstance [])
   \<and> copyCanonicalJsonValue (JInstance []) g
       = Inl (DomainInvariantError (g @ '' must be JSON-compatible.''))"
  by (simp add: copyJsonValue_def copyCanonicalJsonValue_def freezeClone_def assign_entries_def
      proto_key_def)



end
