(* ===== verification/Json_Text.thy ===== *)
theory Json_Text
  imports Js_Value "HOL-Library.Multiset"
begin

text \<open>
  Canonical JSON text and its digest (\<open>domain/src/json-equality.ts\<close>).

  A JSON text is its sequence of tokens: \<open>JSON.stringify\<close> prints without spaces, and how it
  prints one number or one string is left to the token. Two texts are equal exactly when their
  token sequences are. SHA-256 is a parameter.
\<close>

subsection \<open>Canonical text\<close>

datatype json_token =
    TNull | TBool bool | TNumber js_num | TString string
  | TOpenArray | TCloseArray | TOpenObject | TCloseObject | TComma | TColon

fun separated :: "json_token list list \<Rightarrow> json_token list" where
  "separated [] = []"
| "separated (t # ts) = t @ concat (List.map (\<lambda>u. TComma # u) ts)"

primrec JSON_stringify :: "jsv \<Rightarrow> json_token list" where
  "JSON_stringify JUndefined = [TNull]"
| "JSON_stringify JNull = [TNull]"
| "JSON_stringify (JBool b) = [TBool b]"
| "JSON_stringify (JNumber n) = [if num_is_finite n then TNumber n else TNull]"
| "JSON_stringify (JString s) = [TString s]"
| "JSON_stringify (JArray xs) =
     TOpenArray # separated (List.map JSON_stringify xs) @ [TCloseArray]"
| "JSON_stringify (JObject kvs) =
     TOpenObject # separated (List.map (\<lambda>(k, t). TString k # TColon # t)
       (List.map (map_prod id JSON_stringify) kvs)) @ [TCloseObject]"
| "JSON_stringify (JInstance kvs) =
     TOpenObject # separated (List.map (\<lambda>(k, t). TString k # TColon # t)
       (List.map (map_prod id JSON_stringify) kvs)) @ [TCloseObject]"
| "JSON_stringify JFunction = [TNull]"
| "JSON_stringify (JBigInt n) = [TNull]"

text \<open>
  The order of an object's own properties: array-index names ascending, then the others as they
  were added. \<open>Object.keys(o).sort()\<close> compares names by code units, as \<open>sort_key\<close> on
  strings does here.
\<close>

fun digits_value :: "string \<Rightarrow> nat \<Rightarrow> nat option" where
  "digits_value [] n = Some n"
| "digits_value (c # cs) n =
     (if ''0'' \<le> [c] \<and> [c] \<le> ''9'' then digits_value cs (10 * n + (of_char c - 48)) else None)"

definition array_index :: "string \<Rightarrow> nat option" where
  "array_index s =
     (if s = [] \<or> (hd s = CHR ''0'' \<and> s \<noteq> ''0'') then None
      else case digits_value s 0 of Some n \<Rightarrow> (if n < 2 ^ 32 - 1 then Some n else None) | None \<Rightarrow> None)"

definition property_order :: "(string \<times> jsv) list \<Rightarrow> (string \<times> jsv) list" where
  "property_order kvs =
     sort_key (\<lambda>kv. the (array_index (fst kv))) (filter (\<lambda>kv. array_index (fst kv) \<noteq> None) kvs)
     @ filter (\<lambda>kv. array_index (fst kv) = None) kvs"

primrec sortKeys :: "jsv \<Rightarrow> jsv" where
  "sortKeys JUndefined = JUndefined"
| "sortKeys JNull = JNull"
| "sortKeys (JBool b) = JBool b"
| "sortKeys (JNumber n) = JNumber n"
| "sortKeys (JString s) = JString s"
| "sortKeys (JArray xs) = JArray (List.map sortKeys xs)"
| "sortKeys (JObject kvs) =
     assign_entries (property_order (sort_key fst (List.map (map_prod id sortKeys) kvs)))"
| "sortKeys (JInstance kvs) =
     assign_entries (property_order (sort_key fst (List.map (map_prod id sortKeys) kvs)))"
| "sortKeys JFunction = JFunction"
| "sortKeys (JBigInt n) = JBigInt n"

definition canonicalJsonStringify :: "jsv \<Rightarrow> json_token list" where
  "canonicalJsonStringify v = JSON_stringify (sortKeys v)"

definition jsonValuesEqual :: "jsv \<Rightarrow> jsv \<Rightarrow> bool" where
  "jsonValuesEqual l r = (canonicalJsonStringify l = canonicalJsonStringify r)"

definition digestCanonicalJsonValue :: "(json_token list \<Rightarrow> string) \<Rightarrow> jsv \<Rightarrow> string" where
  "digestCanonicalJsonValue sha256 v = ''sha256:'' @ sha256 (canonicalJsonStringify v)"

text \<open>The text determines the value: printing is injective on JSON data.\<close>

abbreviation item_tokens :: "jsv list \<Rightarrow> json_token list" where
  "item_tokens xs \<equiv> concat (List.map (\<lambda>t. TComma # t) (List.map JSON_stringify xs))"

abbreviation field_tokens :: "(string \<times> jsv) list \<Rightarrow> json_token list" where
  "field_tokens kvs \<equiv> concat (List.map (\<lambda>t. TComma # t)
     (List.map (\<lambda>(k, t). TString k # TColon # t) (List.map (map_prod id JSON_stringify) kvs)))"

lemma separated_comma: "ts \<noteq> [] \<Longrightarrow> TComma # separated ts = concat (List.map (\<lambda>t. TComma # t) ts)"
  by (cases ts) auto

lemma stringify_start: "JSON_stringify v \<noteq> TCloseArray # r" "JSON_stringify v @ s \<noteq> TCloseArray # r"
  by (cases v; simp)+

lemma separated_inject:
  assumes "separated ts @ d # r = separated us @ d # s" "d \<noteq> TComma"
    and "\<forall>t\<in>set ts \<union> set us. \<forall>q r. t @ q \<noteq> d # r"
  shows "concat (List.map (\<lambda>t. TComma # t) ts) @ d # r = concat (List.map (\<lambda>t. TComma # t) us) @ d # s"
proof (cases "ts = [] \<or> us = []")
  case True
  with assms show ?thesis by (cases ts; cases us) (auto simp: eq_commute [of "d # _"])
next
  case False
  with assms(1) show ?thesis
    using separated_comma [of ts] separated_comma [of us] by (metis append_Cons)
qed

lemma stringify_unique_items:
  assumes "\<And>x w r s. x \<in> set xs \<Longrightarrow> plain_json w \<Longrightarrow>
      JSON_stringify x @ r = JSON_stringify w @ s \<Longrightarrow> x = w \<and> r = s"
    and "\<forall>y\<in>set ys. plain_json y"
    and "item_tokens xs @ TCloseArray # r = item_tokens ys @ TCloseArray # s"
  shows "xs = ys \<and> r = s"
  using assms
proof (induction xs arbitrary: ys)
  case Nil
  then show ?case by (cases ys) auto
next
  case (Cons x xs)
  then obtain y zs where ys: "ys = y # zs" by (cases ys) auto
  have "x = y \<and> item_tokens xs @ TCloseArray # r = item_tokens zs @ TCloseArray # s"
    using Cons.prems(1) [of x y] Cons.prems(2,3) by (simp add: ys)
  with Cons.IH [of zs] Cons.prems(1,2) ys show ?case by auto
qed

lemma stringify_unique_fields:
  assumes "\<And>kv w r s. kv \<in> set kvs \<Longrightarrow> plain_json w \<Longrightarrow>
      JSON_stringify (snd kv) @ r = JSON_stringify w @ s \<Longrightarrow> snd kv = w \<and> r = s"
    and "\<forall>kv\<in>set lvs. plain_json (snd kv)"
    and "field_tokens kvs @ TCloseObject # r = field_tokens lvs @ TCloseObject # s"
  shows "kvs = lvs \<and> r = s"
  using assms
proof (induction kvs arbitrary: lvs)
  case Nil
  then show ?case by (cases lvs) auto
next
  case (Cons kv kvs)
  obtain k x where kv: "kv = (k, x)" by force
  from Cons.prems(3) kv obtain l y zs where lvs: "lvs = (l, y) # zs" by (cases lvs) auto
  have "k = l \<and> JSON_stringify x @ field_tokens kvs @ TCloseObject # r
      = JSON_stringify y @ field_tokens zs @ TCloseObject # s"
    using Cons.prems(3) by (simp add: lvs kv id_def)
  with Cons.prems(1) [of kv y] Cons.prems(2)
  have eq: "k = l" "x = y" "field_tokens kvs @ TCloseObject # r = field_tokens zs @ TCloseObject # s"
    unfolding lvs kv by (metis list.set_intros(1) snd_conv)+
  have "kvs = zs \<and> r = s"
  proof (rule Cons.IH)
    show "\<And>kv w r s. kv \<in> set kvs \<Longrightarrow> plain_json w \<Longrightarrow>
        JSON_stringify (snd kv) @ r = JSON_stringify w @ s \<Longrightarrow> snd kv = w \<and> r = s"
      by (rule Cons.prems(1)) simp_all
  qed (use Cons.prems(2) lvs eq(3) in \<open>simp_all add: id_def\<close>)
  with eq(1,2) lvs kv show ?case by simp
qed

lemma stringify_unique:
  "plain_json v \<Longrightarrow> plain_json w \<Longrightarrow> JSON_stringify v @ r = JSON_stringify w @ s \<Longrightarrow> v = w \<and> r = s"
proof (induction v arbitrary: w r s)
  case (JArray xs)
  from JArray.prems obtain ys where w: "w = JArray ys" by (cases w) auto
  have "xs = ys \<and> r = s"
  proof (rule stringify_unique_items)
    show "item_tokens xs @ TCloseArray # r = item_tokens ys @ TCloseArray # s"
      by (rule separated_inject) (use JArray.prems w in \<open>auto simp: stringify_start\<close>)
  qed (use JArray w in auto)
  with w show ?case by simp
next
  case (JObject kvs)
  from JObject.prems obtain lvs where w: "w = JObject lvs" by (cases w) auto
  have "kvs = lvs \<and> r = s"
  proof (rule stringify_unique_fields)
    fix kv u r' s'
    assume "kv \<in> set kvs" "plain_json u" "JSON_stringify (snd kv) @ r' = JSON_stringify u @ s'"
    moreover obtain k x where "kv = (k, x)" by force
    ultimately show "snd kv = u \<and> r' = s'"
      using JObject.IH [of "(k, x)" x u r' s'] JObject.prems(1) by (auto simp: prod_set_simps)
  next
    show "field_tokens kvs @ TCloseObject # r = field_tokens lvs @ TCloseObject # s"
      by (rule separated_inject) (use JObject.prems w in auto)
  qed (use JObject.prems w in auto)
  with w show ?case by simp
next
  case (JString t)
  then show ?case by (cases w) (auto split: if_splits)
next
  case (JNumber n)
  then show ?case by (cases w) (auto split: if_splits)
next
  case (JBool b)
  then show ?case by (cases w) (auto split: if_splits)
next
  case JNull
  then show ?case by (cases w) (auto split: if_splits)
qed auto

lemma stringify_inject:
  "plain_json v \<Longrightarrow> plain_json w \<Longrightarrow> JSON_stringify v = JSON_stringify w \<longleftrightarrow> v = w"
  using stringify_unique [of v w "[]" "[]"] by auto

text \<open>
  What the comparison promises: equality up to the order of the properties of every object.
\<close>

inductive same_json :: "jsv \<Rightarrow> jsv \<Rightarrow> bool" where
  same_leaf: "same_json v v"
| same_array: "list_all2 same_json xs ys \<Longrightarrow> same_json (JArray xs) (JArray ys)"
| same_object: "list_all2 (\<lambda>kx ly. fst kx = fst ly \<and> same_json (snd kx) (snd ly)) kvs lvs' \<Longrightarrow>
     mset lvs' = mset lvs \<Longrightarrow> same_json (JObject kvs) (JObject lvs)"

fun distinct_names :: "jsv \<Rightarrow> bool" where
  "distinct_names (JArray xs) = (\<forall>x\<in>set xs. distinct_names x)"
| "distinct_names (JObject kvs) =
     (distinct (List.map fst kvs) \<and> (\<forall>kv\<in>set kvs. distinct_names (snd kv)))"
| "distinct_names _ = True"

lemma mset_property_order [simp]: "mset (property_order kvs) = mset kvs"
  by (simp add: property_order_def not_None_eq [symmetric] del: not_None_eq)

lemma set_property_order [simp]: "set (property_order kvs) = set kvs"
  using mset_property_order [of kvs] by (metis set_mset_mset)

lemma sortKeys_plain [simp]: "plain_json v \<Longrightarrow> plain_json (sortKeys v)"
proof (induction v)
  case (JObject kvs)
  then have "plain_json (sortKeys (snd kv))" if "kv \<in> set kvs" for kv
    using that by (cases kv) (auto simp: prod_set_simps)
  with JObject.prems show ?case by (subst sortKeys.simps, subst assign_entries_plain) auto
qed auto

lemma sortKeys_object:
  "plain_json (JObject kvs) \<Longrightarrow> sortKeys (JObject kvs) =
     JObject (property_order (sort_key fst (List.map (map_prod id sortKeys) kvs)))"
  by (subst sortKeys.simps, subst assign_entries_plain) auto

lemma same_json_sortKeys:
  "same_json v w \<Longrightarrow> plain_json v \<Longrightarrow> plain_json w \<Longrightarrow> distinct_names v \<Longrightarrow> distinct_names w \<Longrightarrow>
     sortKeys v = sortKeys w"
proof (induction rule: same_json.induct)
  case (same_array xs ys)
  then have "List.map sortKeys xs = List.map sortKeys ys"
    by (auto simp: list_all2_conv_all_nth intro!: nth_equalityI)
  then show ?case by simp
next
  case (same_object kvs lvs' lvs)
  let ?m = "List.map (map_prod id sortKeys)"
  have l: "set lvs' = set lvs" using same_object(2) by (metis set_mset_mset)
  have "list_all2 (\<lambda>kx ly. map_prod id sortKeys kx = map_prod id sortKeys ly) kvs lvs'"
    by (rule list.rel_mono_strong [OF same_object(1)])
       (use same_object.prems l in \<open>auto simp: map_prod_def split_beta\<close>)
  then have "?m kvs = ?m lvs'"
    unfolding list_all2_eq list.rel_map .
  then have m: "mset (?m kvs) = mset (?m lvs)"
    using same_object(2) by simp
  have "inj_on fst (set (?m kvs))"
    using same_object.prems(3) by (auto simp: distinct_map inj_on_def)
  with m have "sort_key fst (?m kvs) = sort_key fst (?m lvs)"
    by (intro sort_key_inj_key_eq) simp_all
  with same_object.prems show ?case by (simp add: sortKeys_object)
qed simp

lemma sortKeys_leaf:
  "plain_json w \<Longrightarrow> JNull = sortKeys w \<longleftrightarrow> w = JNull"
  "plain_json w \<Longrightarrow> JBool b = sortKeys w \<longleftrightarrow> w = JBool b"
  "plain_json w \<Longrightarrow> JNumber n = sortKeys w \<longleftrightarrow> w = JNumber n"
  "plain_json w \<Longrightarrow> JString t = sortKeys w \<longleftrightarrow> w = JString t"
  "plain_json w \<Longrightarrow> JBigInt i \<noteq> sortKeys w"
  by (cases w; auto simp: assign_entries_def Let_def)+

lemma sortKeys_same_json:
  "sortKeys v = sortKeys w \<Longrightarrow> plain_json v \<Longrightarrow> plain_json w \<Longrightarrow> same_json v w"
proof (induction v arbitrary: w)
  case (JArray xs)
  from JArray.prems obtain ys where w: "w = JArray ys"
    by (cases w) (auto simp: assign_entries_def Let_def split: if_splits)
  from JArray.prems(1) w have "list_all2 (\<lambda>x y. sortKeys x = sortKeys y) xs ys"
    by (simp add: list_all2_eq list.rel_map)
  then have "list_all2 same_json xs ys"
    by (rule list.rel_mono_strong) (use JArray w in auto)
  with w show ?case by (auto intro: same_array)
next
  case (JObject kvs)
  let ?f = "map_prod id sortKeys"
  from JObject.prems obtain lvs where w: "w = JObject lvs"
    by (cases w) (auto simp: assign_entries_def Let_def split: if_splits)
  with JObject.prems have "property_order (sort_key fst (List.map ?f kvs))
      = property_order (sort_key fst (List.map ?f lvs))"
    by (simp only: sortKeys_object jsv.inject)
  then have m: "mset (List.map ?f kvs) = mset (List.map ?f lvs)"
    by (metis mset_property_order mset_sort)
  have "list_all2 (\<lambda>a ly. a = ?f ly) (List.map ?f lvs) lvs"
    by (simp add: list.rel_map list.rel_refl)
  with m obtain lvs' where l: "list_all2 (\<lambda>a ly. a = ?f ly) (List.map ?f kvs) lvs'"
      "mset lvs' = mset lvs"
    by (metis list_all2_reorder_left_invariance)
  then have s: "set lvs' = set lvs" by (metis set_mset_mset)
  from l(1) have "list_all2 (\<lambda>kx ly. ?f kx = ?f ly) kvs lvs'"
    by (simp add: list.rel_map)
  then have "list_all2 (\<lambda>kx ly. fst kx = fst ly \<and> same_json (snd kx) (snd ly)) kvs lvs'"
  proof (rule list.rel_mono_strong)
    fix kx ly
    assume *: "kx \<in> set kvs" "ly \<in> set lvs'" "?f kx = ?f ly"
    have "plain_json (snd kx)" "plain_json (snd ly)" "snd kx \<in> Basic_BNFs.snds kx"
      using * JObject.prems w s by (auto simp: prod_set_defs)
    moreover have "fst kx = fst ly" "sortKeys (snd kx) = sortKeys (snd ly)"
      using *(3) by (auto simp: map_prod_def split_beta)
    ultimately show "fst kx = fst ly \<and> same_json (snd kx) (snd ly)"
      using JObject.IH [of kx "snd kx" "snd ly"] *(1) by blast
  qed
  with l(2) w show ?case by (auto intro: same_object)
qed (auto intro: same_leaf simp: sortKeys_leaf)

lemma canonical_text_iff:
  assumes "plain_json v" "plain_json w" "distinct_names v" "distinct_names w"
  shows "canonicalJsonStringify v = canonicalJsonStringify w \<longleftrightarrow> same_json v w"
  using assms sortKeys_same_json [of v w] same_json_sortKeys [of v w]
  by (auto simp: canonicalJsonStringify_def stringify_inject)

text \<open>
  C27. Canonical JSON equality is equality up to the order of properties: two JSON values have
  the same canonical text exactly when one is the other with the properties of its objects
  reordered. The values have each property once and none named \<open>__proto__\<close>, which the sorting of
  the source would lose.
\<close>

theorem jsonValuesEqual_iff:
  assumes "plain_json v" "plain_json w" "distinct_names v" "distinct_names w"
  shows "jsonValuesEqual v w \<longleftrightarrow> same_json v w"
  using assms by (simp add: jsonValuesEqual_def canonical_text_iff)

theorem jsonValuesEqual_iff_witness:
  "same_json (JObject [(''b'', JNull), (''1'', JBool True)]) (JObject [(''1'', JBool True), (''b'', JNull)])"
proof -
  have "jsonValuesEqual (JObject [(''b'', JNull), (''1'', JBool True)])
      (JObject [(''1'', JBool True), (''b'', JNull)])"
    by (simp add: jsonValuesEqual_def canonicalJsonStringify_def property_order_def array_index_def
        assign_entries_def proto_key_def)
  then show ?thesis
    using jsonValuesEqual_iff [of "JObject [(''b'', JNull), (''1'', JBool True)]"
        "JObject [(''1'', JBool True), (''b'', JNull)]"]
    by (simp add: proto_key_def)
qed

end
