(* ===== verification/Json_Pointer.thy ===== *)
theory Json_Pointer
  imports Js_Value
begin

text \<open>
  RFC 6901 pointers (\<open>contracts/src/json-pointer.ts\<close>), by which workflow branches select a
  value of the recorded outputs. A resolution is \<open>Some\<close> of the value found or \<open>None\<close>.
\<close>

fun isValidJsonPointerToken :: "string \<Rightarrow> bool" where
  "isValidJsonPointerToken [] = True"
| "isValidJsonPointerToken (c # cs) =
     (if c \<noteq> CHR ''~'' then isValidJsonPointerToken cs
      else (case cs of [] \<Rightarrow> False
            | d # ds \<Rightarrow> if d \<noteq> CHR ''0'' \<and> d \<noteq> CHR ''1'' then False else isValidJsonPointerToken ds))"

definition isValidJsonPointer :: "string \<Rightarrow> bool" where
  "isValidJsonPointer p =
     (if p = '''' then True
      else if \<not> js_starts_with p ''/'' then False
      else list_all isValidJsonPointerToken (js_split (CHR ''/'') (drop 1 p)))"

text \<open>\<open>replaceAll\<close> of a two-character pattern by one character.\<close>

fun replace_pair :: "char \<Rightarrow> char \<Rightarrow> char \<Rightarrow> string \<Rightarrow> string" where
  "replace_pair a b r [] = []"
| "replace_pair a b r [c] = [c]"
| "replace_pair a b r (c # d # ds) =
     (if c = a \<and> d = b then r # replace_pair a b r ds else c # replace_pair a b r (d # ds))"

definition decodeJsonPointerToken :: "string \<Rightarrow> string" where
  "decodeJsonPointerToken t =
     replace_pair (CHR ''~'') (CHR ''0'') (CHR ''~'') (replace_pair (CHR ''~'') (CHR ''1'') (CHR ''/'') t)"

definition is_digit :: "char \<Rightarrow> bool" where
  "is_digit c \<longleftrightarrow> CHR ''0'' \<le> c \<and> c \<le> CHR ''9''"

definition isArrayIndexToken :: "string \<Rightarrow> bool" where
  "isArrayIndexToken t =
     (t = ''0'' \<or> (t \<noteq> [] \<and> hd t \<noteq> CHR ''0'' \<and> list_all is_digit t))"

definition token_number :: "string \<Rightarrow> nat" where
  "token_number t = foldl (\<lambda>n c. 10 * n + (of_char c - 48)) 0 t"

fun resolve_step :: "jsv \<Rightarrow> string \<Rightarrow> jsv option" where
  "resolve_step (JArray xs) t =
     (if \<not> isArrayIndexToken t then None
      else if length xs \<le> token_number t then None else Some (xs ! token_number t))"
| "resolve_step (JObject kvs) t = map_of kvs t"
| "resolve_step (JInstance kvs) t = map_of kvs t"
| "resolve_step _ t = None"

fun resolve_tokens :: "jsv \<Rightarrow> string list \<Rightarrow> jsv option" where
  "resolve_tokens v [] = Some v"
| "resolve_tokens v (raw # raws) =
     (case resolve_step v (decodeJsonPointerToken raw) of None \<Rightarrow> None | Some w \<Rightarrow> resolve_tokens w raws)"

definition resolveJsonPointer :: "jsv \<Rightarrow> string \<Rightarrow> jsv option" where
  "resolveJsonPointer document pointer =
     (if \<not> isValidJsonPointer pointer then None
      else if pointer = '''' then Some document
      else resolve_tokens document (js_split (CHR ''/'') (drop 1 pointer)))"

text \<open>
  What a pointer means: the path of property names and indices it spells, each escaped by
  \<open>~0\<close> for \<open>~\<close> and \<open>~1\<close> for \<open>/\<close>, walked from the document.
\<close>

fun escape_token :: "string \<Rightarrow> string" where
  "escape_token [] = []"
| "escape_token (c # cs) =
     (if c = CHR ''~'' then ''~0'' else if c = CHR ''/'' then ''~1'' else [c]) @ escape_token cs"

definition pointer_of_path :: "string list \<Rightarrow> string" where
  "pointer_of_path ks = concat (map (\<lambda>k. CHR ''/'' # escape_token k) ks)"

fun walk_path :: "jsv \<Rightarrow> string list \<Rightarrow> jsv option" where
  "walk_path v [] = Some v"
| "walk_path v (k # ks) = (case resolve_step v k of None \<Rightarrow> None | Some w \<Rightarrow> walk_path w ks)"

lemma escape_no_slash [simp]: "CHR ''/'' \<notin> set (escape_token k)"
  by (induction k) auto

lemma escape_valid [simp]: "isValidJsonPointerToken (escape_token k)"
  by (induction k) auto

text \<open>The first pass turns \<open>~1\<close> into a slash and leaves the \<open>~0\<close> of an escaped token alone.\<close>

fun half_escape :: "string \<Rightarrow> string" where
  "half_escape [] = []"
| "half_escape (c # cs) = (if c = CHR ''~'' then ''~0'' else [c]) @ half_escape cs"

lemma replace_pair_other: "c \<noteq> a \<Longrightarrow> replace_pair a b r (c # cs) = c # replace_pair a b r cs"
  by (cases cs) auto

lemma decode_first_pass:
  "replace_pair (CHR ''~'') (CHR ''1'') (CHR ''/'') (escape_token k) = half_escape k"
  by (induction k) (auto simp: replace_pair_other)

lemma decode_second_pass:
  "replace_pair (CHR ''~'') (CHR ''0'') (CHR ''~'') (half_escape k) = k"
  by (induction k) (auto simp: replace_pair_other)

lemma decode_escape [simp]: "decodeJsonPointerToken (escape_token k) = k"
  by (simp add: decodeJsonPointerToken_def decode_first_pass decode_second_pass)

lemma resolve_tokens_escape: "resolve_tokens v (map escape_token ks) = walk_path v ks"
  by (induction ks arbitrary: v) (auto split: option.splits)

lemma pointer_split:
  "ks \<noteq> [] \<Longrightarrow> pointer_of_path ks = CHR ''/'' # js_join (CHR ''/'') (map escape_token ks)"
proof (induction ks)
  case Nil
  then show ?case by simp
next
  case (Cons k ks)
  then show ?case by (cases ks) (auto simp: pointer_of_path_def)
qed

lemma split_pointer:
  "ks \<noteq> [] \<Longrightarrow> js_split (CHR ''/'') (drop 1 (pointer_of_path ks)) = map escape_token ks"
  by (simp add: pointer_split js_split_join)

lemma pointer_of_path_valid [simp]: "isValidJsonPointer (pointer_of_path ks)"
proof (cases ks)
  case Nil
  then show ?thesis by (simp add: pointer_of_path_def isValidJsonPointer_def)
next
  case (Cons k ks')
  then show ?thesis
    using split_pointer [of ks] pointer_split [of ks]
    by (auto simp: isValidJsonPointer_def list_all_iff)
qed

text \<open>
  A pointer spells a path: resolving the pointer made of the escaped names and indices of a
  path walks that path, names with slashes and tildes included.
\<close>

theorem resolveJsonPointer_path:
  "resolveJsonPointer document (pointer_of_path ks) = walk_path document ks"
proof (cases ks)
  case Nil
  then show ?thesis by (simp add: resolveJsonPointer_def pointer_of_path_def isValidJsonPointer_def)
next
  case (Cons k ks')
  then have "pointer_of_path ks \<noteq> ''''" by (simp add: pointer_split)
  with Cons show ?thesis
    using split_pointer [of ks] by (simp add: resolveJsonPointer_def resolve_tokens_escape [symmetric])
qed

end
