(* ===== verification/Workflow_Definition.thy ===== *)
theory Workflow_Definition
  imports Osva_Errors Json_Text Json_Pointer
begin

text \<open>
  Workflow definitions and their validation (\<open>domain/src/workflow-definition.ts\<close>,
  \<open>contracts/src/workflow-definition.ts\<close>, \<open>contracts/src/schemas/utc-instant.ts\<close>): the node
  checks, the sequential rules of schema version 1, the graph rules of versions 2 and 3 (cycle
  search, reachability, degrees of each node type) and the graph built from an accepted
  definition.

  The \<open>Map\<close>s of predecessors and successors are insertion-ordered maps. The recursive
  \<open>visit\<close> of the cycle search is \<open>visit_keys\<close>, which visits a list of keys: its first
  argument is the set \<open>visiting\<close>, which holds the keys of the calls in progress.
\<close>

subsection \<open>Definitions (contracts)\<close>

datatype wait_correlation =
    Corr_LITERAL string
  | Corr_INPUT_POINTER string
  | Corr_OTHER string

datatype wait_config =
    Wait_DURATION js_num
  | Wait_UNTIL string
  | Wait_EVENT string string wait_correlation "js_num option"
  | Wait_OTHER string

text \<open>
  A node's type tag with the fields that belong to it. An agent node may lack its version id
  (logical graphs), a wait node its configuration; \<open>Node_OTHER\<close> is any other tag.
\<close>

datatype node_body =
    Node_AGENT "string option"
  | Node_BRANCH string "(jsv \<times> string) list" string
  | Node_PARALLEL
  | Node_JOIN
  | Node_APPROVAL string "string option"
  | Node_WAIT "wait_config option"
  | Node_OTHER string

record wf_node =
  wn_key :: string
  wn_body :: node_body

record wf_edge =
  we_from :: string
  we_to :: string

record workflow_definition =
  wd_schemaVersion :: string
  wd_nodes :: "wf_node list"
  wd_edges :: "wf_edge list"

primrec node_type :: "node_body \<Rightarrow> string" where
  "node_type (Node_AGENT v) = ''AGENT''"
| "node_type (Node_BRANCH s cs d) = ''BRANCH''"
| "node_type Node_PARALLEL = ''PARALLEL''"
| "node_type Node_JOIN = ''JOIN''"
| "node_type (Node_APPROVAL t d) = ''APPROVAL''"
| "node_type (Node_WAIT w) = ''WAIT''"
| "node_type (Node_OTHER t) = t"

definition WORKFLOW_EXECUTABLE_NODE_TYPES :: "string list" where
  "WORKFLOW_EXECUTABLE_NODE_TYPES = [''AGENT'']"

definition WORKFLOW_V2_NODE_TYPES :: "string list" where
  "WORKFLOW_V2_NODE_TYPES = [''AGENT'', ''BRANCH'', ''PARALLEL'', ''JOIN'', ''APPROVAL'']"

definition WORKFLOW_V3_NODE_TYPES :: "string list" where
  "WORKFLOW_V3_NODE_TYPES = [''AGENT'', ''BRANCH'', ''PARALLEL'', ''JOIN'', ''APPROVAL'', ''WAIT'']"

definition WORKFLOW_APPROVAL_TITLE_MAX_LENGTH :: nat where
  "WORKFLOW_APPROVAL_TITLE_MAX_LENGTH = 200"

definition WORKFLOW_APPROVAL_DESCRIPTION_MAX_LENGTH :: nat where
  "WORKFLOW_APPROVAL_DESCRIPTION_MAX_LENGTH = 2000"

definition isWorkflowDefinitionV1 :: "workflow_definition \<Rightarrow> bool" where
  "isWorkflowDefinitionV1 d = (wd_schemaVersion d = ''1'')"

definition isWorkflowDefinitionV2 :: "workflow_definition \<Rightarrow> bool" where
  "isWorkflowDefinitionV2 d = (wd_schemaVersion d = ''2'')"

definition isWorkflowDefinitionV3 :: "workflow_definition \<Rightarrow> bool" where
  "isWorkflowDefinitionV3 d = (wd_schemaVersion d = ''3'')"

definition isExecutableWorkflowDefinition :: "workflow_definition \<Rightarrow> bool" where
  "isExecutableWorkflowDefinition d =
     (isWorkflowDefinitionV1 d \<or> isWorkflowDefinitionV2 d \<or> isWorkflowDefinitionV3 d)"

text \<open>
  The pattern \<open>dddd-dd-ddTdd:dd:dd\<close>, an optional fraction, and \<open>Z\<close>. A \<open>d\<close> of the
  template stands for a digit.
\<close>

fun match_template :: "string \<Rightarrow> string \<Rightarrow> string option" where
  "match_template [] s = Some s"
| "match_template (t # ts) [] = None"
| "match_template (t # ts) (c # cs) =
     (if (if t = CHR ''d'' then is_digit c else c = t) then match_template ts cs else None)"

definition isValidUtcIso8601Instant :: "string \<Rightarrow> bool" where
  "isValidUtcIso8601Instant s =
     (case match_template ''dddd-dd-ddTdd:dd:dd'' s of
        None \<Rightarrow> False
      | Some r \<Rightarrow> r = ''Z''
          \<or> (2 < length r \<and> hd r = CHR ''.'' \<and> last r = CHR ''Z''
             \<and> list_all is_digit (butlast (tl r))))"

subsection \<open>Node checks\<close>

abbreviation invalid_definition :: "string \<Rightarrow> osva_error option" where
  "invalid_definition m \<equiv> Some (InvalidWorkflowDefinitionError m)"

definition check_node_key :: "wf_node \<Rightarrow> osva_error option" where
  "check_node_key n =
     (if js_blank (wn_key n) then invalid_definition ''Workflow node key must be a non-empty string.''
      else None)"

definition check_agent_binding :: "wf_node \<Rightarrow> osva_error option" where
  "check_agent_binding n =
     (case wn_body n of
        Node_AGENT v \<Rightarrow>
          if (case v of None \<Rightarrow> True | Some s \<Rightarrow> js_blank s)
          then invalid_definition (''Workflow node '' @ wn_key n
                 @ '' must bind an immutable agentVersionId.'')
          else None
      | _ \<Rightarrow> None)"

definition assertAgentNode :: "wf_node \<Rightarrow> osva_error option" where
  "assertAgentNode n =
     (case check_node_key n of
        Some e \<Rightarrow> Some e
      | None \<Rightarrow>
          if node_type (wn_body n) \<notin> set WORKFLOW_EXECUTABLE_NODE_TYPES
          then invalid_definition (''Workflow node '' @ wn_key n @ '' has unsupported type.'')
          else check_agent_binding n)"

fun isBranchEqualsValue :: "jsv \<Rightarrow> bool" where
  "isBranchEqualsValue JNull = True"
| "isBranchEqualsValue (JBool b) = True"
| "isBranchEqualsValue (JString s) = True"
| "isBranchEqualsValue (JNumber n) = num_is_finite n"
| "isBranchEqualsValue _ = False"

definition encodeBranchEquals :: "jsv \<Rightarrow> json_token list" where
  "encodeBranchEquals v = JSON_stringify v"

fun check_branch_cases ::
    "string \<Rightarrow> (jsv \<times> string) list \<Rightarrow> json_token list list \<Rightarrow> osva_error option" where
  "check_branch_cases key [] seenEquals = None"
| "check_branch_cases key ((eq, target) # cases) seenEquals =
     (if \<not> isBranchEqualsValue eq
      then invalid_definition (''Workflow BRANCH '' @ key @ '' has an illegal case value type.'')
      else if js_blank target
      then invalid_definition (''Workflow BRANCH '' @ key @ '' case target must be a non-empty string.'')
      else if encodeBranchEquals eq \<in> set seenEquals
      then invalid_definition (''Workflow BRANCH '' @ key @ '' has duplicate exact-match cases.'')
      else check_branch_cases key cases (encodeBranchEquals eq # seenEquals))"

definition assertBranchNode ::
    "string \<Rightarrow> string \<Rightarrow> (jsv \<times> string) list \<Rightarrow> string \<Rightarrow> osva_error option" where
  "assertBranchNode key selector cases defaultTo =
     (if \<not> isValidJsonPointer selector
      then invalid_definition (''Workflow BRANCH '' @ key @ '' has an invalid JSON Pointer selector.'')
      else if js_blank defaultTo
      then invalid_definition (''Workflow BRANCH '' @ key @ '' must declare a defaultTo path.'')
      else if cases = []
      then invalid_definition (''Workflow BRANCH '' @ key @ '' must declare at least one case.'')
      else check_branch_cases key cases [])"

definition assertApprovalNode :: "string \<Rightarrow> string \<Rightarrow> string option \<Rightarrow> osva_error option" where
  "assertApprovalNode key title description =
     (if js_blank title \<or> WORKFLOW_APPROVAL_TITLE_MAX_LENGTH < length title
      then invalid_definition (''Workflow APPROVAL '' @ key @ '' must declare a non-empty title.'')
      else case description of
        None \<Rightarrow> None
      | Some d \<Rightarrow>
          if js_blank d \<or> WORKFLOW_APPROVAL_DESCRIPTION_MAX_LENGTH < length d
          then invalid_definition (''Workflow APPROVAL '' @ key @ '' description must be non-empty.'')
          else None)"

text \<open>\<open>Number.isInteger(v) && v > 0 && Number.isSafeInteger(v)\<close>.\<close>

fun isPositiveSafeInteger :: "js_num \<Rightarrow> bool" where
  "isPositiveSafeInteger (Finite q) = (q = of_int \<lfloor>q\<rfloor> \<and> 0 < q \<and> q \<le> 9007199254740991)"
| "isPositiveSafeInteger _ = False"

definition assertWaitCorrelation :: "string \<Rightarrow> wait_correlation \<Rightarrow> osva_error option" where
  "assertWaitCorrelation key c =
     (case c of
        Corr_LITERAL v \<Rightarrow>
          if js_blank v then invalid_definition
            (''Workflow WAIT '' @ key @ '' correlation literal must be a non-empty string.'')
          else None
      | Corr_OTHER k \<Rightarrow>
          invalid_definition (''Workflow WAIT '' @ key @ '' correlation kind is unsupported.'')
      | Corr_INPUT_POINTER p \<Rightarrow>
          if \<not> isValidJsonPointer p then invalid_definition
            (''Workflow WAIT '' @ key @ '' correlation pointer must be a valid JSON Pointer.'')
          else None)"

definition assertWaitNode :: "string \<Rightarrow> wait_config option \<Rightarrow> osva_error option" where
  "assertWaitNode key wait =
     (case wait of
        None \<Rightarrow> invalid_definition (''Workflow WAIT '' @ key @ '' must declare a wait configuration.'')
      | Some (Wait_DURATION durationMs) \<Rightarrow>
          if \<not> isPositiveSafeInteger durationMs then invalid_definition
            (''Workflow WAIT '' @ key @ '' durationMs must be a positive safe integer.'')
          else None
      | Some (Wait_UNTIL until) \<Rightarrow>
          if \<not> isValidUtcIso8601Instant until then invalid_definition
            (''Workflow WAIT '' @ key @ '' until must be a canonical UTC ISO-8601 instant.'')
          else None
      | Some (Wait_OTHER k) \<Rightarrow>
          invalid_definition (''Workflow WAIT '' @ key @ '' has an unsupported wait kind.'')
      | Some (Wait_EVENT source eventType correlation timeoutMs) \<Rightarrow>
          if js_blank source then invalid_definition
            (''Workflow WAIT '' @ key @ '' event source must be a non-empty string.'')
          else if js_blank eventType then invalid_definition
            (''Workflow WAIT '' @ key @ '' eventType must be a non-empty string.'')
          else case assertWaitCorrelation key correlation of
            Some e \<Rightarrow> Some e
          | None \<Rightarrow>
              if (case timeoutMs of None \<Rightarrow> False | Some t \<Rightarrow> \<not> isPositiveSafeInteger t)
              then invalid_definition
                (''Workflow WAIT '' @ key @ '' timeoutMs must be a positive safe integer when present.'')
              else None)"

text \<open>
  \<open>Node_OTHER\<close> stands for the tags outside the sets of node types, which the test of the tag
  refuses; that the constructor is refused whatever its tag says so once more.
\<close>

definition assertV2Node :: "wf_node \<Rightarrow> osva_error option" where
  "assertV2Node n =
     (case check_node_key n of
        Some e \<Rightarrow> Some e
      | None \<Rightarrow>
          if node_type (wn_body n) \<notin> set WORKFLOW_V2_NODE_TYPES
          then invalid_definition (''Workflow node '' @ wn_key n @ '' has unsupported type.'')
          else case wn_body n of
            Node_AGENT v \<Rightarrow> check_agent_binding n
          | Node_BRANCH selector cases defaultTo \<Rightarrow> assertBranchNode (wn_key n) selector cases defaultTo
          | Node_APPROVAL title description \<Rightarrow> assertApprovalNode (wn_key n) title description
          | Node_OTHER t \<Rightarrow> invalid_definition (''Workflow node '' @ wn_key n @ '' has unsupported type.'')
          | _ \<Rightarrow> None)"

definition assertV3NodeForGraphTopology :: "bool \<Rightarrow> wf_node \<Rightarrow> osva_error option" where
  "assertV3NodeForGraphTopology requireAgentVersionBinding n =
     (case check_node_key n of
        Some e \<Rightarrow> Some e
      | None \<Rightarrow>
          if node_type (wn_body n) \<notin> set WORKFLOW_V3_NODE_TYPES
          then invalid_definition (''Workflow node '' @ wn_key n @ '' has unsupported type.'')
          else case wn_body n of
            Node_AGENT v \<Rightarrow> (if requireAgentVersionBinding then check_agent_binding n else None)
          | Node_BRANCH selector cases defaultTo \<Rightarrow> assertBranchNode (wn_key n) selector cases defaultTo
          | Node_APPROVAL title description \<Rightarrow> assertApprovalNode (wn_key n) title description
          | Node_WAIT wait \<Rightarrow> assertWaitNode (wn_key n) wait
          | Node_OTHER t \<Rightarrow> invalid_definition (''Workflow node '' @ wn_key n @ '' has unsupported type.'')
          | _ \<Rightarrow> None)"

definition assertV3Node :: "wf_node \<Rightarrow> osva_error option" where
  "assertV3Node n = assertV3NodeForGraphTopology True n"

end
