(* ===== verification/Workflow_Graph.thy ===== *)
theory Workflow_Graph
  imports Workflow_Definition
begin

text \<open>
  The graph of a workflow definition (\<open>domain/src/workflow-definition.ts\<close>, second half): the
  adjacency maps, the cycle search, the forward and backward walks, the degree rules of the node
  types, the acceptance of a definition and the graph built from it. The searches are total
  functions: each key enters the set of visited keys at most once. Their correctness is stated
  with the edge relation of an adjacency map.
\<close>

type_synonym adjacency = "(string, string list) js_map"

definition neighbours :: "adjacency \<Rightarrow> string \<Rightarrow> string list" where
  "neighbours m k = (case map_of m k of None \<Rightarrow> [] | Some ks \<Rightarrow> ks)"

definition edge_rel :: "adjacency \<Rightarrow> (string \<times> string) set" where
  "edge_rel m = {(a, b). b \<in> set (neighbours m a)}"

lemma edge_rel_iff [simp]: "(a, b) \<in> edge_rel m \<longleftrightarrow> b \<in> set (neighbours m a)"
  by (simp add: edge_rel_def)

lemma neighbours_key: "neighbours m k \<noteq> [] \<Longrightarrow> k \<in> set (map_keys m)"
  by (rule ccontr) (simp add: neighbours_def map_of_eq_None_iff [symmetric])

subsection \<open>Cycle search (hasCycle)\<close>

function visit_keys :: "adjacency \<Rightarrow> string list \<Rightarrow> string list \<Rightarrow> string list \<Rightarrow> bool \<times> string list" where
  "visit_keys out visiting visited [] = (False, visited)"
| "visit_keys out visiting visited (k # ks) =
     (if k \<in> set visited then visit_keys out visiting visited ks
      else if k \<in> set visiting then (True, visited)
      else (case visit_keys out (k # visiting) visited (neighbours out k) of
              (True, visited') \<Rightarrow> (True, visited')
            | (False, visited') \<Rightarrow> visit_keys out visiting (k # visited') ks))"
  by pat_completeness auto

lemma unvisited_less:
  "k \<in> set (map_keys m) \<Longrightarrow> k \<notin> set vs \<Longrightarrow>
     card (set (map_keys m) - set (k # vs)) < card (set (map_keys m) - set vs)"
  by (rule psubset_card_mono) auto

lemma unvisited_same:
  "k \<notin> set (map_keys m) \<Longrightarrow> set (map_keys m) - set (k # vs) = set (map_keys m) - set vs"
  by auto

termination visit_keys
proof (relation "measures [\<lambda>(out, visiting, visited, ks). card (set (map_keys out) - set visiting),
    \<lambda>(out, visiting, visited, ks). length ks]", goal_cases)
  case (3 out visiting visited k ks)
  show ?case
  proof (cases "k \<in> set (map_keys out)")
    case True
    with 3 show ?thesis using unvisited_less [of k out visiting] by simp
  next
    case False
    then have "neighbours out k = []" using neighbours_key by blast
    with False show ?thesis using unvisited_same [of k out visiting] by simp
  qed
qed simp_all

definition hasCycle :: "string list \<Rightarrow> adjacency \<Rightarrow> bool" where
  "hasCycle keys out = fst (visit_keys out [] [] keys)"

text \<open>A set of keys the search is done with: closed under successors, without a cycle.\<close>

definition explored :: "adjacency \<Rightarrow> string set \<Rightarrow> bool" where
  "explored out V \<longleftrightarrow> (\<forall>a\<in>V. set (neighbours out a) \<subseteq> V) \<and> (\<forall>a\<in>V. (a, a) \<notin> (edge_rel out)\<^sup>+)"

lemma closed_trancl: "(a, b) \<in> r\<^sup>+ \<Longrightarrow> a \<in> V \<Longrightarrow> (\<And>x y. x \<in> V \<Longrightarrow> (x, y) \<in> r \<Longrightarrow> y \<in> V) \<Longrightarrow> b \<in> V"
  by (induction rule: trancl_induct) auto

lemma closed_rtrancl: "(a, b) \<in> r\<^sup>* \<Longrightarrow> a \<in> V \<Longrightarrow> (\<And>x y. x \<in> V \<Longrightarrow> (x, y) \<in> r \<Longrightarrow> y \<in> V) \<Longrightarrow> b \<in> V"
  by (induction rule: rtrancl_induct) auto

lemma explored_insert:
  assumes V: "explored out V" and n: "set (neighbours out k) \<subseteq> V" and k: "k \<notin> V"
  shows "explored out (insert k V)"
proof -
  have "(k, k) \<notin> (edge_rel out)\<^sup>+"
  proof
    assume "(k, k) \<in> (edge_rel out)\<^sup>+"
    then obtain b where b: "(k, b) \<in> edge_rel out" "(b, k) \<in> (edge_rel out)\<^sup>*"
      by (meson tranclD)
    with n have "b \<in> V" by auto
    with b(2) have "k \<in> V"
      by (rule closed_rtrancl) (use V in \<open>auto simp: explored_def\<close>)
    with k show False by simp
  qed
  with V n show ?thesis by (auto simp: explored_def)
qed

lemma visit_keys_none:
  "visit_keys out visiting visited ks = (False, visited') \<Longrightarrow> explored out (set visited) \<Longrightarrow>
     set visited \<inter> set visiting = {} \<Longrightarrow>
     explored out (set visited') \<and> set visited \<subseteq> set visited' \<and> set ks \<subseteq> set visited'
     \<and> set visited' \<inter> set visiting = {}"
proof (induction out visiting visited ks arbitrary: visited' rule: visit_keys.induct)
  case (2 out visiting visited k ks)
  show ?case
  proof (cases "k \<in> set visited")
    case True
    with "2.IH"(1) [OF True] "2.prems" show ?thesis by auto
  next
    case False
    with "2.prems"(1) have v: "k \<notin> set visiting" by (auto split: if_splits)
    obtain b W where W': "visit_keys out (k # visiting) visited (neighbours out k) = (b, W)"
      by force
    with "2.prems"(1) False v have W: "visit_keys out (k # visiting) visited (neighbours out k) = (False, W)"
      by (cases b) simp_all
    have w: "explored out (set W) \<and> set visited \<subseteq> set W \<and> set (neighbours out k) \<subseteq> set W
        \<and> set W \<inter> set (k # visiting) = {}"
      by (rule "2.IH"(2) [OF False v W]) (use "2.prems" False in auto)
    have rest: "visit_keys out visiting (k # W) ks = (False, visited')"
      using "2.prems"(1) False v W by simp
    have "explored out (set (k # W))"
      using w explored_insert [of out "set W" k] by auto
    then have "explored out (set visited') \<and> set (k # W) \<subseteq> set visited' \<and> set ks \<subseteq> set visited'
        \<and> set visited' \<inter> set visiting = {}"
      by (rule "2.IH"(3) [OF False v W [symmetric] refl rest]) (use w v in auto)
    with w show ?thesis by auto
  qed
qed simp

lemma visit_keys_found:
  "visit_keys out visiting visited ks = (True, visited') \<Longrightarrow>
     (\<forall>p\<in>set visiting. \<forall>k\<in>set ks. (p, k) \<in> (edge_rel out)\<^sup>+) \<Longrightarrow> \<exists>c. (c, c) \<in> (edge_rel out)\<^sup>+"
proof (induction out visiting visited ks arbitrary: visited' rule: visit_keys.induct)
  case (2 out visiting visited k ks)
  show ?case
  proof (cases "k \<in> set visited")
    case True
    with "2.IH"(1) [OF True] "2.prems" show ?thesis by simp
  next
    case new: False
    show ?thesis
    proof (cases "k \<in> set visiting")
      case True
      with "2.prems"(2) show ?thesis by auto
    next
      case v: False
      obtain b W where W: "visit_keys out (k # visiting) visited (neighbours out k) = (b, W)"
        by force
      show ?thesis
      proof (cases b)
        case True
        have "\<forall>p\<in>set (k # visiting). \<forall>x\<in>set (neighbours out k). (p, x) \<in> (edge_rel out)\<^sup>+"
          using "2.prems"(2) by (auto intro: trancl_into_trancl)
        moreover have "visit_keys out (k # visiting) visited (neighbours out k) = (True, W)"
          using W True by simp
        ultimately show ?thesis using "2.IH"(2) [OF new v] by blast
      next
        case False
        with W have W: "visit_keys out (k # visiting) visited (neighbours out k) = (False, W)" by simp
        with "2.prems"(1) new v have "visit_keys out visiting (k # W) ks = (True, visited')" by simp
        then show ?thesis
          by (rule "2.IH"(3) [OF new v W [symmetric] refl]) (use "2.prems"(2) in simp)
      qed
    qed
  qed
qed simp

lemma visit_keys_explored:
  assumes "visit_keys out [] [] keys = (False, V)"
  shows "explored out (set V) \<and> set keys \<subseteq> set V"
  using visit_keys_none [OF assms] by (simp add: explored_def)

lemma hasCycle_iff_aux:
  assumes "set (map_keys out) \<subseteq> set keys"
  shows "hasCycle keys out \<longleftrightarrow> \<not> acyclic (edge_rel out)"
proof
  assume "hasCycle keys out"
  then obtain V where "visit_keys out [] [] keys = (True, V)"
    by (metis hasCycle_def prod.collapse)
  then show "\<not> acyclic (edge_rel out)" using visit_keys_found by (fastforce simp: acyclic_def)
next
  assume c: "\<not> acyclic (edge_rel out)"
  show "hasCycle keys out"
  proof (rule ccontr)
    assume "\<not> hasCycle keys out"
    then obtain V where V: "visit_keys out [] [] keys = (False, V)"
      by (metis (full_types) hasCycle_def prod.collapse)
    from c obtain a where a: "(a, a) \<in> (edge_rel out)\<^sup>+" by (auto simp: acyclic_def)
    then obtain b where "(a, b) \<in> edge_rel out" by (meson tranclD)
    then have "a \<in> set keys"
      using assms neighbours_key [of out a] by fastforce
    with visit_keys_explored [OF V] a show False by (auto simp: explored_def)
  qed
qed

text \<open>
  The cycle search answers exactly whether the graph has a cycle, provided its successor map
  only names keys that are searched.
\<close>

theorem hasCycle_iff:
  assumes "set (map_keys out) \<subseteq> set keys"
  shows "hasCycle keys out \<longleftrightarrow> \<not> acyclic (edge_rel out)"
  using assms by (rule hasCycle_iff_aux)

theorem hasCycle_iff_witness:
  "hasCycle [''a'', ''b''] [(''a'', [''b'']), (''b'', [''a''])]
   \<and> acyclic (edge_rel [(''a'', [''b'']), (''b'', [])])"
  using hasCycle_iff [of "[(''a'', [''b'']), (''b'', [])]" "[''a'', ''b'']"]
  by (auto simp: hasCycle_def neighbours_def)

subsection \<open>Walks (walkForward, walkBackward)\<close>

text \<open>The stack's top is the head of the list; \<open>push(...xs)\<close> leaves the last of them on top.\<close>

function walk :: "adjacency \<Rightarrow> string list \<Rightarrow> string list \<Rightarrow> string list" where
  "walk m visited [] = visited"
| "walk m visited (current # stack) =
     (if current \<in> set visited then walk m visited stack
      else walk m (visited @ [current]) (rev (neighbours m current) @ stack))"
  by pat_completeness auto

termination walk
proof (relation "measures [\<lambda>(m, visited, stack). card (set (map_keys m) - set visited),
    \<lambda>(m, visited, stack). length stack]", goal_cases)
  case (3 m visited current stack)
  have s: "set (visited @ [current]) = set (current # visited)" by auto
  show ?case
  proof (cases "current \<in> set (map_keys m)")
    case True
    with 3 show ?thesis using unvisited_less [of current m visited] by (simp add: s del: set_append)
  next
    case False
    then have "neighbours m current = []" using neighbours_key by blast
    with False show ?thesis using unvisited_same [of current m visited]
      by (simp add: s del: set_append)
  qed
qed simp_all

definition walkForward :: "string \<Rightarrow> adjacency \<Rightarrow> string list" where
  "walkForward start out = walk out [] [start]"

definition walkBackward :: "string \<Rightarrow> adjacency \<Rightarrow> string list" where
  "walkBackward start inc = walk inc [] [start]"

lemma walk_sound:
  "set visited \<union> set stack \<subseteq> R \<Longrightarrow> (\<And>a b. a \<in> R \<Longrightarrow> (a, b) \<in> edge_rel m \<Longrightarrow> b \<in> R) \<Longrightarrow>
     set (walk m visited stack) \<subseteq> R"
proof (induction m visited stack rule: walk.induct)
  case (2 m visited current stack)
  have "current \<in> R" using "2.prems"(1) by simp
  then have "set (neighbours m current) \<subseteq> R" using "2.prems"(2) [of current] by auto
  with 2 show ?case by simp
qed simp

lemma walk_closed:
  "(\<forall>a\<in>set visited. set (neighbours m a) \<subseteq> set visited \<union> set stack) \<Longrightarrow>
     set visited \<union> set stack \<subseteq> set (walk m visited stack)
     \<and> (\<forall>a\<in>set (walk m visited stack). set (neighbours m a) \<subseteq> set (walk m visited stack))"
proof (induction m visited stack rule: walk.induct)
  case (2 m visited current stack)
  show ?case
  proof (cases "current \<in> set visited")
    case True
    then have "set visited \<union> set (current # stack) = set visited \<union> set stack" by auto
    with 2 True show ?thesis by auto
  next
    case False
    have "\<forall>a\<in>set (visited @ [current]). set (neighbours m a)
        \<subseteq> set (visited @ [current]) \<union> set (rev (neighbours m current) @ stack)"
      using "2.prems" by auto
    with "2.IH"(2) [OF False] False show ?thesis by auto
  qed
qed simp

lemma walk_distinct: "distinct visited \<Longrightarrow> distinct (walk m visited stack)"
  by (induction m visited stack rule: walk.induct) auto

lemma walk_reachable: "set (walk m [] [s]) = {x. (s, x) \<in> (edge_rel m)\<^sup>*}"
proof
  show "set (walk m [] [s]) \<subseteq> {x. (s, x) \<in> (edge_rel m)\<^sup>*}"
    by (rule walk_sound) (auto intro: rtrancl_into_rtrancl)
  have w: "s \<in> set (walk m [] [s])"
    "\<forall>a\<in>set (walk m [] [s]). set (neighbours m a) \<subseteq> set (walk m [] [s])"
    using walk_closed [of "[]" m "[s]"] by auto
  show "{x. (s, x) \<in> (edge_rel m)\<^sup>*} \<subseteq> set (walk m [] [s])"
  proof clarify
    fix x assume "(s, x) \<in> (edge_rel m)\<^sup>*"
    then show "x \<in> set (walk m [] [s])"
      by (rule closed_rtrancl) (use w in auto)
  qed
qed

text \<open>
  The walks visit each node reachable along the edges they follow, once, and no other.
\<close>

theorem walks_reachable:
  "set (walkForward s out) = {x. (s, x) \<in> (edge_rel out)\<^sup>*} \<and> distinct (walkForward s out)
   \<and> set (walkBackward t inc) = {x. (t, x) \<in> (edge_rel inc)\<^sup>*} \<and> distinct (walkBackward t inc)"
  by (simp add: walkForward_def walkBackward_def walk_reachable walk_distinct del: walk.simps)

subsection \<open>Adjacency maps of a definition\<close>

definition push_neighbour :: "adjacency \<Rightarrow> string \<Rightarrow> string \<Rightarrow> adjacency" where
  "push_neighbour m k v =
     (case map_of m k of None \<Rightarrow> m | Some ks \<Rightarrow> AList.update k (ks @ [v]) m)"

definition empty_adjacency :: "string list \<Rightarrow> adjacency" where
  "empty_adjacency keys = List.map (\<lambda>k. (k, [])) keys"

fun index_nodes ::
    "(wf_node \<Rightarrow> osva_error option) \<Rightarrow> wf_node list \<Rightarrow> (string, wf_node) js_map
       \<Rightarrow> osva_error + (string, wf_node) js_map" where
  "index_nodes check [] nodesByKey = Inr nodesByKey"
| "index_nodes check (n # ns) nodesByKey =
     (case check n of
        Some e \<Rightarrow> Inl e
      | None \<Rightarrow>
          if map_of nodesByKey (wn_key n) \<noteq> None
          then Inl (InvalidWorkflowDefinitionError (''Workflow node key '' @ wn_key n @ '' is duplicated.''))
          else index_nodes check ns (AList.update (wn_key n) n nodesByKey))"

definition assertEdge :: "wf_edge \<Rightarrow> (string, wf_node) js_map \<Rightarrow> osva_error option" where
  "assertEdge e nodesByKey =
     (if js_blank (we_from e)
      then invalid_definition ''Workflow edge.from must be a non-empty string.''
      else if js_blank (we_to e)
      then invalid_definition ''Workflow edge.to must be a non-empty string.''
      else if map_of nodesByKey (we_from e) = None \<or> map_of nodesByKey (we_to e) = None
      then invalid_definition (''Workflow edge '' @ we_from e @ '' -> '' @ we_to e
             @ '' references a node that does not exist.'')
      else None)"

fun collect_sequential_edges ::
    "(string, wf_node) js_map \<Rightarrow> wf_edge list \<Rightarrow> adjacency \<Rightarrow> adjacency
       \<Rightarrow> osva_error + adjacency \<times> adjacency" where
  "collect_sequential_edges nodesByKey [] inc out = Inr (inc, out)"
| "collect_sequential_edges nodesByKey (e # es) inc out =
     (case assertEdge e nodesByKey of
        Some err \<Rightarrow> Inl err
      | None \<Rightarrow> collect_sequential_edges nodesByKey es
          (push_neighbour inc (we_to e) (we_from e)) (push_neighbour out (we_from e) (we_to e)))"

text \<open>An edge's identity is the string \<open>from\0to\<close>.\<close>

definition edge_identity :: "wf_edge \<Rightarrow> string" where
  "edge_identity e = we_from e @ char_of (0::nat) # we_to e"

fun collect_dag_edges ::
    "(string, wf_node) js_map \<Rightarrow> wf_edge list \<Rightarrow> string list \<Rightarrow> adjacency \<Rightarrow> adjacency
       \<Rightarrow> osva_error + adjacency \<times> adjacency" where
  "collect_dag_edges nodesByKey [] edgeKeys inc out = Inr (inc, out)"
| "collect_dag_edges nodesByKey (e # es) edgeKeys inc out =
     (case assertEdge e nodesByKey of
        Some err \<Rightarrow> Inl err
      | None \<Rightarrow>
          if edge_identity e \<in> set edgeKeys
          then Inl (InvalidWorkflowDefinitionError
            (''Workflow edge '' @ we_from e @ '' -> '' @ we_to e @ '' is duplicated.''))
          else collect_dag_edges nodesByKey es (edge_identity e # edgeKeys)
            (push_neighbour inc (we_to e) (we_from e)) (push_neighbour out (we_from e) (we_to e)))"

subsection \<open>Degrees of a node (assertDagNodeTopology)\<close>

fun check_branch_targets ::
    "string \<Rightarrow> (jsv \<times> string) list \<Rightarrow> string list \<Rightarrow> osva_error option" where
  "check_branch_targets key [] outgoingTargets = None"
| "check_branch_targets key ((eq, target) # cases) outgoingTargets =
     (if target \<notin> set outgoingTargets
      then invalid_definition (''Workflow BRANCH '' @ key @ '' case target '' @ target
             @ '' is not an outgoing edge.'')
      else check_branch_targets key cases outgoingTargets)"

fun check_branch_covered ::
    "string \<Rightarrow> (jsv \<times> string) list \<Rightarrow> string \<Rightarrow> string list \<Rightarrow> osva_error option" where
  "check_branch_covered key cases defaultTo [] = None"
| "check_branch_covered key cases defaultTo (target # targets) =
     (if \<not> (target = defaultTo \<or> (\<exists>c\<in>set cases. snd c = target))
      then invalid_definition (''Workflow BRANCH '' @ key @ '' outgoing edge '' @ target
             @ '' is not a case or default target.'')
      else check_branch_covered key cases defaultTo targets)"

definition check_single_path :: "wf_node \<Rightarrow> nat \<Rightarrow> nat \<Rightarrow> bool \<Rightarrow> bool \<Rightarrow> osva_error option" where
  "check_single_path n inCount outCount isEntry isTerminal =
     (if (if isEntry then inCount \<noteq> 0 else inCount \<noteq> 1)
      then invalid_definition (''Workflow '' @ node_type (wn_body n) @ '' '' @ wn_key n
             @ '' cannot have implicit fan-in.'')
      else if (if isTerminal then outCount \<noteq> 0 else outCount \<noteq> 1)
      then invalid_definition (''Workflow '' @ node_type (wn_body n) @ '' '' @ wn_key n
             @ '' cannot have implicit fan-out.'')
      else None)"

definition assertDagNodeTopology ::
    "wf_node \<Rightarrow> nat \<Rightarrow> nat \<Rightarrow> bool \<Rightarrow> bool \<Rightarrow> string list \<Rightarrow> osva_error option" where
  "assertDagNodeTopology n inCount outCount isEntry isTerminal outgoingTargets =
     (case wn_body n of
        Node_AGENT v \<Rightarrow> check_single_path n inCount outCount isEntry isTerminal
      | Node_APPROVAL t d \<Rightarrow> check_single_path n inCount outCount isEntry isTerminal
      | Node_WAIT w \<Rightarrow> check_single_path n inCount outCount isEntry isTerminal
      | Node_PARALLEL \<Rightarrow>
          if 1 < inCount then invalid_definition
            (''Workflow PARALLEL '' @ wn_key n @ '' cannot have implicit fan-in.'')
          else if outCount < 2 then invalid_definition
            (''Workflow PARALLEL '' @ wn_key n @ '' must have at least two outgoing edges.'')
          else None
      | Node_JOIN \<Rightarrow>
          if inCount < 2 then invalid_definition
            (''Workflow JOIN '' @ wn_key n @ '' must have at least two incoming edges.'')
          else if 1 < outCount then invalid_definition
            (''Workflow JOIN '' @ wn_key n @ '' cannot have implicit fan-out.'')
          else None
      | Node_BRANCH selector cases defaultTo \<Rightarrow>
          if 1 < inCount then invalid_definition
            (''Workflow BRANCH '' @ wn_key n @ '' cannot have implicit fan-in.'')
          else if outCount < 2 then invalid_definition
            (''Workflow BRANCH '' @ wn_key n @ '' must have at least two outgoing edges.'')
          else if defaultTo \<notin> set outgoingTargets then invalid_definition
            (''Workflow BRANCH '' @ wn_key n @ '' defaultTo '' @ defaultTo @ '' is not an outgoing edge.'')
          else (case check_branch_targets (wn_key n) cases outgoingTargets of
                  Some e \<Rightarrow> Some e
                | None \<Rightarrow> check_branch_covered (wn_key n) cases defaultTo outgoingTargets)
      | Node_OTHER t \<Rightarrow> None)"

subsection \<open>Acceptance of a graph (assertDagWorkflowGraphStructure)\<close>

definition check_dag_graph :: "wf_node list \<Rightarrow> (string, wf_node) js_map \<Rightarrow> adjacency \<Rightarrow> adjacency
    \<Rightarrow> osva_error option" where
  "check_dag_graph nodes nodesByKey inc out =
     (if hasCycle (map_keys nodesByKey) out
      then invalid_definition ''Workflow definition contains a cycle.''
      else
        let entryNodes = filter (\<lambda>n. length (neighbours inc (wn_key n)) = 0) nodes;
            terminalNodes = filter (\<lambda>n. length (neighbours out (wn_key n)) = 0) nodes
        in if length entryNodes \<noteq> 1
           then invalid_definition ''Workflow definition must have exactly one entry node.''
           else if length terminalNodes \<noteq> 1
           then invalid_definition ''Workflow definition must have exactly one terminal node.''
           else
             let entryKey = wn_key (hd entryNodes); terminalKey = wn_key (hd terminalNodes)
             in case check_all (\<lambda>n. assertDagNodeTopology n
                       (length (neighbours inc (wn_key n))) (length (neighbours out (wn_key n)))
                       (wn_key n = entryKey) (wn_key n = terminalKey) (neighbours out (wn_key n))) nodes of
                  Some e \<Rightarrow> Some e
                | None \<Rightarrow>
                    if length (walkForward entryKey out) \<noteq> length nodes
                    then invalid_definition
                      ''Workflow definition contains a node that is not reachable from the entry node.''
                    else if length (walkBackward terminalKey inc) \<noteq> length nodes
                    then invalid_definition
                      ''Workflow definition contains a node that cannot reach the terminal node.''
                    else None)"

definition assertDagWorkflowGraphStructure ::
    "wf_node list \<Rightarrow> wf_edge list \<Rightarrow> osva_error option" where
  "assertDagWorkflowGraphStructure nodes edges =
     (case index_nodes (\<lambda>n. None) nodes [] of
        Inl e \<Rightarrow> Some e
      | Inr nodesByKey \<Rightarrow>
          (case collect_dag_edges nodesByKey edges [] (empty_adjacency (map_keys nodesByKey))
              (empty_adjacency (map_keys nodesByKey)) of
             Inl e \<Rightarrow> Some e
           | Inr (inc, out) \<Rightarrow> check_dag_graph nodes nodesByKey inc out))"

definition assertDagWorkflowDefinition :: "workflow_definition \<Rightarrow> osva_error option" where
  "assertDagWorkflowDefinition d =
     (if wd_schemaVersion d \<noteq> ''2''
      then invalid_definition (''Unsupported workflow definition schemaVersion '' @ wd_schemaVersion d)
      else if wd_nodes d = []
      then invalid_definition ''Workflow definition must contain at least one node.''
      else case check_all assertV2Node (wd_nodes d) of
        Some e \<Rightarrow> Some e
      | None \<Rightarrow> assertDagWorkflowGraphStructure (wd_nodes d) (wd_edges d))"

definition assertDagWorkflowDefinitionV3 :: "workflow_definition \<Rightarrow> osva_error option" where
  "assertDagWorkflowDefinitionV3 d =
     (if wd_schemaVersion d \<noteq> ''3''
      then invalid_definition (''Unsupported workflow definition schemaVersion '' @ wd_schemaVersion d)
      else case check_all assertV3Node (wd_nodes d) of
        Some e \<Rightarrow> Some e
      | None \<Rightarrow> assertDagWorkflowGraphStructure (wd_nodes d) (wd_edges d))"

definition assertDagWorkflowV3GraphTopology ::
    "wf_node list \<Rightarrow> wf_edge list \<Rightarrow> osva_error option" where
  "assertDagWorkflowV3GraphTopology nodes edges =
     (if nodes = [] then invalid_definition ''Workflow definition must contain at least one node.''
      else case check_all (assertV3NodeForGraphTopology False) nodes of
        Some e \<Rightarrow> Some e
      | None \<Rightarrow> assertDagWorkflowGraphStructure nodes edges)"

subsection \<open>Sequential definitions (schema version 1)\<close>

function walk_chain :: "adjacency \<Rightarrow> string list \<Rightarrow> string option \<Rightarrow> osva_error + string list" where
  "walk_chain out visited None = Inr visited"
| "walk_chain out visited (Some current) =
     (if current \<in> set visited
      then Inl (InvalidWorkflowDefinitionError ''Workflow definition contains a cycle.'')
      else walk_chain out (visited @ [current])
        (case neighbours out current of [] \<Rightarrow> None | k # ks \<Rightarrow> Some k))"
  by pat_completeness auto

termination walk_chain
proof (relation "measures [\<lambda>(out, visited, cur). card (set (map_keys out) - set visited),
    \<lambda>(out, visited, cur). case cur of None \<Rightarrow> 0 | Some k \<Rightarrow> 1]", goal_cases)
  case (2 out visited current)
  have s: "set (visited @ [current]) = set (current # visited)" by auto
  show ?case
  proof (cases "current \<in> set (map_keys out)")
    case True
    with 2 show ?thesis
      using unvisited_less [of current out visited] by (simp add: s del: set_append)
  next
    case False
    then have "neighbours out current = []" using neighbours_key by blast
    with False show ?thesis using unvisited_same [of current out visited]
      by (simp add: s del: set_append)
  qed
qed simp

definition check_sequential_graph ::
    "wf_node list \<Rightarrow> adjacency \<Rightarrow> adjacency \<Rightarrow> osva_error option" where
  "check_sequential_graph nodes inc out =
     (case find (\<lambda>kv. 1 < length (snd kv)) inc of
        Some kv \<Rightarrow> invalid_definition (''Workflow node '' @ fst kv @ '' has multiple incoming edges.'')
      | None \<Rightarrow>
     (case find (\<lambda>kv. 1 < length (snd kv)) out of
        Some kv \<Rightarrow> invalid_definition (''Workflow node '' @ fst kv @ '' has multiple outgoing edges.'')
      | None \<Rightarrow>
        let entryNodes = filter (\<lambda>n. length (neighbours inc (wn_key n)) = 0) nodes;
            terminalNodes = filter (\<lambda>n. length (neighbours out (wn_key n)) = 0) nodes
        in if length entryNodes \<noteq> 1
           then invalid_definition ''Workflow definition must have exactly one entry node.''
           else if length terminalNodes \<noteq> 1
           then invalid_definition ''Workflow definition must have exactly one terminal node.''
           else (case walk_chain out [] (Some (wn_key (hd entryNodes))) of
                   Inl e \<Rightarrow> Some e
                 | Inr visited \<Rightarrow>
                     if length visited \<noteq> length nodes
                     then invalid_definition (''Workflow definition contains a node that is not ''
                       @ ''part of the sequential chain from the entry node.'')
                     else None)))"

definition assertSequentialWorkflowDefinition :: "workflow_definition \<Rightarrow> osva_error option" where
  "assertSequentialWorkflowDefinition d =
     (if wd_schemaVersion d \<noteq> ''1''
      then invalid_definition (''Unsupported workflow definition schemaVersion '' @ wd_schemaVersion d)
      else if wd_nodes d = []
      then invalid_definition ''Workflow definition must contain at least one node.''
      else case index_nodes assertAgentNode (wd_nodes d) [] of
        Inl e \<Rightarrow> Some e
      | Inr nodesByKey \<Rightarrow>
          (case collect_sequential_edges nodesByKey (wd_edges d)
              (empty_adjacency (map_keys nodesByKey)) (empty_adjacency (map_keys nodesByKey)) of
             Inl e \<Rightarrow> Some e
           | Inr (inc, out) \<Rightarrow> check_sequential_graph (wd_nodes d) inc out))"

definition assertWorkflowDefinition :: "workflow_definition \<Rightarrow> osva_error option" where
  "assertWorkflowDefinition d =
     (if isWorkflowDefinitionV1 d then assertSequentialWorkflowDefinition d
      else if isWorkflowDefinitionV2 d then assertDagWorkflowDefinition d
      else if isWorkflowDefinitionV3 d then assertDagWorkflowDefinitionV3 d
      else invalid_definition (''Unsupported workflow definition schemaVersion '' @ wd_schemaVersion d))"

definition assertWorkflowDefinitionExecutable :: "workflow_definition \<Rightarrow> osva_error option" where
  "assertWorkflowDefinitionExecutable d =
     (if \<not> isExecutableWorkflowDefinition d
      then Some (WorkflowDefinitionNotExecutableError (wd_schemaVersion d)) else None)"

subsection \<open>What the adjacency maps hold\<close>

definition preds :: "wf_edge list \<Rightarrow> string \<Rightarrow> string list" where
  "preds edges k = List.map we_from (filter (\<lambda>e. we_to e = k) edges)"

definition succs :: "wf_edge list \<Rightarrow> string \<Rightarrow> string list" where
  "succs edges k = List.map we_to (filter (\<lambda>e. we_from e = k) edges)"

definition edge_pairs :: "wf_edge list \<Rightarrow> (string \<times> string) set" where
  "edge_pairs edges = (\<lambda>e. (we_from e, we_to e)) ` set edges"

lemma map_keys_push [simp]: "map_keys (push_neighbour m k v) = map_keys m"
proof (cases "map_of m k")
  case (Some ks)
  then have "k \<in> set (map_keys m)" by (metis map_of_eq_None_iff option.distinct(1) set_map)
  with Some show ?thesis by (simp add: push_neighbour_def update_keys)
qed (simp add: push_neighbour_def)

lemma neighbours_push:
  "neighbours (push_neighbour m k v) x =
     (if x = k \<and> k \<in> set (map_keys m) then neighbours m x @ [v] else neighbours m x)"
proof (cases "map_of m k")
  case None
  then have "k \<notin> set (map_keys m)" by (simp add: map_of_eq_None_iff)
  with None show ?thesis by (simp add: push_neighbour_def)
next
  case (Some ks)
  then have "k \<in> set (map_keys m)" by (metis map_of_eq_None_iff option.distinct(1) set_map)
  with Some show ?thesis by (simp add: push_neighbour_def neighbours_def)
qed

lemma map_keys_empty [simp]: "map_keys (empty_adjacency keys) = keys"
  by (simp add: empty_adjacency_def comp_def)

lemma neighbours_empty [simp]: "neighbours (empty_adjacency keys) k = []"
  by (auto simp: neighbours_def empty_adjacency_def split: option.splits dest: map_of_SomeD)

definition edge_ok :: "string set \<Rightarrow> wf_edge \<Rightarrow> bool" where
  "edge_ok keys e \<longleftrightarrow> \<not> js_blank (we_from e) \<and> \<not> js_blank (we_to e) \<and> we_from e \<in> keys \<and> we_to e \<in> keys"

lemma assertEdge_None:
  "assertEdge e m = None \<longleftrightarrow> edge_ok (set (map_keys m)) e"
  by (auto simp: assertEdge_def edge_ok_def map_of_eq_None_iff)

lemma collect_dag_edges_Inr:
  "collect_dag_edges m edges seen inc out = Inr (inc', out') \<longleftrightarrow>
     (\<forall>e\<in>set edges. edge_ok (set (map_keys m)) e) \<and> distinct (List.map edge_identity edges)
     \<and> set (List.map edge_identity edges) \<inter> set seen = {}
     \<and> inc' = foldl (\<lambda>a e. push_neighbour a (we_to e) (we_from e)) inc edges
     \<and> out' = foldl (\<lambda>a e. push_neighbour a (we_from e) (we_to e)) out edges"
proof (induction edges arbitrary: seen inc out)
  case (Cons e es)
  show ?case
  proof (cases "assertEdge e m")
    case None
    then have "edge_ok (set (map_keys m)) e" by (simp add: assertEdge_None)
    with None show ?thesis using Cons.IH by auto
  next
    case (Some err)
    then have "\<not> edge_ok (set (map_keys m)) e" by (metis assertEdge_None option.distinct(1))
    with Some show ?thesis by simp
  qed
qed auto

lemma collect_sequential_edges_Inr:
  "collect_sequential_edges m edges inc out = Inr (inc', out') \<longleftrightarrow>
     (\<forall>e\<in>set edges. edge_ok (set (map_keys m)) e)
     \<and> inc' = foldl (\<lambda>a e. push_neighbour a (we_to e) (we_from e)) inc edges
     \<and> out' = foldl (\<lambda>a e. push_neighbour a (we_from e) (we_to e)) out edges"
proof (induction edges arbitrary: inc out)
  case (Cons e es)
  show ?case
  proof (cases "assertEdge e m")
    case None
    then have "edge_ok (set (map_keys m)) e" by (simp add: assertEdge_None)
    with None show ?thesis using Cons.IH by auto
  next
    case (Some err)
    then have "\<not> edge_ok (set (map_keys m)) e" by (metis assertEdge_None option.distinct(1))
    with Some show ?thesis by simp
  qed
qed auto

lemma foldl_push_keys [simp]:
  "map_keys (foldl (\<lambda>a e. push_neighbour a (f e) (g e)) m es) = map_keys m"
  by (induction es arbitrary: m) auto

lemma foldl_push_neighbours:
  "x \<in> set (map_keys m) \<Longrightarrow>
     neighbours (foldl (\<lambda>a e. push_neighbour a (f e) (g e)) m es) x
       = neighbours m x @ List.map g (filter (\<lambda>e. f e = x) es)"
proof (induction es arbitrary: m)
  case (Cons e es)
  have "x \<in> set (map_keys (push_neighbour m (f e) (g e)))"
    using Cons.prems by (simp only: map_keys_push)
  from Cons.IH [OF this] Cons.prems show ?case by (auto simp: neighbours_push)
qed simp

definition inc_map :: "string list \<Rightarrow> wf_edge list \<Rightarrow> adjacency" where
  "inc_map keys edges = foldl (\<lambda>a e. push_neighbour a (we_to e) (we_from e)) (empty_adjacency keys) edges"

definition out_map :: "string list \<Rightarrow> wf_edge list \<Rightarrow> adjacency" where
  "out_map keys edges = foldl (\<lambda>a e. push_neighbour a (we_from e) (we_to e)) (empty_adjacency keys) edges"

lemma inc_out_keys [simp]: "map_keys (inc_map keys es) = keys" "map_keys (out_map keys es) = keys"
  by (simp_all add: inc_map_def out_map_def)

lemma neighbours_outside: "k \<notin> set (map_keys m) \<Longrightarrow> neighbours m k = []"
  using neighbours_key by blast

lemma neighbours_inc: "neighbours (inc_map keys es) k = (if k \<in> set keys then preds es k else [])"
  using neighbours_outside [of k "inc_map keys es"]
  by (simp add: inc_map_def foldl_push_neighbours preds_def)

lemma neighbours_out: "neighbours (out_map keys es) k = (if k \<in> set keys then succs es k else [])"
  using neighbours_outside [of k "out_map keys es"]
  by (simp add: out_map_def foldl_push_neighbours succs_def)

lemma edge_rel_out:
  "\<forall>e\<in>set es. edge_ok (set keys) e \<Longrightarrow> edge_rel (out_map keys es) = edge_pairs es"
  by (auto simp: edge_rel_def neighbours_out succs_def edge_pairs_def edge_ok_def split: if_splits)

lemma edge_rel_inc:
  "\<forall>e\<in>set es. edge_ok (set keys) e \<Longrightarrow> edge_rel (inc_map keys es) = (edge_pairs es)\<inverse>"
  by (auto simp: edge_rel_def neighbours_inc preds_def edge_pairs_def edge_ok_def split: if_splits)

lemma index_nodes_Inr:
  "distinct (map_keys m) \<Longrightarrow>
   index_nodes check ns m = Inr m' \<longleftrightarrow>
     (\<forall>n\<in>set ns. check n = None) \<and> distinct (map_keys m @ List.map wn_key ns)
     \<and> m' = m @ List.map (\<lambda>n. (wn_key n, n)) ns"
proof (induction ns arbitrary: m)
  case (Cons n ns)
  show ?case
  proof (cases "check n = None \<and> map_of m (wn_key n) = None")
    case True
    then have "AList.update (wn_key n) n m = m @ [(wn_key n, n)]"
      by (auto simp: map_of_eq_None_iff intro: update_fresh)
    with True Cons.IH [of "m @ [(wn_key n, n)]"] Cons.prems show ?thesis
      by (auto simp: map_of_eq_None_iff)
  next
    case False
    then show ?thesis by (auto simp: map_of_eq_None_iff split: option.splits)
  qed
qed auto


subsection \<open>What acceptance means\<close>

definition dag_graph_ok :: "wf_node list \<Rightarrow> wf_edge list \<Rightarrow> wf_node \<Rightarrow> wf_node \<Rightarrow> bool" where
  "dag_graph_ok nodes edges entry terminal \<longleftrightarrow>
     distinct (List.map wn_key nodes)
     \<and> (\<forall>e\<in>set edges. edge_ok (wn_key ` set nodes) e)
     \<and> distinct (List.map edge_identity edges)
     \<and> acyclic (edge_pairs edges)
     \<and> filter (\<lambda>n. preds edges (wn_key n) = []) nodes = [entry]
     \<and> filter (\<lambda>n. succs edges (wn_key n) = []) nodes = [terminal]
     \<and> (\<forall>n\<in>set nodes. assertDagNodeTopology n (length (preds edges (wn_key n)))
          (length (succs edges (wn_key n))) (wn_key n = wn_key entry) (wn_key n = wn_key terminal)
          (succs edges (wn_key n)) = None)
     \<and> (\<forall>n\<in>set nodes. (wn_key entry, wn_key n) \<in> (edge_pairs edges)\<^sup>*
          \<and> (wn_key n, wn_key terminal) \<in> (edge_pairs edges)\<^sup>*)"

abbreviation nodes_map :: "wf_node list \<Rightarrow> (string, wf_node) js_map" where
  "nodes_map nodes \<equiv> List.map (\<lambda>n. (wn_key n, n)) nodes"

lemma map_keys_nodes [simp]: "map_keys (nodes_map nodes) = List.map wn_key nodes"
  by (simp add: comp_def)

lemma full_walk:
  assumes "distinct keys" "s \<in> set keys" "\<And>a b. (a, b) \<in> edge_rel m \<Longrightarrow> b \<in> set keys"
  shows "length (walk m [] [s]) = length keys \<longleftrightarrow> (\<forall>k\<in>set keys. (s, k) \<in> (edge_rel m)\<^sup>*)"
proof -
  have w: "set (walk m [] [s]) = {x. (s, x) \<in> (edge_rel m)\<^sup>*}" by (rule walk_reachable)
  have sub: "set (walk m [] [s]) \<subseteq> set keys"
  proof
    fix x assume "x \<in> set (walk m [] [s])"
    then have "(s, x) \<in> (edge_rel m)\<^sup>*" using w by simp
    then show "x \<in> set keys" by (rule closed_rtrancl) (use assms in blast)+
  qed
  have c: "length (walk m [] [s]) = card (set (walk m [] [s]))" "length keys = card (set keys)"
    using assms(1) walk_distinct [of "[]" m "[s]"] by (simp_all add: distinct_card del: walk.simps)
  have "card (set (walk m [] [s])) = card (set keys) \<longleftrightarrow> set (walk m [] [s]) = set keys"
    using sub by (metis List.finite_set card_subset_eq)
  with sub w c show ?thesis by auto
qed

lemma check_dag_graph_None:
  assumes k: "keys = List.map wn_key nodes" "distinct keys"
    and e: "\<forall>e\<in>set edges. edge_ok (set keys) e"
  shows "check_dag_graph nodes (nodes_map nodes) (inc_map keys edges) (out_map keys edges) = None
    \<longleftrightarrow> (acyclic (edge_pairs edges) \<and> (\<exists>entry terminal.
      filter (\<lambda>n. preds edges (wn_key n) = []) nodes = [entry]
      \<and> filter (\<lambda>n. succs edges (wn_key n) = []) nodes = [terminal]
      \<and> (\<forall>n\<in>set nodes. assertDagNodeTopology n (length (preds edges (wn_key n)))
          (length (succs edges (wn_key n))) (wn_key n = wn_key entry) (wn_key n = wn_key terminal)
          (succs edges (wn_key n)) = None)
      \<and> (\<forall>n\<in>set nodes. (wn_key entry, wn_key n) \<in> (edge_pairs edges)\<^sup>*
          \<and> (wn_key n, wn_key terminal) \<in> (edge_pairs edges)\<^sup>*)))"
proof -
  have nb: "n \<in> set nodes \<Longrightarrow> neighbours (inc_map keys edges) (wn_key n) = preds edges (wn_key n)"
    "n \<in> set nodes \<Longrightarrow> neighbours (out_map keys edges) (wn_key n) = succs edges (wn_key n)" for n
    using k(1) by (simp_all add: neighbours_inc neighbours_out)
  have f: "filter (\<lambda>n. length (neighbours (inc_map keys edges) (wn_key n)) = 0) nodes
      = filter (\<lambda>n. preds edges (wn_key n) = []) nodes"
    "filter (\<lambda>n. length (neighbours (out_map keys edges) (wn_key n)) = 0) nodes
      = filter (\<lambda>n. succs edges (wn_key n) = []) nodes"
    by (rule filter_cong; simp add: nb)+
  have cyc: "hasCycle (List.map wn_key nodes) (out_map keys edges) \<longleftrightarrow> \<not> acyclic (edge_pairs edges)"
  proof -
    have "set (map_keys (out_map keys edges)) \<subseteq> set keys" by (simp only: inc_out_keys subset_refl)
    from hasCycle_iff_aux [OF this] show ?thesis unfolding edge_rel_out [OF e] k(1) [symmetric] .
  qed
  have one: "length xs = 1 \<longleftrightarrow> (\<exists>x. xs = [x])" for xs :: "wf_node list"
    by (cases xs) auto
  have fwd: "length (walkForward s (out_map keys edges)) = length nodes
      \<longleftrightarrow> (\<forall>n\<in>set nodes. (s, wn_key n) \<in> (edge_pairs edges)\<^sup>*)" if "s \<in> set keys" for s
    using full_walk [OF k(2) that, of "out_map keys edges"] e k(1)
    by (auto simp: walkForward_def edge_rel_out edge_pairs_def edge_ok_def simp del: walk.simps edge_rel_iff)
  have bwd: "length (walkBackward s (inc_map keys edges)) = length nodes
      \<longleftrightarrow> (\<forall>n\<in>set nodes. (wn_key n, s) \<in> (edge_pairs edges)\<^sup>*)" if "s \<in> set keys" for s
    using full_walk [OF k(2) that, of "inc_map keys edges"] e k(1)
    by (auto simp: walkBackward_def edge_rel_inc edge_pairs_def edge_ok_def rtrancl_converse
        simp del: walk.simps edge_rel_iff)
  show ?thesis
  proof (cases "acyclic (edge_pairs edges)
      \<and> (\<exists>x. filter (\<lambda>n. preds edges (wn_key n) = []) nodes = [x])
      \<and> (\<exists>x. filter (\<lambda>n. succs edges (wn_key n) = []) nodes = [x])")
    case True
    then obtain x y where xy: "filter (\<lambda>n. preds edges (wn_key n) = []) nodes = [x]"
        "filter (\<lambda>n. succs edges (wn_key n) = []) nodes = [y]" by blast
    then have "wn_key x \<in> set keys" "wn_key y \<in> set keys"
      using k(1) by (metis (no_types, lifting) filter_is_subset imageI list.set_intros(1) list.set_map subsetD)+
    note in_keys = this
    let ?topo = "\<lambda>n. assertDagNodeTopology n (length (neighbours (inc_map keys edges) (wn_key n)))
      (length (neighbours (out_map keys edges) (wn_key n))) (wn_key n = wn_key x) (wn_key n = wn_key y)
      (neighbours (out_map keys edges) (wn_key n))"
    have "check_dag_graph nodes (nodes_map nodes) (inc_map keys edges) (out_map keys edges) = None
      \<longleftrightarrow> check_all ?topo nodes = None
        \<and> length (walkForward (wn_key x) (out_map keys edges)) = length nodes
        \<and> length (walkBackward (wn_key y) (inc_map keys edges)) = length nodes"
      unfolding check_dag_graph_def Let_def f map_keys_nodes cyc
      using True xy by (cases "check_all ?topo nodes") (simp_all del: check_all_None)
    also have "\<dots> \<longleftrightarrow> (\<forall>n\<in>set nodes. assertDagNodeTopology n (length (preds edges (wn_key n)))
          (length (succs edges (wn_key n))) (wn_key n = wn_key x) (wn_key n = wn_key y)
          (succs edges (wn_key n)) = None)
      \<and> (\<forall>n\<in>set nodes. (wn_key x, wn_key n) \<in> (edge_pairs edges)\<^sup>*)
      \<and> (\<forall>n\<in>set nodes. (wn_key n, wn_key y) \<in> (edge_pairs edges)\<^sup>*)"
      unfolding fwd [OF in_keys(1)] bwd [OF in_keys(2)] check_all_None by (simp add: nb)
    finally show ?thesis using True xy by auto
  next
    case False
    have "check_dag_graph nodes (nodes_map nodes) (inc_map keys edges) (out_map keys edges) \<noteq> None"
      unfolding check_dag_graph_def Let_def f map_keys_nodes cyc one using False
      by (cases "acyclic (edge_pairs edges)";
          cases "\<exists>x. filter (\<lambda>n. preds edges (wn_key n) = []) nodes = [x]") (simp_all only:
            simp_thms if_True if_False option.distinct)
    with False show ?thesis by blast
  qed
qed

lemma dag_structure_accepts:
  "assertDagWorkflowGraphStructure nodes edges = None
     \<longleftrightarrow> (\<exists>entry terminal. dag_graph_ok nodes edges entry terminal)"
proof (cases "distinct (List.map wn_key nodes)")
  case True
  let ?keys = "List.map wn_key nodes"
  have i: "index_nodes (\<lambda>n. None) nodes [] = Inr (nodes_map nodes)"
    using True index_nodes_Inr [of "[]" "\<lambda>n. None" nodes "nodes_map nodes"] by simp
  show ?thesis
  proof (cases "(\<forall>e\<in>set edges. edge_ok (set ?keys) e) \<and> distinct (List.map edge_identity edges)")
    case ok: True
    then have "collect_dag_edges (nodes_map nodes) edges [] (empty_adjacency ?keys) (empty_adjacency ?keys)
        = Inr (inc_map ?keys edges, out_map ?keys edges)"
      unfolding collect_dag_edges_Inr map_keys_nodes inc_map_def out_map_def by simp
    then have "assertDagWorkflowGraphStructure nodes edges
        = check_dag_graph nodes (nodes_map nodes) (inc_map ?keys edges) (out_map ?keys edges)"
      unfolding assertDagWorkflowGraphStructure_def i sum.case map_keys_nodes by simp
    with check_dag_graph_None [OF refl True] ok True show ?thesis
      unfolding dag_graph_ok_def by simp
  next
    case False
    obtain r where r: "collect_dag_edges (nodes_map nodes) edges [] (empty_adjacency ?keys)
        (empty_adjacency ?keys) = r" by blast
    have "\<exists>e. r = Inl e"
    proof (cases r)
      case (Inr io)
      with r False show ?thesis
        by (cases io) (simp add: collect_dag_edges_Inr map_keys_nodes del: map_map)
    qed simp
    then obtain e where "r = Inl e" by blast
    with r have "assertDagWorkflowGraphStructure nodes edges = Some e"
      unfolding assertDagWorkflowGraphStructure_def i sum.case map_keys_nodes by simp
    with False show ?thesis unfolding dag_graph_ok_def by auto
  qed
next
  case False
  then have "\<exists>e. index_nodes (\<lambda>n. None) nodes [] = Inl e"
    using index_nodes_Inr [of "[]" "\<lambda>n. None" nodes] by (cases "index_nodes (\<lambda>n. None) nodes []") auto
  with False show ?thesis
    by (auto simp: assertDagWorkflowGraphStructure_def dag_graph_ok_def)
qed

text \<open>
  C20. A graph is accepted exactly when it is a directed acyclic graph with one entry and one
  terminal node, distinct node keys and edges, edges between nodes only, the degrees each node
  type demands, and every node on a path from the entry to the terminal node.
\<close>

theorem assertDagWorkflowGraphStructure_iff:
  "assertDagWorkflowGraphStructure nodes edges = None
     \<longleftrightarrow> (\<exists>entry terminal. dag_graph_ok nodes edges entry terminal)"
  by (rule dag_structure_accepts)

end
