(* ===== verification/Workflow_Chain.thy ===== *)
theory Workflow_Chain
  imports Workflow_Graph
begin

text \<open>
  The graph built from an accepted definition (\<open>buildWorkflowGraph\<close>), the order of predecessors,
  and the chain of a sequential definition (\<open>orderedSequentialNodeKeys\<close>), all of
  \<open>domain/src/workflow-definition.ts\<close>. The loop along the chain has no check against running
  in a circle, so it is a partial function; it is shown to return for every accepted definition.
\<close>

subsection \<open>The graph (buildWorkflowGraph)\<close>

record workflow_graph =
  g_definition :: workflow_definition
  g_nodesByKey :: "(string, wf_node) js_map"
  g_incoming :: adjacency
  g_outgoing :: adjacency
  g_entryKey :: string
  g_terminalKey :: string
  g_sequenceByKey :: "(string, nat) js_map"

definition buildWorkflowGraph :: "workflow_definition \<Rightarrow> osva_error + workflow_graph" where
  "buildWorkflowGraph d =
     after_check (assertWorkflowDefinition d)
       (let nodes = wd_nodes d;
            nodesByKey = foldl (\<lambda>m n. AList.update (wn_key n) n m) [] nodes;
            sequenceByKey = foldl (\<lambda>m (n, i). AList.update (wn_key n) (i + 1) m) []
              (zip nodes [0..<length nodes]);
            inc = foldl (\<lambda>m e. push_neighbour m (we_to e) (we_from e))
              (empty_adjacency (map_keys nodesByKey)) (wd_edges d);
            out = foldl (\<lambda>m e. push_neighbour m (we_from e) (we_to e))
              (empty_adjacency (map_keys nodesByKey)) (wd_edges d)
        in case (find (\<lambda>n. length (neighbours inc (wn_key n)) = 0) nodes,
                 find (\<lambda>n. length (neighbours out (wn_key n)) = 0) nodes) of
             (Some entry, Some terminal) \<Rightarrow>
               Inr \<lparr> g_definition = d, g_nodesByKey = nodesByKey, g_incoming = inc,
                 g_outgoing = out, g_entryKey = wn_key entry, g_terminalKey = wn_key terminal,
                 g_sequenceByKey = sequenceByKey \<rparr>
           | _ \<Rightarrow> Inl (InvalidWorkflowDefinitionError
               ''Workflow definition must have exactly one entry node and one terminal node.''))"

definition isWorkflowAgentNode :: "wf_node \<Rightarrow> bool" where
  "isWorkflowAgentNode n = (node_type (wn_body n) = ''AGENT'')"

definition listAgentNodes :: "workflow_definition \<Rightarrow> wf_node list" where
  "listAgentNodes d = filter isWorkflowAgentNode (wd_nodes d)"

text \<open>\<open>Array.prototype.sort\<close> is stable; a key without a number counts as 0.\<close>

definition sequence_of :: "workflow_graph \<Rightarrow> string \<Rightarrow> nat" where
  "sequence_of g k = (case map_of (g_sequenceByKey g) k of None \<Rightarrow> 0 | Some i \<Rightarrow> i)"

definition predecessorKeysInDefinitionOrder :: "workflow_graph \<Rightarrow> string \<Rightarrow> string list" where
  "predecessorKeysInDefinitionOrder g k = sort_key (sequence_of g) (neighbours (g_incoming g) k)"

lemma foldl_update_fresh:
  "distinct (map_keys m @ List.map f xs) \<Longrightarrow>
     foldl (\<lambda>m x. AList.update (f x) (h x) m) m xs = m @ List.map (\<lambda>x. (f x, h x)) xs"
proof (induction xs arbitrary: m)
  case (Cons x xs)
  then have "AList.update (f x) (h x) m = m @ [(f x, h x)]" by (intro update_fresh) auto
  with Cons.IH [of "m @ [(f x, h x)]"] Cons.prems show ?case by simp
qed simp

lemma index_nodes_distinct:
  assumes "index_nodes check ns [] = Inr m"
  shows "distinct (List.map wn_key ns) \<and> m = nodes_map ns"
  using index_nodes_Inr [of "[]" check ns m] assms by simp

lemma assertWorkflowDefinition_distinct:
  assumes "assertWorkflowDefinition d = None"
  shows "distinct (List.map wn_key (wd_nodes d))
    \<and> (\<forall>e\<in>set (wd_edges d). edge_ok (wn_key ` set (wd_nodes d)) e)"
proof -
  have dag: "assertDagWorkflowGraphStructure ns es = None \<Longrightarrow>
      distinct (List.map wn_key ns) \<and> (\<forall>e\<in>set es. edge_ok (wn_key ` set ns) e)" for ns es
    unfolding dag_structure_accepts dag_graph_ok_def by blast
  consider "assertSequentialWorkflowDefinition d = None" | "assertDagWorkflowDefinition d = None"
    | "assertDagWorkflowDefinitionV3 d = None"
    using assms by (auto simp: assertWorkflowDefinition_def split: if_splits)
  then show ?thesis
  proof cases
    case 1
    then obtain m io where m: "index_nodes assertAgentNode (wd_nodes d) [] = Inr m"
      and c: "collect_sequential_edges m (wd_edges d) (empty_adjacency (map_keys m))
          (empty_adjacency (map_keys m)) = Inr io"
      by (auto simp: assertSequentialWorkflowDefinition_def split: if_splits sum.splits)
    from index_nodes_distinct [OF m] c show ?thesis
      by (cases io) (auto simp: collect_sequential_edges_Inr image_image)
  qed (auto simp: assertDagWorkflowDefinition_def assertDagWorkflowDefinitionV3_def
      split: if_splits option.splits dest: dag)
qed

lemma buildWorkflowGraph_Inr:
  assumes "buildWorkflowGraph d = Inr g"
  shows "assertWorkflowDefinition d = None
    \<and> g_definition g = d
    \<and> g_nodesByKey g = nodes_map (wd_nodes d)
    \<and> g_incoming g = inc_map (List.map wn_key (wd_nodes d)) (wd_edges d)
    \<and> g_outgoing g = out_map (List.map wn_key (wd_nodes d)) (wd_edges d)"
proof -
  have a: "assertWorkflowDefinition d = None" using assms by (simp add: buildWorkflowGraph_def after_check_Inr)
  then have "foldl (\<lambda>m n. AList.update (wn_key n) n m) [] (wd_nodes d) = nodes_map (wd_nodes d)"
    using assertWorkflowDefinition_distinct [OF a] by (simp add: foldl_update_fresh)
  with assms a show ?thesis
    unfolding buildWorkflowGraph_def a after_check_simps Let_def inc_map_def out_map_def map_keys_nodes [symmetric]
    by (auto split: option.splits)
qed

lemma graph_edges:
  assumes "buildWorkflowGraph d = Inr g"
  shows "(\<forall>n\<in>set (wd_nodes d). map_of (g_nodesByKey g) (wn_key n) = Some n)
    \<and> neighbours (g_incoming g) k = preds (wd_edges d) k
    \<and> neighbours (g_outgoing g) k = succs (wd_edges d) k
    \<and> set (predecessorKeysInDefinitionOrder g k) = set (preds (wd_edges d) k)
    \<and> length (predecessorKeysInDefinitionOrder g k) = length (preds (wd_edges d) k)"
proof -
  note g = buildWorkflowGraph_Inr [OF assms]
  note ok = assertWorkflowDefinition_distinct [OF conjunct1 [OF g]]
  have "preds (wd_edges d) k = []" "succs (wd_edges d) k = []" if "k \<notin> wn_key ` set (wd_nodes d)"
    using that ok by (auto simp: preds_def succs_def filter_empty_conv edge_ok_def)
  then have n: "neighbours (g_incoming g) k = preds (wd_edges d) k"
    "neighbours (g_outgoing g) k = succs (wd_edges d) k"
    using g by (auto simp: neighbours_inc neighbours_out)
  moreover have "map_of (nodes_map (wd_nodes d)) (wn_key n) = Some n" if "n \<in> set (wd_nodes d)" for n
    using that ok by (intro map_of_is_SomeI) (auto simp: comp_def)
  ultimately show ?thesis
    using g by (simp add: predecessorKeysInDefinitionOrder_def)
qed

text \<open>
  C26. The graph of an accepted definition holds its nodes by key and its edges: the predecessors
  and successors of a node are those of the edge list, in the order of the edges, and the list of
  predecessors in definition order has the same elements.
\<close>

theorem buildWorkflowGraph_edges:
  assumes "buildWorkflowGraph d = Inr g"
  shows "(\<forall>n\<in>set (wd_nodes d). map_of (g_nodesByKey g) (wn_key n) = Some n)
    \<and> neighbours (g_incoming g) k = preds (wd_edges d) k
    \<and> neighbours (g_outgoing g) k = succs (wd_edges d) k
    \<and> set (predecessorKeysInDefinitionOrder g k) = set (preds (wd_edges d) k)
    \<and> length (predecessorKeysInDefinitionOrder g k) = length (preds (wd_edges d) k)"
  by (rule graph_edges [OF assms])

subsection \<open>The chain of a sequential definition\<close>

partial_function (option) follow_chain ::
    "(string, string) js_map \<Rightarrow> string option \<Rightarrow> string list option" where
  "follow_chain out cur =
     (case cur of None \<Rightarrow> Some []
      | Some k \<Rightarrow> Option.bind (follow_chain out (map_of out k)) (\<lambda>ks. Some (k # ks)))"

text \<open>\<open>None\<close> is a loop that does not end.\<close>

definition orderedSequentialNodeKeys ::
    "workflow_definition \<Rightarrow> (osva_error + string list) option" where
  "orderedSequentialNodeKeys d =
     (case assertSequentialWorkflowDefinition d of
        Some e \<Rightarrow> Some (Inl e)
      | None \<Rightarrow>
          let out = foldl (\<lambda>m e. AList.update (we_from e) (we_to e) m) [] (wd_edges d);
              inc = List.map we_to (wd_edges d)
          in case find (\<lambda>n. wn_key n \<notin> set inc) (wd_nodes d) of
               None \<Rightarrow> Some (Inl (InvalidWorkflowDefinitionError
                 ''Workflow definition must have exactly one entry node.''))
             | Some entry \<Rightarrow> map_option Inr (follow_chain out (Some (wn_key entry))))"

lemma follow_chain_simps [simp]:
  "follow_chain out None = Some []"
  "follow_chain out (Some k) = Option.bind (follow_chain out (map_of out k)) (\<lambda>ks. Some (k # ks))"
  by (simp_all add: follow_chain.simps [of out None] follow_chain.simps [of out "Some k"])

lemma foldl_update_last:
  "map_of (foldl (\<lambda>m e. AList.update (we_from e) (we_to e) m) m es) k =
     (if succs es k = [] then map_of m k else Some (last (succs es k)))"
  by (induction es arbitrary: m) (auto simp: succs_def)

fun chained :: "('a \<times> 'a) set \<Rightarrow> 'a list \<Rightarrow> bool" where
  "chained r (a # b # xs) = ((a, b) \<in> r \<and> chained r (b # xs))"
| "chained r _ = True"

lemma walk_chain_follow:
  "walk_chain out visited cur = Inr r \<Longrightarrow>
   (\<And>k. map_of m k = (case neighbours out k of [] \<Rightarrow> None | x # xs \<Rightarrow> Some x)) \<Longrightarrow>
     \<exists>ks. follow_chain m cur = Some ks \<and> r = visited @ ks"
proof (induction out visited cur arbitrary: r rule: walk_chain.induct)
  case (2 out visited current)
  then have n: "current \<notin> set visited" by (auto split: if_splits)
  with "2.prems"(1) have "walk_chain out (visited @ [current])
      (case neighbours out current of [] \<Rightarrow> None | k # ks \<Rightarrow> Some k) = Inr r" by simp
  from "2.IH" [OF n this "2.prems"(2)] show ?case by (auto simp: "2.prems"(2))
qed simp

lemma walk_chain_distinct: "walk_chain out visited cur = Inr r \<Longrightarrow> distinct visited \<Longrightarrow> distinct r"
  by (induction out visited cur arbitrary: r rule: walk_chain.induct) (auto split: if_splits)

lemma follow_chain_chained:
  "follow_chain m cur = Some ks \<Longrightarrow>
     chained {(a, b). map_of m a = Some b} ks \<and> (ks = [] \<longleftrightarrow> cur = None) \<and> (ks \<noteq> [] \<longrightarrow> cur = Some (hd ks))
     \<and> set ks \<subseteq> set_option cur \<union> ran (map_of m)"
proof (induction ks arbitrary: cur)
  case Nil
  then show ?case by (cases cur) (auto split: bind_splits)
next
  case (Cons k ks)
  then obtain c where c: "cur = Some k" "follow_chain m (map_of m k) = Some ks"
    by (cases cur) (auto split: bind_splits)
  note IH = Cons.IH [OF c(2)]
  have "set_option (map_of m k) \<subseteq> ran (map_of m)" by (auto simp: ran_def)
  with IH c(1) show ?case by (cases ks) auto
qed

lemma chained_mono: "chained r ks \<Longrightarrow> r \<subseteq> s \<Longrightarrow> chained s ks"
  by (induction r ks rule: chained.induct) auto

lemma find_filter: "find P xs = (case filter P xs of [] \<Rightarrow> None | x # ys \<Rightarrow> Some x)"
  by (induction xs) auto

lemma short_last: "length xs \<le> 1 \<Longrightarrow> (if xs = [] then None else Some (last xs))
    = (case xs of [] \<Rightarrow> None | x # ys \<Rightarrow> Some x)"
  by (cases xs) auto

lemma find_long_None:
  "find (\<lambda>kv. 1 < length (snd kv)) m = None \<Longrightarrow> length (neighbours m k) \<le> 1"
  by (fastforce simp: find_None_iff neighbours_def not_less split: option.splits dest!: map_of_SomeD)

lemma sequential_accepted:
  assumes "assertSequentialWorkflowDefinition d = None"
  defines "keys \<equiv> List.map wn_key (wd_nodes d)"
  shows "distinct keys \<and> (\<forall>e\<in>set (wd_edges d). edge_ok (set keys) e)
    \<and> (\<forall>k. length (neighbours (out_map keys (wd_edges d)) k) \<le> 1)
    \<and> (\<exists>entry r. filter (\<lambda>n. preds (wd_edges d) (wn_key n) = []) (wd_nodes d) = [entry]
        \<and> walk_chain (out_map keys (wd_edges d)) [] (Some (wn_key entry)) = Inr r
        \<and> length r = length keys)"
proof -
  let ?inc = "inc_map keys (wd_edges d)" and ?out = "out_map keys (wd_edges d)"
  from assms(1) obtain m inc out where m: "index_nodes assertAgentNode (wd_nodes d) [] = Inr m"
    and c: "collect_sequential_edges m (wd_edges d) (empty_adjacency (map_keys m))
        (empty_adjacency (map_keys m)) = Inr (inc, out)"
    and g: "check_sequential_graph (wd_nodes d) inc out = None"
    by (auto simp: assertSequentialWorkflowDefinition_def split: if_splits sum.splits)
  have mk: "distinct keys" "map_keys m = keys"
    using index_nodes_distinct [OF m] by (auto simp: keys_def)
  have e: "\<forall>e\<in>set (wd_edges d). edge_ok (set keys) e" and io: "inc = ?inc" "out = ?out"
    using c unfolding collect_sequential_edges_Inr mk(2) inc_map_def out_map_def by auto
  have nb: "neighbours ?inc (wn_key n) = preds (wd_edges d) (wn_key n)" if "n \<in> set (wd_nodes d)" for n
    using that by (simp add: neighbours_inc keys_def)
  have f: "filter (\<lambda>n. length (neighbours ?inc (wn_key n)) = 0) (wd_nodes d)
      = filter (\<lambda>n. preds (wd_edges d) (wn_key n) = []) (wd_nodes d)"
    by (rule filter_cong) (simp_all add: nb)
  have o: "find (\<lambda>kv. 1 < length (snd kv)) ?out = None"
    using g io by (auto simp: check_sequential_graph_def split: option.splits)
  obtain entry where en: "filter (\<lambda>n. preds (wd_edges d) (wn_key n) = []) (wd_nodes d) = [entry]"
    using g f io by (auto simp: check_sequential_graph_def Let_def length_Suc_conv
        split: option.splits if_splits)
  obtain r where "walk_chain ?out [] (Some (wn_key entry)) = Inr r \<and> length r = length keys"
    using g unfolding io check_sequential_graph_def Let_def f en
    by (auto simp: keys_def split: option.splits if_splits sum.splits)
  with mk e en find_long_None [OF o] show ?thesis by blast
qed

lemma sequential_out:
  assumes "assertSequentialWorkflowDefinition d = None"
  shows "length (succs (wd_edges d) k) \<le> 1"
    and "map_of (foldl (\<lambda>m e. AList.update (we_from e) (we_to e) m) [] (wd_edges d)) k
      = (case succs (wd_edges d) k of [] \<Rightarrow> None | x # xs \<Rightarrow> Some x)"
proof -
  let ?keys = "List.map wn_key (wd_nodes d)"
  from sequential_accepted [OF assms] have e: "\<forall>e\<in>set (wd_edges d). edge_ok (set ?keys) e"
    and short: "\<And>k. length (neighbours (out_map ?keys (wd_edges d)) k) \<le> 1" by blast+
  have "neighbours (out_map ?keys (wd_edges d)) k = succs (wd_edges d) k"
    using e by (auto simp: neighbours_out succs_def filter_empty_conv edge_ok_def)
  with short [of k] show l: "length (succs (wd_edges d) k) \<le> 1" by simp
  then show "map_of (foldl (\<lambda>m e. AList.update (we_from e) (we_to e) m) [] (wd_edges d)) k
      = (case succs (wd_edges d) k of [] \<Rightarrow> None | x # xs \<Rightarrow> Some x)"
    unfolding foldl_update_last by (cases "succs (wd_edges d) k") auto
qed

text \<open>The loop along the chain of an accepted sequential definition: it returns every node once.\<close>

lemma sequential_chain:
  assumes "assertSequentialWorkflowDefinition d = None"
  shows "\<exists>ks. orderedSequentialNodeKeys d = Some (Inr ks) \<and> distinct ks
    \<and> set ks = wn_key ` set (wd_nodes d) \<and> length ks = length (wd_nodes d)
    \<and> chained (edge_pairs (wd_edges d)) ks
    \<and> (\<exists>entry. follow_chain (foldl (\<lambda>m e. AList.update (we_from e) (we_to e) m) [] (wd_edges d)) (Some entry) = Some ks)"
proof -
  let ?keys = "List.map wn_key (wd_nodes d)" and ?es = "wd_edges d"
  let ?m = "foldl (\<lambda>m e. AList.update (we_from e) (we_to e) m) [] ?es"
  from sequential_accepted [OF assms] obtain entry r where
    k: "distinct ?keys" "\<forall>e\<in>set ?es. edge_ok (set ?keys) e"
    and en: "filter (\<lambda>n. preds ?es (wn_key n) = []) (wd_nodes d) = [entry]"
    and w: "walk_chain (out_map ?keys ?es) [] (Some (wn_key entry)) = Inr r"
    and len: "length r = length ?keys" by blast
  have nb: "neighbours (out_map ?keys ?es) x = succs ?es x" for x
    using k(2) by (auto simp: neighbours_out succs_def filter_empty_conv edge_ok_def)
  have m: "map_of ?m x = (case neighbours (out_map ?keys ?es) x of [] \<Rightarrow> None | y # ys \<Rightarrow> Some y)" for x
    unfolding nb by (rule sequential_out(2) [OF assms])
  from walk_chain_follow [OF w m] obtain ks where ks: "follow_chain ?m (Some (wn_key entry)) = Some ks" "r = ks"
    by auto
  have "filter (\<lambda>n. wn_key n \<notin> set (List.map we_to ?es)) (wd_nodes d) = [entry]"
    unfolding en [symmetric]
    by (rule filter_cong) (auto simp: preds_def filter_empty_conv, metis image_eqI)
  then have f: "find (\<lambda>n. wn_key n \<notin> set (List.map we_to ?es)) (wd_nodes d) = Some entry"
    by (simp only: find_filter list.case)
  have res: "orderedSequentialNodeKeys d = Some (Inr ks)"
    unfolding orderedSequentialNodeKeys_def assms option.case Let_def f ks(1) by simp
  have mp: "(a, b) \<in> edge_pairs ?es" if "map_of ?m a = Some b" for a b
  proof -
    have "b \<in> set (succs ?es a)" using that m [of a] nb [of a] by (auto split: list.splits)
    then show ?thesis by (auto simp: succs_def edge_pairs_def)
  qed
  have d: "distinct ks" using walk_chain_distinct [OF w] ks(2) by simp
  have "entry \<in> set (wd_nodes d)" using en by (metis filter_is_subset list.set_intros(1) subsetD)
  then have start: "wn_key entry \<in> set ?keys" by simp
  have "ran (map_of ?m) \<subseteq> set ?keys"
  proof
    fix b assume "b \<in> ran (map_of ?m)"
    then obtain a where "map_of ?m a = Some b" by (auto simp: ran_def)
    then have "(a, b) \<in> edge_pairs ?es" by (rule mp)
    then show "b \<in> set ?keys" using k(2) by (auto simp: edge_pairs_def edge_ok_def)
  qed
  with start follow_chain_chained [OF ks(1)] have "set ks \<subseteq> set ?keys" by auto
  with d k(1) len ks(2) have "set ks = set ?keys"
    by (metis List.finite_set card_subset_eq distinct_card)
  moreover have "chained (edge_pairs ?es) ks"
    by (rule chained_mono [OF conjunct1 [OF follow_chain_chained [OF ks(1)]]]) (use mp in blast)
  ultimately show ?thesis using res d len ks by auto
qed

lemma follow_chain_next:
  "follow_chain m cur = Some ks \<Longrightarrow> i < length ks \<Longrightarrow>
     map_of m (ks ! i) = (if Suc i < length ks then Some (ks ! Suc i) else None)"
proof (induction ks arbitrary: cur i)
  case (Cons k ks)
  then have c: "cur = Some k" "follow_chain m (map_of m k) = Some ks"
    by (cases cur; auto split: bind_splits)+
  show ?case
  proof (cases i)
    case 0
    with c(2) follow_chain_chained [OF c(2)] show ?thesis by (cases ks) auto
  next
    case (Suc j)
    with Cons.IH [OF c(2), of j] Cons.prems(2) show ?thesis by simp
  qed
qed simp

text \<open>So its edges lead forward along the list, and following them ends.\<close>

lemma sequential_wf:
  assumes "assertSequentialWorkflowDefinition d = None"
  shows "wf (edge_pairs (wd_edges d))"
proof -
  let ?m = "foldl (\<lambda>m e. AList.update (we_from e) (we_to e) m) [] (wd_edges d)"
  obtain ks entry where ks: "distinct ks" "set ks = wn_key ` set (wd_nodes d)" "follow_chain ?m (Some entry) = Some ks"
    using sequential_chain [OF assms] by blast
  let ?pos = "the_inv_into {..<length ks} (nth ks)"
  have pos: "?pos (ks ! i) = i" if "i < length ks" for i
    using that ks(1) by (intro the_inv_into_f_f) (auto intro: inj_on_nth)
  have "edge_pairs (wd_edges d) \<subseteq> measure ?pos"
  proof
    fix x assume "x \<in> edge_pairs (wd_edges d)"
    then obtain a b where x: "x = (a, b)" and e: "(a, b) \<in> edge_pairs (wd_edges d)" by (cases x) auto
    then have "b \<in> set (succs (wd_edges d) a)" by (force simp: edge_pairs_def succs_def)
    then have b: "map_of ?m a = Some b"
      using sequential_out [OF assms, of a] by (cases "succs (wd_edges d) a") auto
    have "a \<in> set ks"
      using e sequential_accepted [OF assms] unfolding ks(2) by (auto simp: edge_pairs_def edge_ok_def)
    then obtain i where i: "i < length ks" "a = ks ! i" by (metis in_set_conv_nth)
    with follow_chain_next [OF ks(3), of i] b have "Suc i < length ks" "b = ks ! Suc i"
      by (auto split: if_splits)
    with i pos show "x \<in> measure ?pos" by (simp add: x)
  qed
  then show ?thesis by (rule wf_subset [OF wf_measure])
qed

lemma sequential_indegree:
  assumes "assertSequentialWorkflowDefinition d = None"
  shows "length (preds (wd_edges d) k) \<le> 1"
proof -
  let ?keys = "List.map wn_key (wd_nodes d)"
  from assms obtain m inc out where m: "index_nodes assertAgentNode (wd_nodes d) [] = Inr m"
    and c: "collect_sequential_edges m (wd_edges d) (empty_adjacency (map_keys m))
        (empty_adjacency (map_keys m)) = Inr (inc, out)"
    and g: "check_sequential_graph (wd_nodes d) inc out = None"
    by (auto simp: assertSequentialWorkflowDefinition_def split: if_splits sum.splits)
  have mk: "map_keys m = ?keys" using index_nodes_distinct [OF m] by auto
  have e: "\<forall>e\<in>set (wd_edges d). edge_ok (set ?keys) e" and io: "inc = inc_map ?keys (wd_edges d)"
    using c unfolding collect_sequential_edges_Inr mk inc_map_def by auto
  have "find (\<lambda>kv. 1 < length (snd kv)) (inc_map ?keys (wd_edges d)) = None"
    using g io by (auto simp: check_sequential_graph_def split: option.splits)
  from find_long_None [OF this, of k] have "length (neighbours (inc_map ?keys (wd_edges d)) k) \<le> 1" .
  moreover have "preds (wd_edges d) k = []" if "k \<notin> set ?keys"
    using that e by (auto simp: preds_def filter_empty_conv edge_ok_def)
  ultimately show ?thesis by (cases "k \<in> set ?keys") (simp_all add: neighbours_inc)
qed

text \<open>
  C25. For every accepted sequential definition the loop along the chain returns, and it lists
  every node exactly once, each one followed by the target of an edge that leaves it.
\<close>

theorem orderedSequentialNodeKeys_chain:
  assumes "assertSequentialWorkflowDefinition d = None"
  shows "\<exists>ks. orderedSequentialNodeKeys d = Some (Inr ks) \<and> distinct ks
    \<and> set ks = wn_key ` set (wd_nodes d) \<and> length ks = length (wd_nodes d)
    \<and> chained (edge_pairs (wd_edges d)) ks"
  using sequential_chain [OF assms] by blast

definition sample_agent :: "string \<Rightarrow> wf_node" where
  "sample_agent key = \<lparr> wn_key = key, wn_body = Node_AGENT (Some ''v1'') \<rparr>"

definition sample_edge :: "string \<Rightarrow> string \<Rightarrow> wf_edge" where
  "sample_edge a b = \<lparr> we_from = a, we_to = b \<rparr>"

definition sample_sequence :: workflow_definition where
  "sample_sequence = \<lparr> wd_schemaVersion = ''1'', wd_nodes = [sample_agent ''b'', sample_agent ''a''],
     wd_edges = [sample_edge ''a'' ''b''] \<rparr>"

theorem orderedSequentialNodeKeys_chain_witness:
  "\<exists>ks. orderedSequentialNodeKeys sample_sequence = Some (Inr ks) \<and> set ks = {''a'', ''b''}"
proof -
  have "assertSequentialWorkflowDefinition sample_sequence = None" by code_simp
  from orderedSequentialNodeKeys_chain [OF this] show ?thesis
    by (auto simp: sample_sequence_def sample_agent_def)
qed

theorem buildWorkflowGraph_edges_witness:
  "\<exists>g. buildWorkflowGraph sample_sequence = Inr g \<and> neighbours (g_incoming g) ''b'' = [''a'']"
proof -
  have "case buildWorkflowGraph sample_sequence of Inl e \<Rightarrow> False | Inr g \<Rightarrow> True" by code_simp
  then obtain g where g: "buildWorkflowGraph sample_sequence = Inr g" by (auto split: sum.splits)
  from g buildWorkflowGraph_edges [OF g, of "''b''"] show ?thesis
    by (auto simp: sample_sequence_def sample_edge_def preds_def)
qed

end
