(* ===== verification/Lifecycle.thy ===== *)
theory Lifecycle
  imports Osva_Errors
begin

text \<open>
  The state machines of the domain package (\<open>*-state-machine.ts\<close>). Each is a table of legal
  transitions, a set of keys \<open>from->to\<close> built from the table, and a lookup of the key of a
  transition in that set. The locale \<open>lifecycle\<close> states what such a machine owes its users
  and proves, once, that the key lookup is the table lookup and that a terminal state is
  never left; \<open>ranked_lifecycle\<close> adds a rank that every transition raises, so that a
  history is bounded. Every machine of the source is an interpretation.
\<close>

subsection \<open>The shape all machines share\<close>

definition transitionKey :: "('s \<Rightarrow> string) \<Rightarrow> 's \<Rightarrow> 's \<Rightarrow> string" where
  "transitionKey name a b = name a @ ''->'' @ name b"

definition legal_keys :: "('s \<Rightarrow> string) \<Rightarrow> ('s \<times> 's) list \<Rightarrow> string list" where
  "legal_keys name legal = List.map (\<lambda>(a, b). transitionKey name a b) legal"

definition legal_by_key :: "('s \<Rightarrow> string) \<Rightarrow> ('s \<times> 's) list \<Rightarrow> 's \<Rightarrow> 's \<Rightarrow> bool" where
  "legal_by_key name legal a b \<longleftrightarrow> transitionKey name a b \<in> set (legal_keys name legal)"

definition state_of_string :: "('s \<Rightarrow> string) \<Rightarrow> 's list \<Rightarrow> string \<Rightarrow> 's option" where
  "state_of_string name states v = find (\<lambda>s. name s = v) states"

text \<open>A history: the states visited, each a legal transition after the one before.\<close>

inductive history :: "('s \<times> 's) list \<Rightarrow> 's \<Rightarrow> 's list \<Rightarrow> 's \<Rightarrow> bool" for legal where
  stay: "history legal s [] s"
| move: "(s, t) \<in> set legal \<Longrightarrow> history legal t ts u \<Longrightarrow> history legal s (t # ts) u"

inductive_cases history_ConsE: "history legal s (t # ts) u"
inductive_simps history_Nil [simp]: "history legal s [] u"

locale lifecycle =
  fixes name :: "'s \<Rightarrow> string" and states :: "'s list"
    and legal :: "('s \<times> 's) list" and terminal :: "'s list"
  assumes name_inj: "name a = name b \<Longrightarrow> a = b"
    and name_dash: "CHR ''-'' \<notin> set (name a)"
    and all_states: "s \<in> set states"
    and terminal_final: "(a, b) \<in> set legal \<Longrightarrow> a \<notin> set terminal"
begin

lemma key_inj: "transitionKey name a b = transitionKey name c d \<longleftrightarrow> a = c \<and> b = d"
proof
  assume "transitionKey name a b = transitionKey name c d"
  then have eq: "name a @ CHR ''-'' # (CHR ''>'' # name b)
    = name c @ CHR ''-'' # (CHR ''>'' # name d)"
    by (simp add: transitionKey_def)
  have "name a = name c \<and> name b = name d"
    using eq name_dash [of a] name_dash [of b] by (subst (asm) append_Cons_eq_iff) auto
  then show "a = c \<and> b = d" by (auto dest: name_inj)
qed simp

lemma legal_by_key_iff: "legal_by_key name legal a b \<longleftrightarrow> (a, b) \<in> set legal"
  by (force simp: legal_by_key_def legal_keys_def key_inj)

lemma state_of_name: "state_of_string name states (name s) = Some s"
proof -
  have "find (\<lambda>x. name x = name s) states = find (\<lambda>x. x = s) states"
    by (rule find_cong) (auto dest: name_inj)
  also have "\<dots> = Some s"
    using all_states [of s] by (induction states) auto
  finally show ?thesis by (simp add: state_of_string_def)
qed

lemma state_of_string_Some: "state_of_string name states v = Some s \<Longrightarrow> v = name s"
  by (auto simp: state_of_string_def find_Some_iff)

lemma terminal_stuck: "a \<in> set terminal \<Longrightarrow> \<not> legal_by_key name legal a b"
  using terminal_final by (auto simp: legal_by_key_iff)

lemma terminal_history: "history legal s ts u \<Longrightarrow> s \<in> set terminal \<Longrightarrow> ts = [] \<and> u = s"
  by (induction rule: history.induct) (auto dest: terminal_final)

end

locale ranked_lifecycle = lifecycle +
  fixes rank :: "'s \<Rightarrow> nat"
  assumes rank_up: "(a, b) \<in> set legal \<Longrightarrow> rank a < rank b"
begin

lemma history_rank: "history legal s ts u \<Longrightarrow> rank s + length ts \<le> rank u"
  by (induction rule: history.induct) (auto dest!: rank_up)

lemma no_return: "history legal s ts s \<Longrightarrow> ts = []"
  using history_rank [of s ts s] by auto

end

subsection \<open>Run (run-state-machine.ts)\<close>

definition RUN_STATES :: "run_state list" where
  "RUN_STATES = [Run_PENDING, Run_QUEUED, Run_RUNNING, Run_INTERRUPTED, Run_SUCCEEDED,
     Run_FAILED, Run_TIMED_OUT, Run_CANCELLED]"

definition TERMINAL_RUN_STATES :: "run_state list" where
  "TERMINAL_RUN_STATES = [Run_SUCCEEDED, Run_FAILED, Run_TIMED_OUT, Run_CANCELLED]"

definition LEGAL_RUN_TRANSITIONS :: "(run_state \<times> run_state) list" where
  "LEGAL_RUN_TRANSITIONS =
    [(Run_PENDING, Run_QUEUED),
     (Run_QUEUED, Run_RUNNING),
     (Run_RUNNING, Run_SUCCEEDED),
     (Run_RUNNING, Run_INTERRUPTED),
     (Run_INTERRUPTED, Run_QUEUED),
     (Run_INTERRUPTED, Run_FAILED),
     (Run_INTERRUPTED, Run_CANCELLED),
     (Run_PENDING, Run_FAILED),
     (Run_QUEUED, Run_CANCELLED),
     (Run_RUNNING, Run_FAILED),
     (Run_RUNNING, Run_TIMED_OUT),
     (Run_RUNNING, Run_CANCELLED)]"

definition isRunState :: "string \<Rightarrow> bool" where
  "isRunState v \<longleftrightarrow> v \<in> set (List.map run_state_name RUN_STATES)"

definition isTerminalRunState :: "run_state \<Rightarrow> bool" where
  "isTerminalRunState s \<longleftrightarrow> s \<in> set TERMINAL_RUN_STATES"

definition isLegalRunTransition :: "run_state \<Rightarrow> run_state \<Rightarrow> bool" where
  "isLegalRunTransition a b = legal_by_key run_state_name LEGAL_RUN_TRANSITIONS a b"

definition assertLegalRunTransition :: "run_state \<Rightarrow> run_state \<Rightarrow> osva_error option" where
  "assertLegalRunTransition a b =
     (if \<not> isLegalRunTransition a b then Some (InvalidRunTransitionError a b) else None)"

interpretation run_lc: lifecycle run_state_name RUN_STATES LEGAL_RUN_TRANSITIONS TERMINAL_RUN_STATES
proof
  fix a b :: run_state
  show "run_state_name a = run_state_name b \<Longrightarrow> a = b" by (cases a; cases b) auto
  show "CHR ''-'' \<notin> set (run_state_name a)" by (cases a) auto
  show "a \<in> set RUN_STATES" by (cases a) (auto simp: RUN_STATES_def)
  show "(a, b) \<in> set LEGAL_RUN_TRANSITIONS \<Longrightarrow> a \<notin> set TERMINAL_RUN_STATES"
    by (auto simp: LEGAL_RUN_TRANSITIONS_def TERMINAL_RUN_STATES_def)
qed

subsection \<open>RunAttempt (run-attempt-state-machine.ts)\<close>

definition RUN_ATTEMPT_STATES :: "run_attempt_state list" where
  "RUN_ATTEMPT_STATES = [Att_PENDING, Att_RUNNING, Att_SUCCEEDED, Att_FAILED, Att_TIMED_OUT,
     Att_CANCELLED]"

definition TERMINAL_RUN_ATTEMPT_STATES :: "run_attempt_state list" where
  "TERMINAL_RUN_ATTEMPT_STATES = [Att_SUCCEEDED, Att_FAILED, Att_TIMED_OUT, Att_CANCELLED]"

definition RETRYABLE_RUN_ATTEMPT_STATES :: "run_attempt_state list" where
  "RETRYABLE_RUN_ATTEMPT_STATES = [Att_FAILED, Att_TIMED_OUT, Att_CANCELLED]"

definition LEGAL_RUN_ATTEMPT_TRANSITIONS :: "(run_attempt_state \<times> run_attempt_state) list" where
  "LEGAL_RUN_ATTEMPT_TRANSITIONS =
    [(Att_PENDING, Att_RUNNING),
     (Att_RUNNING, Att_SUCCEEDED),
     (Att_RUNNING, Att_FAILED),
     (Att_RUNNING, Att_TIMED_OUT),
     (Att_RUNNING, Att_CANCELLED),
     (Att_PENDING, Att_CANCELLED)]"

definition isRunAttemptState :: "string \<Rightarrow> bool" where
  "isRunAttemptState v \<longleftrightarrow> v \<in> set (List.map run_attempt_state_name RUN_ATTEMPT_STATES)"

definition isTerminalRunAttemptState :: "run_attempt_state \<Rightarrow> bool" where
  "isTerminalRunAttemptState s \<longleftrightarrow> s \<in> set TERMINAL_RUN_ATTEMPT_STATES"

definition isRetryableRunAttemptState :: "run_attempt_state \<Rightarrow> bool" where
  "isRetryableRunAttemptState s \<longleftrightarrow> s \<in> set RETRYABLE_RUN_ATTEMPT_STATES"

definition isLegalRunAttemptTransition :: "run_attempt_state \<Rightarrow> run_attempt_state \<Rightarrow> bool" where
  "isLegalRunAttemptTransition a b =
     legal_by_key run_attempt_state_name LEGAL_RUN_ATTEMPT_TRANSITIONS a b"

definition assertLegalRunAttemptTransition ::
    "run_attempt_state \<Rightarrow> run_attempt_state \<Rightarrow> osva_error option" where
  "assertLegalRunAttemptTransition a b =
     (if \<not> isLegalRunAttemptTransition a b
      then Some (InvalidRunAttemptTransitionError a b) else None)"

definition run_attempt_rank :: "run_attempt_state \<Rightarrow> nat" where
  "run_attempt_rank s = (if s = Att_PENDING then 0 else if s = Att_RUNNING then 1 else 2)"

interpretation attempt_lc: ranked_lifecycle run_attempt_state_name RUN_ATTEMPT_STATES
  LEGAL_RUN_ATTEMPT_TRANSITIONS TERMINAL_RUN_ATTEMPT_STATES run_attempt_rank
proof
  fix a b :: run_attempt_state
  show "run_attempt_state_name a = run_attempt_state_name b \<Longrightarrow> a = b" by (cases a; cases b) auto
  show "CHR ''-'' \<notin> set (run_attempt_state_name a)" by (cases a) auto
  show "a \<in> set RUN_ATTEMPT_STATES" by (cases a) (auto simp: RUN_ATTEMPT_STATES_def)
  show "(a, b) \<in> set LEGAL_RUN_ATTEMPT_TRANSITIONS \<Longrightarrow> a \<notin> set TERMINAL_RUN_ATTEMPT_STATES"
    by (auto simp: LEGAL_RUN_ATTEMPT_TRANSITIONS_def TERMINAL_RUN_ATTEMPT_STATES_def)
  show "(a, b) \<in> set LEGAL_RUN_ATTEMPT_TRANSITIONS \<Longrightarrow> run_attempt_rank a < run_attempt_rank b"
    by (auto simp: LEGAL_RUN_ATTEMPT_TRANSITIONS_def run_attempt_rank_def)
qed

subsection \<open>WorkflowRun (workflow-run-state-machine.ts)\<close>

definition WORKFLOW_RUN_STATES :: "workflow_run_state list" where
  "WORKFLOW_RUN_STATES = [WR_PENDING, WR_RUNNING, WR_WAITING, WR_SUCCEEDED, WR_FAILED,
     WR_CANCELLED]"

definition TERMINAL_WORKFLOW_RUN_STATES :: "workflow_run_state list" where
  "TERMINAL_WORKFLOW_RUN_STATES = [WR_SUCCEEDED, WR_FAILED, WR_CANCELLED]"

definition LEGAL_WORKFLOW_RUN_TRANSITIONS :: "(workflow_run_state \<times> workflow_run_state) list" where
  "LEGAL_WORKFLOW_RUN_TRANSITIONS =
    [(WR_PENDING, WR_RUNNING),
     (WR_PENDING, WR_WAITING),
     (WR_PENDING, WR_FAILED),
     (WR_PENDING, WR_CANCELLED),
     (WR_RUNNING, WR_WAITING),
     (WR_RUNNING, WR_SUCCEEDED),
     (WR_RUNNING, WR_FAILED),
     (WR_RUNNING, WR_CANCELLED),
     (WR_WAITING, WR_RUNNING),
     (WR_WAITING, WR_SUCCEEDED),
     (WR_WAITING, WR_FAILED),
     (WR_WAITING, WR_CANCELLED)]"

definition isWorkflowRunState :: "string \<Rightarrow> bool" where
  "isWorkflowRunState v \<longleftrightarrow> v \<in> set (List.map workflow_run_state_name WORKFLOW_RUN_STATES)"

definition isTerminalWorkflowRunState :: "workflow_run_state \<Rightarrow> bool" where
  "isTerminalWorkflowRunState s \<longleftrightarrow> s \<in> set TERMINAL_WORKFLOW_RUN_STATES"

definition isLegalWorkflowRunTransition :: "workflow_run_state \<Rightarrow> workflow_run_state \<Rightarrow> bool" where
  "isLegalWorkflowRunTransition a b =
     legal_by_key workflow_run_state_name LEGAL_WORKFLOW_RUN_TRANSITIONS a b"

definition assertLegalWorkflowRunTransition ::
    "workflow_run_state \<Rightarrow> workflow_run_state \<Rightarrow> osva_error option" where
  "assertLegalWorkflowRunTransition a b =
     (if \<not> isLegalWorkflowRunTransition a b
      then Some (InvalidWorkflowRunTransitionError a b) else None)"

interpretation workflow_run_lc: lifecycle workflow_run_state_name WORKFLOW_RUN_STATES
  LEGAL_WORKFLOW_RUN_TRANSITIONS TERMINAL_WORKFLOW_RUN_STATES
proof
  fix a b :: workflow_run_state
  show "workflow_run_state_name a = workflow_run_state_name b \<Longrightarrow> a = b" by (cases a; cases b) auto
  show "CHR ''-'' \<notin> set (workflow_run_state_name a)" by (cases a) auto
  show "a \<in> set WORKFLOW_RUN_STATES" by (cases a) (auto simp: WORKFLOW_RUN_STATES_def)
  show "(a, b) \<in> set LEGAL_WORKFLOW_RUN_TRANSITIONS \<Longrightarrow> a \<notin> set TERMINAL_WORKFLOW_RUN_STATES"
    by (auto simp: LEGAL_WORKFLOW_RUN_TRANSITIONS_def TERMINAL_WORKFLOW_RUN_STATES_def)
qed

subsection \<open>WorkflowNodeRun (workflow-node-run-state-machine.ts)\<close>

definition WORKFLOW_NODE_RUN_STATES :: "workflow_node_run_state list" where
  "WORKFLOW_NODE_RUN_STATES = [NR_PENDING, NR_RUNNING, NR_WAITING, NR_SUCCEEDED, NR_FAILED,
     NR_SKIPPED, NR_CANCELLED]"

definition TERMINAL_WORKFLOW_NODE_RUN_STATES :: "workflow_node_run_state list" where
  "TERMINAL_WORKFLOW_NODE_RUN_STATES = [NR_SUCCEEDED, NR_FAILED, NR_SKIPPED, NR_CANCELLED]"

definition LEGAL_WORKFLOW_NODE_RUN_TRANSITIONS ::
    "(workflow_node_run_state \<times> workflow_node_run_state) list" where
  "LEGAL_WORKFLOW_NODE_RUN_TRANSITIONS =
    [(NR_PENDING, NR_RUNNING),
     (NR_PENDING, NR_WAITING),
     (NR_PENDING, NR_FAILED),
     (NR_PENDING, NR_SKIPPED),
     (NR_PENDING, NR_CANCELLED),
     (NR_RUNNING, NR_SUCCEEDED),
     (NR_RUNNING, NR_FAILED),
     (NR_RUNNING, NR_CANCELLED),
     (NR_WAITING, NR_SUCCEEDED),
     (NR_WAITING, NR_FAILED),
     (NR_WAITING, NR_CANCELLED)]"

definition isWorkflowNodeRunState :: "string \<Rightarrow> bool" where
  "isWorkflowNodeRunState v \<longleftrightarrow>
     v \<in> set (List.map workflow_node_run_state_name WORKFLOW_NODE_RUN_STATES)"

definition isTerminalWorkflowNodeRunState :: "workflow_node_run_state \<Rightarrow> bool" where
  "isTerminalWorkflowNodeRunState s \<longleftrightarrow> s \<in> set TERMINAL_WORKFLOW_NODE_RUN_STATES"

definition isLegalWorkflowNodeRunTransition ::
    "workflow_node_run_state \<Rightarrow> workflow_node_run_state \<Rightarrow> bool" where
  "isLegalWorkflowNodeRunTransition a b =
     legal_by_key workflow_node_run_state_name LEGAL_WORKFLOW_NODE_RUN_TRANSITIONS a b"

definition assertLegalWorkflowNodeRunTransition ::
    "workflow_node_run_state \<Rightarrow> workflow_node_run_state \<Rightarrow> osva_error option" where
  "assertLegalWorkflowNodeRunTransition a b =
     (if \<not> isLegalWorkflowNodeRunTransition a b
      then Some (InvalidWorkflowNodeRunTransitionError a b) else None)"

definition workflow_node_run_rank :: "workflow_node_run_state \<Rightarrow> nat" where
  "workflow_node_run_rank s =
     (if s = NR_PENDING then 0 else if s = NR_RUNNING \<or> s = NR_WAITING then 1 else 2)"

interpretation node_run_lc: ranked_lifecycle workflow_node_run_state_name
  WORKFLOW_NODE_RUN_STATES LEGAL_WORKFLOW_NODE_RUN_TRANSITIONS
  TERMINAL_WORKFLOW_NODE_RUN_STATES workflow_node_run_rank
proof
  fix a b :: workflow_node_run_state
  show "workflow_node_run_state_name a = workflow_node_run_state_name b \<Longrightarrow> a = b"
    by (cases a; cases b) auto
  show "CHR ''-'' \<notin> set (workflow_node_run_state_name a)" by (cases a) auto
  show "a \<in> set WORKFLOW_NODE_RUN_STATES" by (cases a) (auto simp: WORKFLOW_NODE_RUN_STATES_def)
  show "(a, b) \<in> set LEGAL_WORKFLOW_NODE_RUN_TRANSITIONS
    \<Longrightarrow> a \<notin> set TERMINAL_WORKFLOW_NODE_RUN_STATES"
    by (auto simp: LEGAL_WORKFLOW_NODE_RUN_TRANSITIONS_def TERMINAL_WORKFLOW_NODE_RUN_STATES_def)
  show "(a, b) \<in> set LEGAL_WORKFLOW_NODE_RUN_TRANSITIONS
    \<Longrightarrow> workflow_node_run_rank a < workflow_node_run_rank b"
    by (auto simp: LEGAL_WORKFLOW_NODE_RUN_TRANSITIONS_def workflow_node_run_rank_def)
qed

subsection \<open>ApprovalRequest (approval-request-state-machine.ts)\<close>

definition APPROVAL_REQUEST_STATES :: "approval_request_state list" where
  "APPROVAL_REQUEST_STATES = [AR_PENDING, AR_APPROVED, AR_REJECTED]"

definition TERMINAL_APPROVAL_REQUEST_STATES :: "approval_request_state list" where
  "TERMINAL_APPROVAL_REQUEST_STATES = [AR_APPROVED, AR_REJECTED]"

definition LEGAL_APPROVAL_REQUEST_TRANSITIONS ::
    "(approval_request_state \<times> approval_request_state) list" where
  "LEGAL_APPROVAL_REQUEST_TRANSITIONS =
    [(AR_PENDING, AR_APPROVED),
     (AR_PENDING, AR_REJECTED)]"

definition isApprovalRequestState :: "string \<Rightarrow> bool" where
  "isApprovalRequestState v \<longleftrightarrow>
     v \<in> set (List.map approval_request_state_name APPROVAL_REQUEST_STATES)"

definition isTerminalApprovalRequestState :: "approval_request_state \<Rightarrow> bool" where
  "isTerminalApprovalRequestState s \<longleftrightarrow> s \<in> set TERMINAL_APPROVAL_REQUEST_STATES"

definition isLegalApprovalRequestTransition ::
    "approval_request_state \<Rightarrow> approval_request_state \<Rightarrow> bool" where
  "isLegalApprovalRequestTransition a b =
     legal_by_key approval_request_state_name LEGAL_APPROVAL_REQUEST_TRANSITIONS a b"

definition assertLegalApprovalRequestTransition ::
    "approval_request_state \<Rightarrow> approval_request_state \<Rightarrow> osva_error option" where
  "assertLegalApprovalRequestTransition a b =
     (if \<not> isLegalApprovalRequestTransition a b
      then Some (InvalidApprovalRequestTransitionError a b) else None)"

definition approval_rank :: "approval_request_state \<Rightarrow> nat" where
  "approval_rank s = (if s = AR_PENDING then 0 else 1)"

interpretation approval_lc: ranked_lifecycle approval_request_state_name APPROVAL_REQUEST_STATES
  LEGAL_APPROVAL_REQUEST_TRANSITIONS TERMINAL_APPROVAL_REQUEST_STATES approval_rank
proof
  fix a b :: approval_request_state
  show "approval_request_state_name a = approval_request_state_name b \<Longrightarrow> a = b"
    by (cases a; cases b) auto
  show "CHR ''-'' \<notin> set (approval_request_state_name a)" by (cases a) auto
  show "a \<in> set APPROVAL_REQUEST_STATES" by (cases a) (auto simp: APPROVAL_REQUEST_STATES_def)
  show "(a, b) \<in> set LEGAL_APPROVAL_REQUEST_TRANSITIONS
    \<Longrightarrow> a \<notin> set TERMINAL_APPROVAL_REQUEST_STATES"
    by (auto simp: LEGAL_APPROVAL_REQUEST_TRANSITIONS_def TERMINAL_APPROVAL_REQUEST_STATES_def)
  show "(a, b) \<in> set LEGAL_APPROVAL_REQUEST_TRANSITIONS \<Longrightarrow> approval_rank a < approval_rank b"
    by (auto simp: LEGAL_APPROVAL_REQUEST_TRANSITIONS_def approval_rank_def)
qed

subsection \<open>EvaluationRun (evaluation-run-state-machine.ts)\<close>

definition EVALUATION_RUN_STATES :: "evaluation_run_state list" where
  "EVALUATION_RUN_STATES = [ER_PENDING, ER_RUNNING, ER_COMPLETED, ER_FAILED, ER_CANCELLED]"

definition TERMINAL_EVALUATION_RUN_STATES :: "evaluation_run_state list" where
  "TERMINAL_EVALUATION_RUN_STATES = [ER_COMPLETED, ER_FAILED, ER_CANCELLED]"

definition LEGAL_EVALUATION_RUN_TRANSITIONS ::
    "(evaluation_run_state \<times> evaluation_run_state) list" where
  "LEGAL_EVALUATION_RUN_TRANSITIONS =
    [(ER_PENDING, ER_RUNNING),
     (ER_PENDING, ER_CANCELLED),
     (ER_PENDING, ER_FAILED),
     (ER_RUNNING, ER_COMPLETED),
     (ER_RUNNING, ER_FAILED),
     (ER_RUNNING, ER_CANCELLED)]"

definition isEvaluationRunState :: "string \<Rightarrow> bool" where
  "isEvaluationRunState v \<longleftrightarrow>
     v \<in> set (List.map evaluation_run_state_name EVALUATION_RUN_STATES)"

definition isLegalEvaluationRunTransition ::
    "evaluation_run_state \<Rightarrow> evaluation_run_state \<Rightarrow> bool" where
  "isLegalEvaluationRunTransition a b =
     legal_by_key evaluation_run_state_name LEGAL_EVALUATION_RUN_TRANSITIONS a b"

definition assertLegalEvaluationRunTransition ::
    "evaluation_run_state \<Rightarrow> evaluation_run_state \<Rightarrow> osva_error option" where
  "assertLegalEvaluationRunTransition a b =
     (if \<not> isLegalEvaluationRunTransition a b
      then Some (InvalidEvaluationRunTransitionError a b) else None)"

definition evaluation_run_rank :: "evaluation_run_state \<Rightarrow> nat" where
  "evaluation_run_rank s = (if s = ER_PENDING then 0 else if s = ER_RUNNING then 1 else 2)"

interpretation evaluation_run_lc: ranked_lifecycle evaluation_run_state_name
  EVALUATION_RUN_STATES LEGAL_EVALUATION_RUN_TRANSITIONS TERMINAL_EVALUATION_RUN_STATES
  evaluation_run_rank
proof
  fix a b :: evaluation_run_state
  show "evaluation_run_state_name a = evaluation_run_state_name b \<Longrightarrow> a = b"
    by (cases a; cases b) auto
  show "CHR ''-'' \<notin> set (evaluation_run_state_name a)" by (cases a) auto
  show "a \<in> set EVALUATION_RUN_STATES" by (cases a) (auto simp: EVALUATION_RUN_STATES_def)
  show "(a, b) \<in> set LEGAL_EVALUATION_RUN_TRANSITIONS
    \<Longrightarrow> a \<notin> set TERMINAL_EVALUATION_RUN_STATES"
    by (auto simp: LEGAL_EVALUATION_RUN_TRANSITIONS_def TERMINAL_EVALUATION_RUN_STATES_def)
  show "(a, b) \<in> set LEGAL_EVALUATION_RUN_TRANSITIONS
    \<Longrightarrow> evaluation_run_rank a < evaluation_run_rank b"
    by (auto simp: LEGAL_EVALUATION_RUN_TRANSITIONS_def evaluation_run_rank_def)
qed

subsection \<open>Assignment (assignment-state-machine.ts)\<close>

definition ASSIGNMENT_STATES :: "assignment_state list" where
  "ASSIGNMENT_STATES = [As_PENDING, As_RUNNING, As_COMPLETED, As_FAILED, As_CANCELLED]"

definition LEGAL_ASSIGNMENT_TRANSITIONS :: "(assignment_state \<times> assignment_state) list" where
  "LEGAL_ASSIGNMENT_TRANSITIONS =
    [(As_PENDING, As_RUNNING),
     (As_PENDING, As_CANCELLED),
     (As_RUNNING, As_COMPLETED),
     (As_RUNNING, As_FAILED),
     (As_RUNNING, As_CANCELLED)]"

definition TERMINAL_ASSIGNMENT_STATES :: "assignment_state list" where
  "TERMINAL_ASSIGNMENT_STATES = [As_COMPLETED, As_FAILED, As_CANCELLED]"

definition isAssignmentState :: "string \<Rightarrow> bool" where
  "isAssignmentState v \<longleftrightarrow> v \<in> set (List.map assignment_state_name ASSIGNMENT_STATES)"

definition isTerminalAssignmentState :: "assignment_state \<Rightarrow> bool" where
  "isTerminalAssignmentState s \<longleftrightarrow>
     assignment_state_name s \<in> set (List.map assignment_state_name TERMINAL_ASSIGNMENT_STATES)"

definition isLegalAssignmentTransition :: "assignment_state \<Rightarrow> assignment_state \<Rightarrow> bool" where
  "isLegalAssignmentTransition a b \<longleftrightarrow>
     a = b \<or> legal_by_key assignment_state_name LEGAL_ASSIGNMENT_TRANSITIONS a b"

definition assertLegalAssignmentTransition ::
    "assignment_state \<Rightarrow> assignment_state \<Rightarrow> osva_error option" where
  "assertLegalAssignmentTransition a b =
     (if \<not> isLegalAssignmentTransition a b
      then Some (InvalidAssignmentTransitionError a b) else None)"

definition assignment_rank :: "assignment_state \<Rightarrow> nat" where
  "assignment_rank s = (if s = As_PENDING then 0 else if s = As_RUNNING then 1 else 2)"

interpretation assignment_lc: ranked_lifecycle assignment_state_name ASSIGNMENT_STATES
  LEGAL_ASSIGNMENT_TRANSITIONS TERMINAL_ASSIGNMENT_STATES assignment_rank
proof
  fix a b :: assignment_state
  show "assignment_state_name a = assignment_state_name b \<Longrightarrow> a = b" by (cases a; cases b) auto
  show "CHR ''-'' \<notin> set (assignment_state_name a)" by (cases a) auto
  show "a \<in> set ASSIGNMENT_STATES" by (cases a) (auto simp: ASSIGNMENT_STATES_def)
  show "(a, b) \<in> set LEGAL_ASSIGNMENT_TRANSITIONS \<Longrightarrow> a \<notin> set TERMINAL_ASSIGNMENT_STATES"
    by (auto simp: LEGAL_ASSIGNMENT_TRANSITIONS_def TERMINAL_ASSIGNMENT_STATES_def)
  show "(a, b) \<in> set LEGAL_ASSIGNMENT_TRANSITIONS \<Longrightarrow> assignment_rank a < assignment_rank b"
    by (auto simp: LEGAL_ASSIGNMENT_TRANSITIONS_def assignment_rank_def)
qed

subsection \<open>Goal (goal-state-machine.ts)\<close>

definition GOAL_STATES :: "goal_state list" where
  "GOAL_STATES = [Goal_OPEN, Goal_ACTIVE, Goal_COMPLETED, Goal_CANCELLED]"

definition LEGAL_GOAL_TRANSITIONS :: "(goal_state \<times> goal_state) list" where
  "LEGAL_GOAL_TRANSITIONS =
    [(Goal_OPEN, Goal_ACTIVE),
     (Goal_OPEN, Goal_COMPLETED),
     (Goal_OPEN, Goal_CANCELLED),
     (Goal_ACTIVE, Goal_COMPLETED),
     (Goal_ACTIVE, Goal_CANCELLED)]"

definition isGoalState :: "string \<Rightarrow> bool" where
  "isGoalState v \<longleftrightarrow> v \<in> set (List.map goal_state_name GOAL_STATES)"

definition isLegalGoalTransition :: "goal_state \<Rightarrow> goal_state \<Rightarrow> bool" where
  "isLegalGoalTransition a b \<longleftrightarrow>
     a = b \<or> legal_by_key goal_state_name LEGAL_GOAL_TRANSITIONS a b"

definition assertLegalGoalTransition :: "goal_state \<Rightarrow> goal_state \<Rightarrow> osva_error option" where
  "assertLegalGoalTransition a b =
     (if \<not> isLegalGoalTransition a b then Some (InvalidGoalTransitionError a b) else None)"

definition goal_rank :: "goal_state \<Rightarrow> nat" where
  "goal_rank s = (if s = Goal_OPEN then 0 else if s = Goal_ACTIVE then 1 else 2)"

interpretation goal_lc: ranked_lifecycle goal_state_name GOAL_STATES LEGAL_GOAL_TRANSITIONS
  "[Goal_COMPLETED, Goal_CANCELLED]" goal_rank
proof
  fix a b :: goal_state
  show "goal_state_name a = goal_state_name b \<Longrightarrow> a = b" by (cases a; cases b) auto
  show "CHR ''-'' \<notin> set (goal_state_name a)" by (cases a) auto
  show "a \<in> set GOAL_STATES" by (cases a) (auto simp: GOAL_STATES_def)
  show "(a, b) \<in> set LEGAL_GOAL_TRANSITIONS \<Longrightarrow> a \<notin> set [Goal_COMPLETED, Goal_CANCELLED]"
    by (auto simp: LEGAL_GOAL_TRANSITIONS_def)
  show "(a, b) \<in> set LEGAL_GOAL_TRANSITIONS \<Longrightarrow> goal_rank a < goal_rank b"
    by (auto simp: LEGAL_GOAL_TRANSITIONS_def goal_rank_def)
qed

subsection \<open>KnowledgeIndex (knowledge-index-state-machine.ts)\<close>

definition KNOWLEDGE_INDEX_STATES :: "knowledge_index_state list" where
  "KNOWLEDGE_INDEX_STATES = [KI_PENDING, KI_RUNNING, KI_READY, KI_FAILED]"

definition LEGAL_KNOWLEDGE_INDEX_TRANSITIONS ::
    "(knowledge_index_state \<times> knowledge_index_state) list" where
  "LEGAL_KNOWLEDGE_INDEX_TRANSITIONS =
    [(KI_PENDING, KI_RUNNING),
     (KI_RUNNING, KI_READY),
     (KI_RUNNING, KI_FAILED),
     (KI_FAILED, KI_PENDING)]"

definition isKnowledgeIndexState :: "string \<Rightarrow> bool" where
  "isKnowledgeIndexState v \<longleftrightarrow>
     v \<in> set (List.map knowledge_index_state_name KNOWLEDGE_INDEX_STATES)"

definition isLegalKnowledgeIndexTransition ::
    "knowledge_index_state \<Rightarrow> knowledge_index_state \<Rightarrow> bool" where
  "isLegalKnowledgeIndexTransition a b =
     legal_by_key knowledge_index_state_name LEGAL_KNOWLEDGE_INDEX_TRANSITIONS a b"

definition assertLegalKnowledgeIndexTransition ::
    "knowledge_index_state \<Rightarrow> knowledge_index_state \<Rightarrow> osva_error option" where
  "assertLegalKnowledgeIndexTransition a b =
     (if \<not> isLegalKnowledgeIndexTransition a b
      then Some (InvalidKnowledgeIndexTransitionError a b) else None)"

interpretation knowledge_index_lc: lifecycle knowledge_index_state_name KNOWLEDGE_INDEX_STATES
  LEGAL_KNOWLEDGE_INDEX_TRANSITIONS "[KI_READY]"
proof
  fix a b :: knowledge_index_state
  show "knowledge_index_state_name a = knowledge_index_state_name b \<Longrightarrow> a = b"
    by (cases a; cases b) auto
  show "CHR ''-'' \<notin> set (knowledge_index_state_name a)" by (cases a) auto
  show "a \<in> set KNOWLEDGE_INDEX_STATES" by (cases a) (auto simp: KNOWLEDGE_INDEX_STATES_def)
  show "(a, b) \<in> set LEGAL_KNOWLEDGE_INDEX_TRANSITIONS \<Longrightarrow> a \<notin> set [KI_READY]"
    by (auto simp: LEGAL_KNOWLEDGE_INDEX_TRANSITIONS_def)
qed

subsection \<open>The machines together\<close>

lemmas lifecycle_tables =
  isTerminalRunState_def TERMINAL_RUN_STATES_def LEGAL_RUN_TRANSITIONS_def
  isTerminalRunAttemptState_def TERMINAL_RUN_ATTEMPT_STATES_def LEGAL_RUN_ATTEMPT_TRANSITIONS_def
  isTerminalWorkflowRunState_def TERMINAL_WORKFLOW_RUN_STATES_def LEGAL_WORKFLOW_RUN_TRANSITIONS_def
  isTerminalWorkflowNodeRunState_def TERMINAL_WORKFLOW_NODE_RUN_STATES_def
  LEGAL_WORKFLOW_NODE_RUN_TRANSITIONS_def
  isTerminalApprovalRequestState_def TERMINAL_APPROVAL_REQUEST_STATES_def
  LEGAL_APPROVAL_REQUEST_TRANSITIONS_def
  isTerminalAssignmentState_def TERMINAL_ASSIGNMENT_STATES_def LEGAL_ASSIGNMENT_TRANSITIONS_def

lemmas lifecycle_checks =
  assertLegalRunTransition_def isLegalRunTransition_def run_lc.legal_by_key_iff
  assertLegalRunAttemptTransition_def isLegalRunAttemptTransition_def attempt_lc.legal_by_key_iff
  assertLegalWorkflowRunTransition_def isLegalWorkflowRunTransition_def workflow_run_lc.legal_by_key_iff
  assertLegalWorkflowNodeRunTransition_def isLegalWorkflowNodeRunTransition_def
  node_run_lc.legal_by_key_iff
  assertLegalApprovalRequestTransition_def isLegalApprovalRequestTransition_def
  approval_lc.legal_by_key_iff
  assertLegalAssignmentTransition_def isLegalAssignmentTransition_def assignment_lc.legal_by_key_iff

text \<open>
  A state is terminal exactly when the transition check refuses every move out of it, in
  each of the six machines that declare terminal states: no terminal state can be left, and no
  other state is a dead end (an assignment may be moved to the state it is in). The check reads the set of keys \<open>from->to\<close>, not the table.
\<close>

theorem terminal_iff_stuck:
  "(isTerminalRunState a \<longleftrightarrow> (\<forall>t. assertLegalRunTransition a t \<noteq> None))
   \<and> (isTerminalRunAttemptState b \<longleftrightarrow> (\<forall>t. assertLegalRunAttemptTransition b t \<noteq> None))
   \<and> (isTerminalWorkflowRunState c \<longleftrightarrow> (\<forall>t. assertLegalWorkflowRunTransition c t \<noteq> None))
   \<and> (isTerminalWorkflowNodeRunState d \<longleftrightarrow> (\<forall>t. assertLegalWorkflowNodeRunTransition d t \<noteq> None))
   \<and> (isTerminalApprovalRequestState e \<longleftrightarrow> (\<forall>t. assertLegalApprovalRequestTransition e t \<noteq> None))
   \<and> (isTerminalAssignmentState f \<longleftrightarrow> (\<forall>t. assertLegalAssignmentTransition f t = None \<longleftrightarrow> t = f))"
  apply (intro conjI)
  subgoal unfolding lifecycle_checks by (cases a) (auto simp: lifecycle_tables)
  subgoal unfolding lifecycle_checks by (cases b) (auto simp: lifecycle_tables)
  subgoal unfolding lifecycle_checks by (cases c) (auto simp: lifecycle_tables)
  subgoal unfolding lifecycle_checks by (cases d) (auto simp: lifecycle_tables)
  subgoal unfolding lifecycle_checks by (cases e) (auto simp: lifecycle_tables)
  subgoal unfolding lifecycle_checks by (cases f) (auto simp: lifecycle_tables)
  done

end
