(* ===== verification/Run_Model.thy ===== *)
theory Run_Model
  imports Lifecycle Js_Value
begin

text \<open>
  The run and its attempts (\<open>domain/src/run.ts\<close>, \<open>run-attempt.ts\<close>,
  \<open>effective-run-bindings.ts\<close>, \<open>capability-eligibility.ts\<close>). An entity is a record; the
  same record with a raw status string is the argument of the private \<open>instantiate\<close>, which
  every constructor and every transition goes through. An attempt's undefined output is
  \<open>JUndefined\<close>.
\<close>

subsection \<open>Bindings (effective-run-bindings.ts)\<close>

record run_bindings =
  rb_agentVersionId :: string
  rb_modelProfileVersionBindings :: jsv
  rb_toolVersionBindings :: jsv
  rb_memoryNamespaceBindings :: jsv
  rb_knowledgeIndexBindings :: jsv

fun is_js_map :: "jsv \<Rightarrow> bool" where
  "is_js_map (JObject kvs) = True"
| "is_js_map (JInstance kvs) = True"
| "is_js_map _ = False"

fun js_entries :: "jsv \<Rightarrow> (string \<times> jsv) list" where
  "js_entries (JObject kvs) = kvs"
| "js_entries (JInstance kvs) = kvs"
| "js_entries _ = []"

fun is_js_array :: "jsv \<Rightarrow> bool" where
  "is_js_array (JArray xs) = True"
| "is_js_array _ = False"

text \<open>\<open>Object.freeze({...record})\<close>: a plain record of the same own properties.\<close>

definition freezeRecord :: "jsv \<Rightarrow> jsv" where
  "freezeRecord r = JObject (js_entries r)"

definition EffectiveRunBindings_create ::
    "string \<Rightarrow> jsv \<Rightarrow> jsv \<Rightarrow> jsv \<Rightarrow> jsv \<Rightarrow> osva_error + run_bindings" where
  "EffectiveRunBindings_create agentVersionId models tools memories knowledge =
     (if agentVersionId = '''' then Inl (DomainInvariantError
        ''EffectiveRunBindings.agentVersionId is required.'')
      else if \<not> is_js_map models then Inl (DomainInvariantError
        ''EffectiveRunBindings.modelProfileVersionBindings must be a map.'')
      else if \<not> is_js_map tools then Inl (DomainInvariantError
        ''EffectiveRunBindings.toolVersionBindings must be a map.'')
      else if \<not> is_js_map memories then Inl (DomainInvariantError
        ''EffectiveRunBindings.memoryNamespaceBindings must be a map.'')
      else
        let rawKnowledge = (if knowledge = JUndefined then JObject [] else knowledge)
        in if \<not> is_js_map rawKnowledge then Inl (DomainInvariantError
             ''EffectiveRunBindings.knowledgeIndexBindings must be a map.'')
           else if \<exists>kv\<in>set (js_entries rawKnowledge). \<not> is_js_array (snd kv)
           then Inl (DomainInvariantError
             ''EffectiveRunBindings.knowledgeIndexBindings values must be arrays.'')
           else Inr \<lparr> rb_agentVersionId = agentVersionId,
             rb_modelProfileVersionBindings = freezeRecord models,
             rb_toolVersionBindings = freezeRecord tools,
             rb_memoryNamespaceBindings = freezeRecord memories,
             rb_knowledgeIndexBindings = assign_entries (js_entries rawKnowledge) \<rparr>)"

subsection \<open>Run (run.ts)\<close>

record recovery_block =
  rb_code :: string
  rb_message :: string
  rb_at :: string

record recovery_metadata =
  rm_recoveryAttemptCount :: int
  rm_automaticRecoveryEnabled :: bool
  rm_lastRecoveryAt :: "string option"
  rm_blocked :: "recovery_block option"

record 's run_of =
  r_id :: string
  r_workspaceId :: string
  r_agentId :: string
  r_status :: 's
  r_effectiveBindings :: run_bindings
  r_input :: jsv
  r_createdAt :: js_date
  r_updatedAt :: js_date
  r_idempotencyKey :: "string option"
  r_evaluationRunId :: "string option"
  r_evaluationCaseId :: "string option"
  r_restrictPersistentMemory :: bool
  r_recoveryMetadata :: "recovery_metadata option"

type_synonym run = "run_state run_of"
type_synonym run_props = "string run_of"

definition isEvaluationChildRun :: "run \<Rightarrow> bool" where
  "isEvaluationChildRun r = (r_evaluationRunId r \<noteq> None \<and> r_evaluationCaseId r \<noteq> None)"

definition require_opt :: "string option \<Rightarrow> string \<Rightarrow> osva_error + string option" where
  "require_opt v field =
     (case v of None \<Rightarrow> Inr None
      | Some s \<Rightarrow> and_then (requireNonEmptyString s field) (\<lambda>s'. Inr (Some s')))"

lemma require_opt_Inr [result_simps]:
  "require_opt v f = Inr w \<longleftrightarrow> (\<forall>s. v = Some s \<longrightarrow> \<not> js_blank s) \<and> w = v"
  by (cases v) (auto simp: require_opt_def result_simps)

definition Run_instantiate :: "run_props \<Rightarrow> osva_error + run" where
  "Run_instantiate p =
     (if r_id p = '''' then Inl (DomainInvariantError ''Run.id is required.'')
      else if r_workspaceId p = '''' then Inl (DomainInvariantError ''Run.workspaceId is required.'')
      else if r_agentId p = '''' then Inl (DomainInvariantError ''Run.agentId is required.'')
      else case state_of_string run_state_name RUN_STATES (r_status p) of
        None \<Rightarrow> Inl (DomainInvariantError (''Invalid run status: '' @ r_status p))
      | Some status \<Rightarrow>
        and_then (copyInstant (r_createdAt p)) (\<lambda>createdAt.
        and_then (copyInstant (r_updatedAt p)) (\<lambda>updatedAt.
          if date_lt updatedAt createdAt
          then Inl (DomainInvariantError ''Run.updatedAt cannot be earlier than createdAt.'')
          else
            and_then (copyJsonValue (r_input p) ''Run.input'') (\<lambda>input.
            and_then (require_opt (r_idempotencyKey p) ''Run.idempotencyKey'') (\<lambda>key.
              Inr \<lparr> r_id = r_id p, r_workspaceId = r_workspaceId p, r_agentId = r_agentId p,
                r_status = status, r_effectiveBindings = r_effectiveBindings p, r_input = input,
                r_createdAt = createdAt, r_updatedAt = updatedAt, r_idempotencyKey = key,
                r_evaluationRunId = r_evaluationRunId p, r_evaluationCaseId = r_evaluationCaseId p,
                r_restrictPersistentMemory = r_restrictPersistentMemory p,
                r_recoveryMetadata = r_recoveryMetadata p \<rparr>)))))"

record run_create_props =
  rc_id :: string
  rc_workspaceId :: string
  rc_agentId :: string
  rc_effectiveBindings :: run_bindings
  rc_input :: jsv
  rc_createdAt :: js_date
  rc_idempotencyKey :: "string option"
  rc_evaluationRunId :: "string option"
  rc_evaluationCaseId :: "string option"
  rc_restrictPersistentMemory :: "bool option"
  rc_recoveryMetadata :: "recovery_metadata option"

definition Run_create :: "run_create_props \<Rightarrow> osva_error + run" where
  "Run_create p = Run_instantiate
     \<lparr> r_id = rc_id p, r_workspaceId = rc_workspaceId p, r_agentId = rc_agentId p,
       r_status = ''PENDING'', r_effectiveBindings = rc_effectiveBindings p, r_input = rc_input p,
       r_createdAt = rc_createdAt p, r_updatedAt = rc_createdAt p,
       r_idempotencyKey = rc_idempotencyKey p, r_evaluationRunId = rc_evaluationRunId p,
       r_evaluationCaseId = rc_evaluationCaseId p,
       r_restrictPersistentMemory = (rc_restrictPersistentMemory p = Some True),
       r_recoveryMetadata = rc_recoveryMetadata p \<rparr>"

definition Run_rehydrate :: "run_props \<Rightarrow> osva_error + run" where
  "Run_rehydrate p = Run_instantiate p"

text \<open>The properties of an entity with another status, as its methods pass them on.\<close>

definition run_props_with :: "run \<Rightarrow> run_state \<Rightarrow> js_date \<Rightarrow> recovery_metadata option \<Rightarrow> run_props" where
  "run_props_with r status now metadata =
     \<lparr> r_id = r_id r, r_workspaceId = r_workspaceId r, r_agentId = r_agentId r,
       r_status = run_state_name status, r_effectiveBindings = r_effectiveBindings r,
       r_input = r_input r, r_createdAt = r_createdAt r, r_updatedAt = now,
       r_idempotencyKey = r_idempotencyKey r, r_evaluationRunId = r_evaluationRunId r,
       r_evaluationCaseId = r_evaluationCaseId r,
       r_restrictPersistentMemory = r_restrictPersistentMemory r, r_recoveryMetadata = metadata \<rparr>"

definition Run_withRecoveryMetadata ::
    "run \<Rightarrow> recovery_metadata option \<Rightarrow> js_date \<Rightarrow> osva_error + run" where
  "Run_withRecoveryMetadata r metadata now =
     Run_instantiate (run_props_with r (r_status r) now metadata)"

definition Run_transitionTo :: "run \<Rightarrow> run_state \<Rightarrow> js_date \<Rightarrow> osva_error + run" where
  "Run_transitionTo r target now =
     after_check (assertLegalRunTransition (r_status r) target)
       (Run_instantiate (run_props_with r target now (r_recoveryMetadata r)))"

text \<open>What \<open>instantiate\<close> guarantees, and when a method of a well-formed run succeeds.\<close>

definition run_wf :: "run \<Rightarrow> bool" where
  "run_wf r \<longleftrightarrow> r_id r \<noteq> '''' \<and> r_workspaceId r \<noteq> '''' \<and> r_agentId r \<noteq> ''''
     \<and> date_le (r_createdAt r) (r_updatedAt r) \<and> plain_json (r_input r)
     \<and> (\<forall>k. r_idempotencyKey r = Some k \<longrightarrow> \<not> js_blank k)"

lemma Run_instantiate_wf:
  "Run_instantiate p = Inr r \<Longrightarrow> \<not> uses_proto (r_input p) \<Longrightarrow> run_wf r"
  by (auto simp: Run_instantiate_def run_wf_def result_simps date_not_lt
      dest: copyJsonValue_result split: if_splits option.splits)

lemma Run_instantiate_name:
  "Run_instantiate p = Inr r \<Longrightarrow> run_state_name (r_status r) = r_status p"
  by (auto simp: Run_instantiate_def result_simps dest: run_lc.state_of_string_Some
      split: if_splits option.splits)

lemma run_props_instantiate:
  assumes "run_wf r"
  shows "Run_instantiate (run_props_with r s now m) =
    (if \<not> valid_date now then Inl (DomainInvariantError ''Timestamp must be a valid Date.'')
     else if date_lt now (r_createdAt r)
     then Inl (DomainInvariantError ''Run.updatedAt cannot be earlier than createdAt.'')
     else Inr (r\<lparr> r_status := s, r_updatedAt := now, r_recoveryMetadata := m \<rparr>))"
proof -
  have c: "valid_date (r_createdAt r)" using assms date_le_valid by (auto simp: run_wf_def)
  have k: "require_opt (r_idempotencyKey r) ''Run.idempotencyKey'' = Inr (r_idempotencyKey r)"
    using assms by (simp add: require_opt_Inr run_wf_def)
  show ?thesis
    using assms c k by (cases now) (auto simp: Run_instantiate_def run_props_with_def run_wf_def
        run_lc.state_of_name)
qed

lemma Run_transitionTo_wf_cases:
  assumes "run_wf r"
  shows "Run_transitionTo r t now =
    (if (r_status r, t) \<notin> set LEGAL_RUN_TRANSITIONS
     then Inl (InvalidRunTransitionError (r_status r) t)
     else if \<not> valid_date now then Inl (DomainInvariantError ''Timestamp must be a valid Date.'')
     else if date_lt now (r_createdAt r)
     then Inl (DomainInvariantError ''Run.updatedAt cannot be earlier than createdAt.'')
     else Inr (r\<lparr> r_status := t, r_updatedAt := now \<rparr>))"
  using assms by (simp add: Run_transitionTo_def assertLegalRunTransition_def
      isLegalRunTransition_def run_lc.legal_by_key_iff run_props_instantiate)

lemma Run_transitionTo_Inr:
  "run_wf r \<Longrightarrow> Run_transitionTo r t now = Inr r' \<longleftrightarrow>
     (r_status r, t) \<in> set LEGAL_RUN_TRANSITIONS \<and> date_le (r_createdAt r) now
     \<and> r' = r\<lparr> r_status := t, r_updatedAt := now \<rparr>"
  using date_le_valid [of "r_createdAt r" "r_updatedAt r"]
  by (auto simp: Run_transitionTo_wf_cases run_wf_def date_not_lt date_le_not_lt
      dest: date_le_valid split: if_splits)

lemma Run_transitionTo_wf: "run_wf r \<Longrightarrow> Run_transitionTo r t now = Inr r' \<Longrightarrow> run_wf r'"
  by (auto simp: Run_transitionTo_Inr run_wf_def)

lemma Run_withRecoveryMetadata_Inr:
  "run_wf r \<Longrightarrow> Run_withRecoveryMetadata r m now = Inr r' \<longleftrightarrow>
     date_le (r_createdAt r) now \<and> r' = r\<lparr> r_updatedAt := now, r_recoveryMetadata := m \<rparr>"
  using date_le_valid [of "r_createdAt r" "r_updatedAt r"]
  by (auto simp: Run_withRecoveryMetadata_def run_props_instantiate run_wf_def date_not_lt
      date_le_not_lt dest: date_le_valid split: if_splits)

lemma Run_withRecoveryMetadata_wf:
  "run_wf r \<Longrightarrow> Run_withRecoveryMetadata r m now = Inr r' \<Longrightarrow> run_wf r'"
  by (auto simp: Run_withRecoveryMetadata_Inr run_wf_def)

subsection \<open>RunAttempt (run-attempt.ts)\<close>

record run_attempt_error =
  re_code :: string
  re_message :: string

record 's run_attempt_of =
  a_id :: string
  a_runId :: string
  a_sequence :: int
  a_status :: 's
  a_createdAt :: js_date
  a_startedAt :: "js_date option"
  a_completedAt :: "js_date option"
  a_error :: "run_attempt_error option"
  a_output :: jsv
  a_infrastructureMetadata :: "jsv option"
  a_executionOwner :: "string option"
  a_executionGeneration :: int
  a_leaseExpiresAt :: "js_date option"

type_synonym run_attempt = "run_attempt_state run_attempt_of"
type_synonym run_attempt_props = "string run_attempt_of"

definition copyOutput :: "jsv \<Rightarrow> osva_error + jsv" where
  "copyOutput v = (if v = JUndefined then Inr JUndefined else copyCanonicalJsonValue v ''RunAttempt.output'')"

definition trimmed_owner :: "string option \<Rightarrow> string option" where
  "trimmed_owner owner =
     (case owner of None \<Rightarrow> None
      | Some s \<Rightarrow> if length (js_trim s) = 0 then None else Some (js_trim s))"

definition RunAttempt_instantiate :: "run_attempt_props \<Rightarrow> osva_error + run_attempt" where
  "RunAttempt_instantiate p =
     (if a_id p = '''' then Inl (DomainInvariantError ''RunAttempt.id is required.'')
      else if a_runId p = '''' then Inl (DomainInvariantError ''RunAttempt.runId is required.'')
      else if a_sequence p < 1 then Inl (InvalidAttemptSequenceError
        ''RunAttempt sequence must be a positive integer'')
      else if a_executionGeneration p < 0 then Inl (DomainInvariantError
        ''RunAttempt.executionGeneration must be a non-negative integer.'')
      else case state_of_string run_attempt_state_name RUN_ATTEMPT_STATES (a_status p) of
        None \<Rightarrow> Inl (DomainInvariantError (''Invalid run attempt status: '' @ a_status p))
      | Some status \<Rightarrow>
        and_then (copyInstant (a_createdAt p)) (\<lambda>createdAt.
        and_then (copyOptInstant (a_startedAt p)) (\<lambda>startedAt.
        and_then (copyOptInstant (a_completedAt p)) (\<lambda>completedAt.
          if (case startedAt of None \<Rightarrow> False | Some s \<Rightarrow> date_lt s createdAt)
          then Inl (DomainInvariantError ''RunAttempt.startedAt cannot be earlier than createdAt.'')
          else if (case completedAt of None \<Rightarrow> False
                   | Some c \<Rightarrow> date_lt c (case startedAt of None \<Rightarrow> createdAt | Some s \<Rightarrow> s))
          then Inl (DomainInvariantError
            ''RunAttempt.completedAt cannot be earlier than startedAt or createdAt.'')
          else
            and_then (copyOutput (a_output p)) (\<lambda>output.
            and_then (copyOptInstant (a_leaseExpiresAt p)) (\<lambda>leaseExpiresAt.
              Inr \<lparr> a_id = a_id p, a_runId = a_runId p, a_sequence = a_sequence p,
                a_status = status, a_createdAt = createdAt, a_startedAt = startedAt,
                a_completedAt = completedAt, a_error = a_error p, a_output = output,
                a_infrastructureMetadata = map_option freezeRecord (a_infrastructureMetadata p),
                a_executionOwner = trimmed_owner (a_executionOwner p),
                a_executionGeneration = a_executionGeneration p,
                a_leaseExpiresAt = leaseExpiresAt \<rparr>))))))"

definition RunAttempt_createFirst ::
    "string \<Rightarrow> string \<Rightarrow> js_date \<Rightarrow> jsv option \<Rightarrow> osva_error + run_attempt" where
  "RunAttempt_createFirst attemptId runId createdAt metadata = RunAttempt_instantiate
     \<lparr> a_id = attemptId, a_runId = runId, a_sequence = 1, a_status = ''PENDING'',
       a_createdAt = createdAt, a_startedAt = None, a_completedAt = None, a_error = None,
       a_output = JUndefined, a_infrastructureMetadata = metadata, a_executionOwner = None,
       a_executionGeneration = 0, a_leaseExpiresAt = None \<rparr>"

definition RunAttempt_createSubsequent ::
    "run_attempt \<Rightarrow> string \<Rightarrow> js_date \<Rightarrow> jsv option \<Rightarrow> osva_error + run_attempt" where
  "RunAttempt_createSubsequent previous attemptId createdAt metadata =
     (if \<not> isRetryableRunAttemptState (a_status previous)
      then Inl (InvalidSubsequentAttemptError (a_status previous))
      else if attemptId = a_id previous
      then Inl (DomainInvariantError (''A new logical attempt requires a new RunAttemptId. ''
        @ ''Queue redelivery must reuse the existing RunAttempt.''))
      else RunAttempt_instantiate
        \<lparr> a_id = attemptId, a_runId = a_runId previous, a_sequence = a_sequence previous + 1,
          a_status = ''PENDING'', a_createdAt = createdAt, a_startedAt = None,
          a_completedAt = None, a_error = None, a_output = JUndefined,
          a_infrastructureMetadata = metadata, a_executionOwner = None,
          a_executionGeneration = 0, a_leaseExpiresAt = None \<rparr>)"

text \<open>\<open>executionGeneration\<close> is optional for \<open>rehydrate\<close>, where it defaults to 0.\<close>

definition RunAttempt_rehydrate :: "run_attempt_props \<Rightarrow> int option \<Rightarrow> osva_error + run_attempt" where
  "RunAttempt_rehydrate p generation = RunAttempt_instantiate
     (p\<lparr> a_executionGeneration := (case generation of None \<Rightarrow> 0 | Some g \<Rightarrow> g) \<rparr>)"

record attempt_options =
  o_error :: "run_attempt_error option"
  o_output :: jsv
  o_infrastructureMetadata :: "jsv option"

definition no_options :: attempt_options where
  "no_options = \<lparr> o_error = None, o_output = JUndefined, o_infrastructureMetadata = None \<rparr>"

definition RunAttempt_transitionTo ::
    "run_attempt \<Rightarrow> run_attempt_state \<Rightarrow> js_date \<Rightarrow> attempt_options \<Rightarrow> osva_error + run_attempt" where
  "RunAttempt_transitionTo a target now options =
     after_check (assertLegalRunAttemptTransition (a_status a) target)
       (let startedAt = or_else (a_startedAt a) (if target = Att_RUNNING then Some now else None);
            completedAt = (if isTerminalRunAttemptState target then Some now else a_completedAt a);
            error = (if target = Att_SUCCEEDED then None else or_else (o_error options) (a_error a));
            terminal = isTerminalRunAttemptState target
        in and_then (if target = Att_SUCCEEDED
                     then copyCanonicalJsonValue (o_output options) ''RunAttempt.output''
                     else Inr JUndefined) (\<lambda>output.
           RunAttempt_instantiate
             \<lparr> a_id = a_id a, a_runId = a_runId a, a_sequence = a_sequence a,
               a_status = run_attempt_state_name target, a_createdAt = a_createdAt a,
               a_startedAt = startedAt, a_completedAt = completedAt, a_error = error,
               a_output = output,
               a_infrastructureMetadata =
                 or_else (o_infrastructureMetadata options) (a_infrastructureMetadata a),
               a_executionOwner = a_executionOwner a,
               a_executionGeneration = a_executionGeneration a,
               a_leaseExpiresAt = (if terminal then None else a_leaseExpiresAt a) \<rparr>))"

record execution_lease =
  el_owner :: string
  el_generation :: int
  el_expiresAt :: js_date

definition RunAttempt_withExecutionLease ::
    "run_attempt \<Rightarrow> execution_lease \<Rightarrow> osva_error + run_attempt" where
  "RunAttempt_withExecutionLease a lease =
     (if a_status a \<noteq> Att_RUNNING
      then Inl (DomainInvariantError ''Execution leases can only be attached to RUNNING RunAttempts.'')
      else
        let owner = js_trim (el_owner lease)
        in if length owner = 0
           then Inl (DomainInvariantError ''Execution lease owner is required.'')
           else if el_generation lease < 1
           then Inl (DomainInvariantError ''Execution lease generation must be a positive integer.'')
           else RunAttempt_instantiate
             \<lparr> a_id = a_id a, a_runId = a_runId a, a_sequence = a_sequence a,
               a_status = run_attempt_state_name (a_status a), a_createdAt = a_createdAt a,
               a_startedAt = a_startedAt a, a_completedAt = a_completedAt a, a_error = a_error a,
               a_output = a_output a, a_infrastructureMetadata = a_infrastructureMetadata a,
               a_executionOwner = Some owner, a_executionGeneration = el_generation lease,
               a_leaseExpiresAt = Some (el_expiresAt lease) \<rparr>)"

definition hasActiveExecutionLease :: "run_attempt \<Rightarrow> js_date \<Rightarrow> bool" where
  "hasActiveExecutionLease a now =
     (a_status a = Att_RUNNING \<and> a_executionOwner a \<noteq> None
      \<and> (case a_leaseExpiresAt a of None \<Rightarrow> False | Some e \<Rightarrow> date_lt now e))"

definition selectCapabilityEligibleRunAttempt ::
    "run_attempt option \<Rightarrow> js_date \<Rightarrow> run_attempt option" where
  "selectCapabilityEligibleRunAttempt attempt storeNow =
     (case attempt of None \<Rightarrow> None
      | Some a \<Rightarrow>
          if a_status a \<noteq> Att_RUNNING then None
          else if a_executionOwner a = None then Some a
          else if hasActiveExecutionLease a storeNow then Some a else None)"

text \<open>What every attempt built by these operations satisfies.\<close>

definition attempt_wf :: "run_attempt \<Rightarrow> bool" where
  "attempt_wf a \<longleftrightarrow>
     a_id a \<noteq> '''' \<and> a_runId a \<noteq> '''' \<and> 1 \<le> a_sequence a \<and> 0 \<le> a_executionGeneration a
     \<and> valid_date (a_createdAt a)
     \<and> (\<forall>s. a_startedAt a = Some s \<longrightarrow> date_le (a_createdAt a) s)
     \<and> (\<forall>c. a_completedAt a = Some c \<longrightarrow>
          date_le (case a_startedAt a of None \<Rightarrow> a_createdAt a | Some s \<Rightarrow> s) c)
     \<and> (a_output a = JUndefined \<or> plain_json (a_output a))
     \<and> (\<forall>w. a_executionOwner a = Some w \<longrightarrow> w \<noteq> '''' \<and> js_trim w = w)
     \<and> (\<forall>e. a_leaseExpiresAt a = Some e \<longrightarrow> valid_date e)"

definition attempt_timeline :: "run_attempt \<Rightarrow> bool" where
  "attempt_timeline a \<longleftrightarrow>
     (a_status a = Att_PENDING \<longrightarrow> a_startedAt a = None \<and> a_executionOwner a = None
        \<and> a_executionGeneration a = 0)
     \<and> (a_status a = Att_RUNNING \<longrightarrow> a_startedAt a \<noteq> None)
     \<and> (a_completedAt a \<noteq> None \<longleftrightarrow> isTerminalRunAttemptState (a_status a))
     \<and> (a_leaseExpiresAt a \<noteq> None \<longrightarrow> a_status a = Att_RUNNING \<and> a_executionOwner a \<noteq> None
        \<and> 1 \<le> a_executionGeneration a)
     \<and> (a_output a \<noteq> JUndefined \<longleftrightarrow> a_status a = Att_SUCCEEDED)"

inductive attempt_reachable :: "run_attempt \<Rightarrow> bool" where
  reach_first: "RunAttempt_createFirst i r t m = Inr a \<Longrightarrow> attempt_reachable a"
| reach_next: "attempt_reachable p \<Longrightarrow> RunAttempt_createSubsequent p i t m = Inr a \<Longrightarrow>
     attempt_reachable a"
| reach_move: "attempt_reachable p \<Longrightarrow> RunAttempt_transitionTo p s t opts = Inr a \<Longrightarrow>
     attempt_reachable a"
| reach_lease: "attempt_reachable p \<Longrightarrow> RunAttempt_withExecutionLease p l = Inr a \<Longrightarrow>
     attempt_reachable a"

lemma copyOutput_Inr: "copyOutput v = Inr w \<Longrightarrow> \<not> uses_proto v \<Longrightarrow>
    w = v \<and> (v = JUndefined \<or> plain_json v)"
  by (auto simp: copyOutput_def copyCanonicalJsonValue_def freezeClone_def plain_json_iff
      split: if_splits)

lemma trimmed_owner_Some:
  "trimmed_owner v = Some w \<Longrightarrow> w \<noteq> '''' \<and> js_trim w = w"
  by (auto simp: trimmed_owner_def split: option.splits if_splits)

lemma RunAttempt_instantiate_Inr:
  assumes "RunAttempt_instantiate p = Inr a" "\<not> uses_proto (a_output p)"
  shows "attempt_wf a \<and> a_status p = run_attempt_state_name (a_status a)
    \<and> a_id a = a_id p \<and> a_runId a = a_runId p \<and> a_sequence a = a_sequence p
    \<and> a_createdAt a = a_createdAt p \<and> a_startedAt a = a_startedAt p
    \<and> a_completedAt a = a_completedAt p \<and> a_error a = a_error p \<and> a_output a = a_output p
    \<and> a_executionOwner a = trimmed_owner (a_executionOwner p)
    \<and> a_executionGeneration a = a_executionGeneration p \<and> a_leaseExpiresAt a = a_leaseExpiresAt p"
  using assms
  by (auto simp: RunAttempt_instantiate_def attempt_wf_def result_simps date_not_lt
      dest!: copyOutput_Inr trimmed_owner_Some dest: attempt_lc.state_of_string_Some
      split: if_splits option.splits)


lemmas attempt_status_simps = isTerminalRunAttemptState_def TERMINAL_RUN_ATTEMPT_STATES_def
  isRetryableRunAttemptState_def RETRYABLE_RUN_ATTEMPT_STATES_def

lemma attempt_output_no_proto: "attempt_wf a \<Longrightarrow> \<not> uses_proto (a_output a)"
  by (auto simp: attempt_wf_def plain_json_iff)

lemma attempt_name_eqs [simp]:
  "''PENDING'' = run_attempt_state_name s \<longleftrightarrow> s = Att_PENDING"
  "''RUNNING'' = run_attempt_state_name s \<longleftrightarrow> s = Att_RUNNING"
  by (cases s; simp)+

lemma run_attempt_state_name_eq [simp]: "run_attempt_state_name s = run_attempt_state_name t \<longleftrightarrow> s = t"
  by (auto dest: attempt_lc.name_inj)

lemma createFirst_inv:
  "RunAttempt_createFirst i r t m = Inr a \<Longrightarrow> attempt_wf a \<and> attempt_timeline a"
  unfolding RunAttempt_createFirst_def
  by (drule RunAttempt_instantiate_Inr, simp)
     (simp add: attempt_timeline_def attempt_status_simps trimmed_owner_def)

lemma createSubsequent_inv:
  "RunAttempt_createSubsequent p i t m = Inr a \<Longrightarrow> attempt_wf a \<and> attempt_timeline a"
  unfolding RunAttempt_createSubsequent_def if_Inl_Inr
  by (elim conjE, drule RunAttempt_instantiate_Inr, simp)
     (simp add: attempt_timeline_def attempt_status_simps trimmed_owner_def)

lemma transitionTo_shape:
  assumes "RunAttempt_transitionTo a target now opts = Inr b"
  shows "(a_status a, target) \<in> set LEGAL_RUN_ATTEMPT_TRANSITIONS \<and> attempt_wf b
    \<and> a_status b = target \<and> a_id b = a_id a \<and> a_runId b = a_runId a \<and> a_sequence b = a_sequence a
    \<and> a_createdAt b = a_createdAt a
    \<and> a_startedAt b = or_else (a_startedAt a) (if target = Att_RUNNING then Some now else None)
    \<and> a_completedAt b = (if isTerminalRunAttemptState target then Some now else a_completedAt a)
    \<and> (a_output b \<noteq> JUndefined \<longleftrightarrow> target = Att_SUCCEEDED)
    \<and> a_executionOwner b = trimmed_owner (a_executionOwner a)
    \<and> a_executionGeneration b = a_executionGeneration a
    \<and> a_leaseExpiresAt b = (if isTerminalRunAttemptState target then None else a_leaseExpiresAt a)"
proof -
  let ?out = "if target = Att_SUCCEEDED
    then copyCanonicalJsonValue (o_output opts) ''RunAttempt.output'' else Inr JUndefined"
  from assms obtain out where o: "?out = Inr out" and l: "(a_status a, target) \<in> set LEGAL_RUN_ATTEMPT_TRANSITIONS"
    by (auto simp: RunAttempt_transitionTo_def result_simps Let_def assertLegalRunAttemptTransition_def
        isLegalRunAttemptTransition_def attempt_lc.legal_by_key_iff split: if_splits)
  have p: "\<not> uses_proto out" and u: "out \<noteq> JUndefined \<longleftrightarrow> target = Att_SUCCEEDED"
    using o by (auto simp: copyCanonicalJsonValue_undefined
        dest: copyCanonicalJsonValue_no_proto split: if_splits)
  show ?thesis
    using assms unfolding RunAttempt_transitionTo_def Let_def after_check_Inr o and_then_simps
    by (elim conjE, drule_tac RunAttempt_instantiate_Inr) (insert p l u, simp, clarsimp)
qed

lemma transitionTo_inv:
  assumes "attempt_timeline a" "attempt_wf a" "RunAttempt_transitionTo a target now opts = Inr b"
  shows "attempt_wf b \<and> attempt_timeline b"
proof -
  note t = transitionTo_shape [OF assms(3)]
  have "trimmed_owner (a_executionOwner a) = a_executionOwner a"
    using assms(2) by (auto simp: trimmed_owner_def attempt_wf_def split: option.splits)
  with t assms(1) show ?thesis
    by (cases target) (auto simp: attempt_timeline_def attempt_status_simps LEGAL_RUN_ATTEMPT_TRANSITIONS_def)
qed

lemma withExecutionLease_shape:
  assumes "RunAttempt_withExecutionLease a l = Inr b" "\<not> uses_proto (a_output a)"
  shows "a_status a = Att_RUNNING \<and> attempt_wf b \<and> a_status b = Att_RUNNING
    \<and> a_id b = a_id a \<and> a_runId b = a_runId a \<and> a_sequence b = a_sequence a
    \<and> a_createdAt b = a_createdAt a \<and> a_startedAt b = a_startedAt a
    \<and> a_completedAt b = a_completedAt a \<and> a_output b = a_output a
    \<and> a_executionOwner b = Some (js_trim (el_owner l)) \<and> 1 \<le> el_generation l
    \<and> a_executionGeneration b = el_generation l \<and> a_leaseExpiresAt b = Some (el_expiresAt l)"
  using assms unfolding RunAttempt_withExecutionLease_def Let_def if_Inl_Inr
  by (elim conjE, drule_tac RunAttempt_instantiate_Inr) (auto simp: trimmed_owner_def)

lemma withExecutionLease_inv:
  "attempt_timeline a \<Longrightarrow> attempt_wf a \<Longrightarrow> RunAttempt_withExecutionLease a l = Inr b \<Longrightarrow>
     attempt_wf b \<and> attempt_timeline b"
  using withExecutionLease_shape [OF _ attempt_output_no_proto, of a l b]
  by (simp add: attempt_timeline_def attempt_status_simps)

text \<open>
  C21. Every attempt the operations can build is well formed and its timeline is consistent:
  started once it runs, completed exactly when terminal, leased only while it runs and is owned,
  and with an output exactly when it succeeded.
\<close>

theorem attempt_reachable_inv:
  assumes "attempt_reachable a"
  shows "attempt_wf a \<and> attempt_timeline a"
  using assms
proof (induction rule: attempt_reachable.induct)
  case (reach_move p s t opts a)
  then show ?case using transitionTo_inv by blast
next
  case (reach_lease p l a)
  then show ?case using withExecutionLease_inv by blast
qed (blast dest: createFirst_inv createSubsequent_inv)+

theorem attempt_reachable_inv_witness:
  "\<exists>a. attempt_reachable a \<and> a_status a = Att_RUNNING \<and> attempt_wf a \<and> attempt_timeline a"
proof -
  let ?a = "\<lparr> a_id = ''a1'', a_runId = ''r1'', a_sequence = 1, a_status = Att_PENDING,
    a_createdAt = DateMs 5, a_startedAt = None, a_completedAt = None, a_error = None,
    a_output = JUndefined, a_infrastructureMetadata = None, a_executionOwner = None,
    a_executionGeneration = 0, a_leaseExpiresAt = None \<rparr>"
  let ?b = "?a\<lparr> a_status := Att_RUNNING, a_startedAt := Some (DateMs 7) \<rparr>"
  have "RunAttempt_createFirst ''a1'' ''r1'' (DateMs 5) None = Inr ?a"
    by code_simp
  moreover have "RunAttempt_transitionTo ?a Att_RUNNING (DateMs 7) no_options = Inr ?b"
    by code_simp
  ultimately have "attempt_reachable ?b" by (blast intro: reach_first reach_move)
  from attempt_reachable_inv [OF this] this show ?thesis
    by (intro exI [of _ ?b]) simp
qed

subsection \<open>The lifetime of a run\<close>

inductive run_step :: "run \<Rightarrow> run \<Rightarrow> bool" where
  run_move: "Run_transitionTo r t now = Inr r' \<Longrightarrow> run_step r r'"
| run_meta: "Run_withRecoveryMetadata r m now = Inr r' \<Longrightarrow> run_step r r'"

definition same_run :: "run \<Rightarrow> run \<Rightarrow> bool" where
  "same_run r r' \<longleftrightarrow> r' = r\<lparr> r_status := r_status r', r_updatedAt := r_updatedAt r',
     r_recoveryMetadata := r_recoveryMetadata r' \<rparr>"

lemma same_run_trans: "same_run a b \<Longrightarrow> same_run b c \<Longrightarrow> same_run a c"
  unfolding same_run_def by (cases a; cases b; cases c) simp

lemma run_step_facts:
  "run_step r r' \<Longrightarrow> run_wf r \<Longrightarrow> run_wf r' \<and> same_run r r'
     \<and> (r_status r' = r_status r \<or> (r_status r, r_status r') \<in> set LEGAL_RUN_TRANSITIONS)"
proof (induction rule: run_step.induct)
  case (run_move r t now r')
  then show ?case using Run_transitionTo_wf [OF run_move(2,1)]
    by (auto simp: Run_transitionTo_Inr same_run_def)
next
  case (run_meta r m now r')
  then show ?case using Run_withRecoveryMetadata_wf [OF run_meta(2,1)]
    by (auto simp: Run_withRecoveryMetadata_Inr same_run_def)
qed

lemma run_steps_facts:
  assumes "run_step\<^sup>*\<^sup>* r r'" "run_wf r"
  shows "run_wf r' \<and> same_run r r' \<and> (r_status r, r_status r') \<in> (set LEGAL_RUN_TRANSITIONS)\<^sup>*"
  using assms(1)
proof (induction rule: rtranclp_induct)
  case base
  then show ?case using assms(2) by (simp add: same_run_def)
next
  case (step y z)
  then show ?case using run_step_facts [OF step(2)] same_run_trans
    by (metis rtrancl.rtrancl_into_rtrancl)
qed

lemma terminal_run_rtrancl:
  "(s, t) \<in> (set LEGAL_RUN_TRANSITIONS)\<^sup>* \<Longrightarrow> isTerminalRunState s \<Longrightarrow> t = s"
  by (induction rule: converse_rtrancl_induct)
    (auto simp: isTerminalRunState_def dest: run_lc.terminal_final)

text \<open>
  Whatever methods are called on a run, in any order, it stays the run it was: only its
  status, its update time and its recovery metadata can differ; the status has moved along legal
  transitions, not at all once it is terminal; and the update never precedes the creation.
\<close>

theorem run_lifetime:
  assumes "Run_create p = Inr r" "\<not> uses_proto (rc_input p)" "run_step\<^sup>*\<^sup>* r r1" "run_step\<^sup>*\<^sup>* r1 r2"
  shows "r2 = r1\<lparr> r_status := r_status r2, r_updatedAt := r_updatedAt r2,
      r_recoveryMetadata := r_recoveryMetadata r2 \<rparr>
    \<and> (r_status r1, r_status r2) \<in> (set LEGAL_RUN_TRANSITIONS)\<^sup>*
    \<and> (isTerminalRunState (r_status r1) \<longrightarrow> r_status r2 = r_status r1)
    \<and> date_le (r_createdAt r2) (r_updatedAt r2)"
proof -
  have "run_wf r" using assms(1,2) by (auto simp: Run_create_def dest!: Run_instantiate_wf)
  from run_steps_facts [OF assms(3) this] have "run_wf r1" by simp
  from run_steps_facts [OF assms(4) this] show ?thesis
    using terminal_run_rtrancl by (auto simp: same_run_def run_wf_def)
qed

definition sample_run_props :: run_create_props where
  "sample_run_props = \<lparr> rc_id = ''r1'', rc_workspaceId = ''w'', rc_agentId = ''a'',
     rc_effectiveBindings = \<lparr> rb_agentVersionId = ''v'', rb_modelProfileVersionBindings = JObject [],
       rb_toolVersionBindings = JObject [], rb_memoryNamespaceBindings = JObject [],
       rb_knowledgeIndexBindings = JObject [] \<rparr>,
     rc_input = JNull, rc_createdAt = DateMs 1, rc_idempotencyKey = None, rc_evaluationRunId = None,
     rc_evaluationCaseId = None, rc_restrictPersistentMemory = None, rc_recoveryMetadata = None \<rparr>"

definition sample_run :: "run_state \<Rightarrow> int \<Rightarrow> run" where
  "sample_run s t = \<lparr> r_id = ''r1'', r_workspaceId = ''w'', r_agentId = ''a'', r_status = s,
    r_effectiveBindings = rc_effectiveBindings sample_run_props, r_input = JNull,
    r_createdAt = DateMs 1, r_updatedAt = DateMs t, r_idempotencyKey = None, r_evaluationRunId = None,
    r_evaluationCaseId = None, r_restrictPersistentMemory = False, r_recoveryMetadata = None \<rparr>"

lemma sample_run_created:
  "Run_create sample_run_props = Inr (sample_run Run_PENDING 1)"
  "\<not> uses_proto (rc_input sample_run_props)"
  by code_simp+

lemma sample_run_moves:
  "run_step (sample_run Run_PENDING 1) (sample_run Run_QUEUED 2)"
  "run_step (sample_run Run_QUEUED 2) (sample_run Run_CANCELLED 3)"
  "run_step (sample_run Run_CANCELLED 3) (sample_run Run_CANCELLED 9)"
  by (rule run_move [where t = Run_QUEUED and now = "DateMs 2"], code_simp)
    (rule run_move [where t = Run_CANCELLED and now = "DateMs 3"], code_simp,
      rule run_meta [where m = None and now = "DateMs 9"], code_simp)

lemma sample_run_path: "run_step\<^sup>*\<^sup>* (sample_run Run_PENDING 1) (sample_run Run_CANCELLED 3)"
  using sample_run_moves(1,2) by (blast intro: rtranclp.rtrancl_into_rtrancl)

theorem run_lifetime_witness:
  "isTerminalRunState (r_status (sample_run Run_CANCELLED 3))
   \<and> r_status (sample_run Run_CANCELLED 9) = r_status (sample_run Run_CANCELLED 3)"
  using run_lifetime [OF sample_run_created sample_run_path r_into_rtranclp, OF sample_run_moves(3)]
  by (simp add: sample_run_def isTerminalRunState_def TERMINAL_RUN_STATES_def)

end
