(* ===== verification/Workflow_Run_Model.thy ===== *)
theory Workflow_Run_Model
  imports Run_Model
begin

text \<open>
  Workflow runs and node runs (\<open>domain/src/workflow-run.ts\<close>, \<open>workflow-node-run.ts\<close>). As
  for runs, every constructor and method goes through \<open>instantiate\<close>, which takes the entity's
  fields with a raw status string; \<open>copyProps\<close> gives them. An undefined output is
  \<open>JUndefined\<close>.
\<close>

record workflow_run_error =
  we_code :: string
  we_message :: string

definition copyOptJson :: "jsv \<Rightarrow> string \<Rightarrow> osva_error + jsv" where
  "copyOptJson v field = (if v = JUndefined then Inr JUndefined else copyJsonValue v field)"

lemma copyOptJson_Inr: "copyOptJson v f = Inr w \<Longrightarrow> \<not> uses_proto v \<Longrightarrow> w = JUndefined \<or> plain_json w"
  by (auto simp: copyOptJson_def dest: copyJsonValue_result split: if_splits)

lemma copyOptJson_plain [simp]: "v = JUndefined \<or> plain_json v \<Longrightarrow> copyOptJson v f = Inr v"
  by (auto simp: copyOptJson_def)

subsection \<open>WorkflowRun (workflow-run.ts)\<close>

record 's workflow_run_of =
  w_id :: string
  w_workspaceId :: string
  w_workflowId :: string
  w_workflowVersionId :: string
  w_status :: 's
  w_input :: jsv
  w_output :: jsv
  w_error :: "workflow_run_error option"
  w_startedAt :: "js_date option"
  w_completedAt :: "js_date option"
  w_createdAt :: js_date
  w_updatedAt :: js_date

type_synonym workflow_run = "workflow_run_state workflow_run_of"
type_synonym workflow_run_props = "string workflow_run_of"

definition WorkflowRun_props :: "workflow_run \<Rightarrow> workflow_run_props" where
  "WorkflowRun_props w =
     \<lparr> w_id = w_id w, w_workspaceId = w_workspaceId w, w_workflowId = w_workflowId w,
       w_workflowVersionId = w_workflowVersionId w, w_status = workflow_run_state_name (w_status w),
       w_input = w_input w, w_output = w_output w, w_error = w_error w,
       w_startedAt = w_startedAt w, w_completedAt = w_completedAt w,
       w_createdAt = w_createdAt w, w_updatedAt = w_updatedAt w \<rparr>"

definition WorkflowRun_instantiate :: "workflow_run_props \<Rightarrow> osva_error + workflow_run" where
  "WorkflowRun_instantiate p =
     (if w_id p = '''' then Inl (DomainInvariantError ''WorkflowRun.id is required.'')
      else if w_workspaceId p = ''''
      then Inl (DomainInvariantError ''WorkflowRun.workspaceId is required.'')
      else if w_workflowId p = ''''
      then Inl (DomainInvariantError ''WorkflowRun.workflowId is required.'')
      else if w_workflowVersionId p = ''''
      then Inl (DomainInvariantError ''WorkflowRun.workflowVersionId is required.'')
      else case state_of_string workflow_run_state_name WORKFLOW_RUN_STATES (w_status p) of
        None \<Rightarrow> Inl (DomainInvariantError (''Invalid workflow run status: '' @ w_status p))
      | Some status \<Rightarrow>
        and_then (copyInstant (w_createdAt p)) (\<lambda>createdAt.
        and_then (copyInstant (w_updatedAt p)) (\<lambda>updatedAt.
          if date_lt updatedAt createdAt
          then Inl (DomainInvariantError ''WorkflowRun.updatedAt cannot be earlier than createdAt.'')
          else
            and_then (copyJsonValue (w_input p) ''WorkflowRun.input'') (\<lambda>input.
            and_then (copyOptJson (w_output p) ''WorkflowRun.output'') (\<lambda>output.
            and_then (copyOptInstant (w_startedAt p)) (\<lambda>startedAt.
            and_then (copyOptInstant (w_completedAt p)) (\<lambda>completedAt.
              Inr \<lparr> w_id = w_id p, w_workspaceId = w_workspaceId p, w_workflowId = w_workflowId p,
                w_workflowVersionId = w_workflowVersionId p, w_status = status, w_input = input,
                w_output = output, w_error = w_error p, w_startedAt = startedAt,
                w_completedAt = completedAt, w_createdAt = createdAt, w_updatedAt = updatedAt \<rparr>)))))))"

definition WorkflowRun_create ::
    "string \<Rightarrow> string \<Rightarrow> string \<Rightarrow> string \<Rightarrow> jsv \<Rightarrow> js_date \<Rightarrow> osva_error + workflow_run" where
  "WorkflowRun_create i workspaceId workflowId workflowVersionId input createdAt =
     WorkflowRun_instantiate
       \<lparr> w_id = i, w_workspaceId = workspaceId, w_workflowId = workflowId,
         w_workflowVersionId = workflowVersionId, w_status = ''PENDING'', w_input = input,
         w_output = JUndefined, w_error = None, w_startedAt = None, w_completedAt = None,
         w_createdAt = createdAt, w_updatedAt = createdAt \<rparr>"

definition WorkflowRun_rehydrate :: "workflow_run_props \<Rightarrow> osva_error + workflow_run" where
  "WorkflowRun_rehydrate p = WorkflowRun_instantiate p"

record wr_transition_options =
  wo_now :: js_date
  wo_output :: jsv
  wo_error :: "workflow_run_error option"
  wo_startedAt :: "js_date option"
  wo_completedAt :: "js_date option"

definition WorkflowRun_transitionTo ::
    "workflow_run \<Rightarrow> workflow_run_state \<Rightarrow> wr_transition_options \<Rightarrow> osva_error + workflow_run" where
  "WorkflowRun_transitionTo w target opts =
     after_check (assertLegalWorkflowRunTransition (w_status w) target)
       (WorkflowRun_instantiate ((WorkflowRun_props w)
          \<lparr> w_status := workflow_run_state_name target,
            w_output := (if wo_output opts \<noteq> JUndefined then wo_output opts else w_output w),
            w_error := or_else (wo_error opts) (w_error w),
            w_startedAt := or_else (wo_startedAt opts) (w_startedAt w),
            w_completedAt := or_else (wo_completedAt opts) (w_completedAt w),
            w_updatedAt := wo_now opts \<rparr>))"

definition WorkflowRun_markRunning :: "workflow_run \<Rightarrow> js_date \<Rightarrow> osva_error + workflow_run" where
  "WorkflowRun_markRunning w now = WorkflowRun_transitionTo w WR_RUNNING
     \<lparr> wo_now = now, wo_output = JUndefined, wo_error = None,
       wo_startedAt = or_else (w_startedAt w) (Some now), wo_completedAt = None \<rparr>"

definition WorkflowRun_markWaiting :: "workflow_run \<Rightarrow> js_date \<Rightarrow> osva_error + workflow_run" where
  "WorkflowRun_markWaiting w now = WorkflowRun_transitionTo w WR_WAITING
     \<lparr> wo_now = now, wo_output = JUndefined, wo_error = None,
       wo_startedAt = or_else (w_startedAt w) (Some now), wo_completedAt = None \<rparr>"

definition WorkflowRun_markCancelled :: "workflow_run \<Rightarrow> js_date \<Rightarrow> osva_error + workflow_run" where
  "WorkflowRun_markCancelled w now = WorkflowRun_transitionTo w WR_CANCELLED
     \<lparr> wo_now = now, wo_output = JUndefined, wo_error = None,
       wo_startedAt = or_else (w_startedAt w) (Some now), wo_completedAt = Some now \<rparr>"

definition WorkflowRun_markSucceeded ::
    "workflow_run \<Rightarrow> js_date \<Rightarrow> jsv \<Rightarrow> osva_error + workflow_run" where
  "WorkflowRun_markSucceeded w now output = WorkflowRun_transitionTo w WR_SUCCEEDED
     \<lparr> wo_now = now, wo_output = output, wo_error = None,
       wo_startedAt = or_else (w_startedAt w) (Some now), wo_completedAt = Some now \<rparr>"

definition WorkflowRun_markFailed ::
    "workflow_run \<Rightarrow> js_date \<Rightarrow> workflow_run_error \<Rightarrow> osva_error + workflow_run" where
  "WorkflowRun_markFailed w now err = WorkflowRun_transitionTo w WR_FAILED
     \<lparr> wo_now = now, wo_output = JUndefined, wo_error = Some err,
       wo_startedAt = or_else (w_startedAt w) (Some now), wo_completedAt = Some now \<rparr>"

lemmas WorkflowRun_marks = WorkflowRun_markRunning_def WorkflowRun_markWaiting_def
  WorkflowRun_markCancelled_def WorkflowRun_markSucceeded_def WorkflowRun_markFailed_def

subsection \<open>WorkflowNodeRun (workflow-node-run.ts)\<close>

record 's node_run_of =
  n_id :: string
  n_workspaceId :: string
  n_workflowRunId :: string
  n_workflowNodeKey :: string
  n_sequence :: int
  n_status :: 's
  n_input :: jsv
  n_output :: jsv
  n_childRunId :: "string option"
  n_selectedTargetKey :: "string option"
  n_error :: "workflow_run_error option"
  n_startedAt :: "js_date option"
  n_completedAt :: "js_date option"
  n_createdAt :: js_date
  n_updatedAt :: js_date

type_synonym workflow_node_run = "workflow_node_run_state node_run_of"
type_synonym node_run_props = "string node_run_of"

definition WorkflowNodeRun_copyProps :: "workflow_node_run \<Rightarrow> node_run_props" where
  "WorkflowNodeRun_copyProps n =
     \<lparr> n_id = n_id n, n_workspaceId = n_workspaceId n, n_workflowRunId = n_workflowRunId n,
       n_workflowNodeKey = n_workflowNodeKey n, n_sequence = n_sequence n,
       n_status = workflow_node_run_state_name (n_status n), n_input = n_input n,
       n_output = n_output n, n_childRunId = n_childRunId n,
       n_selectedTargetKey = n_selectedTargetKey n, n_error = n_error n,
       n_startedAt = n_startedAt n, n_completedAt = n_completedAt n,
       n_createdAt = n_createdAt n, n_updatedAt = n_updatedAt n \<rparr>"

definition WorkflowNodeRun_instantiate :: "node_run_props \<Rightarrow> osva_error + workflow_node_run" where
  "WorkflowNodeRun_instantiate p =
     (if n_id p = '''' then Inl (DomainInvariantError ''WorkflowNodeRun.id is required.'')
      else if n_workspaceId p = ''''
      then Inl (DomainInvariantError ''WorkflowNodeRun.workspaceId is required.'')
      else if n_workflowRunId p = ''''
      then Inl (DomainInvariantError ''WorkflowNodeRun.workflowRunId is required.'')
      else case state_of_string workflow_node_run_state_name WORKFLOW_NODE_RUN_STATES (n_status p) of
        None \<Rightarrow> Inl (DomainInvariantError (''Invalid workflow node run status: '' @ n_status p))
      | Some status \<Rightarrow>
        if n_childRunId p = Some ''''
        then Inl (DomainInvariantError
          ''WorkflowNodeRun.childRunId must be a non-empty string when present.'')
        else if (case n_selectedTargetKey p of None \<Rightarrow> False | Some k \<Rightarrow> js_blank k)
        then Inl (DomainInvariantError
          ''WorkflowNodeRun.selectedTargetKey must be a non-empty string when present.'')
        else
          and_then (copyInstant (n_createdAt p)) (\<lambda>createdAt.
          and_then (copyInstant (n_updatedAt p)) (\<lambda>updatedAt.
            if date_lt updatedAt createdAt
            then Inl (DomainInvariantError
              ''WorkflowNodeRun.updatedAt cannot be earlier than createdAt.'')
            else
              and_then (requireNonEmptyString (n_workflowNodeKey p) ''WorkflowNodeRun.workflowNodeKey'')
                (\<lambda>nodeKey.
              and_then (requirePositiveInteger (n_sequence p) ''WorkflowNodeRun.sequence'') (\<lambda>sequence.
              and_then (copyJsonValue (n_input p) ''WorkflowNodeRun.input'') (\<lambda>input.
              and_then (copyOptJson (n_output p) ''WorkflowNodeRun.output'') (\<lambda>output.
              and_then (require_opt (n_selectedTargetKey p) ''WorkflowNodeRun.selectedTargetKey'')
                (\<lambda>selected.
              and_then (copyOptInstant (n_startedAt p)) (\<lambda>startedAt.
              and_then (copyOptInstant (n_completedAt p)) (\<lambda>completedAt.
                Inr \<lparr> n_id = n_id p, n_workspaceId = n_workspaceId p,
                  n_workflowRunId = n_workflowRunId p, n_workflowNodeKey = nodeKey,
                  n_sequence = sequence, n_status = status, n_input = input, n_output = output,
                  n_childRunId = n_childRunId p, n_selectedTargetKey = selected,
                  n_error = n_error p, n_startedAt = startedAt, n_completedAt = completedAt,
                  n_createdAt = createdAt, n_updatedAt = updatedAt \<rparr>))))))))))"

record node_run_create_props =
  nc_id :: string
  nc_workspaceId :: string
  nc_workflowRunId :: string
  nc_workflowNodeKey :: string
  nc_sequence :: int
  nc_input :: jsv
  nc_createdAt :: js_date

definition WorkflowNodeRun_create :: "node_run_create_props \<Rightarrow> osva_error + workflow_node_run" where
  "WorkflowNodeRun_create p = WorkflowNodeRun_instantiate
     \<lparr> n_id = nc_id p, n_workspaceId = nc_workspaceId p, n_workflowRunId = nc_workflowRunId p,
       n_workflowNodeKey = nc_workflowNodeKey p, n_sequence = nc_sequence p,
       n_status = ''PENDING'', n_input = nc_input p, n_output = JUndefined, n_childRunId = None,
       n_selectedTargetKey = None, n_error = None, n_startedAt = None, n_completedAt = None,
       n_createdAt = nc_createdAt p, n_updatedAt = nc_createdAt p \<rparr>"

definition WorkflowNodeRun_createSkipped ::
    "node_run_create_props \<Rightarrow> osva_error + workflow_node_run" where
  "WorkflowNodeRun_createSkipped p = WorkflowNodeRun_instantiate
     \<lparr> n_id = nc_id p, n_workspaceId = nc_workspaceId p, n_workflowRunId = nc_workflowRunId p,
       n_workflowNodeKey = nc_workflowNodeKey p, n_sequence = nc_sequence p,
       n_status = ''SKIPPED'', n_input = nc_input p, n_output = JUndefined, n_childRunId = None,
       n_selectedTargetKey = None, n_error = None, n_startedAt = None,
       n_completedAt = Some (nc_createdAt p),
       n_createdAt = nc_createdAt p, n_updatedAt = nc_createdAt p \<rparr>"

definition WorkflowNodeRun_rehydrate :: "node_run_props \<Rightarrow> osva_error + workflow_node_run" where
  "WorkflowNodeRun_rehydrate p = WorkflowNodeRun_instantiate p"

definition WorkflowNodeRun_withChildRunId ::
    "workflow_node_run \<Rightarrow> string \<Rightarrow> js_date \<Rightarrow> osva_error + workflow_node_run" where
  "WorkflowNodeRun_withChildRunId n childRunId now =
     (case n_childRunId n of
        Some c \<Rightarrow>
          if c \<noteq> childRunId
          then Inl (DomainInvariantError (''WorkflowNodeRun '' @ n_id n @ '' already has child Run '' @ c))
          else Inr n
      | None \<Rightarrow> WorkflowNodeRun_instantiate ((WorkflowNodeRun_copyProps n)
          \<lparr> n_childRunId := Some childRunId, n_updatedAt := now \<rparr>))"

record nr_transition_options =
  no_now :: js_date
  no_output :: jsv
  no_error :: "workflow_run_error option"
  no_selectedTargetKey :: "string option"
  no_startedAt :: "js_date option"
  no_completedAt :: "js_date option"

definition WorkflowNodeRun_transitionTo ::
    "workflow_node_run \<Rightarrow> workflow_node_run_state \<Rightarrow> nr_transition_options
       \<Rightarrow> osva_error + workflow_node_run" where
  "WorkflowNodeRun_transitionTo n target opts =
     after_check (assertLegalWorkflowNodeRunTransition (n_status n) target)
       (WorkflowNodeRun_instantiate ((WorkflowNodeRun_copyProps n)
          \<lparr> n_status := workflow_node_run_state_name target,
            n_output := (if no_output opts \<noteq> JUndefined then no_output opts else n_output n),
            n_selectedTargetKey := or_else (no_selectedTargetKey opts) (n_selectedTargetKey n),
            n_error := or_else (no_error opts) (n_error n),
            n_startedAt := or_else (no_startedAt opts) (n_startedAt n),
            n_completedAt := or_else (no_completedAt opts) (n_completedAt n),
            n_updatedAt := no_now opts \<rparr>))"

definition WorkflowNodeRun_markRunning ::
    "workflow_node_run \<Rightarrow> js_date \<Rightarrow> osva_error + workflow_node_run" where
  "WorkflowNodeRun_markRunning n now = WorkflowNodeRun_transitionTo n NR_RUNNING
     \<lparr> no_now = now, no_output = JUndefined, no_error = None, no_selectedTargetKey = None,
       no_startedAt = or_else (n_startedAt n) (Some now), no_completedAt = None \<rparr>"

definition WorkflowNodeRun_markWaiting ::
    "workflow_node_run \<Rightarrow> js_date \<Rightarrow> osva_error + workflow_node_run" where
  "WorkflowNodeRun_markWaiting n now = WorkflowNodeRun_transitionTo n NR_WAITING
     \<lparr> no_now = now, no_output = JUndefined, no_error = None, no_selectedTargetKey = None,
       no_startedAt = or_else (n_startedAt n) (Some now), no_completedAt = None \<rparr>"

definition WorkflowNodeRun_markCancelled ::
    "workflow_node_run \<Rightarrow> js_date \<Rightarrow> osva_error + workflow_node_run" where
  "WorkflowNodeRun_markCancelled n now = WorkflowNodeRun_transitionTo n NR_CANCELLED
     \<lparr> no_now = now, no_output = JUndefined, no_error = None, no_selectedTargetKey = None,
       no_startedAt = or_else (n_startedAt n) (Some now), no_completedAt = Some now \<rparr>"

definition WorkflowNodeRun_markSucceeded ::
    "workflow_node_run \<Rightarrow> js_date \<Rightarrow> jsv \<Rightarrow> string option \<Rightarrow> osva_error + workflow_node_run" where
  "WorkflowNodeRun_markSucceeded n now output selected =
     (if n_selectedTargetKey n \<noteq> None \<and> selected \<noteq> None \<and> n_selectedTargetKey n \<noteq> selected
      then Inl (DomainInvariantError
        (''WorkflowNodeRun '' @ n_id n @ '' already selected '' @ the (n_selectedTargetKey n)))
      else WorkflowNodeRun_transitionTo n NR_SUCCEEDED
        \<lparr> no_now = now, no_output = output, no_error = None,
          no_selectedTargetKey = or_else selected (n_selectedTargetKey n),
          no_startedAt = or_else (n_startedAt n) (Some now), no_completedAt = Some now \<rparr>)"

definition WorkflowNodeRun_markFailed ::
    "workflow_node_run \<Rightarrow> js_date \<Rightarrow> workflow_run_error \<Rightarrow> osva_error + workflow_node_run" where
  "WorkflowNodeRun_markFailed n now err = WorkflowNodeRun_transitionTo n NR_FAILED
     \<lparr> no_now = now, no_output = JUndefined, no_error = Some err, no_selectedTargetKey = None,
       no_startedAt = or_else (n_startedAt n) (Some now), no_completedAt = Some now \<rparr>"

definition WorkflowNodeRun_markSkipped ::
    "workflow_node_run \<Rightarrow> js_date \<Rightarrow> osva_error + workflow_node_run" where
  "WorkflowNodeRun_markSkipped n now = WorkflowNodeRun_transitionTo n NR_SKIPPED
     \<lparr> no_now = now, no_output = JUndefined, no_error = None, no_selectedTargetKey = None,
       no_startedAt = None, no_completedAt = Some now \<rparr>"

lemmas WorkflowNodeRun_marks = WorkflowNodeRun_markRunning_def WorkflowNodeRun_markWaiting_def
  WorkflowNodeRun_markCancelled_def WorkflowNodeRun_markFailed_def WorkflowNodeRun_markSkipped_def

subsection \<open>The history of a node run\<close>

inductive node_change :: "workflow_node_run \<Rightarrow> workflow_node_run \<Rightarrow> bool" where
  node_running: "WorkflowNodeRun_markRunning n now = Inr m \<Longrightarrow> node_change n m"
| node_waiting: "WorkflowNodeRun_markWaiting n now = Inr m \<Longrightarrow> node_change n m"
| node_cancelled: "WorkflowNodeRun_markCancelled n now = Inr m \<Longrightarrow> node_change n m"
| node_succeeded: "WorkflowNodeRun_markSucceeded n now out sel = Inr m \<Longrightarrow> node_change n m"
| node_failed: "WorkflowNodeRun_markFailed n now err = Inr m \<Longrightarrow> node_change n m"
| node_skipped: "WorkflowNodeRun_markSkipped n now = Inr m \<Longrightarrow> node_change n m"
| node_child: "WorkflowNodeRun_withChildRunId n c now = Inr m \<Longrightarrow> node_change n m"

inductive node_reachable :: "workflow_node_run \<Rightarrow> bool" where
  new_node: "WorkflowNodeRun_create p = Inr n \<Longrightarrow> node_reachable n"
| new_skipped: "WorkflowNodeRun_createSkipped p = Inr n \<Longrightarrow> node_reachable n"
| changed_node: "node_reachable n \<Longrightarrow> node_change n m \<Longrightarrow> node_reachable m"

lemma workflow_node_run_state_name_eq [simp]:
  "workflow_node_run_state_name s = workflow_node_run_state_name t \<longleftrightarrow> s = t"
  by (auto dest: node_run_lc.name_inj)

lemma node_name_eqs [simp]:
  "''PENDING'' = workflow_node_run_state_name s \<longleftrightarrow> s = NR_PENDING"
  "''SKIPPED'' = workflow_node_run_state_name s \<longleftrightarrow> s = NR_SKIPPED"
  by (cases s; simp)+

lemma WorkflowNodeRun_instantiate_Inr:
  assumes "WorkflowNodeRun_instantiate p = Inr n"
  shows "n_id n = n_id p \<and> n_workspaceId n = n_workspaceId p \<and> n_workflowRunId n = n_workflowRunId p
    \<and> n_workflowNodeKey n = n_workflowNodeKey p \<and> n_sequence n = n_sequence p
    \<and> n_status p = workflow_node_run_state_name (n_status n) \<and> n_childRunId n = n_childRunId p
    \<and> n_selectedTargetKey n = n_selectedTargetKey p \<and> n_startedAt n = n_startedAt p
    \<and> n_completedAt n = n_completedAt p \<and> n_createdAt n = n_createdAt p
    \<and> n_updatedAt n = n_updatedAt p \<and> n_error n = n_error p
    \<and> 1 \<le> n_sequence n \<and> date_le (n_createdAt n) (n_updatedAt n) \<and> \<not> js_blank (n_workflowNodeKey n)"
  using assms
  by (auto simp: WorkflowNodeRun_instantiate_def result_simps date_not_lt
      dest: node_run_lc.state_of_string_Some split: if_splits option.splits)

lemma WorkflowNodeRun_transitionTo_Inr:
  assumes "WorkflowNodeRun_transitionTo n target opts = Inr m"
  shows "(n_status n, target) \<in> set LEGAL_WORKFLOW_NODE_RUN_TRANSITIONS \<and> n_status m = target
    \<and> n_id m = n_id n \<and> n_workspaceId m = n_workspaceId n \<and> n_workflowRunId m = n_workflowRunId n
    \<and> n_workflowNodeKey m = n_workflowNodeKey n \<and> n_sequence m = n_sequence n
    \<and> n_childRunId m = n_childRunId n
    \<and> n_selectedTargetKey m = or_else (no_selectedTargetKey opts) (n_selectedTargetKey n)
    \<and> n_startedAt m = or_else (no_startedAt opts) (n_startedAt n)
    \<and> n_completedAt m = or_else (no_completedAt opts) (n_completedAt n)"
  using assms unfolding WorkflowNodeRun_transitionTo_def after_check_Inr
  by (elim conjE, drule_tac WorkflowNodeRun_instantiate_Inr)
     (auto simp: WorkflowNodeRun_copyProps_def assertLegalWorkflowNodeRunTransition_def
       isLegalWorkflowNodeRunTransition_def node_run_lc.legal_by_key_iff split: if_splits)

definition node_timeline :: "workflow_node_run \<Rightarrow> bool" where
  "node_timeline n \<longleftrightarrow>
     (n_startedAt n = None \<longleftrightarrow> n_status n = NR_PENDING \<or> n_status n = NR_SKIPPED)
     \<and> (n_completedAt n \<noteq> None \<longleftrightarrow> isTerminalWorkflowNodeRunState (n_status n))"

lemmas node_status_simps = isTerminalWorkflowNodeRunState_def TERMINAL_WORKFLOW_NODE_RUN_STATES_def

lemma node_transition_inv:
  assumes "WorkflowNodeRun_transitionTo n target opts = Inr m" "node_timeline n"
    and "target \<noteq> NR_SKIPPED \<longleftrightarrow> no_startedAt opts \<noteq> None"
    and "isTerminalWorkflowNodeRunState target \<longleftrightarrow> no_completedAt opts \<noteq> None"
  shows "node_timeline m"
  using WorkflowNodeRun_transitionTo_Inr [OF assms(1)] assms(2-4)
  by (cases target) (auto simp: node_timeline_def node_status_simps LEGAL_WORKFLOW_NODE_RUN_TRANSITIONS_def)

lemma withChildRunId_Inr:
  assumes "WorkflowNodeRun_withChildRunId n c now = Inr m"
  shows "n_status m = n_status n \<and> n_id m = n_id n \<and> n_workspaceId m = n_workspaceId n
    \<and> n_workflowRunId m = n_workflowRunId n
    \<and> n_workflowNodeKey m = n_workflowNodeKey n \<and> n_sequence m = n_sequence n
    \<and> n_childRunId m = Some c \<and> (n_childRunId n = None \<or> m = n)
    \<and> n_selectedTargetKey m = n_selectedTargetKey n
    \<and> n_startedAt m = n_startedAt n \<and> n_completedAt m = n_completedAt n"
  using assms unfolding WorkflowNodeRun_withChildRunId_def
  by (auto simp: WorkflowNodeRun_copyProps_def split: option.splits if_splits
      dest!: WorkflowNodeRun_instantiate_Inr)

lemma node_change_timeline: "node_change n m \<Longrightarrow> node_timeline n \<Longrightarrow> node_timeline m"
proof (induction rule: node_change.induct)
  case (node_succeeded n now out sel m)
  then show ?case
    by (auto simp: WorkflowNodeRun_markSucceeded_def node_status_simps split: if_splits
        elim!: node_transition_inv)
next
  case (node_child n c now m)
  then show ?case by (auto simp: node_timeline_def dest!: withChildRunId_Inr)
qed (auto simp: WorkflowNodeRun_marks node_status_simps elim!: node_transition_inv)

text \<open>
  Whatever happens to a node run, its timeline is consistent: it has a start time exactly
  when it left PENDING other than by being skipped, and a completion time exactly when it is
  in a terminal state.
\<close>

theorem node_reachable_timeline:
  assumes "node_reachable n"
  shows "node_timeline n"
  using assms
proof (induction rule: node_reachable.induct)
  case (new_node p n)
  then show ?case
    by (auto simp: WorkflowNodeRun_create_def node_timeline_def node_status_simps
        dest!: WorkflowNodeRun_instantiate_Inr)
next
  case (new_skipped p n)
  then show ?case
    by (auto simp: WorkflowNodeRun_createSkipped_def node_timeline_def node_status_simps
        dest!: WorkflowNodeRun_instantiate_Inr)
qed (rule node_change_timeline)

lemma node_change_keeps:
  "node_change n m \<Longrightarrow>
     n_id m = n_id n \<and> n_workflowRunId m = n_workflowRunId n \<and> n_workflowNodeKey m = n_workflowNodeKey n
     \<and> n_sequence m = n_sequence n
     \<and> (n_childRunId n \<noteq> None \<longrightarrow> n_childRunId m = n_childRunId n)
     \<and> (n_selectedTargetKey n \<noteq> None \<longrightarrow> n_selectedTargetKey m = n_selectedTargetKey n)
     \<and> (isTerminalWorkflowNodeRunState (n_status n) \<longrightarrow> n_status m = n_status n)"
proof (induction rule: node_change.induct)
  case (node_succeeded n now out sel m)
  then show ?case
    by (auto simp: WorkflowNodeRun_markSucceeded_def node_status_simps
        LEGAL_WORKFLOW_NODE_RUN_TRANSITIONS_def or_else_def split: if_splits option.splits
        dest!: WorkflowNodeRun_transitionTo_Inr)
next
  case (node_child n c now m)
  then show ?case by (auto dest!: withChildRunId_Inr)
qed (auto simp: WorkflowNodeRun_marks node_status_simps LEGAL_WORKFLOW_NODE_RUN_TRANSITIONS_def
      dest!: WorkflowNodeRun_transitionTo_Inr)

text \<open>
  A node run keeps what was decided about it: over any sequence of changes its identity,
  node and sequence number stay, the child run it was bound to and the branch target it selected
  are never replaced, and a terminal status is final.
\<close>

theorem node_decisions_stable:
  assumes "node_change\<^sup>*\<^sup>* n m"
  shows "n_id m = n_id n \<and> n_workflowNodeKey m = n_workflowNodeKey n \<and> n_sequence m = n_sequence n
     \<and> (\<forall>c. n_childRunId n = Some c \<longrightarrow> n_childRunId m = Some c)
     \<and> (\<forall>k. n_selectedTargetKey n = Some k \<longrightarrow> n_selectedTargetKey m = Some k)
     \<and> (isTerminalWorkflowNodeRunState (n_status n) \<longrightarrow> n_status m = n_status n)"
  using assms by (induction rule: rtranclp_induct) (auto dest!: node_change_keeps)

definition sample_node :: "string \<Rightarrow> workflow_node_run_state \<Rightarrow> workflow_node_run" where
  "sample_node key s =
     \<lparr> n_id = ''n1'', n_workspaceId = ''ws'', n_workflowRunId = ''wr'', n_workflowNodeKey = key,
       n_sequence = 1, n_status = s, n_input = JNull, n_output = JUndefined, n_childRunId = None,
       n_selectedTargetKey = None, n_error = None, n_startedAt = None, n_completedAt = None,
       n_createdAt = DateMs 1, n_updatedAt = DateMs 1 \<rparr>"

theorem node_reachable_timeline_witness:
  "node_reachable (sample_node ''k'' NR_PENDING) \<and> node_timeline (sample_node ''k'' NR_PENDING)"
proof -
  have "WorkflowNodeRun_create \<lparr> nc_id = ''n1'', nc_workspaceId = ''ws'', nc_workflowRunId = ''wr'',
      nc_workflowNodeKey = ''k'', nc_sequence = 1, nc_input = JNull, nc_createdAt = DateMs 1 \<rparr>
    = Inr (sample_node ''k'' NR_PENDING)"
    by code_simp
  then have "node_reachable (sample_node ''k'' NR_PENDING)" by (rule new_node)
  with node_reachable_timeline [OF this] show ?thesis by blast
qed

theorem node_decisions_stable_witness:
  "\<exists>m. node_change\<^sup>*\<^sup>* (sample_node ''k'' NR_PENDING) m \<and> n_childRunId m = Some ''run-1''
     \<and> (\<forall>m'. node_change\<^sup>*\<^sup>* m m' \<longrightarrow> n_childRunId m' = Some ''run-1'')"
proof -
  let ?m = "sample_node ''k'' NR_PENDING\<lparr> n_childRunId := Some ''run-1'', n_updatedAt := DateMs 2 \<rparr>"
  have "WorkflowNodeRun_withChildRunId (sample_node ''k'' NR_PENDING) ''run-1'' (DateMs 2) = Inr ?m"
    by code_simp
  then have "node_change (sample_node ''k'' NR_PENDING) ?m" by (rule node_child)
  then show ?thesis
    using node_decisions_stable [of ?m] by (intro exI [of _ ?m]) auto
qed

end
