(* ===== verification/Workflow_Readiness.thy ===== *)
theory Workflow_Readiness
  imports Workflow_Chain Workflow_Run_Model
begin

text \<open>
  Which nodes of a workflow may start (\<open>domain/src/workflow-readiness.ts\<close>) and which edge a
  branch takes (\<open>domain/src/workflow-branch.ts\<close>). Node runs are a map from node keys.
\<close>

type_synonym node_runs = "(string, workflow_node_run) js_map"

definition nodeRunsByKey :: "workflow_node_run list \<Rightarrow> node_runs" where
  "nodeRunsByKey runs = foldl (\<lambda>m n. AList.update (n_workflowNodeKey n) n m) [] runs"

subsection \<open>Branches (workflow-branch.ts)\<close>

definition branchValuesEqual :: "jsv \<Rightarrow> jsv \<Rightarrow> bool" where
  "branchValuesEqual left right = (left = right)"

definition selectBranchTarget :: "string \<Rightarrow> (jsv \<times> string) list \<Rightarrow> string \<Rightarrow> jsv \<Rightarrow> string" where
  "selectBranchTarget selector cases defaultTo input =
     (case resolveJsonPointer input selector of
        None \<Rightarrow> defaultTo
      | Some v \<Rightarrow>
          if \<not> isBranchEqualsValue v then defaultTo
          else (case find (\<lambda>c. branchValuesEqual (fst c) v) cases of
                  None \<Rightarrow> defaultTo
                | Some c \<Rightarrow> snd c))"

subsection \<open>Readiness (workflow-readiness.ts)\<close>

datatype activity = Active | Inactive | Undecided | Failed

definition predecessorActivity :: "workflow_graph \<Rightarrow> string \<Rightarrow> string \<Rightarrow> node_runs \<Rightarrow> activity" where
  "predecessorActivity g predecessorKey nodeKey runs =
     (case map_of runs predecessorKey of
        None \<Rightarrow> Undecided
      | Some p \<Rightarrow>
          if n_status p = NR_FAILED then Failed
          else if n_status p = NR_SKIPPED then Inactive
          else if n_status p \<noteq> NR_SUCCEEDED then Undecided
          else (case map_option wn_body (map_of (g_nodesByKey g) predecessorKey) of
                  Some (Node_BRANCH selector cases defaultTo) \<Rightarrow>
                    if n_selectedTargetKey p = Some nodeKey then Active
                    else if n_selectedTargetKey p = None \<and> defaultTo = nodeKey then Undecided
                    else if n_selectedTargetKey p = None then Undecided else Inactive
                | _ \<Rightarrow> Active))"

definition isNodeSkippable :: "workflow_graph \<Rightarrow> string \<Rightarrow> node_runs \<Rightarrow> bool" where
  "isNodeSkippable g nodeKey runs =
     (let incoming = neighbours (g_incoming g) nodeKey
      in if length incoming = 0 then False
         else (\<forall>p\<in>set incoming. predecessorActivity g p nodeKey runs = Inactive))"

definition status_of :: "node_runs \<Rightarrow> string \<Rightarrow> workflow_node_run_state option" where
  "status_of runs k = map_option n_status (map_of runs k)"

definition isNodeReady :: "workflow_graph \<Rightarrow> string \<Rightarrow> node_runs \<Rightarrow> bool" where
  "isNodeReady g nodeKey runs =
     (if (case status_of runs nodeKey of None \<Rightarrow> False | Some s \<Rightarrow> isTerminalWorkflowNodeRunState s)
      then False
      else if isNodeSkippable g nodeKey runs then False
      else case map_of (g_nodesByKey g) nodeKey of
        None \<Rightarrow> False
      | Some node \<Rightarrow>
          let incoming = predecessorKeysInDefinitionOrder g nodeKey
          in if wn_body node = Node_JOIN
             then (if \<exists>p\<in>set incoming. (case status_of runs p of None \<Rightarrow> True
                        | Some s \<Rightarrow> \<not> isTerminalWorkflowNodeRunState s) then False
                   else if \<exists>p\<in>set incoming. status_of runs p = Some NR_FAILED then False
                   else (\<exists>p\<in>set incoming. status_of runs p = Some NR_SUCCEEDED))
             else (case incoming of
                     [] \<Rightarrow> True
                   | p # ps \<Rightarrow> status_of runs p = Some NR_SUCCEEDED))"

definition or_null :: "jsv \<Rightarrow> jsv" where
  "or_null v = (if v = JUndefined then JNull else v)"

definition inputForNode :: "workflow_graph \<Rightarrow> string \<Rightarrow> node_runs \<Rightarrow> jsv \<Rightarrow> jsv" where
  "inputForNode g nodeKey runs workflowInput =
     (let incoming = predecessorKeysInDefinitionOrder g nodeKey
      in case incoming of
           [] \<Rightarrow> workflowInput
         | p # ps \<Rightarrow>
             if map_option wn_body (map_of (g_nodesByKey g) nodeKey) = Some Node_JOIN
             then assign_entries (property_order (List.concat (List.map (\<lambda>q.
                    case map_of runs q of
                      Some run \<Rightarrow> if n_status run = NR_SUCCEEDED then [(q, or_null (n_output run))] else []
                    | None \<Rightarrow> []) incoming)))
             else (case map_of runs p of
                     None \<Rightarrow> workflowInput
                   | Some run \<Rightarrow>
                       if n_status run = NR_SUCCEEDED then or_null (n_output run)
                       else if n_input run = JUndefined \<or> n_input run = JNull then workflowInput
                       else n_input run))"

definition hasFailedNode :: "node_runs \<Rightarrow> workflow_node_run option" where
  "hasFailedNode runs = find (\<lambda>n. n_status n = NR_FAILED) (map_values runs)"

fun blocked_loop ::
    "workflow_graph \<Rightarrow> node_runs \<Rightarrow> (string \<times> wf_node) list \<Rightarrow> bool \<Rightarrow> bool" where
  "blocked_loop g runs [] waiting = waiting"
| "blocked_loop g runs ((nodeKey, node) # rest) waiting =
     (let existing = status_of runs nodeKey
      in if existing = Some NR_WAITING then blocked_loop g runs rest True
         else if (case existing of None \<Rightarrow> False | Some s \<Rightarrow> isTerminalWorkflowNodeRunState s)
         then blocked_loop g runs rest waiting
         else if node_type (wn_body node) = ''APPROVAL'' \<or> node_type (wn_body node) = ''WAIT''
         then (if existing \<noteq> None \<or> isNodeReady g nodeKey runs then False
               else blocked_loop g runs rest waiting)
         else if existing = Some NR_PENDING \<or> existing = Some NR_RUNNING then False
         else if isNodeReady g nodeKey runs then False
         else blocked_loop g runs rest waiting)"

definition isWorkflowBlockedOnSuspension :: "workflow_graph \<Rightarrow> node_runs \<Rightarrow> bool" where
  "isWorkflowBlockedOnSuspension g runs = blocked_loop g runs (g_nodesByKey g) False"

subsection \<open>Facts of accepted graphs\<close>

lemma dag_accepted:
  assumes "buildWorkflowGraph d = Inr g" "\<not> isWorkflowDefinitionV1 d"
  shows "\<exists>entry terminal. dag_graph_ok (wd_nodes d) (wd_edges d) entry terminal"
proof -
  have "assertWorkflowDefinition d = None" using buildWorkflowGraph_Inr [OF assms(1)] by simp
  with assms(2) have "assertDagWorkflowGraphStructure (wd_nodes d) (wd_edges d) = None"
    by (auto simp: assertWorkflowDefinition_def assertDagWorkflowDefinition_def
        assertDagWorkflowDefinitionV3_def split: if_splits option.splits)
  then show ?thesis by (simp add: dag_structure_accepts)
qed

lemma topology_preds:
  "assertDagNodeTopology n i j isE isT ts = None \<Longrightarrow> (isE \<longrightarrow> i = 0) \<Longrightarrow>
     (wn_body n = Node_JOIN \<longrightarrow> 2 \<le> i) \<and> (wn_body n \<noteq> Node_JOIN \<longrightarrow> i \<le> 1 \<or> (\<exists>t. wn_body n = Node_OTHER t))"
  by (auto simp: assertDagNodeTopology_def check_single_path_def split: node_body.splits if_splits)

lemma covered_targets:
  "check_branch_targets key cases ts = None \<Longrightarrow> c \<in> set cases \<Longrightarrow> snd c \<in> set ts"
  by (induction key cases ts rule: check_branch_targets.induct) (auto split: if_splits)

lemma topology_branch:
  "assertDagNodeTopology n i j isE isT ts = None \<Longrightarrow> wn_body n = Node_BRANCH selector cases defaultTo \<Longrightarrow>
     defaultTo \<in> set ts \<and> (\<forall>c\<in>set cases. snd c \<in> set ts)"
  by (auto simp: assertDagNodeTopology_def covered_targets split: if_splits option.splits)

text \<open>
  A branch of an accepted graph always continues along an edge of the graph, whatever its
  input: the selected target is a successor of the branch node.
\<close>

theorem selectBranchTarget_edge:
  assumes "assertDagWorkflowGraphStructure nodes edges = None"
    and "n \<in> set nodes" "wn_body n = Node_BRANCH selector cases defaultTo"
  shows "selectBranchTarget selector cases defaultTo input \<in> set (succs edges (wn_key n))"
proof -
  from assms(1) obtain e t where "dag_graph_ok nodes edges e t"
    by (auto simp: dag_structure_accepts)
  with assms(2) have "assertDagNodeTopology n (length (preds edges (wn_key n)))
      (length (succs edges (wn_key n))) (wn_key n = wn_key e) (wn_key n = wn_key t)
      (succs edges (wn_key n)) = None"
    by (auto simp: dag_graph_ok_def)
  from topology_branch [OF this assms(3)] show ?thesis
    by (fastforce simp: selectBranchTarget_def split: option.splits dest: find_Some_mem)
qed

subsection \<open>Progress\<close>

definition settled :: "node_runs \<Rightarrow> bool" where
  "settled runs \<longleftrightarrow> (\<forall>n\<in>set (map_values runs). n_status n = NR_SUCCEEDED \<or> n_status n = NR_SKIPPED)"

lemma settled_status:
  "settled runs \<Longrightarrow> status_of runs k = Some s \<Longrightarrow> s = NR_SUCCEEDED \<or> s = NR_SKIPPED"
  by (auto simp: settled_def status_of_def dest!: map_of_SomeD_snd)

lemma skipped_inactive: "status_of runs p = Some NR_SKIPPED \<Longrightarrow> predecessorActivity g p k runs = Inactive"
  by (auto simp: status_of_def predecessorActivity_def)

definition known_types :: "workflow_definition \<Rightarrow> bool" where
  "known_types d \<longleftrightarrow> (\<forall>n\<in>set (wd_nodes d). \<forall>t. wn_body n \<noteq> Node_OTHER t)"

lemma dag_degrees:
  assumes ok: "dag_graph_ok (wd_nodes d) (wd_edges d) entry terminal"
    and n: "n \<in> set (wd_nodes d)" and k: "known_types d"
  defines "P \<equiv> preds (wd_edges d) (wn_key n)"
  shows "(wn_body n = Node_JOIN \<longrightarrow> 2 \<le> length P) \<and> (wn_body n \<noteq> Node_JOIN \<longrightarrow> length P \<le> 1)"
proof -
  have top: "assertDagNodeTopology n (length P) (length (succs (wd_edges d) (wn_key n)))
      (wn_key n = wn_key entry) (wn_key n = wn_key terminal) (succs (wd_edges d) (wn_key n)) = None"
    using ok n by (simp add: dag_graph_ok_def P_def)
  have "entry \<in> set (filter (\<lambda>n. preds (wd_edges d) (wn_key n) = []) (wd_nodes d))"
    using ok by (simp add: dag_graph_ok_def)
  then have "wn_key n = wn_key entry \<longrightarrow> length P = 0"
    by (simp add: P_def)
  from topology_preds [OF top this] n k show ?thesis by (auto simp: known_types_def)
qed

lemma dag_types:
  assumes "buildWorkflowGraph d = Inr g" "\<not> isWorkflowDefinitionV1 d"
  shows "known_types d"
proof -
  have "assertWorkflowDefinition d = None" using buildWorkflowGraph_Inr [OF assms(1)] by simp
  with assms(2) have "\<forall>n\<in>set (wd_nodes d). assertV2Node n = None \<or> assertV3Node n = None"
    by (auto simp: assertWorkflowDefinition_def assertDagWorkflowDefinition_def
        assertDagWorkflowDefinitionV3_def split: if_splits option.splits)
  moreover have "assertV2Node n \<noteq> None" "assertV3Node n \<noteq> None" if "wn_body n = Node_OTHER t" for n t
    using that by (simp_all add: assertV2Node_def assertV3Node_def assertV3NodeForGraphTopology_def
        split: option.splits)
  ultimately show ?thesis unfolding known_types_def by blast
qed

lemma sequential_no_join:
  assumes "assertSequentialWorkflowDefinition d = None" "n \<in> set (wd_nodes d)"
  shows "wn_body n \<noteq> Node_JOIN"
proof -
  obtain m where "index_nodes assertAgentNode (wd_nodes d) [] = Inr m"
    using assms(1) by (auto simp: assertSequentialWorkflowDefinition_def split: if_splits sum.splits)
  then have "assertAgentNode n = None" using index_nodes_Inr [of "[]" assertAgentNode] assms(2) by simp
  then show ?thesis
    by (auto simp: assertAgentNode_def WORKFLOW_EXECUTABLE_NODE_TYPES_def split: option.splits if_splits)
qed

text \<open>
  What the three schema versions have in common: a join has two predecessors at least, every other
  node one at most, and following the edges ends.
\<close>

lemma accepted_sequential:
  "buildWorkflowGraph d = Inr g \<Longrightarrow> isWorkflowDefinitionV1 d \<Longrightarrow> assertSequentialWorkflowDefinition d = None"
  using buildWorkflowGraph_Inr by (fastforce simp: assertWorkflowDefinition_def)

lemma accepted_preds:
  assumes g: "buildWorkflowGraph d = Inr g" and n: "n \<in> set (wd_nodes d)"
  shows "wn_body n = Node_JOIN \<Longrightarrow> 2 \<le> length (preds (wd_edges d) (wn_key n))"
    and "wn_body n \<noteq> Node_JOIN \<Longrightarrow> length (preds (wd_edges d) (wn_key n)) \<le> 1"
proof -
  have "(wn_body n = Node_JOIN \<longrightarrow> 2 \<le> length (preds (wd_edges d) (wn_key n)))
    \<and> (wn_body n \<noteq> Node_JOIN \<longrightarrow> length (preds (wd_edges d) (wn_key n)) \<le> 1)"
  proof (cases "isWorkflowDefinitionV1 d")
    case True
    note s = accepted_sequential [OF g True]
    show ?thesis using sequential_indegree [OF s] sequential_no_join [OF s n] by simp
  next
    case False
    obtain entry terminal where "dag_graph_ok (wd_nodes d) (wd_edges d) entry terminal"
      using dag_accepted [OF g False] by blast
    from dag_degrees [OF this n dag_types [OF g False]] show ?thesis .
  qed
  then show "wn_body n = Node_JOIN \<Longrightarrow> 2 \<le> length (preds (wd_edges d) (wn_key n))"
    and "wn_body n \<noteq> Node_JOIN \<Longrightarrow> length (preds (wd_edges d) (wn_key n)) \<le> 1" by blast+
qed

lemma accepted_wf:
  assumes "buildWorkflowGraph d = Inr g"
  shows "wf (edge_pairs (wd_edges d))"
proof (cases "isWorkflowDefinitionV1 d")
  case True
  then show ?thesis by (intro sequential_wf accepted_sequential [OF assms])
next
  case False
  then obtain entry terminal where "dag_graph_ok (wd_nodes d) (wd_edges d) entry terminal"
    using dag_accepted [OF assms] by blast
  then show ?thesis by (intro finite_acyclic_wf) (auto simp: dag_graph_ok_def edge_pairs_def)
qed

lemma ready_or_skippable:
  assumes g: "buildWorkflowGraph d = Inr g"
    and s: "settled runs" and n: "n \<in> set (wd_nodes d)" "map_of runs (wn_key n) = None"
    and p: "\<forall>p\<in>set (preds (wd_edges d) (wn_key n)). map_of runs p \<noteq> None"
  shows "isNodeReady g (wn_key n) runs = (\<not> isNodeSkippable g (wn_key n) runs)"
proof -
  let ?P = "preds (wd_edges d) (wn_key n)"
  note e = graph_edges [OF g, of "wn_key n"]
  note t = accepted_preds [OF g n(1)]
  have st: "status_of runs q = Some NR_SUCCEEDED \<or> status_of runs q = Some NR_SKIPPED"
    if "q \<in> set ?P" for q
  proof -
    have "map_of runs q \<noteq> None" using p that by (rule bspec)
    then obtain r where "map_of runs q = Some r" by (cases "map_of runs q") simp_all
    then have "status_of runs q = Some (n_status r)" by (simp add: status_of_def)
    with settled_status [OF s this] show ?thesis by auto
  qed
  have all_skipped: "?P \<noteq> [] \<Longrightarrow> \<forall>p\<in>set ?P. status_of runs p = Some NR_SKIPPED \<Longrightarrow>
      isNodeSkippable g (wn_key n) runs"
    using e by (auto simp: isNodeSkippable_def skipped_inactive)
  have node: "map_of (g_nodesByKey g) (wn_key n) = Some n" "status_of runs (wn_key n) = None"
    using e n by (auto simp: status_of_def)
  show ?thesis
  proof (cases "isNodeSkippable g (wn_key n) runs")
    case True
    then show ?thesis by (simp add: isNodeReady_def)
  next
    case False
    show ?thesis
    proof (cases "wn_body n = Node_JOIN")
      case True
      have "?P \<noteq> []" using t(1) [OF True] by auto
      with all_skipped False st obtain q where q: "q \<in> set ?P" "status_of runs q = Some NR_SUCCEEDED"
        by blast
      have P: "set (predecessorKeysInDefinitionOrder g (wn_key n)) = set ?P" using e by blast
      have 1: "\<not> (\<exists>p\<in>set ?P. (case status_of runs p of None \<Rightarrow> True
          | Some s \<Rightarrow> \<not> isTerminalWorkflowNodeRunState s))"
      proof
        assume "\<exists>p\<in>set ?P. (case status_of runs p of None \<Rightarrow> True
          | Some s \<Rightarrow> \<not> isTerminalWorkflowNodeRunState s)"
        then obtain p' where "p' \<in> set ?P" "case status_of runs p' of None \<Rightarrow> True
          | Some s \<Rightarrow> \<not> isTerminalWorkflowNodeRunState s" by blast
        with st [of p'] show False by (auto simp: node_status_simps)
      qed
      have 2: "\<not> (\<exists>p\<in>set ?P. status_of runs p = Some NR_FAILED)"
        using st by fastforce
      have 3: "\<exists>p\<in>set ?P. status_of runs p = Some NR_SUCCEEDED" using q by blast
      have "isNodeReady g (wn_key n) runs"
        unfolding isNodeReady_def node option.case Let_def P
        using True False 1 2 3 by simp
      with False show ?thesis by simp
    next
      case nj: False
      then have "?P = [] \<or> (\<exists>q. ?P = [q])" using t(2) by (cases ?P; cases "tl ?P") auto
      then show ?thesis
      proof
        assume "?P = []"
        then have "predecessorKeysInDefinitionOrder g (wn_key n) = []"
          using e by (simp add: predecessorKeysInDefinitionOrder_def)
        with False node nj show ?thesis by (simp add: isNodeReady_def)
      next
        assume "\<exists>q. ?P = [q]"
        then obtain q where q: "?P = [q]" ..
        then have "predecessorKeysInDefinitionOrder g (wn_key n) = [q]"
          using e by (simp add: predecessorKeysInDefinitionOrder_def)
        moreover have "status_of runs q = Some NR_SUCCEEDED"
          using st [of q] all_skipped False q by auto
        ultimately show ?thesis using False node nj by (simp add: isNodeReady_def)
      qed
    qed
  qed
qed

text \<open>
  C19. Workflows make progress: in an accepted graph, of any of the three schema versions, whose
  node runs have all succeeded or been skipped, as long as a node has no run there is one without
  a run that is ready or skippable.
\<close>

theorem workflow_progress:
  assumes g: "buildWorkflowGraph d = Inr g"
    and s: "settled runs" and some: "n \<in> set (wd_nodes d)" "map_of runs (wn_key n) = None"
  shows "\<exists>m\<in>set (wd_nodes d). map_of runs (wn_key m) = None
    \<and> (isNodeReady g (wn_key m) runs \<or> isNodeSkippable g (wn_key m) runs)"
proof -
  let ?open = "{k \<in> wn_key ` set (wd_nodes d). map_of runs k = None}"
  note wf = accepted_wf [OF g]
  have "wn_key n \<in> ?open" using some by auto
  with wf obtain k where k: "k \<in> ?open" "\<And>q. (q, k) \<in> edge_pairs (wd_edges d) \<Longrightarrow> q \<notin> ?open"
    by (rule wfE_min) blast
  then obtain m where m: "m \<in> set (wd_nodes d)" "k = wn_key m" "map_of runs (wn_key m) = None" by auto
  have "map_of runs p \<noteq> None" if "p \<in> set (preds (wd_edges d) (wn_key m))" for p
  proof -
    from that obtain e where e: "e \<in> set (wd_edges d)" "we_to e = wn_key m" "we_from e = p"
      by (auto simp: preds_def)
    then have "(p, k) \<in> edge_pairs (wd_edges d)" using m(2) by (force simp: edge_pairs_def)
    moreover have "p \<in> wn_key ` set (wd_nodes d)"
      using assertWorkflowDefinition_distinct [OF conjunct1 [OF buildWorkflowGraph_Inr [OF g]]] e
      by (auto simp: edge_ok_def)
    ultimately show ?thesis using k(2) [of p] by auto
  qed
  with ready_or_skippable [OF g s m(1,3)] m show ?thesis by blast
qed

text \<open>
  C22. Once a branch has decided, the paths it did not take are skipped: for every successor of the
  branch node other than the selected one the branch counts as an inactive predecessor, so that
  the successor is skippable and never ready; a join that the branch leads to directly is
  skippable exactly when all its other predecessors are inactive too.
\<close>

theorem unselected_paths_skipped:
  assumes g: "buildWorkflowGraph d = Inr g"
    and b: "b \<in> set (wd_nodes d)" "wn_body b = Node_BRANCH selector cases defaultTo"
    and r: "map_of runs (wn_key b) = Some r" "n_status r = NR_SUCCEEDED" "n_selectedTargetKey r = Some t"
    and n: "n \<in> set (wd_nodes d)" "wn_key n \<in> set (succs (wd_edges d) (wn_key b))" "wn_key n \<noteq> t"
  shows "predecessorActivity g (wn_key b) (wn_key n) runs = Inactive
    \<and> (if wn_body n = Node_JOIN
       then isNodeSkippable g (wn_key n) runs = (\<forall>p\<in>set (preds (wd_edges d) (wn_key n)) - {wn_key b}.
         predecessorActivity g p (wn_key n) runs = Inactive)
       else isNodeSkippable g (wn_key n) runs \<and> \<not> isNodeReady g (wn_key n) runs)"
proof -
  let ?P = "preds (wd_edges d) (wn_key n)"
  have p: "wn_key b \<in> set ?P" using n(2) by (force simp: succs_def preds_def)
  note e = graph_edges [OF g, of "wn_key n"]
  have "map_of (g_nodesByKey g) (wn_key b) = Some b" using e b(1) by blast
  with b r n(3) have i: "predecessorActivity g (wn_key b) (wn_key n) runs = Inactive"
    by (auto simp: predecessorActivity_def)
  have s: "isNodeSkippable g (wn_key n) runs = (\<forall>p\<in>set ?P. predecessorActivity g p (wn_key n) runs = Inactive)"
    using e p by (auto simp: isNodeSkippable_def Let_def)
  show ?thesis
  proof (cases "wn_body n = Node_JOIN")
    case True
    then show ?thesis using i s by auto
  next
    case False
    have "?P = [wn_key b]" using accepted_preds(2) [OF g n(1) False] p by (cases ?P; cases "tl ?P") auto
    then show ?thesis using False i s by (simp add: isNodeReady_def)
  qed
qed

subsection \<open>A branching definition\<close>

text \<open>
  A branch \<open>b\<close> on \<open>/go\<close> to the agents \<open>x\<close> and \<open>y\<close>, joined in \<open>j\<close>.
\<close>

definition sample_branch :: wf_node where
  "sample_branch = \<lparr> wn_key = ''b'', wn_body = Node_BRANCH ''/go'' [(JBool True, ''x'')] ''y'' \<rparr>"

definition sample_diamond :: workflow_definition where
  "sample_diamond = \<lparr> wd_schemaVersion = ''2'',
     wd_nodes = [sample_branch, sample_agent ''x'', sample_agent ''y'',
       \<lparr> wn_key = ''j'', wn_body = Node_JOIN \<rparr>],
     wd_edges = [sample_edge ''b'' ''x'', sample_edge ''b'' ''y'', sample_edge ''x'' ''j'',
       sample_edge ''y'' ''j''] \<rparr>"

definition branch_done :: node_runs where
  "branch_done = [(''b'', (sample_node ''b'' NR_SUCCEEDED)\<lparr> n_selectedTargetKey := Some ''x'' \<rparr>)]"

lemma sample_diamond_graph: "\<exists>g. buildWorkflowGraph sample_diamond = Inr g"
proof -
  have "case buildWorkflowGraph sample_diamond of Inl e \<Rightarrow> False | Inr g \<Rightarrow> True" by code_simp
  then show ?thesis by (auto split: sum.splits)
qed

lemma sample_diamond_facts:
  "settled branch_done"
  "map_of branch_done ''y'' = None"
  by (simp_all add: settled_def branch_done_def sample_node_def)

theorem selectBranchTarget_edge_witness:
  "selectBranchTarget ''/go'' [(JBool True, ''x'')] ''y'' (JObject [(''go'', JBool True)]) = ''x''
   \<and> ''x'' \<in> set (succs (wd_edges sample_diamond) ''b'')"
proof -
  have "assertDagWorkflowGraphStructure (wd_nodes sample_diamond) (wd_edges sample_diamond) = None"
    by code_simp
  moreover have "sample_branch \<in> set (wd_nodes sample_diamond)" by (simp add: sample_diamond_def)
  moreover have "wn_body sample_branch = Node_BRANCH ''/go'' [(JBool True, ''x'')] ''y''"
    by (simp add: sample_branch_def)
  ultimately have "selectBranchTarget ''/go'' [(JBool True, ''x'')] ''y'' (JObject [(''go'', JBool True)])
      \<in> set (succs (wd_edges sample_diamond) (wn_key sample_branch))"
    by (rule selectBranchTarget_edge)
  moreover have "selectBranchTarget ''/go'' [(JBool True, ''x'')] ''y'' (JObject [(''go'', JBool True)]) = ''x''"
    by (simp add: selectBranchTarget_def resolveJsonPointer_def isValidJsonPointer_def
        decodeJsonPointerToken_def branchValuesEqual_def)
  ultimately show ?thesis by (simp add: sample_branch_def)
qed

theorem workflow_progress_witness:
  "\<exists>g. buildWorkflowGraph sample_diamond = Inr g
     \<and> (\<exists>m\<in>set (wd_nodes sample_diamond). map_of branch_done (wn_key m) = None
          \<and> (isNodeReady g (wn_key m) branch_done \<or> isNodeSkippable g (wn_key m) branch_done))"
proof -
  obtain g where g: "buildWorkflowGraph sample_diamond = Inr g" using sample_diamond_graph ..
  have "sample_agent ''y'' \<in> set (wd_nodes sample_diamond)" by (simp add: sample_diamond_def)
  from g workflow_progress [OF g sample_diamond_facts(1) this] sample_diamond_facts(2) show ?thesis
    by (auto simp: sample_agent_def)
qed

theorem unselected_paths_skipped_witness:
  "\<exists>g. buildWorkflowGraph sample_diamond = Inr g \<and> isNodeSkippable g ''y'' branch_done"
proof -
  obtain g where g: "buildWorkflowGraph sample_diamond = Inr g" using sample_diamond_graph ..
  let ?n = "sample_agent ''y''" and ?r = "(sample_node ''b'' NR_SUCCEEDED)\<lparr> n_selectedTargetKey := Some ''x'' \<rparr>"
  have n: "?n \<in> set (wd_nodes sample_diamond)" "sample_branch \<in> set (wd_nodes sample_diamond)"
    "wn_key ?n \<in> set (succs (wd_edges sample_diamond) (wn_key sample_branch))" "wn_key ?n \<noteq> ''x''"
    by (simp_all add: sample_diamond_def sample_branch_def sample_agent_def succs_def sample_edge_def)
  have b: "wn_body sample_branch = Node_BRANCH ''/go'' [(JBool True, ''x'')] ''y''"
    and r: "map_of branch_done (wn_key sample_branch) = Some ?r" "n_status ?r = NR_SUCCEEDED"
      "n_selectedTargetKey ?r = Some ''x''"
    by (simp_all add: sample_branch_def branch_done_def sample_node_def)
  from unselected_paths_skipped [OF g n(2) b r n(1,3,4)] g show ?thesis by (auto simp: sample_agent_def)
qed

end
