(* ===== verification/Workflow_Wait.thy ===== *)
theory Workflow_Wait
  imports Workflow_Definition
begin

text \<open>
  Durable waits and the events that end them (\<open>domain/src/workflow-wait.ts\<close>,
  \<open>workflow-wait-event.ts\<close>, \<open>workflow-event.ts\<close>, \<open>workflow-event-wait-resolution.ts\<close>). A wait
  is armed once, from a node's configuration, and resolved at most once: by its timer, by an
  event, by its deadline or by cancellation.
\<close>

subsection \<open>Instants written as text\<close>

text \<open>
  \<open>new Date(s)\<close> for the texts the pattern accepts: the month from 1 to 12 and the day from 1 to
  31, where a day past the end of the month counts on into the next; the hour below 24, or 24:00
  sharp; milliseconds are the first three digits of the fraction.
\<close>

definition digits_number :: "string \<Rightarrow> int" where
  "digits_number s = foldl (\<lambda>n c. 10 * n + (of_char c - 48)) 0 s"

definition days_before_year :: "int \<Rightarrow> int" where
  "days_before_year y = 365 * (y - 1970) + (y - 1969) div 4 - (y - 1901) div 100 + (y - 1601) div 400"

definition leap_year :: "int \<Rightarrow> bool" where
  "leap_year y = (y mod 4 = 0 \<and> (y mod 100 \<noteq> 0 \<or> y mod 400 = 0))"

definition days_before_month :: "int \<Rightarrow> int \<Rightarrow> int" where
  "days_before_month y m =
     [0, 31, 59, 90, 120, 151, 181, 212, 243, 273, 304, 334] ! nat (m - 1)
     + (if 2 < m \<and> leap_year y then 1 else 0)"

definition parse_instant :: "string \<Rightarrow> js_date" where
  "parse_instant s =
     (let part = (\<lambda>i n. digits_number (take n (drop i s)));
          y = part 0 4; mo = part 5 2; d = part 8 2; h = part 11 2; mi = part 14 2; se = part 17 2;
          fraction = takeWhile is_digit (drop 20 s);
          ms = digits_number (take 3 (fraction @ ''000''))
      in if mo < 1 \<or> 12 < mo \<or> d < 1 \<or> 31 < d \<or> 59 < mi \<or> 59 < se
            \<or> (23 < h \<and> \<not> (h = 24 \<and> mi = 0 \<and> se = 0 \<and> ms = 0))
         then InvalidDate
         else new_Date ((((days_before_year y + days_before_month y mo + (d - 1)) * 24 + h) * 60 + mi)
                * 60000 + se * 1000 + ms))"

subsection \<open>Waits\<close>

datatype wait_kind = Kind_TIMER | Kind_EVENT

datatype wait_resolution = Res_TIMER | Res_EVENT | Res_TIMEOUT | Res_CANCELLED

primrec resolution_name :: "wait_resolution \<Rightarrow> string" where
  "resolution_name Res_TIMER = ''TIMER''"
| "resolution_name Res_EVENT = ''EVENT''"
| "resolution_name Res_TIMEOUT = ''TIMEOUT''"
| "resolution_name Res_CANCELLED = ''CANCELLED''"

record workflow_wait =
  ww_workspaceId :: string
  ww_workflowRunId :: string
  ww_workflowNodeRunId :: string
  ww_kind :: wait_kind
  ww_armedAt :: js_date
  ww_resolvedAt :: "js_date option"
  ww_resolution :: "wait_resolution option"
  ww_resolvedByEventId :: "string option"
  ww_wakeAt :: "js_date option"
  ww_eventSource :: "string option"
  ww_eventType :: "string option"
  ww_correlationKey :: "string option"
  ww_eligibleFrom :: "js_date option"
  ww_expiresAt :: "js_date option"

record arm_command =
  ac_workspaceId :: string
  ac_workflowRunId :: string
  ac_workflowNodeRunId :: string
  ac_workflowRunCreatedAt :: js_date
  ac_wait :: wait_config
  ac_nodeInput :: jsv
  ac_armedAt :: js_date

definition WorkflowWait_freeze :: "workflow_wait \<Rightarrow> osva_error + workflow_wait" where
  "WorkflowWait_freeze p =
     (if ww_resolution p = Some Res_EVENT \<and> ww_resolvedByEventId p = None
      then Inl (DomainInvariantError ''EVENT resolution requires resolvedByEventId.'')
      else if ww_resolution p \<noteq> Some Res_EVENT \<and> ww_resolvedByEventId p \<noteq> None
      then Inl (DomainInvariantError ''resolvedByEventId is only valid for EVENT resolution.'')
      else
        and_then (copyInstant (ww_armedAt p)) (\<lambda>armedAt.
        and_then (copyOptInstant (ww_resolvedAt p)) (\<lambda>resolvedAt.
        and_then (copyOptInstant (ww_wakeAt p)) (\<lambda>wakeAt.
        and_then (copyOptInstant (ww_eligibleFrom p)) (\<lambda>eligibleFrom.
        and_then (copyOptInstant (ww_expiresAt p)) (\<lambda>expiresAt.
          Inr (p\<lparr> ww_armedAt := armedAt, ww_resolvedAt := resolvedAt, ww_wakeAt := wakeAt,
            ww_eligibleFrom := eligibleFrom, ww_expiresAt := expiresAt \<rparr>)))))))"

definition addMilliseconds :: "js_date \<Rightarrow> js_num \<Rightarrow> osva_error + js_date" where
  "addMilliseconds base milliseconds =
     (if \<not> isPositiveSafeInteger milliseconds
      then Inl (DomainInvariantError ''milliseconds must be a positive safe integer.'')
      else
        let result = (case milliseconds of Finite q \<Rightarrow> date_plus base \<lfloor>q\<rfloor> | _ \<Rightarrow> InvalidDate)
        in if \<not> valid_date result
           then Inl (DomainInvariantError ''Timestamp arithmetic produced an invalid Date.'')
           else Inr result)"

definition resolveWaitCorrelationKey :: "wait_correlation \<Rightarrow> jsv \<Rightarrow> osva_error + string" where
  "resolveWaitCorrelationKey correlation nodeInput =
     (case correlation of
        Corr_LITERAL value \<Rightarrow>
          if length value = 0
          then Inl (WorkflowWaitCorrelationResolutionError ''LITERAL correlation must be a non-empty string.'')
          else Inr value
      | Corr_OTHER k \<Rightarrow> Inl (WorkflowWaitCorrelationResolutionError ''Unsupported correlation kind.'')
      | Corr_INPUT_POINTER pointer \<Rightarrow>
          (case resolveJsonPointer nodeInput pointer of
             None \<Rightarrow> Inl (WorkflowWaitCorrelationResolutionError
               (''JSON Pointer '' @ pointer @ '' did not resolve.''))
           | Some (JString s) \<Rightarrow>
               if length s = 0 then Inl (WorkflowWaitCorrelationResolutionError
                 (''JSON Pointer '' @ pointer @ '' resolved to an empty string.''))
               else Inr s
           | Some v \<Rightarrow> Inl (WorkflowWaitCorrelationResolutionError
               (''JSON Pointer '' @ pointer @ '' must resolve to a string.''))))"

definition blank_wait :: "arm_command \<Rightarrow> wait_kind \<Rightarrow> js_date \<Rightarrow> workflow_wait" where
  "blank_wait c kind armedAt =
     \<lparr> ww_workspaceId = ac_workspaceId c, ww_workflowRunId = ac_workflowRunId c,
       ww_workflowNodeRunId = ac_workflowNodeRunId c, ww_kind = kind, ww_armedAt = armedAt,
       ww_resolvedAt = None, ww_resolution = None, ww_resolvedByEventId = None, ww_wakeAt = None,
       ww_eventSource = None, ww_eventType = None, ww_correlationKey = None,
       ww_eligibleFrom = None, ww_expiresAt = None \<rparr>"

definition WorkflowWait_arm :: "arm_command \<Rightarrow> osva_error + workflow_wait" where
  "WorkflowWait_arm c =
     and_then (copyInstant (ac_armedAt c)) (\<lambda>armedAt.
     and_then (copyInstant (ac_workflowRunCreatedAt c)) (\<lambda>workflowRunCreatedAt.
       if date_lt armedAt workflowRunCreatedAt
       then Inl (DomainInvariantError ''workflowRunCreatedAt cannot be later than armedAt.'')
       else case ac_wait c of
         Wait_DURATION durationMs \<Rightarrow>
           and_then (addMilliseconds armedAt durationMs) (\<lambda>wakeAt.
             if date_le wakeAt armedAt
             then Inl (DomainInvariantError ''DURATION wait wakeAt must be after armedAt.'')
             else WorkflowWait_freeze ((blank_wait c Kind_TIMER armedAt)\<lparr> ww_wakeAt := Some wakeAt \<rparr>))
       | Wait_UNTIL until \<Rightarrow>
           if \<not> isValidUtcIso8601Instant until
           then Inl (DomainInvariantError ''UNTIL wait requires a canonical UTC ISO-8601 instant.'')
           else and_then (copyInstant (parse_instant until)) (\<lambda>wakeAt.
             WorkflowWait_freeze ((blank_wait c Kind_TIMER armedAt)\<lparr> ww_wakeAt := Some wakeAt \<rparr>))
       | Wait_OTHER k \<Rightarrow> Inl (DomainInvariantError ''Unsupported WAIT configuration kind.'')
       | Wait_EVENT source eventType correlation timeoutMs \<Rightarrow>
           and_then (resolveWaitCorrelationKey correlation (ac_nodeInput c)) (\<lambda>correlationKey.
           and_then (case timeoutMs of None \<Rightarrow> Inr None
               | Some t \<Rightarrow> and_then (addMilliseconds armedAt t) (\<lambda>d. Inr (Some d))) (\<lambda>expiresAt.
             if (case expiresAt of None \<Rightarrow> False | Some e \<Rightarrow> date_le e armedAt)
             then Inl (DomainInvariantError ''EVENT wait expiresAt must be after armedAt.'')
             else WorkflowWait_freeze ((blank_wait c Kind_EVENT armedAt)
               \<lparr> ww_eventSource := Some source, ww_eventType := Some eventType,
                 ww_correlationKey := Some correlationKey,
                 ww_eligibleFrom := Some workflowRunCreatedAt, ww_expiresAt := expiresAt \<rparr>)))))"

definition armWorkflowWait :: "arm_command \<Rightarrow> osva_error + workflow_wait" where
  "armWorkflowWait c = WorkflowWait_arm c"

definition isActive :: "workflow_wait \<Rightarrow> bool" where
  "isActive w = (ww_resolvedAt w = None)"

definition isTimerDue :: "workflow_wait \<Rightarrow> js_date \<Rightarrow> osva_error + bool" where
  "isTimerDue w now =
     (case ww_wakeAt w of
        None \<Rightarrow> Inr False
      | Some wakeAt \<Rightarrow>
          if ww_kind w \<noteq> Kind_TIMER then Inr False
          else and_then (copyInstant now) (\<lambda>instant. Inr (date_le wakeAt instant)))"

definition isEventTimeoutDeadlineReached :: "workflow_wait \<Rightarrow> js_date \<Rightarrow> osva_error + bool" where
  "isEventTimeoutDeadlineReached w now =
     (case ww_expiresAt w of
        None \<Rightarrow> Inr False
      | Some expiresAt \<Rightarrow>
          if ww_kind w \<noteq> Kind_EVENT then Inr False
          else and_then (copyInstant now) (\<lambda>instant. Inr (date_le expiresAt instant)))"

definition assertResolvedAtNotBeforeArmed :: "js_date \<Rightarrow> js_date \<Rightarrow> osva_error option" where
  "assertResolvedAtNotBeforeArmed armedAt resolvedAt =
     (if date_lt resolvedAt armedAt
      then Some (DomainInvariantError ''resolvedAt cannot be earlier than armedAt.'') else None)"

definition withResolution ::
    "workflow_wait \<Rightarrow> wait_resolution \<Rightarrow> js_date \<Rightarrow> osva_error + workflow_wait" where
  "withResolution w resolution resolvedAt = WorkflowWait_freeze (w\<lparr> ww_resolvedAt := Some resolvedAt,
     ww_resolution := Some resolution, ww_resolvedByEventId := None \<rparr>)"

definition withEventResolution :: "workflow_wait \<Rightarrow> string \<Rightarrow> js_date \<Rightarrow> osva_error + workflow_wait" where
  "withEventResolution w eventId resolvedAt = WorkflowWait_freeze (w\<lparr> ww_resolvedAt := Some resolvedAt,
     ww_resolution := Some Res_EVENT, ww_resolvedByEventId := Some eventId \<rparr>)"

abbreviation resolution_conflict :: "wait_resolution \<Rightarrow> wait_resolution \<Rightarrow> osva_error" where
  "resolution_conflict a b \<equiv> WorkflowWaitResolutionConflictError (resolution_name a) (resolution_name b)"

definition resolveTimer :: "workflow_wait \<Rightarrow> js_date \<Rightarrow> osva_error + workflow_wait" where
  "resolveTimer w now =
     (case ww_wakeAt w of
        None \<Rightarrow> Inl (DomainInvariantError ''Timer resolution applies only to TIMER waits.'')
      | Some wakeAt \<Rightarrow>
          if ww_kind w \<noteq> Kind_TIMER
          then Inl (DomainInvariantError ''Timer resolution applies only to TIMER waits.'')
          else and_then (copyInstant now) (\<lambda>instant.
            if ww_resolution w = Some Res_TIMER \<and> ww_resolvedAt w \<noteq> None then Inr w
            else case ww_resolution w of
              Some r \<Rightarrow> Inl (resolution_conflict r Res_TIMER)
            | None \<Rightarrow>
                if date_lt instant wakeAt then Inl (WorkflowWaitResolutionNotDueError ''TIMER'' wakeAt instant)
                else after_check (assertResolvedAtNotBeforeArmed (ww_armedAt w) instant)
                  (withResolution w Res_TIMER instant)))"

definition resolveTimeout :: "workflow_wait \<Rightarrow> js_date \<Rightarrow> osva_error + workflow_wait" where
  "resolveTimeout w now =
     (case ww_expiresAt w of
        None \<Rightarrow> Inl (DomainInvariantError ''Timeout resolution applies only to EVENT waits with expiresAt.'')
      | Some expiresAt \<Rightarrow>
          if ww_kind w \<noteq> Kind_EVENT
          then Inl (DomainInvariantError ''Timeout resolution applies only to EVENT waits with expiresAt.'')
          else and_then (copyInstant now) (\<lambda>instant.
            if ww_resolution w = Some Res_TIMEOUT \<and> ww_resolvedAt w \<noteq> None then Inr w
            else case ww_resolution w of
              Some r \<Rightarrow> Inl (resolution_conflict r Res_TIMEOUT)
            | None \<Rightarrow>
                if date_lt instant expiresAt
                then Inl (WorkflowWaitResolutionNotDueError ''TIMEOUT'' expiresAt instant)
                else after_check (assertResolvedAtNotBeforeArmed (ww_armedAt w) instant)
                  (withResolution w Res_TIMEOUT instant)))"

definition WorkflowWait_cancel :: "workflow_wait \<Rightarrow> js_date \<Rightarrow> osva_error + workflow_wait" where
  "WorkflowWait_cancel w now =
     and_then (copyInstant now) (\<lambda>instant.
       if ww_resolution w = Some Res_CANCELLED \<and> ww_resolvedAt w \<noteq> None then Inr w
       else case ww_resolution w of
         Some r \<Rightarrow> Inl (resolution_conflict r Res_CANCELLED)
       | None \<Rightarrow> after_check (assertResolvedAtNotBeforeArmed (ww_armedAt w) instant)
           (withResolution w Res_CANCELLED instant))"

subsection \<open>Persisted waits (rehydrate)\<close>

definition requirePersistedIdentityString :: "string option \<Rightarrow> string \<Rightarrow> osva_error option" where
  "requirePersistedIdentityString value field =
     (if value = None \<or> value = Some ''''
      then Some (DomainInvariantError (field @ '' must be a non-empty string.'')) else None)"

abbreviation domain_error :: "string \<Rightarrow> osva_error option" where
  "domain_error m \<equiv> Some (DomainInvariantError m)"

definition assertTimerWaitRehydration :: "workflow_wait \<Rightarrow> bool \<Rightarrow> osva_error option" where
  "assertTimerWaitRehydration p active =
     (case ww_wakeAt p of
        None \<Rightarrow> domain_error ''TIMER WorkflowWait requires wakeAt.''
      | Some wakeAt \<Rightarrow>
          if \<not> valid_date wakeAt then domain_error ''Timestamp must be a valid Date.''
          else if ww_eventSource p \<noteq> None \<or> ww_eventType p \<noteq> None \<or> ww_correlationKey p \<noteq> None
            \<or> ww_eligibleFrom p \<noteq> None \<or> ww_expiresAt p \<noteq> None
          then domain_error ''TIMER WorkflowWait cannot contain EVENT criteria fields.''
          else if \<not> active \<and> (ww_resolution p = Some Res_EVENT \<or> ww_resolution p = Some Res_TIMEOUT)
          then domain_error ''TIMER WorkflowWait cannot have this resolution.''
          else None)"

definition assertEventWaitRehydration :: "workflow_wait \<Rightarrow> js_date \<Rightarrow> bool \<Rightarrow> osva_error option" where
  "assertEventWaitRehydration p armedAt active =
     (if ww_wakeAt p \<noteq> None then domain_error ''EVENT WorkflowWait cannot contain wakeAt.''
      else case requirePersistedIdentityString (ww_eventSource p) ''WorkflowWait.eventSource'' of
        Some e \<Rightarrow> Some e
      | None \<Rightarrow>
      case requirePersistedIdentityString (ww_eventType p) ''WorkflowWait.eventType'' of
        Some e \<Rightarrow> Some e
      | None \<Rightarrow>
      case requirePersistedIdentityString (ww_correlationKey p) ''WorkflowWait.correlationKey'' of
        Some e \<Rightarrow> Some e
      | None \<Rightarrow>
      case ww_eligibleFrom p of
        None \<Rightarrow> domain_error ''EVENT WorkflowWait requires eligibleFrom.''
      | Some eligibleFrom \<Rightarrow>
          if \<not> valid_date eligibleFrom then domain_error ''Timestamp must be a valid Date.''
          else if date_lt armedAt eligibleFrom
          then domain_error ''EVENT WorkflowWait eligibleFrom cannot be later than armedAt.''
          else if (case ww_expiresAt p of None \<Rightarrow> False | Some e \<Rightarrow> \<not> valid_date e)
          then domain_error ''Timestamp must be a valid Date.''
          else if (case ww_expiresAt p of None \<Rightarrow> False | Some e \<Rightarrow> date_le e armedAt)
          then domain_error ''EVENT WorkflowWait expiresAt must be after armedAt.''
          else if \<not> active \<and> ww_resolution p = Some Res_TIMER
          then domain_error ''EVENT WorkflowWait cannot have TIMER resolution.''
          else if \<not> active \<and> ww_resolution p = Some Res_TIMEOUT \<and> ww_expiresAt p = None
          then domain_error ''TIMEOUT resolution requires a persisted expiresAt.''
          else None)"

definition check_persisted_resolution :: "workflow_wait \<Rightarrow> js_date \<Rightarrow> osva_error option" where
  "check_persisted_resolution p armedAt =
     (if (ww_resolvedAt p = None) \<noteq> (ww_resolution p = None)
      then domain_error ''WorkflowWait resolution and resolvedAt must both be present or both absent.''
      else case ww_resolvedAt p of
        None \<Rightarrow>
          if ww_resolvedByEventId p \<noteq> None
          then domain_error ''Active WorkflowWait cannot contain resolvedByEventId.'' else None
      | Some resolvedAt \<Rightarrow>
          if \<not> valid_date resolvedAt then domain_error ''Timestamp must be a valid Date.''
          else case assertResolvedAtNotBeforeArmed armedAt resolvedAt of
            Some e \<Rightarrow> Some e
          | None \<Rightarrow>
              if ww_resolution p = Some Res_EVENT
              then (if ww_resolvedByEventId p = None
                    then domain_error ''EVENT resolution requires resolvedByEventId.'' else None)
              else if ww_resolvedByEventId p \<noteq> None
              then domain_error ''resolvedByEventId is only valid for EVENT resolution.'' else None)"

definition assertWorkflowWaitRehydrationProps :: "workflow_wait \<Rightarrow> osva_error option" where
  "assertWorkflowWaitRehydrationProps p =
     (if ww_workspaceId p = '''' then domain_error ''WorkflowWait.workspaceId is required.''
      else if ww_workflowRunId p = '''' then domain_error ''WorkflowWait.workflowRunId is required.''
      else if ww_workflowNodeRunId p = ''''
      then domain_error ''WorkflowWait.workflowNodeRunId is required.''
      else case copyInstant (ww_armedAt p) of
        Inl e \<Rightarrow> Some e
      | Inr armedAt \<Rightarrow>
          (case check_persisted_resolution p armedAt of
             Some e \<Rightarrow> Some e
           | None \<Rightarrow>
               (case ww_kind p of
                  Kind_TIMER \<Rightarrow> assertTimerWaitRehydration p (ww_resolution p = None)
                | Kind_EVENT \<Rightarrow> assertEventWaitRehydration p armedAt (ww_resolution p = None))))"

definition WorkflowWait_rehydrate :: "workflow_wait \<Rightarrow> osva_error + workflow_wait" where
  "WorkflowWait_rehydrate p = after_check (assertWorkflowWaitRehydrationProps p) (WorkflowWait_freeze p)"

definition sameOptionalInstant :: "js_date option \<Rightarrow> js_date option \<Rightarrow> bool" where
  "sameOptionalInstant l r =
     (case (l, r) of (None, None) \<Rightarrow> True | (Some a, Some b) \<Rightarrow> date_eq a b | _ \<Rightarrow> False)"

definition bothInstants :: "js_date option \<Rightarrow> js_date option \<Rightarrow> bool" where
  "bothInstants l r = (case (l, r) of (Some a, Some b) \<Rightarrow> date_eq a b | _ \<Rightarrow> False)"

definition hasSameWorkflowWaitArm :: "workflow_wait \<Rightarrow> workflow_wait \<Rightarrow> bool" where
  "hasSameWorkflowWaitArm p e =
     (if ww_workspaceId p \<noteq> ww_workspaceId e \<or> ww_workflowRunId p \<noteq> ww_workflowRunId e
         \<or> ww_workflowNodeRunId p \<noteq> ww_workflowNodeRunId e \<or> ww_kind p \<noteq> ww_kind e
         \<or> \<not> date_eq (ww_armedAt p) (ww_armedAt e) then False
      else if ww_kind p = Kind_TIMER then bothInstants (ww_wakeAt p) (ww_wakeAt e)
      else ww_eventSource p = ww_eventSource e \<and> ww_eventType p = ww_eventType e
        \<and> ww_correlationKey p = ww_correlationKey e
        \<and> bothInstants (ww_eligibleFrom p) (ww_eligibleFrom e)
        \<and> sameOptionalInstant (ww_expiresAt p) (ww_expiresAt e))"

definition hasSameDurableWorkflowWaitResolution :: "workflow_wait \<Rightarrow> workflow_wait \<Rightarrow> bool" where
  "hasSameDurableWorkflowWaitResolution p a =
     (if ww_resolution p = None \<or> ww_resolution a = None then False
      else if ww_resolution p \<noteq> ww_resolution a then False
      else if ww_resolution p = Some Res_EVENT then ww_resolvedByEventId p = ww_resolvedByEventId a
      else True)"

subsection \<open>Events (workflow-event.ts)\<close>

record workflow_event =
  ev_id :: string
  ev_workspaceId :: string
  ev_source :: string
  ev_eventType :: string
  ev_correlationKey :: string
  ev_idempotencyKey :: string
  ev_payload :: jsv
  ev_occurredAt :: "js_date option"
  ev_receivedAt :: js_date

record workflow_event_submission =
  es_workspaceId :: string
  es_source :: string
  es_eventType :: string
  es_correlationKey :: string
  es_idempotencyKey :: string
  es_payload :: jsv
  es_occurredAt :: "js_date option"

definition requireIdentityString :: "string \<Rightarrow> string \<Rightarrow> osva_error + string" where
  "requireIdentityString value field =
     (if length value = 0 then Inl (DomainInvariantError (field @ '' must be a non-empty string.''))
      else Inr value)"

definition WorkflowEvent_instantiate :: "workflow_event \<Rightarrow> osva_error + workflow_event" where
  "WorkflowEvent_instantiate p =
     (if ev_id p = '''' then Inl (DomainInvariantError ''WorkflowEvent.id is required.'')
      else if ev_workspaceId p = ''''
      then Inl (DomainInvariantError ''WorkflowEvent.workspaceId is required.'')
      else
        and_then (requireIdentityString (ev_source p) ''WorkflowEvent.source'') (\<lambda>source.
        and_then (requireIdentityString (ev_eventType p) ''WorkflowEvent.eventType'') (\<lambda>eventType.
        and_then (requireIdentityString (ev_correlationKey p) ''WorkflowEvent.correlationKey'') (\<lambda>key.
        and_then (requireIdentityString (ev_idempotencyKey p) ''WorkflowEvent.idempotencyKey'') (\<lambda>idem.
        and_then (copyCanonicalJsonValue (ev_payload p) ''WorkflowEvent.payload'') (\<lambda>payload.
        and_then (copyInstant (ev_receivedAt p)) (\<lambda>receivedAt.
        and_then (copyOptInstant (ev_occurredAt p)) (\<lambda>occurredAt.
          Inr \<lparr> ev_id = ev_id p, ev_workspaceId = ev_workspaceId p, ev_source = source,
            ev_eventType = eventType, ev_correlationKey = key, ev_idempotencyKey = idem,
            ev_payload = payload, ev_occurredAt = occurredAt, ev_receivedAt = receivedAt \<rparr>))))))))"

definition WorkflowEvent_create :: "workflow_event \<Rightarrow> osva_error + workflow_event" where
  "WorkflowEvent_create p = WorkflowEvent_instantiate p"

definition WorkflowEvent_rehydrate :: "workflow_event \<Rightarrow> osva_error + workflow_event" where
  "WorkflowEvent_rehydrate p = WorkflowEvent_instantiate p"

definition hasWorkflowEventIngestionIdentity :: "workflow_event \<Rightarrow> workflow_event_submission \<Rightarrow> bool" where
  "hasWorkflowEventIngestionIdentity l r =
     (ev_workspaceId l = es_workspaceId r \<and> ev_source l = es_source r
      \<and> ev_idempotencyKey l = es_idempotencyKey r)"

definition occurredAtEquivalent :: "js_date option \<Rightarrow> js_date option \<Rightarrow> bool" where
  "occurredAtEquivalent l r =
     (case (l, r) of (None, None) \<Rightarrow> True | (Some a, Some b) \<Rightarrow> date_eq a b | _ \<Rightarrow> False)"

definition isEquivalentWorkflowEventRetry :: "workflow_event \<Rightarrow> workflow_event_submission \<Rightarrow> bool" where
  "isEquivalentWorkflowEventRetry e s =
     (if \<not> hasWorkflowEventIngestionIdentity e s then False
      else if ev_eventType e \<noteq> es_eventType s then False
      else if ev_correlationKey e \<noteq> es_correlationKey s then False
      else if \<not> jsonValuesEqual (ev_payload e) (es_payload s) then False
      else occurredAtEquivalent (ev_occurredAt e) (es_occurredAt s))"

definition assertWorkflowEventEquivalentRetry ::
    "workflow_event \<Rightarrow> workflow_event_submission \<Rightarrow> osva_error option" where
  "assertWorkflowEventEquivalentRetry e s =
     (if hasWorkflowEventIngestionIdentity e s \<and> \<not> isEquivalentWorkflowEventRetry e s
      then Some (WorkflowEventIdempotencyConflictError (ev_workspaceId e) (ev_source e) (ev_idempotencyKey e))
      else None)"

subsection \<open>Which event ends a wait (workflow-wait-event.ts)\<close>

definition matchesWorkflowEventWait :: "workflow_wait \<Rightarrow> workflow_event \<Rightarrow> bool" where
  "matchesWorkflowEventWait w e =
     (if ww_kind w \<noteq> Kind_EVENT then False
      else ww_workspaceId w = ev_workspaceId e \<and> ww_eventSource w = Some (ev_source e)
        \<and> ww_eventType w = Some (ev_eventType e) \<and> ww_correlationKey w = Some (ev_correlationKey e))"

definition isWorkflowEventEligibleForWait ::
    "workflow_wait \<Rightarrow> workflow_event \<Rightarrow> js_date \<Rightarrow> osva_error + bool" where
  "isWorkflowEventEligibleForWait w e now =
     (if \<not> matchesWorkflowEventWait w e then Inr False
      else case ww_eligibleFrom w of
        None \<Rightarrow> Inr False
      | Some eligibleFrom \<Rightarrow>
          and_then (copyInstant now) (\<lambda>decisionNow.
            Inr (if date_lt (ev_receivedAt e) eligibleFrom then False
                 else if date_lt decisionNow (ev_receivedAt e) then False
                 else if (case ww_expiresAt w of None \<Rightarrow> False | Some x \<Rightarrow> date_lt x (ev_receivedAt e))
                 then False else True)))"

definition assertWorkflowEventEligibleForWait ::
    "workflow_wait \<Rightarrow> workflow_event \<Rightarrow> js_date \<Rightarrow> osva_error option" where
  "assertWorkflowEventEligibleForWait w e now =
     (case isWorkflowEventEligibleForWait w e now of
        Inl err \<Rightarrow> Some err
      | Inr eligible \<Rightarrow>
          if \<not> eligible then Some (WorkflowWaitEventNotEligibleError (ww_workflowNodeRunId w) (ev_id e))
          else None)"

fun filter_result :: "('a \<Rightarrow> 'e + bool) \<Rightarrow> 'a list \<Rightarrow> 'e + 'a list" where
  "filter_result f [] = Inr []"
| "filter_result f (x # xs) =
     and_then (f x) (\<lambda>b. and_then (filter_result f xs) (\<lambda>ys. Inr (if b then x # ys else ys)))"

text \<open>Earlier received first, then the smaller id; the sort is stable.\<close>

definition listWorkflowEventCandidatesForWait ::
    "workflow_wait \<Rightarrow> workflow_event list \<Rightarrow> js_date \<Rightarrow> osva_error + workflow_event list" where
  "listWorkflowEventCandidatesForWait w events now =
     and_then (filter_result (\<lambda>e. isWorkflowEventEligibleForWait w e now) events) (\<lambda>es.
       Inr (sort_key (\<lambda>e. (ev_receivedAt e, ev_id e)) es))"

definition selectWorkflowEventForWait ::
    "workflow_wait \<Rightarrow> workflow_event list \<Rightarrow> js_date \<Rightarrow> osva_error + workflow_event option" where
  "selectWorkflowEventForWait w events now =
     and_then (listWorkflowEventCandidatesForWait w events now) (\<lambda>sorted.
       Inr (case sorted of [] \<Rightarrow> None | e # es \<Rightarrow> Some e))"

datatype wait_decision = Decide_EVENT workflow_event | Decide_TIMEOUT | Decide_PENDING

definition decideWorkflowEventWait ::
    "workflow_wait \<Rightarrow> workflow_event list \<Rightarrow> js_date \<Rightarrow> osva_error + wait_decision" where
  "decideWorkflowEventWait w events now =
     (if \<not> isActive w
      then Inl (DomainInvariantError ''Cannot decide event wait outcome for a resolved WorkflowWait.'')
      else if ww_kind w \<noteq> Kind_EVENT
      then Inl (DomainInvariantError ''Event wait decisions apply only to EVENT WorkflowWait instances.'')
      else
        and_then (copyInstant now) (\<lambda>t.
        and_then (selectWorkflowEventForWait w events t) (\<lambda>selected.
          Inr (case selected of
                 Some e \<Rightarrow> Decide_EVENT e
               | None \<Rightarrow>
                   if (case ww_expiresAt w of None \<Rightarrow> False | Some x \<Rightarrow> date_le x t)
                   then Decide_TIMEOUT else Decide_PENDING))))"

definition resolveEvent :: "workflow_wait \<Rightarrow> workflow_event \<Rightarrow> js_date \<Rightarrow> osva_error + workflow_wait" where
  "resolveEvent w e now =
     (if ww_kind w \<noteq> Kind_EVENT
      then Inl (DomainInvariantError ''Event resolution applies only to EVENT waits.'')
      else and_then (copyInstant now) (\<lambda>t.
        if date_lt t (ww_armedAt w)
        then Inl (DomainInvariantError ''Event resolution now cannot be earlier than armedAt.'')
        else if ww_resolution w = Some Res_EVENT \<and> ww_resolvedAt w \<noteq> None
            \<and> ww_resolvedByEventId w = Some (ev_id e)
        then Inr w
        else case ww_resolution w of
          Some r \<Rightarrow> Inl (resolution_conflict r Res_EVENT)
        | None \<Rightarrow>
            after_check (assertWorkflowEventEligibleForWait w e t)
            (after_check (assertResolvedAtNotBeforeArmed (ww_armedAt w) t)
              (withEventResolution w (ev_id e) t))))"

datatype resolution_outcome = Unchanged workflow_wait | Resolved workflow_wait

definition resolveWorkflowEventWaitDecision ::
    "workflow_wait \<Rightarrow> workflow_event list \<Rightarrow> js_date \<Rightarrow> osva_error + resolution_outcome" where
  "resolveWorkflowEventWaitDecision w candidates now =
     (if \<not> isActive w then Inr (Unchanged w)
      else if ww_kind w \<noteq> Kind_EVENT
      then Inl (DomainInvariantError
        ''Workflow event wait resolution applies only to EVENT WorkflowWait instances.'')
      else
        and_then (decideWorkflowEventWait w candidates now) (\<lambda>decision.
          case decision of
            Decide_PENDING \<Rightarrow> Inr (Unchanged w)
          | Decide_EVENT e \<Rightarrow> and_then (resolveEvent w e now) (\<lambda>w'. Inr (Resolved w'))
          | Decide_TIMEOUT \<Rightarrow> and_then (resolveTimeout w now) (\<lambda>w'. Inr (Resolved w'))))"

end
