(* ===== verification/Workflow_Wait_Facts.thy ===== *)
theory Workflow_Wait_Facts
  imports Workflow_Wait
begin

text \<open>
  What waits guarantee: the shape of every wait that arming and resolving can produce, that a
  persisted wait reads back as itself, that a resolution is final, and that the decision of an
  event wait is the earliest eligible event, else the deadline, else to go on waiting.
\<close>

definition opt_valid :: "js_date option \<Rightarrow> bool" where
  "opt_valid d \<longleftrightarrow> (\<forall>t. d = Some t \<longrightarrow> valid_date t)"

lemma opt_valid_simps [simp]: "opt_valid None" "opt_valid (Some t) = valid_date t"
  by (simp_all add: opt_valid_def)

lemma copyOptInstant_valid [simp]: "opt_valid d \<Longrightarrow> copyOptInstant d = Inr d"
  by (simp add: copyOptInstant_Inr opt_valid_def)

definition wait_wf :: "workflow_wait \<Rightarrow> bool" where
  "wait_wf w \<longleftrightarrow>
     valid_date (ww_armedAt w) \<and> opt_valid (ww_eligibleFrom w) \<and> opt_valid (ww_expiresAt w)
     \<and> opt_valid (ww_wakeAt w)
     \<and> (ww_resolvedAt w = None \<longleftrightarrow> ww_resolution w = None)
     \<and> (ww_resolvedByEventId w \<noteq> None \<longleftrightarrow> ww_resolution w = Some Res_EVENT)
     \<and> (\<forall>r. ww_resolvedAt w = Some r \<longrightarrow> date_le (ww_armedAt w) r)
     \<and> (case ww_kind w of
          Kind_TIMER \<Rightarrow>
            ww_wakeAt w \<noteq> None \<and> ww_eventSource w = None \<and> ww_eventType w = None
            \<and> ww_correlationKey w = None \<and> ww_eligibleFrom w = None \<and> ww_expiresAt w = None
            \<and> ww_resolution w \<notin> {Some Res_EVENT, Some Res_TIMEOUT}
            \<and> (\<forall>t r. ww_resolution w = Some Res_TIMER \<longrightarrow> ww_wakeAt w = Some t \<longrightarrow>
                 ww_resolvedAt w = Some r \<longrightarrow> date_le t r)
        | Kind_EVENT \<Rightarrow>
            ww_wakeAt w = None \<and> ww_eventSource w \<noteq> None \<and> ww_eventType w \<noteq> None
            \<and> ww_correlationKey w \<notin> {None, Some ''''}
            \<and> (\<exists>t. ww_eligibleFrom w = Some t \<and> date_le t (ww_armedAt w))
            \<and> (\<forall>t. ww_expiresAt w = Some t \<longrightarrow> date_lt (ww_armedAt w) t)
            \<and> ww_resolution w \<noteq> Some Res_TIMER
            \<and> (ww_resolution w = Some Res_TIMEOUT \<longrightarrow> (\<exists>t r. ww_expiresAt w = Some t
                 \<and> ww_resolvedAt w = Some r \<and> date_le t r)))"

lemma freeze_Inr:
  "WorkflowWait_freeze p = Inr w \<longleftrightarrow>
     (ww_resolvedByEventId p \<noteq> None \<longleftrightarrow> ww_resolution p = Some Res_EVENT)
     \<and> valid_date (ww_armedAt p) \<and> opt_valid (ww_resolvedAt p) \<and> opt_valid (ww_wakeAt p)
     \<and> opt_valid (ww_eligibleFrom p) \<and> opt_valid (ww_expiresAt p) \<and> w = p"
  by (auto simp: WorkflowWait_freeze_def result_simps opt_valid_def)

lemma addMilliseconds_Inr: "addMilliseconds b n = Inr d \<Longrightarrow> valid_date d"
  by (auto simp: addMilliseconds_def Let_def split: if_splits)

lemma correlation_nonempty: "resolveWaitCorrelationKey c v = Inr k \<Longrightarrow> k \<noteq> ''''"
  by (auto simp: resolveWaitCorrelationKey_def split: wait_correlation.splits if_splits option.splits
      jsv.splits)

lemma arm_event_wf:
  assumes "resolveWaitCorrelationKey corr inp = Inr key"
    and "valid_date a" "valid_date c" "\<not> date_lt a c" "opt_valid x"
    and "\<not> (case x of None \<Rightarrow> False | Some e \<Rightarrow> date_le e a)"
    and "WorkflowWait_freeze ((blank_wait cmd Kind_EVENT a)\<lparr> ww_eventSource := Some s,
      ww_eventType := Some t, ww_correlationKey := Some key, ww_eligibleFrom := Some c,
      ww_expiresAt := x \<rparr>) = Inr w"
  shows "wait_wf w"
proof -
  have "\<forall>e. x = Some e \<longrightarrow> date_lt a e"
  proof (intro allI impI)
    fix e assume "x = Some e"
    with assms(2,5,6) show "date_lt a e" using date_not_lt [of a e] by auto
  qed
  with assms show ?thesis
    using correlation_nonempty [OF assms(1)] date_not_lt [of a c]
    by (auto simp: freeze_Inr blank_wait_def wait_wf_def)
qed

lemma arm_wf:
  assumes "WorkflowWait_arm c = Inr w"
  shows "wait_wf w \<and> isActive w"
proof -
  from assms have d: "valid_date (ac_armedAt c)" "valid_date (ac_workflowRunCreatedAt c)"
    "\<not> date_lt (ac_armedAt c) (ac_workflowRunCreatedAt c)"
    by (auto simp: WorkflowWait_arm_def result_simps split: if_splits)
  show ?thesis
  proof (cases "ac_wait c")
    case (Wait_EVENT s t corr timeout)
    with assms d obtain key x where k: "resolveWaitCorrelationKey corr (ac_nodeInput c) = Inr key"
      and x: "(case timeout of None \<Rightarrow> Inr None
        | Some t \<Rightarrow> and_then (addMilliseconds (ac_armedAt c) t) (\<lambda>d. Inr (Some d))) = Inr x"
      "\<not> (case x of None \<Rightarrow> False | Some e \<Rightarrow> date_le e (ac_armedAt c))"
      and f: "WorkflowWait_freeze ((blank_wait c Kind_EVENT (ac_armedAt c))\<lparr> ww_eventSource := Some s,
        ww_eventType := Some t, ww_correlationKey := Some key,
        ww_eligibleFrom := Some (ac_workflowRunCreatedAt c), ww_expiresAt := x \<rparr>) = Inr w"
      by (auto simp: WorkflowWait_arm_def result_simps split: if_splits)
    have "opt_valid x" using x(1) by (auto simp: result_simps dest: addMilliseconds_Inr split: option.splits)
    with arm_event_wf [OF k d this x(2) f] f show ?thesis
      by (auto simp: freeze_Inr blank_wait_def isActive_def)
  next
    case (Wait_DURATION n)
    with assms d show ?thesis
      by (auto simp: WorkflowWait_arm_def result_simps freeze_Inr blank_wait_def wait_wf_def isActive_def
          split: if_splits dest: addMilliseconds_Inr)
  next
    case (Wait_UNTIL u)
    with assms d show ?thesis
      by (auto simp: WorkflowWait_arm_def result_simps freeze_Inr blank_wait_def wait_wf_def isActive_def
          split: if_splits)
  next
    case (Wait_OTHER k)
    with assms d show ?thesis by (auto simp: WorkflowWait_arm_def result_simps)
  qed
qed

lemma not_before_armed:
  "assertResolvedAtNotBeforeArmed a r = None \<Longrightarrow> valid_date a \<Longrightarrow> valid_date r \<Longrightarrow> date_le a r"
  by (simp add: assertResolvedAtNotBeforeArmed_def date_not_lt split: if_splits)

lemma resolution_cases:
  "resolveTimer w now = Inr w' \<Longrightarrow> wait_wf w \<Longrightarrow> w' = w \<and> \<not> isActive w \<or>
     isActive w \<and> ww_kind w = Kind_TIMER \<and> (\<exists>t. ww_wakeAt w = Some t \<and> date_le t now)
     \<and> date_le (ww_armedAt w) now
     \<and> w' = w\<lparr> ww_resolvedAt := Some now, ww_resolution := Some Res_TIMER \<rparr>"
  "resolveTimeout w now = Inr w' \<Longrightarrow> wait_wf w \<Longrightarrow> w' = w \<and> \<not> isActive w \<or>
     isActive w \<and> ww_kind w = Kind_EVENT \<and> (\<exists>t. ww_expiresAt w = Some t \<and> date_le t now)
     \<and> date_le (ww_armedAt w) now
     \<and> w' = w\<lparr> ww_resolvedAt := Some now, ww_resolution := Some Res_TIMEOUT \<rparr>"
  "WorkflowWait_cancel w now = Inr w' \<Longrightarrow> wait_wf w \<Longrightarrow> w' = w \<and> \<not> isActive w \<or>
     isActive w \<and> date_le (ww_armedAt w) now
     \<and> w' = w\<lparr> ww_resolvedAt := Some now, ww_resolution := Some Res_CANCELLED \<rparr>"
  "resolveEvent w e now = Inr w' \<Longrightarrow> wait_wf w \<Longrightarrow> w' = w \<and> \<not> isActive w \<or>
     isActive w \<and> ww_kind w = Kind_EVENT \<and> isWorkflowEventEligibleForWait w e now = Inr True
     \<and> date_le (ww_armedAt w) now
     \<and> w' = w\<lparr> ww_resolvedAt := Some now, ww_resolution := Some Res_EVENT,
         ww_resolvedByEventId := Some (ev_id e) \<rparr>"
  subgoal by (auto simp: resolveTimer_def withResolution_def freeze_Inr result_simps isActive_def wait_wf_def
      date_not_lt split: option.splits if_splits dest!: not_before_armed)
  subgoal by (auto simp: resolveTimeout_def withResolution_def freeze_Inr result_simps isActive_def wait_wf_def
      date_not_lt split: option.splits if_splits dest!: not_before_armed)
  subgoal by (auto simp: WorkflowWait_cancel_def withResolution_def freeze_Inr result_simps isActive_def
      wait_wf_def split: option.splits if_splits dest!: not_before_armed)
  subgoal by (auto simp: resolveEvent_def withEventResolution_def freeze_Inr result_simps isActive_def
      wait_wf_def assertWorkflowEventEligibleForWait_def split: option.splits if_splits sum.splits
      dest!: not_before_armed)
  done

lemma resolution_wf:
  assumes "wait_wf w" "isActive w" "date_le (ww_armedAt w) now"
  shows "ww_kind w = Kind_TIMER \<Longrightarrow> ww_wakeAt w = Some t \<Longrightarrow> date_le t now \<Longrightarrow>
      wait_wf (w\<lparr> ww_resolvedAt := Some now, ww_resolution := Some Res_TIMER \<rparr>)"
    "ww_kind w = Kind_EVENT \<Longrightarrow> ww_expiresAt w = Some t \<Longrightarrow> date_le t now \<Longrightarrow>
      wait_wf (w\<lparr> ww_resolvedAt := Some now, ww_resolution := Some Res_TIMEOUT \<rparr>)"
    "wait_wf (w\<lparr> ww_resolvedAt := Some now, ww_resolution := Some Res_CANCELLED \<rparr>)"
    "ww_kind w = Kind_EVENT \<Longrightarrow> wait_wf (w\<lparr> ww_resolvedAt := Some now,
      ww_resolution := Some Res_EVENT, ww_resolvedByEventId := Some i \<rparr>)"
  using assms by (auto simp: wait_wf_def isActive_def split: wait_kind.splits)

inductive wait_step :: "workflow_wait \<Rightarrow> workflow_wait \<Rightarrow> bool" where
  step_timer: "resolveTimer w now = Inr w' \<Longrightarrow> wait_step w w'"
| step_timeout: "resolveTimeout w now = Inr w' \<Longrightarrow> wait_step w w'"
| step_event: "resolveEvent w e now = Inr w' \<Longrightarrow> wait_step w w'"
| step_cancel: "WorkflowWait_cancel w now = Inr w' \<Longrightarrow> wait_step w w'"

lemma wait_step_wf: "wait_step w w' \<Longrightarrow> wait_wf w \<Longrightarrow> wait_wf w'"
proof (induction rule: wait_step.induct)
  case (step_timer w now w')
  from resolution_cases(1) [OF this] this(2) show ?case using resolution_wf(1) by blast
next
  case (step_timeout w now w')
  from resolution_cases(2) [OF this] this(2) show ?case using resolution_wf(2) by blast
next
  case (step_event w e now w')
  from resolution_cases(4) [OF this] this(2) show ?case using resolution_wf(4) by blast
next
  case (step_cancel w now w')
  from resolution_cases(3) [OF this] this(2) show ?case using resolution_wf(3) by blast
qed

lemma wait_step_final: "wait_step w w' \<Longrightarrow> wait_wf w \<Longrightarrow> \<not> isActive w \<Longrightarrow> w' = w"
  by (induction rule: wait_step.induct) (auto dest: resolution_cases)

lemma armed_reachable_wf:
  assumes "WorkflowWait_arm c = Inr v" "wait_step\<^sup>*\<^sup>* v w"
  shows "wait_wf w"
  using assms(2) by (induction rule: rtranclp_induct) (use arm_wf [OF assms(1)] wait_step_wf in blast)+

text \<open>The names of a wait that arming takes over unchecked.\<close>

definition wait_named :: "workflow_wait \<Rightarrow> bool" where
  "wait_named w \<longleftrightarrow> ww_workspaceId w \<noteq> '''' \<and> ww_workflowRunId w \<noteq> '''' \<and> ww_workflowNodeRunId w \<noteq> ''''
     \<and> ww_eventSource w \<noteq> Some '''' \<and> ww_eventType w \<noteq> Some ''''"

lemma rehydrate_wf:
  assumes "wait_wf w" "wait_named w"
  shows "WorkflowWait_rehydrate w = Inr w"
proof -
  have v: "valid_date (ww_armedAt w)" "opt_valid (ww_resolvedAt w)"
    using assms(1) date_le_valid by (auto simp: wait_wf_def opt_valid_def)
  then have f: "WorkflowWait_freeze w = Inr w"
    using assms(1) by (simp add: freeze_Inr wait_wf_def)
  have c: "check_persisted_resolution w (ww_armedAt w) = None"
    using assms(1) v by (auto simp: check_persisted_resolution_def wait_wf_def
        assertResolvedAtNotBeforeArmed_def date_not_lt date_le_not_lt split: option.splits)
  have "(case ww_kind w of Kind_TIMER \<Rightarrow> assertTimerWaitRehydration w (ww_resolution w = None)
      | Kind_EVENT \<Rightarrow> assertEventWaitRehydration w (ww_armedAt w) (ww_resolution w = None)) = None"
  proof (cases "ww_kind w")
    case Kind_TIMER
    with assms show ?thesis by (auto simp: wait_wf_def assertTimerWaitRehydration_def split: option.splits)
  next
    case Kind_EVENT
    have "\<not> (case ww_expiresAt w of None \<Rightarrow> False | Some e \<Rightarrow> date_le e (ww_armedAt w))"
      using assms(1) Kind_EVENT date_le_not_lt by (auto simp: wait_wf_def split: option.splits)
    with Kind_EVENT assms show ?thesis
      by (auto simp: wait_wf_def wait_named_def assertEventWaitRehydration_def
          requirePersistedIdentityString_def date_le_not_lt split: option.splits)
  qed
  with c v f assms(2) show ?thesis
    by (simp add: WorkflowWait_rehydrate_def assertWorkflowWaitRehydrationProps_def wait_named_def)
qed

text \<open>What arming is given and does not check: identifiers, and the names of the event.\<close>

definition arm_named :: "arm_command \<Rightarrow> bool" where
  "arm_named c \<longleftrightarrow> ac_workspaceId c \<noteq> '''' \<and> ac_workflowRunId c \<noteq> '''' \<and> ac_workflowNodeRunId c \<noteq> ''''
     \<and> (case ac_wait c of Wait_EVENT source eventType correlation timeoutMs \<Rightarrow> source \<noteq> '''' \<and> eventType \<noteq> ''''
        | _ \<Rightarrow> True)"

lemma armed_names:
  "WorkflowWait_arm c = Inr v \<Longrightarrow> ww_workspaceId v = ac_workspaceId c \<and> ww_workflowRunId v = ac_workflowRunId c
     \<and> ww_workflowNodeRunId v = ac_workflowNodeRunId c
     \<and> (ww_eventSource v, ww_eventType v) = (case ac_wait c of
         Wait_EVENT source eventType correlation timeoutMs \<Rightarrow> (Some source, Some eventType) | _ \<Rightarrow> (None, None))"
  by (cases "ac_wait c") (auto simp: WorkflowWait_arm_def blank_wait_def freeze_Inr result_simps split: if_splits)

lemma wait_named_armed: "WorkflowWait_arm c = Inr v \<Longrightarrow> wait_named v = arm_named c"
  using armed_names [of c v] by (cases "ac_wait c") (simp_all add: wait_named_def arm_named_def)

lemma wait_named_step: "wait_step w w' \<Longrightarrow> wait_wf w \<Longrightarrow> wait_named w' = wait_named w"
  by (induction rule: wait_step.induct) (auto dest!: resolution_cases simp: wait_named_def)

lemma wait_named_reachable:
  assumes "WorkflowWait_arm c = Inr v" "wait_step\<^sup>*\<^sup>* v w"
  shows "wait_named w = arm_named c"
  using assms(2)
proof (induction rule: rtranclp_induct)
  case (step y z)
  then show ?case using wait_named_step armed_reachable_wf [OF assms(1)] by blast
qed (use wait_named_armed [OF assms(1)] in simp)

text \<open>The persistence layer refuses a wait with an empty name.\<close>

lemma rehydrate_named:
  assumes "wait_wf w" "WorkflowWait_rehydrate w = Inr w'"
  shows "wait_named w"
proof -
  have a: "assertWorkflowWaitRehydrationProps w = None"
    using assms(2) by (cases "assertWorkflowWaitRehydrationProps w") (simp_all add: WorkflowWait_rehydrate_def)
  have "ww_kind w = Kind_TIMER \<Longrightarrow> ww_eventSource w = None \<and> ww_eventType w = None"
    using assms(1) by (simp add: wait_wf_def)
  moreover have "ww_kind w = Kind_EVENT \<Longrightarrow> ww_eventSource w \<noteq> Some '''' \<and> ww_eventType w \<noteq> Some ''''"
    using a by (auto simp: assertWorkflowWaitRehydrationProps_def assertEventWaitRehydration_def
        requirePersistedIdentityString_def split: if_splits sum.splits option.splits)
  moreover have "ww_workspaceId w \<noteq> '''' \<and> ww_workflowRunId w \<noteq> '''' \<and> ww_workflowNodeRunId w \<noteq> ''''"
    using a unfolding assertWorkflowWaitRehydrationProps_def by (simp split: if_splits)
  ultimately show ?thesis by (cases "ww_kind w") (auto simp: wait_named_def)
qed

text \<open>
  C24. Every wait that arming and resolving produce satisfies the rules the persistence layer
  checks when it reads a wait back, except for what arming leaves to its callers: the wait
  rehydrates to itself if the identifiers, and for an event wait the source and the type, that
  arming was given are not empty, and is refused with an error if one of them is.
\<close>

theorem wait_rehydrates:
  assumes "WorkflowWait_arm c = Inr v" "wait_step\<^sup>*\<^sup>* v w"
  shows "if arm_named c then WorkflowWait_rehydrate w = Inr w else (\<exists>e. WorkflowWait_rehydrate w = Inl e)"
proof -
  note wf = armed_reachable_wf [OF assms] and n = wait_named_reachable [OF assms]
  show ?thesis
  proof (cases "WorkflowWait_rehydrate w")
    case (Inl e)
    then have "\<not> arm_named c" using rehydrate_wf [OF wf] n by auto
    with Inl show ?thesis by simp
  next
    case (Inr w')
    then show ?thesis using rehydrate_named [OF wf Inr] rehydrate_wf [OF wf] n by simp
  qed
qed

text \<open>
  A resolution is final: whatever is tried on a resolved wait, it either fails or returns
  the wait unchanged, and no sequence of operations changes it.
\<close>

theorem wait_resolution_final:
  assumes "WorkflowWait_arm c = Inr v" "wait_step\<^sup>*\<^sup>* v w" "\<not> isActive w" "wait_step\<^sup>*\<^sup>* w w'"
  shows "w' = w"
  using assms(4)
proof (induction rule: rtranclp_induct)
  case (step y z)
  then show ?case
    using wait_step_final [OF step(2)] armed_reachable_wf [OF assms(1,2)] assms(3) by blast
qed simp


definition sample_timer :: arm_command where
  "sample_timer = \<lparr> ac_workspaceId = ''w'', ac_workflowRunId = ''r'', ac_workflowNodeRunId = ''n'',
     ac_workflowRunCreatedAt = DateMs 0, ac_wait = Wait_DURATION (Finite 5),
     ac_nodeInput = JNull, ac_armedAt = DateMs 10 \<rparr>"

definition sample_timer_armed :: workflow_wait where
  "sample_timer_armed = (blank_wait sample_timer Kind_TIMER (DateMs 10))\<lparr> ww_wakeAt := Some (DateMs 15) \<rparr>"

definition sample_timer_done :: workflow_wait where
  "sample_timer_done = sample_timer_armed\<lparr> ww_resolvedAt := Some (DateMs 20),
     ww_resolution := Some Res_TIMER \<rparr>"

lemma sample_timer_runs:
  "WorkflowWait_arm sample_timer = Inr sample_timer_armed"
  "resolveTimer sample_timer_armed (DateMs 20) = Inr sample_timer_done"
  "\<not> isActive sample_timer_done" "arm_named sample_timer"
  by code_simp+

lemma sample_timer_steps: "wait_step\<^sup>*\<^sup>* sample_timer_armed sample_timer_done"
  by (rule r_into_rtranclp) (rule step_timer [OF sample_timer_runs(2)])

theorem wait_rehydrates_witness: "WorkflowWait_rehydrate sample_timer_done = Inr sample_timer_done"
  using wait_rehydrates [OF sample_timer_runs(1) sample_timer_steps] sample_timer_runs(4) by simp

theorem wait_resolution_final_witness:
  "\<exists>w'. resolveTimer sample_timer_done (DateMs 30) = Inr w' \<and> w' = sample_timer_done"
proof -
  have "case resolveTimer sample_timer_done (DateMs 30) of Inl e \<Rightarrow> False | Inr w' \<Rightarrow> True"
    by code_simp
  then obtain w' where w: "resolveTimer sample_timer_done (DateMs 30) = Inr w'" by (auto split: sum.splits)
  have "wait_step\<^sup>*\<^sup>* sample_timer_done w'"
    by (rule r_into_rtranclp) (rule step_timer [OF w])
  from wait_resolution_final [OF sample_timer_runs(1) sample_timer_steps sample_timer_runs(3) this] w
  show ?thesis by blast
qed

subsection \<open>The outcome of an event wait\<close>

definition eligible_events :: "workflow_wait \<Rightarrow> js_date \<Rightarrow> workflow_event list \<Rightarrow> workflow_event list" where
  "eligible_events w now es = filter (\<lambda>e. matchesWorkflowEventWait w e
     \<and> (case ww_eligibleFrom w of None \<Rightarrow> False | Some t \<Rightarrow> date_le t (ev_receivedAt e))
     \<and> date_le (ev_receivedAt e) now
     \<and> (case ww_expiresAt w of None \<Rightarrow> True | Some t \<Rightarrow> date_le (ev_receivedAt e) t)) es"

lemma filter_result_total:
  "(\<And>x. x \<in> set xs \<Longrightarrow> f x = Inr (P x)) \<Longrightarrow> filter_result f xs = Inr (filter P xs)"
  by (induction xs) auto

lemma eligible_total:
  assumes "wait_wf w" "valid_date now" "valid_date (ev_receivedAt e)"
  shows "isWorkflowEventEligibleForWait w e now = Inr (matchesWorkflowEventWait w e
     \<and> (case ww_eligibleFrom w of None \<Rightarrow> False | Some t \<Rightarrow> date_le t (ev_receivedAt e))
     \<and> date_le (ev_receivedAt e) now
     \<and> (case ww_expiresAt w of None \<Rightarrow> True | Some t \<Rightarrow> date_le (ev_receivedAt e) t))"
  using assms by (auto simp: isWorkflowEventEligibleForWait_def wait_wf_def date_not_lt date_le_not_lt
      split: option.splits)

lemma candidates_total:
  assumes "wait_wf w" "valid_date now" "\<And>e. e \<in> set es \<Longrightarrow> valid_date (ev_receivedAt e)"
  shows "listWorkflowEventCandidatesForWait w es now =
    Inr (sort_key (\<lambda>e. (ev_receivedAt e, ev_id e)) (eligible_events w now es))"
  unfolding listWorkflowEventCandidatesForWait_def eligible_events_def
  by (subst filter_result_total [OF eligible_total [OF assms(1,2)]]) (simp_all add: assms(3))

lemma sort_key_head:
  assumes "sort_key k xs = y # ys"
  shows "y \<in> set xs" "\<forall>x \<in> set xs. k y \<le> k x"
proof -
  have s: "set (sort_key k xs) = set xs" "sorted (map k (sort_key k xs))" by simp_all
  then show "y \<in> set xs" using assms by auto
  show "\<forall>x \<in> set xs. k y \<le> k x" using s assms by auto
qed

lemma event_wait_outcome:
  assumes w: "wait_wf w" "isActive w" "ww_kind w = Kind_EVENT"
    and now: "date_le (ww_armedAt w) now"
    and es: "\<And>e. e \<in> set es \<Longrightarrow> valid_date (ev_receivedAt e)"
  shows "case resolveWorkflowEventWaitDecision w es now of
      Inl err \<Rightarrow> False
    | Inr (Unchanged w') \<Rightarrow> w' = w \<and> eligible_events w now es = []
        \<and> \<not> (\<exists>t. ww_expiresAt w = Some t \<and> date_le t now)
    | Inr (Resolved w') \<Rightarrow>
        if eligible_events w now es = []
        then (\<exists>t. ww_expiresAt w = Some t \<and> date_le t now)
          \<and> w' = w\<lparr> ww_resolvedAt := Some now, ww_resolution := Some Res_TIMEOUT \<rparr>
        else \<exists>e \<in> set (eligible_events w now es).
          (\<forall>e' \<in> set (eligible_events w now es).
             (ev_receivedAt e, ev_id e) \<le> (ev_receivedAt e', ev_id e'))
          \<and> w' = w\<lparr> ww_resolvedAt := Some now, ww_resolution := Some Res_EVENT,
              ww_resolvedByEventId := Some (ev_id e) \<rparr>"
proof -
  have v: "valid_date now" "\<not> date_lt now (ww_armedAt w)"
    using now date_le_valid date_le_not_lt by auto
  have none: "ww_resolution w = None" "ww_resolvedAt w = None" "ww_resolvedByEventId w = None"
    using w by (auto simp: wait_wf_def isActive_def)
  have na: "assertResolvedAtNotBeforeArmed (ww_armedAt w) now = None"
    using v by (simp add: assertResolvedAtNotBeforeArmed_def)
  note base = resolveWorkflowEventWaitDecision_def decideWorkflowEventWait_def
    selectWorkflowEventForWait_def candidates_total [OF w(1) v(1) es] w(2,3) v
  show ?thesis
  proof (cases "sort_key (\<lambda>e. (ev_receivedAt e, ev_id e)) (eligible_events w now es)")
    case Nil
    then have e: "eligible_events w now es = []"
      by (metis set_empty set_sort)
    have "resolveTimeout w now = Inr (w\<lparr> ww_resolvedAt := Some now, ww_resolution := Some Res_TIMEOUT \<rparr>)"
      if "ww_expiresAt w = Some t" "date_le t now" for t
      using w none na v that date_le_not_lt [OF that(2)]
      by (auto simp: resolveTimeout_def withResolution_def freeze_Inr wait_wf_def opt_valid_def)
    with e show ?thesis by (auto simp: base Nil split: option.splits)
  next
    case (Cons e rest)
    note h = sort_key_head [OF Cons]
    then have ne: "eligible_events w now es \<noteq> []" by auto
    have el: "isWorkflowEventEligibleForWait w e now = Inr True"
      using eligible_total [OF w(1) v(1) es, of e] h(1) by (auto simp: eligible_events_def)
    have "resolveEvent w e now = Inr (w\<lparr> ww_resolvedAt := Some now, ww_resolution := Some Res_EVENT,
              ww_resolvedByEventId := Some (ev_id e) \<rparr>)"
      using w none na v el
      by (auto simp: resolveEvent_def withEventResolution_def freeze_Inr wait_wf_def opt_valid_def
          assertWorkflowEventEligibleForWait_def)
    with h ne show ?thesis by (auto simp: base Cons)
  qed
qed

text \<open>
  C23. Deciding an armed event wait never fails and is exactly this: the eligible event received
  first ends it, the smaller id breaking a tie; with none, a reached deadline ends it as
  TIMEOUT; otherwise it stays as it is. An event received before the deadline thus wins over the
  timeout even when both are found at once.
\<close>

theorem event_wait_decision:
  assumes "WorkflowWait_arm c = Inr w" "ww_kind w = Kind_EVENT" "date_le (ww_armedAt w) now"
    and "\<And>e. e \<in> set es \<Longrightarrow> valid_date (ev_receivedAt e)"
  shows "case resolveWorkflowEventWaitDecision w es now of
      Inl err \<Rightarrow> False
    | Inr (Unchanged w') \<Rightarrow> w' = w \<and> eligible_events w now es = []
        \<and> \<not> (\<exists>t. ww_expiresAt w = Some t \<and> date_le t now)
    | Inr (Resolved w') \<Rightarrow>
        if eligible_events w now es = []
        then (\<exists>t. ww_expiresAt w = Some t \<and> date_le t now)
          \<and> w' = w\<lparr> ww_resolvedAt := Some now, ww_resolution := Some Res_TIMEOUT \<rparr>
        else \<exists>e \<in> set (eligible_events w now es).
          (\<forall>e' \<in> set (eligible_events w now es).
             (ev_receivedAt e, ev_id e) \<le> (ev_receivedAt e', ev_id e'))
          \<and> w' = w\<lparr> ww_resolvedAt := Some now, ww_resolution := Some Res_EVENT,
              ww_resolvedByEventId := Some (ev_id e) \<rparr>"
  using event_wait_outcome [OF _ _ assms(2,3,4)] arm_wf [OF assms(1)] by blast

definition sample_event_arm :: arm_command where
  "sample_event_arm = \<lparr> ac_workspaceId = ''w'', ac_workflowRunId = ''r'', ac_workflowNodeRunId = ''n'',
     ac_workflowRunCreatedAt = DateMs 0,
     ac_wait = Wait_EVENT ''s'' ''t'' (Corr_LITERAL ''k'') (Some (Finite 100)),
     ac_nodeInput = JNull, ac_armedAt = DateMs 10 \<rparr>"

definition sample_event_wait :: workflow_wait where
  "sample_event_wait = (blank_wait sample_event_arm Kind_EVENT (DateMs 10))
     \<lparr> ww_eventSource := Some ''s'', ww_eventType := Some ''t'', ww_correlationKey := Some ''k'',
       ww_eligibleFrom := Some (DateMs 0), ww_expiresAt := Some (DateMs 110) \<rparr>"

definition sample_event :: "string \<Rightarrow> int \<Rightarrow> workflow_event" where
  "sample_event i t = \<lparr> ev_id = i, ev_workspaceId = ''w'', ev_source = ''s'', ev_eventType = ''t'',
     ev_correlationKey = ''k'', ev_idempotencyKey = i, ev_payload = JNull, ev_occurredAt = None,
     ev_receivedAt = DateMs t \<rparr>"

lemma sample_event_armed: "WorkflowWait_arm sample_event_arm = Inr sample_event_wait"
  "ww_kind sample_event_wait = Kind_EVENT" "date_le (ww_armedAt sample_event_wait) (DateMs 200)"
  by code_simp+

theorem event_wait_decision_witness:
  "(case resolveWorkflowEventWaitDecision sample_event_wait
      [sample_event ''b'' 50, sample_event ''a'' 110, sample_event ''c'' 150] (DateMs 200) of
     Inl err \<Rightarrow> False | Inr out \<Rightarrow> True)
   \<and> map ev_id (eligible_events sample_event_wait (DateMs 200)
      [sample_event ''b'' 50, sample_event ''a'' 110, sample_event ''c'' 150]) = [''b'', ''a'']"
proof
  let ?es = "[sample_event ''b'' 50, sample_event ''a'' 110, sample_event ''c'' 150]"
  have "valid_date (ev_receivedAt e)" if "e \<in> set ?es" for e
    using that by (auto simp: sample_event_def)
  note outcome = event_wait_decision [OF sample_event_armed, of ?es, OF this]
  show "case resolveWorkflowEventWaitDecision sample_event_wait ?es (DateMs 200) of
     Inl err \<Rightarrow> False | Inr out \<Rightarrow> True"
    using outcome by (cases "resolveWorkflowEventWaitDecision sample_event_wait ?es (DateMs 200)") simp_all
  show "map ev_id (eligible_events sample_event_wait (DateMs 200) ?es) = [''b'', ''a'']"
    by code_simp
qed

text \<open>
  The string \<open>2026-13-01T00:00:00Z\<close> passes the instant check of a definition's UNTIL wait, yet
  arming such a wait always fails: the month makes it no date at all.
\<close>

theorem until_month_13:
  "isValidUtcIso8601Instant ''2026-13-01T00:00:00Z''
   \<and> (\<forall>c. \<exists>e. WorkflowWait_arm (c\<lparr> ac_wait := Wait_UNTIL ''2026-13-01T00:00:00Z'' \<rparr>) = Inl e)"
proof
  show "isValidUtcIso8601Instant ''2026-13-01T00:00:00Z''" by code_simp
  have p: "parse_instant ''2026-13-01T00:00:00Z'' = InvalidDate" by code_simp
  show "\<forall>c. \<exists>e. WorkflowWait_arm (c\<lparr> ac_wait := Wait_UNTIL ''2026-13-01T00:00:00Z'' \<rparr>) = Inl e"
    by (auto simp: WorkflowWait_arm_def p copyInstant_def and_then_def split: sum.splits)
qed

end
