(* ===== verification/Approval.thy ===== *)
theory Approval
  imports Json_Text Workflow_Run_Model
begin

text \<open>
  Human approvals (\<open>domain/src/approval-request.ts\<close>, \<open>approval-operation-binding.ts\<close>): a
  request is decided once, and an approval authorizes one operation, the one whose digest it
  carries. SHA-256 is the parameter \<open>sha256\<close>, a function of the text it is given.
\<close>

subsection \<open>Operation bindings (approval-operation-binding.ts)\<close>

datatype approval_operation_kind = Op_WORKFLOW_NODE_PROGRESSION | Op_TOOL_INVOCATION

primrec operation_kind_name :: "approval_operation_kind \<Rightarrow> string" where
  "operation_kind_name Op_WORKFLOW_NODE_PROGRESSION = ''WORKFLOW_NODE_PROGRESSION''"
| "operation_kind_name Op_TOOL_INVOCATION = ''TOOL_INVOCATION''"

record node_binding_context =
  nb_workspaceId :: string
  nb_workflowRunId :: string
  nb_workflowNodeRunId :: string
  nb_nodeInput :: jsv

record tool_binding_context =
  tb_workspaceId :: string
  tb_workflowRunId :: string
  tb_runId :: string
  tb_runAttemptId :: string
  tb_bindingName :: string
  tb_toolVersionId :: string
  tb_arguments :: jsv

definition buildWorkflowNodeProgressionBinding ::
    "(json_token list \<Rightarrow> string) \<Rightarrow> node_binding_context \<Rightarrow> jsv" where
  "buildWorkflowNodeProgressionBinding sha256 c = JObject
     [(''schemaVersion'', JNumber (Finite 1)),
      (''kind'', JString (operation_kind_name Op_WORKFLOW_NODE_PROGRESSION)),
      (''workspaceId'', JString (nb_workspaceId c)),
      (''workflowRunId'', JString (nb_workflowRunId c)),
      (''workflowNodeRunId'', JString (nb_workflowNodeRunId c)),
      (''inputDigest'', JString (digestCanonicalJsonValue sha256 (nb_nodeInput c)))]"

definition buildToolInvocationBinding ::
    "(json_token list \<Rightarrow> string) \<Rightarrow> tool_binding_context \<Rightarrow> jsv" where
  "buildToolInvocationBinding sha256 c = JObject
     [(''schemaVersion'', JNumber (Finite 1)),
      (''kind'', JString (operation_kind_name Op_TOOL_INVOCATION)),
      (''workspaceId'', JString (tb_workspaceId c)),
      (''workflowRunId'', JString (tb_workflowRunId c)),
      (''runId'', JString (tb_runId c)),
      (''runAttemptId'', JString (tb_runAttemptId c)),
      (''bindingName'', JString (tb_bindingName c)),
      (''toolVersionId'', JString (tb_toolVersionId c)),
      (''argumentsDigest'', JString (digestCanonicalJsonValue sha256 (tb_arguments c)))]"

definition digestApprovalOperationBinding :: "(json_token list \<Rightarrow> string) \<Rightarrow> jsv \<Rightarrow> string" where
  "digestApprovalOperationBinding sha256 binding = ''sha256:'' @ sha256 (canonicalJsonStringify binding)"

definition recomputeWorkflowNodeProgressionDigest ::
    "(json_token list \<Rightarrow> string) \<Rightarrow> workflow_node_run \<Rightarrow> string" where
  "recomputeWorkflowNodeProgressionDigest sha256 nodeRun =
     digestApprovalOperationBinding sha256 (buildWorkflowNodeProgressionBinding sha256
       \<lparr> nb_workspaceId = n_workspaceId nodeRun, nb_workflowRunId = n_workflowRunId nodeRun,
         nb_workflowNodeRunId = n_id nodeRun, nb_nodeInput = n_input nodeRun \<rparr>)"

subsection \<open>Approval requests (approval-request.ts)\<close>

record 's approval_of =
  ap_id :: string
  ap_workspaceId :: string
  ap_workflowRunId :: string
  ap_workflowNodeRunId :: string
  ap_status :: 's
  ap_decisionComment :: "string option"
  ap_decidedAt :: "js_date option"
  ap_createdAt :: js_date
  ap_updatedAt :: js_date
  ap_operationKind :: "approval_operation_kind option"
  ap_operationDigest :: "string option"
  ap_expiresAt :: "js_date option"

type_synonym approval_request = "approval_request_state approval_of"
type_synonym approval_props = "string approval_of"

definition bounded_comment :: "string option \<Rightarrow> osva_error + string option" where
  "bounded_comment c =
     (case c of None \<Rightarrow> Inr None
      | Some s \<Rightarrow> and_then (requireBoundedNonEmptyString s ''ApprovalRequest.decisionComment'' 4000)
          (\<lambda>s'. Inr (Some s')))"

lemma bounded_comment_Inr [result_simps]:
  "bounded_comment c = Inr d \<longleftrightarrow> (\<forall>s. c = Some s \<longrightarrow> \<not> js_blank s \<and> length s \<le> 4000) \<and> d = c"
  by (cases c) (auto simp: bounded_comment_def result_simps)

definition ApprovalRequest_instantiate :: "approval_props \<Rightarrow> osva_error + approval_request" where
  "ApprovalRequest_instantiate p =
     (if ap_id p = '''' then Inl (DomainInvariantError ''ApprovalRequest.id is required.'')
      else if ap_workspaceId p = ''''
      then Inl (DomainInvariantError ''ApprovalRequest.workspaceId is required.'')
      else if ap_workflowRunId p = ''''
      then Inl (DomainInvariantError ''ApprovalRequest.workflowRunId is required.'')
      else if ap_workflowNodeRunId p = ''''
      then Inl (DomainInvariantError ''ApprovalRequest.workflowNodeRunId is required.'')
      else if (ap_operationKind p = None) \<noteq> (ap_operationDigest p = None)
      then Inl (DomainInvariantError
        ''ApprovalRequest operationKind and operationDigest must be set together.'')
      else case state_of_string approval_request_state_name APPROVAL_REQUEST_STATES (ap_status p) of
        None \<Rightarrow> Inl (DomainInvariantError (''Invalid approval request status: '' @ ap_status p))
      | Some status \<Rightarrow>
        if status = AR_PENDING \<and> (ap_decidedAt p \<noteq> None \<or> ap_decisionComment p \<noteq> None)
        then Inl (DomainInvariantError ''A PENDING ApprovalRequest cannot record a decision.'')
        else if status \<noteq> AR_PENDING \<and> ap_decidedAt p = None
        then Inl (DomainInvariantError ''A resolved ApprovalRequest must record decidedAt.'')
        else
          and_then (copyInstant (ap_createdAt p)) (\<lambda>createdAt.
          and_then (copyInstant (ap_updatedAt p)) (\<lambda>updatedAt.
            if date_lt updatedAt createdAt
            then Inl (DomainInvariantError ''ApprovalRequest.updatedAt cannot be earlier than createdAt.'')
            else
              and_then (bounded_comment (ap_decisionComment p)) (\<lambda>comment.
              and_then (copyOptInstant (ap_decidedAt p)) (\<lambda>decidedAt.
              and_then (copyOptInstant (ap_expiresAt p)) (\<lambda>expiresAt.
                Inr \<lparr> ap_id = ap_id p, ap_workspaceId = ap_workspaceId p,
                  ap_workflowRunId = ap_workflowRunId p, ap_workflowNodeRunId = ap_workflowNodeRunId p,
                  ap_status = status, ap_decisionComment = comment, ap_decidedAt = decidedAt,
                  ap_createdAt = createdAt, ap_updatedAt = updatedAt,
                  ap_operationKind = ap_operationKind p, ap_operationDigest = ap_operationDigest p,
                  ap_expiresAt = expiresAt \<rparr>))))))"

record approval_create_props =
  apc_id :: string
  apc_workspaceId :: string
  apc_workflowRunId :: string
  apc_workflowNodeRunId :: string
  apc_createdAt :: js_date
  apc_operationKind :: "approval_operation_kind option"
  apc_operationDigest :: "string option"
  apc_expiresAt :: "js_date option"

definition ApprovalRequest_create :: "approval_create_props \<Rightarrow> osva_error + approval_request" where
  "ApprovalRequest_create p = ApprovalRequest_instantiate
     \<lparr> ap_id = apc_id p, ap_workspaceId = apc_workspaceId p, ap_workflowRunId = apc_workflowRunId p,
       ap_workflowNodeRunId = apc_workflowNodeRunId p, ap_status = ''PENDING'',
       ap_decisionComment = None, ap_decidedAt = None, ap_createdAt = apc_createdAt p,
       ap_updatedAt = apc_createdAt p, ap_operationKind = apc_operationKind p,
       ap_operationDigest = apc_operationDigest p, ap_expiresAt = apc_expiresAt p \<rparr>"

record progression_input =
  pi_id :: string
  pi_workspaceId :: string
  pi_workflowRunId :: string
  pi_workflowNodeRunId :: string
  pi_nodeInput :: jsv
  pi_createdAt :: js_date
  pi_expiresAt :: "js_date option"

definition ApprovalRequest_createForWorkflowNodeProgression ::
    "(json_token list \<Rightarrow> string) \<Rightarrow> progression_input \<Rightarrow> osva_error + approval_request" where
  "ApprovalRequest_createForWorkflowNodeProgression sha256 i =
     (let binding = buildWorkflowNodeProgressionBinding sha256
            \<lparr> nb_workspaceId = pi_workspaceId i, nb_workflowRunId = pi_workflowRunId i,
              nb_workflowNodeRunId = pi_workflowNodeRunId i, nb_nodeInput = pi_nodeInput i \<rparr>
      in ApprovalRequest_create
        \<lparr> apc_id = pi_id i, apc_workspaceId = pi_workspaceId i, apc_workflowRunId = pi_workflowRunId i,
          apc_workflowNodeRunId = pi_workflowNodeRunId i, apc_createdAt = pi_createdAt i,
          apc_operationKind = Some Op_WORKFLOW_NODE_PROGRESSION,
          apc_operationDigest = Some (digestApprovalOperationBinding sha256 binding),
          apc_expiresAt = pi_expiresAt i \<rparr>)"

definition ApprovalRequest_rehydrate :: "approval_props \<Rightarrow> osva_error + approval_request" where
  "ApprovalRequest_rehydrate p = ApprovalRequest_instantiate p"

definition ApprovalRequest_toProps :: "approval_request \<Rightarrow> approval_props" where
  "ApprovalRequest_toProps r =
     \<lparr> ap_id = ap_id r, ap_workspaceId = ap_workspaceId r, ap_workflowRunId = ap_workflowRunId r,
       ap_workflowNodeRunId = ap_workflowNodeRunId r,
       ap_status = approval_request_state_name (ap_status r),
       ap_decisionComment = ap_decisionComment r, ap_decidedAt = ap_decidedAt r,
       ap_createdAt = ap_createdAt r, ap_updatedAt = ap_updatedAt r,
       ap_operationKind = ap_operationKind r, ap_operationDigest = ap_operationDigest r,
       ap_expiresAt = ap_expiresAt r \<rparr>"

definition ApprovalRequest_decide :: "approval_request \<Rightarrow> approval_request_state \<Rightarrow> js_date
    \<Rightarrow> string option \<Rightarrow> osva_error + approval_request" where
  "ApprovalRequest_decide r status now comment =
     after_check (assertLegalApprovalRequestTransition (ap_status r) status)
       (and_then (bounded_comment comment) (\<lambda>c.
         ApprovalRequest_instantiate ((ApprovalRequest_toProps r)
           \<lparr> ap_status := approval_request_state_name status, ap_decisionComment := c,
             ap_decidedAt := Some now, ap_updatedAt := now \<rparr>)))"

definition ApprovalRequest_markApproved ::
    "approval_request \<Rightarrow> js_date \<Rightarrow> string option \<Rightarrow> osva_error + approval_request" where
  "ApprovalRequest_markApproved r now comment = ApprovalRequest_decide r AR_APPROVED now comment"

definition ApprovalRequest_markRejected ::
    "approval_request \<Rightarrow> js_date \<Rightarrow> string option \<Rightarrow> osva_error + approval_request" where
  "ApprovalRequest_markRejected r now comment = ApprovalRequest_decide r AR_REJECTED now comment"

subsection \<open>What an approval authorizes\<close>

definition assertApprovalNotExpired :: "approval_request \<Rightarrow> js_date \<Rightarrow> osva_error option" where
  "assertApprovalNotExpired request now =
     (if (case ap_expiresAt request of None \<Rightarrow> False | Some x \<Rightarrow> date_lt x now)
      then Some (ApprovalExpiredError (ap_id request)) else None)"

definition assertWorkflowNodeApprovalBinding ::
    "(json_token list \<Rightarrow> string) \<Rightarrow> approval_request \<Rightarrow> workflow_node_run \<Rightarrow> osva_error option" where
  "assertWorkflowNodeApprovalBinding sha256 request nodeRun =
     (if ap_operationKind request = None \<or> ap_operationDigest request = None then None
      else if ap_operationKind request \<noteq> Some Op_WORKFLOW_NODE_PROGRESSION
      then Some (ApprovalOperationMismatchError (Some (ap_id request)))
      else if ap_workspaceId request \<noteq> n_workspaceId nodeRun
        \<or> ap_workflowRunId request \<noteq> n_workflowRunId nodeRun
        \<or> ap_workflowNodeRunId request \<noteq> n_id nodeRun
      then Some (ApprovalOperationMismatchError (Some (ap_id request)))
      else if ap_operationDigest request \<noteq> Some (recomputeWorkflowNodeProgressionDigest sha256 nodeRun)
      then Some (ApprovalOperationMismatchError (Some (ap_id request)))
      else None)"

datatype approval_decision = Decision_APPROVED | Decision_REJECTED

definition assertApprovalDecisionAuthorizesOperation :: "(json_token list \<Rightarrow> string)
    \<Rightarrow> approval_request \<Rightarrow> workflow_node_run \<Rightarrow> approval_decision \<Rightarrow> js_date \<Rightarrow> osva_error option" where
  "assertApprovalDecisionAuthorizesOperation sha256 request nodeRun decision now =
     (if decision = Decision_REJECTED then None
      else case assertApprovalNotExpired request now of
        Some e \<Rightarrow> Some e
      | None \<Rightarrow> assertWorkflowNodeApprovalBinding sha256 request nodeRun)"

definition assertToolInvocationMatchesApprovalBinding :: "(json_token list \<Rightarrow> string)
    \<Rightarrow> approval_operation_kind option \<Rightarrow> string option \<Rightarrow> tool_binding_context \<Rightarrow> osva_error option" where
  "assertToolInvocationMatchesApprovalBinding sha256 operationKind operationDigest context =
     (if operationKind = None \<or> operationDigest = None
      then Some (ApprovalOperationMismatchError None)
      else if operationKind \<noteq> Some Op_TOOL_INVOCATION
      then Some (ApprovalOperationMismatchError None)
      else if operationDigest \<noteq> Some (digestApprovalOperationBinding sha256
          (buildToolInvocationBinding sha256 context))
      then Some (ApprovalOperationMismatchError None)
      else None)"

subsection \<open>One decision\<close>

definition approval_wf :: "approval_request \<Rightarrow> bool" where
  "approval_wf r \<longleftrightarrow> ap_id r \<noteq> '''' \<and> ap_workspaceId r \<noteq> '''' \<and> ap_workflowRunId r \<noteq> ''''
     \<and> ap_workflowNodeRunId r \<noteq> ''''
     \<and> (ap_operationKind r = None \<longleftrightarrow> ap_operationDigest r = None)
     \<and> (ap_status r = AR_PENDING \<longleftrightarrow> ap_decidedAt r = None)
     \<and> (ap_status r = AR_PENDING \<longrightarrow> ap_decisionComment r = None)
     \<and> date_le (ap_createdAt r) (ap_updatedAt r)
     \<and> (\<forall>d. ap_decidedAt r = Some d \<longrightarrow> valid_date d) \<and> (\<forall>d. ap_expiresAt r = Some d \<longrightarrow> valid_date d)
     \<and> (\<forall>s. ap_decisionComment r = Some s \<longrightarrow> \<not> js_blank s \<and> length s \<le> 4000)"

lemma approval_instantiate_wf:
  "ApprovalRequest_instantiate p = Inr r \<Longrightarrow> approval_wf r \<and> ap_status p = approval_request_state_name (ap_status r)"
  by (auto simp: ApprovalRequest_instantiate_def approval_wf_def result_simps date_not_lt
      dest: approval_lc.state_of_string_Some split: if_splits option.splits)

lemma approval_instantiate_Inr:
  assumes "approval_wf r" "s \<noteq> AR_PENDING"
  shows "ApprovalRequest_instantiate ((ApprovalRequest_toProps r)
      \<lparr> ap_status := approval_request_state_name s, ap_decisionComment := c,
        ap_decidedAt := Some now, ap_updatedAt := now \<rparr>) = Inr r' \<longleftrightarrow>
    date_le (ap_createdAt r) now \<and> (\<forall>x. c = Some x \<longrightarrow> \<not> js_blank x \<and> length x \<le> 4000)
    \<and> r' = r\<lparr> ap_status := s, ap_decisionComment := c, ap_decidedAt := Some now, ap_updatedAt := now \<rparr>"
proof -
  have "valid_date (ap_createdAt r)" using assms date_le_valid by (auto simp: approval_wf_def)
  then show ?thesis
    using assms date_le_valid [of "ap_createdAt r" now] date_not_lt [of now "ap_createdAt r"]
    by (auto simp: ApprovalRequest_instantiate_def ApprovalRequest_toProps_def approval_wf_def
        result_simps approval_lc.state_of_name date_le_not_lt copyOptInstant_Inr split: if_splits)
qed

lemma approval_transition_check:
  "assertLegalApprovalRequestTransition a b =
     (if (a, b) \<in> set LEGAL_APPROVAL_REQUEST_TRANSITIONS then None
      else Some (InvalidApprovalRequestTransitionError a b))"
  by (simp add: assertLegalApprovalRequestTransition_def isLegalApprovalRequestTransition_def
      approval_lc.legal_by_key_iff)

lemma approval_decide_refused:
  "ap_status r \<noteq> AR_PENDING \<Longrightarrow>
     ApprovalRequest_decide r s now c = Inl (InvalidApprovalRequestTransitionError (ap_status r) s)"
  by (cases "ap_status r") (auto simp: ApprovalRequest_decide_def approval_transition_check
      LEGAL_APPROVAL_REQUEST_TRANSITIONS_def)

lemma approval_decide_Inr:
  assumes "approval_wf r" "s \<noteq> AR_PENDING"
  shows "ApprovalRequest_decide r s now c = Inr r' \<longleftrightarrow>
    ap_status r = AR_PENDING \<and> date_le (ap_createdAt r) now
    \<and> (\<forall>x. c = Some x \<longrightarrow> \<not> js_blank x \<and> length x \<le> 4000)
    \<and> r' = r\<lparr> ap_status := s, ap_decisionComment := c, ap_decidedAt := Some now, ap_updatedAt := now \<rparr>"
proof (cases "ap_status r = AR_PENDING")
  case True
  with assms(2) have "assertLegalApprovalRequestTransition (ap_status r) s = None"
    by (cases s) (auto simp: approval_transition_check LEGAL_APPROVAL_REQUEST_TRANSITIONS_def)
  with True approval_instantiate_Inr [OF assms] show ?thesis
    by (auto simp: ApprovalRequest_decide_def result_simps)
qed (simp add: approval_decide_refused)

text \<open>
  C28. A request is decided at most once. A decision on a request as it was created or read back
  succeeds exactly when it is still pending, the time is not before its creation and the comment
  is absent or neither blank nor too long; it records status, comment and time and nothing else;
  and every later decision on the result fails.
\<close>

theorem approval_decided_once:
  assumes "ApprovalRequest_rehydrate p = Inr r"
  shows "(ApprovalRequest_markApproved r now c = Inr r' \<longleftrightarrow>
      ap_status r = AR_PENDING \<and> date_le (ap_createdAt r) now
      \<and> (\<forall>x. c = Some x \<longrightarrow> \<not> js_blank x \<and> length x \<le> 4000)
      \<and> r' = r\<lparr> ap_status := AR_APPROVED, ap_decisionComment := c, ap_decidedAt := Some now,
          ap_updatedAt := now \<rparr>)
    \<and> (ApprovalRequest_markRejected r now c = Inr r' \<longleftrightarrow>
      ap_status r = AR_PENDING \<and> date_le (ap_createdAt r) now
      \<and> (\<forall>x. c = Some x \<longrightarrow> \<not> js_blank x \<and> length x \<le> 4000)
      \<and> r' = r\<lparr> ap_status := AR_REJECTED, ap_decisionComment := c, ap_decidedAt := Some now,
          ap_updatedAt := now \<rparr>)
    \<and> (ap_status r \<noteq> AR_PENDING \<longrightarrow>
      ApprovalRequest_markApproved r now c = Inl (InvalidApprovalRequestTransitionError (ap_status r) AR_APPROVED)
      \<and> ApprovalRequest_markRejected r now c
        = Inl (InvalidApprovalRequestTransitionError (ap_status r) AR_REJECTED))"
proof -
  have w: "approval_wf r" using assms approval_instantiate_wf by (auto simp: ApprovalRequest_rehydrate_def)
  show ?thesis
    unfolding ApprovalRequest_markApproved_def ApprovalRequest_markRejected_def
    using approval_decide_Inr [OF w, of AR_APPROVED] approval_decide_Inr [OF w, of AR_REJECTED]
    by (simp add: approval_decide_refused)
qed

subsection \<open>The digest determines the operation\<close>

lemma progression_text:
  "canonicalJsonStringify (buildWorkflowNodeProgressionBinding sha256 c) =
    [TOpenObject, TString ''inputDigest'', TColon, TString (digestCanonicalJsonValue sha256 (nb_nodeInput c)), TComma,
     TString ''kind'', TColon, TString ''WORKFLOW_NODE_PROGRESSION'', TComma,
     TString ''schemaVersion'', TColon, TNumber (Finite 1), TComma,
     TString ''workflowNodeRunId'', TColon, TString (nb_workflowNodeRunId c), TComma,
     TString ''workflowRunId'', TColon, TString (nb_workflowRunId c), TComma,
     TString ''workspaceId'', TColon, TString (nb_workspaceId c), TCloseObject]"
  by (simp add: canonicalJsonStringify_def buildWorkflowNodeProgressionBinding_def property_order_def
      array_index_def assign_entries_def proto_key_def)


text \<open>Two different texts with the same SHA-256 value.\<close>

definition collision :: "(json_token list \<Rightarrow> string) \<Rightarrow> jsv \<Rightarrow> jsv \<Rightarrow> bool" where
  "collision sha256 v w \<longleftrightarrow> canonicalJsonStringify v \<noteq> canonicalJsonStringify w
     \<and> sha256 (canonicalJsonStringify v) = sha256 (canonicalJsonStringify w)"

lemma progression_digest_eq:
  assumes "nb_workspaceId c = nb_workspaceId d" "nb_workflowRunId c = nb_workflowRunId d"
    "nb_workflowNodeRunId c = nb_workflowNodeRunId d"
  shows "digestApprovalOperationBinding sha256 (buildWorkflowNodeProgressionBinding sha256 c)
      = digestApprovalOperationBinding sha256 (buildWorkflowNodeProgressionBinding sha256 d)
    \<longleftrightarrow> canonicalJsonStringify (nb_nodeInput c) = canonicalJsonStringify (nb_nodeInput d)
      \<or> collision sha256 (nb_nodeInput c) (nb_nodeInput d)
      \<or> collision sha256 (buildWorkflowNodeProgressionBinding sha256 c)
          (buildWorkflowNodeProgressionBinding sha256 d)"
proof -
  have "canonicalJsonStringify (buildWorkflowNodeProgressionBinding sha256 c)
      = canonicalJsonStringify (buildWorkflowNodeProgressionBinding sha256 d)
    \<longleftrightarrow> sha256 (canonicalJsonStringify (nb_nodeInput c)) = sha256 (canonicalJsonStringify (nb_nodeInput d))"
    using assms by (simp add: progression_text digestCanonicalJsonValue_def)
  then show ?thesis by (auto simp: digestApprovalOperationBinding_def collision_def)
qed

definition request_context :: "progression_input \<Rightarrow> node_binding_context" where
  "request_context i = \<lparr> nb_workspaceId = pi_workspaceId i, nb_workflowRunId = pi_workflowRunId i,
     nb_workflowNodeRunId = pi_workflowNodeRunId i, nb_nodeInput = pi_nodeInput i \<rparr>"

text \<open>
  C29. An approval authorizes the operation it was requested for and no other. A request made
  for the progression of a workflow node authorizes a node run exactly when it has not expired
  and the node run is the one of the request, with an input that is the requested one up to the
  order of properties. The only exceptions are inputs, or bindings, whose texts are different
  and have the same SHA-256 value.
\<close>

theorem approval_authorizes_operation:
  assumes "ApprovalRequest_createForWorkflowNodeProgression sha256 i = Inr r"
    and "plain_json (pi_nodeInput i)" "distinct_names (pi_nodeInput i)"
    and "plain_json (n_input n)" "distinct_names (n_input n)"
  shows "assertApprovalDecisionAuthorizesOperation sha256 r n Decision_APPROVED now = None \<longleftrightarrow>
    (case pi_expiresAt i of None \<Rightarrow> True | Some t \<Rightarrow> \<not> date_lt t now)
    \<and> n_id n = pi_workflowNodeRunId i \<and> n_workspaceId n = pi_workspaceId i
    \<and> n_workflowRunId n = pi_workflowRunId i
    \<and> (same_json (pi_nodeInput i) (n_input n)
      \<or> collision sha256 (pi_nodeInput i) (n_input n)
      \<or> collision sha256 (buildWorkflowNodeProgressionBinding sha256 (request_context i))
          (buildWorkflowNodeProgressionBinding sha256
            (request_context i\<lparr> nb_nodeInput := n_input n \<rparr>)))"
proof -
  have r: "ap_operationKind r = Some Op_WORKFLOW_NODE_PROGRESSION"
    "ap_operationDigest r = Some (digestApprovalOperationBinding sha256
      (buildWorkflowNodeProgressionBinding sha256 (request_context i)))"
    "ap_workspaceId r = pi_workspaceId i" "ap_workflowRunId r = pi_workflowRunId i"
    "ap_workflowNodeRunId r = pi_workflowNodeRunId i" "ap_expiresAt r = pi_expiresAt i"
    using assms(1) by (auto simp: ApprovalRequest_createForWorkflowNodeProgression_def Let_def
        ApprovalRequest_create_def ApprovalRequest_instantiate_def result_simps copyOptInstant_Inr
        request_context_def split: if_splits option.splits)
  note d = progression_digest_eq [of "request_context i" "request_context i\<lparr> nb_nodeInput := n_input n \<rparr>",
      unfolded canonical_text_iff [OF assms(2,4,3,5)]]
  show ?thesis
    using d [of sha256] canonical_text_iff [OF assms(2,4,3,5)]
    by (auto simp: assertApprovalDecisionAuthorizesOperation_def assertApprovalNotExpired_def
        assertWorkflowNodeApprovalBinding_def recomputeWorkflowNodeProgressionDigest_def r
        request_context_def split: option.splits if_splits)
qed

definition sample_progression :: progression_input where
  "sample_progression = \<lparr> pi_id = ''a1'', pi_workspaceId = ''w'', pi_workflowRunId = ''r'',
     pi_workflowNodeRunId = ''n'', pi_nodeInput = JObject [(''x'', JNull), (''y'', JBool True)],
     pi_createdAt = DateMs 1, pi_expiresAt = Some (DateMs 100) \<rparr>"

definition sample_node_run :: "jsv \<Rightarrow> workflow_node_run" where
  "sample_node_run v = \<lparr> n_id = ''n'', n_workspaceId = ''w'', n_workflowRunId = ''r'',
     n_workflowNodeKey = ''k'', n_sequence = 1, n_status = NR_WAITING, n_input = v,
     n_output = JUndefined, n_childRunId = None, n_selectedTargetKey = None, n_error = None,
     n_startedAt = Some (DateMs 1), n_completedAt = None, n_createdAt = DateMs 1,
     n_updatedAt = DateMs 1 \<rparr>"

text \<open>A stand-in for SHA-256 that tells these two inputs apart: the length of the text.\<close>

definition length_hash :: "json_token list \<Rightarrow> string" where
  "length_hash ts = replicate (length ts) (CHR ''0'')"

theorem approval_authorizes_operation_witness:
  "\<exists>r. ApprovalRequest_createForWorkflowNodeProgression length_hash sample_progression = Inr r
     \<and> assertApprovalDecisionAuthorizesOperation length_hash r
         (sample_node_run (JObject [(''y'', JBool True), (''x'', JNull)])) Decision_APPROVED (DateMs 50) = None"
proof -
  let ?v = "JObject [(''y'', JBool True), (''x'', JNull)]"
  have "case ApprovalRequest_createForWorkflowNodeProgression length_hash sample_progression of
      Inl e \<Rightarrow> False | Inr r \<Rightarrow> True" by code_simp
  then obtain r where r: "ApprovalRequest_createForWorkflowNodeProgression length_hash sample_progression
      = Inr r" by (auto split: sum.splits)
  have p: "plain_json (pi_nodeInput sample_progression)" "distinct_names (pi_nodeInput sample_progression)"
    "plain_json (n_input (sample_node_run ?v))" "distinct_names (n_input (sample_node_run ?v))"
    by (simp_all add: sample_progression_def sample_node_run_def proto_key_def)
  have "same_json (pi_nodeInput sample_progression) (n_input (sample_node_run ?v))"
    using p by (subst canonical_text_iff [symmetric]) (simp_all, code_simp)
  with r approval_authorizes_operation [OF r p, of "DateMs 50"] show ?thesis
    by (auto simp: sample_progression_def sample_node_run_def)
qed

theorem approval_decided_once_witness:
  "\<exists>r r'. ApprovalRequest_createForWorkflowNodeProgression length_hash sample_progression = Inr r
     \<and> ApprovalRequest_markApproved r (DateMs 5) None = Inr r'
     \<and> ApprovalRequest_markRejected r' (DateMs 6) None
         = Inl (InvalidApprovalRequestTransitionError AR_APPROVED AR_REJECTED)"
proof -
  have "case ApprovalRequest_createForWorkflowNodeProgression length_hash sample_progression of
      Inl e \<Rightarrow> False
    | Inr r \<Rightarrow> (case ApprovalRequest_markApproved r (DateMs 5) None of
        Inl e \<Rightarrow> False
      | Inr r' \<Rightarrow> ap_status r' = AR_APPROVED
          \<and> ApprovalRequest_rehydrate (ApprovalRequest_toProps r') = Inr r')" by code_simp
  then obtain r r' where r: "ApprovalRequest_createForWorkflowNodeProgression length_hash sample_progression
      = Inr r" "ApprovalRequest_markApproved r (DateMs 5) None = Inr r'" "ap_status r' = AR_APPROVED"
      "ApprovalRequest_rehydrate (ApprovalRequest_toProps r') = Inr r'"
    by (auto split: sum.splits)
  from r approval_decided_once [OF r(4), of "DateMs 6" None] show ?thesis by auto
qed

end
