(* ===== verification/Workflow_Store.thy ===== *)
theory Workflow_Store
  imports Workflow_Readiness Workflow_Wait_Facts Approval
begin

text \<open>
  Workflows, their versions and the repositories of the workflow side of the memory adapter:
  \<open>domain/src/workflow.ts\<close>, \<open>workflow-version.ts\<close> and
  \<open>adapters/memory/src/memory-workflow-repository.ts\<close>, \<open>memory-workflow-run-repository.ts\<close>,
  \<open>memory-workflow-wait-repository.ts\<close>, \<open>memory-workflow-event-repository.ts\<close>,
  \<open>memory-approval-request-repository.ts\<close> and the two wait resolution repositories. Of
  \<open>packages/db/src/repositories/postgres-workflow-run-repository.ts\<close> the operations that write.
  An operation that throws leaves its store as it was, so operations return the new store or the
  error.
\<close>

subsection \<open>Workflows and versions (workflow.ts, workflow-version.ts)\<close>

record workflow =
  wk_id :: string
  wk_workspaceId :: string
  wk_key :: string
  wk_name :: string
  wk_description :: "string option"
  wk_createdAt :: js_date
  wk_updatedAt :: js_date

definition Workflow_create :: "workflow \<Rightarrow> osva_error + workflow" where
  "Workflow_create p =
     (if wk_id p = '''' then Inl (DomainInvariantError ''Workflow.id is required.'')
      else if wk_workspaceId p = '''' then Inl (DomainInvariantError ''Workflow.workspaceId is required.'')
      else
        and_then (copyInstant (wk_createdAt p)) (\<lambda>createdAt.
        and_then (copyInstant (wk_updatedAt p)) (\<lambda>updatedAt.
          if date_lt updatedAt createdAt
          then Inl (DomainInvariantError ''Workflow.updatedAt cannot be earlier than createdAt.'')
          else
            and_then (requireNonEmptyString (wk_key p) ''Workflow.key'') (\<lambda>key.
            and_then (requireNonEmptyString (wk_name p) ''Workflow.name'') (\<lambda>name.
            and_then (require_opt (wk_description p) ''Workflow.description'') (\<lambda>description.
              Inr \<lparr> wk_id = wk_id p, wk_workspaceId = wk_workspaceId p, wk_key = key, wk_name = name,
                wk_description = description, wk_createdAt = createdAt, wk_updatedAt = updatedAt \<rparr>))))))"

record workflow_version =
  wv_id :: string
  wv_workflowId :: string
  wv_workspaceId :: string
  wv_version :: int
  wv_definition :: workflow_definition
  wv_createdAt :: js_date

text \<open>
  The definition is an object by its type, and \<open>freezeClone\<close> of it is the same value, so the
  test for an object has no counterpart.
\<close>

definition WorkflowVersion_create :: "workflow_version \<Rightarrow> osva_error + workflow_version" where
  "WorkflowVersion_create p =
     (if wv_id p = '''' then Inl (DomainInvariantError ''WorkflowVersion.id is required.'')
      else if wv_workflowId p = '''' then Inl (DomainInvariantError ''WorkflowVersion.workflowId is required.'')
      else if wv_workspaceId p = '''' then Inl (DomainInvariantError ''WorkflowVersion.workspaceId is required.'')
      else after_check (assertWorkflowDefinition (wv_definition p))
        (and_then (requirePositiveInteger (wv_version p) ''WorkflowVersion.version'') (\<lambda>version.
         and_then (copyInstant (wv_createdAt p)) (\<lambda>createdAt.
           Inr (p\<lparr> wv_version := version, wv_createdAt := createdAt \<rparr>)))))"

subsection \<open>The workflow repository (memory-workflow-repository.ts)\<close>

record workflow_catalog =
  wc_workflows :: "(string, workflow) js_map"
  wc_versions :: "(string, workflow_version) js_map"

definition saveWorkflow :: "workflow \<Rightarrow> workflow_catalog \<Rightarrow> osva_error + workflow_catalog" where
  "saveWorkflow w s =
     (if \<exists>e\<in>set (map_values (wc_workflows s)). wk_id e \<noteq> wk_id w \<and> wk_workspaceId e = wk_workspaceId w
          \<and> wk_key e = wk_key w
      then Inl (DuplicateKeyError ''Workflow'' (wk_workspaceId w) (wk_key w))
      else Inr (s\<lparr> wc_workflows := AList.update (wk_id w) w (wc_workflows s) \<rparr>))"

definition findWorkflowById :: "workflow_catalog \<Rightarrow> string \<Rightarrow> workflow option" where
  "findWorkflowById s i = map_of (wc_workflows s) i"

definition findWorkflowByWorkspaceAndId :: "workflow_catalog \<Rightarrow> string \<Rightarrow> string \<Rightarrow> workflow option" where
  "findWorkflowByWorkspaceAndId s workspaceId i =
     (case map_of (wc_workflows s) i of None \<Rightarrow> None
      | Some w \<Rightarrow> if wk_workspaceId w \<noteq> workspaceId then None else Some w)"

definition listWorkflowsByWorkspaceId :: "workflow_catalog \<Rightarrow> string \<Rightarrow> workflow list" where
  "listWorkflowsByWorkspaceId s workspaceId = sort_key (\<lambda>w. (wk_createdAt w, wk_id w))
     (filter (\<lambda>w. wk_workspaceId w = workspaceId) (map_values (wc_workflows s)))"

definition listWorkflows :: "workflow_catalog \<Rightarrow> workflow list" where
  "listWorkflows s = sort_key (\<lambda>w. (wk_createdAt w, wk_id w)) (map_values (wc_workflows s))"

text \<open>Two versions are compared with their definitions printed by \<open>JSON.stringify\<close>, a parameter.\<close>

definition isSameWorkflowVersion ::
    "(workflow_definition \<Rightarrow> string) \<Rightarrow> workflow_version \<Rightarrow> workflow_version \<Rightarrow> bool" where
  "isSameWorkflowVersion stringify l r =
     (wv_id l = wv_id r \<and> wv_workflowId l = wv_workflowId r \<and> wv_workspaceId l = wv_workspaceId r
      \<and> wv_version l = wv_version r \<and> date_eq (wv_createdAt l) (wv_createdAt r)
      \<and> stringify (wv_definition l) = stringify (wv_definition r))"

definition saveWorkflowVersion :: "(workflow_definition \<Rightarrow> string) \<Rightarrow> workflow_version
    \<Rightarrow> workflow_catalog \<Rightarrow> osva_error + workflow_catalog" where
  "saveWorkflowVersion stringify v s =
     (case map_of (wc_versions s) (wv_id v) of
        Some existing \<Rightarrow>
          if \<not> isSameWorkflowVersion stringify existing v
          then Inl (DomainInvariantError (''WorkflowVersion '' @ quoted (wv_id v)
            @ '' is immutable and cannot be replaced with different content.''))
          else Inr (s\<lparr> wc_versions := AList.update (wv_id v) existing (wc_versions s) \<rparr>)
      | None \<Rightarrow>
          if \<exists>e\<in>set (map_values (wc_versions s)). wv_workflowId e = wv_workflowId v \<and> wv_version e = wv_version v
          then Inl (DomainInvariantError (''WorkflowVersion already exists for workflow ''
            @ quoted (wv_workflowId v) @ '' version '' @ nat_str (nat (wv_version v)) @ ''.''))
          else Inr (s\<lparr> wc_versions := AList.update (wv_id v) v (wc_versions s) \<rparr>))"

record append_workflow_version_input =
  awi_id :: string
  awi_workflowId :: string
  awi_definition :: workflow_definition
  awi_createdAt :: js_date

definition max_workflow_version :: "workflow_catalog \<Rightarrow> string \<Rightarrow> int" where
  "max_workflow_version s workflowId =
     foldl (\<lambda>m v. if wv_workflowId v = workflowId \<and> m < wv_version v then wv_version v else m) 0
       (map_values (wc_versions s))"

definition appendWorkflowVersion :: "(workflow_definition \<Rightarrow> string) \<Rightarrow> append_workflow_version_input
    \<Rightarrow> workflow_catalog \<Rightarrow> osva_error + (workflow_version \<times> workflow_catalog)" where
  "appendWorkflowVersion stringify i s =
     (case map_of (wc_workflows s) (awi_workflowId i) of
        None \<Rightarrow> Inl (NotFoundError ''Workflow'' (awi_workflowId i))
      | Some w \<Rightarrow>
        and_then (WorkflowVersion_create \<lparr> wv_id = awi_id i, wv_workflowId = awi_workflowId i,
            wv_workspaceId = wk_workspaceId w, wv_version = max_workflow_version s (awi_workflowId i) + 1,
            wv_definition = awi_definition i, wv_createdAt = awi_createdAt i \<rparr>) (\<lambda>v.
        and_then (saveWorkflowVersion stringify v s) (\<lambda>s'. Inr (v, s'))))"

definition findWorkflowVersionById :: "workflow_catalog \<Rightarrow> string \<Rightarrow> workflow_version option" where
  "findWorkflowVersionById s i = map_of (wc_versions s) i"

definition listWorkflowVersions :: "workflow_catalog \<Rightarrow> string \<Rightarrow> workflow_version list" where
  "listWorkflowVersions s workflowId =
     sort_key wv_version (filter (\<lambda>v. wv_workflowId v = workflowId) (map_values (wc_versions s)))"

subsection \<open>Workflow runs and node runs (memory-workflow-run-repository.ts)\<close>

record workflow_run_store =
  ws_runs :: "(string, workflow_run) js_map"
  ws_nodes :: "(string, workflow_node_run) js_map"

definition saveWorkflowRun :: "workflow_run \<Rightarrow> workflow_run_store \<Rightarrow> osva_error + workflow_run_store" where
  "saveWorkflowRun w s =
     (if map_of (ws_runs s) (w_id w) \<noteq> None
      then Inl (DomainInvariantError (''A WorkflowRun with id '' @ quoted (w_id w) @ '' already exists.''))
      else Inr (s\<lparr> ws_runs := AList.update (w_id w) w (ws_runs s) \<rparr>))"

definition findWorkflowRunById :: "workflow_run_store \<Rightarrow> string \<Rightarrow> workflow_run option" where
  "findWorkflowRunById s i = map_of (ws_runs s) i"

definition findWorkflowRunByWorkspaceAndId ::
    "workflow_run_store \<Rightarrow> string \<Rightarrow> string \<Rightarrow> workflow_run option" where
  "findWorkflowRunByWorkspaceAndId s workspaceId i =
     (case map_of (ws_runs s) i of None \<Rightarrow> None
      | Some w \<Rightarrow> if w_workspaceId w \<noteq> workspaceId then None else Some w)"

definition listActiveWorkflowRuns :: "workflow_run_store \<Rightarrow> nat \<Rightarrow> workflow_run list" where
  "listActiveWorkflowRuns s limit = take limit (sort_key (\<lambda>w. (w_createdAt w, w_id w))
     (filter (\<lambda>w. \<not> isTerminalWorkflowRunState (w_status w)) (map_values (ws_runs s))))"

record workflow_run_query =
  wq_workspaceId :: string
  wq_workflowId :: "string option"
  wq_workflowVersionId :: "string option"
  wq_status :: "workflow_run_state option"
  wq_cursor :: "(js_date \<times> string) option"
  wq_limit :: nat

definition isBeforeWorkflowRunListCursor :: "workflow_run \<Rightarrow> js_date \<times> string \<Rightarrow> bool" where
  "isBeforeWorkflowRunListCursor w c =
     (date_lt (w_createdAt w) (fst c) \<or> date_eq (w_createdAt w) (fst c) \<and> w_id w < snd c)"

definition matches_workflow_run_query :: "workflow_run_query \<Rightarrow> workflow_run \<Rightarrow> bool" where
  "matches_workflow_run_query q w =
     (w_workspaceId w = wq_workspaceId q
      \<and> (wq_workflowId q = None \<or> wq_workflowId q = Some (w_workflowId w))
      \<and> (wq_workflowVersionId q = None \<or> wq_workflowVersionId q = Some (w_workflowVersionId w))
      \<and> (wq_status q = None \<or> wq_status q = Some (w_status w))
      \<and> (case wq_cursor q of None \<Rightarrow> True | Some c \<Rightarrow> isBeforeWorkflowRunListCursor w c))"

text \<open>
  Newest first, for equal times the greater id first. The comparison gives a total order, so the
  descending sort is the ascending one reversed.
\<close>

definition listWorkflowRuns ::
    "workflow_run_store \<Rightarrow> workflow_run_query \<Rightarrow> workflow_run list \<times> (js_date \<times> string) option" where
  "listWorkflowRuns s q =
     (let filtered = rev (sort_key (\<lambda>w. (w_createdAt w, w_id w))
            (filter (matches_workflow_run_query q) (map_values (ws_runs s))));
          page = take (wq_limit q) filtered
      in (page, if wq_limit q < length filtered \<and> page \<noteq> []
                then Some (w_createdAt (last page), w_id (last page)) else None))"

definition transitionWorkflowRun :: "workflow_run_state \<Rightarrow> workflow_run \<Rightarrow> workflow_run_store
    \<Rightarrow> osva_error + (workflow_run \<times> workflow_run_store)" where
  "transitionWorkflowRun expectedStatus next s =
     after_check (assertLegalWorkflowRunTransition expectedStatus (w_status next))
       (case map_of (ws_runs s) (w_id next) of
          None \<Rightarrow> Inl (WorkflowRunNotFoundError (w_id next))
        | Some current \<Rightarrow>
            if w_status current \<noteq> expectedStatus
            then Inl (LifecycleConflictError ''workflowRun'' (w_id next) (workflow_run_state_name expectedStatus))
            else Inr (next, s\<lparr> ws_runs := AList.update (w_id next) next (ws_runs s) \<rparr>))"

text \<open>The loop that looks for a stored node run the new one may not stand beside.\<close>

definition node_conflict :: "workflow_node_run \<Rightarrow> workflow_node_run \<Rightarrow> osva_error option" where
  "node_conflict n stored =
     (if n_workflowRunId stored = n_workflowRunId n \<and> n_workflowNodeKey stored = n_workflowNodeKey n
      then Some (DomainInvariantError (''WorkflowNodeRun already exists for workflow run ''
        @ quoted (n_workflowRunId n) @ '' node '' @ quoted (n_workflowNodeKey n) @ ''.''))
      else if n_workflowRunId stored = n_workflowRunId n \<and> n_sequence stored = n_sequence n
      then Some (DomainInvariantError (''WorkflowNodeRun sequence '' @ nat_str (nat (n_sequence n))
        @ '' already exists for workflow run '' @ quoted (n_workflowRunId n) @ ''.''))
      else if n_childRunId stored \<noteq> None \<and> n_childRunId stored = n_childRunId n
      then Some (DomainInvariantError (''Child Run '' @ quoted (the (n_childRunId n))
        @ '' is already attached to a WorkflowNodeRun.''))
      else None)"

definition child_conflict :: "workflow_node_run \<Rightarrow> workflow_node_run \<Rightarrow> osva_error option" where
  "child_conflict n existing =
     (if n_childRunId existing \<noteq> None \<and> n_childRunId n \<noteq> None \<and> n_childRunId existing \<noteq> n_childRunId n
      then Some (DomainInvariantError (''WorkflowNodeRun '' @ quoted (n_id n) @ '' already has child Run ''
        @ quoted (the (n_childRunId existing)) @ ''.''))
      else None)"

definition saveWorkflowNodeRun :: "workflow_node_run \<Rightarrow> workflow_run_store \<Rightarrow> osva_error + workflow_run_store" where
  "saveWorkflowNodeRun n s =
     (case map_of (ws_nodes s) (n_id n) of
        Some existing \<Rightarrow>
          after_check (child_conflict n existing) (Inr (s\<lparr> ws_nodes := AList.update (n_id n) n (ws_nodes s) \<rparr>))
      | None \<Rightarrow>
          after_check (check_all (node_conflict n) (map_values (ws_nodes s)))
            (Inr (s\<lparr> ws_nodes := AList.update (n_id n) n (ws_nodes s) \<rparr>)))"

definition findWorkflowNodeRunById :: "workflow_run_store \<Rightarrow> string \<Rightarrow> workflow_node_run option" where
  "findWorkflowNodeRunById s i = map_of (ws_nodes s) i"

definition findWorkflowNodeRunByWorkflowRunAndKey ::
    "workflow_run_store \<Rightarrow> string \<Rightarrow> string \<Rightarrow> workflow_node_run option" where
  "findWorkflowNodeRunByWorkflowRunAndKey s workflowRunId key =
     find (\<lambda>n. n_workflowRunId n = workflowRunId \<and> n_workflowNodeKey n = key) (map_values (ws_nodes s))"

definition listWorkflowNodeRuns :: "workflow_run_store \<Rightarrow> string \<Rightarrow> workflow_node_run list" where
  "listWorkflowNodeRuns s workflowRunId =
     sort_key n_sequence (filter (\<lambda>n. n_workflowRunId n = workflowRunId) (map_values (ws_nodes s)))"

definition saveWorkflowNodeRunTransition :: "workflow_node_run_state \<Rightarrow> workflow_node_run
    \<Rightarrow> workflow_run_store \<Rightarrow> osva_error + (workflow_node_run \<times> workflow_run_store)" where
  "saveWorkflowNodeRunTransition expectedStatus next s =
     after_check (assertLegalWorkflowNodeRunTransition expectedStatus (n_status next))
       (case map_of (ws_nodes s) (n_id next) of
          None \<Rightarrow> Inl (WorkflowNodeRunNotFoundError (n_id next))
        | Some current \<Rightarrow>
            if n_status current \<noteq> expectedStatus
            then Inl (LifecycleConflictError ''workflowNodeRun'' (n_id next)
              (workflow_node_run_state_name expectedStatus))
            else Inr (next, s\<lparr> ws_nodes := AList.update (n_id next) next (ws_nodes s) \<rparr>))"

subsection \<open>The writes of the PostgreSQL repository (postgres-workflow-run-repository.ts)\<close>

text \<open>
  The database keeps the same rows. An update writes the columns it names and leaves the others,
  where the memory repository puts the given object in place of the stored one; a missing output
  and a null one are the same column value, which reads back as missing. The read that decides
  between insertion and update is taken as one step with the write. Unique indexes refuse what
  \<open>node_conflict\<close> refuses.
\<close>

definition column_json :: "jsv \<Rightarrow> jsv" where
  "column_json v = (if v = JNull then JUndefined else v)"

definition postgres_transitionWorkflowRun :: "workflow_run_state \<Rightarrow> workflow_run \<Rightarrow> workflow_run_store
    \<Rightarrow> osva_error + (workflow_run \<times> workflow_run_store)" where
  "postgres_transitionWorkflowRun expectedStatus next s =
     after_check (assertLegalWorkflowRunTransition expectedStatus (w_status next))
       (case map_of (ws_runs s) (w_id next) of
          None \<Rightarrow> Inl (WorkflowRunNotFoundError (w_id next))
        | Some current \<Rightarrow>
            if w_status current \<noteq> expectedStatus
            then Inl (LifecycleConflictError ''workflowRun'' (w_id next) (workflow_run_state_name expectedStatus))
            else let row = current\<lparr> w_status := w_status next, w_output := column_json (w_output next),
                   w_error := w_error next, w_startedAt := w_startedAt next,
                   w_completedAt := w_completedAt next, w_updatedAt := w_updatedAt next \<rparr>
                 in Inr (row, s\<lparr> ws_runs := AList.update (w_id next) row (ws_runs s) \<rparr>))"

definition postgres_saveWorkflowNodeRun ::
    "workflow_node_run \<Rightarrow> workflow_run_store \<Rightarrow> osva_error + workflow_run_store" where
  "postgres_saveWorkflowNodeRun n s =
     (case map_of (ws_nodes s) (n_id n) of
        Some existing \<Rightarrow>
          after_check (child_conflict n existing)
            (let row = existing\<lparr> n_childRunId := n_childRunId n, n_updatedAt := n_updatedAt n \<rparr>
             in Inr (s\<lparr> ws_nodes := AList.update (n_id n) row (ws_nodes s) \<rparr>))
      | None \<Rightarrow>
          after_check (check_all (node_conflict n) (map_values (ws_nodes s)))
            (let row = n\<lparr> n_output := column_json (n_output n) \<rparr>
             in Inr (s\<lparr> ws_nodes := AList.update (n_id n) row (ws_nodes s) \<rparr>)))"

definition postgres_saveWorkflowNodeRunTransition :: "workflow_node_run_state \<Rightarrow> workflow_node_run
    \<Rightarrow> workflow_run_store \<Rightarrow> osva_error + (workflow_node_run \<times> workflow_run_store)" where
  "postgres_saveWorkflowNodeRunTransition expectedStatus next s =
     after_check (assertLegalWorkflowNodeRunTransition expectedStatus (n_status next))
       (case map_of (ws_nodes s) (n_id next) of
          None \<Rightarrow> Inl (WorkflowNodeRunNotFoundError (n_id next))
        | Some current \<Rightarrow>
            if n_status current \<noteq> expectedStatus
            then Inl (LifecycleConflictError ''workflowNodeRun'' (n_id next)
              (workflow_node_run_state_name expectedStatus))
            else let row = current\<lparr> n_status := n_status next, n_output := column_json (n_output next),
                   n_childRunId := n_childRunId next, n_selectedTargetKey := n_selectedTargetKey next,
                   n_error := n_error next, n_startedAt := n_startedAt next,
                   n_completedAt := n_completedAt next, n_updatedAt := n_updatedAt next \<rparr>
                 in Inr (row, s\<lparr> ws_nodes := AList.update (n_id next) row (ws_nodes s) \<rparr>))"

subsection \<open>Waits (memory-workflow-wait-repository.ts)\<close>

type_synonym wait_store = "(string, workflow_wait) js_map"

definition saveWorkflowWait :: "workflow_wait \<Rightarrow> wait_store \<Rightarrow> osva_error + wait_store" where
  "saveWorkflowWait w s =
     (if map_of s (ww_workflowNodeRunId w) \<noteq> None
      then Inl (DomainInvariantError (''WorkflowWait already exists for WorkflowNodeRun ''
        @ quoted (ww_workflowNodeRunId w) @ ''.''))
      else Inr (AList.update (ww_workflowNodeRunId w) w s))"

definition findWorkflowWaitByWorkflowNodeRunId :: "wait_store \<Rightarrow> string \<Rightarrow> workflow_wait option" where
  "findWorkflowWaitByWorkflowNodeRunId s i = map_of s i"

definition listWorkflowWaitsByWorkflowRunId :: "wait_store \<Rightarrow> string \<Rightarrow> workflow_wait list" where
  "listWorkflowWaitsByWorkflowRunId s workflowRunId = sort_key (\<lambda>w. (ww_armedAt w, ww_workflowNodeRunId w))
     (filter (\<lambda>w. ww_workflowRunId w = workflowRunId) (map_values s))"

text \<open>A run the repository does not know counts as active.\<close>

definition isActiveWorkflowRunForWaitDiscovery :: "workflow_run_store \<Rightarrow> string \<Rightarrow> bool" where
  "isActiveWorkflowRunForWaitDiscovery runs workflowRunId =
     (case findWorkflowRunById runs workflowRunId of
        None \<Rightarrow> True | Some w \<Rightarrow> \<not> isTerminalWorkflowRunState (w_status w))"

definition due_timer :: "workflow_run_store \<Rightarrow> js_date \<Rightarrow> workflow_wait \<Rightarrow> bool" where
  "due_timer runs now w =
     (ww_kind w = Kind_TIMER \<and> ww_resolution w = None
      \<and> (case ww_wakeAt w of None \<Rightarrow> False | Some d \<Rightarrow> date_le d now)
      \<and> isActiveWorkflowRunForWaitDiscovery runs (ww_workflowRunId w))"

definition listDueTimerWorkflowWaits ::
    "workflow_run_store \<Rightarrow> wait_store \<Rightarrow> js_date \<Rightarrow> nat \<Rightarrow> workflow_wait list" where
  "listDueTimerWorkflowWaits runs s now limit =
     take limit (sort_key (\<lambda>w. (the (ww_wakeAt w), ww_workflowNodeRunId w))
       (filter (due_timer runs now) (map_values s)))"

record event_match_query =
  em_workspaceId :: string
  em_source :: string
  em_eventType :: string
  em_correlationKey :: string

definition listActiveEventWorkflowWaitsByMatch ::
    "workflow_run_store \<Rightarrow> wait_store \<Rightarrow> event_match_query \<Rightarrow> workflow_wait list" where
  "listActiveEventWorkflowWaitsByMatch runs s q =
     sort_key ww_workflowNodeRunId (filter (\<lambda>w. ww_kind w = Kind_EVENT \<and> ww_resolution w = None
       \<and> ww_workspaceId w = em_workspaceId q \<and> ww_eventSource w = Some (em_source q)
       \<and> ww_eventType w = Some (em_eventType q) \<and> ww_correlationKey w = Some (em_correlationKey q)
       \<and> isActiveWorkflowRunForWaitDiscovery runs (ww_workflowRunId w)) (map_values s))"

definition isResolvableEventWorkflowWait ::
    "workflow_event list \<Rightarrow> js_date \<Rightarrow> workflow_wait \<Rightarrow> osva_error + bool" where
  "isResolvableEventWorkflowWait events now w =
     (if ww_kind w \<noteq> Kind_EVENT \<or> ww_resolution w \<noteq> None then Inr False
      else if (case ww_expiresAt w of None \<Rightarrow> False | Some x \<Rightarrow> date_le x now) then Inr True
      else and_then (listWorkflowEventCandidatesForWait w events now) (\<lambda>cs. Inr (cs \<noteq> [])))"

definition listResolvableEventWorkflowWaits :: "workflow_run_store \<Rightarrow> workflow_event list \<Rightarrow> wait_store
    \<Rightarrow> js_date \<Rightarrow> nat \<Rightarrow> osva_error + workflow_wait list" where
  "listResolvableEventWorkflowWaits runs events s now limit =
     and_then (filter_result (\<lambda>w.
         if isActiveWorkflowRunForWaitDiscovery runs (ww_workflowRunId w)
         then isResolvableEventWorkflowWait events now w else Inr False) (map_values s)) (\<lambda>ws.
       Inr (take limit (sort_key (\<lambda>w. (ww_armedAt w, ww_workflowNodeRunId w)) ws)))"

definition assertWorkflowWaitResolutionIdentity :: "workflow_wait \<Rightarrow> workflow_wait \<Rightarrow> osva_error option" where
  "assertWorkflowWaitResolutionIdentity existing next =
     (if ww_workspaceId existing \<noteq> ww_workspaceId next \<or> ww_workflowRunId existing \<noteq> ww_workflowRunId next
      then Some (DomainInvariantError (''WorkflowWait identity mismatch for WorkflowNodeRun ''
        @ quoted (ww_workflowNodeRunId next) @ ''.''))
      else None)"

definition saveWorkflowWaitResolution ::
    "workflow_wait \<Rightarrow> wait_store \<Rightarrow> osva_error + (workflow_wait \<times> wait_store)" where
  "saveWorkflowWaitResolution next s =
     (case ww_resolution next of
        None \<Rightarrow> Inl (DomainInvariantError ''saveWorkflowWaitResolution requires a resolved WorkflowWait.'')
      | Some resolution \<Rightarrow>
      case map_of s (ww_workflowNodeRunId next) of
        None \<Rightarrow> Inl (WorkflowWaitNotFoundError (ww_workflowNodeRunId next))
      | Some existing \<Rightarrow>
          after_check (assertWorkflowWaitResolutionIdentity existing next)
          (case ww_resolution existing of
             None \<Rightarrow> Inr (next, AList.update (ww_workflowNodeRunId next) next s)
           | Some r \<Rightarrow>
               if hasSameDurableWorkflowWaitResolution existing next then Inr (existing, s)
               else Inl (resolution_conflict r resolution)))"

subsection \<open>Events (memory-workflow-event-repository.ts)\<close>

text \<open>
  The nested maps of the ingestion index are one map, whose keys are the triples; it is only read
  at a whole triple.
\<close>

record event_store =
  ves_byId :: "(string, workflow_event) js_map"
  ves_byIngestion :: "(string \<times> string \<times> string, workflow_event) js_map"

definition toSubmission :: "workflow_event \<Rightarrow> workflow_event_submission" where
  "toSubmission e =
     \<lparr> es_workspaceId = ev_workspaceId e, es_source = ev_source e, es_eventType = ev_eventType e,
       es_correlationKey = ev_correlationKey e, es_idempotencyKey = ev_idempotencyKey e,
       es_payload = ev_payload e, es_occurredAt = ev_occurredAt e \<rparr>"

definition findWorkflowEventByIngestionIdentity ::
    "event_store \<Rightarrow> string \<Rightarrow> string \<Rightarrow> string \<Rightarrow> workflow_event option" where
  "findWorkflowEventByIngestionIdentity s workspaceId source key =
     map_of (ves_byIngestion s) (workspaceId, source, key)"

definition indexIngestion :: "workflow_event \<Rightarrow> event_store \<Rightarrow> event_store" where
  "indexIngestion e s = s\<lparr> ves_byIngestion :=
     AList.update (ev_workspaceId e, ev_source e, ev_idempotencyKey e) e (ves_byIngestion s) \<rparr>"

definition saveWorkflowEvent :: "workflow_event \<Rightarrow> event_store \<Rightarrow> osva_error + (workflow_event \<times> event_store)" where
  "saveWorkflowEvent e s =
     (let submission = toSubmission e
      in case findWorkflowEventByIngestionIdentity s (ev_workspaceId e) (ev_source e) (ev_idempotencyKey e) of
           Some existing \<Rightarrow>
             after_check (assertWorkflowEventEquivalentRetry existing submission) (Inr (existing, s))
         | None \<Rightarrow>
             (case map_of (ves_byId s) (ev_id e) of
                Some existing \<Rightarrow>
                  if hasWorkflowEventIngestionIdentity existing submission
                    \<and> isEquivalentWorkflowEventRetry existing submission
                  then Inr (existing, s)
                  else Inl (DomainInvariantError (''WorkflowEvent id '' @ quoted (ev_id e)
                    @ '' is already persisted with a different ingestion identity.''))
              | None \<Rightarrow> Inr (e, indexIngestion e (s\<lparr> ves_byId := AList.update (ev_id e) e (ves_byId s) \<rparr>))))"

definition findWorkflowEventById :: "event_store \<Rightarrow> string \<Rightarrow> workflow_event option" where
  "findWorkflowEventById s i = map_of (ves_byId s) i"

subsection \<open>Approval requests (memory-approval-request-repository.ts)\<close>

type_synonym approval_store = "(string, approval_request) js_map"

definition saveApprovalRequest :: "approval_request \<Rightarrow> approval_store \<Rightarrow> osva_error + approval_store" where
  "saveApprovalRequest r s =
     (if map_of s (ap_id r) \<noteq> None
      then Inl (DomainInvariantError (''An ApprovalRequest with id '' @ quoted (ap_id r) @ '' already exists.''))
      else if \<exists>e\<in>set (map_values s). ap_workflowNodeRunId e = ap_workflowNodeRunId r
      then Inl (DomainInvariantError (''ApprovalRequest already exists for WorkflowNodeRun ''
        @ quoted (ap_workflowNodeRunId r) @ ''.''))
      else Inr (AList.update (ap_id r) r s))"

definition findApprovalRequestById :: "approval_store \<Rightarrow> string \<Rightarrow> approval_request option" where
  "findApprovalRequestById s i = map_of s i"

definition findApprovalRequestByWorkspaceAndId ::
    "approval_store \<Rightarrow> string \<Rightarrow> string \<Rightarrow> approval_request option" where
  "findApprovalRequestByWorkspaceAndId s workspaceId i =
     (case map_of s i of None \<Rightarrow> None
      | Some r \<Rightarrow> if ap_workspaceId r \<noteq> workspaceId then None else Some r)"

definition findApprovalRequestByWorkflowNodeRunId :: "approval_store \<Rightarrow> string \<Rightarrow> approval_request option" where
  "findApprovalRequestByWorkflowNodeRunId s nodeRunId =
     find (\<lambda>r. ap_workflowNodeRunId r = nodeRunId) (map_values s)"

definition listApprovalRequestsByWorkflowRunId :: "approval_store \<Rightarrow> string \<Rightarrow> approval_request list" where
  "listApprovalRequestsByWorkflowRunId s workflowRunId = sort_key (\<lambda>r. (ap_createdAt r, ap_id r))
     (filter (\<lambda>r. ap_workflowRunId r = workflowRunId) (map_values s))"

text \<open>The variant that takes an audit event drops it.\<close>

definition saveApprovalRequestTransition :: "approval_request_state \<Rightarrow> approval_request
    \<Rightarrow> approval_store \<Rightarrow> osva_error + (approval_request \<times> approval_store)" where
  "saveApprovalRequestTransition expectedStatus next s =
     after_check (assertLegalApprovalRequestTransition expectedStatus (ap_status next))
       (case map_of s (ap_id next) of
          None \<Rightarrow> Inl (ApprovalRequestNotFoundError (ap_id next))
        | Some current \<Rightarrow>
            if ap_status current \<noteq> expectedStatus
            then Inl (LifecycleConflictError ''approvalRequest'' (ap_id next)
              (approval_request_state_name expectedStatus))
            else Inr (next, AList.update (ap_id next) next s))"

end
