(* ===== verification/Run_Step.thy ===== *)
theory Run_Step
  imports Run_Model
begin

text \<open>
  Run steps (\<open>domain/src/run-step.ts\<close>), the model, tool, memory and knowledge calls of an
  attempt with what they used, and which of them count towards the usage of an attempt
  (\<open>isMeasurableModelRunStep\<close> of \<open>evaluation-run-usage.ts\<close>).
\<close>

datatype run_step_kind = Step_MODEL | Step_TOOL | Step_MEMORY | Step_KNOWLEDGE

datatype run_step_status = Step_RUNNING | Step_SUCCEEDED | Step_FAILED

primrec step_kind_name :: "run_step_kind \<Rightarrow> string" where
  "step_kind_name Step_MODEL = ''MODEL''"
| "step_kind_name Step_TOOL = ''TOOL''"
| "step_kind_name Step_MEMORY = ''MEMORY''"
| "step_kind_name Step_KNOWLEDGE = ''KNOWLEDGE''"

primrec step_status_name :: "run_step_status \<Rightarrow> string" where
  "step_status_name Step_RUNNING = ''RUNNING''"
| "step_status_name Step_SUCCEEDED = ''SUCCEEDED''"
| "step_status_name Step_FAILED = ''FAILED''"

definition RUN_STEP_KINDS :: "run_step_kind list" where
  "RUN_STEP_KINDS = [Step_MODEL, Step_TOOL, Step_MEMORY, Step_KNOWLEDGE]"

definition RUN_STEP_STATUSES :: "run_step_status list" where
  "RUN_STEP_STATUSES = [Step_RUNNING, Step_SUCCEEDED, Step_FAILED]"

text \<open>A cost that was not reported, is known to be unpriced (\<open>null\<close>), or is an amount.\<close>

datatype step_cost = Cost_Undefined | Cost_Null | Cost_Micros int

record ('k, 's) run_step_of =
  st_id :: string
  st_runId :: string
  st_runAttemptId :: string
  st_kind :: 'k
  st_bindingName :: string
  st_status :: 's
  st_startedAt :: js_date
  st_completedAt :: "js_date option"
  st_modelProfileVersionId :: "string option"
  st_toolVersionId :: "string option"
  st_inputTokens :: "int option"
  st_outputTokens :: "int option"
  st_totalTokens :: "int option"
  st_cachedInputTokens :: "int option"
  st_estimatedCostUsdMicros :: step_cost
  st_errorCode :: "string option"

type_synonym run_step = "(run_step_kind, run_step_status) run_step_of"
type_synonym run_step_props = "(string, string) run_step_of"

definition assertIdentity :: "('k, 's) run_step_of \<Rightarrow> string \<Rightarrow> osva_error option" where
  "assertIdentity p kind =
     (if st_id p = '''' then Some (DomainInvariantError ''RunStep.id is required.'')
      else if st_runId p = ''''
      then Some (DomainInvariantError ''RunStep must belong to a Run (runId is required).'')
      else if st_runAttemptId p = ''''
      then Some (DomainInvariantError ''RunStep must belong to a RunAttempt (runAttemptId is required).'')
      else if state_of_string step_kind_name RUN_STEP_KINDS kind = None
      then Some (DomainInvariantError ''RunStep.kind is invalid.'')
      else case requireNonEmptyString (st_bindingName p) ''RunStep.bindingName'' of
        Inl e \<Rightarrow> Some e
      | Inr n \<Rightarrow> (case copyInstant (st_startedAt p) of Inl e \<Rightarrow> Some e | Inr t \<Rightarrow> None))"

definition assertKindTarget :: "('k, 's) run_step_of \<Rightarrow> string \<Rightarrow> osva_error option" where
  "assertKindTarget p kind =
     (if kind = ''MODEL'' then
        (if st_modelProfileVersionId p = None
         then Some (DomainInvariantError ''MODEL RunStep.modelProfileVersionId is required.'')
         else if st_toolVersionId p \<noteq> None
         then Some (DomainInvariantError ''MODEL RunStep must not carry toolVersionId.'')
         else None)
      else if kind = ''MEMORY'' then
        (if st_modelProfileVersionId p \<noteq> None
         then Some (DomainInvariantError ''MEMORY RunStep must not carry modelProfileVersionId.'')
         else if st_toolVersionId p \<noteq> None
         then Some (DomainInvariantError ''MEMORY RunStep must not carry toolVersionId.'')
         else None)
      else if kind = ''KNOWLEDGE'' then
        (if st_modelProfileVersionId p \<noteq> None
         then Some (DomainInvariantError ''KNOWLEDGE RunStep must not carry modelProfileVersionId.'')
         else if st_toolVersionId p \<noteq> None
         then Some (DomainInvariantError ''KNOWLEDGE RunStep must not carry toolVersionId.'')
         else None)
      else if st_toolVersionId p = None
      then Some (DomainInvariantError ''TOOL RunStep.toolVersionId is required.'')
      else if st_modelProfileVersionId p \<noteq> None
      then Some (DomainInvariantError ''TOOL RunStep must not carry modelProfileVersionId.'')
      else None)"

text \<open>
  \<open>start\<close> keeps the identity it was given; the kind is the caller's, valid once
  \<open>assertIdentity\<close> has passed.
\<close>

definition RunStep_start :: "(run_step_kind, unit) run_step_of \<Rightarrow> osva_error + run_step" where
  "RunStep_start p =
     after_check (assertIdentity p (step_kind_name (st_kind p)))
     (after_check (assertKindTarget p (step_kind_name (st_kind p)))
       (Inr \<lparr> st_id = st_id p, st_runId = st_runId p, st_runAttemptId = st_runAttemptId p,
          st_kind = st_kind p, st_bindingName = st_bindingName p, st_status = Step_RUNNING,
          st_startedAt = st_startedAt p, st_completedAt = None,
          st_modelProfileVersionId = st_modelProfileVersionId p,
          st_toolVersionId = st_toolVersionId p, st_inputTokens = None, st_outputTokens = None,
          st_totalTokens = None, st_cachedInputTokens = None,
          st_estimatedCostUsdMicros = Cost_Undefined, st_errorCode = None \<rparr>))"

definition optionalNonNegativeInteger :: "int option \<Rightarrow> osva_error + int option" where
  "optionalNonNegativeInteger v =
     (case v of None \<Rightarrow> Inr None
      | Some n \<Rightarrow> and_then (requireNonNegativeInteger n ''RunStep token count'') (\<lambda>m. Inr (Some m)))"

definition RunStep_create :: "run_step_props \<Rightarrow> osva_error + run_step" where
  "RunStep_create p =
     after_check (assertIdentity p (st_kind p))
     (after_check (assertKindTarget p (st_kind p))
       (case (state_of_string step_kind_name RUN_STEP_KINDS (st_kind p),
              state_of_string step_status_name RUN_STEP_STATUSES (st_status p)) of
          (Some kind, Some status) \<Rightarrow>
            and_then (copyInstant (st_startedAt p)) (\<lambda>startedAt.
            and_then (copyOptInstant (st_completedAt p)) (\<lambda>completedAt.
              if status \<noteq> Step_RUNNING \<and> completedAt = None
              then Inl (DomainInvariantError ''Terminal RunStep.completedAt is required.'')
              else if status \<noteq> Step_RUNNING \<and> date_lt (the completedAt) startedAt
              then Inl (DomainInvariantError ''RunStep.completedAt cannot be earlier than startedAt.'')
              else if status = Step_FAILED
                \<and> (case st_errorCode p of None \<Rightarrow> True | Some c \<Rightarrow> js_blank c)
              then Inl (DomainInvariantError ''Failed RunStep.errorCode is required.'')
              else if status = Step_SUCCEEDED \<and> st_errorCode p \<noteq> None
              then Inl (DomainInvariantError ''Succeeded RunStep must not carry errorCode.'')
              else
                and_then (requireNonEmptyString (st_bindingName p) ''RunStep.bindingName'') (\<lambda>binding.
                and_then (optionalNonNegativeInteger (st_inputTokens p)) (\<lambda>input.
                and_then (optionalNonNegativeInteger (st_outputTokens p)) (\<lambda>output.
                and_then (optionalNonNegativeInteger (st_totalTokens p)) (\<lambda>total.
                and_then (optionalNonNegativeInteger (st_cachedInputTokens p)) (\<lambda>cached.
                and_then (require_opt (st_errorCode p) ''RunStep.errorCode'') (\<lambda>code.
                  Inr \<lparr> st_id = st_id p, st_runId = st_runId p, st_runAttemptId = st_runAttemptId p,
                    st_kind = kind, st_bindingName = binding, st_status = status,
                    st_startedAt = startedAt, st_completedAt = completedAt,
                    st_modelProfileVersionId = st_modelProfileVersionId p,
                    st_toolVersionId = st_toolVersionId p, st_inputTokens = input,
                    st_outputTokens = output, st_totalTokens = total, st_cachedInputTokens = cached,
                    st_estimatedCostUsdMicros = st_estimatedCostUsdMicros p,
                    st_errorCode = code \<rparr>))))))))
        | _ \<Rightarrow> Inl (DomainInvariantError ''RunStep.status is invalid.'')))"

record finalize_step =
  fs_status :: run_step_status
  fs_completedAt :: js_date
  fs_inputTokens :: "int option"
  fs_outputTokens :: "int option"
  fs_totalTokens :: "int option"
  fs_cachedInputTokens :: "int option"
  fs_estimatedCostUsdMicros :: step_cost
  fs_errorCode :: "string option"

definition RunStep_finalize :: "run_step \<Rightarrow> finalize_step \<Rightarrow> osva_error + run_step" where
  "RunStep_finalize s p =
     (if st_status s \<noteq> Step_RUNNING
      then Inl (DomainInvariantError ''Only RUNNING RunSteps can be finalized.'')
      else RunStep_create
        \<lparr> st_id = st_id s, st_runId = st_runId s, st_runAttemptId = st_runAttemptId s,
          st_kind = step_kind_name (st_kind s), st_bindingName = st_bindingName s,
          st_status = step_status_name (fs_status p), st_startedAt = st_startedAt s,
          st_completedAt = Some (fs_completedAt p),
          st_modelProfileVersionId = st_modelProfileVersionId s,
          st_toolVersionId = st_toolVersionId s, st_inputTokens = fs_inputTokens p,
          st_outputTokens = fs_outputTokens p, st_totalTokens = fs_totalTokens p,
          st_cachedInputTokens = fs_cachedInputTokens p,
          st_estimatedCostUsdMicros = fs_estimatedCostUsdMicros p,
          st_errorCode = fs_errorCode p \<rparr>)"

subsection \<open>Usage\<close>

definition or_zero :: "int option \<Rightarrow> int" where
  "or_zero v = (case v of None \<Rightarrow> 0 | Some n \<Rightarrow> n)"

definition is_priced :: "step_cost \<Rightarrow> bool" where
  "is_priced c = (case c of Cost_Micros n \<Rightarrow> True | _ \<Rightarrow> False)"

definition isMeasurableModelRunStep :: "run_step \<Rightarrow> bool" where
  "isMeasurableModelRunStep s =
     (if st_kind s \<noteq> Step_MODEL then False
      else if st_status s = Step_SUCCEEDED then True
      else if st_status s = Step_FAILED
      then 0 < or_zero (st_inputTokens s) \<or> 0 < or_zero (st_outputTokens s)
        \<or> is_priced (st_estimatedCostUsdMicros s)
      else False)"

record usage_summary =
  us_modelCalls :: int
  us_toolCalls :: int
  us_inputTokens :: int
  us_outputTokens :: int
  us_totalTokens :: int
  us_cachedInputTokens :: int
  us_estimatedCostUsdMicros :: "int option"
  us_pricedModelCalls :: int
  us_unpricedModelCalls :: int

end
