(* ===== verification/Run_Store.thy ===== *)
theory Run_Store
  imports Run_Step
begin

text \<open>
  The run repository of the memory adapter (\<open>adapters/memory/src/memory-run-repository.ts\<close>):
  runs, attempts and steps in maps by id, an index of idempotency keys, and the operations that
  change them. Every operation takes the store and returns it with a result or the error it
  throws; \<open>clockNow\<close> is what the repository's clock answers. One operation runs to its end
  before the next, as the operations of the database adapter do in their transactions.
\<close>

record run_store =
  rs_runs :: "(string, run) js_map"
  rs_attempts :: "(string, run_attempt) js_map"
  rs_steps :: "(string, run_step) js_map"
  rs_index :: "(string, string) js_map"

definition empty_run_store :: run_store where
  "empty_run_store = \<lparr> rs_runs = [], rs_attempts = [], rs_steps = [], rs_index = [] \<rparr>"

type_synonym 'a store_result = "run_store \<times> (osva_error + 'a)"

text \<open>An operation after another: what the first returns is handed on, an error ends both.\<close>

definition op_then :: "'a store_result \<Rightarrow> ('a \<Rightarrow> run_store \<Rightarrow> 'b store_result) \<Rightarrow> 'b store_result" where
  "op_then r f = (case r of (s, Inl e) \<Rightarrow> (s, Inl e) | (s, Inr x) \<Rightarrow> f x s)"

lemma op_then_simps [simp]:
  "op_then (s, Inl e) f = (s, Inl e)" "op_then (s, Inr x) f = f x s"
  by (simp_all add: op_then_def)

lemma op_then_Inr: "op_then r f = (s', Inr y) \<longleftrightarrow> (\<exists>s x. r = (s, Inr x) \<and> f x s = (s', Inr y))"
  by (cases r; cases "snd r") (auto simp: op_then_def)

text \<open>A computation that may throw before the store is touched.\<close>

definition op_lift :: "(osva_error + 'a) \<Rightarrow> ('a \<Rightarrow> run_store \<Rightarrow> 'b store_result) \<Rightarrow> run_store \<Rightarrow> 'b store_result" where
  "op_lift r f s = (case r of Inl e \<Rightarrow> (s, Inl e) | Inr x \<Rightarrow> f x s)"

lemma op_lift_simps [simp]: "op_lift (Inl e) f s = (s, Inl e)" "op_lift (Inr x) f s = f x s"
  by (simp_all add: op_lift_def)

subsection \<open>The idempotency index\<close>

definition workspaceIdempotencyKey :: "string \<Rightarrow> string \<Rightarrow> string" where
  "workspaceIdempotencyKey workspaceId idempotencyKey = workspaceId @ '':'' @ idempotencyKey"

definition indexRunIdempotencyKey :: "(string, string) js_map \<Rightarrow> run \<Rightarrow> (string, string) js_map" where
  "indexRunIdempotencyKey index run =
     (case r_idempotencyKey run of None \<Rightarrow> index
      | Some k \<Rightarrow> AList.update (workspaceIdempotencyKey (r_workspaceId run) k) (r_id run) index)"

definition assertUniqueRunIdempotencyKey :: "(string, string) js_map \<Rightarrow> run \<Rightarrow> osva_error option" where
  "assertUniqueRunIdempotencyKey index run =
     (case r_idempotencyKey run of None \<Rightarrow> None
      | Some k \<Rightarrow>
          (case map_of index (workspaceIdempotencyKey (r_workspaceId run) k) of
             None \<Rightarrow> None
           | Some existing \<Rightarrow>
               if existing \<noteq> r_id run
               then Some (DomainInvariantError (''A Run with idempotency key '' @ quoted k
                 @ '' already exists in workspace '' @ quoted (r_workspaceId run) @ ''.''))
               else None))"

subsection \<open>Creation and lookup\<close>

definition put_run :: "run \<Rightarrow> run_store \<Rightarrow> run_store" where
  "put_run r s = s\<lparr> rs_runs := AList.update (r_id r) r (rs_runs s) \<rparr>"

definition put_attempt :: "run_attempt \<Rightarrow> run_store \<Rightarrow> run_store" where
  "put_attempt a s = s\<lparr> rs_attempts := AList.update (a_id a) a (rs_attempts s) \<rparr>"

definition createRunWithInitialAttempt :: "run \<Rightarrow> run_attempt \<Rightarrow> run_store \<Rightarrow> unit store_result" where
  "createRunWithInitialAttempt run attempt s =
     (if a_runId attempt \<noteq> r_id run
      then (s, Inl (DomainInvariantError ''Initial RunAttempt.runId must match the created Run.id.''))
      else if map_of (rs_runs s) (r_id run) \<noteq> None
      then (s, Inl (DomainInvariantError (''A Run with id '' @ quoted (r_id run) @ '' already exists.'')))
      else if map_of (rs_attempts s) (a_id attempt) \<noteq> None
      then (s, Inl (DomainInvariantError (''A RunAttempt with id '' @ quoted (a_id attempt) @ '' already exists.'')))
      else case assertUniqueRunIdempotencyKey (rs_index s) run of
        Some e \<Rightarrow> (s, Inl e)
      | None \<Rightarrow> ((put_run run (put_attempt attempt s))
            \<lparr> rs_index := indexRunIdempotencyKey (rs_index s) run \<rparr>, Inr ()))"

definition saveRun :: "run \<Rightarrow> run_store \<Rightarrow> unit store_result" where
  "saveRun run s =
     (if map_of (rs_runs s) (r_id run) \<noteq> None
      then (s, Inl (DomainInvariantError (''A Run with id '' @ quoted (r_id run) @ '' already exists.'')))
      else case assertUniqueRunIdempotencyKey (rs_index s) run of
        Some e \<Rightarrow> (s, Inl e)
      | None \<Rightarrow> ((put_run run s)\<lparr> rs_index := indexRunIdempotencyKey (rs_index s) run \<rparr>, Inr ()))"

definition findRunById :: "run_store \<Rightarrow> string \<Rightarrow> run option" where
  "findRunById s i = map_of (rs_runs s) i"

definition findRunByWorkspaceAndId :: "run_store \<Rightarrow> string \<Rightarrow> string \<Rightarrow> run option" where
  "findRunByWorkspaceAndId s workspaceId i =
     (case map_of (rs_runs s) i of None \<Rightarrow> None
      | Some run \<Rightarrow> if r_workspaceId run \<noteq> workspaceId then None else Some run)"

definition findRunByWorkspaceIdempotencyKey :: "run_store \<Rightarrow> string \<Rightarrow> string \<Rightarrow> run option" where
  "findRunByWorkspaceIdempotencyKey s workspaceId key =
     (case map_of (rs_index s) (workspaceIdempotencyKey workspaceId key) of
        None \<Rightarrow> None | Some i \<Rightarrow> map_of (rs_runs s) i)"

definition saveRunAttempt :: "run_attempt \<Rightarrow> run_store \<Rightarrow> unit store_result" where
  "saveRunAttempt attempt s =
     (if map_of (rs_attempts s) (a_id attempt) \<noteq> None
      then (s, Inl (DomainInvariantError (''A RunAttempt with id '' @ quoted (a_id attempt) @ '' already exists.'')))
      else (put_attempt attempt s, Inr ()))"

definition findRunAttemptById :: "run_store \<Rightarrow> string \<Rightarrow> run_attempt option" where
  "findRunAttemptById s i = map_of (rs_attempts s) i"

definition findCapabilityEligibleRunAttemptById ::
    "js_date \<Rightarrow> run_store \<Rightarrow> string \<Rightarrow> run_attempt option" where
  "findCapabilityEligibleRunAttemptById clockNow s i =
     selectCapabilityEligibleRunAttempt (findRunAttemptById s i) clockNow"

definition attempts_of :: "run_store \<Rightarrow> string \<Rightarrow> run_attempt list" where
  "attempts_of s i = filter (\<lambda>a. a_runId a = i) (map_values (rs_attempts s))"

definition listRunAttempts :: "run_store \<Rightarrow> string \<Rightarrow> run_attempt list" where
  "listRunAttempts s i = sort_key a_sequence (attempts_of s i)"

subsection \<open>Pages of runs\<close>

record run_query =
  rq_workspaceId :: string
  rq_limit :: nat
  rq_cursor :: "(js_date \<times> string) option"
  rq_agentId :: "string option"
  rq_agentVersionId :: "string option"
  rq_status :: "run_state option"

definition isAfterRunCursor :: "run \<Rightarrow> js_date \<times> string \<Rightarrow> bool" where
  "isAfterRunCursor run cursor =
     (date_lt (r_createdAt run) (fst cursor)
      \<or> date_eq (r_createdAt run) (fst cursor) \<and> r_id run < snd cursor)"

definition matches_query :: "run_query \<Rightarrow> run \<Rightarrow> bool" where
  "matches_query q run =
     (r_workspaceId run = rq_workspaceId q
      \<and> (case rq_agentId q of None \<Rightarrow> True | Some i \<Rightarrow> r_agentId run = i)
      \<and> (case rq_agentVersionId q of None \<Rightarrow> True
         | Some i \<Rightarrow> rb_agentVersionId (r_effectiveBindings run) = i)
      \<and> (case rq_status q of None \<Rightarrow> True | Some t \<Rightarrow> r_status run = t)
      \<and> (case rq_cursor q of None \<Rightarrow> True | Some c \<Rightarrow> isAfterRunCursor run c))"

text \<open>Newest first, the larger id first on a tie; no two runs of a store share an id.\<close>

definition listRuns :: "run_store \<Rightarrow> run_query \<Rightarrow> run list \<times> (js_date \<times> string) option" where
  "listRuns s q =
     (let filtered = rev (sort_key (\<lambda>r. (r_createdAt r, r_id r))
            (filter (matches_query q) (map_values (rs_runs s))));
          page = take (rq_limit q) filtered
      in (page, if rq_limit q < length filtered \<and> page \<noteq> []
                then Some (r_createdAt (last page), r_id (last page)) else None))"

subsection \<open>Steps and usage\<close>

definition insertRunningRunStep :: "run_step \<Rightarrow> run_store \<Rightarrow> unit store_result" where
  "insertRunningRunStep st s =
     (if st_status st \<noteq> Step_RUNNING
      then (s, Inl (DomainInvariantError ''insertRunningRunStep requires a RUNNING RunStep.''))
      else if map_of (rs_steps s) (st_id st) \<noteq> None
      then (s, Inl (DomainInvariantError (''A RunStep with id '' @ quoted (st_id st) @ '' already exists.'')))
      else (s\<lparr> rs_steps := AList.update (st_id st) st (rs_steps s) \<rparr>, Inr ()))"

definition finalizeRunStep :: "string \<Rightarrow> finalize_step \<Rightarrow> run_store \<Rightarrow> run_step store_result" where
  "finalizeRunStep i p s =
     (case map_of (rs_steps s) i of
        None \<Rightarrow> (s, Inl (RunStepNotFoundError i))
      | Some existing \<Rightarrow>
          if st_status existing \<noteq> Step_RUNNING
          then (s, Inl (LifecycleConflictError ''runStep'' i ''RUNNING''))
          else op_lift (RunStep_finalize existing p) (\<lambda>finalized s.
            (s\<lparr> rs_steps := AList.update i finalized (rs_steps s) \<rparr>, Inr finalized)) s)"

definition findRunStepById :: "run_store \<Rightarrow> string \<Rightarrow> run_step option" where
  "findRunStepById s i = map_of (rs_steps s) i"

definition isAfterRunStepCursor :: "run_step \<Rightarrow> js_date \<times> string \<Rightarrow> bool" where
  "isAfterRunStepCursor st cursor =
     (date_lt (fst cursor) (st_startedAt st)
      \<or> date_eq (st_startedAt st) (fst cursor) \<and> snd cursor < st_id st)"

definition listRunSteps :: "run_store \<Rightarrow> string \<Rightarrow> nat \<Rightarrow> (js_date \<times> string) option
    \<Rightarrow> run_step list \<times> (js_date \<times> string) option" where
  "listRunSteps s attemptId limit cursor =
     (let filtered = sort_key (\<lambda>st. (st_startedAt st, st_id st))
            (filter (\<lambda>st. st_runAttemptId st = attemptId
                \<and> (case cursor of None \<Rightarrow> True | Some c \<Rightarrow> isAfterRunStepCursor st c))
              (map_values (rs_steps s)));
          page = take limit filtered
      in (page, if limit < length filtered \<and> page \<noteq> []
                then Some (st_startedAt (last page), st_id (last page)) else None))"

definition empty_usage :: usage_summary where
  "empty_usage = \<lparr> us_modelCalls = 0, us_toolCalls = 0, us_inputTokens = 0, us_outputTokens = 0,
     us_totalTokens = 0, us_cachedInputTokens = 0, us_estimatedCostUsdMicros = None,
     us_pricedModelCalls = 0, us_unpricedModelCalls = 0 \<rparr>"

text \<open>
  The loop keeps the cost and whether any step had one apart and combines them at its end; here
  the cost is the option of the two.
\<close>

definition add_step_usage :: "usage_summary \<Rightarrow> run_step \<Rightarrow> usage_summary" where
  "add_step_usage u st =
     (if st_kind st = Step_TOOL \<and> st_status st = Step_SUCCEEDED
      then u\<lparr> us_toolCalls := us_toolCalls u + 1 \<rparr>
      else if \<not> isMeasurableModelRunStep st then u
      else
        let u' = u\<lparr> us_modelCalls := us_modelCalls u + 1,
              us_inputTokens := us_inputTokens u + or_zero (st_inputTokens st),
              us_outputTokens := us_outputTokens u + or_zero (st_outputTokens st),
              us_totalTokens := us_totalTokens u + or_zero (st_totalTokens st),
              us_cachedInputTokens := us_cachedInputTokens u + or_zero (st_cachedInputTokens st) \<rparr>
        in case st_estimatedCostUsdMicros st of
             Cost_Micros n \<Rightarrow> u'\<lparr> us_pricedModelCalls := us_pricedModelCalls u + 1,
               us_estimatedCostUsdMicros := Some (or_zero (us_estimatedCostUsdMicros u) + n) \<rparr>
           | _ \<Rightarrow> u'\<lparr> us_unpricedModelCalls := us_unpricedModelCalls u + 1 \<rparr>)"

definition aggregateRunAttemptUsageBatch :: "run_store \<Rightarrow> string list \<Rightarrow> usage_summary" where
  "aggregateRunAttemptUsageBatch s attemptIds =
     (if attemptIds = [] then empty_usage
      else foldl add_step_usage empty_usage
        (filter (\<lambda>st. st_runAttemptId st \<in> set attemptIds) (map_values (rs_steps s))))"

definition aggregateRunAttemptUsage :: "run_store \<Rightarrow> string \<Rightarrow> usage_summary" where
  "aggregateRunAttemptUsage s attemptId = aggregateRunAttemptUsageBatch s [attemptId]"

subsection \<open>Transitions\<close>

text \<open>What the stored run keeps of itself and takes from the next version: not its recovery metadata.\<close>

definition applyRunLifecycle :: "run \<Rightarrow> run \<Rightarrow> osva_error + run" where
  "applyRunLifecycle current next = Run_rehydrate
     \<lparr> r_id = r_id current, r_workspaceId = r_workspaceId current, r_agentId = r_agentId current,
       r_status = run_state_name (r_status next), r_effectiveBindings = r_effectiveBindings current,
       r_input = r_input current, r_createdAt = r_createdAt current, r_updatedAt = r_updatedAt next,
       r_idempotencyKey = r_idempotencyKey current, r_evaluationRunId = r_evaluationRunId current,
       r_evaluationCaseId = r_evaluationCaseId current,
       r_restrictPersistentMemory = r_restrictPersistentMemory current, r_recoveryMetadata = None \<rparr>"

definition applyRunAttemptLifecycle :: "run_attempt \<Rightarrow> run_attempt \<Rightarrow> osva_error + run_attempt" where
  "applyRunAttemptLifecycle current next = RunAttempt_rehydrate
     \<lparr> a_id = a_id current, a_runId = a_runId current, a_sequence = a_sequence current,
       a_status = run_attempt_state_name (a_status next), a_createdAt = a_createdAt current,
       a_startedAt = a_startedAt next, a_completedAt = a_completedAt next, a_error = a_error next,
       a_output = a_output next, a_infrastructureMetadata = a_infrastructureMetadata next,
       a_executionOwner = a_executionOwner next, a_executionGeneration = a_executionGeneration next,
       a_leaseExpiresAt = a_leaseExpiresAt next \<rparr> (Some (a_executionGeneration next))"

definition transitionRun :: "run_state \<Rightarrow> run \<Rightarrow> run_store \<Rightarrow> run store_result" where
  "transitionRun expectedStatus next s =
     (case assertLegalRunTransition expectedStatus (r_status next) of
        Some e \<Rightarrow> (s, Inl e)
      | None \<Rightarrow>
      case map_of (rs_runs s) (r_id next) of
        None \<Rightarrow> (s, Inl (RunNotFoundError (r_id next)))
      | Some current \<Rightarrow>
          if r_status current \<noteq> expectedStatus
          then (s, Inl (LifecycleConflictError ''run'' (r_id next) (run_state_name expectedStatus)))
          else op_lift (applyRunLifecycle current next) (\<lambda>persisted s.
            (put_run persisted s, Inr persisted)) s)"

definition transitionRunAttempt ::
    "run_attempt_state \<Rightarrow> run_attempt \<Rightarrow> run_store \<Rightarrow> run_attempt store_result" where
  "transitionRunAttempt expectedStatus next s =
     (case assertLegalRunAttemptTransition expectedStatus (a_status next) of
        Some e \<Rightarrow> (s, Inl e)
      | None \<Rightarrow>
      case map_of (rs_attempts s) (a_id next) of
        None \<Rightarrow> (s, Inl (RunAttemptNotFoundError (a_id next)))
      | Some current \<Rightarrow>
          if a_status current \<noteq> expectedStatus
          then (s, Inl (LifecycleConflictError ''runAttempt'' (a_id next)
            (run_attempt_state_name expectedStatus)))
          else op_lift (applyRunAttemptLifecycle current next) (\<lambda>persisted s.
            (put_attempt persisted s, Inr persisted)) s)"

definition assertExecutionFence :: "run_attempt option \<Rightarrow> run_attempt_state \<Rightarrow> run_attempt
    \<Rightarrow> js_date \<Rightarrow> osva_error option" where
  "assertExecutionFence current expectedStatus next now =
     (if expectedStatus \<noteq> Att_RUNNING \<or> a_executionOwner next = None \<or> a_status next = Att_RUNNING
      then None
      else if (case current of None \<Rightarrow> True
          | Some c \<Rightarrow> a_executionOwner c \<noteq> a_executionOwner next
              \<or> a_executionGeneration c \<noteq> a_executionGeneration next
              \<or> (case a_leaseExpiresAt c of None \<Rightarrow> True | Some e \<Rightarrow> date_le e now))
      then Some (LifecycleConflictError ''runAttempt'' (a_id next) (run_attempt_state_name expectedStatus))
      else None)"

definition applyLeaseTtl :: "js_date \<Rightarrow> run_attempt \<Rightarrow> int option \<Rightarrow> osva_error + run_attempt" where
  "applyLeaseTtl wallClock attempt leaseTtlMs =
     (case (a_executionOwner attempt, leaseTtlMs) of
        (Some owner, Some ttl) \<Rightarrow>
          if a_status attempt \<noteq> Att_RUNNING then Inr attempt
          else RunAttempt_withExecutionLease attempt
            \<lparr> el_owner = owner, el_generation = a_executionGeneration attempt,
              el_expiresAt = date_plus (case a_startedAt attempt of None \<Rightarrow> wallClock | Some t \<Rightarrow> t) ttl \<rparr>
      | _ \<Rightarrow> Inr attempt)"

text \<open>
  The attempt first, then the run; when the run cannot follow, the attempt is put back and the
  error thrown on.
\<close>

definition transitionRunAndAttempt :: "js_date \<Rightarrow> run_state \<Rightarrow> run \<Rightarrow> run_attempt_state
    \<Rightarrow> run_attempt \<Rightarrow> int option \<Rightarrow> run_store \<Rightarrow> (run \<times> run_attempt) store_result" where
  "transitionRunAndAttempt clockNow expectedRunStatus nextRun expectedAttemptStatus nextAttempt leaseTtlMs s =
     (if a_runId nextAttempt \<noteq> r_id nextRun
      then (s, Inl (DomainInvariantError ''Paired RunAttempt.runId must match the Run.id.''))
      else
        let previousAttempt = map_of (rs_attempts s) (a_id nextAttempt)
        in case assertExecutionFence previousAttempt expectedAttemptStatus nextAttempt clockNow of
             Some e \<Rightarrow> (s, Inl e)
           | None \<Rightarrow>
             op_lift (applyLeaseTtl clockNow nextAttempt leaseTtlMs) (\<lambda>leasedAttempt s.
             op_then (transitionRunAttempt expectedAttemptStatus leasedAttempt s) (\<lambda>runAttempt s.
               case transitionRun expectedRunStatus nextRun s of
                 (s', Inr run) \<Rightarrow> (s', Inr (run, runAttempt))
               | (s', Inl e) \<Rightarrow>
                   (case previousAttempt of
                      Some p \<Rightarrow> (put_attempt p s', Inl e)
                    | None \<Rightarrow> (s'\<lparr> rs_attempts := AList.delete (a_id nextAttempt) (rs_attempts s') \<rparr>,
                        Inl e)))) s)"

subsection \<open>Leases and recovery\<close>

definition renewExecutionLease :: "string \<Rightarrow> string \<Rightarrow> int \<Rightarrow> int \<Rightarrow> js_date \<Rightarrow> run_store \<Rightarrow> bool store_result" where
  "renewExecutionLease runAttemptId owner generation ttlMs now s =
     (case map_of (rs_attempts s) runAttemptId of
        None \<Rightarrow> (s, Inr False)
      | Some current \<Rightarrow>
          if a_status current \<noteq> Att_RUNNING \<or> a_executionOwner current \<noteq> Some owner
            \<or> a_executionGeneration current \<noteq> generation
            \<or> (case a_leaseExpiresAt current of None \<Rightarrow> True | Some e \<Rightarrow> date_le e now)
          then (s, Inr False)
          else op_lift (RunAttempt_withExecutionLease current
              \<lparr> el_owner = owner, el_generation = generation, el_expiresAt = date_plus now ttlMs \<rparr>)
            (\<lambda>leased s. (put_attempt leased s, Inr True)) s)"

record expire_command =
  ec_runAttemptId :: string
  ec_generation :: int
  ec_now :: js_date
  ec_error :: run_attempt_error
  ec_infrastructureMetadata :: "jsv option"

definition failed_options :: "expire_command \<Rightarrow> attempt_options" where
  "failed_options c = \<lparr> o_error = Some (ec_error c), o_output = JUndefined,
     o_infrastructureMetadata = ec_infrastructureMetadata c \<rparr>"

definition failExpiredLeasedAttempt ::
    "expire_command \<Rightarrow> run_store \<Rightarrow> (run \<times> run_attempt) option store_result" where
  "failExpiredLeasedAttempt c s =
     (case map_of (rs_attempts s) (ec_runAttemptId c) of
        None \<Rightarrow> (s, Inr None)
      | Some current \<Rightarrow>
          if a_status current \<noteq> Att_RUNNING \<or> a_executionOwner current = None
            \<or> a_executionGeneration current \<noteq> ec_generation c
            \<or> (case a_leaseExpiresAt current of None \<Rightarrow> True | Some e \<Rightarrow> date_lt (ec_now c) e)
          then (s, Inr None)
          else case map_of (rs_runs s) (a_runId current) of
            None \<Rightarrow> (s, Inr None)
          | Some run \<Rightarrow>
              if r_status run \<noteq> Run_RUNNING then (s, Inr None)
              else op_lift (RunAttempt_transitionTo current Att_FAILED (ec_now c) (failed_options c))
                (\<lambda>failedAttempt. op_lift (Run_transitionTo run Run_FAILED (ec_now c)) (\<lambda>failedRun s.
                  (put_run failedRun (put_attempt failedAttempt s), Inr (Some (failedRun, failedAttempt))))) s)"

definition interruptExpiredLeasedAttemptForRecovery ::
    "expire_command \<Rightarrow> recovery_metadata \<Rightarrow> run_store \<Rightarrow> (run \<times> run_attempt) option store_result" where
  "interruptExpiredLeasedAttemptForRecovery c metadata s =
     (case map_of (rs_attempts s) (ec_runAttemptId c) of
        None \<Rightarrow> (s, Inr None)
      | Some current \<Rightarrow>
          if a_status current \<noteq> Att_RUNNING \<or> a_executionGeneration current \<noteq> ec_generation c
          then (s, Inr None)
          else case map_of (rs_runs s) (a_runId current) of
            None \<Rightarrow> (s, Inr None)
          | Some run \<Rightarrow>
              if r_status run \<noteq> Run_RUNNING then (s, Inr None)
              else op_lift (RunAttempt_transitionTo current Att_FAILED (ec_now c) (failed_options c))
                (\<lambda>failedAttempt. op_lift (and_then (Run_transitionTo run Run_INTERRUPTED (ec_now c))
                    (\<lambda>r. Run_withRecoveryMetadata r (Some metadata) (ec_now c))) (\<lambda>interruptedRun s.
                  (put_run interruptedRun (put_attempt failedAttempt s),
                   Inr (Some (interruptedRun, failedAttempt))))) s)"

definition listInterruptedRuns :: "run_store \<Rightarrow> nat \<Rightarrow> run list" where
  "listInterruptedRuns s limit = take limit (filter (\<lambda>r. r_status r = Run_INTERRUPTED) (map_values (rs_runs s)))"

definition is_active :: "run_attempt \<Rightarrow> bool" where
  "is_active a \<longleftrightarrow> a_status a = Att_PENDING \<or> a_status a = Att_RUNNING"

text \<open>
  The attempt with the largest sequence: the head of a stable sort by descending sequence.
\<close>

definition latest_attempt :: "run_store \<Rightarrow> string \<Rightarrow> run_attempt option" where
  "latest_attempt s runId =
     (case sort_key (\<lambda>a. - a_sequence a) (attempts_of s runId) of [] \<Rightarrow> None | a # as \<Rightarrow> Some a)"

definition scheduleRecoveryRunAttempt :: "string \<Rightarrow> string \<Rightarrow> js_date \<Rightarrow> recovery_metadata
    \<Rightarrow> run_store \<Rightarrow> (run \<times> run_attempt) option store_result" where
  "scheduleRecoveryRunAttempt runId newRunAttemptId now metadata s =
     (case map_of (rs_runs s) runId of
        None \<Rightarrow> (s, Inr None)
      | Some run \<Rightarrow>
          if r_status run \<noteq> Run_INTERRUPTED then (s, Inr None)
          else if \<exists>a\<in>set (map_values (rs_attempts s)). a_runId a = runId \<and> is_active a
          then (s, Inr None)
          else case latest_attempt s runId of
            None \<Rightarrow> (s, Inr None)
          | Some previous \<Rightarrow>
              op_lift (RunAttempt_createSubsequent previous newRunAttemptId now None) (\<lambda>nextAttempt.
              op_lift (and_then (Run_transitionTo run Run_QUEUED now)
                  (\<lambda>r. Run_withRecoveryMetadata r (Some metadata) now)) (\<lambda>nextRun s.
                (put_run nextRun (put_attempt nextAttempt s), Inr (Some (nextRun, nextAttempt))))) s)"

definition updateInterruptedRunRecoveryMetadata :: "string \<Rightarrow> string \<Rightarrow> recovery_metadata \<Rightarrow> js_date
    \<Rightarrow> run_store \<Rightarrow> run option store_result" where
  "updateInterruptedRunRecoveryMetadata workspaceId runId metadata now s =
     (case map_of (rs_runs s) runId of
        None \<Rightarrow> (s, Inr None)
      | Some run \<Rightarrow>
          if r_workspaceId run \<noteq> workspaceId \<or> r_status run \<noteq> Run_INTERRUPTED then (s, Inr None)
          else op_lift (Run_withRecoveryMetadata run (Some metadata) now) (\<lambda>next s.
            (put_run next s, Inr (Some next))) s)"

definition lease_expired :: "js_date \<Rightarrow> run_attempt \<Rightarrow> bool" where
  "lease_expired now a \<longleftrightarrow> a_status a = Att_RUNNING \<and> a_executionOwner a \<noteq> None
     \<and> (case a_leaseExpiresAt a of None \<Rightarrow> False | Some e \<Rightarrow> date_le e now)"

definition listExpiredLeasedRunningAttempts :: "js_date \<Rightarrow> run_store \<Rightarrow> nat \<Rightarrow> run_attempt list" where
  "listExpiredLeasedRunningAttempts clockNow s limit =
     take limit (sort_key (\<lambda>a. (case a_leaseExpiresAt a of None \<Rightarrow> DateMs 0 | Some e \<Rightarrow> e, a_id a))
       (filter (lease_expired clockNow) (map_values (rs_attempts s))))"

definition listQueuedPendingDeliveries :: "run_store \<Rightarrow> nat \<Rightarrow> (run \<times> run_attempt) list" where
  "listQueuedPendingDeliveries s limit =
     take limit (sort_key (\<lambda>(r, a). (r_createdAt r, r_id r))
       (concat (List.map (\<lambda>r. List.map (\<lambda>a. (r, a))
            (filter (\<lambda>a. a_runId a = r_id r \<and> a_status a = Att_PENDING) (map_values (rs_attempts s))))
         (filter (\<lambda>r. r_status r = Run_QUEUED) (map_values (rs_runs s))))))"

end
