(* ===== verification/Run_Store_Facts.thy ===== *)
theory Run_Store_Facts
  imports Run_Store
begin

text \<open>
  What the run repository keeps: the store is well formed, and the attempts of a run fit the
  status of the run. Each operation is shown to keep both, once, so that the interleavings of the
  orchestration layer are a matter of composing them.
\<close>

subsection \<open>Lookups\<close>

lemma find_put_run [simp]:
  "findRunById (put_run r s) i = (if i = r_id r then Some r else findRunById s i)"
  "findRunAttemptById (put_run r s) i = findRunAttemptById s i"
  by (simp_all add: findRunById_def findRunAttemptById_def put_run_def put_attempt_def)

lemma find_put_attempt [simp]:
  "findRunAttemptById (put_attempt a s) i = (if i = a_id a then Some a else findRunAttemptById s i)"
  "findRunById (put_attempt a s) i = findRunById s i"
  by (simp_all add: findRunById_def findRunAttemptById_def put_run_def put_attempt_def)

lemmas fold_finds = findRunById_def [symmetric] findRunAttemptById_def [symmetric]

definition distinct_store :: "run_store \<Rightarrow> bool" where
  "distinct_store s \<longleftrightarrow> distinct (map_keys (rs_runs s)) \<and> distinct (map_keys (rs_attempts s))"

lemma distinct_store_put [simp]:
  "distinct_store s \<Longrightarrow> distinct_store (put_run r s)"
  "distinct_store s \<Longrightarrow> distinct_store (put_attempt a s)"
  by (simp_all add: distinct_store_def distinct_update put_run_def put_attempt_def)

subsection \<open>The attempts of a run\<close>

definition run_attempts :: "run_store \<Rightarrow> string \<Rightarrow> run_attempt set" where
  "run_attempts s i = {a. a_runId a = i \<and> findRunAttemptById s (a_id a) = Some a}"

definition attempt_status_for :: "run_state \<Rightarrow> run_attempt_state" where
  "attempt_status_for st = (case st of
     Run_PENDING \<Rightarrow> Att_PENDING | Run_QUEUED \<Rightarrow> Att_PENDING | Run_RUNNING \<Rightarrow> Att_RUNNING
   | Run_INTERRUPTED \<Rightarrow> Att_FAILED | Run_SUCCEEDED \<Rightarrow> Att_SUCCEEDED | Run_FAILED \<Rightarrow> Att_FAILED
   | Run_TIMED_OUT \<Rightarrow> Att_TIMED_OUT | Run_CANCELLED \<Rightarrow> Att_CANCELLED)"

text \<open>The last attempt has the status the run calls for; every earlier one has failed.\<close>

definition is_last :: "run_attempt set \<Rightarrow> run_attempt \<Rightarrow> bool" where
  "is_last A a \<longleftrightarrow> a \<in> A \<and> (\<forall>b\<in>A - {a}. a_sequence b < a_sequence a)"

definition attempts_fit :: "run_attempt set \<Rightarrow> run_state \<Rightarrow> bool" where
  "attempts_fit A st \<longleftrightarrow> (\<exists>a. is_last A a \<and> a_status a = attempt_status_for st
     \<and> (\<forall>b\<in>A - {a}. a_status b = Att_FAILED))"

definition store_wf :: "run_store \<Rightarrow> bool" where
  "store_wf s \<longleftrightarrow> distinct_store s
     \<and> (\<forall>i r. findRunById s i = Some r \<longrightarrow> r_id r = i \<and> run_wf r)
     \<and> (\<forall>i a. findRunAttemptById s i = Some a \<longrightarrow>
          a_id a = i \<and> attempt_wf a \<and> attempt_timeline a \<and> findRunById s (a_runId a) \<noteq> None)"

definition store_ok :: "run_store \<Rightarrow> bool" where
  "store_ok s \<longleftrightarrow> store_wf s
     \<and> (\<forall>i r. findRunById s i = Some r \<longrightarrow> attempts_fit (run_attempts s i) (r_status r))"

lemma is_last_unique:
  assumes "is_last A a" "is_last A b"
  shows "a = b"
proof (rule ccontr)
  assume "a \<noteq> b"
  with assms have "a_sequence a < a_sequence b" "a_sequence b < a_sequence a" by (auto simp: is_last_def)
  then show False by simp
qed

lemma fit_active:
  "attempts_fit A st \<Longrightarrow> c \<in> A \<Longrightarrow> a_status c \<noteq> Att_FAILED \<Longrightarrow>
     is_last A c \<and> a_status c = attempt_status_for st \<and> (\<forall>b\<in>A - {c}. a_status b = Att_FAILED)"
  by (auto simp: attempts_fit_def)

lemma fit_replace:
  assumes "attempts_fit A st" "c \<in> A" "a_status c \<noteq> Att_FAILED"
    and "a_sequence a = a_sequence c" "a_status a = attempt_status_for st'"
  shows "attempts_fit (insert a (A - {c})) st'"
proof -
  from fit_active [OF assms(1-3)] have c: "is_last A c" "\<forall>b\<in>A - {c}. a_status b = Att_FAILED" by auto
  have "is_last (insert a (A - {c})) a" using c(1) assms(4) by (auto simp: is_last_def)
  moreover have "\<forall>b\<in>insert a (A - {c}) - {a}. a_status b = Att_FAILED" using c(2) by auto
  ultimately show ?thesis using assms(5) by (auto simp: attempts_fit_def)
qed

lemma fit_successor:
  assumes "attempts_fit A st" "attempt_status_for st = Att_FAILED" "is_last A p"
    and "a_sequence a = a_sequence p + 1" "a_status a = attempt_status_for st'"
  shows "attempts_fit (insert a A) st'"
proof -
  from assms(1) obtain q where q: "is_last A q" "a_status q = attempt_status_for st"
    "\<forall>b\<in>A - {q}. a_status b = Att_FAILED" by (auto simp: attempts_fit_def)
  then have "q = p" using is_last_unique assms(3) by blast
  with q assms(2) have f: "\<forall>b\<in>A. a_status b = Att_FAILED" by auto
  have "a_sequence b \<le> a_sequence p" if "b \<in> A" for b
    using assms(3) that by (cases "b = p") (auto simp: is_last_def less_imp_le)
  then have "\<forall>b\<in>A. a_sequence b < a_sequence a" using assms(4) by (simp add: le_less_trans)
  then have "is_last (insert a A) a" by (auto simp: is_last_def)
  with f assms(5) show ?thesis by (auto simp: attempts_fit_def)
qed

subsection \<open>One entry changes\<close>

lemma put_attempt_new:
  "findRunAttemptById s (a_id a) = None \<Longrightarrow>
     run_attempts (put_attempt a s) i = (if i = a_runId a then insert a (run_attempts s i) else run_attempts s i)"
  by (auto simp: run_attempts_def)

lemma put_attempt_same:
  "findRunAttemptById s (a_id a) = Some c \<Longrightarrow> a_id c = a_id a \<Longrightarrow> a_runId a = a_runId c \<Longrightarrow>
     run_attempts (put_attempt a s) i =
       (if i = a_runId c then insert a (run_attempts s i - {c}) else run_attempts s i)"
  by (auto simp: run_attempts_def)

lemma run_attempts_put_run [simp]: "run_attempts (put_run r s) i = run_attempts s i"
  by (simp add: run_attempts_def)

lemma store_wf_put_run:
  "store_wf s \<Longrightarrow> findRunById s (r_id r) = Some q \<Longrightarrow> run_wf r \<Longrightarrow> store_wf (put_run r s)"
  by (auto simp: store_wf_def split: if_splits)

lemma store_wf_put_attempt:
  "store_wf s \<Longrightarrow> attempt_wf a \<Longrightarrow> attempt_timeline a \<Longrightarrow> findRunById s (a_runId a) \<noteq> None \<Longrightarrow>
     store_wf (put_attempt a s)"
  by (auto simp: store_wf_def split: if_splits)

lemma store_wf_runD: "store_wf s \<Longrightarrow> findRunById s i = Some r \<Longrightarrow> r_id r = i \<and> run_wf r"
  by (simp add: store_wf_def)

lemma store_wf_attemptD:
  "store_wf s \<Longrightarrow> findRunAttemptById s i = Some a \<Longrightarrow>
     a_id a = i \<and> attempt_wf a \<and> attempt_timeline a \<and> (\<exists>r. findRunById s (a_runId a) = Some r)"
  unfolding store_wf_def by auto

text \<open>The two kinds of change everything below is made of.\<close>

lemma store_ok_move:
  assumes ok: "store_ok s"
    and c: "findRunAttemptById s (a_id a) = Some c" "a_status c \<noteq> Att_FAILED"
    and r: "findRunById s (r_id r) = Some q" "run_wf r" "a_runId c = r_id r"
    and a: "attempt_wf a" "attempt_timeline a" "a_runId a = a_runId c" "a_sequence a = a_sequence c"
      "a_status a = attempt_status_for (r_status r)"
  shows "store_ok (put_run r (put_attempt a s))"
proof -
  have wf: "store_wf s" using ok by (simp add: store_ok_def)
  have id: "a_id c = a_id a" using store_wf_attemptD [OF wf c(1)] by simp
  note put = put_attempt_same [OF c(1) id a(3)]
  have "store_wf (put_attempt a s)" using store_wf_put_attempt [OF wf a(1,2)] a(3) r by simp
  with r have "store_wf (put_run r (put_attempt a s))" by (intro store_wf_put_run) auto
  moreover have "attempts_fit (run_attempts (put_run r (put_attempt a s)) i) (r_status t)"
    if "findRunById (put_run r (put_attempt a s)) i = Some t" for i t
  proof (cases "i = r_id r")
    case True
    have "attempts_fit (run_attempts s i) (r_status q)" using ok r(1) True by (simp add: store_ok_def)
    moreover have "c \<in> run_attempts s i" using c(1) id r(3) True by (simp add: run_attempts_def)
    ultimately have "attempts_fit (insert a (run_attempts s i - {c})) (r_status r)"
      using fit_replace c(2) a(4,5) by blast
    with True that r(3) show ?thesis by (simp add: put)
  next
    case False
    with that ok r(3) show ?thesis by (simp add: put store_ok_def)
  qed
  ultimately show ?thesis by (simp add: store_ok_def)
qed

lemma store_ok_run:
  assumes ok: "store_ok s" and r: "findRunById s (r_id r) = Some q" "run_wf r"
    "attempt_status_for (r_status r) = attempt_status_for (r_status q)"
  shows "store_ok (put_run r s)"
  using assms store_wf_put_run [of s r q] by (auto simp: store_ok_def attempts_fit_def)

lemma store_ok_attempt:
  assumes ok: "store_ok s"
    and c: "findRunAttemptById s (a_id a) = Some c" "a_status c \<noteq> Att_FAILED"
    and a: "attempt_wf a" "attempt_timeline a" "a_runId a = a_runId c" "a_sequence a = a_sequence c"
      "a_status a = a_status c"
  shows "store_ok (put_attempt a s)"
proof -
  have wf: "store_wf s" using ok by (simp add: store_ok_def)
  obtain r where r: "findRunById s (a_runId c) = Some r" using store_wf_attemptD [OF wf c(1)] by blast
  have f: "attempts_fit (run_attempts s (a_runId c)) (r_status r)" using ok r unfolding store_ok_def by blast
  have "c \<in> run_attempts s (a_runId c)"
    using c(1) store_wf_attemptD [OF wf c(1)] by (simp add: run_attempts_def)
  from fit_active [OF f this c(2)] have st: "a_status a = attempt_status_for (r_status r)"
    using a(5) by (elim conjE) (rule trans)
  have i: "r_id r = a_runId c" and rw: "run_wf r" using store_wf_runD [OF wf r] by blast+
  have "store_ok (put_run r (put_attempt a s))"
    by (rule store_ok_move [OF ok c _ rw i [symmetric] a(1-4) st, of r]) (simp only: i r)
  moreover have "put_run r (put_attempt a s) = put_attempt a s"
    using r i by (simp add: update_same findRunById_def put_run_def put_attempt_def)
  ultimately show ?thesis by simp
qed

lemma createSubsequent_shape:
  "RunAttempt_createSubsequent p i t m = Inr a \<Longrightarrow>
     a_id a = i \<and> a_runId a = a_runId p \<and> a_sequence a = a_sequence p + 1 \<and> a_status a = Att_PENDING
     \<and> isRetryableRunAttemptState (a_status p) \<and> i \<noteq> a_id p"
  unfolding RunAttempt_createSubsequent_def if_Inl_Inr
  by (elim conjE, drule RunAttempt_instantiate_Inr, simp) simp

subsection \<open>Creation\<close>

lemma find_index [simp]:
  "findRunById (s\<lparr> rs_index := m \<rparr>) = findRunById s"
  "findRunAttemptById (s\<lparr> rs_index := m \<rparr>) = findRunAttemptById s"
  by (simp_all add: fun_eq_iff findRunById_def findRunAttemptById_def)

lemma store_ok_index [simp]: "store_ok (s\<lparr> rs_index := m \<rparr>) = store_ok s"
  by (simp add: store_ok_def store_wf_def distinct_store_def run_attempts_def)

lemma empty_store_ok: "store_ok empty_run_store"
  by (simp add: store_ok_def store_wf_def empty_run_store_def findRunById_def findRunAttemptById_def
      distinct_store_def)

lemma store_ok_new_run:
  assumes ok: "store_ok s" and new: "findRunById s (r_id r) = None" "findRunAttemptById s (a_id a) = None"
    and r: "run_wf r" and a: "attempt_wf a" "attempt_timeline a" "a_runId a = r_id r"
      "a_status a = attempt_status_for (r_status r)"
  shows "store_ok (put_run r (put_attempt a s))"
proof -
  have wf: "store_wf s" using ok by (simp add: store_ok_def)
  have none: "run_attempts s (r_id r) = {}"
    using wf new(1) by (fastforce simp: run_attempts_def store_wf_def)
  have ra: "run_attempts (put_run r (put_attempt a s)) i
      = (if i = r_id r then {a} else run_attempts s i)" for i
    using none a(3) by (simp add: put_attempt_new new(2))
  have "store_wf (put_run r (put_attempt a s))"
    using wf r a by (auto simp: store_wf_def split: if_splits)
  moreover have "attempts_fit {a} (r_status r)" using a(4) by (simp add: attempts_fit_def is_last_def)
  ultimately show ?thesis using ok ra by (auto simp: store_ok_def split: if_splits)
qed

lemma createRunWithInitialAttempt_cases:
  "createRunWithInitialAttempt r a s = (s', res) \<Longrightarrow>
     (\<exists>e. res = Inl e \<and> s' = s) \<or>
     res = Inr () \<and> a_runId a = r_id r \<and> findRunById s (r_id r) = None
       \<and> findRunAttemptById s (a_id a) = None \<and> assertUniqueRunIdempotencyKey (rs_index s) r = None
       \<and> s' = (put_run r (put_attempt a s))\<lparr> rs_index := indexRunIdempotencyKey (rs_index s) r \<rparr>"
  by (auto simp: createRunWithInitialAttempt_def findRunById_def findRunAttemptById_def
      split: if_splits option.splits)

subsection \<open>Transitions\<close>

lemma applyRunLifecycle_Inr:
  assumes "run_wf q" "applyRunLifecycle q next = Inr r"
  shows "run_wf r \<and> r = q\<lparr> r_status := r_status next, r_updatedAt := r_updatedAt next,
    r_recoveryMetadata := None \<rparr>"
proof -
  have e: "applyRunLifecycle q next = Run_instantiate (run_props_with q (r_status next) (r_updatedAt next) None)"
    by (simp add: applyRunLifecycle_def Run_rehydrate_def run_props_with_def)
  from assms(2) [unfolded e run_props_instantiate [OF assms(1)]] assms(1) show ?thesis
    by (auto simp: run_wf_def date_not_lt dest: date_le_valid split: if_splits)
qed

lemma transitionRun_cases:
  assumes "store_wf s" "transitionRun e next s = (s', res)"
  shows "(\<exists>err. res = Inl err \<and> s' = s) \<or>
    (\<exists>q r. res = Inr r \<and> findRunById s (r_id next) = Some q \<and> r_status q = e
      \<and> (e, r_status next) \<in> set LEGAL_RUN_TRANSITIONS \<and> run_wf r
      \<and> r = q\<lparr> r_status := r_status next, r_updatedAt := r_updatedAt next, r_recoveryMetadata := None \<rparr>
      \<and> r_id r = r_id next \<and> s' = put_run r s)"
proof (cases "assertLegalRunTransition e (r_status next)")
  case None
  then have l: "(e, r_status next) \<in> set LEGAL_RUN_TRANSITIONS"
    by (auto simp: assertLegalRunTransition_def isLegalRunTransition_def run_lc.legal_by_key_iff
        split: if_splits)
  show ?thesis
  proof (cases "findRunById s (r_id next)")
    case (Some q)
    note q = store_wf_runD [OF assms(1) Some]
    show ?thesis
    proof (cases "r_status q = e \<and> (\<exists>r. applyRunLifecycle q next = Inr r)")
      case True
      then obtain r where r: "applyRunLifecycle q next = Inr r" by blast
      note shape = applyRunLifecycle_Inr [OF conjunct2 [OF q] r]
      have "res = Inr r \<and> s' = put_run r s"
        using assms(2) None Some True r by (auto simp: transitionRun_def fold_finds)
      moreover have "r_id r = r_id next" using shape q by simp
      ultimately show ?thesis using shape True Some l by (intro disjI2 exI [of _ q] exI [of _ r]) blast
    next
      case False
      then consider "r_status q \<noteq> e" | err where "r_status q = e" "applyRunLifecycle q next = Inl err"
        by (cases "applyRunLifecycle q next") auto
      then have "\<exists>err. res = Inl err \<and> s' = s"
        using assms(2) None Some by cases (simp_all add: transitionRun_def fold_finds, blast+)
      then show ?thesis ..
    qed
  qed (use assms(2) None in \<open>auto simp: transitionRun_def fold_finds\<close>)
qed (use assms(2) in \<open>auto simp: transitionRun_def\<close>)

lemma applyRunAttemptLifecycle_Inr:
  assumes "attempt_wf next" "attempt_timeline next" "applyRunAttemptLifecycle c next = Inr a"
  shows "attempt_wf a \<and> attempt_timeline a \<and> a_id a = a_id c \<and> a_runId a = a_runId c
    \<and> a_sequence a = a_sequence c \<and> a_createdAt a = a_createdAt c \<and> a_status a = a_status next
    \<and> a_startedAt a = a_startedAt next \<and> a_completedAt a = a_completedAt next
    \<and> a_output a = a_output next \<and> a_error a = a_error next
    \<and> a_executionOwner a = a_executionOwner next
    \<and> a_executionGeneration a = a_executionGeneration next \<and> a_leaseExpiresAt a = a_leaseExpiresAt next"
proof -
  have t: "trimmed_owner (a_executionOwner next) = a_executionOwner next"
    using assms(1) by (auto simp: trimmed_owner_def attempt_wf_def split: option.splits)
  have "\<not> uses_proto (a_output next)" using attempt_output_no_proto [OF assms(1)] .
  with RunAttempt_instantiate_Inr [OF assms(3) [unfolded applyRunAttemptLifecycle_def RunAttempt_rehydrate_def]]
    t assms(2) show ?thesis by (simp add: attempt_timeline_def)
qed

definition attempt_moved :: "run_attempt \<Rightarrow> run_attempt \<Rightarrow> run_attempt \<Rightarrow> bool" where
  "attempt_moved c next a \<longleftrightarrow> attempt_wf a \<and> attempt_timeline a \<and> a_id a = a_id c \<and> a_runId a = a_runId c
    \<and> a_sequence a = a_sequence c \<and> a_createdAt a = a_createdAt c \<and> a_status a = a_status next
    \<and> a_startedAt a = a_startedAt next \<and> a_completedAt a = a_completedAt next
    \<and> a_output a = a_output next
    \<and> a_executionOwner a = a_executionOwner next
    \<and> a_executionGeneration a = a_executionGeneration next"

lemma transitionRunAttempt_cases:
  assumes "store_wf s" "attempt_wf next" "attempt_timeline next" "transitionRunAttempt e next s = (s', res)"
  shows "(\<exists>err. res = Inl err \<and> s' = s) \<or>
    (\<exists>c a. res = Inr a \<and> findRunAttemptById s (a_id next) = Some c \<and> a_status c = e
      \<and> (e, a_status next) \<in> set LEGAL_RUN_ATTEMPT_TRANSITIONS
      \<and> attempt_moved c next a \<and> a_leaseExpiresAt a = a_leaseExpiresAt next \<and> s' = put_attempt a s)"
proof (cases "assertLegalRunAttemptTransition e (a_status next)")
  case None
  then have l: "(e, a_status next) \<in> set LEGAL_RUN_ATTEMPT_TRANSITIONS"
    by (auto simp: assertLegalRunAttemptTransition_def isLegalRunAttemptTransition_def
        attempt_lc.legal_by_key_iff split: if_splits)
  show ?thesis
  proof (cases "findRunAttemptById s (a_id next)")
    case (Some c)
    show ?thesis
    proof (cases "a_status c = e \<and> (\<exists>a. applyRunAttemptLifecycle c next = Inr a)")
      case True
      then obtain a where a: "applyRunAttemptLifecycle c next = Inr a" by blast
      have "res = Inr a \<and> s' = put_attempt a s"
        using assms(4) None Some True a by (auto simp: transitionRunAttempt_def fold_finds)
      with applyRunAttemptLifecycle_Inr [OF assms(2,3) a] True Some l show ?thesis
        by (simp add: attempt_moved_def)
    next
      case False
      then consider "a_status c \<noteq> e" | err where "a_status c = e" "applyRunAttemptLifecycle c next = Inl err"
        by (cases "applyRunAttemptLifecycle c next") auto
      then have "\<exists>err. res = Inl err \<and> s' = s"
        using assms(4) None Some by cases (simp_all add: transitionRunAttempt_def fold_finds, blast+)
      then show ?thesis ..
    qed
  qed (use assms(4) None in \<open>auto simp: transitionRunAttempt_def fold_finds\<close>)
qed (use assms(4) in \<open>auto simp: transitionRunAttempt_def\<close>)

subsection \<open>Run and attempt together\<close>

lemma applyLeaseTtl_Inr:
  assumes "attempt_wf n" "attempt_timeline n" "applyLeaseTtl w n ttl = Inr l"
  shows "attempt_wf l \<and> attempt_timeline l \<and> a_id l = a_id n \<and> a_runId l = a_runId n
    \<and> a_sequence l = a_sequence n \<and> a_createdAt l = a_createdAt n \<and> a_status l = a_status n
    \<and> a_startedAt l = a_startedAt n \<and> a_completedAt l = a_completedAt n \<and> a_output l = a_output n
    \<and> a_executionOwner l = a_executionOwner n \<and> a_executionGeneration l = a_executionGeneration n"
proof (cases "l = n")
  case True
  with assms(1,2) show ?thesis by simp
next
  case False
  then obtain owner t where o: "a_executionOwner n = Some owner" "a_status n = Att_RUNNING"
    and l: "RunAttempt_withExecutionLease n
        \<lparr> el_owner = owner, el_generation = a_executionGeneration n, el_expiresAt = t \<rparr> = Inr l"
    using assms(3) by (auto simp: applyLeaseTtl_def split: option.splits if_splits)
  have "js_trim owner = owner" using assms(1) o by (simp add: attempt_wf_def)
  with withExecutionLease_shape [OF l attempt_output_no_proto [OF assms(1)]]
    withExecutionLease_inv [OF assms(2,1) l] o show ?thesis by simp
qed

lemma put_attempt_back:
  assumes "findRunAttemptById s (a_id p) = Some p" "a_id a = a_id p"
  shows "put_attempt p (put_attempt a s) = s"
  using assms by (simp add: put_attempt_def update_update update_same findRunAttemptById_def)

text \<open>
  The pair moves together or the store stays as it was: putting the attempt back after the run
  could not follow restores the store exactly.
\<close>

lemma transitionRunAndAttempt_cases:
  assumes wf: "store_wf s" and n: "attempt_wf nA" "attempt_timeline nA"
    and t: "transitionRunAndAttempt clock eR nR eA nA ttl s = (s', res)"
  shows "(\<exists>err. res = Inl err \<and> s' = s) \<or>
    (\<exists>q r c a. res = Inr (r, a) \<and> a_runId nA = r_id nR
      \<and> assertExecutionFence (Some c) eA nA clock = None
      \<and> findRunById s (r_id nR) = Some q \<and> r_status q = eR
      \<and> (eR, r_status nR) \<in> set LEGAL_RUN_TRANSITIONS \<and> run_wf r
      \<and> r = q\<lparr> r_status := r_status nR, r_updatedAt := r_updatedAt nR, r_recoveryMetadata := None \<rparr>
      \<and> r_id r = r_id nR
      \<and> findRunAttemptById s (a_id nA) = Some c \<and> a_status c = eA
      \<and> (eA, a_status nA) \<in> set LEGAL_RUN_ATTEMPT_TRANSITIONS \<and> attempt_moved c nA a
      \<and> s' = put_run r (put_attempt a s))"
proof (cases "a_runId nA = r_id nR \<and> assertExecutionFence (findRunAttemptById s (a_id nA)) eA nA clock = None")
  case True
  note t' = t [unfolded transitionRunAndAttempt_def fold_finds Let_def]
  show ?thesis
  proof (cases "applyLeaseTtl clock nA ttl")
    case (Inr l)
    note l = applyLeaseTtl_Inr [OF n Inr]
    obtain s1 res1 where ta: "transitionRunAttempt eA l s = (s1, res1)" by fastforce
    have lwf: "attempt_wf l" "attempt_timeline l" using l by auto
    from transitionRunAttempt_cases [OF wf lwf ta] show ?thesis
    proof (elim disjE exE conjE)
      fix err assume "res1 = Inl err" "s1 = s"
      with t' True Inr ta show ?thesis by auto
    next
      fix c a
      assume ra: "res1 = Inr a" and c: "findRunAttemptById s (a_id l) = Some c" "a_status c = eA"
        and leg: "(eA, a_status l) \<in> set LEGAL_RUN_ATTEMPT_TRANSITIONS"
        and m: "attempt_moved c l a" and s1: "s1 = put_attempt a s"
      have ids: "a_id c = a_id nA" "a_id a = a_id nA" using store_wf_attemptD [OF wf c(1)] m l
        by (simp_all add: attempt_moved_def)
      have rid: "\<exists>q. findRunById s (a_runId a) = Some q"
        using store_wf_attemptD [OF wf c(1)] m by (simp add: attempt_moved_def)
      have wf1: "store_wf s1"
        unfolding s1 using m rid by (intro store_wf_put_attempt [OF wf]) (auto simp: attempt_moved_def)
      obtain s2 res2 where tr: "transitionRun eR nR s1 = (s2, res2)" by fastforce
      from transitionRun_cases [OF wf1 tr] show ?thesis
      proof (elim disjE exE conjE)
        fix err assume r2: "res2 = Inl err" "s2 = s1"
        have "put_attempt c s1 = s" using put_attempt_back [of s c a] c ids l unfolding s1 by simp
        with t' True Inr ta ra tr r2 c l show ?thesis by auto
      next
        fix q r
        assume r: "res2 = Inr r" "findRunById s1 (r_id nR) = Some q" "r_status q = eR"
          "(eR, r_status nR) \<in> set LEGAL_RUN_TRANSITIONS" "run_wf r"
          "r = q\<lparr> r_status := r_status nR, r_updatedAt := r_updatedAt nR, r_recoveryMetadata := None \<rparr>"
          "r_id r = r_id nR" "s2 = put_run r s1"
        have e: "s' = put_run r (put_attempt a s)" "res = Inr (r, a)"
          using t' True Inr ta ra tr r(1,8) s1 by auto
        have "attempt_moved c nA a" using m l by (simp add: attempt_moved_def)
        with e r(2-7) c leg l True s1 show ?thesis
          by (intro disjI2 exI [of _ q] exI [of _ r] exI [of _ c] exI [of _ a]) simp
      qed
    qed
  qed (use t' True in auto)
next
  case False
  then consider "a_runId nA \<noteq> r_id nR" | e where "a_runId nA = r_id nR"
      "assertExecutionFence (findRunAttemptById s (a_id nA)) eA nA clock = Some e"
    by (cases "assertExecutionFence (findRunAttemptById s (a_id nA)) eA nA clock") auto
  then show ?thesis
    using t unfolding transitionRunAndAttempt_def fold_finds Let_def by cases auto
qed

lemma transitionRunAndAttempt_ok:
  assumes ok: "store_ok s" and n: "attempt_wf nA" "attempt_timeline nA"
    and t: "transitionRunAndAttempt clock eR nR eA nA ttl s = (s', res)"
    and fits: "a_status nA = attempt_status_for (r_status nR)"
    and same: "\<And>c. findRunAttemptById s (a_id nA) = Some c \<Longrightarrow> a_runId c = a_runId nA"
  shows "store_ok s'"
proof -
  have wf: "store_wf s" using ok by (simp add: store_ok_def)
  from transitionRunAndAttempt_cases [OF wf n t] show ?thesis
  proof (elim disjE exE conjE)
    fix q r c a
    assume *: "a_runId nA = r_id nR" "findRunById s (r_id nR) = Some q" "run_wf r" "r_id r = r_id nR"
      "r = q\<lparr> r_status := r_status nR, r_updatedAt := r_updatedAt nR, r_recoveryMetadata := None \<rparr>"
      "findRunAttemptById s (a_id nA) = Some c" "a_status c = eA"
      "(eA, a_status nA) \<in> set LEGAL_RUN_ATTEMPT_TRANSITIONS" "attempt_moved c nA a"
      "s' = put_run r (put_attempt a s)"
    have st: "r_status r = r_status nR" by (simp add: *(5))
    have "a_id c = a_id nA" using store_wf_attemptD [OF wf *(6)] by simp
    then have c: "findRunAttemptById s (a_id a) = Some c" "a_status c \<noteq> Att_FAILED" "a_runId c = r_id r"
      using *(1,4,6,7,8,9) same [OF *(6)]
      by (auto simp: attempt_moved_def LEGAL_RUN_ATTEMPT_TRANSITIONS_def)
    show "store_ok s'"
      unfolding *(10)
    proof (rule store_ok_move [OF ok c(1,2) _ *(3) c(3)])
      show "findRunById s (r_id r) = Some q" using *(2,4) by simp
    qed (use *(9) fits st in \<open>simp_all add: attempt_moved_def\<close>)
  qed (use ok in simp)
qed

subsection \<open>Leases and recovery\<close>

lemma op_lift_cases:
  "op_lift r f s = (s', res) \<Longrightarrow> (\<exists>e. r = Inl e \<and> res = Inl e \<and> s' = s) \<or> (\<exists>x. r = Inr x \<and> f x s = (s', res))"
  by (cases r) auto

lemma renewExecutionLease_cases:
  assumes "store_wf s" "renewExecutionLease i owner g ttl now s = (s', res)"
  shows "(s' = s \<and> res \<noteq> Inr True) \<or>
    (\<exists>c a. res = Inr True \<and> findRunAttemptById s i = Some c \<and> a_status c = Att_RUNNING
      \<and> a_executionOwner c = Some owner \<and> a_executionGeneration c = g
      \<and> (\<exists>e. a_leaseExpiresAt c = Some e \<and> \<not> date_le e now)
      \<and> attempt_wf a \<and> attempt_timeline a \<and> a_id a = i \<and> a_runId a = a_runId c
      \<and> a_sequence a = a_sequence c \<and> a_createdAt a = a_createdAt c \<and> a_status a = Att_RUNNING
      \<and> a_executionOwner a = Some owner \<and> a_executionGeneration a = g
      \<and> a_leaseExpiresAt a = Some (date_plus now ttl) \<and> s' = put_attempt a s)"
proof (cases "findRunAttemptById s i")
  case None
  with assms(2) show ?thesis by (auto simp: renewExecutionLease_def fold_finds)
next
  case (Some c)
  note c = store_wf_attemptD [OF assms(1) Some]
  let ?l = "\<lparr> el_owner = owner, el_generation = g, el_expiresAt = date_plus now ttl \<rparr>"
  show ?thesis
  proof (cases "a_status c \<noteq> Att_RUNNING \<or> a_executionOwner c \<noteq> Some owner \<or> a_executionGeneration c \<noteq> g
      \<or> (case a_leaseExpiresAt c of None \<Rightarrow> True | Some e \<Rightarrow> date_le e now)")
    case True
    with assms(2) Some have "(s', res) = (s, Inr False)" by (simp add: renewExecutionLease_def fold_finds)
    then show ?thesis by simp
  next
    case False
    then have r: "op_lift (RunAttempt_withExecutionLease c ?l) (\<lambda>leased s. (put_attempt leased s, Inr True)) s
        = (s', res)" using assms(2) Some by (simp add: renewExecutionLease_def fold_finds)
    have "js_trim owner = owner" using c False by (simp add: attempt_wf_def)
    with op_lift_cases [OF r] False Some c show ?thesis
      using withExecutionLease_shape [of c ?l] withExecutionLease_inv [of c ?l]
        attempt_output_no_proto [of c]
      by (auto split: option.splits)
  qed
qed

lemma renewExecutionLease_ok:
  assumes ok: "store_ok s" and r: "renewExecutionLease i owner g ttl now s = (s', res)"
  shows "store_ok s'"
proof -
  have wf: "store_wf s" using ok by (simp add: store_ok_def)
  from renewExecutionLease_cases [OF wf r] show ?thesis
  proof (elim disjE exE conjE)
    fix c a
    assume *: "findRunAttemptById s i = Some c" "a_status c = Att_RUNNING" "attempt_wf a"
      "attempt_timeline a" "a_id a = i" "a_runId a = a_runId c" "a_sequence a = a_sequence c"
      "a_status a = Att_RUNNING" "s' = put_attempt a s"
    show "store_ok s'"
      unfolding *(9) by (rule store_ok_attempt [OF ok, of a c]) (use * in simp_all)
  qed (use ok in simp)
qed

text \<open>An attempt is failed together with its run: the step both expiry operations make.\<close>

definition fails_with :: "run_store \<Rightarrow> run_attempt \<Rightarrow> run \<Rightarrow> run_attempt \<Rightarrow> run \<Rightarrow> bool" where
  "fails_with s c q a r \<longleftrightarrow> findRunAttemptById s (a_id a) = Some c \<and> a_status c = Att_RUNNING
     \<and> findRunById s (a_runId c) = Some q \<and> r_status q = Run_RUNNING \<and> r_id r = a_runId c \<and> run_wf r
     \<and> attempt_wf a \<and> attempt_timeline a \<and> a_id a = a_id c \<and> a_runId a = a_runId c
     \<and> a_sequence a = a_sequence c \<and> a_createdAt a = a_createdAt c \<and> a_status a = Att_FAILED
     \<and> a_executionOwner a = a_executionOwner c"

lemma fails_with_ok:
  assumes "store_ok s" "fails_with s c q a r" "attempt_status_for (r_status r) = Att_FAILED"
  shows "store_ok (put_run r (put_attempt a s))"
  by (rule store_ok_move [OF assms(1), of a c r q]) (use assms(2,3) in \<open>auto simp: fails_with_def\<close>)

lemma fails_withI:
  assumes wf: "store_wf s" and b: "findRunAttemptById s i = Some b" "a_status b = Att_RUNNING"
    and q: "findRunById s (a_runId b) = Some q" "r_status q = Run_RUNNING"
    and a: "RunAttempt_transitionTo b Att_FAILED now opts = Inr a"
    and r: "run_wf r" "r_id r = r_id q"
  shows "fails_with s b q a r"
proof -
  note bw = store_wf_attemptD [OF wf b(1)]
  have "trimmed_owner (a_executionOwner b) = a_executionOwner b"
    using bw by (auto simp: trimmed_owner_def attempt_wf_def split: option.splits)
  with transitionTo_shape [OF a] transitionTo_inv [OF _ _ a] bw b q r store_wf_runD [OF wf q(1)]
  show ?thesis by (simp add: fails_with_def)
qed

lemma failExpiredLeasedAttempt_cases:
  assumes wf: "store_wf s" and f: "failExpiredLeasedAttempt c s = (s', res)"
  shows "(s' = s \<and> (\<forall>x. res \<noteq> Inr (Some x))) \<or>
    (\<exists>b q a r. res = Inr (Some (r, a)) \<and> fails_with s b q a r \<and> a_id b = ec_runAttemptId c
      \<and> lease_expired (ec_now c) b \<and> a_executionGeneration b = ec_generation c
      \<and> r = q\<lparr> r_status := Run_FAILED, r_updatedAt := ec_now c \<rparr> \<and> s' = put_run r (put_attempt a s))"
proof (cases "\<exists>b q. findRunAttemptById s (ec_runAttemptId c) = Some b \<and> a_status b = Att_RUNNING
    \<and> a_executionOwner b \<noteq> None \<and> a_executionGeneration b = ec_generation c
    \<and> (case a_leaseExpiresAt b of None \<Rightarrow> False | Some e \<Rightarrow> \<not> date_lt (ec_now c) e)
    \<and> findRunById s (a_runId b) = Some q \<and> r_status q = Run_RUNNING")
  case False
  then have "s' = s \<and> res = Inr None"
    using f by (auto simp: failExpiredLeasedAttempt_def fold_finds split: option.splits if_splits)
  then show ?thesis by simp
next
  case True
  then obtain b q where b: "findRunAttemptById s (ec_runAttemptId c) = Some b" "a_status b = Att_RUNNING"
      "a_executionOwner b \<noteq> None" "a_executionGeneration b = ec_generation c"
    and x: "case a_leaseExpiresAt b of None \<Rightarrow> False | Some e \<Rightarrow> \<not> date_lt (ec_now c) e"
    and q: "findRunById s (a_runId b) = Some q" "r_status q = Run_RUNNING" by blast
  from x obtain e where e: "a_leaseExpiresAt b = Some e" "\<not> date_lt (ec_now c) e"
    by (auto split: option.splits)
  have l: "op_lift (RunAttempt_transitionTo b Att_FAILED (ec_now c) (failed_options c))
      (\<lambda>fa. op_lift (Run_transitionTo q Run_FAILED (ec_now c)) (\<lambda>fr s.
        (put_run fr (put_attempt fa s), Inr (Some (fr, fa))))) s = (s', res)"
    using f b q e by (simp add: failExpiredLeasedAttempt_def fold_finds)
  note bw = store_wf_attemptD [OF wf b(1)] and qw = store_wf_runD [OF wf q(1)]
  from op_lift_cases [OF l] show ?thesis
  proof (elim disjE exE conjE)
    fix a assume a: "RunAttempt_transitionTo b Att_FAILED (ec_now c) (failed_options c) = Inr a"
      and l2: "op_lift (Run_transitionTo q Run_FAILED (ec_now c)) (\<lambda>fr s.
        (put_run fr (put_attempt a s), Inr (Some (fr, a)))) s = (s', res)"
    from op_lift_cases [OF l2] show ?thesis
    proof (elim disjE exE conjE)
      fix r assume r: "Run_transitionTo q Run_FAILED (ec_now c) = Inr r"
        "(put_run r (put_attempt a s), Inr (Some (r, a))) = (s', res)"
      have rw: "run_wf r" "r = q\<lparr> r_status := Run_FAILED, r_updatedAt := ec_now c \<rparr>"
        "valid_date (ec_now c)"
        using Run_transitionTo_wf [OF _ r(1)] Run_transitionTo_Inr [of q Run_FAILED "ec_now c" r] r(1) qw
          date_le_valid by auto
      have "valid_date e" using bw e(1) by (simp add: attempt_wf_def)
      then have "lease_expired (ec_now c) b"
        using b e rw(3) by (simp add: lease_expired_def date_not_lt)
      moreover have "fails_with s b q a r"
        by (rule fails_withI [OF wf b(1,2) q a rw(1)]) (simp add: rw(2))
      ultimately show ?thesis using bw b(4) rw(2) r(2)
        by (intro disjI2 exI [of _ b] exI [of _ q] exI [of _ a] exI [of _ r]) auto
    qed simp
  qed simp
qed

lemma interruptExpired_cases:
  assumes wf: "store_wf s" and f: "interruptExpiredLeasedAttemptForRecovery c m s = (s', res)"
  shows "(s' = s \<and> (\<forall>x. res \<noteq> Inr (Some x))) \<or>
    (\<exists>b q a r. res = Inr (Some (r, a)) \<and> fails_with s b q a r \<and> a_id b = ec_runAttemptId c
      \<and> a_executionGeneration b = ec_generation c
      \<and> r = q\<lparr> r_status := Run_INTERRUPTED, r_updatedAt := ec_now c, r_recoveryMetadata := Some m \<rparr>
      \<and> s' = put_run r (put_attempt a s))"
proof (cases "\<exists>b q. findRunAttemptById s (ec_runAttemptId c) = Some b \<and> a_status b = Att_RUNNING
    \<and> a_executionGeneration b = ec_generation c
    \<and> findRunById s (a_runId b) = Some q \<and> r_status q = Run_RUNNING")
  case False
  then have "s' = s \<and> res = Inr None"
    using f by (auto simp: interruptExpiredLeasedAttemptForRecovery_def fold_finds
        split: option.splits if_splits)
  then show ?thesis by simp
next
  case True
  then obtain b q where b: "findRunAttemptById s (ec_runAttemptId c) = Some b" "a_status b = Att_RUNNING"
      "a_executionGeneration b = ec_generation c"
    and q: "findRunById s (a_runId b) = Some q" "r_status q = Run_RUNNING" by blast
  let ?move = "and_then (Run_transitionTo q Run_INTERRUPTED (ec_now c))
    (\<lambda>r. Run_withRecoveryMetadata r (Some m) (ec_now c))"
  have l: "op_lift (RunAttempt_transitionTo b Att_FAILED (ec_now c) (failed_options c))
      (\<lambda>fa. op_lift ?move (\<lambda>fr s. (put_run fr (put_attempt fa s), Inr (Some (fr, fa))))) s = (s', res)"
    using f b q by (simp add: interruptExpiredLeasedAttemptForRecovery_def fold_finds)
  note bw = store_wf_attemptD [OF wf b(1)] and qw = store_wf_runD [OF wf q(1)]
  from op_lift_cases [OF l] show ?thesis
  proof (elim disjE exE conjE)
    fix a assume a: "RunAttempt_transitionTo b Att_FAILED (ec_now c) (failed_options c) = Inr a"
      and l2: "op_lift ?move (\<lambda>fr s. (put_run fr (put_attempt a s), Inr (Some (fr, a)))) s = (s', res)"
    from op_lift_cases [OF l2] show ?thesis
    proof (elim disjE exE conjE)
      fix r assume r: "?move = Inr r" "(put_run r (put_attempt a s), Inr (Some (r, a))) = (s', res)"
      from r(1) obtain r0 where r0: "Run_transitionTo q Run_INTERRUPTED (ec_now c) = Inr r0"
        "Run_withRecoveryMetadata r0 (Some m) (ec_now c) = Inr r" by (auto simp: and_then_Inr)
      have w0: "run_wf r0" "r0 = q\<lparr> r_status := Run_INTERRUPTED, r_updatedAt := ec_now c \<rparr>"
        using Run_transitionTo_wf [OF _ r0(1)] Run_transitionTo_Inr [of q _ _ r0] r0(1) qw by auto
      have rw: "run_wf r" "r = q\<lparr> r_status := Run_INTERRUPTED, r_updatedAt := ec_now c,
          r_recoveryMetadata := Some m \<rparr>"
        using Run_withRecoveryMetadata_wf [OF w0(1) r0(2)]
          Run_withRecoveryMetadata_Inr [OF w0(1), of "Some m" "ec_now c" r] r0(2) w0(2) by auto
      have "fails_with s b q a r"
        by (rule fails_withI [OF wf b(1,2) q a rw(1)]) (simp add: rw(2))
      then show ?thesis using bw b(3) rw(2) r(2)
        by (intro disjI2 exI [of _ b] exI [of _ q] exI [of _ a] exI [of _ r]) auto
    qed simp
  qed simp
qed

lemma expired_ok:
  assumes ok: "store_ok s"
  shows "failExpiredLeasedAttempt c s = (s', res) \<Longrightarrow> store_ok s'"
    and "interruptExpiredLeasedAttemptForRecovery c m s = (s', res') \<Longrightarrow> store_ok s'"
proof -
  have wf: "store_wf s" using ok by (simp add: store_ok_def)
  show "failExpiredLeasedAttempt c s = (s', res) \<Longrightarrow> store_ok s'"
    using failExpiredLeasedAttempt_cases [OF wf, of c s' res] fails_with_ok [OF ok] ok
    by (auto simp: attempt_status_for_def)
  show "interruptExpiredLeasedAttemptForRecovery c m s = (s', res') \<Longrightarrow> store_ok s'"
    using interruptExpired_cases [OF wf, of c m s' res'] fails_with_ok [OF ok] ok
    by (auto simp: attempt_status_for_def)
qed

lemma set_attempts_of:
  assumes "store_wf s"
  shows "set (attempts_of s i) = run_attempts s i"
proof -
  have d: "distinct (map_keys (rs_attempts s))" using assms by (simp add: store_wf_def distinct_store_def)
  have ids: "a_id a = j" if "map_of (rs_attempts s) j = Some a" for j a
    using store_wf_attemptD [OF assms, of j a] that by (simp add: findRunAttemptById_def)
  have "a \<in> set (map_values (rs_attempts s)) \<longleftrightarrow> map_of (rs_attempts s) (a_id a) = Some a" for a
  proof
    assume "a \<in> set (map_values (rs_attempts s))"
    then obtain j where "(j, a) \<in> set (rs_attempts s)" by auto
    then have "map_of (rs_attempts s) j = Some a" using d by (rule map_of_is_SomeI [rotated])
    with ids show "map_of (rs_attempts s) (a_id a) = Some a" by simp
  qed (rule map_of_SomeD_snd)
  then show ?thesis by (auto simp: attempts_of_def run_attempts_def findRunAttemptById_def)
qed

lemma latest_attempt_is_last:
  assumes "store_wf s" "is_last (run_attempts s i) a"
  shows "latest_attempt s i = Some a"
proof -
  note set = set_attempts_of [OF assms(1), of i]
  obtain b bs where b: "sort_key (\<lambda>a. - a_sequence a) (attempts_of s i) = b # bs"
    using assms(2) set
    by (cases "sort_key (\<lambda>a. - a_sequence a) (attempts_of s i)")
      (auto simp: is_last_def dest!: arg_cong [where f = set])
  have "sorted (List.map (\<lambda>a. - a_sequence a) (b # bs))" using sorted_sort_key b by metis
  then have "\<forall>c \<in> set (b # bs). a_sequence c \<le> a_sequence b" by auto
  moreover have sb: "set (b # bs) = run_attempts s i" using set_sort b set by metis
  ultimately have "a_sequence a \<le> a_sequence b" "b \<in> run_attempts s i"
    using assms(2) by (auto simp: is_last_def)
  moreover have "a_sequence b < a_sequence a" if "b \<noteq> a" "b \<in> run_attempts s i"
    using assms(2) that by (auto simp: is_last_def)
  ultimately have "a = b" by fastforce
  with b show ?thesis by (simp add: latest_attempt_def)
qed

lemma latest_attempt_of_ok:
  assumes "store_ok s" "findRunById s i = Some q"
  shows "\<exists>p. latest_attempt s i = Some p \<and> is_last (run_attempts s i) p
    \<and> a_status p = attempt_status_for (r_status q)"
  using assms latest_attempt_is_last unfolding store_ok_def attempts_fit_def by blast

lemma scheduleRecovery_cases:
  assumes ok: "store_ok s" and f: "scheduleRecoveryRunAttempt i newId now m s = (s', res)"
  shows "(s' = s \<and> (\<forall>x. res \<noteq> Inr (Some x))) \<or>
    (\<exists>q p r a. res = Inr (Some (r, a)) \<and> findRunById s i = Some q \<and> r_status q = Run_INTERRUPTED
      \<and> is_last (run_attempts s i) p \<and> a_status p = Att_FAILED
      \<and> RunAttempt_createSubsequent p newId now None = Inr a
      \<and> a_id a = newId \<and> a_runId a = i \<and> a_sequence a = a_sequence p + 1 \<and> a_status a = Att_PENDING
      \<and> attempt_wf a \<and> attempt_timeline a \<and> run_wf r
      \<and> r = q\<lparr> r_status := Run_QUEUED, r_updatedAt := now, r_recoveryMetadata := Some m \<rparr>
      \<and> s' = put_run r (put_attempt a s))"
proof (cases "\<exists>q. findRunById s i = Some q \<and> r_status q = Run_INTERRUPTED
    \<and> \<not> (\<exists>a\<in>set (map_values (rs_attempts s)). a_runId a = i \<and> is_active a)")
  case False
  then have "s' = s \<and> res = Inr None"
    using f by (auto simp: scheduleRecoveryRunAttempt_def fold_finds split: option.splits if_splits)
  then show ?thesis by simp
next
  case True
  then obtain q where q: "findRunById s i = Some q" "r_status q = Run_INTERRUPTED"
    and na: "\<not> (\<exists>a\<in>set (map_values (rs_attempts s)). a_runId a = i \<and> is_active a)" by blast
  have wf: "store_wf s" using ok by (simp add: store_ok_def)
  from latest_attempt_of_ok [OF ok q(1)] q(2) obtain p where p: "latest_attempt s i = Some p"
    "is_last (run_attempts s i) p" "a_status p = Att_FAILED" by (auto simp: attempt_status_for_def)
  have pi: "a_runId p = i" using p(2) by (simp add: is_last_def run_attempts_def)
  let ?move = "and_then (Run_transitionTo q Run_QUEUED now) (\<lambda>r. Run_withRecoveryMetadata r (Some m) now)"
  have na': "(\<exists>a\<in>set (map_values (rs_attempts s)). a_runId a = i \<and> is_active a) = False" using na by simp
  have l: "op_lift (RunAttempt_createSubsequent p newId now None)
      (\<lambda>na. op_lift ?move (\<lambda>nr s. (put_run nr (put_attempt na s), Inr (Some (nr, na))))) s = (s', res)"
    using f unfolding scheduleRecoveryRunAttempt_def fold_finds na' by (simp add: q p(1))
  note qw = store_wf_runD [OF wf q(1)]
  from op_lift_cases [OF l] show ?thesis
  proof (elim disjE exE conjE)
    fix a assume a: "RunAttempt_createSubsequent p newId now None = Inr a"
      and l2: "op_lift ?move (\<lambda>nr s. (put_run nr (put_attempt a s), Inr (Some (nr, a)))) s = (s', res)"
    from op_lift_cases [OF l2] show ?thesis
    proof (elim disjE exE conjE)
      fix r assume r: "?move = Inr r" "(put_run r (put_attempt a s), Inr (Some (r, a))) = (s', res)"
      from r(1) obtain r0 where r0: "Run_transitionTo q Run_QUEUED now = Inr r0"
        "Run_withRecoveryMetadata r0 (Some m) now = Inr r" by (auto simp: and_then_Inr)
      have w0: "run_wf r0" "r0 = q\<lparr> r_status := Run_QUEUED, r_updatedAt := now \<rparr>"
        using Run_transitionTo_wf [OF _ r0(1)] Run_transitionTo_Inr [of q _ _ r0] r0(1) qw by auto
      have rw: "run_wf r" "r = q\<lparr> r_status := Run_QUEUED, r_updatedAt := now, r_recoveryMetadata := Some m \<rparr>"
        using Run_withRecoveryMetadata_wf [OF w0(1) r0(2)]
          Run_withRecoveryMetadata_Inr [OF w0(1), of "Some m" now r] r0(2) w0(2) by auto
      have "a_id a = newId \<and> a_runId a = i \<and> a_sequence a = a_sequence p + 1 \<and> a_status a = Att_PENDING"
        using createSubsequent_shape [OF a] pi by simp
      then show ?thesis using q p(2,3) a createSubsequent_inv [OF a] rw r(2)
        by (intro disjI2 exI [of _ q] exI [of _ p] exI [of _ r] exI [of _ a]) auto
    qed simp
  qed simp
qed

lemma scheduleRecovery_ok:
  assumes ok: "store_ok s" and f: "scheduleRecoveryRunAttempt i newId now m s = (s', res)"
    and fresh: "findRunAttemptById s newId = None"
  shows "store_ok s'"
proof -
  have wf: "store_wf s" using ok by (simp add: store_ok_def)
  from scheduleRecovery_cases [OF ok f] show ?thesis
  proof (elim disjE exE conjE)
    fix q p r a
    assume *: "findRunById s i = Some q" "r_status q = Run_INTERRUPTED" "is_last (run_attempts s i) p"
      "a_id a = newId" "a_runId a = i" "a_sequence a = a_sequence p + 1" "a_status a = Att_PENDING"
      "attempt_wf a" "attempt_timeline a" "run_wf r"
      "r = q\<lparr> r_status := Run_QUEUED, r_updatedAt := now, r_recoveryMetadata := Some m \<rparr>"
      "s' = put_run r (put_attempt a s)"
    have ri: "r_id r = i" "r_status r = Run_QUEUED" using *(11) store_wf_runD [OF wf *(1)] by simp_all
    have new: "run_attempts s' j = (if j = i then insert a (run_attempts s j) else run_attempts s j)" for j
      using put_attempt_new [of s a] fresh *(4,5) by (simp add: *(12))
    have "store_wf (put_attempt a s)"
      by (rule store_wf_put_attempt [OF wf *(8,9)]) (simp add: *(1,5))
    then have "store_wf s'" unfolding *(12) by (rule store_wf_put_run) (use *(1,10) ri in auto)
    moreover have "attempts_fit (run_attempts s i) Run_INTERRUPTED"
      using ok *(1,2) unfolding store_ok_def by fastforce
    then have "attempts_fit (insert a (run_attempts s i)) Run_QUEUED"
      by (rule fit_successor [OF _ _ *(3,6)]) (simp_all add: attempt_status_for_def *(7))
    ultimately show "store_ok s'"
      using ok new ri by (auto simp: store_ok_def *(12) split: if_splits)
  qed (use ok in simp)
qed

lemma updateInterruptedRunRecoveryMetadata_cases:
  assumes wf: "store_wf s" and f: "updateInterruptedRunRecoveryMetadata w i m now s = (s', res)"
  shows "(s' = s \<and> (\<forall>x. res \<noteq> Inr (Some x))) \<or>
    (\<exists>q r. res = Inr (Some r) \<and> findRunById s i = Some q \<and> r_status q = Run_INTERRUPTED \<and> run_wf r
      \<and> r = q\<lparr> r_updatedAt := now, r_recoveryMetadata := Some m \<rparr> \<and> s' = put_run r s)"
proof (cases "\<exists>q. findRunById s i = Some q \<and> r_workspaceId q = w \<and> r_status q = Run_INTERRUPTED")
  case False
  then have "s' = s \<and> res = Inr None"
    using f by (auto simp: updateInterruptedRunRecoveryMetadata_def fold_finds split: option.splits if_splits)
  then show ?thesis by simp
next
  case True
  then obtain q where q: "findRunById s i = Some q" "r_workspaceId q = w" "r_status q = Run_INTERRUPTED"
    by blast
  have l: "op_lift (Run_withRecoveryMetadata q (Some m) now) (\<lambda>r s. (put_run r s, Inr (Some r))) s = (s', res)"
    using f q by (simp add: updateInterruptedRunRecoveryMetadata_def fold_finds)
  note qw = store_wf_runD [OF wf q(1)]
  from op_lift_cases [OF l] show ?thesis
  proof (elim disjE exE conjE)
    fix r assume r: "Run_withRecoveryMetadata q (Some m) now = Inr r" "(put_run r s, Inr (Some r)) = (s', res)"
    have "run_wf r" "r = q\<lparr> r_updatedAt := now, r_recoveryMetadata := Some m \<rparr>"
      using Run_withRecoveryMetadata_wf [OF _ r(1)] Run_withRecoveryMetadata_Inr [of q "Some m" now r] r(1) qw
      by auto
    with q r(2) show ?thesis by (intro disjI2 exI [of _ q] exI [of _ r]) auto
  qed simp
qed

lemma updateInterruptedRunRecoveryMetadata_ok:
  assumes ok: "store_ok s" and f: "updateInterruptedRunRecoveryMetadata w i m now s = (s', res)"
  shows "store_ok s'"
proof -
  have wf: "store_wf s" using ok by (simp add: store_ok_def)
  from updateInterruptedRunRecoveryMetadata_cases [OF wf f] show ?thesis
    using store_ok_run [OF ok] store_wf_runD [OF wf] ok by auto
qed

end
