(* ===== verification/Agents.thy ===== *)
theory Agents
  imports Json_Text Run_Model
begin

text \<open>
  Agents and their versions (\<open>domain/src/agent.ts\<close>, \<open>agent-version.ts\<close>), the bindings a manifest
  declares (\<open>model-bindings.ts\<close>, \<open>tool-bindings.ts\<close>, \<open>memory-bindings.ts\<close>,
  \<open>knowledge-index-bindings.ts\<close>) and the agent repository of the memory adapter. A manifest is
  a JSON value of the shape its schema demands.
\<close>

subsection \<open>Manifests\<close>

text \<open>\<open>object.name\<close>, with undefined for what is not there.\<close>

definition js_get :: "jsv \<Rightarrow> string \<Rightarrow> jsv" where
  "js_get v name = (case map_of (js_entries v) name of None \<Rightarrow> JUndefined | Some x \<Rightarrow> x)"

definition modelProfileVersionBindingsFromManifest :: "jsv \<Rightarrow> jsv" where
  "modelProfileVersionBindingsFromManifest manifest =
     (let models = js_get manifest ''models''
      in if models = JUndefined then JObject []
         else assign_entries (List.map (\<lambda>(name, binding). (name, js_get binding ''modelProfileVersionId''))
           (js_entries models)))"

definition toolVersionBindingsFromManifest :: "jsv \<Rightarrow> jsv" where
  "toolVersionBindingsFromManifest manifest =
     (let tools = js_get manifest ''tools''
      in if tools = JUndefined then JObject []
         else assign_entries (List.map (\<lambda>(name, binding). (name, js_get binding ''toolVersionId''))
           (js_entries tools)))"

definition memoryNamespaceBindingsFromManifest :: "jsv \<Rightarrow> jsv" where
  "memoryNamespaceBindingsFromManifest manifest =
     (let memory = js_get manifest ''memory''
      in if memory = JUndefined then JObject []
         else assign_entries (List.map (\<lambda>(name, binding). (name, JObject
             [(''namespaceId'', js_get binding ''namespaceId''), (''access'', js_get binding ''access'')]))
           (js_entries memory)))"

fun js_items :: "jsv \<Rightarrow> jsv list" where
  "js_items (JArray xs) = xs"
| "js_items _ = []"

definition knowledgeIndexBindingsFromManifest :: "jsv \<Rightarrow> jsv" where
  "knowledgeIndexBindingsFromManifest manifest =
     (let knowledge = js_get manifest ''knowledge''
      in if knowledge = JUndefined then JObject []
         else assign_entries (List.map (\<lambda>(name, binding).
             (name, JArray (js_items (js_get binding ''knowledgeIndexIds'')))) (js_entries knowledge)))"

definition isDeclarativeAgentRuntime :: "jsv \<Rightarrow> bool" where
  "isDeclarativeAgentRuntime runtime = (js_get runtime ''type'' = JString ''DECLARATIVE'')"

subsection \<open>Agents\<close>

record agent =
  ag_id :: string
  ag_workspaceId :: string
  ag_key :: string
  ag_name :: string
  ag_createdAt :: js_date

definition Agent_create :: "agent \<Rightarrow> osva_error + agent" where
  "Agent_create p =
     (if ag_id p = '''' then Inl (DomainInvariantError ''Agent.id is required.'')
      else if ag_workspaceId p = '''' then Inl (DomainInvariantError ''Agent.workspaceId is required.'')
      else
        and_then (requireNonEmptyString (ag_key p) ''Agent.key'') (\<lambda>key.
        and_then (requireNonEmptyString (ag_name p) ''Agent.name'') (\<lambda>name.
        and_then (copyInstant (ag_createdAt p)) (\<lambda>createdAt.
          Inr \<lparr> ag_id = ag_id p, ag_workspaceId = ag_workspaceId p, ag_key = key, ag_name = name,
            ag_createdAt = createdAt \<rparr>))))"

definition Agent_withName :: "agent \<Rightarrow> string \<Rightarrow> osva_error + agent" where
  "Agent_withName a name = Agent_create (a\<lparr> ag_name := name \<rparr>)"

record agent_version =
  av_id :: string
  av_agentId :: string
  av_version :: int
  av_manifest :: jsv
  av_createdAt :: js_date

definition AgentVersion_create :: "agent_version \<Rightarrow> osva_error + agent_version" where
  "AgentVersion_create p =
     (if av_id p = '''' then Inl (DomainInvariantError ''AgentVersion.id is required.'')
      else if av_agentId p = '''' then Inl (DomainInvariantError ''AgentVersion.agentId is required.'')
      else if \<not> js_object (av_manifest p)
      then Inl (DomainInvariantError ''AgentVersion.manifest must be a snapshot object.'')
      else
        and_then (requirePositiveInteger (av_version p) ''AgentVersion.version'') (\<lambda>version.
        and_then (copyInstant (av_createdAt p)) (\<lambda>createdAt.
          Inr \<lparr> av_id = av_id p, av_agentId = av_agentId p, av_version = version,
            av_manifest = freezeClone (av_manifest p), av_createdAt = createdAt \<rparr>)))"

subsection \<open>The agent repository (memory-agent-repository.ts)\<close>

record agent_store =
  as_agents :: "(string, agent) js_map"
  as_versions :: "(string, agent_version) js_map"

definition saveAgent :: "agent \<Rightarrow> agent_store \<Rightarrow> osva_error + agent_store" where
  "saveAgent a s =
     (if \<exists>existing\<in>set (map_values (as_agents s)). ag_id existing \<noteq> ag_id a
        \<and> ag_workspaceId existing = ag_workspaceId a \<and> ag_key existing = ag_key a
      then Inl (DuplicateKeyError ''Agent'' (ag_workspaceId a) (ag_key a))
      else Inr (s\<lparr> as_agents := AList.update (ag_id a) a (as_agents s) \<rparr>))"

definition findAgentById :: "agent_store \<Rightarrow> string \<Rightarrow> agent option" where
  "findAgentById s i = map_of (as_agents s) i"

definition findAgentByWorkspaceAndId :: "agent_store \<Rightarrow> string \<Rightarrow> string \<Rightarrow> agent option" where
  "findAgentByWorkspaceAndId s workspaceId i =
     (case map_of (as_agents s) i of None \<Rightarrow> None
      | Some a \<Rightarrow> if ag_workspaceId a \<noteq> workspaceId then None else Some a)"

definition listAgents :: "agent_store \<Rightarrow> agent list" where
  "listAgents s = sort_key (\<lambda>a. (ag_createdAt a, ag_id a)) (map_values (as_agents s))"

definition listAgentsByWorkspaceId :: "agent_store \<Rightarrow> string \<Rightarrow> agent list" where
  "listAgentsByWorkspaceId s workspaceId = sort_key (\<lambda>a. (ag_createdAt a, ag_id a))
     (filter (\<lambda>a. ag_workspaceId a = workspaceId) (map_values (as_agents s)))"

definition updateAgentMetadata :: "string \<Rightarrow> string \<Rightarrow> agent_store \<Rightarrow> osva_error + (agent option \<times> agent_store)" where
  "updateAgentMetadata i name s =
     (case map_of (as_agents s) i of None \<Rightarrow> Inr (None, s)
      | Some existing \<Rightarrow> and_then (Agent_withName existing name) (\<lambda>updated.
          Inr (Some updated, s\<lparr> as_agents := AList.update i updated (as_agents s) \<rparr>)))"

definition isSameAgentVersion :: "agent_version \<Rightarrow> agent_version \<Rightarrow> bool" where
  "isSameAgentVersion l r =
     (av_id l = av_id r \<and> av_agentId l = av_agentId r \<and> av_version l = av_version r
      \<and> date_eq (av_createdAt l) (av_createdAt r)
      \<and> JSON_stringify (av_manifest l) = JSON_stringify (av_manifest r))"

definition saveAgentVersion :: "agent_version \<Rightarrow> agent_store \<Rightarrow> osva_error + agent_store" where
  "saveAgentVersion v s =
     (case map_of (as_versions s) (av_id v) of
        Some existing \<Rightarrow>
          if \<not> isSameAgentVersion existing v
          then Inl (DomainInvariantError (''AgentVersion '' @ quoted (av_id v)
            @ '' is immutable and cannot be replaced with different content.''))
          else Inr (s\<lparr> as_versions := AList.update (av_id v) existing (as_versions s) \<rparr>)
      | None \<Rightarrow>
          if \<exists>stored\<in>set (map_values (as_versions s)). av_agentId stored = av_agentId v
              \<and> av_version stored = av_version v
          then Inl (DomainInvariantError (''AgentVersion already exists for agent '' @ quoted (av_agentId v)
            @ '' version '' @ nat_str (nat (av_version v)) @ ''.''))
          else Inr (s\<lparr> as_versions := AList.update (av_id v) v (as_versions s) \<rparr>))"

text \<open>The loop that keeps the largest version of the agent seen so far.\<close>

definition max_version :: "agent_store \<Rightarrow> string \<Rightarrow> int" where
  "max_version s agentId = foldl (\<lambda>m v. if av_agentId v = agentId \<and> m < av_version v then av_version v else m)
     0 (map_values (as_versions s))"

record append_version_input =
  avi_id :: string
  avi_agentId :: string
  avi_manifest :: jsv
  avi_createdAt :: js_date

definition appendAgentVersion ::
    "append_version_input \<Rightarrow> agent_store \<Rightarrow> osva_error + (agent_version \<times> agent_store)" where
  "appendAgentVersion i s =
     (if map_of (as_agents s) (avi_agentId i) = None then Inl (AgentNotFoundError (avi_agentId i))
      else
        and_then (AgentVersion_create \<lparr> av_id = avi_id i, av_agentId = avi_agentId i,
            av_version = max_version s (avi_agentId i) + 1, av_manifest = avi_manifest i,
            av_createdAt = avi_createdAt i \<rparr>) (\<lambda>v.
        and_then (saveAgentVersion v s) (\<lambda>s'. Inr (v, s'))))"

definition findAgentVersionById :: "agent_store \<Rightarrow> string \<Rightarrow> agent_version option" where
  "findAgentVersionById s i = map_of (as_versions s) i"

definition listAgentVersions :: "agent_store \<Rightarrow> string \<Rightarrow> agent_version list" where
  "listAgentVersions s agentId =
     sort_key av_version (filter (\<lambda>v. av_agentId v = agentId) (map_values (as_versions s)))"

subsection \<open>What the repository keeps\<close>

definition versions_ok :: "agent_store \<Rightarrow> bool" where
  "versions_ok s \<longleftrightarrow> distinct (map_keys (as_versions s))
     \<and> (\<forall>i v. findAgentVersionById s i = Some v \<longrightarrow> av_id v = i)
     \<and> (\<forall>i j v w. findAgentVersionById s i = Some v \<longrightarrow> findAgentVersionById s j = Some w \<longrightarrow>
          av_agentId v = av_agentId w \<longrightarrow> av_version v = av_version w \<longrightarrow> i = j)"

definition agents_ok :: "agent_store \<Rightarrow> bool" where
  "agents_ok s \<longleftrightarrow> distinct (map_keys (as_agents s))
     \<and> (\<forall>i a. findAgentById s i = Some a \<longrightarrow> ag_id a = i)
     \<and> (\<forall>i j a b. findAgentById s i = Some a \<longrightarrow> findAgentById s j = Some b \<longrightarrow>
          ag_workspaceId a = ag_workspaceId b \<longrightarrow> ag_key a = ag_key b \<longrightarrow> i = j)"

definition put_version :: "agent_version \<Rightarrow> agent_store \<Rightarrow> agent_store" where
  "put_version v s = s\<lparr> as_versions := AList.update (av_id v) v (as_versions s) \<rparr>"

definition put_agent :: "agent \<Rightarrow> agent_store \<Rightarrow> agent_store" where
  "put_agent a s = s\<lparr> as_agents := AList.update (ag_id a) a (as_agents s) \<rparr>"

lemma find_put [simp]:
  "findAgentById (put_agent a s) i = (if i = ag_id a then Some a else findAgentById s i)"
  "findAgentVersionById (put_agent a s) i = findAgentVersionById s i"
  "findAgentVersionById (put_version v s) i = (if i = av_id v then Some v else findAgentVersionById s i)"
  "findAgentById (put_version v s) i = findAgentById s i"
  by (simp_all add: findAgentById_def findAgentVersionById_def put_agent_def put_version_def)

lemma put_ok [simp]:
  "versions_ok (put_agent a s) = versions_ok s" "agents_ok (put_version v s) = agents_ok s"
  "as_agents (put_version v s) = as_agents s" "as_versions (put_agent a s) = as_versions s"
  by (simp_all add: versions_ok_def agents_ok_def) (simp_all add: put_agent_def put_version_def)

inductive agent_step :: "agent_store \<Rightarrow> agent_store \<Rightarrow> bool" where
  agent_save: "saveAgent a s = Inr s' \<Longrightarrow> agent_step s s'"
| agent_rename: "updateAgentMetadata i n s = Inr (r, s') \<Longrightarrow> agent_step s s'"
| version_save: "saveAgentVersion v s = Inr s' \<Longrightarrow> agent_step s s'"
| version_append: "appendAgentVersion i s = Inr (v, s') \<Longrightarrow> agent_step s s'"

lemma find_values:
  "findAgentById s i = Some a \<Longrightarrow> a \<in> set (map_values (as_agents s))"
  "findAgentVersionById s i = Some v \<Longrightarrow> v \<in> set (map_values (as_versions s))"
  unfolding findAgentById_def findAgentVersionById_def by (rule map_of_SomeD_snd, assumption)+

lemma put_agent_ok:
  assumes "agents_ok s"
    and "\<And>i b. findAgentById s i = Some b \<Longrightarrow> i \<noteq> ag_id a \<Longrightarrow> ag_workspaceId b = ag_workspaceId a \<Longrightarrow>
      ag_key b \<noteq> ag_key a"
  shows "agents_ok (put_agent a s)"
proof -
  have "distinct (map_keys (as_agents (put_agent a s)))"
    using assms(1) by (simp add: agents_ok_def put_agent_def distinct_update)
  with assms show ?thesis by (auto simp: agents_ok_def split: if_splits) metis+
qed

lemma saveAgent_cases:
  assumes "saveAgent a s = Inr s'" "agents_ok s"
  shows "s' = put_agent a s \<and> agents_ok s'"
proof -
  have d: "distinct (map_keys (as_agents s))" using assms(2) by (simp add: agents_ok_def)
  from assms(1) have s': "s' = put_agent a s"
    and n: "\<not> (\<exists>b\<in>set (map_values (as_agents s)). ag_id b \<noteq> ag_id a
        \<and> ag_workspaceId b = ag_workspaceId a \<and> ag_key b = ag_key a)"
    by (auto simp: saveAgent_def put_agent_def split: if_splits)
  have "agents_ok (put_agent a s)"
  proof (rule put_agent_ok [OF assms(2)])
    fix i b assume b: "findAgentById s i = Some b" "i \<noteq> ag_id a" "ag_workspaceId b = ag_workspaceId a"
    then have "ag_id b = i" using assms(2) by (simp add: agents_ok_def)
    with n b find_values(1) [OF b(1)] show "ag_key b \<noteq> ag_key a" by blast
  qed
  with s' show ?thesis by simp
qed

lemma Agent_withName_same: "Agent_withName a n = Inr b \<Longrightarrow>
    ag_id b = ag_id a \<and> ag_workspaceId b = ag_workspaceId a \<and> ag_key b = ag_key a"
  by (auto simp: Agent_withName_def Agent_create_def result_simps split: if_splits)

lemma updateAgentMetadata_ok:
  assumes "updateAgentMetadata i n s = Inr (r, s')" "agents_ok s"
  shows "agents_ok s' \<and> as_versions s' = as_versions s"
proof (cases "findAgentById s i")
  case None
  with assms show ?thesis by (simp add: updateAgentMetadata_def findAgentById_def)
next
  case (Some a)
  have "updateAgentMetadata i n s = and_then (Agent_withName a n) (\<lambda>u.
      Inr (Some u, s\<lparr> as_agents := AList.update i u (as_agents s) \<rparr>))"
    using Some by (simp add: updateAgentMetadata_def findAgentById_def)
  with assms(1) obtain b where b: "Agent_withName a n = Inr b"
    "s' = s\<lparr> as_agents := AList.update i b (as_agents s) \<rparr>" by (auto simp: and_then_Inr)
  have "ag_id b = i" using Agent_withName_same [OF b(1)] Some assms(2) by (simp add: agents_ok_def)
  with b(2) have s': "s' = put_agent b s" by (simp add: put_agent_def)
  have "agents_ok (put_agent b s)"
  proof (rule put_agent_ok [OF assms(2)])
    fix j c assume "findAgentById s j = Some c" "j \<noteq> ag_id b" "ag_workspaceId c = ag_workspaceId b"
    with assms(2) Some Agent_withName_same [OF b(1)] \<open>ag_id b = i\<close> show "ag_key c \<noteq> ag_key b"
      unfolding agents_ok_def by metis
  qed
  with s' show ?thesis by simp
qed

lemma saveAgentVersion_cases:
  assumes "saveAgentVersion v s = Inr s'" "versions_ok s"
  shows "(s' = s \<and> findAgentVersionById s (av_id v) \<noteq> None) \<or>
    (s' = put_version v s \<and> findAgentVersionById s (av_id v) = None \<and> versions_ok s')"
proof (cases "findAgentVersionById s (av_id v)")
  case (Some e)
  then have "av_id e = av_id v" using assms(2) by (simp add: versions_ok_def)
  with Some assms(1) show ?thesis
    by (auto simp: saveAgentVersion_def findAgentVersionById_def update_same split: if_splits)
next
  case None
  have d: "distinct (map_keys (as_versions s))" using assms(2) by (simp add: versions_ok_def)
  from None assms(1) have s': "s' = put_version v s"
    and n: "\<not> (\<exists>w\<in>set (map_values (as_versions s)). av_agentId w = av_agentId v \<and> av_version w = av_version v)"
    by (auto simp: saveAgentVersion_def findAgentVersionById_def put_version_def split: if_splits)
  have n': "av_version w \<noteq> av_version v" if "findAgentVersionById s i = Some w" "av_agentId w = av_agentId v" for i w
    using n that(2) find_values(2) [OF that(1)] by blast
  then have n2: "av_version v \<noteq> av_version w" if "findAgentVersionById s i = Some w" "av_agentId v = av_agentId w" for i w
    using that by metis
  have "distinct (map_keys (as_versions s'))"
    using d by (simp add: s' put_version_def distinct_update)
  with assms(2) n' n2 have "versions_ok s'"
    unfolding versions_ok_def by (auto simp: s' split: if_splits)
  with None s' show ?thesis by simp
qed

lemma agent_step_ok:
  assumes "agent_step s s'" "agents_ok s" "versions_ok s"
  shows "agents_ok s' \<and> versions_ok s'
    \<and> (\<forall>i v. findAgentVersionById s i = Some v \<longrightarrow> findAgentVersionById s' i = Some v)"
  using assms
proof (induction rule: agent_step.induct)
  case (agent_save a s s')
  from saveAgent_cases [OF agent_save(1,2)] have "s' = put_agent a s" "agents_ok s'" by blast+
  with agent_save(3) show ?case by simp
next
  case (agent_rename i n s r s')
  then show ?case using updateAgentMetadata_ok [of i n s r s']
    by (simp add: versions_ok_def findAgentVersionById_def)
next
  case (version_save v s s')
  then show ?case using saveAgentVersion_cases [of v s s'] by auto
next
  case (version_append i s v s')
  then have "saveAgentVersion v s = Inr s'"
    by (auto simp: appendAgentVersion_def result_simps split: if_splits)
  with version_append show ?case using saveAgentVersion_cases [of v s s'] by auto
qed

definition empty_agent_store :: agent_store where
  "empty_agent_store = \<lparr> as_agents = [], as_versions = [] \<rparr>"

lemma agent_steps_ok:
  assumes "agent_step\<^sup>*\<^sup>* s s'" "agents_ok s" "versions_ok s"
  shows "agents_ok s' \<and> versions_ok s'
    \<and> (\<forall>i v. findAgentVersionById s i = Some v \<longrightarrow> findAgentVersionById s' i = Some v)"
  using assms(1)
proof (induction rule: rtranclp_induct)
  case (step y z)
  then show ?case using agent_step_ok [OF step(2)] by blast
qed (use assms in simp)

lemma empty_agents_ok: "agents_ok empty_agent_store" "versions_ok empty_agent_store"
  by (simp_all add: agents_ok_def versions_ok_def empty_agent_store_def findAgentById_def
      findAgentVersionById_def)

text \<open>
  C30. An agent version is immutable: whatever is saved, appended or renamed later, looking its id
  up returns the very version that was stored, and no other version of the agent gets its number.
  Keys of agents stay unique in a workspace.
\<close>

theorem agent_versions_immutable:
  assumes "agent_step\<^sup>*\<^sup>* empty_agent_store s" "agent_step\<^sup>*\<^sup>* s s'" "findAgentVersionById s i = Some v"
  shows "findAgentVersionById s' i = Some v
    \<and> (\<forall>j w. findAgentVersionById s' j = Some w \<and> av_agentId w = av_agentId v
          \<and> av_version w = av_version v \<longrightarrow> j = i)
    \<and> (\<forall>j k a b. findAgentById s' j = Some a \<and> findAgentById s' k = Some b
          \<and> ag_workspaceId a = ag_workspaceId b \<and> ag_key a = ag_key b \<longrightarrow> j = k)"
proof -
  have s: "agents_ok s" "versions_ok s" using agent_steps_ok [OF assms(1) empty_agents_ok] by auto
  note s' = agent_steps_ok [OF assms(2) s]
  then have "findAgentVersionById s' i = Some v" using assms(3) by blast
  moreover have "j = i" if "findAgentVersionById s' j = Some w" "av_agentId w = av_agentId v"
      "av_version w = av_version v" for j w
    using s' that calculation unfolding versions_ok_def by blast
  moreover have "j = k" if "findAgentById s' j = Some a" "findAgentById s' k = Some b"
      "ag_workspaceId a = ag_workspaceId b" "ag_key a = ag_key b" for j k a b
    using s' that unfolding agents_ok_def by blast
  ultimately show ?thesis by blast
qed

lemma foldl_max_ge:
  "m \<le> foldl (\<lambda>m v. if P v \<and> m < f v then f v else m) (m :: int) vs"
  "v \<in> set vs \<Longrightarrow> P v \<Longrightarrow> f v \<le> foldl (\<lambda>m v. if P v \<and> m < f v then f v else m) (m :: int) vs"
proof (induction vs arbitrary: m)
  case (Cons w ws)
  { case 1 show ?case using Cons(1) [of "if P w \<and> m < f w then f w else m"] by (auto split: if_splits) }
  { case 2 then show ?case
      using Cons(1) [of "if P w \<and> m < f w then f w else m"] Cons(2) [of "if P w \<and> m < f w then f w else m"]
      by (auto split: if_splits) }
qed auto

text \<open>
  Appending never clashes and numbers upwards: the new version is greater than every stored
  version of its agent, positive, and what the lookup then returns under its id, provided the id
  is new.
\<close>

theorem appendAgentVersion_next:
  assumes "appendAgentVersion i s = Inr (v, s')" "findAgentVersionById s (avi_id i) = None"
  shows "findAgentVersionById s' (avi_id i) = Some v \<and> av_agentId v = avi_agentId i \<and> 1 \<le> av_version v
    \<and> (\<forall>w\<in>set (map_values (as_versions s)). av_agentId w = avi_agentId i \<longrightarrow> av_version w < av_version v)"
proof -
  from assms(1) have v: "saveAgentVersion v s = Inr s'" "av_id v = avi_id i" "av_agentId v = avi_agentId i"
    "av_version v = max_version s (avi_agentId i) + 1" "1 \<le> av_version v"
    by (auto simp: appendAgentVersion_def AgentVersion_create_def result_simps split: if_splits)
  have "av_version w \<le> max_version s (avi_agentId i)"
    if "w \<in> set (map_values (as_versions s))" "av_agentId w = avi_agentId i" for w
    unfolding max_version_def
    using foldl_max_ge(2) [of w "map_values (as_versions s)" "\<lambda>v. av_agentId v = avi_agentId i" av_version 0] that
    by simp
  then have "\<forall>w\<in>set (map_values (as_versions s)). av_agentId w = avi_agentId i \<longrightarrow> av_version w < av_version v"
    using v(4) by auto
  moreover have "findAgentVersionById s' (av_id v) = Some v"
    using v(1) assms(2) v(2)
    by (auto simp: saveAgentVersion_def findAgentVersionById_def split: if_splits)
  ultimately show ?thesis using v by simp
qed

definition sample_agent_record :: agent where
  "sample_agent_record = \<lparr> ag_id = ''a'', ag_workspaceId = ''w'', ag_key = ''k'', ag_name = ''n'',
     ag_createdAt = DateMs 1 \<rparr>"

definition sample_append :: append_version_input where
  "sample_append = \<lparr> avi_id = ''v1'', avi_agentId = ''a'', avi_manifest = JObject [],
     avi_createdAt = DateMs 2 \<rparr>"

definition sample_version :: agent_version where
  "sample_version = \<lparr> av_id = ''v1'', av_agentId = ''a'', av_version = 1, av_manifest = JObject [],
     av_createdAt = DateMs 2 \<rparr>"

definition sample_agent_store :: agent_store where
  "sample_agent_store = \<lparr> as_agents = [(''a'', sample_agent_record)], as_versions = [] \<rparr>"

definition sample_version_store :: agent_store where
  "sample_version_store = sample_agent_store\<lparr> as_versions := [(''v1'', sample_version)] \<rparr>"

lemma sample_agent_runs:
  "saveAgent sample_agent_record empty_agent_store = Inr sample_agent_store"
  "appendAgentVersion sample_append sample_agent_store = Inr (sample_version, sample_version_store)"
  "findAgentVersionById sample_agent_store ''v1'' = None"
  "findAgentVersionById sample_version_store ''v1'' = Some sample_version"
  by code_simp+

definition sample_renamed_agent :: agent where
  "sample_renamed_agent = sample_agent_record\<lparr> ag_name := ''renamed'' \<rparr>"

definition sample_renamed_store :: agent_store where
  "sample_renamed_store = sample_version_store\<lparr> as_agents := [(''a'', sample_renamed_agent)] \<rparr>"

lemma sample_rename_runs:
  "updateAgentMetadata ''a'' ''renamed'' sample_version_store = Inr (Some sample_renamed_agent, sample_renamed_store)"
  by code_simp

theorem appendAgentVersion_next_witness:
  "findAgentVersionById sample_version_store (avi_id sample_append) = Some sample_version"
  using appendAgentVersion_next [OF sample_agent_runs(2)] sample_agent_runs(3)
  by (simp add: sample_append_def)

theorem agent_versions_immutable_witness:
  "findAgentVersionById sample_renamed_store ''v1'' = Some sample_version"
  by (rule conjunct1 [OF agent_versions_immutable [OF
      rtranclp.rtrancl_into_rtrancl [OF r_into_rtranclp [of agent_step, OF agent_save [OF sample_agent_runs(1)]]
        version_append [OF sample_agent_runs(2)]]
      r_into_rtranclp [of agent_step, OF agent_rename [OF sample_rename_runs]] sample_agent_runs(4)]])

end
