(* ===== verification/Run_Checkpoint.thy ===== *)
theory Run_Checkpoint
  imports Json_Text Run_Model Agents
begin

text \<open>
  Checkpoints of a run (\<open>contracts/src/run-checkpoint.ts\<close>,
  \<open>domain/src/run-checkpoint-validation.ts\<close>) and their repository in the memory adapter
  (\<open>memory-run-checkpoint-repository.ts\<close>). SHA-256 over a JSON text and the number of bytes
  of a JSON text in UTF-8 are parameters; \<open>createdAt\<close> is the text of the moment a record is
  made. The state of a checkpoint is a JSON value: the repository takes it as unknown data.
\<close>

definition RUN_CHECKPOINT_ENVELOPE_VERSION :: string where
  "RUN_CHECKPOINT_ENVELOPE_VERSION = ''1''"

definition DECLARATIVE_CHECKPOINT_STATE_SCHEMA_VERSION :: string where
  "DECLARATIVE_CHECKPOINT_STATE_SCHEMA_VERSION = ''1''"

definition RUN_CHECKPOINT_MAX_STATE_BYTES :: int where
  "RUN_CHECKPOINT_MAX_STATE_BYTES = 512 * 1024"

record binding_identity =
  bi_agentVersionId :: string
  bi_modelProfileVersionBindings :: jsv
  bi_toolVersionBindings :: jsv

datatype checkpoint_phase = After_model | After_tool | After_prefetch

record checkpoint_cursor =
  cu_phase :: checkpoint_phase
  cu_checkpointSequence :: int

record checkpoint_record =
  ck_id :: string
  ck_workspaceId :: string
  ck_runId :: string
  ck_sequence :: nat
  ck_runAttemptId :: string
  ck_executionGeneration :: int
  ck_envelopeVersion :: string
  ck_stateSchemaVersion :: jsv
  ck_bindingIdentity :: binding_identity
  ck_bindingDigest :: string
  ck_cursor :: checkpoint_cursor
  ck_state :: jsv
  ck_payloadDigest :: string
  ck_createdAt :: string

record checkpoint_command =
  cc_workspaceId :: string
  cc_runId :: string
  cc_runAttemptId :: string
  cc_executionGeneration :: int
  cc_executionOwner :: string
  cc_bindingIdentity :: binding_identity
  cc_cursor :: checkpoint_cursor
  cc_state :: jsv
  cc_idempotencyKey :: string

subsection \<open>Digests and validation (run-checkpoint-validation.ts)\<close>

text \<open>The names in order, then as the properties of an object.\<close>

definition sortRecord :: "jsv \<Rightarrow> jsv" where
  "sortRecord r = assign_entries (property_order (sort_key fst (js_entries r)))"

definition digestRunCheckpointBindings :: "(json_token list \<Rightarrow> string) \<Rightarrow> binding_identity \<Rightarrow> string" where
  "digestRunCheckpointBindings sha256 identity = sha256 (JSON_stringify (JObject
     [(''agentVersionId'', JString (bi_agentVersionId identity)),
      (''modelProfileVersionBindings'', sortRecord (bi_modelProfileVersionBindings identity)),
      (''toolVersionBindings'', sortRecord (bi_toolVersionBindings identity))]))"

definition digestCheckpointPayload :: "(json_token list \<Rightarrow> string) \<Rightarrow> jsv \<Rightarrow> string" where
  "digestCheckpointPayload sha256 state = sha256 (canonicalJsonStringify state)"

fun is_js_number :: "jsv \<Rightarrow> bool" where
  "is_js_number (JNumber n) = True"
| "is_js_number _ = False"

fun js_typeof_object :: "jsv \<Rightarrow> bool" where
  "js_typeof_object (JArray xs) = True"
| "js_typeof_object (JObject kvs) = True"
| "js_typeof_object (JInstance kvs) = True"
| "js_typeof_object _ = False"

definition validateDeclarativeCheckpointState :: "(json_token list \<Rightarrow> int) \<Rightarrow> jsv \<Rightarrow> bool" where
  "validateDeclarativeCheckpointState byteLength state =
     (js_typeof_object state
      \<and> js_get state ''schemaVersion'' = JString DECLARATIVE_CHECKPOINT_STATE_SCHEMA_VERSION
      \<and> is_js_array (js_get state ''messages'')
      \<and> is_js_number (js_get state ''modelInvocations'')
      \<and> is_js_number (js_get state ''toolInvocations'')
      \<and> byteLength (JSON_stringify state) \<le> RUN_CHECKPOINT_MAX_STATE_BYTES)"

definition incompatible :: "string \<Rightarrow> osva_error option" where
  "incompatible msg = Some (CheckpointValidationError ''CHECKPOINT_INCOMPATIBLE'' msg)"

definition assertCheckpointCompatible :: "(json_token list \<Rightarrow> string) \<Rightarrow> binding_identity
    \<Rightarrow> string \<Rightarrow> string \<Rightarrow> string \<Rightarrow> jsv \<Rightarrow> osva_error option" where
  "assertCheckpointCompatible sha256 expectedBindings bindingDigest agentVersionId envelopeVersion
      stateSchemaVersion =
     (if envelopeVersion \<noteq> RUN_CHECKPOINT_ENVELOPE_VERSION
      then incompatible ''Unsupported checkpoint envelope version.''
      else if stateSchemaVersion \<noteq> JString DECLARATIVE_CHECKPOINT_STATE_SCHEMA_VERSION
      then incompatible ''Unsupported checkpoint state schema version.''
      else if agentVersionId \<noteq> bi_agentVersionId expectedBindings
      then incompatible ''Checkpoint agent version does not match effective bindings.''
      else if bindingDigest \<noteq> digestRunCheckpointBindings sha256 expectedBindings
      then incompatible ''Checkpoint binding digest does not match effective bindings.''
      else None)"

definition assertCheckpointStateIntegrity :: "(json_token list \<Rightarrow> string)
    \<Rightarrow> (json_token list \<Rightarrow> int) \<Rightarrow> jsv \<Rightarrow> string \<Rightarrow> osva_error + jsv" where
  "assertCheckpointStateIntegrity sha256 byteLength state payloadDigest =
     (if \<not> validateDeclarativeCheckpointState byteLength state
      then Inl (CheckpointValidationError ''CHECKPOINT_CORRUPT'' ''Checkpoint state failed schema validation.'')
      else if digestCheckpointPayload sha256 state \<noteq> payloadDigest
      then Inl (CheckpointValidationError ''CHECKPOINT_CORRUPT'' ''Checkpoint payload digest mismatch.'')
      else Inr state)"

subsection \<open>The repository (memory-run-checkpoint-repository.ts)\<close>

record tracked_attempt =
  ta_owner :: string
  ta_generation :: int
  ta_status :: string

record checkpoint_store =
  cs_checkpoints :: "checkpoint_record list"
  cs_index :: "(string, checkpoint_record) js_map"
  cs_attempts :: "(string, tracked_attempt) js_map"

definition empty_checkpoint_store :: checkpoint_store where
  "empty_checkpoint_store = \<lparr> cs_checkpoints = [], cs_index = [], cs_attempts = [] \<rparr>"

definition trackRunningAttempt :: "string \<Rightarrow> string \<Rightarrow> int \<Rightarrow> checkpoint_store \<Rightarrow> checkpoint_store" where
  "trackRunningAttempt runAttemptId owner generation s =
     s\<lparr> cs_attempts := AList.update runAttemptId
          \<lparr> ta_owner = owner, ta_generation = generation, ta_status = ''RUNNING'' \<rparr> (cs_attempts s) \<rparr>"

definition clearAttempt :: "string \<Rightarrow> checkpoint_store \<Rightarrow> checkpoint_store" where
  "clearAttempt runAttemptId s = s\<lparr> cs_attempts := AList.delete runAttemptId (cs_attempts s) \<rparr>"

definition checkpoint_key :: "string \<Rightarrow> string \<Rightarrow> string \<Rightarrow> string" where
  "checkpoint_key workspaceId runId idempotencyKey = workspaceId @ '':'' @ runId @ '':'' @ idempotencyKey"

definition findByIdempotencyKey :: "checkpoint_store \<Rightarrow> string \<Rightarrow> string \<Rightarrow> string \<Rightarrow> checkpoint_record option" where
  "findByIdempotencyKey s workspaceId runId idempotencyKey =
     map_of (cs_index s) (checkpoint_key workspaceId runId idempotencyKey)"

definition checkpoints_of_run :: "checkpoint_store \<Rightarrow> string \<Rightarrow> checkpoint_record list" where
  "checkpoints_of_run s runId = filter (\<lambda>row. ck_runId row = runId) (cs_checkpoints s)"

definition checkpoints_in :: "checkpoint_store \<Rightarrow> string \<Rightarrow> string \<Rightarrow> checkpoint_record list" where
  "checkpoints_in s workspaceId runId =
     filter (\<lambda>row. ck_workspaceId row = workspaceId \<and> ck_runId row = runId) (cs_checkpoints s)"

text \<open>The largest sequence of the run, 0 without one.\<close>

definition last_sequence :: "checkpoint_store \<Rightarrow> string \<Rightarrow> nat" where
  "last_sequence s runId = foldl max 0 (List.map ck_sequence (checkpoints_of_run s runId))"

datatype commit_result =
    Committed checkpoint_record
  | Duplicate checkpoint_record
  | Stale_generation
  | Invalid_state

definition commitCheckpoint :: "(json_token list \<Rightarrow> string) \<Rightarrow> (json_token list \<Rightarrow> int) \<Rightarrow> string
    \<Rightarrow> checkpoint_command \<Rightarrow> checkpoint_store \<Rightarrow> checkpoint_store \<times> commit_result" where
  "commitCheckpoint sha256 byteLength createdAt c s =
     (if \<not> validateDeclarativeCheckpointState byteLength (cc_state c) then (s, Invalid_state)
      else case findByIdempotencyKey s (cc_workspaceId c) (cc_runId c) (cc_idempotencyKey c) of
        Some duplicate \<Rightarrow> (s, Duplicate duplicate)
      | None \<Rightarrow>
          if (case map_of (cs_attempts s) (cc_runAttemptId c) of None \<Rightarrow> True
              | Some a \<Rightarrow> ta_status a \<noteq> ''RUNNING'' \<or> ta_generation a \<noteq> cc_executionGeneration c
                  \<or> ta_owner a \<noteq> cc_executionOwner c)
          then (s, Stale_generation)
          else
            let sequence = last_sequence s (cc_runId c) + 1;
                row = \<lparr> ck_id = ''checkpoint-'' @ cc_runId c @ ''-'' @ nat_str sequence,
                  ck_workspaceId = cc_workspaceId c, ck_runId = cc_runId c, ck_sequence = sequence,
                  ck_runAttemptId = cc_runAttemptId c,
                  ck_executionGeneration = cc_executionGeneration c,
                  ck_envelopeVersion = RUN_CHECKPOINT_ENVELOPE_VERSION,
                  ck_stateSchemaVersion = js_get (cc_state c) ''schemaVersion'',
                  ck_bindingIdentity = cc_bindingIdentity c,
                  ck_bindingDigest = digestRunCheckpointBindings sha256 (cc_bindingIdentity c),
                  ck_cursor = (cc_cursor c)\<lparr> cu_checkpointSequence := int sequence \<rparr>,
                  ck_state = cc_state c,
                  ck_payloadDigest = digestCheckpointPayload sha256 (cc_state c),
                  ck_createdAt = createdAt \<rparr>
            in (s\<lparr> cs_checkpoints := cs_checkpoints s @ [row],
                   cs_index := AList.update
                     (checkpoint_key (cc_workspaceId c) (cc_runId c) (cc_idempotencyKey c)) row (cs_index s) \<rparr>,
                Committed row))"

definition findLatestByRun :: "checkpoint_store \<Rightarrow> string \<Rightarrow> string \<Rightarrow> checkpoint_record option" where
  "findLatestByRun s workspaceId runId =
     (case sort_key (\<lambda>row. - int (ck_sequence row)) (checkpoints_in s workspaceId runId) of
        [] \<Rightarrow> None | row # rows \<Rightarrow> Some row)"

definition findByRunAndSequence :: "checkpoint_store \<Rightarrow> string \<Rightarrow> string \<Rightarrow> nat \<Rightarrow> checkpoint_record option" where
  "findByRunAndSequence s workspaceId runId sequence =
     find (\<lambda>row. ck_workspaceId row = workspaceId \<and> ck_runId row = runId \<and> ck_sequence row = sequence)
       (cs_checkpoints s)"

definition listCheckpoints :: "checkpoint_store \<Rightarrow> string \<Rightarrow> string \<Rightarrow> nat \<Rightarrow> checkpoint_record list" where
  "listCheckpoints s workspaceId runId limit =
     take limit (sort_key (\<lambda>row. - int (ck_sequence row)) (checkpoints_in s workspaceId runId))"

definition countByRun :: "checkpoint_store \<Rightarrow> string \<Rightarrow> nat" where
  "countByRun s runId = length (checkpoints_of_run s runId)"

subsection \<open>The history of a run\<close>

inductive checkpoint_step for sha256 byteLength where
  step_commit: "commitCheckpoint sha256 byteLength t c s = (s', r) \<Longrightarrow> checkpoint_step sha256 byteLength s s'"
| step_track: "checkpoint_step sha256 byteLength s (trackRunningAttempt i owner g s)"
| step_clear: "checkpoint_step sha256 byteLength s (clearAttempt i s)"

text \<open>
  What a stored record says of itself, and the invariant: the records of a run are numbered from 1
  in the order they were made, and the index only points to records.
\<close>

definition row_ok :: "(json_token list \<Rightarrow> string) \<Rightarrow> (json_token list \<Rightarrow> int) \<Rightarrow> checkpoint_record \<Rightarrow> bool" where
  "row_ok sha256 byteLength row \<longleftrightarrow> validateDeclarativeCheckpointState byteLength (ck_state row)
     \<and> ck_envelopeVersion row = RUN_CHECKPOINT_ENVELOPE_VERSION
     \<and> ck_stateSchemaVersion row = JString DECLARATIVE_CHECKPOINT_STATE_SCHEMA_VERSION
     \<and> ck_bindingDigest row = digestRunCheckpointBindings sha256 (ck_bindingIdentity row)
     \<and> ck_payloadDigest row = digestCheckpointPayload sha256 (ck_state row)"

definition checkpoints_ok :: "(json_token list \<Rightarrow> string) \<Rightarrow> (json_token list \<Rightarrow> int) \<Rightarrow> checkpoint_store \<Rightarrow> bool" where
  "checkpoints_ok sha256 byteLength s \<longleftrightarrow> (\<forall>row\<in>set (cs_checkpoints s). row_ok sha256 byteLength row)
     \<and> (\<forall>i. List.map ck_sequence (checkpoints_of_run s i) = [1..<Suc (countByRun s i)])
     \<and> (\<forall>k row. map_of (cs_index s) k = Some row \<longrightarrow> row \<in> set (cs_checkpoints s))"

lemma foldl_max_upt: "foldl max 0 [1..<Suc n] = n"
  by (induction n) auto

lemma last_sequence_count:
  "checkpoints_ok h b s \<Longrightarrow> last_sequence s i = countByRun s i"
  by (simp only: checkpoints_ok_def last_sequence_def foldl_max_upt)

lemma empty_checkpoints_ok: "checkpoints_ok h b empty_checkpoint_store"
  by (simp add: checkpoints_ok_def empty_checkpoint_store_def checkpoints_of_run_def countByRun_def)

text \<open>The cases of a commit: nothing changes, or the record of the next number is added.\<close>

lemma commitCheckpoint_cases:
  assumes "commitCheckpoint h b t c s = (s', r)"
  shows "s' = s \<and> (\<forall>row. r \<noteq> Committed row) \<or>
    (\<exists>row. r = Committed row \<and> validateDeclarativeCheckpointState b (cc_state c)
      \<and> findByIdempotencyKey s (cc_workspaceId c) (cc_runId c) (cc_idempotencyKey c) = None
      \<and> (\<exists>a. map_of (cs_attempts s) (cc_runAttemptId c) = Some a \<and> ta_status a = ''RUNNING''
           \<and> ta_generation a = cc_executionGeneration c \<and> ta_owner a = cc_executionOwner c)
      \<and> ck_workspaceId row = cc_workspaceId c \<and> ck_runId row = cc_runId c
      \<and> ck_sequence row = last_sequence s (cc_runId c) + 1 \<and> ck_state row = cc_state c
      \<and> ck_bindingIdentity row = cc_bindingIdentity c \<and> row_ok h b row
      \<and> s' = s\<lparr> cs_checkpoints := cs_checkpoints s @ [row], cs_index := AList.update
          (checkpoint_key (cc_workspaceId c) (cc_runId c) (cc_idempotencyKey c)) row (cs_index s) \<rparr>)"
  using assms unfolding commitCheckpoint_def Let_def
  by (auto simp: row_ok_def validateDeclarativeCheckpointState_def split: if_splits option.splits)

lemma checkpoint_step_ok:
  assumes "checkpoint_step h b s s'" "checkpoints_ok h b s"
  shows "checkpoints_ok h b s' \<and> (\<forall>k row. map_of (cs_index s) k = Some row \<longrightarrow> map_of (cs_index s') k = Some row)
    \<and> (\<exists>rows. cs_checkpoints s' = cs_checkpoints s @ rows)"
  using assms
proof (induction rule: checkpoint_step.induct)
  case (step_commit t c s s' r)
  note n = last_sequence_count [OF step_commit(2), of "cc_runId c"]
  from commitCheckpoint_cases [OF step_commit(1)] show ?case
  proof (elim disjE exE conjE)
    fix row
    assume row: "ck_runId row = cc_runId c" "ck_sequence row = last_sequence s (cc_runId c) + 1"
      "row_ok h b row"
      and new: "findByIdempotencyKey s (cc_workspaceId c) (cc_runId c) (cc_idempotencyKey c) = None"
      and s': "s' = s\<lparr> cs_checkpoints := cs_checkpoints s @ [row], cs_index := AList.update
          (checkpoint_key (cc_workspaceId c) (cc_runId c) (cc_idempotencyKey c)) row (cs_index s) \<rparr>"
    have "List.map ck_sequence (checkpoints_of_run s' i) = [1..<Suc (countByRun s' i)]" for i
      using step_commit(2) row n
      by (auto simp: s' checkpoints_ok_def checkpoints_of_run_def countByRun_def)
    then show ?thesis
      using step_commit(2) row(3) new by (auto simp: s' checkpoints_ok_def findByIdempotencyKey_def)
  qed (use step_commit(2) in simp)
qed (simp_all add: trackRunningAttempt_def clearAttempt_def checkpoints_ok_def checkpoints_of_run_def
    countByRun_def)

lemma checkpoint_steps_ok:
  assumes "(checkpoint_step h b)\<^sup>*\<^sup>* s s'" "checkpoints_ok h b s"
  shows "checkpoints_ok h b s' \<and> (\<forall>k row. map_of (cs_index s) k = Some row \<longrightarrow> map_of (cs_index s') k = Some row)
    \<and> (\<exists>rows. cs_checkpoints s' = cs_checkpoints s @ rows)"
  using assms(1)
proof (induction rule: rtranclp_induct)
  case (step y z)
  then show ?case using checkpoint_step_ok [OF step(2)] by (metis append_assoc)
qed (use assms in simp)

lemma sort_key_head_max:
  assumes "row \<in> set rows" "\<And>r. r \<in> set rows \<Longrightarrow> r \<noteq> row \<Longrightarrow> f row < (f r :: int)"
  shows "(case sort_key f rows of [] \<Rightarrow> None | x # xs \<Rightarrow> Some x) = Some row"
proof -
  obtain x xs where x: "sort_key f rows = x # xs" using assms(1) by (cases "sort_key f rows")
      (auto dest!: arg_cong [where f = set])
  have "sorted (List.map f (x # xs))" using sorted_sort_key x by metis
  moreover have "set (x # xs) = set rows" using x by (metis set_sort)
  ultimately have "f x \<le> f row" "x \<in> set rows" using assms(1) by auto
  with assms(2) x show ?thesis by fastforce
qed

lemma committed_is_latest:
  assumes "checkpoints_ok h b s" "commitCheckpoint h b t c s = (s', Committed row)"
  shows "findLatestByRun s' (cc_workspaceId c) (cc_runId c) = Some row"
proof -
  from commitCheckpoint_cases [OF assms(2)]
  have row: "ck_workspaceId row = cc_workspaceId c" "ck_runId row = cc_runId c"
    "ck_sequence row = Suc (countByRun s (cc_runId c))"
    and s': "cs_checkpoints s' = cs_checkpoints s @ [row]"
    using last_sequence_count [OF assms(1), of "cc_runId c"] by auto
  have "ck_sequence r < ck_sequence row" if "r \<in> set (cs_checkpoints s)" "ck_runId r = cc_runId c" for r
  proof -
    have "List.map ck_sequence (checkpoints_of_run s (cc_runId c)) = [1..<Suc (countByRun s (cc_runId c))]"
      using assms(1) by (simp only: checkpoints_ok_def)
    moreover have "ck_sequence r \<in> set (List.map ck_sequence (checkpoints_of_run s (cc_runId c)))"
      using that by (auto simp: checkpoints_of_run_def)
    ultimately show ?thesis using row(3) by (auto simp del: upt_Suc)
  qed
  then show ?thesis unfolding findLatestByRun_def
    by (intro sort_key_head_max) (fastforce simp: checkpoints_in_def s' row)+
qed

text \<open>
  C31. What a commit stores, a restore accepts: the record is the latest one of its run, carries
  the next number, passes the compatibility check against the bindings it was made with, and its
  state comes back unchanged.
\<close>

theorem checkpoint_restores:
  assumes "(checkpoint_step sha256 byteLength)\<^sup>*\<^sup>* empty_checkpoint_store s"
    and "commitCheckpoint sha256 byteLength t c s = (s', Committed row)"
  shows "findLatestByRun s' (cc_workspaceId c) (cc_runId c) = Some row
    \<and> ck_sequence row = countByRun s (cc_runId c) + 1
    \<and> assertCheckpointCompatible sha256 (cc_bindingIdentity c) (ck_bindingDigest row)
        (bi_agentVersionId (ck_bindingIdentity row)) (ck_envelopeVersion row) (ck_stateSchemaVersion row) = None
    \<and> assertCheckpointStateIntegrity sha256 byteLength (ck_state row) (ck_payloadDigest row) = Inr (cc_state c)"
proof -
  have ok: "checkpoints_ok sha256 byteLength s"
    using checkpoint_steps_ok [OF assms(1) empty_checkpoints_ok] by blast
  show ?thesis
    using committed_is_latest [OF ok assms(2)] commitCheckpoint_cases [OF assms(2)]
      last_sequence_count [OF ok, of "cc_runId c"]
    by (auto simp: row_ok_def assertCheckpointCompatible_def assertCheckpointStateIntegrity_def)
qed

text \<open>
  A checkpoint is written once and only by the attempt that owns the run: the commit finds
  the attempt tracked under the owner and generation it names, and from then on, whatever other
  commits happen, every valid commit under the same key answers with this record and changes
  nothing.
\<close>

theorem checkpoint_written_once:
  assumes "(checkpoint_step sha256 byteLength)\<^sup>*\<^sup>* empty_checkpoint_store s"
    and "commitCheckpoint sha256 byteLength t c s = (s', Committed row)"
    and "(checkpoint_step sha256 byteLength)\<^sup>*\<^sup>* s' s''"
    and "cc_workspaceId d = cc_workspaceId c" "cc_runId d = cc_runId c"
      "cc_idempotencyKey d = cc_idempotencyKey c"
      "validateDeclarativeCheckpointState byteLength (cc_state d)"
  shows "commitCheckpoint sha256 byteLength u d s'' = (s'', Duplicate row) \<and> row \<in> set (cs_checkpoints s'')
    \<and> (\<exists>a. map_of (cs_attempts s) (cc_runAttemptId c) = Some a \<and> ta_status a = ''RUNNING''
         \<and> ta_generation a = cc_executionGeneration c \<and> ta_owner a = cc_executionOwner c)"
proof -
  have ok: "checkpoints_ok sha256 byteLength s"
    using checkpoint_steps_ok [OF assms(1) empty_checkpoints_ok] by blast
  have "checkpoints_ok sha256 byteLength s'"
    using checkpoint_step_ok [OF step_commit [OF assms(2)] ok] by blast
  note later = checkpoint_steps_ok [OF assms(3) this]
  have c: "findByIdempotencyKey s' (cc_workspaceId c) (cc_runId c) (cc_idempotencyKey c) = Some row"
      "row \<in> set (cs_checkpoints s')"
      "\<exists>a. map_of (cs_attempts s) (cc_runAttemptId c) = Some a \<and> ta_status a = ''RUNNING''
         \<and> ta_generation a = cc_executionGeneration c \<and> ta_owner a = cc_executionOwner c"
    using commitCheckpoint_cases [OF assms(2)] by (auto simp: findByIdempotencyKey_def)
  then have f: "findByIdempotencyKey s'' (cc_workspaceId d) (cc_runId d) (cc_idempotencyKey d) = Some row"
    using later assms(4-6) unfolding findByIdempotencyKey_def by metis
  have "commitCheckpoint sha256 byteLength u d s'' = (s'', Duplicate row)"
    by (simp add: commitCheckpoint_def f assms(7))
  moreover have "row \<in> set (cs_checkpoints s'')" using later c(2) by auto
  ultimately show ?thesis using c(3) by blast
qed

definition sample_checkpoint_state :: jsv where
  "sample_checkpoint_state = JObject [(''schemaVersion'', JString ''1''), (''messages'', JArray []),
     (''modelInvocations'', JNumber (Finite 1)), (''toolInvocations'', JNumber (Finite 0))]"

definition sample_checkpoint :: "string \<Rightarrow> checkpoint_command" where
  "sample_checkpoint key = \<lparr> cc_workspaceId = ''w'', cc_runId = ''r'', cc_runAttemptId = ''a'',
     cc_executionGeneration = 1, cc_executionOwner = ''o'',
     cc_bindingIdentity = \<lparr> bi_agentVersionId = ''v'', bi_modelProfileVersionBindings = JObject [],
       bi_toolVersionBindings = JObject [(''t'', JString ''tv'')] \<rparr>,
     cc_cursor = \<lparr> cu_phase = After_model, cu_checkpointSequence = 0 \<rparr>,
     cc_state = sample_checkpoint_state, cc_idempotencyKey = key \<rparr>"

definition sample_digest :: "json_token list \<Rightarrow> string" where
  "sample_digest ts = nat_str (length ts)"

definition sample_bytes :: "json_token list \<Rightarrow> int" where
  "sample_bytes ts = int (length ts)"

definition sample_tracked :: checkpoint_store where
  "sample_tracked = trackRunningAttempt ''a'' ''o'' 1 empty_checkpoint_store"

definition sample_committed :: "checkpoint_store \<times> commit_result" where
  "sample_committed = commitCheckpoint sample_digest sample_bytes ''now'' (sample_checkpoint ''k'') sample_tracked"

definition sample_row :: checkpoint_record where
  "sample_row = hd (cs_checkpoints (fst sample_committed))"

lemma sample_checkpoint_runs:
  "(checkpoint_step sample_digest sample_bytes)\<^sup>*\<^sup>* empty_checkpoint_store sample_tracked"
  "commitCheckpoint sample_digest sample_bytes ''now'' (sample_checkpoint ''k'') sample_tracked
     = (fst sample_committed, Committed sample_row)"
  "validateDeclarativeCheckpointState sample_bytes (cc_state (sample_checkpoint ''k''))"
proof -
  show "(checkpoint_step sample_digest sample_bytes)\<^sup>*\<^sup>* empty_checkpoint_store sample_tracked"
    unfolding sample_tracked_def by (rule r_into_rtranclp) (rule step_track)
qed code_simp+

theorem checkpoint_restores_witness:
  "findLatestByRun (fst sample_committed) ''w'' ''r'' = Some sample_row"
  using checkpoint_restores [OF sample_checkpoint_runs(1,2)] by (simp add: sample_checkpoint_def)

theorem checkpoint_written_once_witness:
  "commitCheckpoint sample_digest sample_bytes ''later'' (sample_checkpoint ''k'') (fst sample_committed)
     = (fst sample_committed, Duplicate sample_row)"
  using checkpoint_written_once [OF sample_checkpoint_runs(1,2) rtranclp.rtrancl_refl refl refl refl
      sample_checkpoint_runs(3)] by blast

end
