(* ===== verification/Run_Journal.thy ===== *)
theory Run_Journal
  imports Json_Text Osva_Errors
begin

text \<open>
  The journal of external operations of a run (\<open>contracts/src/run-operation-journal.ts\<close>,
  \<open>run-operation-replay-policy.ts\<close>, \<open>run-operation-journal-outcome.ts\<close>,
  \<open>domain/src/run-operation-idempotency.ts\<close>, \<open>run-operation-key.ts\<close>), its repository in
  the memory adapter (\<open>memory-run-operation-journal-repository.ts\<close>), and the filter of the
  PostgreSQL repository for the operations that block a recovery. \<open>now\<close> is the text of the
  moment of a change.
\<close>

subsection \<open>Classes and the replay policy\<close>

datatype operation_status = Op_PENDING | Op_COMMITTED | Op_UNCERTAIN | Op_FAILED

datatype idempotency_class =
  Class_PURE | Class_READ_ONLY | Class_IDEMPOTENT_WRITE | Class_RECONCILE | Class_UNKNOWN_WRITE

definition isSideEffectSafeToAutoReplay :: "idempotency_class \<Rightarrow> operation_status \<Rightarrow> bool" where
  "isSideEffectSafeToAutoReplay c status =
     (if status = Op_COMMITTED then True
      else if status = Op_UNCERTAIN then False
      else if c = Class_UNKNOWN_WRITE \<or> c = Class_RECONCILE then False
      else if status = Op_FAILED then c = Class_PURE \<or> c = Class_READ_ONLY
      else if status = Op_PENDING then c = Class_READ_ONLY
      else False)"

datatype tool_type = Tool_INTERNAL | Tool_MCP

text \<open>
  \<open>toUpperCase\<close>, compared with names in capital letters only: letters outside ASCII are left
  as they are, which no such name contains.
\<close>

definition ascii_upper :: "string \<Rightarrow> string" where
  "ascii_upper s = List.map (\<lambda>c. if ''a'' \<le> [c] \<and> [c] \<le> ''z'' then char_of ((of_char c :: nat) - 32) else c) s"

definition classifyRunOperationIdempotency ::
    "tool_type \<Rightarrow> string option \<Rightarrow> string option \<Rightarrow> idempotency_class" where
  "classifyRunOperationIdempotency toolType idempotencyBehavior internalImplementationId =
     (let behavior = map_option (\<lambda>b. ascii_upper (js_trim b)) idempotencyBehavior
      in if behavior \<in> {Some ''READ_ONLY'', Some ''READONLY''} then Class_READ_ONLY
         else if behavior \<in> {Some ''IDEMPOTENT'', Some ''IDEMPOTENT_WRITE'', Some ''AT_LEAST_ONCE_IDEMPOTENT''}
         then Class_IDEMPOTENT_WRITE
         else if behavior \<in> {Some ''RECONCILE'', Some ''RECONCILIATION''} then Class_RECONCILE
         else if behavior \<in> {Some ''PURE'', Some ''DETERMINISTIC''} then Class_PURE
         else if toolType = Tool_INTERNAL
             \<and> internalImplementationId \<in> {Some ''OSVA_ECHO_V1'', Some ''OSVA_CLOCK_NOW_V1''}
         then Class_PURE
         else Class_UNKNOWN_WRITE)"

subsection \<open>What a failed operation does to its entry\<close>

datatype failure_disposition = Definitive_failed | Uncertain | No_journal_update

definition DEFINITIVE_PRE_DISPATCH_CODES :: "string list" where
  "DEFINITIVE_PRE_DISPATCH_CODES = [''TOOL_BINDING_NOT_FOUND'', ''TOOL_VERSION_NOT_FOUND'',
     ''TOOL_NOT_AUTHORIZED'', ''TOOL_IMPLEMENTATION_NOT_FOUND'', ''INVALID_TOOL_INPUT'',
     ''MCP_INVALID_ARGUMENTS'', ''MCP_TOOL_NOT_FOUND'']"

definition PROVIDER_CONFIRMED_FAILURE_CODES :: "string list" where
  "PROVIDER_CONFIRMED_FAILURE_CODES = [''INVALID_TOOL_OUTPUT'', ''MCP_INVALID_RESPONSE'']"

definition AMBIGUOUS_TRANSPORT_CODES :: "string list" where
  "AMBIGUOUS_TRANSPORT_CODES = [''CONNECTOR_UNAVAILABLE'', ''CONNECTOR_TIMEOUT'',
     ''CONNECTOR_CANCELLED'', ''MCP_PROTOCOL_ERROR'', ''TOOL_EXECUTION_ERROR'', ''MCP_TOOL_ERROR'']"

text \<open>An error as the journal and the runtime read it: whether it is an Error, its code, its message.\<close>

record tool_failure =
  tf_isError :: bool
  tf_code :: "string option"
  tf_message :: string

definition readToolErrorCode :: "tool_failure \<Rightarrow> string option" where
  "readToolErrorCode e = (if tf_isError e then tf_code e else None)"

definition code_in :: "string option \<Rightarrow> string list \<Rightarrow> bool" where
  "code_in c codes = (case c of None \<Rightarrow> False | Some x \<Rightarrow> x \<in> set codes)"

definition resolveRunOperationJournalFailureDisposition ::
    "idempotency_class \<Rightarrow> tool_failure \<Rightarrow> bool \<Rightarrow> failure_disposition" where
  "resolveRunOperationJournalFailureDisposition idempotencyClass error pendingRecorded =
     (if \<not> pendingRecorded then No_journal_update
      else
        let code = readToolErrorCode error
        in if code_in code DEFINITIVE_PRE_DISPATCH_CODES then No_journal_update
           else if idempotencyClass = Class_UNKNOWN_WRITE \<or> idempotencyClass = Class_RECONCILE
           then Uncertain
           else if idempotencyClass = Class_IDEMPOTENT_WRITE
           then (if code_in code AMBIGUOUS_TRANSPORT_CODES then Uncertain
                 else if code_in code PROVIDER_CONFIRMED_FAILURE_CODES then Uncertain
                 else Uncertain)
           else if idempotencyClass = Class_READ_ONLY
           then (if code_in code AMBIGUOUS_TRANSPORT_CODES then Uncertain else Definitive_failed)
           else if idempotencyClass = Class_PURE then Definitive_failed
           else Uncertain)"

subsection \<open>The repository (memory-run-operation-journal-repository.ts)\<close>

record journal_entry =
  je_id :: string
  je_workspaceId :: string
  je_runId :: string
  je_runAttemptId :: string
  je_executionGeneration :: int
  je_operationKey :: string
  je_toolVersionId :: string
  je_bindingName :: string
  je_inputFingerprint :: string
  je_idempotencyClass :: idempotency_class
  je_status :: operation_status
  je_committedResult :: "jsv option"
  je_createdAt :: string
  je_updatedAt :: string

type_synonym journal = "(string, journal_entry) js_map"

record pending_command =
  pc_workspaceId :: string
  pc_runId :: string
  pc_runAttemptId :: string
  pc_executionGeneration :: int
  pc_operationKey :: string
  pc_toolVersionId :: string
  pc_bindingName :: string
  pc_inputFingerprint :: string
  pc_idempotencyClass :: idempotency_class

definition buildRunOperationKey :: "string \<Rightarrow> string \<Rightarrow> string" where
  "buildRunOperationKey runId toolCallId = runId @ '':'' @ toolCallId"

definition fingerprintToolInput :: "(json_token list \<Rightarrow> string) \<Rightarrow> jsv \<Rightarrow> string" where
  "fingerprintToolInput sha256 input = sha256 (JSON_stringify input)"

definition journal_key :: "string \<Rightarrow> string \<Rightarrow> string" where
  "journal_key runId operationKey = runId @ '':'' @ operationKey"

definition recordPending :: "string \<Rightarrow> pending_command \<Rightarrow> journal \<Rightarrow> journal \<times> journal_entry" where
  "recordPending now c j =
     (let mapKey = journal_key (pc_runId c) (pc_operationKey c)
      in case map_of j mapKey of
           Some existing \<Rightarrow> (j, existing)
         | None \<Rightarrow>
             let entry = \<lparr> je_id = ''journal-'' @ mapKey, je_workspaceId = pc_workspaceId c,
               je_runId = pc_runId c, je_runAttemptId = pc_runAttemptId c,
               je_executionGeneration = pc_executionGeneration c, je_operationKey = pc_operationKey c,
               je_toolVersionId = pc_toolVersionId c, je_bindingName = pc_bindingName c,
               je_inputFingerprint = pc_inputFingerprint c, je_idempotencyClass = pc_idempotencyClass c,
               je_status = Op_PENDING, je_committedResult = None, je_createdAt = now,
               je_updatedAt = now \<rparr>
             in (AList.update mapKey entry j, entry))"

definition commitResult :: "string \<Rightarrow> string \<Rightarrow> string \<Rightarrow> jsv \<Rightarrow> journal \<Rightarrow> journal \<times> journal_entry option" where
  "commitResult now runId operationKey result j =
     (let mapKey = journal_key runId operationKey
      in case map_of j mapKey of
           None \<Rightarrow> (j, None)
         | Some existing \<Rightarrow>
             let updated = existing\<lparr> je_status := Op_COMMITTED, je_committedResult := Some result,
               je_updatedAt := now \<rparr>
             in (AList.update mapKey updated j, Some updated))"

definition updateStatus ::
    "string \<Rightarrow> string \<Rightarrow> string \<Rightarrow> operation_status \<Rightarrow> journal \<Rightarrow> journal \<times> journal_entry option" where
  "updateStatus now runId operationKey status j =
     (let mapKey = journal_key runId operationKey
      in case map_of j mapKey of
           None \<Rightarrow> (j, None)
         | Some existing \<Rightarrow>
             let updated = existing\<lparr> je_status := status, je_updatedAt := now \<rparr>
             in (AList.update mapKey updated j, Some updated))"

definition markUncertain :: "string \<Rightarrow> string \<Rightarrow> string \<Rightarrow> journal \<Rightarrow> journal \<times> journal_entry option" where
  "markUncertain now runId operationKey j = updateStatus now runId operationKey Op_UNCERTAIN j"

definition markFailed :: "string \<Rightarrow> string \<Rightarrow> string \<Rightarrow> journal \<Rightarrow> journal \<times> journal_entry option" where
  "markFailed now runId operationKey j = updateStatus now runId operationKey Op_FAILED j"

definition findByRunAndOperationKey :: "journal \<Rightarrow> string \<Rightarrow> string \<Rightarrow> string \<Rightarrow> journal_entry option" where
  "findByRunAndOperationKey j workspaceId runId operationKey =
     (case map_of j (journal_key runId operationKey) of
        None \<Rightarrow> None
      | Some entry \<Rightarrow> if je_workspaceId entry \<noteq> workspaceId then None else Some entry)"

definition findBlockingOperationsForRun :: "journal \<Rightarrow> string \<Rightarrow> journal_entry list" where
  "findBlockingOperationsForRun j runId =
     filter (\<lambda>e. je_runId e = runId \<and> \<not> isSideEffectSafeToAutoReplay (je_idempotencyClass e) (je_status e))
       (map_values j)"

definition listByRun :: "journal \<Rightarrow> string \<Rightarrow> journal_entry list" where
  "listByRun j runId = filter (\<lambda>e. je_runId e = runId) (map_values j)"

text \<open>The \<open>where\<close> clause of the PostgreSQL repository for the same question.\<close>

definition postgres_blocking :: "string \<Rightarrow> journal_entry \<Rightarrow> bool" where
  "postgres_blocking runId e =
     (je_runId e = runId
      \<and> (je_status e \<in> {Op_PENDING, Op_UNCERTAIN}
         \<or> (je_idempotencyClass e = Class_UNKNOWN_WRITE
            \<and> je_status e \<in> {Op_PENDING, Op_UNCERTAIN, Op_FAILED})))"

text \<open>
  C34. The two repositories disagree on what may block a recovery: of the operations that are not
  safe to replay, the PostgreSQL filter misses exactly the failed writes it knows to be
  idempotent or to need reconciliation, so the recovery check never sees them.
\<close>

theorem postgres_blocking_misses:
  "isSideEffectSafeToAutoReplay (je_idempotencyClass e) (je_status e) \<or> postgres_blocking (je_runId e) e
   \<longleftrightarrow> \<not> (je_status e = Op_FAILED \<and> je_idempotencyClass e \<in> {Class_IDEMPOTENT_WRITE, Class_RECONCILE})"
  by (cases "je_status e"; cases "je_idempotencyClass e")
    (simp_all add: isSideEffectSafeToAutoReplay_def postgres_blocking_def)

end
