(* ===== verification/Execution_Request.thy ===== *)
theory Execution_Request
  imports Run_Checkpoint Run_Journal
begin

text \<open>
  The request a runtime receives for one attempt (\<open>contracts/src/runtime-protocol.ts\<close>) and
  how it is built from stored identities (\<open>runtime-core/src/create-execution-request.ts\<close>).
  The checkpoint port and the journal port of a request are objects; what matters of them is
  whether they are present.
\<close>

record execution_request =
  er_runId :: string
  er_runAttemptId :: string
  er_workspaceId :: string
  er_agentId :: string
  er_agentVersionId :: string
  er_runtime :: jsv
  er_input :: jsv
  er_effectiveConfig :: jsv
  er_modelProfileVersionBindings :: jsv
  er_toolVersionBindings :: jsv
  er_memoryNamespaceBindings :: jsv
  er_knowledgeIndexBindings :: jsv
  er_toolGrants :: "jsv list"
  er_timeoutMs :: jsv
  er_policyContext :: jsv
  er_evaluationContext :: "(string \<times> string) option"
  er_restrictPersistentMemory :: "bool option"
  er_checkpoint :: "jsv option option"
  er_executionOwnership :: "(string \<times> int) option"
  er_operationJournal :: bool

definition allowsPersistentMemoryMutation :: "execution_request \<Rightarrow> bool" where
  "allowsPersistentMemoryMutation execution =
     (if er_evaluationContext execution \<noteq> None then False
      else if er_restrictPersistentMemory execution = Some True then False
      else True)"

definition createExecutionRequest :: "run \<Rightarrow> run_attempt \<Rightarrow> agent_version \<Rightarrow> jsv option option
    \<Rightarrow> (string \<times> int) option \<Rightarrow> bool \<Rightarrow> osva_error + execution_request" where
  "createExecutionRequest run runAttempt agentVersion checkpoint executionOwnership operationJournal =
     (if a_runId runAttempt \<noteq> r_id run
      then Inl (DomainInvariantError ''RunAttempt.runId must match the loaded Run.'')
      else if av_id agentVersion \<noteq> rb_agentVersionId (r_effectiveBindings run)
      then Inl (DomainInvariantError
        ''Loaded AgentVersion does not match Run.effectiveBindings.agentVersionId.'')
      else if av_agentId agentVersion \<noteq> r_agentId run
      then Inl (DomainInvariantError ''Loaded AgentVersion.agentId does not match Run.agentId.'')
      else
        let manifest = av_manifest agentVersion; bindings = r_effectiveBindings run
        in Inr \<lparr> er_runId = r_id run, er_runAttemptId = a_id runAttempt,
             er_workspaceId = r_workspaceId run, er_agentId = r_agentId run,
             er_agentVersionId = rb_agentVersionId bindings, er_runtime = js_get manifest ''runtime'',
             er_input = r_input run,
             er_effectiveConfig = JObject
               [(''agentOutputSchema'', js_get (js_get manifest ''output'') ''schema'')],
             er_modelProfileVersionBindings = rb_modelProfileVersionBindings bindings,
             er_toolVersionBindings = rb_toolVersionBindings bindings,
             er_memoryNamespaceBindings = rb_memoryNamespaceBindings bindings,
             er_knowledgeIndexBindings = rb_knowledgeIndexBindings bindings,
             er_toolGrants = [],
             er_timeoutMs = js_get (js_get manifest ''execution'') ''timeoutMs'',
             er_policyContext = JObject [],
             er_evaluationContext =
               (case (r_evaluationRunId run, r_evaluationCaseId run) of
                  (Some r, Some c) \<Rightarrow> Some (r, c) | _ \<Rightarrow> None),
             er_restrictPersistentMemory =
               (if r_restrictPersistentMemory run then Some True else None),
             er_checkpoint = checkpoint, er_executionOwnership = executionOwnership,
             er_operationJournal = operationJournal \<rparr>)"

text \<open>
  What a request built from a run of an evaluation, or of a restricted run, never allows.
\<close>

lemma createExecutionRequest_Inr:
  "createExecutionRequest run a v c w j = Inr req \<Longrightarrow>
     er_runId req = r_id run \<and> er_runAttemptId req = a_id a \<and> er_workspaceId req = r_workspaceId run
     \<and> er_agentVersionId req = av_id v \<and> er_checkpoint req = c \<and> er_executionOwnership req = w
     \<and> er_operationJournal req = j \<and> er_toolVersionBindings req = rb_toolVersionBindings (r_effectiveBindings run)
     \<and> (isEvaluationChildRun run \<or> r_restrictPersistentMemory run \<longrightarrow> \<not> allowsPersistentMemoryMutation req)"
  by (auto simp: createExecutionRequest_def Let_def allowsPersistentMemoryMutation_def
      isEvaluationChildRun_def split: if_splits option.splits)

end
