(* ===== verification/Declarative_Loop.thy ===== *)
theory Declarative_Loop
  imports Execution_Request
begin

text \<open>
  The execution loop of a declarative agent
  (\<open>adapters/runtime-declarative/src/declarative-run-loop.ts\<close>,
  \<open>declarative-checkpoint.ts\<close>): model invocations, tool calls under the operation journal, and
  the checkpoints between them.

  The gateways, the schema validator, the JSON printer and parser for message texts, the clock
  and the abort signal are arguments; they read and change a world of any type. A crash requested
  at one of the phases of \<open>checkpoint-crash-hook.ts\<close> ends the process there: the journal and
  the checkpoints written so far remain.
\<close>

subsection \<open>Messages and checkpoint states\<close>

datatype message =
    System_message string
  | User_message string
  | Assistant_message string
  | Tool_message string string string

record tool_call =
  tc_id :: string
  tc_name :: string
  tc_arguments :: jsv

record loop_checkpoint =
  lc_messages :: "message list"
  lc_modelInvocations :: int
  lc_toolInvocations :: int
  lc_retrievedContext :: "string option"
  lc_pendingToolCalls :: "tool_call list option"

primrec message_json :: "message \<Rightarrow> jsv" where
  "message_json (System_message c) = JObject [(''role'', JString ''system''), (''content'', JString c)]"
| "message_json (User_message c) = JObject [(''role'', JString ''user''), (''content'', JString c)]"
| "message_json (Assistant_message c) = JObject [(''role'', JString ''assistant''), (''content'', JString c)]"
| "message_json (Tool_message i n c) = JObject [(''role'', JString ''tool''), (''toolCallId'', JString i),
     (''name'', JString n), (''content'', JString c)]"

definition toPendingToolCalls :: "tool_call list \<Rightarrow> tool_call list" where
  "toPendingToolCalls calls = List.map (\<lambda>c. \<lparr> tc_id = tc_id c, tc_name = tc_name c,
     tc_arguments = tc_arguments c \<rparr>) calls"

definition tool_call_json :: "tool_call \<Rightarrow> jsv" where
  "tool_call_json c = JObject [(''id'', JString (tc_id c)), (''name'', JString (tc_name c)),
     (''arguments'', tc_arguments c)]"

definition optional_field :: "string \<Rightarrow> jsv option \<Rightarrow> (string \<times> jsv) list" where
  "optional_field name v = (case v of None \<Rightarrow> [] | Some x \<Rightarrow> [(name, x)])"

definition buildDeclarativeCheckpointState :: "loop_checkpoint \<Rightarrow> jsv" where
  "buildDeclarativeCheckpointState s = JObject
     ([(''schemaVersion'', JString DECLARATIVE_CHECKPOINT_STATE_SCHEMA_VERSION),
       (''messages'', JArray (List.map message_json (lc_messages s))),
       (''modelInvocations'', JNumber (Finite (of_int (lc_modelInvocations s)))),
       (''toolInvocations'', JNumber (Finite (of_int (lc_toolInvocations s))))]
      @ optional_field ''retrievedContext'' (map_option JString (lc_retrievedContext s))
      @ optional_field ''pendingToolCalls''
          (map_option (\<lambda>cs. JArray (List.map tool_call_json cs)) (lc_pendingToolCalls s)))"

text \<open>
  The state as the loop reads it back: a state that has passed the integrity check was built by the
  function above, and is taken as it is.
\<close>

fun js_string :: "jsv \<Rightarrow> string" where
  "js_string (JString s) = s"
| "js_string _ = []"

fun js_int :: "jsv \<Rightarrow> int" where
  "js_int (JNumber (Finite q)) = \<lfloor>q\<rfloor>"
| "js_int _ = 0"

definition read_message :: "jsv \<Rightarrow> message" where
  "read_message v =
     (let role = js_string (js_get v ''role''); content = js_string (js_get v ''content'')
      in if role = ''system'' then System_message content
         else if role = ''user'' then User_message content
         else if role = ''assistant'' then Assistant_message content
         else Tool_message (js_string (js_get v ''toolCallId'')) (js_string (js_get v ''name'')) content)"

definition read_tool_call :: "jsv \<Rightarrow> tool_call" where
  "read_tool_call v = \<lparr> tc_id = js_string (js_get v ''id''), tc_name = js_string (js_get v ''name''),
     tc_arguments = js_get v ''arguments'' \<rparr>"

definition read_checkpoint :: "jsv \<Rightarrow> loop_checkpoint" where
  "read_checkpoint v =
     \<lparr> lc_messages = List.map read_message (js_items (js_get v ''messages'')),
       lc_modelInvocations = js_int (js_get v ''modelInvocations''),
       lc_toolInvocations = js_int (js_get v ''toolInvocations''),
       lc_retrievedContext = (case js_get v ''retrievedContext'' of JString c \<Rightarrow> Some c | _ \<Rightarrow> None),
       lc_pendingToolCalls = (case js_get v ''pendingToolCalls'' of
          JArray cs \<Rightarrow> Some (List.map read_tool_call cs) | _ \<Rightarrow> None) \<rparr>"

lemma js_get_simps [simp]:
  "js_get (JObject []) n = JUndefined"
  "js_get (JObject ((k, v) # kvs)) n = (if n = k then v else js_get (JObject kvs) n)"
  by (simp_all add: js_get_def)

lemma read_message_json [simp]: "read_message (message_json m) = m"
  by (cases m) (simp_all add: read_message_def)

lemma read_tool_call_json [simp]: "read_tool_call (tool_call_json c) = c"
  by (simp add: read_tool_call_def tool_call_json_def)

lemma read_checkpoint_state [simp]: "read_checkpoint (buildDeclarativeCheckpointState s) = s"
  by (cases "lc_retrievedContext s"; cases "lc_pendingToolCalls s")
    (simp_all add: read_checkpoint_def buildDeclarativeCheckpointState_def optional_field_def
      comp_def)

subsection \<open>The loop's surroundings and its state\<close>

record completion =
  co_text :: "string option"
  co_toolCalls :: "tool_call list"

record completion_request =
  cq_modelProfileVersionId :: string
  cq_messages :: "message list"
  cq_maxOutputTokens :: "int option"
  cq_toolDefinitions :: "jsv list option"
  cq_jsonSchema :: "jsv option"

record tool_metadata =
  tm_inputSchema :: jsv
  tm_idempotencyClass :: idempotency_class

record tool_invocation =
  ti_toolVersionId :: string
  ti_input :: jsv
  ti_workspaceId :: string
  ti_agentId :: string
  ti_runId :: string
  ti_runAttemptId :: string
  ti_bindingName :: string

record loop_config =
  lf_instructions :: string
  lf_maxModelInvocations :: int
  lf_maxToolInvocations :: int
  lf_maxOutputTokens :: "int option"

datatype crash_phase = After_operation_pending | After_tool_journal_commit | After_tool_checkpoint

record execution_error =
  ee_code :: string
  ee_message :: string

text \<open>How the loop ends: a result for the caller, an exception, or the death of the process.\<close>

datatype loop_end =
    Loop_failed execution_error
  | Loop_succeeded jsv
  | Loop_threw tool_failure
  | Loop_crashed

record 'w loop_env =
  le_config :: loop_config
  le_modelProfileVersionId :: string
  le_allowedTools :: "string list"
  le_outputSchema :: jsv
  le_toolDefinitions :: "jsv list"
  le_generateCompletion :: "completion_request \<Rightarrow> 'w \<Rightarrow> 'w \<times> (tool_failure + completion)"
  le_toolGateway :: "(tool_invocation \<Rightarrow> 'w \<Rightarrow> 'w \<times> (tool_failure + jsv)) option"
  le_resolveToolMetadata :: "string \<Rightarrow> 'w \<Rightarrow> 'w \<times> tool_metadata option"
  le_prefetch :: "'w \<Rightarrow> 'w \<times> (tool_failure + string option)"
  le_aborted :: "'w \<Rightarrow> bool"
  le_crash :: "crash_phase \<Rightarrow> 'w \<Rightarrow> bool"
  le_now :: "'w \<Rightarrow> string"
  le_validate :: "jsv \<Rightarrow> jsv \<Rightarrow> bool"
  le_print :: "jsv \<Rightarrow> string"
  le_parse :: "string \<Rightarrow> jsv option"
  le_sanitize :: "string \<Rightarrow> string \<Rightarrow> string"
  le_sha256 :: "json_token list \<Rightarrow> string"
  le_byteLength :: "json_token list \<Rightarrow> int"

record 'w loop_state =
  lp_messages :: "message list"
  lp_modelInvocations :: int
  lp_toolInvocations :: int
  lp_checkpointSequence :: int
  lp_retrievedContext :: "string option"
  lp_journal :: journal
  lp_checkpoints :: checkpoint_store
  lp_world :: 'w

text \<open>One part of the loop after another: an end is final.\<close>

definition loop_then :: "'s \<times> (loop_end + 'a) \<Rightarrow> ('a \<Rightarrow> 's \<Rightarrow> 's \<times> (loop_end + 'b)) \<Rightarrow> 's \<times> (loop_end + 'b)" where
  "loop_then r f = (case r of (s, Inl e) \<Rightarrow> (s, Inl e) | (s, Inr x) \<Rightarrow> f x s)"

lemma loop_then_simps [simp]:
  "loop_then (s, Inl e) f = (s, Inl e)" "loop_then (s, Inr x) f = f x s"
  by (simp_all add: loop_then_def)

lemma loop_then_cases:
  "loop_then r f = (s', x) \<Longrightarrow>
     (\<exists>e. r = (s', Inl e) \<and> x = Inl e) \<or> (\<exists>s y. r = (s, Inr y) \<and> f y s = (s', x))"
  by (cases r; cases "snd r") auto

definition executionFailure :: "'w loop_env \<Rightarrow> string \<Rightarrow> string \<Rightarrow> loop_end" where
  "executionFailure env code msg = Loop_failed
     \<lparr> ee_code = code, ee_message = le_sanitize env msg ''Declarative runtime execution failed.'' \<rparr>"

definition throwIfCancelled :: "'w loop_env \<Rightarrow> 'w loop_state \<Rightarrow> 'w loop_state \<times> (loop_end + unit)" where
  "throwIfCancelled env st =
     (if le_aborted env (lp_world st)
      then (st, Inl (Loop_threw \<lparr> tf_isError = True, tf_code = None, tf_message = ''RUNTIME_CANCELLED'' \<rparr>))
      else (st, Inr ()))"

definition crashIfRequested :: "'w loop_env \<Rightarrow> crash_phase \<Rightarrow> 'w loop_state \<Rightarrow> 'w loop_state \<times> (loop_end + unit)" where
  "crashIfRequested env phase st =
     (if le_crash env phase (lp_world st) then (st, Inl Loop_crashed) else (st, Inr ()))"

subsection \<open>Checkpoints of the loop (declarative-checkpoint.ts)\<close>

definition isDeclarativeCheckpointingEnabled :: "execution_request \<Rightarrow> bool" where
  "isDeclarativeCheckpointingEnabled request =
     (if js_get (er_runtime request) ''type'' \<noteq> JString ''DECLARATIVE'' then False
      else if er_checkpoint request = None then False
      else js_get (js_get (er_runtime request) ''config'') ''checkpointingEnabled'' = JBool True)"

definition buildCheckpointBindingIdentity :: "execution_request \<Rightarrow> binding_identity" where
  "buildCheckpointBindingIdentity request =
     \<lparr> bi_agentVersionId = er_agentVersionId request,
       bi_modelProfileVersionBindings = freezeRecord (er_modelProfileVersionBindings request),
       bi_toolVersionBindings = freezeRecord (er_toolVersionBindings request) \<rparr>"

definition commitDeclarativeCheckpoint :: "'w loop_env \<Rightarrow> execution_request \<Rightarrow> int \<Rightarrow> string
    \<Rightarrow> checkpoint_phase \<Rightarrow> int \<Rightarrow> jsv \<Rightarrow> string \<Rightarrow> 'w loop_state \<Rightarrow> 'w loop_state \<times> (loop_end + unit)" where
  "commitDeclarativeCheckpoint env request executionGeneration executionOwner cursorPhase
      checkpointSequence state idempotencyKey st =
     (if er_checkpoint request = None then (st, Inr ())
      else
        let command = \<lparr> cc_workspaceId = er_workspaceId request, cc_runId = er_runId request,
              cc_runAttemptId = er_runAttemptId request, cc_executionGeneration = executionGeneration,
              cc_executionOwner = executionOwner,
              cc_bindingIdentity = buildCheckpointBindingIdentity request,
              cc_cursor = \<lparr> cu_phase = cursorPhase, cu_checkpointSequence = checkpointSequence \<rparr>,
              cc_state = state, cc_idempotencyKey = idempotencyKey \<rparr>;
            (checkpoints, result) = commitCheckpoint (le_sha256 env) (le_byteLength env)
              (le_now env (lp_world st)) command (lp_checkpoints st);
            st' = st\<lparr> lp_checkpoints := checkpoints \<rparr>;
            rejected = (\<lambda>outcome. (st', Inl (Loop_threw \<lparr> tf_isError = True, tf_code = None,
              tf_message = ''Checkpoint commit rejected: '' @ outcome \<rparr>)))
        in case result of
             Stale_generation \<Rightarrow> rejected ''stale_generation''
           | Invalid_state \<Rightarrow> rejected ''invalid_state''
           | _ \<Rightarrow> (st', Inr ()))"

text \<open>
  The checkpoint the loop takes at each of its points: the next number, the state, and the key
  \<open>attempt:point:number\<close>.
\<close>

definition take_checkpoint :: "'w loop_env \<Rightarrow> execution_request \<Rightarrow> checkpoint_phase \<Rightarrow> string
    \<Rightarrow> tool_call list option \<Rightarrow> 'w loop_state \<Rightarrow> 'w loop_state \<times> (loop_end + unit)" where
  "take_checkpoint env request phase label pendingToolCalls st =
     (case er_executionOwnership request of
        Some (owner, generation) \<Rightarrow>
          if isDeclarativeCheckpointingEnabled request
          then
            let n = lp_checkpointSequence st + 1; st' = st\<lparr> lp_checkpointSequence := n \<rparr>
            in commitDeclarativeCheckpoint env request generation owner phase n
                 (buildDeclarativeCheckpointState \<lparr> lc_messages = lp_messages st',
                    lc_modelInvocations = lp_modelInvocations st',
                    lc_toolInvocations = lp_toolInvocations st',
                    lc_retrievedContext = lp_retrievedContext st',
                    lc_pendingToolCalls = pendingToolCalls \<rparr>)
                 (er_runAttemptId request @ '':'' @ label @ '':'' @ nat_str (nat n)) st'
          else (st, Inr ())
      | None \<Rightarrow> (st, Inr ()))"

subsection \<open>One tool call\<close>

definition RECOVERY_BLOCKED :: string where
  "RECOVERY_BLOCKED = ''RECOVERY_BLOCKED_UNCERTAIN_OPERATION''"

text \<open>
  What the journal says about a call: replay the committed result, refuse, or dispatch the call,
  which may resume an entry that is still pending.
\<close>

datatype journal_decision = Replay jsv | Refuse string | Dispatch bool

definition entry_mismatch :: "journal_entry \<Rightarrow> string \<Rightarrow> string \<Rightarrow> string \<Rightarrow> bool" where
  "entry_mismatch existing toolVersionId inputFingerprint name \<longleftrightarrow>
     je_toolVersionId existing \<noteq> toolVersionId \<or> je_inputFingerprint existing \<noteq> inputFingerprint
     \<or> je_bindingName existing \<noteq> name"

definition consultJournal :: "journal_entry option \<Rightarrow> string \<Rightarrow> string \<Rightarrow> string \<Rightarrow> journal_decision" where
  "consultJournal existing toolVersionId inputFingerprint name =
     (case existing of None \<Rightarrow> Dispatch False
      | Some e \<Rightarrow>
          if je_status e = Op_COMMITTED
            \<and> (case je_committedResult e of None \<Rightarrow> False | Some r \<Rightarrow> canonical_tree r)
          then if entry_mismatch e toolVersionId inputFingerprint name
               then Refuse ''Committed operation journal entry does not match the restored tool call.''
               else Replay (the (je_committedResult e))
          else if je_status e = Op_UNCERTAIN
          then Refuse ''An external tool operation may have succeeded without a committed result.''
          else if je_status e = Op_PENDING
          then if entry_mismatch e toolVersionId inputFingerprint name
               then Refuse ''Pending operation journal entry does not match the restored tool call.''
               else if \<not> isSideEffectSafeToAutoReplay (je_idempotencyClass e) Op_PENDING
               then Refuse ''An external tool operation may have succeeded without a committed result.''
               else Dispatch True
          else Dispatch False)"

definition mapToolGatewayFailure :: "tool_failure \<Rightarrow> string \<times> string" where
  "mapToolGatewayFailure e =
     (''TOOL_EXECUTION_ERROR'', if tf_isError e then tf_message e else ''Tool invocation failed.'')"

record prepared_call =
  pt_toolVersionId :: string
  pt_metadata :: tool_metadata
  pt_operationKey :: string
  pt_fingerprint :: string

text \<open>The checks before a call: budget, authorization, binding, metadata, arguments.\<close>

definition prepareToolCall :: "'w loop_env \<Rightarrow> execution_request \<Rightarrow> tool_call \<Rightarrow> 'w loop_state
    \<Rightarrow> 'w loop_state \<times> (loop_end + prepared_call)" where
  "prepareToolCall env request call st =
     loop_then (throwIfCancelled env st) (\<lambda>_ st.
       if lf_maxToolInvocations (le_config env) \<le> lp_toolInvocations st
       then (st, Inl (executionFailure env ''DECLARATIVE_BUDGET_EXCEEDED'' ''Maximum tool invocations exceeded.''))
       else if tc_name call \<notin> set (le_allowedTools env)
       then (st, Inl (executionFailure env ''TOOL_NOT_AUTHORIZED'' ''Model requested an unauthorized tool.''))
       else case js_get (er_toolVersionBindings request) (tc_name call) of
         JUndefined \<Rightarrow> (st, Inl (executionFailure env ''BINDING_MISMATCH''
           ''Tool binding is missing from effective bindings.''))
       | binding \<Rightarrow>
           let toolVersionId = js_string binding;
               (w, meta) = le_resolveToolMetadata env toolVersionId (lp_world st);
               st' = st\<lparr> lp_world := w \<rparr>
           in case meta of
                None \<Rightarrow> (st', Inl (executionFailure env ''TOOL_EXECUTION_ERROR'' ''Tool metadata was not found.''))
              | Some m \<Rightarrow>
                  if \<not> le_validate env (tm_inputSchema m) (tc_arguments call)
                  then (st', Inl (executionFailure env ''INVALID_TOOL_INPUT''
                    ''Tool arguments failed schema validation.''))
                  else (st', Inr \<lparr> pt_toolVersionId = toolVersionId, pt_metadata = m,
                    pt_operationKey = buildRunOperationKey (er_runId request) (tc_id call),
                    pt_fingerprint = fingerprintToolInput (le_sha256 env) (tc_arguments call) \<rparr>))"

definition pendingCommand :: "execution_request \<Rightarrow> tool_call \<Rightarrow> prepared_call \<Rightarrow> pending_command" where
  "pendingCommand request call p =
     \<lparr> pc_workspaceId = er_workspaceId request, pc_runId = er_runId request,
       pc_runAttemptId = er_runAttemptId request,
       pc_executionGeneration =
         (case er_executionOwnership request of None \<Rightarrow> 1 | Some (owner, generation) \<Rightarrow> generation),
       pc_operationKey = pt_operationKey p, pc_toolVersionId = pt_toolVersionId p,
       pc_bindingName = tc_name call, pc_inputFingerprint = pt_fingerprint p,
       pc_idempotencyClass = tm_idempotencyClass (pt_metadata p) \<rparr>"

text \<open>The entry is written before the call leaves.\<close>

definition startToolCall :: "'w loop_env \<Rightarrow> execution_request \<Rightarrow> tool_call \<Rightarrow> prepared_call \<Rightarrow> bool
    \<Rightarrow> 'w loop_state \<Rightarrow> 'w loop_state \<times> (loop_end + unit)" where
  "startToolCall env request call p resumePendingOperation st =
     (let st = st\<lparr> lp_toolInvocations := lp_toolInvocations st + 1 \<rparr>
      in if er_operationJournal request \<and> \<not> resumePendingOperation
         then crashIfRequested env After_operation_pending
           (st\<lparr> lp_journal := fst (recordPending (le_now env (lp_world st)) (pendingCommand request call p)
             (lp_journal st)) \<rparr>)
         else (st, Inr ()))"

definition toolInvocation :: "execution_request \<Rightarrow> tool_call \<Rightarrow> prepared_call \<Rightarrow> tool_invocation" where
  "toolInvocation request call p =
     \<lparr> ti_toolVersionId = pt_toolVersionId p, ti_input = tc_arguments call,
       ti_workspaceId = er_workspaceId request, ti_agentId = er_agentId request,
       ti_runId = er_runId request, ti_runAttemptId = er_runAttemptId request,
       ti_bindingName = tc_name call \<rparr>"

text \<open>What the answer, or the failure, of the gateway does to the journal.\<close>

definition finishToolCall :: "'w loop_env \<Rightarrow> execution_request \<Rightarrow> tool_call \<Rightarrow> prepared_call
    \<Rightarrow> tool_failure + jsv \<Rightarrow> 'w loop_state \<Rightarrow> 'w loop_state \<times> (loop_end + jsv)" where
  "finishToolCall env request call p answer st =
     (let now = le_now env (lp_world st); run = er_runId request; key = pt_operationKey p;
          marked = (\<lambda>mark. if er_operationJournal request
            then st\<lparr> lp_journal := fst (mark now run key (lp_journal st)) \<rparr> else st)
      in case answer of
           Inl e \<Rightarrow>
             (let (code, msg) = mapToolGatewayFailure e
              in (case resolveRunOperationJournalFailureDisposition
                    (tm_idempotencyClass (pt_metadata p)) e True of
                    Definitive_failed \<Rightarrow> marked markFailed
                  | Uncertain \<Rightarrow> marked markUncertain
                  | No_journal_update \<Rightarrow> st, Inl (executionFailure env code msg)))
         | Inr output \<Rightarrow>
             if \<not> canonical_tree output
             then (marked markFailed, Inl (executionFailure env ''INVALID_TOOL_INPUT''
               ''Tool output must be JSON-compatible.''))
             else if \<not> er_operationJournal request then (st, Inr output)
             else
               let (journal, committed) = commitResult now run key output (lp_journal st);
                   st' = st\<lparr> lp_journal := journal \<rparr>
               in if committed = None
                  then (st'\<lparr> lp_journal := fst (markUncertain now run key journal) \<rparr>,
                    Inl (executionFailure env RECOVERY_BLOCKED
                      ''Tool result could not be committed to the operation journal.''))
                  else loop_then (crashIfRequested env After_tool_journal_commit st') (\<lambda>_ st. (st, Inr output)))"

definition executeToolCall :: "'w loop_env \<Rightarrow> execution_request
    \<Rightarrow> (tool_invocation \<Rightarrow> 'w \<Rightarrow> 'w \<times> (tool_failure + jsv)) \<Rightarrow> tool_call
    \<Rightarrow> 'w loop_state \<Rightarrow> 'w loop_state \<times> (loop_end + unit)" where
  "executeToolCall env request invoke call st =
     loop_then (prepareToolCall env request call st) (\<lambda>p st.
       let existing = (if er_operationJournal request
             then findByRunAndOperationKey (lp_journal st) (er_workspaceId request) (er_runId request)
               (pt_operationKey p) else None);
           answered = (\<lambda>output st. (st\<lparr> lp_messages := lp_messages st
             @ [Tool_message (tc_id call) (tc_name call) (le_print env output)] \<rparr>, Inr ()))
       in case consultJournal existing (pt_toolVersionId p) (pt_fingerprint p) (tc_name call) of
            Refuse msg \<Rightarrow> (st, Inl (executionFailure env RECOVERY_BLOCKED msg))
          | Replay output \<Rightarrow> answered output (st\<lparr> lp_toolInvocations := lp_toolInvocations st + 1 \<rparr>)
          | Dispatch resume \<Rightarrow>
              loop_then (startToolCall env request call p resume st) (\<lambda>_ st.
                let (w, answer) = invoke (toolInvocation request call p) (lp_world st)
                in loop_then (finishToolCall env request call p answer (st\<lparr> lp_world := w \<rparr>)) answered))"

fun executeToolCalls :: "'w loop_env \<Rightarrow> execution_request
    \<Rightarrow> (tool_invocation \<Rightarrow> 'w \<Rightarrow> 'w \<times> (tool_failure + jsv)) \<Rightarrow> tool_call list
    \<Rightarrow> 'w loop_state \<Rightarrow> 'w loop_state \<times> (loop_end + unit)" where
  "executeToolCalls env request invoke [] st = (st, Inr ())"
| "executeToolCalls env request invoke (call # calls) st =
     loop_then (executeToolCall env request invoke call st)
       (\<lambda>_ st. executeToolCalls env request invoke calls st)"

definition executeToolBatch :: "'w loop_env \<Rightarrow> execution_request \<Rightarrow> tool_call list
    \<Rightarrow> 'w loop_state \<Rightarrow> 'w loop_state \<times> (loop_end + unit)" where
  "executeToolBatch env request calls st =
     (case le_toolGateway env of
        None \<Rightarrow> (st, Inl (executionFailure env ''TOOL_EXECUTION_ERROR'' ''Tool capability is unavailable.''))
      | Some invoke \<Rightarrow> executeToolCalls env request invoke calls st)"

subsection \<open>The loop\<close>

definition newline :: string where
  "newline = [CHR 0x0A]"

definition formatUntrustedRunInput :: "'w loop_env \<Rightarrow> jsv \<Rightarrow> string" where
  "formatUntrustedRunInput env input = ''Untrusted run input (JSON):'' @ newline @ le_print env input"

definition summarizeToolCallsForConversation :: "tool_call list \<Rightarrow> string" where
  "summarizeToolCallsForConversation calls =
     ''Requested tools: '' @ (case List.map tc_name calls of [] \<Rightarrow> []
        | n # ns \<Rightarrow> n @ concat (List.map (\<lambda>m. '', '' @ m) ns))"

definition parseStructuredOutput :: "'w loop_env \<Rightarrow> string option \<Rightarrow> jsv option" where
  "parseStructuredOutput env text =
     (case text of None \<Rightarrow> None | Some t \<Rightarrow> if length (js_trim t) = 0 then None else le_parse env t)"

definition mapContextPrefetchFailure :: "'w loop_env \<Rightarrow> tool_failure \<Rightarrow> string \<times> string" where
  "mapContextPrefetchFailure env e =
     (if tf_isError e \<and> tf_code e \<in> {Some ''KNOWLEDGE_UNAVAILABLE'', Some ''MEMORY_UNAVAILABLE''}
      then (the (tf_code e), le_sanitize env (tf_message e) ''Context retrieval failed.'')
      else (''KNOWLEDGE_UNAVAILABLE'', ''Context retrieval failed.''))"

definition checkpointing :: "execution_request \<Rightarrow> bool" where
  "checkpointing request \<longleftrightarrow> isDeclarativeCheckpointingEnabled request \<and> er_executionOwnership request \<noteq> None"

definition tool_checkpoint :: "'w loop_env \<Rightarrow> execution_request \<Rightarrow> tool_call list option
    \<Rightarrow> 'w loop_state \<Rightarrow> 'w loop_state \<times> (loop_end + unit)" where
  "tool_checkpoint env request pending st =
     loop_then (take_checkpoint env request After_tool ''tool'' pending st) (\<lambda>_ st.
       if checkpointing request then crashIfRequested env After_tool_checkpoint st else (st, Inr ()))"

definition restored :: "execution_request \<Rightarrow> loop_checkpoint option" where
  "restored request = (case er_checkpoint request of Some (Some s) \<Rightarrow> Some (read_checkpoint s) | _ \<Rightarrow> None)"

text \<open>
  The start: the restored state, or the retrieved context and the first two messages under a
  checkpoint of their own. The calls a checkpoint left pending are returned.
\<close>

definition beginLoop :: "'w loop_env \<Rightarrow> execution_request \<Rightarrow> journal \<Rightarrow> checkpoint_store \<Rightarrow> 'w
    \<Rightarrow> 'w loop_state \<times> (loop_end + tool_call list)" where
  "beginLoop env request journal checkpoints w =
     (let restore = restored request;
          st = \<lparr> lp_messages = (case restore of None \<Rightarrow> [] | Some r \<Rightarrow> lc_messages r),
            lp_modelInvocations = (case restore of None \<Rightarrow> 0 | Some r \<Rightarrow> lc_modelInvocations r),
            lp_toolInvocations = (case restore of None \<Rightarrow> 0 | Some r \<Rightarrow> lc_toolInvocations r),
            lp_checkpointSequence = 0,
            lp_retrievedContext = (case restore of None \<Rightarrow> None | Some r \<Rightarrow> lc_retrievedContext r),
            lp_journal = journal, lp_checkpoints = checkpoints, lp_world = w \<rparr>;
          pending = (case restore of None \<Rightarrow> []
            | Some r \<Rightarrow> (case lc_pendingToolCalls r of None \<Rightarrow> [] | Some calls \<Rightarrow> calls))
      in if lp_messages st \<noteq> [] then (st, Inr pending)
         else
           let (w', context) = le_prefetch env (lp_world st)
           in case context of
                Inl e \<Rightarrow> (st\<lparr> lp_world := w' \<rparr>, Inl (executionFailure env
                  (fst (mapContextPrefetchFailure env e)) (snd (mapContextPrefetchFailure env e))))
              | Inr retrieved \<Rightarrow>
                  loop_then (take_checkpoint env request After_prefetch ''prefetch'' None
                      (st\<lparr> lp_world := w', lp_retrievedContext := retrieved, lp_messages :=
                        [System_message (lf_instructions (le_config env)),
                         User_message (formatUntrustedRunInput env (er_input request)
                           @ (case retrieved of None \<Rightarrow> [] | Some c \<Rightarrow> newline @ newline @ c))] \<rparr>))
                    (\<lambda>_ st. (st, Inr pending)))"

text \<open>The tools one completion asked for, each followed by a checkpoint of the calls that remain.\<close>

fun callTools :: "'w loop_env \<Rightarrow> execution_request \<Rightarrow> tool_call list
    \<Rightarrow> 'w loop_state \<Rightarrow> 'w loop_state \<times> (loop_end + unit)" where
  "callTools env request [] st = (st, Inr ())"
| "callTools env request (call # remaining) st =
     loop_then (executeToolBatch env request [call] st) (\<lambda>_ st.
     loop_then (tool_checkpoint env request
         (if remaining = [] then None else Some (toPendingToolCalls remaining)) st) (\<lambda>_ st.
       callTools env request remaining st))"

definition finishLoop :: "'w loop_env \<Rightarrow> execution_request \<Rightarrow> string option
    \<Rightarrow> 'w loop_state \<Rightarrow> 'w loop_state \<times> (loop_end + unit)" where
  "finishLoop env request text st =
     (case parseStructuredOutput env text of
        None \<Rightarrow> (st, Inl (executionFailure env ''INVALID_MODEL_RESPONSE''
          ''Model returned an invalid structured response.''))
      | Some rawOutput \<Rightarrow>
          if \<not> canonical_tree rawOutput
          then (st, Inl (executionFailure env ''INVALID_RUNTIME_OUTPUT''
            ''Runtime output must be JSON-compatible.''))
          else if \<not> le_validate env (le_outputSchema env) rawOutput
          then (st, Inl (executionFailure env ''INVALID_RUNTIME_OUTPUT''
            ''Runtime output does not match the declared output schema.''))
          else loop_then (take_checkpoint env request After_model ''complete'' None st)
            (\<lambda>_ st. (st, Inl (Loop_succeeded rawOutput))))"

text \<open>What a completion leads to: the calls it asks for, or the output it gives.\<close>

definition useCompletion :: "'w loop_env \<Rightarrow> execution_request \<Rightarrow> completion
    \<Rightarrow> 'w loop_state \<Rightarrow> 'w loop_state \<times> (loop_end + unit)" where
  "useCompletion env request completion st =
     (let calls = co_toolCalls completion
      in if calls = [] then finishLoop env request (co_text completion) st
         else if le_toolGateway env = None
         then (st, Inl (executionFailure env ''TOOL_EXECUTION_ERROR'' ''Tool capability is unavailable.''))
         else loop_then (take_checkpoint env request After_model ''model'' (Some (toPendingToolCalls calls))
             (st\<lparr> lp_messages := lp_messages st @ [Assistant_message
                (case co_text completion of Some t \<Rightarrow> t
                 | None \<Rightarrow> summarizeToolCallsForConversation calls)] \<rparr>)) (\<lambda>_ st.
           callTools env request (toPendingToolCalls calls) st))"

definition completionRequest :: "'w loop_env \<Rightarrow> 'w loop_state \<Rightarrow> completion_request" where
  "completionRequest env st =
     (let useTools = (le_toolDefinitions env \<noteq> []
        \<and> lp_toolInvocations st < lf_maxToolInvocations (le_config env))
      in \<lparr> cq_modelProfileVersionId = le_modelProfileVersionId env, cq_messages = lp_messages st,
           cq_maxOutputTokens = lf_maxOutputTokens (le_config env),
           cq_toolDefinitions = (if useTools then Some (le_toolDefinitions env) else None),
           cq_jsonSchema = (if useTools then None else Some (le_outputSchema env)) \<rparr>)"

definition modelTurn :: "'w loop_env \<Rightarrow> execution_request \<Rightarrow> 'w loop_state \<Rightarrow> 'w loop_state \<times> (loop_end + unit)" where
  "modelTurn env request st =
     (if lf_maxModelInvocations (le_config env) \<le> lp_modelInvocations st
      then (st, Inl (executionFailure env ''DECLARATIVE_BUDGET_EXCEEDED'' ''Maximum model invocations exceeded.''))
      else
        let st = st\<lparr> lp_modelInvocations := lp_modelInvocations st + 1 \<rparr>
        in case le_generateCompletion env (completionRequest env st) (lp_world st) of
             (w, Inl e) \<Rightarrow> (st\<lparr> lp_world := w \<rparr>, Inl (Loop_threw e))
           | (w, Inr completion) \<Rightarrow> useCompletion env request completion (st\<lparr> lp_world := w \<rparr>))"

text \<open>One turn of the loop. It ends, or goes on with no call pending.\<close>

definition loopTurn :: "'w loop_env \<Rightarrow> execution_request \<Rightarrow> tool_call list
    \<Rightarrow> 'w loop_state \<Rightarrow> 'w loop_state \<times> (loop_end + unit)" where
  "loopTurn env request pending st =
     loop_then (throwIfCancelled env st) (\<lambda>_ st.
       if pending \<noteq> []
       then loop_then (executeToolBatch env request pending st) (\<lambda>_ st.
         tool_checkpoint env request None st)
       else modelTurn env request st)"

text \<open>
  How far a part of the loop moves the two counters: the model counter only in a model turn, the
  tool counter never beyond its budget.
\<close>

definition counted :: "'w loop_env \<Rightarrow> 'w loop_state \<Rightarrow> 'w loop_state \<Rightarrow> bool" where
  "counted env st st' \<longleftrightarrow> lp_modelInvocations st' = lp_modelInvocations st
     \<and> lp_toolInvocations st \<le> lp_toolInvocations st'
     \<and> (lp_toolInvocations st' \<le> lp_toolInvocations st
        \<or> lp_toolInvocations st' \<le> lf_maxToolInvocations (le_config env))"

lemma counted_refl [simp]: "counted env st st"
  by (simp add: counted_def)

lemma counted_trans: "counted env r st \<Longrightarrow> counted env st t \<Longrightarrow> counted env r t"
  by (auto simp: counted_def)

lemma throwIfCancelled_state [simp]: "fst (throwIfCancelled env st) = st"
  by (simp add: throwIfCancelled_def)

lemma crashIfRequested_state [simp]: "fst (crashIfRequested env p st) = st"
  by (simp add: crashIfRequested_def)

lemma counted_thenI:
  assumes "counted env st (fst r)" "\<And>s y. r = (s, Inr y) \<Longrightarrow> counted env s (fst (f y s))"
  shows "counted env st (fst (loop_then r f))"
  using assms by (cases r; cases "snd r") (fastforce intro: counted_trans)+

lemma commitDeclarativeCheckpoint_counted:
  "counted env st (fst (commitDeclarativeCheckpoint env request g owner p n state key st))"
  by (auto simp: commitDeclarativeCheckpoint_def counted_def Let_def split: prod.splits commit_result.splits)

lemma take_checkpoint_counted: "counted env st (fst (take_checkpoint env request p l pending st))"
proof -
  have "counted env st (st\<lparr> lp_checkpointSequence := n \<rparr>)" for n by (simp add: counted_def)
  then show ?thesis
    by (auto simp: take_checkpoint_def Let_def split: option.splits
        intro: counted_trans [OF _ commitDeclarativeCheckpoint_counted])
qed

lemma tool_checkpoint_counted: "counted env st (fst (tool_checkpoint env request pending st))"
  unfolding tool_checkpoint_def by (rule counted_thenI) (simp_all add: take_checkpoint_counted)

lemma prepareToolCall_counted:
  "counted env st (fst (prepareToolCall env request call st))"
  "prepareToolCall env request call st = (s, Inr p) \<Longrightarrow>
     lp_toolInvocations s < lf_maxToolInvocations (le_config env)"
  by (auto simp: prepareToolCall_def throwIfCancelled_def counted_def Let_def
      split: prod.splits option.splits jsv.splits if_splits)

lemma startToolCall_counted:
  "lp_toolInvocations st < lf_maxToolInvocations (le_config env) \<Longrightarrow>
     counted env st (fst (startToolCall env request call p resume st))"
  by (auto simp: startToolCall_def counted_def Let_def)

lemma finishToolCall_counted: "counted env st (fst (finishToolCall env request call p answer st))"
  by (auto simp: finishToolCall_def counted_def Let_def crashIfRequested_def
      split: prod.splits sum.splits failure_disposition.splits)

text \<open>A tool call in its parts, for a relation between states that each part respects.\<close>

definition consulted :: "execution_request \<Rightarrow> tool_call \<Rightarrow> prepared_call \<Rightarrow> 'w loop_state \<Rightarrow> journal_decision" where
  "consulted request call p st = consultJournal
     (if er_operationJournal request
      then findByRunAndOperationKey (lp_journal st) (er_workspaceId request) (er_runId request) (pt_operationKey p)
      else None) (pt_toolVersionId p) (pt_fingerprint p) (tc_name call)"

lemma executeToolCall_parts:
  assumes refl: "\<And>s. R s s" and trans: "\<And>r s t. R r s \<Longrightarrow> R s t \<Longrightarrow> R r t"
    and messages: "\<And>s ms. R s (s\<lparr> lp_messages := ms \<rparr>)"
    and prepare: "R st (fst (prepareToolCall env request call st))"
    and replay: "\<And>s p. prepareToolCall env request call st = (s, Inr p) \<Longrightarrow>
      R s (s\<lparr> lp_toolInvocations := lp_toolInvocations s + 1 \<rparr>)"
    and start: "\<And>s p b. prepareToolCall env request call st = (s, Inr p) \<Longrightarrow>
      consulted request call p s = Dispatch b \<Longrightarrow> R s (fst (startToolCall env request call p b s))"
    and finish: "\<And>s p b t. prepareToolCall env request call st = (s, Inr p) \<Longrightarrow>
      consulted request call p s = Dispatch b \<Longrightarrow> startToolCall env request call p b s = (t, Inr ()) \<Longrightarrow>
      R s (fst (finishToolCall env request call p (snd (invoke (toolInvocation request call p) (lp_world t)))
        (t\<lparr> lp_world := fst (invoke (toolInvocation request call p) (lp_world t)) \<rparr>)))"
  shows "R st (fst (executeToolCall env request invoke call st))"
proof (cases "prepareToolCall env request call st")
  case (Pair s r)
  show ?thesis
  proof (cases r)
    case (Inr p)
    note pre = Pair [unfolded Inr]
    have s: "R st s" using prepare pre by simp
    have "R s (fst (executeToolCall env request invoke call st))"
    proof (cases "consulted request call p s")
      case (Replay out)
      then show ?thesis
        using trans [OF replay [OF pre] messages] pre
        by (simp add: executeToolCall_def consulted_def Let_def)
    next
      case (Refuse msg)
      then show ?thesis using pre refl by (simp add: executeToolCall_def consulted_def Let_def)
    next
      case (Dispatch b)
      obtain t x where t: "startToolCall env request call p b s = (t, x)"
        by (cases "startToolCall env request call p b s")
      show ?thesis
      proof (cases x)
        case (Inl e)
        with t Dispatch pre start [OF pre Dispatch] show ?thesis
          by (simp add: executeToolCall_def consulted_def Let_def)
      next
        case (Inr u)
        then have t': "startToolCall env request call p b s = (t, Inr ())" using t by simp
        obtain w answer where a: "invoke (toolInvocation request call p) (lp_world t) = (w, answer)"
          by (cases "invoke (toolInvocation request call p) (lp_world t)")
        note f = finish [OF pre Dispatch t', unfolded a, simplified]
        then show ?thesis
          using Dispatch pre t' a trans [OF f messages]
          by (cases "finishToolCall env request call p answer (t\<lparr> lp_world := w \<rparr>)";
              cases "snd (finishToolCall env request call p answer (t\<lparr> lp_world := w \<rparr>))")
            (simp_all add: executeToolCall_def consulted_def Let_def)
      qed
    qed
    with s show ?thesis by (rule trans)
  qed (use Pair prepare in \<open>simp add: executeToolCall_def\<close>)
qed

lemma executeToolCall_counted: "counted env st (fst (executeToolCall env request invoke call st))"
proof (rule executeToolCall_parts [where R = "counted env"])
  fix s p b t
  assume p: "prepareToolCall env request call st = (s, Inr p)"
  note budget = prepareToolCall_counted(2) [OF p]
  show "counted env s (s\<lparr> lp_toolInvocations := lp_toolInvocations s + 1 \<rparr>)"
    using budget by (simp add: counted_def)
  show start: "counted env s (fst (startToolCall env request call p b s))"
    using startToolCall_counted [OF budget] .
  assume "startToolCall env request call p b s = (t, Inr ())"
  with start have "counted env s t" by simp
  then have "counted env s (t\<lparr> lp_world := w \<rparr>)" for w by (simp add: counted_def)
  from counted_trans [OF this finishToolCall_counted]
  show "counted env s (fst (finishToolCall env request call p
      (snd (invoke (toolInvocation request call p) (lp_world t)))
      (t\<lparr> lp_world := fst (invoke (toolInvocation request call p) (lp_world t)) \<rparr>)))" .
qed (auto simp: prepareToolCall_counted(1) intro: counted_trans, simp add: counted_def)

lemma executeToolCalls_counted: "counted env st (fst (executeToolCalls env request invoke calls st))"
  by (induction calls arbitrary: st) (auto intro!: counted_thenI executeToolCall_counted)

lemma executeToolBatch_counted: "counted env st (fst (executeToolBatch env request calls st))"
  by (simp add: executeToolBatch_def executeToolCalls_counted split: option.splits)

lemma callTools_counted: "counted env st (fst (callTools env request calls st))"
  by (induction calls arbitrary: st)
    (auto intro!: counted_thenI executeToolBatch_counted tool_checkpoint_counted)

text \<open>A model turn counts one invocation, within its budget.\<close>

definition turned :: "'w loop_env \<Rightarrow> 'w loop_state \<Rightarrow> 'w loop_state \<Rightarrow> bool" where
  "turned env st st' \<longleftrightarrow> lp_modelInvocations st < lf_maxModelInvocations (le_config env)
     \<and> lp_modelInvocations st' = lp_modelInvocations st + 1
     \<and> lp_toolInvocations st \<le> lp_toolInvocations st'
     \<and> (lp_toolInvocations st' \<le> lp_toolInvocations st
        \<or> lp_toolInvocations st' \<le> lf_maxToolInvocations (le_config env))"

lemma turned_counted: "turned env st t \<Longrightarrow> counted env t u \<Longrightarrow> turned env st u"
  by (auto simp: turned_def counted_def)

lemma finishLoop_counted:
  "counted env st (fst (finishLoop env request text st))" "snd (finishLoop env request text st) \<noteq> Inr ()"
proof -
  show "counted env st (fst (finishLoop env request text st))"
    by (auto simp: finishLoop_def take_checkpoint_counted intro!: counted_thenI split: option.splits)
  show "snd (finishLoop env request text st) \<noteq> Inr ()"
    by (auto simp: finishLoop_def loop_then_def split: option.splits prod.splits sum.splits)
qed

lemma useCompletion_counted: "counted env st (fst (useCompletion env request completion st))"
proof -
  have m: "counted env st (st\<lparr> lp_messages := ms \<rparr>)" for ms by (simp add: counted_def)
  show ?thesis
    by (simp add: useCompletion_def Let_def finishLoop_counted(1))
      (auto intro!: counted_thenI counted_trans [OF m take_checkpoint_counted] callTools_counted)
qed

lemma modelTurn_turned:
  "modelTurn env request st = (st', r) \<Longrightarrow> turned env st st' \<or> st' = st \<and> r \<noteq> Inr ()"
proof -
  assume m: "modelTurn env request st = (st', r)"
  define t where "t = st\<lparr> lp_modelInvocations := lp_modelInvocations st + 1 \<rparr>"
  show ?thesis
  proof (cases "lf_maxModelInvocations (le_config env) \<le> lp_modelInvocations st")
    case False
    then have t: "turned env st (t\<lparr> lp_world := w \<rparr>)" for w by (simp add: turned_def t_def)
    obtain w answer where a: "le_generateCompletion env (completionRequest env t) (lp_world t) = (w, answer)"
      by (cases "le_generateCompletion env (completionRequest env t) (lp_world t)")
    have "turned env st (fst (modelTurn env request st))"
      using False t turned_counted [OF t useCompletion_counted]
      by (cases answer) (simp_all add: modelTurn_def Let_def t_def [symmetric] a)
    with m show ?thesis by simp
  qed (use m in \<open>auto simp: modelTurn_def\<close>)
qed

lemma loopTurn_counted:
  assumes "loopTurn env request pending st = (st', r)"
  shows "counted env st st' \<and> (pending \<noteq> [] \<or> r \<noteq> Inr ()) \<or> turned env st st' \<and> pending = []"
proof (cases "le_aborted env (lp_world st)")
  case True
  with assms show ?thesis by (auto simp: loopTurn_def throwIfCancelled_def)
next
  case False
  show ?thesis
  proof (cases "pending = []")
    case True
    with False assms have "modelTurn env request st = (st', r)" by (simp add: loopTurn_def throwIfCancelled_def)
    with True modelTurn_turned show ?thesis by fastforce
  next
    case nonempty: False
    have "counted env st (fst (loop_then (executeToolBatch env request pending st) (\<lambda>_ st.
        tool_checkpoint env request None st)))"
      by (intro counted_thenI executeToolBatch_counted tool_checkpoint_counted)
    with False nonempty assms show ?thesis by (simp add: loopTurn_def throwIfCancelled_def)
  qed
qed

function runLoop :: "'w loop_env \<Rightarrow> execution_request \<Rightarrow> tool_call list \<Rightarrow> 'w loop_state
    \<Rightarrow> 'w loop_state \<times> loop_end" where
  "runLoop env request pending st =
     (case loopTurn env request pending st of
        (st', Inl e) \<Rightarrow> (st', e)
      | (st', Inr u) \<Rightarrow> runLoop env request [] st')"
  by pat_completeness auto

termination
proof (relation "measure (\<lambda>(env, request, pending, st).
    2 * nat (lf_maxModelInvocations (le_config env) - lp_modelInvocations st) + (if pending = [] then 0 else 1))",
    goal_cases)
  case (2 env request pending st st' u)
  then have "loopTurn env request pending st = (st', Inr ())" by simp
  from loopTurn_counted [OF this] show ?case by (auto simp: counted_def turned_def)
qed simp

declare runLoop.simps [simp del]

definition runDeclarativeExecutionLoop :: "'w loop_env \<Rightarrow> execution_request \<Rightarrow> journal \<Rightarrow> checkpoint_store
    \<Rightarrow> 'w \<Rightarrow> 'w loop_state \<times> loop_end" where
  "runDeclarativeExecutionLoop env request journal checkpoints w =
     (case beginLoop env request journal checkpoints w of
        (st, Inl e) \<Rightarrow> (st, e)
      | (st, Inr pending) \<Rightarrow> runLoop env request pending st)"

subsection \<open>What every part of the loop keeps\<close>

text \<open>
  A relation between states that the parts of the loop respect, one by one: taking a checkpoint,
  calling a tool, adding a message, asking the model. The whole loop then respects it.
\<close>

locale loop_relation =
  fixes env :: "'w loop_env" and request :: execution_request
    and R :: "'w loop_state \<Rightarrow> 'w loop_state \<Rightarrow> bool"
  assumes refl: "R st st"
    and trans: "R r s \<Longrightarrow> R s t \<Longrightarrow> R r t"
    and messages: "R st (st\<lparr> lp_messages := ms \<rparr>)"
    and checkpoint: "R st (fst (take_checkpoint env request p l pending st))"
    and tool: "le_toolGateway env = Some invoke \<Longrightarrow> R st (fst (executeToolCall env request invoke call st))"
    and model: "lp_modelInvocations st < lf_maxModelInvocations (le_config env) \<Longrightarrow>
      le_generateCompletion env q (lp_world st) = (w, a) \<Longrightarrow>
      R st (st\<lparr> lp_modelInvocations := lp_modelInvocations st + 1, lp_world := w \<rparr>)"
begin

lemma thenI:
  "R st (fst r) \<Longrightarrow> (\<And>s y. r = (s, Inr y) \<Longrightarrow> R s (fst (f y s))) \<Longrightarrow> R st (fst (loop_then r f))"
  by (cases r; cases "snd r") (fastforce intro: trans)+

lemma toolCheckpoint: "R st (fst (tool_checkpoint env request pending st))"
  unfolding tool_checkpoint_def by (auto simp: refl intro!: thenI checkpoint)

lemma toolCalls: "le_toolGateway env = Some invoke \<Longrightarrow> R st (fst (executeToolCalls env request invoke calls st))"
  by (induction calls arbitrary: st) (auto simp: refl intro!: thenI tool)

lemma batch: "R st (fst (executeToolBatch env request calls st))"
  by (auto simp: executeToolBatch_def toolCalls refl split: option.splits)

lemma afterModel: "R st (fst (callTools env request calls st))"
  by (induction calls arbitrary: st) (auto simp: refl intro!: thenI batch toolCheckpoint)

lemma completion: "R st (fst (useCompletion env request completion st))"
  by (auto simp: useCompletion_def finishLoop_def Let_def refl split: option.splits
      intro!: thenI checkpoint afterModel trans [OF messages checkpoint])

lemma modelTurn: "R st (fst (modelTurn env request st))"
proof (cases "lf_maxModelInvocations (le_config env) \<le> lp_modelInvocations st")
  case False
  let ?st = "st\<lparr> lp_modelInvocations := lp_modelInvocations st + 1 \<rparr>"
  obtain w a where a: "le_generateCompletion env (completionRequest env ?st) (lp_world st) = (w, a)"
    by (cases "le_generateCompletion env (completionRequest env ?st) (lp_world st)")
  have r: "R st (?st\<lparr> lp_world := w \<rparr>)" using model [OF _ a] False by simp
  show ?thesis
    using False r trans [OF r completion] by (cases a) (simp_all add: modelTurn_def a)
qed (simp add: modelTurn_def refl)

lemma turn: "R st (fst (loopTurn env request pending st))"
  unfolding loopTurn_def by (auto simp: refl intro!: thenI batch toolCheckpoint modelTurn)

lemma loop: "runLoop env request pending st = (st', e) \<Longrightarrow> R st st'"
proof (induction "2 * nat (lf_maxModelInvocations (le_config env)
      - lp_modelInvocations st) + (if pending = [] then 0 else 1)" arbitrary: pending st rule: less_induct)
  case less
  obtain t r where t: "loopTurn env request pending st = (t, r)" by (cases "loopTurn env request pending st")
  have s: "R st t" using turn [of st pending] t by simp
  show ?case
  proof (cases r)
    case (Inl x)
    with less(2) t s show ?thesis by (simp add: runLoop.simps [of env request pending])
  next
    case (Inr u)
    with less(2) t have "runLoop env request [] t = (st', e)" by (simp add: runLoop.simps [of env request pending])
    moreover have "2 * nat (lf_maxModelInvocations (le_config env) - lp_modelInvocations t)
      < 2 * nat (lf_maxModelInvocations (le_config env) - lp_modelInvocations st) + (if pending = [] then 0 else 1)"
      using loopTurn_counted [OF t] Inr by (auto simp: counted_def turned_def)
    ultimately have "R t st'" using less(1) [of t "[]"] by simp
    with s show ?thesis by (rule trans)
  qed
qed


end

end
