(* ===== verification/Declarative_Facts.thy ===== *)
theory Declarative_Facts
  imports Declarative_Loop
begin

text \<open>
  What the declarative loop guarantees: it spends no more than its budgets on calls that are really
  made, every checkpoint it writes belongs to its attempt, and a call that may change the outside
  world is made at most once, however often the attempt is interrupted and restored.
\<close>

subsection \<open>Observed surroundings\<close>

text \<open>
  The same surroundings over a world that also counts the requests to the model and lists the
  invocations of tools.
\<close>

record 'w observed =
  ob_world :: 'w
  ob_model :: nat
  ob_tools :: "tool_invocation list"

definition observe :: "'w loop_env \<Rightarrow> 'w observed loop_env" where
  "observe env = \<lparr> le_config = le_config env, le_modelProfileVersionId = le_modelProfileVersionId env,
     le_allowedTools = le_allowedTools env, le_outputSchema = le_outputSchema env,
     le_toolDefinitions = le_toolDefinitions env,
     le_generateCompletion = (\<lambda>q w. case le_generateCompletion env q (ob_world w) of
       (v, a) \<Rightarrow> (w\<lparr> ob_world := v, ob_model := ob_model w + 1 \<rparr>, a)),
     le_toolGateway = map_option (\<lambda>invoke i w. case invoke i (ob_world w) of
       (v, a) \<Rightarrow> (w\<lparr> ob_world := v, ob_tools := ob_tools w @ [i] \<rparr>, a)) (le_toolGateway env),
     le_resolveToolMetadata = (\<lambda>i w. case le_resolveToolMetadata env i (ob_world w) of
       (v, m) \<Rightarrow> (w\<lparr> ob_world := v \<rparr>, m)),
     le_prefetch = (\<lambda>w. case le_prefetch env (ob_world w) of (v, c) \<Rightarrow> (w\<lparr> ob_world := v \<rparr>, c)),
     le_aborted = le_aborted env \<circ> ob_world, le_crash = (\<lambda>p. le_crash env p \<circ> ob_world),
     le_now = le_now env \<circ> ob_world, le_validate = le_validate env, le_print = le_print env,
     le_parse = le_parse env, le_sanitize = le_sanitize env, le_sha256 = le_sha256 env,
     le_byteLength = le_byteLength env \<rparr>"

lemma observe_config [simp]: "le_config (observe env) = le_config env"
  by (simp add: observe_def)

lemma observe_gateway:
  "le_toolGateway (observe env) = Some invoke \<Longrightarrow>
     \<exists>v. invoke i w = (w\<lparr> ob_world := fst v, ob_tools := ob_tools w @ [i] \<rparr>, snd v)"
  by (auto simp: observe_def split: prod.splits)

lemma observe_metadata: "\<exists>v. le_resolveToolMetadata (observe env) i w = (w\<lparr> ob_world := fst v \<rparr>, snd v)"
  by (auto simp: observe_def split: prod.splits)

lemma observe_completion:
  "\<exists>v. le_generateCompletion (observe env) q w = (w\<lparr> ob_world := fst v, ob_model := ob_model w + 1 \<rparr>, snd v)"
  by (auto simp: observe_def split: prod.splits)

text \<open>The counters account for every request that was made, and stay within the budgets.\<close>

definition spent :: "'w loop_env \<Rightarrow> 'w observed loop_state \<Rightarrow> 'w observed loop_state \<Rightarrow> bool" where
  "spent env st st' \<longleftrightarrow>
     int (ob_model (lp_world st')) - int (ob_model (lp_world st)) = lp_modelInvocations st' - lp_modelInvocations st
     \<and> int (length (ob_tools (lp_world st'))) - int (length (ob_tools (lp_world st)))
        \<le> lp_toolInvocations st' - lp_toolInvocations st
     \<and> lp_modelInvocations st' \<le> max (lp_modelInvocations st) (lf_maxModelInvocations (le_config env))
     \<and> lp_toolInvocations st' \<le> max (lp_toolInvocations st) (lf_maxToolInvocations (le_config env))
     \<and> lp_toolInvocations st \<le> lp_toolInvocations st'"

lemma spent_refl: "spent env st st"
  by (simp add: spent_def)

lemma spent_trans: "spent env r s \<Longrightarrow> spent env s t \<Longrightarrow> spent env r t"
  by (auto simp: spent_def)

text \<open>A part that leaves counters and observations alone.\<close>

definition quiet :: "'w observed loop_state \<Rightarrow> 'w observed loop_state \<Rightarrow> bool" where
  "quiet st st' \<longleftrightarrow> ob_model (lp_world st') = ob_model (lp_world st)
     \<and> ob_tools (lp_world st') = ob_tools (lp_world st)
     \<and> lp_modelInvocations st' = lp_modelInvocations st \<and> lp_toolInvocations st' = lp_toolInvocations st"

lemma quiet_spent: "quiet st st' \<Longrightarrow> spent env st st'"
  by (simp add: quiet_def spent_def)

lemma take_checkpoint_quiet: "quiet st (fst (take_checkpoint env request p l pending st))"
  by (auto simp: quiet_def take_checkpoint_def commitDeclarativeCheckpoint_def Let_def
      split: option.splits prod.splits commit_result.splits)

lemma prepareToolCall_quiet: "quiet st (fst (prepareToolCall (observe env) request call st))"
proof -
  have "ob_model (fst (le_resolveToolMetadata (observe env) i w)) = ob_model w"
    "ob_tools (fst (le_resolveToolMetadata (observe env) i w)) = ob_tools w" for i w
    using observe_metadata [of env i w] by auto
  then show ?thesis
    by (auto simp: quiet_def prepareToolCall_def throwIfCancelled_def Let_def
        split: prod.splits option.splits jsv.splits if_splits) (metis fst_conv)+
qed

lemma startToolCall_parts:
  "lp_world (fst (startToolCall env request call p resume st)) = lp_world st"
  "lp_modelInvocations (fst (startToolCall env request call p resume st)) = lp_modelInvocations st"
  "lp_toolInvocations (fst (startToolCall env request call p resume st)) = lp_toolInvocations st + 1"
  by (auto simp: startToolCall_def Let_def)

lemma finishToolCall_quiet: "quiet st (fst (finishToolCall env request call p answer st))"
  by (auto simp: finishToolCall_def quiet_def Let_def crashIfRequested_def
      split: prod.splits sum.splits failure_disposition.splits)

lemma executeToolCall_spent:
  assumes g: "le_toolGateway (observe env) = Some invoke"
  shows "spent env st (fst (executeToolCall (observe env) request invoke call st))"
proof (rule executeToolCall_parts [where R = "spent env"])
  fix s p b t
  assume p: "prepareToolCall (observe env) request call st = (s, Inr p)"
  have budget: "lp_toolInvocations s < lf_maxToolInvocations (le_config env)"
    using prepareToolCall_counted(2) [OF p] by simp
  then show "spent env s (s\<lparr> lp_toolInvocations := lp_toolInvocations s + 1 \<rparr>)"
    by (simp add: spent_def)
  show "spent env s (fst (startToolCall (observe env) request call p b s))"
    using budget by (simp add: spent_def startToolCall_parts)
  assume t: "startToolCall (observe env) request call p b s = (t, Inr ())"
  obtain v where v: "invoke (toolInvocation request call p) (lp_world s)
      = ((lp_world s)\<lparr> ob_world := fst v, ob_tools := ob_tools (lp_world s) @ [toolInvocation request call p] \<rparr>, snd v)"
    using observe_gateway [OF g] by blast
  show "spent env s (fst (finishToolCall (observe env) request call p
      (snd (invoke (toolInvocation request call p) (lp_world t)))
      (t\<lparr> lp_world := fst (invoke (toolInvocation request call p) (lp_world t)) \<rparr>)))"
    using startToolCall_parts [of "observe env" request call p b s] t budget
      finishToolCall_quiet [of "t\<lparr> lp_world := fst (invoke (toolInvocation request call p) (lp_world t)) \<rparr>"
        "observe env" request call p "snd (invoke (toolInvocation request call p) (lp_world t))"]
    by (auto simp: v quiet_def spent_def)
qed (simp_all add: spent_refl quiet_spent prepareToolCall_quiet, auto intro: spent_trans, simp add: spent_def)

interpretation observed: loop_relation "observe env" request "spent env" for env :: "'w loop_env" and request
proof
  fix st :: "'w observed loop_state" and q w a
  assume m: "lp_modelInvocations st < lf_maxModelInvocations (le_config (observe env))"
    and g: "le_generateCompletion (observe env) q (lp_world st) = (w, a)"
  obtain v where "w = (lp_world st)\<lparr> ob_world := fst v, ob_model := ob_model (lp_world st) + 1 \<rparr>"
    using observe_completion [of env q "lp_world st"] g by auto
  then show "spent env st (st\<lparr> lp_modelInvocations := lp_modelInvocations st + 1, lp_world := w \<rparr>)"
    using m by (simp add: spent_def)
qed (auto simp: spent_refl take_checkpoint_quiet quiet_spent intro: spent_trans executeToolCall_spent,
    simp add: spent_def)

definition start_counts :: "execution_request \<Rightarrow> int \<times> int" where
  "start_counts request = (case restored request of None \<Rightarrow> (0, 0)
     | Some r \<Rightarrow> (lc_modelInvocations r, lc_toolInvocations r))"

lemma checkpoint_then_quiet:
  "loop_then (take_checkpoint env request p l pending s) (\<lambda>_ st. (st, Inr x)) = (t, r) \<Longrightarrow> quiet s t"
  using take_checkpoint_quiet [of s env request p l pending]
  by (cases "take_checkpoint env request p l pending s";
      cases "snd (take_checkpoint env request p l pending s)") auto

lemma beginLoop_counts:
  assumes "beginLoop (observe env) request j c \<lparr> ob_world = w, ob_model = 0, ob_tools = [] \<rparr> = (st, r)"
  shows "ob_model (lp_world st) = 0 \<and> ob_tools (lp_world st) = []
    \<and> lp_modelInvocations st = fst (start_counts request) \<and> lp_toolInvocations st = snd (start_counts request)"
proof -
  obtain v where v: "le_prefetch (observe env) \<lparr> ob_world = w, ob_model = 0, ob_tools = [] \<rparr>
      = (\<lparr> ob_world = fst v, ob_model = 0, ob_tools = [] \<rparr>, snd v)"
    using that [of "le_prefetch env w"] by (simp add: observe_def split_beta)
  show ?thesis
    using assms v
    by (cases "restored request"; cases "snd v")
      (auto simp: beginLoop_def Let_def start_counts_def quiet_def split: if_splits
        dest!: checkpoint_then_quiet)
qed

text \<open>
  C17. The loop always ends, and it spends no more than its budgets: the requests it makes of the
  model and the tools it invokes, together with those an earlier attempt had already counted in
  the checkpoint, never exceed the larger of that count and the configured maximum. Every request
  to the model is counted; a replayed tool result is counted without being invoked again.
\<close>

theorem loop_within_budget:
  "\<exists>st e. runDeclarativeExecutionLoop (observe env) request journal checkpoints
      \<lparr> ob_world = w, ob_model = 0, ob_tools = [] \<rparr> = (st, e)
    \<and> int (ob_model (lp_world st)) = lp_modelInvocations st - fst (start_counts request)
    \<and> lp_modelInvocations st \<le> max (fst (start_counts request)) (lf_maxModelInvocations (le_config env))
    \<and> int (length (ob_tools (lp_world st))) \<le> lp_toolInvocations st - snd (start_counts request)
    \<and> lp_toolInvocations st \<le> max (snd (start_counts request)) (lf_maxToolInvocations (le_config env))"
proof -
  let ?w = "\<lparr> ob_world = w, ob_model = 0, ob_tools = [] \<rparr>"
  obtain s r where b: "beginLoop (observe env) request journal checkpoints ?w = (s, r)"
    by (cases "beginLoop (observe env) request journal checkpoints ?w")
  note c = beginLoop_counts [OF b]
  show ?thesis
  proof (cases r)
    case (Inl e)
    with b c show ?thesis by (auto simp: runDeclarativeExecutionLoop_def)
  next
    case (Inr pending)
    obtain st e where l: "runLoop (observe env) request pending s = (st, e)"
      by (cases "runLoop (observe env) request pending s")
    from observed.loop [OF l] c show ?thesis
      using Inr b l by (auto simp: runDeclarativeExecutionLoop_def spent_def)
  qed
qed

end
