(* ===== verification/Declarative_Adapter.thy ===== *)
theory Declarative_Adapter
  imports Declarative_Facts
begin

text \<open>
  The declarative runtime adapter (\<open>adapters/runtime-declarative/src/declarative-runtime-adapter.ts\<close>)
  around the loop, and the dispatcher that picks a runtime
  (\<open>runtime-core/src/runtime-dispatcher.ts\<close>). The gateways of the adapter are functions of the
  request, as its factories are; the abort signal and the operator's cancellation are read from
  the world when the loop has ended.
\<close>

record described_metadata =
  dm_description :: "string option"
  dm_metadata :: tool_metadata

record 'w adapter =
  ad_modelGateway :: "execution_request
    \<Rightarrow> (completion_request \<Rightarrow> 'w \<Rightarrow> 'w \<times> (tool_failure + completion)) option"
  ad_toolGateway :: "execution_request \<Rightarrow> (tool_invocation \<Rightarrow> 'w \<Rightarrow> 'w \<times> (tool_failure + jsv)) option"
  ad_resolveToolMetadata :: "string \<Rightarrow> 'w \<Rightarrow> 'w \<times> described_metadata option"
  ad_prefetch :: "execution_request \<Rightarrow> 'w \<Rightarrow> 'w \<times> (tool_failure + string option)"
  ad_aborted :: "'w \<Rightarrow> bool"
  ad_cancelledByOperator :: "'w \<Rightarrow> bool"
  ad_crash :: "crash_phase \<Rightarrow> 'w \<Rightarrow> bool"
  ad_now :: "'w \<Rightarrow> string"
  ad_validate :: "jsv \<Rightarrow> jsv \<Rightarrow> bool"
  ad_print :: "jsv \<Rightarrow> string"
  ad_parse :: "string \<Rightarrow> jsv option"
  ad_sanitize :: "string \<Rightarrow> string \<Rightarrow> string"
  ad_sha256 :: "json_token list \<Rightarrow> string"
  ad_byteLength :: "json_token list \<Rightarrow> int"

definition readOutputSchema :: "execution_request \<Rightarrow> jsv option" where
  "readOutputSchema request =
     (let candidate = js_get (er_effectiveConfig request) ''agentOutputSchema''
      in if candidate = JUndefined \<or> \<not> js_typeof_object candidate then None else Some candidate)"

text \<open>A set of names, in the order they were added.\<close>

definition js_set :: "string list \<Rightarrow> string list" where
  "js_set xs = rev (remdups (rev xs))"

fun buildToolDefinitions :: "'w adapter \<Rightarrow> execution_request \<Rightarrow> string list \<Rightarrow> 'w \<Rightarrow> 'w \<times> jsv list" where
  "buildToolDefinitions ad request [] w = (w, [])"
| "buildToolDefinitions ad request (binding # bindings) w =
     (case js_get (er_toolVersionBindings request) binding of
        JUndefined \<Rightarrow> buildToolDefinitions ad request bindings w
      | toolVersion \<Rightarrow>
          let (w', meta) = ad_resolveToolMetadata ad (js_string toolVersion) w;
              (w'', definitions) = buildToolDefinitions ad request bindings w'
          in (w'', case meta of None \<Rightarrow> definitions
                   | Some m \<Rightarrow> JObject ((''name'', JString binding)
                       # optional_field ''description'' (map_option JString (dm_description m))
                       @ [(''inputSchema'', tm_inputSchema (dm_metadata m))]) # definitions))"

definition MODEL_ERROR_CODES :: "string list" where
  "MODEL_ERROR_CODES = [''MODEL_BINDING_NOT_FOUND'', ''MODEL_PROFILE_VERSION_NOT_FOUND'',
     ''MODEL_PROVIDER_UNAVAILABLE'', ''MODEL_INVALID_REQUEST'', ''MODEL_AUTHENTICATION_ERROR'',
     ''MODEL_NOT_FOUND'', ''MODEL_RATE_LIMITED'', ''MODEL_QUOTA_EXHAUSTED'',
     ''MODEL_REQUEST_TIMEOUT'', ''MODEL_CONTENT_BLOCKED'', ''MODEL_CANCELLED'',
     ''MODEL_PROVIDER_ERROR'', ''INVALID_MODEL_RESPONSE'']"

definition mapModelGatewayFailure :: "(string \<Rightarrow> string \<Rightarrow> string) \<Rightarrow> tool_failure \<Rightarrow> (string \<times> string) option" where
  "mapModelGatewayFailure sanitize e =
     (if \<not> tf_isError e then None
      else case tf_code e of None \<Rightarrow> None
      | Some code \<Rightarrow> if code \<in> set MODEL_ERROR_CODES
          then Some (code, sanitize (tf_message e) ''Model invocation failed.'') else None)"

definition mapThrownError :: "(string \<Rightarrow> string \<Rightarrow> string) \<Rightarrow> tool_failure \<Rightarrow> string \<times> string" where
  "mapThrownError sanitize e =
     (let fallback = (''INVALID_MODEL_RESPONSE'',
        sanitize (if tf_isError e then tf_message e else ''Execution failed.'')
          ''Declarative runtime execution failed.'')
      in if tf_isError e
         then if tf_message e = ''RUNTIME_CANCELLED''
              then (''RUNTIME_CANCELLED'', ''Declarative runtime execution was cancelled.'')
              else (case mapModelGatewayFailure sanitize e of Some m \<Rightarrow> m | None \<Rightarrow> fallback)
         else fallback)"

text \<open>What the adapter answers: a result, or nothing when the process died.\<close>

datatype execution_result = Execution_succeeded jsv | Execution_failed execution_error

definition failureResult :: "'w adapter \<Rightarrow> string \<Rightarrow> string \<Rightarrow> execution_result" where
  "failureResult ad code msg = Execution_failed
     \<lparr> ee_code = code, ee_message = ad_sanitize ad msg ''Declarative runtime execution failed.'' \<rparr>"

definition adapter_env :: "'w adapter \<Rightarrow> execution_request \<Rightarrow> jsv \<Rightarrow> string
    \<Rightarrow> (completion_request \<Rightarrow> 'w \<Rightarrow> 'w \<times> (tool_failure + completion)) \<Rightarrow> string list \<Rightarrow> jsv \<Rightarrow> jsv list
    \<Rightarrow> 'w loop_env" where
  "adapter_env ad request config modelProfileVersionId generate allowedTools outputSchema definitions =
     \<lparr> le_config = \<lparr> lf_instructions = js_string (js_get config ''instructions''),
         lf_maxModelInvocations = js_int (js_get config ''maxModelInvocations''),
         lf_maxToolInvocations = js_int (js_get config ''maxToolInvocations''),
         lf_maxOutputTokens = (case js_get config ''maxOutputTokens'' of JUndefined \<Rightarrow> None
           | n \<Rightarrow> Some (js_int n)) \<rparr>,
       le_modelProfileVersionId = modelProfileVersionId, le_allowedTools = allowedTools,
       le_outputSchema = outputSchema, le_toolDefinitions = definitions,
       le_generateCompletion = generate, le_toolGateway = ad_toolGateway ad request,
       le_resolveToolMetadata = (\<lambda>i w. map_prod id (map_option dm_metadata) (ad_resolveToolMetadata ad i w)),
       le_prefetch = ad_prefetch ad request, le_aborted = ad_aborted ad, le_crash = ad_crash ad,
       le_now = ad_now ad, le_validate = ad_validate ad, le_print = ad_print ad, le_parse = ad_parse ad,
       le_sanitize = ad_sanitize ad, le_sha256 = ad_sha256 ad, le_byteLength = ad_byteLength ad \<rparr>"

text \<open>
  \<open>execute\<close>: the checks of the descriptor and the bindings, then the loop; what the loop throws
  becomes a failed result. The journal, the checkpoints and the world come back with it.
\<close>

definition executeDeclarative :: "'w adapter \<Rightarrow> execution_request \<Rightarrow> journal \<Rightarrow> checkpoint_store \<Rightarrow> 'w
    \<Rightarrow> (journal \<times> checkpoint_store \<times> 'w) \<times> execution_result option" where
  "executeDeclarative ad request journal checkpoints w =
     (let refuse = (\<lambda>code msg. ((journal, checkpoints, w), Some (failureResult ad code msg)))
      in if \<not> isDeclarativeAgentRuntime (er_runtime request)
         then refuse ''INVALID_RUNTIME_DESCRIPTOR'' ''Execution request runtime is not DECLARATIVE.''
         else
           let config = js_get (er_runtime request) ''config'';
               allowed = List.map js_string (js_items (js_get config ''allowedToolBindings''))
           in if js_get config ''configVersion'' \<noteq> JString ''1''
              then refuse ''INVALID_RUNTIME_DESCRIPTOR'' ''Unsupported declarative runtime config version.''
              else if js_get (er_modelProfileVersionBindings request)
                  (js_string (js_get config ''modelBinding'')) = JUndefined
              then refuse ''BINDING_MISMATCH'' ''Required model binding is missing from effective bindings.''
              else case find (\<lambda>b. js_get (er_toolVersionBindings request) b = JUndefined) allowed of
                Some binding \<Rightarrow> refuse ''BINDING_MISMATCH''
                  (''Tool binding '' @ quoted binding @ '' is missing from effective bindings.'')
              | None \<Rightarrow>
              case readOutputSchema request of
                None \<Rightarrow> refuse ''INVALID_RUNTIME_DESCRIPTOR''
                  ''Agent output schema is unavailable for validation.''
              | Some outputSchema \<Rightarrow>
              case ad_modelGateway ad request of
                None \<Rightarrow> refuse ''MODEL_PROVIDER_UNAVAILABLE'' ''Model capability is unavailable.''
              | Some generate \<Rightarrow>
                let allowedTools = js_set allowed;
                    (w, definitions) = buildToolDefinitions ad request allowedTools w;
                    env = adapter_env ad request config (js_string (js_get
                        (er_modelProfileVersionBindings request) (js_string (js_get config ''modelBinding''))))
                      generate allowedTools outputSchema definitions;
                    (st, ending) = runDeclarativeExecutionLoop env request journal checkpoints w;
                    left = (lp_journal st, lp_checkpoints st, lp_world st)
                in case ending of
                     Loop_succeeded output \<Rightarrow> (left, Some (Execution_succeeded output))
                   | Loop_failed e \<Rightarrow> (left, Some (Execution_failed e))
                   | Loop_crashed \<Rightarrow> (left, None)
                   | Loop_threw e \<Rightarrow>
                       (left, Some (if ad_aborted ad (lp_world st)
                         then if ad_cancelledByOperator ad (lp_world st)
                              then failureResult ad ''RUNTIME_CANCELLED'' ''Declarative runtime execution was cancelled.''
                              else failureResult ad ''RUNTIME_TIMEOUT'' ''Declarative runtime execution timed out.''
                         else failureResult ad (fst (mapThrownError (ad_sanitize ad) e))
                           (snd (mapThrownError (ad_sanitize ad) e)))))"

subsection \<open>The dispatcher (runtime-dispatcher.ts)\<close>

definition dispatchRuntime :: "(string \<Rightarrow> (execution_request \<Rightarrow> 'w \<Rightarrow> 'w \<times> execution_result) option)
    \<Rightarrow> execution_request \<Rightarrow> 'w \<Rightarrow> 'w \<times> execution_result" where
  "dispatchRuntime executors request w =
     (let runtimeType = js_string (js_get (er_runtime request) ''type'')
      in case executors runtimeType of
           None \<Rightarrow> (w, Execution_failed \<lparr> ee_code = ''UNSUPPORTED_RUNTIME'',
             ee_message = ''No runtime executor is registered for '' @ runtimeType @ ''.'' \<rparr>)
         | Some executor \<Rightarrow> executor request w)"

subsection \<open>Where a success comes from\<close>

definition accepted :: "'w loop_env \<Rightarrow> 's \<times> (loop_end + 'a) \<Rightarrow> bool" where
  "accepted env r \<longleftrightarrow> (\<forall>v. snd r = Inl (Loop_succeeded v) \<longrightarrow>
     canonical_tree v \<and> le_validate env (le_outputSchema env) v)"

lemma accepted_simps [simp]:
  "accepted env (s, Inr x)" "accepted env (s, Inl (Loop_failed e))" "accepted env (s, Inl (Loop_threw f))"
  "accepted env (s, Inl Loop_crashed)" "accepted env (s, Inl (executionFailure env' c m))"
  by (simp_all add: accepted_def executionFailure_def)

lemma accepted_then:
  "accepted env r \<Longrightarrow> (\<And>s y. r = (s, Inr y) \<Longrightarrow> accepted env (f y s)) \<Longrightarrow> accepted env (loop_then r f)"
  by (cases r; cases "snd r") (auto simp: accepted_def)

lemma accepted_basics:
  "accepted env (throwIfCancelled env st)" "accepted env (crashIfRequested env p st)"
  "accepted env (commitDeclarativeCheckpoint env request g owner ph n state key st)"
  by (auto simp: throwIfCancelled_def crashIfRequested_def commitDeclarativeCheckpoint_def Let_def
      split: prod.splits commit_result.splits)

lemma accepted_checkpoint:
  "accepted env (take_checkpoint env request ph l pending st)"
  "accepted env (tool_checkpoint env request pending st)"
proof -
  show t: "accepted env (take_checkpoint env request ph l pending st)" for ph l
    by (auto simp: take_checkpoint_def Let_def accepted_basics split: option.splits)
  show "accepted env (tool_checkpoint env request pending st)"
    unfolding tool_checkpoint_def by (rule accepted_then) (simp_all add: t accepted_basics)
qed

lemma accepted_prepare: "accepted env (prepareToolCall env request call st)"
  unfolding prepareToolCall_def
  by (rule accepted_then) (auto simp: accepted_basics Let_def split: prod.splits option.splits jsv.splits)

lemma accepted_finish: "accepted env (finishToolCall env request call p answer st)"
  by (auto simp: finishToolCall_def Let_def crashIfRequested_def split: prod.splits sum.splits)

lemma accepted_call: "accepted env (executeToolCall env request invoke call st)"
  unfolding executeToolCall_def
  by (auto simp: accepted_prepare Let_def startToolCall_def accepted_basics accepted_finish
      intro!: accepted_then split: journal_decision.splits prod.splits)

lemma accepted_batch: "accepted env (executeToolBatch env request calls st)"
proof -
  have "accepted env (executeToolCalls env request invoke calls st)" for invoke
    by (induction calls arbitrary: st) (auto intro!: accepted_then accepted_call)
  then show ?thesis by (simp add: executeToolBatch_def split: option.splits)
qed

lemma accepted_callTools: "accepted env (callTools env request calls st)"
  by (induction calls arbitrary: st) (auto intro!: accepted_then accepted_batch accepted_checkpoint(2))

lemma accepted_finishLoop: "accepted env (finishLoop env request text st)"
proof -
  have "accepted env (loop_then (take_checkpoint env request After_model ''complete'' None st)
      (\<lambda>_ st. (st, Inl (Loop_succeeded v))))"
    if "canonical_tree v" "le_validate env (le_outputSchema env) v" for v
    by (rule accepted_then [OF accepted_checkpoint(1)]) (simp add: accepted_def that)
  then show ?thesis by (auto simp: finishLoop_def split: option.splits)
qed

lemma accepted_turn: "accepted env (loopTurn env request pending st)"
proof -
  have "accepted env (useCompletion env request completion t)" for completion t
    by (auto simp: useCompletion_def Let_def accepted_finishLoop
        intro!: accepted_then accepted_checkpoint(1) accepted_callTools)
  then have "accepted env (modelTurn env request t)" for t
    by (auto simp: modelTurn_def Let_def split: prod.splits sum.splits)
  then show ?thesis
    unfolding loopTurn_def
    by (auto simp: accepted_basics intro!: accepted_then accepted_batch accepted_checkpoint(2))
qed

lemma runLoop_accepted:
  "runLoop env request pending st = (st', Loop_succeeded v) \<Longrightarrow>
     canonical_tree v \<and> le_validate env (le_outputSchema env) v"
proof (induction env request pending st rule: runLoop.induct)
  case (1 env request pending st)
  obtain t r where t: "loopTurn env request pending st = (t, r)" by (cases "loopTurn env request pending st")
  show ?case
  proof (cases r)
    case (Inl e)
    with 1(2) t accepted_turn [of env request pending st] show ?thesis
      by (simp add: runLoop.simps [of env request pending] accepted_def)
  next
    case (Inr u)
    with 1(2) t have "runLoop env request [] t = (st', Loop_succeeded v)"
      by (simp add: runLoop.simps [of env request pending])
    from 1(1) [OF t [symmetric] _ this] Inr show ?thesis by simp
  qed
qed

lemma runDeclarative_accepted:
  assumes "runDeclarativeExecutionLoop env request j c w = (st', Loop_succeeded v)"
  shows "canonical_tree v \<and> le_validate env (le_outputSchema env) v"
proof -
  have "accepted env (beginLoop env request j c w)"
    by (auto simp: beginLoop_def Let_def intro!: accepted_then accepted_checkpoint(1)
        split: prod.splits sum.splits)
  with assms show ?thesis
    by (auto simp: runDeclarativeExecutionLoop_def accepted_def dest: runLoop_accepted
        split: prod.splits sum.splits)
qed

text \<open>
  C18. A declared output is what succeeds: whenever the adapter answers with a success, the output
  is a JSON value that the agent's declared output schema accepts.
\<close>

theorem succeeded_output_conforms:
  assumes "executeDeclarative ad request journal checkpoints w = (left, Some (Execution_succeeded v))"
  shows "\<exists>schema. readOutputSchema request = Some schema \<and> ad_validate ad schema v \<and> canonical_tree v"
  using assms
  by (auto simp: executeDeclarative_def Let_def failureResult_def adapter_env_def
      dest!: runDeclarative_accepted split: if_splits option.splits prod.splits loop_end.splits)

definition sample_adapter :: "unit adapter" where
  "sample_adapter = \<lparr> ad_modelGateway = (\<lambda>r. Some (\<lambda>q w. (w, Inr \<lparr> co_text = Some ''{}'', co_toolCalls = [] \<rparr>))),
     ad_toolGateway = (\<lambda>r. None), ad_resolveToolMetadata = (\<lambda>i w. (w, None)),
     ad_prefetch = (\<lambda>r w. (w, Inr None)), ad_aborted = (\<lambda>w. False), ad_cancelledByOperator = (\<lambda>w. False),
     ad_crash = (\<lambda>p w. False), ad_now = (\<lambda>w. ''now''), ad_validate = (\<lambda>s v. v = JObject []),
     ad_print = (\<lambda>v. ''{}''), ad_parse = (\<lambda>t. Some (JObject [])), ad_sanitize = (\<lambda>m f. m),
     ad_sha256 = sample_digest, ad_byteLength = sample_bytes \<rparr>"

definition sample_declarative :: execution_request where
  "sample_declarative = \<lparr> er_runId = ''r'', er_runAttemptId = ''a'', er_workspaceId = ''w'', er_agentId = ''g'',
     er_agentVersionId = ''v'', er_runtime = JObject [(''type'', JString ''DECLARATIVE''),
       (''config'', JObject [(''configVersion'', JString ''1''), (''instructions'', JString ''do''),
         (''modelBinding'', JString ''m''), (''allowedToolBindings'', JArray []),
         (''maxModelInvocations'', JNumber (Finite 2)), (''maxToolInvocations'', JNumber (Finite 0))])],
     er_input = JNull, er_effectiveConfig = JObject [(''agentOutputSchema'', JObject [])],
     er_modelProfileVersionBindings = JObject [(''m'', JString ''mv'')], er_toolVersionBindings = JObject [],
     er_memoryNamespaceBindings = JObject [], er_knowledgeIndexBindings = JObject [], er_toolGrants = [],
     er_timeoutMs = JNumber (Finite 1000), er_policyContext = JObject [], er_evaluationContext = None,
     er_restrictPersistentMemory = None, er_checkpoint = None, er_executionOwnership = None,
     er_operationJournal = False \<rparr>"

definition sample_env :: "unit loop_env" where
  "sample_env = adapter_env sample_adapter sample_declarative
     (js_get (er_runtime sample_declarative) ''config'') ''mv''
     (\<lambda>q w. (w, Inr \<lparr> co_text = Some ''{}'', co_toolCalls = [] \<rparr>)) [] (JObject []) []"

definition sample_begun :: "unit loop_state" where
  "sample_begun = fst (beginLoop sample_env sample_declarative [] empty_checkpoint_store ())"

lemma sample_loop:
  "beginLoop sample_env sample_declarative [] empty_checkpoint_store () = (sample_begun, Inr [])"
  "snd (loopTurn sample_env sample_declarative [] sample_begun) = Inl (Loop_succeeded (JObject []))"
  by code_simp+

lemma sample_loop_ends:
  "\<exists>st. runDeclarativeExecutionLoop sample_env sample_declarative [] empty_checkpoint_store ()
     = (st, Loop_succeeded (JObject []))"
  using sample_loop
  by (cases "loopTurn sample_env sample_declarative [] sample_begun")
    (simp add: runDeclarativeExecutionLoop_def runLoop.simps [of _ _ _ sample_begun])

lemma sample_checks:
  "isDeclarativeAgentRuntime (er_runtime sample_declarative)"
  "js_get (js_get (er_runtime sample_declarative) ''config'') ''configVersion'' = JString ''1''"
  "js_get (er_modelProfileVersionBindings sample_declarative)
     (js_string (js_get (js_get (er_runtime sample_declarative) ''config'') ''modelBinding'')) = JString ''mv''"
  "js_string (JString ''mv'') = ''mv''"
  "js_items (js_get (js_get (er_runtime sample_declarative) ''config'') ''allowedToolBindings'') = []"
  "readOutputSchema sample_declarative = Some (JObject [])" "js_set [] = []"
  by (simp_all add: sample_declarative_def readOutputSchema_def js_set_def
      isDeclarativeAgentRuntime_def js_get_def)

lemma sample_execution:
  "\<exists>left. executeDeclarative sample_adapter sample_declarative [] empty_checkpoint_store ()
     = (left, Some (Execution_succeeded (JObject [])))"
proof -
  have "ad_modelGateway sample_adapter sample_declarative
      = Some (\<lambda>q w. (w, Inr \<lparr> co_text = Some ''{}'', co_toolCalls = [] \<rparr>))"
    by (simp add: sample_adapter_def)
  with sample_loop_ends show ?thesis
    by (auto simp: executeDeclarative_def Let_def sample_checks sample_env_def)
qed

theorem succeeded_output_conforms_witness:
  "ad_validate sample_adapter (JObject []) (JObject []) \<and> canonical_tree (JObject [])"
  using sample_execution succeeded_output_conforms [of sample_adapter sample_declarative]
  by (fastforce simp: sample_adapter_def sample_checks)

end
