(* ===== verification/Run_Execution.thy ===== *)
theory Run_Execution
  imports Run_Store_Facts Declarative_Adapter
begin

text \<open>
  Creating a run and executing one attempt of it: \<open>orchestration/src/create-run.ts\<close> and
  \<open>orchestration/src/execute-run-attempt.ts\<close> over the stores of the memory adapter, with its job
  queue (\<open>adapters/memory/src/memory-job-queue.ts\<close>). The handler of an attempt awaits several
  store operations and the runtime; its phases are separate definitions, so that other handlers
  can act between them. Telemetry has no effect on the stores and is left out.
\<close>

subsection \<open>The job queue (memory-job-queue.ts)\<close>

record job_queue =
  jq_pending :: "string list"
  jq_closed :: bool

definition empty_queue :: job_queue where
  "empty_queue = \<lparr> jq_pending = [], jq_closed = False \<rparr>"

datatype enqueue_outcome = Enqueued | Already_present

definition enqueue :: "string \<Rightarrow> job_queue \<Rightarrow> job_queue \<times> (osva_error + enqueue_outcome)" where
  "enqueue runAttemptId q =
     (if jq_closed q then (q, Inl (JobQueueShutdownError ''enqueue''))
      else if runAttemptId \<in> set (jq_pending q) then (q, Inr Already_present)
      else (q\<lparr> jq_pending := jq_pending q @ [runAttemptId] \<rparr>, Inr Enqueued))"

definition cancel_job :: "string \<Rightarrow> job_queue \<Rightarrow> job_queue" where
  "cancel_job runAttemptId q =
     (if jq_closed q then q else q\<lparr> jq_pending := filter (\<lambda>i. i \<noteq> runAttemptId) (jq_pending q) \<rparr>)"

text \<open>
  \<open>consume\<close> takes the whole queue and hands the jobs to the handler one by one; the handler may
  change the queue. When it throws, its job and the rest go back to the front.
\<close>

fun consume_batch :: "(string \<Rightarrow> job_queue \<times> 'w \<Rightarrow> (job_queue \<times> 'w) \<times> osva_error option)
    \<Rightarrow> string list \<Rightarrow> job_queue \<times> 'w \<Rightarrow> (job_queue \<times> 'w) \<times> osva_error option" where
  "consume_batch handler [] qw = (qw, None)"
| "consume_batch handler (i # is) qw =
     (case handler i qw of
        (qw', None) \<Rightarrow> consume_batch handler is qw'
      | ((q, w), Some e) \<Rightarrow> ((q\<lparr> jq_pending := (i # is) @ jq_pending q \<rparr>, w), Some e))"

definition consume :: "(string \<Rightarrow> job_queue \<times> 'w \<Rightarrow> (job_queue \<times> 'w) \<times> osva_error option)
    \<Rightarrow> job_queue \<times> 'w \<Rightarrow> (job_queue \<times> 'w) \<times> osva_error option" where
  "consume handler qw =
     (if jq_closed (fst qw) then (qw, Some (JobQueueShutdownError ''consume''))
      else consume_batch handler (jq_pending (fst qw)) ((fst qw)\<lparr> jq_pending := [] \<rparr>, snd qw))"

definition shutdown_queue :: "job_queue \<Rightarrow> job_queue" where
  "shutdown_queue q = q\<lparr> jq_closed := True \<rparr>"

subsection \<open>The stores a handler works on\<close>

text \<open>
  The stores, the clock the run repository reads, and the rest of the world, which only the
  runtime touches.
\<close>

record 'w platform =
  pf_runs :: run_store
  pf_agents :: agent_store
  pf_queue :: job_queue
  pf_checkpoints :: checkpoint_store
  pf_journal :: journal
  pf_clock :: js_date
  pf_world :: 'w

subsection \<open>Creating a run (create-run.ts)\<close>

record create_run_command =
  crc_runId :: string
  crc_runAttemptId :: string
  crc_workspaceId :: string
  crc_agentId :: string
  crc_agentVersionId :: string
  crc_input :: jsv
  crc_idempotencyKey :: "string option"
  crc_evaluationRunId :: "string option"
  crc_evaluationCaseId :: "string option"
  crc_restrictPersistentMemory :: "bool option"
  crc_now :: js_date

definition assertAgentOwnership :: "agent_store \<Rightarrow> create_run_command \<Rightarrow> osva_error + agent_version" where
  "assertAgentOwnership agents c =
     (case findAgentByWorkspaceAndId agents (crc_workspaceId c) (crc_agentId c) of
        None \<Rightarrow> Inl (AgentNotFoundError (crc_agentId c))
      | Some agent \<Rightarrow>
      case findAgentVersionById agents (crc_agentVersionId c) of
        None \<Rightarrow> Inl (AgentVersionNotFoundError (''AgentVersion '' @ crc_agentVersionId c @ '' was not found.''))
      | Some v \<Rightarrow>
          if av_agentId v \<noteq> crc_agentId c
          then Inl (BindingMismatchError (''AgentVersion '' @ av_id v @ '' belongs to Agent ''
            @ av_agentId v @ '', not '' @ crc_agentId c @ ''.''))
          else if av_id v \<noteq> crc_agentVersionId c
          then Inl (BindingMismatchError (''Effective bindings require AgentVersion '' @ crc_agentVersionId c
            @ '', but loaded AgentVersion is '' @ av_id v @ ''.''))
          else Inr v)"

definition resolveEffectiveBindings :: "agent_version \<Rightarrow> osva_error + run_bindings" where
  "resolveEffectiveBindings v =
     EffectiveRunBindings_create (av_id v) (modelProfileVersionBindingsFromManifest (av_manifest v))
       (toolVersionBindingsFromManifest (av_manifest v)) (memoryNamespaceBindingsFromManifest (av_manifest v))
       (knowledgeIndexBindingsFromManifest (av_manifest v))"

definition new_run :: "create_run_command \<Rightarrow> run_bindings \<Rightarrow> osva_error + run" where
  "new_run c bindings = Run_create
     \<lparr> rc_id = crc_runId c, rc_workspaceId = crc_workspaceId c, rc_agentId = crc_agentId c,
       rc_effectiveBindings = bindings, rc_input = crc_input c, rc_createdAt = crc_now c,
       rc_idempotencyKey = crc_idempotencyKey c, rc_evaluationRunId = crc_evaluationRunId c,
       rc_evaluationCaseId = crc_evaluationCaseId c,
       rc_restrictPersistentMemory = Some (crc_evaluationRunId c = None \<and> crc_evaluationCaseId c = None
         \<and> crc_restrictPersistentMemory c = Some True),
       rc_recoveryMetadata = None \<rparr>"

text \<open>
  The two writes of the run store: the pending run with its attempt, then the run queued. The
  queue comes last; when it refuses, the stored run and attempt stay.
\<close>

definition queue_created :: "run \<Rightarrow> js_date \<Rightarrow> run_store \<Rightarrow> run store_result" where
  "queue_created pending now s =
     op_lift (Run_transitionTo pending Run_QUEUED now) (\<lambda>queued s.
       op_then (transitionRun Run_PENDING queued s) (\<lambda>persisted s. (s, Inr queued))) s"

definition createRun :: "create_run_command \<Rightarrow> 'w platform \<Rightarrow> 'w platform \<times> (osva_error + run \<times> run_attempt)" where
  "createRun c p =
     (case and_then (assertAgentOwnership (pf_agents p) c) (\<lambda>v.
           and_then (resolveEffectiveBindings v) (\<lambda>bindings.
           and_then (new_run c bindings) (\<lambda>pending.
           and_then (RunAttempt_createFirst (crc_runAttemptId c) (r_id pending) (crc_now c) None) (\<lambda>attempt.
             Inr (pending, attempt))))) of
        Inl e \<Rightarrow> (p, Inl e)
      | Inr (pending, attempt) \<Rightarrow>
          (case op_then (createRunWithInitialAttempt pending attempt (pf_runs p))
              (\<lambda>_. queue_created pending (crc_now c)) of
             (s, Inl e) \<Rightarrow> (p\<lparr> pf_runs := s \<rparr>, Inl e)
           | (s, Inr queued) \<Rightarrow>
               (case enqueue (a_id attempt) (pf_queue p) of
                  (q, Inl e) \<Rightarrow> (p\<lparr> pf_runs := s, pf_queue := q \<rparr>, Inl (EnqueueFailedError (r_id queued) (a_id attempt)))
                | (q, Inr outcome) \<Rightarrow> (p\<lparr> pf_runs := s, pf_queue := q \<rparr>, Inr (queued, attempt)))))"

subsection \<open>Executing an attempt (execute-run-attempt.ts)\<close>

record exec_config =
  xc_executionOwner :: string
  xc_leaseTtlMs :: int
  xc_checkpoints :: bool
  xc_operationJournal :: bool
  xc_sha256 :: "json_token list \<Rightarrow> string"
  xc_byteLength :: "json_token list \<Rightarrow> int"

text \<open>The constructor: an owner that is absent or blank and a missing time to live get defaults.\<close>

definition make_exec_config :: "string option \<Rightarrow> int option \<Rightarrow> bool \<Rightarrow> bool
    \<Rightarrow> (json_token list \<Rightarrow> string) \<Rightarrow> (json_token list \<Rightarrow> int) \<Rightarrow> exec_config" where
  "make_exec_config executionOwner leaseTtlMs checkpoints operationJournal sha256 byteLength =
     \<lparr> xc_executionOwner = (case executionOwner of None \<Rightarrow> ''execution-worker''
         | Some s \<Rightarrow> if js_trim s = '''' then ''execution-worker'' else js_trim s),
       xc_leaseTtlMs = (case leaseTtlMs of None \<Rightarrow> 30000 | Some n \<Rightarrow> n),
       xc_checkpoints = checkpoints, xc_operationJournal = operationJournal,
       xc_sha256 = sha256, xc_byteLength = byteLength \<rparr>"

datatype execute_outcome =
    Exec_succeeded jsv run run_attempt
  | Exec_failed run_attempt_error run run_attempt
  | Exec_already_terminal run run_attempt
  | Exec_already_in_progress run run_attempt
  | Exec_ownership_lost run run_attempt

fun run_state_of_terminal :: "run_attempt_state \<Rightarrow> run_state" where
  "run_state_of_terminal Att_SUCCEEDED = Run_SUCCEEDED"
| "run_state_of_terminal Att_FAILED = Run_FAILED"
| "run_state_of_terminal Att_TIMED_OUT = Run_TIMED_OUT"
| "run_state_of_terminal Att_CANCELLED = Run_CANCELLED"
| "run_state_of_terminal Att_PENDING = Run_PENDING"
| "run_state_of_terminal Att_RUNNING = Run_RUNNING"

definition invalid_state :: "string \<Rightarrow> string \<Rightarrow> osva_error" where
  "invalid_state attemptId what = InvalidPersistedStateError (''RunAttempt '' @ attemptId @ '' is '' @ what)"

text \<open>
  What a delivered job finds: an error, an answer without execution, or a run, an attempt and an
  agent version to execute.
\<close>

definition loadExecution :: "run_store \<Rightarrow> agent_store \<Rightarrow> string
    \<Rightarrow> osva_error + (execute_outcome + run \<times> run_attempt \<times> agent_version)" where
  "loadExecution s agents runAttemptId =
     (case findRunAttemptById s runAttemptId of
        None \<Rightarrow> Inl (RunAttemptNotFoundError runAttemptId)
      | Some attempt \<Rightarrow>
      case findRunById s (a_runId attempt) of
        None \<Rightarrow> Inl (RunNotFoundError (a_runId attempt))
      | Some run \<Rightarrow>
          if a_runId attempt \<noteq> r_id run
          then Inl (IdentityMismatchError (''RunAttempt '' @ a_id attempt @ '' references Run ''
            @ a_runId attempt @ '', but loaded Run is '' @ r_id run @ ''.''))
          else if isTerminalRunAttemptState (a_status attempt)
          then (if r_status run \<noteq> run_state_of_terminal (a_status attempt)
                then Inl (invalid_state (a_id attempt) (run_attempt_state_name (a_status attempt) @ '' while Run ''
                  @ r_id run @ '' is '' @ run_state_name (r_status run) @ '', expected ''
                  @ run_state_name (run_state_of_terminal (a_status attempt)) @ ''.''))
                else Inr (Inl (Exec_already_terminal run attempt)))
          else if a_status attempt = Att_RUNNING
          then (if r_status run \<noteq> Run_RUNNING
                then Inl (invalid_state (a_id attempt) (''RUNNING while Run '' @ r_id run @ '' is ''
                  @ run_state_name (r_status run) @ ''.''))
                else Inr (Inl (Exec_already_in_progress run attempt)))
          else if a_status attempt \<noteq> Att_PENDING
          then Inl (invalid_state (a_id attempt) (run_attempt_state_name (a_status attempt)
            @ '' and cannot be executed.''))
          else if r_status run \<noteq> Run_QUEUED
          then Inl (invalid_state (a_id attempt) (''PENDING while Run '' @ r_id run @ '' is ''
            @ run_state_name (r_status run) @ '', expected QUEUED.''))
          else
            let agentVersionId = rb_agentVersionId (r_effectiveBindings run)
            in case findAgentVersionById agents agentVersionId of
                 None \<Rightarrow> Inl (AgentVersionNotFoundError (''AgentVersion '' @ agentVersionId
                   @ '' was not found for Run '' @ r_id run @ ''.''))
               | Some v \<Rightarrow>
                   if av_id v \<noteq> agentVersionId
                   then Inl (BindingMismatchError (''Run '' @ r_id run @ '' is bound to AgentVersion ''
                     @ agentVersionId @ '', but loaded AgentVersion is '' @ av_id v @ ''.''))
                   else if av_agentId v \<noteq> r_agentId run
                   then Inl (BindingMismatchError (''Run '' @ r_id run @ '' belongs to Agent '' @ r_agentId run
                     @ '', but bound AgentVersion '' @ av_id v @ '' belongs to Agent '' @ av_agentId v @ ''.''))
                   else Inr (Inr (run, attempt, v)))"

text \<open>
  Acquiring the lease: the compare-and-set from PENDING to RUNNING. Who loses it looks at the
  attempt again and answers for its state.
\<close>

definition leaseConflict :: "run_store \<Rightarrow> string \<Rightarrow> osva_error \<Rightarrow> osva_error + execute_outcome" where
  "leaseConflict s attemptId e =
     (if \<not> is_LifecycleConflictError e then Inl e
      else case findRunAttemptById s attemptId of
        None \<Rightarrow> Inl e
      | Some latestAttempt \<Rightarrow>
      case findRunById s (a_runId latestAttempt) of
        None \<Rightarrow> Inl e
      | Some latestRun \<Rightarrow>
          if isTerminalRunAttemptState (a_status latestAttempt)
          then Inr (Exec_already_terminal latestRun latestAttempt)
          else if a_status latestAttempt = Att_RUNNING
          then Inr (Exec_already_in_progress latestRun latestAttempt)
          else Inl e)"

definition leased_attempt :: "exec_config \<Rightarrow> js_date \<Rightarrow> run_attempt \<Rightarrow> osva_error + run_attempt" where
  "leased_attempt cfg now attempt =
     and_then (RunAttempt_transitionTo attempt Att_RUNNING now no_options) (\<lambda>running.
       RunAttempt_withExecutionLease running \<lparr> el_owner = xc_executionOwner cfg, el_generation = 1,
         el_expiresAt = date_plus now (xc_leaseTtlMs cfg) \<rparr>)"

definition acquireRunningLease :: "exec_config \<Rightarrow> js_date \<Rightarrow> js_date \<Rightarrow> run \<Rightarrow> run_attempt
    \<Rightarrow> run_store \<Rightarrow> (execute_outcome + run \<times> run_attempt) store_result" where
  "acquireRunningLease cfg clock now run attempt s =
     op_lift (leased_attempt cfg now attempt) (\<lambda>runningAttempt.
     op_lift (Run_transitionTo run Run_RUNNING now) (\<lambda>runningRun s.
       case transitionRunAndAttempt clock (r_status run) runningRun (a_status attempt) runningAttempt
           (Some (xc_leaseTtlMs cfg)) s of
         (s', Inr acquired) \<Rightarrow> (s', Inr (Inr acquired))
       | (s', Inl e) \<Rightarrow> (s', case leaseConflict s' (a_id attempt) e of
             Inl e' \<Rightarrow> Inl e' | Inr outcome \<Rightarrow> Inr (Inl outcome)))) s"

subsubsection \<open>The request of an attempt\<close>

definition checkpointing_manifest :: "jsv \<Rightarrow> bool" where
  "checkpointing_manifest manifest \<longleftrightarrow> isDeclarativeAgentRuntime (js_get manifest ''runtime'')
     \<and> js_get (js_get (js_get manifest ''runtime'') ''config'') ''checkpointingEnabled'' = JBool True"

definition buildCheckpointBinding :: "exec_config \<Rightarrow> run \<Rightarrow> run_attempt \<Rightarrow> agent_version
    \<Rightarrow> checkpoint_store \<Rightarrow> osva_error + jsv option option" where
  "buildCheckpointBinding cfg run attempt v checkpoints =
     (if \<not> xc_checkpoints cfg then Inr None
      else if \<not> checkpointing_manifest (av_manifest v) then Inr None
      else case findLatestByRun checkpoints (r_workspaceId run) (r_id run) of
        None \<Rightarrow> Inr (Some None)
      | Some latest \<Rightarrow>
          let restore = and_then (assertCheckpointStateIntegrity (xc_sha256 cfg) (xc_byteLength cfg)
                (ck_state latest) (ck_payloadDigest latest)) (\<lambda>state. Inr (Some (Some state)))
          in if ck_runAttemptId latest = a_id attempt then restore
             else after_check (assertCheckpointCompatible (xc_sha256 cfg)
                 \<lparr> bi_agentVersionId = rb_agentVersionId (r_effectiveBindings run),
                   bi_modelProfileVersionBindings = rb_modelProfileVersionBindings (r_effectiveBindings run),
                   bi_toolVersionBindings = rb_toolVersionBindings (r_effectiveBindings run) \<rparr>
                 (ck_bindingDigest latest) (bi_agentVersionId (ck_bindingIdentity latest))
                 (ck_envelopeVersion latest) (ck_stateSchemaVersion latest)) restore)"

definition buildOperationJournalPort :: "exec_config \<Rightarrow> agent_version \<Rightarrow> bool" where
  "buildOperationJournalPort cfg v \<longleftrightarrow> xc_operationJournal cfg \<and> checkpointing_manifest (av_manifest v)"

definition executionRequest :: "exec_config \<Rightarrow> run \<Rightarrow> run_attempt \<Rightarrow> agent_version
    \<Rightarrow> checkpoint_store \<Rightarrow> osva_error + execution_request" where
  "executionRequest cfg run attempt v checkpoints =
     and_then (buildCheckpointBinding cfg run attempt v checkpoints) (\<lambda>checkpoint.
       createExecutionRequest run attempt v checkpoint
         (Some (xc_executionOwner cfg, a_executionGeneration attempt)) (buildOperationJournalPort cfg v))"

subsubsection \<open>The outcome\<close>

definition sanitizeErrorCode :: "string \<Rightarrow> string \<Rightarrow> string" where
  "sanitizeErrorCode value fallback = (if js_trim value = '''' then fallback else take 128 (js_trim value))"

definition sanitizeErrorMessage :: "string \<Rightarrow> string \<Rightarrow> string" where
  "sanitizeErrorMessage value fallback = (if js_trim value = '''' then fallback else take 500 (js_trim value))"

definition snapshotExecutionError :: "execution_error \<Rightarrow> run_attempt_error" where
  "snapshotExecutionError e = \<lparr> re_code = sanitizeErrorCode (ee_code e) ''EXECUTION_FAILED'',
     re_message = sanitizeErrorMessage (ee_message e) ''Execution failed.'' \<rparr>"

text \<open>The argument is the message of a thrown \<open>Error\<close>; other thrown values have none.\<close>

definition snapshotThrownError :: "string option \<Rightarrow> run_attempt_error" where
  "snapshotThrownError e = \<lparr> re_code = ''RUNTIME_ADAPTER_ERROR'',
     re_message = (case e of Some m \<Rightarrow> sanitizeErrorMessage m ''Runtime adapter failed.''
       | None \<Rightarrow> ''Runtime adapter failed.'') \<rparr>"

definition loadOwnershipLost :: "run_store \<Rightarrow> string \<Rightarrow> string \<Rightarrow> osva_error + execute_outcome" where
  "loadOwnershipLost s runId runAttemptId =
     (case findRunAttemptById s runAttemptId of
        None \<Rightarrow> Inl (RunAttemptNotFoundError runAttemptId)
      | Some attempt \<Rightarrow>
      case findRunById s runId of
        None \<Rightarrow> Inl (RunAttemptNotFoundError runAttemptId)
      | Some run \<Rightarrow> Inr (Exec_ownership_lost run attempt))"

definition persistTerminal :: "js_date \<Rightarrow> run \<Rightarrow> run_attempt \<Rightarrow> run \<Rightarrow> run_attempt
    \<Rightarrow> (run \<Rightarrow> run_attempt \<Rightarrow> execute_outcome) \<Rightarrow> run_store \<Rightarrow> execute_outcome store_result" where
  "persistTerminal clock expectedRun expectedAttempt nextRun nextAttempt success s =
     (case transitionRunAndAttempt clock (r_status expectedRun) nextRun (a_status expectedAttempt)
         nextAttempt None s of
        (s', Inr (run, attempt)) \<Rightarrow> (s', Inr (success run attempt))
      | (s', Inl e) \<Rightarrow>
          (s', if is_LifecycleConflictError e then loadOwnershipLost s' (r_id expectedRun) (a_id expectedAttempt)
               else Inl e))"

text \<open>
  The result of \<open>persistTerminal\<close> is a failed or an ownership-lost outcome, so the last line of
  the source's \<open>persistFailure\<close>, which loads the ownership again, is never reached.
\<close>

definition persistFailure :: "js_date \<Rightarrow> js_date \<Rightarrow> run \<Rightarrow> run_attempt \<Rightarrow> run_attempt_error
    \<Rightarrow> run_store \<Rightarrow> execute_outcome store_result" where
  "persistFailure clock now run attempt e =
     op_lift (RunAttempt_transitionTo attempt Att_FAILED now (no_options\<lparr> o_error := Some e \<rparr>)) (\<lambda>failedAttempt.
     op_lift (Run_transitionTo run Run_FAILED now) (\<lambda>failedRun.
       persistTerminal clock run attempt failedRun failedAttempt (Exec_failed e)))"

text \<open>How the runtime ends: with a result, or by throwing.\<close>

datatype runtime_end = Runtime_returned execution_result | Runtime_threw "string option"

definition finishExecution :: "js_date \<Rightarrow> js_date \<Rightarrow> run \<Rightarrow> run_attempt \<Rightarrow> runtime_end \<Rightarrow> bool
    \<Rightarrow> run_store \<Rightarrow> execute_outcome store_result" where
  "finishExecution clock now run attempt ending ownershipLost s =
     (if ownershipLost then (s, loadOwnershipLost s (r_id run) (a_id attempt))
      else case ending of
        Runtime_threw m \<Rightarrow> persistFailure clock now run attempt (snapshotThrownError m) s
      | Runtime_returned (Execution_failed e) \<Rightarrow>
          persistFailure clock now run attempt (snapshotExecutionError e) s
      | Runtime_returned (Execution_succeeded v) \<Rightarrow>
          (case RunAttempt_transitionTo attempt Att_SUCCEEDED now (no_options\<lparr> o_output := v \<rparr>) of
             Inl e \<Rightarrow>
               if is_DomainInvariantError e
               then persistFailure clock now run attempt \<lparr> re_code = ''INVALID_RUNTIME_OUTPUT'',
                 re_message = ''Runtime output must be JSON-compatible.'' \<rparr> s
               else (s, Inl e)
           | Inr succeededAttempt \<Rightarrow>
               op_lift (Run_transitionTo run Run_SUCCEEDED now) (\<lambda>succeededRun.
                 persistTerminal clock run attempt succeededRun succeededAttempt (Exec_succeeded v)) s))"

text \<open>
  The handler as one worker sees it. What happens while the runtime runs, the runtime's own work,
  the heartbeat and every other handler, is the argument \<open>during\<close>; it also says how the runtime
  ended, None when the process died with it, and whether a heartbeat found the lease lost.
\<close>

definition executeRunAttempt :: "exec_config
    \<Rightarrow> (execution_request \<Rightarrow> 'w platform \<Rightarrow> 'w platform \<times> runtime_end option \<times> bool)
    \<Rightarrow> string \<Rightarrow> js_date \<Rightarrow> 'w platform \<Rightarrow> 'w platform \<times> (osva_error + execute_outcome) option" where
  "executeRunAttempt cfg during runAttemptId now p =
     (case loadExecution (pf_runs p) (pf_agents p) runAttemptId of
        Inl e \<Rightarrow> (p, Some (Inl e))
      | Inr (Inl outcome) \<Rightarrow> (p, Some (Inr outcome))
      | Inr (Inr (run, attempt, v)) \<Rightarrow>
          (case acquireRunningLease cfg (pf_clock p) now run attempt (pf_runs p) of
             (s, Inl e) \<Rightarrow> (p\<lparr> pf_runs := s \<rparr>, Some (Inl e))
           | (s, Inr (Inl outcome)) \<Rightarrow> (p\<lparr> pf_runs := s \<rparr>, Some (Inr outcome))
           | (s, Inr (Inr (runningRun, runningAttempt))) \<Rightarrow>
               (case executionRequest cfg runningRun runningAttempt v (pf_checkpoints p) of
                  Inl e \<Rightarrow> (p\<lparr> pf_runs := s \<rparr>, Some (Inl e))
                | Inr request \<Rightarrow>
                    (case during request (p\<lparr> pf_runs := s \<rparr>) of
                       (p', None, lost) \<Rightarrow> (p', None)
                     | (p', Some ending, lost) \<Rightarrow>
                         (case finishExecution (pf_clock p') now runningRun runningAttempt ending lost (pf_runs p') of
                            (s', r) \<Rightarrow> (p'\<lparr> pf_runs := s' \<rparr>, Some r))))))"

end
