(* ===== verification/Schedule.thy ===== *)
theory Schedule
  imports Js_Value
begin

text \<open>
  Schedules and their occurrences: \<open>domain/src/schedule.ts\<close>, \<open>schedule-occurrence.ts\<close>,
  \<open>schedule-cron.ts\<close>, the repository of the memory adapter
  (\<open>adapters/memory/src/memory-schedule-repository.ts\<close>) and the materialization of the
  PostgreSQL one (\<open>packages/db/src/repositories/postgres-schedule-repository.ts\<close>). A cron
  expression is read by a library and a time zone by the platform; both are parameters.
\<close>

subsection \<open>Cron expressions (schedule-cron.ts)\<close>

text \<open>
  What the code asks of the cron library and of \<open>Intl\<close>: whether an expression is accepted, whether a
  time zone is known, and the next instant after a given one, which may throw. \<open>localeCompare\<close>
  orders identifiers by a key.
\<close>

record cron =
  cr_accepts :: "string \<Rightarrow> bool"
  cr_zone :: "string \<Rightarrow> bool"
  cr_next :: "string \<Rightarrow> string \<Rightarrow> js_date \<Rightarrow> osva_error + js_date"
  cr_collate :: "string \<Rightarrow> string"

text \<open>The length of \<open>trimmed.split(/\s+/)\<close> for a text that neither starts nor ends with a space.\<close>

definition field_count :: "string \<Rightarrow> nat" where
  "field_count s = length (filter (\<lambda>(p, c). js_space p \<and> \<not> js_space c) (zip (CHR '' '' # s) s))"

definition assertValidFiveFieldCronExpression :: "cron \<Rightarrow> string \<Rightarrow> osva_error + string" where
  "assertValidFiveFieldCronExpression cr expression =
     (let trimmed = js_trim expression
      in if trimmed = '''' then Inl (DomainInvariantError ''Schedule.cronExpression is required.'')
         else if field_count trimmed \<noteq> 5
         then Inl (DomainInvariantError
           ''Schedule.cronExpression must use five fields: minute hour day-of-month month day-of-week.'')
         else if \<not> cr_accepts cr trimmed
         then Inl (DomainInvariantError ''Schedule.cronExpression is invalid.'')
         else Inr trimmed)"

definition assertValidIanaTimezone :: "cron \<Rightarrow> string \<Rightarrow> osva_error + string" where
  "assertValidIanaTimezone cr timezone =
     (let trimmed = js_trim timezone
      in if trimmed = '''' then Inl (DomainInvariantError ''Schedule.timezone is required.'')
         else if \<not> cr_zone cr trimmed
         then Inl (DomainInvariantError ''Schedule.timezone must be a valid IANA name.'')
         else Inr trimmed)"

definition nextCronInstantAfter :: "cron \<Rightarrow> string \<Rightarrow> string \<Rightarrow> js_date \<Rightarrow> osva_error + js_date" where
  "nextCronInstantAfter cr cronExpression timezone after = cr_next cr cronExpression timezone after"

subsection \<open>Schedules (schedule.ts)\<close>

record schedule =
  sc_id :: string
  sc_workspaceId :: string
  sc_key :: string
  sc_name :: string
  sc_agentId :: string
  sc_agentVersionId :: string
  sc_cronExpression :: string
  sc_timezone :: string
  sc_input :: jsv
  sc_enabled :: bool
  sc_nextRunAt :: "js_date option"
  sc_createdAt :: js_date
  sc_updatedAt :: js_date

record schedule_create_props =
  scc_id :: string
  scc_workspaceId :: string
  scc_key :: string
  scc_name :: string
  scc_agentId :: string
  scc_agentVersionId :: string
  scc_cronExpression :: string
  scc_timezone :: string
  scc_input :: jsv
  scc_enabled :: bool
  scc_now :: js_date

definition Schedule_create :: "cron \<Rightarrow> schedule_create_props \<Rightarrow> osva_error + schedule" where
  "Schedule_create cr p =
     (if scc_id p = '''' then Inl (DomainInvariantError ''Schedule.id is required.'')
      else if scc_workspaceId p = '''' then Inl (DomainInvariantError ''Schedule.workspaceId is required.'')
      else if scc_agentId p = '''' then Inl (DomainInvariantError ''Schedule.agentId is required.'')
      else if scc_agentVersionId p = '''' then Inl (DomainInvariantError ''Schedule.agentVersionId is required.'')
      else
        and_then (assertValidFiveFieldCronExpression cr (scc_cronExpression p)) (\<lambda>cronExpression.
        and_then (assertValidIanaTimezone cr (scc_timezone p)) (\<lambda>timezone.
        and_then (copyCanonicalJsonValue (scc_input p) ''Schedule.input'') (\<lambda>input.
        and_then (copyInstant (scc_now p)) (\<lambda>now.
        and_then (if scc_enabled p then and_then (nextCronInstantAfter cr cronExpression timezone now) (\<lambda>t. Inr (Some t))
                  else Inr None) (\<lambda>nextRunAt.
        and_then (requireNonEmptyString (scc_key p) ''Schedule.key'') (\<lambda>key.
        and_then (requireNonEmptyString (scc_name p) ''Schedule.name'') (\<lambda>name.
          Inr \<lparr> sc_id = scc_id p, sc_workspaceId = scc_workspaceId p, sc_key = key, sc_name = name,
            sc_agentId = scc_agentId p, sc_agentVersionId = scc_agentVersionId p,
            sc_cronExpression = cronExpression, sc_timezone = timezone, sc_input = input,
            sc_enabled = scc_enabled p, sc_nextRunAt = nextRunAt, sc_createdAt = now, sc_updatedAt = now \<rparr>))))))))"

definition Schedule_rehydrate :: "schedule \<Rightarrow> osva_error + schedule" where
  "Schedule_rehydrate p =
     (if \<not> canonical_tree (sc_input p) then Inl (DomainInvariantError ''Schedule.input must be JSON-compatible.'')
      else
        and_then (copyOptInstant (sc_nextRunAt p)) (\<lambda>nextRunAt.
        and_then (copyInstant (sc_createdAt p)) (\<lambda>createdAt.
        and_then (copyInstant (sc_updatedAt p)) (\<lambda>updatedAt.
          Inr (p\<lparr> sc_nextRunAt := nextRunAt, sc_createdAt := createdAt, sc_updatedAt := updatedAt \<rparr>)))))"

record schedule_update_props =
  scu_name :: "string option"
  scu_agentVersionId :: "string option"
  scu_cronExpression :: "string option"
  scu_timezone :: "string option"
  scu_input :: "jsv option"
  scu_enabled :: "bool option"
  scu_now :: js_date

text \<open>A new instant is computed when the schedule is enabled anew or its times change; else the old one stays.\<close>

definition updated_next_run :: "cron \<Rightarrow> schedule \<Rightarrow> schedule_update_props \<Rightarrow> string \<Rightarrow> string \<Rightarrow> bool \<Rightarrow> js_date
    \<Rightarrow> osva_error + js_date option" where
  "updated_next_run cr s p cronExpression timezone enabled now =
     (if \<not> enabled then Inr None
      else if scu_enabled p = Some True \<or> scu_cronExpression p \<noteq> None \<or> scu_timezone p \<noteq> None
      then and_then (nextCronInstantAfter cr cronExpression timezone now) (\<lambda>t. Inr (Some t))
      else copyOptInstant (sc_nextRunAt s))"

definition Schedule_update :: "cron \<Rightarrow> schedule \<Rightarrow> schedule_update_props \<Rightarrow> osva_error + schedule" where
  "Schedule_update cr s p =
     and_then (case scu_name p of None \<Rightarrow> Inr (sc_name s) | Some n \<Rightarrow> requireNonEmptyString n ''Schedule.name'') (\<lambda>name.
     and_then (case scu_cronExpression p of None \<Rightarrow> Inr (sc_cronExpression s)
               | Some c \<Rightarrow> assertValidFiveFieldCronExpression cr c) (\<lambda>cronExpression.
     and_then (case scu_timezone p of None \<Rightarrow> Inr (sc_timezone s) | Some z \<Rightarrow> assertValidIanaTimezone cr z) (\<lambda>timezone.
     and_then (case scu_input p of None \<Rightarrow> Inr (sc_input s)
               | Some v \<Rightarrow> copyCanonicalJsonValue v ''Schedule.input'') (\<lambda>input.
     and_then (copyInstant (scu_now p)) (\<lambda>now.
     let enabled = (case scu_enabled p of None \<Rightarrow> sc_enabled s | Some b \<Rightarrow> b)
     in and_then (updated_next_run cr s p cronExpression timezone enabled now) (\<lambda>nextRunAt.
       Schedule_rehydrate (s\<lparr> sc_name := name,
         sc_agentVersionId := (case scu_agentVersionId p of None \<Rightarrow> sc_agentVersionId s | Some v \<Rightarrow> v),
         sc_cronExpression := cronExpression, sc_timezone := timezone, sc_input := input, sc_enabled := enabled,
         sc_nextRunAt := nextRunAt, sc_updatedAt := now \<rparr>)))))))"

subsection \<open>Occurrences (schedule-occurrence.ts)\<close>

record schedule_occurrence =
  so_id :: string
  so_scheduleId :: string
  so_workspaceId :: string
  so_agentId :: string
  so_agentVersionId :: string
  so_input :: jsv
  so_scheduledFor :: js_date
  so_runId :: "string option"
  so_createdAt :: js_date
  so_dispatchedAt :: "js_date option"

text \<open>The properties of the source leave \<open>runId\<close> and \<open>dispatchedAt\<close> out; both start as null.\<close>

definition ScheduleOccurrence_create :: "schedule_occurrence \<Rightarrow> osva_error + schedule_occurrence" where
  "ScheduleOccurrence_create p =
     (if so_id p = '''' then Inl (DomainInvariantError ''ScheduleOccurrence.id is required.'')
      else if so_scheduleId p = '''' then Inl (DomainInvariantError ''ScheduleOccurrence.scheduleId is required.'')
      else
        and_then (copyCanonicalJsonValue (so_input p) ''ScheduleOccurrence.input'') (\<lambda>input.
        and_then (copyInstant (so_scheduledFor p)) (\<lambda>scheduledFor.
        and_then (copyInstant (so_createdAt p)) (\<lambda>createdAt.
          Inr (p\<lparr> so_input := input, so_scheduledFor := scheduledFor, so_runId := None, so_createdAt := createdAt,
            so_dispatchedAt := None \<rparr>)))))"

definition ScheduleOccurrence_rehydrate :: "schedule_occurrence \<Rightarrow> osva_error + schedule_occurrence" where
  "ScheduleOccurrence_rehydrate p =
     (if \<not> canonical_tree (so_input p)
      then Inl (DomainInvariantError ''ScheduleOccurrence.input must be JSON-compatible.'')
      else
        and_then (copyInstant (so_scheduledFor p)) (\<lambda>scheduledFor.
        and_then (copyInstant (so_createdAt p)) (\<lambda>createdAt.
        and_then (copyOptInstant (so_dispatchedAt p)) (\<lambda>dispatchedAt.
          Inr (p\<lparr> so_scheduledFor := scheduledFor, so_createdAt := createdAt, so_dispatchedAt := dispatchedAt \<rparr>)))))"

definition ScheduleOccurrence_withRunId :: "schedule_occurrence \<Rightarrow> string \<Rightarrow> osva_error + schedule_occurrence" where
  "ScheduleOccurrence_withRunId o' runId =
     (if runId = '''' then Inl (DomainInvariantError ''ScheduleOccurrence.runId is required.'')
      else ScheduleOccurrence_rehydrate (o'\<lparr> so_runId := Some runId \<rparr>))"

definition ScheduleOccurrence_withDispatchedAt ::
    "schedule_occurrence \<Rightarrow> js_date \<Rightarrow> osva_error + schedule_occurrence" where
  "ScheduleOccurrence_withDispatchedAt o' dispatchedAt =
     and_then (copyInstant dispatchedAt) (\<lambda>t. ScheduleOccurrence_rehydrate (o'\<lparr> so_dispatchedAt := Some t \<rparr>))"

subsection \<open>The repository (memory-schedule-repository.ts)\<close>

text \<open>The set of unique keys of occurrences is a list without duplicates.\<close>

record schedule_store =
  ss_schedules :: "(string, schedule) js_map"
  ss_occurrences :: "(string, schedule_occurrence) js_map"
  ss_scheduleKeys :: "(string, string) js_map"
  ss_uniqueKeys :: "string list"

definition empty_schedule_store :: schedule_store where
  "empty_schedule_store = \<lparr> ss_schedules = [], ss_occurrences = [], ss_scheduleKeys = [], ss_uniqueKeys = [] \<rparr>"

definition workspaceScheduleKey :: "string \<Rightarrow> string \<Rightarrow> string" where
  "workspaceScheduleKey workspaceId key = workspaceId @ '':'' @ key"

definition occurrenceUniqueKey :: "string \<Rightarrow> js_date \<Rightarrow> osva_error + string" where
  "occurrenceUniqueKey scheduleId scheduledFor =
     and_then (toISOString scheduledFor) (\<lambda>t. Inr (scheduleId @ '':'' @ t))"

definition saveSchedule :: "schedule \<Rightarrow> schedule_store \<Rightarrow> osva_error + schedule_store" where
  "saveSchedule x s =
     (let key = workspaceScheduleKey (sc_workspaceId x) (sc_key x)
      in if map_of (ss_scheduleKeys s) key \<noteq> None
         then Inl (DuplicateKeyError ''Schedule'' (sc_workspaceId x) (sc_key x))
         else Inr (s\<lparr> ss_schedules := AList.update (sc_id x) x (ss_schedules s),
           ss_scheduleKeys := AList.update key (sc_id x) (ss_scheduleKeys s) \<rparr>))"

definition findScheduleById :: "schedule_store \<Rightarrow> string \<Rightarrow> schedule option" where
  "findScheduleById s i = map_of (ss_schedules s) i"

definition findScheduleByWorkspaceAndId :: "schedule_store \<Rightarrow> string \<Rightarrow> string \<Rightarrow> schedule option" where
  "findScheduleByWorkspaceAndId s workspaceId i =
     (case map_of (ss_schedules s) i of None \<Rightarrow> None
      | Some x \<Rightarrow> if sc_workspaceId x \<noteq> workspaceId then None else Some x)"

definition findScheduleByWorkspaceKey :: "schedule_store \<Rightarrow> string \<Rightarrow> string \<Rightarrow> schedule option" where
  "findScheduleByWorkspaceKey s workspaceId key =
     (case map_of (ss_scheduleKeys s) (workspaceScheduleKey workspaceId key) of
        None \<Rightarrow> None | Some i \<Rightarrow> map_of (ss_schedules s) i)"

definition updateSchedule :: "schedule \<Rightarrow> schedule_store \<Rightarrow> osva_error + schedule_store" where
  "updateSchedule x s =
     (if map_of (ss_schedules s) (sc_id x) = None then Inl (NotFoundError ''Schedule'' (sc_id x))
      else Inr (s\<lparr> ss_schedules := AList.update (sc_id x) x (ss_schedules s) \<rparr>))"

record schedule_query =
  sq_workspaceId :: string
  sq_limit :: nat
  sq_cursor :: "(js_date \<times> string) option"

definition isAfterScheduleCursor :: "schedule \<Rightarrow> js_date \<times> string \<Rightarrow> bool" where
  "isAfterScheduleCursor x c =
     (date_lt (sc_createdAt x) (fst c) \<or> date_eq (sc_createdAt x) (fst c) \<and> sc_id x < snd c)"

text \<open>Newest first; the comparison is total, so the descending order is the ascending one reversed.\<close>

definition listSchedules :: "cron \<Rightarrow> schedule_store \<Rightarrow> schedule_query
    \<Rightarrow> schedule list \<times> (js_date \<times> string) option" where
  "listSchedules cr s q =
     (let filtered = rev (sort_key (\<lambda>x. (sc_createdAt x, cr_collate cr (sc_id x)))
            (filter (\<lambda>x. sc_workspaceId x = sq_workspaceId q
               \<and> (case sq_cursor q of None \<Rightarrow> True | Some c \<Rightarrow> isAfterScheduleCursor x c)) (map_values (ss_schedules s))));
          page = take (sq_limit q) filtered
      in (page, if sq_limit q < length filtered \<and> page \<noteq> []
                then Some (sc_createdAt (last page), sc_id (last page)) else None))"

definition due :: "js_date \<Rightarrow> schedule \<Rightarrow> bool" where
  "due now x = (sc_enabled x \<and> (case sc_nextRunAt x of None \<Rightarrow> False | Some t \<Rightarrow> date_le t now))"

definition occurrence_of :: "schedule \<Rightarrow> js_date \<Rightarrow> string \<Rightarrow> js_date \<Rightarrow> schedule_occurrence" where
  "occurrence_of x scheduledFor i now =
     \<lparr> so_id = i, so_scheduleId = sc_id x, so_workspaceId = sc_workspaceId x, so_agentId = sc_agentId x,
       so_agentVersionId = sc_agentVersionId x, so_input = sc_input x, so_scheduledFor = scheduledFor,
       so_runId = None, so_createdAt = now, so_dispatchedAt = None \<rparr>"

definition advanced :: "cron \<Rightarrow> schedule \<Rightarrow> js_date \<Rightarrow> osva_error + schedule" where
  "advanced cr x now =
     and_then (nextCronInstantAfter cr (sc_cronExpression x) (sc_timezone x) now) (\<lambda>t.
       Schedule_rehydrate (x\<lparr> sc_nextRunAt := Some t, sc_updatedAt := now \<rparr>))"

text \<open>
  The loop over the due schedules, with the occurrences made so far; a throw leaves what the loop
  has stored. \<open>ids\<close> are the identifiers drawn, one for each occurrence made.
\<close>

fun materialize_loop :: "cron \<Rightarrow> js_date \<Rightarrow> string list \<Rightarrow> schedule list \<Rightarrow> schedule_occurrence list
    \<Rightarrow> schedule_store \<Rightarrow> schedule_store \<times> (osva_error + schedule_occurrence list)" where
  "materialize_loop cr now ids [] made s = (s, Inr (rev made))"
| "materialize_loop cr now ids (x # xs) made s =
     (case sc_nextRunAt x of
        None \<Rightarrow> materialize_loop cr now ids xs made s
      | Some scheduledFor \<Rightarrow>
      case occurrenceUniqueKey (sc_id x) scheduledFor of
        Inl e \<Rightarrow> (s, Inl e)
      | Inr key \<Rightarrow>
          if key \<in> set (ss_uniqueKeys s) then materialize_loop cr now ids xs made s
          else case and_then (ScheduleOccurrence_create (occurrence_of x scheduledFor (hd ids) now)) (\<lambda>occurrence.
              and_then (advanced cr x now) (\<lambda>x'. Inr (occurrence, x'))) of
            Inl e \<Rightarrow> (s, Inl e)
          | Inr (occurrence, x') \<Rightarrow>
              materialize_loop cr now (tl ids) xs (occurrence # made)
                (s\<lparr> ss_schedules := AList.update (sc_id x) x' (ss_schedules s),
                  ss_occurrences := AList.update (so_id occurrence) occurrence (ss_occurrences s),
                  ss_uniqueKeys := key # ss_uniqueKeys s \<rparr>))"

definition due_schedules :: "cron \<Rightarrow> js_date \<Rightarrow> schedule_store \<Rightarrow> schedule list" where
  "due_schedules cr now s = sort_key (\<lambda>x. (the (sc_nextRunAt x), cr_collate cr (sc_id x)))
     (filter (due now) (map_values (ss_schedules s)))"

definition materializeDueOccurrences :: "cron \<Rightarrow> js_date \<Rightarrow> nat \<Rightarrow> string list \<Rightarrow> schedule_store
    \<Rightarrow> schedule_store \<times> (osva_error + schedule_occurrence list)" where
  "materializeDueOccurrences cr now limit ids s =
     materialize_loop cr now ids (take limit (due_schedules cr now s)) [] s"

definition listUndispatchedOccurrences :: "cron \<Rightarrow> schedule_store \<Rightarrow> nat \<Rightarrow> schedule_occurrence list" where
  "listUndispatchedOccurrences cr s limit = take limit (sort_key (\<lambda>x. (so_scheduledFor x, cr_collate cr (so_id x)))
     (filter (\<lambda>x. so_dispatchedAt x = None) (map_values (ss_occurrences s))))"

record occurrence_query =
  oq_scheduleId :: string
  oq_limit :: nat
  oq_cursor :: "(js_date \<times> string) option"

definition isBeforeOccurrenceCursor :: "schedule_occurrence \<Rightarrow> js_date \<times> string \<Rightarrow> bool" where
  "isBeforeOccurrenceCursor x c =
     (date_lt (so_scheduledFor x) (fst c) \<or> date_eq (so_scheduledFor x) (fst c) \<and> so_id x < snd c)"

definition listOccurrencesForSchedule :: "cron \<Rightarrow> schedule_store \<Rightarrow> occurrence_query
    \<Rightarrow> schedule_occurrence list \<times> (js_date \<times> string) option" where
  "listOccurrencesForSchedule cr s q =
     (let filtered = rev (sort_key (\<lambda>x. (so_scheduledFor x, cr_collate cr (so_id x)))
            (filter (\<lambda>x. so_scheduleId x = oq_scheduleId q
               \<and> (case oq_cursor q of None \<Rightarrow> True | Some c \<Rightarrow> isBeforeOccurrenceCursor x c))
              (map_values (ss_occurrences s))));
          page = take (oq_limit q) filtered
      in (page, if oq_limit q < length filtered \<and> page \<noteq> []
                then Some (so_scheduledFor (last page), so_id (last page)) else None))"

definition findOccurrenceById :: "schedule_store \<Rightarrow> string \<Rightarrow> schedule_occurrence option" where
  "findOccurrenceById s i = map_of (ss_occurrences s) i"

definition occurrence_missing :: "string \<Rightarrow> osva_error" where
  "occurrence_missing i = DomainInvariantError (''ScheduleOccurrence '' @ i @ '' was not found.'')"

definition attachOccurrenceRunId :: "string \<Rightarrow> string \<Rightarrow> schedule_store
    \<Rightarrow> osva_error + (schedule_occurrence \<times> schedule_store)" where
  "attachOccurrenceRunId i runId s =
     (case map_of (ss_occurrences s) i of
        None \<Rightarrow> Inl (occurrence_missing i)
      | Some existing \<Rightarrow>
          if so_runId existing \<noteq> None \<and> so_runId existing \<noteq> Some runId
          then Inl (DomainInvariantError (''ScheduleOccurrence '' @ i @ '' is already attached to Run ''
            @ the (so_runId existing) @ ''.''))
          else and_then (ScheduleOccurrence_withRunId existing runId) (\<lambda>updated.
            Inr (updated, s\<lparr> ss_occurrences := AList.update i updated (ss_occurrences s) \<rparr>)))"

definition markOccurrenceDispatched :: "string \<Rightarrow> js_date \<Rightarrow> schedule_store
    \<Rightarrow> osva_error + (schedule_occurrence \<times> schedule_store)" where
  "markOccurrenceDispatched i dispatchedAt s =
     (case map_of (ss_occurrences s) i of
        None \<Rightarrow> Inl (occurrence_missing i)
      | Some existing \<Rightarrow>
          if so_dispatchedAt existing \<noteq> None then Inr (existing, s)
          else and_then (ScheduleOccurrence_withDispatchedAt existing dispatchedAt) (\<lambda>updated.
            Inr (updated, s\<lparr> ss_occurrences := AList.update i updated (ss_occurrences s) \<rparr>)))"

subsection \<open>Materialization in PostgreSQL (postgres-schedule-repository.ts)\<close>

text \<open>
  One transaction: the first due schedule, its occurrence and its next instant. The unique index on
  schedule and instant refuses a second occurrence; then nothing is stored and null is returned, which
  ends the loop. A row that another transaction has locked would be skipped; transactions are taken
  one after the other here.
\<close>

definition occurrence_exists :: "schedule_store \<Rightarrow> string \<Rightarrow> js_date \<Rightarrow> bool" where
  "occurrence_exists s scheduleId scheduledFor \<longleftrightarrow>
     list_ex (\<lambda>x. so_scheduleId x = scheduleId \<and> so_scheduledFor x = scheduledFor) (map_values (ss_occurrences s))"

definition postgres_materializeOne :: "cron \<Rightarrow> js_date \<Rightarrow> string \<Rightarrow> schedule_store
    \<Rightarrow> osva_error + (schedule_occurrence option \<times> schedule_store)" where
  "postgres_materializeOne cr now i s =
     (case due_schedules cr now s of
        [] \<Rightarrow> Inr (None, s)
      | x # xs \<Rightarrow>
          (case sc_nextRunAt x of
             None \<Rightarrow> Inr (None, s)
           | Some scheduledFor \<Rightarrow>
               and_then (ScheduleOccurrence_create (occurrence_of x scheduledFor i now)) (\<lambda>occurrence.
               and_then (advanced cr x now) (\<lambda>x'.
                 if occurrence_exists s (sc_id x) scheduledFor then Inr (None, s)
                 else if map_of (ss_occurrences s) i \<noteq> None then Inl (OtherError ''duplicate key'')
                 else Inr (Some occurrence, s\<lparr> ss_schedules := AList.update (sc_id x) x' (ss_schedules s),
                   ss_occurrences := AList.update i occurrence (ss_occurrences s) \<rparr>)))))"

text \<open>
  The other writes of the PostgreSQL repository. The foreign keys to agents always hold, as the
  handlers look the agents up before and agents are never deleted. An update returns its row, if
  there is one.
\<close>

definition postgres_saveSchedule :: "schedule \<Rightarrow> schedule_store \<Rightarrow> osva_error + schedule_store" where
  "postgres_saveSchedule x s =
     (if map_of (ss_schedules s) (sc_id x) \<noteq> None then Inl (OtherError ''duplicate key'')
      else if list_ex (\<lambda>y. sc_workspaceId y = sc_workspaceId x \<and> sc_key y = sc_key x) (map_values (ss_schedules s))
      then Inl (DuplicateKeyError ''Schedule'' (sc_workspaceId x) (sc_key x))
      else Inr (s\<lparr> ss_schedules := AList.update (sc_id x) x (ss_schedules s) \<rparr>))"

definition postgres_updateSchedule :: "schedule \<Rightarrow> schedule_store \<Rightarrow> osva_error + schedule_store" where
  "postgres_updateSchedule x s =
     (case map_of (ss_schedules s) (sc_id x) of
        None \<Rightarrow> Inl (NotFoundError ''Schedule'' (sc_id x))
      | Some y \<Rightarrow> Inr (s\<lparr> ss_schedules := AList.update (sc_id x)
          (y\<lparr> sc_name := sc_name x, sc_agentVersionId := sc_agentVersionId x, sc_cronExpression := sc_cronExpression x,
             sc_timezone := sc_timezone x, sc_input := sc_input x, sc_enabled := sc_enabled x,
             sc_nextRunAt := sc_nextRunAt x, sc_updatedAt := sc_updatedAt x \<rparr>) (ss_schedules s) \<rparr>))"

definition postgres_attachRunId :: "string \<Rightarrow> string \<Rightarrow> schedule_store
    \<Rightarrow> osva_error + (schedule_occurrence option \<times> schedule_store)" where
  "postgres_attachRunId i runId s =
     (case map_of (ss_occurrences s) i of
        None \<Rightarrow> Inr (None, s)
      | Some existing \<Rightarrow>
          if so_runId existing \<noteq> None \<and> so_runId existing \<noteq> Some runId then Inr (None, s)
          else let row = existing\<lparr> so_runId := Some runId \<rparr>
            in Inr (Some row, s\<lparr> ss_occurrences := AList.update i row (ss_occurrences s) \<rparr>))"

definition postgres_markDispatched :: "string \<Rightarrow> js_date \<Rightarrow> schedule_store
    \<Rightarrow> osva_error + (schedule_occurrence option \<times> schedule_store)" where
  "postgres_markDispatched i dispatchedAt s =
     and_then (toISOString dispatchedAt) (\<lambda>t.
       case map_of (ss_occurrences s) i of
         None \<Rightarrow> Inr (None, s)
       | Some existing \<Rightarrow>
           if so_dispatchedAt existing \<noteq> None then Inr (None, s)
           else let row = existing\<lparr> so_dispatchedAt := Some dispatchedAt \<rparr>
             in Inr (Some row, s\<lparr> ss_occurrences := AList.update i row (ss_occurrences s) \<rparr>))"

subsection \<open>The run of an occurrence (schedule-idempotency.ts)\<close>

definition scheduleOccurrenceRunIdempotencyKey :: "string \<Rightarrow> js_date \<Rightarrow> osva_error + string" where
  "scheduleOccurrenceRunIdempotencyKey scheduleId scheduledFor =
     and_then (toISOString scheduledFor) (\<lambda>t. Inr (''schedule:'' @ scheduleId @ '':'' @ t))"

end
