(* ===== verification/Office.thy ===== *)
theory Office
  imports Js_Value Lifecycle
begin

text \<open>
  The office: workers, roles, teams, goals and assignments (\<open>domain/src/office-worker.ts\<close>,
  \<open>role.ts\<close>, \<open>team.ts\<close>, \<open>team-membership.ts\<close>, \<open>goal.ts\<close>, \<open>assignment.ts\<close>) and their
  repositories, that of the memory adapter (\<open>adapters/memory/src/memory-office-repository.ts\<close>) and
  the PostgreSQL one (\<open>packages/db/src/repositories/postgres-office-repository.ts\<close>). Roles and
  teams are the same class but for its name.
\<close>

subsection \<open>Texts that may be left out\<close>

definition optional_text :: "string option \<Rightarrow> string \<Rightarrow> osva_error + string option" where
  "optional_text v field =
     (case v of None \<Rightarrow> Inr None | Some t \<Rightarrow> and_then (requireNonEmptyString t field) (\<lambda>t'. Inr (Some t')))"

definition changed_text :: "string \<Rightarrow> string option \<Rightarrow> string \<Rightarrow> osva_error + string" where
  "changed_text old v field = (case v of None \<Rightarrow> Inr old | Some t \<Rightarrow> requireNonEmptyString t field)"

subsection \<open>Workers (office-worker.ts)\<close>

record office_worker =
  ow_id :: string
  ow_workspaceId :: string
  ow_key :: string
  ow_name :: string
  ow_description :: "string option"
  ow_agentId :: string
  ow_createdAt :: js_date
  ow_updatedAt :: js_date

text \<open>A worker is created from its properties; both dates of them are the date of creation.\<close>

definition OfficeWorker_create :: "office_worker \<Rightarrow> osva_error + office_worker" where
  "OfficeWorker_create p =
     (if ow_id p = '''' then Inl (DomainInvariantError ''OfficeWorker.id is required.'')
      else if ow_workspaceId p = '''' then Inl (DomainInvariantError ''OfficeWorker.workspaceId is required.'')
      else if ow_agentId p = '''' then Inl (DomainInvariantError ''OfficeWorker.agentId is required.'')
      else
        and_then (copyInstant (ow_createdAt p)) (\<lambda>now.
        and_then (requireNonEmptyString (ow_key p) ''OfficeWorker.key'') (\<lambda>key.
        and_then (requireNonEmptyString (ow_name p) ''OfficeWorker.name'') (\<lambda>name.
        and_then (optional_text (ow_description p) ''OfficeWorker.description'') (\<lambda>description.
          Inr (p\<lparr> ow_key := key, ow_name := name, ow_description := description,
            ow_createdAt := now, ow_updatedAt := now \<rparr>))))))"

definition OfficeWorker_rehydrate :: "office_worker \<Rightarrow> osva_error + office_worker" where
  "OfficeWorker_rehydrate p =
     and_then (copyInstant (ow_createdAt p)) (\<lambda>createdAt.
     and_then (copyInstant (ow_updatedAt p)) (\<lambda>updatedAt.
       Inr (p\<lparr> ow_createdAt := createdAt, ow_updatedAt := updatedAt \<rparr>)))"

definition OfficeWorker_update ::
    "office_worker \<Rightarrow> string option \<Rightarrow> string option \<Rightarrow> js_date \<Rightarrow> osva_error + office_worker" where
  "OfficeWorker_update x name description now =
     and_then (changed_text (ow_name x) name ''OfficeWorker.name'') (\<lambda>name'.
     and_then (optional_text (or_else description (ow_description x)) ''OfficeWorker.description'') (\<lambda>description'.
     and_then (copyInstant now) (\<lambda>updatedAt.
       OfficeWorker_rehydrate (x\<lparr> ow_name := name', ow_description := description', ow_updatedAt := updatedAt \<rparr>))))"

subsection \<open>Roles and teams (role.ts, team.ts)\<close>

record office_group =
  og_id :: string
  og_workspaceId :: string
  og_key :: string
  og_name :: string
  og_description :: "string option"
  og_createdAt :: js_date
  og_updatedAt :: js_date

type_synonym role = office_group
type_synonym team = office_group

definition group_create :: "string \<Rightarrow> office_group \<Rightarrow> osva_error + office_group" where
  "group_create class p =
     (if og_id p = '''' then Inl (DomainInvariantError (class @ ''.id is required.''))
      else if og_workspaceId p = '''' then Inl (DomainInvariantError (class @ ''.workspaceId is required.''))
      else
        and_then (copyInstant (og_createdAt p)) (\<lambda>now.
        and_then (requireNonEmptyString (og_key p) (class @ ''.key'')) (\<lambda>key.
        and_then (requireNonEmptyString (og_name p) (class @ ''.name'')) (\<lambda>name.
        and_then (optional_text (og_description p) (class @ ''.description'')) (\<lambda>description.
          Inr (p\<lparr> og_key := key, og_name := name, og_description := description,
            og_createdAt := now, og_updatedAt := now \<rparr>))))))"

definition group_rehydrate :: "office_group \<Rightarrow> osva_error + office_group" where
  "group_rehydrate p =
     and_then (copyInstant (og_createdAt p)) (\<lambda>createdAt.
     and_then (copyInstant (og_updatedAt p)) (\<lambda>updatedAt.
       Inr (p\<lparr> og_createdAt := createdAt, og_updatedAt := updatedAt \<rparr>)))"

definition group_update ::
    "string \<Rightarrow> office_group \<Rightarrow> string option \<Rightarrow> string option \<Rightarrow> js_date \<Rightarrow> osva_error + office_group" where
  "group_update class x name description now =
     and_then (changed_text (og_name x) name (class @ ''.name'')) (\<lambda>name'.
     and_then (optional_text (or_else description (og_description x)) (class @ ''.description'')) (\<lambda>description'.
     and_then (copyInstant now) (\<lambda>updatedAt.
       group_rehydrate (x\<lparr> og_name := name', og_description := description', og_updatedAt := updatedAt \<rparr>))))"

definition Role_create :: "role \<Rightarrow> osva_error + role" where
  "Role_create p = group_create ''Role'' p"

definition Role_update :: "role \<Rightarrow> string option \<Rightarrow> string option \<Rightarrow> js_date \<Rightarrow> osva_error + role" where
  "Role_update x name description now = group_update ''Role'' x name description now"

definition Team_create :: "team \<Rightarrow> osva_error + team" where
  "Team_create p = group_create ''Team'' p"

definition Team_update :: "team \<Rightarrow> string option \<Rightarrow> string option \<Rightarrow> js_date \<Rightarrow> osva_error + team" where
  "Team_update x name description now = group_update ''Team'' x name description now"

subsection \<open>Memberships (team-membership.ts)\<close>

record team_membership =
  tm_teamId :: string
  tm_officeWorkerId :: string
  tm_roleId :: "string option"

definition TeamMembership_create :: "team_membership \<Rightarrow> osva_error + team_membership" where
  "TeamMembership_create p =
     (if tm_teamId p = '''' then Inl (DomainInvariantError ''TeamMembership.teamId is required.'')
      else if tm_officeWorkerId p = '''' then Inl (DomainInvariantError ''TeamMembership.officeWorkerId is required.'')
      else Inr p)"

subsection \<open>Goals (goal.ts)\<close>

record goal =
  go_id :: string
  go_workspaceId :: string
  go_key :: string
  go_title :: string
  go_description :: "string option"
  go_status :: goal_state
  go_createdAt :: js_date
  go_updatedAt :: js_date

definition Goal_create :: "goal \<Rightarrow> osva_error + goal" where
  "Goal_create p =
     (if go_id p = '''' then Inl (DomainInvariantError ''Goal.id is required.'')
      else if go_workspaceId p = '''' then Inl (DomainInvariantError ''Goal.workspaceId is required.'')
      else
        and_then (copyInstant (go_createdAt p)) (\<lambda>now.
        and_then (requireNonEmptyString (go_key p) ''Goal.key'') (\<lambda>key.
        and_then (requireNonEmptyString (go_title p) ''Goal.title'') (\<lambda>title.
        and_then (optional_text (go_description p) ''Goal.description'') (\<lambda>description.
          Inr (p\<lparr> go_key := key, go_title := title, go_description := description, go_status := Goal_OPEN,
            go_createdAt := now, go_updatedAt := now \<rparr>))))))"

definition Goal_rehydrate :: "goal \<Rightarrow> osva_error + goal" where
  "Goal_rehydrate p =
     and_then (copyInstant (go_createdAt p)) (\<lambda>createdAt.
     and_then (copyInstant (go_updatedAt p)) (\<lambda>updatedAt.
       Inr (p\<lparr> go_createdAt := createdAt, go_updatedAt := updatedAt \<rparr>)))"

definition Goal_update ::
    "goal \<Rightarrow> string option \<Rightarrow> string option \<Rightarrow> goal_state option \<Rightarrow> js_date \<Rightarrow> osva_error + goal" where
  "Goal_update x title description status now =
     and_then (changed_text (go_title x) title ''Goal.title'') (\<lambda>title'.
     let status' = (case status of None \<Rightarrow> go_status x | Some s \<Rightarrow> s)
     in after_check (if status' \<noteq> go_status x then assertLegalGoalTransition (go_status x) status' else None)
       (and_then (optional_text (or_else description (go_description x)) ''Goal.description'') (\<lambda>description'.
        and_then (copyInstant now) (\<lambda>updatedAt.
          Goal_rehydrate (x\<lparr> go_title := title', go_description := description', go_status := status',
            go_updatedAt := updatedAt \<rparr>)))))"

subsection \<open>Assignments (assignment.ts)\<close>

datatype assignment_target = Target_AGENT_VERSION | Target_WORKFLOW_VERSION

record assignment =
  as_id :: string
  as_workspaceId :: string
  as_goalId :: "string option"
  as_officeWorkerId :: string
  as_title :: string
  as_description :: "string option"
  as_targetType :: assignment_target
  as_targetVersionId :: string
  as_input :: jsv
  as_status :: assignment_state
  as_runId :: "string option"
  as_workflowRunId :: "string option"
  as_createdAt :: js_date
  as_startedAt :: "js_date option"
  as_completedAt :: "js_date option"
  as_cancelledAt :: "js_date option"

text \<open>The properties for \<open>create\<close> have no status, run or later dates; those fields are not read.\<close>

definition Assignment_create :: "assignment \<Rightarrow> osva_error + assignment" where
  "Assignment_create p =
     (if as_id p = '''' then Inl (DomainInvariantError ''Assignment.id is required.'')
      else if as_workspaceId p = '''' then Inl (DomainInvariantError ''Assignment.workspaceId is required.'')
      else if as_officeWorkerId p = '''' then Inl (DomainInvariantError ''Assignment.officeWorkerId is required.'')
      else if as_targetVersionId p = '''' then Inl (DomainInvariantError ''Assignment.targetVersionId is required.'')
      else
        and_then (copyInstant (as_createdAt p)) (\<lambda>now.
        and_then (copyCanonicalJsonValue (as_input p) ''Assignment.input'') (\<lambda>input.
        and_then (requireNonEmptyString (as_title p) ''Assignment.title'') (\<lambda>title.
        and_then (optional_text (as_description p) ''Assignment.description'') (\<lambda>description.
          Inr (p\<lparr> as_title := title, as_description := description, as_input := input, as_status := As_PENDING,
            as_runId := None, as_workflowRunId := None, as_createdAt := now, as_startedAt := None,
            as_completedAt := None, as_cancelledAt := None \<rparr>))))))"

definition Assignment_rehydrate :: "assignment \<Rightarrow> osva_error + assignment" where
  "Assignment_rehydrate p =
     (if \<not> canonical_tree (as_input p) then Inl (DomainInvariantError ''Assignment.input must be JSON-compatible.'')
      else
        and_then (copyInstant (as_createdAt p)) (\<lambda>createdAt.
        and_then (copyOptInstant (as_startedAt p)) (\<lambda>startedAt.
        and_then (copyOptInstant (as_completedAt p)) (\<lambda>completedAt.
        and_then (copyOptInstant (as_cancelledAt p)) (\<lambda>cancelledAt.
          Inr (p\<lparr> as_createdAt := createdAt, as_startedAt := startedAt, as_completedAt := completedAt,
            as_cancelledAt := cancelledAt \<rparr>))))))"

definition isLaunched :: "assignment \<Rightarrow> bool" where
  "isLaunched x \<longleftrightarrow> as_startedAt x \<noteq> None"

text \<open>A goal that is not mentioned stays, and null removes it.\<close>

datatype goal_change = Goal_unchanged | Goal_removed | Goal_set string

definition Assignment_update ::
    "assignment \<Rightarrow> string option \<Rightarrow> string option \<Rightarrow> goal_change \<Rightarrow> osva_error + assignment" where
  "Assignment_update x title description goal =
     (if isLaunched x
      then Inl (DomainInvariantError ''Assignment metadata cannot be changed after execution has started.'')
      else
        and_then (changed_text (as_title x) title ''Assignment.title'') (\<lambda>title'.
        and_then (optional_text (or_else description (as_description x)) ''Assignment.description'') (\<lambda>description'.
          Assignment_rehydrate (x\<lparr> as_title := title', as_description := description',
            as_goalId := (case goal of Goal_unchanged \<Rightarrow> as_goalId x | Goal_removed \<Rightarrow> None | Goal_set g \<Rightarrow> Some g) \<rparr>))))"

definition Assignment_markLaunched ::
    "assignment \<Rightarrow> string option \<Rightarrow> string option \<Rightarrow> js_date \<Rightarrow> osva_error + assignment" where
  "Assignment_markLaunched x runId workflowRunId now =
     (if as_status x \<noteq> As_PENDING \<and> as_status x \<noteq> As_RUNNING
      then Inl (DomainInvariantError (''Assignment '' @ as_id x @ '' cannot be launched from status ''
        @ assignment_state_name (as_status x) @ ''.''))
      else if as_targetType x = Target_AGENT_VERSION \<and> runId = None
      then Inl (DomainInvariantError ''Agent-backed assignments require runId when marking launched.'')
      else if as_targetType x = Target_WORKFLOW_VERSION \<and> workflowRunId = None
      then Inl (DomainInvariantError ''Workflow-backed assignments require workflowRunId when marking launched.'')
      else
        and_then (copyInstant now) (\<lambda>now'.
        let nextStatus = (if as_status x = As_PENDING then As_RUNNING else as_status x)
        in after_check (if nextStatus \<noteq> as_status x then assertLegalAssignmentTransition (as_status x) nextStatus
             else None)
          (Assignment_rehydrate (x\<lparr> as_status := nextStatus, as_runId := or_else runId (as_runId x),
             as_workflowRunId := or_else workflowRunId (as_workflowRunId x),
             as_startedAt := or_else (as_startedAt x) (Some now') \<rparr>))))"

definition Assignment_transitionTo :: "assignment \<Rightarrow> assignment_state \<Rightarrow> js_date \<Rightarrow> js_date option \<Rightarrow> js_date option
    \<Rightarrow> osva_error + assignment" where
  "Assignment_transitionTo x nextStatus now completedAt cancelledAt =
     (if nextStatus = as_status x then Inr x
      else after_check (assertLegalAssignmentTransition (as_status x) nextStatus)
        (Assignment_rehydrate (x\<lparr> as_status := nextStatus,
           as_completedAt := (if nextStatus = As_COMPLETED then or_else completedAt (Some now) else as_completedAt x),
           as_cancelledAt := (if nextStatus = As_CANCELLED then or_else cancelledAt (Some now) else as_cancelledAt x) \<rparr>)))"

definition Assignment_cancel :: "assignment \<Rightarrow> js_date \<Rightarrow> osva_error + assignment" where
  "Assignment_cancel x now =
     (if isTerminalAssignmentState (as_status x) then Inr x
      else Assignment_transitionTo x As_CANCELLED now None (Some now))"

text \<open>The run of an assignment has a key of its own (assignment-idempotency.ts).\<close>

definition assignmentRunIdempotencyKey :: "string \<Rightarrow> string" where
  "assignmentRunIdempotencyKey assignmentId = ''assignment:'' @ assignmentId"

subsection \<open>The store\<close>

text \<open>A membership is found by its team and its worker; no two have the same.\<close>

record office_store =
  of_workers :: "(string, office_worker) js_map"
  of_roles :: "(string, role) js_map"
  of_teams :: "(string, team) js_map"
  of_memberships :: "(string \<times> string, team_membership) js_map"
  of_goals :: "(string, goal) js_map"
  of_assignments :: "(string, assignment) js_map"

definition empty_office_store :: office_store where
  "empty_office_store = \<lparr> of_workers = [], of_roles = [], of_teams = [], of_memberships = [], of_goals = [],
     of_assignments = [] \<rparr>"

text \<open>What the queries of all these entities have in common.\<close>

definition in_workspace :: "('x \<Rightarrow> string) \<Rightarrow> string \<Rightarrow> 'x option \<Rightarrow> 'x option" where
  "in_workspace workspace_of workspaceId r =
     (case r of None \<Rightarrow> None | Some x \<Rightarrow> if workspace_of x \<noteq> workspaceId then None else Some x)"

text \<open>Oldest first; identifiers are compared by a key that \<open>collate\<close> gives.\<close>

definition of_workspace_sorted :: "('x \<Rightarrow> string) \<Rightarrow> ('x \<Rightarrow> js_date) \<Rightarrow> ('x \<Rightarrow> string) \<Rightarrow> (string \<Rightarrow> string) \<Rightarrow> string
    \<Rightarrow> (string, 'x) js_map \<Rightarrow> 'x list" where
  "of_workspace_sorted workspace_of created_of id_of collate workspaceId m =
     sort_key (\<lambda>x. (created_of x, collate (id_of x))) (filter (\<lambda>x. workspace_of x = workspaceId) (map_values m))"

definition findOfficeWorkerById :: "office_store \<Rightarrow> string \<Rightarrow> office_worker option" where
  "findOfficeWorkerById s i = map_of (of_workers s) i"

definition findOfficeWorkerByWorkspaceAndId :: "office_store \<Rightarrow> string \<Rightarrow> string \<Rightarrow> office_worker option" where
  "findOfficeWorkerByWorkspaceAndId s workspaceId i = in_workspace ow_workspaceId workspaceId (map_of (of_workers s) i)"

definition listOfficeWorkersByWorkspace :: "(string \<Rightarrow> string) \<Rightarrow> office_store \<Rightarrow> string \<Rightarrow> office_worker list" where
  "listOfficeWorkersByWorkspace collate s workspaceId =
     of_workspace_sorted ow_workspaceId ow_createdAt ow_id collate workspaceId (of_workers s)"

definition findRoleByWorkspaceAndId :: "office_store \<Rightarrow> string \<Rightarrow> string \<Rightarrow> role option" where
  "findRoleByWorkspaceAndId s workspaceId i = in_workspace og_workspaceId workspaceId (map_of (of_roles s) i)"

definition listRolesByWorkspace :: "(string \<Rightarrow> string) \<Rightarrow> office_store \<Rightarrow> string \<Rightarrow> role list" where
  "listRolesByWorkspace collate s workspaceId =
     of_workspace_sorted og_workspaceId og_createdAt og_id collate workspaceId (of_roles s)"

definition findTeamByWorkspaceAndId :: "office_store \<Rightarrow> string \<Rightarrow> string \<Rightarrow> team option" where
  "findTeamByWorkspaceAndId s workspaceId i = in_workspace og_workspaceId workspaceId (map_of (of_teams s) i)"

definition listTeamsByWorkspace :: "(string \<Rightarrow> string) \<Rightarrow> office_store \<Rightarrow> string \<Rightarrow> team list" where
  "listTeamsByWorkspace collate s workspaceId =
     of_workspace_sorted og_workspaceId og_createdAt og_id collate workspaceId (of_teams s)"

definition listTeamMembershipsByTeam :: "(string \<Rightarrow> string) \<Rightarrow> office_store \<Rightarrow> string \<Rightarrow> team_membership list" where
  "listTeamMembershipsByTeam collate s teamId =
     sort_key (\<lambda>m. collate (tm_officeWorkerId m)) (filter (\<lambda>m. tm_teamId m = teamId) (map_values (of_memberships s)))"

definition findGoalByWorkspaceAndId :: "office_store \<Rightarrow> string \<Rightarrow> string \<Rightarrow> goal option" where
  "findGoalByWorkspaceAndId s workspaceId i = in_workspace go_workspaceId workspaceId (map_of (of_goals s) i)"

definition listGoalsByWorkspace :: "(string \<Rightarrow> string) \<Rightarrow> office_store \<Rightarrow> string \<Rightarrow> goal list" where
  "listGoalsByWorkspace collate s workspaceId =
     of_workspace_sorted go_workspaceId go_createdAt go_id collate workspaceId (of_goals s)"

definition findAssignmentById :: "office_store \<Rightarrow> string \<Rightarrow> assignment option" where
  "findAssignmentById s i = map_of (of_assignments s) i"

definition findAssignmentByWorkspaceAndId :: "office_store \<Rightarrow> string \<Rightarrow> string \<Rightarrow> assignment option" where
  "findAssignmentByWorkspaceAndId s workspaceId i = in_workspace as_workspaceId workspaceId (map_of (of_assignments s) i)"

definition listAssignmentsByWorkspace :: "(string \<Rightarrow> string) \<Rightarrow> office_store \<Rightarrow> string \<Rightarrow> assignment list" where
  "listAssignmentsByWorkspace collate s workspaceId =
     of_workspace_sorted as_workspaceId as_createdAt as_id collate workspaceId (of_assignments s)"

subsection \<open>The writes of PostgreSQL (postgres-office-repository.ts)\<close>

text \<open>
  A row is inserted unless its identifier or its key in the workspace is taken. The foreign keys
  hold, as the handlers look up what they refer to and nothing is ever deleted.
\<close>

definition key_taken :: "('x \<Rightarrow> string) \<Rightarrow> ('x \<Rightarrow> string) \<Rightarrow> 'x \<Rightarrow> 'x list \<Rightarrow> bool" where
  "key_taken workspace_of key_of x xs = list_ex (\<lambda>y. workspace_of y = workspace_of x \<and> key_of y = key_of x) xs"

definition insert_row :: "string \<Rightarrow> ('x \<Rightarrow> string) \<Rightarrow> ('x \<Rightarrow> string) \<Rightarrow> ('x \<Rightarrow> string) \<Rightarrow> 'x \<Rightarrow> (string, 'x) js_map
    \<Rightarrow> osva_error + (string, 'x) js_map" where
  "insert_row class id_of workspace_of key_of x m =
     (if map_of m (id_of x) \<noteq> None then Inl (OtherError ''duplicate key'')
      else if key_taken workspace_of key_of x (map_values m)
      then Inl (DuplicateKeyError class (workspace_of x) (key_of x))
      else Inr (AList.update (id_of x) x m))"

text \<open>An update sets some columns of the row, and returns it if there is one.\<close>

definition update_row :: "('x \<Rightarrow> string) \<Rightarrow> ('x \<Rightarrow> 'x \<Rightarrow> 'x) \<Rightarrow> 'x \<Rightarrow> (string, 'x) js_map
    \<Rightarrow> 'x option \<times> (string, 'x) js_map" where
  "update_row id_of columns x m =
     (case map_of m (id_of x) of
        None \<Rightarrow> (None, m)
      | Some y \<Rightarrow> (Some (columns x y), AList.update (id_of x) (columns x y) m))"

definition postgres_saveOfficeWorker :: "office_worker \<Rightarrow> office_store \<Rightarrow> osva_error + office_store" where
  "postgres_saveOfficeWorker x s =
     and_then (insert_row ''OfficeWorker'' ow_id ow_workspaceId ow_key x (of_workers s)) (\<lambda>m. Inr (s\<lparr> of_workers := m \<rparr>))"

definition worker_columns :: "office_worker \<Rightarrow> office_worker \<Rightarrow> office_worker" where
  "worker_columns x y =
     y\<lparr> ow_name := ow_name x, ow_description := ow_description x, ow_updatedAt := ow_updatedAt x \<rparr>"

definition postgres_updateOfficeWorker ::
    "office_worker \<Rightarrow> office_store \<Rightarrow> osva_error + (office_worker option \<times> office_store)" where
  "postgres_updateOfficeWorker x s =
     (let (row, m) = update_row ow_id worker_columns x (of_workers s) in Inr (row, s\<lparr> of_workers := m \<rparr>))"

definition group_columns :: "office_group \<Rightarrow> office_group \<Rightarrow> office_group" where
  "group_columns x y =
     y\<lparr> og_name := og_name x, og_description := og_description x, og_updatedAt := og_updatedAt x \<rparr>"

definition postgres_saveRole :: "role \<Rightarrow> office_store \<Rightarrow> osva_error + office_store" where
  "postgres_saveRole x s =
     and_then (insert_row ''Role'' og_id og_workspaceId og_key x (of_roles s)) (\<lambda>m. Inr (s\<lparr> of_roles := m \<rparr>))"

definition postgres_updateRole :: "role \<Rightarrow> office_store \<Rightarrow> osva_error + (role option \<times> office_store)" where
  "postgres_updateRole x s =
     (let (row, m) = update_row og_id group_columns x (of_roles s) in Inr (row, s\<lparr> of_roles := m \<rparr>))"

definition postgres_saveTeam :: "team \<Rightarrow> office_store \<Rightarrow> osva_error + office_store" where
  "postgres_saveTeam x s =
     and_then (insert_row ''Team'' og_id og_workspaceId og_key x (of_teams s)) (\<lambda>m. Inr (s\<lparr> of_teams := m \<rparr>))"

definition postgres_updateTeam :: "team \<Rightarrow> office_store \<Rightarrow> osva_error + (team option \<times> office_store)" where
  "postgres_updateTeam x s =
     (let (row, m) = update_row og_id group_columns x (of_teams s) in Inr (row, s\<lparr> of_teams := m \<rparr>))"

definition postgres_addTeamMembership :: "team_membership \<Rightarrow> office_store \<Rightarrow> osva_error + office_store" where
  "postgres_addTeamMembership m s =
     (let key = (tm_teamId m, tm_officeWorkerId m)
      in if map_of (of_memberships s) key \<noteq> None
         then Inl (DomainInvariantError (''OfficeWorker '' @ tm_officeWorkerId m @ '' is already a member of Team ''
           @ tm_teamId m @ ''.''))
         else Inr (s\<lparr> of_memberships := AList.update key m (of_memberships s) \<rparr>))"

definition postgres_saveGoal :: "goal \<Rightarrow> office_store \<Rightarrow> osva_error + office_store" where
  "postgres_saveGoal x s =
     and_then (insert_row ''Goal'' go_id go_workspaceId go_key x (of_goals s)) (\<lambda>m. Inr (s\<lparr> of_goals := m \<rparr>))"

definition goal_columns :: "goal \<Rightarrow> goal \<Rightarrow> goal" where
  "goal_columns x y =
     y\<lparr> go_title := go_title x, go_description := go_description x, go_status := go_status x,
        go_updatedAt := go_updatedAt x \<rparr>"

definition postgres_updateGoal :: "goal \<Rightarrow> office_store \<Rightarrow> osva_error + (goal option \<times> office_store)" where
  "postgres_updateGoal x s =
     (let (row, m) = update_row go_id goal_columns x (of_goals s) in Inr (row, s\<lparr> of_goals := m \<rparr>))"

definition postgres_saveAssignment :: "assignment \<Rightarrow> office_store \<Rightarrow> osva_error + office_store" where
  "postgres_saveAssignment x s =
     (if map_of (of_assignments s) (as_id x) \<noteq> None then Inl (OtherError ''duplicate key'')
      else Inr (s\<lparr> of_assignments := AList.update (as_id x) x (of_assignments s) \<rparr>))"

definition lifecycle_columns :: "assignment \<Rightarrow> assignment \<Rightarrow> assignment" where
  "lifecycle_columns x y =
     y\<lparr> as_status := as_status x, as_runId := as_runId x, as_workflowRunId := as_workflowRunId x,
        as_startedAt := as_startedAt x, as_completedAt := as_completedAt x, as_cancelledAt := as_cancelledAt x \<rparr>"

definition assignment_columns :: "assignment \<Rightarrow> assignment \<Rightarrow> assignment" where
  "assignment_columns x y =
     (lifecycle_columns x y)\<lparr> as_goalId := as_goalId x, as_title := as_title x, as_description := as_description x \<rparr>"

definition postgres_updateAssignment ::
    "assignment \<Rightarrow> office_store \<Rightarrow> osva_error + (assignment option \<times> office_store)" where
  "postgres_updateAssignment x s =
     (let (row, m) = update_row as_id assignment_columns x (of_assignments s) in Inr (row, s\<lparr> of_assignments := m \<rparr>))"

text \<open>The update of \<open>transitionAssignment\<close>: only a row with the expected status matches.\<close>

definition postgres_transitionAssignment ::
    "assignment_state \<Rightarrow> assignment \<Rightarrow> office_store \<Rightarrow> osva_error + (assignment option \<times> office_store)" where
  "postgres_transitionAssignment expectedStatus next s =
     (case map_of (of_assignments s) (as_id next) of
        None \<Rightarrow> Inr (None, s)
      | Some y \<Rightarrow>
          if as_status y \<noteq> expectedStatus then Inr (None, s)
          else let row = lifecycle_columns next y
            in Inr (Some row, s\<lparr> of_assignments := AList.update (as_id next) row (of_assignments s) \<rparr>))"

subsection \<open>The writes of the memory adapter (memory-office-repository.ts)\<close>

text \<open>
  A save replaces what has the same identifier; another entity with the same key is refused.
\<close>

definition memory_save :: "string \<Rightarrow> ('x \<Rightarrow> string) \<Rightarrow> ('x \<Rightarrow> string) \<Rightarrow> ('x \<Rightarrow> string) \<Rightarrow> 'x \<Rightarrow> (string, 'x) js_map
    \<Rightarrow> osva_error + (string, 'x) js_map" where
  "memory_save class id_of workspace_of key_of x m =
     (if key_taken workspace_of key_of x (filter (\<lambda>y. id_of y \<noteq> id_of x) (map_values m))
      then Inl (DuplicateKeyError class (workspace_of x) (key_of x))
      else Inr (AList.update (id_of x) x m))"

definition memory_update :: "('x \<Rightarrow> string) \<Rightarrow> 'x \<Rightarrow> (string, 'x) js_map \<Rightarrow> 'x option \<times> (string, 'x) js_map" where
  "memory_update id_of x m =
     (if map_of m (id_of x) = None then (None, m) else (Some x, AList.update (id_of x) x m))"

definition memory_saveOfficeWorker :: "office_worker \<Rightarrow> office_store \<Rightarrow> osva_error + office_store" where
  "memory_saveOfficeWorker x s =
     and_then (memory_save ''OfficeWorker'' ow_id ow_workspaceId ow_key x (of_workers s)) (\<lambda>m. Inr (s\<lparr> of_workers := m \<rparr>))"

definition memory_saveRole :: "role \<Rightarrow> office_store \<Rightarrow> osva_error + office_store" where
  "memory_saveRole x s =
     and_then (memory_save ''Role'' og_id og_workspaceId og_key x (of_roles s)) (\<lambda>m. Inr (s\<lparr> of_roles := m \<rparr>))"

definition memory_saveTeam :: "team \<Rightarrow> office_store \<Rightarrow> osva_error + office_store" where
  "memory_saveTeam x s =
     and_then (memory_save ''Team'' og_id og_workspaceId og_key x (of_teams s)) (\<lambda>m. Inr (s\<lparr> of_teams := m \<rparr>))"

definition memory_saveGoal :: "goal \<Rightarrow> office_store \<Rightarrow> osva_error + office_store" where
  "memory_saveGoal x s =
     and_then (memory_save ''Goal'' go_id go_workspaceId go_key x (of_goals s)) (\<lambda>m. Inr (s\<lparr> of_goals := m \<rparr>))"

text \<open>The key of a membership joins two identifiers with a colon; they are UUIDs, which have none.\<close>

definition memory_addTeamMembership :: "team_membership \<Rightarrow> office_store \<Rightarrow> osva_error + office_store" where
  "memory_addTeamMembership m s =
     (if map_of (of_memberships s) (tm_teamId m, tm_officeWorkerId m) \<noteq> None
      then Inl (DomainInvariantError (''OfficeWorker '' @ tm_officeWorkerId m @ '' is already a member of Team ''
        @ tm_teamId m @ ''.''))
      else Inr (s\<lparr> of_memberships := AList.update (tm_teamId m, tm_officeWorkerId m) m (of_memberships s) \<rparr>))"

definition memory_updateOfficeWorker ::
    "office_worker \<Rightarrow> office_store \<Rightarrow> osva_error + (office_worker option \<times> office_store)" where
  "memory_updateOfficeWorker x s =
     (let (row, m) = memory_update ow_id x (of_workers s) in Inr (row, s\<lparr> of_workers := m \<rparr>))"

definition memory_updateRole :: "role \<Rightarrow> office_store \<Rightarrow> osva_error + (role option \<times> office_store)" where
  "memory_updateRole x s = (let (row, m) = memory_update og_id x (of_roles s) in Inr (row, s\<lparr> of_roles := m \<rparr>))"

definition memory_updateTeam :: "team \<Rightarrow> office_store \<Rightarrow> osva_error + (team option \<times> office_store)" where
  "memory_updateTeam x s = (let (row, m) = memory_update og_id x (of_teams s) in Inr (row, s\<lparr> of_teams := m \<rparr>))"

definition memory_updateGoal :: "goal \<Rightarrow> office_store \<Rightarrow> osva_error + (goal option \<times> office_store)" where
  "memory_updateGoal x s = (let (row, m) = memory_update go_id x (of_goals s) in Inr (row, s\<lparr> of_goals := m \<rparr>))"

definition memory_saveAssignment :: "assignment \<Rightarrow> office_store \<Rightarrow> office_store" where
  "memory_saveAssignment x s = s\<lparr> of_assignments := AList.update (as_id x) x (of_assignments s) \<rparr>"

definition memory_updateAssignment ::
    "assignment \<Rightarrow> office_store \<Rightarrow> osva_error + (assignment option \<times> office_store)" where
  "memory_updateAssignment x s =
     (let (row, m) = memory_update as_id x (of_assignments s) in Inr (row, s\<lparr> of_assignments := m \<rparr>))"

definition memory_transitionAssignment ::
    "assignment_state \<Rightarrow> assignment \<Rightarrow> office_store \<Rightarrow> osva_error + (assignment \<times> office_store)" where
  "memory_transitionAssignment expectedStatus next s =
     after_check (assertLegalAssignmentTransition expectedStatus (as_status next))
       (case map_of (of_assignments s) (as_id next) of
          None \<Rightarrow> Inl (NotFoundError ''Assignment'' (as_id next))
        | Some y \<Rightarrow>
            if as_status y \<noteq> expectedStatus
            then Inl (LifecycleConflictError ''assignment'' (as_id next) (assignment_state_name expectedStatus))
            else Inr (next, s\<lparr> of_assignments := AList.update (as_id next) next (of_assignments s) \<rparr>))"

subsection \<open>What every change keeps\<close>

text \<open>
  The identity of an entity never changes. Statuses do, also of assignments that have ended: an
  update of an assignment does not look at the status the row has.
\<close>

definition worker_kept :: "office_worker \<Rightarrow> office_worker \<Rightarrow> bool" where
  "worker_kept x y \<longleftrightarrow> y = x\<lparr> ow_name := ow_name y, ow_description := ow_description y, ow_updatedAt := ow_updatedAt y \<rparr>"

definition group_kept :: "office_group \<Rightarrow> office_group \<Rightarrow> bool" where
  "group_kept x y \<longleftrightarrow> y = x\<lparr> og_name := og_name y, og_description := og_description y, og_updatedAt := og_updatedAt y \<rparr>"

definition goal_kept :: "goal \<Rightarrow> goal \<Rightarrow> bool" where
  "goal_kept x y \<longleftrightarrow> go_id y = go_id x \<and> go_workspaceId y = go_workspaceId x \<and> go_key y = go_key x"

definition assignment_kept :: "assignment \<Rightarrow> assignment \<Rightarrow> bool" where
  "assignment_kept x y \<longleftrightarrow> as_id y = as_id x \<and> as_workspaceId y = as_workspaceId x
     \<and> as_officeWorkerId y = as_officeWorkerId x \<and> as_targetType y = as_targetType x
     \<and> as_targetVersionId y = as_targetVersionId x \<and> as_input y = as_input x \<and> as_createdAt y = as_createdAt x"

lemma office_entities_kept [simp]:
  "worker_kept x x" "group_kept g g" "goal_kept h h" "assignment_kept a a"
  by (simp_all add: worker_kept_def group_kept_def goal_kept_def assignment_kept_def)

text \<open>The two repositories agree where the row is the same entity as what is written over it.\<close>

lemma columns_same:
  "assignment_kept y x \<Longrightarrow> assignment_columns x y = x"
  "assignment_kept y x \<Longrightarrow> as_goalId y = as_goalId x \<Longrightarrow> as_title y = as_title x \<Longrightarrow>
     as_description y = as_description x \<Longrightarrow> lifecycle_columns x y = x"
  by (cases x; cases y; simp add: assignment_kept_def assignment_columns_def lifecycle_columns_def)+

lemma updates_agree:
  "map_of (of_assignments s) (as_id x) = Some y \<Longrightarrow> assignment_kept y x \<Longrightarrow>
     postgres_updateAssignment x s = memory_updateAssignment x s"
  by (simp add: postgres_updateAssignment_def memory_updateAssignment_def update_row_def memory_update_def columns_same)

lemma transitions_agree:
  assumes "map_of (of_assignments s) (as_id x) = Some y" "assignment_kept y x" "as_goalId y = as_goalId x"
    "as_title y = as_title x" "as_description y = as_description x" "isLegalAssignmentTransition e (as_status x)"
  shows "memory_transitionAssignment e x s = Inr (z, t) \<longleftrightarrow> postgres_transitionAssignment e x s = Inr (Some z, t)"
  using assms by (auto simp: memory_transitionAssignment_def postgres_transitionAssignment_def Let_def
      assertLegalAssignmentTransition_def after_check_Inr columns_same)

subsection \<open>The invariant of the store\<close>

definition office_kept :: "office_store \<Rightarrow> office_store \<Rightarrow> bool" where
  "office_kept s t \<longleftrightarrow> entries_kept worker_kept (of_workers s) (of_workers t)
     \<and> entries_kept group_kept (of_roles s) (of_roles t) \<and> entries_kept group_kept (of_teams s) (of_teams t)
     \<and> entries_kept (=) (of_memberships s) (of_memberships t) \<and> entries_kept goal_kept (of_goals s) (of_goals t)
     \<and> entries_kept assignment_kept (of_assignments s) (of_assignments t)"

lemma office_kept_refl [simp]: "office_kept s s"
  by (simp add: office_kept_def entries_kept_refl)

lemma worker_kept_trans: "worker_kept x y \<Longrightarrow> worker_kept y z \<Longrightarrow> worker_kept x z"
  by (cases x; cases y; cases z) (simp add: worker_kept_def)

lemma group_kept_trans: "group_kept x y \<Longrightarrow> group_kept y z \<Longrightarrow> group_kept x z"
  by (cases x; cases y; cases z) (simp add: group_kept_def)

lemma office_kept_trans: "office_kept s t \<Longrightarrow> office_kept t u \<Longrightarrow> office_kept s u"
  unfolding office_kept_def
  by (auto elim!: entries_kept_trans [rotated] intro: worker_kept_trans group_kept_trans
      simp: goal_kept_def assignment_kept_def)

definition worker_in :: "office_store \<Rightarrow> string \<Rightarrow> string \<Rightarrow> bool" where
  "worker_in s w i \<longleftrightarrow> (\<exists>x. map_of (of_workers s) i = Some x \<and> ow_workspaceId x = w)"

definition role_in :: "office_store \<Rightarrow> string \<Rightarrow> string \<Rightarrow> bool" where
  "role_in s w i \<longleftrightarrow> (\<exists>x. map_of (of_roles s) i = Some x \<and> og_workspaceId x = w)"

definition team_in :: "office_store \<Rightarrow> string \<Rightarrow> string \<Rightarrow> bool" where
  "team_in s w i \<longleftrightarrow> (\<exists>x. map_of (of_teams s) i = Some x \<and> og_workspaceId x = w)"

definition goal_in :: "office_store \<Rightarrow> string \<Rightarrow> string \<Rightarrow> bool" where
  "goal_in s w i \<longleftrightarrow> (\<exists>x. map_of (of_goals s) i = Some x \<and> go_workspaceId x = w)"

text \<open>What refers to something refers to something of its own workspace.\<close>

definition membership_refs :: "office_store \<Rightarrow> team_membership \<Rightarrow> bool" where
  "membership_refs s m \<longleftrightarrow> (\<exists>w. team_in s w (tm_teamId m) \<and> worker_in s w (tm_officeWorkerId m)
     \<and> (\<forall>r. tm_roleId m = Some r \<longrightarrow> role_in s w r))"

definition assignment_refs :: "office_store \<Rightarrow> assignment \<Rightarrow> bool" where
  "assignment_refs s x \<longleftrightarrow> worker_in s (as_workspaceId x) (as_officeWorkerId x)
     \<and> (\<forall>g. as_goalId x = Some g \<longrightarrow> goal_in s (as_workspaceId x) g)"

definition office_ok :: "office_store \<Rightarrow> bool" where
  "office_ok s \<longleftrightarrow> (\<forall>i x. map_of (of_workers s) i = Some x \<longrightarrow> ow_id x = i)
     \<and> (\<forall>i x. map_of (of_roles s) i = Some x \<longrightarrow> og_id x = i) \<and> (\<forall>i x. map_of (of_teams s) i = Some x \<longrightarrow> og_id x = i)
     \<and> (\<forall>i x. map_of (of_goals s) i = Some x \<longrightarrow> go_id x = i)
     \<and> (\<forall>i x. map_of (of_assignments s) i = Some x \<longrightarrow> as_id x = i)
     \<and> (\<forall>k m. map_of (of_memberships s) k = Some m \<longrightarrow> membership_refs s m)
     \<and> (\<forall>i x. map_of (of_assignments s) i = Some x \<longrightarrow> assignment_refs s x)"

lemma empty_office_ok: "office_ok empty_office_store"
  by (simp add: office_ok_def empty_office_store_def)

lemma worker_keptD: "worker_kept x y \<Longrightarrow> ow_id y = ow_id x \<and> ow_workspaceId y = ow_workspaceId x"
  by (cases x; cases y; simp add: worker_kept_def)

lemma group_keptD: "group_kept x y \<Longrightarrow> og_id y = og_id x \<and> og_workspaceId y = og_workspaceId x"
  by (cases x; cases y; simp add: group_kept_def)

lemma entries_keptD: "entries_kept R m m' \<Longrightarrow> map_of m k = Some v \<Longrightarrow> \<exists>v'. map_of m' k = Some v' \<and> R v v'"
  by (simp add: entries_kept_def)

lemma in_kept:
  assumes k: "office_kept s t"
  shows "worker_in s w i \<Longrightarrow> worker_in t w i" "role_in s w i \<Longrightarrow> role_in t w i"
    "team_in s w i \<Longrightarrow> team_in t w i" "goal_in s w i \<Longrightarrow> goal_in t w i"
  using k unfolding office_kept_def worker_in_def role_in_def team_in_def goal_in_def
  by (auto dest!: entries_keptD worker_keptD group_keptD simp: goal_kept_def)

lemma refs_kept:
  assumes k: "office_kept s t"
  shows "membership_refs s m \<Longrightarrow> membership_refs t m" "assignment_refs s x \<Longrightarrow> assignment_refs t x"
proof -
  assume "membership_refs s m"
  then obtain w where "team_in s w (tm_teamId m)" "worker_in s w (tm_officeWorkerId m)"
    "\<forall>r. tm_roleId m = Some r \<longrightarrow> role_in s w r" by (auto simp: membership_refs_def)
  then show "membership_refs t m"
    unfolding membership_refs_def by (intro exI [of _ w] conjI allI impI in_kept [OF k]) simp_all
next
  assume "assignment_refs s x"
  then show "assignment_refs t x" using in_kept(1,4) [OF k] by (auto simp: assignment_refs_def)
qed

text \<open>What is left to check of a change of the store.\<close>

lemma office_okI:
  assumes k: "office_kept s t" "office_ok s"
    and w: "\<And>i x. map_of (of_workers t) i = Some x \<Longrightarrow> map_of (of_workers s) i = None \<Longrightarrow> ow_id x = i"
    and r: "\<And>i x. map_of (of_roles t) i = Some x \<Longrightarrow> map_of (of_roles s) i = None \<Longrightarrow> og_id x = i"
    and g: "\<And>i x. map_of (of_teams t) i = Some x \<Longrightarrow> map_of (of_teams s) i = None \<Longrightarrow> og_id x = i"
    and h: "\<And>i x. map_of (of_goals t) i = Some x \<Longrightarrow> map_of (of_goals s) i = None \<Longrightarrow> go_id x = i"
    and a: "\<And>i x. map_of (of_assignments t) i = Some x \<Longrightarrow> map_of (of_assignments s) i = None \<Longrightarrow> as_id x = i"
    and m: "\<And>i x. map_of (of_memberships t) i = Some x \<Longrightarrow> map_of (of_memberships s) i = None \<Longrightarrow> membership_refs t x"
    and ra: "\<And>i x. map_of (of_assignments t) i = Some x \<Longrightarrow> map_of (of_assignments s) i \<noteq> Some x \<Longrightarrow> assignment_refs t x"
  shows "office_ok t"
proof -
  note e = k(1) [unfolded office_kept_def] and o' = k(2) [unfolded office_ok_def]
  have "ow_id x = i" if "map_of (of_workers t) i = Some x" for i x
  proof (cases "map_of (of_workers s) i")
    case (Some y)
    with e that entries_keptD [of worker_kept "of_workers s" "of_workers t" i y] have "worker_kept y x" by simp
    with Some o' worker_keptD [of y x] show ?thesis by simp
  qed (rule w [OF that])
  moreover have "og_id x = i" if "map_of (of_roles t) i = Some x" for i x
  proof (cases "map_of (of_roles s) i")
    case (Some y)
    with e that entries_keptD [of group_kept "of_roles s" "of_roles t" i y] have "group_kept y x" by simp
    with Some o' group_keptD [of y x] show ?thesis by simp
  qed (rule r [OF that])
  moreover have "og_id x = i" if "map_of (of_teams t) i = Some x" for i x
  proof (cases "map_of (of_teams s) i")
    case (Some y)
    with e that entries_keptD [of group_kept "of_teams s" "of_teams t" i y] have "group_kept y x" by simp
    with Some o' group_keptD [of y x] show ?thesis by simp
  qed (rule g [OF that])
  moreover have "go_id x = i" if "map_of (of_goals t) i = Some x" for i x
  proof (cases "map_of (of_goals s) i")
    case (Some y)
    with e that entries_keptD [of goal_kept "of_goals s" "of_goals t" i y] have "goal_kept y x" by simp
    with Some o' show ?thesis by (simp add: goal_kept_def)
  qed (rule h [OF that])
  moreover have "as_id x = i" if "map_of (of_assignments t) i = Some x" for i x
  proof (cases "map_of (of_assignments s) i")
    case (Some y)
    with e that entries_keptD [of assignment_kept "of_assignments s" "of_assignments t" i y] have "assignment_kept y x"
      by simp
    with Some o' show ?thesis by (simp add: assignment_kept_def)
  qed (rule a [OF that])
  moreover have "membership_refs t x" if "map_of (of_memberships t) i = Some x" for i x
  proof (cases "map_of (of_memberships s) i")
    case (Some y)
    with e that entries_keptD [of "(=)" "of_memberships s" "of_memberships t" i y] have "x = y" by simp
    with Some o' refs_kept(1) [OF k(1)] show ?thesis by blast
  qed (rule m [OF that])
  moreover have "assignment_refs t x" if "map_of (of_assignments t) i = Some x" for i x
  proof (cases "map_of (of_assignments s) i = Some x")
    case True
    with o' refs_kept(2) [OF k(1)] show ?thesis by blast
  qed (rule ra [OF that])
  ultimately show ?thesis by (simp add: office_ok_def)
qed

end
