(* ===== verification/Workflow_Reconcile.thy ===== *)
theory Workflow_Reconcile
  imports Workflow_Store Run_Execution Schedule Office
begin

text \<open>
  Reconciliation of a workflow run: \<open>orchestration/src/reconcile-workflow-run.ts\<close>,
  \<open>workflow-wait-reconciliation.ts\<close>, \<open>workflow-idempotency.ts\<close> and
  \<open>workflow-orchestrator-tick.ts\<close>. A reconciliation reads and writes the repositories in some
  forty places, and between any two of them other orchestrators, workers and the API may act. A
  handler is therefore a program of single accesses to the stores; who else acts in between, and
  which accesses fail, is decided by whoever runs it. Logging and telemetry are left out.
\<close>

subsection \<open>Programs\<close>

record 'w flow =
  fl_platform :: "'w platform"
  fl_catalog :: workflow_catalog
  fl_store :: workflow_run_store
  fl_waits :: wait_store
  fl_events :: event_store
  fl_approvals :: approval_store
  fl_schedules :: schedule_store
  fl_office :: office_store

text \<open>
  What may go wrong with an access: the driver throws before it was done, or it was done and the
  answer is lost.
\<close>

datatype fault = No_fault | Not_done string | Not_answered string

datatype ('w, 'a) act =
    Ended "osva_error + 'a"
  | Access "fault \<Rightarrow> 'w flow \<Rightarrow> 'w flow \<times> ('w, 'a) act"
  | Draw "string \<Rightarrow> ('w, 'a) act"

definition access_act :: "('w flow \<Rightarrow> 'w flow \<times> (osva_error + 'a)) \<Rightarrow> ('w, 'a) act" where
  "access_act operation = Access (\<lambda>fault f.
     case fault of
       No_fault \<Rightarrow> (let (g, r) = operation f in (g, Ended r))
     | Not_done m \<Rightarrow> (f, Ended (Inl (OtherError m)))
     | Not_answered m \<Rightarrow> (fst (operation f), Ended (Inl (OtherError m))))"

definition give :: "'a \<Rightarrow> ('w, 'a) act" where
  "give x = Ended (Inr x)"

definition lift_act :: "osva_error + 'a \<Rightarrow> ('w, 'a) act" where
  "lift_act r = Ended r"

definition check_act :: "osva_error option \<Rightarrow> ('w, unit) act" where
  "check_act c = Ended (case c of None \<Rightarrow> Inr () | Some e \<Rightarrow> Inl e)"

primrec act_settle :: "('w, 'a) act \<Rightarrow> (osva_error + 'a \<Rightarrow> ('w, 'b) act) \<Rightarrow> ('w, 'b) act" where
  "act_settle (Ended r) k = k r"
| "act_settle (Access a) k = Access (\<lambda>fault f. map_prod id (\<lambda>m. act_settle m k) (a fault f))"
| "act_settle (Draw d) k = Draw (\<lambda>i. act_settle (d i) k)"

definition act_then :: "('w, 'a) act \<Rightarrow> ('a \<Rightarrow> ('w, 'b) act) \<Rightarrow> ('w, 'b) act" where
  "act_then m k = act_settle m (\<lambda>r. case r of Inl e \<Rightarrow> Ended (Inl e) | Inr x \<Rightarrow> k x)"

definition act_catch :: "('w, 'a) act \<Rightarrow> (osva_error \<Rightarrow> ('w, 'a) act) \<Rightarrow> ('w, 'a) act" where
  "act_catch m h = act_settle m (\<lambda>r. case r of Inl e \<Rightarrow> h e | Inr x \<Rightarrow> Ended (Inr x))"

text \<open>
  \<open>Promise.all\<close> of one action for each element: all of them run, whatever happens to the others,
  and the first error is thrown. They run one after the other here.
\<close>

fun for_all :: "('x \<Rightarrow> ('w, unit) act) \<Rightarrow> 'x list \<Rightarrow> ('w, unit) act" where
  "for_all a [] = give ()"
| "for_all a (x # xs) =
     act_settle (a x) (\<lambda>r. act_settle (for_all a xs) (\<lambda>r'. Ended (case r of Inl e \<Rightarrow> Inl e | Inr u \<Rightarrow> r')))"

text \<open>
  A program on its own: nothing fails, nobody else acts, and the identifiers are those of \<open>ids\<close>.
\<close>

primrec run_alone :: "('w, 'a) act \<Rightarrow> (nat \<Rightarrow> string) \<Rightarrow> 'w flow \<Rightarrow> 'w flow \<times> (osva_error + 'a)" where
  "run_alone (Ended r) = (\<lambda>ids f. (f, r))"
| "run_alone (Access a) = (\<lambda>ids f. case map_prod id run_alone (a No_fault f) of (g, k) \<Rightarrow> k ids g)"
| "run_alone (Draw d) = (\<lambda>ids f. run_alone (d (ids 0)) (\<lambda>n. ids (Suc n)) f)"

text \<open>
  What a program is configured with: the hash and the writing operations of the workflow run
  repository, memory or PostgreSQL. The last field does not matter to what a program does: it is
  the set of the identifiers the process may draw, as no two processes draw the same UUID.
\<close>

record reconcile_env =
  re_sha256 :: "json_token list \<Rightarrow> string"
  re_transitionWorkflowRun :: "workflow_run_state \<Rightarrow> workflow_run \<Rightarrow> workflow_run_store
    \<Rightarrow> osva_error + (workflow_run \<times> workflow_run_store)"
  re_saveWorkflowNodeRun :: "workflow_node_run \<Rightarrow> workflow_run_store \<Rightarrow> osva_error + workflow_run_store"
  re_saveWorkflowNodeRunTransition :: "workflow_node_run_state \<Rightarrow> workflow_node_run \<Rightarrow> workflow_run_store
    \<Rightarrow> osva_error + (workflow_node_run \<times> workflow_run_store)"
  re_mine :: "string \<Rightarrow> bool"

record reconcile_command =
  rcm_workflowRun :: workflow_run
  rcm_now :: js_date

definition reading :: "('w flow \<Rightarrow> 'a) \<Rightarrow> ('w, 'a) act" where
  "reading sel = access_act (\<lambda>f. (f, Inr (sel f)))"

definition new_id :: "('w, string) act" where
  "new_id = Draw (\<lambda>i. Ended (Inr i))"

definition on_store :: "(workflow_run_store \<Rightarrow> osva_error + ('a \<times> workflow_run_store)) \<Rightarrow> ('w, 'a) act" where
  "on_store operation = access_act (\<lambda>g.
     case operation (fl_store g) of Inl e \<Rightarrow> (g, Inl e) | Inr (x, s) \<Rightarrow> (g\<lparr> fl_store := s \<rparr>, Inr x))"

definition on_waits :: "(wait_store \<Rightarrow> osva_error + ('a \<times> wait_store)) \<Rightarrow> ('w, 'a) act" where
  "on_waits operation = access_act (\<lambda>g.
     case operation (fl_waits g) of Inl e \<Rightarrow> (g, Inl e) | Inr (x, s) \<Rightarrow> (g\<lparr> fl_waits := s \<rparr>, Inr x))"

definition on_approvals :: "(approval_store \<Rightarrow> osva_error + ('a \<times> approval_store)) \<Rightarrow> ('w, 'a) act" where
  "on_approvals operation = access_act (\<lambda>g.
     case operation (fl_approvals g) of Inl e \<Rightarrow> (g, Inl e) | Inr (x, s) \<Rightarrow> (g\<lparr> fl_approvals := s \<rparr>, Inr x))"

definition on_runs :: "(run_store \<Rightarrow> 'a store_result) \<Rightarrow> ('w, 'a) act" where
  "on_runs operation = access_act (\<lambda>g.
     let (s, r) = operation (pf_runs (fl_platform g))
     in (g\<lparr> fl_platform := (fl_platform g)\<lparr> pf_runs := s \<rparr> \<rparr>, r))"

definition on_queue :: "(job_queue \<Rightarrow> job_queue \<times> (osva_error + 'a)) \<Rightarrow> ('w, 'a) act" where
  "on_queue operation = access_act (\<lambda>g.
     let (q, r) = operation (pf_queue (fl_platform g))
     in (g\<lparr> fl_platform := (fl_platform g)\<lparr> pf_queue := q \<rparr> \<rparr>, r))"

text \<open>An operation that returns nothing but its new store.\<close>

definition no_result :: "('s \<Rightarrow> osva_error + 's) \<Rightarrow> 's \<Rightarrow> osva_error + (unit \<times> 's)" where
  "no_result operation s = and_then (operation s) (\<lambda>s'. Inr ((), s'))"

lemma no_result_Inr [simp]: "no_result operation s = Inr (x, t) \<longleftrightarrow> operation s = Inr t"
  by (auto simp: no_result_def and_then_Inr)

subsection \<open>Node runs\<close>

abbreviation run_store_of :: "'w flow \<Rightarrow> run_store" where
  "run_store_of f \<equiv> pf_runs (fl_platform f)"

definition loadVersion :: "string \<Rightarrow> ('w, workflow_version) act" where
  "loadVersion i =
     act_then (reading (\<lambda>f. findWorkflowVersionById (fl_catalog f) i)) (\<lambda>version.
       case version of
         None \<Rightarrow> lift_act (Inl (DomainInvariantError (''WorkflowRun references missing WorkflowVersion '' @ i @ ''.'')))
       | Some v \<Rightarrow> give v)"

definition reloadWorkflowRun :: "string \<Rightarrow> ('w, workflow_run option) act" where
  "reloadWorkflowRun i = reading (\<lambda>f. findWorkflowRunById (fl_store f) i)"

text \<open>The guard in front of most phases: the run again, unless it is gone or terminal.\<close>

definition reloadActive :: "string \<Rightarrow> ('w, workflow_run option) act" where
  "reloadActive i =
     act_then (reloadWorkflowRun i) (\<lambda>w.
       case w of
         None \<Rightarrow> give None
       | Some w \<Rightarrow> give (if isTerminalWorkflowRunState (w_status w) then None else Some w))"

definition listNodes :: "string \<Rightarrow> ('w, workflow_node_run list) act" where
  "listNodes i = reading (\<lambda>f. listWorkflowNodeRuns (fl_store f) i)"

definition transitionNode ::
    "reconcile_env \<Rightarrow> workflow_node_run \<Rightarrow> workflow_node_run \<Rightarrow> ('w, workflow_node_run option) act" where
  "transitionNode env current next =
     act_catch
       (act_then (on_store (re_saveWorkflowNodeRunTransition env (n_status current) next)) (\<lambda>n. give (Some n)))
       (\<lambda>e. if is_LifecycleConflictError e
            then reading (\<lambda>f. findWorkflowNodeRunById (fl_store f) (n_id current))
            else lift_act (Inl e))"

text \<open>A node run as a mark gives it, stored if the mark did not throw.\<close>

definition storeMarked :: "reconcile_env \<Rightarrow> workflow_node_run \<Rightarrow> osva_error + workflow_node_run
    \<Rightarrow> ('w, workflow_node_run option) act" where
  "storeMarked env current marked = act_then (lift_act marked) (transitionNode env current)"

definition saveNode :: "reconcile_env \<Rightarrow> workflow_node_run \<Rightarrow> ('w, unit) act" where
  "saveNode env n =
     on_store (no_result (re_saveWorkflowNodeRun env n))"

text \<open>
  \<open>materializeNodeRun\<close> of both classes: when another process was first, its node run is taken.
\<close>

definition node_props :: "string \<Rightarrow> workflow_run \<Rightarrow> string \<Rightarrow> nat \<Rightarrow> jsv \<Rightarrow> js_date \<Rightarrow> node_run_create_props" where
  "node_props i w nodeKey sequence input now =
     \<lparr> nc_id = i, nc_workspaceId = w_workspaceId w, nc_workflowRunId = w_id w,
       nc_workflowNodeKey = nodeKey, nc_sequence = int sequence, nc_input = input, nc_createdAt = now \<rparr>"

definition materializeNodeRun :: "reconcile_env \<Rightarrow> workflow_run \<Rightarrow> string \<Rightarrow> nat \<Rightarrow> jsv \<Rightarrow> js_date \<Rightarrow> bool
    \<Rightarrow> ('w, workflow_node_run) act" where
  "materializeNodeRun env w nodeKey sequence input now skipped =
     act_then new_id (\<lambda>i.
     act_then (lift_act (if skipped
         then WorkflowNodeRun_createSkipped (node_props i w nodeKey sequence input now)
         else WorkflowNodeRun_create (node_props i w nodeKey sequence input now))) (\<lambda>n.
       act_catch (act_then (saveNode env n) (\<lambda>u. give n))
         (\<lambda>e. if domain_error_mentions ''already exists'' e
              then act_then (reading (\<lambda>f. findWorkflowNodeRunByWorkflowRunAndKey (fl_store f) (w_id w) nodeKey))
                (\<lambda>existing. case existing of None \<Rightarrow> lift_act (Inl e) | Some n' \<Rightarrow> give n')
              else lift_act (Inl e))))"

definition sequence_or_one :: "workflow_graph \<Rightarrow> string \<Rightarrow> nat" where
  "sequence_or_one g k = (case map_of (g_sequenceByKey g) k of None \<Rightarrow> 1 | Some i \<Rightarrow> i)"

text \<open>The node run of a ready node: the one listed, or a new one with the node's input.\<close>

definition nodeRunFor :: "reconcile_env \<Rightarrow> workflow_graph \<Rightarrow> workflow_run \<Rightarrow> node_runs \<Rightarrow> js_date \<Rightarrow> string
    \<Rightarrow> ('w, workflow_node_run) act" where
  "nodeRunFor env g w runs now nodeKey =
     (case map_of runs nodeKey of
        Some n \<Rightarrow> give n
      | None \<Rightarrow> materializeNodeRun env w nodeKey (sequence_or_one g nodeKey)
          (inputForNode g nodeKey runs (w_input w)) now False)"

subsection \<open>Agent nodes and their child runs\<close>

definition workflowNodeRunIdempotencyKey :: "string \<Rightarrow> string \<Rightarrow> string" where
  "workflowNodeRunIdempotencyKey workflowRunId nodeKey = ''workflow:'' @ workflowRunId @ '':'' @ nodeKey"

definition childRunFailedError :: "string option \<Rightarrow> string \<Rightarrow> workflow_run_error" where
  "childRunFailedError runId status =
     \<lparr> we_code = ''CHILD_RUN_FAILED'',
       we_message = (case runId of
           None \<Rightarrow> ''A workflow node failed before a child Run was recorded.''
         | Some i \<Rightarrow> ''Child Run '' @ i @ '' terminated as '' @ status @ ''.'') \<rparr>"

text \<open>
  \<open>CreateRun\<close> with its accesses to the repositories apart: the reads, the creation, the transition
  to QUEUED and the queue. Without interference it is \<open>createRun\<close>.
\<close>

definition prepareRun :: "agent_store \<Rightarrow> create_run_command \<Rightarrow> osva_error + run \<times> run_attempt" where
  "prepareRun agents c =
     and_then (assertAgentOwnership agents c) (\<lambda>v.
     and_then (resolveEffectiveBindings v) (\<lambda>bindings.
     and_then (new_run c bindings) (\<lambda>pending.
     and_then (RunAttempt_createFirst (crc_runAttemptId c) (r_id pending) (crc_now c) None) (\<lambda>attempt.
       Inr (pending, attempt)))))"

definition enqueueCreated :: "run \<Rightarrow> run_attempt \<Rightarrow> ('w, run) act" where
  "enqueueCreated queued attempt =
     act_catch (act_then (on_queue (enqueue (a_id attempt))) (\<lambda>outcome. give queued))
       (\<lambda>e. lift_act (Inl (EnqueueFailedError (r_id queued) (a_id attempt))))"

definition createRunAwaiting :: "create_run_command \<Rightarrow> ('w, run) act" where
  "createRunAwaiting c =
     act_then (reading (\<lambda>f. prepareRun (pf_agents (fl_platform f)) c)) (\<lambda>prepared.
     act_then (lift_act prepared) (\<lambda>(pending, attempt).
     act_then (on_runs (createRunWithInitialAttempt pending attempt)) (\<lambda>u.
     act_then (on_runs (queue_created pending (crc_now c))) (\<lambda>queued.
       enqueueCreated queued attempt))))"

definition child_command :: "string \<Rightarrow> string \<Rightarrow> workflow_run \<Rightarrow> agent_version \<Rightarrow> workflow_node_run \<Rightarrow> string
    \<Rightarrow> js_date \<Rightarrow> create_run_command" where
  "child_command runId attemptId w v n key now =
     \<lparr> crc_runId = runId, crc_runAttemptId = attemptId, crc_workspaceId = w_workspaceId w,
       crc_agentId = av_agentId v, crc_agentVersionId = av_id v, crc_input = n_input n,
       crc_idempotencyKey = Some key, crc_evaluationRunId = None, crc_evaluationCaseId = None,
       crc_restrictPersistentMemory = None, crc_now = now \<rparr>"

text \<open>The child run and whether it was put into the queue.\<close>

definition createChildRun :: "workflow_run \<Rightarrow> workflow_node_run \<Rightarrow> string \<Rightarrow> string \<Rightarrow> js_date
    \<Rightarrow> ('w, run \<times> bool) act" where
  "createChildRun w n agentVersionId key now =
     act_then (reading (\<lambda>f. findAgentVersionById (pf_agents (fl_platform f)) agentVersionId)) (\<lambda>found.
       case found of
         None \<Rightarrow> lift_act (Inl (DomainInvariantError (''Workflow node '' @ quoted (n_workflowNodeKey n)
           @ '' references unknown AgentVersion '' @ quoted agentVersionId @ ''.'')))
       | Some v \<Rightarrow>
           act_then new_id (\<lambda>runId. act_then new_id (\<lambda>attemptId.
             act_catch
               (act_then (createRunAwaiting (child_command runId attemptId w v n key now)) (\<lambda>run. give (run, True)))
               (\<lambda>e. if domain_error_mentions ''idempotency key'' e
                    then act_then (reading (\<lambda>f.
                        findRunByWorkspaceIdempotencyKey (run_store_of f) (w_workspaceId w) key))
                      (\<lambda>existing. case existing of None \<Rightarrow> lift_act (Inl e) | Some run \<Rightarrow> give (run, False))
                    else case e of
                      EnqueueFailedError createdId createdAttemptId \<Rightarrow>
                        act_then (reading (\<lambda>f. findRunById (run_store_of f) createdId))
                          (\<lambda>existing. case existing of None \<Rightarrow> lift_act (Inl e) | Some run \<Rightarrow> give (run, False))
                    | _ \<Rightarrow> lift_act (Inl e)))))"

text \<open>Without a conflict, the run is queued; an error of the queue is only logged.\<close>

definition enqueueInitialAttempt :: "run \<Rightarrow> run_attempt \<Rightarrow> js_date \<Rightarrow> ('w, unit) act" where
  "enqueueInitialAttempt run initialAttempt now =
     act_then
       (if r_status run = Run_PENDING
        then act_then (lift_act (Run_transitionTo run Run_QUEUED now)) (\<lambda>queued.
          act_catch (act_then (on_runs (transitionRun Run_PENDING queued)) (\<lambda>r. give (Some r)))
            (\<lambda>e. if is_LifecycleConflictError e then give None else lift_act (Inl e)))
        else give (Some run)) (\<lambda>currentRun.
       case currentRun of
         None \<Rightarrow> give ()
       | Some r \<Rightarrow>
           if r_status r \<noteq> Run_QUEUED then give ()
           else act_catch (act_then (on_queue (enqueue (a_id initialAttempt))) (\<lambda>outcome. give ()))
             (\<lambda>e. give ()))"

definition findInitialRunAttempt :: "run_store \<Rightarrow> string \<Rightarrow> run_attempt option" where
  "findInitialRunAttempt s runId = find (\<lambda>a. a_sequence a = 1) (listRunAttempts s runId)"

definition agent_version_of :: "workflow_version \<Rightarrow> string \<Rightarrow> osva_error + string" where
  "agent_version_of version nodeKey =
     (case find (\<lambda>n. wn_key n = nodeKey) (wd_nodes (wv_definition version)) of
        Some n \<Rightarrow>
          (case wn_body n of
             Node_AGENT (Some v) \<Rightarrow> Inr v
           | Node_AGENT None \<Rightarrow> Inr ''''
           | _ \<Rightarrow> Inl (DomainInvariantError (''Workflow node '' @ quoted nodeKey @ '' is not an AGENT node.'')))
      | None \<Rightarrow> Inl (DomainInvariantError (''Workflow node '' @ quoted nodeKey @ '' is not an AGENT node.'')))"

text \<open>The child run of a node: the recorded one, the one with the node's idempotency key, or a new one.\<close>

definition findChildRun :: "workflow_run \<Rightarrow> workflow_node_run \<Rightarrow> string \<Rightarrow> ('w, run option) act" where
  "findChildRun w n key =
     act_then
       (case n_childRunId n of
          None \<Rightarrow> give None
        | Some i \<Rightarrow> reading (\<lambda>f. findRunById (run_store_of f) i)) (\<lambda>recorded.
       case recorded of
         Some run \<Rightarrow> give (Some run)
       | None \<Rightarrow> reading (\<lambda>f. findRunByWorkspaceIdempotencyKey (run_store_of f) (w_workspaceId w) key))"

definition attachChildRun ::
    "reconcile_env \<Rightarrow> workflow_node_run \<Rightarrow> run \<Rightarrow> js_date \<Rightarrow> ('w, workflow_node_run) act" where
  "attachChildRun env n run now =
     (if n_childRunId n = Some (r_id run) then give n
      else act_then (lift_act (WorkflowNodeRun_withChildRunId n (r_id run) now)) (\<lambda>n'.
        act_then (saveNode env n') (\<lambda>u. give n')))"

definition startNode :: "reconcile_env \<Rightarrow> workflow_node_run \<Rightarrow> js_date \<Rightarrow> ('w, workflow_node_run) act" where
  "startNode env n now =
     (if n_status n = NR_PENDING
      then act_then (storeMarked env n (WorkflowNodeRun_markRunning n now)) (\<lambda>running.
        give (case running of None \<Rightarrow> n | Some n' \<Rightarrow> n'))
      else give n)"

definition redeliverChildRun :: "run \<Rightarrow> js_date \<Rightarrow> ('w, unit) act" where
  "redeliverChildRun run now =
     act_then (reading (\<lambda>f. findInitialRunAttempt (run_store_of f) (r_id run))) (\<lambda>initialAttempt.
       case initialAttempt of
         None \<Rightarrow> lift_act (Inl (DomainInvariantError (''Workflow child Run '' @ r_id run
           @ '' is missing its initial RunAttempt.'')))
       | Some a \<Rightarrow> enqueueInitialAttempt run a now)"

definition ensureChildRun :: "reconcile_env \<Rightarrow> workflow_run \<Rightarrow> workflow_version \<Rightarrow> workflow_node_run \<Rightarrow> js_date
    \<Rightarrow> ('w, workflow_node_run) act" where
  "ensureChildRun env w version n now =
     act_then (lift_act (agent_version_of version (n_workflowNodeKey n))) (\<lambda>agentVersionId.
     let key = workflowNodeRunIdempotencyKey (w_id w) (n_workflowNodeKey n)
     in act_then (findChildRun w n key) (\<lambda>found.
        act_then (case found of
            Some run \<Rightarrow> give (run, False)
          | None \<Rightarrow> createChildRun w n agentVersionId key now) (\<lambda>(run, enqueuedByCreateRun).
        act_then (attachChildRun env n run now) (\<lambda>n'.
        act_then (startNode env n' now) (\<lambda>n''.
          if enqueuedByCreateRun \<or> isTerminalRunState (r_status run) \<or> r_status run = Run_RUNNING then give n''
          else act_then (redeliverChildRun run now) (\<lambda>u. give n''))))))"

definition succeeded_output :: "run_store \<Rightarrow> string \<Rightarrow> jsv" where
  "succeeded_output s runId =
     (case find (\<lambda>a. a_status a = Att_SUCCEEDED) (listRunAttempts s runId) of
        None \<Rightarrow> JNull | Some a \<Rightarrow> or_null (a_output a))"

definition observeChildRun :: "reconcile_env \<Rightarrow> workflow_node_run \<Rightarrow> js_date \<Rightarrow> ('w, unit) act" where
  "observeChildRun env n now =
     (case n_childRunId n of
        None \<Rightarrow> give ()
      | Some childRunId \<Rightarrow>
        act_then (reading (\<lambda>f. findRunById (run_store_of f) childRunId)) (\<lambda>found.
          case found of
            None \<Rightarrow> give ()
          | Some run \<Rightarrow>
              if r_status run = Run_SUCCEEDED
              then act_then (reading (\<lambda>f. succeeded_output (run_store_of f) (r_id run))) (\<lambda>output.
                if n_status n \<noteq> NR_SUCCEEDED
                then act_then (storeMarked env n (WorkflowNodeRun_markSucceeded n now output None)) (\<lambda>u. give ())
                else give ())
              else if r_status run \<in> {Run_FAILED, Run_TIMED_OUT, Run_CANCELLED}
              then (if n_status n \<noteq> NR_FAILED
                then act_then (storeMarked env n (WorkflowNodeRun_markFailed n now
                    (childRunFailedError (Some (r_id run)) (run_state_name (r_status run))))) (\<lambda>u. give ())
                else give ())
              else give ()))"

definition processAgentNode ::
    "reconcile_env \<Rightarrow> workflow_version \<Rightarrow> workflow_node_run \<Rightarrow> js_date \<Rightarrow> ('w, unit) act" where
  "processAgentNode env version n now =
     act_then (reloadWorkflowRun (n_workflowRunId n)) (\<lambda>found.
       case found of
         None \<Rightarrow> give ()
       | Some w \<Rightarrow> act_then (ensureChildRun env w version n now) (\<lambda>n'. observeChildRun env n' now))"

definition is_agent_key :: "workflow_graph \<Rightarrow> string \<Rightarrow> bool" where
  "is_agent_key g k = (case map_of (g_nodesByKey g) k of None \<Rightarrow> False | Some n \<Rightarrow> node_type (wn_body n) = ''AGENT'')"

definition observeExistingAgents ::
    "reconcile_env \<Rightarrow> workflow_graph \<Rightarrow> reconcile_command \<Rightarrow> ('w, unit) act" where
  "observeExistingAgents env g c =
     act_then (listNodes (w_id (rcm_workflowRun c))) (\<lambda>nodeRuns.
     act_then (loadVersion (w_workflowVersionId (rcm_workflowRun c))) (\<lambda>version.
       for_all (\<lambda>n. if \<not> is_agent_key g (n_workflowNodeKey n) \<or> isTerminalWorkflowNodeRunState (n_status n)
           then give () else processAgentNode env version n (rcm_now c)) nodeRuns))"

definition startReadyAgents ::
    "reconcile_env \<Rightarrow> workflow_graph \<Rightarrow> workflow_version \<Rightarrow> reconcile_command \<Rightarrow> ('w, unit) act" where
  "startReadyAgents env g version c =
     act_then (reloadActive (w_id (rcm_workflowRun c))) (\<lambda>active.
       case active of
         None \<Rightarrow> give ()
       | Some w \<Rightarrow>
           act_then (listNodes (w_id w)) (\<lambda>listed.
             let runs = nodeRunsByKey listed;
                 ready = filter (\<lambda>k. is_agent_key g k \<and> isNodeReady g k runs) (map_keys (g_nodesByKey g))
             in for_all (\<lambda>k. act_then (nodeRunFor env g w runs (rcm_now c) k) (\<lambda>n.
                    if isTerminalWorkflowNodeRunState (n_status n) then give ()
                    else processAgentNode env version n (rcm_now c))) ready))"

subsection \<open>Skips, branches, forks and joins\<close>

definition skipNode ::
    "reconcile_env \<Rightarrow> workflow_graph \<Rightarrow> workflow_run \<Rightarrow> node_runs \<Rightarrow> js_date \<Rightarrow> string \<Rightarrow> ('w, unit) act" where
  "skipNode env g w runs now nodeKey =
     (if \<not> isNodeSkippable g nodeKey runs then give ()
      else case map_of runs nodeKey of
        None \<Rightarrow> act_then (materializeNodeRun env w nodeKey (sequence_or_one g nodeKey)
            (inputForNode g nodeKey runs (w_input w)) now True) (\<lambda>n. give ())
      | Some existing \<Rightarrow>
          if n_status existing = NR_PENDING
          then act_then (storeMarked env existing (WorkflowNodeRun_markSkipped existing now)) (\<lambda>u. give ())
          else give ())"

definition propagateSkips :: "reconcile_env \<Rightarrow> workflow_graph \<Rightarrow> reconcile_command \<Rightarrow> ('w, unit) act" where
  "propagateSkips env g c =
     act_then (reloadActive (w_id (rcm_workflowRun c))) (\<lambda>active.
       case active of
         None \<Rightarrow> give ()
       | Some w \<Rightarrow>
           act_then (listNodes (w_id w)) (\<lambda>listed.
             for_all (skipNode env g w (nodeRunsByKey listed) (rcm_now c)) (map_keys (g_nodesByKey g))))"

text \<open>What a branch, fork or join node does once it runs.\<close>

definition completeNode ::
    "reconcile_env \<Rightarrow> wf_node \<Rightarrow> workflow_node_run \<Rightarrow> js_date \<Rightarrow> ('w, unit) act" where
  "completeNode env node n now =
     (if node_type (wn_body node) = ''WAIT'' \<or> node_type (wn_body node) = ''APPROVAL''
      then lift_act (Inl (DomainInvariantError (''Orchestration resolver cannot progress ''
        @ node_type (wn_body node) @ '' node '' @ quoted (wn_key node) @ ''.'')))
      else case wn_body node of
        Node_BRANCH selector cases defaultTo \<Rightarrow>
          act_then (storeMarked env n (WorkflowNodeRun_markSucceeded n now (n_input n)
            (Some (selectBranchTarget selector cases defaultTo (n_input n))))) (\<lambda>u. give ())
      | _ \<Rightarrow> act_then (storeMarked env n (WorkflowNodeRun_markSucceeded n now (n_input n) None)) (\<lambda>u. give ()))"

definition resolveOrchestrationNode :: "reconcile_env \<Rightarrow> workflow_graph \<Rightarrow> workflow_run \<Rightarrow> node_runs
    \<Rightarrow> js_date \<Rightarrow> wf_node \<Rightarrow> ('w, unit) act" where
  "resolveOrchestrationNode env g w runs now node =
     act_then (nodeRunFor env g w runs now (wn_key node)) (\<lambda>n.
       if isTerminalWorkflowNodeRunState (n_status n) then give ()
       else act_then (if n_status n = NR_PENDING then storeMarked env n (WorkflowNodeRun_markRunning n now)
           else give (Some n)) (\<lambda>running.
         case running of
           None \<Rightarrow> give ()
         | Some n' \<Rightarrow> if n_status n' \<noteq> NR_RUNNING then give () else completeNode env node n' now))"

definition is_orchestration_node :: "wf_node \<Rightarrow> bool" where
  "is_orchestration_node node \<longleftrightarrow> node_type (wn_body node) \<notin> {''AGENT'', ''APPROVAL'', ''WAIT''}"

text \<open>At most as many rounds as there are nodes; a round resolves the nodes that are ready by then.\<close>

fun resolveRounds :: "nat \<Rightarrow> reconcile_env \<Rightarrow> workflow_graph \<Rightarrow> reconcile_command \<Rightarrow> ('w, unit) act" where
  "resolveRounds 0 env g c = give ()"
| "resolveRounds (Suc steps) env g c =
     act_then (reloadActive (w_id (rcm_workflowRun c))) (\<lambda>active.
       case active of
         None \<Rightarrow> give ()
       | Some w \<Rightarrow>
           act_then (listNodes (w_id w)) (\<lambda>listed.
             let runs = nodeRunsByKey listed;
                 ready = filter (\<lambda>(k, node). is_orchestration_node node \<and> isNodeReady g k runs) (g_nodesByKey g)
             in if ready = [] then give ()
                else act_then (for_all (\<lambda>(k, node). resolveOrchestrationNode env g w runs (rcm_now c) node) ready)
                  (\<lambda>u. act_then (propagateSkips env g c) (\<lambda>u. resolveRounds steps env g c))))"

definition resolveOrchestrationNodes :: "reconcile_env \<Rightarrow> workflow_graph \<Rightarrow> reconcile_command \<Rightarrow> ('w, unit) act" where
  "resolveOrchestrationNodes env g c = resolveRounds (length (g_nodesByKey g)) env g c"

subsection \<open>Approvals\<close>

definition approvalRejectedError :: workflow_run_error where
  "approvalRejectedError = \<lparr> we_code = ''APPROVAL_REJECTED'', we_message = ''The approval was rejected.'' \<rparr>"

definition approvalOperationDeniedError :: workflow_run_error where
  "approvalOperationDeniedError = \<lparr> we_code = ''APPROVAL_OPERATION_MISMATCH'',
     we_message = ''The approval does not authorize the current workflow operation.'' \<rparr>"

definition node_of_type :: "workflow_graph \<Rightarrow> string \<Rightarrow> string \<Rightarrow> bool" where
  "node_of_type g t k = (case map_of (g_nodesByKey g) k of None \<Rightarrow> False | Some n \<Rightarrow> node_type (wn_body n) = t)"

definition observeDecision :: "reconcile_env \<Rightarrow> js_date \<Rightarrow> workflow_node_run \<Rightarrow> approval_request \<Rightarrow> ('w, unit) act" where
  "observeDecision env now n request =
     (if ap_status request = AR_APPROVED
      then (case (case assertWorkflowNodeApprovalBinding (re_sha256 env) request n of
               Some e \<Rightarrow> Some e | None \<Rightarrow> assertApprovalNotExpired request now) of
              Some (ApprovalOperationMismatchError i) \<Rightarrow>
                act_then (storeMarked env n (WorkflowNodeRun_markFailed n now approvalOperationDeniedError)) (\<lambda>u. give ())
            | Some (ApprovalExpiredError i) \<Rightarrow>
                act_then (storeMarked env n (WorkflowNodeRun_markFailed n now approvalOperationDeniedError)) (\<lambda>u. give ())
            | Some e \<Rightarrow> lift_act (Inl e)
            | None \<Rightarrow>
                act_then (storeMarked env n (WorkflowNodeRun_markSucceeded n now (n_input n) None)) (\<lambda>u. give ()))
      else act_then (storeMarked env n (WorkflowNodeRun_markFailed n now approvalRejectedError)) (\<lambda>u. give ()))"

definition observeApproval ::
    "reconcile_env \<Rightarrow> workflow_graph \<Rightarrow> js_date \<Rightarrow> workflow_node_run \<Rightarrow> ('w, unit) act" where
  "observeApproval env g now n =
     (if \<not> node_of_type g ''APPROVAL'' (n_workflowNodeKey n) \<or> n_status n \<noteq> NR_WAITING then give ()
      else act_then (reading (\<lambda>f. findApprovalRequestByWorkflowNodeRunId (fl_approvals f) (n_id n))) (\<lambda>found.
        case found of
          None \<Rightarrow> give ()
        | Some request \<Rightarrow>
            if ap_status request = AR_PENDING then give () else observeDecision env now n request))"

definition observeApprovalDecisions ::
    "reconcile_env \<Rightarrow> workflow_graph \<Rightarrow> reconcile_command \<Rightarrow> ('w, unit) act" where
  "observeApprovalDecisions env g c =
     act_then (listNodes (w_id (rcm_workflowRun c))) (for_all (observeApproval env g (rcm_now c)))"

definition ensureApprovalRequest :: "reconcile_env \<Rightarrow> workflow_node_run \<Rightarrow> js_date \<Rightarrow> ('w, unit) act" where
  "ensureApprovalRequest env n now =
     act_then (reading (\<lambda>f. findApprovalRequestByWorkflowNodeRunId (fl_approvals f) (n_id n))) (\<lambda>existing.
       if existing \<noteq> None then give ()
       else act_then new_id (\<lambda>i.
         act_then (lift_act (ApprovalRequest_createForWorkflowNodeProgression (re_sha256 env)
             \<lparr> pi_id = i, pi_workspaceId = n_workspaceId n, pi_workflowRunId = n_workflowRunId n,
               pi_workflowNodeRunId = n_id n, pi_nodeInput = n_input n, pi_createdAt = now,
               pi_expiresAt = None \<rparr>)) (\<lambda>request.
           act_catch (on_approvals (no_result (saveApprovalRequest request)))
             (\<lambda>e. if domain_error_mentions ''already exists'' e
                  then act_then (reading (\<lambda>f. findApprovalRequestByWorkflowNodeRunId (fl_approvals f) (n_id n)))
                    (\<lambda>recovered. if recovered \<noteq> None then give () else lift_act (Inl e))
                  else lift_act (Inl e)))))"

text \<open>A pending approval or wait node is put to WAITING; what another process did instead is taken over.\<close>

definition suspendNode :: "reconcile_env \<Rightarrow> workflow_node_run \<Rightarrow> js_date \<Rightarrow> ('w, workflow_node_run option) act" where
  "suspendNode env n now =
     (if n_status n = NR_PENDING then storeMarked env n (WorkflowNodeRun_markWaiting n now) else give (Some n))"

definition activateApprovalNode :: "reconcile_env \<Rightarrow> workflow_node_run \<Rightarrow> js_date \<Rightarrow> ('w, unit) act" where
  "activateApprovalNode env n now =
     act_then (suspendNode env n now) (\<lambda>current.
       case current of
         None \<Rightarrow> give ()
       | Some n' \<Rightarrow> if n_status n' \<noteq> NR_WAITING then give () else ensureApprovalRequest env n' now)"

definition materializeReadyApprovals ::
    "reconcile_env \<Rightarrow> workflow_graph \<Rightarrow> reconcile_command \<Rightarrow> ('w, unit) act" where
  "materializeReadyApprovals env g c =
     act_then (reloadActive (w_id (rcm_workflowRun c))) (\<lambda>active.
       case active of
         None \<Rightarrow> give ()
       | Some w \<Rightarrow>
           act_then (listNodes (w_id w)) (\<lambda>listed.
             let runs = nodeRunsByKey listed;
                 ready = filter (\<lambda>k. node_of_type g ''APPROVAL'' k \<and> isNodeReady g k runs) (map_keys (g_nodesByKey g))
             in for_all (\<lambda>k. act_then (nodeRunFor env g w runs (rcm_now c) k) (\<lambda>n.
                    if isTerminalWorkflowNodeRunState (n_status n) then give ()
                    else activateApprovalNode env n (rcm_now c))) ready))"

subsection \<open>Waits (workflow-wait-reconciliation.ts)\<close>

definition loadGraph :: "workflow_run \<Rightarrow> ('w, workflow_graph) act" where
  "loadGraph w =
     act_then (reading (\<lambda>f. findWorkflowVersionById (fl_catalog f) (w_workflowVersionId w))) (\<lambda>version.
       case version of
         None \<Rightarrow> lift_act (Inl (DomainInvariantError (''WorkflowVersion '' @ quoted (w_workflowVersionId w)
           @ '' was not found.'')))
       | Some v \<Rightarrow> lift_act (buildWorkflowGraph (wv_definition v)))"

text \<open>An accepted definition gives every wait node a configuration.\<close>

definition waitConfigurationForNode :: "workflow_graph \<Rightarrow> string \<Rightarrow> wait_config option" where
  "waitConfigurationForNode g k =
     (case map_of (g_nodesByKey g) k of
        None \<Rightarrow> None
      | Some n \<Rightarrow> (case wn_body n of Node_WAIT w \<Rightarrow> w | _ \<Rightarrow> None))"

definition assertEquivalentWorkflowWaitArm :: "workflow_wait \<Rightarrow> workflow_wait \<Rightarrow> osva_error option" where
  "assertEquivalentWorkflowWaitArm persisted expected =
     (if \<not> hasSameWorkflowWaitArm persisted expected
      then Some (DomainInvariantError (''WorkflowWait arm mismatch for WorkflowNodeRun ''
        @ quoted (ww_workflowNodeRunId expected) @ ''.''))
      else None)"

definition workflowEventTimeoutError :: workflow_run_error where
  "workflowEventTimeoutError =
     \<lparr> we_code = ''WORKFLOW_EVENT_TIMEOUT'', we_message = ''The workflow event wait timed out.'' \<rparr>"

definition storeWait :: "reconcile_env \<Rightarrow> workflow_node_run \<Rightarrow> workflow_wait \<Rightarrow> ('w, unit) act" where
  "storeWait env n expected =
     act_then (reading (\<lambda>f. findWorkflowWaitByWorkflowNodeRunId (fl_waits f) (n_id n))) (\<lambda>existing.
       case existing of
         Some w \<Rightarrow> check_act (assertEquivalentWorkflowWaitArm w expected)
       | None \<Rightarrow>
           act_catch (on_waits (no_result (saveWorkflowWait expected)))
             (\<lambda>e. if domain_error_mentions ''already exists'' e
                  then act_then (reading (\<lambda>f. findWorkflowWaitByWorkflowNodeRunId (fl_waits f) (n_id n)))
                    (\<lambda>recovered. case recovered of
                       None \<Rightarrow> lift_act (Inl e)
                     | Some w \<Rightarrow> check_act (assertEquivalentWorkflowWaitArm w expected))
                  else lift_act (Inl e)))"

text \<open>The wait is armed at the instant the node run started, so that a retry arms the same wait.\<close>

definition ensureWorkflowWait ::
    "reconcile_env \<Rightarrow> workflow_node_run \<Rightarrow> wait_config \<Rightarrow> workflow_run \<Rightarrow> ('w, unit) act" where
  "ensureWorkflowWait env n config w =
     (if isTerminalWorkflowRunState (w_status w) then give ()
      else if isTerminalWorkflowNodeRunState (n_status n) then give ()
      else if n_status n \<noteq> NR_WAITING then give ()
      else case n_startedAt n of
        None \<Rightarrow> lift_act (Inl (DomainInvariantError (''WAITING WorkflowNodeRun '' @ quoted (n_id n)
          @ '' requires startedAt for WorkflowWait arming.'')))
      | Some startedAt \<Rightarrow>
          act_then (lift_act (armWorkflowWait
            \<lparr> ac_workspaceId = n_workspaceId n, ac_workflowRunId = n_workflowRunId n,
              ac_workflowNodeRunId = n_id n, ac_workflowRunCreatedAt = w_createdAt w, ac_wait = config,
              ac_nodeInput = n_input n, ac_armedAt = startedAt \<rparr>)) (storeWait env n))"

definition ensureWaitingWorkflowWaits ::
    "reconcile_env \<Rightarrow> workflow_graph \<Rightarrow> workflow_run \<Rightarrow> ('w, unit) act" where
  "ensureWaitingWorkflowWaits env g w =
     (if isTerminalWorkflowRunState (w_status w) then give ()
      else act_then (listNodes (w_id w)) (\<lambda>listed.
        for_all (\<lambda>n. case waitConfigurationForNode g (n_workflowNodeKey n) of
              None \<Rightarrow> give ()
            | Some config \<Rightarrow>
                if n_status n \<noteq> NR_WAITING then give ()
                else if isTerminalWorkflowNodeRunState (n_status n) then give ()
                else ensureWorkflowWait env n config w) (map_values (nodeRunsByKey listed))))"

definition observeWait :: "reconcile_env \<Rightarrow> workflow_graph \<Rightarrow> js_date \<Rightarrow> workflow_node_run \<Rightarrow> ('w, unit) act" where
  "observeWait env g now n =
     (if \<not> node_of_type g ''WAIT'' (n_workflowNodeKey n) \<or> n_status n \<noteq> NR_WAITING then give ()
      else if isTerminalWorkflowNodeRunState (n_status n) then give ()
      else act_then (reading (\<lambda>f. findWorkflowWaitByWorkflowNodeRunId (fl_waits f) (n_id n))) (\<lambda>found.
        case found of
          None \<Rightarrow> give ()
        | Some wait \<Rightarrow>
            (case ww_resolution wait of
               None \<Rightarrow> give ()
             | Some Res_CANCELLED \<Rightarrow> give ()
             | Some Res_TIMEOUT \<Rightarrow>
                 act_then (storeMarked env n (WorkflowNodeRun_markFailed n now workflowEventTimeoutError)) (\<lambda>u. give ())
             | Some r \<Rightarrow>
                 act_then (storeMarked env n (WorkflowNodeRun_markSucceeded n now (n_input n) None)) (\<lambda>u. give ()))))"

definition observeResolvedWorkflowWaits ::
    "reconcile_env \<Rightarrow> workflow_graph \<Rightarrow> reconcile_command \<Rightarrow> ('w, unit) act" where
  "observeResolvedWorkflowWaits env g c =
     act_then (reloadActive (w_id (rcm_workflowRun c))) (\<lambda>active.
       case active of
         None \<Rightarrow> give ()
       | Some w \<Rightarrow> act_then (listNodes (w_id w)) (for_all (observeWait env g (rcm_now c))))"

definition repairAndObserve :: "reconcile_env \<Rightarrow> reconcile_command \<Rightarrow> ('w, unit) act" where
  "repairAndObserve env c =
     act_then (loadGraph (rcm_workflowRun c)) (\<lambda>g.
     act_then (reloadActive (w_id (rcm_workflowRun c))) (\<lambda>active.
       case active of
         None \<Rightarrow> give ()
       | Some w \<Rightarrow> act_then (ensureWaitingWorkflowWaits env g w) (\<lambda>u. observeResolvedWorkflowWaits env g c)))"

definition activateWaitNode ::
    "reconcile_env \<Rightarrow> workflow_node_run \<Rightarrow> wait_config \<Rightarrow> workflow_run \<Rightarrow> js_date \<Rightarrow> ('w, unit) act" where
  "activateWaitNode env n config w now =
     act_then (suspendNode env n now) (\<lambda>current.
       case current of
         None \<Rightarrow> give ()
       | Some n' \<Rightarrow> if n_status n' \<noteq> NR_WAITING then give () else ensureWorkflowWait env n' config w)"

definition materializeReadyWorkflowWaits ::
    "reconcile_env \<Rightarrow> workflow_graph \<Rightarrow> reconcile_command \<Rightarrow> ('w, unit) act" where
  "materializeReadyWorkflowWaits env g c =
     act_then (reloadActive (w_id (rcm_workflowRun c))) (\<lambda>active.
       case active of
         None \<Rightarrow> give ()
       | Some w \<Rightarrow>
           act_then (listNodes (w_id w)) (\<lambda>listed.
             let runs = nodeRunsByKey listed;
                 ready = filter (\<lambda>k. node_of_type g ''WAIT'' k \<and> isNodeReady g k runs) (map_keys (g_nodesByKey g))
             in for_all (\<lambda>k. case waitConfigurationForNode g k of
                    None \<Rightarrow> give ()
                  | Some config \<Rightarrow>
                      act_then (nodeRunFor env g w runs (rcm_now c) k) (\<lambda>n.
                        if isTerminalWorkflowNodeRunState (n_status n) then give ()
                        else activateWaitNode env n config w (rcm_now c))) ready))"

definition materializeReady :: "reconcile_env \<Rightarrow> reconcile_command \<Rightarrow> ('w, unit) act" where
  "materializeReady env c =
     act_then (loadGraph (rcm_workflowRun c)) (\<lambda>g.
     act_then (reloadActive (w_id (rcm_workflowRun c))) (\<lambda>active.
       case active of None \<Rightarrow> give () | Some w \<Rightarrow> materializeReadyWorkflowWaits env g c))"

definition waitReconcile :: "reconcile_env \<Rightarrow> reconcile_command \<Rightarrow> ('w, unit) act" where
  "waitReconcile env c = act_then (repairAndObserve env c) (\<lambda>u. materializeReady env c)"

subsection \<open>The status of the workflow run\<close>

text \<open>A transition another process may have made first; a lost race is no error.\<close>

definition tryTransition :: "reconcile_env \<Rightarrow> workflow_run_state \<Rightarrow> osva_error + workflow_run
    \<Rightarrow> ('w, workflow_run option) act" where
  "tryTransition env expectedStatus marked =
     act_then (lift_act marked) (\<lambda>next.
       act_catch (act_then (on_store (re_transitionWorkflowRun env expectedStatus next)) (\<lambda>w. give (Some w)))
         (\<lambda>e. if is_LifecycleConflictError e then give None else lift_act (Inl e)))"

definition deriveActiveWorkflowStatus :: "reconcile_env \<Rightarrow> workflow_graph \<Rightarrow> workflow_run \<Rightarrow> node_runs
    \<Rightarrow> js_date \<Rightarrow> ('w, unit) act" where
  "deriveActiveWorkflowStatus env g w runs now =
     act_then (reloadActive (w_id w)) (\<lambda>active.
       case active of
         None \<Rightarrow> give ()
       | Some latest \<Rightarrow>
           let target = (if isWorkflowBlockedOnSuspension g runs then WR_WAITING else WR_RUNNING)
           in if w_status latest = target then give ()
              else act_then (tryTransition env (w_status latest)
                  (if target = WR_WAITING then WorkflowRun_markWaiting latest now
                   else WorkflowRun_markRunning latest now)) (\<lambda>u. give ()))"

definition succeedWorkflow :: "reconcile_env \<Rightarrow> workflow_run \<Rightarrow> jsv \<Rightarrow> js_date \<Rightarrow> ('w, unit) act" where
  "succeedWorkflow env w output now =
     act_then (reloadActive (w_id w)) (\<lambda>active.
       case active of
         None \<Rightarrow> give ()
       | Some latest \<Rightarrow>
           act_then (if w_status latest = WR_PENDING
               then tryTransition env WR_PENDING (WorkflowRun_markRunning latest now)
               else give (Some latest)) (\<lambda>started.
             case started of
               None \<Rightarrow> give ()
             | Some current \<Rightarrow>
                 if w_status current \<noteq> WR_RUNNING \<and> w_status current \<noteq> WR_WAITING then give ()
                 else act_then (tryTransition env (w_status current)
                   (WorkflowRun_markSucceeded current now output)) (\<lambda>u. give ())))"

definition failWorkflow :: "reconcile_env \<Rightarrow> workflow_run \<Rightarrow> workflow_run_error \<Rightarrow> js_date \<Rightarrow> ('w, unit) act" where
  "failWorkflow env w err now =
     act_then (reloadActive (w_id w)) (\<lambda>active.
       case active of
         None \<Rightarrow> give ()
       | Some current \<Rightarrow>
           if w_status current = WR_PENDING
           then act_then (tryTransition env WR_PENDING (WorkflowRun_markFailed current now err)) (\<lambda>u. give ())
           else if w_status current \<noteq> WR_RUNNING \<and> w_status current \<noteq> WR_WAITING then give ()
           else act_then (tryTransition env (w_status current) (WorkflowRun_markFailed current now err)) (\<lambda>u. give ()))"

definition node_error :: "workflow_node_run \<Rightarrow> workflow_run_error" where
  "node_error n = (case n_error n of Some e \<Rightarrow> e | None \<Rightarrow> childRunFailedError (n_childRunId n) ''FAILED'')"

definition terminalSkippedError :: "workflow_graph \<Rightarrow> workflow_run_error" where
  "terminalSkippedError g = \<lparr> we_code = ''WORKFLOW_TERMINAL_SKIPPED'',
     we_message = ''Terminal workflow node '' @ quoted (g_terminalKey g) @ '' was skipped.'' \<rparr>"

text \<open>What a pass concludes at its end from the node runs.\<close>

definition concludeRun :: "reconcile_env \<Rightarrow> workflow_graph \<Rightarrow> workflow_run \<Rightarrow> node_runs \<Rightarrow> js_date \<Rightarrow> ('w, unit) act" where
  "concludeRun env g w runs now =
     (case hasFailedNode runs of
        Some laterFailure \<Rightarrow> failWorkflow env w (node_error laterFailure) now
      | None \<Rightarrow>
          (case map_of runs (g_terminalKey g) of
             Some terminal \<Rightarrow>
               if n_status terminal = NR_SUCCEEDED then succeedWorkflow env w (or_null (n_output terminal)) now
               else if n_status terminal = NR_SKIPPED then failWorkflow env w (terminalSkippedError g) now
               else deriveActiveWorkflowStatus env g w runs now
           | None \<Rightarrow> deriveActiveWorkflowStatus env g w runs now))"

subsection \<open>A pass over a workflow run\<close>

text \<open>The tail of a pass, once nothing has failed: skip, resolve, start, conclude.\<close>

definition advanceRun :: "reconcile_env \<Rightarrow> workflow_graph \<Rightarrow> workflow_version \<Rightarrow> reconcile_command \<Rightarrow> ('w, unit) act" where
  "advanceRun env g version c =
     act_then (propagateSkips env g c) (\<lambda>u.
     act_then (resolveOrchestrationNodes env g c) (\<lambda>u.
     act_then (propagateSkips env g c) (\<lambda>u.
     act_then (materializeReadyApprovals env g c) (\<lambda>u.
     act_then (materializeReady env c) (\<lambda>u.
     act_then (startReadyAgents env g version c) (\<lambda>u.
     act_then (reloadActive (w_id (rcm_workflowRun c))) (\<lambda>active.
       case active of
         None \<Rightarrow> give ()
       | Some w \<Rightarrow> act_then (listNodes (w_id w)) (\<lambda>listed.
           concludeRun env g w (nodeRunsByKey listed) (rcm_now c)))))))))"

text \<open>
  The middle of a pass: decisions and waits are observed; a node that failed by then ends the run.
\<close>

definition observeOutside :: "reconcile_env \<Rightarrow> workflow_graph \<Rightarrow> workflow_version \<Rightarrow> reconcile_command \<Rightarrow> ('w, unit) act" where
  "observeOutside env g version c =
     (let reload = reloadActive (w_id (rcm_workflowRun c))
      in act_then (observeApprovalDecisions env g c) (\<lambda>u.
         act_then reload (\<lambda>active. if active = None then give ()
         else act_then (repairAndObserve env c) (\<lambda>u.
         act_then reload (\<lambda>active.
           case active of
             None \<Rightarrow> give ()
           | Some w \<Rightarrow>
               act_then (listNodes (w_id w)) (\<lambda>listed.
                 case hasFailedNode (nodeRunsByKey listed) of
                   Some failed \<Rightarrow> failWorkflow env w (node_error failed) (rcm_now c)
                 | None \<Rightarrow> act_then reload (\<lambda>active.
                     if active = None then give () else advanceRun env g version c)))))))"

definition reconcileWorkflowRun :: "reconcile_env \<Rightarrow> reconcile_command \<Rightarrow> ('w, unit) act" where
  "reconcileWorkflowRun env c =
     act_then (loadVersion (w_workflowVersionId (rcm_workflowRun c))) (\<lambda>version.
     act_then (check_act (assertWorkflowDefinitionExecutable (wv_definition version))) (\<lambda>u.
     act_then (lift_act (buildWorkflowGraph (wv_definition version))) (\<lambda>g.
     act_then (observeExistingAgents env g c) (\<lambda>u.
     act_then (reloadWorkflowRun (w_id (rcm_workflowRun c))) (\<lambda>reloaded.
       case reloaded of
         None \<Rightarrow> give ()
       | Some w \<Rightarrow>
           act_then (listNodes (w_id w)) (\<lambda>listed.
             case (hasFailedNode (nodeRunsByKey listed), isTerminalWorkflowRunState (w_status w)) of
               (Some failed, False) \<Rightarrow> failWorkflow env w (node_error failed) (rcm_now c)
             | _ \<Rightarrow> act_then (reloadActive (w_id (rcm_workflowRun c))) (\<lambda>active.
                 if active = None then give () else observeOutside env g version c)))))))"

subsection \<open>The orchestrator (workflow-orchestrator-tick.ts)\<close>

text \<open>An error of one run is logged and the next run is taken.\<close>

fun reconcileEach :: "reconcile_env \<Rightarrow> js_date \<Rightarrow> workflow_run list \<Rightarrow> ('w, unit) act" where
  "reconcileEach env now [] = give ()"
| "reconcileEach env now (w # ws) =
     act_settle (reconcileWorkflowRun env \<lparr> rcm_workflowRun = w, rcm_now = now \<rparr>)
       (\<lambda>r. reconcileEach env now ws)"

definition orchestratorTick :: "reconcile_env \<Rightarrow> nat option \<Rightarrow> js_date \<Rightarrow> ('w, unit) act" where
  "orchestratorTick env limit now =
     act_then (reading (\<lambda>f. listActiveWorkflowRuns (fl_store f) (case limit of None \<Rightarrow> 50 | Some n \<Rightarrow> n)))
       (reconcileEach env now)"

subsection \<open>Without interference\<close>

text \<open>The steps of \<open>CreateRun\<close>, run without interruption, are the operation of \<open>Run_Execution\<close>.\<close>

lemma createRun_prepare:
  "createRun c p =
     (case prepareRun (pf_agents p) c of
        Inl e \<Rightarrow> (p, Inl e)
      | Inr (pending, attempt) \<Rightarrow>
          (case op_then (createRunWithInitialAttempt pending attempt (pf_runs p))
              (\<lambda>_. queue_created pending (crc_now c)) of
             (s, Inl e) \<Rightarrow> (p\<lparr> pf_runs := s \<rparr>, Inl e)
           | (s, Inr queued) \<Rightarrow>
               (case enqueue (a_id attempt) (pf_queue p) of
                  (q, Inl e) \<Rightarrow> (p\<lparr> pf_runs := s, pf_queue := q \<rparr>, Inl (EnqueueFailedError (r_id queued) (a_id attempt)))
                | (q, Inr outcome) \<Rightarrow> (p\<lparr> pf_runs := s, pf_queue := q \<rparr>, Inr (queued, attempt)))))"
  unfolding createRun_def prepareRun_def by simp

lemma createRunAwaiting_alone:
  "fl_platform (fst (run_alone (createRunAwaiting c) ids f)) = fst (createRun c (fl_platform f))
    \<and> snd (run_alone (createRunAwaiting c) ids f) = map_sum id fst (snd (createRun c (fl_platform f)))"
  by (auto simp: createRun_prepare createRunAwaiting_def enqueueCreated_def act_then_def act_catch_def
      reading_def lift_act_def on_runs_def on_queue_def give_def Let_def op_then_def access_act_def
      split: sum.splits prod.splits)

end
