(* ===== verification/Run_Recovery.thy ===== *)
theory Run_Recovery
  imports Run_Execution
begin

text \<open>
  Recovery of runs whose worker was lost: the eligibility test
  (\<open>domain/src/run-recovery-eligibility.ts\<close>), the handler that schedules a successor attempt
  (\<open>orchestration/src/recover-interrupted-run.ts\<close>), the worker's tick
  (\<open>orchestration/src/execution-recovery-tick.ts\<close>) and the two read operations of the control
  plane (\<open>domain/src/run-recovery-application.ts\<close>). Logging and telemetry are left out.
\<close>

subsection \<open>Eligibility (run-recovery-eligibility.ts)\<close>

definition DEFAULT_MAX_RECOVERY_ATTEMPTS :: int where
  "DEFAULT_MAX_RECOVERY_ATTEMPTS = 5"

datatype recovery_eligibility = Eligible | Ineligible string string bool

definition assessRunRecoveryEligibility ::
    "run \<Rightarrow> checkpoint_store \<Rightarrow> journal \<Rightarrow> bool \<Rightarrow> recovery_eligibility" where
  "assessRunRecoveryEligibility run checkpoints operationJournal hasPendingRunAttempt =
     (let metadata = r_recoveryMetadata run
      in case (case metadata of None \<Rightarrow> None | Some m \<Rightarrow> rm_blocked m) of
           Some b \<Rightarrow> Ineligible (rb_code b) (rb_message b) True
         | None \<Rightarrow>
         if (case metadata of None \<Rightarrow> False | Some m \<Rightarrow> DEFAULT_MAX_RECOVERY_ATTEMPTS \<le> rm_recoveryAttemptCount m)
         then Ineligible ''RECOVERY_ATTEMPT_LIMIT_EXCEEDED''
           ''Maximum recovery attempts exceeded for this run.'' True
         else if r_status run \<noteq> Run_INTERRUPTED
         then Ineligible ''RUN_NOT_INTERRUPTED'' ''Run is not in an interrupted recoverable state.'' False
         else if hasPendingRunAttempt
         then Ineligible ''RECOVERY_ACTIVE_ATTEMPT_EXISTS''
           ''A pending run attempt already exists for this run.'' False
         else if findLatestByRun checkpoints (r_workspaceId run) (r_id run) = None
         then Ineligible ''RECOVERY_NOT_CHECKPOINTED''
           ''No durable checkpoint exists; automatic recovery is not safe.'' True
         else if \<exists>e\<in>set (findBlockingOperationsForRun operationJournal (r_id run)).
             \<not> isSideEffectSafeToAutoReplay (je_idempotencyClass e) (je_status e)
         then Ineligible RECOVERY_BLOCKED (''Recovery is blocked because an external operation may have ''
           @ ''succeeded without a committed result.'') True
         else Eligible)"

definition effectiveAutomaticRecoveryEnabled :: "bool \<Rightarrow> recovery_eligibility \<Rightarrow> bool" where
  "effectiveAutomaticRecoveryEnabled agentAutomaticRecoveryEnabled eligibility =
     (if \<not> agentAutomaticRecoveryEnabled then False else eligibility = Eligible)"

definition buildBlockedRecoveryMetadata :: "recovery_metadata option \<Rightarrow> recovery_block \<Rightarrow> recovery_metadata" where
  "buildBlockedRecoveryMetadata current block =
     \<lparr> rm_recoveryAttemptCount = (case current of None \<Rightarrow> 0 | Some m \<Rightarrow> rm_recoveryAttemptCount m),
       rm_automaticRecoveryEnabled = (case current of None \<Rightarrow> False | Some m \<Rightarrow> rm_automaticRecoveryEnabled m),
       rm_lastRecoveryAt = (case current of None \<Rightarrow> None | Some m \<Rightarrow> rm_lastRecoveryAt m),
       rm_blocked = Some block \<rparr>"

subsection \<open>Recovering one run (recover-interrupted-run.ts)\<close>

record recover_command =
  rcv_workspaceId :: string
  rcv_runId :: string
  rcv_now :: js_date
  rcv_newRunAttemptId :: string

datatype recover_outcome =
    Recovery_scheduled string
  | Recovery_already_scheduled string
  | Recovery_ineligible string string
  | Recovery_not_found
  | Recovery_conflict

text \<open>
  What the handler decides from what it reads, before it writes: an outcome, a block to record
  first, or the metadata to schedule with.
\<close>

datatype recovery_plan =
    Plan_done recover_outcome
  | Plan_block recovery_metadata recover_outcome
  | Plan_schedule recovery_metadata

definition next_metadata :: "recovery_metadata option \<Rightarrow> string \<Rightarrow> recovery_metadata" where
  "next_metadata current stamp =
     \<lparr> rm_recoveryAttemptCount = (case current of None \<Rightarrow> 0 | Some m \<Rightarrow> rm_recoveryAttemptCount m) + 1,
       rm_automaticRecoveryEnabled = (case current of None \<Rightarrow> False | Some m \<Rightarrow> rm_automaticRecoveryEnabled m),
       rm_lastRecoveryAt = Some stamp, rm_blocked = None \<rparr>"

definition planRecovery :: "recover_command \<Rightarrow> run_store \<Rightarrow> checkpoint_store \<Rightarrow> journal
    \<Rightarrow> osva_error + recovery_plan" where
  "planRecovery c s checkpoints operationJournal =
     (case findRunById s (rcv_runId c) of
        None \<Rightarrow> Inr (Plan_done Recovery_not_found)
      | Some run \<Rightarrow>
          if r_workspaceId run \<noteq> rcv_workspaceId c then Inr (Plan_done Recovery_not_found)
          else
            let attempts = listRunAttempts s (rcv_runId c)
            in case (if r_status run = Run_QUEUED then find (\<lambda>a. a_status a = Att_PENDING) attempts else None) of
                 Some pending \<Rightarrow> Inr (Plan_done (Recovery_already_scheduled (a_id pending)))
               | None \<Rightarrow>
                   (case assessRunRecoveryEligibility run checkpoints operationJournal
                       (\<exists>a\<in>set attempts. is_active a) of
                      Ineligible code msg blockAutomaticRecovery \<Rightarrow>
                        if blockAutomaticRecovery \<and> r_recoveryMetadata run \<noteq> None
                        then and_then (toISOString (rcv_now c)) (\<lambda>stamp.
                          Inr (Plan_block (buildBlockedRecoveryMetadata (r_recoveryMetadata run)
                            \<lparr> rb_code = code, rb_message = msg, rb_at = stamp \<rparr>) (Recovery_ineligible code msg)))
                        else Inr (Plan_done (Recovery_ineligible code msg))
                    | Eligible \<Rightarrow>
                        and_then (toISOString (rcv_now c)) (\<lambda>stamp.
                          Inr (Plan_schedule (next_metadata (r_recoveryMetadata run) stamp)))))"

text \<open>The write of a plan: it names the attempt to enqueue when it scheduled one.\<close>

definition writeRecovery :: "recover_command \<Rightarrow> recovery_plan \<Rightarrow> run_store
    \<Rightarrow> (recover_outcome \<times> string option) store_result" where
  "writeRecovery c plan s =
     (case plan of
        Plan_done outcome \<Rightarrow> (s, Inr (outcome, None))
      | Plan_block metadata outcome \<Rightarrow>
          op_then (updateInterruptedRunRecoveryMetadata (rcv_workspaceId c) (rcv_runId c) metadata (rcv_now c) s)
            (\<lambda>_ s. (s, Inr (outcome, None)))
      | Plan_schedule metadata \<Rightarrow>
          op_then (scheduleRecoveryRunAttempt (rcv_runId c) (rcv_newRunAttemptId c) (rcv_now c) metadata s)
            (\<lambda>scheduled s. (s, Inr (case scheduled of
                None \<Rightarrow> (Recovery_conflict, None)
              | Some (run, attempt) \<Rightarrow> (Recovery_scheduled (a_id attempt), Some (a_id attempt))))))"

definition recoverInterruptedRun :: "recover_command \<Rightarrow> 'w platform \<Rightarrow> 'w platform \<times> (osva_error + recover_outcome)" where
  "recoverInterruptedRun c p =
     (case planRecovery c (pf_runs p) (pf_checkpoints p) (pf_journal p) of
        Inl e \<Rightarrow> (p, Inl e)
      | Inr plan \<Rightarrow>
          (case writeRecovery c plan (pf_runs p) of
             (s, Inl e) \<Rightarrow> (p\<lparr> pf_runs := s \<rparr>, Inl e)
           | (s, Inr (outcome, None)) \<Rightarrow> (p\<lparr> pf_runs := s \<rparr>, Inr outcome)
           | (s, Inr (outcome, Some i)) \<Rightarrow>
               (case enqueue i (pf_queue p) of
                  (q, r) \<Rightarrow> (p\<lparr> pf_runs := s, pf_queue := q \<rparr>, case r of Inl e \<Rightarrow> Inl e | Inr _ \<Rightarrow> Inr outcome))))"

subsection \<open>The worker's tick (execution-recovery-tick.ts)\<close>

record 'w tick_config =
  tc_clock :: "'w platform \<Rightarrow> js_date"
  tc_expiredBatchLimit :: nat
  tc_transportBatchLimit :: nat
  tc_interruptedBatchLimit :: nat
  tc_checkpoints :: bool
  tc_operationJournal :: bool
  tc_agents :: bool
  tc_createRunAttemptId :: "('w \<Rightarrow> 'w \<times> string) option"

definition fresh_metadata :: "bool \<Rightarrow> recovery_metadata" where
  "fresh_metadata automatic = \<lparr> rm_recoveryAttemptCount = 0, rm_automaticRecoveryEnabled = automatic,
     rm_lastRecoveryAt = None, rm_blocked = None \<rparr>"

definition buildRecoveryMetadata :: "bool \<Rightarrow> run_store \<Rightarrow> agent_store \<Rightarrow> string \<Rightarrow> recovery_metadata" where
  "buildRecoveryMetadata hasAgents s agents runId =
     (case findRunById s runId of
        None \<Rightarrow> fresh_metadata False
      | Some run \<Rightarrow>
          if \<not> hasAgents then fresh_metadata False
          else case findAgentVersionById agents (rb_agentVersionId (r_effectiveBindings run)) of
            None \<Rightarrow> fresh_metadata False
          | Some v \<Rightarrow>
              let runtime = js_get (av_manifest v) ''runtime''
              in if \<not> isDeclarativeAgentRuntime runtime then fresh_metadata False
                 else fresh_metadata (js_get (js_get runtime ''config'') ''automaticRecoveryEnabled'' = JBool True))"

text \<open>
  What an expired lease leads to: the command for the run repository, with recovery metadata when
  the run has a checkpoint and is to be interrupted instead of failed. None when the run is gone.
\<close>

definition expiryPlan :: "'w tick_config \<Rightarrow> js_date \<Rightarrow> run_attempt \<Rightarrow> run_store \<Rightarrow> agent_store
    \<Rightarrow> checkpoint_store \<Rightarrow> osva_error + (expire_command \<times> recovery_metadata option) option" where
  "expiryPlan cfg now attempt s agents checkpoints =
     (case findRunById s (a_runId attempt) of
        None \<Rightarrow> Inr None
      | Some run \<Rightarrow>
          and_then (case a_leaseExpiresAt attempt of None \<Rightarrow> Inr JUndefined
              | Some e \<Rightarrow> and_then (toISOString e) (\<lambda>t. Inr (JString t))) (\<lambda>leaseExpiresAt.
            Inr (Some
              (\<lparr> ec_runAttemptId = a_id attempt, ec_generation = a_executionGeneration attempt, ec_now = now,
                 ec_error = \<lparr> re_code = ''EXECUTION_INTERRUPTED'', re_message =
                   ''Execution lease expired; the owning worker lost heartbeat before persisting a ''
                   @ ''terminal outcome.'' \<rparr>,
                 ec_infrastructureMetadata = Some (JObject (AList.update ''recovery''
                   (JObject [(''reason'', JString ''LEASE_EXPIRED''),
                      (''owner'', case a_executionOwner attempt of None \<Rightarrow> JUndefined | Some w \<Rightarrow> JString w),
                      (''generation'', JNumber (Finite (of_int (a_executionGeneration attempt)))),
                      (''leaseExpiresAt'', leaseExpiresAt)])
                   (case a_infrastructureMetadata attempt of None \<Rightarrow> [] | Some m \<Rightarrow> js_entries m))) \<rparr>,
               if tc_checkpoints cfg \<and> findLatestByRun checkpoints (r_workspaceId run) (r_id run) \<noteq> None
               then Some (buildRecoveryMetadata (tc_agents cfg) s agents (r_id run)) else None))))"

definition writeExpiry :: "expire_command \<times> recovery_metadata option \<Rightarrow> run_store
    \<Rightarrow> (run \<times> run_attempt) option store_result" where
  "writeExpiry plan s =
     (case plan of
        (c, Some metadata) \<Rightarrow> interruptExpiredLeasedAttemptForRecovery c metadata s
      | (c, None) \<Rightarrow> failExpiredLeasedAttempt c s)"

text \<open>One turn of each of the three loops; what it throws is caught and logged.\<close>

definition expireLease :: "'w tick_config \<Rightarrow> run_attempt \<Rightarrow> 'w platform \<Rightarrow> 'w platform" where
  "expireLease cfg attempt p =
     (case expiryPlan cfg (tc_clock cfg p) attempt (pf_runs p) (pf_agents p) (pf_checkpoints p) of
        Inr (Some plan) \<Rightarrow> p\<lparr> pf_runs := fst (writeExpiry plan (pf_runs p)) \<rparr>
      | _ \<Rightarrow> p)"

definition recoverable :: "run \<Rightarrow> bool" where
  "recoverable run \<longleftrightarrow> (case r_recoveryMetadata run of
       None \<Rightarrow> False
     | Some m \<Rightarrow> rm_automaticRecoveryEnabled m \<and> rm_recoveryAttemptCount m < DEFAULT_MAX_RECOVERY_ATTEMPTS
         \<and> rm_blocked m = None)"

definition dispatchRecovery :: "'w tick_config \<Rightarrow> ('w \<Rightarrow> 'w \<times> string) \<Rightarrow> run \<Rightarrow> 'w platform \<Rightarrow> 'w platform" where
  "dispatchRecovery cfg createId run p =
     (if \<not> recoverable run then p
      else
        let now = tc_clock cfg p; (w, newId) = createId (pf_world p)
        in fst (recoverInterruptedRun \<lparr> rcv_workspaceId = r_workspaceId run, rcv_runId = r_id run,
             rcv_now = now, rcv_newRunAttemptId = newId \<rparr> (p\<lparr> pf_world := w \<rparr>)))"

definition repairDelivery :: "run \<times> run_attempt \<Rightarrow> 'w platform \<Rightarrow> 'w platform" where
  "repairDelivery delivery p =
     (if r_status (fst delivery) \<noteq> Run_QUEUED \<or> a_status (snd delivery) \<noteq> Att_PENDING then p
      else p\<lparr> pf_queue := fst (enqueue (a_id (snd delivery)) (pf_queue p)) \<rparr>)"

definition failExpiredLeases :: "'w tick_config \<Rightarrow> 'w platform \<Rightarrow> 'w platform" where
  "failExpiredLeases cfg p =
     fold (expireLease cfg) (listExpiredLeasedRunningAttempts (pf_clock p) (pf_runs p) (tc_expiredBatchLimit cfg)) p"

definition dispatchInterruptedRecoveries :: "'w tick_config \<Rightarrow> 'w platform \<Rightarrow> 'w platform" where
  "dispatchInterruptedRecoveries cfg p =
     (let interrupted = listInterruptedRuns (pf_runs p) (tc_interruptedBatchLimit cfg)
      in case tc_createRunAttemptId cfg of
           None \<Rightarrow> p
         | Some createId \<Rightarrow>
             if \<not> tc_checkpoints cfg \<or> \<not> tc_operationJournal cfg then p
             else fold (dispatchRecovery cfg createId) interrupted p)"

definition repairQueuedDeliveries :: "'w tick_config \<Rightarrow> 'w platform \<Rightarrow> 'w platform" where
  "repairQueuedDeliveries cfg p =
     fold repairDelivery (listQueuedPendingDeliveries (pf_runs p) (tc_transportBatchLimit cfg)) p"

definition executionRecoveryTick :: "'w tick_config \<Rightarrow> 'w platform \<Rightarrow> 'w platform" where
  "executionRecoveryTick cfg p =
     repairQueuedDeliveries cfg (dispatchInterruptedRecoveries cfg (failExpiredLeases cfg p))"

end
