(* ===== verification/Run_Effects.thy ===== *)
theory Run_Effects
  imports Run_Recovery
begin

text \<open>
  What the operations of the run repository can do to the stored runs and attempts, as one
  relation between stores, and the handlers of the previous two theories seen through it: a
  handler only changes the store by such effects, whatever it reads and in whatever order the
  operations of different handlers meet. The interface between the two is the locale
  \<open>run_repository_relation\<close>, which extends \<open>run_transition_relation\<close> by the operations of recovery.
\<close>

inductive store_effect :: "run_store \<Rightarrow> run_store \<Rightarrow> bool" where
  eff_new: "findRunById s (r_id r) = None \<Longrightarrow> findRunAttemptById s (a_id a) = None \<Longrightarrow> a_runId a = r_id r
     \<Longrightarrow> r_status r = Run_PENDING \<Longrightarrow> a_status a = Att_PENDING \<Longrightarrow> r_recoveryMetadata r = None
     \<Longrightarrow> assertUniqueRunIdempotencyKey (rs_index s) r = None
     \<Longrightarrow> store_effect s ((put_run r (put_attempt a s))\<lparr> rs_index := indexRunIdempotencyKey (rs_index s) r \<rparr>)"
| eff_run: "findRunById s (r_id r) = Some q \<Longrightarrow> same_run q r
     \<Longrightarrow> r_status q = Run_PENDING \<and> r_status r = Run_QUEUED \<and> r_recoveryMetadata r = None
       \<or> r_status q = Run_INTERRUPTED \<and> r_status r = Run_INTERRUPTED
     \<Longrightarrow> store_effect s (put_run r s)"
| eff_renew: "findRunAttemptById s (a_id a) = Some c \<Longrightarrow> a_status c = Att_RUNNING \<Longrightarrow> a_status a = Att_RUNNING
     \<Longrightarrow> a_runId a = a_runId c \<Longrightarrow> a_sequence a = a_sequence c
     \<Longrightarrow> store_effect s (put_attempt a s)"
| eff_move: "findRunAttemptById s (a_id a) = Some c \<Longrightarrow> findRunById s (r_id r) = Some q
     \<Longrightarrow> (a_status c, a_status a) \<in> set LEGAL_RUN_ATTEMPT_TRANSITIONS
     \<Longrightarrow> (r_status q, r_status r) \<in> set LEGAL_RUN_TRANSITIONS
     \<Longrightarrow> a_status a = attempt_status_for (r_status r)
     \<Longrightarrow> a_runId a = a_runId c \<Longrightarrow> a_runId c = r_id r \<Longrightarrow> a_sequence a = a_sequence c \<Longrightarrow> same_run q r
     \<Longrightarrow> store_effect s (put_run r (put_attempt a s))"
| eff_retry: "findRunById s (r_id r) = Some q \<Longrightarrow> r_status q = Run_INTERRUPTED \<Longrightarrow> r_status r = Run_QUEUED
     \<Longrightarrow> is_last (run_attempts s (r_id r)) p \<Longrightarrow> findRunAttemptById s (a_id a) = None \<Longrightarrow> a_runId a = r_id r
     \<Longrightarrow> a_sequence a = a_sequence p + 1 \<Longrightarrow> a_status a = Att_PENDING \<Longrightarrow> same_run q r
     \<Longrightarrow> store_effect s (put_run r (put_attempt a s))"

definition sound_effect :: "run_store \<Rightarrow> run_store \<Rightarrow> bool" where
  "sound_effect s s' \<longleftrightarrow> store_ok s \<and> store_ok s' \<and> store_effect s s'"

text \<open>What one operation does, and what any sequence of operations does.\<close>

definition evolves_once :: "run_store \<Rightarrow> run_store \<Rightarrow> bool" where
  "evolves_once s s' \<longleftrightarrow> (store_ok s \<longrightarrow> s' = s \<or> sound_effect s s')"

definition evolves :: "run_store \<Rightarrow> run_store \<Rightarrow> bool" where
  "evolves s s' \<longleftrightarrow> (store_ok s \<longrightarrow> sound_effect\<^sup>*\<^sup>* s s')"

lemma sound_effects_ok: "sound_effect\<^sup>*\<^sup>* s s' \<Longrightarrow> store_ok s \<Longrightarrow> store_ok s'"
  by (induction rule: rtranclp_induct) (auto simp: sound_effect_def)

subsection \<open>The interface\<close>

text \<open>
  What a handler may assume of the repository: a relation between the stores before and after
  that every operation respects, for arguments such as the handlers pass.
\<close>

definition legal_pair :: "run_store \<Rightarrow> run \<Rightarrow> run_attempt \<Rightarrow> bool" where
  "legal_pair s r a \<longleftrightarrow> attempt_wf a \<and> attempt_timeline a \<and> a_status a = attempt_status_for (r_status r)
     \<and> (\<forall>c. findRunAttemptById s (a_id a) = Some c \<longrightarrow> a_runId c = a_runId a)"

locale run_transition_relation =
  fixes R :: "run_store \<Rightarrow> run_store \<Rightarrow> bool"
  assumes refl: "R s s"
    and create: "run_wf r \<Longrightarrow> attempt_wf a \<Longrightarrow> attempt_timeline a \<Longrightarrow> r_status r = Run_PENDING \<Longrightarrow>
      a_status a = Att_PENDING \<Longrightarrow> r_recoveryMetadata r = None \<Longrightarrow> R s (fst (createRunWithInitialAttempt r a s))"
    and queue: "r_status r = Run_QUEUED \<Longrightarrow> R s (fst (transitionRun Run_PENDING r s))"
    and move: "legal_pair s r a \<Longrightarrow> R s (fst (transitionRunAndAttempt clock eR r eA a ttl s))"
    and renew: "R s (fst (renewExecutionLease i owner g ttlMs now s))"
    and expire: "R s (fst (failExpiredLeasedAttempt c s))"
begin

lemma after: "R s (fst r) \<Longrightarrow> (\<And>t x. fst (f x t) = t) \<Longrightarrow> R s (fst (op_then r f))"
  by (cases r; cases "snd r") auto

lemma lift: "(\<And>x. r = Inr x \<Longrightarrow> R s (fst (f x s))) \<Longrightarrow> R s (fst (op_lift r f s))"
  by (cases r) (auto simp: refl)

lemma queueing: "run_wf r \<Longrightarrow> R s (fst (queue_created r now s))"
  unfolding queue_created_def
  by (intro lift after) (auto simp: Run_transitionTo_Inr refl intro: queue)

lemma acquiring:
  assumes "\<And>r' a'. leased_attempt cfg now attempt = Inr a' \<Longrightarrow> Run_transitionTo run Run_RUNNING now = Inr r' \<Longrightarrow>
      legal_pair s r' a'"
  shows "R s (fst (acquireRunningLease cfg clock now run attempt s))"
  unfolding acquireRunningLease_def
proof (intro lift)
  fix a' r'
  assume "leased_attempt cfg now attempt = Inr a'" "Run_transitionTo run Run_RUNNING now = Inr r'"
  from move [OF assms [OF this], of clock "r_status run" "a_status attempt" "Some (xc_leaseTtlMs cfg)"]
  show "R s (fst (case transitionRunAndAttempt clock (r_status run) r' (a_status attempt) a'
      (Some (xc_leaseTtlMs cfg)) s of (s', Inr acquired) \<Rightarrow> (s', Inr (Inr acquired))
    | (s', Inl e) \<Rightarrow> (s', case leaseConflict s' (a_id attempt) e of Inl e' \<Rightarrow> Inl e' | Inr outcome \<Rightarrow> Inr (Inl outcome))))"
    by (auto split: prod.splits sum.splits)
qed

lemma persisting: "legal_pair s nR nA \<Longrightarrow> R s (fst (persistTerminal clock eR eA nR nA success s))"
  using move [of s nR nA clock "r_status eR" "a_status eA" None]
  by (auto simp: persistTerminal_def split: prod.splits sum.splits)

lemma failing:
  assumes "\<And>r' a' e. RunAttempt_transitionTo a Att_FAILED now (no_options\<lparr> o_error := Some e \<rparr>) = Inr a' \<Longrightarrow>
      Run_transitionTo r Run_FAILED now = Inr r' \<Longrightarrow> legal_pair s r' a'"
  shows "R s (fst (persistFailure clock now r a e s))"
  unfolding persistFailure_def by (intro lift persisting assms)

lemma finishing:
  assumes "\<And>r' a' opts rs st. RunAttempt_transitionTo a st now opts = Inr a' \<Longrightarrow>
      Run_transitionTo r rs now = Inr r' \<Longrightarrow> st = attempt_status_for rs \<Longrightarrow> legal_pair s r' a'"
  shows "R s (fst (finishExecution clock now r a ending lost s))"
  by (auto simp: finishExecution_def refl attempt_status_for_def
      intro!: lift failing persisting assms split: runtime_end.splits execution_result.splits sum.splits)

end

text \<open>The operations of recovery, which also write the recovery metadata of a run.\<close>

locale run_repository_relation = run_transition_relation +
  assumes interrupt: "R s (fst (interruptExpiredLeasedAttemptForRecovery c m s))"
    and schedule: "findRunAttemptById s newId = None \<Longrightarrow> R s (fst (scheduleRecoveryRunAttempt i newId now m s))"
    and metadata: "R s (fst (updateInterruptedRunRecoveryMetadata w i m now s))"
begin

lemma expiring: "R s (fst (writeExpiry plan s))"
  by (auto simp: writeExpiry_def intro: expire interrupt split: prod.splits option.splits)

lemma recovering:
  "findRunAttemptById s (rcv_newRunAttemptId c) = None \<Longrightarrow> R s (fst (writeRecovery c plan s))"
  by (cases plan) (auto simp: writeRecovery_def refl intro!: after intro: metadata schedule)

end

subsection \<open>The memory repository behind the interface\<close>

lemma once_refl: "evolves_once s s"
  by (simp add: evolves_once_def)

lemma once_evolves: "evolves_once s t \<Longrightarrow> evolves s t"
  by (auto simp: evolves_def evolves_once_def)

lemma evolves_refl: "evolves s s"
  by (simp add: evolves_def)

lemma evolves_trans: "evolves s t \<Longrightarrow> evolves t u \<Longrightarrow> evolves s u"
  unfolding evolves_def by (meson rtranclp_trans sound_effects_ok)

lemma onceI: "(store_ok s \<Longrightarrow> t = s \<or> store_ok t \<and> store_effect s t) \<Longrightarrow> evolves_once s t"
  unfolding evolves_once_def sound_effect_def by blast

lemma store_ok_wf: "store_ok s \<Longrightarrow> store_wf s"
  by (simp add: store_ok_def)

lemma same_run_lifecycle [simp]:
  "same_run q (q\<lparr> r_status := st, r_updatedAt := t, r_recoveryMetadata := m \<rparr>)"
  "same_run q (q\<lparr> r_status := st, r_updatedAt := t \<rparr>)"
  "same_run q (q\<lparr> r_updatedAt := t, r_recoveryMetadata := m \<rparr>)"
  by (simp_all add: same_run_def)

lemma once_create:
  assumes "run_wf r" "attempt_wf a" "attempt_timeline a" "r_status r = Run_PENDING"
    "a_status a = Att_PENDING" "r_recoveryMetadata r = None"
  shows "evolves_once s (fst (createRunWithInitialAttempt r a s))"
proof (rule onceI)
  assume ok: "store_ok s"
  obtain t res where t: "createRunWithInitialAttempt r a s = (t, res)" by fastforce
  from createRunWithInitialAttempt_cases [OF t]
  show "fst (createRunWithInitialAttempt r a s) = s \<or> store_ok (fst (createRunWithInitialAttempt r a s))
      \<and> store_effect s (fst (createRunWithInitialAttempt r a s))"
    using assms store_ok_new_run [OF ok, of r a] eff_new [of s r a]
    by (auto simp: t attempt_status_for_def)
qed

lemma once_queue:
  assumes "r_status r = Run_QUEUED"
  shows "evolves_once s (fst (transitionRun Run_PENDING r s))"
proof (rule onceI)
  assume ok: "store_ok s"
  obtain t res where t: "transitionRun Run_PENDING r s = (t, res)" by fastforce
  from transitionRun_cases [OF store_ok_wf [OF ok] t]
  show "fst (transitionRun Run_PENDING r s) = s \<or> store_ok (fst (transitionRun Run_PENDING r s))
      \<and> store_effect s (fst (transitionRun Run_PENDING r s))"
  proof (elim disjE exE conjE)
    fix q p
    assume *: "findRunById s (r_id r) = Some q" "r_status q = Run_PENDING" "run_wf p"
      "p = q\<lparr> r_status := r_status r, r_updatedAt := r_updatedAt r, r_recoveryMetadata := None \<rparr>"
      "r_id p = r_id r" "t = put_run p s"
    have f: "findRunById s (r_id p) = Some q" using *(1,5) by simp
    have "store_ok t" unfolding *(6)
      by (rule store_ok_run [OF ok f *(3)]) (simp add: *(2,4) assms attempt_status_for_def)
    moreover have "store_effect s t" unfolding *(6)
      by (rule eff_run [OF f]) (simp_all add: *(2,4) assms)
    ultimately show ?thesis by (simp add: t)
  qed (simp add: t)
qed

lemma once_move:
  assumes pair: "legal_pair s r a"
  shows "evolves_once s (fst (transitionRunAndAttempt clock eR r eA a ttl s))"
proof (rule onceI)
  assume ok: "store_ok s"
  obtain t res where t: "transitionRunAndAttempt clock eR r eA a ttl s = (t, res)" by (metis prod.collapse)
  have l: "attempt_wf a" "attempt_timeline a" "a_status a = attempt_status_for (r_status r)"
    "\<And>c. findRunAttemptById s (a_id a) = Some c \<Longrightarrow> a_runId c = a_runId a"
    using pair by (auto simp: legal_pair_def)
  have ok': "store_ok t" by (rule transitionRunAndAttempt_ok [OF ok l(1,2) t l(3,4)])
  from transitionRunAndAttempt_cases [OF store_ok_wf [OF ok] l(1,2) t]
  have "t = s \<or> store_effect s t"
  proof (elim disjE exE conjE)
    fix q p c b
    assume *: "a_runId a = r_id r" "findRunById s (r_id r) = Some q" "r_status q = eR"
      "(eR, r_status r) \<in> set LEGAL_RUN_TRANSITIONS"
      "p = q\<lparr> r_status := r_status r, r_updatedAt := r_updatedAt r, r_recoveryMetadata := None \<rparr>"
      "r_id p = r_id r" "findRunAttemptById s (a_id a) = Some c" "a_status c = eA"
      "(eA, a_status a) \<in> set LEGAL_RUN_ATTEMPT_TRANSITIONS" "attempt_moved c a b"
      "t = put_run p (put_attempt b s)"
    have "a_id c = a_id a" using store_wf_attemptD [OF store_ok_wf [OF ok] *(7)] by simp
    then have "store_effect s t" unfolding *(11)
      using * l(3) l(4) [OF *(7)] by (intro eff_move [of _ _ c _ q]) (auto simp: attempt_moved_def)
    then show ?thesis ..
  qed simp
  with ok' show "fst (transitionRunAndAttempt clock eR r eA a ttl s) = s
      \<or> store_ok (fst (transitionRunAndAttempt clock eR r eA a ttl s))
      \<and> store_effect s (fst (transitionRunAndAttempt clock eR r eA a ttl s))"
    by (auto simp: t)
qed

lemma once_renew: "evolves_once s (fst (renewExecutionLease i owner g ttlMs now s))"
proof (rule onceI)
  assume ok: "store_ok s"
  obtain t res where t: "renewExecutionLease i owner g ttlMs now s = (t, res)" by fastforce
  from renewExecutionLease_cases [OF store_ok_wf [OF ok] t] renewExecutionLease_ok [OF ok t]
  show "fst (renewExecutionLease i owner g ttlMs now s) = s
      \<or> store_ok (fst (renewExecutionLease i owner g ttlMs now s))
      \<and> store_effect s (fst (renewExecutionLease i owner g ttlMs now s))"
    by (auto simp: t intro: eff_renew)
qed

text \<open>A running attempt that fails with its run, however that is reached.\<close>

lemma effect_fails:
  assumes "fails_with s b q a r" "same_run q r" "r_status r = Run_FAILED \<or> r_status r = Run_INTERRUPTED"
  shows "store_effect s (put_run r (put_attempt a s))"
  using assms
  by (intro eff_move [of _ _ b _ q])
    (auto simp: fails_with_def attempt_status_for_def LEGAL_RUN_TRANSITIONS_def LEGAL_RUN_ATTEMPT_TRANSITIONS_def)

lemma once_expire: "evolves_once s (fst (failExpiredLeasedAttempt c s))"
proof (rule onceI)
  assume ok: "store_ok s"
  obtain t res where t: "failExpiredLeasedAttempt c s = (t, res)" by fastforce
  from failExpiredLeasedAttempt_cases [OF store_ok_wf [OF ok] t] expired_ok(1) [OF ok t]
  show "fst (failExpiredLeasedAttempt c s) = s
      \<or> store_ok (fst (failExpiredLeasedAttempt c s)) \<and> store_effect s (fst (failExpiredLeasedAttempt c s))"
    by (auto simp: t intro: effect_fails)
qed

lemma once_interrupt: "evolves_once s (fst (interruptExpiredLeasedAttemptForRecovery c m s))"
proof (rule onceI)
  assume ok: "store_ok s"
  obtain t res where t: "interruptExpiredLeasedAttemptForRecovery c m s = (t, res)" by fastforce
  from interruptExpired_cases [OF store_ok_wf [OF ok] t] expired_ok(2) [OF ok t]
  show "fst (interruptExpiredLeasedAttemptForRecovery c m s) = s
      \<or> store_ok (fst (interruptExpiredLeasedAttemptForRecovery c m s))
      \<and> store_effect s (fst (interruptExpiredLeasedAttemptForRecovery c m s))"
    by (auto simp: t intro: effect_fails)
qed

lemma once_schedule:
  assumes fresh: "findRunAttemptById s newId = None"
  shows "evolves_once s (fst (scheduleRecoveryRunAttempt i newId now m s))"
proof (rule onceI)
  assume ok: "store_ok s"
  obtain t res where t: "scheduleRecoveryRunAttempt i newId now m s = (t, res)" by fastforce
  from scheduleRecovery_cases [OF ok t]
  have "t = s \<or> store_effect s t"
  proof (elim disjE exE conjE)
    fix q p r a
    assume *: "findRunById s i = Some q" "r_status q = Run_INTERRUPTED" "is_last (run_attempts s i) p"
      "a_id a = newId" "a_runId a = i" "a_sequence a = a_sequence p + 1" "a_status a = Att_PENDING"
      "r = q\<lparr> r_status := Run_QUEUED, r_updatedAt := now, r_recoveryMetadata := Some m \<rparr>"
      "t = put_run r (put_attempt a s)"
    have i: "r_id q = i" using store_wf_runD [OF store_ok_wf [OF ok] *(1)] by simp
    have "store_effect s t" unfolding *(9)
      by (rule eff_retry [of _ _ q p]) (use *(1-8) fresh in \<open>simp_all add: i\<close>)
    then show ?thesis ..
  qed simp
  with scheduleRecovery_ok [OF ok t fresh]
  show "fst (scheduleRecoveryRunAttempt i newId now m s) = s
      \<or> store_ok (fst (scheduleRecoveryRunAttempt i newId now m s))
      \<and> store_effect s (fst (scheduleRecoveryRunAttempt i newId now m s))"
    by (auto simp: t)
qed

lemma once_metadata: "evolves_once s (fst (updateInterruptedRunRecoveryMetadata w i m now s))"
proof (rule onceI)
  assume ok: "store_ok s"
  obtain t res where t: "updateInterruptedRunRecoveryMetadata w i m now s = (t, res)" by fastforce
  from updateInterruptedRunRecoveryMetadata_cases [OF store_ok_wf [OF ok] t]
  have "t = s \<or> store_effect s t"
  proof (elim disjE exE conjE)
    fix q r
    assume *: "findRunById s i = Some q" "r_status q = Run_INTERRUPTED"
      "r = q\<lparr> r_updatedAt := now, r_recoveryMetadata := Some m \<rparr>" "t = put_run r s"
    have "r_id r = i" using *(3) store_wf_runD [OF store_ok_wf [OF ok] *(1)] by simp
    then have "store_effect s t" unfolding *(4) by (intro eff_run [of _ _ q]) (simp_all add: *(1-3))
    then show ?thesis ..
  qed simp
  with updateInterruptedRunRecoveryMetadata_ok [OF ok t]
  show "fst (updateInterruptedRunRecoveryMetadata w i m now s) = s
      \<or> store_ok (fst (updateInterruptedRunRecoveryMetadata w i m now s))
      \<and> store_effect s (fst (updateInterruptedRunRecoveryMetadata w i m now s))"
    by (auto simp: t)
qed

text \<open>
  Each handler step of the interface therefore has at most one effect; a history of them has any
  number.
\<close>

interpretation once: run_repository_relation evolves_once
  by unfold_locales
    (simp_all add: once_refl once_create once_queue once_move once_renew once_expire once_interrupt
      once_schedule once_metadata)

lemmas evolves_create = once_create [THEN once_evolves]
lemmas evolves_queue = once_queue [THEN once_evolves]
lemmas evolves_move = once_move [THEN once_evolves]
lemmas evolves_renew = once_renew [THEN once_evolves]
lemmas evolves_expire = once_expire [THEN once_evolves]
lemmas evolves_interrupt = once_interrupt [THEN once_evolves]
lemmas evolves_schedule = once_schedule [THEN once_evolves]
lemmas evolves_metadata = once_metadata [THEN once_evolves]

interpretation memory: run_repository_relation evolves
  by unfold_locales
    (simp_all add: evolves_refl evolves_create evolves_queue evolves_move evolves_renew evolves_expire
      evolves_interrupt evolves_schedule evolves_metadata)

subsection \<open>What an effect keeps\<close>

definition attempt_kept :: "run_attempt \<Rightarrow> run_attempt \<Rightarrow> bool" where
  "attempt_kept a b \<longleftrightarrow> a_runId b = a_runId a \<and> a_sequence b = a_sequence a
     \<and> (a_status a \<noteq> Att_PENDING \<longrightarrow> a_status b \<noteq> Att_PENDING)
     \<and> (isTerminalRunAttemptState (a_status a) \<longrightarrow> b = a)"

definition run_kept :: "run \<Rightarrow> run \<Rightarrow> bool" where
  "run_kept r q \<longleftrightarrow> same_run r q \<and> (isTerminalRunState (r_status r) \<longrightarrow> q = r)
     \<and> (r_status r \<noteq> Run_PENDING \<longrightarrow> r_status q \<noteq> Run_PENDING)"

definition keeps :: "run_store \<Rightarrow> run_store \<Rightarrow> bool" where
  "keeps s s' \<longleftrightarrow>
     (\<forall>i a. findRunAttemptById s i = Some a \<longrightarrow> (\<exists>b. findRunAttemptById s' i = Some b \<and> attempt_kept a b))
     \<and> (\<forall>i r. findRunById s i = Some r \<longrightarrow> (\<exists>q. findRunById s' i = Some q \<and> run_kept r q))"

lemma kept_refl [simp]: "attempt_kept a a" "run_kept r r" "keeps s s"
  by (auto simp: attempt_kept_def run_kept_def keeps_def same_run_def)

lemma attempt_kept_trans: "attempt_kept a b \<Longrightarrow> attempt_kept b c \<Longrightarrow> attempt_kept a c"
  by (auto simp: attempt_kept_def)

lemma run_kept_trans: "run_kept a b \<Longrightarrow> run_kept b c \<Longrightarrow> run_kept a c"
  by (auto simp: run_kept_def intro: same_run_trans)

lemma keeps_trans: "keeps s t \<Longrightarrow> keeps t u \<Longrightarrow> keeps s u"
  unfolding keeps_def by (meson attempt_kept_trans run_kept_trans)

lemma keeps_put_run: "findRunById s (r_id r) = Some q \<Longrightarrow> run_kept q r \<Longrightarrow> keeps s (put_run r s)"
  by (auto simp: keeps_def)

lemma keeps_put_attempt:
  "(\<And>c. findRunAttemptById s (a_id a) = Some c \<Longrightarrow> attempt_kept c a) \<Longrightarrow> keeps s (put_attempt a s)"
  by (auto simp: keeps_def)

lemma keeps_index [simp]: "keeps s (t\<lparr> rs_index := m \<rparr>) = keeps s t"
  by (simp add: keeps_def)

lemma run_moves_not_terminal:
  "(x, y) \<in> set LEGAL_RUN_TRANSITIONS \<Longrightarrow> \<not> isTerminalRunState x"
  by (auto simp: isTerminalRunState_def dest: run_lc.terminal_final)

lemma run_moves_leave_pending: "(x, y) \<in> set LEGAL_RUN_TRANSITIONS \<Longrightarrow> y \<noteq> Run_PENDING"
  by (auto simp: LEGAL_RUN_TRANSITIONS_def)

lemma attempt_moves_kept:
  "(a_status c, a_status a) \<in> set LEGAL_RUN_ATTEMPT_TRANSITIONS \<Longrightarrow> a_runId a = a_runId c \<Longrightarrow>
     a_sequence a = a_sequence c \<Longrightarrow> attempt_kept c a"
  by (auto simp: attempt_kept_def isTerminalRunAttemptState_def TERMINAL_RUN_ATTEMPT_STATES_def
      LEGAL_RUN_ATTEMPT_TRANSITIONS_def)

lemma effect_keeps:
  assumes "store_effect s s'"
  shows "keeps s s'"
  using assms
proof cases
  case (eff_new r a)
  then show ?thesis by (auto simp: keeps_def)
next
  case (eff_run r q)
  then show ?thesis
    using keeps_put_run [of s r q]
    by (auto simp: run_kept_def isTerminalRunState_def TERMINAL_RUN_STATES_def)
next
  case (eff_renew a c)
  then show ?thesis
    by (auto intro!: keeps_put_attempt
        simp: attempt_kept_def isTerminalRunAttemptState_def TERMINAL_RUN_ATTEMPT_STATES_def)
next
  case (eff_move a c r q)
  from eff_move have "keeps s (put_attempt a s)" by (auto intro!: keeps_put_attempt attempt_moves_kept)
  moreover have "run_kept q r" using eff_move run_moves_not_terminal run_moves_leave_pending by (simp add: run_kept_def)
  ultimately show ?thesis
    using eff_move keeps_trans [OF _ keeps_put_run [of "put_attempt a s" r q]] by simp
next
  case (eff_retry r q p a)
  from eff_retry have "keeps s (put_attempt a s)" by (auto intro!: keeps_put_attempt)
  moreover have "run_kept q r"
    using eff_retry by (simp add: run_kept_def isTerminalRunState_def TERMINAL_RUN_STATES_def)
  ultimately show ?thesis
    using eff_retry keeps_trans [OF _ keeps_put_run [of "put_attempt a s" r q]] by simp
qed

lemma effects_keep: "sound_effect\<^sup>*\<^sup>* s s' \<Longrightarrow> keeps s s'"
  by (induction rule: rtranclp_induct) (auto simp: sound_effect_def dest: effect_keeps intro: keeps_trans)

lemma evolves_keeps: "evolves s s' \<Longrightarrow> store_ok s \<Longrightarrow> store_ok s' \<and> keeps s s'"
  by (auto simp: evolves_def dest: effects_keep sound_effects_ok)

subsection \<open>The protocol of a run\<close>

text \<open>
  A run seen from far: its status and how many attempts it has had. The protocol says how the two
  may change.
\<close>

definition run_phases :: "run_store \<Rightarrow> string \<Rightarrow> (run_state \<times> nat) option" where
  "run_phases s i = map_option (\<lambda>r. (r_status r, card (run_attempts s i))) (findRunById s i)"

inductive protocol :: "(run_state \<times> nat) option \<Rightarrow> run_state \<times> nat \<Rightarrow> bool" where
  created: "protocol None (Run_PENDING, 1)"
| moved: "(st, st') \<in> set LEGAL_RUN_TRANSITIONS \<Longrightarrow> st \<noteq> Run_INTERRUPTED \<Longrightarrow> protocol (Some (st, n)) (st', n)"
| retried: "protocol (Some (Run_INTERRUPTED, n)) (Run_QUEUED, n + 1)"

definition protocol_step :: "(string \<Rightarrow> (run_state \<times> nat) option) \<Rightarrow> (string \<Rightarrow> (run_state \<times> nat) option) \<Rightarrow> bool" where
  "protocol_step m m' \<longleftrightarrow> m' = m \<or> (\<exists>i x. protocol (m i) x \<and> m' = m(i \<mapsto> x))"

lemma protocol_stepI: "m' = m(i \<mapsto> x) \<Longrightarrow> m i = y \<Longrightarrow> protocol y x \<Longrightarrow> protocol_step m m'"
  unfolding protocol_step_def by blast

lemma finite_run_attempts: "store_wf s \<Longrightarrow> finite (run_attempts s i)"
  using set_attempts_of [of s i] by (metis List.finite_set)

lemma run_attempts_index [simp]: "run_attempts (s\<lparr> rs_index := m \<rparr>) i = run_attempts s i"
  by (simp add: run_attempts_def)

lemma card_replace:
  assumes "finite A" "c \<in> A" "a \<in> A \<Longrightarrow> a = c"
  shows "card (insert a (A - {c})) = card A"
proof -
  have "a \<notin> A - {c}" using assms(3) by blast
  then have "card (insert a (A - {c})) = Suc (card (A - {c}))" using assms(1) by simp
  also have "\<dots> = card A" using assms(1,2) by (rule card_Suc_Diff1)
  finally show ?thesis .
qed

lemma put_attempt_count:
  assumes wf: "store_wf s" and c: "findRunAttemptById s (a_id a) = Some c" "a_runId a = a_runId c"
  shows "card (run_attempts (put_attempt a s) i) = card (run_attempts s i)"
proof -
  have id: "a_id c = a_id a" using store_wf_attemptD [OF wf c(1)] by simp
  have "c \<in> run_attempts s (a_runId c)" using c(1) id by (simp add: run_attempts_def)
  moreover have "a \<in> run_attempts s (a_runId c) \<Longrightarrow> a = c" using c(1) by (simp add: run_attempts_def)
  ultimately have "card (insert a (run_attempts s (a_runId c) - {c})) = card (run_attempts s (a_runId c))"
    by (rule card_replace [OF finite_run_attempts [OF wf]])
  then show ?thesis by (simp only: put_attempt_same [OF c(1) id c(2)] split: if_splits) simp
qed

lemma effect_protocol:
  assumes "sound_effect s s'"
  shows "protocol_step (run_phases s) (run_phases s')"
proof -
  have ok: "store_ok s" and wf: "store_wf s" and e: "store_effect s s'"
    using assms by (auto simp: sound_effect_def dest: store_ok_wf)
  from e show ?thesis
  proof cases
    case (eff_new r a)
    have "run_attempts s (r_id r) = {}" using wf eff_new(2) by (fastforce simp: run_attempts_def store_wf_def)
    then have "run_phases s' = (run_phases s)(r_id r \<mapsto> (Run_PENDING, 1))"
      using eff_new by (auto simp: run_phases_def put_attempt_new)
    moreover have "run_phases s (r_id r) = None" using eff_new by (simp add: run_phases_def)
    ultimately show ?thesis by (rule protocol_stepI [OF _ _ protocol.created])
  next
    case (eff_run r q)
    have m: "run_phases s' = (run_phases s)(r_id r \<mapsto> (r_status r, card (run_attempts s (r_id r))))"
      using eff_run by (auto simp: run_phases_def)
    have q: "run_phases s (r_id r) = Some (r_status q, card (run_attempts s (r_id r)))"
      using eff_run by (simp add: run_phases_def)
    from eff_run(4) show ?thesis
    proof
      assume "r_status q = Run_PENDING \<and> r_status r = Run_QUEUED \<and> r_recoveryMetadata r = None"
      then show ?thesis
        by (intro protocol_stepI [OF m q]) (simp add: protocol.moved LEGAL_RUN_TRANSITIONS_def)
    qed (use q m in \<open>auto simp: protocol_step_def fun_upd_idem\<close>)
  next
    case (eff_renew a c)
    then have "run_phases s' = run_phases s" by (auto simp: run_phases_def put_attempt_count [OF wf])
    then show ?thesis by (simp add: protocol_step_def)
  next
    case (eff_move a c r q)
    have m: "run_phases s' = (run_phases s)(r_id r \<mapsto> (r_status r, card (run_attempts s (r_id r))))"
      using eff_move by (auto simp: run_phases_def put_attempt_count [OF wf])
    have q: "run_phases s (r_id r) = Some (r_status q, card (run_attempts s (r_id r)))"
      using eff_move by (simp add: run_phases_def)
    have "c \<in> run_attempts s (r_id r)"
      using eff_move store_wf_attemptD [OF wf eff_move(2)] by (simp add: run_attempts_def)
    moreover have "attempts_fit (run_attempts s (r_id r)) (r_status q)"
      using ok eff_move(3) by (simp add: store_ok_def)
    moreover have "a_status c \<noteq> Att_FAILED" using eff_move(4) by (auto simp: LEGAL_RUN_ATTEMPT_TRANSITIONS_def)
    ultimately have "r_status q \<noteq> Run_INTERRUPTED"
      using fit_active by (fastforce simp: attempt_status_for_def)
    then show ?thesis by (intro protocol_stepI [OF m q] protocol.moved [OF eff_move(5)])
  next
    case (eff_retry r q p a)
    have "card (run_attempts s' (r_id r)) = card (run_attempts s (r_id r)) + 1"
      using eff_retry finite_run_attempts [OF wf, of "r_id r"]
      by (simp add: put_attempt_new) (subst card_insert_disjoint; simp add: run_attempts_def)
    then have m: "run_phases s' = (run_phases s)(r_id r \<mapsto> (Run_QUEUED, card (run_attempts s (r_id r)) + 1))"
      using eff_retry by (auto simp: run_phases_def put_attempt_new)
    have "run_phases s (r_id r) = Some (Run_INTERRUPTED, card (run_attempts s (r_id r)))"
      using eff_retry by (simp add: run_phases_def)
    then show ?thesis by (rule protocol_stepI [OF m _ protocol.retried])
  qed
qed

lemma once_protocol: "evolves_once s s' \<Longrightarrow> store_ok s \<Longrightarrow> protocol_step (run_phases s) (run_phases s')"
  using effect_protocol by (auto simp: evolves_once_def protocol_step_def)

lemma evolves_protocol:
  assumes "evolves s s'" "store_ok s"
  shows "protocol_step\<^sup>*\<^sup>* (run_phases s) (run_phases s')"
proof -
  have "sound_effect\<^sup>*\<^sup>* s s'" using assms by (simp add: evolves_def)
  then show ?thesis
    by (induction rule: rtranclp_induct) (auto intro: rtranclp.rtrancl_into_rtrancl effect_protocol)
qed

subsection \<open>Idempotency keys\<close>

text \<open>The idempotency key under which a run is indexed: at most one run has it.\<close>

definition run_key :: "run \<Rightarrow> string option" where
  "run_key r = map_option (workspaceIdempotencyKey (r_workspaceId r)) (r_idempotencyKey r)"

definition keys_indexed :: "run_store \<Rightarrow> bool" where
  "keys_indexed s \<longleftrightarrow>
     (\<forall>k i. map_of (rs_index s) k = Some i \<longrightarrow> (\<exists>r. findRunById s i = Some r \<and> run_key r = Some k))
     \<and> (\<forall>i r k. findRunById s i = Some r \<longrightarrow> run_key r = Some k \<longrightarrow> map_of (rs_index s) k = Some i)"

lemma same_run_key: "same_run r q \<Longrightarrow> r_id q = r_id r \<and> run_key q = run_key r"
  unfolding same_run_def run_key_def by (cases r; cases q) simp

lemma keys_put_run:
  assumes "keys_indexed s" "findRunById s (r_id r) = Some q" "same_run q r"
  shows "keys_indexed (put_run r s)"
proof -
  have "rs_index (put_run r s) = rs_index s" by (simp add: put_run_def)
  moreover have "run_key r = run_key q" using same_run_key [OF assms(3)] by simp
  ultimately show ?thesis
    using assms(1,2) unfolding keys_indexed_def find_put_run
    by (intro conjI allI impI; elim conjE; fastforce split: if_splits)
qed

lemma keys_put_attempt: "keys_indexed (put_attempt a s) = keys_indexed s"
  by (simp add: keys_indexed_def put_attempt_def findRunById_def)

lemma keys_new_run:
  assumes k: "keys_indexed s" and new: "findRunById s (r_id r) = None"
    and u: "assertUniqueRunIdempotencyKey (rs_index s) r = None"
  shows "keys_indexed ((put_run r (put_attempt a s))\<lparr> rs_index := indexRunIdempotencyKey (rs_index s) r \<rparr>)"
    (is "keys_indexed ?t")
proof -
  have f: "findRunById ?t i = (if i = r_id r then Some r else findRunById s i)" for i
    by (simp add: findRunById_def put_run_def put_attempt_def)
  have free: "map_of (rs_index s) k = None" if "run_key r = Some k" for k
  proof (rule ccontr)
    assume "map_of (rs_index s) k \<noteq> None"
    then obtain i where i: "map_of (rs_index s) k = Some i" by auto
    with u that have "i = r_id r"
      by (auto simp: assertUniqueRunIdempotencyKey_def run_key_def split: option.splits if_splits)
    moreover from k i obtain q where "findRunById s i = Some q" unfolding keys_indexed_def by blast
    ultimately show False using new by simp
  qed
  have idx: "map_of (rs_index ?t) k = (if run_key r = Some k then Some (r_id r) else map_of (rs_index s) k)" for k
    by (auto simp: indexRunIdempotencyKey_def run_key_def split: option.splits)
  show ?thesis
    unfolding keys_indexed_def f idx
  proof (intro conjI allI impI)
    fix k i assume "(if run_key r = Some k then Some (r_id r) else map_of (rs_index s) k) = Some i"
    then show "\<exists>q. (if i = r_id r then Some r else findRunById s i) = Some q \<and> run_key q = Some k"
      using k new unfolding keys_indexed_def by (metis option.distinct(1) option.inject)
  next
    fix i q k assume "(if i = r_id r then Some r else findRunById s i) = Some q" "run_key q = Some k"
    then show "(if run_key r = Some k then Some (r_id r) else map_of (rs_index s) k) = Some i"
      using k free unfolding keys_indexed_def by (metis option.distinct(1) option.inject)
  qed
qed

lemma effect_keys: "store_effect s t \<Longrightarrow> keys_indexed s \<Longrightarrow> keys_indexed t"
  by (induction rule: store_effect.induct)
    (auto intro: keys_new_run keys_put_run simp: keys_put_attempt find_put_attempt)

lemma evolves_keys:
  assumes "evolves s t" "store_ok s" "keys_indexed s"
  shows "keys_indexed t"
proof -
  from assms(1,2) have "sound_effect\<^sup>*\<^sup>* s t" by (simp add: evolves_def)
  then show ?thesis using assms(3) by induction (auto simp: sound_effect_def intro: effect_keys)
qed

end
