(* ===== verification/Workflow_Flow.thy ===== *)
theory Workflow_Flow
  imports Workflow_Reconcile Run_Effects
begin

text \<open>
  What all processes that touch workflow runs agree on: which changes of the stores are allowed
  (\<open>flow_kept\<close>), and what holds of the stores at every moment (\<open>flow_ok\<close>): a node run
  exists only where the graph lets it, and every decision recorded in it has its reason in the
  stores. Readiness is stable: once the predecessors of a node have decided about it, nothing
  that is allowed revokes the decision.
\<close>

subsection \<open>Degrees of accepted graphs\<close>

lemma accepted_degrees:
  assumes g: "buildWorkflowGraph d = Inr g"
    and n: "map_of (g_nodesByKey g) key = Some node" "wn_body node \<noteq> Node_JOIN"
  shows "length (neighbours (g_incoming g) key) \<le> 1"
proof -
  have node: "node \<in> set (wd_nodes d)" "wn_key node = key"
    using n(1) buildWorkflowGraph_Inr [OF g] by (auto dest!: map_of_SomeD)
  from accepted_preds(2) [OF g node(1) n(2)] graph_edges [OF g, of key] node(2) show ?thesis by simp
qed

subsection \<open>Readiness without the status of the node itself\<close>

definition node_enabled :: "workflow_graph \<Rightarrow> string \<Rightarrow> node_runs \<Rightarrow> bool" where
  "node_enabled g nodeKey runs \<longleftrightarrow>
     \<not> isNodeSkippable g nodeKey runs
     \<and> (\<exists>node. map_of (g_nodesByKey g) nodeKey = Some node
        \<and> (if wn_body node = Node_JOIN
           then (\<forall>p\<in>set (neighbours (g_incoming g) nodeKey). \<exists>s. status_of runs p = Some s
                \<and> isTerminalWorkflowNodeRunState s \<and> s \<noteq> NR_FAILED)
              \<and> (\<exists>p\<in>set (neighbours (g_incoming g) nodeKey). status_of runs p = Some NR_SUCCEEDED)
           else (case predecessorKeysInDefinitionOrder g nodeKey of
                   [] \<Rightarrow> True | p # ps \<Rightarrow> status_of runs p = Some NR_SUCCEEDED)))"

lemma set_predecessorKeys [simp]:
  "set (predecessorKeysInDefinitionOrder g k) = set (neighbours (g_incoming g) k)"
  by (simp add: predecessorKeysInDefinitionOrder_def)

lemma isNodeReady_enabled: "isNodeReady g k runs \<Longrightarrow> node_enabled g k runs"
proof -
  assume r: "isNodeReady g k runs"
  then have s: "\<not> isNodeSkippable g k runs" by (auto simp: isNodeReady_def split: if_splits)
  from r obtain node where node: "map_of (g_nodesByKey g) k = Some node"
    by (cases "map_of (g_nodesByKey g) k") (auto simp: isNodeReady_def split: if_splits)
  have "if wn_body node = Node_JOIN
      then (\<forall>p\<in>set (neighbours (g_incoming g) k). \<exists>s. status_of runs p = Some s
           \<and> isTerminalWorkflowNodeRunState s \<and> s \<noteq> NR_FAILED)
         \<and> (\<exists>p\<in>set (neighbours (g_incoming g) k). status_of runs p = Some NR_SUCCEEDED)
      else (case predecessorKeysInDefinitionOrder g k of
              [] \<Rightarrow> True | p # ps \<Rightarrow> status_of runs p = Some NR_SUCCEEDED)"
    using r s unfolding isNodeReady_def Let_def node option.case set_predecessorKeys
    by (cases "wn_body node = Node_JOIN"; simp only: if_True if_False split: if_split_asm)
      (auto split: option.split_asm, force+)
  with s node show ?thesis by (auto simp: node_enabled_def)
qed

lemma enabled_not_skippable: "node_enabled g k runs \<Longrightarrow> \<not> isNodeSkippable g k runs"
  by (simp add: node_enabled_def)

subsection \<open>Changes of a node run that are allowed\<close>

definition same_node :: "workflow_node_run \<Rightarrow> workflow_node_run \<Rightarrow> bool" where
  "same_node n m \<longleftrightarrow> n_id m = n_id n \<and> n_workspaceId m = n_workspaceId n
     \<and> n_workflowRunId m = n_workflowRunId n \<and> n_workflowNodeKey m = n_workflowNodeKey n
     \<and> n_sequence m = n_sequence n \<and> n_input m = n_input n \<and> n_createdAt m = n_createdAt n"

definition node_kept :: "workflow_node_run \<Rightarrow> workflow_node_run \<Rightarrow> bool" where
  "node_kept n m \<longleftrightarrow> same_node n m
     \<and> (n_childRunId n \<noteq> None \<longrightarrow> n_childRunId m = n_childRunId n)
     \<and> (isTerminalWorkflowNodeRunState (n_status n) \<longrightarrow> n_status m = n_status n \<and> n_output m = n_output n
        \<and> n_selectedTargetKey m = n_selectedTargetKey n \<and> n_error m = n_error n
        \<and> n_startedAt m = n_startedAt n \<and> n_completedAt m = n_completedAt n)"

lemma node_kept_refl [simp]: "node_kept n n"
  by (simp add: node_kept_def same_node_def)

lemma node_kept_trans: "node_kept a b \<Longrightarrow> node_kept b c \<Longrightarrow> node_kept a c"
  by (auto simp: node_kept_def same_node_def)

definition runs_kept :: "node_runs \<Rightarrow> node_runs \<Rightarrow> bool" where
  "runs_kept runs runs' \<longleftrightarrow>
     (\<forall>k n. map_of runs k = Some n \<longrightarrow> (\<exists>m. map_of runs' k = Some m \<and> node_kept n m))"

lemma runs_kept_refl [simp]: "runs_kept runs runs"
  by (simp add: runs_kept_def)

lemma runs_keptD: "runs_kept runs runs' \<Longrightarrow> map_of runs k = Some n \<Longrightarrow> \<exists>m. map_of runs' k = Some m \<and> node_kept n m"
  by (simp add: runs_kept_def)

lemma status_kept:
  assumes "runs_kept runs runs'" "status_of runs p = Some s" "isTerminalWorkflowNodeRunState s"
  shows "status_of runs' p = Some s"
proof -
  from assms(2) obtain n where n: "map_of runs p = Some n" "n_status n = s" by (auto simp: status_of_def)
  from runs_keptD [OF assms(1) n(1)] obtain m where "map_of runs' p = Some m" "node_kept n m" by blast
  with n(2) assms(3) show ?thesis by (simp add: status_of_def node_kept_def)
qed

lemma activity_kept:
  assumes "runs_kept runs runs'" "status_of runs p = Some s" "isTerminalWorkflowNodeRunState s"
  shows "predecessorActivity g p k runs' = predecessorActivity g p k runs"
proof -
  from assms(2) obtain n where n: "map_of runs p = Some n" "n_status n = s" by (auto simp: status_of_def)
  from runs_keptD [OF assms(1) n(1)] obtain m where m: "map_of runs' p = Some m" "node_kept n m" by blast
  then have e: "n_status m = n_status n" "n_selectedTargetKey m = n_selectedTargetKey n"
    using n(2) assms(3) by (simp_all add: node_kept_def)
  show ?thesis by (simp only: predecessorActivity_def n(1) m(1) option.case e)
qed

lemma inactive_terminal:
  "predecessorActivity g p k runs = Inactive \<Longrightarrow> \<exists>s. status_of runs p = Some s \<and> isTerminalWorkflowNodeRunState s"
  by (auto simp: predecessorActivity_def status_of_def node_status_simps split: option.splits if_splits)

lemma skippable_kept:
  assumes "runs_kept runs runs'" "isNodeSkippable g k runs"
  shows "isNodeSkippable g k runs'"
  unfolding isNodeSkippable_def
  using assms(2) inactive_terminal activity_kept [OF assms(1)]
  by (auto simp: isNodeSkippable_def Let_def split: if_splits) (metis)+

text \<open>
  The condition on degrees that accepted graphs have: only a JOIN has more than one predecessor.
\<close>

definition joins_only :: "workflow_graph \<Rightarrow> bool" where
  "joins_only g \<longleftrightarrow> (\<forall>k node. map_of (g_nodesByKey g) k = Some node \<longrightarrow> wn_body node \<noteq> Node_JOIN
     \<longrightarrow> length (neighbours (g_incoming g) k) \<le> 1)"

lemma enabled_predecessors:
  assumes "node_enabled g k runs" "joins_only g" "p \<in> set (neighbours (g_incoming g) k)"
  shows "\<exists>s. status_of runs p = Some s \<and> isTerminalWorkflowNodeRunState s \<and> s \<noteq> NR_FAILED"
proof -
  from assms(1) obtain node where node: "map_of (g_nodesByKey g) k = Some node"
    and e: "if wn_body node = Node_JOIN
      then (\<forall>p\<in>set (neighbours (g_incoming g) k). \<exists>s. status_of runs p = Some s
           \<and> isTerminalWorkflowNodeRunState s \<and> s \<noteq> NR_FAILED)
         \<and> (\<exists>p\<in>set (neighbours (g_incoming g) k). status_of runs p = Some NR_SUCCEEDED)
      else (case predecessorKeysInDefinitionOrder g k of
              [] \<Rightarrow> True | p # ps \<Rightarrow> status_of runs p = Some NR_SUCCEEDED)"
    by (auto simp: node_enabled_def)
  show ?thesis
  proof (cases "wn_body node = Node_JOIN")
    case False
    with assms(2) node have "length (predecessorKeysInDefinitionOrder g k) \<le> 1"
      by (simp add: joins_only_def predecessorKeysInDefinitionOrder_def)
    moreover have "p \<in> set (predecessorKeysInDefinitionOrder g k)" using assms(3) by simp
    ultimately have "predecessorKeysInDefinitionOrder g k = [p]"
      by (cases "predecessorKeysInDefinitionOrder g k") auto
    with e False show ?thesis by (auto simp: node_status_simps)
  qed (use e assms(3) in auto)
qed

lemma enabled_kept:
  assumes r: "runs_kept runs runs'" and e: "node_enabled g k runs" and j: "joins_only g"
  shows "node_enabled g k runs'"
proof -
  let ?P = "neighbours (g_incoming g) k"
  have st: "status_of runs' p = status_of runs p"
    "predecessorActivity g p k runs' = predecessorActivity g p k runs" if "p \<in> set ?P" for p
    using enabled_predecessors [OF e j that] status_kept [OF r] activity_kept [OF r] by auto
  have s: "isNodeSkippable g k runs' = isNodeSkippable g k runs"
    unfolding isNodeSkippable_def Let_def using st(2) by auto
  have h: "(case predecessorKeysInDefinitionOrder g k of
        [] \<Rightarrow> True | p # ps \<Rightarrow> status_of runs' p = Some NR_SUCCEEDED)
      = (case predecessorKeysInDefinitionOrder g k of
        [] \<Rightarrow> True | p # ps \<Rightarrow> status_of runs p = Some NR_SUCCEEDED)"
  proof (cases "predecessorKeysInDefinitionOrder g k")
    case (Cons p ps)
    then have "p \<in> set ?P" using set_predecessorKeys [of g k] by auto
    with Cons st(1) show ?thesis by simp
  qed simp
  from e show ?thesis unfolding node_enabled_def s h using st(1) by (auto split: if_splits) blast+
qed

lemma input_kept:
  assumes r: "runs_kept runs runs'" and e: "node_enabled g k runs" and j: "joins_only g"
  shows "inputForNode g k runs' w = inputForNode g k runs w"
proof -
  let ?P = "predecessorKeysInDefinitionOrder g k"
  have same: "\<exists>n m. map_of runs p = Some n \<and> map_of runs' p = Some m \<and> n_status m = n_status n
      \<and> n_output m = n_output n \<and> n_input m = n_input n" if "p \<in> set ?P" for p
  proof -
    from that have "p \<in> set (neighbours (g_incoming g) k)" by simp
    from enabled_predecessors [OF e j this] obtain n where n: "map_of runs p = Some n"
      "isTerminalWorkflowNodeRunState (n_status n)" by (auto simp: status_of_def)
    with runs_keptD [OF r n(1)] show ?thesis by (auto simp: node_kept_def same_node_def)
  qed
  have c: "List.map (\<lambda>q. case map_of runs' q of
        Some run \<Rightarrow> if n_status run = NR_SUCCEEDED then [(q, or_null (n_output run))] else []
      | None \<Rightarrow> []) ?P
    = List.map (\<lambda>q. case map_of runs q of
        Some run \<Rightarrow> if n_status run = NR_SUCCEEDED then [(q, or_null (n_output run))] else []
      | None \<Rightarrow> []) ?P"
    by (rule map_cong [OF refl], drule same, auto)
  show ?thesis
  proof (cases ?P)
    case (Cons p ps)
    with same [of p] obtain n m where e: "map_of runs p = Some n" "map_of runs' p = Some m"
      "n_status m = n_status n" "n_output m = n_output n" "n_input m = n_input n" by auto
    show ?thesis unfolding inputForNode_def Let_def c by (simp only: Cons list.case option.case e)
  qed (simp add: inputForNode_def)
qed

subsection \<open>The node runs of a workflow run\<close>

definition nodes_of :: "workflow_run_store \<Rightarrow> string \<Rightarrow> node_runs" where
  "nodes_of s i = nodeRunsByKey (listWorkflowNodeRuns s i)"

definition nodes_ok :: "workflow_run_store \<Rightarrow> bool" where
  "nodes_ok s \<longleftrightarrow> distinct (map_keys (ws_nodes s))
     \<and> (\<forall>i n. findWorkflowNodeRunById s i = Some n \<longrightarrow> n_id n = i)
     \<and> (\<forall>i j n m. findWorkflowNodeRunById s i = Some n \<longrightarrow> findWorkflowNodeRunById s j = Some m \<longrightarrow>
          n_workflowRunId n = n_workflowRunId m \<longrightarrow> n_workflowNodeKey n = n_workflowNodeKey m \<longrightarrow> i = j)"

lemma nodeRunsByKey_snoc:
  "nodeRunsByKey (xs @ [x]) = AList.update (n_workflowNodeKey x) x (nodeRunsByKey xs)"
  by (simp add: nodeRunsByKey_def)

lemma nodeRunsByKey_sound: "map_of (nodeRunsByKey xs) k = Some n \<Longrightarrow> n \<in> set xs \<and> n_workflowNodeKey n = k"
  by (induction xs rule: rev_induct) (auto simp: nodeRunsByKey_snoc nodeRunsByKey_def [of "[]"] split: if_splits)

lemma nodeRunsByKey_complete: "n \<in> set xs \<Longrightarrow> map_of (nodeRunsByKey xs) (n_workflowNodeKey n) \<noteq> None"
  by (induction xs rule: rev_induct) (auto simp: nodeRunsByKey_snoc)

lemma set_listWorkflowNodeRuns:
  "nodes_ok s \<Longrightarrow> n \<in> set (listWorkflowNodeRuns s i) \<longleftrightarrow>
     findWorkflowNodeRunById s (n_id n) = Some n \<and> n_workflowRunId n = i"
  unfolding listWorkflowNodeRuns_def nodes_ok_def findWorkflowNodeRunById_def
  using values_map_of [of "ws_nodes s" n] by auto

lemma nodes_of_iff:
  assumes "nodes_ok s"
  shows "map_of (nodes_of s i) k = Some n \<longleftrightarrow>
    findWorkflowNodeRunById s (n_id n) = Some n \<and> n_workflowRunId n = i \<and> n_workflowNodeKey n = k"
    (is "?l \<longleftrightarrow> ?r")
proof
  assume ?l
  from nodeRunsByKey_sound [OF this [unfolded nodes_of_def]] set_listWorkflowNodeRuns [OF assms]
  show ?r by auto
next
  assume r: ?r
  then have "n \<in> set (listWorkflowNodeRuns s i)" using set_listWorkflowNodeRuns [OF assms] by auto
  from nodeRunsByKey_complete [OF this] r obtain m where m: "map_of (nodes_of s i) k = Some m"
    by (auto simp: nodes_of_def)
  from nodeRunsByKey_sound [OF this [unfolded nodes_of_def]] set_listWorkflowNodeRuns [OF assms]
  have "findWorkflowNodeRunById s (n_id m) = Some m" "n_workflowRunId m = i" "n_workflowNodeKey m = k" by auto
  with r assms have "n_id m = n_id n" unfolding nodes_ok_def by metis
  with r \<open>findWorkflowNodeRunById s (n_id m) = Some m\<close> have "m = n" by simp
  with m show ?l by simp
qed

definition all_nodes_kept :: "workflow_run_store \<Rightarrow> workflow_run_store \<Rightarrow> bool" where
  "all_nodes_kept s s' \<longleftrightarrow> (\<forall>i n. findWorkflowNodeRunById s i = Some n \<longrightarrow>
     (\<exists>m. findWorkflowNodeRunById s' i = Some m \<and> node_kept n m))"

lemma views_kept:
  assumes "nodes_ok s" "nodes_ok s'" "all_nodes_kept s s'"
  shows "runs_kept (nodes_of s i) (nodes_of s' i)"
  unfolding runs_kept_def nodes_of_iff [OF assms(1)] nodes_of_iff [OF assms(2)]
proof (intro allI impI, elim conjE)
  fix k n assume n: "findWorkflowNodeRunById s (n_id n) = Some n" "n_workflowRunId n = i"
    "n_workflowNodeKey n = k"
  with assms(3) obtain m where m: "findWorkflowNodeRunById s' (n_id n) = Some m" "node_kept n m"
    unfolding all_nodes_kept_def by blast
  then show "\<exists>m. (findWorkflowNodeRunById s' (n_id m) = Some m \<and> n_workflowRunId m = i
      \<and> n_workflowNodeKey m = k) \<and> node_kept n m"
    using n by (intro exI [of _ m]) (simp add: node_kept_def same_node_def)
qed

subsection \<open>Changes of the stores that are allowed\<close>

definition wrun_kept :: "workflow_run \<Rightarrow> workflow_run \<Rightarrow> bool" where
  "wrun_kept w w' \<longleftrightarrow> w_id w' = w_id w \<and> w_workspaceId w' = w_workspaceId w \<and> w_workflowId w' = w_workflowId w
     \<and> w_workflowVersionId w' = w_workflowVersionId w \<and> w_input w' = w_input w \<and> w_createdAt w' = w_createdAt w
     \<and> (isTerminalWorkflowRunState (w_status w) \<longrightarrow> w' = w)"

lemma wrun_kept_refl [simp]: "wrun_kept w w"
  by (simp add: wrun_kept_def)

lemma wrun_kept_trans: "wrun_kept a b \<Longrightarrow> wrun_kept b c \<Longrightarrow> wrun_kept a c"
  by (auto simp: wrun_kept_def)

definition wait_kept :: "workflow_wait \<Rightarrow> workflow_wait \<Rightarrow> bool" where
  "wait_kept w w' \<longleftrightarrow> (ww_resolution w \<noteq> None \<longrightarrow> w' = w)"

definition approval_kept :: "approval_request \<Rightarrow> approval_request \<Rightarrow> bool" where
  "approval_kept r r' \<longleftrightarrow> ap_workflowNodeRunId r' = ap_workflowNodeRunId r
     \<and> ap_operationDigest r' = ap_operationDigest r \<and> (ap_status r \<noteq> AR_PENDING \<longrightarrow> r' = r)"

text \<open>A schedule stays with its agent; the occurrence is attached once and dispatched once.\<close>

definition schedule_kept :: "schedule \<Rightarrow> schedule \<Rightarrow> bool" where
  "schedule_kept x y \<longleftrightarrow> sc_id y = sc_id x \<and> sc_workspaceId y = sc_workspaceId x \<and> sc_key y = sc_key x
     \<and> sc_agentId y = sc_agentId x \<and> sc_createdAt y = sc_createdAt x"

definition occurrence_kept :: "schedule_occurrence \<Rightarrow> schedule_occurrence \<Rightarrow> bool" where
  "occurrence_kept x y \<longleftrightarrow> y = x\<lparr> so_runId := so_runId y, so_dispatchedAt := so_dispatchedAt y \<rparr>
     \<and> (so_runId x \<noteq> None \<longrightarrow> so_runId y = so_runId x)
     \<and> (so_dispatchedAt x \<noteq> None \<longrightarrow> so_dispatchedAt y = so_dispatchedAt x)"

lemma schedule_kept_refl [simp]: "schedule_kept x x" "occurrence_kept y y"
  by (simp_all add: schedule_kept_def occurrence_kept_def)

lemma schedule_kept_trans: "schedule_kept x y \<Longrightarrow> schedule_kept y z \<Longrightarrow> schedule_kept x z"
  by (simp add: schedule_kept_def)

lemma occurrence_kept_trans: "occurrence_kept x y \<Longrightarrow> occurrence_kept y z \<Longrightarrow> occurrence_kept x z"
  by (cases x; cases y; cases z) (auto simp: occurrence_kept_def)

definition flow_kept :: "'w flow \<Rightarrow> 'w flow \<Rightarrow> bool" where
  "flow_kept f f' \<longleftrightarrow>
     entries_kept (=) (wc_versions (fl_catalog f)) (wc_versions (fl_catalog f'))
     \<and> entries_kept wrun_kept (ws_runs (fl_store f)) (ws_runs (fl_store f'))
     \<and> entries_kept node_kept (ws_nodes (fl_store f)) (ws_nodes (fl_store f'))
     \<and> keeps (run_store_of f) (run_store_of f')
     \<and> entries_kept wait_kept (fl_waits f) (fl_waits f')
     \<and> entries_kept approval_kept (fl_approvals f) (fl_approvals f')
     \<and> entries_kept schedule_kept (ss_schedules (fl_schedules f)) (ss_schedules (fl_schedules f'))
     \<and> entries_kept occurrence_kept (ss_occurrences (fl_schedules f)) (ss_occurrences (fl_schedules f'))
     \<and> office_kept (fl_office f) (fl_office f')"

lemma flow_kept_refl [simp]: "flow_kept f f"
  by (auto simp: flow_kept_def wait_kept_def approval_kept_def intro!: entries_kept_refl)

lemma flow_kept_trans: "flow_kept f g \<Longrightarrow> flow_kept g h \<Longrightarrow> flow_kept f h"
  unfolding flow_kept_def
  by (auto elim!: entries_kept_trans [rotated] intro: keeps_trans wrun_kept_trans node_kept_trans
      schedule_kept_trans occurrence_kept_trans office_kept_trans simp: wait_kept_def approval_kept_def)

lemma flow_kept_wrun:
  "flow_kept f f' \<Longrightarrow> findWorkflowRunById (fl_store f) i = Some w \<Longrightarrow>
     \<exists>w'. findWorkflowRunById (fl_store f') i = Some w' \<and> wrun_kept w w'"
  by (simp add: flow_kept_def entries_kept_def findWorkflowRunById_def)

lemma flow_kept_node:
  "flow_kept f f' \<Longrightarrow> findWorkflowNodeRunById (fl_store f) i = Some n \<Longrightarrow>
     \<exists>m. findWorkflowNodeRunById (fl_store f') i = Some m \<and> node_kept n m"
  by (simp add: flow_kept_def entries_kept_def findWorkflowNodeRunById_def)

lemma flow_kept_version:
  "flow_kept f f' \<Longrightarrow> findWorkflowVersionById (fl_catalog f) i = Some v \<Longrightarrow>
     findWorkflowVersionById (fl_catalog f') i = Some v"
  by (simp add: flow_kept_def entries_kept_def findWorkflowVersionById_def)

lemma flow_kept_run:
  "flow_kept f f' \<Longrightarrow> findRunById (run_store_of f) i = Some r \<Longrightarrow>
     \<exists>q. findRunById (run_store_of f') i = Some q \<and> run_kept r q"
  by (simp add: flow_kept_def keeps_def)

lemma flow_kept_attempt:
  "flow_kept f f' \<Longrightarrow> findRunAttemptById (run_store_of f) i = Some a \<Longrightarrow>
     \<exists>b. findRunAttemptById (run_store_of f') i = Some b \<and> attempt_kept a b"
  by (simp add: flow_kept_def keeps_def)

lemma flow_kept_wait:
  "flow_kept f f' \<Longrightarrow> map_of (fl_waits f) i = Some t \<Longrightarrow> \<exists>t'. map_of (fl_waits f') i = Some t' \<and> wait_kept t t'"
  by (simp add: flow_kept_def entries_kept_def)

lemma flow_kept_approval:
  "flow_kept f f' \<Longrightarrow> map_of (fl_approvals f) i = Some r \<Longrightarrow>
     \<exists>q. map_of (fl_approvals f') i = Some q \<and> approval_kept r q"
  by (simp add: flow_kept_def entries_kept_def)

lemma flow_kept_occurrence:
  "flow_kept f f' \<Longrightarrow> map_of (ss_occurrences (fl_schedules f)) i = Some x \<Longrightarrow>
     \<exists>y. map_of (ss_occurrences (fl_schedules f')) i = Some y \<and> occurrence_kept x y"
  by (simp add: flow_kept_def entries_kept_def)

lemma flow_kept_schedule:
  "flow_kept f f' \<Longrightarrow> map_of (ss_schedules (fl_schedules f)) i = Some x \<Longrightarrow>
     \<exists>y. map_of (ss_schedules (fl_schedules f')) i = Some y \<and> schedule_kept x y"
  by (simp add: flow_kept_def entries_kept_def)

lemma flow_kept_all_nodes: "flow_kept f f' \<Longrightarrow> all_nodes_kept (fl_store f) (fl_store f')"
  using flow_kept_node by (fastforce simp: all_nodes_kept_def)

subsection \<open>What holds at every moment\<close>

definition version_graph :: "workflow_catalog \<Rightarrow> workflow_run \<Rightarrow> workflow_graph option" where
  "version_graph c w =
     (case findWorkflowVersionById c (w_workflowVersionId w) of
        None \<Rightarrow> None
      | Some v \<Rightarrow> (case buildWorkflowGraph (wv_definition v) of Inl e \<Rightarrow> None | Inr g \<Rightarrow> Some g))"

definition definitions_known :: "workflow_catalog \<Rightarrow> bool" where
  "definitions_known c \<longleftrightarrow> (\<forall>i v. findWorkflowVersionById c i = Some v \<longrightarrow> wv_id v = i)"

text \<open>A JSON value as an output column holds it after it was copied into an entity.\<close>

definition stored_as :: "jsv \<Rightarrow> jsv \<Rightarrow> bool" where
  "stored_as v column \<longleftrightarrow> (\<exists>field x. copyOptJson v field = Inr x \<and> column = column_json x)"

definition child_run_of :: "run_store \<Rightarrow> workflow_run \<Rightarrow> workflow_node_run \<Rightarrow> run \<Rightarrow> bool" where
  "child_run_of s w n r \<longleftrightarrow> n_childRunId n = Some (r_id r) \<and> findRunById s (r_id r) = Some r
     \<and> run_key r = Some (workspaceIdempotencyKey (w_workspaceId w)
          (workflowNodeRunIdempotencyKey (w_id w) (n_workflowNodeKey n)))"

definition approval_of_node :: "approval_store \<Rightarrow> workflow_node_run \<Rightarrow> approval_request \<Rightarrow> bool" where
  "approval_of_node s n r \<longleftrightarrow> map_of s (ap_id r) = Some r \<and> ap_workflowNodeRunId r = n_id n"

text \<open>Why a node run may have succeeded, by the type of its node.\<close>

definition success_reason ::
    "(json_token list \<Rightarrow> string) \<Rightarrow> 'w flow \<Rightarrow> workflow_run \<Rightarrow> wf_node \<Rightarrow> workflow_node_run \<Rightarrow> bool" where
  "success_reason sha256 f w node n \<longleftrightarrow>
     (if node_type (wn_body node) = ''AGENT''
      then \<exists>r a. child_run_of (run_store_of f) w n r \<and> r_status r = Run_SUCCEEDED
        \<and> findRunAttemptById (run_store_of f) (a_id a) = Some a \<and> a_runId a = r_id r
        \<and> a_status a = Att_SUCCEEDED \<and> stored_as (or_null (a_output a)) (n_output n)
      else if node_type (wn_body node) = ''APPROVAL''
      then \<exists>r. approval_of_node (fl_approvals f) n r \<and> ap_status r = AR_APPROVED
        \<and> assertWorkflowNodeApprovalBinding sha256 r n = None
      else if node_type (wn_body node) = ''WAIT''
      then \<exists>t. map_of (fl_waits f) (n_id n) = Some t \<and> ww_resolution t \<in> {Some Res_TIMER, Some Res_EVENT}
      else stored_as (n_input n) (n_output n)
        \<and> (\<forall>selector cases defaultTo. wn_body node = Node_BRANCH selector cases defaultTo \<longrightarrow>
             n_selectedTargetKey n = Some (selectBranchTarget selector cases defaultTo (n_input n))))"

definition failure_reason :: "'w flow \<Rightarrow> workflow_run \<Rightarrow> wf_node \<Rightarrow> workflow_node_run \<Rightarrow> bool" where
  "failure_reason f w node n \<longleftrightarrow>
     (if node_type (wn_body node) = ''AGENT''
      then \<exists>r. child_run_of (run_store_of f) w n r \<and> r_status r \<in> {Run_FAILED, Run_TIMED_OUT, Run_CANCELLED}
      else if node_type (wn_body node) = ''APPROVAL''
      then \<exists>r. approval_of_node (fl_approvals f) n r \<and> ap_status r \<noteq> AR_PENDING
      else node_type (wn_body node) = ''WAIT''
        \<and> (\<exists>t. map_of (fl_waits f) (n_id n) = Some t \<and> ww_resolution t = Some Res_TIMEOUT))"

definition status_reason ::
    "(json_token list \<Rightarrow> string) \<Rightarrow> 'w flow \<Rightarrow> workflow_run \<Rightarrow> wf_node \<Rightarrow> workflow_node_run \<Rightarrow> bool" where
  "status_reason sha256 f w node n \<longleftrightarrow>
     (case n_status n of
        NR_SUCCEEDED \<Rightarrow> success_reason sha256 f w node n
      | NR_FAILED \<Rightarrow> failure_reason f w node n
      | NR_WAITING \<Rightarrow> node_type (wn_body node) \<in> {''APPROVAL'', ''WAIT''}
      | NR_RUNNING \<Rightarrow> node_type (wn_body node) \<notin> {''APPROVAL'', ''WAIT''}
      | NR_CANCELLED \<Rightarrow> False
      | _ \<Rightarrow> True)"

text \<open>A node run exists because the graph let it: its node was enabled, or skippable.\<close>

definition placed :: "workflow_graph \<Rightarrow> workflow_run \<Rightarrow> node_runs \<Rightarrow> workflow_node_run \<Rightarrow> bool" where
  "placed g w runs n \<longleftrightarrow>
     (if n_status n = NR_SKIPPED then isNodeSkippable g (n_workflowNodeKey n) runs
      else node_enabled g (n_workflowNodeKey n) runs
        \<and> (\<exists>field. copyJsonValue (inputForNode g (n_workflowNodeKey n) runs (w_input w)) field = Inr (n_input n)))"

definition node_fits :: "(json_token list \<Rightarrow> string) \<Rightarrow> 'w flow \<Rightarrow> workflow_run \<Rightarrow> workflow_graph \<Rightarrow> wf_node
    \<Rightarrow> workflow_node_run \<Rightarrow> bool" where
  "node_fits sha256 f w g node n \<longleftrightarrow>
     n_workspaceId n = w_workspaceId w
     \<and> (n_childRunId n \<noteq> None \<longrightarrow> node_type (wn_body node) = ''AGENT'' \<and> n_status n \<noteq> NR_SKIPPED
          \<and> (\<exists>r. child_run_of (run_store_of f) w n r))
     \<and> placed g w (nodes_of (fl_store f) (w_id w)) n \<and> status_reason sha256 f w node n"

definition node_ok :: "(json_token list \<Rightarrow> string) \<Rightarrow> 'w flow \<Rightarrow> workflow_node_run \<Rightarrow> bool" where
  "node_ok sha256 f n \<longleftrightarrow> (\<exists>w g node.
     findWorkflowRunById (fl_store f) (n_workflowRunId n) = Some w \<and> w_id w = n_workflowRunId n
     \<and> version_graph (fl_catalog f) w = Some g
     \<and> map_of (g_nodesByKey g) (n_workflowNodeKey n) = Some node \<and> node_fits sha256 f w g node n)"

text \<open>The outcome of a workflow run follows from its node runs.\<close>

definition wrun_ok :: "'w flow \<Rightarrow> workflow_run \<Rightarrow> bool" where
  "wrun_ok f w \<longleftrightarrow>
     (w_status w = WR_SUCCEEDED \<longrightarrow> (\<exists>g n. version_graph (fl_catalog f) w = Some g
        \<and> map_of (nodes_of (fl_store f) (w_id w)) (g_terminalKey g) = Some n
        \<and> n_status n = NR_SUCCEEDED \<and> stored_as (or_null (n_output n)) (w_output w)))
     \<and> (w_status w = WR_FAILED \<longrightarrow> (\<exists>g k n. version_graph (fl_catalog f) w = Some g
        \<and> map_of (nodes_of (fl_store f) (w_id w)) k = Some n
        \<and> (n_status n = NR_FAILED \<or> k = g_terminalKey g \<and> n_status n = NR_SKIPPED)))"

text \<open>
  An occurrence belongs to its schedule, and no other occurrence of the schedule is for the same
  instant. The run attached to it has the idempotency key of the occurrence; it is not left behind
  as PENDING once the occurrence counts as dispatched.
\<close>

definition scheduled_run :: "run_store \<Rightarrow> schedule_occurrence \<Rightarrow> run \<Rightarrow> bool" where
  "scheduled_run s x r \<longleftrightarrow> so_runId x = Some (r_id r) \<and> findRunById s (r_id r) = Some r
     \<and> (\<exists>k. scheduleOccurrenceRunIdempotencyKey (so_scheduleId x) (so_scheduledFor x) = Inr k
        \<and> run_key r = Some (workspaceIdempotencyKey (so_workspaceId x) k))
     \<and> (so_dispatchedAt x \<noteq> None \<longrightarrow> r_status r \<noteq> Run_PENDING)"

definition occurrence_ok :: "'w flow \<Rightarrow> schedule_occurrence \<Rightarrow> bool" where
  "occurrence_ok f x \<longleftrightarrow> \<not> uses_proto (so_input x)
     \<and> (\<exists>y. map_of (ss_schedules (fl_schedules f)) (so_scheduleId x) = Some y
        \<and> sc_workspaceId y = so_workspaceId x \<and> sc_agentId y = so_agentId x)
     \<and> (so_runId x \<noteq> None \<or> so_dispatchedAt x \<noteq> None \<longrightarrow> (\<exists>r. scheduled_run (run_store_of f) x r))"

definition schedules_keyed :: "schedule_store \<Rightarrow> bool" where
  "schedules_keyed s \<longleftrightarrow> distinct (map_keys (ss_schedules s)) \<and> distinct (map_keys (ss_occurrences s))
     \<and> (\<forall>i x. map_of (ss_schedules s) i = Some x \<longrightarrow> sc_id x = i)
     \<and> (\<forall>i x. map_of (ss_occurrences s) i = Some x \<longrightarrow> so_id x = i)
     \<and> (\<forall>i j x y. map_of (ss_occurrences s) i = Some x \<longrightarrow> map_of (ss_occurrences s) j = Some y \<longrightarrow>
          so_scheduleId x = so_scheduleId y \<longrightarrow> so_scheduledFor x = so_scheduledFor y \<longrightarrow> i = j)"

text \<open>
  An assignment that was never launched has no run; else its status has its reason in the run of
  its agent, which has the idempotency key of the assignment, or in the run of its workflow.
\<close>

definition assignment_run :: "run_store \<Rightarrow> assignment \<Rightarrow> run \<Rightarrow> bool" where
  "assignment_run s x r \<longleftrightarrow> as_runId x = Some (r_id r) \<and> findRunById s (r_id r) = Some r
     \<and> run_key r = Some (workspaceIdempotencyKey (as_workspaceId x) (assignmentRunIdempotencyKey (as_id x)))"

definition assignment_workflow_run :: "workflow_run_store \<Rightarrow> assignment \<Rightarrow> workflow_run \<Rightarrow> bool" where
  "assignment_workflow_run s x w \<longleftrightarrow> as_workflowRunId x = Some (w_id w) \<and> findWorkflowRunById s (w_id w) = Some w
     \<and> w_workspaceId w = as_workspaceId x \<and> w_workflowVersionId w = as_targetVersionId x"

definition backed :: "'w flow \<Rightarrow> assignment \<Rightarrow> (run_state \<Rightarrow> bool) \<Rightarrow> (workflow_run_state \<Rightarrow> bool) \<Rightarrow> bool" where
  "backed f x P Q \<longleftrightarrow> as_startedAt x \<noteq> None \<and>
     (case as_targetType x of
        Target_AGENT_VERSION \<Rightarrow> as_workflowRunId x = None \<and> (\<exists>r. assignment_run (run_store_of f) x r \<and> P (r_status r))
      | Target_WORKFLOW_VERSION \<Rightarrow> as_runId x = None \<and> (\<exists>w. assignment_workflow_run (fl_store f) x w \<and> Q (w_status w)))"

definition not_launched :: "assignment \<Rightarrow> bool" where
  "not_launched x \<longleftrightarrow> as_runId x = None \<and> as_workflowRunId x = None \<and> as_startedAt x = None"

definition assignment_reason :: "'w flow \<Rightarrow> assignment \<Rightarrow> assignment_state \<Rightarrow> bool" where
  "assignment_reason f x s \<longleftrightarrow> (case s of
        As_PENDING \<Rightarrow> not_launched x
      | As_RUNNING \<Rightarrow> backed f x (\<lambda>s. True) (\<lambda>s. True)
      | As_COMPLETED \<Rightarrow> backed f x (\<lambda>s. s = Run_SUCCEEDED) (\<lambda>s. s = WR_SUCCEEDED)
      | As_FAILED \<Rightarrow> backed f x (\<lambda>s. s = Run_FAILED \<or> s = Run_TIMED_OUT) (\<lambda>s. s = WR_FAILED)
      | As_CANCELLED \<Rightarrow> not_launched x \<or> backed f x (\<lambda>s. s = Run_CANCELLED) (\<lambda>s. False))"

definition assignment_ok :: "'w flow \<Rightarrow> assignment \<Rightarrow> bool" where
  "assignment_ok f x \<longleftrightarrow> \<not> uses_proto (as_input x) \<and> assignment_reason f x (as_status x)"

definition flow_ok :: "(json_token list \<Rightarrow> string) \<Rightarrow> 'w flow \<Rightarrow> bool" where
  "flow_ok sha256 f \<longleftrightarrow>
     definitions_known (fl_catalog f) \<and> store_ok (run_store_of f) \<and> keys_indexed (run_store_of f)
     \<and> nodes_ok (fl_store f)
     \<and> (\<forall>i n. findWorkflowNodeRunById (fl_store f) i = Some n \<longrightarrow> node_ok sha256 f n)
     \<and> (\<forall>i w. findWorkflowRunById (fl_store f) i = Some w \<longrightarrow> w_id w = i \<and> wrun_ok f w)
     \<and> distinct (map_keys (ws_runs (fl_store f))) \<and> distinct (map_keys (fl_approvals f))
     \<and> (\<forall>i r. map_of (fl_approvals f) i = Some r \<longrightarrow> ap_id r = i)
     \<and> schedules_keyed (fl_schedules f) \<and> office_ok (fl_office f)
     \<and> (\<forall>i x. map_of (of_assignments (fl_office f)) i = Some x \<longrightarrow> assignment_ok f x)
     \<and> (\<forall>i x. map_of (ss_occurrences (fl_schedules f)) i = Some x \<longrightarrow> occurrence_ok f x)"

subsection \<open>Allowed changes keep what holds\<close>

lemma version_graph_kept:
  "flow_kept f f' \<Longrightarrow> version_graph (fl_catalog f) w = Some g \<Longrightarrow> wrun_kept w w' \<Longrightarrow>
     version_graph (fl_catalog f') w' = Some g"
  by (auto simp: version_graph_def wrun_kept_def split: option.splits sum.splits dest: flow_kept_version)

lemma version_graph_joins:
  assumes "version_graph c w = Some g"
  shows "joins_only g"
proof -
  from assms obtain v where v: "findWorkflowVersionById c (w_workflowVersionId w) = Some v"
    "buildWorkflowGraph (wv_definition v) = Inr g"
    by (auto simp: version_graph_def split: option.splits sum.splits)
  from accepted_degrees [OF v(2)] show ?thesis by (simp add: joins_only_def)
qed

lemma placed_kept:
  assumes "runs_kept runs runs'" "joins_only g" "w_input w' = w_input w" "placed g w runs n"
  shows "placed g w' runs' n"
  using assms(4) skippable_kept [OF assms(1)] enabled_kept [OF assms(1) _ assms(2)]
    input_kept [OF assms(1) _ assms(2)]
  by (auto simp: placed_def assms(3) split: if_splits)

lemma child_run_kept:
  assumes "flow_kept f f'" "child_run_of (run_store_of f) w n r" "wrun_kept w w'"
  shows "\<exists>q. child_run_of (run_store_of f') w' n q \<and> run_kept r q"
proof -
  from assms(2) have r: "findRunById (run_store_of f) (r_id r) = Some r" by (simp add: child_run_of_def)
  from flow_kept_run [OF assms(1) this] obtain q where q: "findRunById (run_store_of f') (r_id r) = Some q"
    "run_kept r q" by blast
  then have "r_id q = r_id r" "run_key q = run_key r"
    using same_run_key by (simp_all add: run_kept_def)
  with q assms(2,3) show ?thesis by (intro exI [of _ q]) (auto simp: child_run_of_def wrun_kept_def)
qed

lemma child_run_node: "n_childRunId m = n_childRunId n \<Longrightarrow> n_workflowNodeKey m = n_workflowNodeKey n \<Longrightarrow>
    child_run_of s w m r = child_run_of s w n r"
  by (simp add: child_run_of_def)

lemma approval_of_node_kept:
  assumes "flow_kept f f'" "approval_of_node (fl_approvals f) n r"
    and "\<forall>i r. map_of (fl_approvals f') i = Some r \<longrightarrow> ap_id r = i"
  shows "\<exists>q. approval_of_node (fl_approvals f') n q \<and> approval_kept r q"
proof -
  from assms(2) have "map_of (fl_approvals f) (ap_id r) = Some r" by (simp add: approval_of_node_def)
  from flow_kept_approval [OF assms(1) this]
  obtain q where "map_of (fl_approvals f') (ap_id r) = Some q" "approval_kept r q" by blast
  with assms(2,3) show ?thesis
    by (intro exI [of _ q]) (auto simp: approval_of_node_def approval_kept_def)
qed

lemma wait_of_node_kept:
  assumes "flow_kept f f'" "map_of (fl_waits f) i = Some t" "ww_resolution t \<noteq> None"
  shows "map_of (fl_waits f') i = Some t"
  using flow_kept_wait [OF assms(1,2)] assms(3) by (auto simp: wait_kept_def)

lemma terminal_run_kept: "run_kept r q \<Longrightarrow> isTerminalRunState (r_status r) \<Longrightarrow> q = r"
  by (simp add: run_kept_def)

lemma success_reason_kept:
  assumes k: "flow_kept f f'" and ok: "\<forall>i r. map_of (fl_approvals f') i = Some r \<longrightarrow> ap_id r = i"
    and w: "wrun_kept w w'" and s: "success_reason sha256 f w node n"
  shows "success_reason sha256 f' w' node n"
proof -
  consider "node_type (wn_body node) = ''AGENT''" | "node_type (wn_body node) = ''APPROVAL''"
    | "node_type (wn_body node) = ''WAIT''" | "node_type (wn_body node) \<notin> {''AGENT'', ''APPROVAL'', ''WAIT''}"
    by auto
  then show ?thesis
  proof cases
    case 1
    with s obtain r a where r: "child_run_of (run_store_of f) w n r" "r_status r = Run_SUCCEEDED"
      and a: "findRunAttemptById (run_store_of f) (a_id a) = Some a" "a_runId a = r_id r"
      "a_status a = Att_SUCCEEDED" "stored_as (or_null (a_output a)) (n_output n)"
      by (auto simp: success_reason_def)
    from child_run_kept [OF k r(1) w] r(2) have "child_run_of (run_store_of f') w' n r"
      by (auto dest!: terminal_run_kept simp: isTerminalRunState_def TERMINAL_RUN_STATES_def)
    moreover from flow_kept_attempt [OF k a(1)] a(3) have "findRunAttemptById (run_store_of f') (a_id a) = Some a"
      by (auto simp: attempt_kept_def isTerminalRunAttemptState_def TERMINAL_RUN_ATTEMPT_STATES_def)
    ultimately show ?thesis using 1 r a by (auto simp: success_reason_def)
  next
    case 2
    with s obtain r where r: "approval_of_node (fl_approvals f) n r" "ap_status r = AR_APPROVED"
      "assertWorkflowNodeApprovalBinding sha256 r n = None" by (auto simp: success_reason_def)
    from approval_of_node_kept [OF k r(1) ok] r(2) have "approval_of_node (fl_approvals f') n r"
      by (auto simp: approval_kept_def)
    with 2 r show ?thesis by (auto simp: success_reason_def)
  next
    case 3
    with s obtain t where t: "map_of (fl_waits f) (n_id n) = Some t"
      "ww_resolution t \<in> {Some Res_TIMER, Some Res_EVENT}" by (auto simp: success_reason_def)
    with wait_of_node_kept [OF k t(1)] 3 show ?thesis by (auto simp: success_reason_def)
  next
    case 4
    with s show ?thesis by (auto simp: success_reason_def)
  qed
qed

lemma failure_reason_kept:
  assumes k: "flow_kept f f'" and ok: "\<forall>i r. map_of (fl_approvals f') i = Some r \<longrightarrow> ap_id r = i"
    and w: "wrun_kept w w'" and s: "failure_reason f w node n"
  shows "failure_reason f' w' node n"
proof (cases "node_type (wn_body node) = ''AGENT''")
  case True
  with s obtain r where r: "child_run_of (run_store_of f) w n r"
    "r_status r \<in> {Run_FAILED, Run_TIMED_OUT, Run_CANCELLED}" by (auto simp: failure_reason_def)
  from child_run_kept [OF k r(1) w] r(2) have "child_run_of (run_store_of f') w' n r"
    by (auto dest!: terminal_run_kept simp: isTerminalRunState_def TERMINAL_RUN_STATES_def)
  with True r(2) show ?thesis by (auto simp: failure_reason_def)
next
  case False
  show ?thesis
  proof (cases "node_type (wn_body node) = ''APPROVAL''")
    case True
    with s obtain r where r: "approval_of_node (fl_approvals f) n r" "ap_status r \<noteq> AR_PENDING"
      by (auto simp: failure_reason_def)
    from approval_of_node_kept [OF k r(1) ok] r(2) have "approval_of_node (fl_approvals f') n r"
      by (auto simp: approval_kept_def)
    with True r(2) show ?thesis by (auto simp: failure_reason_def)
  qed (use False s in \<open>auto simp: failure_reason_def dest: wait_of_node_kept [OF k]\<close>)
qed

lemma status_reason_kept:
  assumes "flow_kept f f'" "\<forall>i r. map_of (fl_approvals f') i = Some r \<longrightarrow> ap_id r = i" "wrun_kept w w'"
    and "status_reason sha256 f w node n"
  shows "status_reason sha256 f' w' node n"
  using assms(4) success_reason_kept [OF assms(1-3)] failure_reason_kept [OF assms(1-3)]
  by (auto simp: status_reason_def split: workflow_node_run_state.splits)

text \<open>The parts of \<open>flow_ok\<close> that say how the stores are keyed.\<close>

definition flow_keyed :: "'w flow \<Rightarrow> bool" where
  "flow_keyed f \<longleftrightarrow> definitions_known (fl_catalog f) \<and> nodes_ok (fl_store f)
     \<and> (\<forall>i w. findWorkflowRunById (fl_store f) i = Some w \<longrightarrow> w_id w = i)
     \<and> distinct (map_keys (ws_runs (fl_store f))) \<and> distinct (map_keys (fl_approvals f))
     \<and> (\<forall>i r. map_of (fl_approvals f) i = Some r \<longrightarrow> ap_id r = i) \<and> schedules_keyed (fl_schedules f)
     \<and> office_ok (fl_office f)"

lemma flow_ok_keyed: "flow_ok sha256 f \<Longrightarrow> flow_keyed f"
  by (simp add: flow_ok_def flow_keyed_def)

lemma flow_views_kept:
  "flow_keyed f \<Longrightarrow> flow_keyed f' \<Longrightarrow> flow_kept f f' \<Longrightarrow>
     runs_kept (nodes_of (fl_store f) i) (nodes_of (fl_store f') i)"
  by (intro views_kept flow_kept_all_nodes) (simp_all add: flow_keyed_def)

lemma node_fits_kept:
  assumes k: "flow_kept f f'" "flow_keyed f" "flow_keyed f'" and w: "wrun_kept w w'"
    and g: "version_graph (fl_catalog f) w = Some g" and n: "node_fits sha256 f w g node n"
  shows "node_fits sha256 f' w' g node n"
proof -
  have j: "joins_only g" using version_graph_joins [OF g] .
  have v: "w_id w' = w_id w" "w_workspaceId w' = w_workspaceId w" "w_input w' = w_input w"
    using w by (simp_all add: wrun_kept_def)
  from n placed_kept [OF flow_views_kept [OF k(2,3,1)] j v(3)]
    status_reason_kept [OF k(1) _ w] child_run_kept [OF k(1) _ w]
  show ?thesis unfolding node_fits_def v using k(3) by (auto simp: flow_keyed_def) blast+
qed

lemma node_ok_kept:
  assumes k: "flow_kept f f'" "flow_keyed f" "flow_keyed f'" and n: "node_ok sha256 f n"
  shows "node_ok sha256 f' n"
proof -
  from n obtain w g node where w: "findWorkflowRunById (fl_store f) (n_workflowRunId n) = Some w"
    "w_id w = n_workflowRunId n" "version_graph (fl_catalog f) w = Some g"
    "map_of (g_nodesByKey g) (n_workflowNodeKey n) = Some node" "node_fits sha256 f w g node n"
    by (auto simp: node_ok_def)
  from flow_kept_wrun [OF k(1) w(1)] obtain w' where
    w': "findWorkflowRunById (fl_store f') (n_workflowRunId n) = Some w'" "wrun_kept w w'" by blast
  have "w_id w' = n_workflowRunId n" using w'(2) w(2) by (simp add: wrun_kept_def)
  with w' w(4) version_graph_kept [OF k(1) w(3) w'(2)] node_fits_kept [OF k w'(2) w(3) w(5)]
  show ?thesis unfolding node_ok_def by blast
qed

lemma wrun_ok_kept:
  assumes k: "flow_kept f f'" "flow_keyed f" "flow_keyed f'" and w: "wrun_ok f w"
  shows "wrun_ok f' w"
proof -
  have v: "\<exists>m. map_of (nodes_of (fl_store f') (w_id w)) key = Some m \<and> n_status m = n_status n
      \<and> n_output m = n_output n"
    if "map_of (nodes_of (fl_store f) (w_id w)) key = Some n" "isTerminalWorkflowNodeRunState (n_status n)" for key n
    using runs_keptD [OF flow_views_kept [OF k(2,3,1)] that(1)] that(2) by (auto simp: node_kept_def)
  note g = version_graph_kept [OF k(1) _ wrun_kept_refl]
  show ?thesis
    unfolding wrun_ok_def
  proof (intro conjI impI)
    assume "w_status w = WR_SUCCEEDED"
    with w obtain g' n where n: "version_graph (fl_catalog f) w = Some g'"
      "map_of (nodes_of (fl_store f) (w_id w)) (g_terminalKey g') = Some n" "n_status n = NR_SUCCEEDED"
      "stored_as (or_null (n_output n)) (w_output w)" by (auto simp: wrun_ok_def)
    with v [OF n(2)] g [OF n(1)] show "\<exists>g n. version_graph (fl_catalog f') w = Some g
        \<and> map_of (nodes_of (fl_store f') (w_id w)) (g_terminalKey g) = Some n
        \<and> n_status n = NR_SUCCEEDED \<and> stored_as (or_null (n_output n)) (w_output w)"
      by (auto simp: node_status_simps)
  next
    assume "w_status w = WR_FAILED"
    with w obtain g' key n where n: "version_graph (fl_catalog f) w = Some g'"
      "map_of (nodes_of (fl_store f) (w_id w)) key = Some n"
      "n_status n = NR_FAILED \<or> key = g_terminalKey g' \<and> n_status n = NR_SKIPPED" by (auto simp: wrun_ok_def)
    then have "isTerminalWorkflowNodeRunState (n_status n)" by (auto simp: node_status_simps)
    with v [OF n(2)] g [OF n(1)] n(3) show "\<exists>g k n. version_graph (fl_catalog f') w = Some g
        \<and> map_of (nodes_of (fl_store f') (w_id w)) k = Some n
        \<and> (n_status n = NR_FAILED \<or> k = g_terminalKey g \<and> n_status n = NR_SKIPPED)" by metis
  qed
qed

lemma scheduled_run_kept:
  assumes k: "flow_kept f f'" and r: "scheduled_run (run_store_of f) x r"
  shows "\<exists>q. scheduled_run (run_store_of f') x q"
proof -
  from r have "findRunById (run_store_of f) (r_id r) = Some r" by (simp add: scheduled_run_def)
  from flow_kept_run [OF k this] obtain q where q: "findRunById (run_store_of f') (r_id r) = Some q" "run_kept r q"
    by blast
  then have "r_id q = r_id r" "run_key q = run_key r" using same_run_key by (simp_all add: run_kept_def)
  with q r have "scheduled_run (run_store_of f') x q" by (auto simp: scheduled_run_def run_kept_def)
  then show ?thesis by blast
qed

lemma occurrence_ok_kept:
  assumes k: "flow_kept f f'" and x: "occurrence_ok f x"
  shows "occurrence_ok f' x"
proof -
  from x obtain y where "map_of (ss_schedules (fl_schedules f)) (so_scheduleId x) = Some y"
    "sc_workspaceId y = so_workspaceId x" "sc_agentId y = so_agentId x" by (auto simp: occurrence_ok_def)
  with flow_kept_schedule [OF k this(1)] x scheduled_run_kept [OF k] show ?thesis
    by (auto simp: occurrence_ok_def schedule_kept_def)
qed

lemma run_status_kept: "run_kept r q \<Longrightarrow> isTerminalRunState (r_status r) \<Longrightarrow> r_status q = r_status r"
  by (simp add: run_kept_def)

lemma wrun_status_kept: "wrun_kept w v \<Longrightarrow> isTerminalWorkflowRunState (w_status w) \<Longrightarrow> w_status v = w_status w"
  by (simp add: wrun_kept_def)

lemma assignment_run_kept:
  assumes k: "flow_kept f f'" and r: "assignment_run (run_store_of f) x r"
  shows "\<exists>q. assignment_run (run_store_of f') x q \<and> run_kept r q"
proof -
  from r have "findRunById (run_store_of f) (r_id r) = Some r" by (simp add: assignment_run_def)
  from flow_kept_run [OF k this] obtain q where q: "findRunById (run_store_of f') (r_id r) = Some q" "run_kept r q"
    by blast
  then have "r_id q = r_id r" "run_key q = run_key r" using same_run_key by (simp_all add: run_kept_def)
  with q r have "assignment_run (run_store_of f') x q" by (auto simp: assignment_run_def)
  with q(2) show ?thesis by blast
qed

lemma assignment_workflow_run_kept:
  assumes k: "flow_kept f f'" and w: "assignment_workflow_run (fl_store f) x w"
  shows "\<exists>v. assignment_workflow_run (fl_store f') x v \<and> wrun_kept w v"
proof -
  from w have "findWorkflowRunById (fl_store f) (w_id w) = Some w" by (simp add: assignment_workflow_run_def)
  from flow_kept_wrun [OF k this] obtain v where v: "findWorkflowRunById (fl_store f') (w_id w) = Some v" "wrun_kept w v"
    by blast
  with w have "assignment_workflow_run (fl_store f') x v" by (auto simp: assignment_workflow_run_def wrun_kept_def)
  with v(2) show ?thesis by blast
qed

lemma backed_kept:
  assumes k: "flow_kept f f'" and b: "backed f x P Q"
    and p: "\<And>r q. run_kept r q \<Longrightarrow> P (r_status r) \<Longrightarrow> P' (r_status q)"
    and q: "\<And>w v. wrun_kept w v \<Longrightarrow> Q (w_status w) \<Longrightarrow> Q' (w_status v)"
  shows "backed f' x P' Q'"
proof (cases "as_targetType x")
  case Target_AGENT_VERSION
  with b obtain r where r: "assignment_run (run_store_of f) x r" "P (r_status r)" "as_startedAt x \<noteq> None"
    "as_workflowRunId x = None" by (auto simp: backed_def)
  from assignment_run_kept [OF k r(1)] p r Target_AGENT_VERSION show ?thesis by (auto simp: backed_def)
next
  case Target_WORKFLOW_VERSION
  with b obtain w where w: "assignment_workflow_run (fl_store f) x w" "Q (w_status w)" "as_startedAt x \<noteq> None"
    "as_runId x = None" by (auto simp: backed_def)
  from assignment_workflow_run_kept [OF k w(1)] q w Target_WORKFLOW_VERSION show ?thesis by (auto simp: backed_def)
qed

lemma assignment_reason_kept:
  assumes k: "flow_kept f f'" and s: "assignment_reason f x s"
  shows "assignment_reason f' x s"
proof -
  have r: "r_status q = r_status r" if "run_kept r q" "r_status r \<in> {Run_SUCCEEDED, Run_FAILED, Run_TIMED_OUT, Run_CANCELLED}"
    for r q
    using run_status_kept [OF that(1)] that(2) by (auto simp: isTerminalRunState_def TERMINAL_RUN_STATES_def)
  have w: "w_status v = w_status w" if "wrun_kept w v" "w_status w \<in> {WR_SUCCEEDED, WR_FAILED}" for w v
    using wrun_status_kept [OF that(1)] that(2)
    by (auto simp: isTerminalWorkflowRunState_def TERMINAL_WORKFLOW_RUN_STATES_def)
  have b: "backed f' x (\<lambda>s. s \<in> A) (\<lambda>s. s \<in> B)" if "backed f x (\<lambda>s. s \<in> A) (\<lambda>s. s \<in> B)"
    "A \<subseteq> {Run_SUCCEEDED, Run_FAILED, Run_TIMED_OUT, Run_CANCELLED}" "B \<subseteq> {WR_SUCCEEDED, WR_FAILED}" for A B
  proof (rule backed_kept [OF k that(1)])
    fix p q assume "run_kept p q" "r_status p \<in> A"
    then show "r_status q \<in> A" using r [of p q] that(2) by auto
  next
    fix v v' assume "wrun_kept v v'" "w_status v \<in> B"
    then show "w_status v' \<in> B" using w [of v v'] that(3) by auto
  qed
  have "backed f' x (\<lambda>s. True) (\<lambda>s. True)" if "backed f x (\<lambda>s. True) (\<lambda>s. True)"
    by (rule backed_kept [OF k that]) simp_all
  then show ?thesis
    using s b [of "{Run_SUCCEEDED}" "{WR_SUCCEEDED}"] b [of "{Run_FAILED, Run_TIMED_OUT}" "{WR_FAILED}"]
      b [of "{Run_CANCELLED}" "{}"]
    by (cases s) (auto simp: assignment_reason_def)
qed

lemma assignment_ok_kept: "flow_kept f f' \<Longrightarrow> assignment_ok f x \<Longrightarrow> assignment_ok f' x"
  using assignment_reason_kept by (auto simp: assignment_ok_def)

text \<open>
  What is left to check of a change: the entries that are new or different.
\<close>

lemma flow_okI:
  assumes k: "flow_kept f f'" "flow_ok sha256 f" "flow_keyed f'"
    and s: "store_ok (run_store_of f')" "keys_indexed (run_store_of f')"
    and n: "\<And>i n. findWorkflowNodeRunById (fl_store f') i = Some n \<Longrightarrow>
        findWorkflowNodeRunById (fl_store f) i \<noteq> Some n \<Longrightarrow> node_ok sha256 f' n"
    and w: "\<And>i w. findWorkflowRunById (fl_store f') i = Some w \<Longrightarrow>
        findWorkflowRunById (fl_store f) i \<noteq> Some w \<Longrightarrow> wrun_ok f' w"
    and x: "\<And>i x. map_of (ss_occurrences (fl_schedules f')) i = Some x \<Longrightarrow>
        map_of (ss_occurrences (fl_schedules f)) i \<noteq> Some x \<Longrightarrow> occurrence_ok f' x"
    and a: "\<And>i x. map_of (of_assignments (fl_office f')) i = Some x \<Longrightarrow>
        map_of (of_assignments (fl_office f)) i \<noteq> Some x \<Longrightarrow> assignment_ok f' x"
  shows "flow_ok sha256 f'"
proof -
  note kd = flow_ok_keyed [OF k(2)]
  have "node_ok sha256 f' n" if "findWorkflowNodeRunById (fl_store f') i = Some n" for i n
  proof (cases "findWorkflowNodeRunById (fl_store f) i = Some n")
    case True
    with k(2) have "node_ok sha256 f n" by (simp add: flow_ok_def)
    then show ?thesis by (rule node_ok_kept [OF k(1) kd k(3)])
  qed (rule n [OF that])
  moreover have "wrun_ok f' w" if "findWorkflowRunById (fl_store f') i = Some w" for i w
  proof (cases "findWorkflowRunById (fl_store f) i = Some w")
    case True
    with k(2) have "wrun_ok f w" by (simp add: flow_ok_def)
    then show ?thesis by (rule wrun_ok_kept [OF k(1) kd k(3)])
  qed (rule w [OF that])
  moreover have "occurrence_ok f' x" if "map_of (ss_occurrences (fl_schedules f')) i = Some x" for i x
  proof (cases "map_of (ss_occurrences (fl_schedules f)) i = Some x")
    case True
    with k(2) have "occurrence_ok f x" by (simp add: flow_ok_def)
    then show ?thesis by (rule occurrence_ok_kept [OF k(1)])
  qed (rule x [OF that])
  moreover have "assignment_ok f' x" if "map_of (of_assignments (fl_office f')) i = Some x" for i x
  proof (cases "map_of (of_assignments (fl_office f)) i = Some x")
    case True
    with k(2) have "assignment_ok f x" by (simp add: flow_ok_def)
    then show ?thesis by (rule assignment_ok_kept [OF k(1)])
  qed (rule a [OF that])
  ultimately show ?thesis using s k(3) by (auto simp: flow_ok_def flow_keyed_def)
qed

end
