(* ===== verification/Workflow_Guarantee.thy ===== *)
theory Workflow_Guarantee
  imports Workflow_Flow
begin

text \<open>
  Rely and guarantee for programs over the stores. Before every access the other processes may
  act, and all that is known of them is that they keep \<open>flow_ok\<close>, change the stores only as
  \<open>flow_kept\<close> allows and do not take the identifiers this process may draw. A program is
  \<open>safe\<close> when under these conditions each of its accesses does the same, also where the access
  fails. Assertions are about copies of entities that were read some time ago, so they have to be
  stable: true of every allowed later state.
\<close>

subsection \<open>The other processes\<close>

definition free_id :: "string \<Rightarrow> 'w flow \<Rightarrow> bool" where
  "free_id i f \<longleftrightarrow> findWorkflowNodeRunById (fl_store f) i = None"

definition env_ok :: "reconcile_env \<Rightarrow> bool" where
  "env_ok env \<longleftrightarrow> re_transitionWorkflowRun env = postgres_transitionWorkflowRun
     \<and> re_saveWorkflowNodeRun env = postgres_saveWorkflowNodeRun
     \<and> re_saveWorkflowNodeRunTransition env = postgres_saveWorkflowNodeRunTransition"

definition good :: "reconcile_env \<Rightarrow> 'w flow \<Rightarrow> bool" where
  "good env f \<longleftrightarrow> flow_ok (re_sha256 env) f"

text \<open>What a process relies on, and what it grants to those that draw other identifiers.\<close>

definition rely :: "reconcile_env \<Rightarrow> 'w flow \<Rightarrow> 'w flow \<Rightarrow> bool" where
  "rely env f g \<longleftrightarrow> good env g \<and> flow_kept f g \<and> (\<forall>i. re_mine env i \<longrightarrow> free_id i f \<longrightarrow> free_id i g)"

definition grants :: "reconcile_env \<Rightarrow> 'w flow \<Rightarrow> 'w flow \<Rightarrow> bool" where
  "grants env f g \<longleftrightarrow> good env g \<and> flow_kept f g \<and> (\<forall>i. \<not> re_mine env i \<longrightarrow> free_id i f \<longrightarrow> free_id i g)"

lemma rely_refl: "good env f \<Longrightarrow> rely env f f"
  by (simp add: rely_def)

lemma grants_refl: "good env f \<Longrightarrow> grants env f f"
  by (simp add: grants_def)

lemma grants_store:
  "good env g \<Longrightarrow> flow_kept f g \<Longrightarrow> fl_store g = fl_store f \<Longrightarrow> grants env f g"
  by (simp add: grants_def free_id_def)

text \<open>The queue and the events do not matter to what holds.\<close>

definition same_stores :: "'w flow \<Rightarrow> 'w flow \<Rightarrow> bool" where
  "same_stores f g \<longleftrightarrow> fl_catalog g = fl_catalog f \<and> fl_store g = fl_store f \<and> run_store_of g = run_store_of f
     \<and> fl_waits g = fl_waits f \<and> fl_approvals g = fl_approvals f \<and> fl_schedules g = fl_schedules f
     \<and> fl_office g = fl_office f"

lemma same_stores_ok:
  assumes "same_stores f g"
  shows "flow_ok sha256 g = flow_ok sha256 f"
proof -
  note e = assms [unfolded same_stores_def]
  have "success_reason sha256 g w node n = success_reason sha256 f w node n"
    "failure_reason g w node n = failure_reason f w node n" for w node n
    unfolding success_reason_def failure_reason_def using e by simp_all
  then have "node_ok sha256 g n = node_ok sha256 f n" for n
    unfolding node_ok_def node_fits_def status_reason_def using e by (simp cong: workflow_node_run_state.case_cong)
  moreover have "wrun_ok g w = wrun_ok f w" for w unfolding wrun_ok_def using e by simp
  moreover have "occurrence_ok g o' = occurrence_ok f o'" for o' unfolding occurrence_ok_def using e by simp
  moreover have "backed g a P Q = backed f a P Q" for a P Q
    unfolding backed_def using e by (cases "as_targetType a") simp_all
  then have "assignment_ok g a = assignment_ok f a" for a
    unfolding assignment_ok_def assignment_reason_def by (cases "as_status a") simp_all
  ultimately show ?thesis unfolding flow_ok_def using e by simp
qed

lemma same_stores_kept:
  assumes "same_stores g h"
  shows "flow_kept f h = flow_kept f g" "flow_kept h f = flow_kept g f"
  using assms by (simp_all add: same_stores_def flow_kept_def)


subsection \<open>Assertions and judgements\<close>

definition stable :: "reconcile_env \<Rightarrow> ('w flow \<Rightarrow> bool) \<Rightarrow> bool" where
  "stable env P \<longleftrightarrow> (\<forall>f g. good env f \<longrightarrow> good env g \<longrightarrow> flow_kept f g \<longrightarrow> P f \<longrightarrow> P g)"

named_theorems stable_facts

lemma stableI: "(\<And>f g. good env f \<Longrightarrow> good env g \<Longrightarrow> flow_kept f g \<Longrightarrow> P f \<Longrightarrow> P g) \<Longrightarrow> stable env P"
  by (simp add: stable_def)

lemma stableD: "stable env P \<Longrightarrow> good env f \<Longrightarrow> good env g \<Longrightarrow> flow_kept f g \<Longrightarrow> P f \<Longrightarrow> P g"
  unfolding stable_def by blast

lemma stable_const [stable_facts]: "stable env (\<lambda>f. c)"
  by (simp add: stable_def)

lemma stable_conj [stable_facts]: "stable env P \<Longrightarrow> stable env Q \<Longrightarrow> stable env (\<lambda>f. P f \<and> Q f)"
  unfolding stable_def by blast

lemma stable_imp [stable_facts]: "(c \<Longrightarrow> stable env P) \<Longrightarrow> stable env (\<lambda>f. c \<longrightarrow> P f)"
  unfolding stable_def by blast

lemma stable_ex [stable_facts]: "(\<And>x. stable env (P x)) \<Longrightarrow> stable env (\<lambda>f. \<exists>x. P x f)"
  unfolding stable_def by meson

text \<open>
  What holds at the end: \<open>Q\<close> of the result or \<open>E\<close> of the error; of the errors a driver throws
  nothing is said.
\<close>

definition driver_error :: "osva_error \<Rightarrow> bool" where
  "driver_error e \<longleftrightarrow> (\<exists>m. e = OtherError m)"

definition result_ok :: "('a \<Rightarrow> 'w flow \<Rightarrow> bool) \<Rightarrow> (osva_error \<Rightarrow> 'w flow \<Rightarrow> bool) \<Rightarrow> osva_error + 'a \<Rightarrow> 'w flow \<Rightarrow> bool" where
  "result_ok Q E r g \<longleftrightarrow> (case r of Inl e \<Rightarrow> driver_error e \<or> E e g | Inr x \<Rightarrow> Q x g)"

lemma result_ok_simps [simp]:
  "result_ok Q E (Inl e) g \<longleftrightarrow> driver_error e \<or> E e g" "result_ok Q E (Inr x) g = Q x g"
  by (simp_all add: result_ok_def)

lemma driver_error_Other [simp]: "driver_error (OtherError m)"
  by (simp add: driver_error_def)

lemma result_ok_any [simp]: "result_ok (\<lambda>x f. True) (\<lambda>e f. True) r g"
  by (simp add: result_ok_def split: sum.splits)

text \<open>
  From now on: whatever the others do before an access, the access keeps what it has to, and so
  does the program that is left.
\<close>

primrec sound_from :: "reconcile_env \<Rightarrow> ('a \<Rightarrow> 'w flow \<Rightarrow> bool) \<Rightarrow> (osva_error \<Rightarrow> 'w flow \<Rightarrow> bool)
    \<Rightarrow> ('w, 'a) act \<Rightarrow> 'w flow \<Rightarrow> bool" where
  "sound_from env Q E (Ended r) = result_ok Q E r"
| "sound_from env Q E (Access a) = (\<lambda>f. \<forall>g fault. rely env f g \<longrightarrow>
     (case map_prod id (sound_from env Q E) (a fault g) of (h, holds) \<Rightarrow> grants env g h \<and> holds h))"
| "sound_from env Q E (Draw d) = (\<lambda>f. \<forall>g i. rely env f g \<longrightarrow> re_mine env i \<longrightarrow> free_id i g \<longrightarrow>
     sound_from env Q E (d i) g)"

lemma sound_from_Access:
  "sound_from env Q E (Access a) f \<longleftrightarrow> (\<forall>g fault h m. rely env f g \<longrightarrow> a fault g = (h, m) \<longrightarrow>
     grants env g h \<and> sound_from env Q E m h)"
  unfolding sound_from.simps(2) by (intro all_cong1) (auto simp: map_prod_def split: prod.split prod.split_asm)

declare sound_from.simps(2) [simp del]

lemma act_induct [case_names Ended Access Draw]:
  assumes "\<And>r. P (Ended r)" and "\<And>a. (\<And>fault f g m. a fault f = (g, m) \<Longrightarrow> P m) \<Longrightarrow> P (Access a)"
    and "\<And>d. (\<And>i. P (d i)) \<Longrightarrow> P (Draw d)"
  shows "P m"
proof (induction m)
  case (Access a)
  show ?case
  proof (rule assms(2))
    fix fault f g m assume "a fault f = (g, m)"
    then have "m \<in> Basic_BNFs.snds (a fault f)" by (simp add: prod_set_simps)
    then show "P m" by (rule Access [OF rangeI rangeI])
  qed
qed (use assms in auto)

definition ends :: "reconcile_env \<Rightarrow> ('w flow \<Rightarrow> bool) \<Rightarrow> ('w, 'a) act \<Rightarrow> ('a \<Rightarrow> 'w flow \<Rightarrow> bool)
    \<Rightarrow> (osva_error \<Rightarrow> 'w flow \<Rightarrow> bool) \<Rightarrow> bool" where
  "ends env P m Q E \<longleftrightarrow> (\<forall>f. good env f \<longrightarrow> P f \<longrightarrow> sound_from env Q E m f)"

abbreviation safe :: "reconcile_env \<Rightarrow> ('w flow \<Rightarrow> bool) \<Rightarrow> ('w, 'a) act \<Rightarrow> ('a \<Rightarrow> 'w flow \<Rightarrow> bool) \<Rightarrow> bool" where
  "safe env P m Q \<equiv> ends env P m Q (\<lambda>e f. True)"

abbreviation harmless :: "reconcile_env \<Rightarrow> ('w flow \<Rightarrow> bool) \<Rightarrow> ('w, 'a) act \<Rightarrow> bool" where
  "harmless env P m \<equiv> safe env P m (\<lambda>x f. True)"

text \<open>The rule all others come from: what runs after the end of a program.\<close>

lemma sound_settle:
  assumes "sound_from env R F m f" "good env f" "P f" "stable env P"
    and "\<And>r g. good env g \<Longrightarrow> P g \<Longrightarrow> result_ok R F r g \<Longrightarrow> sound_from env Q E (k r) g"
  shows "sound_from env Q E (act_settle m k) f"
  using assms(1-3)
proof (induction m arbitrary: f rule: act_induct)
  case (Access a)
  have "grants env g h \<and> sound_from env Q E m' h"
    if g: "rely env f g" "map_prod id (\<lambda>m. act_settle m k) (a fault g) = (h, m')" for g fault h m'
  proof -
    from g(2) obtain m where m: "a fault g = (h, m)" "m' = act_settle m k" by (cases "a fault g") auto
    have gr: "grants env g h" "sound_from env R F m h"
      using Access.prems(1) g(1) m(1) by (auto simp: sound_from_Access)
    then have "good env h" "flow_kept f h"
      using g(1) by (auto simp: grants_def rely_def intro: flow_kept_trans)
    with stableD [OF assms(4) Access.prems(2) _ _ Access.prems(3)] Access.IH [OF m(1) gr(2)] gr(1) m(2)
    show ?thesis by simp
  qed
  then show ?case by (simp add: sound_from_Access)
next
  case (Draw d)
  then show ?case using stableD [OF assms(4)] by (auto simp: rely_def)
qed (use assms(5) in simp)

lemma ends_settle:
  assumes "ends env P m R F" "stable env P"
    and "\<And>r. ends env (\<lambda>f. P f \<and> result_ok R F r f) (k r) Q E"
  shows "ends env P (act_settle m k) Q E"
  using assms(1,3) sound_settle [OF _ _ _ assms(2)] unfolding ends_def by meson

lemma result_weaken:
  "result_ok Q E r f \<Longrightarrow> (\<And>x. Q x f \<Longrightarrow> Q' x f) \<Longrightarrow> (\<And>e. E e f \<Longrightarrow> E' e f) \<Longrightarrow> result_ok Q' E' r f"
  by (auto simp: result_ok_def split: sum.splits)

lemma sound_weaken:
  assumes "sound_from env Q E m f" "good env f"
    and "\<And>x f. good env f \<Longrightarrow> Q x f \<Longrightarrow> Q' x f" "\<And>e f. good env f \<Longrightarrow> E e f \<Longrightarrow> E' e f"
  shows "sound_from env Q' E' m f"
  using assms(1,2)
proof (induction m arbitrary: f rule: act_induct)
  case (Access a)
  then show ?case by (simp add: sound_from_Access) (metis grants_def)
next
  case (Draw d)
  then show ?case by (simp add: rely_def)
qed (use assms(3,4) in \<open>auto intro: result_weaken\<close>)

lemma ends_weaken:
  assumes "ends env P m Q E" and "\<And>f. good env f \<Longrightarrow> P' f \<Longrightarrow> P f"
    and "\<And>x f. good env f \<Longrightarrow> Q x f \<Longrightarrow> Q' x f" "\<And>e f. good env f \<Longrightarrow> E e f \<Longrightarrow> E' e f"
  shows "ends env P' m Q' E'"
  unfolding ends_def
proof (intro allI impI)
  fix f assume f: "good env f" "P' f"
  with assms(1,2) have "sound_from env Q E m f" by (simp add: ends_def)
  then show "sound_from env Q' E' m f" by (rule sound_weaken [OF _ f(1) assms(3,4)])
qed

lemma ends_pre:
  assumes "ends env P m Q E" "\<And>f. good env f \<Longrightarrow> P' f \<Longrightarrow> P f"
  shows "ends env P' m Q E"
  using assms unfolding ends_def by blast

lemma harmless_from:
  assumes "ends env P m Q E" "\<And>f. good env f \<Longrightarrow> P' f \<Longrightarrow> P f"
  shows "harmless env P' m"
  using assms by (rule ends_weaken) simp_all

lemma ends_impossible: "(\<And>f. good env f \<Longrightarrow> \<not> P f) \<Longrightarrow> ends env P m Q E"
  by (auto simp: ends_def)

lemma ends_give: "(\<And>f. good env f \<Longrightarrow> P f \<Longrightarrow> Q x f) \<Longrightarrow> ends env P (give x) Q E"
  by (simp add: ends_def give_def)

lemma ends_throw: "(\<And>f. good env f \<Longrightarrow> P f \<Longrightarrow> E e f) \<Longrightarrow> ends env P (lift_act (Inl e)) Q E"
  by (simp add: ends_def lift_act_def)

lemma ends_lift:
  "(\<And>x f. good env f \<Longrightarrow> P f \<Longrightarrow> r = Inr x \<Longrightarrow> Q x f) \<Longrightarrow> (\<And>e f. good env f \<Longrightarrow> P f \<Longrightarrow> r = Inl e \<Longrightarrow> E e f)
     \<Longrightarrow> ends env P (lift_act r) Q E"
  by (cases r) (auto simp: ends_def lift_act_def)

lemma ends_check: "(\<And>f. good env f \<Longrightarrow> P f \<Longrightarrow> c = None \<Longrightarrow> Q () f) \<Longrightarrow> safe env P (check_act c) Q"
  by (auto simp: ends_def check_act_def split: option.splits)

lemma ends_then:
  assumes m: "ends env P m R E" and k: "\<And>x. ends env (\<lambda>f. P f \<and> R x f) (k x) Q E" and P: "stable env P"
  shows "ends env P (act_then m k) Q E"
  unfolding act_then_def
proof (rule ends_settle [OF m P])
  fix r
  show "ends env (\<lambda>f. P f \<and> result_ok R E r f) (case r of Inl e \<Rightarrow> Ended (Inl e) | Inr x \<Rightarrow> k x) Q E"
    using k by (cases r) (auto simp: ends_def)
qed

lemma ends_lift_then:
  assumes "\<And>x. r = Inr x \<Longrightarrow> ends env P (k x) Q E" "\<And>e f. r = Inl e \<Longrightarrow> good env f \<Longrightarrow> P f \<Longrightarrow> E e f"
  shows "ends env P (act_then (lift_act r) k) Q E"
  using assms by (cases r) (auto simp: ends_def act_then_def lift_act_def)

lemma ends_then_give: "ends env P m (\<lambda>u. Q x) E \<Longrightarrow> ends env P (act_then m (\<lambda>u. give x)) Q E"
  unfolding ends_def act_then_def give_def
proof (intro allI impI)
  fix f assume "\<forall>f. good env f \<longrightarrow> P f \<longrightarrow> sound_from env (\<lambda>u. Q x) E m f" "good env f" "P f"
  then have "sound_from env (\<lambda>u. Q x) E m f" "good env f" by simp_all
  then show "sound_from env Q E (act_settle m (\<lambda>r. case r of Inl e \<Rightarrow> Ended (Inl e) | Inr u \<Rightarrow> Ended (Inr x))) f"
  proof (rule sound_settle [OF _ _ TrueI stable_const])
    fix r g assume "result_ok (\<lambda>u. Q x) E r g"
    then show "sound_from env Q E (case r of Inl e \<Rightarrow> Ended (Inl e) | Inr u \<Rightarrow> Ended (Inr x)) g" by (cases r) simp_all
  qed
qed

text \<open>The handler may rely on the stable part of what held before.\<close>

lemma ends_catch_failure:
  assumes m: "ends env P' m Q F" and h: "\<And>e. ends env (\<lambda>f. P f \<and> F e f) (h e) Q E" and P: "stable env P"
    and w: "\<And>f. P' f \<Longrightarrow> P f" and d: "\<And>e f. driver_error e \<Longrightarrow> F e f"
  shows "ends env P' (act_catch m h) Q E"
proof -
  have "ends env (\<lambda>f. P f \<and> result_ok Q F r f) (case r of Inl e \<Rightarrow> h e | Inr x \<Rightarrow> Ended (Inr x)) Q E" for r
    using h d by (cases r) (auto simp: ends_def)
  then show ?thesis
    using m w sound_settle [OF _ _ _ P] unfolding ends_def act_catch_def by meson
qed

lemmas ends_catch_from = ends_catch_failure [where F = "\<lambda>e f. True", OF _ _ _ _ TrueI]

lemmas ends_catch = ends_catch_from [where P = P and P' = P for P]

lemma harmless_for_all:
  assumes "stable env P" "\<And>x. x \<in> set xs \<Longrightarrow> harmless env P (a x)"
  shows "harmless env P (for_all a xs)"
  using assms(2)
proof (induction xs)
  case (Cons x xs)
  then have a: "harmless env P (a x)" and as: "harmless env P (for_all a xs)" by simp_all
  show ?case
    unfolding for_all.simps
    by (rule ends_settle [OF a assms(1)], rule ends_settle [OF ends_pre [OF as]]) (simp_all add: assms(1) ends_def)
qed (simp add: ends_give)

subsection \<open>Accesses\<close>

text \<open>
  What is asserted before an access has to survive the other processes only: besides the stable
  assertions, the freedom of a drawn identifier does.
\<close>

definition waits :: "reconcile_env \<Rightarrow> ('w flow \<Rightarrow> bool) \<Rightarrow> bool" where
  "waits env P \<longleftrightarrow> (\<forall>f g. good env f \<longrightarrow> rely env f g \<longrightarrow> P f \<longrightarrow> P g)"

lemma waits_stable: "stable env P \<Longrightarrow> waits env P"
  unfolding waits_def stable_def rely_def by blast

lemma waits_conj: "waits env P \<Longrightarrow> waits env Q \<Longrightarrow> waits env (\<lambda>f. P f \<and> Q f)"
  unfolding waits_def by blast

lemma ends_access:
  assumes "waits env P"
    and "\<And>f g r. good env f \<Longrightarrow> P f \<Longrightarrow> operation f = (g, r) \<Longrightarrow> grants env f g \<and> result_ok Q E r g"
  shows "ends env P (access_act operation) Q E"
proof -
  have "grants env g h \<and> sound_from env Q E m h"
    if f: "good env f" "P f" "rely env f g" and
      m: "(case fault of No_fault \<Rightarrow> (let (g', r) = operation g in (g', Ended r))
        | Not_done m \<Rightarrow> (g, Ended (Inl (OtherError m)))
        | Not_answered m \<Rightarrow> (fst (operation g), Ended (Inl (OtherError m)))) = (h, m)" for f g h m fault
  proof -
    have g: "good env g" "P g" using f assms(1) unfolding waits_def rely_def by blast+
    obtain g' r where r: "operation g = (g', r)" by fastforce
    from assms(2) [OF g r] m grants_refl [OF g(1)] show ?thesis by (cases fault) (auto simp: r)
  qed
  then show ?thesis by (simp add: ends_def access_act_def sound_from_Access)
qed

lemma ends_reading:
  assumes "stable env P" "\<And>f. good env f \<Longrightarrow> P f \<Longrightarrow> Q (sel f) f"
  shows "ends env P (reading sel) Q E"
  unfolding reading_def
  by (rule ends_access [OF waits_stable [OF assms(1)]]) (auto simp: assms(2) grants_refl)

lemma ends_reading_then:
  assumes "stable env P" "\<And>f. good env f \<Longrightarrow> P f \<Longrightarrow> R (sel f) f"
    and "\<And>x. ends env (\<lambda>f. P f \<and> R x f) (k x) Q E"
  shows "ends env P (act_then (reading sel) k) Q E"
proof (rule ends_then)
  show "ends env P (reading sel) R E" using assms(1,2) by (rule ends_reading)
qed (use assms in auto)

text \<open>A drawn identifier stays free until it is used.\<close>

definition drawn :: "reconcile_env \<Rightarrow> string \<Rightarrow> 'w flow \<Rightarrow> bool" where
  "drawn env i f \<longleftrightarrow> re_mine env i \<and> free_id i f"

lemma waits_drawn: "waits env (drawn env i)"
  by (simp add: waits_def drawn_def rely_def)

lemma ends_new_id_then:
  assumes P: "stable env P" and k: "\<And>i. ends env (\<lambda>f. P f \<and> drawn env i f) (k i) Q E"
  shows "ends env P (act_then new_id k) Q E"
  using k stableD [OF P] unfolding ends_def by (auto simp: act_then_def new_id_def drawn_def rely_def)

lemma ends_any_id_then:
  assumes P: "stable env P" and k: "\<And>i. ends env P (k i) Q E"
  shows "ends env P (act_then new_id k) Q E"
  by (rule ends_new_id_then [OF P]) (rule ends_pre [OF k], simp)

lemma ends_case_option:
  "(r = None \<Longrightarrow> ends env P a Q E) \<Longrightarrow> (\<And>x. r = Some x \<Longrightarrow> ends env P (b x) Q E) \<Longrightarrow>
     ends env P (case r of None \<Rightarrow> a | Some x \<Rightarrow> b x) Q E"
  by (cases r) simp_all

lemma ends_if:
  "(c \<Longrightarrow> ends env P a Q E) \<Longrightarrow> (\<not> c \<Longrightarrow> ends env P b Q E) \<Longrightarrow> ends env P (if c then a else b) Q E"
  by simp

lemma ends_on_store:
  assumes "waits env P"
    and "\<And>f x s. good env f \<Longrightarrow> P f \<Longrightarrow> operation (fl_store f) = Inr (x, s) \<Longrightarrow>
      grants env f (f\<lparr> fl_store := s \<rparr>) \<and> Q x (f\<lparr> fl_store := s \<rparr>)"
    and "\<And>f e. good env f \<Longrightarrow> P f \<Longrightarrow> operation (fl_store f) = Inl e \<Longrightarrow> E e f"
  shows "ends env P (on_store operation) Q E"
  unfolding on_store_def using assms(2,3)
  by (intro ends_access [OF assms(1)]) (auto simp: grants_refl split: sum.splits prod.splits)

lemma ends_on_waits:
  assumes "waits env P"
    and "\<And>f x s. good env f \<Longrightarrow> P f \<Longrightarrow> operation (fl_waits f) = Inr (x, s) \<Longrightarrow>
      good env (f\<lparr> fl_waits := s \<rparr>) \<and> flow_kept f (f\<lparr> fl_waits := s \<rparr>)"
  shows "harmless env P (on_waits operation)"
  unfolding on_waits_def using assms(2)
  by (intro ends_access [OF assms(1)]) (auto simp: grants_refl intro!: grants_store split: sum.splits prod.splits)

lemma ends_on_approvals:
  assumes "waits env P"
    and "\<And>f x s. good env f \<Longrightarrow> P f \<Longrightarrow> operation (fl_approvals f) = Inr (x, s) \<Longrightarrow>
      good env (f\<lparr> fl_approvals := s \<rparr>) \<and> flow_kept f (f\<lparr> fl_approvals := s \<rparr>)"
  shows "harmless env P (on_approvals operation)"
  unfolding on_approvals_def using assms(2)
  by (intro ends_access [OF assms(1)]) (auto simp: grants_refl intro!: grants_store split: sum.splits prod.splits)

lemma ends_on_runs:
  assumes "waits env P"
    and "\<And>f s r. good env f \<Longrightarrow> P f \<Longrightarrow> operation (run_store_of f) = (s, r) \<Longrightarrow>
      good env (f\<lparr> fl_platform := (fl_platform f)\<lparr> pf_runs := s \<rparr> \<rparr>)
      \<and> flow_kept f (f\<lparr> fl_platform := (fl_platform f)\<lparr> pf_runs := s \<rparr> \<rparr>)
      \<and> result_ok Q E r (f\<lparr> fl_platform := (fl_platform f)\<lparr> pf_runs := s \<rparr> \<rparr>)"
  shows "ends env P (on_runs operation) Q E"
  unfolding on_runs_def using assms(2)
  by (intro ends_access [OF assms(1)]) (auto intro!: grants_store split: prod.splits)

lemma ends_on_queue:
  assumes "stable env P" "\<And>x f. Q x f" "\<And>e f. E e f"
  shows "ends env P (on_queue operation) Q E"
proof -
  have s: "same_stores f (f\<lparr> fl_platform := (fl_platform f)\<lparr> pf_queue := q \<rparr> \<rparr>)" for f :: "'a flow" and q
    by (simp add: same_stores_def)
  show ?thesis
    unfolding on_queue_def
    by (intro ends_access [OF waits_stable [OF assms(1)]])
      (auto simp: assms(2,3) result_ok_def good_def same_stores_ok [OF s] same_stores_kept(1) [OF s]
        intro!: grants_store split: prod.splits sum.split)
qed

end
