(* ===== verification/Workflow_Writes.thy ===== *)
theory Workflow_Writes
  imports Workflow_Guarantee
begin

text \<open>
  What a reconciliation may assert of the copies it holds, and what each of its writes does to the
  stores: a write that is guarded as the code guards it, with a reason for what it records, keeps
  \<open>flow_ok\<close> and is an allowed change.
\<close>

subsection \<open>Assertions about copies\<close>

definition node_seen :: "workflow_node_run \<Rightarrow> 'w flow \<Rightarrow> bool" where
  "node_seen n f \<longleftrightarrow> (\<exists>m. findWorkflowNodeRunById (fl_store f) (n_id n) = Some m \<and> node_kept n m)"

definition run_seen :: "workflow_run \<Rightarrow> 'w flow \<Rightarrow> bool" where
  "run_seen w f \<longleftrightarrow> (\<exists>w'. findWorkflowRunById (fl_store f) (w_id w) = Some w' \<and> wrun_kept w w')"

definition graph_seen :: "workflow_run \<Rightarrow> workflow_graph \<Rightarrow> 'w flow \<Rightarrow> bool" where
  "graph_seen w g f \<longleftrightarrow> run_seen w f \<and> version_graph (fl_catalog f) w = Some g"

definition view_seen :: "workflow_run \<Rightarrow> node_runs \<Rightarrow> 'w flow \<Rightarrow> bool" where
  "view_seen w runs f \<longleftrightarrow> runs_kept runs (nodes_of (fl_store f) (w_id w))"

lemma good_ok: "good env f \<Longrightarrow> flow_ok (re_sha256 env) f"
  by (simp add: good_def)

lemma good_keyed: "good env f \<Longrightarrow> flow_keyed f"
  unfolding good_def by (blast dest: flow_ok_keyed)

lemma stable_node_seen [stable_facts]: "stable env (node_seen n)"
proof (rule stableI)
  fix f g :: "'a flow" assume k: "flow_kept f g" and "node_seen n f"
  then obtain m where m: "findWorkflowNodeRunById (fl_store f) (n_id n) = Some m" "node_kept n m"
    by (auto simp: node_seen_def)
  from flow_kept_node [OF k m(1)] m(2) show "node_seen n g"
    unfolding node_seen_def by (blast intro: node_kept_trans)
qed

lemma stable_run_seen [stable_facts]: "stable env (run_seen w)"
proof (rule stableI)
  fix f g :: "'a flow" assume k: "flow_kept f g" and "run_seen w f"
  then obtain v where v: "findWorkflowRunById (fl_store f) (w_id w) = Some v" "wrun_kept w v"
    by (auto simp: run_seen_def)
  from flow_kept_wrun [OF k v(1)] v(2) show "run_seen w g"
    unfolding run_seen_def by (blast intro: wrun_kept_trans)
qed

lemma stable_graph_seen [stable_facts]: "stable env (graph_seen w g)"
proof -
  have "stable env (\<lambda>f. version_graph (fl_catalog f) w = Some g)"
    by (rule stableI) (rule version_graph_kept [OF _ _ wrun_kept_refl])
  from stable_conj [OF stable_run_seen this, of w] show ?thesis unfolding graph_seen_def .
qed

lemma runs_kept_trans: "runs_kept a b \<Longrightarrow> runs_kept b c \<Longrightarrow> runs_kept a c"
  unfolding runs_kept_def by (meson node_kept_trans)

lemma stable_view_seen [stable_facts]: "stable env (view_seen w runs)"
  by (rule stableI) (auto simp: view_seen_def intro: runs_kept_trans flow_views_kept good_keyed)

lemma node_found_seen:
  "good env f \<Longrightarrow> findWorkflowNodeRunById (fl_store f) i = Some n \<Longrightarrow> n_id n = i \<and> node_seen n f"
  using good_keyed [of env f] by (auto simp: node_seen_def flow_keyed_def nodes_ok_def)

lemma run_found_seen:
  "good env f \<Longrightarrow> findWorkflowRunById (fl_store f) i = Some w \<Longrightarrow> w_id w = i \<and> run_seen w f"
  using good_keyed [of env f] by (auto simp: run_seen_def flow_keyed_def)

lemma node_found_fits:
  assumes "good env f" "findWorkflowNodeRunById (fl_store f) i = Some n" "graph_seen w g f"
    "n_workflowRunId n = w_id w"
  obtains w' node where "findWorkflowRunById (fl_store f) (w_id w) = Some w'" "wrun_kept w w'"
    "version_graph (fl_catalog f) w' = Some g" "map_of (g_nodesByKey g) (n_workflowNodeKey n) = Some node"
    "node_fits (re_sha256 env) f w' g node n"
proof -
  from assms(1,2) have "node_ok (re_sha256 env) f n" by (simp add: good_def flow_ok_def)
  then obtain w' g' node where n: "findWorkflowRunById (fl_store f) (w_id w) = Some w'"
    "version_graph (fl_catalog f) w' = Some g'" "map_of (g_nodesByKey g') (n_workflowNodeKey n) = Some node"
    "node_fits (re_sha256 env) f w' g' node n" by (auto simp: node_ok_def assms(4))
  from assms(3) n(1) have w: "wrun_kept w w'" "version_graph (fl_catalog f) w = Some g"
    by (auto simp: graph_seen_def run_seen_def)
  then have "version_graph (fl_catalog f) w' = Some g"
    by (simp add: version_graph_def wrun_kept_def)
  with n w that show ?thesis by simp
qed

lemma seen_in_view:
  assumes "good env f" "view_seen w runs f" "map_of runs k = Some n"
  shows "node_seen n f \<and> n_workflowRunId n = w_id w \<and> n_workflowNodeKey n = k"
proof -
  from assms(2,3) obtain m where m: "map_of (nodes_of (fl_store f) (w_id w)) k = Some m" "node_kept n m"
    by (auto simp: view_seen_def dest: runs_keptD)
  have "nodes_ok (fl_store f)" using good_keyed [OF assms(1)] by (simp add: flow_keyed_def)
  from m(1) [unfolded nodes_of_iff [OF this]] m(2) show ?thesis
    by (auto simp: node_seen_def node_kept_def same_node_def)
qed

lemma joins_seen: "graph_seen w g f \<Longrightarrow> joins_only g"
  using version_graph_joins [of "fl_catalog f"] by (auto simp: graph_seen_def)

subsection \<open>Writing a node run\<close>

definition put_node :: "workflow_node_run \<Rightarrow> 'w flow \<Rightarrow> 'w flow" where
  "put_node n f = f\<lparr> fl_store := (fl_store f)\<lparr> ws_nodes := AList.update (n_id n) n (ws_nodes (fl_store f)) \<rparr> \<rparr>"

lemma put_node_simps [simp]:
  "fl_catalog (put_node n f) = fl_catalog f" "fl_platform (put_node n f) = fl_platform f"
  "fl_waits (put_node n f) = fl_waits f" "fl_approvals (put_node n f) = fl_approvals f"
  "fl_schedules (put_node n f) = fl_schedules f" "fl_office (put_node n f) = fl_office f"
  "ws_runs (fl_store (put_node n f)) = ws_runs (fl_store f)"
  "findWorkflowRunById (fl_store (put_node n f)) i = findWorkflowRunById (fl_store f) i"
  "findWorkflowNodeRunById (fl_store (put_node n f)) i
     = (if i = n_id n then Some n else findWorkflowNodeRunById (fl_store f) i)"
  by (simp_all add: put_node_def findWorkflowRunById_def findWorkflowNodeRunById_def)

lemma grants_put_node:
  "good env (put_node n f) \<Longrightarrow> flow_kept f (put_node n f) \<Longrightarrow> re_mine env (n_id n) \<or> \<not> free_id (n_id n) f \<Longrightarrow>
     grants env f (put_node n f)"
  by (auto simp: grants_def free_id_def)

lemma put_node_kept:
  assumes "\<And>m. findWorkflowNodeRunById (fl_store f) (n_id n) = Some m \<Longrightarrow> node_kept m n"
  shows "flow_kept f (put_node n f)"
proof -
  have "entries_kept node_kept (ws_nodes (fl_store f)) (AList.update (n_id n) n (ws_nodes (fl_store f)))"
    using assms by (intro entries_kept_update) (simp_all add: findWorkflowNodeRunById_def)
  then show ?thesis
    unfolding flow_kept_def put_node_simps
    by (simp add: put_node_def entries_kept_refl wait_kept_def approval_kept_def)
qed

lemma put_node_keyed:
  assumes f: "flow_keyed f"
    and key: "\<And>m. findWorkflowNodeRunById (fl_store f) (n_id m) = Some m \<Longrightarrow>
      n_workflowRunId m = n_workflowRunId n \<Longrightarrow> n_workflowNodeKey m = n_workflowNodeKey n \<Longrightarrow> n_id m = n_id n"
  shows "flow_keyed (put_node n f)"
proof -
  let ?find = "findWorkflowNodeRunById (fl_store f)" and ?find' = "findWorkflowNodeRunById (fl_store (put_node n f))"
  have ok: "nodes_ok (fl_store f)" using f by (simp add: flow_keyed_def)
  then have d: "distinct (map_keys (ws_nodes (fl_store f)))" by (simp add: nodes_ok_def)
  have i: "n_id m = i" if "?find i = Some m" for i m
    using ok that by (simp add: nodes_ok_def)
  have u: "i = j" if "?find i = Some a" "?find j = Some b" "n_workflowRunId a = n_workflowRunId b"
    "n_workflowNodeKey a = n_workflowNodeKey b" for i j a b
    using ok [unfolded nodes_ok_def, THEN conjunct2, THEN conjunct2, rule_format, OF that(1,2)] that(3,4) by blast
  have i': "n_id m = i" if "?find' i = Some m" for i m
    using that i by (auto split: if_splits)
  have "i = j" if *: "?find' i = Some a" "?find' j = Some b" "n_workflowRunId a = n_workflowRunId b"
    "n_workflowNodeKey a = n_workflowNodeKey b" for i j a b
  proof (cases "i = n_id n \<or> j = n_id n")
    case True
    have one: "c = n_id n" if "?find' c = Some m" "n_workflowRunId m = n_workflowRunId n"
      "n_workflowNodeKey m = n_workflowNodeKey n" for c m
    proof (cases "c = n_id n")
      case False
      with that(1) have "?find c = Some m" by simp
      with i [OF this] key [of m] that(2,3) show ?thesis by simp
    qed
    from True * have "n_workflowRunId a = n_workflowRunId n \<and> n_workflowNodeKey a = n_workflowNodeKey n"
      by (auto split: if_splits)
    with one [OF *(1)] one [OF *(2)] *(3,4) show ?thesis by (metis (no_types))
  next
    case False
    with * u [of i a j b] show ?thesis by simp
  qed
  moreover have "distinct (map_keys (ws_nodes (fl_store (put_node n f))))"
    using d by (simp add: put_node_def distinct_keys_update)
  ultimately have "nodes_ok (fl_store (put_node n f))"
    unfolding nodes_ok_def by (intro conjI allI impI i') assumption+
  with f show ?thesis by (simp add: flow_keyed_def)
qed

lemma put_node_ok:
  assumes f: "flow_ok sha256 f"
    and old: "\<And>m. findWorkflowNodeRunById (fl_store f) (n_id n) = Some m \<Longrightarrow> node_kept m n"
    and key: "\<And>m. findWorkflowNodeRunById (fl_store f) (n_id m) = Some m \<Longrightarrow>
      n_workflowRunId m = n_workflowRunId n \<Longrightarrow> n_workflowNodeKey m = n_workflowNodeKey n \<Longrightarrow> n_id m = n_id n"
    and new: "flow_kept f (put_node n f) \<Longrightarrow> flow_keyed (put_node n f) \<Longrightarrow> node_ok sha256 (put_node n f) n"
  shows "flow_ok sha256 (put_node n f) \<and> flow_kept f (put_node n f)"
proof -
  have k: "flow_kept f (put_node n f)" by (rule put_node_kept) (rule old)
  have kd: "flow_keyed (put_node n f)" by (rule put_node_keyed [OF flow_ok_keyed [OF f]]) (rule key)
  have "flow_ok sha256 (put_node n f)"
  proof (rule flow_okI [OF k f kd])
    show "store_ok (run_store_of (put_node n f))" "keys_indexed (run_store_of (put_node n f))"
      using f by (simp_all add: flow_ok_def)
  next
    fix i m assume "findWorkflowNodeRunById (fl_store (put_node n f)) i = Some m"
      "findWorkflowNodeRunById (fl_store f) i \<noteq> Some m"
    then have "m = n" by (simp split: if_splits)
    with new [OF k kd] show "node_ok sha256 (put_node n f) m" by simp
  qed simp_all
  with k show ?thesis by simp
qed

subsection \<open>Moving a node run\<close>

text \<open>
  The stored row after a marked copy \<open>next\<close> of the node run \<open>n\<close> was written; the input column
  is never written again.
\<close>

definition settled :: "workflow_node_run \<Rightarrow> workflow_node_run \<Rightarrow> workflow_node_run \<Rightarrow> bool" where
  "settled n next row \<longleftrightarrow> same_node n row \<and> n_status row = n_status next
     \<and> n_output row = column_json (n_output next) \<and> n_childRunId row = n_childRunId next
     \<and> n_selectedTargetKey row = n_selectedTargetKey next"

definition node_context :: "workflow_node_run \<Rightarrow> (workflow_run \<Rightarrow> workflow_graph \<Rightarrow> wf_node \<Rightarrow> bool) \<Rightarrow> 'w flow \<Rightarrow> bool" where
  "node_context n C f \<longleftrightarrow> (\<exists>w g node. findWorkflowRunById (fl_store f) (n_workflowRunId n) = Some w
     \<and> w_id w = n_workflowRunId n \<and> version_graph (fl_catalog f) w = Some g
     \<and> map_of (g_nodesByKey g) (n_workflowNodeKey n) = Some node \<and> C w g node)"

text \<open>
  What entitles a process to write \<open>next\<close> over \<open>n\<close>: a reason for the status. Only an agent node may
  have a child run the copy does not know of, so its copy must know of it.
\<close>

definition justified :: "reconcile_env \<Rightarrow> workflow_node_run \<Rightarrow> workflow_node_run \<Rightarrow> 'w flow \<Rightarrow> bool" where
  "justified env n next f \<longleftrightarrow> node_context n (\<lambda>w g node.
     (n_status next \<noteq> NR_SKIPPED \<longrightarrow> n_childRunId next \<noteq> None \<or> node_type (wn_body node) \<noteq> ''AGENT'')
     \<and> (n_status next = NR_SKIPPED \<longrightarrow> isNodeSkippable g (n_workflowNodeKey n) (nodes_of (fl_store f) (w_id w)))
     \<and> (\<forall>row. settled n next row \<longrightarrow> status_reason (re_sha256 env) f w node row)) f"

lemma node_context_kept:
  assumes "flow_kept f f'" "node_context n C f"
    and "\<And>w w' g node. wrun_kept w w' \<Longrightarrow> C w g node \<Longrightarrow> C' w' g node"
  shows "node_context n C' f'"
proof -
  from assms(2) obtain w g node where w: "findWorkflowRunById (fl_store f) (n_workflowRunId n) = Some w"
    "w_id w = n_workflowRunId n" "version_graph (fl_catalog f) w = Some g"
    "map_of (g_nodesByKey g) (n_workflowNodeKey n) = Some node" "C w g node" by (auto simp: node_context_def)
  from flow_kept_wrun [OF assms(1) w(1)] obtain w' where
    w': "findWorkflowRunById (fl_store f') (n_workflowRunId n) = Some w'" "wrun_kept w w'" by blast
  have "w_id w' = n_workflowRunId n" using w'(2) w(2) by (simp add: wrun_kept_def)
  with w' w(4) version_graph_kept [OF assms(1) w(3) w'(2)] assms(3) [OF w'(2) w(5)]
  show ?thesis unfolding node_context_def by blast
qed

lemma approvals_keyed: "flow_keyed f \<Longrightarrow> \<forall>i r. map_of (fl_approvals f) i = Some r \<longrightarrow> ap_id r = i"
  by (simp add: flow_keyed_def)

lemma stable_justified [stable_facts]: "stable env (justified env n next)"
proof (rule stableI)
  fix f f' :: "'a flow"
  assume k: "good env f" "good env f'" "flow_kept f f'" and j: "justified env n next f"
  note v = flow_views_kept [OF good_keyed [OF k(1)] good_keyed [OF k(2)] k(3)]
  show "justified env n next f'"
    unfolding justified_def
  proof (rule node_context_kept [OF k(3) j [unfolded justified_def]], elim conjE, intro conjI impI allI)
    fix w w' g and node :: wf_node and row
    assume w: "wrun_kept w w'" and r: "settled n next row"
      "\<forall>row. settled n next row \<longrightarrow> status_reason (re_sha256 env) f w node row"
    then show "status_reason (re_sha256 env) f' w' node row"
      using status_reason_kept [OF k(3) approvals_keyed [OF good_keyed [OF k(2)]] w] by blast
  next
    fix w w' g
    assume "wrun_kept w w'" "n_status next = NR_SKIPPED" "n_status next = NR_SKIPPED \<longrightarrow>
      isNodeSkippable g (n_workflowNodeKey n) (nodes_of (fl_store f) (w_id w))"
    then show "isNodeSkippable g (n_workflowNodeKey n) (nodes_of (fl_store f') (w_id w'))"
      using skippable_kept [OF v] by (simp add: wrun_kept_def)
  qed blast
qed

lemma node_kept_cases:
  assumes "same_node n m" "n_childRunId n \<noteq> None \<Longrightarrow> n_childRunId m = n_childRunId n"
    "\<not> isTerminalWorkflowNodeRunState (n_status n)"
  shows "node_kept n m"
  using assms by (simp add: node_kept_def)

lemma legal_node_move:
  assumes "assertLegalWorkflowNodeRunTransition s t = None"
  shows "\<not> isTerminalWorkflowNodeRunState s"
proof -
  from assms have "(s, t) \<in> set LEGAL_WORKFLOW_NODE_RUN_TRANSITIONS"
    by (auto simp: assertLegalWorkflowNodeRunTransition_def isLegalWorkflowNodeRunTransition_def
        node_run_lc.legal_by_key_iff split: if_splits)
  then show ?thesis by (auto simp: LEGAL_WORKFLOW_NODE_RUN_TRANSITIONS_def node_status_simps)
qed

lemma moved_node_ok:
  assumes f: "good env f"
    and n: "node_seen n f" "justified env n next f" "n_childRunId next = n_childRunId n"
    and idn: "n_id next = n_id n"
    and w: "postgres_saveWorkflowNodeRunTransition (n_status n) next (fl_store f) = Inr (row, s)"
  shows "f\<lparr> fl_store := s \<rparr> = put_node row f \<and> settled n next row
    \<and> flow_ok (re_sha256 env) (put_node row f) \<and> flow_kept f (put_node row f)"
proof -
  from n(1) obtain cur where cur: "findWorkflowNodeRunById (fl_store f) (n_id n) = Some cur" "node_kept n cur"
    by (auto simp: node_seen_def)
  from w cur(1) have legal: "assertLegalWorkflowNodeRunTransition (n_status n) (n_status next) = None"
    and st: "n_status cur = n_status n"
    and row: "row = cur\<lparr> n_status := n_status next, n_output := column_json (n_output next),
        n_childRunId := n_childRunId next, n_selectedTargetKey := n_selectedTargetKey next,
        n_error := n_error next, n_startedAt := n_startedAt next,
        n_completedAt := n_completedAt next, n_updatedAt := n_updatedAt next \<rparr>"
    and s: "s = (fl_store f)\<lparr> ws_nodes := AList.update (n_id n) row (ws_nodes (fl_store f)) \<rparr>"
    by (auto simp: postgres_saveWorkflowNodeRunTransition_def after_check_Inr findWorkflowNodeRunById_def idn Let_def
        split: option.splits if_splits)
  have same: "same_node cur row" "same_node n row" and id: "n_id row = n_id n"
    using cur(2) by (simp_all add: row node_kept_def same_node_def)
  have set: "settled n next row" using same(2) by (simp add: settled_def row)
  from n(2) obtain w g node where w: "findWorkflowRunById (fl_store f) (n_workflowRunId n) = Some w"
    "w_id w = n_workflowRunId n" "version_graph (fl_catalog f) w = Some g"
    "map_of (g_nodesByKey g) (n_workflowNodeKey n) = Some node"
    and why: "(n_status next \<noteq> NR_SKIPPED \<longrightarrow> n_childRunId next \<noteq> None \<or> node_type (wn_body node) \<noteq> ''AGENT'')
      \<and> (n_status next = NR_SKIPPED \<longrightarrow> isNodeSkippable g (n_workflowNodeKey n) (nodes_of (fl_store f) (w_id w)))
      \<and> (\<forall>row. settled n next row \<longrightarrow> status_reason (re_sha256 env) f w node row)"
    unfolding justified_def node_context_def by blast
  from why have child: "n_status next \<noteq> NR_SKIPPED \<Longrightarrow> n_childRunId next \<noteq> None \<or> node_type (wn_body node) \<noteq> ''AGENT''"
    and skip: "n_status next = NR_SKIPPED \<Longrightarrow> isNodeSkippable g (n_workflowNodeKey n) (nodes_of (fl_store f) (w_id w))"
    and reason: "status_reason (re_sha256 env) f w node row"
    using set by blast+
  from f cur(1) have "node_ok (re_sha256 env) f cur" by (simp add: good_def flow_ok_def)
  moreover have key: "n_workflowRunId cur = n_workflowRunId n" "n_workflowNodeKey cur = n_workflowNodeKey n"
    using cur(2) by (simp_all add: node_kept_def same_node_def)
  ultimately have fits: "node_fits (re_sha256 env) f w g node cur"
    using w by (auto simp: node_ok_def)
  have nt: "\<not> isTerminalWorkflowNodeRunState (n_status n)" by (rule legal_node_move [OF legal])
  then have "n_status cur \<noteq> NR_SKIPPED" using st by (auto simp: node_status_simps)
  with fits have en: "node_enabled g (n_workflowNodeKey n) (nodes_of (fl_store f) (w_id w))"
    by (simp add: node_fits_def placed_def key)
  have ns: "n_status next \<noteq> NR_SKIPPED"
    using skip enabled_not_skippable [OF en] by blast
  have same_child: "n_childRunId row = n_childRunId cur"
  proof (cases "n_childRunId n")
    case None
    with child [OF ns] n(3) have "n_childRunId cur = None" using fits by (auto simp: node_fits_def)
    with None n(3) show ?thesis by (simp add: row)
  next
    case (Some c)
    with cur(2) n(3) show ?thesis by (simp add: row node_kept_def)
  qed
  have kept: "node_kept cur row"
    by (rule node_kept_cases [OF same(1)]) (use same_child nt st in auto)
  note kd = flow_ok_keyed [OF good_ok [OF f]]
  have all: "flow_ok (re_sha256 env) (put_node row f) \<and> flow_kept f (put_node row f)"
  proof (rule put_node_ok [OF good_ok [OF f]])
    fix m assume "findWorkflowNodeRunById (fl_store f) (n_id row) = Some m"
    with cur(1) kept show "node_kept m row" by (simp add: id)
  next
    fix m assume *: "findWorkflowNodeRunById (fl_store f) (n_id m) = Some m"
      "n_workflowRunId m = n_workflowRunId row" "n_workflowNodeKey m = n_workflowNodeKey row"
    have "nodes_ok (fl_store f)" using kd by (simp add: flow_keyed_def)
    from this [unfolded nodes_ok_def, THEN conjunct2, THEN conjunct2, rule_format, OF *(1) cur(1)]
    show "n_id m = n_id row" using *(2,3) id by (simp add: row)
  next
    assume k: "flow_kept f (put_node row f)" "flow_keyed (put_node row f)"
    have "node_fits (re_sha256 env) (put_node row f) w g node cur"
      by (rule node_fits_kept [OF k(1) kd k(2) wrun_kept_refl w(3) fits])
    moreover have "status_reason (re_sha256 env) (put_node row f) w node row"
      using status_reason_kept [OF k(1) approvals_keyed [OF k(2)] wrun_kept_refl reason] .
    ultimately have "node_fits (re_sha256 env) (put_node row f) w g node row"
      using same_child ns \<open>n_status cur \<noteq> NR_SKIPPED\<close> child_run_node [of row cur]
      by (simp add: node_fits_def placed_def row)
    with w show "node_ok (re_sha256 env) (put_node row f) row"
      unfolding node_ok_def using key by (simp add: row)
  qed
  have "f\<lparr> fl_store := s \<rparr> = put_node row f" by (simp add: s put_node_def id)
  with all set show ?thesis by simp
qed

text \<open>What a transition of the entity gives, as far as the database row is concerned.\<close>

definition marked_from :: "workflow_node_run \<Rightarrow> workflow_node_run \<Rightarrow> bool" where
  "marked_from n m \<longleftrightarrow> n_id m = n_id n \<and> n_childRunId m = n_childRunId n"

lemma marks_from:
  "WorkflowNodeRun_markRunning n now = Inr m \<Longrightarrow> marked_from n m \<and> n_status m = NR_RUNNING"
  "WorkflowNodeRun_markWaiting n now = Inr m \<Longrightarrow> marked_from n m \<and> n_status m = NR_WAITING"
  "WorkflowNodeRun_markFailed n now err = Inr m \<Longrightarrow> marked_from n m \<and> n_status m = NR_FAILED"
  "WorkflowNodeRun_markSkipped n now = Inr m \<Longrightarrow> marked_from n m \<and> n_status m = NR_SKIPPED"
  by (auto simp: WorkflowNodeRun_marks marked_from_def dest!: WorkflowNodeRun_transitionTo_Inr)

lemma instantiate_output:
  "WorkflowNodeRun_instantiate p = Inr m \<Longrightarrow> \<exists>field. copyOptJson (n_output p) field = Inr (n_output m)"
  by (auto simp: WorkflowNodeRun_instantiate_def result_simps split: if_splits option.splits)

lemma markSucceeded_from:
  assumes "WorkflowNodeRun_markSucceeded n now v selected = Inr m"
  shows "marked_from n m \<and> n_status m = NR_SUCCEEDED
    \<and> (v \<noteq> JUndefined \<longrightarrow> stored_as v (column_json (n_output m)))
    \<and> (selected \<noteq> None \<longrightarrow> n_selectedTargetKey m = selected)"
proof -
  from assms obtain opts where t: "WorkflowNodeRun_transitionTo n NR_SUCCEEDED opts = Inr m"
    and o: "no_output opts = v" "no_selectedTargetKey opts = or_else selected (n_selectedTargetKey n)"
    by (fastforce simp: WorkflowNodeRun_markSucceeded_def split: if_splits)
  have "\<exists>field. copyOptJson v field = Inr (n_output m)" if "v \<noteq> JUndefined"
    using t o(1) that by (auto simp: WorkflowNodeRun_transitionTo_def after_check_Inr dest!: instantiate_output)
  with WorkflowNodeRun_transitionTo_Inr [OF t] o(2) show ?thesis
    by (auto simp: marked_from_def stored_as_def)
qed

text \<open>
  A copy may hold another input than the row, because an entity copies its input each time it is
  built; so the claim is about the copy with some input.
\<close>

definition node_again :: "workflow_node_run \<Rightarrow> workflow_node_run option \<Rightarrow> 'w flow \<Rightarrow> bool" where
  "node_again n r f \<longleftrightarrow> (\<forall>m. r = Some m \<longrightarrow> node_seen m f \<and> (\<exists>x. same_node (n\<lparr> n_input := x \<rparr>) m))"

lemma stable_node_again [stable_facts]: "stable env (node_again n r)"
  by (rule stableI) (auto simp: node_again_def dest: stableD [OF stable_node_seen])

lemma ends_storeMarked:
  assumes env: "env_ok env" and P: "stable env P"
    and marked: "\<And>m. marked = Inr m \<Longrightarrow> marked_from n m"
    and why: "\<And>f m. good env f \<Longrightarrow> P f \<Longrightarrow> marked = Inr m \<Longrightarrow>
      \<exists>x. node_seen (n\<lparr> n_input := x \<rparr>) f \<and> justified env (n\<lparr> n_input := x \<rparr>) m f"
  shows "safe env P (storeMarked env n marked) (node_again n)"
  unfolding storeMarked_def
proof (rule ends_lift_then)
  fix next_n assume m: "marked = Inr next_n"
  note w = waits_stable [OF P]
  have port: "re_saveWorkflowNodeRunTransition env = postgres_saveWorkflowNodeRunTransition"
    using env by (simp add: env_ok_def)
  have store: "safe env P (on_store (re_saveWorkflowNodeRunTransition env (n_status n) next_n))
      (\<lambda>row f. node_again n (Some row) f)"
  proof (rule ends_on_store [OF w])
    fix f row s
    assume f: "good env f" "P f" and r: "re_saveWorkflowNodeRunTransition env (n_status n) next_n (fl_store f) = Inr (row, s)"
    from why [OF f m] obtain x where x: "node_seen (n\<lparr> n_input := x \<rparr>) f" "justified env (n\<lparr> n_input := x \<rparr>) next_n f" by blast
    from moved_node_ok [OF f(1) x, of row s] marked [OF m] r
    have g: "f\<lparr> fl_store := s \<rparr> = put_node row f" "settled (n\<lparr> n_input := x \<rparr>) next_n row"
      "flow_ok (re_sha256 env) (put_node row f)" "flow_kept f (put_node row f)"
      by (simp_all add: marked_from_def port)
    from x(1) g(2) have "findWorkflowNodeRunById (fl_store f) (n_id row) \<noteq> None"
      by (auto simp: node_seen_def settled_def same_node_def)
    with g(3,4) have gd: "grants env f (put_node row f)"
      by (intro grants_put_node) (auto simp: good_def free_id_def)
    have "node_again n (Some row) (put_node row f)"
      using g(2) by (auto simp: node_again_def node_seen_def settled_def)
    with gd show "grants env f (f\<lparr> fl_store := s \<rparr>) \<and> node_again n (Some row) (f\<lparr> fl_store := s \<rparr>)" unfolding g(1) by blast
  qed simp
  have again: "node_again n (findWorkflowNodeRunById (fl_store f) (n_id n)) f" if "good env f" "P f" for f
  proof -
    from why [OF that m] obtain x where "node_seen (n\<lparr> n_input := x \<rparr>) f" by blast
    then obtain cur where c: "findWorkflowNodeRunById (fl_store f) (n_id n) = Some cur"
      "same_node (n\<lparr> n_input := x \<rparr>) cur" by (auto simp: node_seen_def node_kept_def)
    with node_found_seen [OF that(1) c(1)] show ?thesis by (auto simp: node_again_def)
  qed
  show "safe env P (transitionNode env n next_n) (node_again n)"
    unfolding transitionNode_def
  proof (rule ends_catch [OF ends_then [OF store _ P] _ P])
    fix row
    show "safe env (\<lambda>f. P f \<and> node_again n (Some row) f) (give (Some row)) (node_again n)"
      by (rule ends_give) simp
  next
    fix e
    show "safe env (\<lambda>f. P f \<and> True) (if is_LifecycleConflictError e
        then reading (\<lambda>f. findWorkflowNodeRunById (fl_store f) (n_id n)) else lift_act (Inl e)) (node_again n)"
      using again by (auto intro!: ends_reading stable_facts P ends_throw)
  qed
qed simp

subsection \<open>Creating a node run\<close>

definition node_at :: "workflow_run \<Rightarrow> string \<Rightarrow> workflow_node_run \<Rightarrow> 'w flow \<Rightarrow> bool" where
  "node_at w k n f \<longleftrightarrow> node_seen n f \<and> n_workflowRunId n = w_id w \<and> n_workflowNodeKey n = k"

lemma stable_node_at [stable_facts]: "stable env (node_at w k n)"
  unfolding node_at_def [abs_def] by (intro stable_facts)

definition may_exist :: "workflow_graph \<Rightarrow> string \<Rightarrow> node_runs \<Rightarrow> bool \<Rightarrow> bool" where
  "may_exist g k runs skipped \<longleftrightarrow> map_of (g_nodesByKey g) k \<noteq> None
     \<and> (if skipped then isNodeSkippable g k runs else node_enabled g k runs)"

definition created_as :: "node_run_create_props \<Rightarrow> bool \<Rightarrow> workflow_node_run \<Rightarrow> bool" where
  "created_as p skipped n \<longleftrightarrow> n_id n = nc_id p \<and> n_workspaceId n = nc_workspaceId p
     \<and> n_workflowRunId n = nc_workflowRunId p \<and> n_workflowNodeKey n = nc_workflowNodeKey p
     \<and> n_status n = (if skipped then NR_SKIPPED else NR_PENDING) \<and> n_childRunId n = None \<and> n_output n = JUndefined
     \<and> (\<exists>field. copyJsonValue (nc_input p) field = Inr (n_input n))"

lemma instantiate_values:
  "WorkflowNodeRun_instantiate p = Inr n \<Longrightarrow> (\<exists>field. copyJsonValue (n_input p) field = Inr (n_input n))
     \<and> (n_output p = JUndefined \<longrightarrow> n_output n = JUndefined)"
  by (auto simp: WorkflowNodeRun_instantiate_def result_simps copyOptJson_def split: if_splits option.splits)

lemma create_as:
  assumes "(if skipped then WorkflowNodeRun_createSkipped p else WorkflowNodeRun_create p) = Inr n"
  shows "created_as p skipped n"
proof (cases skipped)
  case True
  with assms have "WorkflowNodeRun_createSkipped p = Inr n" by simp
  from WorkflowNodeRun_instantiate_Inr [OF this [unfolded WorkflowNodeRun_createSkipped_def]]
    instantiate_values [OF this [unfolded WorkflowNodeRun_createSkipped_def]]
  show ?thesis using True by (simp add: created_as_def)
next
  case False
  with assms have "WorkflowNodeRun_create p = Inr n" by simp
  from WorkflowNodeRun_instantiate_Inr [OF this [unfolded WorkflowNodeRun_create_def]]
    instantiate_values [OF this [unfolded WorkflowNodeRun_create_def]]
  show ?thesis using False by (simp add: created_as_def)
qed

lemma created_node_ok:
  assumes f: "good env f" and seen: "graph_seen w g f" "view_seen w runs f" and e: "may_exist g k runs skipped"
    and i: "drawn env i f"
    and n: "created_as (node_props i w k sequence (inputForNode g k runs (w_input w)) now) skipped n"
    and s: "postgres_saveWorkflowNodeRun n (fl_store f) = Inr s"
  shows "grants env f (f\<lparr> fl_store := s \<rparr>) \<and> node_at w k n (f\<lparr> fl_store := s \<rparr>)"
proof -
  note n = n [unfolded created_as_def node_props_def, simplified]
  from i have d: "re_mine env i" "findWorkflowNodeRunById (fl_store f) i = None"
    by (auto simp: drawn_def free_id_def)
  have row: "n\<lparr> n_output := JUndefined \<rparr> = n" using n by (cases n) simp
  from s d(2) n have none: "check_all (node_conflict n) (map_values (ws_nodes (fl_store f))) = None"
    and s': "f\<lparr> fl_store := s \<rparr> = put_node n f"
    by (auto simp: postgres_saveWorkflowNodeRun_def findWorkflowNodeRunById_def after_check_Inr put_node_def
        Let_def column_json_def row)
  from seen(1) obtain w' where w': "findWorkflowRunById (fl_store f) (w_id w) = Some w'" "wrun_kept w w'"
    by (auto simp: graph_seen_def run_seen_def)
  then have wf: "w_id w' = w_id w" "w_input w' = w_input w" "w_workspaceId w' = w_workspaceId w"
    and g: "version_graph (fl_catalog f) w' = Some g"
    using seen(1) by (auto simp: wrun_kept_def graph_seen_def version_graph_def)
  from e obtain node where node: "map_of (g_nodesByKey g) k = Some node" by (auto simp: may_exist_def)
  have all: "flow_ok (re_sha256 env) (put_node n f) \<and> flow_kept f (put_node n f)"
  proof (rule put_node_ok [OF good_ok [OF f]])
    fix m assume "findWorkflowNodeRunById (fl_store f) (n_id n) = Some m"
    with d(2) n show "node_kept m n" by simp
  next
    fix m assume m: "findWorkflowNodeRunById (fl_store f) (n_id m) = Some m"
      "n_workflowRunId m = n_workflowRunId n" "n_workflowNodeKey m = n_workflowNodeKey n"
    then have "m \<in> set (map_values (ws_nodes (fl_store f)))"
      by (auto simp: findWorkflowNodeRunById_def dest: map_of_SomeD_snd)
    with none have "node_conflict n m = None" by auto
    with m(2,3) show "n_id m = n_id n" by (simp add: node_conflict_def)
  next
    assume k: "flow_kept f (put_node n f)" "flow_keyed (put_node n f)"
    let ?runs = "nodes_of (fl_store (put_node n f)) (w_id w)"
    have v: "runs_kept runs ?runs"
      using runs_kept_trans [OF _ flow_views_kept [OF good_keyed [OF f] k(2,1)]] seen(2)
      by (simp add: view_seen_def)
    note j = joins_seen [OF seen(1)]
    have "placed g w' ?runs n"
      using e n enabled_kept [OF v _ j] input_kept [OF v _ j] skippable_kept [OF v]
      by (auto simp: placed_def may_exist_def wf)
    then have "node_fits (re_sha256 env) (put_node n f) w' g node n"
      using n by (auto simp: node_fits_def wf status_reason_def)
    then show "node_ok (re_sha256 env) (put_node n f) n"
      using w'(1) g node n by (auto simp: node_ok_def wf)
  qed
  moreover have "grants env f (put_node n f)"
    using all d(1) n by (intro grants_put_node) (auto simp: good_def)
  ultimately show ?thesis unfolding s' using n
    by (auto simp: node_at_def node_seen_def)
qed

lemma node_by_key_seen:
  assumes "good env f"
  shows "\<forall>m. findWorkflowNodeRunByWorkflowRunAndKey (fl_store f) (w_id w) k = Some m \<longrightarrow> node_at w k m f"
proof (intro allI impI)
  fix m assume "findWorkflowNodeRunByWorkflowRunAndKey (fl_store f) (w_id w) k = Some m"
  then have m: "m \<in> set (map_values (ws_nodes (fl_store f)))" "n_workflowRunId m = w_id w" "n_workflowNodeKey m = k"
    by (auto simp: findWorkflowNodeRunByWorkflowRunAndKey_def find_Some_iff)
  have "nodes_ok (fl_store f)" using good_keyed [OF assms] by (simp add: flow_keyed_def)
  then have "findWorkflowNodeRunById (fl_store f) (n_id m) = Some m"
    using m(1) values_map_of [of "ws_nodes (fl_store f)" m] by (auto simp: nodes_ok_def findWorkflowNodeRunById_def)
  then show "node_at w k m f" using m(2,3) by (auto simp: node_at_def node_seen_def)
qed

lemma ends_materializeNodeRun:
  assumes env: "env_ok env" and P: "stable env P"
    and seen: "\<And>f. good env f \<Longrightarrow> P f \<Longrightarrow> graph_seen w g f \<and> view_seen w runs f" and e: "may_exist g k runs skipped"
  shows "safe env P (materializeNodeRun env w k sequence (inputForNode g k runs (w_input w)) now skipped) (node_at w k)"
  unfolding materializeNodeRun_def
proof (rule ends_new_id_then [OF P], rule ends_lift_then)
  fix i n
  assume "(if skipped then WorkflowNodeRun_createSkipped (node_props i w k sequence (inputForNode g k runs (w_input w)) now)
      else WorkflowNodeRun_create (node_props i w k sequence (inputForNode g k runs (w_input w)) now)) = Inr n"
  note n = create_as [OF this]
  have port: "re_saveWorkflowNodeRun env = postgres_saveWorkflowNodeRun"
    using env by (simp add: env_ok_def)
  have save: "safe env (\<lambda>f. P f \<and> drawn env i f) (saveNode env n) (\<lambda>u. node_at w k n)"
    unfolding saveNode_def port
  proof (rule ends_on_store [OF waits_conj [OF waits_stable [OF P] waits_drawn]])
    fix f s x
    assume "good env f" "P f \<and> drawn env i f" "no_result (postgres_saveWorkflowNodeRun n) (fl_store f) = Inr (x, s)"
    then show "grants env f (f\<lparr> fl_store := s \<rparr>) \<and> node_at w k n (f\<lparr> fl_store := s \<rparr>)"
      using created_node_ok [OF _ _ _ e _ n, of env f] seen [of f] by auto
  qed simp
  have saved: "safe env (\<lambda>f. P f \<and> drawn env i f) (act_then (saveNode env n) (\<lambda>u. give n)) (node_at w k)"
    using save by (rule ends_then_give)
  show "safe env (\<lambda>f. P f \<and> drawn env i f) (act_catch (act_then (saveNode env n) (\<lambda>u. give n))
      (\<lambda>e. if domain_error_mentions ''already exists'' e
        then act_then (reading (\<lambda>f. findWorkflowNodeRunByWorkflowRunAndKey (fl_store f) (w_id w) k))
          (\<lambda>existing. case existing of None \<Rightarrow> lift_act (Inl e) | Some n' \<Rightarrow> give n')
        else lift_act (Inl e))) (node_at w k)"
  proof (rule ends_catch_from [OF saved _ P])
    fix e
    have found: "safe env P (act_then (reading (\<lambda>f. findWorkflowNodeRunByWorkflowRunAndKey (fl_store f) (w_id w) k))
        (\<lambda>existing. case existing of None \<Rightarrow> lift_act (Inl e) | Some n' \<Rightarrow> give n')) (node_at w k)"
    proof (rule ends_reading_then [OF P])
      fix f assume "good env f"
      then show "\<forall>m. findWorkflowNodeRunByWorkflowRunAndKey (fl_store f) (w_id w) k = Some m \<longrightarrow> node_at w k m f"
        by (rule node_by_key_seen)
    next
      fix r :: "workflow_node_run option"
      show "safe env (\<lambda>f. P f \<and> (\<forall>m. r = Some m \<longrightarrow> node_at w k m f))
          (case r of None \<Rightarrow> lift_act (Inl e) | Some n' \<Rightarrow> give n') (node_at w k)"
        by (cases r) (auto intro: ends_throw ends_give)
    qed
    show "safe env (\<lambda>f. P f \<and> True) (if domain_error_mentions ''already exists'' e
        then act_then (reading (\<lambda>f. findWorkflowNodeRunByWorkflowRunAndKey (fl_store f) (w_id w) k))
          (\<lambda>existing. case existing of None \<Rightarrow> lift_act (Inl e) | Some n' \<Rightarrow> give n')
        else lift_act (Inl e)) (node_at w k)"
      using found by (auto intro: ends_throw)
  qed simp
qed simp

lemma ends_nodeRunFor:
  assumes env: "env_ok env" and P: "stable env P"
    and seen: "\<And>f. good env f \<Longrightarrow> P f \<Longrightarrow> graph_seen w g f \<and> view_seen w runs f" and e: "may_exist g k runs False"
  shows "safe env P (nodeRunFor env g w runs now k) (node_at w k)"
proof (cases "map_of runs k")
  case None
  then show ?thesis
    unfolding nodeRunFor_def by (simp add: ends_materializeNodeRun [OF env P seen e])
next
  case (Some n)
  have "node_at w k n f" if "good env f" "P f" for f
    using seen_in_view [OF that(1) _ Some, of w] seen [OF that] by (simp add: node_at_def)
  then show ?thesis unfolding nodeRunFor_def by (simp add: Some ends_give)
qed

end
