(* ===== verification/Run_System.thy ===== *)
theory Run_System
  imports Run_Effects
begin

text \<open>
  Any number of workers, recovery ticks and creators of runs acting on one run repository. A
  handler is a task that carries what it has read; each step runs one operation of the repository
  to its end, as its transactions do, so that the operations of different handlers meet in every
  order. Anything outside the run repository, the queue, the checkpoints, the journal, the agents
  and the clock, may change at any time; a task may also disappear, when its process dies.
\<close>

datatype task =
    Task_queue run js_date
  | Task_loaded exec_config js_date run run_attempt agent_version
  | Task_acquired exec_config js_date run run_attempt agent_version
  | Task_running exec_config js_date run run_attempt execution_request
  | Task_expiry "expire_command \<times> recovery_metadata option"
  | Task_recovery recover_command recovery_plan

text \<open>\<open>sy_started\<close> lists the attempts for which \<open>runtime.execute\<close> was called, in order.\<close>

record 'w system =
  sy_platform :: "'w platform"
  sy_tasks :: "task list"
  sy_started :: "string list"

abbreviation runs_of :: "'w system \<Rightarrow> run_store" where
  "runs_of y \<equiv> pf_runs (sy_platform y)"

abbreviation clock_of :: "'w system \<Rightarrow> js_date" where
  "clock_of y \<equiv> pf_clock (sy_platform y)"

definition with_runs :: "run_store \<Rightarrow> 'w system \<Rightarrow> 'w system" where
  "with_runs s y = y\<lparr> sy_platform := (sy_platform y)\<lparr> pf_runs := s \<rparr> \<rparr>"

definition with_tasks :: "task list \<Rightarrow> 'w system \<Rightarrow> 'w system" where
  "with_tasks ts y = y\<lparr> sy_tasks := ts \<rparr>"

lemma with_simps [simp]:
  "runs_of (with_runs s y) = s" "sy_tasks (with_runs s y) = sy_tasks y"
  "sy_started (with_runs s y) = sy_started y" "clock_of (with_runs s y) = clock_of y"
  "runs_of (with_tasks ts y) = runs_of y" "sy_tasks (with_tasks ts y) = ts"
  "sy_started (with_tasks ts y) = sy_started y" "clock_of (with_tasks ts y) = clock_of y"
  by (simp_all add: with_runs_def with_tasks_def)

definition initial_system :: "'w platform \<Rightarrow> 'w system" where
  "initial_system p = \<lparr> sy_platform = p\<lparr> pf_runs := empty_run_store \<rparr>, sy_tasks = [], sy_started = [] \<rparr>"

inductive sys_step :: "'w system \<Rightarrow> 'w system \<Rightarrow> bool" where
  step_create: "Run_create props = Inr run \<Longrightarrow> \<not> uses_proto (rc_input props) \<Longrightarrow> rc_recoveryMetadata props = None
     \<Longrightarrow> RunAttempt_createFirst attemptId (r_id run) now None = Inr attempt
     \<Longrightarrow> createRunWithInitialAttempt run attempt (runs_of y) = (s, res)
     \<Longrightarrow> sys_step y (with_runs s y)"
| step_read_pending: "findRunById (runs_of y) i = Some run
     \<Longrightarrow> sys_step y (with_tasks (Task_queue run now # sy_tasks y) y)"
| step_queue: "sy_tasks y = ts @ Task_queue run now # us \<Longrightarrow> queue_created run now (runs_of y) = (s, res)
     \<Longrightarrow> sys_step y (with_tasks (ts @ us) (with_runs s y))"
| step_load: "loadExecution (runs_of y) (pf_agents (sy_platform y)) i = Inr (Inr (run, attempt, v))
     \<Longrightarrow> sys_step y (with_tasks (Task_loaded cfg now run attempt v # sy_tasks y) y)"
| step_acquire: "sy_tasks y = ts @ Task_loaded cfg now run attempt v # us
     \<Longrightarrow> acquireRunningLease cfg (clock_of y) now run attempt (runs_of y) = (s, Inr (Inr (run', attempt')))
     \<Longrightarrow> sys_step y (with_tasks (ts @ Task_acquired cfg now run' attempt' v # us) (with_runs s y))"
| step_conflict: "sy_tasks y = ts @ Task_loaded cfg now run attempt v # us
     \<Longrightarrow> acquireRunningLease cfg (clock_of y) now run attempt (runs_of y) = (s, res)
     \<Longrightarrow> (\<forall>p. res \<noteq> Inr (Inr p))
     \<Longrightarrow> sys_step y (with_tasks (ts @ us) (with_runs s y))"
| step_start: "sy_tasks y = ts @ Task_acquired cfg now run attempt v # us
     \<Longrightarrow> executionRequest cfg run attempt v (pf_checkpoints (sy_platform y)) = Inr request
     \<Longrightarrow> sys_step y ((with_tasks (ts @ Task_running cfg now run attempt request # us) y)
           \<lparr> sy_started := sy_started y @ [a_id attempt] \<rparr>)"
| step_heartbeat: "Task_running cfg now run attempt request \<in> set (sy_tasks y)
     \<Longrightarrow> a_executionOwner attempt = Some owner
     \<Longrightarrow> renewExecutionLease (a_id attempt) owner (a_executionGeneration attempt) (xc_leaseTtlMs cfg)
           (clock_of y) (runs_of y) = (s, res)
     \<Longrightarrow> sys_step y (with_runs s y)"
| step_finish: "sy_tasks y = ts @ Task_running cfg now run attempt request # us
     \<Longrightarrow> finishExecution (clock_of y) now run attempt ending lost (runs_of y) = (s, res)
     \<Longrightarrow> sys_step y (with_tasks (ts @ us) (with_runs s y))"
| step_expiry_read: "expiryPlan (tick :: 'w tick_config) now attempt (runs_of y) (pf_agents (sy_platform y))
       (pf_checkpoints (sy_platform y)) = Inr (Some plan)
     \<Longrightarrow> sys_step y (with_tasks (Task_expiry plan # sy_tasks y) y)"
| step_expiry_write: "sy_tasks y = ts @ Task_expiry plan # us \<Longrightarrow> writeExpiry plan (runs_of y) = (s, res)
     \<Longrightarrow> sys_step y (with_tasks (ts @ us) (with_runs s y))"
| step_recovery_read: "planRecovery c (runs_of y) (pf_checkpoints (sy_platform y)) (pf_journal (sy_platform y))
       = Inr plan
     \<Longrightarrow> sys_step y (with_tasks (Task_recovery c plan # sy_tasks y) y)"
| step_recovery_write: "sy_tasks y = ts @ Task_recovery c plan # us
     \<Longrightarrow> findRunAttemptById (runs_of y) (rcv_newRunAttemptId c) = None
     \<Longrightarrow> writeRecovery c plan (runs_of y) = (s, res)
     \<Longrightarrow> sys_step y (with_tasks (ts @ us) (with_runs s y))"
| step_died: "sy_tasks y = ts @ t # us \<Longrightarrow> sys_step y (with_tasks (ts @ us) y)"
| step_world: "pf_runs p = runs_of y \<Longrightarrow> sys_step y (y\<lparr> sy_platform := p \<rparr>)"

subsection \<open>What tasks know\<close>

definition stored_attempt :: "run_store \<Rightarrow> run_attempt \<Rightarrow> bool" where
  "stored_attempt s a \<longleftrightarrow> (\<exists>c. findRunAttemptById s (a_id a) = Some c \<and> a_runId c = a_runId a
     \<and> a_sequence c = a_sequence a \<and> (a_status a \<noteq> Att_PENDING \<longrightarrow> a_status c \<noteq> Att_PENDING))"

definition held_pair :: "run_store \<Rightarrow> run \<Rightarrow> run_attempt \<Rightarrow> bool" where
  "held_pair s r a \<longleftrightarrow> run_wf r \<and> attempt_wf a \<and> attempt_timeline a \<and> a_runId a = r_id r \<and> stored_attempt s a
     \<and> (\<exists>q. findRunById s (r_id r) = Some q \<and> same_run q r)"

primrec task_ok :: "run_store \<Rightarrow> task \<Rightarrow> bool" where
  "task_ok s (Task_queue run now) = run_wf run"
| "task_ok s (Task_loaded cfg now run attempt v) =
     (held_pair s run attempt \<and> r_status run = Run_QUEUED \<and> a_status attempt = Att_PENDING)"
| "task_ok s (Task_acquired cfg now run attempt v) =
     (held_pair s run attempt \<and> r_status run = Run_RUNNING \<and> a_status attempt = Att_RUNNING
      \<and> a_executionOwner attempt \<noteq> None)"
| "task_ok s (Task_running cfg now run attempt request) =
     (held_pair s run attempt \<and> r_status run = Run_RUNNING \<and> a_status attempt = Att_RUNNING
      \<and> a_executionOwner attempt \<noteq> None)"
| "task_ok s (Task_expiry plan) = True"
| "task_ok s (Task_recovery c plan) = True"

fun acquired_id :: "task \<Rightarrow> string list" where
  "acquired_id (Task_acquired cfg now run attempt v) = [a_id attempt]"
| "acquired_id t = []"

text \<open>The attempts whose runtime was started or is about to be.\<close>

definition claimed :: "'w system \<Rightarrow> string list" where
  "claimed y = concat (List.map acquired_id (sy_tasks y)) @ sy_started y"

definition system_ok :: "'w system \<Rightarrow> bool" where
  "system_ok y \<longleftrightarrow> store_ok (runs_of y) \<and> (\<forall>t\<in>set (sy_tasks y). task_ok (runs_of y) t)
     \<and> distinct (claimed y)
     \<and> (\<forall>i\<in>set (claimed y). \<exists>a. findRunAttemptById (runs_of y) i = Some a \<and> a_status a \<noteq> Att_PENDING)"

lemma stored_attempt_keeps: "stored_attempt s a \<Longrightarrow> keeps s s' \<Longrightarrow> stored_attempt s' a"
  unfolding stored_attempt_def keeps_def attempt_kept_def by metis

lemma held_pair_keeps: "held_pair s r a \<Longrightarrow> keeps s s' \<Longrightarrow> held_pair s' r a"
proof -
  assume h: "held_pair s r a" and k: "keeps s s'"
  then obtain q p where "findRunById s (r_id r) = Some q" "same_run q r"
      "findRunById s' (r_id r) = Some p" "same_run q p"
    unfolding held_pair_def keeps_def run_kept_def by blast
  moreover from this have "same_run p r"
    by (cases p; cases q; cases r) (simp add: same_run_def)
  ultimately show ?thesis using h stored_attempt_keeps [OF _ k] by (auto simp: held_pair_def)
qed

lemma task_ok_keeps: "task_ok s t \<Longrightarrow> keeps s s' \<Longrightarrow> task_ok s' t"
  by (cases t) (auto intro: held_pair_keeps)

lemma claimed_keeps:
  "\<exists>a. findRunAttemptById s i = Some a \<and> a_status a \<noteq> Att_PENDING \<Longrightarrow> keeps s s' \<Longrightarrow>
     \<exists>a. findRunAttemptById s' i = Some a \<and> a_status a \<noteq> Att_PENDING"
  unfolding keeps_def attempt_kept_def by metis

lemma distinct_submset:
  assumes "distinct xs" "mset ys \<subseteq># mset xs"
  shows "distinct ys"
proof -
  from assms(2) obtain zs where "mset xs = mset (ys @ zs)"
    by (metis ex_mset mset_append mset_subset_eq_exists_conv)
  then have "distinct (ys @ zs)" using assms(1) mset_eq_imp_distinct_iff by blast
  then show ?thesis by simp
qed

text \<open>A step that changes the run store by an operation and drops or adds tasks.\<close>

lemma system_ok_evolves:
  assumes ok: "system_ok y" and e: "evolves (runs_of y) (runs_of z)"
    and tasks: "\<forall>t\<in>set (sy_tasks z). t \<in> set (sy_tasks y) \<or> task_ok (runs_of z) t"
    and ids: "mset (claimed z) \<subseteq># mset (claimed y)"
  shows "system_ok z"
proof -
  have k: "store_ok (runs_of z)" "keeps (runs_of y) (runs_of z)"
    using evolves_keeps [OF e] ok by (auto simp: system_ok_def)
  have "distinct (claimed z)" using ok ids by (auto simp: system_ok_def intro: distinct_submset)
  moreover have "set (claimed z) \<subseteq> set (claimed y)" using ids by (metis set_mset_mono set_mset_mset)
  ultimately show ?thesis
    using ok k tasks claimed_keeps [OF _ k(2)] task_ok_keeps [OF _ k(2)]
    unfolding system_ok_def by blast
qed

subsection \<open>The invariant\<close>

lemma load_facts:
  assumes "store_ok s" "loadExecution s agents i = Inr (Inr (run, a, v))"
  shows "held_pair s run a \<and> r_status run = Run_QUEUED \<and> a_status a = Att_PENDING
    \<and> findRunAttemptById s i = Some a \<and> a_id a = i"
proof -
  have f: "findRunAttemptById s i = Some a" "findRunById s (a_runId a) = Some run"
    "r_status run = Run_QUEUED" "a_status a = Att_PENDING"
    using assms(2) by (auto simp: loadExecution_def Let_def split: option.splits if_splits)
  from store_wf_attemptD [OF store_ok_wf [OF assms(1)] f(1)] store_wf_runD [OF store_ok_wf [OF assms(1)] f(2)] f
  show ?thesis by (auto simp: held_pair_def stored_attempt_def same_run_def)
qed

lemma leased_attempt_facts:
  assumes "attempt_wf a" "attempt_timeline a" "leased_attempt cfg now a = Inr b"
  shows "attempt_wf b \<and> attempt_timeline b \<and> a_status b = Att_RUNNING \<and> a_id b = a_id a
    \<and> a_runId b = a_runId a \<and> a_sequence b = a_sequence a \<and> a_executionOwner b = Some (js_trim (xc_executionOwner cfg))
    \<and> a_executionGeneration b = 1"
proof -
  from assms(3) obtain m where m: "RunAttempt_transitionTo a Att_RUNNING now no_options = Inr m"
      and l: "RunAttempt_withExecutionLease m \<lparr> el_owner = xc_executionOwner cfg, el_generation = 1,
        el_expiresAt = date_plus now (xc_leaseTtlMs cfg) \<rparr> = Inr b"
    by (auto simp: leased_attempt_def and_then_Inr)
  have mw: "attempt_wf m" "attempt_timeline m" using transitionTo_inv [OF assms(2,1) m] by auto
  from withExecutionLease_shape [OF l attempt_output_no_proto [OF mw(1)]] withExecutionLease_inv [OF mw(2,1) l]
    transitionTo_shape [OF m]
  show ?thesis by simp
qed

lemma held_pair_legal:
  "held_pair s r a \<Longrightarrow> attempt_wf b \<Longrightarrow> attempt_timeline b \<Longrightarrow> a_id b = a_id a \<Longrightarrow> a_runId b = a_runId a \<Longrightarrow>
     a_status b = attempt_status_for (r_status r') \<Longrightarrow> legal_pair s r' b"
  by (auto simp: legal_pair_def held_pair_def stored_attempt_def)

lemma acquire_legal:
  assumes "held_pair s run a" "leased_attempt cfg now a = Inr b" "Run_transitionTo run Run_RUNNING now = Inr r"
  shows "legal_pair s r b"
proof -
  have "a_status b = attempt_status_for (r_status r)"
    using leased_attempt_facts [OF _ _ assms(2)] assms(1,3)
    by (auto simp: held_pair_def attempt_status_for_def Run_transitionTo_Inr)
  then show ?thesis
    using leased_attempt_facts [OF _ _ assms(2)] assms(1)
    by (intro held_pair_legal [OF assms(1)]) (auto simp: held_pair_def)
qed

lemma acquire_once: "held_pair s run a \<Longrightarrow> evolves_once s (fst (acquireRunningLease cfg clock now run a s))"
  by (rule once.acquiring) (rule acquire_legal)

lemma acquire_facts:
  assumes ok: "store_ok s" and h: "held_pair s run a" and st: "r_status run = Run_QUEUED" "a_status a = Att_PENDING"
    and q: "acquireRunningLease cfg clock now run a s = (s', Inr (Inr (run', a')))"
  shows "held_pair s' run' a' \<and> r_status run' = Run_RUNNING \<and> a_status a' = Att_RUNNING \<and> a_id a' = a_id a
    \<and> findRunAttemptById s' (a_id a) = Some a' \<and> findRunById s' (r_id run) = Some run'
    \<and> a_executionOwner a' = Some (js_trim (xc_executionOwner cfg)) \<and> a_executionGeneration a' = 1
    \<and> (\<exists>c. findRunAttemptById s (a_id a) = Some c \<and> a_status c = Att_PENDING)"
proof -
  from q obtain b r where l: "leased_attempt cfg now a = Inr b" and r: "Run_transitionTo run Run_RUNNING now = Inr r"
      and t: "transitionRunAndAttempt clock Run_QUEUED r Att_PENDING b (Some (xc_leaseTtlMs cfg)) s
        = (s', Inr (run', a'))"
    by (auto simp: acquireRunningLease_def op_lift_def st split: sum.splits prod.splits)
  have b: "attempt_wf b" "attempt_timeline b" "a_status b = Att_RUNNING" "a_id b = a_id a" "a_runId b = a_runId a"
    "a_sequence b = a_sequence a" "a_executionOwner b = Some (js_trim (xc_executionOwner cfg))"
    "a_executionGeneration b = 1"
    using leased_attempt_facts [OF _ _ l] h by (auto simp: held_pair_def)
  have rr: "r = run\<lparr> r_status := Run_RUNNING, r_updatedAt := now \<rparr>"
    using r h by (auto simp: held_pair_def Run_transitionTo_Inr)
  from transitionRunAndAttempt_cases [OF store_ok_wf [OF ok] b(1,2) t]
  obtain p c where *: "findRunById s (r_id r) = Some p" "run_wf run'"
      "run' = p\<lparr> r_status := r_status r, r_updatedAt := r_updatedAt r, r_recoveryMetadata := None \<rparr>"
      "r_id run' = r_id r" "findRunAttemptById s (a_id b) = Some c" "a_status c = Att_PENDING"
      "attempt_moved c b a'" "s' = put_run run' (put_attempt a' s)"
    by auto
  have c: "a_id c = a_id a" "a_runId c = a_runId a" "a_sequence c = a_sequence a"
    using store_wf_attemptD [OF store_ok_wf [OF ok] *(5)] *(5) b(4) h
    by (auto simp: held_pair_def stored_attempt_def)
  have "a_runId a = r_id run" using h by (simp add: held_pair_def)
  then have "held_pair s' run' a'"
    using * c rr b by (auto simp: held_pair_def stored_attempt_def attempt_moved_def same_run_def)
  then show ?thesis using * c rr b by (auto simp: attempt_moved_def)
qed

lemma finish_legal:
  assumes h: "held_pair s run a" and b: "RunAttempt_transitionTo a st now opts = Inr b"
    and r: "Run_transitionTo run rs now = Inr r" and st: "st = attempt_status_for rs"
  shows "legal_pair s r b"
proof -
  have "attempt_wf b" "attempt_timeline b" using transitionTo_inv [OF _ _ b] h by (auto simp: held_pair_def)
  moreover have "r_status r = rs" using r h by (auto simp: held_pair_def Run_transitionTo_Inr)
  ultimately show ?thesis
    using transitionTo_shape [OF b] st by (intro held_pair_legal [OF h]) auto
qed

lemma finish_once: "held_pair s run a \<Longrightarrow> evolves_once s (fst (finishExecution clock now run a ending lost s))"
  by (rule once.finishing) (rule finish_legal)

lemma initial_ok: "system_ok (initial_system p)"
  by (simp add: system_ok_def initial_system_def claimed_def empty_store_ok)

lemma claimed_with [simp]:
  "claimed (with_runs s y) = claimed y"
  "claimed (with_tasks ts y) = concat (List.map acquired_id ts) @ sy_started y"
  by (simp_all add: claimed_def with_runs_def with_tasks_def)

lemma acquire_step_ok:
  assumes ok: "system_ok y" and ts: "sy_tasks y = ts @ Task_loaded cfg now run a v # us"
    and q: "acquireRunningLease cfg (clock_of y) now run a (runs_of y) = (s, Inr (Inr (run', a')))"
  shows "system_ok (with_tasks (ts @ Task_acquired cfg now run' a' v # us) (with_runs s y))"
proof -
  have h: "held_pair (runs_of y) run a" "r_status run = Run_QUEUED" "a_status a = Att_PENDING"
    and so: "store_ok (runs_of y)"
    using ok ts by (auto simp: system_ok_def)
  note f = acquire_facts [OF so h q]
  have k: "store_ok s" "keeps (runs_of y) s"
    using evolves_keeps [OF once_evolves [OF acquire_once [OF h(1)]] so] q by (metis fst_conv)+
  have "a_id a \<notin> set (claimed y)" using f ok by (auto simp: system_ok_def)
  then have "distinct (claimed (with_tasks (ts @ Task_acquired cfg now run' a' v # us) (with_runs s y)))"
    using ok ts f by (auto simp: system_ok_def claimed_def)
  moreover have "\<forall>t\<in>set ts \<union> set us. task_ok s t"
    using ok ts task_ok_keeps [OF _ k(2)] by (auto simp: system_ok_def)
  moreover have "\<forall>i\<in>set (claimed y) \<union> {a_id a'}. \<exists>c. findRunAttemptById s i = Some c \<and> a_status c \<noteq> Att_PENDING"
    using ok f claimed_keeps [OF _ k(2)] by (auto simp: system_ok_def)
  ultimately show ?thesis
    using f k ts by (auto simp: system_ok_def claimed_def)
qed

lemma start_step_ok:
  assumes ok: "system_ok y" and ts: "sy_tasks y = ts @ Task_acquired cfg now run a v # us"
  shows "system_ok ((with_tasks (ts @ Task_running cfg now run a request # us) y)
    \<lparr> sy_started := sy_started y @ [a_id a] \<rparr>)"
  by (rule system_ok_evolves [OF ok])
    (use ok ts in \<open>auto simp: system_ok_def claimed_def with_tasks_def evolves_refl ac_simps\<close>)

lemma fst_eq: "f = (s, r) \<Longrightarrow> P (fst f) \<Longrightarrow> P s"
  by simp

lemma created_facts:
  assumes "Run_create props = Inr run" "\<not> uses_proto (rc_input props)" "rc_recoveryMetadata props = None"
    "RunAttempt_createFirst i (r_id run) now None = Inr a"
  shows "run_wf run" "attempt_wf a" "attempt_timeline a" "r_status run = Run_PENDING" "a_status a = Att_PENDING"
    "r_recoveryMetadata run = None"
proof -
  show "run_wf run" using Run_instantiate_wf assms(1,2) by (fastforce simp: Run_create_def)
  show "r_status run = Run_PENDING"
    using Run_instantiate_name [of _ run] assms(1) by (cases "r_status run") (force simp: Run_create_def)+
  show "r_recoveryMetadata run = None"
    using assms(1,3) by (auto simp: Run_create_def Run_instantiate_def result_simps split: if_splits option.splits)
  show "attempt_wf a" "attempt_timeline a" using createFirst_inv [OF assms(4)] by auto
  show "a_status a = Att_PENDING"
    using assms(4) unfolding RunAttempt_createFirst_def by (rule RunAttempt_instantiate_Inr [THEN conjunct2, THEN conjunct1, elim_format]) simp_all
qed

text \<open>A step of the system has at most one effect on the run store.\<close>

lemma sys_step_once:
  assumes "sys_step y z" "system_ok y"
  shows "evolves_once (runs_of y) (runs_of z)"
proof -
  have so: "store_ok (runs_of y)" and tk: "\<And>t. t \<in> set (sy_tasks y) \<Longrightarrow> task_ok (runs_of y) t"
    using assms(2) by (auto simp: system_ok_def)
  from assms(1) show ?thesis
  proof cases
    case (step_create props run i now a s res)
    then show ?thesis
      by (auto intro: fst_eq [OF step_create(6)] once_create created_facts [OF step_create(2-5)])
  next
    case (step_queue ts run now us s res)
    then have "run_wf run" using tk [of "Task_queue run now"] by simp
    then show ?thesis using step_queue by (auto intro: fst_eq [OF step_queue(3)] once.queueing)
  next
    case (step_acquire ts cfg now run a v us s run' a')
    then have "held_pair (runs_of y) run a" using tk [of "Task_loaded cfg now run a v"] by simp
    then show ?thesis using step_acquire by (auto intro: fst_eq [OF step_acquire(3)] acquire_once)
  next
    case (step_conflict ts cfg now run a v us s res)
    then have "held_pair (runs_of y) run a" using tk [of "Task_loaded cfg now run a v"] by simp
    then show ?thesis using step_conflict by (auto intro: fst_eq [OF step_conflict(3)] acquire_once)
  next
    case (step_heartbeat cfg now run a request owner s res)
    then show ?thesis by (auto intro: fst_eq [OF step_heartbeat(4)] once_renew)
  next
    case (step_finish ts cfg now run a request us ending lost s res)
    then have "held_pair (runs_of y) run a" using tk [of "Task_running cfg now run a request"] by simp
    then show ?thesis using step_finish by (auto intro: fst_eq [OF step_finish(3)] finish_once)
  next
    case (step_expiry_write ts plan us s res)
    then show ?thesis by (auto intro: fst_eq [OF step_expiry_write(3)] once.expiring)
  next
    case (step_recovery_write ts c plan us s res)
    then show ?thesis by (auto intro: fst_eq [OF step_recovery_write(4)] once.recovering)
  qed (auto simp: once_refl with_tasks_def)
qed

lemma sys_step_ok:
  assumes "sys_step y z" "system_ok y"
  shows "system_ok z \<and> evolves (runs_of y) (runs_of z)"
proof -
  note ok = assms(2)
  have so: "store_ok (runs_of y)" using ok by (simp add: system_ok_def)
  have e: "evolves (runs_of y) (runs_of z)" using sys_step_once [OF assms] by (rule once_evolves)
  have go: "system_ok z" if
      "\<forall>t\<in>set (sy_tasks z). t \<in> set (sy_tasks y) \<or> task_ok (runs_of z) t" "mset (claimed z) \<subseteq># mset (claimed y)"
    by (rule system_ok_evolves [OF ok e that])
  from assms(1) have "system_ok z"
  proof cases
    case (step_acquire ts cfg now run a v us s run' a')
    then show ?thesis using acquire_step_ok [OF ok step_acquire(2,3)] by simp
  next
    case (step_start ts cfg now run a v us request)
    then show ?thesis using start_step_ok [OF ok step_start(2)] by simp
  next
    case (step_read_pending i run now)
    with so show ?thesis by (intro go) (auto simp: claimed_def dest: store_wf_runD [OF store_ok_wf])
  next
    case (step_load i run a v cfg now)
    with load_facts [OF so] show ?thesis by (intro go) (auto simp: claimed_def)
  qed (rule go; auto simp: claimed_def)+
  with e show ?thesis by simp
qed

lemma sys_steps_ok:
  assumes "sys_step\<^sup>*\<^sup>* y z" "system_ok y"
  shows "system_ok z \<and> evolves (runs_of y) (runs_of z)"
  using assms
proof (induction rule: rtranclp_induct)
  case (step z w)
  then show ?case using sys_step_ok [OF step(2)] evolves_trans by blast
qed (simp add: evolves_refl)

lemma reachable_ok: "sys_step\<^sup>*\<^sup>* (initial_system p) y \<Longrightarrow> system_ok y"
  using sys_steps_ok initial_ok by blast

end
