(* ===== verification/Workflow_Child_Runs.thy ===== *)
theory Workflow_Child_Runs
  imports Workflow_Writes Run_System
begin

text \<open>
  The writes of a reconciliation outside the node runs: child runs, waits, approval requests and
  the workflow run itself. A child run is found again by its idempotency key, which the index of
  the run repository gives to one run only.
\<close>

subsection \<open>Errors that are not those of the queue\<close>

definition queue_error :: "osva_error \<Rightarrow> bool" where
  "queue_error e \<longleftrightarrow> (\<exists>i a. e = EnqueueFailedError i a)"

definition ordinary :: "osva_error + 'a \<Rightarrow> bool" where
  "ordinary r \<longleftrightarrow> (\<forall>e. r = Inl e \<longrightarrow> \<not> queue_error e)"

named_theorems ordinary_intros

lemma ordinary_basics [ordinary_intros]:
  "ordinary (Inr x)" "\<not> queue_error e \<Longrightarrow> ordinary (Inl e)"
  "ordinary m \<Longrightarrow> (\<And>x. ordinary (k x)) \<Longrightarrow> ordinary (and_then m k)"
  "(b \<Longrightarrow> ordinary r) \<Longrightarrow> (\<not> b \<Longrightarrow> ordinary r') \<Longrightarrow> ordinary (if b then r else r')"
  "(\<And>e. c = Some e \<Longrightarrow> \<not> queue_error e) \<Longrightarrow> ordinary r \<Longrightarrow> ordinary (after_check c r)"
  by (auto simp: ordinary_def and_then_Inl after_check_Inl split: option.splits)

lemma ordinary_option [ordinary_intros]:
  "ordinary r \<Longrightarrow> (\<And>x. ordinary (s x)) \<Longrightarrow> ordinary (case v of None \<Rightarrow> r | Some x \<Rightarrow> s x)"
  by (cases v) simp_all

lemma not_queue_error [simp]:
  "\<not> queue_error (DomainInvariantError m)" "\<not> queue_error (AgentNotFoundError m)"
  "\<not> queue_error (AgentVersionNotFoundError m)" "\<not> queue_error (BindingMismatchError m)"
  "\<not> queue_error (InvalidAttemptSequenceError m)" "\<not> queue_error (LifecycleConflictError a b c)"
  "\<not> queue_error (InvalidRunTransitionError s t)" "\<not> queue_error (RunNotFoundError i)"
  by (simp_all add: queue_error_def)

lemma ordinary_copies [ordinary_intros]:
  "ordinary (copyInstant d)" "ordinary (copyOptInstant o_d)" "ordinary (copyJsonValue v field)"
  "ordinary (copyCanonicalJsonValue v field)" "ordinary (copyOutput v)" "ordinary (require_opt w field)"
  by (auto simp: copyInstant_def copyOptInstant_def copyJsonValue_def copyCanonicalJsonValue_def copyOutput_def
      require_opt_def requireNonEmptyString_def ordinary_def and_then_Inl split: option.splits sum.splits if_splits js_date.splits)

lemma ordinary_op:
  "ordinary m \<Longrightarrow> (\<And>x. ordinary (snd (k x s))) \<Longrightarrow> ordinary (snd (op_lift m k s))"
  "ordinary (snd r) \<Longrightarrow> (\<And>x t. ordinary (snd (k x t))) \<Longrightarrow> ordinary (snd (op_then r k))"
  by (cases m; simp add: ordinary_def) (cases r; cases "snd r"; auto simp: ordinary_def)

lemma ordinary_entities [ordinary_intros]: "ordinary (Run_instantiate p)" "ordinary (RunAttempt_instantiate q)"
  unfolding Run_instantiate_def RunAttempt_instantiate_def by (intro ordinary_intros; simp)+

lemma ordinary_prepareRun: "ordinary (prepareRun agents c)"
  unfolding prepareRun_def assertAgentOwnership_def resolveEffectiveBindings_def EffectiveRunBindings_create_def
    new_run_def Run_create_def RunAttempt_createFirst_def Let_def
  by (intro ordinary_intros; simp)

subsection \<open>The run repository\<close>

lemma create_ordinary:
  "createRunWithInitialAttempt r a s = (t, res) \<Longrightarrow>
     (res = Inr () \<longrightarrow> findRunById t (r_id r) = Some r) \<and> ordinary res"
  by (auto simp: createRunWithInitialAttempt_def assertUniqueRunIdempotencyKey_def ordinary_def findRunById_def put_run_def
      split: if_splits option.splits)

lemma ordinary_assert_run: "assertLegalRunTransition s t = Some e \<Longrightarrow> \<not> queue_error e"
  by (auto simp: assertLegalRunTransition_def split: if_splits)

lemma transitionRun_ordinary: "ordinary (snd (transitionRun e r s))"
  unfolding transitionRun_def applyRunLifecycle_def Run_rehydrate_def
  by (auto split: option.split intro!: ordinary_intros ordinary_op dest: ordinary_assert_run)

definition with_run_store :: "run_store \<Rightarrow> 'w flow \<Rightarrow> 'w flow" where
  "with_run_store s f = f\<lparr> fl_platform := (fl_platform f)\<lparr> pf_runs := s \<rparr> \<rparr>"

lemma with_run_store_ok:
  assumes f: "good env f" and s: "evolves (run_store_of f) s"
  shows "good env (with_run_store s f) \<and> flow_kept f (with_run_store s f)"
proof -
  note ok = good_ok [OF f, unfolded flow_ok_def]
  from evolves_keeps [OF s] evolves_keys [OF s] ok
  have e: "store_ok s" "keeps (run_store_of f) s" "keys_indexed s" by auto
  have k: "flow_kept f (with_run_store s f)"
    using e(2) by (simp add: flow_kept_def with_run_store_def entries_kept_refl wait_kept_def approval_kept_def)
  have "flow_ok (re_sha256 env) (with_run_store s f)"
    by (rule flow_okI [OF k good_ok [OF f]])
      (use good_keyed [OF f] e(1,3) in \<open>simp_all add: with_run_store_def flow_keyed_def\<close>)
  with f k show ?thesis by (simp add: good_def with_run_store_def free_id_def)
qed

subsection \<open>Creating a child run\<close>

definition key_seen :: "string \<Rightarrow> string \<Rightarrow> 'w flow \<Rightarrow> bool" where
  "key_seen k i f \<longleftrightarrow> (\<exists>r. findRunById (run_store_of f) i = Some r \<and> run_key r = Some k)"

lemma stable_key_seen [stable_facts]: "stable env (key_seen k i)"
proof (rule stableI)
  fix f g :: "'a flow" assume k: "flow_kept f g" and "key_seen k i f"
  then obtain r where r: "findRunById (run_store_of f) i = Some r" "run_key r = Some k" by (auto simp: key_seen_def)
  from flow_kept_run [OF k r(1)] r(2) show "key_seen k i g"
    by (auto simp: key_seen_def run_kept_def dest: same_run_key)
qed

definition run_key_of :: "create_run_command \<Rightarrow> string option" where
  "run_key_of c = map_option (workspaceIdempotencyKey (crc_workspaceId c)) (crc_idempotencyKey c)"

lemma prepareRun_Inr:
  assumes "prepareRun agents c = Inr (run, a)" "\<not> uses_proto (crc_input c)"
  shows "run_wf run \<and> attempt_wf a \<and> attempt_timeline a \<and> r_status run = Run_PENDING \<and> a_status a = Att_PENDING
    \<and> r_recoveryMetadata run = None \<and> run_key run = run_key_of c"
proof -
  from assms(1) obtain bindings where r: "new_run c bindings = Inr run"
    and a: "RunAttempt_createFirst (crc_runAttemptId c) (r_id run) (crc_now c) None = Inr a"
    by (auto simp: prepareRun_def and_then_Inr)
  note facts = created_facts [OF r [unfolded new_run_def] _ _ a]
  have "run_key run = run_key_of c"
    using r by (auto simp: new_run_def Run_create_def Run_instantiate_def result_simps run_key_def run_key_of_def
        split: if_splits option.splits)
  with facts assms(2) show ?thesis by simp
qed

text \<open>A run that has left the first status never returns to it.\<close>

definition left_pending :: "string \<Rightarrow> 'w flow \<Rightarrow> bool" where
  "left_pending i f \<longleftrightarrow> (\<exists>r. findRunById (run_store_of f) i = Some r \<and> r_status r \<noteq> Run_PENDING)"

lemma stable_left_pending [stable_facts]: "stable env (left_pending i)"
proof (rule stableI)
  fix f g :: "'a flow" assume k: "flow_kept f g" and "left_pending i f"
  then obtain r where r: "findRunById (run_store_of f) i = Some r" "r_status r \<noteq> Run_PENDING"
    by (auto simp: left_pending_def)
  from flow_kept_run [OF k r(1)] r(2) show "left_pending i g" by (auto simp: left_pending_def run_kept_def)
qed

lemma transitionRun_leaves_pending:
  assumes "store_wf s" "transitionRun e r s = (t, Inr q)"
  shows "r_id q = r_id r \<and> r_status q = r_status r \<and> (\<exists>p. findRunById t (r_id r) = Some p \<and> r_status p \<noteq> Run_PENDING)"
  using transitionRun_cases [OF assms] run_moves_leave_pending by (auto simp: findRunById_def put_run_def)

definition queue_failure :: "string option \<Rightarrow> osva_error \<Rightarrow> 'w flow \<Rightarrow> bool" where
  "queue_failure k e f \<longleftrightarrow> (\<forall>i a. e = EnqueueFailedError i a \<longrightarrow> (\<forall>k'. k = Some k' \<longrightarrow> key_seen k' i f))"

lemma stable_queue_failure [stable_facts]: "stable env (queue_failure k e)"
  unfolding queue_failure_def [abs_def] by (rule stableI) (auto dest: stableD [OF stable_key_seen])

lemma ordinary_failure: "\<not> queue_error e \<Longrightarrow> queue_failure k e f"
  by (auto simp: queue_failure_def queue_error_def)

lemma ends_store_pending:
  assumes env: "env_ok env" and P: "stable env P" and c: "prepareRun agents c = Inr (run, a)" "\<not> uses_proto (crc_input c)"
    and k: "run_key_of c = Some k"
  shows "ends env P (on_runs (createRunWithInitialAttempt run a)) (\<lambda>u. key_seen k (r_id run)) (queue_failure (Some k))"
proof (rule ends_on_runs [OF waits_stable [OF P]], fold with_run_store_def)
  fix f s r assume f: "good env f" and r: "createRunWithInitialAttempt run a (run_store_of f) = (s, r)"
  note facts = prepareRun_Inr [OF c]
  from create_ordinary [OF r] have ks: "r = Inr () \<Longrightarrow> findRunById s (r_id run) = Some run" "ordinary r" by auto
  have "evolves (run_store_of f) s"
    using memory.create [of run a "run_store_of f"] facts r by simp
  from with_run_store_ok [OF f this] ks facts k
  show "good env (with_run_store s f) \<and> flow_kept f (with_run_store s f)
      \<and> result_ok (\<lambda>u. key_seen k (r_id run)) (queue_failure (Some k)) r (with_run_store s f)"
    by (cases r) (auto simp: ordinary_def ordinary_failure key_seen_def with_run_store_def)
qed

lemma Run_transitionTo_ordinary [ordinary_intros]: "ordinary (Run_transitionTo r t now)"
  by (auto simp: Run_transitionTo_def Run_rehydrate_def intro!: ordinary_intros dest: ordinary_assert_run)

lemma ends_queue_created:
  assumes env: "env_ok env" and P: "stable env P" and run: "run_wf run"
  shows "ends env P (on_runs (queue_created run now)) (\<lambda>queued f. r_id queued = r_id run \<and> left_pending (r_id run) f)
    (queue_failure k)"
proof (rule ends_on_runs [OF waits_stable [OF P]], fold with_run_store_def)
  fix f s r assume f: "good env f" and r: "queue_created run now (run_store_of f) = (s, r)"
  have ev: "evolves (run_store_of f) s" using memory.queueing [OF run, of "run_store_of f" now] r by simp
  have wf: "store_wf (run_store_of f)" using good_ok [OF f] store_ok_wf by (simp add: flow_ok_def)
  have "ordinary r \<and> (\<forall>queued. r = Inr queued \<longrightarrow> r_id queued = r_id run \<and> left_pending (r_id run) (with_run_store s f))"
  proof (cases "Run_transitionTo run Run_QUEUED now")
    case (Inl e)
    with r show ?thesis
      using Run_transitionTo_ordinary [of run Run_QUEUED now] by (auto simp: queue_created_def ordinary_def)
  next
    case (Inr q)
    obtain t res where t: "transitionRun Run_PENDING q (run_store_of f) = (t, res)" by fastforce
    have "r_id q = r_id run" using Inr run by (simp add: Run_transitionTo_Inr)
    with transitionRun_ordinary [of Run_PENDING q "run_store_of f"]
      transitionRun_leaves_pending [OF wf, of Run_PENDING q] t r Inr
    show ?thesis
      by (cases res) (auto simp: queue_created_def t ordinary_def left_pending_def with_run_store_def)
  qed
  with with_run_store_ok [OF f ev] show "good env (with_run_store s f) \<and> flow_kept f (with_run_store s f)
      \<and> result_ok (\<lambda>queued f. r_id queued = r_id run \<and> left_pending (r_id run) f) (queue_failure k) r (with_run_store s f)"
    by (cases r) (auto simp: ordinary_def ordinary_failure)
qed

lemma ends_createRunAwaiting:
  assumes env: "env_ok env" and P: "stable env P" and k: "run_key_of c = Some k" and input: "\<not> uses_proto (crc_input c)"
  shows "ends env P (createRunAwaiting c) (\<lambda>run f. key_seen k (r_id run) f \<and> left_pending (r_id run) f) (queue_failure (Some k))"
  unfolding createRunAwaiting_def
proof (rule ends_reading_then [OF P, where R = "\<lambda>x f. \<exists>agents. x = prepareRun agents c"])
  fix prepared
  show "ends env (\<lambda>f. P f \<and> (\<exists>agents. prepared = prepareRun agents c)) (act_then (lift_act prepared) (\<lambda>(pending, attempt).
      act_then (on_runs (createRunWithInitialAttempt pending attempt)) (\<lambda>u.
      act_then (on_runs (queue_created pending (crc_now c))) (\<lambda>queued. enqueueCreated queued attempt))))
      (\<lambda>run f. key_seen k (r_id run) f \<and> left_pending (r_id run) f) (queue_failure (Some k))"
  proof (cases "\<exists>agents. prepared = prepareRun agents c")
    case True
    then obtain agents where p: "prepared = prepareRun agents c" by blast
    have "ends env P (act_then (lift_act prepared) (\<lambda>(pending, attempt).
        act_then (on_runs (createRunWithInitialAttempt pending attempt)) (\<lambda>u.
        act_then (on_runs (queue_created pending (crc_now c))) (\<lambda>queued. enqueueCreated queued attempt))))
        (\<lambda>run f. key_seen k (r_id run) f \<and> left_pending (r_id run) f) (queue_failure (Some k))"
    proof (rule ends_lift_then)
      fix x assume "prepared = Inr x"
      then obtain run a where x: "x = (run, a)" and r: "prepareRun agents c = Inr (run, a)" using p by (cases x) auto
      note wf = prepareRun_Inr [OF r input]
      let ?seen = "\<lambda>f. P f \<and> key_seen k (r_id run) f"
      have st: "stable env ?seen" by (intro stable_facts P)
      have "ends env ?seen (act_then (on_runs (queue_created run (crc_now c))) (\<lambda>queued. enqueueCreated queued a))
          (\<lambda>run f. key_seen k (r_id run) f \<and> left_pending (r_id run) f) (queue_failure (Some k))"
      proof (rule ends_then [OF ends_queue_created [OF env st] _ st])
        fix queued :: run
        let ?q = "\<lambda>f. ?seen f \<and> r_id queued = r_id run \<and> left_pending (r_id run) f"
        have sq: "stable env ?q" by (intro stable_facts P)
        have "ends env ?q (act_then (on_queue (enqueue (a_id a))) (\<lambda>outcome. give queued))
            (\<lambda>run f. key_seen k (r_id run) f \<and> left_pending (r_id run) f) (\<lambda>e f. True)"
          by (rule ends_then [where R = "\<lambda>x f. True", OF ends_on_queue [OF sq] _ sq]) (auto intro!: ends_give)
        then show "ends env ?q (enqueueCreated queued a) (\<lambda>run f. key_seen k (r_id run) f \<and> left_pending (r_id run) f) (queue_failure (Some k))"
          unfolding enqueueCreated_def
          by (rule ends_catch [OF _ _ sq]) (auto intro!: ends_throw simp: queue_failure_def)
      qed (use wf in simp)
      with ends_store_pending [OF env P r input k]
      show "ends env P (case x of (pending, attempt) \<Rightarrow>
          act_then (on_runs (createRunWithInitialAttempt pending attempt)) (\<lambda>u.
          act_then (on_runs (queue_created pending (crc_now c))) (\<lambda>queued. enqueueCreated queued attempt)))
          (\<lambda>run f. key_seen k (r_id run) f \<and> left_pending (r_id run) f) (queue_failure (Some k))"
        unfolding x prod.case by (rule ends_then [OF _ _ P])
    next
      fix e f assume "prepared = Inl e"
      then show "queue_failure (Some k) e f"
        using ordinary_prepareRun [of agents c] p by (simp add: ordinary_def ordinary_failure)
    qed
    then show ?thesis by (rule ends_pre) simp
  qed (simp add: ends_def)
qed blast

end
