(* ===== verification/Workflow_Agents.thy ===== *)
theory Workflow_Agents
  imports Workflow_Child_Runs
begin

text \<open>
  The agent nodes of a reconciliation. A node run that was ever allowed to exist stays allowed, so
  it may be bound to its child run and follow it at any later moment, whoever else does the same.
\<close>

subsection \<open>Nodes that are allowed to run\<close>

definition enabled_seen :: "workflow_node_run \<Rightarrow> (wf_node \<Rightarrow> bool) \<Rightarrow> 'w flow \<Rightarrow> bool" where
  "enabled_seen n T f \<longleftrightarrow> node_context n (\<lambda>w g node. T node
     \<and> node_enabled g (n_workflowNodeKey n) (nodes_of (fl_store f) (w_id w)) \<and> joins_only g) f"

lemma stable_enabled_seen [stable_facts]: "stable env (enabled_seen n T)"
proof (rule stableI)
  fix f f' :: "'a flow"
  assume k: "good env f" "good env f'" "flow_kept f f'" and e: "enabled_seen n T f"
  note v = flow_views_kept [OF good_keyed [OF k(1)] good_keyed [OF k(2)] k(3)]
  show "enabled_seen n T f'"
    unfolding enabled_seen_def
    by (rule node_context_kept [OF k(3) e [unfolded enabled_seen_def]])
      (auto simp: wrun_kept_def intro: enabled_kept [OF v])
qed

definition of_type :: "string \<Rightarrow> wf_node \<Rightarrow> bool" where
  "of_type t node \<longleftrightarrow> node_type (wn_body node) = t"

lemma context_seen:
  assumes f: "good env f" and g: "graph_seen w g f" "map_of (g_nodesByKey g) (n_workflowNodeKey n) = Some node"
    and n: "n_workflowRunId n = w_id w" and C: "\<And>w'. wrun_kept w w' \<Longrightarrow> C w' g node"
  shows "node_context n C f"
proof -
  from g(1) obtain w' where w': "findWorkflowRunById (fl_store f) (w_id w) = Some w'" "wrun_kept w w'"
    "version_graph (fl_catalog f) w' = Some g"
    by (auto simp: graph_seen_def run_seen_def wrun_kept_def version_graph_def)
  then show ?thesis using g(2) n C [OF w'(2)] by (auto simp: node_context_def wrun_kept_def)
qed

lemma ready_seen:
  assumes f: "good env f" and g: "graph_seen w g f" "view_seen w runs f"
    and e: "node_enabled g k runs" "map_of (g_nodesByKey g) k = Some node" "T node" and n: "node_at w k n f"
  shows "enabled_seen n T f"
  unfolding enabled_seen_def
proof (rule context_seen [OF f g(1)])
  fix w' assume "wrun_kept w w'"
  then show "T node \<and> node_enabled g (n_workflowNodeKey n) (nodes_of (fl_store f) (w_id w')) \<and> joins_only g"
    using enabled_kept [OF g(2) [unfolded view_seen_def] e(1) joins_seen [OF g(1)]] joins_seen [OF g(1)] e(3) n
    by (simp add: node_at_def wrun_kept_def)
qed (use e n in \<open>simp_all add: node_at_def\<close>)

lemma listed_seen:
  assumes f: "good env f" and g: "graph_seen w g f" and n: "findWorkflowNodeRunById (fl_store f) i = Some n"
    "n_workflowRunId n = w_id w" "n_status n \<noteq> NR_SKIPPED"
    and e: "map_of (g_nodesByKey g) (n_workflowNodeKey n) = Some node" "T node"
  shows "enabled_seen n T f"
  unfolding enabled_seen_def
proof (rule context_seen [OF f g])
  fix w' assume w': "wrun_kept w w'"
  obtain w'' node' where "wrun_kept w w''" "node_fits (re_sha256 env) f w'' g node' n"
    using node_found_fits [OF f n(1) g n(2)] by metis
  then show "T node \<and> node_enabled g (n_workflowNodeKey n) (nodes_of (fl_store f) (w_id w')) \<and> joins_only g"
    using w' n(3) e(2) joins_seen [OF g] by (auto simp: node_fits_def placed_def wrun_kept_def)
qed (use e n in simp_all)

text \<open>The stored node run of a copy, in its context.\<close>

lemma enabled_stored:
  assumes f: "good env f" and n: "node_seen (n\<lparr> n_input := x \<rparr>) f" and e: "enabled_seen n T f"
  obtains m w g node where "findWorkflowNodeRunById (fl_store f) (n_id n) = Some m" "node_kept (n\<lparr> n_input := x \<rparr>) m"
    "findWorkflowRunById (fl_store f) (n_workflowRunId n) = Some w" "w_id w = n_workflowRunId n"
    "version_graph (fl_catalog f) w = Some g" "map_of (g_nodesByKey g) (n_workflowNodeKey n) = Some node" "T node"
    "node_fits (re_sha256 env) f w g node m" "n_status m \<noteq> NR_SKIPPED"
proof -
  from n obtain m where m: "findWorkflowNodeRunById (fl_store f) (n_id n) = Some m" "node_kept (n\<lparr> n_input := x \<rparr>) m"
    by (auto simp: node_seen_def)
  then have k: "n_workflowRunId m = n_workflowRunId n" "n_workflowNodeKey m = n_workflowNodeKey n"
    by (auto simp: node_kept_def same_node_def)
  from f m(1) have ok: "node_ok (re_sha256 env) f m" by (simp add: good_def flow_ok_def)
  from e obtain w g node where w: "findWorkflowRunById (fl_store f) (n_workflowRunId n) = Some w" "w_id w = n_workflowRunId n"
    "version_graph (fl_catalog f) w = Some g" "map_of (g_nodesByKey g) (n_workflowNodeKey n) = Some node" "T node"
    and en: "node_enabled g (n_workflowNodeKey n) (nodes_of (fl_store f) (w_id w))"
    by (auto simp: enabled_seen_def node_context_def)
  from ok w(1-4) k have fits: "node_fits (re_sha256 env) f w g node m" by (auto simp: node_ok_def)
  moreover have "n_status m \<noteq> NR_SKIPPED"
    using fits enabled_not_skippable [OF en] k by (auto simp: node_fits_def placed_def)
  ultimately show ?thesis using that m w by blast
qed

lemma copied_input: "copyJsonValue v field = Inr x \<Longrightarrow> \<not> uses_proto x \<and> x \<noteq> JUndefined"
proof -
  assume "copyJsonValue v field = Inr x"
  then obtain u where u: "json_roundtrip v = Inr (Some u)" "x = cloneJsonLike u"
    by (auto simp: copyJsonValue_def freezeClone_def split: if_splits sum.splits option.splits)
  from json_roundtrip_result(1) [OF u(1)] have "cloneJsonLike u \<noteq> JUndefined"
    by (cases u) (auto simp: assign_entries_def Let_def)
  with u(2) show ?thesis by simp
qed

lemma enabled_input:
  assumes f: "good env f" "node_seen n f" "enabled_seen n T f"
  shows "\<not> uses_proto (n_input n) \<and> n_input n \<noteq> JUndefined"
proof -
  have "node_seen (n\<lparr> n_input := n_input n \<rparr>) f" using f(2) by simp
  from enabled_stored [OF f(1) this f(3)] show ?thesis
  proof cases
    case (1 m w g node)
    from 1(8,9) obtain field v where "copyJsonValue v field = Inr (n_input m)"
      by (auto simp: node_fits_def placed_def)
    with 1(2) copied_input [OF this] show ?thesis by (simp add: node_kept_def same_node_def)
  qed
qed

lemma enabled_justified:
  assumes e: "enabled_seen n T f" and child: "n_childRunId m \<noteq> None \<or> (\<forall>node. T node \<longrightarrow> \<not> of_type ''AGENT'' node)"
    and st: "n_status m \<noteq> NR_SKIPPED"
    and why: "\<And>w g node row. findWorkflowRunById (fl_store f) (n_workflowRunId n) = Some w \<Longrightarrow> w_id w = n_workflowRunId n
      \<Longrightarrow> T node \<Longrightarrow> settled (n\<lparr> n_input := x \<rparr>) m row \<Longrightarrow> status_reason (re_sha256 env) f w node row"
  shows "justified env (n\<lparr> n_input := x \<rparr>) m f"
proof -
  from e obtain w g node where w: "findWorkflowRunById (fl_store f) (n_workflowRunId n) = Some w" "w_id w = n_workflowRunId n"
    "version_graph (fl_catalog f) w = Some g" "map_of (g_nodesByKey g) (n_workflowNodeKey n) = Some node" "T node"
    by (auto simp: enabled_seen_def node_context_def)
  then show ?thesis
    using child st why [OF w(1,2,5)] by (auto simp: justified_def node_context_def of_type_def)
qed

subsection \<open>Finding or creating the child run\<close>

definition child_key :: "workflow_run \<Rightarrow> workflow_node_run \<Rightarrow> string" where
  "child_key w n = workspaceIdempotencyKey (w_workspaceId w) (workflowNodeRunIdempotencyKey (w_id w) (n_workflowNodeKey n))"

text \<open>What an agent node run may rely on throughout.\<close>

definition agent_seen :: "workflow_run \<Rightarrow> workflow_node_run \<Rightarrow> 'w flow \<Rightarrow> bool" where
  "agent_seen w n f \<longleftrightarrow> run_seen w f \<and> w_id w = n_workflowRunId n \<and> (\<exists>x. node_seen (n\<lparr> n_input := x \<rparr>) f)
     \<and> enabled_seen n (of_type ''AGENT'') f"

lemma stable_agent_seen [stable_facts]: "stable env (agent_seen w n)"
  unfolding agent_seen_def [abs_def] by (intro stable_facts)

lemma agent_seen_id: "agent_seen w n f \<Longrightarrow> n_workflowRunId n = w_id w"
  by (simp add: agent_seen_def)

lemma agent_stored:
  assumes f: "good env f" and a: "agent_seen w n f"
  obtains m w' g node where "findWorkflowNodeRunById (fl_store f) (n_id n) = Some m"
    "\<exists>x. node_kept (n\<lparr> n_input := x \<rparr>) m" "findWorkflowRunById (fl_store f) (w_id w) = Some w'" "wrun_kept w w'"
    "version_graph (fl_catalog f) w' = Some g" "map_of (g_nodesByKey g) (n_workflowNodeKey n) = Some node"
    "of_type ''AGENT'' node" "node_fits (re_sha256 env) f w' g node m" "n_status m \<noteq> NR_SKIPPED"
proof -
  from a obtain x where n: "node_seen (n\<lparr> n_input := x \<rparr>) f" and e: "enabled_seen n (of_type ''AGENT'') f"
    and w: "run_seen w f" by (auto simp: agent_seen_def)
  from enabled_stored [OF f n e] show ?thesis
  proof cases
    case (1 m w' g node)
    with w have "wrun_kept w w'" using agent_seen_id [OF a] by (auto simp: run_seen_def)
    with 1 that [of m w' g node] show ?thesis using agent_seen_id [OF a] by auto
  qed
qed

lemma recorded_child:
  assumes f: "good env f" and a: "agent_seen w n f" and c: "n_childRunId n = Some i"
    and r: "findRunById (run_store_of f) i = Some r"
  shows "r_id r = i \<and> run_key r = Some (child_key w n)"
  using f a
proof (cases rule: agent_stored)
  case (1 m w' g node)
  from 1(2) c have k: "n_childRunId m = Some i" "n_workflowNodeKey m = n_workflowNodeKey n"
    by (auto simp: node_kept_def same_node_def)
  from 1(8) k(1) obtain q where "child_run_of (run_store_of f) w' m q" by (auto simp: node_fits_def)
  with r k 1(4) show ?thesis by (auto simp: child_run_of_def child_key_def wrun_kept_def)
qed

lemma indexed_child:
  assumes "good env f" "findRunByWorkspaceIdempotencyKey (run_store_of f) ws k = Some r"
  shows "key_seen (workspaceIdempotencyKey ws k) (r_id r) f"
proof -
  note ok = good_ok [OF assms(1), unfolded flow_ok_def]
  from assms(2) obtain i where i: "map_of (rs_index (run_store_of f)) (workspaceIdempotencyKey ws k) = Some i"
    "findRunById (run_store_of f) i = Some r"
    by (auto simp: findRunByWorkspaceIdempotencyKey_def findRunById_def split: option.splits)
  have "store_wf (run_store_of f)" using ok store_ok_wf by blast
  with store_wf_runD i(2) have "r_id r = i" by blast
  moreover from i ok have "run_key r = Some (workspaceIdempotencyKey ws k)"
    unfolding keys_indexed_def by fastforce
  ultimately show ?thesis using i(2) by (auto simp: key_seen_def)
qed

definition child_option :: "string \<Rightarrow> run option \<Rightarrow> 'w flow \<Rightarrow> bool" where
  "child_option k r f \<longleftrightarrow> (\<forall>run. r = Some run \<longrightarrow> key_seen k (r_id run) f)"

lemma stable_child_option [stable_facts]: "stable env (child_option k r)"
  unfolding child_option_def [abs_def] by (rule stableI) (auto dest: stableD [OF stable_key_seen])

lemma ends_findChildRun:
  assumes env: "env_ok env" and P: "stable env P" and a: "\<And>f. good env f \<Longrightarrow> P f \<Longrightarrow> agent_seen w n f"
  shows "safe env P (findChildRun w n (workflowNodeRunIdempotencyKey (w_id w) (n_workflowNodeKey n)))
    (child_option (child_key w n))"
  unfolding findChildRun_def
proof (rule ends_then [OF _ _ P])
  show "safe env P (case n_childRunId n of None \<Rightarrow> give None
      | Some i \<Rightarrow> reading (\<lambda>f. findRunById (run_store_of f) i)) (child_option (child_key w n))"
  proof (cases "n_childRunId n")
    case (Some i)
    have "child_option (child_key w n) (findRunById (run_store_of f) i) f" if "good env f" "P f" for f
      using recorded_child [OF that(1) a [OF that] Some] by (auto simp: child_option_def key_seen_def)
    then show ?thesis by (simp add: Some ends_reading [OF P])
  qed (simp add: ends_give child_option_def)
next
  fix recorded
  show "safe env (\<lambda>f. P f \<and> child_option (child_key w n) recorded f) (case recorded of
      None \<Rightarrow> reading (\<lambda>f. findRunByWorkspaceIdempotencyKey (run_store_of f) (w_workspaceId w)
        (workflowNodeRunIdempotencyKey (w_id w) (n_workflowNodeKey n)))
    | Some run \<Rightarrow> give (Some run)) (child_option (child_key w n))"
    by (intro ends_case_option ends_reading ends_give env stable_facts P)
      (auto simp: child_option_def child_key_def dest: indexed_child)
qed

definition pair_seen :: "string \<Rightarrow> run \<times> bool \<Rightarrow> 'w flow \<Rightarrow> bool" where
  "pair_seen k x = key_seen k (r_id (fst x))"

lemma ends_use_child:
  assumes env: "env_ok env" and P: "stable env P" and R: "\<And>f. good env f \<Longrightarrow> P f \<Longrightarrow> child_option k (sel f) f"
  shows "safe env P (act_then (reading sel) (\<lambda>existing.
    case existing of None \<Rightarrow> lift_act (Inl e) | Some run \<Rightarrow> give (run, False))) (pair_seen k)"
proof (rule ends_reading_then [where R = "child_option k", OF P R])
  fix existing
  show "safe env (\<lambda>f. P f \<and> child_option k existing f)
      (case existing of None \<Rightarrow> lift_act (Inl e) | Some run \<Rightarrow> give (run, False)) (pair_seen k)"
    by (intro ends_case_option ends_give ends_throw) (simp_all add: child_option_def pair_seen_def)
qed

lemma run_by_id: "good env f \<Longrightarrow> findRunById (run_store_of f) i = Some r \<Longrightarrow> r_id r = i"
  using store_wf_runD store_ok_wf by (fastforce simp: good_def flow_ok_def)

lemma ends_createChildRun:
  assumes env: "env_ok env" and P: "stable env P" and input: "\<not> uses_proto (n_input n)"
  shows "safe env P (createChildRun w n v (workflowNodeRunIdempotencyKey (w_id w) (n_workflowNodeKey n)) now)
    (pair_seen (child_key w n))"
  unfolding createChildRun_def
proof (rule ends_reading_then [where R = "\<lambda>x f. True", OF P], goal_cases)
  case (2 found)
  let ?k = "child_key w n"
  have command: "run_key_of (child_command i j w av n (workflowNodeRunIdempotencyKey (w_id w) (n_workflowNodeKey n)) now) = Some ?k"
    "\<not> uses_proto (crc_input (child_command i j w av n (workflowNodeRunIdempotencyKey (w_id w) (n_workflowNodeKey n)) now))"
    for i j av using input by (simp_all add: run_key_of_def child_command_def child_key_def)
  show ?case
  proof (rule ends_pre [where P = P], intro ends_case_option ends_throw ends_any_id_then [OF P] TrueI, goal_cases)
    case (1 av i j)
    show ?case
    proof (rule ends_catch_failure [where P = P, OF ends_then [OF ends_createRunAwaiting [OF env P command] _ P] _ P], goal_cases)
      case (2 e)
      have st: "stable env (\<lambda>f. P f \<and> queue_failure (Some ?k) e f)" by (intro stable_facts P)
      show ?case
      proof (intro ends_if ends_use_child [OF env st], goal_cases)
        case (1 f)
        then show ?case by (auto simp: child_option_def child_key_def dest: indexed_child)
      next
        case 2
        show ?case
        proof (cases e)
          case (EnqueueFailedError c c')
          have "safe env (\<lambda>f. P f \<and> queue_failure (Some ?k) e f) (act_then (reading (\<lambda>f. findRunById (run_store_of f) c))
              (\<lambda>existing. case existing of None \<Rightarrow> lift_act (Inl e) | Some run \<Rightarrow> give (run, False))) (pair_seen ?k)"
            by (rule ends_use_child [OF env st])
              (auto simp: EnqueueFailedError child_option_def queue_failure_def key_seen_def dest: run_by_id)
          then show ?thesis unfolding EnqueueFailedError by simp
        qed (auto intro: ends_throw)
      qed
    qed (auto intro!: ends_give simp: pair_seen_def queue_failure_def driver_error_def)
  qed simp
qed simp

subsection \<open>Binding the node run to its child run\<close>

lemma withChild_same:
  assumes "WorkflowNodeRun_withChildRunId n c now = Inr m"
  shows "same_node (n\<lparr> n_input := x \<rparr>) (m\<lparr> n_input := x \<rparr>) \<and> n_status m = n_status n \<and> n_childRunId m = Some c"
proof -
  have "n_createdAt m = n_createdAt n"
    using assms by (auto simp: WorkflowNodeRun_withChildRunId_def WorkflowNodeRun_copyProps_def
        split: option.splits if_splits dest!: WorkflowNodeRun_instantiate_Inr)
  with withChildRunId_Inr [OF assms] show ?thesis by (simp add: same_node_def)
qed

lemma bound_node_ok:
  assumes f: "good env f" and a: "agent_seen w n f" "key_seen (child_key w n) c f"
    and m: "WorkflowNodeRun_withChildRunId n c now = Inr n'"
    and nt: "\<not> isTerminalWorkflowNodeRunState (n_status n)"
    and s: "postgres_saveWorkflowNodeRun n' (fl_store f) = Inr s"
  shows "grants env f (f\<lparr> fl_store := s \<rparr>)
    \<and> (\<exists>x. node_seen (n'\<lparr> n_input := x \<rparr>) (f\<lparr> fl_store := s \<rparr>))"
  using f a(1)
proof (cases rule: agent_stored)
  case (1 cur w' g node)
  then obtain x where cur: "findWorkflowNodeRunById (fl_store f) (n_id n) = Some cur" "node_kept (n\<lparr> n_input := x \<rparr>) cur"
    by blast
  note n' = withChild_same [OF m, of x]
  define row where "row = cur\<lparr> n_childRunId := Some c, n_updatedAt := n_updatedAt n' \<rparr>"
  have id: "n_id n' = n_id n" using n' by (simp add: same_node_def)
  from s cur(1) have conflict: "child_conflict n' cur = None"
    and s': "s = (fl_store f)\<lparr> ws_nodes := AList.update (n_id n) row (ws_nodes (fl_store f)) \<rparr>"
    using n' by (auto simp: postgres_saveWorkflowNodeRun_def findWorkflowNodeRunById_def id after_check_Inr Let_def row_def)
  from conflict n' have child: "n_childRunId cur = None \<or> n_childRunId cur = Some c"
    by (auto simp: child_conflict_def split: if_splits)
  have same: "same_node cur row" "n_id row = n_id n"
    using cur(2) by (simp_all add: row_def same_node_def node_kept_def)
  have kept: "node_kept cur row"
    using child by (auto simp: node_kept_def same(1)) (simp_all add: row_def)
  have ids: "n_workflowRunId cur = w_id w" "n_workflowNodeKey cur = n_workflowNodeKey n"
    using cur(2) agent_seen_id [OF a(1)] by (auto simp: node_kept_def same_node_def)
  from 1(4) have w': "w_id w' = w_id w" by (simp add: wrun_kept_def)
  note kd = good_keyed [OF f]
  from a(2) obtain r where r: "findRunById (run_store_of f) c = Some r" "run_key r = Some (child_key w n)"
    by (auto simp: key_seen_def)
  have cr: "child_run_of (run_store_of f) w' row r"
    using r run_by_id [OF f r(1)] 1(4) ids by (simp add: child_run_of_def row_def child_key_def wrun_kept_def)
  have all: "flow_ok (re_sha256 env) (put_node row f) \<and> flow_kept f (put_node row f)"
  proof (rule put_node_ok [OF good_ok [OF f]])
    fix m assume "findWorkflowNodeRunById (fl_store f) (n_id row) = Some m"
    with cur(1) kept same(2) show "node_kept m row" by simp
  next
    fix m assume *: "findWorkflowNodeRunById (fl_store f) (n_id m) = Some m"
      "n_workflowRunId m = n_workflowRunId row" "n_workflowNodeKey m = n_workflowNodeKey row"
    have "nodes_ok (fl_store f)" using kd by (simp add: flow_keyed_def)
    from this [unfolded nodes_ok_def, THEN conjunct2, THEN conjunct2, rule_format, OF *(1) cur(1)]
    show "n_id m = n_id row" using *(2,3) same(2) by (simp add: row_def)
  next
    assume k: "flow_kept f (put_node row f)" "flow_keyed (put_node row f)"
    have fits: "node_fits (re_sha256 env) (put_node row f) w' g node cur"
      by (rule node_fits_kept [OF k(1) kd k(2) wrun_kept_refl 1(5,8)])
    have "status_reason (re_sha256 env) (put_node row f) w' node row"
    proof (cases "n_childRunId cur")
      case None
      then have "n_status cur \<notin> {NR_SUCCEEDED, NR_FAILED}"
        using fits 1(7) by (auto simp: node_fits_def status_reason_def success_reason_def failure_reason_def
            child_run_of_def of_type_def)
      with fits show ?thesis
        by (cases "n_status cur") (auto simp: node_fits_def status_reason_def row_def)
    next
      case (Some d)
      with child have "n_childRunId cur = Some c" by simp
      then have "row = cur\<lparr> n_updatedAt := n_updatedAt n' \<rparr>" by (simp add: row_def)
      moreover have "status_reason (re_sha256 env) (put_node row f) w' node (cur\<lparr> n_updatedAt := t \<rparr>)
          = status_reason (re_sha256 env) (put_node row f) w' node cur" for t
        using 1(7) by (simp add: of_type_def status_reason_def success_reason_def failure_reason_def child_run_of_def
            cong: workflow_node_run_state.case_cong)
      ultimately show ?thesis using fits by (simp add: node_fits_def)
    qed
    with fits cr 1(7,9) have "node_fits (re_sha256 env) (put_node row f) w' g node row"
      by (auto simp: node_fits_def placed_def row_def of_type_def)
    with 1(3,5,6) w' ids show "node_ok (re_sha256 env) (put_node row f) row"
      by (auto simp: node_ok_def row_def)
  qed
  have put: "f\<lparr> fl_store := s \<rparr> = put_node row f" by (simp add: s' put_node_def same(2))
  have "grants env f (put_node row f)"
    using all cur(1) same(2) by (intro grants_put_node) (auto simp: good_def free_id_def)
  moreover have "node_kept (n'\<lparr> n_input := x \<rparr>) row"
  proof (rule node_kept_cases)
    show "same_node (n'\<lparr> n_input := x \<rparr>) row" using n' cur(2) by (auto simp: same_node_def node_kept_def row_def)
  qed (use n' nt in \<open>simp_all add: row_def\<close>)
  ultimately show ?thesis using all unfolding put
    by (auto simp: node_seen_def same(2) id)
qed

lemma agent_seen_same:
  assumes "agent_seen w n f" "n_workflowRunId n' = n_workflowRunId n" "n_workflowNodeKey n' = n_workflowNodeKey n"
    "node_seen (n'\<lparr> n_input := x \<rparr>) f"
  shows "agent_seen w n' f"
proof -
  have "enabled_seen n' T f = enabled_seen n T f" for T
    unfolding enabled_seen_def node_context_def assms(2,3) ..
  moreover have "\<exists>x. node_seen (n'\<lparr> n_input := x \<rparr>) f" using assms(4) by blast
  ultimately show ?thesis using assms(1,2) unfolding agent_seen_def by simp
qed

lemma ends_attachChildRun:
  assumes env: "env_ok env" and P: "stable env P"
    and a: "\<And>f. good env f \<Longrightarrow> P f \<Longrightarrow> agent_seen w n f \<and> key_seen (child_key w n) (r_id run) f"
    and nt: "\<not> isTerminalWorkflowNodeRunState (n_status n)"
  shows "safe env P (attachChildRun env n run now) (\<lambda>n' f. agent_seen w n' f \<and> n_childRunId n' \<noteq> None)"
  unfolding attachChildRun_def
proof (intro ends_if ends_give ends_lift_then TrueI, goal_cases)
  case (1 f)
  then show ?case using a by auto
next
  case (2 n')
  note n' = withChild_same [OF 2(2)]
  have port: "re_saveWorkflowNodeRun env = postgres_saveWorkflowNodeRun"
    using env by (simp add: env_ok_def)
  have save: "safe env P (saveNode env n') (\<lambda>u f. \<exists>x. node_seen (n'\<lparr> n_input := x \<rparr>) f)"
    unfolding saveNode_def port
  proof (rule ends_on_store [OF waits_stable [OF P]])
    fix f s x assume "good env f" "P f" "no_result (postgres_saveWorkflowNodeRun n') (fl_store f) = Inr (x, s)"
    then show "grants env f (f\<lparr> fl_store := s \<rparr>)
        \<and> (\<exists>x. node_seen (n'\<lparr> n_input := x \<rparr>) (f\<lparr> fl_store := s \<rparr>))"
      using bound_node_ok [OF _ _ _ 2(2) nt, of env f w s] a [of f] by simp
  qed simp
  show ?case
  proof (rule ends_then [OF save _ P], rule ends_give)
    fix f assume f: "good env f" "P f \<and> (\<exists>x. node_seen (n'\<lparr> n_input := x \<rparr>) f)"
    then have "agent_seen w n f" using a by blast
    moreover from f(2) obtain x where "node_seen (n'\<lparr> n_input := x \<rparr>) f" by blast
    moreover have "n_workflowRunId n' = n_workflowRunId n" "n_workflowNodeKey n' = n_workflowNodeKey n"
      using n' by (simp_all add: same_node_def)
    ultimately have "agent_seen w n' f" using agent_seen_same by blast
    then show "agent_seen w n' f \<and> n_childRunId n' \<noteq> None" using n' by simp
  qed
qed

lemma ends_startNode:
  assumes env: "env_ok env" and P: "stable env P"
    and a: "\<And>f. good env f \<Longrightarrow> P f \<Longrightarrow> agent_seen w n f" and c: "n_childRunId n \<noteq> None"
  shows "safe env P (startNode env n now) (agent_seen w)"
  unfolding startNode_def
proof (intro ends_if ends_give a, goal_cases)
  case 1
  show ?case
  proof (rule ends_then [OF ends_storeMarked [OF env P] _ P], goal_cases)
    case (1 m)
    then show ?case using marks_from(1) by blast
  next
    case (2 f m)
    then obtain x where x: "node_seen (n\<lparr> n_input := x \<rparr>) f" "enabled_seen n (of_type ''AGENT'') f"
      using a [of f] by (auto simp: agent_seen_def)
    from marks_from(1) [OF 2(3)] c have "justified env (n\<lparr> n_input := x \<rparr>) m f"
      by (intro enabled_justified [OF x(2)])
        (auto simp: marked_from_def settled_def status_reason_def of_type_def)
    with x(1) show ?case by blast
  next
    case (3 running)
    show ?case
    proof (rule ends_give, cases running)
      fix f m assume f: "good env f" "P f \<and> node_again n running f" and m: "running = Some m"
      then obtain x where x: "node_seen m f" "same_node (n\<lparr> n_input := x \<rparr>) m" by (auto simp: node_again_def)
      have "agent_seen w n f" using a f by blast
      from agent_seen_same [OF this, of m "n_input m"] x m show "agent_seen w (case running of None \<Rightarrow> n | Some n' \<Rightarrow> n') f"
        by (simp add: same_node_def)
    qed (use a in simp)
  qed
qed

subsection \<open>Following the child run\<close>

lemma Run_transitionTo_status: "Run_transitionTo r t now = Inr r' \<Longrightarrow> r_status r' = t"
  by (auto simp: Run_transitionTo_def after_check_Inr run_props_with_def dest!: Run_instantiate_name
      dest: run_lc.name_inj)

lemma ends_queue_run:
  assumes env: "env_ok env" and P: "stable env P" and r: "r_status r = Run_QUEUED"
  shows "harmless env P (on_runs (transitionRun Run_PENDING r))"
proof (rule ends_on_runs [OF waits_stable [OF P]], fold with_run_store_def)
  fix f s res assume f: "good env f" and t: "transitionRun Run_PENDING r (run_store_of f) = (s, res)"
  have "evolves (run_store_of f) s" using memory.queue [OF r, of "run_store_of f"] t by simp
  from with_run_store_ok [OF f this]
  show "good env (with_run_store s f) \<and> flow_kept f (with_run_store s f)
      \<and> result_ok (\<lambda>x f. True) (\<lambda>e f. True) res (with_run_store s f)" by simp
qed

lemma harmless_then:
  assumes "harmless env P m" "\<And>x. harmless env P (k x)" "stable env P"
  shows "harmless env P (act_then m k)"
  by (rule ends_then [where R = "\<lambda>x f. True", OF assms(1) _ assms(3)]) (simp add: assms(2))

lemma harmless_reading_then:
  assumes "stable env P" "\<And>x. harmless env P (k x)"
  shows "harmless env P (act_then (reading sel) k)"
  by (rule harmless_then [OF ends_reading assms(2,1)]) (simp_all add: assms(1))

lemma harmless_catch:
  assumes "harmless env P m" "\<And>e. harmless env P (h e)" "stable env P"
  shows "harmless env P (act_catch m h)"
  by (rule ends_catch [OF assms(1) _ assms(3)]) (simp add: assms(2))

lemma harmless_redeliver:
  assumes env: "env_ok env" and P: "stable env P"
  shows "harmless env P (redeliverChildRun run now)"
  unfolding redeliverChildRun_def enqueueInitialAttempt_def
  by (intro harmless_reading_then ends_case_option ends_throw harmless_then harmless_catch ends_if ends_give
      ends_lift_then ends_on_queue ends_queue_run env P TrueI)
    (erule Run_transitionTo_status)

text \<open>A finished run is the same at every later moment, and so is the attempt that ended it.\<close>

definition run_ended :: "run \<Rightarrow> 'w flow \<Rightarrow> bool" where
  "run_ended r f \<longleftrightarrow> isTerminalRunState (r_status r) \<and> findRunById (run_store_of f) (r_id r) = Some r"

lemma stable_run_ended [stable_facts]: "stable env (run_ended r)"
proof (rule stableI)
  fix f g :: "'a flow" assume k: "flow_kept f g" and r: "run_ended r f"
  from r have s: "findRunById (run_store_of f) (r_id r) = Some r" and t: "isTerminalRunState (r_status r)"
    by (simp_all add: run_ended_def)
  from flow_kept_run [OF k s] t show "run_ended r g"
    by (auto simp: run_ended_def dest: terminal_run_kept)
qed

definition succeeded_with :: "run \<Rightarrow> jsv \<Rightarrow> 'w flow \<Rightarrow> bool" where
  "succeeded_with r v f \<longleftrightarrow> (\<exists>a. findRunAttemptById (run_store_of f) (a_id a) = Some a \<and> a_runId a = r_id r
     \<and> a_status a = Att_SUCCEEDED \<and> v = or_null (a_output a))"

lemma stable_succeeded_with [stable_facts]: "stable env (succeeded_with r v)"
proof (rule stableI)
  fix f g :: "'a flow" assume k: "flow_kept f g" and "succeeded_with r v f"
  then obtain a where a: "findRunAttemptById (run_store_of f) (a_id a) = Some a" "a_runId a = r_id r"
    "a_status a = Att_SUCCEEDED" "v = or_null (a_output a)" by (auto simp: succeeded_with_def)
  from flow_kept_attempt [OF k a(1)] a(3) have "findRunAttemptById (run_store_of g) (a_id a) = Some a"
    by (auto simp: attempt_kept_def isTerminalRunAttemptState_def TERMINAL_RUN_ATTEMPT_STATES_def)
  with a show "succeeded_with r v g" by (auto simp: succeeded_with_def)
qed

lemma succeeded_output_found:
  assumes f: "good env f" and r: "run_ended r f" "r_status r = Run_SUCCEEDED"
  shows "succeeded_with r (succeeded_output (run_store_of f) (r_id r)) f"
proof -
  let ?s = "run_store_of f"
  have ok: "store_ok ?s" using good_ok [OF f] by (simp add: flow_ok_def)
  then have "attempts_fit (run_attempts ?s (r_id r)) Run_SUCCEEDED"
    using r by (metis store_ok_def run_ended_def)
  then obtain a where a: "a \<in> run_attempts ?s (r_id r)" "a_status a = Att_SUCCEEDED"
    by (auto simp: attempts_fit_def is_last_def attempt_status_for_def)
  have set: "set (listRunAttempts ?s (r_id r)) = run_attempts ?s (r_id r)"
    using ok by (simp add: listRunAttempts_def set_attempts_of store_ok_wf)
  with a obtain b where b: "find (\<lambda>a. a_status a = Att_SUCCEEDED) (listRunAttempts ?s (r_id r)) = Some b"
    by (cases "find (\<lambda>a. a_status a = Att_SUCCEEDED) (listRunAttempts ?s (r_id r))") (auto simp: find_None_iff)
  from b have "b \<in> run_attempts ?s (r_id r)" "a_status b = Att_SUCCEEDED"
    by (auto simp: set [symmetric] find_Some_iff)
  with b show ?thesis by (auto simp: succeeded_with_def succeeded_output_def run_attempts_def)
qed

lemma agent_justified:
  assumes f: "good env f" and a: "agent_seen w n f" and c: "n_childRunId n = Some (r_id r)" and r: "run_ended r f"
    and m: "marked_from n m" and st: "n_status m \<in> {NR_SUCCEEDED, NR_FAILED}"
    and good: "n_status m = NR_SUCCEEDED \<Longrightarrow> r_status r = Run_SUCCEEDED \<and> succeeded_with r v f
      \<and> stored_as v (column_json (n_output m))"
    and bad: "n_status m = NR_FAILED \<Longrightarrow> r_status r \<in> {Run_FAILED, Run_TIMED_OUT, Run_CANCELLED}"
  shows "\<exists>x. node_seen (n\<lparr> n_input := x \<rparr>) f \<and> justified env (n\<lparr> n_input := x \<rparr>) m f"
proof -
  from a obtain x where x: "node_seen (n\<lparr> n_input := x \<rparr>) f" "enabled_seen n (of_type ''AGENT'') f" "run_seen w f"
    by (auto simp: agent_seen_def)
  have fr: "findRunById (run_store_of f) (r_id r) = Some r" using r by (simp add: run_ended_def)
  have key: "run_key r = Some (child_key w n)" using recorded_child [OF f a c fr] by simp
  have "justified env (n\<lparr> n_input := x \<rparr>) m f"
  proof (rule enabled_justified [OF x(2)])
    fix w' node row
    assume w': "findWorkflowRunById (fl_store f) (n_workflowRunId n) = Some w'" "w_id w' = n_workflowRunId n"
      and t: "of_type ''AGENT'' node" and row: "settled (n\<lparr> n_input := x \<rparr>) m row"
    have "wrun_kept w w'" using x(3) w' agent_seen_id [OF a] by (auto simp: run_seen_def)
    then have child: "child_run_of (run_store_of f) w' row r"
      using fr key row m c by (auto simp: child_run_of_def settled_def marked_from_def same_node_def child_key_def wrun_kept_def)
    show "status_reason (re_sha256 env) f w' node row"
    proof (cases "n_status m = NR_SUCCEEDED")
      case True
      with good row have g: "r_status r = Run_SUCCEEDED" "succeeded_with r v f" "stored_as v (n_output row)" "n_status row = NR_SUCCEEDED"
        by (auto simp: settled_def)
      with t child show ?thesis
        by (auto simp: status_reason_def success_reason_def of_type_def succeeded_with_def)
    next
      case False
      with st bad row have "n_status row = NR_FAILED" "r_status r \<in> {Run_FAILED, Run_TIMED_OUT, Run_CANCELLED}"
        by (auto simp: settled_def)
      with t child show ?thesis by (auto simp: status_reason_def failure_reason_def of_type_def)
    qed
  qed (use m c st in \<open>auto simp: marked_from_def\<close>)
  with x(1) show ?thesis by blast
qed

lemma harmless_observeChildRun:
  assumes env: "env_ok env" and P: "stable env P" and a: "\<And>f. good env f \<Longrightarrow> P f \<Longrightarrow> agent_seen w n f"
  shows "harmless env P (observeChildRun env n now)"
  unfolding observeChildRun_def
proof (intro ends_case_option ends_give TrueI)
  fix c assume c: "n_childRunId n = Some c"
  let ?R = "\<lambda>r f. \<forall>run. r = Some run \<longrightarrow> r_id run = c \<and> (isTerminalRunState (r_status run) \<longrightarrow> run_ended run f)"
  let ?body = "\<lambda>run. if r_status run = Run_SUCCEEDED
      then act_then (reading (\<lambda>f. succeeded_output (run_store_of f) (r_id run))) (\<lambda>output.
        if n_status n \<noteq> NR_SUCCEEDED
        then act_then (storeMarked env n (WorkflowNodeRun_markSucceeded n now output None)) (\<lambda>u. give ())
        else give ())
      else if r_status run \<in> {Run_FAILED, Run_TIMED_OUT, Run_CANCELLED}
      then (if n_status n \<noteq> NR_FAILED
        then act_then (storeMarked env n (WorkflowNodeRun_markFailed n now
            (childRunFailedError (Some (r_id run)) (run_state_name (r_status run))))) (\<lambda>u. give ())
        else give ())
      else give ()"
  have body: "harmless env (\<lambda>f. P f \<and> run_ended run f) (?body run)"
    if "isTerminalRunState (r_status run)" "r_id run = c" for run
  proof -
    let ?P = "\<lambda>f. P f \<and> run_ended run f"
    have st: "stable env ?P" by (intro stable_facts P)
    have child: "n_childRunId n = Some (r_id run)" using c that by simp
    show ?thesis
    proof (intro ends_if ends_give TrueI ends_reading_then [where R = "succeeded_with run", OF st], goal_cases)
      case (1 f)
      then show ?case using succeeded_output_found [of env f run] by blast
    next
      case (2 v)
      have sv: "stable env (\<lambda>f. ?P f \<and> succeeded_with run v f)" by (intro stable_facts P)
      show ?case
      proof (rule harmless_then [OF harmless_from [OF ends_storeMarked [OF env sv]] _ sv], goal_cases)
        case (1 m)
        then show ?case using markSucceeded_from by blast
      next
        case (2 f m)
        then have "v \<noteq> JUndefined" by (auto simp: succeeded_with_def or_null_def split: if_split_asm)
        with markSucceeded_from [OF 2(3)] have "marked_from n m" "n_status m = NR_SUCCEEDED" "stored_as v (column_json (n_output m))"
          by simp_all
        with 2 show ?case
          using agent_justified [OF 2(1) _ child, of w m v] a [of f] \<open>r_status run = Run_SUCCEEDED\<close> by simp
      qed (auto intro: ends_give)
    next
      case 3
      show ?case
      proof (rule harmless_then [OF harmless_from [OF ends_storeMarked [OF env st]] _ st], goal_cases)
        case (1 m)
        then show ?case using marks_from(3) by blast
      next
        case (2 f m)
        with 3 marks_from(3) [OF 2(3)] show ?case
          using agent_justified [OF 2(1) _ child, of w m] a [of f] by simp
      qed (auto intro: ends_give)
    qed
  qed
  show "harmless env P (act_then (reading (\<lambda>f. findRunById (run_store_of f) c)) (\<lambda>found.
      case found of None \<Rightarrow> give () | Some run \<Rightarrow> ?body run))"
  proof (rule ends_reading_then [where R = ?R, OF P])
    fix f assume "good env f"
    then show "?R (findRunById (run_store_of f) c) f" using run_by_id by (fastforce simp: run_ended_def)
  next
    fix found
    show "harmless env (\<lambda>f. P f \<and> ?R found f) (case found of None \<Rightarrow> give () | Some run \<Rightarrow> ?body run)"
    proof (intro ends_case_option ends_give TrueI)
      fix run assume found: "found = Some run"
      show "harmless env (\<lambda>f. P f \<and> ?R found f) (?body run)"
      proof (cases "isTerminalRunState (r_status run) \<and> r_id run = c")
        case True
        then show ?thesis by (intro ends_pre [OF body [of run]]) (simp_all add: found)
      next
        case False
        then consider "\<not> isTerminalRunState (r_status run)" | "r_id run \<noteq> c" by blast
        then show ?thesis
        proof cases
          case 1
          then have b: "?body run = give ()" by (auto simp: isTerminalRunState_def TERMINAL_RUN_STATES_def)
          show ?thesis unfolding option.case b by (rule ends_give) simp
        next
          case 2
          then show ?thesis by (simp add: ends_def found)
        qed
      qed
    qed
  qed
qed

subsection \<open>The node as a whole\<close>

lemma harmless_ensureChildRun:
  assumes env: "env_ok env" and P: "stable env P"
    and a: "\<And>f. good env f \<Longrightarrow> P f \<Longrightarrow> agent_seen w n f \<and> node_seen n f"
    and nt: "\<not> isTerminalWorkflowNodeRunState (n_status n)"
  shows "safe env P (ensureChildRun env w version n now) (agent_seen w)"
proof -
  let ?k = "child_key w n"
  have id: "safe env P m Q" if "\<not> uses_proto (n_input n) \<Longrightarrow> safe env P m Q" for m :: "('a, 'b) act" and Q
    using that enabled_input a unfolding ends_def by (metis agent_seen_def)
  show ?thesis
    unfolding ensureChildRun_def Let_def
  proof (intro ends_lift_then TrueI)
    fix v
    show "safe env P (act_then (findChildRun w n (workflowNodeRunIdempotencyKey (w_id w) (n_workflowNodeKey n))) (\<lambda>found.
        act_then (case found of
            None \<Rightarrow> createChildRun w n v (workflowNodeRunIdempotencyKey (w_id w) (n_workflowNodeKey n)) now
          | Some run \<Rightarrow> give (run, False)) (\<lambda>(run, enqueuedByCreateRun).
        act_then (attachChildRun env n run now) (\<lambda>n'.
        act_then (startNode env n' now) (\<lambda>n''.
          if enqueuedByCreateRun \<or> isTerminalRunState (r_status run) \<or> r_status run = Run_RUNNING then give n''
          else act_then (redeliverChildRun run now) (\<lambda>u. give n'')))))) (agent_seen w)"
    proof (rule id, rule ends_then [OF ends_findChildRun [OF env P] _ P], goal_cases)
      case (2 found)
      have st: "stable env (\<lambda>f. P f \<and> child_option ?k found f)" by (intro stable_facts P)
      show ?case
      proof (rule ends_then [where R = "pair_seen ?k", OF _ _ st], goal_cases)
        case 1
        show ?case
          by (intro ends_case_option ends_give ends_pre [OF ends_createChildRun [OF env P 2(1)]])
            (simp_all add: child_option_def pair_seen_def)
      next
        case (2 x)
        obtain run q where x: "x = (run, q)" by fastforce
        let ?P = "\<lambda>f. P f \<and> key_seen ?k (r_id run) f"
        have s1: "stable env ?P" by (intro stable_facts P)
        show ?case
          unfolding x prod.case
        proof (rule ends_pre [where P = ?P], rule ends_then [OF ends_attachChildRun [where w = w, OF env s1 _ nt] _ s1], goal_cases)
          case (2 n')
          let ?P' = "\<lambda>f. ?P f \<and> agent_seen w n' f \<and> n_childRunId n' \<noteq> None"
          have s2: "stable env ?P'" by (intro stable_facts P)
          show ?case
          proof (cases "n_childRunId n' = None")
            case False
            show ?thesis
            proof (rule ends_then [OF ends_startNode [where w = w, OF env s2 _ False] _ s2], goal_cases)
              case (2 n'')
              have s3: "stable env (\<lambda>f. ?P' f \<and> agent_seen w n'' f)" by (intro stable_facts P)
              show ?case
                by (intro ends_if ends_give ends_then [where R = "\<lambda>x f. True", OF harmless_redeliver [OF env s3] _ s3]) simp_all
            qed simp
          qed (simp add: ends_def)
        qed (use a in \<open>auto simp: pair_seen_def\<close>)
      qed
    qed (use a in auto)
  qed
qed

lemma harmless_processAgentNode:
  assumes env: "env_ok env" and P: "stable env P"
    and n: "\<And>f. good env f \<Longrightarrow> P f \<Longrightarrow> node_seen n f \<and> enabled_seen n (of_type ''AGENT'') f"
    and nt: "\<not> isTerminalWorkflowNodeRunState (n_status n)"
  shows "harmless env P (processAgentNode env version n now)"
  unfolding processAgentNode_def reloadWorkflowRun_def
proof (rule ends_reading_then [where R = "\<lambda>r f. \<forall>w. r = Some w \<longrightarrow> w_id w = n_workflowRunId n \<and> run_seen w f", OF P],
    goal_cases)
  case (1 f)
  then show ?case using run_found_seen by blast
next
  case (2 found)
  show ?case
  proof (intro ends_case_option ends_give TrueI)
    fix w assume found: "found = Some w"
    let ?P = "\<lambda>f. P f \<and> w_id w = n_workflowRunId n \<and> run_seen w f"
    have st: "stable env ?P" by (intro stable_facts P)
    have seen: "agent_seen w n f \<and> node_seen n f" if "good env f" "?P f" for f
      using n [OF that(1)] that(2) unfolding agent_seen_def
      by (metis node_run_of.surjective node_run_of.update_convs(7))
    have "harmless env ?P (act_then (ensureChildRun env w version n now) (\<lambda>n'. observeChildRun env n' now))"
    proof (rule ends_then [OF harmless_ensureChildRun [OF env st seen nt] _ st])
      fix n'
      have s: "stable env (\<lambda>f. ?P f \<and> agent_seen w n' f)" by (intro stable_facts P)
      show "harmless env (\<lambda>f. ?P f \<and> agent_seen w n' f) (observeChildRun env n' now)"
        by (rule harmless_observeChildRun [where w = w, OF env s]) simp
    qed
    then show "harmless env (\<lambda>f. P f \<and> (\<forall>w. found = Some w \<longrightarrow> w_id w = n_workflowRunId n \<and> run_seen w f))
        (act_then (ensureChildRun env w version n now) (\<lambda>n'. observeChildRun env n' now))"
      by (rule ends_pre) (simp add: found)
  qed
qed

end
