(* ===== verification/Workflow_Safety.thy ===== *)
theory Workflow_Safety
  imports Workflow_Agents
begin

text \<open>
  A whole reconciliation is safe: whatever the other processes do between its accesses, it keeps
  \<open>flow_ok\<close> and changes the stores only as \<open>flow_kept\<close> allows.
\<close>

subsection \<open>Waits and approval requests\<close>

lemma saved_wait_ok:
  assumes f: "good env f" and s: "no_result (saveWorkflowWait t) (fl_waits f) = Inr (x, s)"
  shows "good env (f\<lparr> fl_waits := s \<rparr>) \<and> flow_kept f (f\<lparr> fl_waits := s \<rparr>)"
proof -
  have "entries_kept wait_kept (fl_waits f) s"
    using s by (auto simp: saveWorkflowWait_def wait_kept_def split: if_splits intro!: entries_kept_update)
  then have k: "flow_kept f (f\<lparr> fl_waits := s \<rparr>)"
    by (simp add: flow_kept_def entries_kept_refl approval_kept_def)
  have "flow_ok (re_sha256 env) (f\<lparr> fl_waits := s \<rparr>)"
    by (rule flow_okI [OF k good_ok [OF f]])
      (use good_keyed [OF f] good_ok [OF f] in \<open>simp_all add: flow_keyed_def flow_ok_def\<close>)
  with f k show ?thesis by (simp add: good_def free_id_def)
qed

lemma saved_approval_ok:
  assumes f: "good env f" and s: "no_result (saveApprovalRequest r) (fl_approvals f) = Inr (x, s)"
  shows "good env (f\<lparr> fl_approvals := s \<rparr>) \<and> flow_kept f (f\<lparr> fl_approvals := s \<rparr>)"
proof -
  from s have new: "map_of (fl_approvals f) (ap_id r) = None" and s': "s = AList.update (ap_id r) r (fl_approvals f)"
    by (auto simp: saveApprovalRequest_def split: if_splits)
  have "entries_kept approval_kept (fl_approvals f) s"
    unfolding s' using new by (intro entries_kept_update) (auto simp: approval_kept_def)
  then have k: "flow_kept f (f\<lparr> fl_approvals := s \<rparr>)"
    by (simp add: flow_kept_def entries_kept_refl wait_kept_def)
  have kd: "flow_keyed (f\<lparr> fl_approvals := s \<rparr>)"
    using good_keyed [OF f] by (auto simp: flow_keyed_def s' distinct_keys_update)
  have "flow_ok (re_sha256 env) (f\<lparr> fl_approvals := s \<rparr>)"
    by (rule flow_okI [OF k good_ok [OF f] kd]) (use good_ok [OF f] in \<open>simp_all add: flow_ok_def\<close>)
  with f k show ?thesis by (simp add: good_def free_id_def)
qed

subsection \<open>The workflow run\<close>

definition outcome_due :: "workflow_run \<Rightarrow> workflow_run \<Rightarrow> 'w flow \<Rightarrow> bool" where
  "outcome_due w m f \<longleftrightarrow> (\<forall>row. w_id row = w_id w \<longrightarrow> w_workflowVersionId row = w_workflowVersionId w \<longrightarrow>
     w_status row = w_status m \<longrightarrow> w_output row = column_json (w_output m) \<longrightarrow> wrun_ok f row)"

lemma stable_outcome_due [stable_facts]: "stable env (outcome_due w m)"
  by (rule stableI) (simp add: outcome_due_def wrun_ok_kept [OF _ good_keyed good_keyed])

lemma legal_run_move:
  assumes "assertLegalWorkflowRunTransition s t = None"
  shows "\<not> isTerminalWorkflowRunState s"
proof -
  from assms have "(s, t) \<in> set LEGAL_WORKFLOW_RUN_TRANSITIONS"
    by (auto simp: assertLegalWorkflowRunTransition_def isLegalWorkflowRunTransition_def
        workflow_run_lc.legal_by_key_iff split: if_splits)
  then show ?thesis
    by (auto simp: LEGAL_WORKFLOW_RUN_TRANSITIONS_def isTerminalWorkflowRunState_def TERMINAL_WORKFLOW_RUN_STATES_def)
qed

definition run_again :: "workflow_run \<Rightarrow> workflow_run_state \<Rightarrow> workflow_run option \<Rightarrow> 'w flow \<Rightarrow> bool" where
  "run_again w st r f \<longleftrightarrow> (\<forall>v. r = Some v \<longrightarrow> run_seen v f \<and> w_id v = w_id w
     \<and> w_workflowVersionId v = w_workflowVersionId w \<and> w_status v = st)"

lemma stable_run_again [stable_facts]: "stable env (run_again w st r)"
  unfolding stable_def run_again_def using stable_run_seen [of env] unfolding stable_def by blast

lemma moved_run_ok:
  assumes f: "good env f" and w: "run_seen w f" "outcome_due w m f" "w_id m = w_id w"
    and s: "postgres_transitionWorkflowRun (w_status w) m (fl_store f) = Inr (row, s)"
  shows "grants env f (f\<lparr> fl_store := s \<rparr>)
    \<and> run_again w (w_status m) (Some row) (f\<lparr> fl_store := s \<rparr>)"
proof -
  from w(1) obtain cur where cur: "findWorkflowRunById (fl_store f) (w_id w) = Some cur" "wrun_kept w cur"
    by (auto simp: run_seen_def)
  from s cur(1) have legal: "assertLegalWorkflowRunTransition (w_status w) (w_status m) = None"
    and st: "w_status cur = w_status w"
    and row: "row = cur\<lparr> w_status := w_status m, w_output := column_json (w_output m), w_error := w_error m,
        w_startedAt := w_startedAt m, w_completedAt := w_completedAt m, w_updatedAt := w_updatedAt m \<rparr>"
    and s': "s = (fl_store f)\<lparr> ws_runs := AList.update (w_id w) row (ws_runs (fl_store f)) \<rparr>"
    by (auto simp: postgres_transitionWorkflowRun_def after_check_Inr findWorkflowRunById_def w(3) Let_def
        split: option.splits if_splits)
  let ?g = "f\<lparr> fl_store := s \<rparr>"
  have id: "w_id row = w_id w" "w_workflowVersionId row = w_workflowVersionId w"
    using cur(2) by (simp_all add: row wrun_kept_def)
  have "wrun_kept cur row"
    using legal_run_move [OF legal] st by (simp add: wrun_kept_def row)
  then have "entries_kept wrun_kept (ws_runs (fl_store f)) (ws_runs s)"
    unfolding s' using cur(1) by (auto simp: findWorkflowRunById_def intro: entries_kept_update)
  then have k: "flow_kept f ?g"
    by (simp add: flow_kept_def entries_kept_refl wait_kept_def approval_kept_def s')
  have find: "findWorkflowRunById s i = (if i = w_id w then Some row else findWorkflowRunById (fl_store f) i)"
    "findWorkflowNodeRunById s i = findWorkflowNodeRunById (fl_store f) i" for i
    by (simp_all add: s' findWorkflowRunById_def findWorkflowNodeRunById_def)
  have kd: "flow_keyed ?g"
    using good_keyed [OF f] id by (auto simp: flow_keyed_def find nodes_ok_def) (simp_all add: s' distinct_keys_update)
  have due: "outcome_due w m ?g"
    using w(2) wrun_ok_kept [OF k good_keyed [OF f] kd] by (simp add: outcome_due_def)
  have "flow_ok (re_sha256 env) ?g"
  proof (rule flow_okI [OF k good_ok [OF f] kd])
    fix i v assume "findWorkflowRunById (fl_store ?g) i = Some v" "findWorkflowRunById (fl_store f) i \<noteq> Some v"
    then have "v = row" by (simp add: find split: if_splits)
    with due id show "wrun_ok ?g v" by (simp add: outcome_due_def row)
  qed (use good_ok [OF f] in \<open>simp_all add: flow_ok_def find\<close>)
  with f k show ?thesis
    by (simp add: grants_def good_def free_id_def find run_again_def run_seen_def id) (simp add: row)
qed

lemma ends_tryTransition:
  assumes env: "env_ok env" and P: "stable env P"
    and m: "\<And>m. marked = Inr m \<Longrightarrow> w_id m = w_id w \<and> w_status m = st"
    and w: "\<And>f m. good env f \<Longrightarrow> P f \<Longrightarrow> marked = Inr m \<Longrightarrow> run_seen w f \<and> outcome_due w m f"
    and e: "e = w_status w"
  shows "safe env P (tryTransition env e marked) (run_again w st)"
  unfolding tryTransition_def
proof (intro ends_lift_then TrueI)
  fix m' assume m': "marked = Inr m'"
  have port: "re_transitionWorkflowRun env = postgres_transitionWorkflowRun"
    using env by (simp add: env_ok_def)
  have store: "safe env P (on_store (re_transitionWorkflowRun env e m')) (\<lambda>v f. run_again w st (Some v) f)"
    by (rule ends_on_store [OF waits_stable [OF P]])
      (use moved_run_ok [of env _ w m'] w [OF _ _ m'] m [OF m'] in \<open>auto simp: port e\<close>)
  show "safe env P (act_catch (act_then (on_store (re_transitionWorkflowRun env e m')) (\<lambda>w. give (Some w)))
      (\<lambda>e. if is_LifecycleConflictError e then give None else lift_act (Inl e))) (run_again w st)"
    by (rule ends_catch [OF ends_then [OF store _ P] _ P])
      (auto intro!: ends_give ends_throw ends_if simp: run_again_def)
qed

subsection \<open>Reading the workflow run and its node runs\<close>

lemma reloaded_seen:
  assumes "good env f" "graph_seen w g f" "findWorkflowRunById (fl_store f) (w_id w) = Some v"
  shows "w_id v = w_id w \<and> graph_seen v g f"
  using assms run_found_seen [OF assms(1,3)]
  by (auto simp: graph_seen_def run_seen_def wrun_kept_def version_graph_def)

lemma again_graph: "run_again w st (Some v) f \<Longrightarrow> graph_seen w g f \<Longrightarrow> graph_seen v g f"
  by (auto simp: run_again_def graph_seen_def version_graph_def)

text \<open>An assertion about the run that was reloaded, if it was.\<close>

definition reloaded :: "workflow_run \<Rightarrow> workflow_graph \<Rightarrow> workflow_run option \<Rightarrow> 'w flow \<Rightarrow> bool" where
  "reloaded w g r f \<longleftrightarrow> (case r of None \<Rightarrow> True | Some v \<Rightarrow> w_id v = w_id w \<and> graph_seen v g f)"

lemma reloaded_simps [simp]: "reloaded w g None f" "reloaded w g (Some v) f \<longleftrightarrow> w_id v = w_id w \<and> graph_seen v g f"
  by (simp_all add: reloaded_def)

lemma stable_reloaded [stable_facts]: "stable env (reloaded w g r)"
  by (cases r) (simp_all add: reloaded_def [abs_def] stable_facts)

definition active_run :: "workflow_run option \<Rightarrow> bool" where
  "active_run r \<longleftrightarrow> (case r of None \<Rightarrow> True | Some v \<Rightarrow> \<not> isTerminalWorkflowRunState (w_status v))"

lemma active_run_simps [simp]:
  "active_run None" "active_run (Some v) \<longleftrightarrow> \<not> isTerminalWorkflowRunState (w_status v)"
  by (simp_all add: active_run_def)

lemma ends_active_then:
  assumes env: "env_ok env" and P: "stable env P" and g: "\<And>f. good env f \<Longrightarrow> P f \<Longrightarrow> graph_seen w g f"
    and k: "\<And>r. active_run r \<Longrightarrow> ends env (\<lambda>f. P f \<and> reloaded w g r f) (k r) Q E"
  shows "ends env P (act_then (reloadActive (w_id w)) k) Q E"
proof -
  have "ends env P (reloadActive (w_id w)) (\<lambda>r f. active_run r \<and> reloaded w g r f) E"
    unfolding reloadActive_def reloadWorkflowRun_def
  proof (rule ends_reading_then [where R = "reloaded w g", OF P])
    fix f assume f: "good env f" "P f"
    show "reloaded w g (findWorkflowRunById (fl_store f) (w_id w)) f"
      using reloaded_seen [OF f(1) g [OF f]] by (cases "findWorkflowRunById (fl_store f) (w_id w)") simp_all
  next
    fix r
    show "ends env (\<lambda>f. P f \<and> reloaded w g r f) (case r of None \<Rightarrow> give None
        | Some w \<Rightarrow> give (if isTerminalWorkflowRunState (w_status w) then None else Some w))
        (\<lambda>r f. active_run r \<and> reloaded w g r f) E"
      by (cases r) (simp_all add: ends_give)
  qed
  then show ?thesis
  proof (rule ends_then [OF _ _ P])
    fix r
    show "ends env (\<lambda>f. P f \<and> active_run r \<and> reloaded w g r f) (k r) Q E"
    proof (cases "active_run r")
      case True
      show ?thesis by (rule ends_pre [OF k [OF True]]) simp
    qed (simp add: ends_def)
  qed
qed

lemma harmless_active_then:
  assumes env: "env_ok env" and P: "stable env P" and g: "\<And>f. good env f \<Longrightarrow> P f \<Longrightarrow> graph_seen w g f"
    and k: "\<And>v. w_id v = w_id w \<Longrightarrow> \<not> isTerminalWorkflowRunState (w_status v) \<Longrightarrow>
      harmless env (\<lambda>f. P f \<and> graph_seen v g f) (k v)"
  shows "harmless env P (act_then (reloadActive (w_id w)) (\<lambda>active. case active of None \<Rightarrow> give () | Some v \<Rightarrow> k v))"
proof (rule ends_active_then [OF env P g])
  fix r assume r: "active_run r"
  show "harmless env (\<lambda>f. P f \<and> reloaded w g r f) (case r of None \<Rightarrow> give () | Some v \<Rightarrow> k v)"
  proof (cases r)
    case (Some v)
    show ?thesis
    proof (cases "w_id v = w_id w")
      case True
      then have "harmless env (\<lambda>f. P f \<and> graph_seen v g f) (k v)" using k r Some by simp
      then show ?thesis unfolding Some by (simp add: True)
    qed (simp add: Some ends_def)
  qed (simp add: ends_give)
qed

lemma harmless_still_active_then:
  assumes env: "env_ok env" and P: "stable env P" and g: "\<And>f. good env f \<Longrightarrow> P f \<Longrightarrow> graph_seen w g f"
    and k: "harmless env P k"
  shows "harmless env P (act_then (reloadActive (w_id w)) (\<lambda>active. if active = None then give () else k))"
proof (rule ends_active_then [OF env P g])
  fix r :: "workflow_run option"
  show "harmless env (\<lambda>f. P f \<and> reloaded w g r f) (if r = None then give () else k)"
    by (rule ends_if, rule ends_give, rule TrueI, rule ends_pre [OF k], simp)
qed

definition exactly :: "wf_node \<Rightarrow> wf_node \<Rightarrow> bool" where
  "exactly node nd \<longleftrightarrow> nd = node"

lemma enabled_of: "enabled_seen n (exactly node) f \<Longrightarrow> T node \<Longrightarrow> enabled_seen n T f"
  by (auto simp: enabled_seen_def node_context_def exactly_def)

definition listed_seen :: "workflow_run \<Rightarrow> workflow_graph \<Rightarrow> workflow_node_run list \<Rightarrow> 'w flow \<Rightarrow> bool" where
  "listed_seen w g ns f \<longleftrightarrow> view_seen w (nodeRunsByKey ns) f \<and> (\<forall>n\<in>set ns. node_seen n f \<and> n_workflowRunId n = w_id w
     \<and> (n_status n \<noteq> NR_SKIPPED \<longrightarrow> (\<forall>node. map_of (g_nodesByKey g) (n_workflowNodeKey n) = Some node \<longrightarrow>
          enabled_seen n (exactly node) f)))"

lemma stable_all [stable_facts]: "(\<And>x. stable env (P x)) \<Longrightarrow> stable env (\<lambda>f. \<forall>x. P x f)"
  unfolding stable_def by blast

lemma stable_ball [stable_facts]: "(\<And>x. stable env (P x)) \<Longrightarrow> stable env (\<lambda>f. \<forall>x\<in>A. P x f)"
  unfolding stable_def by blast

lemma stable_listed_seen [stable_facts]: "stable env (listed_seen w g ns)"
  unfolding listed_seen_def [abs_def] by (intro stable_facts)

lemma ends_list_then:
  assumes env: "env_ok env" and P: "stable env P" and g: "\<And>f. good env f \<Longrightarrow> P f \<Longrightarrow> graph_seen w g f"
    and k: "\<And>ns. ends env (\<lambda>f. P f \<and> listed_seen w g ns f) (k ns) Q E"
  shows "ends env P (act_then (listNodes (w_id w)) k) Q E"
  unfolding listNodes_def
proof (rule ends_reading_then [OF P _ k])
  fix f assume f: "good env f" "P f"
  have ok: "nodes_ok (fl_store f)" using good_keyed [OF f(1)] by (simp add: flow_keyed_def)
  show "listed_seen w g (listWorkflowNodeRuns (fl_store f) (w_id w)) f"
    unfolding listed_seen_def
  proof (intro conjI ballI impI allI)
    show "view_seen w (nodeRunsByKey (listWorkflowNodeRuns (fl_store f) (w_id w))) f"
      by (simp add: view_seen_def nodes_of_def)
  next
    fix n assume "n \<in> set (listWorkflowNodeRuns (fl_store f) (w_id w))"
    then have n: "findWorkflowNodeRunById (fl_store f) (n_id n) = Some n" "n_workflowRunId n = w_id w"
      by (simp_all add: set_listWorkflowNodeRuns [OF ok])
    show "n_workflowRunId n = w_id w" by (rule n(2))
    show "node_seen n f" using node_found_seen [OF f(1) n(1)] by simp
    fix node assume "n_status n \<noteq> NR_SKIPPED" "map_of (g_nodesByKey g) (n_workflowNodeKey n) = Some node"
    then show "enabled_seen n (exactly node) f"
      by (intro Workflow_Agents.listed_seen [OF f(1) g [OF f] n]) (simp_all add: exactly_def)
  qed
qed

subsection \<open>The end of a pass\<close>

definition terminal_succeeded :: "workflow_run \<Rightarrow> workflow_graph \<Rightarrow> jsv \<Rightarrow> 'w flow \<Rightarrow> bool" where
  "terminal_succeeded w g v f \<longleftrightarrow> graph_seen w g f \<and> (\<exists>n. map_of (nodes_of (fl_store f) (w_id w)) (g_terminalKey g) = Some n
     \<and> n_status n = NR_SUCCEEDED \<and> or_null (n_output n) = v)"

definition failure_seen :: "workflow_run \<Rightarrow> workflow_graph \<Rightarrow> 'w flow \<Rightarrow> bool" where
  "failure_seen w g f \<longleftrightarrow> graph_seen w g f \<and> (\<exists>k n. map_of (nodes_of (fl_store f) (w_id w)) k = Some n
     \<and> (n_status n = NR_FAILED \<or> k = g_terminalKey g \<and> n_status n = NR_SKIPPED))"

lemma decided_node_kept:
  assumes "good env f" "good env f'" "flow_kept f f'" "map_of (nodes_of (fl_store f) i) k = Some n"
    "isTerminalWorkflowNodeRunState (n_status n)"
  shows "\<exists>m. map_of (nodes_of (fl_store f') i) k = Some m \<and> n_status m = n_status n \<and> n_output m = n_output n"
  using runs_keptD [OF flow_views_kept [OF good_keyed [OF assms(1)] good_keyed [OF assms(2)] assms(3)] assms(4)] assms(5)
  by (auto simp: node_kept_def)

lemma stable_terminal_succeeded [stable_facts]: "stable env (terminal_succeeded w g v)"
proof (rule stableI)
  fix f f' :: "'a flow" assume k: "good env f" "good env f'" "flow_kept f f'" and t: "terminal_succeeded w g v f"
  then obtain n where n: "map_of (nodes_of (fl_store f) (w_id w)) (g_terminalKey g) = Some n"
    "n_status n = NR_SUCCEEDED" "or_null (n_output n) = v" by (auto simp: terminal_succeeded_def)
  with decided_node_kept [OF k n(1)] stableD [OF stable_graph_seen k] t show "terminal_succeeded w g v f'"
    by (auto simp: terminal_succeeded_def node_status_simps)
qed

lemma stable_failure_seen [stable_facts]: "stable env (failure_seen w g)"
proof (rule stableI)
  fix f f' :: "'a flow" assume k: "good env f" "good env f'" "flow_kept f f'" and t: "failure_seen w g f"
  then obtain key n where n: "map_of (nodes_of (fl_store f) (w_id w)) key = Some n"
    "n_status n = NR_FAILED \<or> key = g_terminalKey g \<and> n_status n = NR_SKIPPED" by (auto simp: failure_seen_def)
  then have "isTerminalWorkflowNodeRunState (n_status n)" by (auto simp: node_status_simps)
  from decided_node_kept [OF k n(1) this] n(2) stableD [OF stable_graph_seen k] t show "failure_seen w g f'"
    unfolding failure_seen_def by metis
qed

lemma WorkflowRun_instantiate_Inr:
  assumes "WorkflowRun_instantiate p = Inr w"
  shows "w_id w = w_id p \<and> workflow_run_state_name (w_status w) = w_status p
    \<and> (\<exists>field. copyOptJson (w_output p) field = Inr (w_output w))"
  using assms by (auto simp: WorkflowRun_instantiate_def result_simps
      dest: workflow_run_lc.state_of_string_Some split: if_splits option.splits)

lemma WorkflowRun_transitionTo_Inr:
  assumes "WorkflowRun_transitionTo w t opts = Inr m"
  shows "w_id m = w_id w \<and> w_status m = t
    \<and> (wo_output opts \<noteq> JUndefined \<longrightarrow> (\<exists>field. copyOptJson (wo_output opts) field = Inr (w_output m)))"
proof -
  from assms obtain p where p: "WorkflowRun_instantiate p = Inr m" "w_id p = w_id w"
    "w_status p = workflow_run_state_name t" "w_output p = (if wo_output opts \<noteq> JUndefined then wo_output opts else w_output w)"
    by (auto simp: WorkflowRun_transitionTo_def after_check_Inr WorkflowRun_props_def)
  from WorkflowRun_instantiate_Inr [OF p(1)] p(2-) show ?thesis
    using workflow_run_lc.name_inj by (auto simp del: workflow_run_state_name.simps)
qed

lemma wrun_marks:
  "WorkflowRun_markRunning w now = Inr m \<Longrightarrow> w_id m = w_id w \<and> w_status m = WR_RUNNING"
  "WorkflowRun_markWaiting w now = Inr m \<Longrightarrow> w_id m = w_id w \<and> w_status m = WR_WAITING"
  "WorkflowRun_markFailed w now err = Inr m \<Longrightarrow> w_id m = w_id w \<and> w_status m = WR_FAILED"
  "WorkflowRun_markSucceeded w now v = Inr m \<Longrightarrow> w_id m = w_id w \<and> w_status m = WR_SUCCEEDED
     \<and> (v \<noteq> JUndefined \<longrightarrow> stored_as v (column_json (w_output m)))"
  unfolding WorkflowRun_marks by (drule WorkflowRun_transitionTo_Inr, force simp: stored_as_def)+


lemma outcome_open: "w_status m \<noteq> WR_SUCCEEDED \<Longrightarrow> w_status m \<noteq> WR_FAILED \<Longrightarrow> outcome_due w m f"
  by (simp add: outcome_due_def wrun_ok_def)

lemma same_version: "w_workflowVersionId v = w_workflowVersionId w \<Longrightarrow> version_graph c v = version_graph c w"
  by (simp add: version_graph_def)

lemma outcome_failed:
  assumes f: "failure_seen w g f" and v: "w_id v = w_id w" "w_workflowVersionId v = w_workflowVersionId w"
    and m: "w_status m = WR_FAILED"
  shows "outcome_due v m f"
  unfolding outcome_due_def
proof (intro allI impI)
  fix row :: workflow_run assume r: "w_id row = w_id v" "w_workflowVersionId row = w_workflowVersionId v" "w_status row = w_status m"
  have "version_graph (fl_catalog f) row = version_graph (fl_catalog f) w" by (rule same_version) (simp add: r v)
  with f have "version_graph (fl_catalog f) row = Some g" by (simp add: failure_seen_def graph_seen_def)
  moreover from f obtain k n where "map_of (nodes_of (fl_store f) (w_id row)) k = Some n"
    "n_status n = NR_FAILED \<or> k = g_terminalKey g \<and> n_status n = NR_SKIPPED"
    by (auto simp: failure_seen_def r v)
  ultimately show "wrun_ok f row" unfolding wrun_ok_def using r(3) m by auto
qed

lemma outcome_succeeded:
  assumes f: "terminal_succeeded w g x f" and v: "w_id v = w_id w" "w_workflowVersionId v = w_workflowVersionId w"
    and m: "w_status m = WR_SUCCEEDED" "stored_as x (column_json (w_output m))"
  shows "outcome_due v m f"
  unfolding outcome_due_def
proof (intro allI impI)
  fix row :: workflow_run assume r: "w_id row = w_id v" "w_workflowVersionId row = w_workflowVersionId v" "w_status row = w_status m"
    "w_output row = column_json (w_output m)"
  have "version_graph (fl_catalog f) row = version_graph (fl_catalog f) w" by (rule same_version) (simp add: r v)
  with f have "version_graph (fl_catalog f) row = Some g" by (simp add: terminal_succeeded_def graph_seen_def)
  moreover from f obtain n where "map_of (nodes_of (fl_store f) (w_id row)) (g_terminalKey g) = Some n"
    "n_status n = NR_SUCCEEDED" "or_null (n_output n) = x" by (auto simp: terminal_succeeded_def r v)
  ultimately show "wrun_ok f row" unfolding wrun_ok_def using r(3,4) m by auto
qed

lemma graph_version:
  "graph_seen w g f \<Longrightarrow> graph_seen v g f \<Longrightarrow> w_id v = w_id w \<Longrightarrow> w_workflowVersionId v = w_workflowVersionId w"
  by (auto simp: graph_seen_def run_seen_def wrun_kept_def)

lemma harmless_failWorkflow:
  assumes env: "env_ok env" and P: "stable env P" and w: "\<And>f. good env f \<Longrightarrow> P f \<Longrightarrow> failure_seen w g f"
  shows "harmless env P (failWorkflow env w err now)"
  unfolding failWorkflow_def
proof (rule harmless_active_then [OF env P])
  fix f assume "good env f" "P f"
  with w show "graph_seen w g f" by (simp add: failure_seen_def)
next
  fix v :: workflow_run assume v: "w_id v = w_id w"
  let ?P = "\<lambda>f. P f \<and> graph_seen v g f"
  have st: "stable env ?P" by (intro stable_facts P)
  have moving: "harmless env ?P (act_then (tryTransition env (w_status v) (WorkflowRun_markFailed v now err)) (\<lambda>u. give ()))"
  proof (rule harmless_then [OF harmless_from [OF ends_tryTransition [where st = WR_FAILED, OF env st]] _ st])
    fix m assume "WorkflowRun_markFailed v now err = Inr m"
    then show "w_id m = w_id v \<and> w_status m = WR_FAILED" by (rule wrun_marks)
  next
    fix f m assume f: "good env f" "?P f" and m: "WorkflowRun_markFailed v now err = Inr m"
    have "failure_seen w g f" using w f by blast
    moreover have "w_workflowVersionId v = w_workflowVersionId w"
      using graph_version [of w g f v] f v calculation by (simp add: failure_seen_def)
    ultimately show "run_seen v f \<and> outcome_due v m f"
      using outcome_failed [of w g f v m] v wrun_marks(3) [OF m] f by (simp add: graph_seen_def)
  qed (auto intro: ends_give)
  show "harmless env ?P (if w_status v = WR_PENDING
      then act_then (tryTransition env WR_PENDING (WorkflowRun_markFailed v now err)) (\<lambda>u. give ())
      else if w_status v \<noteq> WR_RUNNING \<and> w_status v \<noteq> WR_WAITING then give ()
      else act_then (tryTransition env (w_status v) (WorkflowRun_markFailed v now err)) (\<lambda>u. give ()))"
    using moving by (auto intro: ends_give)
qed

lemma harmless_deriveActive:
  assumes env: "env_ok env" and P: "stable env P" and w: "\<And>f. good env f \<Longrightarrow> P f \<Longrightarrow> graph_seen w g f"
  shows "harmless env P (deriveActiveWorkflowStatus env g' w runs now)"
  unfolding deriveActiveWorkflowStatus_def Let_def
proof (rule harmless_active_then [OF env P w])
  fix v :: workflow_run
  let ?P = "\<lambda>f. P f \<and> graph_seen v g f"
  have st: "stable env ?P" by (intro stable_facts P)
  have moving: "harmless env ?P (tryTransition env (w_status v) m)"
    if "\<And>x. m = Inr x \<Longrightarrow> w_id x = w_id v \<and> w_status x = t" "t = WR_RUNNING \<or> t = WR_WAITING" for m t
    by (rule harmless_from [OF ends_tryTransition [where st = t, OF env st]])
      (use that in \<open>auto simp: graph_seen_def intro!: outcome_open\<close>)
  show "harmless env ?P (if w_status v = (if isWorkflowBlockedOnSuspension g' runs then WR_WAITING else WR_RUNNING) then give ()
      else act_then (tryTransition env (w_status v)
          (if (if isWorkflowBlockedOnSuspension g' runs then WR_WAITING else WR_RUNNING) = WR_WAITING
           then WorkflowRun_markWaiting v now else WorkflowRun_markRunning v now)) (\<lambda>u. give ()))"
    by (intro ends_if ends_give TrueI harmless_then st)
      (use moving [of "WorkflowRun_markWaiting v now" WR_WAITING] moving [of "WorkflowRun_markRunning v now" WR_RUNNING]
        wrun_marks(1,2) in auto)
qed

definition continues :: "workflow_run \<Rightarrow> workflow_run option \<Rightarrow> 'w flow \<Rightarrow> bool" where
  "continues v r f \<longleftrightarrow> (case r of None \<Rightarrow> True
     | Some c \<Rightarrow> w_id c = w_id v \<and> w_workflowVersionId c = w_workflowVersionId v \<and> run_seen c f)"

lemma stable_continues [stable_facts]: "stable env (continues v r)"
  by (cases r) (simp_all add: continues_def [abs_def] stable_facts)

lemma again_continues: "run_again v st r f \<Longrightarrow> continues v r f"
  by (cases r) (simp_all add: run_again_def continues_def)

lemma harmless_succeedWorkflow:
  assumes env: "env_ok env" and P: "stable env P" and x: "x \<noteq> JUndefined"
    and w: "\<And>f. good env f \<Longrightarrow> P f \<Longrightarrow> terminal_succeeded w g x f"
  shows "harmless env P (succeedWorkflow env w x now)"
  unfolding succeedWorkflow_def
proof (rule harmless_active_then [OF env P])
  fix f assume "good env f" "P f"
  with w show "graph_seen w g f" by (simp add: terminal_succeeded_def)
next
  fix v :: workflow_run assume v: "w_id v = w_id w"
  let ?P = "\<lambda>f. P f \<and> graph_seen v g f"
  have st: "stable env ?P" by (intro stable_facts P)
  have start: "safe env ?P (if w_status v = WR_PENDING then tryTransition env WR_PENDING (WorkflowRun_markRunning v now)
      else give (Some v)) (continues v)"
  proof (intro ends_if ends_give)
    assume p: "w_status v = WR_PENDING"
    have "safe env ?P (tryTransition env WR_PENDING (WorkflowRun_markRunning v now)) (run_again v WR_RUNNING)"
      using ends_tryTransition [where st = WR_RUNNING and w = v, OF env st] p wrun_marks(1)
      by (simp add: graph_seen_def outcome_open)
    then show "safe env ?P (tryTransition env WR_PENDING (WorkflowRun_markRunning v now)) (continues v)"
      by (rule ends_weaken) (simp_all add: again_continues)
  qed (simp add: graph_seen_def continues_def)
  show "harmless env ?P (act_then (if w_status v = WR_PENDING
        then tryTransition env WR_PENDING (WorkflowRun_markRunning v now) else give (Some v)) (\<lambda>started.
      case started of None \<Rightarrow> give ()
      | Some current \<Rightarrow>
          if w_status current \<noteq> WR_RUNNING \<and> w_status current \<noteq> WR_WAITING then give ()
          else act_then (tryTransition env (w_status current) (WorkflowRun_markSucceeded current now x)) (\<lambda>u. give ())))"
  proof (rule ends_then [OF start _ st], intro ends_case_option ends_give TrueI ends_if)
    fix r and c :: workflow_run assume r: "r = Some c"
    let ?P' = "\<lambda>f. ?P f \<and> continues v r f"
    have st': "stable env ?P'" by (intro stable_facts P)
    show "harmless env ?P' (act_then (tryTransition env (w_status c) (WorkflowRun_markSucceeded c now x)) (\<lambda>u. give ()))"
    proof (rule harmless_then [OF harmless_from [OF ends_tryTransition [where st = WR_SUCCEEDED and w = c, OF env st']] _ st'])
      fix m assume "WorkflowRun_markSucceeded c now x = Inr m"
      then show "w_id m = w_id c \<and> w_status m = WR_SUCCEEDED" using wrun_marks(4) by blast
    next
      fix f m assume f: "good env f" "?P' f" and m: "WorkflowRun_markSucceeded c now x = Inr m"
      have t: "terminal_succeeded w g x f" using w f by blast
      then have ver: "w_workflowVersionId v = w_workflowVersionId w"
        using graph_version [of w g f v] f v by (simp add: terminal_succeeded_def)
      have c: "w_id c = w_id v" "w_workflowVersionId c = w_workflowVersionId v" "run_seen c f"
        using f(2) by (simp_all add: r continues_def)
      have "outcome_due c m f"
        by (rule outcome_succeeded [OF t]) (use c v ver wrun_marks(4) [OF m] x in simp_all)
      with c(3) show "run_seen c f \<and> outcome_due c m f" by blast
    qed (auto intro: ends_give)
  qed
qed

lemma hasFailedNode_view:
  assumes "hasFailedNode (nodeRunsByKey ns) = Some n"
  shows "map_of (nodeRunsByKey ns) (n_workflowNodeKey n) = Some n \<and> n_status n = NR_FAILED"
proof -
  have d: "distinct (map_keys (nodeRunsByKey ns))"
    by (induction ns rule: rev_induct) (simp_all add: nodeRunsByKey_snoc nodeRunsByKey_def [of "[]"] distinct_keys_update)
  from assms have n: "n \<in> set (map_values (nodeRunsByKey ns))" "n_status n = NR_FAILED"
    unfolding hasFailedNode_def by (auto dest: find_Some_mem simp: find_Some_iff)
  from n(1) obtain k where "map_of (nodeRunsByKey ns) k = Some n" unfolding values_map_of [OF d] by blast
  with nodeRunsByKey_sound [OF this] n(2) show ?thesis by simp
qed

lemma failed_view:
  assumes "graph_seen w g f" "view_seen w runs f" "map_of runs k = Some n"
    "n_status n = NR_FAILED \<or> k = g_terminalKey g \<and> n_status n = NR_SKIPPED"
  shows "failure_seen w g f"
proof -
  have "isTerminalWorkflowNodeRunState (n_status n)" using assms(4) by (auto simp: node_status_simps)
  with runs_keptD [OF assms(2) [unfolded view_seen_def] assms(3)] obtain m
    where "map_of (nodes_of (fl_store f) (w_id w)) k = Some m" "n_status m = n_status n"
    by (auto simp: node_kept_def)
  with assms(1,4) show ?thesis unfolding failure_seen_def by metis
qed

lemma harmless_concludeRun:
  assumes env: "env_ok env" and P: "stable env P"
    and w: "\<And>f. good env f \<Longrightarrow> P f \<Longrightarrow> graph_seen w g f \<and> view_seen w runs f" and runs: "runs = nodeRunsByKey ns"
  shows "harmless env P (concludeRun env g w runs now)"
proof -
  have view: "\<exists>m. map_of (nodes_of (fl_store f) (w_id w)) k = Some m \<and> n_status m = n_status n \<and> n_output m = n_output n"
    if "good env f" "P f" "map_of runs k = Some n" "isTerminalWorkflowNodeRunState (n_status n)" for f k n
    using w [OF that(1,2)] runs_keptD [OF _ that(3)] that(4) by (auto simp: view_seen_def node_kept_def)
  have failed: "failure_seen w g f"
    if "good env f" "P f" "map_of runs k = Some n" "n_status n = NR_FAILED \<or> k = g_terminalKey g \<and> n_status n = NR_SKIPPED" for f k n
    using failed_view that w by blast
  show ?thesis
    unfolding concludeRun_def
  proof (intro ends_case_option ends_if, goal_cases)
    case 1
    show ?case by (rule harmless_deriveActive [OF env P]) (use w in blast)
  next
    case (2 n)
    show ?case
    proof (rule harmless_succeedWorkflow [OF env P])
      fix f assume f: "good env f" "P f"
      from view [OF f 2(2)] 2(3) w [OF f] show "terminal_succeeded w g (or_null (n_output n)) f"
        by (auto simp: terminal_succeeded_def node_status_simps)
    qed (simp add: or_null_def)
  next
    case (3 n)
    show ?case by (rule harmless_failWorkflow [OF env P]) (use failed 3 in blast)
  next
    case (4 n)
    show ?case by (rule harmless_deriveActive [OF env P]) (use w in blast)
  next
    case (5 n)
    then obtain k where "map_of runs k = Some n" "n_status n = NR_FAILED" using hasFailedNode_view runs by blast
    then show ?case by (intro harmless_failWorkflow [OF env P]) (use failed in blast)
  qed
qed

end
