(* ===== verification/Workflow_Passes.thy ===== *)
theory Workflow_Passes
  imports Workflow_Safety
begin

text \<open>
  The phases of a reconciliation, each of them safe, and the reconciliation as a whole.
\<close>

subsection \<open>Nodes of an accepted graph\<close>

definition graph_built :: "workflow_graph \<Rightarrow> bool" where
  "graph_built g \<longleftrightarrow> (\<exists>d. buildWorkflowGraph d = Inr g)"

lemma graph_nodes:
  assumes "graph_built g" "(k, node) \<in> set (g_nodesByKey g)"
  shows "map_of (g_nodesByKey g) k = Some node \<and> wn_key node = k"
proof -
  from assms(1) obtain d where d: "buildWorkflowGraph d = Inr g" by (auto simp: graph_built_def)
  note g = buildWorkflowGraph_Inr [OF d]
  then have "distinct (List.map wn_key (wd_nodes d))" using assertWorkflowDefinition_distinct by blast
  then have "distinct (map_keys (g_nodesByKey g))" using g by (simp add: comp_def)
  with assms(2) g show ?thesis by auto
qed

lemma node_of_typeD:
  "node_of_type g t k \<Longrightarrow> \<exists>node. map_of (g_nodesByKey g) k = Some node \<and> of_type t node"
  "is_agent_key g k \<Longrightarrow> \<exists>node. map_of (g_nodesByKey g) k = Some node \<and> of_type ''AGENT'' node"
  by (auto simp: node_of_type_def is_agent_key_def of_type_def split: option.splits)

lemma ready_may_exist:
  "isNodeReady g k runs \<Longrightarrow> map_of (g_nodesByKey g) k = Some node \<Longrightarrow> may_exist g k runs False"
  by (simp add: may_exist_def isNodeReady_enabled)

text \<open>A listed node run of a type, as far as it is not skipped.\<close>

lemma listed_enabled:
  assumes "listed_seen w g ns f" "n \<in> set ns" "n_status n \<noteq> NR_SKIPPED"
    "map_of (g_nodesByKey g) (n_workflowNodeKey n) = Some node" "T node"
  shows "node_seen n f \<and> enabled_seen n T f"
  using assms enabled_of [of n node f T] by (auto simp: listed_seen_def)

lemma listed_view: "listed_seen w g ns f \<Longrightarrow> view_seen w (nodeRunsByKey ns) f"
  by (simp add: listed_seen_def)

lemma harmless_lift: "harmless env P (lift_act r)"
  by (rule ends_lift) simp_all

lemma harmless_check: "harmless env P (check_act c)"
  by (rule ends_check) simp

lemma not_terminal_status: "\<not> isTerminalWorkflowNodeRunState s \<Longrightarrow> s \<noteq> NR_SKIPPED"
  by (auto simp: node_status_simps)

subsection \<open>Agent nodes\<close>

lemma harmless_observeExistingAgents:
  assumes env: "env_ok env" and P: "stable env P" and w: "\<And>f. good env f \<Longrightarrow> P f \<Longrightarrow> graph_seen (rcm_workflowRun c) g f"
  shows "harmless env P (observeExistingAgents env g c)"
  unfolding observeExistingAgents_def
proof (rule ends_list_then [OF env P w])
  fix ns
  let ?P = "\<lambda>f. P f \<and> listed_seen (rcm_workflowRun c) g ns f"
  have st: "stable env ?P" by (intro stable_facts P)
  have node: "harmless env ?P (processAgentNode env version n (rcm_now c))"
    if "n \<in> set ns" "is_agent_key g (n_workflowNodeKey n)" "\<not> isTerminalWorkflowNodeRunState (n_status n)" for n version
  proof (rule harmless_processAgentNode [OF env st _ that(3)])
    fix f assume f: "good env f" "?P f"
    from node_of_typeD(2) [OF that(2)] obtain node where "map_of (g_nodesByKey g) (n_workflowNodeKey n) = Some node"
      "of_type ''AGENT'' node" by blast
    with listed_enabled [OF _ that(1) not_terminal_status [OF that(3)]] f
    show "node_seen n f \<and> enabled_seen n (of_type ''AGENT'') f" by blast
  qed
  show "harmless env ?P (act_then (loadVersion (w_workflowVersionId (rcm_workflowRun c))) (\<lambda>version.
      for_all (\<lambda>n. if \<not> is_agent_key g (n_workflowNodeKey n) \<or> isTerminalWorkflowNodeRunState (n_status n)
        then give () else processAgentNode env version n (rcm_now c)) ns))"
    unfolding loadVersion_def
    by (intro harmless_then harmless_reading_then harmless_for_all ends_case_option ends_throw ends_give ends_if node
        env st TrueI) auto
qed

lemma harmless_ready_node:
  assumes env: "env_ok env" and P: "stable env P"
    and w: "\<And>f. good env f \<Longrightarrow> P f \<Longrightarrow> graph_seen w g f \<and> view_seen w runs f"
    and k: "isNodeReady g k runs" "map_of (g_nodesByKey g) k = Some node" "T node"
    and m: "\<And>n. n_workflowNodeKey n = k \<Longrightarrow> \<not> isTerminalWorkflowNodeRunState (n_status n) \<Longrightarrow>
      harmless env (\<lambda>f. P f \<and> node_seen n f \<and> enabled_seen n T f) (m n)"
  shows "harmless env P (act_then (nodeRunFor env g w runs now k) (\<lambda>n.
    if isTerminalWorkflowNodeRunState (n_status n) then give () else m n))"
proof (rule ends_then [OF ends_nodeRunFor [OF env P w ready_may_exist [OF k(1,2)]] _ P])
  fix n
  show "harmless env (\<lambda>f. P f \<and> node_at w k n f) (if isTerminalWorkflowNodeRunState (n_status n) then give () else m n)"
  proof (cases "n_workflowNodeKey n = k")
    case True
    show ?thesis
    proof (intro ends_if ends_give TrueI)
      assume nt: "\<not> isTerminalWorkflowNodeRunState (n_status n)"
      show "harmless env (\<lambda>f. P f \<and> node_at w k n f) (m n)"
      proof (rule ends_pre [OF m [OF True nt]])
        fix f assume f: "good env f" "P f \<and> node_at w k n f"
        from w f have "graph_seen w g f" "view_seen w runs f" by blast+
        from ready_seen [where T = T, OF f(1) this isNodeReady_enabled [OF k(1)] k(2,3)] f(2)
        show "P f \<and> node_seen n f \<and> enabled_seen n T f" by (simp add: node_at_def)
      qed
    qed
  qed (simp add: ends_def node_at_def)
qed

text \<open>The frame of a phase: the active run and its node runs are read, then the phase acts on the view.\<close>

definition view_at :: "workflow_run \<Rightarrow> workflow_graph \<Rightarrow> workflow_node_run list \<Rightarrow> 'w flow \<Rightarrow> bool" where
  "view_at v g ns f \<longleftrightarrow> graph_seen v g f \<and> listed_seen v g ns f"

lemma stable_view_at [stable_facts]: "stable env (view_at v g ns)"
  unfolding view_at_def [abs_def] by (intro stable_facts)

lemma view_atD: "view_at v g ns f \<Longrightarrow> graph_seen v g f \<and> view_seen v (nodeRunsByKey ns) f"
  using listed_view [of v g ns f] by (simp add: view_at_def)

lemma harmless_phase:
  assumes env: "env_ok env" and P: "stable env P" and w: "\<And>f. good env f \<Longrightarrow> P f \<Longrightarrow> graph_seen w g f"
    and k: "\<And>v ns. w_id v = w_id w \<Longrightarrow> \<not> isTerminalWorkflowRunState (w_status v) \<Longrightarrow>
      harmless env (\<lambda>f. P f \<and> view_at v g ns f) (k v ns)"
  shows "harmless env P (act_then (reloadActive (w_id w)) (\<lambda>active. case active of None \<Rightarrow> give ()
    | Some v \<Rightarrow> act_then (listNodes (w_id v)) (k v)))"
proof (rule harmless_active_then [OF env P w])
  fix v :: workflow_run assume v: "w_id v = w_id w" "\<not> isTerminalWorkflowRunState (w_status v)"
  have st: "stable env (\<lambda>f. P f \<and> graph_seen v g f)" by (intro stable_facts P)
  show "harmless env (\<lambda>f. P f \<and> graph_seen v g f) (act_then (listNodes (w_id v)) (k v))"
    by (rule ends_list_then [where w = v and g = g, OF env st])
      (auto intro: ends_pre [OF k [OF v]] simp: view_at_def)
qed

lemma harmless_startReadyAgents:
  assumes env: "env_ok env" and P: "stable env P" and w: "\<And>f. good env f \<Longrightarrow> P f \<Longrightarrow> graph_seen (rcm_workflowRun c) g f"
  shows "harmless env P (startReadyAgents env g version c)"
  unfolding startReadyAgents_def Let_def
proof (rule harmless_phase [OF env P w])
  fix v ns
  let ?P = "\<lambda>f. P f \<and> view_at v g ns f"
  have st: "stable env ?P" by (intro stable_facts P)
  show "harmless env ?P (for_all (\<lambda>k.
      act_then (nodeRunFor env g v (nodeRunsByKey ns) (rcm_now c) k) (\<lambda>n.
        if isTerminalWorkflowNodeRunState (n_status n) then give () else processAgentNode env version n (rcm_now c)))
      (filter (\<lambda>k. is_agent_key g k \<and> isNodeReady g k (nodeRunsByKey ns)) (map_keys (g_nodesByKey g))))"
  proof (rule harmless_for_all [OF st])
    fix k assume "k \<in> set (filter (\<lambda>k. is_agent_key g k \<and> isNodeReady g k (nodeRunsByKey ns)) (map_keys (g_nodesByKey g)))"
    then have k: "isNodeReady g k (nodeRunsByKey ns)" and "is_agent_key g k" by simp_all
    with node_of_typeD(2) obtain node where node: "map_of (g_nodesByKey g) k = Some node" "of_type ''AGENT'' node" by blast
    show "harmless env ?P (act_then (nodeRunFor env g v (nodeRunsByKey ns) (rcm_now c) k) (\<lambda>n.
        if isTerminalWorkflowNodeRunState (n_status n) then give () else processAgentNode env version n (rcm_now c)))"
      by (rule harmless_ready_node [where T = "of_type ''AGENT''", OF env st _ k node])
        (auto dest: view_atD intro!: harmless_processAgentNode env stable_facts P)
  qed
qed

subsection \<open>Skips\<close>

lemma harmless_skipNode:
  assumes env: "env_ok env" and P: "stable env P" and w: "\<And>f. good env f \<Longrightarrow> P f \<Longrightarrow> graph_seen w g f \<and> view_seen w runs f"
    and k: "map_of (g_nodesByKey g) k = Some node"
  shows "harmless env P (skipNode env g w runs now k)"
  unfolding skipNode_def
proof (intro ends_if ends_case_option ends_give TrueI, goal_cases)
  case 1
  then have "may_exist g k runs True" by (simp add: may_exist_def k)
  note made = ends_materializeNodeRun [OF env P w this]
  show ?case
    by (rule harmless_then [OF harmless_from [OF made] ends_give P]) simp_all
next
  case (2 n)
  show ?case
  proof (rule harmless_then [OF harmless_from [OF ends_storeMarked [OF env P]] _ P])
    fix m assume "WorkflowNodeRun_markSkipped n now = Inr m"
    then show "marked_from n m" using marks_from(4) by blast
  next
    fix f m assume f: "good env f" "P f" and m: "WorkflowNodeRun_markSkipped n now = Inr m"
    from w [OF f] have g: "graph_seen w g f" "view_seen w runs f" by simp_all
    note n = seen_in_view [OF f(1) g(2) 2(2)]
    have "justified env n m f"
      unfolding justified_def
    proof (rule context_seen [OF f(1) g(1)])
      fix w' assume "wrun_kept w w'"
      then show "(n_status m \<noteq> NR_SKIPPED \<longrightarrow> n_childRunId m \<noteq> None \<or> node_type (wn_body node) \<noteq> ''AGENT'')
          \<and> (n_status m = NR_SKIPPED \<longrightarrow> isNodeSkippable g (n_workflowNodeKey n) (nodes_of (fl_store f) (w_id w')))
          \<and> (\<forall>row. settled n m row \<longrightarrow> status_reason (re_sha256 env) f w' node row)"
        using marks_from(4) [OF m] 2(1) n skippable_kept [OF g(2) [unfolded view_seen_def]]
        by (auto simp: status_reason_def settled_def wrun_kept_def)
    qed (use n k in simp_all)
    with n have "node_seen (n\<lparr> n_input := n_input n \<rparr>) f \<and> justified env (n\<lparr> n_input := n_input n \<rparr>) m f" by simp
    then show "\<exists>x. node_seen (n\<lparr> n_input := x \<rparr>) f \<and> justified env (n\<lparr> n_input := x \<rparr>) m f" by blast
  qed (auto intro: ends_give)
qed

lemma harmless_propagateSkips:
  assumes env: "env_ok env" and P: "stable env P" and w: "\<And>f. good env f \<Longrightarrow> P f \<Longrightarrow> graph_seen (rcm_workflowRun c) g f"
  shows "harmless env P (propagateSkips env g c)"
  unfolding propagateSkips_def
proof (rule harmless_phase [OF env P w])
  fix v ns
  have st: "stable env (\<lambda>f. P f \<and> view_at v g ns f)" by (intro stable_facts P)
  show "harmless env (\<lambda>f. P f \<and> view_at v g ns f)
      (for_all (skipNode env g v (nodeRunsByKey ns) (rcm_now c)) (map_keys (g_nodesByKey g)))"
  proof (rule harmless_for_all [OF st])
    fix k assume "k \<in> set (map_keys (g_nodesByKey g))"
    then obtain node where "map_of (g_nodesByKey g) k = Some node"
      by (cases "map_of (g_nodesByKey g) k") (auto simp: map_of_eq_None_iff)
    then show "harmless env (\<lambda>f. P f \<and> view_at v g ns f) (skipNode env g v (nodeRunsByKey ns) (rcm_now c) k)"
      by (rule harmless_skipNode [OF env st, rotated]) (auto dest: view_atD)
  qed
qed

subsection \<open>Branches, forks and joins\<close>

text \<open>A mark that is justified by the node alone.\<close>

lemma ends_storeMarked_type:
  assumes env: "env_ok env" and P: "stable env P"
    and n: "\<And>f. good env f \<Longrightarrow> P f \<Longrightarrow> node_seen n f \<and> enabled_seen n T f"
    and T: "\<And>node. T node \<Longrightarrow> \<not> of_type ''AGENT'' node"
    and m: "\<And>m. marked = Inr m \<Longrightarrow> marked_from n m \<and> n_status m \<noteq> NR_SKIPPED"
    and why: "\<And>f m w node row. good env f \<Longrightarrow> P f \<Longrightarrow> marked = Inr m \<Longrightarrow> T node \<Longrightarrow> settled n m row \<Longrightarrow>
      status_reason (re_sha256 env) f w node row"
  shows "safe env P (storeMarked env n marked) (node_again n)"
proof (rule ends_storeMarked [OF env P])
  fix m assume "marked = Inr m"
  with m show "marked_from n m" by blast
next
  fix f m assume f: "good env f" "P f" and mm: "marked = Inr m"
  have "justified env (n\<lparr> n_input := n_input n \<rparr>) m f"
    by (rule enabled_justified [where T = T]) (use n [OF f] T m [OF mm] why [OF f mm] in auto)
  with n [OF f] have "node_seen (n\<lparr> n_input := n_input n \<rparr>) f \<and> justified env (n\<lparr> n_input := n_input n \<rparr>) m f" by simp
  then show "\<exists>x. node_seen (n\<lparr> n_input := x \<rparr>) f \<and> justified env (n\<lparr> n_input := x \<rparr>) m f" by blast
qed

lemma again_enabled: "node_again n (Some m) f \<Longrightarrow> enabled_seen n T f \<Longrightarrow> node_seen m f \<and> enabled_seen m T f"
  by (auto simp: node_again_def enabled_seen_def node_context_def same_node_def)

lemma harmless_completeNode:
  assumes env: "env_ok env" and P: "stable env P"
    and n: "\<And>f. good env f \<Longrightarrow> P f \<Longrightarrow> node_seen n f \<and> enabled_seen n (exactly node) f"
    and node: "is_orchestration_node node"
  shows "harmless env P (completeNode env node n now)"
proof -
  have mark: "harmless env P (act_then (storeMarked env n (WorkflowNodeRun_markSucceeded n now (n_input n) selected)) (\<lambda>u. give ()))"
    if "\<And>selector cases d. wn_body node = Node_BRANCH selector cases d \<Longrightarrow>
      selected = Some (selectBranchTarget selector cases d (n_input n))" for selected
  proof (rule harmless_then [OF harmless_from [OF ends_storeMarked_type [OF env P n]] ends_give P])
    fix nd assume "exactly node nd"
    then show "\<not> of_type ''AGENT'' nd" using node by (simp add: exactly_def of_type_def is_orchestration_node_def)
  next
    fix m assume "WorkflowNodeRun_markSucceeded n now (n_input n) selected = Inr m"
    then show "marked_from n m \<and> n_status m \<noteq> NR_SKIPPED" using markSucceeded_from by fastforce
  next
    fix f m w nd row
    assume f: "good env f" "P f" and m: "WorkflowNodeRun_markSucceeded n now (n_input n) selected = Inr m"
      and nd: "exactly node nd" and row: "settled n m row"
    have "n_input n \<noteq> JUndefined" using enabled_input [OF f(1)] n [OF f] by blast
    with markSucceeded_from [OF m] have s: "n_status m = NR_SUCCEEDED" "stored_as (n_input n) (column_json (n_output m))"
      "selected \<noteq> None \<Longrightarrow> n_selectedTargetKey m = selected" by simp_all
    from row s(1) have r: "n_status row = NR_SUCCEEDED" "n_input row = n_input n"
      "n_output row = column_json (n_output m)" "n_selectedTargetKey row = n_selectedTargetKey m"
      by (simp_all add: settled_def same_node_def)
    have "success_reason (re_sha256 env) f w node row"
      using node s(2,3) r that by (auto simp: success_reason_def is_orchestration_node_def)
    then show "status_reason (re_sha256 env) f w nd row" using nd r(1) by (simp add: status_reason_def exactly_def)
  qed simp_all
  show ?thesis
    unfolding completeNode_def
    by (cases "wn_body node") (auto intro!: ends_throw mark)
qed

lemma harmless_resolveOrchestrationNode:
  assumes env: "env_ok env" and P: "stable env P"
    and w: "\<And>f. good env f \<Longrightarrow> P f \<Longrightarrow> graph_seen w g f \<and> view_seen w runs f"
    and k: "isNodeReady g k runs" "map_of (g_nodesByKey g) k = Some node" "wn_key node = k" and node: "is_orchestration_node node"
  shows "harmless env P (resolveOrchestrationNode env g w runs now node)"
  unfolding resolveOrchestrationNode_def k(3)
proof (rule harmless_ready_node [where T = "exactly node", OF env P w k(1,2)])
  fix n :: workflow_node_run assume nt: "\<not> isTerminalWorkflowNodeRunState (n_status n)"
  let ?P = "\<lambda>f. P f \<and> node_seen n f \<and> enabled_seen n (exactly node) f"
  have st: "stable env ?P" by (intro stable_facts P)
  have start: "safe env ?P (if n_status n = NR_PENDING then storeMarked env n (WorkflowNodeRun_markRunning n now)
      else give (Some n)) (node_again n)"
  proof (intro ends_if ends_give)
    show "safe env ?P (storeMarked env n (WorkflowNodeRun_markRunning n now)) (node_again n)"
    proof (rule ends_storeMarked_type [where T = "exactly node", OF env st])
      fix m assume "WorkflowNodeRun_markRunning n now = Inr m"
      then show "marked_from n m \<and> n_status m \<noteq> NR_SKIPPED" using marks_from(1) by fastforce
    next
      fix f m w nd row assume "WorkflowNodeRun_markRunning n now = Inr m" "exactly node nd" "settled n m row"
      then show "status_reason (re_sha256 env) f w nd row"
        using marks_from(1) node by (fastforce simp: status_reason_def settled_def exactly_def is_orchestration_node_def)
    qed (use node in \<open>auto simp: exactly_def of_type_def is_orchestration_node_def\<close>)
  next
    fix f assume "?P f"
    then have "node_seen n f" by blast
    moreover have "same_node (n\<lparr> n_input := n_input n \<rparr>) n" by (simp add: same_node_def)
    ultimately show "node_again n (Some n) f" unfolding node_again_def by blast
  qed
  show "harmless env ?P (act_then (if n_status n = NR_PENDING then storeMarked env n (WorkflowNodeRun_markRunning n now)
      else give (Some n)) (\<lambda>running. case running of None \<Rightarrow> give ()
        | Some n' \<Rightarrow> if n_status n' \<noteq> NR_RUNNING then give () else completeNode env node n' now))"
  proof (rule ends_then [OF start _ st], intro ends_case_option ends_if ends_give TrueI)
    fix r and n' :: workflow_node_run assume r: "r = Some n'"
    have s2: "stable env (\<lambda>f. ?P f \<and> node_again n r f)" by (intro stable_facts P)
    show "harmless env (\<lambda>f. ?P f \<and> node_again n r f) (completeNode env node n' now)"
      by (rule harmless_completeNode [OF env s2 _ node]) (use r in \<open>blast dest: again_enabled\<close>)
  qed
qed (use k in \<open>simp_all add: exactly_def\<close>)

lemma harmless_resolveRounds:
  assumes env: "env_ok env" and P: "stable env P" and g: "graph_built g"
    and w: "\<And>f. good env f \<Longrightarrow> P f \<Longrightarrow> graph_seen (rcm_workflowRun c) g f"
  shows "harmless env P (resolveRounds steps env g c)"
proof (induction steps)
  case 0
  have "resolveRounds 0 env g c = give ()" by (simp add: fun_eq_iff give_def)
  then show ?case by (simp add: ends_give)
next
  case (Suc steps)
  have e: "resolveRounds (Suc steps) env g c =
      act_then (reloadActive (w_id (rcm_workflowRun c))) (\<lambda>active. case active of None \<Rightarrow> give ()
        | Some v \<Rightarrow> act_then (listNodes (w_id v)) (\<lambda>listed.
            let runs = nodeRunsByKey listed;
                ready = filter (\<lambda>(k, node). is_orchestration_node node \<and> isNodeReady g k runs) (g_nodesByKey g)
            in if ready = [] then give ()
               else act_then (for_all (\<lambda>(k, node). resolveOrchestrationNode env g v runs (rcm_now c) node) ready)
                 (\<lambda>u. act_then (propagateSkips env g c) (\<lambda>u. resolveRounds steps env g c))))"
    by (simp add: fun_eq_iff)
  show ?case
    unfolding e Let_def
  proof (rule harmless_phase [OF env P w])
    fix v ns
    let ?P = "\<lambda>f. P f \<and> view_at v g ns f"
    have st: "stable env ?P" by (intro stable_facts P)
    show "harmless env ?P
      (if filter (\<lambda>(k, node). is_orchestration_node node \<and> isNodeReady g k (nodeRunsByKey ns)) (g_nodesByKey g) = []
       then give ()
       else act_then (for_all (\<lambda>(k, node). resolveOrchestrationNode env g v (nodeRunsByKey ns) (rcm_now c) node)
           (filter (\<lambda>(k, node). is_orchestration_node node \<and> isNodeReady g k (nodeRunsByKey ns)) (g_nodesByKey g)))
         (\<lambda>u. act_then (propagateSkips env g c) (\<lambda>u. resolveRounds steps env g c)))"
    proof (rule ends_if, rule ends_give, rule TrueI, intro harmless_then harmless_for_all st)
      fix x assume "x \<in> set (filter (\<lambda>(k, node). is_orchestration_node node \<and> isNodeReady g k (nodeRunsByKey ns)) (g_nodesByKey g))"
      moreover obtain k node where x: "x = (k, node)" by fastforce
      ultimately have k: "(k, node) \<in> set (g_nodesByKey g)" "is_orchestration_node node" "isNodeReady g k (nodeRunsByKey ns)"
        by simp_all
      show "harmless env ?P (case x of (k, node) \<Rightarrow>
          resolveOrchestrationNode env g v (nodeRunsByKey ns) (rcm_now c) node)"
        unfolding x prod.case
        by (rule harmless_resolveOrchestrationNode [OF env st _ k(3) _ _ k(2)])
          (use graph_nodes [OF g k(1)] in \<open>auto dest: view_atD\<close>)
    next
      show "harmless env ?P (propagateSkips env g c)" by (rule harmless_propagateSkips [OF env st]) (use w in blast)
      show "harmless env ?P (resolveRounds steps env g c)" by (rule ends_pre [OF Suc.IH]) simp
    qed
  qed
qed

subsection \<open>Approvals\<close>

lemma harmless_ensureApprovalRequest:
  assumes env: "env_ok env" and P: "stable env P"
  shows "harmless env P (ensureApprovalRequest env n now)"
  unfolding ensureApprovalRequest_def
  by (intro harmless_reading_then ends_if ends_give ends_any_id_then ends_lift_then harmless_catch ends_on_approvals
      saved_approval_ok ends_throw env P waits_stable TrueI)

lemma ends_suspendNode:
  assumes env: "env_ok env" and P: "stable env P"
    and n: "\<And>f. good env f \<Longrightarrow> P f \<Longrightarrow> node_seen n f \<and> enabled_seen n T f"
    and T: "T = of_type ''APPROVAL'' \<or> T = of_type ''WAIT''"
  shows "safe env P (suspendNode env n now) (node_again n)"
  unfolding suspendNode_def
proof (intro ends_if ends_give)
  show "safe env P (storeMarked env n (WorkflowNodeRun_markWaiting n now)) (node_again n)"
  proof (rule ends_storeMarked_type [OF env P n])
    fix m assume "WorkflowNodeRun_markWaiting n now = Inr m"
    then show "marked_from n m \<and> n_status m \<noteq> NR_SKIPPED" using marks_from(2) by fastforce
  next
    fix f m w nd row assume "WorkflowNodeRun_markWaiting n now = Inr m" "T nd" "settled n m row"
    then show "status_reason (re_sha256 env) f w nd row"
      using marks_from(2) T by (fastforce simp: status_reason_def settled_def of_type_def)
  qed (use T in \<open>auto simp: of_type_def\<close>)
next
  fix f assume "good env f" "P f"
  then have "node_seen n f" using n by blast
  moreover have "same_node (n\<lparr> n_input := n_input n \<rparr>) n" by (simp add: same_node_def)
  ultimately show "node_again n (Some n) f" unfolding node_again_def by blast
qed

definition approval_seen :: "approval_request \<Rightarrow> 'w flow \<Rightarrow> bool" where
  "approval_seen r f \<longleftrightarrow> ap_status r \<noteq> AR_PENDING \<and> map_of (fl_approvals f) (ap_id r) = Some r"

lemma stable_approval_seen [stable_facts]: "stable env (approval_seen r)"
proof (rule stableI)
  fix f g :: "'a flow" assume k: "flow_kept f g" and r: "approval_seen r f"
  then have "map_of (fl_approvals f) (ap_id r) = Some r" "ap_status r \<noteq> AR_PENDING" by (simp_all add: approval_seen_def)
  with flow_kept_approval [OF k this(1)] show "approval_seen r g" by (auto simp: approval_seen_def approval_kept_def)
qed

lemma binding_same_node:
  "same_node n m \<Longrightarrow> assertWorkflowNodeApprovalBinding sha256 r m = assertWorkflowNodeApprovalBinding sha256 r n"
  by (simp add: assertWorkflowNodeApprovalBinding_def recomputeWorkflowNodeProgressionDigest_def same_node_def)

lemma harmless_observeDecision:
  assumes env: "env_ok env" and P: "stable env P"
    and n: "\<And>f. good env f \<Longrightarrow> P f \<Longrightarrow> node_seen n f \<and> enabled_seen n (of_type ''APPROVAL'') f"
    and r: "\<And>f. good env f \<Longrightarrow> P f \<Longrightarrow> approval_seen r f" "ap_workflowNodeRunId r = n_id n"
  shows "harmless env P (observeDecision env now n r)"
proof -
  have of_row: "approval_of_node (fl_approvals f) row r"
    if "good env f" "P f" "settled n m row" for f m row
    using r(1) [OF that(1,2)] r(2) that(3) by (simp add: approval_of_node_def approval_seen_def settled_def same_node_def)
  have no_agent: "\<not> of_type ''AGENT'' nd" if "of_type ''APPROVAL'' nd" for nd using that by (simp add: of_type_def)
  have failed: "harmless env P (act_then (storeMarked env n (WorkflowNodeRun_markFailed n now err)) (\<lambda>u. give ()))" for err
  proof (rule harmless_then [OF harmless_from [OF ends_storeMarked_type [OF env P n no_agent]] ends_give P])
    fix m assume "WorkflowNodeRun_markFailed n now err = Inr m"
    then show "marked_from n m \<and> n_status m \<noteq> NR_SKIPPED" using marks_from(3) by fastforce
  next
    fix f m w nd row assume f: "good env f" "P f" and m: "WorkflowNodeRun_markFailed n now err = Inr m"
      and nd: "of_type ''APPROVAL'' nd" and row: "settled n m row"
    have "n_status row = NR_FAILED" using marks_from(3) [OF m] row by (simp add: settled_def)
    with of_row [OF f row] r(1) [OF f] nd show "status_reason (re_sha256 env) f w nd row"
      by (auto simp: status_reason_def failure_reason_def of_type_def approval_seen_def)
  qed simp_all
  have passed: "harmless env P (act_then (storeMarked env n (WorkflowNodeRun_markSucceeded n now (n_input n) None)) (\<lambda>u. give ()))"
    if b: "ap_status r = AR_APPROVED" "assertWorkflowNodeApprovalBinding (re_sha256 env) r n = None"
  proof (rule harmless_then [OF harmless_from [OF ends_storeMarked_type [OF env P n no_agent]] ends_give P])
    fix m assume "WorkflowNodeRun_markSucceeded n now (n_input n) None = Inr m"
    then show "marked_from n m \<and> n_status m \<noteq> NR_SKIPPED" using markSucceeded_from by fastforce
  next
    fix f m w nd row assume f: "good env f" "P f" and m: "WorkflowNodeRun_markSucceeded n now (n_input n) None = Inr m"
      and nd: "of_type ''APPROVAL'' nd" and row: "settled n m row"
    have "n_status row = NR_SUCCEEDED" using markSucceeded_from [OF m] row by (simp add: settled_def)
    moreover have "assertWorkflowNodeApprovalBinding (re_sha256 env) r row = None"
      using binding_same_node [of n row] row b(2) by (simp add: settled_def)
    ultimately show "status_reason (re_sha256 env) f w nd row"
      using of_row [OF f row] b(1) nd by (auto simp: status_reason_def success_reason_def of_type_def)
  qed simp_all
  show ?thesis
    unfolding observeDecision_def
    by (cases "assertWorkflowNodeApprovalBinding (re_sha256 env) r n")
      (auto split: osva_error.split option.split intro!: ends_throw failed passed)
qed

lemma harmless_observeApproval:
  assumes env: "env_ok env" and P: "stable env P" and ns: "\<And>f. good env f \<Longrightarrow> P f \<Longrightarrow> listed_seen w g ns f" "n \<in> set ns"
  shows "harmless env P (observeApproval env g now n)"
  unfolding observeApproval_def
proof (rule ends_if, rule ends_give, rule TrueI)
  assume "\<not> (\<not> node_of_type g ''APPROVAL'' (n_workflowNodeKey n) \<or> n_status n \<noteq> NR_WAITING)"
  then have w: "node_of_type g ''APPROVAL'' (n_workflowNodeKey n)" "n_status n \<noteq> NR_SKIPPED" by auto
  then obtain node where node: "map_of (g_nodesByKey g) (n_workflowNodeKey n) = Some node" "of_type ''APPROVAL'' node"
    using node_of_typeD(1) by blast
  let ?R = "\<lambda>r f. case r of None \<Rightarrow> True | Some r \<Rightarrow> ap_workflowNodeRunId r = n_id n \<and> (ap_status r \<noteq> AR_PENDING \<longrightarrow> approval_seen r f)"
  show "harmless env P (act_then (reading (\<lambda>f. findApprovalRequestByWorkflowNodeRunId (fl_approvals f) (n_id n)))
      (\<lambda>found. case found of None \<Rightarrow> give ()
        | Some request \<Rightarrow> if ap_status request = AR_PENDING then give () else observeDecision env now n request))"
  proof (rule ends_reading_then [where R = ?R, OF P], goal_cases)
    case (1 f)
    have d: "distinct (map_keys (fl_approvals f))" "\<forall>i r. map_of (fl_approvals f) i = Some r \<longrightarrow> ap_id r = i"
      using good_keyed [OF 1(1)] by (simp_all add: flow_keyed_def)
    show ?case
    proof (cases "findApprovalRequestByWorkflowNodeRunId (fl_approvals f) (n_id n)")
      case (Some r)
      then have "r \<in> set (map_values (fl_approvals f))" "ap_workflowNodeRunId r = n_id n"
        unfolding findApprovalRequestByWorkflowNodeRunId_def by (auto simp: find_Some_iff dest: find_Some_mem)
      with d Some show ?thesis unfolding values_map_of [OF d(1)] by (auto simp: approval_seen_def)
    qed simp
  next
    case (2 found)
    show ?case
    proof (intro ends_case_option ends_if ends_give TrueI)
      fix r assume r: "found = Some r" "ap_status r \<noteq> AR_PENDING"
      let ?P = "\<lambda>f. P f \<and> ap_workflowNodeRunId r = n_id n \<and> approval_seen r f"
      have st: "stable env ?P" by (intro stable_facts P)
      have "harmless env ?P (observeDecision env now n r)" if "ap_workflowNodeRunId r = n_id n"
      proof (rule harmless_observeDecision [OF env st _ _ that])
        fix f assume f: "good env f" "?P f"
        from f ns(1) [OF f(1)] have "listed_seen w g ns f" by blast
        then show "node_seen n f \<and> enabled_seen n (of_type ''APPROVAL'') f"
          by (rule listed_enabled [where T = "of_type ''APPROVAL''", OF _ ns(2) w(2) node])
      qed blast
      then show "harmless env (\<lambda>f. P f \<and> ?R found f) (observeDecision env now n r)"
        by (cases "ap_workflowNodeRunId r = n_id n") (auto simp: r ends_def)
    qed
  qed
qed

lemma harmless_observeApprovalDecisions:
  assumes env: "env_ok env" and P: "stable env P" and w: "\<And>f. good env f \<Longrightarrow> P f \<Longrightarrow> graph_seen (rcm_workflowRun c) g f"
  shows "harmless env P (observeApprovalDecisions env g c)"
  unfolding observeApprovalDecisions_def
proof (rule ends_list_then [OF env P w])
  fix ns
  have st: "stable env (\<lambda>f. P f \<and> listed_seen (rcm_workflowRun c) g ns f)" by (intro stable_facts P)
  show "harmless env (\<lambda>f. P f \<and> listed_seen (rcm_workflowRun c) g ns f) (for_all (observeApproval env g (rcm_now c)) ns)"
    by (intro harmless_for_all st harmless_observeApproval [where w = "rcm_workflowRun c" and ns = ns, OF env st]) auto
qed

lemma harmless_materializeReadyApprovals:
  assumes env: "env_ok env" and P: "stable env P" and w: "\<And>f. good env f \<Longrightarrow> P f \<Longrightarrow> graph_seen (rcm_workflowRun c) g f"
  shows "harmless env P (materializeReadyApprovals env g c)"
  unfolding materializeReadyApprovals_def Let_def
proof (rule harmless_phase [OF env P w])
  fix v ns
  let ?P = "\<lambda>f. P f \<and> view_at v g ns f"
  have st: "stable env ?P" by (intro stable_facts P)
  show "harmless env ?P (for_all (\<lambda>k.
      act_then (nodeRunFor env g v (nodeRunsByKey ns) (rcm_now c) k) (\<lambda>n.
        if isTerminalWorkflowNodeRunState (n_status n) then give () else activateApprovalNode env n (rcm_now c)))
      (filter (\<lambda>k. node_of_type g ''APPROVAL'' k \<and> isNodeReady g k (nodeRunsByKey ns)) (map_keys (g_nodesByKey g))))"
  proof (rule harmless_for_all [OF st])
    fix k assume "k \<in> set (filter (\<lambda>k. node_of_type g ''APPROVAL'' k \<and> isNodeReady g k (nodeRunsByKey ns)) (map_keys (g_nodesByKey g)))"
    then have k: "isNodeReady g k (nodeRunsByKey ns)" and "node_of_type g ''APPROVAL'' k" by simp_all
    with node_of_typeD(1) obtain node where node: "map_of (g_nodesByKey g) k = Some node" "of_type ''APPROVAL'' node" by blast
    have activate: "harmless env (\<lambda>f. ?P f \<and> node_seen n f \<and> enabled_seen n (of_type ''APPROVAL'') f)
        (activateApprovalNode env n (rcm_now c))" for n
    proof -
      have s2: "stable env (\<lambda>f. ?P f \<and> node_seen n f \<and> enabled_seen n (of_type ''APPROVAL'') f)" by (intro stable_facts P)
      show ?thesis
        unfolding activateApprovalNode_def
        by (intro harmless_then [OF harmless_from [OF ends_suspendNode [where T = "of_type ''APPROVAL''", OF env s2]]]
            ends_case_option ends_if ends_give harmless_ensureApprovalRequest env s2 TrueI) auto
    qed
    show "harmless env ?P (act_then (nodeRunFor env g v (nodeRunsByKey ns) (rcm_now c) k) (\<lambda>n.
        if isTerminalWorkflowNodeRunState (n_status n) then give () else activateApprovalNode env n (rcm_now c)))"
      by (rule harmless_ready_node [where T = "of_type ''APPROVAL''", OF env st _ k node])
        (use activate in \<open>auto dest: view_atD\<close>)
  qed
qed

subsection \<open>Waits\<close>

lemma harmless_ensureWorkflowWait:
  assumes env: "env_ok env" and P: "stable env P"
  shows "harmless env P (ensureWorkflowWait env n config w)"
  unfolding ensureWorkflowWait_def storeWait_def
  by (intro ends_if ends_give ends_case_option ends_throw ends_lift_then harmless_reading_then harmless_check
      harmless_catch ends_on_waits saved_wait_ok env P waits_stable TrueI)

definition wait_seen :: "string \<Rightarrow> workflow_wait \<Rightarrow> 'w flow \<Rightarrow> bool" where
  "wait_seen i t f \<longleftrightarrow> ww_resolution t \<noteq> None \<and> map_of (fl_waits f) i = Some t"

lemma stable_wait_seen [stable_facts]: "stable env (wait_seen i t)"
  by (rule stableI) (auto simp: wait_seen_def dest: wait_of_node_kept)

lemma of_waits:
  assumes "settled n m row" "wait_seen (n_id n) t f"
  shows "map_of (fl_waits f) (n_id row) = Some t"
  using assms by (simp add: settled_def same_node_def wait_seen_def)

lemma harmless_observeWait:
  assumes env: "env_ok env" and P: "stable env P" and ns: "\<And>f. good env f \<Longrightarrow> P f \<Longrightarrow> listed_seen w g ns f" "n \<in> set ns"
  shows "harmless env P (observeWait env g now n)"
  unfolding observeWait_def
proof (rule ends_if, rule ends_give, rule TrueI, rule ends_if, rule ends_give, rule TrueI)
  assume "\<not> (\<not> node_of_type g ''WAIT'' (n_workflowNodeKey n) \<or> n_status n \<noteq> NR_WAITING)"
  then have w: "node_of_type g ''WAIT'' (n_workflowNodeKey n)" "n_status n \<noteq> NR_SKIPPED" by auto
  then obtain node where node: "map_of (g_nodesByKey g) (n_workflowNodeKey n) = Some node" "of_type ''WAIT'' node"
    using node_of_typeD(1) by blast
  have seen: "node_seen n f \<and> enabled_seen n (of_type ''WAIT'') f" if "good env f" "P f" for f
    using listed_enabled [where T = "of_type ''WAIT''", OF ns(1) [OF that] ns(2) w(2) node] .
  have no_agent: "\<not> of_type ''AGENT'' nd" if "of_type ''WAIT'' nd" for nd using that by (simp add: of_type_def)
  have body: "harmless env (\<lambda>f. P f \<and> wait_seen (n_id n) t f)
      (act_then (storeMarked env n (WorkflowNodeRun_markFailed n now workflowEventTimeoutError)) (\<lambda>u. give ()))"
    if t: "ww_resolution t = Some Res_TIMEOUT" for t
  proof -
    let ?P = "\<lambda>f. P f \<and> wait_seen (n_id n) t f"
    have st: "stable env ?P" by (intro stable_facts P)
    show ?thesis
    proof (rule harmless_then [OF harmless_from [OF ends_storeMarked_type [where T = "of_type ''WAIT''", OF env st _ no_agent]] ends_give st])
      fix m assume "WorkflowNodeRun_markFailed n now workflowEventTimeoutError = Inr m"
      then show "marked_from n m \<and> n_status m \<noteq> NR_SKIPPED" using marks_from(3) by fastforce
    next
      fix f m w nd row assume "?P f" and m: "WorkflowNodeRun_markFailed n now workflowEventTimeoutError = Inr m"
        and nd: "of_type ''WAIT'' nd" and row: "settled n m row"
      then show "status_reason (re_sha256 env) f w nd row"
        using marks_from(3) [OF m] of_waits [OF row, of t f] t
        by (auto simp: status_reason_def failure_reason_def of_type_def settled_def)
    qed (use seen in auto)
  qed
  have body': "harmless env (\<lambda>f. P f \<and> wait_seen (n_id n) t f)
      (act_then (storeMarked env n (WorkflowNodeRun_markSucceeded n now (n_input n) None)) (\<lambda>u. give ()))"
    if t: "ww_resolution t \<in> {Some Res_TIMER, Some Res_EVENT}" for t
  proof -
    let ?P = "\<lambda>f. P f \<and> wait_seen (n_id n) t f"
    have st: "stable env ?P" by (intro stable_facts P)
    show ?thesis
    proof (rule harmless_then [OF harmless_from [OF ends_storeMarked_type [where T = "of_type ''WAIT''", OF env st _ no_agent]] ends_give st])
      fix m assume "WorkflowNodeRun_markSucceeded n now (n_input n) None = Inr m"
      then show "marked_from n m \<and> n_status m \<noteq> NR_SKIPPED" using markSucceeded_from by fastforce
    next
      fix f m w nd row assume "?P f" and m: "WorkflowNodeRun_markSucceeded n now (n_input n) None = Inr m"
        and nd: "of_type ''WAIT'' nd" and row: "settled n m row"
      then show "status_reason (re_sha256 env) f w nd row"
        using markSucceeded_from [OF m] of_waits [OF row, of t f] t
        by (auto simp: status_reason_def success_reason_def of_type_def settled_def)
    qed (use seen in auto)
  qed
  let ?R = "\<lambda>r f. case r of None \<Rightarrow> True | Some t \<Rightarrow> ww_resolution t \<noteq> None \<longrightarrow> wait_seen (n_id n) t f"
  show "harmless env P (act_then (reading (\<lambda>f. findWorkflowWaitByWorkflowNodeRunId (fl_waits f) (n_id n))) (\<lambda>found.
      case found of None \<Rightarrow> give ()
      | Some wait \<Rightarrow> (case ww_resolution wait of None \<Rightarrow> give () | Some Res_CANCELLED \<Rightarrow> give ()
          | Some Res_TIMEOUT \<Rightarrow> act_then (storeMarked env n (WorkflowNodeRun_markFailed n now workflowEventTimeoutError)) (\<lambda>u. give ())
          | Some r \<Rightarrow> act_then (storeMarked env n (WorkflowNodeRun_markSucceeded n now (n_input n) None)) (\<lambda>u. give ()))))"
  proof (rule ends_reading_then [where R = ?R, OF P], goal_cases)
    case (1 f)
    show ?case
      by (cases "findWorkflowWaitByWorkflowNodeRunId (fl_waits f) (n_id n)")
        (simp_all add: wait_seen_def findWorkflowWaitByWorkflowNodeRunId_def)
  next
    case (2 found)
    show ?case
    proof (rule ends_case_option, rule ends_give, rule TrueI, rule ends_case_option, rule ends_give, rule TrueI)
      fix t r assume t: "found = Some t" "ww_resolution t = Some r"
      have pre: "harmless env (\<lambda>f. P f \<and> ?R found f) m" if "harmless env (\<lambda>f. P f \<and> wait_seen (n_id n) t f) m" for m :: "('a, unit) act"
        by (rule ends_pre [OF that]) (simp add: t)
      show "harmless env (\<lambda>f. P f \<and> ?R found f) (case r of Res_CANCELLED \<Rightarrow> give ()
          | Res_TIMEOUT \<Rightarrow> act_then (storeMarked env n (WorkflowNodeRun_markFailed n now workflowEventTimeoutError)) (\<lambda>u. give ())
          | _ \<Rightarrow> act_then (storeMarked env n (WorkflowNodeRun_markSucceeded n now (n_input n) None)) (\<lambda>u. give ()))"
        by (cases r) (simp_all add: pre body body' t ends_give)
    qed
  qed
qed

lemma ends_loadGraph:
  assumes env: "env_ok env" and P: "stable env P" and w: "\<And>f. good env f \<Longrightarrow> P f \<Longrightarrow> run_seen w f"
  shows "safe env P (loadGraph w) (graph_seen w)"
  unfolding loadGraph_def
proof (rule ends_reading_then [where R = "\<lambda>r f. case r of None \<Rightarrow> True
    | Some v \<Rightarrow> \<forall>g. buildWorkflowGraph (wv_definition v) = Inr g \<longrightarrow> graph_seen w g f", OF P], goal_cases)
  case (1 f)
  then show ?case using w by (auto simp: graph_seen_def version_graph_def split: option.split)
next
  case (2 found)
  show ?case by (rule ends_case_option, rule ends_throw, rule TrueI, rule ends_lift) simp_all
qed

lemma harmless_observeResolvedWorkflowWaits:
  assumes env: "env_ok env" and P: "stable env P" and w: "\<And>f. good env f \<Longrightarrow> P f \<Longrightarrow> graph_seen (rcm_workflowRun c) g f"
  shows "harmless env P (observeResolvedWorkflowWaits env g c)"
  unfolding observeResolvedWorkflowWaits_def
proof (rule harmless_phase [OF env P w])
  fix v ns
  have st: "stable env (\<lambda>f. P f \<and> view_at v g ns f)" by (intro stable_facts P)
  show "harmless env (\<lambda>f. P f \<and> view_at v g ns f) (for_all (observeWait env g (rcm_now c)) ns)"
    by (intro harmless_for_all st harmless_observeWait [where w = v and ns = ns, OF env st]) (auto simp: view_at_def)
qed

lemma harmless_ensureWaitingWorkflowWaits:
  assumes env: "env_ok env" and P: "stable env P"
  shows "harmless env P (ensureWaitingWorkflowWaits env g w)"
  unfolding ensureWaitingWorkflowWaits_def listNodes_def
  by (intro ends_if ends_give harmless_reading_then harmless_for_all ends_case_option harmless_ensureWorkflowWait env P TrueI)

lemma harmless_repairAndObserve:
  assumes env: "env_ok env" and P: "stable env P" and w: "\<And>f. good env f \<Longrightarrow> P f \<Longrightarrow> run_seen (rcm_workflowRun c) f"
  shows "harmless env P (repairAndObserve env c)"
  unfolding repairAndObserve_def
proof (rule ends_then [OF ends_loadGraph [OF env P w] _ P])
  fix g
  have st: "stable env (\<lambda>f. P f \<and> graph_seen (rcm_workflowRun c) g f)" by (intro stable_facts P)
  show "harmless env (\<lambda>f. P f \<and> graph_seen (rcm_workflowRun c) g f)
      (act_then (reloadActive (w_id (rcm_workflowRun c))) (\<lambda>active. case active of None \<Rightarrow> give ()
        | Some w \<Rightarrow> act_then (ensureWaitingWorkflowWaits env g w) (\<lambda>u. observeResolvedWorkflowWaits env g c)))"
    by (rule harmless_active_then [where g = g, OF env st])
      (auto intro!: harmless_then harmless_ensureWaitingWorkflowWaits harmless_observeResolvedWorkflowWaits env stable_facts P)
qed

lemma harmless_materializeReadyWorkflowWaits:
  assumes env: "env_ok env" and P: "stable env P" and w: "\<And>f. good env f \<Longrightarrow> P f \<Longrightarrow> graph_seen (rcm_workflowRun c) g f"
  shows "harmless env P (materializeReadyWorkflowWaits env g c)"
  unfolding materializeReadyWorkflowWaits_def Let_def
proof (rule harmless_phase [OF env P w])
  fix v ns
  let ?P = "\<lambda>f. P f \<and> view_at v g ns f"
  have st: "stable env ?P" by (intro stable_facts P)
  show "harmless env ?P (for_all (\<lambda>k. case waitConfigurationForNode g k of None \<Rightarrow> give ()
      | Some config \<Rightarrow> act_then (nodeRunFor env g v (nodeRunsByKey ns) (rcm_now c) k) (\<lambda>n.
          if isTerminalWorkflowNodeRunState (n_status n) then give () else activateWaitNode env n config v (rcm_now c)))
      (filter (\<lambda>k. node_of_type g ''WAIT'' k \<and> isNodeReady g k (nodeRunsByKey ns)) (map_keys (g_nodesByKey g))))"
  proof (rule harmless_for_all [OF st], rule ends_case_option, rule ends_give, rule TrueI)
    fix k config assume "k \<in> set (filter (\<lambda>k. node_of_type g ''WAIT'' k \<and> isNodeReady g k (nodeRunsByKey ns)) (map_keys (g_nodesByKey g)))"
    then have k: "isNodeReady g k (nodeRunsByKey ns)" and "node_of_type g ''WAIT'' k" by simp_all
    with node_of_typeD(1) obtain node where node: "map_of (g_nodesByKey g) k = Some node" "of_type ''WAIT'' node" by blast
    have activate: "harmless env (\<lambda>f. ?P f \<and> node_seen n f \<and> enabled_seen n (of_type ''WAIT'') f)
        (activateWaitNode env n config v (rcm_now c))" for n
    proof -
      have s2: "stable env (\<lambda>f. ?P f \<and> node_seen n f \<and> enabled_seen n (of_type ''WAIT'') f)" by (intro stable_facts P)
      show ?thesis
        unfolding activateWaitNode_def
        by (intro harmless_then [OF harmless_from [OF ends_suspendNode [where T = "of_type ''WAIT''", OF env s2]]]
            ends_case_option ends_if ends_give harmless_ensureWorkflowWait env s2 TrueI) auto
    qed
    show "harmless env ?P (act_then (nodeRunFor env g v (nodeRunsByKey ns) (rcm_now c) k) (\<lambda>n.
        if isTerminalWorkflowNodeRunState (n_status n) then give () else activateWaitNode env n config v (rcm_now c)))"
      by (rule harmless_ready_node [where T = "of_type ''WAIT''", OF env st _ k node])
        (use activate in \<open>auto dest: view_atD\<close>)
  qed
qed

lemma harmless_materializeReady:
  assumes env: "env_ok env" and P: "stable env P" and w: "\<And>f. good env f \<Longrightarrow> P f \<Longrightarrow> run_seen (rcm_workflowRun c) f"
  shows "harmless env P (materializeReady env c)"
  unfolding materializeReady_def
proof (rule ends_then [OF ends_loadGraph [OF env P w] _ P])
  fix g
  have st: "stable env (\<lambda>f. P f \<and> graph_seen (rcm_workflowRun c) g f)" by (intro stable_facts P)
  show "harmless env (\<lambda>f. P f \<and> graph_seen (rcm_workflowRun c) g f)
      (act_then (reloadActive (w_id (rcm_workflowRun c))) (\<lambda>active. case active of None \<Rightarrow> give ()
        | Some w \<Rightarrow> materializeReadyWorkflowWaits env g c))"
    by (rule harmless_active_then [where g = g, OF env st])
      (auto intro!: harmless_materializeReadyWorkflowWaits env stable_facts P)
qed

subsection \<open>The whole pass\<close>

lemma harmless_advanceRun:
  assumes env: "env_ok env" and P: "stable env P" and g: "graph_built g"
    and w: "\<And>f. good env f \<Longrightarrow> P f \<Longrightarrow> graph_seen (rcm_workflowRun c) g f"
  shows "harmless env P (advanceRun env g version c)"
  unfolding advanceRun_def resolveOrchestrationNodes_def
proof -
  have skips: "harmless env P (propagateSkips env g c)" by (rule harmless_propagateSkips [OF env P]) (rule w)
  have rounds: "harmless env P (resolveRounds n env g c)" for n by (rule harmless_resolveRounds [OF env P g]) (rule w)
  have approvals: "harmless env P (materializeReadyApprovals env g c)"
    by (rule harmless_materializeReadyApprovals [OF env P]) (rule w)
  have waits: "harmless env P (materializeReady env c)"
    by (rule harmless_materializeReady [OF env P]) (use w in \<open>simp add: graph_seen_def\<close>)
  have agents: "harmless env P (startReadyAgents env g version c)"
    by (rule harmless_startReadyAgents [OF env P]) (rule w)
  have finish: "harmless env P (act_then (reloadActive (w_id (rcm_workflowRun c)))
      (\<lambda>active. case active of None \<Rightarrow> give ()
        | Some w \<Rightarrow> act_then (listNodes (w_id w)) (\<lambda>listed. concludeRun env g w (nodeRunsByKey listed) (rcm_now c))))"
  proof (rule harmless_phase [OF env P w])
    fix v ns
    have st: "stable env (\<lambda>f. P f \<and> view_at v g ns f)" by (intro stable_facts P)
    show "harmless env (\<lambda>f. P f \<and> view_at v g ns f) (concludeRun env g v (nodeRunsByKey ns) (rcm_now c))"
      by (rule harmless_concludeRun [OF env st _ refl]) (auto dest: view_atD)
  qed
  show "harmless env P (act_then (propagateSkips env g c) (\<lambda>u.
      act_then (resolveRounds (length (g_nodesByKey g)) env g c) (\<lambda>u.
      act_then (propagateSkips env g c) (\<lambda>u.
      act_then (materializeReadyApprovals env g c) (\<lambda>u.
      act_then (materializeReady env c) (\<lambda>u.
      act_then (startReadyAgents env g version c) (\<lambda>u.
      act_then (reloadActive (w_id (rcm_workflowRun c))) (\<lambda>active. case active of None \<Rightarrow> give ()
        | Some w \<Rightarrow> act_then (listNodes (w_id w)) (\<lambda>listed.
            concludeRun env g w (nodeRunsByKey listed) (rcm_now c))))))))))"
    by (rule harmless_then [OF skips _ P], rule harmless_then [OF rounds _ P], rule harmless_then [OF skips _ P],
        rule harmless_then [OF approvals _ P], rule harmless_then [OF waits _ P], rule harmless_then [OF agents finish P])
qed

lemma harmless_failed_then:
  assumes env: "env_ok env" and P: "stable env P"
    and w: "\<And>f. good env f \<Longrightarrow> P f \<Longrightarrow> view_at w g ns f" and m: "harmless env P m"
  shows "harmless env P (case hasFailedNode (nodeRunsByKey ns) of
      Some failed \<Rightarrow> failWorkflow env w (node_error failed) now | None \<Rightarrow> m)"
proof (rule ends_case_option [OF m])
  fix n assume n: "hasFailedNode (nodeRunsByKey ns) = Some n"
  show "harmless env P (failWorkflow env w (node_error n) now)"
  proof (rule harmless_failWorkflow [OF env P])
    fix f assume f: "good env f" "P f"
    from hasFailedNode_view [OF n] view_atD [OF w [OF f]] show "failure_seen w g f"
      using failed_view by blast
  qed
qed

lemma harmless_observeOutside:
  assumes env: "env_ok env" and P: "stable env P" and g: "graph_built g"
    and w: "\<And>f. good env f \<Longrightarrow> P f \<Longrightarrow> graph_seen (rcm_workflowRun c) g f"
  shows "harmless env P (observeOutside env g version c)"
  unfolding observeOutside_def Let_def
proof (intro harmless_then [OF harmless_observeApprovalDecisions [OF env P w] _ P] harmless_still_active_then [OF env P w])
  show "harmless env P (act_then (repairAndObserve env c) (\<lambda>u. act_then (reloadActive (w_id (rcm_workflowRun c))) (\<lambda>active.
      case active of None \<Rightarrow> give ()
      | Some w \<Rightarrow> act_then (listNodes (w_id w)) (\<lambda>listed.
          case hasFailedNode (nodeRunsByKey listed) of
            None \<Rightarrow> act_then (reloadActive (w_id (rcm_workflowRun c))) (\<lambda>active.
                if active = None then give () else advanceRun env g version c)
          | Some failed \<Rightarrow> failWorkflow env w (node_error failed) (rcm_now c)))))"
  proof (rule harmless_then [OF harmless_repairAndObserve [OF env P] _ P])
    fix f assume "good env f" "P f"
    then show "run_seen (rcm_workflowRun c) f" using w by (simp add: graph_seen_def)
  next
    show "harmless env P (act_then (reloadActive (w_id (rcm_workflowRun c))) (\<lambda>active.
      case active of None \<Rightarrow> give ()
      | Some w \<Rightarrow> act_then (listNodes (w_id w)) (\<lambda>listed.
          case hasFailedNode (nodeRunsByKey listed) of
            None \<Rightarrow> act_then (reloadActive (w_id (rcm_workflowRun c))) (\<lambda>active.
                if active = None then give () else advanceRun env g version c)
          | Some failed \<Rightarrow> failWorkflow env w (node_error failed) (rcm_now c))))"
    proof (rule harmless_phase [OF env P w])
      fix v ns
      let ?P = "\<lambda>f. P f \<and> view_at v g ns f"
      have st: "stable env ?P" by (intro stable_facts P)
      have w': "graph_seen (rcm_workflowRun c) g f" if "good env f" "?P f" for f using w that by blast
      show "harmless env ?P (case hasFailedNode (nodeRunsByKey ns) of
            None \<Rightarrow> act_then (reloadActive (w_id (rcm_workflowRun c))) (\<lambda>active.
                if active = None then give () else advanceRun env g version c)
          | Some failed \<Rightarrow> failWorkflow env v (node_error failed) (rcm_now c))"
        by (rule harmless_failed_then [where g = g, OF env st])
          (auto intro!: harmless_still_active_then [OF env st w'] harmless_advanceRun [OF env st g w'])
    qed
  qed
qed

lemma harmless_reconcile:
  assumes env: "env_ok env" and P: "stable env P" and w: "\<And>f. good env f \<Longrightarrow> P f \<Longrightarrow> run_seen (rcm_workflowRun c) f"
  shows "harmless env P (reconcileWorkflowRun env c)"
  unfolding reconcileWorkflowRun_def loadVersion_def
proof (rule ends_then [OF _ _ P])
  let ?R = "\<lambda>v f. findWorkflowVersionById (fl_catalog f) (w_workflowVersionId (rcm_workflowRun c)) = Some v"
  have sR: "stable env (?R v)" for v by (rule stableI) (rule flow_kept_version)
  show "safe env P (act_then (reading (\<lambda>f. findWorkflowVersionById (fl_catalog f) (w_workflowVersionId (rcm_workflowRun c))))
      (\<lambda>version. case version of None \<Rightarrow> lift_act (Inl (DomainInvariantError (''WorkflowRun references missing WorkflowVersion ''
          @ w_workflowVersionId (rcm_workflowRun c) @ ''.''))) | Some v \<Rightarrow> give v)) ?R"
  proof (rule ends_reading_then [where R = "\<lambda>r f. case r of None \<Rightarrow> True | Some v \<Rightarrow> ?R v f", OF P], goal_cases)
    case (2 r)
    show ?case by (rule ends_case_option, rule ends_throw, rule TrueI, rule ends_give) simp
  qed (simp split: option.split)
  fix version
  let ?P = "\<lambda>f. P f \<and> ?R version f"
  have st: "stable env ?P" by (intro stable_facts P sR)
  have pass: "harmless env ?P (act_then (observeExistingAgents env g c) (\<lambda>u.
      act_then (reloadWorkflowRun (w_id (rcm_workflowRun c))) (\<lambda>reloaded.
        case reloaded of None \<Rightarrow> give ()
        | Some w \<Rightarrow> act_then (listNodes (w_id w)) (\<lambda>listed.
            case (hasFailedNode (nodeRunsByKey listed), isTerminalWorkflowRunState (w_status w)) of
              (Some failed, False) \<Rightarrow> failWorkflow env w (node_error failed) (rcm_now c)
            | _ \<Rightarrow> act_then (reloadActive (w_id (rcm_workflowRun c))) (\<lambda>active.
                if active = None then give () else observeOutside env g version c)))))"
    if built: "buildWorkflowGraph (wv_definition version) = Inr g" for g
  proof -
    have g: "graph_built g" using built by (auto simp: graph_built_def)
    have seen: "graph_seen (rcm_workflowRun c) g f" if "good env f" "?P f" for f
      using w [OF that(1)] that(2) built by (simp add: graph_seen_def version_graph_def)
    show ?thesis
      unfolding reloadWorkflowRun_def
    proof (rule harmless_then [OF harmless_observeExistingAgents [OF env st] _ st], erule (1) seen,
        rule ends_reading_then [where R = "reloaded (rcm_workflowRun c) g", OF st])
      fix f assume f: "good env f" "?P f"
      show "reloaded (rcm_workflowRun c) g (findWorkflowRunById (fl_store f) (w_id (rcm_workflowRun c))) f"
        using reloaded_seen [OF f(1) seen [OF f]]
        by (cases "findWorkflowRunById (fl_store f) (w_id (rcm_workflowRun c))") simp_all
    next
      fix r
      show "harmless env (\<lambda>f. ?P f \<and> reloaded (rcm_workflowRun c) g r f) (case r of None \<Rightarrow> give ()
        | Some w \<Rightarrow> act_then (listNodes (w_id w)) (\<lambda>listed.
            case (hasFailedNode (nodeRunsByKey listed), isTerminalWorkflowRunState (w_status w)) of
              (Some failed, False) \<Rightarrow> failWorkflow env w (node_error failed) (rcm_now c)
            | _ \<Rightarrow> act_then (reloadActive (w_id (rcm_workflowRun c))) (\<lambda>active.
                if active = None then give () else observeOutside env g version c)))"
      proof (rule ends_case_option, rule ends_give, rule TrueI)
        fix v assume r: "r = Some v"
        let ?Q = "\<lambda>f. ?P f \<and> graph_seen v g f"
        have sq: "stable env ?Q" by (intro stable_facts st)
        have "harmless env ?Q (act_then (listNodes (w_id v)) (\<lambda>listed.
            case (hasFailedNode (nodeRunsByKey listed), isTerminalWorkflowRunState (w_status v)) of
              (Some failed, False) \<Rightarrow> failWorkflow env v (node_error failed) (rcm_now c)
            | _ \<Rightarrow> act_then (reloadActive (w_id (rcm_workflowRun c))) (\<lambda>active.
                if active = None then give () else observeOutside env g version c)))"
        proof (rule ends_list_then [where w = v and g = g, OF env sq])
          fix ns
          let ?V = "\<lambda>f. ?Q f \<and> listed_seen v g ns f"
          have sv: "stable env ?V" by (intro stable_facts sq)
          have w': "graph_seen (rcm_workflowRun c) g f" if "good env f" "?V f" for f using seen that by blast
          have rest: "harmless env ?V (act_then (reloadActive (w_id (rcm_workflowRun c))) (\<lambda>active.
              if active = None then give () else observeOutside env g version c))"
            by (intro harmless_still_active_then [OF env sv w'] harmless_observeOutside [OF env sv g w'])
          have "harmless env ?V (case hasFailedNode (nodeRunsByKey ns) of
              Some failed \<Rightarrow> failWorkflow env v (node_error failed) (rcm_now c)
            | None \<Rightarrow> act_then (reloadActive (w_id (rcm_workflowRun c))) (\<lambda>active.
              if active = None then give () else observeOutside env g version c))"
            by (rule harmless_failed_then [where g = g, OF env sv _ rest]) (simp add: view_at_def)
          with rest show "harmless env ?V (case (hasFailedNode (nodeRunsByKey ns), isTerminalWorkflowRunState (w_status v)) of
              (Some failed, False) \<Rightarrow> failWorkflow env v (node_error failed) (rcm_now c)
            | _ \<Rightarrow> act_then (reloadActive (w_id (rcm_workflowRun c))) (\<lambda>active.
                if active = None then give () else observeOutside env g version c))"
            by (cases "isTerminalWorkflowRunState (w_status v)") (simp_all split: option.split option.split_asm)
        qed simp
        then show "harmless env (\<lambda>f. ?P f \<and> reloaded (rcm_workflowRun c) g r f) (act_then (listNodes (w_id v)) (\<lambda>listed.
            case (hasFailedNode (nodeRunsByKey listed), isTerminalWorkflowRunState (w_status v)) of
              (Some failed, False) \<Rightarrow> failWorkflow env v (node_error failed) (rcm_now c)
            | _ \<Rightarrow> act_then (reloadActive (w_id (rcm_workflowRun c))) (\<lambda>active.
                if active = None then give () else observeOutside env g version c)))"
          by (rule ends_pre) (simp add: r)
      qed
    qed
  qed
  show "harmless env ?P (act_then (check_act (assertWorkflowDefinitionExecutable (wv_definition version))) (\<lambda>u.
      act_then (lift_act (buildWorkflowGraph (wv_definition version))) (\<lambda>g. act_then (observeExistingAgents env g c) (\<lambda>u.
      act_then (reloadWorkflowRun (w_id (rcm_workflowRun c))) (\<lambda>reloaded.
        case reloaded of None \<Rightarrow> give ()
        | Some w \<Rightarrow> act_then (listNodes (w_id w)) (\<lambda>listed.
            case (hasFailedNode (nodeRunsByKey listed), isTerminalWorkflowRunState (w_status w)) of
              (Some failed, False) \<Rightarrow> failWorkflow env w (node_error failed) (rcm_now c)
            | _ \<Rightarrow> act_then (reloadActive (w_id (rcm_workflowRun c))) (\<lambda>active.
                if active = None then give () else observeOutside env g version c)))))))"
    by (intro harmless_then [OF harmless_check _ st] ends_lift_then pass TrueI)
qed

subsection \<open>The orchestrator\<close>

lemma harmless_settle:
  assumes "harmless env P m" "stable env P" "\<And>r. harmless env P (k r)"
  shows "harmless env P (act_settle m k)"
  by (rule ends_settle [OF assms(1,2)]) (simp add: assms(3))

lemma harmless_reconcileEach:
  assumes env: "env_ok env"
  shows "harmless env (\<lambda>f. \<forall>w\<in>set ws. run_seen w f) (reconcileEach env now ws)"
proof (induction ws)
  case (Cons w ws)
  have st: "stable env (\<lambda>f. \<forall>v\<in>set vs. run_seen v f)" for vs
    by (rule stableI) (meson stableD [OF stable_run_seen])
  have "harmless env (\<lambda>f. \<forall>v\<in>set (w # ws). run_seen v f)
      (reconcileWorkflowRun env \<lparr> rcm_workflowRun = w, rcm_now = now \<rparr>)"
    by (rule ends_pre [OF harmless_reconcile [OF env stable_run_seen [of env w]]]) simp_all
  then show ?case
    unfolding reconcileEach.simps
    by (rule harmless_settle [OF _ st]) (rule ends_pre [OF Cons.IH], simp)
qed (simp add: ends_give)

lemma harmless_orchestratorTick:
  assumes env: "env_ok env"
  shows "harmless env (\<lambda>f. True) (orchestratorTick env limit now)"
  unfolding orchestratorTick_def
proof (rule ends_reading_then [where R = "\<lambda>ws f. \<forall>w\<in>set ws. run_seen w f"])
  let ?n = "case limit of None \<Rightarrow> 50 | Some n \<Rightarrow> n"
  fix f :: "'a flow" assume f: "good env f"
  show "\<forall>w\<in>set (listActiveWorkflowRuns (fl_store f) ?n). run_seen w f"
  proof
    fix w assume "w \<in> set (listActiveWorkflowRuns (fl_store f) ?n)"
    then have "w \<in> set (map_values (ws_runs (fl_store f)))"
      by (auto simp: listActiveWorkflowRuns_def dest!: in_set_takeD)
    moreover have "distinct (map_keys (ws_runs (fl_store f)))" using good_keyed [OF f] by (simp add: flow_keyed_def)
    ultimately obtain i where "findWorkflowRunById (fl_store f) i = Some w"
      using values_map_of unfolding findWorkflowRunById_def by metis
    then show "run_seen w f" using run_found_seen [OF f] by blast
  qed
next
  fix ws
  show "harmless env (\<lambda>f. True \<and> (\<forall>w\<in>set ws. run_seen w f)) (reconcileEach env now ws)"
    by (rule ends_pre [OF harmless_reconcileEach [OF env]]) simp
qed (rule stable_const)

end
