(* ===== verification/Access_Control.thy ===== *)
theory Access_Control
  imports Json_Text
begin

text \<open>
  Who may call what: the principals and roles of \<open>contracts/src/security.ts\<close> and
  \<open>human-identity.ts\<close>, the decisions of \<open>domain/src/authorization.ts\<close>,
  \<open>control-plane.ts\<close>, \<open>human-authorization.ts\<close> and \<open>rest-resource-access.ts\<close>, API keys
  with their tokens (\<open>api-key.ts\<close>, \<open>api-key-credential.ts\<close>, \<open>authenticate-api-key.ts\<close>,
  the memory repository), workspace access of humans and the audit events of the control plane.
  The hash of secrets and the printing of audit details are parameters.
\<close>

subsection \<open>Actions, roles and principals\<close>

datatype authorization_action = Action_READ | Action_EXECUTE | Action_WRITE | Action_ADMIN

datatype community_role = Role_VIEWER | Role_OPERATOR | Role_EDITOR | Role_ADMIN

datatype human_role = Human_OWNER | Human_ADMIN | Human_DEVELOPER | Human_OPERATOR | Human_VIEWER

datatype human_permission =
    Perm_ACCESS_WORKSPACE | Perm_READ | Perm_EXECUTE | Perm_WRITE | Perm_ADMINISTER_WORKSPACE
  | Perm_MANAGE_MEMBERS | Perm_TRANSFER_OWNERSHIP

record api_key_principal =
  akp_subjectId :: string
  akp_workspaceId :: string
  akp_role :: community_role

record human_principal =
  hp_userId :: string
  hp_sessionId :: string
  hp_workspaceId :: "string option"
  hp_humanRole :: "human_role option"

datatype principal =
    API_KEY api_key_principal
  | HUMAN_SESSION human_principal
  | SYSTEM api_key_principal

fun ROLE_ACTIONS :: "community_role \<Rightarrow> authorization_action list" where
  "ROLE_ACTIONS Role_VIEWER = [Action_READ]"
| "ROLE_ACTIONS Role_OPERATOR = [Action_READ, Action_EXECUTE]"
| "ROLE_ACTIONS Role_EDITOR = [Action_READ, Action_EXECUTE, Action_WRITE]"
| "ROLE_ACTIONS Role_ADMIN = [Action_READ, Action_EXECUTE, Action_WRITE, Action_ADMIN]"

definition rolePermitsAction :: "community_role \<Rightarrow> authorization_action \<Rightarrow> bool" where
  "rolePermitsAction role action = (action \<in> set (ROLE_ACTIONS role))"

fun HUMAN_ROLE_PERMISSIONS :: "human_role \<Rightarrow> human_permission list" where
  "HUMAN_ROLE_PERMISSIONS Human_VIEWER = [Perm_ACCESS_WORKSPACE, Perm_READ]"
| "HUMAN_ROLE_PERMISSIONS Human_OPERATOR = [Perm_ACCESS_WORKSPACE, Perm_READ, Perm_EXECUTE]"
| "HUMAN_ROLE_PERMISSIONS Human_DEVELOPER = [Perm_ACCESS_WORKSPACE, Perm_READ, Perm_EXECUTE, Perm_WRITE]"
| "HUMAN_ROLE_PERMISSIONS Human_ADMIN = [Perm_ACCESS_WORKSPACE, Perm_READ, Perm_EXECUTE, Perm_WRITE,
     Perm_ADMINISTER_WORKSPACE, Perm_MANAGE_MEMBERS]"
| "HUMAN_ROLE_PERMISSIONS Human_OWNER = [Perm_ACCESS_WORKSPACE, Perm_READ, Perm_EXECUTE, Perm_WRITE,
     Perm_ADMINISTER_WORKSPACE, Perm_MANAGE_MEMBERS, Perm_TRANSFER_OWNERSHIP]"

fun HUMAN_ROLE_AUTHORIZATION_ACTIONS :: "human_role \<Rightarrow> authorization_action list" where
  "HUMAN_ROLE_AUTHORIZATION_ACTIONS Human_VIEWER = [Action_READ]"
| "HUMAN_ROLE_AUTHORIZATION_ACTIONS Human_OPERATOR = [Action_READ, Action_EXECUTE]"
| "HUMAN_ROLE_AUTHORIZATION_ACTIONS Human_DEVELOPER = [Action_READ, Action_EXECUTE, Action_WRITE]"
| "HUMAN_ROLE_AUTHORIZATION_ACTIONS Human_ADMIN = [Action_READ, Action_EXECUTE, Action_WRITE, Action_ADMIN]"
| "HUMAN_ROLE_AUTHORIZATION_ACTIONS Human_OWNER = [Action_READ, Action_EXECUTE, Action_WRITE, Action_ADMIN]"

definition humanWorkspaceRolePermitsPermission :: "human_role \<Rightarrow> human_permission \<Rightarrow> bool" where
  "humanWorkspaceRolePermitsPermission role permission = (permission \<in> set (HUMAN_ROLE_PERMISSIONS role))"

definition humanWorkspaceRolePermitsAuthorizationAction :: "human_role \<Rightarrow> authorization_action \<Rightarrow> bool" where
  "humanWorkspaceRolePermitsAuthorizationAction role action =
     (action \<in> set (HUMAN_ROLE_AUTHORIZATION_ACTIONS role))"

fun authorizationActionToHumanPermission :: "authorization_action \<Rightarrow> human_permission" where
  "authorizationActionToHumanPermission Action_READ = Perm_READ"
| "authorizationActionToHumanPermission Action_EXECUTE = Perm_EXECUTE"
| "authorizationActionToHumanPermission Action_WRITE = Perm_WRITE"
| "authorizationActionToHumanPermission Action_ADMIN = Perm_ADMINISTER_WORKSPACE"

subsection \<open>Decisions (authorization.ts, control-plane.ts, rest-resource-access.ts)\<close>

text \<open>The kind of the resource is passed along and never looked at.\<close>

definition authorizeApiKeyPrincipal ::
    "api_key_principal \<Rightarrow> authorization_action \<Rightarrow> string \<Rightarrow> osva_error option" where
  "authorizeApiKeyPrincipal subject action workspaceId =
     (if akp_workspaceId subject \<noteq> workspaceId then Some PermissionDeniedError
      else if \<not> rolePermitsAction (akp_role subject) action then Some PermissionDeniedError
      else None)"

definition authorize :: "principal \<Rightarrow> authorization_action \<Rightarrow> string \<Rightarrow> osva_error option" where
  "authorize subject action workspaceId =
     (case subject of
        API_KEY p \<Rightarrow> authorizeApiKeyPrincipal p action workspaceId
      | _ \<Rightarrow> Some PermissionDeniedError)"

definition controlPlaneWorkspaceId :: "principal \<Rightarrow> osva_error + string" where
  "controlPlaneWorkspaceId p =
     (case p of
        HUMAN_SESSION h \<Rightarrow> (case hp_workspaceId h of None \<Rightarrow> Inl PermissionDeniedError | Some w \<Rightarrow> Inr w)
      | API_KEY k \<Rightarrow> Inr (akp_workspaceId k)
      | SYSTEM k \<Rightarrow> Inr (akp_workspaceId k))"

definition runtimeControlPlaneScope :: "string \<Rightarrow> principal" where
  "runtimeControlPlaneScope workspaceId =
     SYSTEM \<lparr> akp_subjectId = ''runtime-internal'', akp_workspaceId = workspaceId, akp_role = Role_ADMIN \<rparr>"

definition requireControlPlaneAuthorization :: "principal \<Rightarrow> authorization_action \<Rightarrow> osva_error option" where
  "requireControlPlaneAuthorization p action =
     (case controlPlaneWorkspaceId p of
        Inl e \<Rightarrow> Some e
      | Inr workspaceId \<Rightarrow>
          (case p of
             HUMAN_SESSION h \<Rightarrow>
               (case hp_humanRole h of
                  None \<Rightarrow> Some PermissionDeniedError
                | Some role \<Rightarrow>
                    if hp_workspaceId h = None \<or> hp_workspaceId h \<noteq> Some workspaceId then Some PermissionDeniedError
                    else if \<not> humanWorkspaceRolePermitsAuthorizationAction role action then Some PermissionDeniedError
                    else None)
           | API_KEY k \<Rightarrow> authorizeApiKeyPrincipal k action workspaceId
           | SYSTEM k \<Rightarrow> authorizeApiKeyPrincipal k action workspaceId))"

record audit_actor =
  aa_workspaceId :: string
  aa_subjectId :: string
  aa_actorUserId :: "string option"

definition controlPlaneAuditActor :: "principal \<Rightarrow> osva_error + audit_actor" where
  "controlPlaneAuditActor p =
     and_then (controlPlaneWorkspaceId p) (\<lambda>workspaceId.
       case p of
         HUMAN_SESSION h \<Rightarrow> Inr \<lparr> aa_workspaceId = workspaceId, aa_subjectId = hp_userId h,
           aa_actorUserId = Some (hp_userId h) \<rparr>
       | API_KEY k \<Rightarrow> Inr \<lparr> aa_workspaceId = workspaceId, aa_subjectId = akp_subjectId k, aa_actorUserId = None \<rparr>
       | SYSTEM k \<Rightarrow> Inr \<lparr> aa_workspaceId = workspaceId, aa_subjectId = akp_subjectId k, aa_actorUserId = None \<rparr>)"

datatype rest_access = Rest_granted | Rest_not_found | Rest_permission_denied

definition classifyRestResourceAccess :: "string \<Rightarrow> string option \<Rightarrow> bool \<Rightarrow> rest_access" where
  "classifyRestResourceAccess principalWorkspaceId resourceWorkspaceId authorized =
     (case resourceWorkspaceId of
        None \<Rightarrow> Rest_not_found
      | Some w \<Rightarrow>
          if w \<noteq> principalWorkspaceId then Rest_not_found
          else if \<not> authorized then Rest_permission_denied
          else Rest_granted)"

subsection \<open>Workspace access of humans\<close>

datatype user_status = User_PENDING_SETUP | User_ACTIVE | User_DISABLED

record workspace_membership =
  wm_id :: string
  wm_workspaceId :: string
  wm_userId :: string
  wm_role :: human_role
  wm_createdAt :: js_date

definition WorkspaceMembership_create :: "workspace_membership \<Rightarrow> osva_error + workspace_membership" where
  "WorkspaceMembership_create p =
     (if wm_id p = '''' then Inl (DomainInvariantError ''WorkspaceMembership.id is required.'')
      else if wm_workspaceId p = '''' then Inl (DomainInvariantError ''WorkspaceMembership.workspaceId is required.'')
      else if wm_userId p = '''' then Inl (DomainInvariantError ''WorkspaceMembership.userId is required.'')
      else and_then (copyInstant (wm_createdAt p)) (\<lambda>createdAt. Inr (p\<lparr> wm_createdAt := createdAt \<rparr>)))"

text \<open>
  The reads of the user and membership repositories are functions: the status of a user, and the
  memberships of a user in the order the repository lists them, one for each workspace.
\<close>

record access_directory =
  ad_userStatus :: "string \<Rightarrow> user_status option"
  ad_memberships :: "string \<Rightarrow> workspace_membership list"

record workspace_access =
  wa_userId :: string
  wa_workspaceId :: string
  wa_role :: human_role

definition findByWorkspaceAndUser :: "access_directory \<Rightarrow> string \<Rightarrow> string \<Rightarrow> workspace_membership option" where
  "findByWorkspaceAndUser d workspaceId userId =
     find (\<lambda>m. wm_workspaceId m = workspaceId) (ad_memberships d userId)"

definition resolveWorkspaceAccess :: "access_directory \<Rightarrow> string \<Rightarrow> string \<Rightarrow> workspace_access option" where
  "resolveWorkspaceAccess d userId workspaceId =
     (if ad_userStatus d userId \<noteq> Some User_ACTIVE then None
      else case findByWorkspaceAndUser d workspaceId userId of
        None \<Rightarrow> None
      | Some m \<Rightarrow> Some \<lparr> wa_userId = userId, wa_workspaceId = workspaceId, wa_role = wm_role m \<rparr>)"

definition WorkspaceSelectionRequiredError :: osva_error where
  "WorkspaceSelectionRequiredError = OtherError ''Workspace selection is required for this human route.''"

definition resolveHumanControlPlaneWorkspace ::
    "access_directory \<Rightarrow> string \<Rightarrow> string option \<Rightarrow> osva_error + workspace_access" where
  "resolveHumanControlPlaneWorkspace d userId workspaceSelector =
     (case workspaceSelector of
        Some w \<Rightarrow> (case resolveWorkspaceAccess d userId w of None \<Rightarrow> Inl PermissionDeniedError | Some a \<Rightarrow> Inr a)
      | None \<Rightarrow>
          (case ad_memberships d userId of
             [] \<Rightarrow> Inl PermissionDeniedError
           | [only] \<Rightarrow> (case resolveWorkspaceAccess d userId (wm_workspaceId only) of
               None \<Rightarrow> Inl PermissionDeniedError | Some a \<Rightarrow> Inr a)
           | _ \<Rightarrow> Inl WorkspaceSelectionRequiredError))"

subsection \<open>Routes of human identity (human-auth.ts, human-authorization.ts)\<close>

datatype human_auth_route =
    Route_LOGIN | Route_LOGOUT | Route_SESSION | Route_SETUP | Route_RECOVERY_REQUEST | Route_RECOVERY_RESET
  | Route_ME | Route_WORKSPACES_LIST | Route_WORKSPACE_SELECT | Route_WORKSPACE_MEMBERSHIPS_LIST
  | Route_WORKSPACE_MEMBERSHIP_CREATE | Route_WORKSPACE_MEMBERSHIP_UPDATE
  | Route_WORKSPACE_MEMBERSHIP_DELETE | Route_WORKSPACE_OWNERSHIP_TRANSFER
  | Route_WORKSPACE_OWNERSHIP_GRANT | Route_WORKSPACE_MEMBER_PROVISION | Route_AUDIT_EVENTS_LIST

text \<open>The permission a route demands; \<open>None\<close> is the \<open>null\<close> of a route that demands none.\<close>

primrec HUMAN_ROUTE_PERMISSIONS :: "human_auth_route \<Rightarrow> human_permission option" where
  "HUMAN_ROUTE_PERMISSIONS Route_LOGIN = None"
| "HUMAN_ROUTE_PERMISSIONS Route_LOGOUT = None"
| "HUMAN_ROUTE_PERMISSIONS Route_SESSION = None"
| "HUMAN_ROUTE_PERMISSIONS Route_SETUP = None"
| "HUMAN_ROUTE_PERMISSIONS Route_RECOVERY_REQUEST = None"
| "HUMAN_ROUTE_PERMISSIONS Route_RECOVERY_RESET = None"
| "HUMAN_ROUTE_PERMISSIONS Route_ME = None"
| "HUMAN_ROUTE_PERMISSIONS Route_WORKSPACES_LIST = None"
| "HUMAN_ROUTE_PERMISSIONS Route_WORKSPACE_SELECT = None"
| "HUMAN_ROUTE_PERMISSIONS Route_WORKSPACE_MEMBERSHIPS_LIST = Some Perm_MANAGE_MEMBERS"
| "HUMAN_ROUTE_PERMISSIONS Route_WORKSPACE_MEMBERSHIP_CREATE = Some Perm_MANAGE_MEMBERS"
| "HUMAN_ROUTE_PERMISSIONS Route_WORKSPACE_MEMBERSHIP_UPDATE = Some Perm_MANAGE_MEMBERS"
| "HUMAN_ROUTE_PERMISSIONS Route_WORKSPACE_MEMBERSHIP_DELETE = Some Perm_MANAGE_MEMBERS"
| "HUMAN_ROUTE_PERMISSIONS Route_WORKSPACE_OWNERSHIP_TRANSFER = Some Perm_TRANSFER_OWNERSHIP"
| "HUMAN_ROUTE_PERMISSIONS Route_WORKSPACE_OWNERSHIP_GRANT = Some Perm_TRANSFER_OWNERSHIP"
| "HUMAN_ROUTE_PERMISSIONS Route_WORKSPACE_MEMBER_PROVISION = Some Perm_MANAGE_MEMBERS"
| "HUMAN_ROUTE_PERMISSIONS Route_AUDIT_EVENTS_LIST = Some Perm_READ"

definition humanAuthRouteRequiresWorkspace :: "human_auth_route \<Rightarrow> bool" where
  "humanAuthRouteRequiresWorkspace routeId \<longleftrightarrow>
     (case routeId of
        Route_LOGIN \<Rightarrow> False | Route_LOGOUT \<Rightarrow> False | Route_SESSION \<Rightarrow> False | Route_SETUP \<Rightarrow> False
      | Route_RECOVERY_REQUEST \<Rightarrow> False | Route_RECOVERY_RESET \<Rightarrow> False | Route_ME \<Rightarrow> False
      | Route_WORKSPACES_LIST \<Rightarrow> False | Route_WORKSPACE_SELECT \<Rightarrow> False
      | _ \<Rightarrow> True)"

record human_route_context =
  hc_principal :: human_principal
  hc_workspaceId :: string
  hc_userId :: string
  hc_permission :: human_permission

definition authorizeHumanRoute :: "access_directory \<Rightarrow> principal option \<Rightarrow> human_auth_route
    \<Rightarrow> string option \<Rightarrow> osva_error + human_route_context option" where
  "authorizeHumanRoute d p routeId workspaceId =
     (case HUMAN_ROUTE_PERMISSIONS routeId of
        None \<Rightarrow> Inr None
      | Some requiredPermission \<Rightarrow>
      case p of
        Some (HUMAN_SESSION h) \<Rightarrow>
          if \<not> humanAuthRouteRequiresWorkspace routeId then Inl PermissionDeniedError
          else (case or_else workspaceId (hp_workspaceId h) of
             None \<Rightarrow> Inl WorkspaceSelectionRequiredError
           | Some w \<Rightarrow>
               (case resolveWorkspaceAccess d (hp_userId h) w of
                  None \<Rightarrow> Inl PermissionDeniedError
                | Some a \<Rightarrow>
                    if \<not> humanWorkspaceRolePermitsPermission (wa_role a) requiredPermission
                    then Inl PermissionDeniedError
                    else Inr (Some \<lparr> hc_principal = h\<lparr> hp_workspaceId := Some w, hp_humanRole := Some (wa_role a) \<rparr>,
                      hc_workspaceId = w, hc_userId = hp_userId h, hc_permission = requiredPermission \<rparr>)))
      | _ \<Rightarrow> Inl PermissionDeniedError)"

subsection \<open>Routes of the control plane (v1-route-authorization-policy.ts, v1-control-plane-access.ts)\<close>

definition V1_ADMIN_ROUTE_KEYS :: "string list" where
  "V1_ADMIN_ROUTE_KEYS = [''POST /v1/connectors'', ''PATCH /v1/connectors/*'', ''POST /v1/connectors/*/versions'',
     ''POST /v1/connectors/import-mcp-tools'', ''GET /v1/api-keys'', ''POST /v1/api-keys'',
     ''POST /v1/api-keys/*/revoke'']"

definition V1_EXECUTE_ROUTE_KEYS :: "string list" where
  "V1_EXECUTE_ROUTE_KEYS = [''POST /v1/runs'', ''POST /v1/runs/*/resume'', ''POST /v1/workflow-runs'',
     ''POST /v1/evaluation-runs'', ''POST /v1/workflow-events'',
     ''POST /v1/connectors/*/versions/*/discover'', ''POST /v1/model-provider-connections/*/versions/*/test'',
     ''POST /v1/runs/*/attempts/*/evaluations'', ''POST /v1/approval-requests/*/decision'',
     ''POST /v1/office/assignments/*/launch'', ''POST /v1/office/assignments/*/cancel'',
     ''POST /v1/knowledge/retrieve'', ''POST /v1/builder/proposals/generate'']"

definition V1_READ_POST_ROUTE_KEYS :: "string list" where
  "V1_READ_POST_ROUTE_KEYS = [''POST /v1/builder/proposals/validate'']"

definition inferV1RouteAuthorizationAction :: "string \<Rightarrow> string \<Rightarrow> authorization_action" where
  "inferV1RouteAuthorizationAction method structuralRouteKey =
     (if structuralRouteKey \<in> set V1_ADMIN_ROUTE_KEYS then Action_ADMIN
      else if structuralRouteKey \<in> set V1_READ_POST_ROUTE_KEYS then Action_READ
      else if structuralRouteKey \<in> set V1_EXECUTE_ROUTE_KEYS then Action_EXECUTE
      else if method = ''POST'' \<or> method = ''PATCH'' then Action_WRITE
      else Action_READ)"

datatype v1_access_class =
    Access_PUBLIC_AUTHENTICATION | Access_HUMAN_IDENTITY_SESSION | Access_HUMAN_IDENTITY_WORKSPACE
  | Access_CONTROL_PLANE_WORKSPACE | Access_API_KEY_ONLY | Access_HUMAN_PRINCIPAL_DENIED

text \<open>What the access records of the routes say about access; the rest of a record describes the route.\<close>

record v1_route_access =
  va_accessClass :: v1_access_class
  va_requiredHumanPermission :: "human_permission option"
  va_requiredAuthorizationAction :: "authorization_action option"

definition controlPlaneAccessRecord :: "string \<Rightarrow> string \<Rightarrow> string \<Rightarrow> v1_route_access" where
  "controlPlaneAccessRecord handlerModule method structuralKey =
     (let accessClass = (if handlerModule = ''auth-http'' then Access_API_KEY_ONLY else Access_CONTROL_PLANE_WORKSPACE);
          requiredAuthorizationAction = inferV1RouteAuthorizationAction method structuralKey
      in \<lparr> va_accessClass = accessClass,
        va_requiredHumanPermission = (if accessClass = Access_CONTROL_PLANE_WORKSPACE
          then Some (authorizationActionToHumanPermission requiredAuthorizationAction) else None),
        va_requiredAuthorizationAction = Some requiredAuthorizationAction \<rparr>)"

text \<open>The value of the workspace header, when the request has one, or the workspace of the session.\<close>

definition readWorkspaceSelector :: "string option \<Rightarrow> human_principal \<Rightarrow> string option" where
  "readWorkspaceSelector raw h = (case raw of Some w \<Rightarrow> if w \<noteq> '''' then Some w else hp_workspaceId h
     | None \<Rightarrow> hp_workspaceId h)"

text \<open>The record is the one the inventory of routes has for the method and the path of the request.\<close>

definition authorizeHumanControlPlaneRequest :: "access_directory \<Rightarrow> v1_route_access option \<Rightarrow> string option
    \<Rightarrow> human_principal \<Rightarrow> osva_error + human_principal" where
  "authorizeHumanControlPlaneRequest d access workspaceHeader h =
     (case access of
        None \<Rightarrow> Inl PermissionDeniedError
      | Some record \<Rightarrow>
          if va_accessClass record \<noteq> Access_CONTROL_PLANE_WORKSPACE then Inl PermissionDeniedError
          else case va_requiredHumanPermission record of
            None \<Rightarrow> Inl PermissionDeniedError
          | Some permission \<Rightarrow>
              and_then (resolveHumanControlPlaneWorkspace d (hp_userId h) (readWorkspaceSelector workspaceHeader h))
                (\<lambda>resolved.
                  if \<not> humanWorkspaceRolePermitsPermission (wa_role resolved) permission
                  then Inl PermissionDeniedError
                  else Inr (h\<lparr> hp_workspaceId := Some (wa_workspaceId resolved),
                    hp_humanRole := Some (wa_role resolved) \<rparr>)))"

subsection \<open>Rules of workspace memberships\<close>

definition requireWorkspaceOwnerActor :: "access_directory \<Rightarrow> string \<Rightarrow> string option \<Rightarrow> osva_error option" where
  "requireWorkspaceOwnerActor d workspaceId actorUserId =
     (case actorUserId of
        None \<Rightarrow> Some PermissionDeniedError
      | Some u \<Rightarrow>
          (case findByWorkspaceAndUser d workspaceId u of
             None \<Rightarrow> Some PermissionDeniedError
           | Some m \<Rightarrow> if wm_role m \<noteq> Human_OWNER then Some PermissionDeniedError else None))"

definition roleChangeTouchesOwner :: "human_role \<Rightarrow> human_role \<Rightarrow> bool" where
  "roleChangeTouchesOwner previousRole nextRole = (previousRole = Human_OWNER \<or> nextRole = Human_OWNER)"

definition rejectOwnerRoleForGenericMembershipRoute :: "human_role \<Rightarrow> osva_error option" where
  "rejectOwnerRoleForGenericMembershipRoute role =
     (if role = Human_OWNER
      then Some (DomainInvariantError ''OWNER role cannot be assigned through generic membership routes.'')
      else None)"

definition requireMembershipInWorkspace :: "workspace_membership \<Rightarrow> string \<Rightarrow> osva_error option" where
  "requireMembershipInWorkspace m workspaceId =
     (if wm_workspaceId m \<noteq> workspaceId then Some PermissionDeniedError else None)"

definition rejectOwnerMembershipMutation :: "workspace_membership \<Rightarrow> osva_error option" where
  "rejectOwnerMembershipMutation m = (if wm_role m = Human_OWNER then Some PermissionDeniedError else None)"

subsection \<open>API keys (api-key.ts, api-key-credential.ts, authenticate-api-key.ts)\<close>

record api_key =
  ak_id :: string
  ak_workspaceId :: string
  ak_name :: string
  ak_role :: community_role
  ak_createdAt :: js_date
  ak_expiresAt :: "js_date option"
  ak_revokedAt :: "js_date option"

definition API_KEY_NAME_MAX_LENGTH :: nat where
  "API_KEY_NAME_MAX_LENGTH = 128"

definition validateApiKeyName :: "string \<Rightarrow> osva_error + string" where
  "validateApiKeyName name =
     and_then (requireNonEmptyString name ''ApiKey.name'') (\<lambda>n.
       let trimmed = js_trim n
       in if API_KEY_NAME_MAX_LENGTH < length trimmed
          then Inl (DomainInvariantError (''ApiKey.name must be at most ''
            @ nat_str API_KEY_NAME_MAX_LENGTH @ '' characters.''))
          else Inr trimmed)"

definition ApiKey_create ::
    "string \<Rightarrow> string \<Rightarrow> string \<Rightarrow> community_role \<Rightarrow> js_date \<Rightarrow> js_date option \<Rightarrow> osva_error + api_key" where
  "ApiKey_create i workspaceId name role now expiresAt =
     (if i = '''' then Inl (DomainInvariantError ''ApiKey.id is required.'')
      else if workspaceId = '''' then Inl (DomainInvariantError ''ApiKey.workspaceId is required.'')
      else
        and_then (validateApiKeyName name) (\<lambda>valid.
        and_then (copyInstant now) (\<lambda>createdAt.
        and_then (copyOptInstant expiresAt) (\<lambda>expires.
          Inr \<lparr> ak_id = i, ak_workspaceId = workspaceId, ak_name = js_trim name, ak_role = role,
            ak_createdAt = createdAt, ak_expiresAt = expires, ak_revokedAt = None \<rparr>))))"

definition ApiKey_rehydrate :: "api_key \<Rightarrow> osva_error + api_key" where
  "ApiKey_rehydrate p =
     and_then (copyInstant (ak_createdAt p)) (\<lambda>createdAt.
     and_then (copyOptInstant (ak_expiresAt p)) (\<lambda>expiresAt.
     and_then (copyOptInstant (ak_revokedAt p)) (\<lambda>revokedAt.
       Inr (p\<lparr> ak_createdAt := createdAt, ak_expiresAt := expiresAt, ak_revokedAt := revokedAt \<rparr>))))"

definition ApiKey_revoke :: "api_key \<Rightarrow> js_date \<Rightarrow> osva_error + api_key" where
  "ApiKey_revoke k now =
     (if ak_revokedAt k \<noteq> None then Inr k
      else and_then (copyInstant now) (\<lambda>t. ApiKey_rehydrate (k\<lparr> ak_revokedAt := Some t \<rparr>)))"

definition isExpired :: "api_key \<Rightarrow> js_date \<Rightarrow> bool" where
  "isExpired k t = (case ak_expiresAt k of None \<Rightarrow> False | Some x \<Rightarrow> date_le x t)"

text \<open>
  The pattern of a token: the prefix, then an identifier and a secret of at least one character
  each, of an alphabet without the dot between them. The digest of a secret is a parameter.
\<close>

definition API_KEY_TOKEN_PREFIX :: string where
  "API_KEY_TOKEN_PREFIX = ''osva_ak_''"

definition token_char :: "char \<Rightarrow> bool" where
  "token_char c = (c \<in> set ''0123456789ABCDEFGHIJKLMNOPQRSTUVWXYZabcdefghijklmnopqrstuvwxyz_-'')"

definition token_word :: "string \<Rightarrow> bool" where
  "token_word s = (s \<noteq> '''' \<and> list_all token_char s)"

definition api_key_token :: "string \<Rightarrow> string \<Rightarrow> string" where
  "api_key_token apiKeyId secret = API_KEY_TOKEN_PREFIX @ apiKeyId @ ''.'' @ secret"

definition parseApiKeyToken :: "string \<Rightarrow> (string \<times> string) option" where
  "parseApiKeyToken token =
     (let trimmed = js_trim token
      in if trimmed = '''' \<or> take (length API_KEY_TOKEN_PREFIX) trimmed \<noteq> API_KEY_TOKEN_PREFIX then None
         else let words = drop (length API_KEY_TOKEN_PREFIX) trimmed;
                  apiKeyId = takeWhile (\<lambda>c. c \<noteq> CHR ''.'') words;
                  secret = drop (Suc (length apiKeyId)) words
              in if length words \<le> length apiKeyId then None
                 else if token_word apiKeyId \<and> token_word secret then Some (apiKeyId, secret)
                 else None)"

definition API_KEY_SECRET_DIGEST_BYTE_LENGTH :: nat where
  "API_KEY_SECRET_DIGEST_BYTE_LENGTH = 32"

definition verifyApiKeySecret :: "(string \<Rightarrow> string) \<Rightarrow> string \<Rightarrow> string \<Rightarrow> bool" where
  "verifyApiKeySecret sha256 secret storedDigest =
     (length storedDigest = API_KEY_SECRET_DIGEST_BYTE_LENGTH \<and> sha256 secret = storedDigest)"

text \<open>The repository of the memory adapter: a key with the digest of its secret.\<close>

type_synonym api_key_store = "(string, api_key \<times> string) js_map"

definition createApiKeyRecord :: "api_key \<Rightarrow> string \<Rightarrow> api_key_store \<Rightarrow> osva_error + api_key_store" where
  "createApiKeyRecord k digest s =
     (if map_of s (ak_id k) \<noteq> None then Inl (DuplicateKeyError ''ApiKey'' '''' (ak_id k))
      else Inr (AList.update (ak_id k) (k, digest) s))"

definition revokeApiKeyWithAudit :: "string \<Rightarrow> string \<Rightarrow> js_date \<Rightarrow> api_key_store
    \<Rightarrow> osva_error + (api_key \<times> api_key_store)" where
  "revokeApiKeyWithAudit workspaceId apiKeyId revokedAt s =
     (case map_of s apiKeyId of
        None \<Rightarrow> Inl (NotFoundError ''ApiKey'' apiKeyId)
      | Some (k, digest) \<Rightarrow>
          if ak_workspaceId k \<noteq> workspaceId then Inl (NotFoundError ''ApiKey'' apiKeyId)
          else if ak_revokedAt k \<noteq> None then Inr (k, s)
          else and_then (ApiKey_revoke k revokedAt) (\<lambda>k'.
            Inr (k', AList.update apiKeyId (k', digest) s)))"

datatype auth_failure =
  Fail_MALFORMED_TOKEN | Fail_UNKNOWN_KEY | Fail_REVOKED_KEY | Fail_EXPIRED_KEY | Fail_INVALID_SECRET

definition toRequestPrincipal :: "string \<Rightarrow> string \<Rightarrow> community_role \<Rightarrow> api_key_principal" where
  "toRequestPrincipal subjectId workspaceId role =
     \<lparr> akp_subjectId = subjectId, akp_workspaceId = workspaceId, akp_role = role \<rparr>"

definition authenticateApiKey ::
    "(string \<Rightarrow> string) \<Rightarrow> js_date \<Rightarrow> api_key_store \<Rightarrow> string \<Rightarrow> auth_failure + api_key_principal" where
  "authenticateApiKey sha256 now s bearerToken =
     (case parseApiKeyToken bearerToken of
        None \<Rightarrow> Inl Fail_MALFORMED_TOKEN
      | Some (apiKeyId, secret) \<Rightarrow>
      case map_of s apiKeyId of
        None \<Rightarrow> Inl Fail_UNKNOWN_KEY
      | Some (k, digest) \<Rightarrow>
          if ak_revokedAt k \<noteq> None then Inl Fail_REVOKED_KEY
          else if isExpired k now then Inl Fail_EXPIRED_KEY
          else if \<not> verifyApiKeySecret sha256 secret digest then Inl Fail_INVALID_SECRET
          else Inr (toRequestPrincipal (ak_id k) (ak_workspaceId k) (ak_role k)))"

subsection \<open>Audit events (security-audit-event.ts, control-plane-audit-events.ts)\<close>

record security_audit_event =
  se_id :: string
  se_eventType :: string
  se_occurredAt :: js_date
  se_organizationId :: "string option"
  se_workspaceId :: "string option"
  se_actorUserId :: "string option"
  se_details :: jsv

definition SECURITY_AUDIT_EVENT_DETAILS_MAX_BYTES :: nat where
  "SECURITY_AUDIT_EVENT_DETAILS_MAX_BYTES = 4096"

definition SecurityAuditEvent_create ::
    "(jsv \<Rightarrow> nat) \<Rightarrow> security_audit_event \<Rightarrow> osva_error + security_audit_event" where
  "SecurityAuditEvent_create byteLength p =
     (if se_id p = '''' then Inl (DomainInvariantError ''SecurityAuditEvent.id is required.'')
      else if \<not> canonical_tree (se_details p)
      then Inl (DomainInvariantError ''SecurityAuditEvent.details must be JSON-compatible.'')
      else if SECURITY_AUDIT_EVENT_DETAILS_MAX_BYTES < byteLength (se_details p)
      then Inl (DomainInvariantError (''SecurityAuditEvent.details must be at most ''
        @ nat_str SECURITY_AUDIT_EVENT_DETAILS_MAX_BYTES @ '' bytes.''))
      else and_then (copyInstant (se_occurredAt p)) (\<lambda>t. Inr (p\<lparr> se_occurredAt := t \<rparr>)))"

record decided_audit_input =
  di_id :: string
  di_occurredAt :: js_date
  di_workspaceId :: string
  di_actorUserId :: "string option"
  di_actorSubjectId :: string
  di_approvalRequestId :: string
  di_workflowRunId :: string
  di_workflowNodeRunId :: string
  di_decision :: string
  di_extension :: "(string \<times> jsv) list"

text \<open>The extension is spread last; it has none of the keys before it.\<close>

definition buildApprovalRequestDecidedAuditEvent ::
    "(jsv \<Rightarrow> nat) \<Rightarrow> decided_audit_input \<Rightarrow> osva_error + security_audit_event" where
  "buildApprovalRequestDecidedAuditEvent byteLength i = SecurityAuditEvent_create byteLength
     \<lparr> se_id = di_id i, se_eventType = ''approval_request.decided'', se_occurredAt = di_occurredAt i,
       se_organizationId = None, se_workspaceId = Some (di_workspaceId i), se_actorUserId = di_actorUserId i,
       se_details = JObject
         ([(''approvalRequestId'', JString (di_approvalRequestId i)), (''workflowRunId'', JString (di_workflowRunId i)),
           (''workflowNodeRunId'', JString (di_workflowNodeRunId i)), (''decision'', JString (di_decision i)),
           (''subjectId'', JString (di_actorSubjectId i))] @ di_extension i) \<rparr>"

definition buildApiKeyAuditEvent :: "(jsv \<Rightarrow> nat) \<Rightarrow> string \<Rightarrow> string \<Rightarrow> js_date \<Rightarrow> string \<Rightarrow> string \<Rightarrow> string
    \<Rightarrow> string \<Rightarrow> osva_error + security_audit_event" where
  "buildApiKeyAuditEvent byteLength eventType i occurredAt workspaceId actorSubjectId apiKeyId roleName =
     SecurityAuditEvent_create byteLength
     \<lparr> se_id = i, se_eventType = eventType, se_occurredAt = occurredAt, se_organizationId = None,
       se_workspaceId = Some workspaceId, se_actorUserId = None,
       se_details = JObject [(''apiKeyId'', JString apiKeyId), (''role'', JString roleName),
         (''subjectId'', JString actorSubjectId)] \<rparr>"

subsection \<open>Issuing and revoking keys (api-key-application.ts)\<close>

record workspace =
  wsp_id :: string
  wsp_name :: string
  wsp_createdAt :: js_date
  wsp_organizationId :: "string option"

definition Workspace_create :: "workspace \<Rightarrow> osva_error + workspace" where
  "Workspace_create p =
     (if wsp_id p = '''' then Inl (DomainInvariantError ''Workspace.id is required.'')
      else
        and_then (requireNonEmptyString (wsp_name p) ''Workspace.name'') (\<lambda>name.
        and_then (copyInstant (wsp_createdAt p)) (\<lambda>createdAt.
          Inr (p\<lparr> wsp_name := name, wsp_createdAt := createdAt \<rparr>))))"

definition Workspace_withOrganizationId :: "workspace \<Rightarrow> string \<Rightarrow> osva_error + workspace" where
  "Workspace_withOrganizationId w organizationId = Workspace_create (w\<lparr> wsp_organizationId := Some organizationId \<rparr>)"

record key_site =
  ks_keys :: api_key_store
  ks_workspaces :: "(string, workspace) js_map"

definition empty_key_site :: key_site where
  "empty_key_site = \<lparr> ks_keys = [], ks_workspaces = [] \<rparr>"

text \<open>What an issuing request draws: the identifiers and the random secret.\<close>

record issue_request =
  is_apiKeyId :: string
  is_secret :: string
  is_name :: string
  is_role :: community_role
  is_expiresAt :: "js_date option"
  is_now :: js_date

text \<open>The key and its token; only the digest of the secret is stored.\<close>

definition issueApiKey :: "(string \<Rightarrow> string) \<Rightarrow> string \<Rightarrow> issue_request \<Rightarrow> key_site
    \<Rightarrow> osva_error + ((api_key \<times> string) \<times> key_site)" where
  "issueApiKey sha256 workspaceId q s =
     (if map_of (ks_workspaces s) workspaceId = None then Inl (NotFoundError ''Workspace'' workspaceId)
      else
        and_then (ApiKey_create (is_apiKeyId q) workspaceId (is_name q) (is_role q) (is_now q) (is_expiresAt q)) (\<lambda>k.
        and_then (createApiKeyRecord k (sha256 (is_secret q)) (ks_keys s)) (\<lambda>keys.
          Inr ((k, api_key_token (is_apiKeyId q) (is_secret q)), s\<lparr> ks_keys := keys \<rparr>))))"

fun role_name :: "community_role \<Rightarrow> string" where
  "role_name Role_VIEWER = ''VIEWER''"
| "role_name Role_OPERATOR = ''OPERATOR''"
| "role_name Role_EDITOR = ''EDITOR''"
| "role_name Role_ADMIN = ''ADMIN''"

definition createWorkspaceApiKey :: "(string \<Rightarrow> string) \<Rightarrow> (jsv \<Rightarrow> nat) \<Rightarrow> principal \<Rightarrow> string \<Rightarrow> issue_request
    \<Rightarrow> key_site \<Rightarrow> osva_error + ((api_key \<times> string) \<times> key_site)" where
  "createWorkspaceApiKey sha256 byteLength scope auditId q s =
     after_check (requireControlPlaneAuthorization scope Action_ADMIN)
       (and_then (controlPlaneWorkspaceId scope) (\<lambda>workspaceId.
          if map_of (ks_workspaces s) workspaceId = None then Inl (NotFoundError ''Workspace'' workspaceId)
          else
            and_then (ApiKey_create (is_apiKeyId q) workspaceId (is_name q) (is_role q) (is_now q) (is_expiresAt q)) (\<lambda>k.
            and_then (controlPlaneAuditActor scope) (\<lambda>actor.
            and_then (buildApiKeyAuditEvent byteLength ''api_key.created'' auditId (is_now q) workspaceId
                (aa_subjectId actor) (is_apiKeyId q) (role_name (is_role q))) (\<lambda>auditEvent.
            and_then (createApiKeyRecord k (sha256 (is_secret q)) (ks_keys s)) (\<lambda>keys.
              Inr ((k, api_key_token (is_apiKeyId q) (is_secret q)), s\<lparr> ks_keys := keys \<rparr>)))))))"

definition listWorkspaceApiKeys :: "principal \<Rightarrow> key_site \<Rightarrow> osva_error + api_key list" where
  "listWorkspaceApiKeys scope s =
     after_check (requireControlPlaneAuthorization scope Action_ADMIN)
       (and_then (controlPlaneWorkspaceId scope) (\<lambda>workspaceId.
          Inr (filter (\<lambda>k. ak_workspaceId k = workspaceId) (List.map fst (map_values (ks_keys s))))))"

definition revokeWorkspaceApiKey :: "(jsv \<Rightarrow> nat) \<Rightarrow> principal \<Rightarrow> string \<Rightarrow> string \<Rightarrow> js_date
    \<Rightarrow> key_site \<Rightarrow> osva_error + (api_key \<times> key_site)" where
  "revokeWorkspaceApiKey byteLength scope auditId apiKeyId now s =
     after_check (requireControlPlaneAuthorization scope Action_ADMIN)
       (and_then (controlPlaneWorkspaceId scope) (\<lambda>workspaceId.
          case map_of (ks_keys s) apiKeyId of
            None \<Rightarrow> Inl (NotFoundError ''ApiKey'' apiKeyId)
          | Some (k, digest) \<Rightarrow>
              if ak_workspaceId k \<noteq> workspaceId then Inl (NotFoundError ''ApiKey'' apiKeyId)
              else
                and_then (controlPlaneAuditActor scope) (\<lambda>actor.
                and_then (buildApiKeyAuditEvent byteLength ''api_key.revoked'' auditId now workspaceId
                    (aa_subjectId actor) apiKeyId (role_name (ak_role k))) (\<lambda>auditEvent.
                and_then (revokeApiKeyWithAudit workspaceId apiKeyId now (ks_keys s)) (\<lambda>(k', keys).
                  Inr (k', s\<lparr> ks_keys := keys \<rparr>))))))"

record bootstrap_command =
  bc_workspaceName :: "string option"
  bc_workspaceId :: "string option"
  bc_apiKeyName :: "string option"
  bc_newWorkspaceId :: string

definition BootstrapAlreadyCompletedError :: osva_error where
  "BootstrapAlreadyCompletedError = OtherError
     ''Installation bootstrap has already completed. Existing API keys were not modified.''"

definition BootstrapExistingWorkspaceStateError :: "nat \<Rightarrow> osva_error" where
  "BootstrapExistingWorkspaceStateError workspaceCount = OtherError
     (if workspaceCount = 1
      then ''An existing workspace was detected but no API keys exist. Re-run bootstrap with --workspace-id <id> to create the initial ADMIN API key for that workspace.''
      else ''Multiple existing workspaces were detected but no API keys exist. Re-run bootstrap with --workspace-id <id> to create the initial ADMIN API key for a specific workspace.'')"

text \<open>
  The first key of an installation, an ADMIN key of its one workspace. The new workspace is saved
  before the key is created, so it stays when that throws.
\<close>

definition bootstrapInstallation :: "(string \<Rightarrow> string) \<Rightarrow> bootstrap_command \<Rightarrow> issue_request \<Rightarrow> key_site
    \<Rightarrow> key_site \<times> (osva_error + (workspace \<times> api_key \<times> string))" where
  "bootstrapInstallation sha256 c q s =
     (let request = q\<lparr> is_name := (case bc_apiKeyName c of None \<Rightarrow> ''bootstrap-admin'' | Some n \<Rightarrow> n),
            is_role := Role_ADMIN, is_expiresAt := None \<rparr>;
          issue = (\<lambda>w s. case issueApiKey sha256 (wsp_id w) request s of
            Inl e \<Rightarrow> (s, Inl e) | Inr ((k, token), s') \<Rightarrow> (s', Inr (w, k, token)))
      in if ks_keys s \<noteq> [] then (s, Inl BootstrapAlreadyCompletedError)
         else if ks_workspaces s \<noteq> [] then
           (case bc_workspaceId c of
              None \<Rightarrow> (s, Inl (BootstrapExistingWorkspaceStateError (length (ks_workspaces s))))
            | Some i \<Rightarrow>
                (case map_of (ks_workspaces s) i of
                   None \<Rightarrow> (s, Inl (NotFoundError ''Workspace'' i))
                 | Some w \<Rightarrow> issue w s))
         else case map_option js_trim (bc_workspaceName c) of
           None \<Rightarrow> (s, Inl (OtherError ''Bootstrap requires a workspace name when no workspaces exist.''))
         | Some name \<Rightarrow>
             if name = '''' then (s, Inl (OtherError ''Bootstrap requires a workspace name when no workspaces exist.''))
             else (case Workspace_create \<lparr> wsp_id = bc_newWorkspaceId c, wsp_name = name,
                   wsp_createdAt = is_now q, wsp_organizationId = None \<rparr> of
                 Inl e \<Rightarrow> (s, Inl e)
               | Inr w \<Rightarrow> issue w (s\<lparr> ks_workspaces := AList.update (wsp_id w) w (ks_workspaces s) \<rparr>)))"

subsection \<open>The two tables of human roles agree\<close>

lemma human_tables_agree:
  "humanWorkspaceRolePermitsAuthorizationAction role action =
     humanWorkspaceRolePermitsPermission role (authorizationActionToHumanPermission action)"
  by (cases role; cases action)
    (simp_all add: humanWorkspaceRolePermitsAuthorizationAction_def humanWorkspaceRolePermitsPermission_def)

text \<open>What a principal may do, and where.\<close>

definition permitted :: "principal \<Rightarrow> authorization_action \<Rightarrow> string \<Rightarrow> bool" where
  "permitted p action w \<longleftrightarrow>
     (case p of
        API_KEY k \<Rightarrow> akp_workspaceId k = w \<and> rolePermitsAction (akp_role k) action
      | SYSTEM k \<Rightarrow> akp_workspaceId k = w \<and> rolePermitsAction (akp_role k) action
      | HUMAN_SESSION h \<Rightarrow> hp_workspaceId h = Some w
          \<and> (\<exists>r. hp_humanRole h = Some r \<and> humanWorkspaceRolePermitsAuthorizationAction r action))"

lemma control_plane_authorization_iff:
  "requireControlPlaneAuthorization p action = None \<and> controlPlaneWorkspaceId p = Inr w \<longleftrightarrow> permitted p action w"
  by (cases p)
    (auto simp: requireControlPlaneAuthorization_def controlPlaneWorkspaceId_def permitted_def
      authorizeApiKeyPrincipal_def split: option.splits if_splits)

subsection \<open>Tokens\<close>

lemma token_char_no_space: "token_char c \<Longrightarrow> \<not> js_space c \<and> c \<noteq> CHR ''.''"
  by (auto simp: token_char_def js_space_def)

lemma js_trim_solid:
  assumes "s \<noteq> []" "\<not> js_space (hd s)" "\<not> js_space (last s)"
  shows "js_trim s = s"
proof -
  have h: "dropWhile js_space s = s" using assms(1,2) by (cases s) simp_all
  have "dropWhile js_space (rev s) = rev s"
    using assms(1,3) by (cases s rule: rev_cases) simp_all
  with h show ?thesis by (simp add: js_trim_def)
qed

lemma parse_token:
  assumes "token_word i" "token_word secret"
  shows "parseApiKeyToken (api_key_token i secret) = Some (i, secret)"
proof -
  have chars: "\<forall>c\<in>set i. token_char c" "\<forall>c\<in>set secret. token_char c" "i \<noteq> []" "secret \<noteq> []"
    using assms by (auto simp: token_word_def list_all_iff)
  have "\<not> js_space (last secret)" using chars(2,4) token_char_no_space last_in_set by blast
  then have t: "js_trim (api_key_token i secret) = api_key_token i secret"
    using chars(4) by (intro js_trim_solid) (auto simp: api_key_token_def API_KEY_TOKEN_PREFIX_def js_space_def)
  have "takeWhile (\<lambda>c. c \<noteq> CHR ''.'') (i @ ''.'' @ secret) = i"
    using chars(1) token_char_no_space by (subst takeWhile_append2) auto
  then show ?thesis
    unfolding parseApiKeyToken_def t
    by (simp add: api_key_token_def API_KEY_TOKEN_PREFIX_def assms Let_def)
qed

lemma parse_token_only:
  assumes "parseApiKeyToken t = Some (i, secret)"
  shows "js_trim t = api_key_token i secret \<and> token_word i \<and> token_word secret"
proof -
  let ?p = "API_KEY_TOKEN_PREFIX" and ?w = "drop (length API_KEY_TOKEN_PREFIX) (js_trim t)"
  from assms have p: "take (length ?p) (js_trim t) = ?p" and i: "i = takeWhile (\<lambda>c. c \<noteq> CHR ''.'') ?w"
    and s: "secret = drop (Suc (length i)) ?w" and l: "length i < length ?w" and w: "token_word i" "token_word secret"
    by (auto simp: parseApiKeyToken_def Let_def split: if_splits)
  have "?w = i @ ?w ! length i # secret"
    using l s i takeWhile_eq_take [of "\<lambda>c. c \<noteq> CHR ''.''" ?w]
    by (metis id_take_nth_drop)
  moreover have "?w ! length i = CHR ''.''" using nth_length_takeWhile [of "\<lambda>c. c \<noteq> CHR ''.''" ?w] l i by simp
  ultimately have "js_trim t = ?p @ i @ ''.'' @ secret" using p append_take_drop_id [of "length ?p" "js_trim t"] by simp
  with w show ?thesis by (simp add: api_key_token_def)
qed

subsection \<open>The life of a key\<close>

definition key_kept :: "api_key \<Rightarrow> api_key \<Rightarrow> bool" where
  "key_kept k k' \<longleftrightarrow> k'\<lparr> ak_revokedAt := None \<rparr> = k\<lparr> ak_revokedAt := None \<rparr> \<and> (ak_revokedAt k \<noteq> None \<longrightarrow> k' = k)"

inductive key_step :: "(string \<Rightarrow> string) \<Rightarrow> (jsv \<Rightarrow> nat) \<Rightarrow> key_site \<Rightarrow> key_site \<Rightarrow> bool"
  for sha256 byteLength where
  key_issue: "issueApiKey sha256 workspaceId q s = Inr (r, s') \<Longrightarrow> key_step sha256 byteLength s s'"
| key_create: "createWorkspaceApiKey sha256 byteLength scope auditId q s = Inr (r, s') \<Longrightarrow> key_step sha256 byteLength s s'"
| key_revoke: "revokeWorkspaceApiKey byteLength scope auditId apiKeyId now s = Inr (k, s') \<Longrightarrow>
    key_step sha256 byteLength s s'"
| key_bootstrap: "bootstrapInstallation sha256 c q s = (s', r) \<Longrightarrow> key_step sha256 byteLength s s'"

definition site_kept :: "key_site \<Rightarrow> key_site \<Rightarrow> bool" where
  "site_kept s s' \<longleftrightarrow> (\<forall>i k d. map_of (ks_keys s) i = Some (k, d) \<longrightarrow>
     (\<exists>k'. map_of (ks_keys s') i = Some (k', d) \<and> key_kept k k'))"


lemma key_kept_refl [simp]: "key_kept k k"
  by (simp add: key_kept_def)

lemma key_kept_trans: "key_kept a b \<Longrightarrow> key_kept b c \<Longrightarrow> key_kept a c"
  by (auto simp: key_kept_def)

lemma site_kept_refl: "site_kept s s"
  by (simp add: site_kept_def)

lemma site_kept_trans: "site_kept s t \<Longrightarrow> site_kept t u \<Longrightarrow> site_kept s u"
  unfolding site_kept_def by (meson key_kept_trans)

lemma ApiKey_revoke_kept: "ApiKey_revoke k now = Inr k' \<Longrightarrow> key_kept k k' \<and> ak_revokedAt k' \<noteq> None"
  by (auto simp: ApiKey_revoke_def ApiKey_rehydrate_def key_kept_def result_simps and_then_Inr split: if_splits)

lemma created_record_kept:
  assumes "createApiKeyRecord k d (ks_keys s) = Inr keys'"
  shows "site_kept s (s\<lparr> ks_keys := keys' \<rparr>) \<and> map_of keys' (ak_id k) = Some (k, d)"
proof -
  from assms have "map_of (ks_keys s) (ak_id k) = None" "keys' = AList.update (ak_id k) (k, d) (ks_keys s)"
    by (cases "map_of (ks_keys s) (ak_id k)"; simp add: createApiKeyRecord_def split: if_splits prod.splits)+
  then show ?thesis by (auto simp: site_kept_def)
qed

lemma revoked_record_kept:
  assumes "revokeApiKeyWithAudit w i now (ks_keys s) = Inr (k', keys')"
  shows "site_kept s (s\<lparr> ks_keys := keys' \<rparr>)
    \<and> (\<exists>d. map_of keys' i = Some (k', d)) \<and> ak_revokedAt k' \<noteq> None"
proof -
  from assms obtain k d where k: "map_of (ks_keys s) i = Some (k, d)"
    and c: "k' = k \<and> ak_revokedAt k \<noteq> None \<and> keys' = ks_keys s
      \<or> ApiKey_revoke k now = Inr k' \<and> keys' = AList.update i (k', d) (ks_keys s)"
    by (auto simp: revokeApiKeyWithAudit_def and_then_Inr split: option.splits if_splits)
  from c show ?thesis
  proof (elim disjE conjE)
    assume "ApiKey_revoke k now = Inr k'" "keys' = AList.update i (k', d) (ks_keys s)"
    with ApiKey_revoke_kept [OF this(1)] k show ?thesis by (auto simp: site_kept_def)
  qed (use k in \<open>auto simp: site_kept_def\<close>)
qed

lemma issue_kept: "issueApiKey sha256 w q s = Inr (r, s') \<Longrightarrow> site_kept s s'"
  using created_record_kept by (auto simp: issueApiKey_def and_then_Inr split: if_splits)

lemma site_kept_keys: "ks_keys s = ks_keys t \<Longrightarrow> site_kept t u \<Longrightarrow> site_kept s u"
  by (simp add: site_kept_def)

lemma key_step_kept: "key_step sha256 byteLength s s' \<Longrightarrow> site_kept s s'"
proof (induction rule: key_step.induct)
  case (key_issue w q s r s')
  then show ?case by (rule issue_kept)
next
  case (key_create scope i q s r s')
  then show ?case
    using created_record_kept
    by (auto simp: createWorkspaceApiKey_def after_check_Inr and_then_Inr split: if_splits)
next
  case (key_revoke scope i keyId now s k s')
  then obtain w keys where "revokeApiKeyWithAudit w keyId now (ks_keys s) = Inr (k, keys)" "s' = s\<lparr> ks_keys := keys \<rparr>"
    by (auto simp: revokeWorkspaceApiKey_def after_check_Inr and_then_Inr split: option.splits if_splits)
  then show ?case using revoked_record_kept by simp
next
  case (key_bootstrap c q s s' r)
  then show ?case
    by (auto simp: bootstrapInstallation_def Let_def site_kept_refl split: if_splits option.splits sum.splits prod.splits
        intro: issue_kept site_kept_keys [rotated] simp: site_kept_def [of s "s\<lparr> ks_workspaces := w \<rparr>" for w])
qed

lemma key_steps_kept: "(key_step sha256 byteLength)\<^sup>*\<^sup>* s t \<Longrightarrow> site_kept s t"
  by (induction rule: rtranclp_induct) (auto intro: site_kept_refl site_kept_trans key_step_kept)

lemma authenticate_stored:
  assumes "map_of (ks_keys s) i = Some (k, d)" "token_word i" "token_word secret"
  shows "authenticateApiKey sha256 now (ks_keys s) (api_key_token i secret) =
    (if ak_revokedAt k \<noteq> None then Inl Fail_REVOKED_KEY
     else if isExpired k now then Inl Fail_EXPIRED_KEY
     else if \<not> verifyApiKeySecret sha256 secret d then Inl Fail_INVALID_SECRET
     else Inr (toRequestPrincipal (ak_id k) (ak_workspaceId k) (ak_role k)))"
  using assms by (simp add: authenticateApiKey_def parse_token)

lemma key_created:
  "issueApiKey sha256 w q s = Inr ((k, t), s') \<Longrightarrow> map_of (ks_keys s') (ak_id k) = Some (k, sha256 (is_secret q))
     \<and> t = api_key_token (ak_id k) (is_secret q) \<and> ak_id k = is_apiKeyId q"
  "createWorkspaceApiKey sha256 byteLength scope auditId q s = Inr ((k, t), s') \<Longrightarrow>
     map_of (ks_keys s') (ak_id k) = Some (k, sha256 (is_secret q))
     \<and> t = api_key_token (ak_id k) (is_secret q) \<and> ak_id k = is_apiKeyId q"
  using created_record_kept [of k "sha256 (is_secret q)" s]
  by (auto simp: issueApiKey_def createWorkspaceApiKey_def ApiKey_create_def after_check_Inr and_then_Inr
      split: if_splits)

lemma key_kept_fields:
  assumes "key_kept k k'"
  shows "ak_id k' = ak_id k \<and> ak_workspaceId k' = ak_workspaceId k \<and> ak_role k' = ak_role k
    \<and> ak_expiresAt k' = ak_expiresAt k"
proof -
  from assms have "k'\<lparr> ak_revokedAt := None \<rparr> = k\<lparr> ak_revokedAt := None \<rparr>" by (simp add: key_kept_def)
  then show ?thesis by (cases k; cases k') simp
qed

text \<open>
  C35. The token a control plane hands out when it creates a key authenticates as long as the key is
  neither revoked nor expired, whatever other keys are issued and revoked in between, and it
  authenticates with the workspace and the role the key was created with.
\<close>

theorem issued_token_authenticates:
  assumes "createWorkspaceApiKey sha256 byteLength scope auditId q s = Inr ((k, token), s1)"
    and "token_word (is_apiKeyId q)" "token_word (is_secret q)" "length (sha256 (is_secret q)) = 32"
    and "(key_step sha256 byteLength)\<^sup>*\<^sup>* s1 s2"
  shows "\<exists>k' digest. map_of (ks_keys s2) (ak_id k) = Some (k', digest) \<and>
    authenticateApiKey sha256 now (ks_keys s2) token =
      (if ak_revokedAt k' \<noteq> None then Inl Fail_REVOKED_KEY
       else if isExpired k now then Inl Fail_EXPIRED_KEY
       else Inr (toRequestPrincipal (is_apiKeyId q) (ak_workspaceId k) (ak_role k)))"
proof -
  note c = key_created(2) [OF assms(1)]
  from key_steps_kept [OF assms(5)] c have "\<exists>k'. map_of (ks_keys s2) (ak_id k) = Some (k', sha256 (is_secret q)) \<and> key_kept k k'"
    unfolding site_kept_def by blast
  then obtain k' where k: "map_of (ks_keys s2) (ak_id k) = Some (k', sha256 (is_secret q))"
    and kept: "key_kept k k'" by blast
  show ?thesis
    using authenticate_stored [OF k, of "is_secret q" sha256 now] c k key_kept_fields [OF kept] assms(2-4)
    by (simp add: verifyApiKeySecret_def API_KEY_SECRET_DIGEST_BYTE_LENGTH_def isExpired_def)
qed

text \<open>
  C36. A revoked key never authenticates again: whatever is issued or revoked after its revocation,
  at whatever time and with whatever secret, a well-formed token of the key is refused as revoked.
\<close>

theorem revoked_key_refused:
  assumes "revokeWorkspaceApiKey byteLength scope auditId apiKeyId revokedAt s = Inr (k, s1)"
    and "(key_step sha256 byteLength)\<^sup>*\<^sup>* s1 s2" "token_word apiKeyId" "token_word secret"
  shows "authenticateApiKey sha256 now (ks_keys s2) (api_key_token apiKeyId secret) = Inl Fail_REVOKED_KEY"
proof -
  from assms(1) obtain w keys where r: "revokeApiKeyWithAudit w apiKeyId revokedAt (ks_keys s) = Inr (k, keys)"
    and s1: "s1 = s\<lparr> ks_keys := keys \<rparr>"
    by (auto simp: revokeWorkspaceApiKey_def after_check_Inr and_then_Inr split: option.splits if_splits)
  from revoked_record_kept [OF r] s1 obtain d where "map_of (ks_keys s1) apiKeyId = Some (k, d)" "ak_revokedAt k \<noteq> None"
    by auto
  with key_steps_kept [OF assms(2)] have "map_of (ks_keys s2) apiKeyId = Some (k, d)"
    by (auto simp: site_kept_def key_kept_def)
  from authenticate_stored [OF this assms(3,4)] \<open>ak_revokedAt k \<noteq> None\<close> show ?thesis by simp
qed

text \<open>
  Who the routes of human identity are for: the routes to get and to use a session for everyone,
  the ones that pass on the ownership of a workspace for its owners, the ones on its members for
  owners and administrators, the audit events for every member.
\<close>

definition session_routes :: "human_auth_route set" where
  "session_routes = {Route_LOGIN, Route_LOGOUT, Route_SESSION, Route_SETUP, Route_RECOVERY_REQUEST,
     Route_RECOVERY_RESET, Route_ME, Route_WORKSPACES_LIST, Route_WORKSPACE_SELECT}"

definition route_roles :: "human_auth_route \<Rightarrow> human_role set" where
  "route_roles routeId =
     (if routeId \<in> {Route_WORKSPACE_OWNERSHIP_TRANSFER, Route_WORKSPACE_OWNERSHIP_GRANT} then {Human_OWNER}
      else if routeId = Route_AUDIT_EVENTS_LIST then UNIV
      else {Human_OWNER, Human_ADMIN})"

lemma route_tables:
  "HUMAN_ROUTE_PERMISSIONS routeId = None \<longleftrightarrow> routeId \<in> session_routes"
  "humanAuthRouteRequiresWorkspace routeId \<longleftrightarrow> routeId \<notin> session_routes"
  "HUMAN_ROUTE_PERMISSIONS routeId = Some permission \<Longrightarrow>
     humanWorkspaceRolePermitsPermission role permission \<longleftrightarrow> role \<in> route_roles routeId"
  subgoal by (cases routeId) (simp_all add: session_routes_def)
  subgoal by (cases routeId) (simp_all add: session_routes_def humanAuthRouteRequiresWorkspace_def)
  subgoal by (cases routeId; cases role) (auto simp: route_roles_def humanWorkspaceRolePermitsPermission_def)
  done

lemma admitted_authorized:
  "requireControlPlaneAuthorization (HUMAN_SESSION (h\<lparr> hp_workspaceId := Some w, hp_humanRole := Some role \<rparr>)) action
     = None \<longleftrightarrow> humanWorkspaceRolePermitsPermission role (authorizationActionToHumanPermission action)"
  by (simp add: requireControlPlaneAuthorization_def controlPlaneWorkspaceId_def human_tables_agree)

text \<open>
  A human request to a route of the control plane that is let pass acts in one workspace, as a
  member whose role the route's own action is authorized for; routes outside the inventory and
  routes for API keys let no human pass.
\<close>

theorem control_plane_route_authorizes:
  assumes "authorizeHumanControlPlaneRequest d (Some (controlPlaneAccessRecord handlerModule method key)) header h = Inr h'"
  shows "handlerModule \<noteq> ''auth-http'' \<and> requireControlPlaneAuthorization (HUMAN_SESSION h')
      (inferV1RouteAuthorizationAction method key) = None
    \<and> hp_userId h' = hp_userId h \<and> ad_userStatus d (hp_userId h) = Some User_ACTIVE
    \<and> (\<exists>w m. hp_workspaceId h' = Some w \<and> findByWorkspaceAndUser d w (hp_userId h) = Some m
         \<and> hp_humanRole h' = Some (wm_role m) \<and> (header = Some w \<or> header = None \<or> header = Some ''''))"
proof -
  have m: "handlerModule \<noteq> ''auth-http''"
    using assms by (auto simp: authorizeHumanControlPlaneRequest_def controlPlaneAccessRecord_def Let_def)
  with assms obtain a where a: "resolveHumanControlPlaneWorkspace d (hp_userId h) (readWorkspaceSelector header h) = Inr a"
    and perm: "humanWorkspaceRolePermitsPermission (wa_role a)
      (authorizationActionToHumanPermission (inferV1RouteAuthorizationAction method key))"
    and h': "h' = h\<lparr> hp_workspaceId := Some (wa_workspaceId a), hp_humanRole := Some (wa_role a) \<rparr>"
    by (auto simp: authorizeHumanControlPlaneRequest_def controlPlaneAccessRecord_def Let_def and_then_Inr
        split: if_splits)
  from a obtain w where w: "resolveWorkspaceAccess d (hp_userId h) w = Some a"
    "readWorkspaceSelector header h = None \<or> readWorkspaceSelector header h = Some w"
    by (auto simp: resolveHumanControlPlaneWorkspace_def split: option.splits list.splits)
  then obtain x where x: "ad_userStatus d (hp_userId h) = Some User_ACTIVE"
    "findByWorkspaceAndUser d w (hp_userId h) = Some x" "wa_workspaceId a = w" "wa_role a = wm_role x"
    by (auto simp: resolveWorkspaceAccess_def split: option.splits if_splits)
  have "header = Some w \<or> header = None \<or> header = Some ''''"
    using w(2) by (auto simp: readWorkspaceSelector_def split: option.splits if_splits)
  then show ?thesis using m perm x by (simp add: h' admitted_authorized)
qed

text \<open>
  C37. Which humans the check of a route of human identity lets pass, for every route: to the
  routes of a session everyone, without a look at the principal; to a route of a workspace exactly
  a human session of an active user who is a member of the workspace the request chooses, or the
  session has, with a role the route is for - owners for the ones that pass on ownership, owners
  and administrators for the ones on members, any member for the audit events. It then acts in
  that workspace and role, and the control plane authorizes it for exactly the actions whose
  permission the role has.
\<close>

theorem human_route_authorizes:
  "(authorizeHumanRoute d p routeId workspaceId = Inr None \<longleftrightarrow> routeId \<in> session_routes)
    \<and> (authorizeHumanRoute d p routeId workspaceId = Inr (Some c) \<longleftrightarrow>
        routeId \<notin> session_routes \<and> HUMAN_ROUTE_PERMISSIONS routeId = Some (hc_permission c)
        \<and> (\<exists>h w m. p = Some (HUMAN_SESSION h) \<and> or_else workspaceId (hp_workspaceId h) = Some w
             \<and> ad_userStatus d (hp_userId h) = Some User_ACTIVE
             \<and> findByWorkspaceAndUser d w (hp_userId h) = Some m \<and> wm_role m \<in> route_roles routeId
             \<and> hc_principal c = h\<lparr> hp_workspaceId := Some w, hp_humanRole := Some (wm_role m) \<rparr>
             \<and> hc_workspaceId c = w \<and> hc_userId c = hp_userId h))
    \<and> (authorizeHumanRoute d p routeId workspaceId = Inr (Some c) \<longrightarrow>
        (\<forall>action. requireControlPlaneAuthorization (HUMAN_SESSION (hc_principal c)) action = None \<longleftrightarrow>
          (\<exists>role. hp_humanRole (hc_principal c) = Some role
            \<and> authorizationActionToHumanPermission action \<in> set (HUMAN_ROLE_PERMISSIONS role))))"
proof (cases "HUMAN_ROUTE_PERMISSIONS routeId")
  case None
  then show ?thesis using route_tables(1) [of routeId] by (simp add: authorizeHumanRoute_def)
next
  case (Some permission)
  note r = route_tables(1,2) [of routeId] route_tables(3) [OF Some]
  have s: "routeId \<notin> session_routes" using r(1) Some by simp
  have admitted: "authorizeHumanRoute d p routeId workspaceId = Inr x \<longleftrightarrow>
      (\<exists>h w m. p = Some (HUMAN_SESSION h) \<and> or_else workspaceId (hp_workspaceId h) = Some w
         \<and> ad_userStatus d (hp_userId h) = Some User_ACTIVE
         \<and> findByWorkspaceAndUser d w (hp_userId h) = Some m \<and> wm_role m \<in> route_roles routeId
         \<and> x = Some \<lparr> hc_principal = h\<lparr> hp_workspaceId := Some w, hp_humanRole := Some (wm_role m) \<rparr>,
             hc_workspaceId = w, hc_userId = hp_userId h, hc_permission = permission \<rparr>)"
    (is "?l \<longleftrightarrow> ?r") for x
  proof (cases "\<exists>h. p = Some (HUMAN_SESSION h)")
    case False
    then have "?l \<longleftrightarrow> False" by (simp add: authorizeHumanRoute_def Some split: option.split principal.split)
    with False show ?thesis by simp
  next
    case True
    then obtain h where p: "p = Some (HUMAN_SESSION h)" by blast
    show ?thesis
    proof (cases "or_else workspaceId (hp_workspaceId h)")
      case None
      then show ?thesis using s r(2) by (simp add: authorizeHumanRoute_def Some p)
    next
      case w: (Some w)
      then show ?thesis
        using s r(2,3) by (cases "findByWorkspaceAndUser d w (hp_userId h)")
          (auto simp: authorizeHumanRoute_def Some p resolveWorkspaceAccess_def)
    qed
  qed
  show ?thesis
    using s Some
    by (cases c) (auto simp: admitted admitted_authorized humanWorkspaceRolePermitsPermission_def)
qed

subsection \<open>Witnesses\<close>

definition sample_digest :: "string \<Rightarrow> string" where
  "sample_digest secret = take 32 (secret @ replicate 32 CHR ''0'')"

definition sample_admin :: principal where
  "sample_admin = API_KEY \<lparr> akp_subjectId = ''a'', akp_workspaceId = ''w'', akp_role = Role_ADMIN \<rparr>"

definition sample_issue :: issue_request where
  "sample_issue = \<lparr> is_apiKeyId = ''k1'', is_secret = ''s1'', is_name = ''ci'', is_role = Role_EDITOR,
     is_expiresAt = Some (DateMs 50), is_now = DateMs 1 \<rparr>"

definition sample_key :: api_key where
  "sample_key = \<lparr> ak_id = ''k1'', ak_workspaceId = ''w'', ak_name = ''ci'', ak_role = Role_EDITOR,
     ak_createdAt = DateMs 1, ak_expiresAt = Some (DateMs 50), ak_revokedAt = None \<rparr>"

definition sample_site :: key_site where
  "sample_site = \<lparr> ks_keys = [], ks_workspaces = [(''w'', \<lparr> wsp_id = ''w'', wsp_name = ''W'',
     wsp_createdAt = DateMs 0, wsp_organizationId = None \<rparr>)] \<rparr>"

definition sample_issued :: key_site where
  "sample_issued = sample_site\<lparr> ks_keys := [(''k1'', (sample_key, sample_digest ''s1''))] \<rparr>"

definition sample_revoked :: key_site where
  "sample_revoked = sample_site\<lparr> ks_keys :=
     [(''k1'', (sample_key\<lparr> ak_revokedAt := Some (DateMs 9) \<rparr>, sample_digest ''s1''))] \<rparr>"

lemma sample_create:
  "createWorkspaceApiKey sample_digest (\<lambda>_. 0) sample_admin ''e1'' sample_issue sample_site
     = Inr ((sample_key, api_key_token ''k1'' ''s1''), sample_issued)"
  by code_simp

lemma sample_revoke:
  "revokeWorkspaceApiKey (\<lambda>_. 0) sample_admin ''e2'' ''k1'' (DateMs 9) sample_issued
     = Inr (sample_key\<lparr> ak_revokedAt := Some (DateMs 9) \<rparr>, sample_revoked)"
  by code_simp

lemma sample_revoke_step: "(key_step sample_digest (\<lambda>_. 0))\<^sup>*\<^sup>* sample_issued sample_revoked"
  using key_revoke [OF sample_revoke] by (rule r_into_rtranclp)

lemma sample_fields: "is_apiKeyId sample_issue = ''k1''" "ak_id sample_key = ''k1''"
  "ak_workspaceId sample_key = ''w''" "ak_role sample_key = Role_EDITOR"
  by (simp_all add: sample_issue_def sample_key_def)

lemma sample_secret: "token_word (is_apiKeyId sample_issue)" "token_word (is_secret sample_issue)"
  "length (sample_digest (is_secret sample_issue)) = 32"
  by code_simp+

theorem issued_token_authenticates_witness:
  "\<exists>k' digest. map_of (ks_keys sample_revoked) ''k1'' = Some (k', digest) \<and>
    authenticateApiKey sample_digest (DateMs 10) (ks_keys sample_revoked) (api_key_token ''k1'' ''s1'') =
      (if ak_revokedAt k' \<noteq> None then Inl Fail_REVOKED_KEY
       else if isExpired sample_key (DateMs 10) then Inl Fail_EXPIRED_KEY
       else Inr (toRequestPrincipal ''k1'' ''w'' Role_EDITOR))"
  using issued_token_authenticates [OF sample_create sample_secret sample_revoke_step, of "DateMs 10"]
  unfolding sample_fields .

theorem revoked_key_refused_witness:
  "authenticateApiKey sample_digest (DateMs 10) (ks_keys sample_revoked) (api_key_token ''k1'' ''s1'')
     = Inl Fail_REVOKED_KEY"
  by (rule revoked_key_refused [OF sample_revoke rtranclp.rtrancl_refl]) (simp_all add: token_word_def token_char_def)

definition sample_member :: human_principal where
  "sample_member = \<lparr> hp_userId = ''u'', hp_sessionId = ''s'', hp_workspaceId = None, hp_humanRole = None \<rparr>"

definition sample_directory :: access_directory where
  "sample_directory = \<lparr> ad_userStatus = (\<lambda>_. Some User_ACTIVE), ad_memberships = (\<lambda>_. [\<lparr> wm_id = ''m'',
     wm_workspaceId = ''w'', wm_userId = ''u'', wm_role = Human_ADMIN, wm_createdAt = DateMs 0 \<rparr>]) \<rparr>"

definition sample_context :: human_route_context where
  "sample_context = \<lparr> hc_principal = sample_member\<lparr> hp_workspaceId := Some ''w'', hp_humanRole := Some Human_ADMIN \<rparr>,
     hc_workspaceId = ''w'', hc_userId = ''u'', hc_permission = Perm_MANAGE_MEMBERS \<rparr>"

lemma sample_route_checked:
  "authorizeHumanRoute sample_directory (Some (HUMAN_SESSION sample_member)) Route_WORKSPACE_MEMBERSHIP_CREATE
     (Some ''w'') = Inr (Some sample_context)"
  by code_simp

theorem human_route_authorizes_witness:
  "requireControlPlaneAuthorization (HUMAN_SESSION (hc_principal sample_context)) Action_ADMIN = None"
  using human_route_authorizes [of sample_directory "Some (HUMAN_SESSION sample_member)"
      Route_WORKSPACE_MEMBERSHIP_CREATE "Some ''w''" sample_context] sample_route_checked
  by (simp add: sample_context_def)

theorem control_plane_route_authorizes_witness:
  "\<exists>h. authorizeHumanControlPlaneRequest sample_directory
      (Some (controlPlaneAccessRecord ''run-http'' ''POST'' ''POST /v1/runs'')) None sample_member = Inr h
    \<and> requireControlPlaneAuthorization (HUMAN_SESSION h) (inferV1RouteAuthorizationAction ''POST'' ''POST /v1/runs'') = None"
proof -
  have "case authorizeHumanControlPlaneRequest sample_directory
      (Some (controlPlaneAccessRecord ''run-http'' ''POST'' ''POST /v1/runs'')) None sample_member of
      Inl e \<Rightarrow> False | Inr h \<Rightarrow> True" by code_simp
  then obtain h where h: "authorizeHumanControlPlaneRequest sample_directory
      (Some (controlPlaneAccessRecord ''run-http'' ''POST'' ''POST /v1/runs'')) None sample_member = Inr h"
    by (auto split: sum.splits)
  from h control_plane_route_authorizes [OF h] show ?thesis by blast
qed

end
