(* ===== verification/Workflow_Application.thy ===== *)
theory Workflow_Application
  imports Workflow_Passes Access_Control
begin

text \<open>
  The handlers that reach the workflow stores beside the reconciliation: the control plane of
  \<open>domain/src/workflow-application.ts\<close>, the resolution of waits of the memory adapter, and the wait
  driver and event ingestion of \<open>orchestration/src/process-due-timer-waits.ts\<close>,
  \<open>process-resolvable-event-waits.ts\<close>, \<open>workflow-wait-driver-tick.ts\<close> and
  \<open>ingest-workflow-event.ts\<close>. All are programs of accesses, as in \<open>Workflow_Reconcile\<close>; each of
  them is shown to be harmless to the others.
\<close>

subsection \<open>The environment of the control plane\<close>

text \<open>
  The workspace repository, read only here, and the printing of definitions and audit details are
  parameters.
\<close>

record application_env =
  ae_workspace :: "string \<Rightarrow> workspace option"
  ae_stringify :: "workflow_definition \<Rightarrow> string"
  ae_byteLength :: "jsv \<Rightarrow> nat"
  ae_sha256 :: "json_token list \<Rightarrow> string"

definition on_catalog :: "(workflow_catalog \<Rightarrow> osva_error + ('a \<times> workflow_catalog)) \<Rightarrow> ('w, 'a) act" where
  "on_catalog operation = access_act (\<lambda>g.
     case operation (fl_catalog g) of Inl e \<Rightarrow> (g, Inl e) | Inr (x, s) \<Rightarrow> (g\<lparr> fl_catalog := s \<rparr>, Inr x))"

definition on_events :: "(event_store \<Rightarrow> osva_error + ('a \<times> event_store)) \<Rightarrow> ('w, 'a) act" where
  "on_events operation = access_act (\<lambda>g.
     case operation (fl_events g) of Inl e \<Rightarrow> (g, Inl e) | Inr (x, s) \<Rightarrow> (g\<lparr> fl_events := s \<rparr>, Inr x))"

text \<open>What every handler of the control plane starts with.\<close>

definition authorized :: "principal \<Rightarrow> authorization_action \<Rightarrow> (string \<Rightarrow> ('w, 'a) act) \<Rightarrow> ('w, 'a) act" where
  "authorized scope action k =
     act_then (check_act (requireControlPlaneAuthorization scope action)) (\<lambda>u.
     act_then (lift_act (controlPlaneWorkspaceId scope)) k)"

definition found :: "osva_error \<Rightarrow> ('w flow \<Rightarrow> 'a option) \<Rightarrow> ('a \<Rightarrow> ('w, 'b) act) \<Rightarrow> ('w, 'b) act" where
  "found missing sel k =
     act_then (reading sel) (\<lambda>r. case r of None \<Rightarrow> lift_act (Inl missing) | Some x \<Rightarrow> k x)"

subsection \<open>Workflows and versions\<close>

record create_workflow_command =
  cwc_key :: string
  cwc_name :: string
  cwc_description :: "string option"

definition createWorkflow ::
    "application_env \<Rightarrow> principal \<Rightarrow> create_workflow_command \<Rightarrow> js_date \<Rightarrow> ('w, workflow) act" where
  "createWorkflow ae scope c now =
     authorized scope Action_WRITE (\<lambda>workspaceId.
     found (NotFoundError ''Workspace'' workspaceId) (\<lambda>f. ae_workspace ae workspaceId) (\<lambda>workspace.
     act_then new_id (\<lambda>i.
     act_then (lift_act (Workflow_create \<lparr> wk_id = i, wk_workspaceId = workspaceId, wk_key = cwc_key c,
         wk_name = cwc_name c, wk_description = cwc_description c, wk_createdAt = now, wk_updatedAt = now \<rparr>)) (\<lambda>w.
     act_then (on_catalog (no_result (saveWorkflow w))) (\<lambda>u. give w)))))"

definition getWorkflow :: "principal \<Rightarrow> string \<Rightarrow> ('w, workflow) act" where
  "getWorkflow scope workflowId =
     authorized scope Action_READ (\<lambda>workspaceId.
     found (NotFoundError ''Workflow'' workflowId)
       (\<lambda>f. findWorkflowByWorkspaceAndId (fl_catalog f) workspaceId workflowId) give)"

definition listWorkflowsOfScope :: "principal \<Rightarrow> ('w, workflow list) act" where
  "listWorkflowsOfScope scope =
     authorized scope Action_READ (\<lambda>workspaceId.
     reading (\<lambda>f. listWorkflowsByWorkspaceId (fl_catalog f) workspaceId))"

fun assertAgentVersionBindings :: "string \<Rightarrow> wf_node list \<Rightarrow> ('w, unit) act" where
  "assertAgentVersionBindings workspaceId [] = give ()"
| "assertAgentVersionBindings workspaceId (node # nodes) =
     (case wn_body node of
        Node_AGENT (Some agentVersionId) \<Rightarrow>
          found (AgentVersionNotFoundError agentVersionId)
            (\<lambda>f. findAgentVersionById (pf_agents (fl_platform f)) agentVersionId) (\<lambda>v.
          found (DomainInvariantError (''Workflow node '' @ quoted (wn_key node) @ '' references AgentVersion ''
              @ quoted agentVersionId @ '' that does not belong to workspace '' @ quoted workspaceId @ ''.''))
            (\<lambda>f. findAgentByWorkspaceAndId (pf_agents (fl_platform f)) workspaceId (av_agentId v)) (\<lambda>agent.
          assertAgentVersionBindings workspaceId nodes))
      | _ \<Rightarrow> assertAgentVersionBindings workspaceId nodes)"

definition appendVersion ::
    "application_env \<Rightarrow> principal \<Rightarrow> string \<Rightarrow> workflow_definition \<Rightarrow> js_date \<Rightarrow> ('w, workflow_version) act" where
  "appendVersion ae scope workflowId definition' now =
     authorized scope Action_WRITE (\<lambda>workspaceId.
     found (NotFoundError ''Workflow'' workflowId)
       (\<lambda>f. findWorkflowByWorkspaceAndId (fl_catalog f) workspaceId workflowId) (\<lambda>w.
     act_then (assertAgentVersionBindings (wk_workspaceId w) (listAgentNodes definition')) (\<lambda>u.
     act_then new_id (\<lambda>i.
       on_catalog (appendWorkflowVersion (ae_stringify ae)
         \<lparr> awi_id = i, awi_workflowId = workflowId, awi_definition = definition', awi_createdAt = now \<rparr>)))))"

definition getWorkflowVersion :: "principal \<Rightarrow> string \<Rightarrow> string \<Rightarrow> ('w, workflow_version) act" where
  "getWorkflowVersion scope workflowId workflowVersionId =
     authorized scope Action_READ (\<lambda>workspaceId.
     found (NotFoundError ''Workflow'' workflowId)
       (\<lambda>f. findWorkflowByWorkspaceAndId (fl_catalog f) workspaceId workflowId) (\<lambda>w.
     found (NotFoundError ''WorkflowVersion'' workflowVersionId)
       (\<lambda>f. case findWorkflowVersionById (fl_catalog f) workflowVersionId of
              None \<Rightarrow> None
            | Some v \<Rightarrow> if wv_workflowId v \<noteq> workflowId then None else Some v) give))"

definition listVersions :: "principal \<Rightarrow> string \<Rightarrow> ('w, workflow_version list) act" where
  "listVersions scope workflowId =
     authorized scope Action_READ (\<lambda>workspaceId.
     found (NotFoundError ''Workflow'' workflowId)
       (\<lambda>f. findWorkflowByWorkspaceAndId (fl_catalog f) workspaceId workflowId) (\<lambda>w.
     reading (\<lambda>f. listWorkflowVersions (fl_catalog f) workflowId)))"

subsection \<open>Workflow runs\<close>

definition createWorkflowRun ::
    "application_env \<Rightarrow> principal \<Rightarrow> string \<Rightarrow> jsv \<Rightarrow> js_date \<Rightarrow> ('w, workflow_run) act" where
  "createWorkflowRun ae scope workflowVersionId input now =
     authorized scope Action_EXECUTE (\<lambda>workspaceId.
     found (NotFoundError ''Workspace'' workspaceId) (\<lambda>f. ae_workspace ae workspaceId) (\<lambda>workspace.
     found (NotFoundError ''WorkflowVersion'' workflowVersionId)
       (\<lambda>f. case findWorkflowVersionById (fl_catalog f) workflowVersionId of
              None \<Rightarrow> None
            | Some v \<Rightarrow> if wv_workspaceId v \<noteq> workspaceId then None else Some v) (\<lambda>v.
     found (NotFoundError ''Workflow'' (wv_workflowId v)) (\<lambda>f. findWorkflowById (fl_catalog f) (wv_workflowId v)) (\<lambda>w.
     act_then (check_act (assertWorkflowDefinitionExecutable (wv_definition v))) (\<lambda>u.
     act_then new_id (\<lambda>i.
     act_then (lift_act (WorkflowRun_create i workspaceId (wv_workflowId v) (wv_id v) input now)) (\<lambda>run.
     act_then (on_store (no_result (saveWorkflowRun run))) (\<lambda>u. give run))))))))"

definition MAX_WORKFLOW_RUN_LIST_LIMIT :: nat where
  "MAX_WORKFLOW_RUN_LIST_LIMIT = 100"

definition assertWorkflowRunListLimit :: "nat \<Rightarrow> osva_error option" where
  "assertWorkflowRunListLimit limit =
     (if limit < 1 \<or> MAX_WORKFLOW_RUN_LIST_LIMIT < limit
      then Some (DomainInvariantError (''WorkflowRun list limit must be an integer between 1 and ''
        @ nat_str MAX_WORKFLOW_RUN_LIST_LIMIT @ ''.''))
      else None)"

definition listRunsOfScope ::
    "principal \<Rightarrow> workflow_run_query \<Rightarrow> ('w, workflow_run list \<times> (js_date \<times> string) option) act" where
  "listRunsOfScope scope q =
     authorized scope Action_READ (\<lambda>workspaceId.
     act_then (check_act (assertWorkflowRunListLimit (wq_limit q))) (\<lambda>u.
     reading (\<lambda>f. listWorkflowRuns (fl_store f) (q\<lparr> wq_workspaceId := workspaceId \<rparr>))))"

definition getWorkflowRun ::
    "principal \<Rightarrow> string \<Rightarrow> ('w, workflow_run \<times> workflow_node_run list \<times> approval_request list) act" where
  "getWorkflowRun scope workflowRunId =
     authorized scope Action_READ (\<lambda>workspaceId.
     found (WorkflowRunNotFoundError workflowRunId)
       (\<lambda>f. findWorkflowRunByWorkspaceAndId (fl_store f) workspaceId workflowRunId) (\<lambda>w.
     act_then (reading (\<lambda>f. listWorkflowNodeRuns (fl_store f) workflowRunId)) (\<lambda>nodes.
     act_then (reading (\<lambda>f. listApprovalRequestsByWorkflowRunId (fl_approvals f) workflowRunId)) (\<lambda>requests.
       give (w, nodes, requests)))))"

subsection \<open>Approvals\<close>

definition getApprovalRequest :: "principal \<Rightarrow> string \<Rightarrow> ('w, approval_request) act" where
  "getApprovalRequest scope i =
     authorized scope Action_READ (\<lambda>workspaceId.
     found (ApprovalRequestNotFoundError i) (\<lambda>f. findApprovalRequestByWorkspaceAndId (fl_approvals f) workspaceId i) give)"

fun decided_status :: "approval_decision \<Rightarrow> approval_request_state" where
  "decided_status Decision_APPROVED = AR_APPROVED"
| "decided_status Decision_REJECTED = AR_REJECTED"

definition decide_request ::
    "approval_request \<Rightarrow> approval_decision \<Rightarrow> js_date \<Rightarrow> string option \<Rightarrow> osva_error + approval_request" where
  "decide_request r decision now comment =
     (if decision = Decision_APPROVED then ApprovalRequest_markApproved r now comment
      else ApprovalRequest_markRejected r now comment)"

definition decision_details :: "approval_request \<Rightarrow> (string \<times> jsv) list" where
  "decision_details r =
     (case ap_operationKind r of None \<Rightarrow> [] | Some k \<Rightarrow> [(''operationKind'', JString (operation_kind_name k))])
     @ (case ap_operationDigest r of None \<Rightarrow> [] | Some d \<Rightarrow> [(''operationDigest'', JString d)])"

definition decision_event :: "application_env \<Rightarrow> string \<Rightarrow> audit_actor \<Rightarrow> approval_request \<Rightarrow> string \<Rightarrow> js_date
    \<Rightarrow> approval_request \<Rightarrow> osva_error + security_audit_event" where
  "decision_event ae auditId actor existing workspaceId now next =
     buildApprovalRequestDecidedAuditEvent (ae_byteLength ae)
       \<lparr> di_id = auditId, di_occurredAt = now, di_workspaceId = workspaceId, di_actorUserId = aa_actorUserId actor,
         di_actorSubjectId = aa_subjectId actor, di_approvalRequestId = ap_id existing,
         di_workflowRunId = ap_workflowRunId existing, di_workflowNodeRunId = ap_workflowNodeRunId existing,
         di_decision = approval_request_state_name (ap_status next), di_extension = decision_details next \<rparr>"

definition conflict_of :: "approval_request \<Rightarrow> osva_error" where
  "conflict_of r = LifecycleConflictError ''approvalRequest'' (ap_id r) (approval_request_state_name (ap_status r))"

text \<open>When another decision was first, it is the answer if it is the same.\<close>

definition storeDecision :: "string \<Rightarrow> approval_decision \<Rightarrow> approval_request \<Rightarrow> ('w, approval_request) act" where
  "storeDecision workspaceId decision next =
     act_catch (on_approvals (saveApprovalRequestTransition AR_PENDING next))
       (\<lambda>e. if \<not> is_LifecycleConflictError e then lift_act (Inl e)
            else found (ApprovalRequestNotFoundError (ap_id next))
              (\<lambda>f. findApprovalRequestByWorkspaceAndId (fl_approvals f) workspaceId (ap_id next)) (\<lambda>reloaded.
              if ap_status reloaded = decided_status decision then give reloaded
              else lift_act (Inl (conflict_of reloaded))))"

definition decideApprovalRequest :: "application_env \<Rightarrow> principal \<Rightarrow> string \<Rightarrow> approval_decision \<Rightarrow> string option
    \<Rightarrow> js_date \<Rightarrow> ('w, approval_request) act" where
  "decideApprovalRequest ae scope i decision comment now =
     authorized scope Action_EXECUTE (\<lambda>workspaceId.
     found (ApprovalRequestNotFoundError i) (\<lambda>f. findApprovalRequestByWorkspaceAndId (fl_approvals f) workspaceId i)
       (\<lambda>existing.
     if isTerminalApprovalRequestState (ap_status existing)
     then (if ap_status existing = decided_status decision then give existing
           else lift_act (Inl (conflict_of existing)))
     else
       found (WorkflowNodeRunNotFoundError (ap_workflowNodeRunId existing))
         (\<lambda>f. findWorkflowNodeRunById (fl_store f) (ap_workflowNodeRunId existing)) (\<lambda>nodeRun.
       act_then (check_act (assertApprovalDecisionAuthorizesOperation (ae_sha256 ae) existing nodeRun decision now)) (\<lambda>u.
       act_then (lift_act (decide_request existing decision now comment)) (\<lambda>next.
       act_then (lift_act (controlPlaneAuditActor scope)) (\<lambda>actor.
       act_then new_id (\<lambda>auditId.
       act_then (lift_act (decision_event ae auditId actor existing workspaceId now next)) (\<lambda>auditEvent.
         storeDecision workspaceId decision next)))))))) "

subsection \<open>Resolving waits\<close>

text \<open>The wait and its run; a wait whose run has ended stays as it is.\<close>

definition wait_of_active_run :: "string \<Rightarrow> (workflow_wait \<Rightarrow> ('w, workflow_wait) act) \<Rightarrow> ('w, workflow_wait) act" where
  "wait_of_active_run i k =
     found (WorkflowWaitNotFoundError i) (\<lambda>f. findWorkflowWaitByWorkflowNodeRunId (fl_waits f) i) (\<lambda>w.
     act_then (reading (\<lambda>f. findWorkflowRunById (fl_store f) (ww_workflowRunId w))) (\<lambda>r.
       if (case r of None \<Rightarrow> False | Some run \<Rightarrow> isTerminalWorkflowRunState (w_status run)) then give w
       else k w))"

definition resolveWorkflowTimerWait :: "string \<Rightarrow> js_date \<Rightarrow> ('w, workflow_wait) act" where
  "resolveWorkflowTimerWait i now =
     wait_of_active_run i (\<lambda>w.
       if ww_resolution w \<noteq> None \<or> ww_kind w \<noteq> Kind_TIMER then give w
       else act_then (lift_act (resolveTimer w now)) (\<lambda>w'. on_waits (saveWorkflowWaitResolution w')))"

definition resolveWorkflowEventWait :: "string \<Rightarrow> js_date \<Rightarrow> ('w, workflow_wait) act" where
  "resolveWorkflowEventWait i now =
     wait_of_active_run i (\<lambda>w.
     act_then (reading (\<lambda>f. listWorkflowEventCandidatesForWait w (map_values (ves_byId (fl_events f))) now)) (\<lambda>listed.
     act_then (lift_act listed) (\<lambda>candidates.
     act_then (lift_act (resolveWorkflowEventWaitDecision w candidates now)) (\<lambda>outcome.
       case outcome of
         Unchanged w' \<Rightarrow> give w'
       | Resolved w' \<Rightarrow> on_waits (saveWorkflowWaitResolution w')))))"

text \<open>The waits that are resolved afterwards, in the order of the list.\<close>

fun resolve_each :: "(string \<Rightarrow> ('w, workflow_wait) act) \<Rightarrow> workflow_wait list \<Rightarrow> ('w, workflow_wait list) act" where
  "resolve_each resolve [] = give []"
| "resolve_each resolve (w # ws) =
     act_then (resolve (ww_workflowNodeRunId w)) (\<lambda>persisted.
     act_then (resolve_each resolve ws) (\<lambda>resolved.
       give (if ww_resolution persisted \<noteq> None then persisted # resolved else resolved)))"

definition limit_check :: "string \<Rightarrow> nat \<Rightarrow> osva_error option" where
  "limit_check name limit =
     (if limit = 0 then Some (DomainInvariantError (name @ '' limit must be a positive integer.'')) else None)"

definition processDueTimerWaits :: "js_date \<Rightarrow> nat \<Rightarrow> ('w, workflow_wait list) act" where
  "processDueTimerWaits now limit =
     act_then (check_act (limit_check ''ProcessDueTimerWaits'' limit)) (\<lambda>u.
     act_then (reading (\<lambda>f. listDueTimerWorkflowWaits (fl_store f) (fl_waits f) now limit)) (\<lambda>due.
       resolve_each (\<lambda>i. resolveWorkflowTimerWait i now) due))"

definition processResolvableEventWaits :: "js_date \<Rightarrow> nat \<Rightarrow> ('w, workflow_wait list) act" where
  "processResolvableEventWaits now limit =
     act_then (check_act (limit_check ''ProcessResolvableEventWaits'' limit)) (\<lambda>u.
     act_then (reading (\<lambda>f. listResolvableEventWorkflowWaits (fl_store f) (map_values (ves_byId (fl_events f)))
         (fl_waits f) now limit)) (\<lambda>listed.
     act_then (lift_act listed) (\<lambda>candidates.
       resolve_each (\<lambda>i. resolveWorkflowEventWait i now) candidates)))"

definition DEFAULT_WORKFLOW_WAIT_DRIVER_BATCH_LIMIT :: nat where
  "DEFAULT_WORKFLOW_WAIT_DRIVER_BATCH_LIMIT = 50"

definition workflowWaitDriverTick :: "nat option \<Rightarrow> js_date \<Rightarrow> ('w, unit) act" where
  "workflowWaitDriverTick batchLimit now =
     (let limit = (case batchLimit of None \<Rightarrow> DEFAULT_WORKFLOW_WAIT_DRIVER_BATCH_LIMIT | Some n \<Rightarrow> n)
      in act_then (processDueTimerWaits now limit) (\<lambda>timers.
         act_then (processResolvableEventWaits now limit) (\<lambda>events. give ())))"

definition ingestWorkflowEvent :: "workflow_event_submission \<Rightarrow> string \<Rightarrow> js_date \<Rightarrow> ('w, workflow_event) act" where
  "ingestWorkflowEvent s eventId now =
     act_then (lift_act (WorkflowEvent_create \<lparr> ev_id = eventId, ev_workspaceId = es_workspaceId s,
         ev_source = es_source s, ev_eventType = es_eventType s, ev_correlationKey = es_correlationKey s,
         ev_idempotencyKey = es_idempotencyKey s, ev_payload = es_payload s, ev_occurredAt = es_occurredAt s,
         ev_receivedAt = now \<rparr>)) (\<lambda>created.
     act_then (on_events (saveWorkflowEvent created)) (\<lambda>persisted.
     act_then (reading (\<lambda>f. listActiveEventWorkflowWaitsByMatch (fl_store f) (fl_waits f)
         \<lparr> em_workspaceId = ev_workspaceId persisted, em_source = ev_source persisted,
           em_eventType = ev_eventType persisted, em_correlationKey = ev_correlationKey persisted \<rparr>)) (\<lambda>matching.
     act_then (resolve_each (\<lambda>i. resolveWorkflowEventWait i now) matching) (\<lambda>resolved. give persisted))))"

end
