(* ===== verification/Schedule_Application.thy ===== *)
theory Schedule_Application
  imports Workflow_Application
begin

text \<open>
  The handlers around schedules: the control plane of \<open>domain/src/schedule-application.ts\<close>, and the
  scheduler of \<open>orchestration/src/scheduler-tick.ts\<close> with
  \<open>orchestration/src/dispatch-schedule-occurrence.ts\<close>. As the handlers on workflows they are
  programs of single accesses, over the operations of the PostgreSQL repository. Logging and
  telemetry are left out.
\<close>

definition on_schedules :: "(schedule_store \<Rightarrow> osva_error + ('a \<times> schedule_store)) \<Rightarrow> ('w, 'a) act" where
  "on_schedules operation = access_act (\<lambda>g.
     case operation (fl_schedules g) of Inl e \<Rightarrow> (g, Inl e) | Inr (x, s) \<Rightarrow> (g\<lparr> fl_schedules := s \<rparr>, Inr x))"

subsection \<open>The control plane (schedule-application.ts)\<close>

record create_schedule_command =
  csc_key :: string
  csc_name :: string
  csc_agentId :: string
  csc_agentVersionId :: string
  csc_cronExpression :: string
  csc_timezone :: string
  csc_input :: jsv
  csc_enabled :: "bool option"

record update_schedule_command =
  usc_scheduleId :: string
  usc_name :: "string option"
  usc_agentVersionId :: "string option"
  usc_cronExpression :: "string option"
  usc_timezone :: "string option"
  usc_input :: "jsv option"
  usc_enabled :: "bool option"

definition assertScheduleAgentOwnership :: "string \<Rightarrow> string \<Rightarrow> string \<Rightarrow> ('w, unit) act" where
  "assertScheduleAgentOwnership workspaceId agentId agentVersionId =
     found (AgentNotFoundError agentId)
       (\<lambda>f. findAgentByWorkspaceAndId (pf_agents (fl_platform f)) workspaceId agentId) (\<lambda>agent.
     found (AgentVersionNotFoundError agentVersionId)
       (\<lambda>f. findAgentVersionById (pf_agents (fl_platform f)) agentVersionId) (\<lambda>v.
     check_act (if av_agentId v \<noteq> agentId
       then Some (DomainInvariantError (''AgentVersion '' @ av_id v @ '' belongs to Agent '' @ av_agentId v
         @ '', not '' @ agentId @ ''.''))
       else None)))"

definition createSchedule ::
    "application_env \<Rightarrow> cron \<Rightarrow> principal \<Rightarrow> create_schedule_command \<Rightarrow> js_date \<Rightarrow> ('w, schedule) act" where
  "createSchedule ae cr scope c now =
     authorized scope Action_WRITE (\<lambda>workspaceId.
     found (NotFoundError ''Workspace'' workspaceId) (\<lambda>f. ae_workspace ae workspaceId) (\<lambda>workspace.
     act_then (assertScheduleAgentOwnership workspaceId (csc_agentId c) (csc_agentVersionId c)) (\<lambda>u.
     act_then new_id (\<lambda>i.
     act_then (lift_act (Schedule_create cr \<lparr> scc_id = i, scc_workspaceId = workspaceId, scc_key = csc_key c,
         scc_name = csc_name c, scc_agentId = csc_agentId c, scc_agentVersionId = csc_agentVersionId c,
         scc_cronExpression = csc_cronExpression c, scc_timezone = csc_timezone c, scc_input = csc_input c,
         scc_enabled = (case csc_enabled c of None \<Rightarrow> True | Some b \<Rightarrow> b), scc_now = now \<rparr>)) (\<lambda>x.
     act_then (on_schedules (no_result (postgres_saveSchedule x))) (\<lambda>u. give x))))))"

definition getSchedule :: "principal \<Rightarrow> string \<Rightarrow> ('w, schedule) act" where
  "getSchedule scope scheduleId =
     authorized scope Action_READ (\<lambda>workspaceId.
     found (NotFoundError ''Schedule'' scheduleId)
       (\<lambda>f. findScheduleByWorkspaceAndId (fl_schedules f) workspaceId scheduleId) give)"

definition listSchedulesOfScope :: "cron \<Rightarrow> principal \<Rightarrow> nat \<Rightarrow> (js_date \<times> string) option
    \<Rightarrow> ('w, schedule list \<times> (js_date \<times> string) option) act" where
  "listSchedulesOfScope cr scope limit cursor =
     authorized scope Action_READ (\<lambda>workspaceId.
     reading (\<lambda>f. listSchedules cr (fl_schedules f)
       \<lparr> sq_workspaceId = workspaceId, sq_limit = limit, sq_cursor = cursor \<rparr>))"

definition changeSchedule :: "cron \<Rightarrow> principal \<Rightarrow> update_schedule_command \<Rightarrow> js_date \<Rightarrow> ('w, schedule) act" where
  "changeSchedule cr scope c now =
     authorized scope Action_WRITE (\<lambda>workspaceId.
     found (NotFoundError ''Schedule'' (usc_scheduleId c))
       (\<lambda>f. findScheduleByWorkspaceAndId (fl_schedules f) workspaceId (usc_scheduleId c)) (\<lambda>existing.
     act_then (case usc_agentVersionId c of None \<Rightarrow> give ()
         | Some v \<Rightarrow> assertScheduleAgentOwnership (sc_workspaceId existing) (sc_agentId existing) v) (\<lambda>u.
     act_then (lift_act (Schedule_update cr existing \<lparr> scu_name = usc_name c, scu_agentVersionId = usc_agentVersionId c,
         scu_cronExpression = usc_cronExpression c, scu_timezone = usc_timezone c, scu_input = usc_input c,
         scu_enabled = usc_enabled c, scu_now = now \<rparr>)) (\<lambda>updated.
     act_then (on_schedules (no_result (postgres_updateSchedule updated))) (\<lambda>u. give updated)))))"

definition listScheduleOccurrences :: "cron \<Rightarrow> principal \<Rightarrow> occurrence_query
    \<Rightarrow> ('w, schedule_occurrence list \<times> (js_date \<times> string) option) act" where
  "listScheduleOccurrences cr scope q =
     authorized scope Action_READ (\<lambda>workspaceId.
     found (NotFoundError ''Schedule'' (oq_scheduleId q))
       (\<lambda>f. findScheduleByWorkspaceAndId (fl_schedules f) workspaceId (oq_scheduleId q)) (\<lambda>x.
     reading (\<lambda>f. listOccurrencesForSchedule cr (fl_schedules f) q)))"

subsection \<open>Dispatching an occurrence (dispatch-schedule-occurrence.ts)\<close>

text \<open>
  The updates of the repository that match no row read the occurrence again, to tell why.
\<close>

definition attachOccurrence :: "string \<Rightarrow> string \<Rightarrow> ('w, unit) act" where
  "attachOccurrence i runId =
     act_then (on_schedules (postgres_attachRunId i runId)) (\<lambda>row.
       case row of
         Some x \<Rightarrow> give ()
       | None \<Rightarrow>
           act_then (reading (\<lambda>f. findOccurrenceById (fl_schedules f) i)) (\<lambda>existing.
             case existing of
               None \<Rightarrow> lift_act (Inl (occurrence_missing i))
             | Some x \<Rightarrow>
                 if so_runId x \<noteq> None \<and> so_runId x \<noteq> Some runId
                 then lift_act (Inl (DomainInvariantError (''ScheduleOccurrence '' @ i
                   @ '' is already attached to Run '' @ the (so_runId x) @ ''.'')))
                 else give ()))"

definition markDispatched :: "string \<Rightarrow> js_date \<Rightarrow> ('w, unit) act" where
  "markDispatched i dispatchedAt =
     act_then (on_schedules (postgres_markDispatched i dispatchedAt)) (\<lambda>row.
       case row of
         Some x \<Rightarrow> give ()
       | None \<Rightarrow> found (occurrence_missing i) (\<lambda>f. findOccurrenceById (fl_schedules f) i) (\<lambda>x. give ()))"

definition markDispatchedIfNeeded :: "string \<Rightarrow> js_date \<Rightarrow> ('w, unit) act" where
  "markDispatchedIfNeeded i dispatchedAt =
     act_then (reading (\<lambda>f. findOccurrenceById (fl_schedules f) i)) (\<lambda>latest.
       case latest of
         None \<Rightarrow> give ()
       | Some x \<Rightarrow> if so_dispatchedAt x \<noteq> None then give () else markDispatched i dispatchedAt)"

definition occurrence_command ::
    "schedule_occurrence \<Rightarrow> string \<Rightarrow> string \<Rightarrow> string \<Rightarrow> js_date \<Rightarrow> create_run_command" where
  "occurrence_command x runId attemptId key now =
     \<lparr> crc_runId = runId, crc_runAttemptId = attemptId, crc_workspaceId = so_workspaceId x,
       crc_agentId = so_agentId x, crc_agentVersionId = so_agentVersionId x, crc_input = so_input x,
       crc_idempotencyKey = Some key, crc_evaluationRunId = None, crc_evaluationCaseId = None,
       crc_restrictPersistentMemory = None, crc_now = now \<rparr>"

text \<open>The run and whether \<open>CreateRun\<close> has put it into the queue.\<close>

definition createScheduledRun :: "schedule_occurrence \<Rightarrow> string \<Rightarrow> string \<Rightarrow> string \<Rightarrow> js_date
    \<Rightarrow> ('w, run \<times> bool) act" where
  "createScheduledRun x runId attemptId key now =
     act_catch
       (act_then (createRunAwaiting (occurrence_command x runId attemptId key now)) (\<lambda>run. give (run, True)))
       (\<lambda>e. if domain_error_mentions ''idempotency key'' e
            then act_then (reading (\<lambda>f.
                findRunByWorkspaceIdempotencyKey (run_store_of f) (so_workspaceId x) key))
              (\<lambda>existing. case existing of None \<Rightarrow> lift_act (Inl e) | Some run \<Rightarrow> give (run, False))
            else case e of
              EnqueueFailedError createdId createdAttemptId \<Rightarrow>
                act_then (reading (\<lambda>f. findRunById (run_store_of f) createdId))
                  (\<lambda>existing. case existing of None \<Rightarrow> lift_act (Inl e) | Some run \<Rightarrow> give (run, False))
            | _ \<Rightarrow> lift_act (Inl e))"

text \<open>Whether the job was put into the queue; an error of the queue is only logged.\<close>

definition enqueueScheduledAttempt :: "run \<Rightarrow> run_attempt \<Rightarrow> js_date \<Rightarrow> ('w, bool) act" where
  "enqueueScheduledAttempt run initialAttempt now =
     act_then
       (if r_status run = Run_PENDING
        then act_then (lift_act (Run_transitionTo run Run_QUEUED now)) (\<lambda>queued.
          on_runs (transitionRun Run_PENDING queued))
        else give run) (\<lambda>currentRun.
       if r_status currentRun \<noteq> Run_QUEUED then give False
       else act_catch (act_then (on_queue (enqueue (a_id initialAttempt))) (\<lambda>outcome. give True))
         (\<lambda>e. give False))"

definition findScheduledRun :: "schedule_occurrence \<Rightarrow> string \<Rightarrow> ('w, run option) act" where
  "findScheduledRun x key =
     act_then
       (case so_runId x of
          None \<Rightarrow> give None
        | Some i \<Rightarrow> reading (\<lambda>f. findRunById (run_store_of f) i)) (\<lambda>recorded.
       case recorded of
         Some run \<Rightarrow> give (Some run)
       | None \<Rightarrow> reading (\<lambda>f. findRunByWorkspaceIdempotencyKey (run_store_of f) (so_workspaceId x) key))"

definition dispatchScheduleOccurrence :: "schedule_occurrence \<Rightarrow> string \<Rightarrow> string \<Rightarrow> js_date \<Rightarrow> ('w, unit) act" where
  "dispatchScheduleOccurrence x runId attemptId now =
     act_then (lift_act (scheduleOccurrenceRunIdempotencyKey (so_scheduleId x) (so_scheduledFor x))) (\<lambda>key.
     act_then (findScheduledRun x key) (\<lambda>existing.
     act_then (case existing of
         Some run \<Rightarrow> give (run, False)
       | None \<Rightarrow> createScheduledRun x runId attemptId key now) (\<lambda>(run, enqueuedByCreateRun).
     act_then (if so_runId x = None \<or> so_runId x \<noteq> Some (r_id run) then attachOccurrence (so_id x) (r_id run)
       else give ()) (\<lambda>u.
     found (DomainInvariantError (''Scheduled Run '' @ r_id run @ '' is missing its initial RunAttempt.''))
       (\<lambda>f. findInitialRunAttempt (run_store_of f) (r_id run)) (\<lambda>initialAttempt.
     if isTerminalRunState (r_status run) \<or> r_status run = Run_RUNNING then markDispatchedIfNeeded (so_id x) now
     else if enqueuedByCreateRun then markDispatchedIfNeeded (so_id x) now
     else act_then (enqueueScheduledAttempt run initialAttempt now) (\<lambda>enqueued.
       if enqueued then markDispatchedIfNeeded (so_id x) now else give ()))))))"

subsection \<open>The scheduler (scheduler-tick.ts)\<close>

definition DEFAULT_SCHEDULER_BATCH_SIZE :: nat where
  "DEFAULT_SCHEDULER_BATCH_SIZE = 100"

text \<open>
  \<open>materializeDueOccurrences\<close> of the PostgreSQL repository: at most \<open>n\<close> transactions, the first that
  has nothing to do ends the loop.
\<close>

primrec materializeDue :: "cron \<Rightarrow> js_date \<Rightarrow> nat \<Rightarrow> ('w, schedule_occurrence list) act" where
  "materializeDue cr now 0 = give []"
| "materializeDue cr now (Suc n) =
     act_then new_id (\<lambda>i.
     act_then (on_schedules (postgres_materializeOne cr now i)) (\<lambda>occurrence.
       case occurrence of
         None \<Rightarrow> give []
       | Some x \<Rightarrow> act_then (materializeDue cr now n) (\<lambda>xs. give (x # xs))))"

fun dedupe_from :: "string list \<Rightarrow> schedule_occurrence list \<Rightarrow> schedule_occurrence list" where
  "dedupe_from seen [] = []"
| "dedupe_from seen (x # xs) =
     (if so_id x \<in> set seen then dedupe_from seen xs else x # dedupe_from (so_id x # seen) xs)"

definition dedupeOccurrences :: "schedule_occurrence list \<Rightarrow> schedule_occurrence list" where
  "dedupeOccurrences = dedupe_from []"

text \<open>An error of the dispatch is only logged.\<close>

definition dispatchOccurrence :: "js_date \<Rightarrow> schedule_occurrence \<Rightarrow> ('w, unit) act" where
  "dispatchOccurrence now x =
     act_then (reading (\<lambda>f. findOccurrenceById (fl_schedules f) (so_id x))) (\<lambda>latest.
     act_then new_id (\<lambda>runId.
     act_then new_id (\<lambda>attemptId.
       act_catch (dispatchScheduleOccurrence (case latest of None \<Rightarrow> x | Some y \<Rightarrow> y) runId attemptId now)
         (\<lambda>e. give ()))))"

fun in_order :: "('x \<Rightarrow> ('w, unit) act) \<Rightarrow> 'x list \<Rightarrow> ('w, unit) act" where
  "in_order a [] = give ()"
| "in_order a (x # xs) = act_then (a x) (\<lambda>u. in_order a xs)"

definition schedulerTick :: "cron \<Rightarrow> nat \<Rightarrow> nat \<Rightarrow> js_date \<Rightarrow> ('w, unit) act" where
  "schedulerTick cr materializeBatchSize dispatchBatchSize now =
     act_then (materializeDue cr now materializeBatchSize) (\<lambda>materialized.
     act_then (reading (\<lambda>f. listUndispatchedOccurrences cr (fl_schedules f) dispatchBatchSize)) (\<lambda>undispatched.
       in_order (dispatchOccurrence now) (dedupeOccurrences (materialized @ undispatched))))"

end
