(* ===== verification/Workflow_Handlers.thy ===== *)
theory Workflow_Handlers
  imports Workflow_Application
begin

text \<open>
  The handlers of \<open>Workflow_Application\<close> are harmless: they keep what holds of the stores and
  change them only as allowed, whoever else acts and whatever access fails.
\<close>

subsection \<open>Rules\<close>

lemma harmless_authorized:
  assumes "\<And>w. harmless env P (k w)"
  shows "harmless env P (authorized scope action k)"
  unfolding authorized_def check_act_def lift_act_def [symmetric]
  by (intro ends_lift_then assms TrueI)

lemma harmless_found:
  assumes "stable env P" "\<And>x. harmless env P (k x)"
  shows "harmless env P (found missing sel k)"
  unfolding found_def using assms
  by (intro harmless_reading_then ends_case_option ends_throw TrueI) simp_all

lemma harmless_found_seen:
  assumes P: "stable env P" and R: "\<And>x. stable env (R x)"
    and seen: "\<And>f x. good env f \<Longrightarrow> P f \<Longrightarrow> sel f = Some x \<Longrightarrow> R x f"
    and k: "\<And>x. harmless env (\<lambda>f. P f \<and> R x f) (k x)"
  shows "harmless env P (found missing sel k)"
  unfolding found_def
proof (rule ends_reading_then [where R = "\<lambda>r f. \<forall>x. r = Some x \<longrightarrow> R x f", OF P])
  fix r
  show "harmless env (\<lambda>f. P f \<and> (\<forall>x. r = Some x \<longrightarrow> R x f))
      (case r of None \<Rightarrow> lift_act (Inl missing) | Some x \<Rightarrow> k x)"
    using k by (cases r) (simp_all add: ends_throw)
qed (simp add: seen)

lemma harmless_check_then:
  assumes "harmless env P k"
  shows "harmless env P (act_then (check_act c) (\<lambda>u. k))"
  unfolding check_act_def lift_act_def [symmetric] using assms by (intro ends_lift_then TrueI)

lemma ends_on_catalog:
  assumes "stable env P"
    and "\<And>f x s. good env f \<Longrightarrow> P f \<Longrightarrow> operation (fl_catalog f) = Inr (x, s) \<Longrightarrow>
      good env (f\<lparr> fl_catalog := s \<rparr>) \<and> flow_kept f (f\<lparr> fl_catalog := s \<rparr>)"
  shows "harmless env P (on_catalog operation)"
  unfolding on_catalog_def using assms(2)
  by (intro ends_access [OF waits_stable [OF assms(1)]])
    (auto simp: grants_refl intro!: grants_store split: sum.splits prod.splits)

lemma harmless_on_events:
  assumes "stable env P"
  shows "harmless env P (on_events operation)"
proof -
  have s: "same_stores f (f\<lparr> fl_events := e \<rparr>)" for f :: "'a flow" and e
    by (simp add: same_stores_def)
  show ?thesis
    unfolding on_events_def
    by (intro ends_access [OF waits_stable [OF assms]])
      (auto simp: grants_refl good_def same_stores_ok [OF s] same_stores_kept(1) [OF s]
        intro!: grants_store split: sum.splits prod.splits)
qed

subsection \<open>What the writes keep\<close>

lemma catalog_ok:
  assumes f: "good env f" and v: "entries_kept (=) (wc_versions (fl_catalog f)) (wc_versions s)"
    and d: "definitions_known s"
  shows "good env (f\<lparr> fl_catalog := s \<rparr>) \<and> flow_kept f (f\<lparr> fl_catalog := s \<rparr>)"
proof -
  have k: "flow_kept f (f\<lparr> fl_catalog := s \<rparr>)"
    using v by (simp add: flow_kept_def entries_kept_refl wait_kept_def approval_kept_def)
  have "flow_ok (re_sha256 env) (f\<lparr> fl_catalog := s \<rparr>)"
    by (rule flow_okI [OF k good_ok [OF f]])
      (use good_keyed [OF f] good_ok [OF f] d in \<open>simp_all add: flow_keyed_def flow_ok_def\<close>)
  with k show ?thesis by (simp add: good_def)
qed

lemma saved_workflow_ok:
  assumes f: "good env f" and s: "no_result (saveWorkflow w) (fl_catalog f) = Inr (x, s)"
  shows "good env (f\<lparr> fl_catalog := s \<rparr>) \<and> flow_kept f (f\<lparr> fl_catalog := s \<rparr>)"
proof (rule catalog_ok [OF f])
  have e: "wc_versions s = wc_versions (fl_catalog f)" using s by (auto simp: saveWorkflow_def split: if_splits)
  then show "entries_kept (=) (wc_versions (fl_catalog f)) (wc_versions s)" by (simp add: entries_kept_refl)
  show "definitions_known s"
    using good_keyed [OF f] e by (simp add: flow_keyed_def definitions_known_def findWorkflowVersionById_def)
qed

lemma appended_version_ok:
  assumes f: "good env f"
    and s: "appendWorkflowVersion stringify i (fl_catalog f) = Inr (v, s)"
  shows "good env (f\<lparr> fl_catalog := s \<rparr>) \<and> flow_kept f (f\<lparr> fl_catalog := s \<rparr>)"
proof (rule catalog_ok [OF f])
  from s have sv: "saveWorkflowVersion stringify v (fl_catalog f) = Inr s"
    by (auto simp: appendWorkflowVersion_def WorkflowVersion_create_def result_simps and_then_Inr after_check_Inr
        split: option.splits if_splits)
  show "entries_kept (=) (wc_versions (fl_catalog f)) (wc_versions s)"
    using sv by (auto simp: saveWorkflowVersion_def split: option.splits if_splits intro!: entries_kept_update)
  have "definitions_known (fl_catalog f)" using good_keyed [OF f] by (simp add: flow_keyed_def)
  then show "definitions_known s"
    using sv by (auto simp: saveWorkflowVersion_def definitions_known_def findWorkflowVersionById_def
        split: option.splits if_splits)
qed

lemma saved_run_ok:
  assumes f: "good env f" and w: "w_status w = WR_PENDING"
    and s: "no_result (saveWorkflowRun w) (fl_store f) = Inr (x, s)"
  shows "grants env f (f\<lparr> fl_store := s \<rparr>)"
proof -
  from s have new: "map_of (ws_runs (fl_store f)) (w_id w) = None"
    and s': "s = (fl_store f)\<lparr> ws_runs := AList.update (w_id w) w (ws_runs (fl_store f)) \<rparr>"
    by (auto simp: saveWorkflowRun_def split: if_splits)
  have "entries_kept wrun_kept (ws_runs (fl_store f)) (ws_runs s)"
    unfolding s' using new by (auto intro!: entries_kept_update)
  then have k: "flow_kept f (f\<lparr> fl_store := s \<rparr>)"
    by (simp add: s' flow_kept_def entries_kept_refl wait_kept_def approval_kept_def)
  have nodes: "findWorkflowNodeRunById s = findWorkflowNodeRunById (fl_store f)" "nodes_of s = nodes_of (fl_store f)"
    "nodes_ok s = nodes_ok (fl_store f)"
    by (auto simp: s' findWorkflowNodeRunById_def nodes_of_def listWorkflowNodeRuns_def nodes_ok_def fun_eq_iff)
  have kd: "flow_keyed (f\<lparr> fl_store := s \<rparr>)"
    using good_keyed [OF f] nodes by (auto simp: flow_keyed_def s' findWorkflowRunById_def distinct_keys_update)
  have "flow_ok (re_sha256 env) (f\<lparr> fl_store := s \<rparr>)"
    by (rule flow_okI [OF k good_ok [OF f] kd])
      (use good_ok [OF f] w nodes in \<open>auto simp: flow_ok_def wrun_ok_def s' findWorkflowRunById_def split: if_splits\<close>)
  with k show ?thesis using nodes by (simp add: grants_def good_def free_id_def)
qed

lemma saved_resolution_ok:
  assumes f: "good env f" and s: "saveWorkflowWaitResolution t (fl_waits f) = Inr (x, s)"
  shows "good env (f\<lparr> fl_waits := s \<rparr>) \<and> flow_kept f (f\<lparr> fl_waits := s \<rparr>)"
proof -
  have "entries_kept wait_kept (fl_waits f) s"
    using s by (auto simp: saveWorkflowWaitResolution_def wait_kept_def after_check_Inr entries_kept_refl
        split: option.splits if_splits intro!: entries_kept_update)
  then have k: "flow_kept f (f\<lparr> fl_waits := s \<rparr>)"
    by (simp add: flow_kept_def entries_kept_refl approval_kept_def)
  have "flow_ok (re_sha256 env) (f\<lparr> fl_waits := s \<rparr>)"
    by (rule flow_okI [OF k good_ok [OF f]])
      (use good_keyed [OF f] good_ok [OF f] in \<open>simp_all add: flow_keyed_def flow_ok_def\<close>)
  with k show ?thesis by (simp add: good_def)
qed

text \<open>The request a decision is about: its node run and its digest never change.\<close>

definition request_seen :: "approval_request \<Rightarrow> 'w flow \<Rightarrow> bool" where
  "request_seen r f \<longleftrightarrow> (\<exists>q. map_of (fl_approvals f) (ap_id r) = Some q
     \<and> ap_workflowNodeRunId q = ap_workflowNodeRunId r \<and> ap_operationDigest q = ap_operationDigest r)"

lemma stable_request_seen [stable_facts]: "stable env (request_seen r)"
proof (rule stableI)
  fix f g :: "'a flow" assume k: "flow_kept f g" and r: "request_seen r f"
  then obtain q where q: "map_of (fl_approvals f) (ap_id r) = Some q"
    "ap_workflowNodeRunId q = ap_workflowNodeRunId r" "ap_operationDigest q = ap_operationDigest r"
    by (auto simp: request_seen_def)
  from flow_kept_approval [OF k q(1)] q(2,3) show "request_seen r g"
    by (auto simp: request_seen_def approval_kept_def)
qed

lemma request_found_seen:
  assumes "good env f" "findApprovalRequestByWorkspaceAndId (fl_approvals f) workspaceId i = Some r"
  shows "request_seen r f \<and> ap_id r = i"
proof -
  from assms(2) have "map_of (fl_approvals f) i = Some r"
    by (auto simp: findApprovalRequestByWorkspaceAndId_def split: option.splits if_splits)
  with good_keyed [OF assms(1)] show ?thesis by (auto simp: request_seen_def flow_keyed_def)
qed

lemma decide_fields:
  assumes "decide_request r decision now comment = Inr n"
  shows "ap_id n = ap_id r \<and> ap_workflowNodeRunId n = ap_workflowNodeRunId r
    \<and> ap_operationDigest n = ap_operationDigest r"
  using assms unfolding decide_request_def ApprovalRequest_markApproved_def ApprovalRequest_markRejected_def
  by (auto simp: ApprovalRequest_decide_def ApprovalRequest_instantiate_def ApprovalRequest_toProps_def Let_def
      after_check_Inr and_then_Inr split: if_splits option.splits)

lemma decided_ok:
  assumes f: "good env f" and r: "request_seen r f"
    and s: "saveApprovalRequestTransition AR_PENDING r (fl_approvals f) = Inr (x, s)"
  shows "good env (f\<lparr> fl_approvals := s \<rparr>) \<and> flow_kept f (f\<lparr> fl_approvals := s \<rparr>)"
proof -
  from s obtain q where q: "map_of (fl_approvals f) (ap_id r) = Some q" "ap_status q = AR_PENDING"
    and s': "s = AList.update (ap_id r) r (fl_approvals f)"
    by (auto simp: saveApprovalRequestTransition_def after_check_Inr split: option.splits if_splits)
  have "entries_kept approval_kept (fl_approvals f) s"
    unfolding s' using q r by (intro entries_kept_update) (auto simp: approval_kept_def request_seen_def)
  then have k: "flow_kept f (f\<lparr> fl_approvals := s \<rparr>)"
    by (simp add: flow_kept_def entries_kept_refl wait_kept_def)
  have kd: "flow_keyed (f\<lparr> fl_approvals := s \<rparr>)"
    using good_keyed [OF f] by (auto simp: flow_keyed_def s' distinct_keys_update)
  have "flow_ok (re_sha256 env) (f\<lparr> fl_approvals := s \<rparr>)"
    by (rule flow_okI [OF k good_ok [OF f] kd]) (use good_ok [OF f] in \<open>simp_all add: flow_ok_def\<close>)
  with k show ?thesis by (simp add: good_def)
qed

subsection \<open>The handlers\<close>

lemma harmless_createWorkflow: "harmless env (\<lambda>f. True) (createWorkflow ae scope c now)"
  unfolding createWorkflow_def
  by (intro harmless_authorized harmless_found ends_any_id_then ends_lift_then harmless_then ends_on_catalog
      ends_give stable_const TrueI) (rule saved_workflow_ok)

lemma harmless_bindings: "harmless env (\<lambda>f. True) (assertAgentVersionBindings w nodes)"
  by (induction nodes)
    (auto intro!: ends_give harmless_found stable_const split: node_body.split option.split)

lemma harmless_appendVersion: "harmless env (\<lambda>f. True) (appendVersion ae scope i d now)"
  unfolding appendVersion_def
  by (intro harmless_authorized harmless_found harmless_then harmless_bindings ends_any_id_then ends_on_catalog
      stable_const) (erule appended_version_ok [rotated])

lemma WorkflowRun_create_status:
  assumes "WorkflowRun_create i w a v input now = Inr run"
  shows "w_status run = WR_PENDING"
  using WorkflowRun_instantiate_Inr [OF assms [unfolded WorkflowRun_create_def]]
  by (cases "w_status run") simp_all

lemma harmless_createWorkflowRun: "harmless env (\<lambda>f. True) (createWorkflowRun ae scope v input now)"
  unfolding createWorkflowRun_def
proof (intro harmless_authorized harmless_found harmless_check_then ends_any_id_then ends_lift_then
    harmless_then ends_give stable_const TrueI)
  fix w x v' k i run
  assume "WorkflowRun_create i w (wv_workflowId v') (wv_id v') input now = Inr run"
  then have "w_status run = WR_PENDING" by (rule WorkflowRun_create_status)
  then show "harmless env (\<lambda>f. True) (on_store (no_result (saveWorkflowRun run)))"
    by (intro ends_on_store waits_stable stable_const conjI TrueI saved_run_ok)
qed

lemma harmless_storeDecision:
  assumes "stable env P" "\<And>f. good env f \<Longrightarrow> P f \<Longrightarrow> request_seen r f"
  shows "harmless env P (storeDecision w decision r)"
  unfolding storeDecision_def
proof (intro harmless_catch ends_on_approvals waits_stable assms(1) ends_if ends_throw harmless_found ends_give TrueI)
  fix f :: "'a flow" and x s
  assume "good env f" "P f" "saveApprovalRequestTransition AR_PENDING r (fl_approvals f) = Inr (x, s)"
  then show "good env (f\<lparr> fl_approvals := s \<rparr>) \<and> flow_kept f (f\<lparr> fl_approvals := s \<rparr>)"
    using assms(2) decided_ok by blast
qed

lemma harmless_decideApprovalRequest: "harmless env (\<lambda>f. True) (decideApprovalRequest ae scope i decision comment now)"
  unfolding decideApprovalRequest_def
proof (rule harmless_authorized, rule harmless_found_seen [where R = request_seen])
  fix w r
  show "harmless env (\<lambda>f. True \<and> request_seen r f)
     (if isTerminalApprovalRequestState (ap_status r)
      then if ap_status r = decided_status decision then give r else lift_act (Inl (conflict_of r))
      else found (WorkflowNodeRunNotFoundError (ap_workflowNodeRunId r))
         (\<lambda>f. findWorkflowNodeRunById (fl_store f) (ap_workflowNodeRunId r)) (\<lambda>nodeRun.
       act_then (check_act (assertApprovalDecisionAuthorizesOperation (ae_sha256 ae) r nodeRun decision now)) (\<lambda>u.
       act_then (lift_act (decide_request r decision now comment)) (\<lambda>next.
       act_then (lift_act (controlPlaneAuditActor scope)) (\<lambda>actor.
       act_then new_id (\<lambda>auditId.
       act_then (lift_act (decision_event ae auditId actor r w now next)) (\<lambda>auditEvent.
         storeDecision w decision next)))))))"
  proof (intro ends_if ends_give ends_throw harmless_found harmless_check_then ends_lift_then ends_any_id_then TrueI)
    fix n assume "decide_request r decision now comment = Inr n"
    from decide_fields [OF this] show "harmless env (\<lambda>f. True \<and> request_seen r f) (storeDecision w decision n)"
      by (intro harmless_storeDecision stable_conj stable_const stable_request_seen) (simp add: request_seen_def)
  qed (simp_all add: stable_facts)
qed (auto dest: request_found_seen intro: stable_facts)

lemma harmless_wait_of_active_run:
  assumes "\<And>w. harmless env (\<lambda>f. True) (k w)"
  shows "harmless env (\<lambda>f. True) (wait_of_active_run i k)"
  unfolding wait_of_active_run_def
  by (intro harmless_found harmless_reading_then ends_if ends_give assms stable_const TrueI)

lemma harmless_resolution: "harmless env (\<lambda>f. True) (on_waits (saveWorkflowWaitResolution t))"
  by (intro ends_on_waits waits_stable stable_const) (rule saved_resolution_ok)

lemma harmless_resolveWorkflowTimerWait: "harmless env (\<lambda>f. True) (resolveWorkflowTimerWait i now)"
  unfolding resolveWorkflowTimerWait_def
  by (intro harmless_wait_of_active_run ends_if ends_give ends_lift_then harmless_resolution TrueI)

lemma harmless_resolveWorkflowEventWait: "harmless env (\<lambda>f. True) (resolveWorkflowEventWait i now)"
  unfolding resolveWorkflowEventWait_def
  by (intro harmless_wait_of_active_run harmless_reading_then ends_lift_then stable_const TrueI)
    (auto intro!: ends_give harmless_resolution split: resolution_outcome.split)

lemma harmless_resolve_each:
  assumes "\<And>i. harmless env (\<lambda>f. True) (resolve i)"
  shows "harmless env (\<lambda>f. True) (resolve_each resolve ws)"
  by (induction ws) (auto intro!: ends_give harmless_then assms stable_const)

lemma harmless_processDueTimerWaits: "harmless env (\<lambda>f. True) (processDueTimerWaits now limit)"
  unfolding processDueTimerWaits_def
  by (intro harmless_check_then harmless_reading_then harmless_resolve_each harmless_resolveWorkflowTimerWait stable_const)

lemma harmless_processResolvableEventWaits: "harmless env (\<lambda>f. True) (processResolvableEventWaits now limit)"
  unfolding processResolvableEventWaits_def
  by (intro harmless_check_then harmless_reading_then ends_lift_then harmless_resolve_each
      harmless_resolveWorkflowEventWait stable_const TrueI)

lemma harmless_workflowWaitDriverTick: "harmless env (\<lambda>f. True) (workflowWaitDriverTick limit now)"
  unfolding workflowWaitDriverTick_def Let_def
  by (intro harmless_then harmless_processDueTimerWaits harmless_processResolvableEventWaits ends_give stable_const TrueI)

lemma harmless_ingestWorkflowEvent: "harmless env (\<lambda>f. True) (ingestWorkflowEvent s i now)"
  unfolding ingestWorkflowEvent_def
  by (intro ends_lift_then harmless_then harmless_on_events harmless_reading_then harmless_resolve_each
      harmless_resolveWorkflowEventWait ends_give stable_const TrueI)

end
