(* ===== verification/Schedule_Handlers.thy ===== *)
theory Schedule_Handlers
  imports Schedule_Application Workflow_Handlers
begin

text \<open>
  The handlers around schedules are harmless, and each attached run is the one of its occurrence.
\<close>

subsection \<open>What the writes keep\<close>

lemma ends_on_schedules:
  assumes "stable env P"
    and "\<And>f x s. good env f \<Longrightarrow> P f \<Longrightarrow> operation (fl_schedules f) = Inr (x, s) \<Longrightarrow>
      good env (f\<lparr> fl_schedules := s \<rparr>) \<and> flow_kept f (f\<lparr> fl_schedules := s \<rparr>) \<and> Q x (f\<lparr> fl_schedules := s \<rparr>)"
  shows "safe env P (on_schedules operation) Q"
  unfolding on_schedules_def using assms(2)
  by (intro ends_access [OF waits_stable [OF assms(1)]])
    (auto simp: grants_refl intro!: grants_store split: sum.splits prod.splits)

lemma schedules_changed:
  assumes f: "good env f" and kd: "schedules_keyed s"
    and x: "entries_kept schedule_kept (ss_schedules (fl_schedules f)) (ss_schedules s)"
    and o': "entries_kept occurrence_kept (ss_occurrences (fl_schedules f)) (ss_occurrences s)"
    and new: "\<And>i x. map_of (ss_occurrences s) i = Some x \<Longrightarrow>
      map_of (ss_occurrences (fl_schedules f)) i \<noteq> Some x \<Longrightarrow> occurrence_ok (f\<lparr> fl_schedules := s \<rparr>) x"
  shows "good env (f\<lparr> fl_schedules := s \<rparr>) \<and> flow_kept f (f\<lparr> fl_schedules := s \<rparr>)"
proof -
  have k: "flow_kept f (f\<lparr> fl_schedules := s \<rparr>)"
    using x o' by (simp add: flow_kept_def entries_kept_refl wait_kept_def approval_kept_def)
  have "flow_ok (re_sha256 env) (f\<lparr> fl_schedules := s \<rparr>)"
    by (rule flow_okI [OF k good_ok [OF f]])
      (use good_keyed [OF f] good_ok [OF f] kd new in \<open>simp_all add: flow_keyed_def flow_ok_def\<close>)
  with k show ?thesis by (simp add: good_def)
qed

lemma good_schedules: "good env f \<Longrightarrow> schedules_keyed (fl_schedules f)"
  using good_keyed by (auto simp: flow_keyed_def)

lemma good_occurrence:
  "good env f \<Longrightarrow> map_of (ss_occurrences (fl_schedules f)) i = Some x \<Longrightarrow> so_id x = i \<and> occurrence_ok f x"
  by (drule good_ok) (simp add: flow_ok_def schedules_keyed_def)

lemma keyed_put_schedule:
  "schedules_keyed s \<Longrightarrow> schedules_keyed (s\<lparr> ss_schedules := AList.update (sc_id x) x (ss_schedules s) \<rparr>)"
  unfolding schedules_keyed_def by (auto simp: distinct_keys_update)

lemma keyed_put_occurrence:
  assumes "schedules_keyed s"
    and "\<And>y. map_of (ss_occurrences s) (so_id y) = Some y \<Longrightarrow> so_scheduleId y = so_scheduleId x \<Longrightarrow>
      so_scheduledFor y = so_scheduledFor x \<Longrightarrow> so_id y = so_id x"
  shows "schedules_keyed (s\<lparr> ss_occurrences := AList.update (so_id x) x (ss_occurrences s) \<rparr>)"
proof -
  let ?m = "AList.update (so_id x) x (ss_occurrences s)"
  have keyed: "so_id y = i" if "map_of (ss_occurrences s) i = Some y" for i y
    using assms(1) that by (simp add: schedules_keyed_def)
  have other: "i = so_id x" if "map_of (ss_occurrences s) i = Some y" "so_scheduleId y = so_scheduleId x"
    "so_scheduledFor y = so_scheduledFor x" for i y
    using assms(2) [of y] that keyed [OF that(1)] by simp
  have old: "i = j" if "map_of (ss_occurrences s) i = Some y" "map_of (ss_occurrences s) j = Some z"
    "so_scheduleId y = so_scheduleId z" "so_scheduledFor y = so_scheduledFor z" for i j y z
    using assms(1) that unfolding schedules_keyed_def by blast
  have un: "i = j" if y: "map_of ?m i = Some y" "map_of ?m j = Some z" "so_scheduleId y = so_scheduleId z"
    "so_scheduledFor y = so_scheduledFor z" for i j y z
  proof (cases "i = so_id x"; cases "j = so_id x")
    assume "i = so_id x" "j \<noteq> so_id x"
    with y show ?thesis using other [of j z] by simp
  next
    assume "i \<noteq> so_id x" "j = so_id x"
    with y show ?thesis using other [of i y] by simp
  next
    assume "i \<noteq> so_id x" "j \<noteq> so_id x"
    with y show ?thesis using old [of i y j z] by simp
  qed simp
  have id: "so_id y = i" if "map_of ?m i = Some y" for i y
    using that keyed [of i y] by (simp split: if_splits)
  have "distinct (map_keys ?m)" using assms(1) by (simp add: schedules_keyed_def distinct_keys_update)
  moreover have "ss_occurrences (s\<lparr> ss_occurrences := ?m \<rparr>) = ?m" "ss_schedules (s\<lparr> ss_occurrences := ?m \<rparr>) = ss_schedules s"
    by simp_all
  ultimately show ?thesis using assms(1) un id unfolding schedules_keyed_def by (simp only:) blast
qed

lemma saved_schedule_ok:
  assumes f: "good env f" and s: "no_result (postgres_saveSchedule x) (fl_schedules f) = Inr (u, s)"
  shows "good env (f\<lparr> fl_schedules := s \<rparr>) \<and> flow_kept f (f\<lparr> fl_schedules := s \<rparr>) \<and> True"
proof -
  from s have n: "map_of (ss_schedules (fl_schedules f)) (sc_id x) = None"
    and s': "s = (fl_schedules f)\<lparr> ss_schedules := AList.update (sc_id x) x (ss_schedules (fl_schedules f)) \<rparr>"
    by (auto simp: postgres_saveSchedule_def split: if_splits)
  have "good env (f\<lparr> fl_schedules := s \<rparr>) \<and> flow_kept f (f\<lparr> fl_schedules := s \<rparr>)"
    unfolding s' using n keyed_put_schedule [OF good_schedules [OF f]]
    by (intro schedules_changed [OF f]) (auto intro!: entries_kept_update entries_kept_refl)
  then show ?thesis by simp
qed

lemma updated_schedule_ok:
  assumes f: "good env f" and s: "no_result (postgres_updateSchedule x) (fl_schedules f) = Inr (u, s)"
  shows "good env (f\<lparr> fl_schedules := s \<rparr>) \<and> flow_kept f (f\<lparr> fl_schedules := s \<rparr>) \<and> True"
proof -
  from s obtain y where st: "map_of (ss_schedules (fl_schedules f)) (sc_id x) = Some y"
    by (cases "map_of (ss_schedules (fl_schedules f)) (sc_id x)") (simp_all add: postgres_updateSchedule_def)
  let ?y = "y\<lparr> sc_name := sc_name x, sc_agentVersionId := sc_agentVersionId x, sc_cronExpression := sc_cronExpression x,
    sc_timezone := sc_timezone x, sc_input := sc_input x, sc_enabled := sc_enabled x,
    sc_nextRunAt := sc_nextRunAt x, sc_updatedAt := sc_updatedAt x \<rparr>"
  from s st have s': "s = (fl_schedules f)\<lparr> ss_schedules := AList.update (sc_id x) ?y (ss_schedules (fl_schedules f)) \<rparr>"
    by (simp add: postgres_updateSchedule_def)
  have y: "map_of (ss_schedules (fl_schedules f)) (sc_id x) = Some y" "schedule_kept y ?y"
    using st by (simp_all add: schedule_kept_def)
  have "sc_id y = sc_id x" using good_schedules [OF f] y(1) by (simp add: schedules_keyed_def)
  then have id: "sc_id x = sc_id ?y" by simp
  have "good env (f\<lparr> fl_schedules := s \<rparr>) \<and> flow_kept f (f\<lparr> fl_schedules := s \<rparr>)"
    unfolding s' using y keyed_put_schedule [OF good_schedules [OF f], of ?y] id
    by (intro schedules_changed [OF f]) (auto intro!: entries_kept_update entries_kept_refl)
  then show ?thesis by simp
qed

subsection \<open>Assertions about occurrences\<close>

definition occurrence_seen :: "schedule_occurrence \<Rightarrow> 'w flow \<Rightarrow> bool" where
  "occurrence_seen x f \<longleftrightarrow> (\<exists>y. map_of (ss_occurrences (fl_schedules f)) (so_id x) = Some y \<and> occurrence_kept x y)"

definition attached :: "string \<Rightarrow> string \<Rightarrow> 'w flow \<Rightarrow> bool" where
  "attached i runId f \<longleftrightarrow> (\<exists>y. map_of (ss_occurrences (fl_schedules f)) i = Some y \<and> so_runId y = Some runId)"

definition run_copy :: "string \<Rightarrow> run \<Rightarrow> 'w flow \<Rightarrow> bool" where
  "run_copy k r f \<longleftrightarrow> key_seen k (r_id r) f \<and> (r_status r \<noteq> Run_PENDING \<longrightarrow> left_pending (r_id r) f)"

definition occurrence_key :: "schedule_occurrence \<Rightarrow> string \<Rightarrow> bool" where
  "occurrence_key x k \<longleftrightarrow> (\<exists>key. scheduleOccurrenceRunIdempotencyKey (so_scheduleId x) (so_scheduledFor x) = Inr key
     \<and> k = workspaceIdempotencyKey (so_workspaceId x) key)"

lemma stable_occurrence_seen [stable_facts]: "stable env (occurrence_seen x)"
  by (rule stableI) (auto simp: occurrence_seen_def dest!: flow_kept_occurrence intro: occurrence_kept_trans)

lemma stable_attached [stable_facts]: "stable env (attached i r)"
  by (rule stableI) (auto simp: attached_def occurrence_kept_def dest!: flow_kept_occurrence)

lemma stable_run_copy [stable_facts]: "stable env (run_copy k r)"
  unfolding run_copy_def [abs_def] by (intro stable_facts)

lemma stored_copy: "good env f \<Longrightarrow> findRunById (run_store_of f) i = Some r \<Longrightarrow> key_seen k (r_id r) f \<Longrightarrow> run_copy k r f"
  using run_by_id by (fastforce simp: run_copy_def left_pending_def)

lemma indexed_copy:
  "good env f \<Longrightarrow> findRunByWorkspaceIdempotencyKey (run_store_of f) ws key = Some r \<Longrightarrow>
     run_copy (workspaceIdempotencyKey ws key) r f"
proof -
  assume f: "good env f" and r: "findRunByWorkspaceIdempotencyKey (run_store_of f) ws key = Some r"
  then obtain i where "findRunById (run_store_of f) i = Some r"
    by (auto simp: findRunByWorkspaceIdempotencyKey_def findRunById_def split: option.splits)
  from stored_copy [OF f this indexed_child [OF f r]] show ?thesis .
qed

lemma occurrence_seen_here:
  "good env f \<Longrightarrow> map_of (ss_occurrences (fl_schedules f)) i = Some x \<Longrightarrow> occurrence_seen x f"
  by (frule (1) good_occurrence) (auto simp: occurrence_seen_def)

lemma listed_occurrence_seen:
  assumes f: "good env f" and x: "x \<in> set (listUndispatchedOccurrences cr (fl_schedules f) n)"
  shows "occurrence_seen x f"
proof -
  from x have "x \<in> set (map_values (ss_occurrences (fl_schedules f)))"
    by (auto simp: listUndispatchedOccurrences_def dest: in_set_takeD)
  then obtain i where "map_of (ss_occurrences (fl_schedules f)) i = Some x"
    using good_schedules [OF f] values_map_of by (fastforce simp: schedules_keyed_def)
  from occurrence_seen_here [OF f this] show ?thesis .
qed

lemma recorded_copy:
  assumes f: "good env f" and x: "occurrence_seen x f" "occurrence_key x k" and i: "so_runId x = Some i"
    and r: "findRunById (run_store_of f) i = Some r"
  shows "run_copy k r f"
proof -
  from x(1) obtain y where y: "map_of (ss_occurrences (fl_schedules f)) (so_id x) = Some y" "occurrence_kept x y"
    by (auto simp: occurrence_seen_def)
  from good_occurrence [OF f y(1)] y(2) i obtain q where "scheduled_run (run_store_of f) y q"
    by (auto simp: occurrence_ok_def occurrence_kept_def)
  moreover have "so_runId y = Some i" "so_scheduleId y = so_scheduleId x" "so_scheduledFor y = so_scheduledFor x"
    "so_workspaceId y = so_workspaceId x" using y(2) i by (cases x; cases y; simp add: occurrence_kept_def)+
  ultimately have "key_seen k (r_id r) f"
    using x(2) r run_by_id [OF f r] by (auto simp: scheduled_run_def occurrence_key_def key_seen_def)
  with f r show ?thesis by (rule stored_copy)
qed

subsection \<open>Materialization\<close>

lemma ScheduleOccurrence_create_Inr:
  assumes "ScheduleOccurrence_create p = Inr x"
  shows "x = p\<lparr> so_input := so_input x, so_runId := None, so_dispatchedAt := None \<rparr> \<and> \<not> uses_proto (so_input x)"
proof -
  from assms obtain v where v: "copyCanonicalJsonValue (so_input p) ''ScheduleOccurrence.input'' = Inr v"
    and x: "x = p\<lparr> so_input := v, so_scheduledFor := so_scheduledFor p, so_runId := None,
      so_createdAt := so_createdAt p, so_dispatchedAt := None \<rparr>"
    by (auto simp: ScheduleOccurrence_create_def result_simps and_then_Inr split: if_splits)
  from copyCanonicalJsonValue_no_proto [OF v] show ?thesis by (simp add: x)
qed

lemma advanced_kept: "advanced cr x now = Inr y \<Longrightarrow> schedule_kept x y \<and> sc_id y = sc_id x"
  by (auto simp: advanced_def Schedule_rehydrate_def schedule_kept_def result_simps and_then_Inr split: if_splits)

lemma due_schedule_stored:
  assumes "schedules_keyed s" "x \<in> set (due_schedules cr now s)"
  shows "map_of (ss_schedules s) (sc_id x) = Some x"
proof -
  from assms(2) have "x \<in> set (map_values (ss_schedules s))" by (auto simp: due_schedules_def)
  with assms(1) values_map_of [of "ss_schedules s" x] obtain i where "map_of (ss_schedules s) i = Some x"
    by (auto simp: schedules_keyed_def)
  with assms(1) show ?thesis by (auto simp: schedules_keyed_def)
qed

lemma materializeOne_parts:
  assumes "postgres_materializeOne cr now i s = Inr (r, s')" "\<not> (r = None \<and> s' = s)"
  obtains x xs t o' x' where "due_schedules cr now s = x # xs" "sc_nextRunAt x = Some t"
    "ScheduleOccurrence_create (occurrence_of x t i now) = Inr o'"
    "advanced cr x now = Inr x'" "\<not> occurrence_exists s (sc_id x) t" "map_of (ss_occurrences s) i = None"
    "r = Some o'" "s' = s\<lparr> ss_schedules := AList.update (sc_id x) x' (ss_schedules s),
      ss_occurrences := AList.update i o' (ss_occurrences s) \<rparr>"
proof (cases "due_schedules cr now s")
  case Nil
  with assms show thesis by (simp add: postgres_materializeOne_def)
next
  case (Cons x xs)
  show thesis
  proof (cases "sc_nextRunAt x")
    case None
    with assms Cons show thesis by (simp add: postgres_materializeOne_def)
  next
    case (Some t)
    note m = assms(1) [unfolded postgres_materializeOne_def Cons list.case Some option.case and_then_Inr]
    from m obtain o' x' where e: "ScheduleOccurrence_create (occurrence_of x t i now) = Inr o'" "advanced cr x now = Inr x'"
      and w: "(if occurrence_exists s (sc_id x) t then Inr (None, s)
        else if map_of (ss_occurrences s) i \<noteq> None then Inl (OtherError ''duplicate key'')
        else Inr (Some o', s\<lparr> ss_schedules := AList.update (sc_id x) x' (ss_schedules s),
          ss_occurrences := AList.update i o' (ss_occurrences s) \<rparr>)) = Inr (r, s')" by blast
    have n: "\<not> occurrence_exists s (sc_id x) t" using w assms(2) by (cases "occurrence_exists s (sc_id x) t") simp_all
    moreover have "map_of (ss_occurrences s) i = None"
      using w n by (cases "map_of (ss_occurrences s) i") simp_all
    ultimately show thesis using that [OF Cons Some e] w by simp
  qed
qed

lemma created_occurrence:
  assumes "ScheduleOccurrence_create (occurrence_of x t i now) = Inr o'"
  shows "so_id o' = i \<and> so_scheduleId o' = sc_id x \<and> so_workspaceId o' = sc_workspaceId x \<and> so_agentId o' = sc_agentId x
    \<and> so_scheduledFor o' = t \<and> so_runId o' = None \<and> so_dispatchedAt o' = None \<and> \<not> uses_proto (so_input o')"
proof -
  from ScheduleOccurrence_create_Inr [OF assms] obtain v where
    "o' = (occurrence_of x t i now)\<lparr> so_input := v, so_runId := None, so_dispatchedAt := None \<rparr>" "\<not> uses_proto v" by blast
  then show ?thesis by (simp add: occurrence_of_def)
qed

lemma put_materialized_ok:
  assumes f: "good env f" and x: "map_of (ss_schedules (fl_schedules f)) (sc_id x) = Some x"
    "schedule_kept x x'" "sc_id x' = sc_id x"
    and o': "so_scheduleId o' = sc_id x" "so_workspaceId o' = sc_workspaceId x" "so_agentId o' = sc_agentId x"
    "so_runId o' = None" "so_dispatchedAt o' = None" "\<not> uses_proto (so_input o')"
    and new: "map_of (ss_occurrences (fl_schedules f)) (so_id o') = None"
    "\<not> occurrence_exists (fl_schedules f) (so_scheduleId o') (so_scheduledFor o')"
    and s: "s = (fl_schedules f)\<lparr> ss_schedules := AList.update (sc_id x') x' (ss_schedules (fl_schedules f)),
      ss_occurrences := AList.update (so_id o') o' (ss_occurrences (fl_schedules f)) \<rparr>"
  shows "good env (f\<lparr> fl_schedules := s \<rparr>) \<and> flow_kept f (f\<lparr> fl_schedules := s \<rparr>)"
proof (rule schedules_changed [OF f])
  let ?t = "(fl_schedules f)\<lparr> ss_schedules := AList.update (sc_id x') x' (ss_schedules (fl_schedules f)) \<rparr>"
  have un: "so_id y = so_id o'" if "map_of (ss_occurrences ?t) (so_id y) = Some y" "so_scheduleId y = so_scheduleId o'"
    "so_scheduledFor y = so_scheduledFor o'" for y
  proof -
    have "y \<in> set (map_values (ss_occurrences (fl_schedules f)))"
      using that(1) by (auto dest: map_of_SomeD_snd)
    with that(2,3) new(2) show ?thesis by (auto simp: occurrence_exists_def list_ex_iff)
  qed
  have t: "ss_occurrences ?t = ss_occurrences (fl_schedules f)" by simp
  have "schedules_keyed (?t\<lparr> ss_occurrences := AList.update (so_id o') o' (ss_occurrences ?t) \<rparr>)"
    by (rule keyed_put_occurrence [OF keyed_put_schedule [OF good_schedules [OF f]]]) (rule un)
  then show "schedules_keyed s" unfolding s t .
  show "entries_kept schedule_kept (ss_schedules (fl_schedules f)) (ss_schedules s)"
    unfolding s using x by (auto intro!: entries_kept_update)
  show "entries_kept occurrence_kept (ss_occurrences (fl_schedules f)) (ss_occurrences s)"
    unfolding s using new(1) by (auto intro!: entries_kept_update)
  fix i z assume z: "map_of (ss_occurrences s) i = Some z" "map_of (ss_occurrences (fl_schedules f)) i \<noteq> Some z"
  then have "z = o'" unfolding s by (simp split: if_splits)
  then show "occurrence_ok (f\<lparr> fl_schedules := s \<rparr>) z"
    using x o' by (simp add: s occurrence_ok_def schedule_kept_def)
qed

lemma materialized_ok:
  assumes f: "good env f" and m: "postgres_materializeOne cr now i (fl_schedules f) = Inr (r, s)"
  shows "good env (f\<lparr> fl_schedules := s \<rparr>) \<and> flow_kept f (f\<lparr> fl_schedules := s \<rparr>)
    \<and> (\<forall>x. r = Some x \<longrightarrow> occurrence_seen x (f\<lparr> fl_schedules := s \<rparr>))"
proof (cases "r = None \<and> s = fl_schedules f")
  case True
  with f show ?thesis by simp
next
  case False
  from m False show ?thesis
  proof (cases rule: materializeOne_parts)
    case (1 x xs t o' x')
    note o' = created_occurrence [OF 1(3)] and x' = advanced_kept [OF 1(4)]
    have st: "map_of (ss_schedules (fl_schedules f)) (sc_id x) = Some x"
      by (rule due_schedule_stored [OF good_schedules [OF f], of x cr now]) (simp add: 1(1))
    have "good env (f\<lparr> fl_schedules := s \<rparr>) \<and> flow_kept f (f\<lparr> fl_schedules := s \<rparr>)"
      by (rule put_materialized_ok [OF f st, of x' o']) (use o' x' 1(5-8) in simp_all)
    moreover have "occurrence_seen o' (f\<lparr> fl_schedules := s \<rparr>)" using o' 1(8) by (simp add: occurrence_seen_def)
    ultimately show ?thesis using 1(7) by simp
  qed
qed

definition all_seen :: "schedule_occurrence list \<Rightarrow> 'w flow \<Rightarrow> bool" where
  "all_seen xs f \<longleftrightarrow> (\<forall>x\<in>set xs. occurrence_seen x f)"

lemma stable_all_seen [stable_facts]: "stable env (all_seen xs)"
  unfolding all_seen_def [abs_def] by (rule stableI) (auto dest: stableD [OF stable_occurrence_seen])

lemma ends_materializeDue:
  assumes "stable env P"
  shows "safe env P (materializeDue cr now n) all_seen"
  using assms
proof (induction n arbitrary: P)
  case (Suc n)
  have one: "safe env P (on_schedules (postgres_materializeOne cr now i)) (\<lambda>r f. \<forall>x. r = Some x \<longrightarrow> occurrence_seen x f)" for i
    by (rule ends_on_schedules [OF Suc.prems materialized_ok])
  have rest: "safe env (\<lambda>f. P f \<and> (\<forall>x. r = Some x \<longrightarrow> occurrence_seen x f))
      (case r of None \<Rightarrow> give [] | Some x \<Rightarrow> act_then (materializeDue cr now n) (\<lambda>xs. give (x # xs))) all_seen" for r
  proof (cases r)
    case (Some x)
    have st: "stable env (\<lambda>f. P f \<and> occurrence_seen x f)" by (intro stable_facts Suc.prems)
    have "safe env (\<lambda>f. P f \<and> occurrence_seen x f) (act_then (materializeDue cr now n) (\<lambda>xs. give (x # xs))) all_seen"
      by (rule ends_then [OF Suc.IH [OF st] _ st]) (auto intro!: ends_give simp: all_seen_def)
    then show ?thesis by (simp add: Some)
  qed (simp add: ends_give all_seen_def)
  show ?case unfolding materializeDue.simps by (intro ends_any_id_then ends_then [OF one rest] Suc.prems)
qed (simp add: ends_give all_seen_def)

subsection \<open>Attaching the run and marking the occurrence\<close>

text \<open>An occurrence in the store, with what the others have made of it since it was read.\<close>

lemma occurrence_seenE:
  assumes "good env f" "occurrence_seen x f"
  obtains y where "map_of (ss_occurrences (fl_schedules f)) (so_id x) = Some y" "occurrence_kept x y"
    "so_id y = so_id x" "so_scheduleId y = so_scheduleId x" "so_scheduledFor y = so_scheduledFor x"
    "so_workspaceId y = so_workspaceId x" "occurrence_ok f y"
proof -
  from assms(2) obtain y where y: "map_of (ss_occurrences (fl_schedules f)) (so_id x) = Some y" "occurrence_kept x y"
    by (auto simp: occurrence_seen_def)
  have "so_id y = so_id x" "so_scheduleId y = so_scheduleId x" "so_scheduledFor y = so_scheduledFor x"
    "so_workspaceId y = so_workspaceId x" using y(2) by (cases x; cases y; simp add: occurrence_kept_def)+
  with y good_occurrence [OF assms(1) y(1)] that show thesis by blast
qed

lemma put_occurrence_ok:
  assumes f: "good env f" and y: "map_of (ss_occurrences (fl_schedules f)) (so_id y) = Some y" "occurrence_kept y z"
    and z: "so_id z = so_id y" "so_scheduleId z = so_scheduleId y" "so_scheduledFor z = so_scheduledFor y"
    and ok: "occurrence_ok f z"
    and s: "s = (fl_schedules f)\<lparr> ss_occurrences := AList.update (so_id y) z (ss_occurrences (fl_schedules f)) \<rparr>"
  shows "good env (f\<lparr> fl_schedules := s \<rparr>) \<and> flow_kept f (f\<lparr> fl_schedules := s \<rparr>)"
proof (rule schedules_changed [OF f])
  have kd: "schedules_keyed (fl_schedules f)" by (rule good_schedules [OF f])
  have "so_id x = so_id z" if "map_of (ss_occurrences (fl_schedules f)) (so_id x) = Some x"
    "so_scheduleId x = so_scheduleId z" "so_scheduledFor x = so_scheduledFor z" for x
    using kd that y(1) z unfolding schedules_keyed_def by metis
  from keyed_put_occurrence [OF kd this] show "schedules_keyed s" unfolding s z(1) .
  have "occurrence_ok (f\<lparr> fl_schedules := s \<rparr>) z" using ok by (simp add: occurrence_ok_def s)
  then show "occurrence_ok (f\<lparr> fl_schedules := s \<rparr>) x"
    if "map_of (ss_occurrences s) i = Some x" "map_of (ss_occurrences (fl_schedules f)) i \<noteq> Some x" for i x
    using that by (auto simp: s split: if_splits)
qed (use y in \<open>auto simp: s intro!: entries_kept_update entries_kept_refl\<close>)

lemma attached_ok:
  assumes f: "good env f" and x: "occurrence_seen x f" "occurrence_key x k" and r: "key_seen k runId f"
    and s: "postgres_attachRunId (so_id x) runId (fl_schedules f) = Inr (row, s)"
  shows "good env (f\<lparr> fl_schedules := s \<rparr>) \<and> flow_kept f (f\<lparr> fl_schedules := s \<rparr>)
    \<and> (row = None \<and> (\<exists>j. j \<noteq> runId \<and> attached (so_id x) j (f\<lparr> fl_schedules := s \<rparr>))
       \<or> attached (so_id x) runId (f\<lparr> fl_schedules := s \<rparr>))"
  using f x(1)
proof (cases rule: occurrence_seenE)
  case (1 y)
  let ?z = "y\<lparr> so_runId := Some runId \<rparr>"
  show ?thesis
  proof (cases "so_runId y \<noteq> None \<and> so_runId y \<noteq> Some runId")
    case True
    with s 1(1) f show ?thesis by (auto simp: postgres_attachRunId_def attached_def)
  next
    case False
    with s 1 have s': "s = (fl_schedules f)\<lparr> ss_occurrences := AList.update (so_id y) ?z (ss_occurrences (fl_schedules f)) \<rparr>"
      by (auto simp: postgres_attachRunId_def Let_def)
    have ok: "occurrence_ok f ?z"
    proof (cases "so_runId y = Some runId")
      case True
      then have "?z = y" by simp
      with 1 show ?thesis by simp
    next
      case none: False
      from 1(7) False none have "so_dispatchedAt y = None" by (auto simp: occurrence_ok_def scheduled_run_def)
      moreover obtain r where "findRunById (run_store_of f) runId = Some r" "run_key r = Some k"
        using r by (auto simp: key_seen_def)
      moreover have "r_id r = runId" using run_by_id [OF f] calculation by blast
      ultimately show ?thesis
        using 1 x(2) by (auto simp: occurrence_ok_def scheduled_run_def occurrence_key_def intro!: exI [of _ r])
    qed
    have "good env (f\<lparr> fl_schedules := s \<rparr>) \<and> flow_kept f (f\<lparr> fl_schedules := s \<rparr>)"
      by (rule put_occurrence_ok [OF f _ _ _ _ _ ok s']) (use 1 False in \<open>auto simp: occurrence_kept_def\<close>)
    moreover have "attached (so_id x) runId (f\<lparr> fl_schedules := s \<rparr>)" using 1(3) by (simp add: s' attached_def)
    ultimately show ?thesis by simp
  qed
qed

lemma ends_attachOccurrence:
  assumes P: "stable env P" and key: "occurrence_key x k"
    and x: "\<And>f. good env f \<Longrightarrow> P f \<Longrightarrow> occurrence_seen x f \<and> key_seen k runId f"
  shows "safe env P (attachOccurrence (so_id x) runId) (\<lambda>u. attached (so_id x) runId)"
  unfolding attachOccurrence_def
proof (rule ends_then [OF ends_on_schedules [OF P] _ P])
  fix f :: "'a flow" and row s
  assume f: "good env f" "P f" and s: "postgres_attachRunId (so_id x) runId (fl_schedules f) = Inr (row, s)"
  from attached_ok [OF f(1) _ key _ s] x [OF f]
  show "good env (f\<lparr> fl_schedules := s \<rparr>) \<and> flow_kept f (f\<lparr> fl_schedules := s \<rparr>)
    \<and> (row = None \<and> (\<exists>j. j \<noteq> runId \<and> attached (so_id x) j (f\<lparr> fl_schedules := s \<rparr>))
       \<or> attached (so_id x) runId (f\<lparr> fl_schedules := s \<rparr>))" by blast
next
  fix row
  let ?other = "\<lambda>f. \<exists>j. j \<noteq> runId \<and> attached (so_id x) j f"
  let ?P = "\<lambda>f. P f \<and> (row = None \<and> ?other f \<or> attached (so_id x) runId f)"
  show "safe env ?P (case row of Some x \<Rightarrow> give ()
      | None \<Rightarrow> act_then (reading (\<lambda>f. findOccurrenceById (fl_schedules f) (so_id x))) (\<lambda>existing.
          case existing of None \<Rightarrow> lift_act (Inl (occurrence_missing (so_id x)))
          | Some y \<Rightarrow> if so_runId y \<noteq> None \<and> so_runId y \<noteq> Some runId
              then lift_act (Inl (DomainInvariantError (''ScheduleOccurrence '' @ so_id x
                @ '' is already attached to Run '' @ the (so_runId y) @ ''.'')))
              else give ())) (\<lambda>u. attached (so_id x) runId)"
  proof (cases row)
    case None
    have disj: "stable env (\<lambda>f. ?other f \<or> attached (so_id x) runId f)"
      by (rule stableI) (meson stableD [OF stable_attached])
    have st: "stable env (\<lambda>f. P f \<and> (?other f \<or> attached (so_id x) runId f))" by (rule stable_conj [OF P disj])
    show ?thesis
      unfolding None option.case
    proof (rule ends_pre [where P = "\<lambda>f. P f \<and> (?other f \<or> attached (so_id x) runId f)"])
      show "safe env (\<lambda>f. P f \<and> (?other f \<or> attached (so_id x) runId f))
        (act_then (reading (\<lambda>f. findOccurrenceById (fl_schedules f) (so_id x))) (\<lambda>existing.
          case existing of None \<Rightarrow> lift_act (Inl (occurrence_missing (so_id x)))
          | Some y \<Rightarrow> if so_runId y \<noteq> None \<and> so_runId y \<noteq> Some runId
              then lift_act (Inl (DomainInvariantError (''ScheduleOccurrence '' @ so_id x
                @ '' is already attached to Run '' @ the (so_runId y) @ ''.'')))
              else give ())) (\<lambda>u. attached (so_id x) runId)"
        by (rule ends_reading_then [where R = "\<lambda>r f. \<forall>y. r = Some y \<longrightarrow>
            (so_runId y = None \<or> so_runId y = Some runId) \<longrightarrow> attached (so_id x) runId f", OF st])
          (auto simp: findOccurrenceById_def attached_def intro!: ends_case_option ends_throw ends_if ends_give)
    qed simp
  qed (auto intro!: ends_give)
qed

lemma marked_ok:
  assumes f: "good env f" and a: "attached i runId f" "left_pending runId f"
    and s: "postgres_markDispatched i now (fl_schedules f) = Inr (row, s)"
  shows "good env (f\<lparr> fl_schedules := s \<rparr>) \<and> flow_kept f (f\<lparr> fl_schedules := s \<rparr>) \<and> True"
proof -
  from a(1) obtain y where y: "map_of (ss_occurrences (fl_schedules f)) i = Some y" "so_runId y = Some runId"
    by (auto simp: attached_def)
  from good_occurrence [OF f y(1)] have ok: "so_id y = i" "occurrence_ok f y" by simp_all
  let ?z = "y\<lparr> so_dispatchedAt := Some now \<rparr>"
  show ?thesis
  proof (cases "so_dispatchedAt y")
    case None
    with s y(1) ok have s': "s = (fl_schedules f)\<lparr> ss_occurrences := AList.update (so_id y) ?z (ss_occurrences (fl_schedules f)) \<rparr>"
      by (auto simp: postgres_markDispatched_def Let_def and_then_Inr)
    from ok(2) y(2) obtain r where r: "scheduled_run (run_store_of f) y r" by (auto simp: occurrence_ok_def)
    with y(2) a(2) have "scheduled_run (run_store_of f) ?z r" by (auto simp: scheduled_run_def left_pending_def)
    with ok(2) have z: "occurrence_ok f ?z" by (auto simp: occurrence_ok_def)
    have "good env (f\<lparr> fl_schedules := s \<rparr>) \<and> flow_kept f (f\<lparr> fl_schedules := s \<rparr>)"
      by (rule put_occurrence_ok [OF f _ _ _ _ _ z s']) (use y ok None in \<open>auto simp: occurrence_kept_def\<close>)
    then show ?thesis by simp
  next
    case (Some t)
    with s y(1) f show ?thesis by (auto simp: postgres_markDispatched_def and_then_Inr)
  qed
qed

lemma harmless_markDispatchedIfNeeded:
  assumes P: "stable env P" and a: "\<And>f. good env f \<Longrightarrow> P f \<Longrightarrow> attached i runId f \<and> left_pending runId f"
  shows "harmless env P (markDispatchedIfNeeded i now)"
proof -
  have "harmless env P (markDispatched i now)"
    unfolding markDispatched_def
  proof (rule harmless_then [OF ends_on_schedules [OF P]])
    fix f :: "'a flow" and row s
    assume "good env f" "P f" "postgres_markDispatched i now (fl_schedules f) = Inr (row, s)"
    with a [OF this(1,2)] marked_ok [OF this(1) _ _ this(3)]
    show "good env (f\<lparr> fl_schedules := s \<rparr>) \<and> flow_kept f (f\<lparr> fl_schedules := s \<rparr>) \<and> True" by blast
  qed (auto intro!: ends_give harmless_found P split: option.split)
  then show ?thesis
    unfolding markDispatchedIfNeeded_def
    by (intro harmless_reading_then ends_case_option ends_give ends_if P TrueI)
qed

subsection \<open>The dispatch\<close>

lemma Run_transitionTo_id: "Run_transitionTo r t now = Inr q \<Longrightarrow> r_id q = r_id r"
  by (auto simp: Run_transitionTo_def Run_rehydrate_def after_check_Inr run_props_with_def Run_instantiate_def
      and_then_Inr split: if_splits option.splits)

lemma ends_enqueueScheduledAttempt:
  assumes env: "env_ok env" and P: "stable env P" and r: "\<And>f. good env f \<Longrightarrow> P f \<Longrightarrow> run_copy k run f"
  shows "safe env P (enqueueScheduledAttempt run a now) (\<lambda>b f. b \<longrightarrow> left_pending (r_id run) f)"
  unfolding enqueueScheduledAttempt_def
proof (rule ends_then [where R = "\<lambda>cur f. r_status cur = Run_QUEUED \<longrightarrow> left_pending (r_id run) f", OF _ _ P])
  show "safe env P (if r_status run = Run_PENDING
      then act_then (lift_act (Run_transitionTo run Run_QUEUED now)) (\<lambda>queued. on_runs (transitionRun Run_PENDING queued))
      else give run) (\<lambda>cur f. r_status cur = Run_QUEUED \<longrightarrow> left_pending (r_id run) f)"
  proof (intro ends_if ends_lift_then TrueI)
    fix q assume q: "Run_transitionTo run Run_QUEUED now = Inr q"
    have st: "r_status q = Run_QUEUED" using q by (rule Run_transitionTo_status)
    have id: "r_id q = r_id run" using q by (rule Run_transitionTo_id)
    show "safe env P (on_runs (transitionRun Run_PENDING q)) (\<lambda>cur f. r_status cur = Run_QUEUED \<longrightarrow> left_pending (r_id run) f)"
    proof (rule ends_on_runs [OF waits_stable [OF P]], fold with_run_store_def)
      fix f s res assume f: "good env f" and t: "transitionRun Run_PENDING q (run_store_of f) = (s, res)"
      have "evolves (run_store_of f) s" using memory.queue [OF st, of "run_store_of f"] t by simp
      moreover have "store_wf (run_store_of f)" using good_ok [OF f] store_ok_wf by (simp add: flow_ok_def)
      ultimately show "good env (with_run_store s f) \<and> flow_kept f (with_run_store s f)
          \<and> result_ok (\<lambda>cur f. r_status cur = Run_QUEUED \<longrightarrow> left_pending (r_id run) f) (\<lambda>e f. True) res (with_run_store s f)"
        using with_run_store_ok [OF f] transitionRun_leaves_pending [of "run_store_of f" Run_PENDING q s] t id
        by (cases res) (auto simp: left_pending_def with_run_store_def)
    qed
  next
    assume "r_status run \<noteq> Run_PENDING"
    then show "safe env P (give run) (\<lambda>cur f. r_status cur = Run_QUEUED \<longrightarrow> left_pending (r_id run) f)"
      using r by (intro ends_give) (simp add: run_copy_def)
  qed
next
  fix cur
  let ?P = "\<lambda>f. P f \<and> (r_status cur = Run_QUEUED \<longrightarrow> left_pending (r_id run) f)"
  have st: "stable env ?P" by (intro stable_facts P)
  have "safe env ?P (act_catch (act_then (on_queue (enqueue (a_id a))) (\<lambda>outcome. give True)) (\<lambda>e. give False))
      (\<lambda>b f. b \<longrightarrow> r_status cur = Run_QUEUED \<longrightarrow> left_pending (r_id run) f)"
    by (rule ends_catch [OF ends_then [where R = "\<lambda>x f. True", OF ends_on_queue [OF st] _ st] _ st]) (auto intro!: ends_give)
  then show "safe env ?P (if r_status cur \<noteq> Run_QUEUED then give False
      else act_catch (act_then (on_queue (enqueue (a_id a))) (\<lambda>outcome. give True)) (\<lambda>e. give False))
      (\<lambda>b f. b \<longrightarrow> left_pending (r_id run) f)"
    by (intro ends_if ends_give) simp_all
qed

definition copy_option :: "string \<Rightarrow> run option \<Rightarrow> 'w flow \<Rightarrow> bool" where
  "copy_option k r f \<longleftrightarrow> (\<forall>run. r = Some run \<longrightarrow> run_copy k run f)"

definition made_copy :: "string \<Rightarrow> run \<times> bool \<Rightarrow> 'w flow \<Rightarrow> bool" where
  "made_copy k x f \<longleftrightarrow> run_copy k (fst x) f \<and> (snd x \<longrightarrow> left_pending (r_id (fst x)) f)"

lemma stable_copy_option [stable_facts]: "stable env (copy_option k r)" "stable env (made_copy k x)"
  unfolding copy_option_def [abs_def] made_copy_def [abs_def]
  by (rule stableI, auto dest: stableD [OF stable_run_copy]) (intro stable_facts)

lemma ends_use_copy:
  assumes P: "stable env P" and R: "\<And>f. good env f \<Longrightarrow> P f \<Longrightarrow> copy_option k (sel f) f"
  shows "safe env P (act_then (reading sel) (\<lambda>existing.
    case existing of None \<Rightarrow> lift_act (Inl e) | Some run \<Rightarrow> give (run, False))) (made_copy k)"
proof (rule ends_reading_then [where R = "copy_option k", OF P R])
  fix existing
  show "safe env (\<lambda>f. P f \<and> copy_option k existing f)
      (case existing of None \<Rightarrow> lift_act (Inl e) | Some run \<Rightarrow> give (run, False)) (made_copy k)"
    by (intro ends_case_option ends_give ends_throw) (simp_all add: copy_option_def made_copy_def)
qed

lemma ends_createScheduledRun:
  assumes env: "env_ok env" and P: "stable env P" and input: "\<not> uses_proto (so_input x)"
  shows "safe env P (createScheduledRun x runId attemptId key now) (made_copy (workspaceIdempotencyKey (so_workspaceId x) key))"
    (is "safe env P _ (made_copy ?k)")
  unfolding createScheduledRun_def
proof (rule ends_catch_failure [where P = P, OF ends_then [OF ends_createRunAwaiting [OF env P, where k = ?k] _ P] _ P], goal_cases)
  case (4 e)
  let ?P = "\<lambda>f. P f \<and> queue_failure (Some ?k) e f"
  have st: "stable env ?P" by (intro stable_facts P)
  show ?case
  proof (intro ends_if ends_use_copy [OF st], goal_cases)
    case (1 f)
    then show ?case by (auto simp: copy_option_def intro: indexed_copy)
  next
    case 2
    show ?case
    proof (cases e)
      case (EnqueueFailedError c c')
      have "copy_option ?k (findRunById (run_store_of f) c) f" if "good env f" "?P f" for f
        using that run_by_id [OF that(1)] stored_copy [OF that(1)]
        by (auto simp: EnqueueFailedError copy_option_def queue_failure_def)
      from ends_use_copy [OF st this] show ?thesis unfolding EnqueueFailedError by simp
    qed (auto intro: ends_throw)
  qed
qed (use input in \<open>auto intro!: ends_give simp: made_copy_def run_copy_def queue_failure_def driver_error_def
    run_key_of_def occurrence_command_def\<close>)

lemma ends_findScheduledRun:
  assumes P: "stable env P" and x: "\<And>f. good env f \<Longrightarrow> P f \<Longrightarrow> occurrence_seen x f"
    and key: "scheduleOccurrenceRunIdempotencyKey (so_scheduleId x) (so_scheduledFor x) = Inr key"
  shows "safe env P (findScheduledRun x key) (copy_option (workspaceIdempotencyKey (so_workspaceId x) key))"
    (is "safe env P _ (copy_option ?k)")
  unfolding findScheduledRun_def
proof (rule ends_then [OF _ _ P])
  have k: "occurrence_key x ?k" using key by (simp add: occurrence_key_def)
  show "safe env P (case so_runId x of None \<Rightarrow> give None
      | Some i \<Rightarrow> reading (\<lambda>f. findRunById (run_store_of f) i)) (copy_option ?k)"
  proof (cases "so_runId x")
    case (Some i)
    have "copy_option ?k (findRunById (run_store_of f) i) f" if "good env f" "P f" for f
      using recorded_copy [OF that(1) x [OF that] k Some] by (auto simp: copy_option_def)
    then show ?thesis by (simp add: Some ends_reading [OF P])
  qed (simp add: ends_give copy_option_def)
next
  fix recorded
  show "safe env (\<lambda>f. P f \<and> copy_option ?k recorded f) (case recorded of
      None \<Rightarrow> reading (\<lambda>f. findRunByWorkspaceIdempotencyKey (run_store_of f) (so_workspaceId x) key)
    | Some run \<Rightarrow> give (Some run)) (copy_option ?k)"
    by (intro ends_case_option ends_reading ends_give stable_facts P) (auto simp: copy_option_def intro: indexed_copy)
qed

lemma attached_recorded:
  "good env f \<Longrightarrow> occurrence_seen x f \<Longrightarrow> so_runId x = Some i \<Longrightarrow> attached (so_id x) i f"
  by (auto simp: occurrence_seen_def attached_def occurrence_kept_def)

lemma ends_dispatch_run:
  assumes env: "env_ok env" and P: "stable env P" and x: "\<And>f. good env f \<Longrightarrow> P f \<Longrightarrow> occurrence_seen x f"
    and k: "occurrence_key x k" and r: "\<And>f. good env f \<Longrightarrow> P f \<Longrightarrow> made_copy k (run, b) f"
  shows "harmless env P (act_then
      (if so_runId x = None \<or> so_runId x \<noteq> Some (r_id run) then attachOccurrence (so_id x) (r_id run) else give ()) (\<lambda>u.
    found (DomainInvariantError (''Scheduled Run '' @ r_id run @ '' is missing its initial RunAttempt.''))
       (\<lambda>f. findInitialRunAttempt (run_store_of f) (r_id run)) (\<lambda>initialAttempt.
     if isTerminalRunState (r_status run) \<or> r_status run = Run_RUNNING then markDispatchedIfNeeded (so_id x) now
     else if b then markDispatchedIfNeeded (so_id x) now
     else act_then (enqueueScheduledAttempt run initialAttempt now) (\<lambda>enqueued.
       if enqueued then markDispatchedIfNeeded (so_id x) now else give ()))))"
proof (rule ends_then [OF _ _ P])
  show "safe env P (if so_runId x = None \<or> so_runId x \<noteq> Some (r_id run) then attachOccurrence (so_id x) (r_id run) else give ())
      (\<lambda>u. attached (so_id x) (r_id run))"
  proof (intro ends_if ends_attachOccurrence [OF P k] ends_give, goal_cases)
    case (1 f)
    with x r show ?case by (simp add: made_copy_def run_copy_def)
  next
    case (2 f)
    then show ?case using attached_recorded [OF _ x] by blast
  qed
next
  fix u :: unit
  let ?P = "\<lambda>f. P f \<and> attached (so_id x) (r_id run) f"
  have st: "stable env ?P" by (intro stable_facts P)
  show "harmless env ?P (found (DomainInvariantError (''Scheduled Run '' @ r_id run @ '' is missing its initial RunAttempt.''))
       (\<lambda>f. findInitialRunAttempt (run_store_of f) (r_id run)) (\<lambda>initialAttempt.
     if isTerminalRunState (r_status run) \<or> r_status run = Run_RUNNING then markDispatchedIfNeeded (so_id x) now
     else if b then markDispatchedIfNeeded (so_id x) now
     else act_then (enqueueScheduledAttempt run initialAttempt now) (\<lambda>enqueued.
       if enqueued then markDispatchedIfNeeded (so_id x) now else give ())))"
  proof (intro harmless_found [OF st] ends_if harmless_markDispatchedIfNeeded [OF st, of _ "r_id run"], goal_cases)
    case (1 a f)
    then have "r_status run \<noteq> Run_PENDING" by (auto simp: isTerminalRunState_def TERMINAL_RUN_STATES_def)
    with r [of f] 1 show ?case by (simp add: made_copy_def run_copy_def)
  next
    case (2 a f)
    with r [of f] show ?case by (simp add: made_copy_def)
  next
    case (3 a)
    have copy: "run_copy k run f" if "good env f" "?P f" for f
      using r [of f] that by (simp add: made_copy_def)
    show ?case
    proof (rule ends_then [OF ends_enqueueScheduledAttempt [OF env st copy] _ st])
      fix enqueued
      let ?Q = "\<lambda>f. ?P f \<and> (enqueued \<longrightarrow> left_pending (r_id run) f)"
      have sq: "stable env ?Q" by (intro stable_facts P)
      show "harmless env ?Q (if enqueued then markDispatchedIfNeeded (so_id x) now else give ())"
        by (intro ends_if ends_give TrueI harmless_markDispatchedIfNeeded [OF sq, of _ "r_id run"]) simp
    qed
  qed
qed

lemma harmless_dispatchScheduleOccurrence:
  assumes env: "env_ok env" and P: "stable env P" and x: "\<And>f. good env f \<Longrightarrow> P f \<Longrightarrow> occurrence_seen x f"
    and input: "\<not> uses_proto (so_input x)"
  shows "harmless env P (dispatchScheduleOccurrence x runId attemptId now)"
  unfolding dispatchScheduleOccurrence_def
proof (intro ends_lift_then TrueI)
  fix key assume key: "scheduleOccurrenceRunIdempotencyKey (so_scheduleId x) (so_scheduledFor x) = Inr key"
  let ?k = "workspaceIdempotencyKey (so_workspaceId x) key"
  have k: "occurrence_key x ?k" using key by (simp add: occurrence_key_def)
  show "harmless env P (act_then (findScheduledRun x key) (\<lambda>existing.
     act_then (case existing of
         Some run \<Rightarrow> give (run, False)
       | None \<Rightarrow> createScheduledRun x runId attemptId key now) (\<lambda>(run, enqueuedByCreateRun).
     act_then (if so_runId x = None \<or> so_runId x \<noteq> Some (r_id run) then attachOccurrence (so_id x) (r_id run)
       else give ()) (\<lambda>u.
     found (DomainInvariantError (''Scheduled Run '' @ r_id run @ '' is missing its initial RunAttempt.''))
       (\<lambda>f. findInitialRunAttempt (run_store_of f) (r_id run)) (\<lambda>initialAttempt.
     if isTerminalRunState (r_status run) \<or> r_status run = Run_RUNNING then markDispatchedIfNeeded (so_id x) now
     else if enqueuedByCreateRun then markDispatchedIfNeeded (so_id x) now
     else act_then (enqueueScheduledAttempt run initialAttempt now) (\<lambda>enqueued.
       if enqueued then markDispatchedIfNeeded (so_id x) now else give ()))))))"
  proof (rule ends_then [OF ends_findScheduledRun [OF P x key] _ P])
    fix existing
    let ?P = "\<lambda>f. P f \<and> copy_option ?k existing f"
    have st: "stable env ?P" by (intro stable_facts P)
    show "harmless env ?P (act_then (case existing of
         Some run \<Rightarrow> give (run, False)
       | None \<Rightarrow> createScheduledRun x runId attemptId key now) (\<lambda>(run, enqueuedByCreateRun).
     act_then (if so_runId x = None \<or> so_runId x \<noteq> Some (r_id run) then attachOccurrence (so_id x) (r_id run)
       else give ()) (\<lambda>u.
     found (DomainInvariantError (''Scheduled Run '' @ r_id run @ '' is missing its initial RunAttempt.''))
       (\<lambda>f. findInitialRunAttempt (run_store_of f) (r_id run)) (\<lambda>initialAttempt.
     if isTerminalRunState (r_status run) \<or> r_status run = Run_RUNNING then markDispatchedIfNeeded (so_id x) now
     else if enqueuedByCreateRun then markDispatchedIfNeeded (so_id x) now
     else act_then (enqueueScheduledAttempt run initialAttempt now) (\<lambda>enqueued.
       if enqueued then markDispatchedIfNeeded (so_id x) now else give ())))))"
    proof (rule ends_then [where R = "made_copy ?k", OF _ _ st])
      show "safe env ?P (case existing of Some run \<Rightarrow> give (run, False)
          | None \<Rightarrow> createScheduledRun x runId attemptId key now) (made_copy ?k)"
        by (cases existing) (auto intro!: ends_give ends_createScheduledRun env P input simp: copy_option_def made_copy_def)
    next
      fix made :: "run \<times> bool"
      obtain run b where m: "made = (run, b)" by fastforce
      have sm: "stable env (\<lambda>f. ?P f \<and> made_copy ?k made f)" by (intro stable_facts P)
      show "harmless env (\<lambda>f. ?P f \<and> made_copy ?k made f) (case made of (run, enqueuedByCreateRun) \<Rightarrow>
         act_then (if so_runId x = None \<or> so_runId x \<noteq> Some (r_id run) then attachOccurrence (so_id x) (r_id run)
           else give ()) (\<lambda>u.
         found (DomainInvariantError (''Scheduled Run '' @ r_id run @ '' is missing its initial RunAttempt.''))
           (\<lambda>f. findInitialRunAttempt (run_store_of f) (r_id run)) (\<lambda>initialAttempt.
         if isTerminalRunState (r_status run) \<or> r_status run = Run_RUNNING then markDispatchedIfNeeded (so_id x) now
         else if enqueuedByCreateRun then markDispatchedIfNeeded (so_id x) now
         else act_then (enqueueScheduledAttempt run initialAttempt now) (\<lambda>enqueued.
           if enqueued then markDispatchedIfNeeded (so_id x) now else give ()))))"
        unfolding m prod.case by (rule ends_dispatch_run [OF env sm [unfolded m] _ k]) (use x in simp_all)
    qed
  qed
qed

lemma seen_input: "good env f \<Longrightarrow> occurrence_seen x f \<Longrightarrow> \<not> uses_proto (so_input x)"
proof -
  assume "good env f" "occurrence_seen x f"
  then show "\<not> uses_proto (so_input x)"
  proof (cases rule: occurrence_seenE)
    case (1 y)
    then show ?thesis by (cases x; cases y) (simp add: occurrence_kept_def occurrence_ok_def)
  qed
qed

lemma harmless_dispatchOccurrence:
  assumes env: "env_ok env" and P: "stable env P" and x: "\<And>f. good env f \<Longrightarrow> P f \<Longrightarrow> occurrence_seen x f"
  shows "harmless env P (dispatchOccurrence now x)"
  unfolding dispatchOccurrence_def
proof (rule ends_reading_then [where R = "\<lambda>r f. \<forall>y. r = Some y \<longrightarrow> occurrence_seen y f", OF P])
  fix latest
  let ?x = "case latest of None \<Rightarrow> x | Some y \<Rightarrow> y"
  let ?P = "\<lambda>f. P f \<and> (\<forall>y. latest = Some y \<longrightarrow> occurrence_seen y f)"
  have seen: "occurrence_seen ?x f" if "good env f" "?P f" for f
    using that x [of f] by (cases latest) simp_all
  have st: "stable env ?P" by (cases latest) (simp_all add: P stable_facts)
  show "harmless env ?P (act_then new_id (\<lambda>runId. act_then new_id (\<lambda>attemptId.
      act_catch (dispatchScheduleOccurrence ?x runId attemptId now) (\<lambda>e. give ()))))"
  proof (cases "\<exists>f. good env f \<and> ?P f")
    case True
    then have "\<not> uses_proto (so_input ?x)" using seen seen_input by blast
    then show ?thesis
      by (intro ends_any_id_then harmless_catch harmless_dispatchScheduleOccurrence [OF env st seen] ends_give st TrueI)
  next
    case False
    then show ?thesis by (intro ends_impossible) blast
  qed
qed (auto simp: findOccurrenceById_def intro: occurrence_seen_here)

lemma set_dedupe: "set (dedupe_from seen xs) \<subseteq> set xs"
  by (induction xs arbitrary: seen) auto

lemma harmless_in_order:
  assumes "stable env P" "\<And>x. x \<in> set xs \<Longrightarrow> harmless env P (a x)"
  shows "harmless env P (in_order a xs)"
  using assms(2)
proof (induction xs)
  case (Cons x xs)
  then have "harmless env P (a x)" "harmless env P (in_order a xs)" by simp_all
  then show ?case using harmless_then [OF _ _ assms(1)] by simp
qed (simp add: ends_give)

lemma harmless_schedulerTick:
  assumes env: "env_ok env"
  shows "harmless env (\<lambda>f. True) (schedulerTick cr m d now)"
  unfolding schedulerTick_def
proof (rule ends_then [OF ends_materializeDue [OF stable_const] _ stable_const])
  fix made
  have sm: "stable env (\<lambda>f. True \<and> all_seen made f)" by (intro stable_facts)
  show "harmless env (\<lambda>f. True \<and> all_seen made f) (act_then
      (reading (\<lambda>f. listUndispatchedOccurrences cr (fl_schedules f) d)) (\<lambda>undispatched.
      in_order (dispatchOccurrence now) (dedupeOccurrences (made @ undispatched))))"
  proof (rule ends_reading_then [where R = all_seen, OF sm])
    fix listed
    let ?P = "\<lambda>f. (True \<and> all_seen made f) \<and> all_seen listed f"
    have st: "stable env ?P" by (intro stable_facts)
    show "harmless env ?P (in_order (dispatchOccurrence now) (dedupeOccurrences (made @ listed)))"
    proof (rule harmless_in_order [OF st])
      fix x assume "x \<in> set (dedupeOccurrences (made @ listed))"
      then have "x \<in> set (made @ listed)" using set_dedupe unfolding dedupeOccurrences_def by blast
      then show "harmless env ?P (dispatchOccurrence now x)"
        by (intro harmless_dispatchOccurrence [OF env st]) (auto simp: all_seen_def)
    qed
  qed (auto simp: all_seen_def intro: listed_occurrence_seen)
qed

subsection \<open>The control plane\<close>

lemma harmless_assertScheduleAgentOwnership:
  "stable env P \<Longrightarrow> harmless env P (assertScheduleAgentOwnership w a v)"
  unfolding assertScheduleAgentOwnership_def by (intro harmless_found ends_check TrueI)

lemma harmless_createSchedule: "harmless env (\<lambda>f. True) (createSchedule ae cr scope c now)"
  unfolding createSchedule_def
  by (intro harmless_authorized harmless_found harmless_then harmless_assertScheduleAgentOwnership ends_any_id_then
      ends_lift_then ends_on_schedules ends_give stable_const TrueI) (rule saved_schedule_ok)

lemma harmless_changeSchedule: "harmless env (\<lambda>f. True) (changeSchedule cr scope c now)"
  unfolding changeSchedule_def
  by (intro harmless_authorized harmless_found harmless_then harmless_assertScheduleAgentOwnership ends_case_option
      ends_lift_then ends_on_schedules ends_give stable_const TrueI) (rule updated_schedule_ok)

end
