(* ===== verification/Office_Application.thy ===== *)
theory Office_Application
  imports Workflow_Application
begin

text \<open>
  The handlers around the office: the control plane of \<open>domain/src/office-application.ts\<close>, and
  the launch and the reconciliation of assignments of \<open>orchestration/src/launch-assignment.ts\<close> and
  \<open>reconcile-assignment.ts\<close>, with the routes of \<open>apps/web/src/office-http.ts\<close> that call these two.
  As the handlers on workflows they are programs of single accesses, over the operations of the
  PostgreSQL repository. Telemetry is left out.
\<close>

definition on_office :: "(office_store \<Rightarrow> osva_error + ('a \<times> office_store)) \<Rightarrow> ('w, 'a) act" where
  "on_office operation = access_act (\<lambda>g.
     case operation (fl_office g) of Inl e \<Rightarrow> (g, Inl e) | Inr (x, s) \<Rightarrow> (g\<lparr> fl_office := s \<rparr>, Inr x))"

text \<open>The row of an update, which is missing when nothing matched.\<close>

definition persisted :: "osva_error \<Rightarrow> 'x option \<Rightarrow> ('w, 'x) act" where
  "persisted missing row = (case row of None \<Rightarrow> lift_act (Inl missing) | Some x \<Rightarrow> give x)"

definition with_workspace :: "application_env \<Rightarrow> string \<Rightarrow> ('w, 'x) act \<Rightarrow> ('w, 'x) act" where
  "with_workspace ae workspaceId k =
     found (NotFoundError ''Workspace'' workspaceId) (\<lambda>f. ae_workspace ae workspaceId) (\<lambda>workspace. k)"

subsection \<open>Workers (office-application.ts)\<close>

record create_office_command =
  cof_key :: string
  cof_name :: string
  cof_description :: "string option"

definition createOfficeWorker ::
    "application_env \<Rightarrow> principal \<Rightarrow> create_office_command \<Rightarrow> string \<Rightarrow> js_date \<Rightarrow> ('w, office_worker) act" where
  "createOfficeWorker ae scope c agentId now =
     authorized scope Action_WRITE (\<lambda>workspaceId.
     with_workspace ae workspaceId (
     found (AgentNotFoundError agentId)
       (\<lambda>f. findAgentByWorkspaceAndId (pf_agents (fl_platform f)) workspaceId agentId) (\<lambda>agent.
     act_then new_id (\<lambda>i.
     act_then (lift_act (OfficeWorker_create \<lparr> ow_id = i, ow_workspaceId = workspaceId, ow_key = cof_key c,
         ow_name = cof_name c, ow_description = cof_description c, ow_agentId = agentId,
         ow_createdAt = now, ow_updatedAt = now \<rparr>)) (\<lambda>x.
     act_then (on_office (no_result (postgres_saveOfficeWorker x))) (\<lambda>u. give x))))))"

definition getOfficeWorker :: "principal \<Rightarrow> string \<Rightarrow> ('w, office_worker) act" where
  "getOfficeWorker scope i =
     authorized scope Action_READ (\<lambda>workspaceId.
     found (NotFoundError ''OfficeWorker'' i) (\<lambda>f. findOfficeWorkerByWorkspaceAndId (fl_office f) workspaceId i) give)"

definition listOfficeWorkers ::
    "application_env \<Rightarrow> (string \<Rightarrow> string) \<Rightarrow> principal \<Rightarrow> ('w, office_worker list) act" where
  "listOfficeWorkers ae collate scope =
     authorized scope Action_READ (\<lambda>workspaceId.
     with_workspace ae workspaceId (reading (\<lambda>f. listOfficeWorkersByWorkspace collate (fl_office f) workspaceId)))"

definition updateOfficeWorker ::
    "principal \<Rightarrow> string \<Rightarrow> string option \<Rightarrow> string option \<Rightarrow> js_date \<Rightarrow> ('w, office_worker) act" where
  "updateOfficeWorker scope i name description now =
     authorized scope Action_WRITE (\<lambda>workspaceId.
     found (NotFoundError ''OfficeWorker'' i) (\<lambda>f. findOfficeWorkerByWorkspaceAndId (fl_office f) workspaceId i)
       (\<lambda>existing.
     act_then (lift_act (OfficeWorker_update existing name description now)) (\<lambda>updated.
     act_then (on_office (postgres_updateOfficeWorker updated)) (persisted (NotFoundError ''OfficeWorker'' i)))))"

subsection \<open>Roles and teams\<close>

definition new_group :: "string \<Rightarrow> string \<Rightarrow> create_office_command \<Rightarrow> js_date \<Rightarrow> office_group" where
  "new_group i workspaceId c now =
     \<lparr> og_id = i, og_workspaceId = workspaceId, og_key = cof_key c, og_name = cof_name c,
       og_description = cof_description c, og_createdAt = now, og_updatedAt = now \<rparr>"

definition createRole :: "application_env \<Rightarrow> principal \<Rightarrow> create_office_command \<Rightarrow> js_date \<Rightarrow> ('w, role) act" where
  "createRole ae scope c now =
     authorized scope Action_WRITE (\<lambda>workspaceId.
     with_workspace ae workspaceId (
     act_then new_id (\<lambda>i.
     act_then (lift_act (Role_create (new_group i workspaceId c now))) (\<lambda>x.
     act_then (on_office (no_result (postgres_saveRole x))) (\<lambda>u. give x)))))"

definition getRole :: "principal \<Rightarrow> string \<Rightarrow> ('w, role) act" where
  "getRole scope i =
     authorized scope Action_READ (\<lambda>workspaceId.
     found (NotFoundError ''Role'' i) (\<lambda>f. findRoleByWorkspaceAndId (fl_office f) workspaceId i) give)"

definition listRoles :: "application_env \<Rightarrow> (string \<Rightarrow> string) \<Rightarrow> principal \<Rightarrow> ('w, role list) act" where
  "listRoles ae collate scope =
     authorized scope Action_READ (\<lambda>workspaceId.
     with_workspace ae workspaceId (reading (\<lambda>f. listRolesByWorkspace collate (fl_office f) workspaceId)))"

definition updateRole :: "principal \<Rightarrow> string \<Rightarrow> string option \<Rightarrow> string option \<Rightarrow> js_date \<Rightarrow> ('w, role) act" where
  "updateRole scope i name description now =
     authorized scope Action_WRITE (\<lambda>workspaceId.
     found (NotFoundError ''Role'' i) (\<lambda>f. findRoleByWorkspaceAndId (fl_office f) workspaceId i) (\<lambda>existing.
     act_then (lift_act (Role_update existing name description now)) (\<lambda>updated.
     act_then (on_office (postgres_updateRole updated)) (persisted (NotFoundError ''Role'' i)))))"

definition createTeam :: "application_env \<Rightarrow> principal \<Rightarrow> create_office_command \<Rightarrow> js_date \<Rightarrow> ('w, team) act" where
  "createTeam ae scope c now =
     authorized scope Action_WRITE (\<lambda>workspaceId.
     with_workspace ae workspaceId (
     act_then new_id (\<lambda>i.
     act_then (lift_act (Team_create (new_group i workspaceId c now))) (\<lambda>x.
     act_then (on_office (no_result (postgres_saveTeam x))) (\<lambda>u. give x)))))"

definition getTeam :: "principal \<Rightarrow> string \<Rightarrow> ('w, team) act" where
  "getTeam scope i =
     authorized scope Action_READ (\<lambda>workspaceId.
     found (NotFoundError ''Team'' i) (\<lambda>f. findTeamByWorkspaceAndId (fl_office f) workspaceId i) give)"

definition listTeams :: "application_env \<Rightarrow> (string \<Rightarrow> string) \<Rightarrow> principal \<Rightarrow> ('w, team list) act" where
  "listTeams ae collate scope =
     authorized scope Action_READ (\<lambda>workspaceId.
     with_workspace ae workspaceId (reading (\<lambda>f. listTeamsByWorkspace collate (fl_office f) workspaceId)))"

definition updateTeam :: "principal \<Rightarrow> string \<Rightarrow> string option \<Rightarrow> string option \<Rightarrow> js_date \<Rightarrow> ('w, team) act" where
  "updateTeam scope i name description now =
     authorized scope Action_WRITE (\<lambda>workspaceId.
     found (NotFoundError ''Team'' i) (\<lambda>f. findTeamByWorkspaceAndId (fl_office f) workspaceId i) (\<lambda>existing.
     act_then (lift_act (Team_update existing name description now)) (\<lambda>updated.
     act_then (on_office (postgres_updateTeam updated)) (persisted (NotFoundError ''Team'' i)))))"

subsection \<open>Memberships\<close>

definition elsewhere :: "string \<Rightarrow> string \<Rightarrow> string \<Rightarrow> string \<Rightarrow> osva_error option" where
  "elsewhere what i itsWorkspace workspaceId =
     (if itsWorkspace \<noteq> workspaceId
      then Some (DomainInvariantError (what @ '' '' @ i @ '' belongs to workspace '' @ itsWorkspace @ '', not ''
        @ workspaceId @ ''.''))
      else None)"

definition addTeamMembership :: "principal \<Rightarrow> team_membership \<Rightarrow> ('w, team_membership) act" where
  "addTeamMembership scope c =
     authorized scope Action_WRITE (\<lambda>workspaceId.
     found (NotFoundError ''Team'' (tm_teamId c))
       (\<lambda>f. findTeamByWorkspaceAndId (fl_office f) workspaceId (tm_teamId c)) (\<lambda>team.
     found (NotFoundError ''OfficeWorker'' (tm_officeWorkerId c))
       (\<lambda>f. findOfficeWorkerByWorkspaceAndId (fl_office f) workspaceId (tm_officeWorkerId c)) (\<lambda>worker.
     act_then (check_act (elsewhere ''OfficeWorker'' (ow_id worker) (ow_workspaceId worker) (og_workspaceId team))) (\<lambda>u.
     act_then (case tm_roleId c of
         None \<Rightarrow> give ()
       | Some r \<Rightarrow> found (NotFoundError ''Role'' r) (\<lambda>f. findRoleByWorkspaceAndId (fl_office f) workspaceId r) (\<lambda>role.
           check_act (elsewhere ''Role'' (og_id role) (og_workspaceId role) (og_workspaceId team)))) (\<lambda>u.
     act_then (lift_act (TeamMembership_create c)) (\<lambda>membership.
     act_then (on_office (no_result (postgres_addTeamMembership membership))) (\<lambda>u. give membership)))))))"

definition listTeamMemberships :: "(string \<Rightarrow> string) \<Rightarrow> principal \<Rightarrow> string \<Rightarrow> ('w, team_membership list) act" where
  "listTeamMemberships collate scope teamId =
     authorized scope Action_READ (\<lambda>workspaceId.
     found (NotFoundError ''Team'' teamId) (\<lambda>f. findTeamByWorkspaceAndId (fl_office f) workspaceId teamId) (\<lambda>team.
     reading (\<lambda>f. listTeamMembershipsByTeam collate (fl_office f) teamId)))"

subsection \<open>Goals\<close>

definition createGoal :: "application_env \<Rightarrow> principal \<Rightarrow> create_office_command \<Rightarrow> js_date \<Rightarrow> ('w, goal) act" where
  "createGoal ae scope c now =
     authorized scope Action_WRITE (\<lambda>workspaceId.
     with_workspace ae workspaceId (
     act_then new_id (\<lambda>i.
     act_then (lift_act (Goal_create \<lparr> go_id = i, go_workspaceId = workspaceId, go_key = cof_key c,
         go_title = cof_name c, go_description = cof_description c, go_status = Goal_OPEN,
         go_createdAt = now, go_updatedAt = now \<rparr>)) (\<lambda>x.
     act_then (on_office (no_result (postgres_saveGoal x))) (\<lambda>u. give x)))))"

definition getGoal :: "principal \<Rightarrow> string \<Rightarrow> ('w, goal) act" where
  "getGoal scope i =
     authorized scope Action_READ (\<lambda>workspaceId.
     found (NotFoundError ''Goal'' i) (\<lambda>f. findGoalByWorkspaceAndId (fl_office f) workspaceId i) give)"

definition listGoals :: "application_env \<Rightarrow> (string \<Rightarrow> string) \<Rightarrow> principal \<Rightarrow> ('w, goal list) act" where
  "listGoals ae collate scope =
     authorized scope Action_READ (\<lambda>workspaceId.
     with_workspace ae workspaceId (reading (\<lambda>f. listGoalsByWorkspace collate (fl_office f) workspaceId)))"

definition updateGoal ::
    "principal \<Rightarrow> string \<Rightarrow> string option \<Rightarrow> string option \<Rightarrow> goal_state option \<Rightarrow> js_date \<Rightarrow> ('w, goal) act" where
  "updateGoal scope i title description status now =
     authorized scope Action_WRITE (\<lambda>workspaceId.
     found (NotFoundError ''Goal'' i) (\<lambda>f. findGoalByWorkspaceAndId (fl_office f) workspaceId i) (\<lambda>existing.
     act_then (lift_act (Goal_update existing title description status now)) (\<lambda>updated.
     act_then (on_office (postgres_updateGoal updated)) (persisted (NotFoundError ''Goal'' i)))))"

subsection \<open>Assignments\<close>

record create_assignment_command =
  cac_workspaceId :: string
  cac_goalId :: "string option"
  cac_officeWorkerId :: string
  cac_title :: string
  cac_description :: "string option"
  cac_targetType :: assignment_target
  cac_targetVersionId :: string
  cac_input :: jsv

definition assertAssignmentTarget ::
    "string \<Rightarrow> office_worker \<Rightarrow> assignment_target \<Rightarrow> string \<Rightarrow> ('w, unit) act" where
  "assertAssignmentTarget workspaceId worker targetType targetVersionId =
     (case targetType of
        Target_AGENT_VERSION \<Rightarrow>
          found (AgentVersionNotFoundError targetVersionId)
            (\<lambda>f. findAgentVersionById (pf_agents (fl_platform f)) targetVersionId) (\<lambda>v.
          act_then (check_act (if av_agentId v \<noteq> ow_agentId worker
            then Some (DomainInvariantError (''AgentVersion '' @ av_id v @ '' belongs to Agent '' @ av_agentId v
              @ '', not OfficeWorker agent '' @ ow_agentId worker @ ''.''))
            else None)) (\<lambda>u.
          act_then (reading (\<lambda>f. findAgentById (pf_agents (fl_platform f)) (av_agentId v))) (\<lambda>agent.
          check_act (if (case agent of None \<Rightarrow> True | Some a \<Rightarrow> ag_workspaceId a \<noteq> workspaceId)
            then Some (DomainInvariantError (''AgentVersion '' @ av_id v @ '' does not belong to workspace ''
              @ workspaceId @ ''.''))
            else None))))
      | Target_WORKFLOW_VERSION \<Rightarrow>
          found (NotFoundError ''WorkflowVersion'' targetVersionId)
            (\<lambda>f. in_workspace wv_workspaceId workspaceId (findWorkflowVersionById (fl_catalog f) targetVersionId))
            (\<lambda>v. give ()))"

definition goal_of_workspace :: "string \<Rightarrow> string \<Rightarrow> string \<Rightarrow> ('w, unit) act" where
  "goal_of_workspace workspaceId goalId expectedWorkspace =
     found (NotFoundError ''Goal'' goalId) (\<lambda>f. findGoalByWorkspaceAndId (fl_office f) workspaceId goalId) (\<lambda>goal.
       check_act (elsewhere ''Goal'' (go_id goal) (go_workspaceId goal) expectedWorkspace))"

definition new_assignment :: "string \<Rightarrow> string \<Rightarrow> create_assignment_command \<Rightarrow> js_date \<Rightarrow> assignment" where
  "new_assignment i workspaceId c now =
     \<lparr> as_id = i, as_workspaceId = workspaceId, as_goalId = cac_goalId c, as_officeWorkerId = cac_officeWorkerId c,
       as_title = cac_title c, as_description = cac_description c, as_targetType = cac_targetType c,
       as_targetVersionId = cac_targetVersionId c, as_input = cac_input c, as_status = As_PENDING,
       as_runId = None, as_workflowRunId = None, as_createdAt = now, as_startedAt = None,
       as_completedAt = None, as_cancelledAt = None \<rparr>"

definition createAssignment ::
    "application_env \<Rightarrow> principal \<Rightarrow> create_assignment_command \<Rightarrow> js_date \<Rightarrow> ('w, assignment) act" where
  "createAssignment ae scope c now =
     authorized scope Action_WRITE (\<lambda>workspaceId.
     with_workspace ae workspaceId (
     found (NotFoundError ''OfficeWorker'' (cac_officeWorkerId c))
       (\<lambda>f. findOfficeWorkerByWorkspaceAndId (fl_office f) workspaceId (cac_officeWorkerId c)) (\<lambda>worker.
     act_then (check_act (elsewhere ''OfficeWorker'' (ow_id worker) (ow_workspaceId worker) (cac_workspaceId c))) (\<lambda>u.
     act_then (case cac_goalId c of None \<Rightarrow> give ()
       | Some g \<Rightarrow> goal_of_workspace workspaceId g (cac_workspaceId c)) (\<lambda>u.
     act_then (assertAssignmentTarget workspaceId worker (cac_targetType c) (cac_targetVersionId c)) (\<lambda>u.
     act_then new_id (\<lambda>i.
     act_then (lift_act (Assignment_create (new_assignment i workspaceId c now))) (\<lambda>x.
     act_then (on_office (no_result (postgres_saveAssignment x))) (\<lambda>u. give x)))))))))"

definition getAssignment :: "principal \<Rightarrow> string \<Rightarrow> ('w, assignment) act" where
  "getAssignment scope i =
     authorized scope Action_READ (\<lambda>workspaceId.
     found (NotFoundError ''Assignment'' i) (\<lambda>f. findAssignmentByWorkspaceAndId (fl_office f) workspaceId i) give)"

definition listAssignments ::
    "application_env \<Rightarrow> (string \<Rightarrow> string) \<Rightarrow> principal \<Rightarrow> ('w, assignment list) act" where
  "listAssignments ae collate scope =
     authorized scope Action_READ (\<lambda>workspaceId.
     with_workspace ae workspaceId (reading (\<lambda>f. listAssignmentsByWorkspace collate (fl_office f) workspaceId)))"

text \<open>Without a matching row, the assignment is read again to tell why.\<close>

definition transitionAssignment :: "assignment_state \<Rightarrow> assignment \<Rightarrow> ('w, assignment) act" where
  "transitionAssignment expectedStatus next =
     act_then (check_act (assertLegalAssignmentTransition expectedStatus (as_status next))) (\<lambda>u.
     act_then (on_office (postgres_transitionAssignment expectedStatus next)) (\<lambda>row.
       case row of
         Some x \<Rightarrow> give x
       | None \<Rightarrow> found (NotFoundError ''Assignment'' (as_id next)) (\<lambda>f. findAssignmentById (fl_office f) (as_id next))
           (\<lambda>existing. lift_act (Inl (LifecycleConflictError ''assignment'' (as_id next)
             (assignment_state_name expectedStatus))))))"

definition cancelAssignment :: "principal \<Rightarrow> string \<Rightarrow> js_date \<Rightarrow> ('w, assignment) act" where
  "cancelAssignment scope i now =
     authorized scope Action_EXECUTE (\<lambda>workspaceId.
     found (NotFoundError ''Assignment'' i) (\<lambda>f. findAssignmentByWorkspaceAndId (fl_office f) workspaceId i) (\<lambda>existing.
     if as_status existing \<noteq> As_PENDING
     then lift_act (Inl (DomainInvariantError (''Assignment '' @ i @ '' cannot be cancelled from status ''
       @ assignment_state_name (as_status existing) @ ''.'')))
     else act_then (lift_act (Assignment_cancel existing now)) (\<lambda>cancelled.
       transitionAssignment (as_status existing) cancelled)))"

definition updateAssignment ::
    "principal \<Rightarrow> string \<Rightarrow> string option \<Rightarrow> string option \<Rightarrow> goal_change \<Rightarrow> ('w, assignment) act" where
  "updateAssignment scope i title description goal =
     authorized scope Action_WRITE (\<lambda>workspaceId.
     found (NotFoundError ''Assignment'' i) (\<lambda>f. findAssignmentByWorkspaceAndId (fl_office f) workspaceId i) (\<lambda>existing.
     act_then (case goal of Goal_set g \<Rightarrow> goal_of_workspace workspaceId g (as_workspaceId existing) | _ \<Rightarrow> give ()) (\<lambda>u.
     act_then (lift_act (Assignment_update existing title description goal)) (\<lambda>updated.
     act_then (on_office (postgres_updateAssignment updated)) (persisted (NotFoundError ''Assignment'' i))))))"

subsection \<open>Reconciliation (reconcile-assignment.ts)\<close>

fun status_of_run :: "assignment_state \<Rightarrow> run_state \<Rightarrow> assignment_state" where
  "status_of_run current Run_SUCCEEDED = As_COMPLETED"
| "status_of_run current Run_FAILED = As_FAILED"
| "status_of_run current Run_TIMED_OUT = As_FAILED"
| "status_of_run current Run_CANCELLED = As_CANCELLED"
| "status_of_run current Run_RUNNING = As_RUNNING"
| "status_of_run current Run_QUEUED = As_RUNNING"
| "status_of_run current Run_PENDING = As_RUNNING"
| "status_of_run current Run_INTERRUPTED = current"

fun status_of_workflow_run :: "assignment_state \<Rightarrow> workflow_run_state \<Rightarrow> assignment_state" where
  "status_of_workflow_run current WR_SUCCEEDED = As_COMPLETED"
| "status_of_workflow_run current WR_FAILED = As_FAILED"
| "status_of_workflow_run current WR_RUNNING = As_RUNNING"
| "status_of_workflow_run current WR_WAITING = As_RUNNING"
| "status_of_workflow_run current WR_PENDING = As_RUNNING"
| "status_of_workflow_run current WR_CANCELLED = current"

definition deriveStatus :: "assignment \<Rightarrow> ('w, assignment_state) act" where
  "deriveStatus x =
     (case as_targetType x of
        Target_AGENT_VERSION \<Rightarrow>
          (case as_runId x of
             None \<Rightarrow> give (as_status x)
           | Some i \<Rightarrow> reading (\<lambda>f. case findRunById (run_store_of f) i of
               None \<Rightarrow> as_status x | Some run \<Rightarrow> status_of_run (as_status x) (r_status run)))
      | Target_WORKFLOW_VERSION \<Rightarrow>
          (case as_workflowRunId x of
             None \<Rightarrow> give (as_status x)
           | Some i \<Rightarrow> reading (\<lambda>f. case findWorkflowRunById (fl_store f) i of
               None \<Rightarrow> as_status x | Some w \<Rightarrow> status_of_workflow_run (as_status x) (w_status w))))"

definition reconcileAssignment :: "string \<Rightarrow> js_date \<Rightarrow> ('w, assignment) act" where
  "reconcileAssignment i now =
     found (NotFoundError ''Assignment'' i) (\<lambda>f. findAssignmentById (fl_office f) i) (\<lambda>x.
     if isTerminalAssignmentState (as_status x) then give x
     else act_then (deriveStatus x) (\<lambda>derived.
       if derived = as_status x then give x
       else act_then (lift_act (Assignment_transitionTo x derived now
           (if derived = As_COMPLETED then Some now else as_completedAt x)
           (if derived = As_CANCELLED then Some now else as_cancelledAt x))) (\<lambda>y.
         transitionAssignment (as_status x) y)))"

subsection \<open>Launching (launch-assignment.ts)\<close>

definition assignment_command ::
    "assignment \<Rightarrow> office_worker \<Rightarrow> string \<Rightarrow> string \<Rightarrow> js_date \<Rightarrow> create_run_command" where
  "assignment_command x worker runId attemptId now =
     \<lparr> crc_runId = runId, crc_runAttemptId = attemptId, crc_workspaceId = as_workspaceId x,
       crc_agentId = ow_agentId worker, crc_agentVersionId = as_targetVersionId x, crc_input = as_input x,
       crc_idempotencyKey = Some (assignmentRunIdempotencyKey (as_id x)), crc_evaluationRunId = None,
       crc_evaluationCaseId = None, crc_restrictPersistentMemory = None, crc_now = now \<rparr>"

definition createAssignmentRun ::
    "assignment \<Rightarrow> office_worker \<Rightarrow> string \<Rightarrow> string \<Rightarrow> js_date \<Rightarrow> ('w, run) act" where
  "createAssignmentRun x worker runId attemptId now =
     act_catch (createRunAwaiting (assignment_command x worker runId attemptId now))
       (\<lambda>e. if domain_error_mentions ''idempotency key'' e
            then act_then (reading (\<lambda>f. findRunByWorkspaceIdempotencyKey (run_store_of f) (as_workspaceId x)
                (assignmentRunIdempotencyKey (as_id x)))) (persisted e)
            else case e of
              EnqueueFailedError createdId createdAttemptId \<Rightarrow>
                act_then (reading (\<lambda>f. findRunById (run_store_of f) createdId)) (persisted e)
            | _ \<Rightarrow> lift_act (Inl e))"

definition findAssignmentRun :: "assignment \<Rightarrow> ('w, run option) act" where
  "findAssignmentRun x =
     act_then
       (case as_runId x of None \<Rightarrow> give None | Some i \<Rightarrow> reading (\<lambda>f. findRunById (run_store_of f) i)) (\<lambda>recorded.
       case recorded of
         Some run \<Rightarrow> give (Some run)
       | None \<Rightarrow> reading (\<lambda>f. findRunByWorkspaceIdempotencyKey (run_store_of f) (as_workspaceId x)
           (assignmentRunIdempotencyKey (as_id x))))"

text \<open>The end of both kinds of launch. An assignment that runs already is written without looking at its row.\<close>

definition storeLaunched :: "assignment \<Rightarrow> assignment \<Rightarrow> js_date \<Rightarrow> ('w, assignment) act" where
  "storeLaunched x launched now =
     act_then
       (if as_status x = As_PENDING then transitionAssignment (as_status x) launched
        else act_then (on_office (postgres_updateAssignment launched)) (persisted (NotFoundError ''Assignment'' (as_id x))))
       (\<lambda>y. reconcileAssignment (as_id y) now)"

definition launchAgentAssignment :: "assignment \<Rightarrow> string \<Rightarrow> string \<Rightarrow> js_date \<Rightarrow> ('w, assignment) act" where
  "launchAgentAssignment x runId attemptId now =
     found (DomainInvariantError (''Assignment '' @ as_id x @ '' references missing OfficeWorker ''
         @ as_officeWorkerId x @ ''.''))
       (\<lambda>f. findOfficeWorkerById (fl_office f) (as_officeWorkerId x)) (\<lambda>worker.
     act_then (findAssignmentRun x) (\<lambda>existing.
     act_then (case existing of Some run \<Rightarrow> give run | None \<Rightarrow> createAssignmentRun x worker runId attemptId now) (\<lambda>run.
     act_then (lift_act (Assignment_markLaunched x (Some (r_id run)) None now)) (\<lambda>launched.
       storeLaunched x launched now))))"

definition createAssignmentWorkflowRun :: "assignment \<Rightarrow> string \<Rightarrow> js_date \<Rightarrow> ('w, workflow_run) act" where
  "createAssignmentWorkflowRun x workflowRunId now =
     found (DomainInvariantError (''Assignment '' @ as_id x @ '' references missing WorkflowVersion ''
         @ as_targetVersionId x @ ''.''))
       (\<lambda>f. findWorkflowVersionById (fl_catalog f) (as_targetVersionId x)) (\<lambda>v.
     act_then (lift_act (WorkflowRun_create workflowRunId (as_workspaceId x) (wv_workflowId v) (wv_id v) (as_input x)
         now)) (\<lambda>w.
     act_then (on_store (no_result (saveWorkflowRun w))) (\<lambda>u. give w)))"

definition launchWorkflowAssignment :: "assignment \<Rightarrow> string \<Rightarrow> js_date \<Rightarrow> ('w, assignment) act" where
  "launchWorkflowAssignment x workflowRunId now =
     act_then (case as_workflowRunId x of None \<Rightarrow> give None
         | Some i \<Rightarrow> reading (\<lambda>f. findWorkflowRunById (fl_store f) i)) (\<lambda>recorded.
     act_then (case recorded of Some w \<Rightarrow> give w | None \<Rightarrow> createAssignmentWorkflowRun x workflowRunId now) (\<lambda>w.
     act_then (lift_act (Assignment_markLaunched x None (Some (w_id w)) now)) (\<lambda>launched.
       storeLaunched x launched now)))"

definition launchAssignment ::
    "string \<Rightarrow> string \<Rightarrow> string \<Rightarrow> string \<Rightarrow> js_date \<Rightarrow> ('w, assignment) act" where
  "launchAssignment i runId attemptId workflowRunId now =
     found (NotFoundError ''Assignment'' i) (\<lambda>f. findAssignmentById (fl_office f) i) (\<lambda>x.
     if isTerminalAssignmentState (as_status x) then reconcileAssignment (as_id x) now
     else if as_targetType x = Target_AGENT_VERSION then launchAgentAssignment x runId attemptId now
     else launchWorkflowAssignment x workflowRunId now)"

subsection \<open>The routes (office-http.ts)\<close>

text \<open>
  The principal of the request, when there is one. A request with an API key comes here as soon as
  the key is known; that of a human has passed \<open>authorizeHumanControlPlaneRequest\<close>.
\<close>

definition requireControlPlaneScope :: "principal option \<Rightarrow> osva_error + principal" where
  "requireControlPlaneScope p =
     (case p of None \<Rightarrow> Inl (OtherError ''Authentication is required.'') | Some scope \<Rightarrow> Inr scope)"

definition get_assignment_route :: "principal option \<Rightarrow> string \<Rightarrow> js_date \<Rightarrow> ('w, assignment) act" where
  "get_assignment_route p i now =
     act_then (lift_act (requireControlPlaneScope p)) (\<lambda>scope. reconcileAssignment i now)"

definition launch_assignment_route :: "principal option \<Rightarrow> string \<Rightarrow> js_date \<Rightarrow> ('w, assignment) act" where
  "launch_assignment_route p i now =
     act_then (lift_act (requireControlPlaneScope p)) (\<lambda>scope.
     act_then new_id (\<lambda>runId. act_then new_id (\<lambda>attemptId. act_then new_id (\<lambda>workflowRunId.
       launchAssignment i runId attemptId workflowRunId now))))"

end
