(* ===== verification/Office_Handlers.thy ===== *)
theory Office_Handlers
  imports Office_Application Schedule_Handlers
begin

text \<open>
  The handlers around the office are harmless: what refers to something stays within its workspace,
  and the status of every assignment has its reason.
\<close>

subsection \<open>What the writes keep\<close>

lemma ends_on_office:
  assumes "stable env P"
    and "\<And>f x s. good env f \<Longrightarrow> P f \<Longrightarrow> operation (fl_office f) = Inr (x, s) \<Longrightarrow>
      good env (f\<lparr> fl_office := s \<rparr>) \<and> flow_kept f (f\<lparr> fl_office := s \<rparr>)"
  shows "harmless env P (on_office operation)"
  unfolding on_office_def using assms(2)
  by (intro ends_access [OF waits_stable [OF assms(1)]])
    (auto simp: grants_refl intro!: grants_store split: sum.splits prod.splits)

lemma flow_kept_office: "flow_kept f g \<Longrightarrow> office_kept (fl_office f) (fl_office g)"
  by (simp add: flow_kept_def)

lemma good_office: "good env f \<Longrightarrow> office_ok (fl_office f)"
  using good_keyed by (auto simp: flow_keyed_def)

lemma assignment_ok_office [simp]: "assignment_ok (f\<lparr> fl_office := s \<rparr>) x = assignment_ok f x"
proof -
  have "backed (f\<lparr> fl_office := s \<rparr>) x P Q = backed f x P Q" for P Q
    unfolding backed_def by (cases "as_targetType x") simp_all
  then show ?thesis unfolding assignment_ok_def assignment_reason_def by (cases "as_status x") simp_all
qed

lemma office_changed:
  assumes f: "good env f" and k: "office_kept (fl_office f) s" and s: "office_ok s"
    and new: "\<And>i x. map_of (of_assignments s) i = Some x \<Longrightarrow> map_of (of_assignments (fl_office f)) i \<noteq> Some x \<Longrightarrow>
      assignment_ok f x"
  shows "good env (f\<lparr> fl_office := s \<rparr>) \<and> flow_kept f (f\<lparr> fl_office := s \<rparr>)"
proof -
  have kept: "flow_kept f (f\<lparr> fl_office := s \<rparr>)"
    using k by (simp add: flow_kept_def entries_kept_refl wait_kept_def approval_kept_def)
  have "flow_ok (re_sha256 env) (f\<lparr> fl_office := s \<rparr>)"
    by (rule flow_okI [OF kept good_ok [OF f]])
      (use good_keyed [OF f] good_ok [OF f] s new in \<open>simp_all add: flow_keyed_def flow_ok_def\<close>)
  with kept show ?thesis by (simp add: good_def)
qed

lemma insert_row_Inr:
  "insert_row class id_of workspace_of key_of x m = Inr m' \<longleftrightarrow>
     map_of m (id_of x) = None \<and> \<not> key_taken workspace_of key_of x (map_values m) \<and> m' = AList.update (id_of x) x m"
  by (auto simp: insert_row_def)

lemma kept_new: "map_of m k = None \<Longrightarrow> (\<And>v. R v v) \<Longrightarrow> entries_kept R m (AList.update k x m)"
  by (rule entries_kept_update) simp_all

text \<open>An update changes one row at most, as the relation allows.\<close>

lemma update_row_kept:
  assumes "update_row id_of columns x m = (row, m')" and "\<And>v. R v v" and "\<And>y. id_of y = id_of x \<Longrightarrow> R y (columns x y)"
    and "\<And>i y. map_of m i = Some y \<Longrightarrow> id_of y = i"
  shows "entries_kept R m m'"
  using assms by (auto simp: update_row_def entries_kept_refl split: option.splits intro!: entries_kept_update)

lemma update_row_domain: "update_row id_of columns x m = (row, m') \<Longrightarrow> map_of m' i = Some y \<Longrightarrow> map_of m i \<noteq> None"
  by (auto simp: update_row_def split: option.splits if_splits)

lemma columns_kept: "worker_kept y (worker_columns x y)" "group_kept g (group_columns h g)"
    "goal_kept c (goal_columns d c)"
  by (simp_all add: worker_kept_def worker_columns_def group_kept_def group_columns_def goal_kept_def goal_columns_def)

lemma office_parts:
  assumes "good env f"
  shows "map_of (of_workers (fl_office f)) i = Some x \<Longrightarrow> ow_id x = i"
    "map_of (of_roles (fl_office f)) i = Some g \<Longrightarrow> og_id g = i"
    "map_of (of_teams (fl_office f)) i = Some g \<Longrightarrow> og_id g = i"
    "map_of (of_goals (fl_office f)) i = Some h \<Longrightarrow> go_id h = i"
  using good_office [OF assms] by (simp_all add: office_ok_def)

lemma update_worker_ok:
  assumes f: "good env f" and s: "postgres_updateOfficeWorker x (fl_office f) = Inr (row, s)"
  shows "good env (f\<lparr> fl_office := s \<rparr>) \<and> flow_kept f (f\<lparr> fl_office := s \<rparr>)"
proof -
  from s obtain m where m: "update_row ow_id worker_columns x (of_workers (fl_office f)) = (row, m)"
    and s': "s = (fl_office f)\<lparr> of_workers := m \<rparr>"
    by (auto simp: postgres_updateOfficeWorker_def split: prod.splits)
  have "entries_kept worker_kept (of_workers (fl_office f)) m"
    by (rule update_row_kept [OF m]) (auto simp: columns_kept office_parts [OF f])
  then have k: "office_kept (fl_office f) s" by (simp add: s' office_kept_def entries_kept_refl)
  have "office_ok s"
    by (rule office_okI [OF k good_office [OF f]]) (use update_row_domain [OF m] in \<open>auto simp: s'\<close>)
  with k show ?thesis by (intro office_changed [OF f]) (simp_all add: s')
qed

lemma update_role_ok:
  assumes f: "good env f" and s: "postgres_updateRole x (fl_office f) = Inr (row, s)"
  shows "good env (f\<lparr> fl_office := s \<rparr>) \<and> flow_kept f (f\<lparr> fl_office := s \<rparr>)"
proof -
  from s obtain m where m: "update_row og_id group_columns x (of_roles (fl_office f)) = (row, m)"
    and s': "s = (fl_office f)\<lparr> of_roles := m \<rparr>"
    by (auto simp: postgres_updateRole_def split: prod.splits)
  have "entries_kept group_kept (of_roles (fl_office f)) m"
    by (rule update_row_kept [OF m]) (auto simp: columns_kept office_parts [OF f])
  then have k: "office_kept (fl_office f) s" by (simp add: s' office_kept_def entries_kept_refl)
  have "office_ok s"
    by (rule office_okI [OF k good_office [OF f]]) (use update_row_domain [OF m] in \<open>auto simp: s'\<close>)
  with k show ?thesis by (intro office_changed [OF f]) (simp_all add: s')
qed

lemma update_team_ok:
  assumes f: "good env f" and s: "postgres_updateTeam x (fl_office f) = Inr (row, s)"
  shows "good env (f\<lparr> fl_office := s \<rparr>) \<and> flow_kept f (f\<lparr> fl_office := s \<rparr>)"
proof -
  from s obtain m where m: "update_row og_id group_columns x (of_teams (fl_office f)) = (row, m)"
    and s': "s = (fl_office f)\<lparr> of_teams := m \<rparr>"
    by (auto simp: postgres_updateTeam_def split: prod.splits)
  have "entries_kept group_kept (of_teams (fl_office f)) m"
    by (rule update_row_kept [OF m]) (auto simp: columns_kept office_parts [OF f])
  then have k: "office_kept (fl_office f) s" by (simp add: s' office_kept_def entries_kept_refl)
  have "office_ok s"
    by (rule office_okI [OF k good_office [OF f]]) (use update_row_domain [OF m] in \<open>auto simp: s'\<close>)
  with k show ?thesis by (intro office_changed [OF f]) (simp_all add: s')
qed

lemma update_goal_ok:
  assumes f: "good env f" and s: "postgres_updateGoal x (fl_office f) = Inr (row, s)"
  shows "good env (f\<lparr> fl_office := s \<rparr>) \<and> flow_kept f (f\<lparr> fl_office := s \<rparr>)"
proof -
  from s obtain m where m: "update_row go_id goal_columns x (of_goals (fl_office f)) = (row, m)"
    and s': "s = (fl_office f)\<lparr> of_goals := m \<rparr>"
    by (auto simp: postgres_updateGoal_def split: prod.splits)
  have "entries_kept goal_kept (of_goals (fl_office f)) m"
    by (rule update_row_kept [OF m]) (auto simp: columns_kept office_parts [OF f])
  then have k: "office_kept (fl_office f) s" by (simp add: s' office_kept_def entries_kept_refl)
  have "office_ok s"
    by (rule office_okI [OF k good_office [OF f]]) (use update_row_domain [OF m] in \<open>auto simp: s'\<close>)
  with k show ?thesis by (intro office_changed [OF f]) (simp_all add: s')
qed

lemma save_entity_ok:
  assumes f: "good env f"
    and s: "postgres_saveOfficeWorker w (fl_office f) = Inr s \<or> postgres_saveRole r (fl_office f) = Inr s
      \<or> postgres_saveTeam t (fl_office f) = Inr s \<or> postgres_saveGoal g (fl_office f) = Inr s"
  shows "good env (f\<lparr> fl_office := s \<rparr>) \<and> flow_kept f (f\<lparr> fl_office := s \<rparr>)"
proof -
  note defs = postgres_saveOfficeWorker_def postgres_saveRole_def postgres_saveTeam_def postgres_saveGoal_def
    and_then_Inr insert_row_Inr
  have k: "office_kept (fl_office f) s"
    using s by (auto simp: defs office_kept_def entries_kept_refl intro!: kept_new)
  have "office_ok s"
    by (rule office_okI [OF k good_office [OF f]]) (use s in \<open>auto simp: defs split: if_splits\<close>)
  with k show ?thesis by (intro office_changed [OF f]) (use s in \<open>auto simp: defs\<close>)
qed

lemma save_membership_ok:
  assumes f: "good env f" and m: "membership_refs (fl_office f) m"
    and s: "postgres_addTeamMembership m (fl_office f) = Inr s"
  shows "good env (f\<lparr> fl_office := s \<rparr>) \<and> flow_kept f (f\<lparr> fl_office := s \<rparr>)"
proof -
  from s have n: "map_of (of_memberships (fl_office f)) (tm_teamId m, tm_officeWorkerId m) = None"
    and s': "s = (fl_office f)\<lparr> of_memberships := AList.update (tm_teamId m, tm_officeWorkerId m) m
      (of_memberships (fl_office f)) \<rparr>"
    by (auto simp: postgres_addTeamMembership_def Let_def split: if_splits)
  have k: "office_kept (fl_office f) s" using n by (simp add: s' office_kept_def entries_kept_refl kept_new)
  have "office_ok s"
    by (rule office_okI [OF k good_office [OF f]])
      (use refs_kept(1) [OF k m] in \<open>auto simp: s' split: if_splits\<close>)
  with k show ?thesis by (intro office_changed [OF f]) (simp_all add: s')
qed

subsection \<open>Assertions about the office\<close>

lemma stable_in [stable_facts]:
  "stable env (\<lambda>f. worker_in (fl_office f) w i)" "stable env (\<lambda>f. role_in (fl_office f) w i)"
  "stable env (\<lambda>f. team_in (fl_office f) w i)" "stable env (\<lambda>f. goal_in (fl_office f) w i)"
  by (rule stableI, drule flow_kept_office, erule (1) in_kept)+

lemma in_workspace_Some: "in_workspace workspace_of w r = Some x \<longleftrightarrow> r = Some x \<and> workspace_of x = w"
  by (auto simp: in_workspace_def split: option.splits if_splits)

text \<open>An assignment somebody has read, or made of one that was read.\<close>

definition assignment_copy :: "assignment \<Rightarrow> 'w flow \<Rightarrow> bool" where
  "assignment_copy x f \<longleftrightarrow> assignment_ok f x \<and> assignment_refs (fl_office f) x
     \<and> (\<exists>y. map_of (of_assignments (fl_office f)) (as_id x) = Some y \<and> assignment_kept y x)"

lemma stable_assignment_copy [stable_facts]: "stable env (assignment_copy x)"
proof (rule stableI)
  fix f g :: "'a flow" assume k: "flow_kept f g" and x: "assignment_copy x f"
  then obtain y where y: "map_of (of_assignments (fl_office f)) (as_id x) = Some y" "assignment_kept y x"
    by (auto simp: assignment_copy_def)
  have "entries_kept assignment_kept (of_assignments (fl_office f)) (of_assignments (fl_office g))"
    using flow_kept_office [OF k] by (simp add: office_kept_def)
  from entries_keptD [OF this y(1)] obtain z where
    "map_of (of_assignments (fl_office g)) (as_id x) = Some z" "assignment_kept y z" by blast
  with y(2) x assignment_ok_kept [OF k] refs_kept(2) [OF flow_kept_office [OF k]] show "assignment_copy x g"
    by (auto simp: assignment_copy_def assignment_kept_def)
qed

lemma assignment_here:
  assumes "good env f" "map_of (of_assignments (fl_office f)) i = Some x"
  shows "assignment_copy x f \<and> as_id x = i"
proof -
  from good_office [OF assms(1)] assms(2) have "as_id x = i" "assignment_refs (fl_office f) x"
    by (simp_all add: office_ok_def)
  moreover have "assignment_ok f x" using good_ok [OF assms(1)] assms(2) by (simp add: flow_ok_def)
  ultimately show ?thesis using assms(2) by (auto simp: assignment_copy_def)
qed

lemma put_assignment_ok:
  assumes f: "good env f" and y: "map_of (of_assignments (fl_office f)) (as_id z) = Some y" "assignment_kept y z"
    and z: "assignment_ok f z" "assignment_refs (fl_office f) z"
    and s: "s = (fl_office f)\<lparr> of_assignments := AList.update (as_id z) z (of_assignments (fl_office f)) \<rparr>"
  shows "good env (f\<lparr> fl_office := s \<rparr>) \<and> flow_kept f (f\<lparr> fl_office := s \<rparr>)"
proof -
  have k: "office_kept (fl_office f) s"
    using y by (auto simp: s office_kept_def entries_kept_refl intro!: entries_kept_update)
  have "office_ok s"
    by (rule office_okI [OF k good_office [OF f]])
      (use y refs_kept(2) [OF k z(2)] in \<open>auto simp: s split: if_splits\<close>)
  with k show ?thesis by (intro office_changed [OF f]) (use z(1) in \<open>auto simp: s split: if_splits\<close>)
qed

text \<open>The reasons of an assignment do not depend on its texts and its later dates.\<close>

lemma assignment_reason_cong:
  assumes "as_id z = as_id x" "as_workspaceId z = as_workspaceId x" "as_targetType z = as_targetType x"
    "as_targetVersionId z = as_targetVersionId x" "as_runId z = as_runId x" "as_workflowRunId z = as_workflowRunId x"
    "as_startedAt z = as_startedAt x"
  shows "assignment_reason f z s = assignment_reason f x s"
  using assms by (simp add: assignment_reason_def backed_def not_launched_def assignment_run_def
      assignment_workflow_run_def cong: assignment_target.case_cong assignment_state.case_cong)

lemma lifecycle_columns_ok:
  assumes "assignment_kept y x" "assignment_ok f x"
  shows "assignment_ok f (lifecycle_columns x y) \<and> assignment_kept y (lifecycle_columns x y)"
  using assms assignment_reason_cong [of "lifecycle_columns x y" x f]
  by (simp add: assignment_ok_def assignment_kept_def lifecycle_columns_def)

lemma transition_ok:
  assumes f: "good env f" and x: "assignment_copy x f"
    and s: "postgres_transitionAssignment e x (fl_office f) = Inr (row, s)"
  shows "good env (f\<lparr> fl_office := s \<rparr>) \<and> flow_kept f (f\<lparr> fl_office := s \<rparr>)"
proof -
  from x obtain y where y: "map_of (of_assignments (fl_office f)) (as_id x) = Some y" "assignment_kept y x"
    by (auto simp: assignment_copy_def)
  let ?z = "lifecycle_columns x y"
  show ?thesis
  proof (cases "as_status y = e")
    case True
    have "assignment_ok f x" using x by (simp add: assignment_copy_def)
    note ok = conjunct1 [OF lifecycle_columns_ok [OF y(2) this]] conjunct2 [OF lifecycle_columns_ok [OF y(2) this]]
    have z: "as_id ?z = as_id x" "as_goalId ?z = as_goalId y"
      using y(2) by (simp_all add: lifecycle_columns_def assignment_kept_def)
    have r: "assignment_refs (fl_office f) ?z"
      using assignment_here [OF f y(1)] z(2) ok(2) by (simp add: assignment_copy_def assignment_refs_def assignment_kept_def)
    show ?thesis
      by (rule put_assignment_ok [OF f, of ?z y]) (use s y z ok r True in \<open>auto simp: postgres_transitionAssignment_def Let_def\<close>)
  next
    case False
    with s y(1) f show ?thesis by (auto simp: postgres_transitionAssignment_def)
  qed
qed

lemma update_assignment_ok:
  assumes f: "good env f" and x: "assignment_copy x f"
    and s: "postgres_updateAssignment x (fl_office f) = Inr (row, s)"
  shows "good env (f\<lparr> fl_office := s \<rparr>) \<and> flow_kept f (f\<lparr> fl_office := s \<rparr>)"
proof -
  from x obtain y where y: "map_of (of_assignments (fl_office f)) (as_id x) = Some y" "assignment_kept y x"
    by (auto simp: assignment_copy_def)
  with s have s': "s = (fl_office f)\<lparr> of_assignments := AList.update (as_id x) x (of_assignments (fl_office f)) \<rparr>"
    by (auto simp: postgres_updateAssignment_def update_row_def columns_same)
  show ?thesis by (rule put_assignment_ok [OF f y _ _ s']) (use x in \<open>simp_all add: assignment_copy_def\<close>)
qed

subsection \<open>What the entities do\<close>

lemma Assignment_rehydrate_Inr: "Assignment_rehydrate p = Inr x \<Longrightarrow> x = p"
  by (auto simp: Assignment_rehydrate_def result_simps and_then_Inr split: if_splits)

lemma Assignment_create_Inr:
  assumes "Assignment_create p = Inr x"
  shows "as_id x = as_id p \<and> as_workspaceId x = as_workspaceId p \<and> as_officeWorkerId x = as_officeWorkerId p
    \<and> as_goalId x = as_goalId p \<and> as_status x = As_PENDING \<and> not_launched x \<and> \<not> uses_proto (as_input x)"
  using assms by (auto simp: Assignment_create_def result_simps and_then_Inr not_launched_def split: if_splits
      dest: copyCanonicalJsonValue_no_proto)

lemma Assignment_update_Inr:
  assumes "Assignment_update x title description goal = Inr y"
  shows "\<exists>t d. y = x\<lparr> as_title := t, as_description := d, as_goalId := (case goal of Goal_unchanged \<Rightarrow> as_goalId x
      | Goal_removed \<Rightarrow> None | Goal_set g \<Rightarrow> Some g) \<rparr>"
  using assms by (auto simp: Assignment_update_def and_then_Inr split: if_splits dest!: Assignment_rehydrate_Inr)

lemma Assignment_markLaunched_Inr:
  assumes "Assignment_markLaunched x r w now = Inr y"
  shows "(as_status x = As_PENDING \<or> as_status x = As_RUNNING) \<and> y = x\<lparr> as_status := As_RUNNING,
      as_runId := or_else r (as_runId x), as_workflowRunId := or_else w (as_workflowRunId x),
      as_startedAt := or_else (as_startedAt x) (Some now) \<rparr>"
  using assms by (auto simp: Assignment_markLaunched_def Let_def result_simps and_then_Inr after_check_Inr
      split: if_splits dest!: Assignment_rehydrate_Inr)

lemma Assignment_transitionTo_Inr:
  assumes "Assignment_transitionTo x s now c d = Inr y" "s \<noteq> as_status x"
  shows "\<exists>t u. y = x\<lparr> as_status := s, as_completedAt := t, as_cancelledAt := u \<rparr>"
  using assms by (auto simp: Assignment_transitionTo_def after_check_Inr dest!: Assignment_rehydrate_Inr)

lemma Assignment_cancel_Inr:
  assumes "Assignment_cancel x now = Inr y" "as_status x = As_PENDING"
  shows "\<exists>t u. y = x\<lparr> as_status := As_CANCELLED, as_completedAt := t, as_cancelledAt := u \<rparr>"
  using assms Assignment_transitionTo_Inr [of x As_CANCELLED now None "Some now" y]
  by (simp add: Assignment_cancel_def isTerminalAssignmentState_def TERMINAL_ASSIGNMENT_STATES_def)

text \<open>A copy with another status, for which there is a reason.\<close>

lemma copy_with_status:
  assumes x: "assignment_copy x f" and y: "y = x\<lparr> as_status := s, as_completedAt := t, as_cancelledAt := u \<rparr>"
    and r: "assignment_reason f x s"
  shows "assignment_copy y f"
  using x r assignment_reason_cong [of y x f s]
  by (simp add: y assignment_copy_def assignment_ok_def assignment_kept_def assignment_refs_def)

lemma copy_updated:
  assumes x: "assignment_copy x f" and y: "Assignment_update x title description goal = Inr y"
    and g: "\<And>i. goal = Goal_set i \<Longrightarrow> goal_in (fl_office f) (as_workspaceId x) i"
  shows "assignment_copy y f"
proof -
  from Assignment_update_Inr [OF y] obtain t d where y': "y = x\<lparr> as_title := t, as_description := d,
      as_goalId := (case goal of Goal_unchanged \<Rightarrow> as_goalId x | Goal_removed \<Rightarrow> None | Goal_set g \<Rightarrow> Some g) \<rparr>" by blast
  have "assignment_refs (fl_office f) y"
    using x g by (cases goal) (simp_all add: y' assignment_copy_def assignment_refs_def)
  with x assignment_reason_cong [of y x f "as_status x"] show ?thesis
    by (simp add: y' assignment_copy_def assignment_ok_def assignment_kept_def)
qed

lemma copy_launched_agent:
  assumes f: "good env f" and x: "assignment_copy x f" "as_targetType x = Target_AGENT_VERSION"
    and k: "key_seen (workspaceIdempotencyKey (as_workspaceId x) (assignmentRunIdempotencyKey (as_id x))) i f"
    and y: "Assignment_markLaunched x (Some i) None now = Inr y"
  shows "assignment_copy y f"
proof -
  note y' = Assignment_markLaunched_Inr [OF y]
  from k obtain r where r: "findRunById (run_store_of f) i = Some r"
    "run_key r = Some (workspaceIdempotencyKey (as_workspaceId x) (assignmentRunIdempotencyKey (as_id x)))"
    by (auto simp: key_seen_def)
  have id: "r_id r = i" using run_by_id [OF f r(1)] by simp
  have w: "as_workflowRunId x = None"
    using x y' by (auto simp: assignment_copy_def assignment_ok_def assignment_reason_def not_launched_def backed_def)
  have "assignment_run (run_store_of f) y r" using r id y' by (simp add: assignment_run_def)
  then have "assignment_reason f y As_RUNNING"
    using y' w x(2) by (auto simp: assignment_reason_def backed_def or_else_def split: option.splits)
  with x y' show ?thesis by (auto simp: assignment_copy_def assignment_ok_def assignment_kept_def assignment_refs_def)
qed

definition workflow_run_seen :: "assignment \<Rightarrow> string \<Rightarrow> 'w flow \<Rightarrow> bool" where
  "workflow_run_seen x i f \<longleftrightarrow> (\<exists>w. findWorkflowRunById (fl_store f) i = Some w \<and> w_id w = i
     \<and> w_workspaceId w = as_workspaceId x \<and> w_workflowVersionId w = as_targetVersionId x)"

lemma stable_workflow_run_seen [stable_facts]: "stable env (workflow_run_seen x i)"
  by (rule stableI) (auto simp: workflow_run_seen_def wrun_kept_def dest!: flow_kept_wrun)

lemma copy_launched_workflow:
  assumes x: "assignment_copy x f" "as_targetType x = Target_WORKFLOW_VERSION" and k: "workflow_run_seen x i f"
    and y: "Assignment_markLaunched x None (Some i) now = Inr y"
  shows "assignment_copy y f"
proof -
  note y' = Assignment_markLaunched_Inr [OF y]
  from k obtain w where w: "findWorkflowRunById (fl_store f) i = Some w" "w_id w = i"
    "w_workspaceId w = as_workspaceId x" "w_workflowVersionId w = as_targetVersionId x"
    by (auto simp: workflow_run_seen_def)
  have r: "as_runId x = None"
    using x y' by (auto simp: assignment_copy_def assignment_ok_def assignment_reason_def not_launched_def backed_def)
  have "assignment_workflow_run (fl_store f) y w" using w y' by (simp add: assignment_workflow_run_def)
  then have "assignment_reason f y As_RUNNING"
    using y' r x(2) by (auto simp: assignment_reason_def backed_def or_else_def split: option.splits)
  with x y' show ?thesis by (auto simp: assignment_copy_def assignment_ok_def assignment_kept_def assignment_refs_def)
qed

subsection \<open>Transitions and reconciliation\<close>

lemma harmless_persisted: "harmless env P (persisted missing row)"
  unfolding persisted_def by (intro ends_case_option ends_throw ends_give TrueI)

lemma harmless_transitionAssignment:
  assumes P: "stable env P" and x: "\<And>f. good env f \<Longrightarrow> P f \<Longrightarrow> assignment_copy x f"
  shows "harmless env P (transitionAssignment e x)"
  unfolding transitionAssignment_def
  by (intro harmless_check_then harmless_then ends_on_office P ends_case_option ends_give harmless_found ends_throw TrueI)
    (rule transition_ok [OF _ x], assumption+)

definition derived_ok :: "assignment \<Rightarrow> assignment_state \<Rightarrow> 'w flow \<Rightarrow> bool" where
  "derived_ok x d f \<longleftrightarrow> d = as_status x \<or> assignment_reason f x d"

lemma stable_derived_ok [stable_facts]: "stable env (derived_ok x d)"
  by (rule stableI) (auto simp: derived_ok_def dest: assignment_reason_kept)

lemma backed_mono:
  "backed f x P Q \<Longrightarrow> (\<And>r. assignment_run (run_store_of f) x r \<Longrightarrow> P (r_status r) \<Longrightarrow> P' (r_status r)) \<Longrightarrow>
     (\<And>w. assignment_workflow_run (fl_store f) x w \<Longrightarrow> Q (w_status w) \<Longrightarrow> Q' (w_status w)) \<Longrightarrow> backed f x P' Q'"
  by (auto simp: backed_def split: assignment_target.splits)

lemma derived_from_run:
  assumes x: "assignment_copy x f" "as_status x = As_RUNNING" "as_targetType x = Target_AGENT_VERSION"
    and r: "as_runId x = Some i" "findRunById (run_store_of f) i = Some r"
  shows "derived_ok x (status_of_run (as_status x) (r_status r)) f"
proof -
  have b: "backed f x (\<lambda>s. True) (\<lambda>s. True)"
    using x by (simp add: assignment_copy_def assignment_ok_def assignment_reason_def)
  have same: "r' = r" if "assignment_run (run_store_of f) x r'" for r'
    using that r by (auto simp: assignment_run_def)
  have "backed f x (\<lambda>s. s = r_status r) (\<lambda>s. False)"
    using b x(3) same by (auto simp: backed_def)
  then show ?thesis
    using x(2) by (cases "r_status r") (auto simp: derived_ok_def assignment_reason_def elim!: backed_mono)
qed

lemma derived_from_workflow_run:
  assumes x: "assignment_copy x f" "as_status x = As_RUNNING" "as_targetType x = Target_WORKFLOW_VERSION"
    and w: "as_workflowRunId x = Some i" "findWorkflowRunById (fl_store f) i = Some w"
  shows "derived_ok x (status_of_workflow_run (as_status x) (w_status w)) f"
proof -
  have b: "backed f x (\<lambda>s. True) (\<lambda>s. True)"
    using x by (simp add: assignment_copy_def assignment_ok_def assignment_reason_def)
  have same: "w' = w" if "assignment_workflow_run (fl_store f) x w'" for w'
    using that w by (auto simp: assignment_workflow_run_def)
  have "backed f x (\<lambda>s. False) (\<lambda>s. s = w_status w)"
    using b x(3) same by (auto simp: backed_def)
  then show ?thesis
    using x(2) by (cases "w_status w") (auto simp: derived_ok_def assignment_reason_def elim!: backed_mono)
qed

lemma pending_without_runs:
  "assignment_copy x f \<Longrightarrow> as_status x = As_PENDING \<Longrightarrow> as_runId x = None \<and> as_workflowRunId x = None"
  by (simp add: assignment_copy_def assignment_ok_def assignment_reason_def not_launched_def)

lemma running_status:
  "\<not> isTerminalAssignmentState s \<Longrightarrow> s = As_PENDING \<or> s = As_RUNNING"
  by (cases s) (auto simp: isTerminalAssignmentState_def TERMINAL_ASSIGNMENT_STATES_def)

lemma ends_deriveStatus:
  assumes P: "stable env P" and x: "\<And>f. good env f \<Longrightarrow> P f \<Longrightarrow> assignment_copy x f"
    and s: "\<not> isTerminalAssignmentState (as_status x)"
  shows "safe env P (deriveStatus x) (derived_ok x)"
proof -
  have same: "derived_ok x (as_status x) f" for f :: "'a flow" by (simp add: derived_ok_def)
  have r: "derived_ok x (case findRunById (run_store_of f) i of None \<Rightarrow> as_status x
      | Some run \<Rightarrow> status_of_run (as_status x) (r_status run)) f"
    if "good env f" "P f" "as_targetType x = Target_AGENT_VERSION" "as_runId x = Some i" for f i
    using derived_from_run [OF x [OF that(1,2)] _ that(3,4)] running_status [OF s]
      pending_without_runs [OF x [OF that(1,2)]] that(4) same by (auto split: option.split)
  have w: "derived_ok x (case findWorkflowRunById (fl_store f) i of None \<Rightarrow> as_status x
      | Some w \<Rightarrow> status_of_workflow_run (as_status x) (w_status w)) f"
    if "good env f" "P f" "as_targetType x = Target_WORKFLOW_VERSION" "as_workflowRunId x = Some i" for f i
    using derived_from_workflow_run [OF x [OF that(1,2)] _ that(3,4)] running_status [OF s]
      pending_without_runs [OF x [OF that(1,2)]] that(4) same by (auto split: option.split)
  show ?thesis
    unfolding deriveStatus_def
    by (cases "as_targetType x"; simp) (intro ends_case_option ends_give ends_reading P same r w; assumption)+
qed

lemma harmless_reconcileAssignment: "stable env P \<Longrightarrow> harmless env P (reconcileAssignment i now)"
  unfolding reconcileAssignment_def
proof (rule harmless_found_seen [where R = assignment_copy])
  fix x
  assume P: "stable env P"
  let ?P = "\<lambda>f. P f \<and> assignment_copy x f"
  have st: "stable env ?P" by (intro stable_facts P)
  show "harmless env ?P (if isTerminalAssignmentState (as_status x) then give x
     else act_then (deriveStatus x) (\<lambda>derived.
       if derived = as_status x then give x
       else act_then (lift_act (Assignment_transitionTo x derived now
           (if derived = As_COMPLETED then Some now else as_completedAt x)
           (if derived = As_CANCELLED then Some now else as_cancelledAt x))) (\<lambda>y.
         transitionAssignment (as_status x) y)))"
  proof (intro ends_if ends_give TrueI)
    assume s: "\<not> isTerminalAssignmentState (as_status x)"
    show "harmless env ?P (act_then (deriveStatus x) (\<lambda>derived.
       if derived = as_status x then give x
       else act_then (lift_act (Assignment_transitionTo x derived now
           (if derived = As_COMPLETED then Some now else as_completedAt x)
           (if derived = As_CANCELLED then Some now else as_cancelledAt x))) (\<lambda>y.
         transitionAssignment (as_status x) y)))"
    proof (rule ends_then [OF ends_deriveStatus [OF st _ s] _ st])
      fix d
      let ?Q = "\<lambda>f. ?P f \<and> derived_ok x d f"
      have sq: "stable env ?Q" by (intro stable_facts P)
      show "harmless env ?Q (if d = as_status x then give x
         else act_then (lift_act (Assignment_transitionTo x d now
             (if d = As_COMPLETED then Some now else as_completedAt x)
             (if d = As_CANCELLED then Some now else as_cancelledAt x))) (\<lambda>y.
           transitionAssignment (as_status x) y))"
      proof (intro ends_if ends_give TrueI ends_lift_then harmless_transitionAssignment [OF sq])
        fix y f assume d: "d \<noteq> as_status x" and y: "Assignment_transitionTo x d now
             (if d = As_COMPLETED then Some now else as_completedAt x)
             (if d = As_CANCELLED then Some now else as_cancelledAt x) = Inr y" and f: "?Q f"
        from Assignment_transitionTo_Inr [OF y d] obtain t u where
          y': "y = x\<lparr> as_status := d, as_completedAt := t, as_cancelledAt := u \<rparr>" by blast
        show "assignment_copy y f" by (rule copy_with_status [OF _ y']) (use f d in \<open>simp_all add: derived_ok_def\<close>)
      qed
    qed simp
  qed
qed (auto simp: findAssignmentById_def stable_facts dest: assignment_here)

subsection \<open>Launching\<close>

lemma harmless_storeLaunched:
  assumes P: "stable env P" and y: "\<And>f. good env f \<Longrightarrow> P f \<Longrightarrow> assignment_copy y f"
  shows "harmless env P (storeLaunched x y now)"
  unfolding storeLaunched_def
proof (intro harmless_then ends_if harmless_transitionAssignment harmless_reconcileAssignment ends_on_office
    harmless_persisted P y)
  fix f :: "'a flow" and row s
  assume "good env f" "P f" "postgres_updateAssignment y (fl_office f) = Inr (row, s)"
  then show "good env (f\<lparr> fl_office := s \<rparr>) \<and> flow_kept f (f\<lparr> fl_office := s \<rparr>)"
    using update_assignment_ok y by blast
qed

definition key_option :: "string \<Rightarrow> run option \<Rightarrow> 'w flow \<Rightarrow> bool" where
  "key_option k r f \<longleftrightarrow> (\<forall>run. r = Some run \<longrightarrow> key_seen k (r_id run) f)"

lemma stable_key_option [stable_facts]: "stable env (key_option k r)"
  unfolding key_option_def [abs_def] by (rule stableI) (auto dest: stableD [OF stable_key_seen])

lemma ends_use_run:
  assumes P: "stable env P" and R: "\<And>f. good env f \<Longrightarrow> P f \<Longrightarrow> key_option k (sel f) f"
  shows "safe env P (act_then (reading sel) (persisted e)) (\<lambda>run. key_seen k (r_id run))"
proof (rule ends_reading_then [where R = "key_option k", OF P R])
  fix r
  show "safe env (\<lambda>f. P f \<and> key_option k r f) (persisted e r) (\<lambda>run. key_seen k (r_id run))"
    unfolding persisted_def by (intro ends_case_option ends_give ends_throw) (simp_all add: key_option_def)
qed

lemma ends_createAssignmentRun:
  assumes env: "env_ok env" and P: "stable env P" and input: "\<not> uses_proto (as_input x)"
  shows "safe env P (createAssignmentRun x worker runId attemptId now)
    (\<lambda>run. key_seen (workspaceIdempotencyKey (as_workspaceId x) (assignmentRunIdempotencyKey (as_id x))) (r_id run))"
    (is "safe env P _ (\<lambda>run. key_seen ?k (r_id run))")
  unfolding createAssignmentRun_def
proof (rule ends_catch_failure [where P = P, OF _ _ P])
  let ?c = "assignment_command x worker runId attemptId now"
  have "ends env P (createRunAwaiting ?c) (\<lambda>run f. key_seen ?k (r_id run) f \<and> left_pending (r_id run) f)
      (queue_failure (Some ?k))"
    by (rule ends_createRunAwaiting [OF env P])
      (use input in \<open>simp_all add: run_key_of_def assignment_command_def\<close>)
  then show "ends env P (createRunAwaiting ?c) (\<lambda>run. key_seen ?k (r_id run)) (queue_failure (Some ?k))"
    by (rule ends_weaken) simp_all
next
  fix e
  let ?P = "\<lambda>f. P f \<and> queue_failure (Some ?k) e f"
  have st: "stable env ?P" by (intro stable_facts P)
  show "safe env ?P (if domain_error_mentions ''idempotency key'' e
        then act_then (reading (\<lambda>f. findRunByWorkspaceIdempotencyKey (run_store_of f) (as_workspaceId x)
            (assignmentRunIdempotencyKey (as_id x)))) (persisted e)
        else case e of
          EnqueueFailedError createdId createdAttemptId \<Rightarrow>
            act_then (reading (\<lambda>f. findRunById (run_store_of f) createdId)) (persisted e)
        | _ \<Rightarrow> lift_act (Inl e)) (\<lambda>run. key_seen ?k (r_id run))"
  proof (intro ends_if ends_use_run [OF st], goal_cases)
    case (1 f)
    then show ?case by (auto simp: key_option_def dest: indexed_child)
  next
    case 2
    show ?case
    proof (cases e)
      case (EnqueueFailedError c c')
      have "key_option ?k (findRunById (run_store_of f) c) f" if "good env f" "?P f" for f
        using that run_by_id [OF that(1)] by (auto simp: EnqueueFailedError key_option_def queue_failure_def)
      from ends_use_run [OF st this] show ?thesis unfolding EnqueueFailedError by simp
    qed (auto intro: ends_throw)
  qed
qed (auto simp: queue_failure_def driver_error_def)

lemma copy_run_seen:
  assumes f: "good env f" and x: "assignment_copy x f" "as_targetType x = Target_AGENT_VERSION" "as_runId x = Some i"
    and r: "findRunById (run_store_of f) i = Some r"
  shows "key_seen (workspaceIdempotencyKey (as_workspaceId x) (assignmentRunIdempotencyKey (as_id x))) (r_id r) f"
proof -
  have "\<not> not_launched x" using x(3) by (simp add: not_launched_def)
  with x(1) obtain P Q where "backed f x P Q"
    by (cases "as_status x") (auto simp: assignment_copy_def assignment_ok_def assignment_reason_def)
  with x(2) obtain q where "assignment_run (run_store_of f) x q" by (auto simp: backed_def)
  with x(3) r run_by_id [OF f r] show ?thesis by (auto simp: assignment_run_def key_seen_def)
qed

lemma ends_findAssignmentRun:
  assumes P: "stable env P" and x: "\<And>f. good env f \<Longrightarrow> P f \<Longrightarrow> assignment_copy x f"
    and t: "as_targetType x = Target_AGENT_VERSION"
  shows "safe env P (findAssignmentRun x)
    (key_option (workspaceIdempotencyKey (as_workspaceId x) (assignmentRunIdempotencyKey (as_id x))))"
    (is "safe env P _ (key_option ?k)")
  unfolding findAssignmentRun_def
proof (rule ends_then [OF _ _ P])
  show "safe env P (case as_runId x of None \<Rightarrow> give None
      | Some i \<Rightarrow> reading (\<lambda>f. findRunById (run_store_of f) i)) (key_option ?k)"
  proof (cases "as_runId x")
    case (Some i)
    have "key_option ?k (findRunById (run_store_of f) i) f" if "good env f" "P f" for f
      using copy_run_seen [OF that(1) x [OF that] t Some] by (auto simp: key_option_def)
    then show ?thesis by (simp add: Some ends_reading [OF P])
  qed (simp add: ends_give key_option_def)
next
  fix recorded
  show "safe env (\<lambda>f. P f \<and> key_option ?k recorded f) (case recorded of
      Some run \<Rightarrow> give (Some run)
    | None \<Rightarrow> reading (\<lambda>f. findRunByWorkspaceIdempotencyKey (run_store_of f) (as_workspaceId x)
        (assignmentRunIdempotencyKey (as_id x)))) (key_option ?k)"
    by (intro ends_case_option ends_reading ends_give stable_facts P) (auto simp: key_option_def dest: indexed_child)
qed

lemma harmless_launchAgentAssignment:
  assumes env: "env_ok env" and P: "stable env P" and x: "\<And>f. good env f \<Longrightarrow> P f \<Longrightarrow> assignment_copy x f"
    and t: "as_targetType x = Target_AGENT_VERSION" and input: "\<not> uses_proto (as_input x)"
  shows "harmless env P (launchAgentAssignment x runId attemptId now)"
  unfolding launchAgentAssignment_def
proof (rule harmless_found [OF P])
  fix worker
  let ?k = "workspaceIdempotencyKey (as_workspaceId x) (assignmentRunIdempotencyKey (as_id x))"
  show "harmless env P (act_then (findAssignmentRun x) (\<lambda>existing.
     act_then (case existing of Some run \<Rightarrow> give run | None \<Rightarrow> createAssignmentRun x worker runId attemptId now) (\<lambda>run.
     act_then (lift_act (Assignment_markLaunched x (Some (r_id run)) None now)) (\<lambda>launched.
       storeLaunched x launched now))))"
  proof (rule ends_then [OF ends_findAssignmentRun [OF P x t] _ P])
    fix existing
    let ?P = "\<lambda>f. P f \<and> key_option ?k existing f"
    have st: "stable env ?P" by (intro stable_facts P)
    show "harmless env ?P (act_then (case existing of Some run \<Rightarrow> give run
        | None \<Rightarrow> createAssignmentRun x worker runId attemptId now) (\<lambda>run.
      act_then (lift_act (Assignment_markLaunched x (Some (r_id run)) None now)) (\<lambda>launched.
        storeLaunched x launched now)))"
    proof (rule ends_then [where R = "\<lambda>run. key_seen ?k (r_id run)", OF _ _ st])
      show "safe env ?P (case existing of Some run \<Rightarrow> give run
          | None \<Rightarrow> createAssignmentRun x worker runId attemptId now) (\<lambda>run. key_seen ?k (r_id run))"
        by (intro ends_case_option ends_give ends_createAssignmentRun env st input) (simp add: key_option_def)
    next
      fix run :: run
      let ?Q = "\<lambda>f. ?P f \<and> key_seen ?k (r_id run) f"
      have sq: "stable env ?Q" by (intro stable_facts P)
      show "harmless env ?Q (act_then (lift_act (Assignment_markLaunched x (Some (r_id run)) None now)) (\<lambda>launched.
          storeLaunched x launched now))"
      proof (intro ends_lift_then harmless_storeLaunched [OF sq] TrueI)
        fix y f assume y: "Assignment_markLaunched x (Some (r_id run)) None now = Inr y" and f: "good env f" "?Q f"
        have "assignment_copy x f" using x f by blast
        moreover have "key_seen ?k (r_id run) f" using f by blast
        ultimately show "assignment_copy y f" by (rule copy_launched_agent [OF f(1) _ t _ y])
      qed
    qed
  qed (use x in blast)
qed

lemma WorkflowRun_create_fields:
  assumes "WorkflowRun_create i w k v input now = Inr r"
  shows "w_id r = i \<and> w_workspaceId r = w \<and> w_workflowVersionId r = v \<and> w_status r = WR_PENDING"
proof -
  have "w_id r = i \<and> w_workspaceId r = w \<and> w_workflowVersionId r = v"
    using assms by (auto simp: WorkflowRun_create_def WorkflowRun_instantiate_def result_simps and_then_Inr
        split: if_splits option.splits)
  with WorkflowRun_create_status [OF assms] show ?thesis by simp
qed

lemma version_id: "good env f \<Longrightarrow> findWorkflowVersionById (fl_catalog f) i = Some v \<Longrightarrow> wv_id v = i"
  by (drule good_keyed) (simp add: flow_keyed_def definitions_known_def)

lemma ends_createAssignmentWorkflowRun:
  assumes P: "stable env P"
  shows "safe env P (createAssignmentWorkflowRun x i now) (\<lambda>w. workflow_run_seen x (w_id w))"
  unfolding createAssignmentWorkflowRun_def found_def
proof (rule ends_reading_then [where R = "\<lambda>v f. \<forall>u. v = Some u \<longrightarrow> wv_id u = as_targetVersionId x", OF P])
  fix v
  let ?P = "\<lambda>f. P f \<and> (\<forall>u. v = Some u \<longrightarrow> wv_id u = as_targetVersionId x)"
  have st: "stable env ?P" by (intro stable_facts P)
  show "safe env ?P (case v of
      None \<Rightarrow> lift_act (Inl (DomainInvariantError (''Assignment '' @ as_id x @ '' references missing WorkflowVersion ''
         @ as_targetVersionId x @ ''.'')))
    | Some v \<Rightarrow> act_then (lift_act (WorkflowRun_create i (as_workspaceId x) (wv_workflowId v) (wv_id v) (as_input x) now))
        (\<lambda>w. act_then (on_store (no_result (saveWorkflowRun w))) (\<lambda>u. give w))) (\<lambda>w. workflow_run_seen x (w_id w))"
  proof (intro ends_case_option ends_throw TrueI ends_lift_then ends_then_give)
    fix u w assume u: "v = Some u" and w: "WorkflowRun_create i (as_workspaceId x) (wv_workflowId u) (wv_id u) (as_input x) now = Inr w"
    note fields = WorkflowRun_create_fields [OF w]
    show "safe env ?P (on_store (no_result (saveWorkflowRun w))) (\<lambda>u. workflow_run_seen x (w_id w))"
    proof (intro ends_on_store waits_stable st conjI TrueI)
      fix f r s assume f: "good env f" "?P f" and s: "no_result (saveWorkflowRun w) (fl_store f) = Inr (r, s)"
      show "grants env f (f\<lparr> fl_store := s \<rparr>)" by (rule saved_run_ok [OF f(1) _ s]) (simp add: fields)
      show "workflow_run_seen x (w_id w) (f\<lparr> fl_store := s \<rparr>)"
        using s f(2) u fields by (auto simp: workflow_run_seen_def saveWorkflowRun_def findWorkflowRunById_def split: if_splits)
    qed
  qed
qed (auto dest: version_id)

lemma copy_workflow_run_seen:
  assumes f: "good env f" and x: "assignment_copy x f" "as_targetType x = Target_WORKFLOW_VERSION" "as_workflowRunId x = Some i"
    and w: "findWorkflowRunById (fl_store f) i = Some w"
  shows "workflow_run_seen x (w_id w) f"
proof -
  have "\<not> not_launched x" using x(3) by (simp add: not_launched_def)
  with x(1) obtain P Q where "backed f x P Q"
    by (cases "as_status x") (auto simp: assignment_copy_def assignment_ok_def assignment_reason_def)
  with x(2) obtain v where "assignment_workflow_run (fl_store f) x v" by (auto simp: backed_def)
  with x(3) w show ?thesis by (auto simp: assignment_workflow_run_def workflow_run_seen_def)
qed

lemma harmless_launchWorkflowAssignment:
  assumes P: "stable env P" and x: "\<And>f. good env f \<Longrightarrow> P f \<Longrightarrow> assignment_copy x f"
    and t: "as_targetType x = Target_WORKFLOW_VERSION"
  shows "harmless env P (launchWorkflowAssignment x workflowRunId now)"
  unfolding launchWorkflowAssignment_def
proof (rule ends_then [where R = "\<lambda>r f. \<forall>w. r = Some w \<longrightarrow> workflow_run_seen x (w_id w) f", OF _ _ P])
  show "safe env P (case as_workflowRunId x of None \<Rightarrow> give None
      | Some i \<Rightarrow> reading (\<lambda>f. findWorkflowRunById (fl_store f) i)) (\<lambda>r f. \<forall>w. r = Some w \<longrightarrow> workflow_run_seen x (w_id w) f)"
  proof (cases "as_workflowRunId x")
    case (Some i)
    have "\<forall>w. findWorkflowRunById (fl_store f) i = Some w \<longrightarrow> workflow_run_seen x (w_id w) f" if "good env f" "P f" for f
      using copy_workflow_run_seen [OF that(1) x [OF that] t Some] by blast
    then show ?thesis by (simp add: Some ends_reading [OF P])
  qed (simp add: ends_give)
next
  fix recorded :: "workflow_run option"
  let ?P = "\<lambda>f. P f \<and> (\<forall>w. recorded = Some w \<longrightarrow> workflow_run_seen x (w_id w) f)"
  have st: "stable env ?P" by (cases recorded) (simp_all add: P stable_facts)
  show "harmless env ?P (act_then (case recorded of Some w \<Rightarrow> give w
      | None \<Rightarrow> createAssignmentWorkflowRun x workflowRunId now) (\<lambda>w.
     act_then (lift_act (Assignment_markLaunched x None (Some (w_id w)) now)) (\<lambda>launched.
       storeLaunched x launched now)))"
  proof (rule ends_then [where R = "\<lambda>w. workflow_run_seen x (w_id w)", OF _ _ st])
    show "safe env ?P (case recorded of Some w \<Rightarrow> give w
        | None \<Rightarrow> createAssignmentWorkflowRun x workflowRunId now) (\<lambda>w. workflow_run_seen x (w_id w))"
      by (intro ends_case_option ends_give ends_createAssignmentWorkflowRun st) simp
  next
    fix w :: workflow_run
    let ?Q = "\<lambda>f. ?P f \<and> workflow_run_seen x (w_id w) f"
    have sq: "stable env ?Q" by (intro stable_conj st stable_facts)
    show "harmless env ?Q (act_then (lift_act (Assignment_markLaunched x None (Some (w_id w)) now)) (\<lambda>launched.
        storeLaunched x launched now))"
    proof (intro ends_lift_then harmless_storeLaunched [OF sq] TrueI)
      fix y f assume y: "Assignment_markLaunched x None (Some (w_id w)) now = Inr y" and f: "good env f" "?Q f"
      have "assignment_copy x f" using x f by blast
      moreover have "workflow_run_seen x (w_id w) f" using f by blast
      ultimately show "assignment_copy y f" by (rule copy_launched_workflow [OF _ t _ y])
    qed
  qed
qed

lemma harmless_launchAssignment:
  assumes env: "env_ok env" and P: "stable env P"
  shows "harmless env P (launchAssignment i runId attemptId workflowRunId now)"
  unfolding launchAssignment_def
proof (rule harmless_found_seen [where R = assignment_copy, OF P stable_assignment_copy])
  fix x
  let ?P = "\<lambda>f. P f \<and> assignment_copy x f"
  have st: "stable env ?P" by (intro stable_facts P)
  show "harmless env ?P (if isTerminalAssignmentState (as_status x) then reconcileAssignment (as_id x) now
     else if as_targetType x = Target_AGENT_VERSION then launchAgentAssignment x runId attemptId now
     else launchWorkflowAssignment x workflowRunId now)"
  proof (cases "\<exists>f. good env f \<and> ?P f")
    case True
    then have "\<not> uses_proto (as_input x)" by (auto simp: assignment_copy_def assignment_ok_def)
    then show ?thesis
      by (intro ends_if harmless_reconcileAssignment [OF st] harmless_launchAgentAssignment [OF env st]
          harmless_launchWorkflowAssignment [OF st]) (auto, metis assignment_target.exhaust)
  next
    case False
    then show ?thesis by (intro ends_impossible) blast
  qed
qed (auto simp: findAssignmentById_def dest: assignment_here)

lemma harmless_routes:
  "env_ok env \<Longrightarrow> harmless env (\<lambda>f. True) (launch_assignment_route p i now)"
  "harmless env (\<lambda>f. True) (get_assignment_route p i now)"
  unfolding launch_assignment_route_def get_assignment_route_def
  by (intro ends_lift_then ends_any_id_then harmless_launchAssignment harmless_reconcileAssignment stable_const TrueI,
      assumption)
    (intro ends_lift_then harmless_reconcileAssignment stable_const TrueI)

subsection \<open>The control plane\<close>

lemma harmless_with_workspace: "stable env P \<Longrightarrow> harmless env P k \<Longrightarrow> harmless env P (with_workspace ae w k)"
  unfolding with_workspace_def by (rule harmless_found)

lemma harmless_save:
  assumes "stable env P" "\<And>f s. good env f \<Longrightarrow> P f \<Longrightarrow> operation (fl_office f) = Inr s \<Longrightarrow>
      good env (f\<lparr> fl_office := s \<rparr>) \<and> flow_kept f (f\<lparr> fl_office := s \<rparr>)"
  shows "harmless env P (act_then (on_office (no_result operation)) (\<lambda>u. give x))"
  by (intro harmless_then ends_on_office ends_give TrueI assms) auto

lemmas office_rules = harmless_authorized harmless_with_workspace harmless_found ends_any_id_then ends_lift_then
  harmless_save stable_const TrueI

lemma harmless_createOfficeWorker: "harmless env (\<lambda>f. True) (createOfficeWorker ae scope c a now)"
  unfolding createOfficeWorker_def by (intro office_rules) (rule save_entity_ok, auto)

lemma harmless_createRole: "harmless env (\<lambda>f. True) (createRole ae scope c now)"
  unfolding createRole_def by (intro office_rules) (rule save_entity_ok, auto)

lemma harmless_createTeam: "harmless env (\<lambda>f. True) (createTeam ae scope c now)"
  unfolding createTeam_def by (intro office_rules) (rule save_entity_ok, auto)

lemma harmless_createGoal: "harmless env (\<lambda>f. True) (createGoal ae scope c now)"
  unfolding createGoal_def by (intro office_rules) (rule save_entity_ok, auto)

lemma harmless_updateOfficeWorker: "harmless env (\<lambda>f. True) (updateOfficeWorker scope i n d now)"
  unfolding updateOfficeWorker_def
  by (intro office_rules harmless_then ends_on_office harmless_persisted) (rule update_worker_ok)

lemma harmless_updateRole: "harmless env (\<lambda>f. True) (updateRole scope i n d now)"
  unfolding updateRole_def
  by (intro office_rules harmless_then ends_on_office harmless_persisted) (rule update_role_ok)

lemma harmless_updateTeam: "harmless env (\<lambda>f. True) (updateTeam scope i n d now)"
  unfolding updateTeam_def
  by (intro office_rules harmless_then ends_on_office harmless_persisted) (rule update_team_ok)

lemma harmless_updateGoal: "harmless env (\<lambda>f. True) (updateGoal scope i n d s now)"
  unfolding updateGoal_def
  by (intro office_rules harmless_then ends_on_office harmless_persisted) (rule update_goal_ok)

text \<open>What was found in a workspace is in it.\<close>

lemma found_in_workspace:
  "findOfficeWorkerByWorkspaceAndId s w i = Some x \<Longrightarrow> worker_in s w i"
  "findRoleByWorkspaceAndId s w i = Some g \<Longrightarrow> role_in s w i"
  "findTeamByWorkspaceAndId s w i = Some g \<Longrightarrow> team_in s w i"
  "findGoalByWorkspaceAndId s w i = Some h \<Longrightarrow> goal_in s w i"
  by (auto simp: findOfficeWorkerByWorkspaceAndId_def findRoleByWorkspaceAndId_def findTeamByWorkspaceAndId_def
      findGoalByWorkspaceAndId_def in_workspace_Some worker_in_def role_in_def team_in_def goal_in_def)

lemma ends_found:
  assumes P: "stable env P" and R: "\<And>x. stable env (R x)"
    and seen: "\<And>f x. good env f \<Longrightarrow> P f \<Longrightarrow> sel f = Some x \<Longrightarrow> R x f"
    and k: "\<And>x. safe env (\<lambda>f. P f \<and> R x f) (k x) Q"
  shows "safe env P (found missing sel k) Q"
  unfolding found_def
proof (rule ends_reading_then [where R = "\<lambda>r f. \<forall>x. r = Some x \<longrightarrow> R x f", OF P])
  fix r
  show "safe env (\<lambda>f. P f \<and> (\<forall>x. r = Some x \<longrightarrow> R x f))
      (case r of None \<Rightarrow> lift_act (Inl missing) | Some x \<Rightarrow> k x) Q"
    using k by (cases r) (simp_all add: ends_throw)
qed (simp add: seen)

lemma ends_goal_of_workspace:
  assumes P: "stable env P"
  shows "safe env P (goal_of_workspace w g e) (\<lambda>u f. goal_in (fl_office f) w g)"
  unfolding goal_of_workspace_def
  by (rule ends_found [where R = "\<lambda>x f. goal_in (fl_office f) w g", OF P])
    (auto intro!: stable_facts ends_check intro: found_in_workspace)

lemma harmless_assertAssignmentTarget: "stable env P \<Longrightarrow> harmless env P (assertAssignmentTarget w x t v)"
  unfolding assertAssignmentTarget_def
  by (cases t) (simp_all, (intro harmless_found harmless_check_then harmless_reading_then harmless_check ends_give TrueI;
      assumption)+)

lemma harmless_addTeamMembership: "harmless env (\<lambda>f. True) (addTeamMembership scope c)"
  unfolding addTeamMembership_def
proof (rule harmless_authorized)
  fix w
  let ?t = "\<lambda>x f. team_in (fl_office f) w (tm_teamId c)" and ?w = "\<lambda>x f. worker_in (fl_office f) w (tm_officeWorkerId c)"
  let ?r = "\<lambda>u f. \<forall>r. tm_roleId c = Some r \<longrightarrow> role_in (fl_office f) w r"
  show "harmless env (\<lambda>f. True) (found (NotFoundError ''Team'' (tm_teamId c))
       (\<lambda>f. findTeamByWorkspaceAndId (fl_office f) w (tm_teamId c)) (\<lambda>team.
     found (NotFoundError ''OfficeWorker'' (tm_officeWorkerId c))
       (\<lambda>f. findOfficeWorkerByWorkspaceAndId (fl_office f) w (tm_officeWorkerId c)) (\<lambda>worker.
     act_then (check_act (elsewhere ''OfficeWorker'' (ow_id worker) (ow_workspaceId worker) (og_workspaceId team))) (\<lambda>u.
     act_then (case tm_roleId c of
         None \<Rightarrow> give ()
       | Some r \<Rightarrow> found (NotFoundError ''Role'' r) (\<lambda>f. findRoleByWorkspaceAndId (fl_office f) w r) (\<lambda>role.
           check_act (elsewhere ''Role'' (og_id role) (og_workspaceId role) (og_workspaceId team)))) (\<lambda>u.
     act_then (lift_act (TeamMembership_create c)) (\<lambda>membership.
     act_then (on_office (no_result (postgres_addTeamMembership membership))) (\<lambda>u. give membership)))))))"
  proof (rule ends_found [where R = ?t, OF stable_const stable_in(3)],
      goal_cases seen_team team)
    case (team team)
    show ?case
    proof (rule ends_found [where R = ?w, OF _ stable_in(1)], goal_cases st seen_worker worker)
      case (worker worker)
      let ?P = "\<lambda>f. (True \<and> ?t team f) \<and> ?w worker f"
      have st: "stable env ?P" by (intro stable_facts)
      show ?case
      proof (rule harmless_check_then, rule ends_then [where R = ?r, OF _ _ st], goal_cases role rest)
        case role
        have "safe env ?P (found (NotFoundError ''Role'' r) (\<lambda>f. findRoleByWorkspaceAndId (fl_office f) w r) (\<lambda>role.
           check_act (elsewhere ''Role'' (og_id role) (og_workspaceId role) (og_workspaceId team))))
           (\<lambda>u f. role_in (fl_office f) w r)" for r
          by (rule ends_found [where R = "\<lambda>x f. role_in (fl_office f) w r", OF st stable_in(2)])
            (auto intro!: ends_check intro: found_in_workspace)
        then show ?case by (cases "tm_roleId c") (simp_all add: ends_give)
      next
        case (rest u)
        have sr: "stable env (\<lambda>f. ?P f \<and> ?r u f)" by (cases "tm_roleId c") (simp_all add: st stable_facts)
        show ?case
        proof (intro ends_lift_then TrueI harmless_save [OF sr])
          fix m f s assume m: "TeamMembership_create c = Inr m" and f: "good env f" "?P f \<and> ?r u f"
            and s: "postgres_addTeamMembership m (fl_office f) = Inr s"
          from m have "m = c" by (auto simp: TeamMembership_create_def split: if_splits)
          with f(2) have "membership_refs (fl_office f) m" by (auto simp: membership_refs_def)
          from save_membership_ok [OF f(1) this s] show "good env (f\<lparr> fl_office := s \<rparr>) \<and> flow_kept f (f\<lparr> fl_office := s \<rparr>)" .
        qed
      qed
    qed (auto intro: stable_facts found_in_workspace)
  qed (auto intro: found_in_workspace)
qed

lemma save_assignment_ok:
  assumes f: "good env f" and x: "assignment_ok f x" "assignment_refs (fl_office f) x"
    and s: "postgres_saveAssignment x (fl_office f) = Inr s"
  shows "good env (f\<lparr> fl_office := s \<rparr>) \<and> flow_kept f (f\<lparr> fl_office := s \<rparr>)"
proof -
  from s have n: "map_of (of_assignments (fl_office f)) (as_id x) = None"
    and s': "s = (fl_office f)\<lparr> of_assignments := AList.update (as_id x) x (of_assignments (fl_office f)) \<rparr>"
    by (auto simp: postgres_saveAssignment_def split: if_splits)
  have k: "office_kept (fl_office f) s" using n by (simp add: s' office_kept_def entries_kept_refl kept_new)
  have "office_ok s"
    by (rule office_okI [OF k good_office [OF f]])
      (use refs_kept(2) [OF k x(2)] in \<open>auto simp: s' split: if_splits\<close>)
  with k show ?thesis by (intro office_changed [OF f]) (use x in \<open>auto simp: s' split: if_splits\<close>)
qed

lemma harmless_createAssignment: "harmless env (\<lambda>f. True) (createAssignment ae scope c now)"
  unfolding createAssignment_def
proof (intro harmless_authorized harmless_with_workspace stable_const)
  fix w
  let ?w = "\<lambda>x f. worker_in (fl_office f) w (cac_officeWorkerId c)"
  let ?g = "\<lambda>u f. \<forall>g. cac_goalId c = Some g \<longrightarrow> goal_in (fl_office f) w g"
  show "harmless env (\<lambda>f. True) (found (NotFoundError ''OfficeWorker'' (cac_officeWorkerId c))
       (\<lambda>f. findOfficeWorkerByWorkspaceAndId (fl_office f) w (cac_officeWorkerId c)) (\<lambda>worker.
     act_then (check_act (elsewhere ''OfficeWorker'' (ow_id worker) (ow_workspaceId worker) (cac_workspaceId c))) (\<lambda>u.
     act_then (case cac_goalId c of None \<Rightarrow> give ()
       | Some g \<Rightarrow> goal_of_workspace w g (cac_workspaceId c)) (\<lambda>u.
     act_then (assertAssignmentTarget w worker (cac_targetType c) (cac_targetVersionId c)) (\<lambda>u.
     act_then new_id (\<lambda>i.
     act_then (lift_act (Assignment_create (new_assignment i w c now))) (\<lambda>x.
     act_then (on_office (no_result (postgres_saveAssignment x))) (\<lambda>u. give x))))))))"
  proof (rule ends_found [where R = ?w, OF stable_const stable_in(1)], goal_cases seen worker)
    case (worker worker)
    let ?P = "\<lambda>f. True \<and> ?w worker f"
    have st: "stable env ?P" by (intro stable_facts)
    show ?case
    proof (rule harmless_check_then, rule ends_then [where R = ?g, OF _ _ st], goal_cases goal rest)
      case goal
      show ?case
        by (cases "cac_goalId c") (simp_all add: ends_give ends_goal_of_workspace stable_in)
    next
      case (rest u)
      have sr: "stable env (\<lambda>f. ?P f \<and> ?g u f)" by (cases "cac_goalId c") (simp_all add: stable_facts)
      show ?case
      proof (intro harmless_then [OF harmless_assertAssignmentTarget] ends_any_id_then ends_lift_then TrueI sr harmless_save)
        fix i x f s
        assume x: "Assignment_create (new_assignment i w c now) = Inr x" and f: "good env f" "?P f \<and> ?g u f"
          and s: "postgres_saveAssignment x (fl_office f) = Inr s"
        have "assignment_refs (fl_office f) x"
          using Assignment_create_Inr [OF x] f(2) by (auto simp: assignment_refs_def new_assignment_def)
        moreover have "assignment_ok f x"
          using Assignment_create_Inr [OF x] by (simp add: assignment_ok_def assignment_reason_def)
        ultimately show "good env (f\<lparr> fl_office := s \<rparr>) \<and> flow_kept f (f\<lparr> fl_office := s \<rparr>)"
          using save_assignment_ok [OF f(1) _ _ s] by blast
      qed
    qed
  qed (auto intro: found_in_workspace)
qed

lemma found_copy:
  "good env f \<Longrightarrow> findAssignmentByWorkspaceAndId (fl_office f) w i = Some x \<Longrightarrow>
     assignment_copy x f \<and> as_id x = i \<and> as_workspaceId x = w"
  by (auto simp: findAssignmentByWorkspaceAndId_def in_workspace_Some dest: assignment_here)

lemma harmless_cancelAssignment: "harmless env (\<lambda>f. True) (cancelAssignment scope i now)"
  unfolding cancelAssignment_def
proof (rule harmless_authorized, rule harmless_found_seen [where R = assignment_copy, OF stable_const stable_assignment_copy])
  fix w x
  let ?P = "\<lambda>f. True \<and> assignment_copy x f"
  have st: "stable env ?P" by (intro stable_facts)
  show "harmless env ?P (if as_status x \<noteq> As_PENDING
     then lift_act (Inl (DomainInvariantError (''Assignment '' @ i @ '' cannot be cancelled from status ''
       @ assignment_state_name (as_status x) @ ''.'')))
     else act_then (lift_act (Assignment_cancel x now)) (\<lambda>cancelled. transitionAssignment (as_status x) cancelled))"
  proof (intro ends_if ends_throw TrueI ends_lift_then harmless_transitionAssignment [OF st])
    fix y f assume p: "\<not> as_status x \<noteq> As_PENDING" and y: "Assignment_cancel x now = Inr y" and f: "?P f"
    from Assignment_cancel_Inr [OF y] p obtain t u where
      y': "y = x\<lparr> as_status := As_CANCELLED, as_completedAt := t, as_cancelledAt := u \<rparr>" by blast
    show "assignment_copy y f"
      by (rule copy_with_status [OF _ y'])
        (use f p in \<open>simp_all add: assignment_copy_def assignment_ok_def assignment_reason_def\<close>)
  qed
qed (use found_copy in blast)

lemma harmless_updateAssignment: "harmless env (\<lambda>f. True) (updateAssignment scope i title description goal)"
  unfolding updateAssignment_def
proof (rule harmless_authorized, rule harmless_found_seen
    [where R = "\<lambda>x f. assignment_copy x f \<and> as_workspaceId x = w" for w, OF stable_const])
  fix w x
  let ?P = "\<lambda>f. True \<and> assignment_copy x f \<and> as_workspaceId x = w"
  let ?g = "\<lambda>u f. \<forall>g. goal = Goal_set g \<longrightarrow> goal_in (fl_office f) w g"
  have st: "stable env ?P" by (intro stable_facts)
  show "harmless env ?P (act_then (case goal of Goal_set g \<Rightarrow> goal_of_workspace w g (as_workspaceId x) | _ \<Rightarrow> give ()) (\<lambda>u.
     act_then (lift_act (Assignment_update x title description goal)) (\<lambda>updated.
     act_then (on_office (postgres_updateAssignment updated)) (persisted (NotFoundError ''Assignment'' i)))))"
  proof (rule ends_then [where R = ?g, OF _ _ st])
    show "safe env ?P (case goal of Goal_set g \<Rightarrow> goal_of_workspace w g (as_workspaceId x) | _ \<Rightarrow> give ()) ?g"
    proof (cases goal)
      case (Goal_set g)
      with ends_goal_of_workspace [OF st, of w g "as_workspaceId x"] show ?thesis by simp
    qed (simp_all add: ends_give)
  next
    fix u :: unit
    have sr: "stable env (\<lambda>f. ?P f \<and> ?g u f)" by (cases goal) (simp_all add: stable_facts)
    show "harmless env (\<lambda>f. ?P f \<and> ?g u f) (act_then (lift_act (Assignment_update x title description goal)) (\<lambda>updated.
       act_then (on_office (postgres_updateAssignment updated)) (persisted (NotFoundError ''Assignment'' i))))"
    proof (intro ends_lift_then TrueI harmless_then [OF ends_on_office] harmless_persisted sr)
      fix y f row s
      assume y: "Assignment_update x title description goal = Inr y" and f: "good env f" "?P f \<and> ?g u f"
        and s: "postgres_updateAssignment y (fl_office f) = Inr (row, s)"
      have "assignment_copy y f" by (rule copy_updated [OF _ y]) (use f(2) in auto)
      from update_assignment_ok [OF f(1) this s] show "good env (f\<lparr> fl_office := s \<rparr>) \<and> flow_kept f (f\<lparr> fl_office := s \<rparr>)" .
    qed
  qed
qed (auto intro: stable_facts dest: found_copy)

end
