(* ===== verification/Workflow_World.thy ===== *)
theory Workflow_World
  imports Schedule_Handlers Office_Handlers Run_System
begin

text \<open>
  The whole platform at work: any number of orchestrators, wait drivers, schedulers, event
  ingestions and control plane requests run as processes over the stores, while the workers and the
  recovery of \<open>Run_System\<close> act on the runs. Every access of a process is one step, which may fail
  before or after it was done; a process may die between any two of its accesses, and any handler
  may be started again at any time. What the processes guarantee each other then holds of all of
  them together.
\<close>

subsection \<open>Worlds\<close>

record 'w process =
  pc_env :: reconcile_env
  pc_act :: "('w, unit) act"

record 'w world =
  wo_flow :: "'w flow"
  wo_tasks :: "task list"
  wo_started :: "string list"
  wo_processes :: "'w process list"

definition system_of :: "'w world \<Rightarrow> 'w system" where
  "system_of x = \<lparr> sy_platform = fl_platform (wo_flow x), sy_tasks = wo_tasks x, sy_started = wo_started x \<rparr>"

definition with_system :: "'w system \<Rightarrow> 'w world \<Rightarrow> 'w world" where
  "with_system y x = x\<lparr> wo_flow := (wo_flow x)\<lparr> fl_platform := sy_platform y \<rparr>,
     wo_tasks := sy_tasks y, wo_started := sy_started y \<rparr>"

definition forget :: "('w, 'a) act \<Rightarrow> ('w, unit) act" where
  "forget m = act_then m (\<lambda>x. give ())"

text \<open>The programs a process may run.\<close>

inductive program :: "reconcile_env \<Rightarrow> ('w, unit) act \<Rightarrow> bool" for env where
  run_orchestrator: "program env (orchestratorTick env limit now)"
| run_wait_driver: "program env (workflowWaitDriverTick limit now)"
| run_ingestion: "program env (forget (ingestWorkflowEvent submission i now))"
| run_create_workflow: "program env (forget (createWorkflow ae scope c now))"
| run_append_version: "program env (forget (appendVersion ae scope i d now))"
| run_create_run: "program env (forget (createWorkflowRun ae scope v input now))"
| run_decide: "program env (forget (decideApprovalRequest ae scope i decision comment now))"
| run_scheduler: "program env (schedulerTick cr m d now)"
| run_create_schedule: "program env (forget (createSchedule ae cr scope sc now))"
| run_change_schedule: "program env (forget (changeSchedule cr scope cs now))"
| run_create_worker: "program env (forget (createOfficeWorker ae scope oc a now))"
| run_update_worker: "program env (forget (updateOfficeWorker scope i n d' now))"
| run_create_role: "program env (forget (createRole ae scope oc now))"
| run_update_role: "program env (forget (updateRole scope i n d' now))"
| run_create_team: "program env (forget (createTeam ae scope oc now))"
| run_update_team: "program env (forget (updateTeam scope i n d' now))"
| run_add_membership: "program env (forget (addTeamMembership scope tm))"
| run_create_goal: "program env (forget (createGoal ae scope oc now))"
| run_update_goal: "program env (forget (updateGoal scope i n d' gs now))"
| run_create_assignment: "program env (forget (createAssignment ae scope ac now))"
| run_update_assignment: "program env (forget (updateAssignment scope i n d' gc))"
| run_cancel_assignment: "program env (forget (cancelAssignment scope i now))"
| run_launch_assignment: "program env (forget (launch_assignment_route p i now))"
| run_get_assignment: "program env (forget (get_assignment_route p i now))"

text \<open>No two living processes draw the same identifiers.\<close>

definition apart :: "reconcile_env \<Rightarrow> reconcile_env \<Rightarrow> bool" where
  "apart a b \<longleftrightarrow> (\<forall>i. \<not> (re_mine a i \<and> re_mine b i))"

inductive world_step :: "(json_token list \<Rightarrow> string) \<Rightarrow> 'w world \<Rightarrow> 'w world \<Rightarrow> bool" for sha256 where
  world_start: "env_ok env \<Longrightarrow> re_sha256 env = sha256 \<Longrightarrow> program env m
     \<Longrightarrow> \<forall>p\<in>set (wo_processes x). apart env (pc_env p)
     \<Longrightarrow> world_step sha256 x (x\<lparr> wo_processes := \<lparr> pc_env = env, pc_act = m \<rparr> # wo_processes x \<rparr>)"
| world_access: "wo_processes x = ps @ \<lparr> pc_env = env, pc_act = Access a \<rparr> # qs
     \<Longrightarrow> a fault (wo_flow x) = (g, m)
     \<Longrightarrow> world_step sha256 x (x\<lparr> wo_flow := g, wo_processes := ps @ \<lparr> pc_env = env, pc_act = m \<rparr> # qs \<rparr>)"
| world_draw: "wo_processes x = ps @ \<lparr> pc_env = env, pc_act = Draw d \<rparr> # qs
     \<Longrightarrow> re_mine env i \<Longrightarrow> free_id i (wo_flow x)
     \<Longrightarrow> world_step sha256 x (x\<lparr> wo_processes := ps @ \<lparr> pc_env = env, pc_act = d i \<rparr> # qs \<rparr>)"
| world_death: "wo_processes x = ps @ p # qs \<Longrightarrow> world_step sha256 x (x\<lparr> wo_processes := ps @ qs \<rparr>)"
| world_work: "sys_step (system_of x) y \<Longrightarrow> world_step sha256 x (with_system y x)"

text \<open>Nothing is stored at the beginning.\<close>

definition empty_flow :: "'w platform \<Rightarrow> 'w flow" where
  "empty_flow p = \<lparr> fl_platform = p\<lparr> pf_runs := empty_run_store \<rparr>,
     fl_catalog = \<lparr> wc_workflows = [], wc_versions = [] \<rparr>, fl_store = \<lparr> ws_runs = [], ws_nodes = [] \<rparr>,
     fl_waits = [], fl_events = \<lparr> ves_byId = [], ves_byIngestion = [] \<rparr>, fl_approvals = [],
     fl_schedules = empty_schedule_store, fl_office = empty_office_store \<rparr>"

definition initial_world :: "'w platform \<Rightarrow> 'w world" where
  "initial_world p = \<lparr> wo_flow = empty_flow p, wo_tasks = [], wo_started = [], wo_processes = [] \<rparr>"

definition reachable_world :: "(json_token list \<Rightarrow> string) \<Rightarrow> 'w world \<Rightarrow> bool" where
  "reachable_world sha256 x \<longleftrightarrow> (\<exists>p. (world_step sha256)\<^sup>*\<^sup>* (initial_world p) x)"

subsection \<open>Every program is harmless\<close>

lemma harmless_forget: "harmless env (\<lambda>f. True) m \<Longrightarrow> harmless env (\<lambda>f. True) (forget m)"
  unfolding forget_def by (intro harmless_then ends_give stable_const TrueI)

lemma program_harmless: "program env m \<Longrightarrow> env_ok env \<Longrightarrow> harmless env (\<lambda>f. True) m"
  by (induction rule: program.induct)
    (auto intro: harmless_forget harmless_orchestratorTick harmless_workflowWaitDriverTick harmless_ingestWorkflowEvent
      harmless_createWorkflow harmless_appendVersion harmless_createWorkflowRun harmless_decideApprovalRequest
      harmless_schedulerTick harmless_createSchedule harmless_changeSchedule
      harmless_createOfficeWorker harmless_updateOfficeWorker harmless_createRole harmless_updateRole
      harmless_createTeam harmless_updateTeam harmless_addTeamMembership harmless_createGoal harmless_updateGoal
      harmless_createAssignment harmless_updateAssignment harmless_cancelAssignment harmless_routes)

subsection \<open>The invariant of the world\<close>

abbreviation keeps_on :: "reconcile_env \<Rightarrow> ('w, unit) act \<Rightarrow> 'w flow \<Rightarrow> bool" where
  "keeps_on env \<equiv> sound_from env (\<lambda>x f. True) (\<lambda>e f. True)"

definition process_ok :: "(json_token list \<Rightarrow> string) \<Rightarrow> 'w flow \<Rightarrow> 'w process \<Rightarrow> bool" where
  "process_ok sha256 f p \<longleftrightarrow> env_ok (pc_env p) \<and> re_sha256 (pc_env p) = sha256 \<and> keeps_on (pc_env p) (pc_act p) f"

definition world_ok :: "(json_token list \<Rightarrow> string) \<Rightarrow> 'w world \<Rightarrow> bool" where
  "world_ok sha256 x \<longleftrightarrow> flow_ok sha256 (wo_flow x) \<and> system_ok (system_of x)
     \<and> (\<forall>p\<in>set (wo_processes x). process_ok sha256 (wo_flow x) p)
     \<and> sorted_wrt apart (List.map pc_env (wo_processes x))"

lemma apart_sym: "apart a b \<Longrightarrow> apart b a"
  by (auto simp: apart_def)

lemma apart_others:
  "sorted_wrt apart (as @ a # bs) \<Longrightarrow> b \<in> set as \<union> set bs \<Longrightarrow> apart a b"
  by (auto simp: sorted_wrt_append intro: apart_sym)

lemma keeps_on_rely:
  assumes "keeps_on env m f" "rely env f g"
  shows "keeps_on env m g"
proof -
  have trans: "rely env f h" if "rely env g h" for h
    using assms(2) that by (auto simp: rely_def intro: flow_kept_trans)
  show ?thesis using assms(1) trans by (cases m) (auto simp: sound_from_Access)
qed

lemma process_ok_rely: "process_ok sha256 f p \<Longrightarrow> rely (pc_env p) f g \<Longrightarrow> process_ok sha256 g p"
  by (auto simp: process_ok_def intro: keeps_on_rely)

lemma grants_rely:
  assumes "grants a f g" "apart a b" "re_sha256 b = re_sha256 a"
  shows "rely b f g"
  using assms by (auto simp: grants_def rely_def good_def apart_def)

text \<open>A change of the flow that keeps the runs does not disturb the workers.\<close>

lemma system_ok_keeps:
  assumes ok: "system_ok y" and s: "store_ok (runs_of z)" and k: "keeps (runs_of y) (runs_of z)"
    and t: "sy_tasks z = sy_tasks y" "sy_started z = sy_started y"
  shows "system_ok z"
proof -
  have c: "claimed z = claimed y" by (simp add: claimed_def t)
  show ?thesis
    using ok s claimed_keeps [OF _ k] task_ok_keeps [OF _ k] unfolding system_ok_def c t by blast
qed

lemma initial_world_ok: "world_ok sha256 (initial_world p)"
proof -
  have "system_of (initial_world p) = initial_system p"
    by (simp add: system_of_def initial_world_def empty_flow_def initial_system_def)
  then have "system_ok (system_of (initial_world p))" by (simp add: initial_ok)
  moreover have "flow_ok sha256 (empty_flow p)"
    using empty_store_ok
    by (simp add: flow_ok_def empty_flow_def definitions_known_def findWorkflowVersionById_def
        keys_indexed_def nodes_ok_def findWorkflowNodeRunById_def findWorkflowRunById_def)
      (simp add: empty_run_store_def findRunById_def empty_schedule_store_def schedules_keyed_def
        empty_office_ok, simp add: empty_office_store_def)
  ultimately show ?thesis by (simp add: world_ok_def initial_world_def)
qed

text \<open>The step of one process: it grants, the others rely.\<close>

lemma process_step_ok:
  assumes ok: "world_ok sha256 x" and ps: "wo_processes x = ps @ \<lparr> pc_env = env, pc_act = m \<rparr> # qs"
    and g: "grants env (wo_flow x) g" and m: "keeps_on env m' g"
  shows "world_ok sha256 (x\<lparr> wo_flow := g, wo_processes := ps @ \<lparr> pc_env = env, pc_act = m' \<rparr> # qs \<rparr>)"
    (is "world_ok sha256 ?y")
proof -
  from ok ps have env: "env_ok env" "re_sha256 env = sha256" by (auto simp: world_ok_def process_ok_def)
  have f: "flow_ok sha256 g" "keeps (run_store_of (wo_flow x)) (run_store_of g)"
    using g env by (auto simp: grants_def good_def flow_kept_def)
  have so: "store_ok (run_store_of g)" using f(1) by (simp add: flow_ok_def)
  have "system_ok (system_of ?y)"
    by (rule system_ok_keeps [of "system_of x"]) (use ok f so in \<open>simp_all add: world_ok_def system_of_def\<close>)
  moreover have "process_ok sha256 g p" if "p \<in> set ps \<union> set qs" for p
  proof -
    from that ok ps have p: "process_ok sha256 (wo_flow x) p" by (auto simp: world_ok_def)
    have "sorted_wrt apart (List.map pc_env ps @ env # List.map pc_env qs)" using ok ps by (simp add: world_ok_def)
    from apart_others [OF this] that have "apart env (pc_env p)" by auto
    with grants_rely [OF g] p env have "rely (pc_env p) (wo_flow x) g" by (simp add: process_ok_def)
    with p show ?thesis by (rule process_ok_rely)
  qed
  moreover have "process_ok sha256 g \<lparr> pc_env = env, pc_act = m' \<rparr>" using env m by (simp add: process_ok_def)
  moreover have "sorted_wrt apart (List.map pc_env (wo_processes ?y))" using ok ps by (simp add: world_ok_def)
  ultimately show ?thesis using f(1) by (auto simp: world_ok_def)
qed

text \<open>The workers change the runs as everybody relies on.\<close>

lemma work_step_ok:
  assumes ok: "world_ok sha256 x" and s: "sys_step (system_of x) y"
  shows "world_ok sha256 (with_system y x) \<and> flow_kept (wo_flow x) (wo_flow (with_system y x))"
proof -
  let ?f = "wo_flow x" and ?g = "(wo_flow x)\<lparr> fl_platform := sy_platform y \<rparr>"
  from ok have f: "flow_ok sha256 ?f" and sy: "system_ok (system_of x)" by (simp_all add: world_ok_def)
  from sys_step_ok [OF s sy] have y: "system_ok y" and e: "evolves (run_store_of ?f) (runs_of y)"
    by (simp_all add: system_of_def)
  from f have so: "store_ok (run_store_of ?f)" "keys_indexed (run_store_of ?f)" by (simp_all add: flow_ok_def)
  from evolves_keeps [OF e so(1)] evolves_keys [OF e so]
  have r: "store_ok (runs_of y)" "keeps (run_store_of ?f) (runs_of y)" "keys_indexed (runs_of y)" by simp_all
  then have k: "flow_kept ?f ?g"
    by (simp add: flow_kept_def entries_kept_refl wait_kept_def approval_kept_def)
  have kd: "flow_keyed ?g" using flow_ok_keyed [OF f] by (simp add: flow_keyed_def)
  have g: "flow_ok sha256 ?g" by (rule flow_okI [OF k f kd]) (use r in simp_all)
  have "process_ok sha256 ?g p" if "p \<in> set (wo_processes x)" for p
  proof -
    from that ok have p: "process_ok sha256 ?f p" by (simp add: world_ok_def)
    then have "rely (pc_env p) ?f ?g" using g k by (simp add: process_ok_def rely_def good_def free_id_def)
    with p show ?thesis by (rule process_ok_rely)
  qed
  moreover have "system_of (with_system y x) = y" by (simp add: system_of_def with_system_def)
  ultimately show ?thesis using ok y g k by (simp add: world_ok_def with_system_def)
qed

lemma started_ok:
  assumes ok: "world_ok sha256 x" and env: "env_ok env" "re_sha256 env = sha256" and m: "program env m"
  shows "process_ok sha256 (wo_flow x) \<lparr> pc_env = env, pc_act = m \<rparr>"
  using program_harmless [OF m env(1), unfolded ends_def] ok env by (auto simp: process_ok_def world_ok_def good_def)

lemma world_step_ok:
  assumes "world_step sha256 x y" "world_ok sha256 x"
  shows "world_ok sha256 y \<and> flow_kept (wo_flow x) (wo_flow y)"
  using assms
proof (induction rule: world_step.induct)
  case (world_start env m x)
  from started_ok [OF world_start(5,1,2,3)] world_start show ?case
    by (auto simp: world_ok_def system_of_def)
next
  case (world_access x ps env a qs fault g m)
  then have p: "process_ok sha256 (wo_flow x) \<lparr> pc_env = env, pc_act = Access a \<rparr>" by (simp add: world_ok_def)
  then have "rely env (wo_flow x) (wo_flow x)"
    using world_access(3) by (intro rely_refl) (simp add: process_ok_def world_ok_def good_def)
  with p world_access(2) have "grants env (wo_flow x) g \<and> keeps_on env m g"
    by (auto simp: process_ok_def sound_from_Access)
  with process_step_ok [OF world_access(3,1)] show ?case by (simp add: grants_def)
next
  case (world_draw x ps env d qs i)
  then have p: "process_ok sha256 (wo_flow x) \<lparr> pc_env = env, pc_act = Draw d \<rparr>" by (simp add: world_ok_def)
  then have g: "good env (wo_flow x)" using world_draw(4) by (simp add: process_ok_def world_ok_def good_def)
  then have "keeps_on env (d i) (wo_flow x)"
    using p world_draw(2,3) rely_refl [OF g] by (auto simp: process_ok_def)
  from process_step_ok [OF world_draw(4,1) grants_refl [OF g] this] show ?case by simp
next
  case (world_death x ps p qs)
  then show ?case by (auto simp: world_ok_def system_of_def sorted_wrt_append)
next
  case (world_work x y)
  then show ?case by (intro work_step_ok)
qed

lemma world_steps_ok:
  assumes "(world_step sha256)\<^sup>*\<^sup>* x y" "world_ok sha256 x"
  shows "world_ok sha256 y \<and> flow_kept (wo_flow x) (wo_flow y)"
  using assms
proof (induction rule: rtranclp_induct)
  case (step y z)
  then show ?case using world_step_ok [OF step(2)] flow_kept_trans by blast
qed simp

lemma reachable_world_ok: "reachable_world sha256 x \<Longrightarrow> world_ok sha256 x"
  unfolding reachable_world_def using world_steps_ok [OF _ initial_world_ok] by blast

lemma reachable_flow_ok: "reachable_world sha256 x \<Longrightarrow> flow_ok sha256 (wo_flow x)"
  using reachable_world_ok by (auto simp: world_ok_def)

end
