(* ===== verification/Workflow_Sample.thy ===== *)
theory Workflow_Sample
  imports Workflow_World
begin

text \<open>
  What a program does when it runs alone can happen in the world. Two small workflows are driven
  this way by the handlers themselves, from the creation of the workflow on: one waits and then
  runs an agent, the other waits and succeeds.
\<close>

subsection \<open>A program on its own\<close>

text \<open>
  Nothing fails, nobody else acts, and the identifiers are those of \<open>ids\<close>, as long as the process
  may draw them and they are free.
\<close>

primrec run_own :: "reconcile_env \<Rightarrow> ('w, 'a) act \<Rightarrow> (nat \<Rightarrow> string) \<Rightarrow> 'w flow \<Rightarrow> 'w flow option" where
  "run_own env (Ended r) = (\<lambda>ids f. Some f)"
| "run_own env (Access a) = (\<lambda>ids f. case map_prod id (run_own env) (a No_fault f) of (g, k) \<Rightarrow> k ids g)"
| "run_own env (Draw d) = (\<lambda>ids f. if re_mine env (ids 0) \<and> free_id (ids 0) f
     then run_own env (d (ids 0)) (\<lambda>n. ids (Suc n)) f else None)"

definition quiet_world :: "'w process list \<Rightarrow> 'w flow \<Rightarrow> 'w world" where
  "quiet_world ps f = \<lparr> wo_flow = f, wo_tasks = [], wo_started = [], wo_processes = ps \<rparr>"

lemma quiet_world_simps [simp]:
  "wo_flow (quiet_world ps f) = f" "wo_processes (quiet_world ps f) = ps"
  "(quiet_world ps f)\<lparr> wo_flow := g \<rparr> = quiet_world ps g" "(quiet_world ps f)\<lparr> wo_processes := qs \<rparr> = quiet_world qs f"
  by (simp_all add: quiet_world_def)

lemma own_steps:
  "run_own env m ids f = Some g \<Longrightarrow> \<exists>r. (world_step sha256)\<^sup>*\<^sup>*
     (quiet_world [\<lparr> pc_env = env, pc_act = m \<rparr>] f) (quiet_world [\<lparr> pc_env = env, pc_act = Ended r \<rparr>] g)"
proof (induction m arbitrary: f ids rule: act_induct)
  case (Ended r)
  then show ?case by auto
next
  case (Access a)
  obtain h m where h: "a No_fault f = (h, m)" by fastforce
  have "world_step sha256 (quiet_world [\<lparr> pc_env = env, pc_act = Access a \<rparr>] f)
      (quiet_world [\<lparr> pc_env = env, pc_act = m \<rparr>] h)"
    using world_access [of "quiet_world [\<lparr> pc_env = env, pc_act = Access a \<rparr>] f" "[]" env a "[]" No_fault h m] h by simp
  moreover from Access.prems h have "run_own env m ids h = Some g" by simp
  from Access.IH [OF h this] obtain r where "(world_step sha256)\<^sup>*\<^sup>*
      (quiet_world [\<lparr> pc_env = env, pc_act = m \<rparr>] h) (quiet_world [\<lparr> pc_env = env, pc_act = Ended r \<rparr>] g)" by blast
  ultimately show ?case by (meson converse_rtranclp_into_rtranclp)
next
  case (Draw d)
  from Draw.prems have i: "re_mine env (ids 0)" "free_id (ids 0) f" "run_own env (d (ids 0)) (\<lambda>n. ids (Suc n)) f = Some g"
    by (auto split: if_splits)
  have "world_step sha256 (quiet_world [\<lparr> pc_env = env, pc_act = Draw d \<rparr>] f)
      (quiet_world [\<lparr> pc_env = env, pc_act = d (ids 0) \<rparr>] f)"
    using world_draw [of "quiet_world [\<lparr> pc_env = env, pc_act = Draw d \<rparr>] f" "[]" env d "[]" "ids 0"] i by simp
  moreover from Draw.IH [OF i(3)] obtain r where "(world_step sha256)\<^sup>*\<^sup>*
      (quiet_world [\<lparr> pc_env = env, pc_act = d (ids 0) \<rparr>] f) (quiet_world [\<lparr> pc_env = env, pc_act = Ended r \<rparr>] g)" by blast
  ultimately show ?case by (meson converse_rtranclp_into_rtranclp)
qed

lemma own_reaches:
  assumes "program env m" "env_ok env" "re_sha256 env = sha256" "run_own env m ids f = Some g"
  shows "(world_step sha256)\<^sup>*\<^sup>* (quiet_world [] f) (quiet_world [] g)"
proof -
  have "world_step sha256 (quiet_world [] f) (quiet_world [\<lparr> pc_env = env, pc_act = m \<rparr>] f)"
    using world_start [OF assms(2,3,1), of "quiet_world [] f"] by simp
  moreover from own_steps [OF assms(4)] obtain r where "(world_step sha256)\<^sup>*\<^sup>*
      (quiet_world [\<lparr> pc_env = env, pc_act = m \<rparr>] f) (quiet_world [\<lparr> pc_env = env, pc_act = Ended r \<rparr>] g)" by blast
  moreover have "world_step sha256 (quiet_world [\<lparr> pc_env = env, pc_act = Ended r \<rparr>] g) (quiet_world [] g)"
    using world_death [of "quiet_world [\<lparr> pc_env = env, pc_act = Ended r \<rparr>] g" "[]" _ "[]"] by simp
  ultimately show ?thesis by (meson converse_rtranclp_into_rtranclp rtranclp.rtrancl_into_rtrancl)
qed

subsection \<open>The environment\<close>

definition flow_digest :: "json_token list \<Rightarrow> string" where
  "flow_digest tokens = ''''"

definition flow_env :: reconcile_env where
  "flow_env = \<lparr> re_sha256 = flow_digest, re_transitionWorkflowRun = postgres_transitionWorkflowRun,
     re_saveWorkflowNodeRun = postgres_saveWorkflowNodeRun,
     re_saveWorkflowNodeRunTransition = postgres_saveWorkflowNodeRunTransition, re_mine = (\<lambda>_. True) \<rparr>"

lemma flow_env_ok: "env_ok flow_env" "re_sha256 flow_env = flow_digest"
  by (simp_all add: env_ok_def flow_env_def)

definition control_env :: application_env where
  "control_env = \<lparr> ae_workspace = (\<lambda>i. Some \<lparr> wsp_id = i, wsp_name = ''W'', wsp_createdAt = DateMs 0,
       wsp_organizationId = None \<rparr>),
     ae_stringify = (\<lambda>_. ''''), ae_byteLength = (\<lambda>_. 0), ae_sha256 = flow_digest \<rparr>"

definition flow_platform :: "unit platform" where
  "flow_platform = \<lparr> pf_runs = empty_run_store,
     pf_agents = \<lparr> as_agents = [(''a'', \<lparr> ag_id = ''a'', ag_workspaceId = ''w'', ag_key = ''k'', ag_name = ''A'',
         ag_createdAt = DateMs 0 \<rparr>)],
       as_versions = [(''v'', \<lparr> av_id = ''v'', av_agentId = ''a'', av_version = 1, av_manifest = JObject
         [(''runtime'', JObject [(''type'', JString ''TYPESCRIPT'')])], av_createdAt = DateMs 0 \<rparr>)] \<rparr>,
     pf_queue = empty_queue, pf_checkpoints = empty_checkpoint_store, pf_journal = [], pf_clock = DateMs 0,
     pf_world = () \<rparr>"

definition names :: "string \<Rightarrow> nat \<Rightarrow> string" where
  "names prefix n = prefix @ replicate n CHR ''x''"

subsection \<open>The stores along the way\<close>

definition waiting_node :: wf_node where
  "waiting_node = \<lparr> wn_key = ''n'', wn_body = Node_WAIT (Some (Wait_DURATION (Finite 5))) \<rparr>"

definition waiting_definition :: workflow_definition where
  "waiting_definition = \<lparr> wd_schemaVersion = ''3'', wd_nodes = [waiting_node], wd_edges = [] \<rparr>"

definition agent_definition :: workflow_definition where
  "agent_definition = \<lparr> wd_schemaVersion = ''3'',
     wd_nodes = [waiting_node, \<lparr> wn_key = ''m'', wn_body = Node_AGENT (Some ''v'') \<rparr>],
     wd_edges = [\<lparr> we_from = ''n'', we_to = ''m'' \<rparr>] \<rparr>"

definition flow_workflow :: workflow where
  "flow_workflow = \<lparr> wk_id = ''wf'', wk_workspaceId = ''w'', wk_key = ''k'', wk_name = ''n'', wk_description = None,
     wk_createdAt = DateMs 1, wk_updatedAt = DateMs 1 \<rparr>"

definition flow_run :: "workflow_run_state \<Rightarrow> jsv \<Rightarrow> js_date option \<Rightarrow> js_date option \<Rightarrow> int \<Rightarrow> workflow_run" where
  "flow_run st result started completed updated = \<lparr> w_id = ''r'', w_workspaceId = ''w'', w_workflowId = ''wf'',
     w_workflowVersionId = ''v'', w_status = st, w_input = JString ''in'', w_output = result, w_error = None,
     w_startedAt = started, w_completedAt = completed, w_createdAt = DateMs 3, w_updatedAt = DateMs updated \<rparr>"

definition wait_node_run :: "workflow_node_run_state \<Rightarrow> jsv \<Rightarrow> js_date option \<Rightarrow> int \<Rightarrow> workflow_node_run" where
  "wait_node_run st result completed updated = \<lparr> n_id = ''t'', n_workspaceId = ''w'', n_workflowRunId = ''r'',
     n_workflowNodeKey = ''n'', n_sequence = 1, n_status = st, n_input = JString ''in'', n_output = result,
     n_childRunId = None, n_selectedTargetKey = None, n_error = None, n_startedAt = Some (DateMs 4),
     n_completedAt = completed, n_createdAt = DateMs 4, n_updatedAt = DateMs updated \<rparr>"

definition agent_node_run :: workflow_node_run where
  "agent_node_run = \<lparr> n_id = ''q'', n_workspaceId = ''w'', n_workflowRunId = ''r'', n_workflowNodeKey = ''m'',
     n_sequence = 2, n_status = NR_RUNNING, n_input = JString ''in'', n_output = JUndefined,
     n_childRunId = Some ''qx'', n_selectedTargetKey = None, n_error = None, n_startedAt = Some (DateMs 21),
     n_completedAt = None, n_createdAt = DateMs 21, n_updatedAt = DateMs 21 \<rparr>"

definition flow_wait :: "js_date option \<Rightarrow> wait_resolution option \<Rightarrow> workflow_wait" where
  "flow_wait resolved resolution = \<lparr> ww_workspaceId = ''w'', ww_workflowRunId = ''r'', ww_workflowNodeRunId = ''t'',
     ww_kind = Kind_TIMER, ww_armedAt = DateMs 4, ww_resolvedAt = resolved, ww_resolution = resolution,
     ww_resolvedByEventId = None, ww_wakeAt = Some (DateMs 9), ww_eventSource = None, ww_eventType = None,
     ww_correlationKey = None, ww_eligibleFrom = None, ww_expiresAt = None \<rparr>"

definition child_run :: run where
  "child_run = \<lparr> r_id = ''qx'', r_workspaceId = ''w'', r_agentId = ''a'', r_status = Run_QUEUED,
     r_effectiveBindings = \<lparr> rb_agentVersionId = ''v'', rb_modelProfileVersionBindings = JObject [],
       rb_toolVersionBindings = JObject [], rb_memoryNamespaceBindings = JObject [],
       rb_knowledgeIndexBindings = JObject [] \<rparr>,
     r_input = JString ''in'', r_createdAt = DateMs 21, r_updatedAt = DateMs 21,
     r_idempotencyKey = Some ''workflow:r:m'', r_evaluationRunId = None, r_evaluationCaseId = None,
     r_restrictPersistentMemory = False, r_recoveryMetadata = None \<rparr>"

definition child_attempt :: run_attempt where
  "child_attempt = \<lparr> a_id = ''qxx'', a_runId = ''qx'', a_sequence = 1, a_status = Att_PENDING,
     a_createdAt = DateMs 21, a_startedAt = None, a_completedAt = None, a_error = None, a_output = JUndefined,
     a_infrastructureMetadata = None, a_executionOwner = None, a_executionGeneration = 0, a_leaseExpiresAt = None \<rparr>"

definition flow_0 :: "unit flow" where
  "flow_0 = empty_flow flow_platform"

definition flow_1 :: "unit flow" where
  "flow_1 = flow_0\<lparr> fl_catalog := \<lparr> wc_workflows = [(''wf'', flow_workflow)], wc_versions = [] \<rparr> \<rparr>"

definition flow_2 :: "workflow_definition \<Rightarrow> unit flow" where
  "flow_2 d = flow_1\<lparr> fl_catalog := \<lparr> wc_workflows = [(''wf'', flow_workflow)],
     wc_versions = [(''v'', \<lparr> wv_id = ''v'', wv_workflowId = ''wf'', wv_workspaceId = ''w'', wv_version = 1,
       wv_definition = d, wv_createdAt = DateMs 2 \<rparr>)] \<rparr> \<rparr>"

definition flow_3 :: "workflow_definition \<Rightarrow> unit flow" where
  "flow_3 d = (flow_2 d)\<lparr> fl_store := \<lparr> ws_runs = [(''r'', flow_run WR_PENDING JUndefined None None 3)], ws_nodes = [] \<rparr> \<rparr>"

definition flow_4 :: "workflow_definition \<Rightarrow> unit flow" where
  "flow_4 d = (flow_3 d)\<lparr> fl_store := \<lparr> ws_runs = [(''r'', flow_run WR_WAITING JUndefined (Some (DateMs 4)) None 4)],
       ws_nodes = [(''t'', wait_node_run NR_WAITING JUndefined None 4)] \<rparr>,
     fl_waits := [(''t'', flow_wait None None)] \<rparr>"

definition flow_5 :: "workflow_definition \<Rightarrow> unit flow" where
  "flow_5 d = (flow_4 d)\<lparr> fl_waits := [(''t'', flow_wait (Some (DateMs 20)) (Some Res_TIMER))] \<rparr>"

definition flow_done :: "unit flow" where
  "flow_done = (flow_5 waiting_definition)\<lparr> fl_store := \<lparr>
     ws_runs = [(''r'', flow_run WR_SUCCEEDED (JString ''in'') (Some (DateMs 4)) (Some (DateMs 21)) 21)],
     ws_nodes = [(''t'', wait_node_run NR_SUCCEEDED (JString ''in'') (Some (DateMs 21)) 21)] \<rparr> \<rparr>"

definition flow_child :: "unit flow" where
  "flow_child = (flow_5 agent_definition)\<lparr>
     fl_platform := flow_platform\<lparr> pf_runs := \<lparr> rs_runs = [(''qx'', child_run)], rs_attempts = [(''qxx'', child_attempt)],
         rs_steps = [], rs_index = [(''w:workflow:r:m'', ''qx'')] \<rparr>,
       pf_queue := \<lparr> jq_pending = [''qxx''], jq_closed = False \<rparr> \<rparr>,
     fl_store := \<lparr> ws_runs = [(''r'', flow_run WR_RUNNING JUndefined (Some (DateMs 4)) None 21)],
       ws_nodes = [(''t'', wait_node_run NR_SUCCEEDED (JString ''in'') (Some (DateMs 21)) 21),
         (''q'', agent_node_run)] \<rparr> \<rparr>"

definition flow_admin :: principal where
  "flow_admin = API_KEY \<lparr> akp_subjectId = ''a'', akp_workspaceId = ''w'', akp_role = Role_ADMIN \<rparr>"

subsection \<open>The steps\<close>

lemma flow_step_1: "run_own flow_env (forget (createWorkflow control_env flow_admin
    \<lparr> cwc_key = ''k'', cwc_name = ''n'', cwc_description = None \<rparr> (DateMs 1))) (names ''wf'') flow_0 = Some flow_1"
  by code_simp

lemma flow_step_2:
  "run_own flow_env (forget (appendVersion control_env flow_admin ''wf'' waiting_definition (DateMs 2)))
     (names ''v'') flow_1 = Some (flow_2 waiting_definition)"
  "run_own flow_env (forget (appendVersion control_env flow_admin ''wf'' agent_definition (DateMs 2)))
     (names ''v'') flow_1 = Some (flow_2 agent_definition)"
  by code_simp+

lemma flow_step_3:
  "run_own flow_env (forget (createWorkflowRun control_env flow_admin ''v'' (JString ''in'') (DateMs 3)))
     (names ''r'') (flow_2 waiting_definition) = Some (flow_3 waiting_definition)"
  "run_own flow_env (forget (createWorkflowRun control_env flow_admin ''v'' (JString ''in'') (DateMs 3)))
     (names ''r'') (flow_2 agent_definition) = Some (flow_3 agent_definition)"
  by code_simp+

lemma flow_step_4:
  "run_own flow_env (orchestratorTick flow_env None (DateMs 4)) (names ''t'') (flow_3 waiting_definition)
     = Some (flow_4 waiting_definition)"
  by code_simp

lemma flow_step_4_agent:
  "run_own flow_env (orchestratorTick flow_env None (DateMs 4)) (names ''t'') (flow_3 agent_definition)
     = Some (flow_4 agent_definition)"
  by code_simp

lemma flow_step_5:
  "run_own flow_env (workflowWaitDriverTick None (DateMs 20)) (names ''u'') (flow_4 waiting_definition)
     = Some (flow_5 waiting_definition)"
  "run_own flow_env (workflowWaitDriverTick None (DateMs 20)) (names ''u'') (flow_4 agent_definition)
     = Some (flow_5 agent_definition)"
  by code_simp+

lemma flow_step_6:
  "run_own flow_env (orchestratorTick flow_env None (DateMs 21)) (names ''q'') (flow_5 waiting_definition) = Some flow_done"
  by code_simp

lemma flow_step_6_agent:
  "run_own flow_env (orchestratorTick flow_env None (DateMs 21)) (names ''q'') (flow_5 agent_definition) = Some flow_child"
  by code_simp

lemma flow_reached_1: "(world_step flow_digest)\<^sup>*\<^sup>* (initial_world flow_platform) (quiet_world [] flow_1)"
  using own_reaches [OF run_create_workflow flow_env_ok flow_step_1]
  by (simp add: initial_world_def quiet_world_def flow_0_def)

lemma flow_reached:
  "(world_step flow_digest)\<^sup>*\<^sup>* (initial_world flow_platform) (quiet_world [] (flow_5 waiting_definition))"
  "(world_step flow_digest)\<^sup>*\<^sup>* (initial_world flow_platform) (quiet_world [] (flow_5 agent_definition))"
  by (rule rtranclp_trans [OF flow_reached_1],
      rule rtranclp_trans [OF own_reaches [OF run_append_version flow_env_ok flow_step_2(1)]],
      rule rtranclp_trans [OF own_reaches [OF run_create_run flow_env_ok flow_step_3(1)]],
      rule rtranclp_trans [OF own_reaches [OF run_orchestrator flow_env_ok flow_step_4]],
      rule own_reaches [OF run_wait_driver flow_env_ok flow_step_5(1)])
    (rule rtranclp_trans [OF flow_reached_1],
      rule rtranclp_trans [OF own_reaches [OF run_append_version flow_env_ok flow_step_2(2)]],
      rule rtranclp_trans [OF own_reaches [OF run_create_run flow_env_ok flow_step_3(2)]],
      rule rtranclp_trans [OF own_reaches [OF run_orchestrator flow_env_ok flow_step_4_agent]],
      rule own_reaches [OF run_wait_driver flow_env_ok flow_step_5(2)])

lemma flow_last_step:
  "(world_step flow_digest)\<^sup>*\<^sup>* (quiet_world [] (flow_5 waiting_definition)) (quiet_world [] flow_done)"
  "(world_step flow_digest)\<^sup>*\<^sup>* (quiet_world [] (flow_5 agent_definition)) (quiet_world [] flow_child)"
  by (rule own_reaches [OF run_orchestrator flow_env_ok flow_step_6])
    (rule own_reaches [OF run_orchestrator flow_env_ok flow_step_6_agent])

lemma flow_reachable:
  "reachable_world flow_digest (quiet_world [] flow_done)" "reachable_world flow_digest (quiet_world [] flow_child)"
  "reachable_world flow_digest (quiet_world [] (flow_5 agent_definition))"
  unfolding reachable_world_def using flow_reached flow_last_step by (meson rtranclp_trans)+

end
