(* ===== verification/Schedule_Properties.thy ===== *)
theory Schedule_Properties
  imports Workflow_Sample
begin

text \<open>
  What holds of schedules in every reachable world: an instant of a schedule is materialized once
  and gets one run. And what does not hold: an update of a schedule that was read before a tick puts
  the old instant back, and from then on the scheduler materializes nothing at all.
\<close>

subsection \<open>One run for each occurrence\<close>

lemma reachable_schedules: "reachable_world sha256 x \<Longrightarrow> schedules_keyed (fl_schedules (wo_flow x))"
  by (drule reachable_flow_ok) (simp add: flow_ok_def)

lemma reachable_occurrence:
  assumes "reachable_world sha256 x" "findOccurrenceById (fl_schedules (wo_flow x)) i = Some a"
  shows "occurrence_ok (wo_flow x) a"
  using reachable_flow_ok [OF assms(1)] assms(2) by (simp add: flow_ok_def findOccurrenceById_def)

lemma run_with_key:
  assumes "keys_indexed s" "findRunById s j = Some q" "run_key q = Some k" "findRunById s (r_id r) = Some r" "run_key r = Some k"
  shows "j = r_id r" "q = r"
proof -
  show "j = r_id r" using assms unfolding keys_indexed_def by (metis option.inject)
  with assms(2,4) show "q = r" by (metis option.inject)
qed

text \<open>
  C6. Whatever schedulers, workers and handlers run at once, fail or die: the run attached to an
  occurrence is stored and has the idempotency key of the schedule and the instant, which no other
  run has; and an occurrence counts as dispatched only with a run attached that has left PENDING.
\<close>

theorem one_run_per_occurrence:
  assumes "reachable_world sha256 x" "findOccurrenceById (fl_schedules (wo_flow x)) i = Some a"
    and "so_runId a \<noteq> None \<or> so_dispatchedAt a \<noteq> None"
  shows "\<exists>r t key. toISOString (so_scheduledFor a) = Inr t
    \<and> key = workspaceIdempotencyKey (so_workspaceId a) (''schedule:'' @ so_scheduleId a @ '':'' @ t)
    \<and> so_runId a = Some (r_id r) \<and> findRunById (run_store_of (wo_flow x)) (r_id r) = Some r \<and> run_key r = Some key
    \<and> (\<forall>j q. findRunById (run_store_of (wo_flow x)) j = Some q \<longrightarrow> run_key q = Some key \<longrightarrow> j = r_id r \<and> q = r)
    \<and> (so_dispatchedAt a \<noteq> None \<longrightarrow> r_status r \<noteq> Run_PENDING)"
proof -
  from reachable_occurrence [OF assms(1,2)] assms(3) obtain r where r: "scheduled_run (run_store_of (wo_flow x)) a r"
    unfolding occurrence_ok_def by blast
  from r obtain k where k: "scheduleOccurrenceRunIdempotencyKey (so_scheduleId a) (so_scheduledFor a) = Inr k"
    "run_key r = Some (workspaceIdempotencyKey (so_workspaceId a) k)" unfolding scheduled_run_def by blast
  from k(1) obtain t where t: "toISOString (so_scheduledFor a) = Inr t" "k = ''schedule:'' @ so_scheduleId a @ '':'' @ t"
    unfolding scheduleOccurrenceRunIdempotencyKey_def and_then_Inr by blast
  have ki: "keys_indexed (run_store_of (wo_flow x))"
    using reachable_flow_ok [OF assms(1)] by (simp add: flow_ok_def)
  have rr: "so_runId a = Some (r_id r)" "findRunById (run_store_of (wo_flow x)) (r_id r) = Some r"
    "so_dispatchedAt a \<noteq> None \<longrightarrow> r_status r \<noteq> Run_PENDING" using r by (simp_all add: scheduled_run_def)
  show ?thesis
    by (rule exI [of _ r], rule exI [of _ t], rule exI [of _ "workspaceIdempotencyKey (so_workspaceId a) k"])
      (intro conjI allI impI rr(1,2) rr(3) [rule_format] k(2) t(1) arg_cong [OF t(2)] run_with_key(1) [OF ki _ _ rr(2) k(2)]
        run_with_key(2) [OF ki _ _ rr(2) k(2)]; assumption)
qed

text \<open>
  C7. An instant of a schedule has at most one occurrence, at any two moments: a later occurrence
  for the same schedule and instant is the same one, with the version and the input it was made
  with, the run it was attached to and the time it was dispatched at, and it belongs to a stored
  schedule of its workspace and agent.
\<close>

theorem occurrence_materialized_once:
  assumes "reachable_world sha256 x" "(world_step sha256)\<^sup>*\<^sup>* x y"
    and "findOccurrenceById (fl_schedules (wo_flow x)) i = Some a" "findOccurrenceById (fl_schedules (wo_flow y)) j = Some b"
    and "so_scheduleId b = so_scheduleId a" "so_scheduledFor b = so_scheduledFor a"
  shows "i = j \<and> b = a\<lparr> so_runId := so_runId b, so_dispatchedAt := so_dispatchedAt b \<rparr>
    \<and> (so_runId a \<noteq> None \<longrightarrow> so_runId b = so_runId a)
    \<and> (so_dispatchedAt a \<noteq> None \<longrightarrow> so_dispatchedAt b = so_dispatchedAt a)
    \<and> (\<exists>s. findScheduleById (fl_schedules (wo_flow y)) (so_scheduleId b) = Some s
        \<and> sc_workspaceId s = so_workspaceId b \<and> sc_agentId s = so_agentId b)"
proof -
  have y: "reachable_world sha256 y" using assms(1,2) unfolding reachable_world_def by (meson rtranclp_trans)
  have "flow_kept (wo_flow x) (wo_flow y)"
    using world_steps_ok [OF assms(2) reachable_world_ok [OF assms(1)]] by simp
  from flow_kept_occurrence [OF this] assms(3) obtain c where
    c: "map_of (ss_occurrences (fl_schedules (wo_flow y))) i = Some c" "occurrence_kept a c"
    by (auto simp: findOccurrenceById_def)
  have "so_scheduleId c = so_scheduleId a" "so_scheduledFor c = so_scheduledFor a"
    using c(2) by (cases a; cases c; simp add: occurrence_kept_def)+
  with reachable_schedules [OF y] c(1) assms(4-6) have "i = j"
    unfolding schedules_keyed_def findOccurrenceById_def by metis
  with c assms(4) reachable_occurrence [OF y assms(4)] show ?thesis
    by (auto simp: findOccurrenceById_def findScheduleById_def occurrence_kept_def occurrence_ok_def)
qed

subsection \<open>A stale update stops the scheduler\<close>

lemma update_in_place:
  assumes "distinct (map_keys m)" "map_of m k = Some v"
  shows "set (map_values (AList.update k w m)) = insert w {u. \<exists>j. j \<noteq> k \<and> map_of m j = Some u}"
proof -
  have "distinct (map_keys (AList.update k w m))" using assms(1) by (rule distinct_keys_update)
  then have "v \<in> set (map_values (AList.update k w m)) \<longleftrightarrow> (\<exists>j. map_of (AList.update k w m) j = Some v)" for v
    by (rule values_map_of)
  then show ?thesis by (intro set_eqI) (auto split: if_splits simp del: image_eqI set_map)
qed

text \<open>The schedule the next transaction takes.\<close>

abbreviation due_order :: "cron \<Rightarrow> schedule \<Rightarrow> js_date \<times> string" where
  "due_order cr \<equiv> \<lambda>z. (the (sc_nextRunAt z), cr_collate cr (sc_id z))"

lemma due_head:
  assumes "x \<in> set (map_values (ss_schedules s))" "due now x"
    and "\<And>z. z \<in> set (map_values (ss_schedules s)) \<Longrightarrow> due now z \<Longrightarrow> z \<noteq> x \<Longrightarrow> due_order cr x < due_order cr z"
  shows "\<exists>xs. due_schedules cr now s = x # xs"
proof -
  have "set (due_schedules cr now s) = {z \<in> set (map_values (ss_schedules s)). due now z}" by (auto simp: due_schedules_def)
  with assms(1,2) obtain z zs where z: "due_schedules cr now s = z # zs" by (cases "due_schedules cr now s") auto
  note h = sort_key_head [OF z [unfolded due_schedules_def]]
  have "z = x"
  proof (rule ccontr)
    assume "z \<noteq> x"
    with h(1) assms(3) have "due_order cr x < due_order cr z" by simp
    moreover have "due_order cr z \<le> due_order cr x" using h(2) assms(1,2) by simp
    ultimately show False by (meson leD)
  qed
  with z show ?thesis by blast
qed

lemma occurrence_again_refused:
  assumes "due_schedules cr now s = x # xs" "sc_nextRunAt x = Some t" "occurrence_exists s (sc_id x) t"
    and "postgres_materializeOne cr now i s = Inr (r, s')"
  shows "r = None \<and> s' = s"
  using assms by (auto simp: postgres_materializeOne_def and_then_Inr split: if_splits)

text \<open>What a renaming leaves in the row, whatever the row was meanwhile.\<close>

definition renaming :: "string \<Rightarrow> js_date \<Rightarrow> schedule_update_props" where
  "renaming n now = \<lparr> scu_name = Some n, scu_agentVersionId = None, scu_cronExpression = None, scu_timezone = None,
     scu_input = None, scu_enabled = None, scu_now = now \<rparr>"

lemma renamed:
  "Schedule_update cr x (renaming n now) = Inr y \<Longrightarrow>
     sc_id y = sc_id x \<and> sc_enabled y = sc_enabled x \<and> (sc_enabled x \<longrightarrow> sc_nextRunAt y = sc_nextRunAt x)"
  by (auto simp: Schedule_update_def renaming_def updated_next_run_def Schedule_rehydrate_def Let_def and_then_Inr
      result_simps split: if_splits)

lemma stalled_again:
  assumes keyed: "schedules_keyed s" and collate: "inj (cr_collate cr)"
    and h: "due_schedules cr now s = x0 # xs" "sc_nextRunAt x0 = Some t"
    and a: "ScheduleOccurrence_create (occurrence_of x0 t i now) = Inr a" and x': "advanced cr x0 now = Inr x'"
    and s1: "s1 = s\<lparr> ss_schedules := AList.update (sc_id x0) x' (ss_schedules s),
      ss_occurrences := AList.update i a (ss_occurrences s) \<rparr>"
    and x: "findScheduleById s (so_scheduleId a) = Some x"
    and u: "Schedule_update cr x (renaming n t') = Inr y" "postgres_updateSchedule y s1 = Inr s2"
    and later: "date_le now now'"
  shows "\<forall>j r s3. postgres_materializeOne cr now' j s2 = Inr (r, s3) \<longrightarrow> r = None \<and> s3 = s2"
proof -
  note a_fields = created_occurrence [OF a]
  have st: "map_of (ss_schedules s) (sc_id x0) = Some x0"
    by (rule due_schedule_stored [OF keyed, of x0 cr now]) (simp add: h(1))
  with x a_fields have x0: "x0 = x" by (simp add: findScheduleById_def)
  have due: "due now x" using sort_key_head(1) [OF h(1) [unfolded due_schedules_def]] x0 by simp
  note y = renamed [OF u(1)]
  let ?row = "x'\<lparr> sc_name := sc_name y, sc_agentVersionId := sc_agentVersionId y, sc_cronExpression := sc_cronExpression y,
     sc_timezone := sc_timezone y, sc_input := sc_input y, sc_enabled := sc_enabled y,
     sc_nextRunAt := sc_nextRunAt y, sc_updatedAt := sc_updatedAt y \<rparr>"
  have row: "sc_id ?row = sc_id x" "sc_nextRunAt ?row = Some t" "sc_enabled ?row"
    using y h(2) due x0 advanced_kept [OF x'] by (auto simp: due_def)
  have s2: "ss_schedules s2 = AList.update (sc_id x) ?row (ss_schedules s)"
    "ss_occurrences s2 = AList.update i a (ss_occurrences s)"
    using u(2) y x0 by (auto simp: postgres_updateSchedule_def s1 update_update)
  have vals: "set (map_values (ss_schedules s2)) = insert ?row {z. \<exists>j. j \<noteq> sc_id x \<and> map_of (ss_schedules s) j = Some z}"
    unfolding s2 by (rule update_in_place [OF _ st [unfolded x0]]) (use keyed in \<open>simp only: schedules_keyed_def\<close>)
  have t: "date_le t now" using due h(2) x0 by (simp add: due_def)
  have "\<exists>zs. due_schedules cr now' s2 = ?row # zs"
  proof (rule due_head)
    show "?row \<in> set (map_values (ss_schedules s2))" unfolding vals by (rule insertI1)
    show "due now' ?row" using row date_le_trans [OF t later] by (simp add: due_def)
  next
    fix z assume z: "z \<in> set (map_values (ss_schedules s2))" "due now' z" "z \<noteq> ?row"
    then obtain j where j: "j \<noteq> sc_id x" "map_of (ss_schedules s) j = Some z" using vals by auto
    then have id: "sc_id z \<noteq> sc_id x" using keyed by (auto simp: schedules_keyed_def)
    from z(2) obtain tz where tz: "sc_enabled z" "sc_nextRunAt z = Some tz" "date_le tz now'"
      by (auto simp: due_def split: option.splits)
    have "due_order cr x < due_order cr z"
    proof (cases "due now z")
      case True
      then have "due_order cr x \<le> due_order cr z"
        using sort_key_head(2) [OF h(1) [unfolded due_schedules_def]] map_of_SomeD_snd [OF j(2)] x0 by simp
      moreover have "due_order cr x \<noteq> due_order cr z" using id injD [OF collate, of "sc_id z" "sc_id x"] by force
      ultimately show ?thesis by (rule order.not_eq_order_implies_strict [rotated])
    next
      case False
      with tz t have "t < tz" by (auto simp: due_def date_le_less_eq)
      then show ?thesis using h(2) x0 tz by (simp add: less_prod_def)
    qed
    then show "due_order cr ?row < due_order cr z" using row h(2) x0 by simp
  qed
  then obtain zs where zs: "due_schedules cr now' s2 = ?row # zs" by blast
  have "a \<in> set (map_values (ss_occurrences s2))"
    unfolding s2 using map_of_SomeD_snd [of "AList.update i a (ss_occurrences s)" i a] by simp
  with a_fields x0 row have "occurrence_exists s2 (sc_id ?row) t" by (auto simp: occurrence_exists_def list_ex_iff)
  with occurrence_again_refused [OF zs row(2)] show ?thesis by blast
qed

text \<open>
  C38. A tick has materialized the first due schedule; somebody who had read the schedule before
  renames it, which writes the old instant back. From then on the transaction of the scheduler finds
  this schedule first at any later time, the unique index refuses the occurrence, nothing is stored,
  and the loop of every tick ends there: no schedule is materialized any more.
\<close>

theorem stale_update_stalls_scheduler:
  assumes keyed: "schedules_keyed s" and collate: "inj (cr_collate cr)"
    and m: "postgres_materializeOne cr now i s = Inr (Some a, s1)"
    and x: "findScheduleById s (so_scheduleId a) = Some x"
    and u: "Schedule_update cr x (renaming n t') = Inr y" "postgres_updateSchedule y s1 = Inr s2"
    and later: "date_le now now'"
  shows "\<forall>j r s3. postgres_materializeOne cr now' j s2 = Inr (r, s3) \<longrightarrow> r = None \<and> s3 = s2"
proof -
  have some: "\<not> (Some a = None \<and> s1 = s)" by simp
  from m some show ?thesis
  proof (cases rule: materializeOne_parts)
    case (1 x0 xs t o' x')
    have a: "o' = a" using 1(7) by simp
    show ?thesis
      by (rule stalled_again [OF keyed collate 1(1,2) _ 1(4) _ x u later]) (use 1 a in \<open>simp_all\<close>)
  qed
qed

subsection \<open>A schedule at work\<close>

definition sample_cron :: cron where
  "sample_cron = \<lparr> cr_accepts = (\<lambda>e. True), cr_zone = (\<lambda>z. True),
     cr_next = (\<lambda>e z d. case d of InvalidDate \<Rightarrow> Inl (RangeError ''Invalid time value'') | DateMs t \<Rightarrow> Inr (DateMs (t + 60))),
     cr_collate = (\<lambda>i. i) \<rparr>"

definition sample_schedule_command :: create_schedule_command where
  "sample_schedule_command = \<lparr> csc_key = ''k'', csc_name = ''n'', csc_agentId = ''a'', csc_agentVersionId = ''v'',
     csc_cronExpression = ''* * * * *'', csc_timezone = ''UTC'', csc_input = JString ''in'', csc_enabled = None \<rparr>"

definition sample_rename :: update_schedule_command where
  "sample_rename = \<lparr> usc_scheduleId = ''s'', usc_name = Some ''m'', usc_agentVersionId = None, usc_cronExpression = None,
     usc_timezone = None, usc_input = None, usc_enabled = None \<rparr>"

definition sample_schedule :: "string \<Rightarrow> int \<Rightarrow> int \<Rightarrow> schedule" where
  "sample_schedule n next_run updated = \<lparr> sc_id = ''s'', sc_workspaceId = ''w'', sc_key = ''k'', sc_name = n,
     sc_agentId = ''a'', sc_agentVersionId = ''v'', sc_cronExpression = ''* * * * *'', sc_timezone = ''UTC'',
     sc_input = JString ''in'', sc_enabled = True, sc_nextRunAt = Some (DateMs next_run), sc_createdAt = DateMs 10,
     sc_updatedAt = DateMs updated \<rparr>"

definition sample_occurrence :: schedule_occurrence where
  "sample_occurrence = \<lparr> so_id = ''o'', so_scheduleId = ''s'', so_workspaceId = ''w'', so_agentId = ''a'',
     so_agentVersionId = ''v'', so_input = JString ''in'', so_scheduledFor = DateMs 70, so_runId = Some ''oxx'',
     so_createdAt = DateMs 80, so_dispatchedAt = Some (DateMs 80) \<rparr>"

definition scheduled_sample_run :: run where
  "scheduled_sample_run = \<lparr> r_id = ''oxx'', r_workspaceId = ''w'', r_agentId = ''a'', r_status = Run_QUEUED,
     r_effectiveBindings = r_effectiveBindings child_run, r_input = JString ''in'', r_createdAt = DateMs 80,
     r_updatedAt = DateMs 80, r_idempotencyKey = Some ''schedule:s:1970-01-01T00:00:00.070Z'',
     r_evaluationRunId = None, r_evaluationCaseId = None, r_restrictPersistentMemory = False, r_recoveryMetadata = None \<rparr>"

definition sched_1 :: "unit flow" where
  "sched_1 = flow_0\<lparr> fl_schedules := empty_schedule_store\<lparr> ss_schedules := [(''s'', sample_schedule ''n'' 70 10)] \<rparr> \<rparr>"

definition sched_2 :: "unit flow" where
  "sched_2 = flow_0\<lparr>
     fl_platform := flow_platform\<lparr> pf_runs := \<lparr> rs_runs = [(''oxx'', scheduled_sample_run)],
         rs_attempts = [(''oxxx'', child_attempt\<lparr> a_id := ''oxxx'', a_runId := ''oxx'', a_createdAt := DateMs 80 \<rparr>)],
         rs_steps = [], rs_index = [(''w:schedule:s:1970-01-01T00:00:00.070Z'', ''oxx'')] \<rparr>,
       pf_queue := \<lparr> jq_pending = [''oxxx''], jq_closed = False \<rparr> \<rparr>,
     fl_schedules := empty_schedule_store\<lparr> ss_schedules := [(''s'', sample_schedule ''n'' 140 80)],
       ss_occurrences := [(''o'', sample_occurrence)] \<rparr> \<rparr>"

definition sched_3 :: "unit flow" where
  "sched_3 = sched_2\<lparr> fl_schedules := empty_schedule_store\<lparr> ss_schedules := [(''s'', sample_schedule ''m'' 140 90)],
     ss_occurrences := [(''o'', sample_occurrence)] \<rparr> \<rparr>"

lemma sched_step_1: "run_own flow_env (forget (createSchedule control_env sample_cron flow_admin sample_schedule_command
    (DateMs 10))) (names ''s'') flow_0 = Some sched_1"
  by code_simp

lemma sched_step_2:
  "run_own flow_env (schedulerTick sample_cron 2 2 (DateMs 80)) (names ''o'') sched_1 = Some sched_2"
  by code_simp

lemma sched_step_3:
  "run_own flow_env (forget (changeSchedule sample_cron flow_admin sample_rename (DateMs 90))) (names ''p'') sched_2
     = Some sched_3"
  by code_simp

lemma sched_reached:
  "(world_step flow_digest)\<^sup>*\<^sup>* (initial_world flow_platform) (quiet_world [] sched_1)"
  "(world_step flow_digest)\<^sup>*\<^sup>* (initial_world flow_platform) (quiet_world [] sched_2)"
  "(world_step flow_digest)\<^sup>*\<^sup>* (quiet_world [] sched_2) (quiet_world [] sched_3)"
proof -
  show one: "(world_step flow_digest)\<^sup>*\<^sup>* (initial_world flow_platform) (quiet_world [] sched_1)"
    using own_reaches [OF run_create_schedule flow_env_ok sched_step_1]
    by (simp add: initial_world_def quiet_world_def flow_0_def)
  show "(world_step flow_digest)\<^sup>*\<^sup>* (initial_world flow_platform) (quiet_world [] sched_2)"
    by (rule rtranclp_trans [OF one own_reaches [OF run_scheduler flow_env_ok sched_step_2]])
  show "(world_step flow_digest)\<^sup>*\<^sup>* (quiet_world [] sched_2) (quiet_world [] sched_3)"
    by (rule own_reaches [OF run_change_schedule flow_env_ok sched_step_3])
qed

lemma sched_reachable: "reachable_world flow_digest (quiet_world [] sched_1)" "reachable_world flow_digest (quiet_world [] sched_2)"
  unfolding reachable_world_def using sched_reached by blast+

lemma sched_found:
  "findOccurrenceById (fl_schedules (wo_flow (quiet_world [] sched_2))) ''o'' = Some sample_occurrence"
  "findOccurrenceById (fl_schedules (wo_flow (quiet_world [] sched_3))) ''o'' = Some sample_occurrence"
  by (simp_all add: sched_2_def sched_3_def findOccurrenceById_def)

lemma sample_instant: "iso_text 70 = ''1970-01-01T00:00:00.070Z''"
  by code_simp

theorem one_run_per_occurrence_witness:
  "\<exists>r. findRunById (run_store_of sched_2) ''oxx'' = Some r \<and> r_status r \<noteq> Run_PENDING
    \<and> run_key r = Some (workspaceIdempotencyKey ''w'' ''schedule:s:1970-01-01T00:00:00.070Z'')"
proof -
  have a: "so_runId sample_occurrence = Some ''oxx''" "so_dispatchedAt sample_occurrence = Some (DateMs 80)"
    "so_scheduleId sample_occurrence = ''s''" "so_scheduledFor sample_occurrence = DateMs 70"
    "so_workspaceId sample_occurrence = ''w''" by (simp_all add: sample_occurrence_def)
  have "Some ''oxx'' \<noteq> None \<or> Some (DateMs 80) \<noteq> None" by simp
  from one_run_per_occurrence [OF sched_reachable(2) sched_found(1), unfolded a toISOString.simps sample_instant, OF this]
  show ?thesis
  proof (elim exE conjE, goal_cases)
    case (1 r t key)
    from 1(1,3) have "t = ''1970-01-01T00:00:00.070Z''" "r_id r = ''oxx''" by simp_all
    with 1(2,4,5,7) show ?case by (intro exI [of _ r]) simp
  qed
qed

theorem occurrence_materialized_once_witness:
  "\<exists>a b. findOccurrenceById (fl_schedules sched_2) ''o'' = Some a \<and> findOccurrenceById (fl_schedules sched_3) ''o'' = Some b
    \<and> so_runId a = Some ''oxx'' \<and> so_runId b = so_runId a \<and> so_dispatchedAt b = so_dispatchedAt a"
  using occurrence_materialized_once [OF sched_reachable(2) sched_reached(3) sched_found refl refl] sched_found
  by (simp add: sample_occurrence_def)

definition fresh_occurrence :: schedule_occurrence where
  "fresh_occurrence = sample_occurrence\<lparr> so_runId := None, so_dispatchedAt := None \<rparr>"

definition store_with :: "schedule \<Rightarrow> schedule_store" where
  "store_with x = empty_schedule_store\<lparr> ss_schedules := [(''s'', x)], ss_occurrences := [(''o'', fresh_occurrence)] \<rparr>"

lemma stale_1: "postgres_materializeOne sample_cron (DateMs 80) ''o'' (fl_schedules sched_1)
      = Inr (Some fresh_occurrence, store_with (sample_schedule ''n'' 140 80))"
  by code_simp

lemma stale_2: "findScheduleById (fl_schedules sched_1) (so_scheduleId fresh_occurrence) = Some (sample_schedule ''n'' 70 10)"
  by code_simp

lemma stale_3: "Schedule_update sample_cron (sample_schedule ''n'' 70 10) (renaming ''m'' (DateMs 81))
      = Inr (sample_schedule ''m'' 70 81)"
  by code_simp

lemma stale_4: "postgres_updateSchedule (sample_schedule ''m'' 70 81) (store_with (sample_schedule ''n'' 140 80))
      = Inr (store_with (sample_schedule ''m'' 70 81))"
  by code_simp

lemma stale_5: "postgres_materializeOne sample_cron (DateMs 1000) ''q'' (store_with (sample_schedule ''m'' 70 81))
      = Inr (None, store_with (sample_schedule ''m'' 70 81))"
  by code_simp

theorem stale_update_stalls_scheduler_witness:
  "Schedule_update sample_cron (sample_schedule ''n'' 70 10) (renaming ''m'' (DateMs 81)) = Inr (sample_schedule ''m'' 70 81)
    \<and> postgres_updateSchedule (sample_schedule ''m'' 70 81) (store_with (sample_schedule ''n'' 140 80))
      = Inr (store_with (sample_schedule ''m'' 70 81))
    \<and> (\<exists>r s. postgres_materializeOne sample_cron (DateMs 1000) ''q'' (store_with (sample_schedule ''m'' 70 81)) = Inr (r, s)
         \<and> r = None \<and> s = store_with (sample_schedule ''m'' 70 81))"
proof -
  have c: "inj (cr_collate sample_cron)" by (simp add: sample_cron_def)
  have k: "schedules_keyed (fl_schedules sched_1)" using reachable_schedules [OF sched_reachable(1)] by simp
  have l: "date_le (DateMs 80) (DateMs 1000)" by simp
  obtain r s where m: "postgres_materializeOne sample_cron (DateMs 1000) ''q'' (store_with (sample_schedule ''m'' 70 81))
      = Inr (r, s)" using stale_5 by blast
  with stale_update_stalls_scheduler [OF k c stale_1 stale_2 stale_3 stale_4 l]
  have "r = None \<and> s = store_with (sample_schedule ''m'' 70 81)" by blast
  with m stale_3 stale_4 show ?thesis by blast
qed

end
