(* ===== verification/Office_Properties.thy ===== *)
theory Office_Properties
  imports Schedule_Properties
begin

text \<open>
  What holds of assignments in every reachable world: the status of an assignment has its reason in
  the run that backs it, and an agent gets one run for an assignment. And two things that do not
  hold: an update whose handler read the assignment before its launch takes the launch back, and two
  of the routes serve the assignments of every workspace to everybody.
\<close>

subsection \<open>The reason of a status\<close>

lemma reachable_assignment:
  assumes "reachable_world sha256 x" "findAssignmentById (fl_office (wo_flow x)) i = Some a"
  shows "as_id a = i" "assignment_refs (fl_office (wo_flow x)) a" "assignment_ok (wo_flow x) a"
  using reachable_flow_ok [OF assms(1)] assms(2) by (simp_all add: flow_ok_def office_ok_def findAssignmentById_def)

lemma backed_cases:
  assumes "backed f a P Q"
  shows "as_startedAt a \<noteq> None" "(\<exists>r. assignment_run (run_store_of f) a r \<and> P (r_status r))
    \<or> (\<exists>w. assignment_workflow_run (fl_store f) a w \<and> Q (w_status w))"
  using assms by (auto simp: backed_def split: assignment_target.splits)

text \<open>
  C8. Whatever handlers, workers, orchestrators and schedulers run at once, fail or die: an
  assignment is of the workspace of its worker and its goal. While it is PENDING it has no run and
  was not started. It is COMPLETED only if its own run, or the run of its own workflow version, has
  SUCCEEDED, FAILED only if that run has failed or timed out, and CANCELLED only if it was never
  launched or its run was cancelled; the run of an agent has the idempotency key of the assignment.
\<close>

theorem assignment_outcomes_justified:
  assumes "reachable_world sha256 x" "findAssignmentById (fl_office (wo_flow x)) i = Some a"
  shows "(\<exists>w. findOfficeWorkerById (fl_office (wo_flow x)) (as_officeWorkerId a) = Some w
        \<and> ow_workspaceId w = as_workspaceId a)
    \<and> (\<forall>g. as_goalId a = Some g \<longrightarrow> (\<exists>h. findGoalByWorkspaceAndId (fl_office (wo_flow x)) (as_workspaceId a) g = Some h))
    \<and> (as_status a = As_PENDING \<longrightarrow> as_runId a = None \<and> as_workflowRunId a = None \<and> as_startedAt a = None)
    \<and> (as_status a = As_COMPLETED \<longrightarrow>
        (\<exists>r. assignment_run (run_store_of (wo_flow x)) a r \<and> r_status r = Run_SUCCEEDED)
        \<or> (\<exists>w. assignment_workflow_run (fl_store (wo_flow x)) a w \<and> w_status w = WR_SUCCEEDED))
    \<and> (as_status a = As_FAILED \<longrightarrow>
        (\<exists>r. assignment_run (run_store_of (wo_flow x)) a r \<and> r_status r \<in> {Run_FAILED, Run_TIMED_OUT})
        \<or> (\<exists>w. assignment_workflow_run (fl_store (wo_flow x)) a w \<and> w_status w = WR_FAILED))
    \<and> (as_status a = As_CANCELLED \<longrightarrow> (as_runId a = None \<and> as_workflowRunId a = None \<and> as_startedAt a = None)
        \<or> (\<exists>r. assignment_run (run_store_of (wo_flow x)) a r \<and> r_status r = Run_CANCELLED))"
proof -
  note a = reachable_assignment [OF assms]
  have ok: "assignment_reason (wo_flow x) a (as_status a)" using a(3) by (simp add: assignment_ok_def)
  have refs: "(\<exists>w. findOfficeWorkerById (fl_office (wo_flow x)) (as_officeWorkerId a) = Some w
        \<and> ow_workspaceId w = as_workspaceId a)"
    "as_goalId a = Some g \<Longrightarrow> \<exists>h. findGoalByWorkspaceAndId (fl_office (wo_flow x)) (as_workspaceId a) g = Some h" for g
    using a(2) by (auto simp: assignment_refs_def worker_in_def goal_in_def findOfficeWorkerById_def
        findGoalByWorkspaceAndId_def in_workspace_Some)
  show ?thesis
    by (intro conjI allI impI refs; (assumption)?; use ok in \<open>simp add: assignment_reason_def not_launched_def\<close>)
      (auto dest: backed_cases(2))
qed

subsection \<open>One run for each assignment\<close>

lemma launched_agent_run:
  assumes "assignment_ok f a" "as_targetType a = Target_AGENT_VERSION" "as_runId a = Some r"
  shows "\<exists>q. assignment_run (run_store_of f) a q"
  using assms by (auto simp: assignment_ok_def assignment_reason_def not_launched_def backed_def
      split: assignment_state.splits)

text \<open>
  C9. At any two moments, an assignment to an agent that has a run has the same one: it is launched
  at most once, however often and from wherever the launch is repeated, and even if an update takes
  the assignment back to PENDING in between. No other run has its key.
\<close>

theorem agent_assignment_one_run:
  assumes "reachable_world sha256 x" "(world_step sha256)\<^sup>*\<^sup>* x y"
    and "findAssignmentById (fl_office (wo_flow x)) i = Some a" "findAssignmentById (fl_office (wo_flow y)) i = Some b"
    and "as_targetType a = Target_AGENT_VERSION" "as_runId a = Some r" "as_runId b = Some s"
  shows "r = s \<and> (\<exists>q. findRunById (run_store_of (wo_flow y)) s = Some q \<and> r_id q = s
    \<and> run_key q = Some (workspaceIdempotencyKey (as_workspaceId b) (''assignment:'' @ i))
    \<and> (\<forall>j q'. findRunById (run_store_of (wo_flow y)) j = Some q' \<longrightarrow> run_key q' = run_key q \<longrightarrow> j = s \<and> q' = q))"
proof -
  have y: "reachable_world sha256 y" using assms(1,2) unfolding reachable_world_def by (meson rtranclp_trans)
  have k: "flow_kept (wo_flow x) (wo_flow y)"
    using world_steps_ok [OF assms(2) reachable_world_ok [OF assms(1)]] by simp
  note a = reachable_assignment [OF assms(1,3)] and b = reachable_assignment [OF y assms(4)]
  have "entries_kept assignment_kept (of_assignments (fl_office (wo_flow x))) (of_assignments (fl_office (wo_flow y)))"
    using flow_kept_office [OF k] by (simp add: office_kept_def)
  from entries_keptD [OF this assms(3) [unfolded findAssignmentById_def]] obtain b' where
    b': "map_of (of_assignments (fl_office (wo_flow y))) i = Some b'" "assignment_kept a b'" by blast
  then have ab: "assignment_kept a b" using assms(4) by (simp add: findAssignmentById_def)
  from launched_agent_run [OF a(3) assms(5,6)] obtain p where "assignment_run (run_store_of (wo_flow x)) a p" by blast
  from assignment_run_kept [OF k this] obtain p' where p: "assignment_run (run_store_of (wo_flow y)) a p'" by blast
  have "as_targetType b = Target_AGENT_VERSION" using ab assms(5) by (simp add: assignment_kept_def)
  from launched_agent_run [OF b(3) this assms(7)] obtain q where q: "assignment_run (run_store_of (wo_flow y)) b q" by blast
  have ki: "keys_indexed (run_store_of (wo_flow y))" using reachable_flow_ok [OF y] by (simp add: flow_ok_def)
  have qs: "findRunById (run_store_of (wo_flow y)) (r_id q) = Some q" "r_id q = s"
    "run_key q = Some (workspaceIdempotencyKey (as_workspaceId b) (''assignment:'' @ i))"
    using q assms(7) b(1) by (simp_all add: assignment_run_def assignmentRunIdempotencyKey_def)
  have "findRunById (run_store_of (wo_flow y)) r = Some p'"
    "run_key p' = Some (workspaceIdempotencyKey (as_workspaceId b) (''assignment:'' @ i))"
    using p assms(6) a(1) ab by (simp_all add: assignment_run_def assignmentRunIdempotencyKey_def assignment_kept_def)
  from run_with_key(1) [OF ki this qs(1,3)] have "r = s" using qs(2) by simp
  moreover have "j = s \<and> q' = q" if q': "findRunById (run_store_of (wo_flow y)) j = Some q'" "run_key q' = run_key q" for j q'
  proof -
    have k': "run_key q' = Some (workspaceIdempotencyKey (as_workspaceId b) (''assignment:'' @ i))" using q'(2) qs(3) by (rule trans)
    note u = run_with_key [OF ki q'(1) k' qs(1,3)]
    show ?thesis by (intro conjI trans [OF u(1) qs(2)] u(2))
  qed
  moreover have "findRunById (run_store_of (wo_flow y)) s = Some q" using qs(1) unfolding qs(2) .
  ultimately show ?thesis using qs(2,3) by blast
qed

subsection \<open>A stale update takes the launch back\<close>

lemma stored_over:
  assumes "reachable_world sha256 y" "findAssignmentById (fl_office (wo_flow y)) (as_id z) = Some b" "assignment_kept b z"
  shows "postgres_updateAssignment z (fl_office (wo_flow y)) = Inr (Some z, (fl_office (wo_flow y))\<lparr>
    of_assignments := AList.update (as_id z) z (of_assignments (fl_office (wo_flow y))) \<rparr>)"
  using assms(2,3) by (simp add: postgres_updateAssignment_def update_row_def findAssignmentById_def columns_same)

text \<open>Programs on their own, one access after the other.\<close>

lemma alone_reading: "run_alone (act_then (reading sel) k) ids f = run_alone (k (sel f)) ids f"
  by (simp add: reading_def access_act_def act_then_def)

lemma alone_lift: "run_alone (act_then (lift_act r) k) ids f = (case r of Inl e \<Rightarrow> (f, Inl e) | Inr x \<Rightarrow> run_alone (k x) ids f)"
  by (simp add: lift_act_def act_then_def split: sum.split)

lemma alone_give: "act_then (give x) k = k x" "run_alone (give x) ids f = (f, Inr x)"
  by (simp_all add: give_def act_then_def)

lemma alone_store: "run_alone (act_then (on_store operation) k) ids f = (case operation (fl_store f) of
    Inl e \<Rightarrow> (f, Inl e) | Inr (x, s) \<Rightarrow> run_alone (k x) ids (f\<lparr> fl_store := s \<rparr>))"
  by (simp add: on_store_def access_act_def act_then_def split: sum.split prod.split)

lemma alone_office: "run_alone (act_then (on_office operation) k) ids f = (case operation (fl_office f) of
    Inl e \<Rightarrow> (f, Inl e) | Inr (x, s) \<Rightarrow> run_alone (k x) ids (f\<lparr> fl_office := s \<rparr>))"
  by (simp add: on_office_def access_act_def act_then_def split: sum.split prod.split)

lemma alone_assoc: "act_then (act_then m k) l = act_then m (\<lambda>x. act_then (k x) l)"
  unfolding act_then_def by (induction m rule: act_induct) (auto simp: fun_eq_iff map_prod_def split: sum.split prod.split)

lemma alone_check: "run_alone (act_then (check_act c) k) ids f =
    (case c of None \<Rightarrow> run_alone (k ()) ids f | Some e \<Rightarrow> (f, Inl e))"
  by (simp add: check_act_def act_then_def lift_act_def give_def split: option.split)

lemma alone_throw: "act_then (lift_act (Inl e)) k = lift_act (Inl e)" "act_then (lift_act (Inr x)) k = k x" "run_alone (lift_act r) ids f = (f, r)"
  by (simp_all add: lift_act_def act_then_def)

lemma alone_on_store: "run_alone (on_store operation) ids f =
    (case operation (fl_store f) of Inl e \<Rightarrow> (f, Inl e) | Inr (x, s) \<Rightarrow> (f\<lparr> fl_store := s \<rparr>, Inr x))"
  by (simp add: on_store_def access_act_def split: sum.split prod.split)

lemma act_then_option: "act_then (case v of None \<Rightarrow> m | Some x \<Rightarrow> m' x) k =
    (case v of None \<Rightarrow> act_then m k | Some x \<Rightarrow> act_then (m' x) k)"
  by (cases v) simp_all

lemmas alone_steps = alone_reading alone_lift alone_give alone_store alone_office alone_assoc alone_check alone_throw
  act_then_option

lemma alone_found: "run_alone (act_then (found missing sel m) k) ids f =
    (case sel f of None \<Rightarrow> (f, Inl missing) | Some x \<Rightarrow> run_alone (act_then (m x) k) ids f)"
  "run_alone (found missing sel m) ids f =
    (case sel f of None \<Rightarrow> (f, Inl missing) | Some x \<Rightarrow> run_alone (m x) ids f)"
  by (simp_all add: found_def alone_steps split: option.split)

text \<open>A workflow assignment that is PENDING, and so has no run, gets a new one from a launch.\<close>

lemma alone_createAssignmentWorkflowRun:
  "run_alone (act_then (createAssignmentWorkflowRun x w now) k) ids f =
    (case findWorkflowVersionById (fl_catalog f) (as_targetVersionId x) of
       None \<Rightarrow> (f, Inl (DomainInvariantError (''Assignment '' @ as_id x @ '' references missing WorkflowVersion ''
         @ as_targetVersionId x @ ''.'')))
     | Some v \<Rightarrow>
         (case WorkflowRun_create w (as_workspaceId x) (wv_workflowId v) (wv_id v) (as_input x) now of
            Inl e \<Rightarrow> (f, Inl e)
          | Inr r \<Rightarrow> (case saveWorkflowRun r (fl_store f) of
              Inl e \<Rightarrow> (f, Inl e) | Inr s \<Rightarrow> run_alone (k r) ids (f\<lparr> fl_store := s \<rparr>))))"
  by (simp add: createAssignmentWorkflowRun_def alone_found alone_steps no_result_def and_then_def
      split: option.split sum.split)

lemma alone_transition:
  "run_alone (act_then (transitionAssignment e x) k) ids f = (h, Inr c) \<Longrightarrow>
    \<exists>y s. postgres_transitionAssignment e x (fl_office f) = Inr (Some y, s)
      \<and> run_alone (k y) ids (f\<lparr> fl_office := s \<rparr>) = (h, Inr c)"
  by (auto simp: transitionAssignment_def alone_found alone_steps split: option.splits sum.splits)

lemma alone_transition_end:
  "run_alone (transitionAssignment e x) ids f = (h, Inr c) \<Longrightarrow>
    \<exists>s. postgres_transitionAssignment e x (fl_office f) = Inr (Some c, s) \<and> h = f\<lparr> fl_office := s \<rparr>"
  by (auto simp: transitionAssignment_def alone_found alone_steps split: option.splits sum.splits)

lemma transition_row:
  "postgres_transitionAssignment e x s = Inr (Some y, t) \<Longrightarrow> findAssignmentById t (as_id x) = Some y
    \<and> as_workflowRunId y = as_workflowRunId x"
  by (auto simp: postgres_transitionAssignment_def findAssignmentById_def Let_def lifecycle_columns_def
      split: option.splits if_splits)

lemma alone_deriveStatus: "\<exists>d. \<forall>k. run_alone (act_then (deriveStatus x) k) ids f = run_alone (k d) ids f"
  by (cases "as_targetType x"; cases "as_runId x"; cases "as_workflowRunId x"; simp add: deriveStatus_def alone_steps;
      rule exI, rule allI, rule refl)

lemma alone_reconcile:
  assumes "run_alone (reconcileAssignment i now) ids f = (h, Inr c)" "findAssignmentById (fl_office f) i = Some x"
  shows "as_workflowRunId c = as_workflowRunId x \<and> fl_store h = fl_store f"
proof -
  obtain d where d: "run_alone (act_then (deriveStatus x) k) ids f = run_alone (k d) ids f"
    for k :: "assignment_state \<Rightarrow> ('a, assignment) act" using alone_deriveStatus [of x ids f] by auto
  show ?thesis
    using assms by (auto simp: reconcileAssignment_def alone_found alone_steps d split: if_splits sum.splits
        dest!: alone_transition_end transition_row Assignment_transitionTo_Inr)
qed

lemma launch_again:
  assumes z: "findAssignmentById (fl_office g) i = Some z" "as_id z = i" "as_status z = As_PENDING"
      "as_targetType z = Target_WORKFLOW_VERSION" "as_workflowRunId z = None"
    and h: "run_alone (launchAssignment i r t w now) ids g = (h, Inr c)"
  shows "findWorkflowRunById (fl_store g) w = None \<and> findWorkflowRunById (fl_store h) w \<noteq> None
    \<and> as_workflowRunId c = Some w"
proof -
  have p: "\<not> isTerminalAssignmentState (as_status z)"
    using z(3) by (simp add: isTerminalAssignmentState_def TERMINAL_ASSIGNMENT_STATES_def)
  from h z p obtain v :: workflow_version and wr s y where wr: "WorkflowRun_create w (as_workspaceId z) (wv_workflowId v) (wv_id v) (as_input z) now = Inr wr"
    and s: "saveWorkflowRun wr (fl_store g) = Inr s" and y: "Assignment_markLaunched z None (Some (w_id wr)) now = Inr y"
    and t: "run_alone (act_then (transitionAssignment As_PENDING y) (\<lambda>y. reconcileAssignment (as_id y) now)) ids
      (g\<lparr> fl_store := s \<rparr>) = (h, Inr c)"
    by (auto simp: launchAssignment_def launchWorkflowAssignment_def storeLaunched_def alone_found alone_steps
        alone_createAssignmentWorkflowRun split: option.splits sum.splits if_splits)
  from alone_transition [OF t] obtain x u where
    x: "postgres_transitionAssignment As_PENDING y (fl_office g) = Inr (Some x, u)"
    and r: "run_alone (reconcileAssignment (as_id x) now) ids (g\<lparr> fl_store := s, fl_office := u \<rparr>) = (h, Inr c)" by auto
  have w: "w_id wr = w" using WorkflowRun_create_fields [OF wr] by simp
  note y' = Assignment_markLaunched_Inr [OF y] and x' = transition_row [OF x]
  have id: "as_id x = as_id y" using x y' z(1,2) by (auto simp: postgres_transitionAssignment_def
      findAssignmentById_def lifecycle_columns_def Let_def split: option.splits if_splits)
  have c: "as_workflowRunId c = as_workflowRunId x" "fl_store h = s"
    using alone_reconcile [OF r] x' id by simp_all
  have s': "map_of (ws_runs (fl_store g)) w = None" "map_of (ws_runs s) w \<noteq> None"
    using s w by (auto simp: saveWorkflowRun_def split: if_splits)
  have "as_workflowRunId y = Some w" using y' w by (simp add: or_else_def)
  then show ?thesis using c x' s' by (simp add: findWorkflowRunById_def)
qed

text \<open>
  C39. A handler that updates an assignment reads it while it is PENDING, and writes it at any later
  moment, whatever has happened in between: the write succeeds and stores the assignment as PENDING,
  with no run, also when it has been launched, has ended or was cancelled meanwhile. And when the
  launch of a workflow is then repeated, it creates a second run of the workflow.
\<close>

theorem stale_update_reopens_assignment:
  assumes "reachable_world sha256 x" "(world_step sha256)\<^sup>*\<^sup>* x y"
    and "requireControlPlaneAuthorization scope Action_WRITE = None" "controlPlaneWorkspaceId scope = Inr (as_workspaceId a)"
    and "findAssignmentById (fl_office (wo_flow x)) i = Some a" "as_status a = As_PENDING"
    and "Assignment_update a title description Goal_unchanged = Inr z"
  shows "\<exists>first second g. updateAssignment scope i title description Goal_unchanged = Access first
    \<and> first No_fault (wo_flow x) = (wo_flow x, Access second) \<and> second No_fault (wo_flow y) = (g, Ended (Inr z))
    \<and> findAssignmentById (fl_office g) i = Some z \<and> as_status z = As_PENDING
    \<and> as_runId z = None \<and> as_workflowRunId z = None \<and> as_startedAt z = None
    \<and> (as_targetType a = Target_WORKFLOW_VERSION \<longrightarrow> (\<forall>r t w now ids h c.
         run_alone (launchAssignment i r t w now) ids g = (h, Inr c) \<longrightarrow> as_workflowRunId c = Some w
           \<and> findWorkflowRunById (fl_store g) w = None \<and> findWorkflowRunById (fl_store h) w \<noteq> None))"
proof -
  have y: "reachable_world sha256 y" using assms(1,2) unfolding reachable_world_def by (meson rtranclp_trans)
  have k: "flow_kept (wo_flow x) (wo_flow y)"
    using world_steps_ok [OF assms(2) reachable_world_ok [OF assms(1)]] by simp
  note a = reachable_assignment [OF assms(1,5)]
  from Assignment_update_Inr [OF assms(7)] obtain t d where z: "z = a\<lparr> as_title := t, as_description := d \<rparr>" by auto
  have "entries_kept assignment_kept (of_assignments (fl_office (wo_flow x))) (of_assignments (fl_office (wo_flow y)))"
    using flow_kept_office [OF k] by (simp add: office_kept_def)
  from entries_keptD [OF this assms(5) [unfolded findAssignmentById_def]] obtain b where
    b: "findAssignmentById (fl_office (wo_flow y)) (as_id z) = Some b" "assignment_kept a b"
    using a(1) z by (auto simp: findAssignmentById_def)
  from b(2) have bz: "assignment_kept b z" by (simp add: z assignment_kept_def)
  note w = stored_over [OF y b(1) bz]
  let ?g = "(wo_flow y)\<lparr> fl_office := (fl_office (wo_flow y))\<lparr>
    of_assignments := AList.update (as_id z) z (of_assignments (fl_office (wo_flow y))) \<rparr> \<rparr>"
  have new: "as_runId z = None" "as_workflowRunId z = None" "as_startedAt z = None" "as_status z = As_PENDING" "as_id z = i"
    using a(1,3) assms(6) by (simp_all add: z assignment_ok_def assignment_reason_def not_launched_def)
  have g: "findAssignmentById (fl_office ?g) i = Some z" using new(5) by (simp add: findAssignmentById_def)
  have f: "findAssignmentByWorkspaceAndId (fl_office (wo_flow x)) (as_workspaceId a) i = Some a"
    using assms(5) by (simp add: findAssignmentByWorkspaceAndId_def findAssignmentById_def in_workspace_def)
  obtain first second where "updateAssignment scope i title description Goal_unchanged = Access first"
    "first No_fault (wo_flow x) = (wo_flow x, Access second)" "second No_fault (wo_flow y) = (?g, Ended (Inr z))"
    using f assms(3,4,7) w
    by (simp add: updateAssignment_def authorized_def found_def reading_def access_act_def act_then_def check_act_def
        lift_act_def give_def on_office_def persisted_def)
  moreover have "as_workflowRunId c = Some w \<and> findWorkflowRunById (fl_store ?g) w = None
      \<and> findWorkflowRunById (fl_store h) w \<noteq> None"
    if "as_targetType a = Target_WORKFLOW_VERSION" "run_alone (launchAssignment i r t' w now) ids ?g = (h, Inr c)"
    for r t' w now ids h c
    using launch_again [OF g new(5,4) _ new(2) that(2)] that(1) by (simp add: z)
  ultimately show ?thesis using g new by blast
qed

subsection \<open>Routes without a workspace\<close>

text \<open>
  An API key of whatever role for another workspace: \<open>getAssignment\<close> does not find the assignment
  and \<open>cancelAssignment\<close> does not touch it, but the route that shows an assignment returns it, and the
  route that launches one does exactly what it does for the workspace's own administrator.
\<close>

theorem assignment_routes_ignore_workspace:
  assumes "akp_workspaceId k \<noteq> as_workspaceId a" "findAssignmentById (fl_office f) i = Some a"
    and "isTerminalAssignmentState (as_status a)"
  shows "run_alone (getAssignment (API_KEY k) i) ids f = (f, Inl (NotFoundError ''Assignment'' i))
    \<and> (\<exists>e. run_alone (cancelAssignment (API_KEY k) i now) ids f = (f, Inl e))
    \<and> run_alone (get_assignment_route (Some (API_KEY k)) i now) ids f = (f, Inr a)
    \<and> (\<forall>owner. launch_assignment_route (Some (API_KEY k)) i now = launch_assignment_route (Some owner) i now)"
proof -
  have n: "findAssignmentByWorkspaceAndId (fl_office f) (akp_workspaceId k) i = None"
    using assms(1,2) by (simp add: findAssignmentByWorkspaceAndId_def findAssignmentById_def in_workspace_def)
  have r: "requireControlPlaneAuthorization (API_KEY k) Action_READ = None"
    by (cases "akp_role k") (simp_all add: requireControlPlaneAuthorization_def controlPlaneWorkspaceId_def
        authorizeApiKeyPrincipal_def rolePermitsAction_def)
  show ?thesis
    using n r assms(2,3) by (simp add: getAssignment_def cancelAssignment_def get_assignment_route_def
        launch_assignment_route_def requireControlPlaneScope_def authorized_def controlPlaneWorkspaceId_def
        reconcileAssignment_def alone_found alone_steps split: option.split)
qed

subsection \<open>An office at work\<close>

definition sample_worker :: office_worker where
  "sample_worker = \<lparr> ow_id = ''o'', ow_workspaceId = ''w'', ow_key = ''k'', ow_name = ''n'', ow_description = None,
     ow_agentId = ''a'', ow_createdAt = DateMs 5, ow_updatedAt = DateMs 5 \<rparr>"

definition sample_assignment :: "string \<Rightarrow> assignment_target \<Rightarrow> assignment" where
  "sample_assignment title target = \<lparr> as_id = ''i'', as_workspaceId = ''w'', as_goalId = None, as_officeWorkerId = ''o'',
     as_title = title, as_description = None, as_targetType = target, as_targetVersionId = ''v'',
     as_input = JString ''in'', as_status = As_PENDING, as_runId = None, as_workflowRunId = None,
     as_createdAt = DateMs 6, as_startedAt = None, as_completedAt = None, as_cancelledAt = None \<rparr>"

definition launched_agent :: assignment where
  "launched_agent = (sample_assignment ''t'' Target_AGENT_VERSION)\<lparr> as_status := As_RUNNING, as_runId := Some ''l'',
     as_startedAt := Some (DateMs 7) \<rparr>"

definition launched_workflow :: assignment where
  "launched_workflow = (sample_assignment ''t'' Target_WORKFLOW_VERSION)\<lparr> as_status := As_RUNNING,
     as_workflowRunId := Some ''lxx'', as_startedAt := Some (DateMs 7) \<rparr>"

definition completed_workflow :: assignment where
  "completed_workflow = launched_workflow\<lparr> as_status := As_COMPLETED, as_completedAt := Some (DateMs 22) \<rparr>"

definition sample_assign :: "assignment_target \<Rightarrow> create_assignment_command" where
  "sample_assign target = \<lparr> cac_workspaceId = ''w'', cac_goalId = None, cac_officeWorkerId = ''o'', cac_title = ''t'',
     cac_description = None, cac_targetType = target, cac_targetVersionId = ''v'', cac_input = JString ''in'' \<rparr>"

text \<open>The office, over a platform where a workflow of one wait was published.\<close>

definition office_flow :: "(string, assignment) js_map \<Rightarrow> unit flow" where
  "office_flow assignments = (flow_2 waiting_definition)\<lparr> fl_office := empty_office_store\<lparr>
     of_workers := [(''o'', sample_worker)], of_assignments := assignments \<rparr> \<rparr>"

definition office_pending :: "assignment_target \<Rightarrow> unit flow" where
  "office_pending target = office_flow [(''i'', sample_assignment ''t'' target)]"

definition office_agent :: "unit flow" where
  "office_agent = (office_flow [(''i'', launched_agent)])\<lparr>
     fl_platform := flow_platform\<lparr> pf_runs := \<lparr>
         rs_runs = [(''l'', child_run\<lparr> r_id := ''l'', r_createdAt := DateMs 7, r_updatedAt := DateMs 7,
           r_idempotencyKey := Some ''assignment:i'' \<rparr>)],
         rs_attempts = [(''lx'', child_attempt\<lparr> a_id := ''lx'', a_runId := ''l'', a_createdAt := DateMs 7 \<rparr>)],
         rs_steps = [], rs_index = [(''w:assignment:i'', ''l'')] \<rparr>,
       pf_queue := \<lparr> jq_pending = [''lx''], jq_closed = False \<rparr> \<rparr> \<rparr>"

definition office_run :: "string \<Rightarrow> int \<Rightarrow> workflow_run_state \<Rightarrow> jsv \<Rightarrow> js_date option \<Rightarrow> js_date option \<Rightarrow> int
    \<Rightarrow> workflow_run" where
  "office_run i created st result started completed updated =
     (flow_run st result started completed updated)\<lparr> w_id := i, w_createdAt := DateMs created \<rparr>"

definition office_node :: "workflow_node_run_state \<Rightarrow> jsv \<Rightarrow> js_date option \<Rightarrow> int \<Rightarrow> workflow_node_run" where
  "office_node st result completed updated = (wait_node_run st result completed updated)\<lparr> n_workflowRunId := ''lxx'',
     n_startedAt := Some (DateMs 8), n_createdAt := DateMs 8 \<rparr>"

definition office_wait :: "js_date option \<Rightarrow> wait_resolution option \<Rightarrow> workflow_wait" where
  "office_wait resolved resolution = (flow_wait resolved resolution)\<lparr> ww_workflowRunId := ''lxx'', ww_armedAt := DateMs 8,
     ww_wakeAt := Some (DateMs 13) \<rparr>"

definition office_workflow :: "unit flow" where
  "office_workflow = (office_flow [(''i'', launched_workflow)])\<lparr> fl_store := \<lparr>
     ws_runs = [(''lxx'', office_run ''lxx'' 7 WR_PENDING JUndefined None None 7)], ws_nodes = [] \<rparr> \<rparr>"

definition office_waiting :: "unit flow" where
  "office_waiting = office_workflow\<lparr> fl_store := \<lparr>
       ws_runs = [(''lxx'', office_run ''lxx'' 7 WR_WAITING JUndefined (Some (DateMs 8)) None 8)],
       ws_nodes = [(''t'', office_node NR_WAITING JUndefined None 8)] \<rparr>,
     fl_waits := [(''t'', office_wait None None)] \<rparr>"

definition office_woken :: "unit flow" where
  "office_woken = office_waiting\<lparr> fl_waits := [(''t'', office_wait (Some (DateMs 20)) (Some Res_TIMER))] \<rparr>"

definition office_ended :: "unit flow" where
  "office_ended = office_woken\<lparr> fl_store := \<lparr>
     ws_runs = [(''lxx'', office_run ''lxx'' 7 WR_SUCCEEDED (JString ''in'') (Some (DateMs 8)) (Some (DateMs 21)) 21)],
     ws_nodes = [(''t'', office_node NR_SUCCEEDED (JString ''in'') (Some (DateMs 21)) 21)] \<rparr> \<rparr>"

definition office_done :: "unit flow" where
  "office_done = office_ended\<lparr> fl_office := empty_office_store\<lparr>
     of_workers := [(''o'', sample_worker)], of_assignments := [(''i'', completed_workflow)] \<rparr> \<rparr>"

lemma office_step_1: "run_own flow_env (forget (createOfficeWorker control_env flow_admin
    \<lparr> cof_key = ''k'', cof_name = ''n'', cof_description = None \<rparr> ''a'' (DateMs 5))) (names ''o'')
      (flow_2 waiting_definition) = Some (office_flow [])"
  by code_simp

lemma office_step_2:
  "run_own flow_env (forget (createAssignment control_env flow_admin (sample_assign Target_AGENT_VERSION) (DateMs 6)))
     (names ''i'') (office_flow []) = Some (office_pending Target_AGENT_VERSION)"
  "run_own flow_env (forget (createAssignment control_env flow_admin (sample_assign Target_WORKFLOW_VERSION) (DateMs 6)))
     (names ''i'') (office_flow []) = Some (office_pending Target_WORKFLOW_VERSION)"
  by code_simp+

text \<open>A key of another workspace that may only read launches the assignment, and launches it again.\<close>

definition stranger :: api_key_principal where
  "stranger = \<lparr> akp_subjectId = ''s'', akp_workspaceId = ''elsewhere'', akp_role = Role_VIEWER \<rparr>"

lemma office_step_3:
  "run_own flow_env (forget (launch_assignment_route (Some (API_KEY stranger)) ''i'' (DateMs 7))) (names ''l'')
     (office_pending Target_AGENT_VERSION) = Some office_agent"
  "run_own flow_env (forget (launch_assignment_route (Some (API_KEY stranger)) ''i'' (DateMs 9))) (names ''m'')
     office_agent = Some office_agent"
  "run_own flow_env (forget (launch_assignment_route (Some (API_KEY stranger)) ''i'' (DateMs 7))) (names ''l'')
     (office_pending Target_WORKFLOW_VERSION) = Some office_workflow"
  by code_simp+

lemma office_step_4: "run_own flow_env (orchestratorTick flow_env None (DateMs 8)) (names ''t'') office_workflow
     = Some office_waiting"
  by code_simp

lemma office_step_5: "run_own flow_env (workflowWaitDriverTick None (DateMs 20)) (names ''u'') office_waiting = Some office_woken"
  by code_simp

lemma office_step_6: "run_own flow_env (orchestratorTick flow_env None (DateMs 21)) (names ''q'') office_woken = Some office_ended"
  by code_simp

lemma office_step_7: "run_own flow_env (forget (get_assignment_route (Some flow_admin) ''i'' (DateMs 22))) (names ''q'')
     office_ended = Some office_done"
  by code_simp

lemma office_reached:
  "reachable_world flow_digest (quiet_world [] (office_flow []))"
  "reachable_world flow_digest (quiet_world [] (office_pending Target_WORKFLOW_VERSION))"
  "(world_step flow_digest)\<^sup>*\<^sup>* (quiet_world [] (office_pending Target_WORKFLOW_VERSION)) (quiet_world [] office_workflow)"
  "reachable_world flow_digest (quiet_world [] office_done)"
  "reachable_world flow_digest (quiet_world [] office_agent)"
  "(world_step flow_digest)\<^sup>*\<^sup>* (quiet_world [] office_agent) (quiet_world [] office_agent)"
proof -
  have "(world_step flow_digest)\<^sup>*\<^sup>* (initial_world flow_platform) (quiet_world [] (flow_2 waiting_definition))"
    by (rule rtranclp_trans [OF flow_reached_1 own_reaches [OF run_append_version flow_env_ok flow_step_2(1)]])
  from rtranclp_trans [OF this own_reaches [OF run_create_worker flow_env_ok office_step_1]]
  have one: "(world_step flow_digest)\<^sup>*\<^sup>* (initial_world flow_platform) (quiet_world [] (office_flow []))" .
  note two = own_reaches [OF run_create_assignment flow_env_ok office_step_2(2)]
    and agent = rtranclp_trans [OF own_reaches [OF run_create_assignment flow_env_ok office_step_2(1)]
      own_reaches [OF run_launch_assignment flow_env_ok office_step_3(1)]]
  show three: "(world_step flow_digest)\<^sup>*\<^sup>* (quiet_world [] (office_pending Target_WORKFLOW_VERSION))
      (quiet_world [] office_workflow)"
    by (rule own_reaches [OF run_launch_assignment flow_env_ok office_step_3(3)])
  have "(world_step flow_digest)\<^sup>*\<^sup>* (quiet_world [] office_workflow) (quiet_world [] office_done)"
    by (rule rtranclp_trans [OF own_reaches [OF run_orchestrator flow_env_ok office_step_4]],
      rule rtranclp_trans [OF own_reaches [OF run_wait_driver flow_env_ok office_step_5]],
      rule rtranclp_trans [OF own_reaches [OF run_orchestrator flow_env_ok office_step_6]],
      rule own_reaches [OF run_get_assignment flow_env_ok office_step_7])
  with one two three agent show "reachable_world flow_digest (quiet_world [] (office_flow []))"
    "reachable_world flow_digest (quiet_world [] (office_pending Target_WORKFLOW_VERSION))"
    "reachable_world flow_digest (quiet_world [] office_done)" "reachable_world flow_digest (quiet_world [] office_agent)"
    unfolding reachable_world_def by (meson rtranclp_trans)+
  show "(world_step flow_digest)\<^sup>*\<^sup>* (quiet_world [] office_agent) (quiet_world [] office_agent)"
    by (rule own_reaches [OF run_launch_assignment flow_env_ok office_step_3(2)])
qed

lemma office_found:
  "findAssignmentById (fl_office (wo_flow (quiet_world [] office_done))) ''i'' = Some completed_workflow"
  "findAssignmentById (fl_office (wo_flow (quiet_world [] office_agent))) ''i'' = Some launched_agent"
  "findAssignmentById (fl_office (wo_flow (quiet_world [] (office_pending t)))) ''i'' = Some (sample_assignment ''t'' t)"
  by (simp_all add: findAssignmentById_def office_done_def office_agent_def office_pending_def office_flow_def)

theorem assignment_outcomes_justified_witness:
  "\<exists>w. assignment_workflow_run (fl_store office_done) completed_workflow w \<and> w_status w = WR_SUCCEEDED"
proof -
  have c: "as_status completed_workflow = As_COMPLETED" "as_runId completed_workflow = None"
    by (simp_all add: completed_workflow_def launched_workflow_def sample_assignment_def)
  then have n: "\<not> assignment_run s completed_workflow r" for s r by (simp add: assignment_run_def)
  from assignment_outcomes_justified [OF office_reached(4) office_found(1)] c(1) n show ?thesis by simp
qed

theorem agent_assignment_one_run_witness:
  "\<exists>q. findRunById (run_store_of office_agent) ''l'' = Some q \<and> run_key q = Some (workspaceIdempotencyKey ''w'' ''assignment:i'')"
proof -
  have a: "as_targetType launched_agent = Target_AGENT_VERSION" "as_runId launched_agent = Some ''l''"
    "as_workspaceId launched_agent = ''w''"
    by (simp_all add: launched_agent_def sample_assignment_def)
  from agent_assignment_one_run [OF office_reached(5,6) office_found(2,2) a(1,2,2)] show ?thesis
    by (auto simp: a(3))
qed

text \<open>The title of a launched workflow assignment is changed by somebody who read it before.\<close>

definition office_reopened :: "unit flow" where
  "office_reopened = office_workflow\<lparr> fl_office := empty_office_store\<lparr> of_workers := [(''o'', sample_worker)],
     of_assignments := [(''i'', sample_assignment ''u'' Target_WORKFLOW_VERSION)] \<rparr> \<rparr>"

definition launched_twice :: "unit flow" where
  "launched_twice = (office_flow [(''i'', (sample_assignment ''u'' Target_WORKFLOW_VERSION)\<lparr> as_status := As_RUNNING,
     as_workflowRunId := Some ''p'', as_startedAt := Some (DateMs 9) \<rparr>)])\<lparr> fl_store := \<lparr>
     ws_runs = [(''lxx'', office_run ''lxx'' 7 WR_PENDING JUndefined None None 7),
       (''p'', office_run ''p'' 9 WR_PENDING JUndefined None None 9)], ws_nodes = [] \<rparr> \<rparr>"

lemma stale_write:
  "(case updateAssignment flow_admin ''i'' (Some ''u'') None Goal_unchanged of
      Access first \<Rightarrow> (case first No_fault (office_pending Target_WORKFLOW_VERSION) of
        (f, Access second) \<Rightarrow> (case second No_fault office_workflow of
          (g, m) \<Rightarrow> g = office_reopened \<and> fst (run_alone (launchAssignment ''i'' ''m'' ''n'' ''p'' (DateMs 9)) (names ''q'') g)
            = launched_twice)
      | _ \<Rightarrow> False)
    | _ \<Rightarrow> False)"
  by code_simp

theorem stale_update_reopens_assignment_witness:
  "\<exists>first second m. updateAssignment flow_admin ''i'' (Some ''u'') None Goal_unchanged = Access first
    \<and> first No_fault (office_pending Target_WORKFLOW_VERSION) = (office_pending Target_WORKFLOW_VERSION, Access second)
    \<and> second No_fault office_workflow = (office_reopened, m)
    \<and> findAssignmentById (fl_office office_reopened) ''i'' = Some (sample_assignment ''u'' Target_WORKFLOW_VERSION)
    \<and> fst (run_alone (launchAssignment ''i'' ''m'' ''n'' ''p'' (DateMs 9)) (names ''q'') office_reopened) = launched_twice
    \<and> as_workflowRunId (sample_assignment ''u'' Target_WORKFLOW_VERSION) = None"
proof -
  have h: "requireControlPlaneAuthorization flow_admin Action_WRITE = None"
    "controlPlaneWorkspaceId flow_admin = Inr (as_workspaceId (sample_assignment ''t'' Target_WORKFLOW_VERSION))"
    "as_status (sample_assignment ''t'' Target_WORKFLOW_VERSION) = As_PENDING"
    "Assignment_update (sample_assignment ''t'' Target_WORKFLOW_VERSION) (Some ''u'') None Goal_unchanged
      = Inr (sample_assignment ''u'' Target_WORKFLOW_VERSION)" by code_simp+
  from stale_update_reopens_assignment [OF office_reached(2,3) h(1,2) office_found(3) h(3,4)] stale_write
  show ?thesis by auto
qed

theorem assignment_routes_ignore_workspace_witness:
  "run_alone (getAssignment (API_KEY stranger) ''i'') (names ''q'') office_done = (office_done, Inl (NotFoundError ''Assignment'' ''i''))
    \<and> run_alone (get_assignment_route (Some (API_KEY stranger)) ''i'' (DateMs 30)) (names ''q'') office_done
      = (office_done, Inr completed_workflow)
    \<and> run_own flow_env (forget (launch_assignment_route (Some (API_KEY stranger)) ''i'' (DateMs 7))) (names ''l'')
      (office_pending Target_AGENT_VERSION) = Some office_agent"
proof -
  have h: "akp_workspaceId stranger \<noteq> as_workspaceId completed_workflow"
    "isTerminalAssignmentState (as_status completed_workflow)" by code_simp+
  note routes = assignment_routes_ignore_workspace [OF h(1) office_found(1) h(2), of "names ''q''" "DateMs 30",
    unfolded quiet_world_simps]
  show ?thesis
    by (intro conjI conjunct1 [OF routes] conjunct1 [OF conjunct2 [OF conjunct2 [OF routes]]] office_step_3(1))
qed

end
