(* ===== verification/Workflow_Properties.thy ===== *)
theory Workflow_Properties
  imports Workflow_Sample
begin

text \<open>
  What holds in every reachable world: node runs follow the graph, every outcome has its reason in
  the stores, decisions are final, a node has one child run. The concrete inputs are the worlds of
  \<open>Workflow_Sample\<close>.
\<close>

subsection \<open>Node runs follow the graph\<close>

lemma reachable_node:
  assumes "reachable_world sha256 x" "findWorkflowNodeRunById (fl_store (wo_flow x)) i = Some n"
  shows "node_ok sha256 (wo_flow x) n"
  using reachable_flow_ok [OF assms(1)] assms(2) by (auto simp: flow_ok_def)

text \<open>
  C1. Whatever orchestrators, drivers and workers run at the same time, whatever accesses fail and
  whichever processes die: a stored node run belongs to a node of the graph of its workflow run,
  and it was created in order. When it was skipped, the node is skippable; otherwise every
  predecessor of the node has a finished node run that did not fail, the node is not skippable,
  and the input of the node run is the one the graph computes from the outputs of the predecessors.
\<close>

theorem node_runs_follow_graph:
  assumes "reachable_world sha256 x" "findWorkflowNodeRunById (fl_store (wo_flow x)) i = Some n"
  shows "\<exists>w g node. findWorkflowRunById (fl_store (wo_flow x)) (n_workflowRunId n) = Some w
    \<and> version_graph (fl_catalog (wo_flow x)) w = Some g
    \<and> map_of (g_nodesByKey g) (n_workflowNodeKey n) = Some node
    \<and> (let runs = nodeRunsByKey (listWorkflowNodeRuns (fl_store (wo_flow x)) (w_id w)) in
        if n_status n = NR_SKIPPED then isNodeSkippable g (n_workflowNodeKey n) runs
        else \<not> isNodeSkippable g (n_workflowNodeKey n) runs
          \<and> (\<forall>p\<in>set (neighbours (g_incoming g) (n_workflowNodeKey n)). \<exists>s. status_of runs p = Some s
               \<and> isTerminalWorkflowNodeRunState s \<and> s \<noteq> NR_FAILED)
          \<and> (\<exists>field. copyJsonValue (inputForNode g (n_workflowNodeKey n) runs (w_input w)) field = Inr (n_input n)))"
proof -
  from reachable_node [OF assms] obtain w g node where w:
    "findWorkflowRunById (fl_store (wo_flow x)) (n_workflowRunId n) = Some w"
    "version_graph (fl_catalog (wo_flow x)) w = Some g"
    "map_of (g_nodesByKey g) (n_workflowNodeKey n) = Some node"
    "placed g w (nodes_of (fl_store (wo_flow x)) (w_id w)) n"
    by (auto simp: node_ok_def node_fits_def)
  have j: "joins_only g" by (rule version_graph_joins [OF w(2)])
  show ?thesis
    using w(4) enabled_predecessors [OF _ j] enabled_not_skippable
    by (intro exI [of _ w] exI [of _ g] exI [of _ node] conjI w(1-3))
      (auto simp: placed_def nodes_of_def Let_def split: if_splits)
qed

subsection \<open>Outcomes have reasons\<close>

text \<open>
  C4. A node run that succeeded has its reason in the stores, at every later moment: an agent node
  the child run of the workflow run and node, which succeeded, with the output of an attempt of it
  that succeeded; an approval node an approved request that is bound to this very node run; a wait
  node a wait that was resolved by its timer or an event; a branch node the target its cases select
  for its input. A node run that failed has a failed, timed out or cancelled child run, a decided
  request or a timed out wait. No node run is cancelled, and approval and wait nodes never run.
\<close>

theorem node_outcomes_justified:
  assumes "reachable_world sha256 x" "findWorkflowNodeRunById (fl_store (wo_flow x)) i = Some n"
  shows "\<exists>w g node. findWorkflowRunById (fl_store (wo_flow x)) (n_workflowRunId n) = Some w
    \<and> version_graph (fl_catalog (wo_flow x)) w = Some g
    \<and> map_of (g_nodesByKey g) (n_workflowNodeKey n) = Some node
    \<and> (n_status n = NR_SUCCEEDED \<longrightarrow> success_reason sha256 (wo_flow x) w node n)
    \<and> (n_status n = NR_FAILED \<longrightarrow> failure_reason (wo_flow x) w node n)
    \<and> n_status n \<noteq> NR_CANCELLED
    \<and> (n_status n = NR_RUNNING \<longrightarrow> node_type (wn_body node) \<notin> {''APPROVAL'', ''WAIT''})"
proof -
  from reachable_node [OF assms] obtain w g node where w:
    "findWorkflowRunById (fl_store (wo_flow x)) (n_workflowRunId n) = Some w"
    "version_graph (fl_catalog (wo_flow x)) w = Some g"
    "map_of (g_nodesByKey g) (n_workflowNodeKey n) = Some node"
    "status_reason sha256 (wo_flow x) w node n"
    by (auto simp: node_ok_def node_fits_def)
  show ?thesis
    using w(4) by (intro exI [of _ w] exI [of _ g] exI [of _ node] conjI w(1-3))
      (auto simp: status_reason_def)
qed

text \<open>
  C5. A workflow run that succeeded has a node run of the terminal node that succeeded, whose output
  is the output of the run; one that failed has a failed node run, or its terminal node was skipped.
\<close>

theorem workflow_outcomes_justified:
  assumes "reachable_world sha256 x" "findWorkflowRunById (fl_store (wo_flow x)) i = Some w"
  shows "(w_status w = WR_SUCCEEDED \<longrightarrow> (\<exists>g n. version_graph (fl_catalog (wo_flow x)) w = Some g
        \<and> map_of (nodeRunsByKey (listWorkflowNodeRuns (fl_store (wo_flow x)) i)) (g_terminalKey g) = Some n
        \<and> n_status n = NR_SUCCEEDED \<and> stored_as (or_null (n_output n)) (w_output w)))
    \<and> (w_status w = WR_FAILED \<longrightarrow> (\<exists>g k n. version_graph (fl_catalog (wo_flow x)) w = Some g
        \<and> map_of (nodeRunsByKey (listWorkflowNodeRuns (fl_store (wo_flow x)) i)) k = Some n
        \<and> (n_status n = NR_FAILED \<or> k = g_terminalKey g \<and> n_status n = NR_SKIPPED)))"
proof -
  have "w_id w = i \<and> wrun_ok (wo_flow x) w"
    using reachable_flow_ok [OF assms(1)] assms(2) by (auto simp: flow_ok_def)
  then show ?thesis by (auto simp: wrun_ok_def nodes_of_def)
qed

subsection \<open>Decisions are final\<close>

text \<open>
  C3. Nothing takes a decision back: from any reachable world on, a finished node run keeps its
  status, output, selected branch and error, a recorded child run stays recorded, a finished
  workflow run never changes, nor does a resolved wait, a decided request or a workflow version.
\<close>

theorem workflow_decisions_final:
  assumes "reachable_world sha256 x" "(world_step sha256)\<^sup>*\<^sup>* x y"
  shows "(\<forall>i n. findWorkflowNodeRunById (fl_store (wo_flow x)) i = Some n \<longrightarrow>
       (\<exists>m. findWorkflowNodeRunById (fl_store (wo_flow y)) i = Some m \<and> n_input m = n_input n
         \<and> (n_childRunId n \<noteq> None \<longrightarrow> n_childRunId m = n_childRunId n)
         \<and> (isTerminalWorkflowNodeRunState (n_status n) \<longrightarrow> n_status m = n_status n \<and> n_output m = n_output n
              \<and> n_selectedTargetKey m = n_selectedTargetKey n \<and> n_error m = n_error n)))
    \<and> (\<forall>i w. findWorkflowRunById (fl_store (wo_flow x)) i = Some w \<longrightarrow> isTerminalWorkflowRunState (w_status w) \<longrightarrow>
         findWorkflowRunById (fl_store (wo_flow y)) i = Some w)
    \<and> (\<forall>i t. map_of (fl_waits (wo_flow x)) i = Some t \<longrightarrow> ww_resolution t \<noteq> None \<longrightarrow>
         map_of (fl_waits (wo_flow y)) i = Some t)
    \<and> (\<forall>i r. map_of (fl_approvals (wo_flow x)) i = Some r \<longrightarrow> ap_status r \<noteq> AR_PENDING \<longrightarrow>
         map_of (fl_approvals (wo_flow y)) i = Some r)
    \<and> (\<forall>i v. findWorkflowVersionById (fl_catalog (wo_flow x)) i = Some v \<longrightarrow>
         findWorkflowVersionById (fl_catalog (wo_flow y)) i = Some v)"
proof -
  have k: "flow_kept (wo_flow x) (wo_flow y)"
    using world_steps_ok [OF assms(2) reachable_world_ok [OF assms(1)]] by simp
  show ?thesis
  proof (intro conjI allI impI)
    fix i n assume "findWorkflowNodeRunById (fl_store (wo_flow x)) i = Some n"
    from flow_kept_node [OF k this] show "\<exists>m. findWorkflowNodeRunById (fl_store (wo_flow y)) i = Some m
        \<and> n_input m = n_input n \<and> (n_childRunId n \<noteq> None \<longrightarrow> n_childRunId m = n_childRunId n)
        \<and> (isTerminalWorkflowNodeRunState (n_status n) \<longrightarrow> n_status m = n_status n \<and> n_output m = n_output n
            \<and> n_selectedTargetKey m = n_selectedTargetKey n \<and> n_error m = n_error n)"
      by (auto simp: node_kept_def same_node_def)
  next
    fix i w assume "findWorkflowRunById (fl_store (wo_flow x)) i = Some w" "isTerminalWorkflowRunState (w_status w)"
    with flow_kept_wrun [OF k this(1)] show "findWorkflowRunById (fl_store (wo_flow y)) i = Some w"
      by (auto simp: wrun_kept_def)
  next
    fix i t assume "map_of (fl_waits (wo_flow x)) i = Some t" "ww_resolution t \<noteq> None"
    with flow_kept_wait [OF k this(1)] show "map_of (fl_waits (wo_flow y)) i = Some t" by (auto simp: wait_kept_def)
  next
    fix i r assume "map_of (fl_approvals (wo_flow x)) i = Some r" "ap_status r \<noteq> AR_PENDING"
    with flow_kept_approval [OF k this(1)] show "map_of (fl_approvals (wo_flow y)) i = Some r"
      by (auto simp: approval_kept_def)
  qed (rule flow_kept_version [OF k])
qed

subsection \<open>One child run for each node\<close>

text \<open>
  C2. However many orchestrators start the same agent node, before or after crashes and lost
  answers: the child run recorded in its node run carries the idempotency key of the workflow run
  and node, no other run of the platform has that key, and the runtime of no attempt is started
  twice.
\<close>

theorem one_child_run_per_node:
  assumes "reachable_world sha256 x" "findWorkflowNodeRunById (fl_store (wo_flow x)) i = Some n"
    and "n_childRunId n = Some c"
  shows "\<exists>w r key. findWorkflowRunById (fl_store (wo_flow x)) (n_workflowRunId n) = Some w
    \<and> key = workspaceIdempotencyKey (w_workspaceId w) (workflowNodeRunIdempotencyKey (w_id w) (n_workflowNodeKey n))
    \<and> findRunById (run_store_of (wo_flow x)) c = Some r \<and> run_key r = Some key
    \<and> (\<forall>j q. findRunById (run_store_of (wo_flow x)) j = Some q \<longrightarrow> run_key q = Some key \<longrightarrow> j = c \<and> q = r)
    \<and> distinct (wo_started x)"
proof -
  from reachable_node [OF assms(1,2)] assms(3) obtain w r where w:
    "findWorkflowRunById (fl_store (wo_flow x)) (n_workflowRunId n) = Some w"
    "child_run_of (run_store_of (wo_flow x)) w n r"
    by (auto simp: node_ok_def node_fits_def)
  from w(2) assms(3) have r: "findRunById (run_store_of (wo_flow x)) c = Some r" "run_key r = Some
      (workspaceIdempotencyKey (w_workspaceId w) (workflowNodeRunIdempotencyKey (w_id w) (n_workflowNodeKey n)))"
    by (auto simp: child_run_of_def)
  have k: "keys_indexed (run_store_of (wo_flow x))"
    using reachable_flow_ok [OF assms(1)] by (simp add: flow_ok_def)
  have "j = c \<and> q = r" if "findRunById (run_store_of (wo_flow x)) j = Some q" "run_key q = run_key r" for j q
  proof -
    have "j = c" using k that r unfolding keys_indexed_def by (metis option.inject)
    with that r show ?thesis by simp
  qed
  moreover have "distinct (wo_started x)"
    using reachable_world_ok [OF assms(1)] by (auto simp: world_ok_def system_ok_def claimed_def system_of_def)
  ultimately show ?thesis using w(1) r by metis
qed

subsection \<open>A stale copy in the memory repository\<close>

text \<open>
  C40. The memory repository loses updates that the PostgreSQL one keeps: saving a copy of a node
  run that was read before another process finished it puts the old status back in memory, while
  PostgreSQL writes the child run only and keeps status, output and error.
\<close>

theorem memory_save_reverts:
  assumes "findWorkflowNodeRunById s (n_id n) = Some n" "n_id stale = n_id n"
    and "n_childRunId n = None \<or> n_childRunId n = n_childRunId stale" "n_status stale \<noteq> n_status n"
  shows "\<exists>s' s'' m. saveWorkflowNodeRun stale s = Inr s' \<and> findWorkflowNodeRunById s' (n_id n) = Some stale
    \<and> postgres_saveWorkflowNodeRun stale s = Inr s'' \<and> findWorkflowNodeRunById s'' (n_id n) = Some m
    \<and> n_status m = n_status n \<and> n_output m = n_output n \<and> n_error m = n_error n
    \<and> n_childRunId m = n_childRunId stale"
  using assms
  by (auto simp: saveWorkflowNodeRun_def postgres_saveWorkflowNodeRun_def findWorkflowNodeRunById_def
      child_conflict_def after_check_def Let_def)

subsection \<open>The properties at the sample worlds\<close>

lemma flow_found:
  "findWorkflowNodeRunById (fl_store flow_child) ''t'' = Some (wait_node_run NR_SUCCEEDED (JString ''in'') (Some (DateMs 21)) 21)"
  "findWorkflowNodeRunById (fl_store flow_child) ''q'' = Some agent_node_run"
  "findWorkflowRunById (fl_store flow_done) ''r''
     = Some (flow_run WR_SUCCEEDED (JString ''in'') (Some (DateMs 4)) (Some (DateMs 21)) 21)"
  "findWorkflowNodeRunById (fl_store (flow_5 agent_definition)) ''t'' = Some (wait_node_run NR_WAITING JUndefined None 4)"
  by code_simp+

theorem node_runs_follow_graph_witness:
  "\<exists>w g node. findWorkflowRunById (fl_store flow_child) ''r'' = Some w
    \<and> version_graph (fl_catalog flow_child) w = Some g \<and> map_of (g_nodesByKey g) ''m'' = Some node
    \<and> \<not> isNodeSkippable g ''m'' (nodeRunsByKey (listWorkflowNodeRuns (fl_store flow_child) (w_id w)))"
  using node_runs_follow_graph [OF flow_reachable(2), of "''q''" agent_node_run] flow_found(2)
  by (auto simp: agent_node_run_def Let_def)

theorem node_outcomes_justified_witness:
  "\<exists>w g node. findWorkflowRunById (fl_store flow_child) ''r'' = Some w
    \<and> version_graph (fl_catalog flow_child) w = Some g \<and> map_of (g_nodesByKey g) ''n'' = Some node
    \<and> success_reason flow_digest flow_child w node (wait_node_run NR_SUCCEEDED (JString ''in'') (Some (DateMs 21)) 21)"
  using node_outcomes_justified [OF flow_reachable(2), of "''t''"
      "wait_node_run NR_SUCCEEDED (JString ''in'') (Some (DateMs 21)) 21"] flow_found(1)
  by (auto simp: wait_node_run_def)

theorem workflow_outcomes_justified_witness:
  "\<exists>g n. version_graph (fl_catalog flow_done) (flow_run WR_SUCCEEDED (JString ''in'') (Some (DateMs 4)) (Some (DateMs 21)) 21)
      = Some g \<and> map_of (nodeRunsByKey (listWorkflowNodeRuns (fl_store flow_done) ''r'')) (g_terminalKey g) = Some n
    \<and> n_status n = NR_SUCCEEDED"
  using workflow_outcomes_justified [OF flow_reachable(1), of "''r''"] flow_found(3)
  by (auto simp: flow_run_def)

theorem workflow_decisions_final_witness:
  "map_of (fl_waits flow_child) ''t'' = Some (flow_wait (Some (DateMs 20)) (Some Res_TIMER))
    \<and> (\<exists>m. findWorkflowNodeRunById (fl_store flow_child) ''t'' = Some m \<and> n_input m = JString ''in'')"
proof -
  have "map_of (fl_waits (flow_5 agent_definition)) ''t'' = Some (flow_wait (Some (DateMs 20)) (Some Res_TIMER))"
    "ww_resolution (flow_wait (Some (DateMs 20)) (Some Res_TIMER)) \<noteq> None"
    by code_simp+
  with workflow_decisions_final [OF flow_reachable(3) flow_last_step(2)] flow_found(4)
  show ?thesis by (fastforce simp: wait_node_run_def)
qed

theorem one_child_run_per_node_witness:
  "\<exists>w r. findWorkflowRunById (fl_store flow_child) ''r'' = Some w \<and> findRunById (run_store_of flow_child) ''qx'' = Some r
    \<and> run_key r = Some (workspaceIdempotencyKey (w_workspaceId w) (workflowNodeRunIdempotencyKey (w_id w) ''m''))"
  using one_child_run_per_node [OF flow_reachable(2), of "''q''" agent_node_run "''qx''"] flow_found(2)
  by (auto simp: agent_node_run_def)

theorem memory_save_reverts_witness:
  "\<exists>s' s'' m. saveWorkflowNodeRun (wait_node_run NR_WAITING JUndefined None 4) (fl_store flow_done) = Inr s'
    \<and> findWorkflowNodeRunById s' ''t'' = Some (wait_node_run NR_WAITING JUndefined None 4)
    \<and> postgres_saveWorkflowNodeRun (wait_node_run NR_WAITING JUndefined None 4) (fl_store flow_done) = Inr s''
    \<and> findWorkflowNodeRunById s'' ''t'' = Some m \<and> n_status m = NR_SUCCEEDED"
proof -
  have i: "n_id (wait_node_run st r c u) = ''t''" "n_status (wait_node_run st r c u) = st"
    "n_childRunId (wait_node_run st r c u) = None" for st r c u
    by (simp_all add: wait_node_run_def)
  have "findWorkflowNodeRunById (fl_store flow_done) ''t''
      = Some (wait_node_run NR_SUCCEEDED (JString ''in'') (Some (DateMs 21)) 21)"
    by code_simp
  from memory_save_reverts [of "fl_store flow_done" "wait_node_run NR_SUCCEEDED (JString ''in'') (Some (DateMs 21)) 21"
      "wait_node_run NR_WAITING JUndefined None 4", unfolded i, OF this]
  show ?thesis by auto
qed

end
