(* ===== verification/Declarative_Replay.thy ===== *)
theory Declarative_Replay
  imports Declarative_Facts "HOL-Library.Sublist"
begin

text \<open>
  Tools that write to the outside world, and the journal that shall keep them from being invoked
  again. The journal is the only thing the attempts of a run share: each attempt may be killed at
  any point, also between the invocation and its answer, a later attempt may meet the same call
  again, and the answer of an attempt that lost its lease may still reach the journal. A call
  awaits the journal twice before it leaves, to find an entry and to record one, so two attempts
  may both look before either records: \<open>recordPending\<close> then hands the second the entry of the
  first, which the loop ignores. What holds is that a call is not dispatched by a look-up after
  the first record.
\<close>

definition external_write :: "idempotency_class \<Rightarrow> bool" where
  "external_write c \<longleftrightarrow> c = Class_IDEMPOTENT_WRITE \<or> c = Class_RECONCILE \<or> c = Class_UNKNOWN_WRITE"

definition call_key :: "execution_request \<Rightarrow> tool_call \<Rightarrow> string" where
  "call_key request call =
     journal_key (er_runId request) (buildRunOperationKey (er_runId request) (tc_id call))"

text \<open>
  The call of a run and a call id writes to the outside: whenever one of the surroundings accepts
  it, the tool's metadata says so. Other calls may be of any class.
\<close>

definition external_call :: "'w loop_env set \<Rightarrow> string \<Rightarrow> bool" where
  "external_call E k \<longleftrightarrow> (\<forall>env\<in>E. \<forall>request call st s p. call_key request call = k \<longrightarrow>
     prepareToolCall env request call st = (s, Inr p) \<longrightarrow> external_write (tm_idempotencyClass (pt_metadata p)))"

text \<open>Gateways that keep their contract: what they return is a JSON value.\<close>

definition json_gateways :: "'w loop_env set \<Rightarrow> bool" where
  "json_gateways E \<longleftrightarrow> (\<forall>env\<in>E. \<forall>invoke i w v. le_toolGateway env = Some invoke \<longrightarrow>
     snd (invoke i w) = Inr v \<longrightarrow> canonical_tree v)"

subsection \<open>Calls in flight\<close>

text \<open>
  A call of an attempt between two of its awaits: it has looked the journal up and decided to
  dispatch, it has recorded its entry, the tool is working, or the journal refused the result.
  The log keeps the order of the first three; calls in flight are numbered. A call that may repeat
  the entry it found passes its record step without writing one.
\<close>

datatype call_stage = Looked_up bool | Recorded_pending | Tool_working | Commit_refused

record tool_flight =
  fl_number :: nat
  fl_request :: execution_request
  fl_call :: tool_call
  fl_prepared :: prepared_call
  fl_stage :: call_stage

datatype call_event = Looked nat string | Recorded nat string | Invoked nat string

record tool_calls =
  ts_journal :: journal
  ts_flights :: "tool_flight list"
  ts_log :: "call_event list"
  ts_next :: nat

definition no_calls :: tool_calls where
  "no_calls = \<lparr> ts_journal = [], ts_flights = [], ts_log = [], ts_next = 0 \<rparr>"

definition flight_key :: "tool_flight \<Rightarrow> string" where
  "flight_key f = call_key (fl_request f) (fl_call f)"

text \<open>
  One await of one attempt. Any attempt with any state of its own meets the shared journal; a
  record that crashes the process leaves the entry and no call in flight; a call in flight may
  disappear with its process, or because the journal could not be written.
\<close>

inductive tool_step :: "'w loop_env set \<Rightarrow> string \<Rightarrow> tool_calls \<Rightarrow> tool_calls \<Rightarrow> bool" for E ws where
  flow_look: "env \<in> E \<Longrightarrow> er_operationJournal request \<Longrightarrow> er_workspaceId request = ws \<Longrightarrow>
    lp_journal st = ts_journal y \<Longrightarrow> prepareToolCall env request call st = (s, Inr p) \<Longrightarrow>
    consulted request call p s = Dispatch resume \<Longrightarrow>
    tool_step E ws y (y\<lparr> ts_flights := ts_flights y @ [\<lparr> fl_number = ts_next y, fl_request = request,
        fl_call = call, fl_prepared = p, fl_stage = Looked_up resume \<rparr>],
      ts_log := ts_log y @ [Looked (ts_next y) (call_key request call)], ts_next := Suc (ts_next y) \<rparr>)"
| flow_record: "env \<in> E \<Longrightarrow> ts_flights y = fs @ f # gs \<Longrightarrow> fl_stage f = Looked_up resume \<Longrightarrow>
    lp_journal st = ts_journal y \<Longrightarrow>
    startToolCall env (fl_request f) (fl_call f) (fl_prepared f) resume st = (t, r) \<Longrightarrow>
    tool_step E ws y (y\<lparr> ts_journal := lp_journal t,
      ts_flights := fs @ (if r = Inr () then [f\<lparr> fl_stage := Recorded_pending \<rparr>] else []) @ gs,
      ts_log := ts_log y @ [Recorded (fl_number f) (flight_key f)] \<rparr>)"
| flow_invoke: "ts_flights y = fs @ f # gs \<Longrightarrow> fl_stage f = Recorded_pending \<Longrightarrow>
    tool_step E ws y (y\<lparr> ts_flights := fs @ f\<lparr> fl_stage := Tool_working \<rparr> # gs,
      ts_log := ts_log y @ [Invoked (fl_number f) (flight_key f)] \<rparr>)"
| flow_answer: "env \<in> E \<Longrightarrow> ts_flights y = fs @ f # gs \<Longrightarrow> fl_stage f = Tool_working \<Longrightarrow>
    le_toolGateway env = Some invoke \<Longrightarrow>
    invoke (toolInvocation (fl_request f) (fl_call f) (fl_prepared f)) w = (w', answer) \<Longrightarrow>
    lp_journal st = ts_journal y \<Longrightarrow>
    finishToolCall env (fl_request f) (fl_call f) (fl_prepared f) answer st = (t, r) \<Longrightarrow>
    tool_step E ws y (y\<lparr> ts_journal := lp_journal t, ts_flights := fs @ gs \<rparr>)"
| flow_refused: "ts_flights y = fs @ f # gs \<Longrightarrow> fl_stage f = Tool_working \<Longrightarrow>
    commitResult now (er_runId (fl_request f)) (pt_operationKey (fl_prepared f)) v (ts_journal y) = (j, None) \<Longrightarrow>
    tool_step E ws y (y\<lparr> ts_journal := j, ts_flights := fs @ f\<lparr> fl_stage := Commit_refused \<rparr> # gs \<rparr>)"
| flow_uncertain: "ts_flights y = fs @ f # gs \<Longrightarrow> fl_stage f = Commit_refused \<Longrightarrow>
    tool_step E ws y (y\<lparr> ts_journal := fst (markUncertain now (er_runId (fl_request f))
      (pt_operationKey (fl_prepared f)) (ts_journal y)), ts_flights := fs @ gs \<rparr>)"
| flow_died: "ts_flights y = fs @ f # gs \<Longrightarrow> tool_step E ws y (y\<lparr> ts_flights := fs @ gs \<rparr>)"




lemma prepareToolCall_facts:
  "lp_journal (fst (prepareToolCall env request call st)) = lp_journal st"
  "prepareToolCall env request call st = (s, Inr p) \<Longrightarrow>
     pt_operationKey p = buildRunOperationKey (er_runId request) (tc_id call)
     \<and> (\<exists>i w. snd (le_resolveToolMetadata env i w) = Some (pt_metadata p))"
  by (auto simp: prepareToolCall_def throwIfCancelled_def Let_def
      split: prod.splits option.splits jsv.splits if_splits) (metis snd_conv)+









subsection \<open>A call that nobody disturbs\<close>

text \<open>
  The steps are the code's: what \<open>executeToolCall\<close> does to the journal, when no other attempt
  acts meanwhile, is a sequence of them.
\<close>

lemma undisturbed_dispatch:
  assumes env: "env \<in> E" "le_toolGateway env = Some invoke"
    and req: "er_operationJournal request" "er_workspaceId request = ws"
    and p: "prepareToolCall env request call st = (s, Inr p)" and d: "consulted request call p s = Dispatch b"
    and t: "startToolCall env request call p b s = (t, r)"
    and y: "ts_journal y = lp_journal st"
  shows "\<exists>z. (tool_step E ws)\<^sup>*\<^sup>* y z \<and> ts_journal z = (if r = Inr () then lp_journal (fst (finishToolCall env
      request call p (snd (invoke (toolInvocation request call p) (lp_world t)))
      (t\<lparr> lp_world := fst (invoke (toolInvocation request call p) (lp_world t)) \<rparr>))) else lp_journal t)"
proof -
  let ?f = "\<lparr> fl_number = ts_next y, fl_request = request, fl_call = call, fl_prepared = p,
    fl_stage = Looked_up b \<rparr>"
  let ?y1 = "y\<lparr> ts_flights := ts_flights y @ [?f],
      ts_log := ts_log y @ [Looked (ts_next y) (call_key request call)], ts_next := Suc (ts_next y) \<rparr>"
  have s: "lp_journal s = lp_journal st" using prepareToolCall_facts(1) [of env request call st] p by simp
  have 1: "(tool_step E ws)\<^sup>*\<^sup>* y ?y1"
    by (rule r_into_rtranclp, rule flow_look [OF env(1) req y [symmetric] p d])
  let ?y2 = "?y1\<lparr> ts_journal := lp_journal t,
      ts_flights := ts_flights y @ (if r = Inr () then [?f\<lparr> fl_stage := Recorded_pending \<rparr>] else []) @ [],
      ts_log := ts_log ?y1 @ [Recorded (fl_number ?f) (flight_key ?f)] \<rparr>"
  have "tool_step E ws ?y1 ?y2"
    by (rule flow_record [OF env(1), where st = s]) (use t s y in simp_all)
  with 1 have 2: "(tool_step E ws)\<^sup>*\<^sup>* y ?y2" by (rule rtranclp.rtrancl_into_rtrancl)
  show ?thesis
  proof (cases "r = Inr ()")
    case False
    then show ?thesis by (intro exI [of _ ?y2]) (use 2 in simp)
  next
    case True
    let ?g = "?f\<lparr> fl_stage := Recorded_pending \<rparr>"
    let ?y3 = "?y2\<lparr> ts_flights := ts_flights y @ ?g\<lparr> fl_stage := Tool_working \<rparr> # [],
        ts_log := ts_log ?y2 @ [Invoked (fl_number ?g) (flight_key ?g)] \<rparr>"
    have "tool_step E ws ?y2 ?y3" by (rule flow_invoke) (simp_all add: True)
    with 2 have 3: "(tool_step E ws)\<^sup>*\<^sup>* y ?y3" by (rule rtranclp.rtrancl_into_rtrancl)
    obtain w a where w: "invoke (toolInvocation request call p) (lp_world t) = (w, a)"
      by (cases "invoke (toolInvocation request call p) (lp_world t)")
    obtain u x where u: "finishToolCall env request call p a (t\<lparr> lp_world := w \<rparr>) = (u, x)"
      by (cases "finishToolCall env request call p a (t\<lparr> lp_world := w \<rparr>)")
    have "tool_step E ws ?y3 (?y3\<lparr> ts_journal := lp_journal u, ts_flights := ts_flights y @ [] \<rparr>)"
      by (rule flow_answer [OF env(1) _ _ env(2), where st = "t\<lparr> lp_world := w \<rparr>" and w = "lp_world t"
          and f = "?g\<lparr> fl_stage := Tool_working \<rparr>" and w' = w and answer = a and r = x])
        (use w u in simp_all)
    with 3 have "(tool_step E ws)\<^sup>*\<^sup>* y (?y3\<lparr> ts_journal := lp_journal u, ts_flights := ts_flights y @ [] \<rparr>)"
      by (rule rtranclp.rtrancl_into_rtrancl)
    then show ?thesis using True w u
      by (intro exI [of _ "?y3\<lparr> ts_journal := lp_journal u, ts_flights := ts_flights y @ [] \<rparr>"] conjI) simp_all
  qed
qed

lemma undisturbed_call:
  assumes env: "env \<in> E" "le_toolGateway env = Some invoke"
    and req: "er_operationJournal request" "er_workspaceId request = ws"
    and y: "ts_journal y = lp_journal st"
  shows "\<exists>z. (tool_step E ws)\<^sup>*\<^sup>* y z \<and> ts_journal z = lp_journal (fst (executeToolCall env request invoke call st))"
proof (cases "prepareToolCall env request call st")
  case (Pair s x)
  have s: "lp_journal s = lp_journal st" using prepareToolCall_facts(1) [of env request call st] Pair by simp
  show ?thesis
  proof (cases x)
    case (Inl e)
    with Pair s y show ?thesis by (intro exI [of _ y]) (simp add: executeToolCall_def)
  next
    case (Inr p)
    note p = Pair [unfolded Inr]
    show ?thesis
    proof (cases "consulted request call p s")
      case (Dispatch b)
      obtain t r where t: "startToolCall env request call p b s = (t, r)"
        by (cases "startToolCall env request call p b s")
      have "lp_journal (fst (executeToolCall env request invoke call st))
        = (if r = Inr () then lp_journal (fst (finishToolCall env
            request call p (snd (invoke (toolInvocation request call p) (lp_world t)))
            (t\<lparr> lp_world := fst (invoke (toolInvocation request call p) (lp_world t)) \<rparr>))) else lp_journal t)"
        using p Dispatch t
        by (cases r; cases "finishToolCall env request call p (snd (invoke (toolInvocation request call p) (lp_world t)))
            (t\<lparr> lp_world := fst (invoke (toolInvocation request call p) (lp_world t)) \<rparr>)";
            cases "snd (finishToolCall env request call p (snd (invoke (toolInvocation request call p) (lp_world t)))
            (t\<lparr> lp_world := fst (invoke (toolInvocation request call p) (lp_world t)) \<rparr>))")
          (simp_all add: executeToolCall_def consulted_def Let_def split_beta)
      with undisturbed_dispatch [OF env req p Dispatch t y] show ?thesis by simp
    qed (use p s y in \<open>auto simp: executeToolCall_def consulted_def Let_def intro!: exI [of _ y]\<close>)
  qed
qed

subsection \<open>What interleaved calls keep\<close>




fun event_number :: "call_event \<Rightarrow> nat" where
  "event_number (Looked n k) = n"
| "event_number (Recorded n k) = n"
| "event_number (Invoked n k) = n"

definition events_of :: "nat \<Rightarrow> call_event list \<Rightarrow> call_event list" where
  "events_of n lg = filter (\<lambda>e. event_number e = n) lg"








lemma events_of_append [simp]: "events_of n (lg @ [e]) = events_of n lg @ (if event_number e = n then [e] else [])"
  by (simp add: events_of_def)












definition sample_loop_env :: "unit loop_env" where
  "sample_loop_env = \<lparr> le_config = \<lparr> lf_instructions = ''do'', lf_maxModelInvocations = 2,
       lf_maxToolInvocations = 2, lf_maxOutputTokens = Some 10 \<rparr>,
     le_modelProfileVersionId = ''m'', le_allowedTools = [''t''], le_outputSchema = JObject [],
     le_toolDefinitions = [JObject []], le_generateCompletion = (\<lambda>q w. (w, Inr \<lparr> co_text = None, co_toolCalls = [] \<rparr>)),
     le_toolGateway = Some (\<lambda>i w. (w, Inr JNull)),
     le_resolveToolMetadata = (\<lambda>i w. (w, Some \<lparr> tm_inputSchema = JObject [],
       tm_idempotencyClass = Class_UNKNOWN_WRITE \<rparr>)),
     le_prefetch = (\<lambda>w. (w, Inr None)), le_aborted = (\<lambda>w. False), le_crash = (\<lambda>p w. False),
     le_now = (\<lambda>w. ''now''), le_validate = (\<lambda>s v. canonical_tree v), le_print = (\<lambda>v. ''{}''),
     le_parse = (\<lambda>t. Some (JObject [])), le_sanitize = (\<lambda>m f. m), le_sha256 = sample_digest,
     le_byteLength = sample_bytes \<rparr>"

definition sample_request :: execution_request where
  "sample_request = \<lparr> er_runId = ''r'', er_runAttemptId = ''a'', er_workspaceId = ''w'', er_agentId = ''g'',
     er_agentVersionId = ''v'', er_runtime = JObject [], er_input = JNull, er_effectiveConfig = JObject [],
     er_modelProfileVersionBindings = JObject [], er_toolVersionBindings = JObject [(''t'', JString ''tv'')],
     er_memoryNamespaceBindings = JObject [], er_knowledgeIndexBindings = JObject [], er_toolGrants = [],
     er_timeoutMs = JNumber (Finite 1000), er_policyContext = JObject [], er_evaluationContext = None,
     er_restrictPersistentMemory = None, er_checkpoint = None, er_executionOwnership = Some (''o'', 1),
     er_operationJournal = True \<rparr>"

definition sample_call :: tool_call where
  "sample_call = \<lparr> tc_id = ''c'', tc_name = ''t'', tc_arguments = JNull \<rparr>"

definition sample_loop_state :: "journal \<Rightarrow> unit loop_state" where
  "sample_loop_state j = \<lparr> lp_messages = [], lp_modelInvocations = 1, lp_toolInvocations = 0,
     lp_checkpointSequence = 0, lp_retrievedContext = None, lp_journal = j,
     lp_checkpoints = empty_checkpoint_store, lp_world = () \<rparr>"

definition sample_prepared :: prepared_call where
  "sample_prepared = \<lparr> pt_toolVersionId = ''tv'', pt_metadata = \<lparr> tm_inputSchema = JObject [],
       tm_idempotencyClass = Class_UNKNOWN_WRITE \<rparr>, pt_operationKey = buildRunOperationKey ''r'' ''c'',
     pt_fingerprint = fingerprintToolInput sample_digest JNull \<rparr>"

definition sample_flight :: "nat \<Rightarrow> call_stage \<Rightarrow> tool_flight" where
  "sample_flight n stage = \<lparr> fl_number = n, fl_request = sample_request, fl_call = sample_call,
     fl_prepared = sample_prepared, fl_stage = stage \<rparr>"

definition sample_started :: "journal \<Rightarrow> unit loop_state" where
  "sample_started j = fst (startToolCall sample_loop_env sample_request sample_call sample_prepared False
     (sample_loop_state j))"


abbreviation sample_key :: string where
  "sample_key \<equiv> call_key sample_request sample_call"

lemma sample_external:
  "json_gateways {sample_loop_env}" "external_call {sample_loop_env} sample_key"
  by (auto simp: json_gateways_def external_call_def sample_loop_env_def external_write_def
      dest!: prepareToolCall_facts(2) sym [of _ "pt_metadata _"])

lemma sample_call_facts:
  "prepareToolCall sample_loop_env sample_request sample_call (sample_loop_state []) = (sample_loop_state [], Inr sample_prepared)"
  "consulted sample_request sample_call sample_prepared (sample_loop_state []) = Dispatch False"
  by code_simp+

lemma sample_started_runs: "startToolCall sample_loop_env sample_request sample_call sample_prepared False
     (sample_loop_state j) = (sample_started j, Inr ())"
  by (simp add: sample_started_def startToolCall_def crashIfRequested_def sample_loop_env_def Let_def)

lemma sample_look:
  "tool_step {sample_loop_env} ''w'' \<lparr> ts_journal = [], ts_flights = fs, ts_log = es, ts_next = n \<rparr>
     \<lparr> ts_journal = [], ts_flights = fs @ [sample_flight n (Looked_up False)],
        ts_log = es @ [Looked n sample_key], ts_next = Suc n \<rparr>"
  using flow_look [of sample_loop_env "{sample_loop_env}" sample_request "''w''" "sample_loop_state []"
      "\<lparr> ts_journal = [], ts_flights = fs, ts_log = es, ts_next = n \<rparr>", OF _ _ _ _ sample_call_facts]
  by (simp add: sample_flight_def) (simp add: sample_request_def sample_loop_state_def)

lemma sample_record:
  "tool_step {sample_loop_env} ''w''
     \<lparr> ts_journal = j, ts_flights = fs @ sample_flight m (Looked_up False) # gs, ts_log = es, ts_next = n \<rparr>
     \<lparr> ts_journal = lp_journal (sample_started j), ts_flights = fs @ sample_flight m Recorded_pending # gs,
        ts_log = es @ [Recorded m sample_key], ts_next = n \<rparr>"
  using flow_record [of sample_loop_env "{sample_loop_env}"
      "\<lparr> ts_journal = j, ts_flights = fs @ sample_flight m (Looked_up False) # gs, ts_log = es, ts_next = n \<rparr>"
      fs "sample_flight m (Looked_up False)" gs False "sample_loop_state j" "sample_started j" "Inr ()" "''w''"]
    sample_started_runs [of j]
  by (simp add: sample_flight_def flight_key_def sample_loop_state_def)

lemma sample_invoke:
  "tool_step {sample_loop_env} ''w''
     \<lparr> ts_journal = j, ts_flights = fs @ sample_flight m Recorded_pending # gs, ts_log = es, ts_next = n \<rparr>
     \<lparr> ts_journal = j, ts_flights = fs @ sample_flight m Tool_working # gs,
        ts_log = es @ [Invoked m sample_key], ts_next = n \<rparr>"
  using flow_invoke [of "\<lparr> ts_journal = j, ts_flights = fs @ sample_flight m Recorded_pending # gs,
      ts_log = es, ts_next = n \<rparr>" fs "sample_flight m Recorded_pending" gs "{sample_loop_env}" "''w''"]
  by (simp add: sample_flight_def flight_key_def)



text \<open>
  The exception is real: two attempts that look the journal up before either records its entry
  both invoke the tool, although the second \<open>recordPending\<close> is answered with the first's entry.
\<close>

theorem overlapping_calls_dispatch_twice:
  "\<exists>y. (tool_step {sample_loop_env} ''w'')\<^sup>*\<^sup>* no_calls y \<and> external_call {sample_loop_env} sample_key
    \<and> ts_log y = [Looked 0 sample_key, Looked 1 sample_key, Recorded 0 sample_key, Recorded 1 sample_key,
        Invoked 0 sample_key, Invoked 1 sample_key]"
proof -
  note s = rtranclp.rtrancl_into_rtrancl [where r = "tool_step {sample_loop_env} ''w''"]
  let ?L = "sample_flight 0 (Looked_up False)" and ?R = "sample_flight 0 Recorded_pending"
    and ?W = "sample_flight 0 Tool_working"
  let ?es = "[Looked 0 sample_key, Looked (Suc 0) sample_key]"
  note look = sample_look [of "[]" "[]" 0, simplified] sample_look [of "[?L]" "[Looked 0 sample_key]" "Suc 0", simplified]
  note rec = sample_record [of "[]" "[]" 0 "[sample_flight (Suc 0) (Looked_up False)]" ?es, simplified]
    sample_record [of _ "[?R]" "Suc 0" "[]" "?es @ [Recorded 0 sample_key]", simplified]
  note go = sample_invoke [of _ "[]" 0 "[sample_flight (Suc 0) Recorded_pending]", simplified]
    sample_invoke [of _ "[?W]" "Suc 0" "[]", simplified]
  from s [OF s [OF s [OF s [OF s [OF r_into_rtranclp [of "tool_step {sample_loop_env} ''w''", OF look(1)] look(2)]
    rec(1)] rec(2)] go(1)] go(2)]
  show ?thesis using sample_external
    by (intro exI [of _ "\<lparr> ts_journal = lp_journal (sample_started (lp_journal (sample_started []))),
        ts_flights = [?W, sample_flight (Suc 0) Tool_working], ts_log = ?es @ [Recorded 0 sample_key,
        Recorded (Suc 0) sample_key, Invoked 0 sample_key, Invoked (Suc 0) sample_key], ts_next = Suc (Suc 0) \<rparr>"] conjI)
      (simp_all add: no_calls_def)
qed

subsection \<open>Resuming from a checkpoint\<close>

text \<open>
  C16. An attempt that resumes continues where the last one stopped: the state of the latest
  checkpoint, taken under a new key while the attempt owned the run, restores the conversation,
  both counters, the retrieved context and the calls still to make, and it passes the integrity
  check of the repository on the way.
\<close>

theorem resume_continues:
  assumes "(checkpoint_step (le_sha256 env) (le_byteLength env))\<^sup>*\<^sup>* empty_checkpoint_store (lp_checkpoints st)"
    and "checkpointing request" "lp_messages st \<noteq> []"
    and "take_checkpoint env request phase label pending st = (st', Inr ())"
    and "findByIdempotencyKey (lp_checkpoints st) (er_workspaceId request) (er_runId request)
      (er_runAttemptId request @ '':'' @ label @ '':'' @ nat_str (nat (lp_checkpointSequence st + 1))) = None"
    and "er_checkpoint successor = Some (map_option ck_state
      (findLatestByRun (lp_checkpoints st') (er_workspaceId request) (er_runId request)))"
  shows "\<exists>st'' row. beginLoop env' successor journal checkpoints w
        = (st'', Inr (case pending of None \<Rightarrow> [] | Some calls \<Rightarrow> calls))
    \<and> lp_messages st'' = lp_messages st \<and> lp_modelInvocations st'' = lp_modelInvocations st
    \<and> lp_toolInvocations st'' = lp_toolInvocations st \<and> lp_retrievedContext st'' = lp_retrievedContext st
    \<and> findLatestByRun (lp_checkpoints st') (er_workspaceId request) (er_runId request) = Some row
    \<and> assertCheckpointStateIntegrity (le_sha256 env) (le_byteLength env) (ck_state row) (ck_payloadDigest row)
        = Inr (ck_state row)"
proof -
  let ?n = "lp_checkpointSequence st + 1"
  let ?saved = "\<lparr> lc_messages = lp_messages st, lc_modelInvocations = lp_modelInvocations st,
    lc_toolInvocations = lp_toolInvocations st, lc_retrievedContext = lp_retrievedContext st,
    lc_pendingToolCalls = pending \<rparr>"
  obtain owner generation where o: "er_executionOwnership request = Some (owner, generation)"
    using assms(2) by (auto simp: checkpointing_def)
  define c where "c = \<lparr> cc_workspaceId = er_workspaceId request, cc_runId = er_runId request,
    cc_runAttemptId = er_runAttemptId request, cc_executionGeneration = generation,
    cc_executionOwner = owner, cc_bindingIdentity = buildCheckpointBindingIdentity request,
    cc_cursor = \<lparr> cu_phase = phase, cu_checkpointSequence = ?n \<rparr>,
    cc_state = buildDeclarativeCheckpointState ?saved,
    cc_idempotencyKey = er_runAttemptId request @ '':'' @ label @ '':'' @ nat_str (nat ?n) \<rparr>"
  have key: "findByIdempotencyKey (lp_checkpoints st) (cc_workspaceId c) (cc_runId c) (cc_idempotencyKey c) = None"
    using assms(5) by (simp add: c_def)
  obtain s r where commit: "commitCheckpoint (le_sha256 env) (le_byteLength env) (le_now env (lp_world st)) c
      (lp_checkpoints st) = (s, r)"
    by (cases "commitCheckpoint (le_sha256 env) (le_byteLength env) (le_now env (lp_world st)) c (lp_checkpoints st)")
  have "er_checkpoint request \<noteq> None" "isDeclarativeCheckpointingEnabled request"
    using assms(2) by (auto simp: checkpointing_def isDeclarativeCheckpointingEnabled_def split: if_splits)
  with assms(4) o commit [unfolded c_def]
  have "lp_checkpoints st' = s" and r: "r \<noteq> Stale_generation" "r \<noteq> Invalid_state"
    by (auto simp: take_checkpoint_def commitDeclarativeCheckpoint_def Let_def split: commit_result.splits)
  moreover have "r \<noteq> Duplicate d" for d
    using commit key by (auto simp: commitCheckpoint_def Let_def split: if_splits option.splits)
  ultimately obtain row where s: "lp_checkpoints st' = s" and row: "r = Committed row" by (cases r) auto
  from checkpoint_restores [OF assms(1) commit [unfolded row]]
  have latest: "findLatestByRun s (er_workspaceId request) (er_runId request) = Some row"
    "assertCheckpointStateIntegrity (le_sha256 env) (le_byteLength env) (ck_state row) (ck_payloadDigest row)
      = Inr (ck_state row)" "ck_state row = cc_state c"
    using commitCheckpoint_cases [OF commit [unfolded row]] by (auto simp: c_def)
  have "restored successor = Some ?saved"
    using assms(6) latest s by (simp add: restored_def c_def)
  then show ?thesis using latest s assms(3) by (auto simp: beginLoop_def Let_def)
qed

definition sample_checkpointed :: execution_request where
  "sample_checkpointed = sample_request\<lparr> er_checkpoint := Some None,
     er_runtime := JObject [(''type'', JString ''DECLARATIVE''),
       (''config'', JObject [(''checkpointingEnabled'', JBool True)])] \<rparr>"

definition sample_running :: "unit loop_state" where
  "sample_running = \<lparr> lp_messages = [User_message ''go''], lp_modelInvocations = 1, lp_toolInvocations = 0,
     lp_checkpointSequence = 1, lp_retrievedContext = None, lp_journal = [],
     lp_checkpoints = sample_tracked, lp_world = () \<rparr>"

definition sample_saved :: "unit loop_state" where
  "sample_saved = fst (take_checkpoint sample_loop_env sample_checkpointed After_model ''model''
     (Some [sample_call]) sample_running)"

definition sample_successor :: execution_request where
  "sample_successor = sample_checkpointed\<lparr> er_runAttemptId := ''b'',
     er_checkpoint := Some (map_option ck_state (findLatestByRun (lp_checkpoints sample_saved) ''w'' ''r'')) \<rparr>"

lemma sample_saved_runs:
  "take_checkpoint sample_loop_env sample_checkpointed After_model ''model'' (Some [sample_call]) sample_running
     = (sample_saved, Inr ())"
  "checkpointing sample_checkpointed" "lp_messages sample_running \<noteq> []"
  "findByIdempotencyKey (lp_checkpoints sample_running) (er_workspaceId sample_checkpointed)
     (er_runId sample_checkpointed) (er_runAttemptId sample_checkpointed @ '':'' @ ''model'' @ '':''
       @ nat_str (nat (lp_checkpointSequence sample_running + 1))) = None"
  by code_simp+

theorem resume_continues_witness:
  "\<exists>st. beginLoop sample_loop_env sample_successor [] sample_tracked () = (st, Inr [sample_call])
    \<and> lp_messages st = [User_message ''go'']"
proof -
  have s: "(checkpoint_step (le_sha256 sample_loop_env) (le_byteLength sample_loop_env))\<^sup>*\<^sup>*
      empty_checkpoint_store (lp_checkpoints sample_running)"
    using sample_checkpoint_runs(1) by (simp add: sample_loop_env_def sample_running_def)
  have n: "er_checkpoint sample_successor = Some (map_option ck_state (findLatestByRun
      (lp_checkpoints sample_saved) (er_workspaceId sample_checkpointed) (er_runId sample_checkpointed)))"
    by (simp add: sample_successor_def sample_checkpointed_def sample_request_def)
  from resume_continues [OF s sample_saved_runs(2,3,1,4) n, of sample_loop_env "[]" sample_tracked "()"]
  show ?thesis by (auto simp: sample_running_def)
qed

end
