(* ===== verification/Run_Properties.thy ===== *)
theory Run_Properties
  imports Run_System
begin

text \<open>
  What holds of runs and attempts however the handlers of the system interleave: a runtime is
  started once per attempt, at most one attempt of a run is active, outcomes are final, a worker
  that lost its lease writes nothing, and a run moves by its protocol.
\<close>

lemma active_unique:
  assumes ok: "store_ok s" and a: "findRunAttemptById s i = Some a" "is_active a"
    and b: "findRunAttemptById s j = Some b" "is_active b" and same: "a_runId a = a_runId b"
  shows "a = b"
proof -
  note wa = store_wf_attemptD [OF store_ok_wf [OF ok] a(1)] and wb = store_wf_attemptD [OF store_ok_wf [OF ok] b(1)]
  obtain r where "findRunById s (a_runId a) = Some r" using wa by blast
  then have f: "attempts_fit (run_attempts s (a_runId a)) (r_status r)" using ok by (auto simp: store_ok_def)
  have "a \<in> run_attempts s (a_runId a)" "b \<in> run_attempts s (a_runId a)"
    using a b wa wb same by (auto simp: run_attempts_def)
  moreover have "a_status a \<noteq> Att_FAILED" "a_status b \<noteq> Att_FAILED" using a(2) b(2) by (auto simp: is_active_def)
  ultimately show ?thesis using fit_active [OF f] by (blast intro: is_last_unique)
qed

text \<open>
  C10. However workers, recovery ticks and creators of runs interleave, the runtime of an attempt
  is started at most once, a started attempt never looks pending again, every run has exactly one
  latest attempt whose status fits the run's, and no run has two attempts that are pending or
  running.
\<close>

theorem runtime_started_once:
  assumes "sys_step\<^sup>*\<^sup>* (initial_system p) y"
  shows "distinct (sy_started y)
    \<and> (\<forall>i\<in>set (sy_started y). \<exists>a. findRunAttemptById (runs_of y) i = Some a \<and> a_status a \<noteq> Att_PENDING)
    \<and> (\<forall>i r. findRunById (runs_of y) i = Some r \<longrightarrow> attempts_fit (run_attempts (runs_of y) i) (r_status r))
    \<and> (\<forall>i j a b. findRunAttemptById (runs_of y) i = Some a \<and> findRunAttemptById (runs_of y) j = Some b
         \<and> is_active a \<and> is_active b \<and> a_runId a = a_runId b \<longrightarrow> a = b)"
proof -
  have ok: "system_ok y" using assms by (rule reachable_ok)
  then show ?thesis
    using active_unique by (auto simp: system_ok_def claimed_def store_ok_def)
qed

lemma protocol_final:
  assumes "protocol_step\<^sup>*\<^sup>* m m'" "m i = Some (r, n)" "isTerminalRunState r"
  shows "m' i = m i"
  using assms(1)
proof (induction rule: rtranclp_induct)
  case (step u v)
  then have u: "u i = Some (r, n)" using assms(2) by simp
  have "\<not> protocol (Some (r, n)) x" for x
    using assms(3) run_moves_not_terminal
    by (auto elim!: protocol.cases simp: isTerminalRunState_def TERMINAL_RUN_STATES_def)
  with step u show ?case by (auto simp: protocol_step_def)
qed simp

text \<open>
  C12. An outcome is final: from the moment a run has succeeded, failed, timed out or been
  cancelled, the run, its attempts with their outputs and errors, and the number of its attempts
  never change again.
\<close>

theorem outcomes_final:
  assumes "sys_step\<^sup>*\<^sup>* (initial_system p) y" "sys_step\<^sup>*\<^sup>* y z"
    and "findRunById (runs_of y) i = Some r" "isTerminalRunState (r_status r)"
  shows "findRunById (runs_of z) i = Some r \<and> run_attempts (runs_of z) i = run_attempts (runs_of y) i"
proof -
  have ok: "system_ok y" using assms(1) by (rule reachable_ok)
  then have so: "store_ok (runs_of y)" by (simp add: system_ok_def)
  from sys_steps_ok [OF assms(2) ok] have e: "evolves (runs_of y) (runs_of z)" and oz: "store_ok (runs_of z)"
    by (auto simp: system_ok_def)
  then have k: "keeps (runs_of y) (runs_of z)" using evolves_keeps so by blast
  have r: "findRunById (runs_of z) i = Some r" using k assms(3,4) by (auto simp: keeps_def run_kept_def)
  have f: "attempts_fit (run_attempts (runs_of y) i) (r_status r)" using so assms(3) by (auto simp: store_ok_def)
  have "isTerminalRunAttemptState (a_status a)" if "a \<in> run_attempts (runs_of y) i" for a
    using f that assms(4)
    by (cases "a_status a = Att_FAILED"; cases "r_status r")
      (auto simp: isTerminalRunAttemptState_def TERMINAL_RUN_ATTEMPT_STATES_def attempt_status_for_def
        isTerminalRunState_def TERMINAL_RUN_STATES_def dest!: fit_active)
  then have sub: "run_attempts (runs_of y) i \<subseteq> run_attempts (runs_of z) i"
    using k by (auto simp: run_attempts_def keeps_def attempt_kept_def)
  have "protocol_step\<^sup>*\<^sup>* (run_phases (runs_of y)) (run_phases (runs_of z))" using evolves_protocol [OF e so] .
  then have "run_phases (runs_of z) i = run_phases (runs_of y) i"
    by (rule protocol_final [where r = "r_status r" and n = "card (run_attempts (runs_of y) i)"])
      (use assms(3,4) in \<open>simp_all add: run_phases_def\<close>)
  then have "card (run_attempts (runs_of z) i) = card (run_attempts (runs_of y) i)"
    using r assms(3) by (simp add: run_phases_def)
  then show ?thesis
    using r sub card_subset_eq [OF finite_run_attempts [OF store_ok_wf [OF oz]] sub] by simp
qed

subsection \<open>The fence\<close>

definition owns_lease :: "run_store \<Rightarrow> run_attempt \<Rightarrow> js_date \<Rightarrow> bool" where
  "owns_lease s a clock \<longleftrightarrow> (\<exists>c e. findRunAttemptById s (a_id a) = Some c \<and> a_status c = Att_RUNNING
     \<and> a_executionOwner c = a_executionOwner a \<and> a_executionGeneration c = a_executionGeneration a
     \<and> a_leaseExpiresAt c = Some e \<and> \<not> date_le e clock)"

fun is_own_outcome :: "execute_outcome \<Rightarrow> bool" where
  "is_own_outcome (Exec_succeeded v r a) = True"
| "is_own_outcome (Exec_failed e r a) = True"
| "is_own_outcome outcome = False"

definition fenced :: "run_store \<Rightarrow> run_attempt \<Rightarrow> js_date \<Rightarrow> run_store \<times> (osva_error + execute_outcome) \<Rightarrow> bool" where
  "fenced s a clock r \<longleftrightarrow> owns_lease s a clock \<or> fst r = s \<and> (\<forall>x. snd r = Inr x \<longrightarrow> \<not> is_own_outcome x)"

lemma fenced_quiet: "(\<And>x. r = Inr x \<Longrightarrow> \<not> is_own_outcome x) \<Longrightarrow> fenced s a clock (s, r)"
  by (simp add: fenced_def)

lemma fenced_error [simp]: "fenced s a clock (s, Inl e)"
  by (simp add: fenced_def)

lemma fenced_lift: "(\<And>x. r = Inr x \<Longrightarrow> fenced s a clock (f x s)) \<Longrightarrow> fenced s a clock (op_lift r f s)"
  by (cases r) (simp_all add: fenced_def)

lemma fenced_lost: "fenced s a clock (s, loadOwnershipLost s i j)"
  by (rule fenced_quiet) (auto simp: loadOwnershipLost_def split: option.splits)

lemma fenced_persist:
  assumes ok: "store_ok s" and a: "a_status a = Att_RUNNING" "a_executionOwner a \<noteq> None"
    and b: "attempt_wf b" "attempt_timeline b" "a_id b = a_id a" "a_executionOwner b = a_executionOwner a"
      "a_executionGeneration b = a_executionGeneration a" "a_status b \<noteq> Att_RUNNING"
  shows "fenced s a clock (persistTerminal clock run a nextRun b success s)"
proof -
  obtain t res where t: "transitionRunAndAttempt clock (r_status run) nextRun (a_status a) b None s = (t, res)"
    by (metis prod.collapse)
  from transitionRunAndAttempt_cases [OF store_ok_wf [OF ok] b(1,2) t] show ?thesis
  proof (elim disjE exE conjE)
    fix err assume "res = Inl err" "t = s"
    then show ?thesis using t fenced_lost by (simp add: persistTerminal_def fenced_quiet)
  next
    fix q r c d
    assume "assertExecutionFence (Some c) (a_status a) b clock = None"
      "findRunAttemptById s (a_id b) = Some c" "a_status c = a_status a"
    then have "owns_lease s a clock"
      using a b by (auto simp: owns_lease_def assertExecutionFence_def split: if_splits option.splits)
    then show ?thesis by (simp add: fenced_def)
  qed
qed

lemma fenced_finish:
  assumes ok: "store_ok s" and h: "held_pair s run a" "a_status a = Att_RUNNING" "a_executionOwner a \<noteq> None"
  shows "fenced s a clock (finishExecution clock now run a ending lost s)"
proof -
  have p: "fenced s a clock (persistTerminal clock run a nextRun b success s)"
    if "RunAttempt_transitionTo a st now opts = Inr b" "st \<noteq> Att_RUNNING" for st opts b nextRun success
  proof (rule fenced_persist [OF ok h(2,3)])
    have w: "attempt_wf a" "attempt_timeline a" using h(1) by (auto simp: held_pair_def)
    show "attempt_wf b" "attempt_timeline b" using transitionTo_inv [OF w(2,1) that(1)] by auto
    have "trimmed_owner (a_executionOwner a) = a_executionOwner a"
      using w(1) by (auto simp: trimmed_owner_def attempt_wf_def split: option.splits)
    then show "a_id b = a_id a" "a_executionOwner b = a_executionOwner a"
      "a_executionGeneration b = a_executionGeneration a" "a_status b \<noteq> Att_RUNNING"
      using transitionTo_shape [OF that(1)] that(2) by auto
  qed
  have f: "fenced s a clock (persistFailure clock now run a e s)" for e
    unfolding persistFailure_def by (intro fenced_lift p) auto
  show ?thesis
    unfolding finishExecution_def
    by (auto simp: f fenced_lost fenced_quiet intro!: fenced_lift intro: p
        split: runtime_end.splits execution_result.splits sum.splits)
qed

text \<open>
  C11. A worker writes an outcome only while it holds the lease: when the runtime of an attempt
  ends, the run store changes, and the worker answers with success or failure, only if the stored
  attempt is still running under the worker's own name and generation and the lease has not
  expired by the store's clock.
\<close>

theorem outcome_needs_lease:
  assumes "sys_step\<^sup>*\<^sup>* (initial_system p) y"
    and "Task_running cfg now run attempt request \<in> set (sy_tasks y)"
    and "finishExecution (clock_of y) now run attempt ending lost (runs_of y) = (s, res)"
    and "s \<noteq> runs_of y \<or> (\<exists>outcome. res = Inr outcome \<and> is_own_outcome outcome)"
  shows "owns_lease (runs_of y) attempt (clock_of y)"
proof -
  have "system_ok y" using assms(1) by (rule reachable_ok)
  with assms(2) have "store_ok (runs_of y)" "held_pair (runs_of y) run attempt" "a_status attempt = Att_RUNNING"
      "a_executionOwner attempt \<noteq> None"
    by (fastforce simp: system_ok_def)+
  from fenced_finish [OF this, of "clock_of y" now ending lost] assms(3,4) show ?thesis
    by (auto simp: fenced_def)
qed

text \<open>
  C13. Each step of the system is a step of the protocol of a run, or leaves every run as it is:
  no run is stored at the start, and however workers, recovery ticks and creators of runs
  interleave, one step changes the status and the number of attempts of at most one run. It
  creates it pending with one attempt, moves its status along one legal transition with the same
  attempts, or takes it from interrupted back to queued with exactly one attempt more.
\<close>

theorem system_refines_protocol:
  assumes "sys_step\<^sup>*\<^sup>* (initial_system p) y" "sys_step y z"
  shows "run_phases (runs_of (initial_system p)) = (\<lambda>i. None)
    \<and> protocol_step (run_phases (runs_of y)) (run_phases (runs_of z))"
proof
  show "run_phases (runs_of (initial_system p)) = (\<lambda>i. None)"
    by (simp add: fun_eq_iff run_phases_def initial_system_def empty_run_store_def findRunById_def)
  have "system_ok y" using assms(1) by (rule reachable_ok)
  then show "protocol_step (run_phases (runs_of y)) (run_phases (runs_of z))"
    using once_protocol [OF sys_step_once [OF assms(2)]] by (simp add: system_ok_def)
qed

subsection \<open>A run of the system\<close>

definition sample_config :: exec_config where
  "sample_config = \<lparr> xc_executionOwner = ''w1'', xc_leaseTtlMs = 30000, xc_checkpoints = True,
     xc_operationJournal = True, xc_sha256 = sample_digest, xc_byteLength = sample_bytes \<rparr>"

definition sample_version :: agent_version where
  "sample_version = \<lparr> av_id = ''v'', av_agentId = ''a'', av_version = 1, av_manifest = JObject
     [(''runtime'', JObject [(''type'', JString ''TYPESCRIPT'')])], av_createdAt = DateMs 1 \<rparr>"

definition sample_platform :: "unit platform" where
  "sample_platform = \<lparr> pf_runs = empty_run_store,
     pf_agents = \<lparr> as_agents = [], as_versions = [(''v'', sample_version)] \<rparr>, pf_queue = empty_queue,
     pf_checkpoints = empty_checkpoint_store, pf_journal = [], pf_clock = DateMs 10, pf_world = () \<rparr>"

definition sample_attempt :: run_attempt where
  "sample_attempt = \<lparr> a_id = ''a1'', a_runId = ''r1'', a_sequence = 1, a_status = Att_PENDING,
     a_createdAt = DateMs 1, a_startedAt = None, a_completedAt = None, a_error = None, a_output = JUndefined,
     a_infrastructureMetadata = None, a_executionOwner = None, a_executionGeneration = 0,
     a_leaseExpiresAt = None \<rparr>"

definition sample_running_attempt :: run_attempt where
  "sample_running_attempt = sample_attempt\<lparr> a_status := Att_RUNNING, a_startedAt := Some (DateMs 3),
     a_executionOwner := Some ''w1'', a_executionGeneration := 1, a_leaseExpiresAt := Some (DateMs 30003) \<rparr>"

definition sample_created_store :: run_store where
  "sample_created_store = put_run (sample_run Run_PENDING 1) (put_attempt sample_attempt empty_run_store)"

definition sample_queued_store :: run_store where
  "sample_queued_store = put_run (sample_run Run_QUEUED 2) sample_created_store"

definition sample_running_store :: run_store where
  "sample_running_store = put_run (sample_run Run_RUNNING 3) (put_attempt sample_running_attempt sample_queued_store)"

definition sample_finished :: "run_store \<times> (osva_error + execute_outcome)" where
  "sample_finished = finishExecution (DateMs 10) (DateMs 3) (sample_run Run_RUNNING 3) sample_running_attempt
     (Runtime_returned (Execution_succeeded JNull)) False sample_running_store"

lemma sample_operations:
  "RunAttempt_createFirst ''a1'' (r_id (sample_run Run_PENDING 1)) (DateMs 1) None = Inr sample_attempt"
  "createRunWithInitialAttempt (sample_run Run_PENDING 1) sample_attempt empty_run_store
     = (sample_created_store, Inr ())"
  "findRunById sample_created_store ''r1'' = Some (sample_run Run_PENDING 1)"
  "queue_created (sample_run Run_PENDING 1) (DateMs 2) sample_created_store
     = (sample_queued_store, Inr (sample_run Run_QUEUED 2))"
  "loadExecution sample_queued_store (pf_agents sample_platform) ''a1''
     = Inr (Inr (sample_run Run_QUEUED 2, sample_attempt, sample_version))"
  "acquireRunningLease sample_config (DateMs 10) (DateMs 3) (sample_run Run_QUEUED 2) sample_attempt
     sample_queued_store = (sample_running_store, Inr (Inr (sample_run Run_RUNNING 3, sample_running_attempt)))"
  by code_simp+

definition sample_exec_request :: execution_request where
  "sample_exec_request = (case executionRequest sample_config (sample_run Run_RUNNING 3) sample_running_attempt
     sample_version empty_checkpoint_store of Inr q \<Rightarrow> q | Inl e \<Rightarrow> sample_declarative)"

lemma sample_exec_request_built:
  "executionRequest sample_config (sample_run Run_RUNNING 3) sample_running_attempt sample_version
     empty_checkpoint_store = Inr sample_exec_request"
  by code_simp

definition sample_task :: task where
  "sample_task = Task_running sample_config (DateMs 3) (sample_run Run_RUNNING 3) sample_running_attempt
     sample_exec_request"

definition sample_system :: "run_store \<Rightarrow> task list \<Rightarrow> string list \<Rightarrow> unit system" where
  "sample_system s ts started = \<lparr> sy_platform = sample_platform\<lparr> pf_runs := s \<rparr>, sy_tasks = ts, sy_started = started \<rparr>"

lemma sample_system_simps [simp]:
  "runs_of (sample_system s ts i) = s" "sy_tasks (sample_system s ts i) = ts"
  "sy_started (sample_system s ts i) = i" "clock_of (sample_system s ts i) = DateMs 10"
  "pf_agents (sy_platform (sample_system s ts i)) = pf_agents sample_platform"
  "pf_checkpoints (sy_platform (sample_system s ts i)) = empty_checkpoint_store"
  "with_runs t (sample_system s ts i) = sample_system t ts i"
  "with_tasks us (sample_system s ts i) = sample_system s us i"
  "(sample_system s ts i)\<lparr> sy_started := j \<rparr> = sample_system s ts j"
  by (simp_all add: sample_system_def sample_platform_def with_runs_def with_tasks_def)

lemma sample_steps:
  "sys_step (sample_system empty_run_store [] []) (sample_system sample_created_store [] [])"
  "sys_step (sample_system sample_created_store [] [])
     (sample_system sample_created_store [Task_queue (sample_run Run_PENDING 1) (DateMs 2)] [])"
  "sys_step (sample_system sample_created_store [Task_queue (sample_run Run_PENDING 1) (DateMs 2)] [])
     (sample_system sample_queued_store [] [])"
  "sys_step (sample_system sample_queued_store [] []) (sample_system sample_queued_store
     [Task_loaded sample_config (DateMs 3) (sample_run Run_QUEUED 2) sample_attempt sample_version] [])"
  "sys_step (sample_system sample_queued_store
       [Task_loaded sample_config (DateMs 3) (sample_run Run_QUEUED 2) sample_attempt sample_version] [])
     (sample_system sample_running_store
       [Task_acquired sample_config (DateMs 3) (sample_run Run_RUNNING 3) sample_running_attempt sample_version] [])"
  "sys_step (sample_system sample_running_store
       [Task_acquired sample_config (DateMs 3) (sample_run Run_RUNNING 3) sample_running_attempt sample_version] [])
     (sample_system sample_running_store [sample_task] [''a1''])"
  "sys_step (sample_system sample_running_store [sample_task] [''a1''])
     (sample_system (fst sample_finished) [] [''a1''])"
proof -
  note c = sample_run_created
  show "sys_step (sample_system empty_run_store [] []) (sample_system sample_created_store [] [])"
    using step_create [OF c(1,2) _ sample_operations(1), of "sample_system empty_run_store [] []"] sample_operations(2)
    by (simp add: sample_run_props_def)
  show "sys_step (sample_system sample_created_store [] [])
     (sample_system sample_created_store [Task_queue (sample_run Run_PENDING 1) (DateMs 2)] [])"
    using step_read_pending [of "sample_system sample_created_store [] []"] sample_operations(3) by simp
  show "sys_step (sample_system sample_created_store [Task_queue (sample_run Run_PENDING 1) (DateMs 2)] [])
     (sample_system sample_queued_store [] [])"
    using step_queue [of "sample_system sample_created_store [Task_queue (sample_run Run_PENDING 1) (DateMs 2)] []"
        "[]" _ _ "[]"] sample_operations(4) by simp
  show "sys_step (sample_system sample_queued_store [] []) (sample_system sample_queued_store
     [Task_loaded sample_config (DateMs 3) (sample_run Run_QUEUED 2) sample_attempt sample_version] [])"
    using step_load [of "sample_system sample_queued_store [] []"] sample_operations(5) by simp
  show "sys_step (sample_system sample_queued_store
       [Task_loaded sample_config (DateMs 3) (sample_run Run_QUEUED 2) sample_attempt sample_version] [])
     (sample_system sample_running_store
       [Task_acquired sample_config (DateMs 3) (sample_run Run_RUNNING 3) sample_running_attempt sample_version] [])"
    using step_acquire [of "sample_system sample_queued_store
       [Task_loaded sample_config (DateMs 3) (sample_run Run_QUEUED 2) sample_attempt sample_version] []" "[]"
        _ _ _ _ _ "[]"] sample_operations(6) by simp
  show "sys_step (sample_system sample_running_store
       [Task_acquired sample_config (DateMs 3) (sample_run Run_RUNNING 3) sample_running_attempt sample_version] [])
     (sample_system sample_running_store [sample_task] [''a1''])"
    using step_start [of "sample_system sample_running_store
       [Task_acquired sample_config (DateMs 3) (sample_run Run_RUNNING 3) sample_running_attempt sample_version] []"
        "[]" _ _ _ _ _ "[]"] sample_exec_request_built
    by (simp add: sample_task_def) (simp add: sample_running_attempt_def sample_attempt_def)
  show "sys_step (sample_system sample_running_store [sample_task] [''a1''])
     (sample_system (fst sample_finished) [] [''a1''])"
    using step_finish [of "sample_system sample_running_store [sample_task] [''a1'']" "[]" sample_config "DateMs 3"
        "sample_run Run_RUNNING 3" sample_running_attempt sample_exec_request "[]"
        "Runtime_returned (Execution_succeeded JNull)" False "fst sample_finished" "snd sample_finished"]
    by (simp add: sample_task_def sample_finished_def)
qed

lemma sample_reaches_running:
  "sys_step\<^sup>*\<^sup>* (initial_system sample_platform) (sample_system sample_running_store [sample_task] [''a1''])"
proof -
  have "initial_system sample_platform = sample_system empty_run_store [] []"
    by (simp add: initial_system_def sample_system_def)
  moreover note s = rtranclp.rtrancl_into_rtrancl [where r = sys_step]
  note s [OF s [OF s [OF s [OF s [OF r_into_rtranclp [where r = sys_step, OF sample_steps(1)]
    sample_steps(2)] sample_steps(3)] sample_steps(4)] sample_steps(5)] sample_steps(6)]
  ultimately show ?thesis by simp
qed

lemma sample_reaches_finished:
  "sys_step\<^sup>*\<^sup>* (initial_system sample_platform) (sample_system (fst sample_finished) [] [''a1''])"
  by (rule rtranclp.rtrancl_into_rtrancl [where r = sys_step, OF sample_reaches_running sample_steps(7)])

lemma sample_finished_facts:
  "findRunById (fst sample_finished) ''r1'' = Some (sample_run Run_SUCCEEDED 3)"
  "snd sample_finished \<noteq> Inr (Exec_ownership_lost (sample_run Run_SUCCEEDED 3) sample_running_attempt)"
  "(case snd sample_finished of Inr outcome \<Rightarrow> is_own_outcome outcome | Inl e \<Rightarrow> False)"
  by code_simp+

theorem runtime_started_once_witness:
  "distinct (sy_started (sample_system sample_running_store [sample_task] [''a1'']))
    \<and> attempts_fit (run_attempts sample_running_store ''r1'') Run_RUNNING"
proof -
  have "findRunById sample_running_store ''r1'' = Some (sample_run Run_RUNNING 3)"
    by (simp add: sample_running_store_def sample_run_def)
  with runtime_started_once [OF sample_reaches_running] show ?thesis
    by (elim conjE allE [of _ "''r1''"]) (auto simp: sample_run_def)
qed

theorem outcomes_final_witness:
  "findRunById (runs_of (sample_system (fst sample_finished)
     [Task_queue (sample_run Run_SUCCEEDED 3) (DateMs 9)] [''a1''])) ''r1'' = Some (sample_run Run_SUCCEEDED 3)"
proof -
  have "sys_step (sample_system (fst sample_finished) [] [''a1'']) (sample_system (fst sample_finished)
      [Task_queue (sample_run Run_SUCCEEDED 3) (DateMs 9)] [''a1''])"
    using step_read_pending [of "sample_system (fst sample_finished) [] [''a1'']"] sample_finished_facts(1) by simp
  from outcomes_final [OF sample_reaches_finished r_into_rtranclp, OF this, of "''r1''" "sample_run Run_SUCCEEDED 3"]
    sample_finished_facts(1) show ?thesis
    by (simp add: sample_run_def isTerminalRunState_def TERMINAL_RUN_STATES_def)
qed

theorem outcome_needs_lease_witness:
  "owns_lease sample_running_store sample_running_attempt (DateMs 10)"
proof -
  have t: "Task_running sample_config (DateMs 3) (sample_run Run_RUNNING 3) sample_running_attempt
      sample_exec_request \<in> set (sy_tasks (sample_system sample_running_store [sample_task] [''a1'']))"
    by (simp add: sample_task_def)
  have f: "finishExecution (clock_of (sample_system sample_running_store [sample_task] [''a1''])) (DateMs 3)
      (sample_run Run_RUNNING 3) sample_running_attempt (Runtime_returned (Execution_succeeded JNull)) False
      (runs_of (sample_system sample_running_store [sample_task] [''a1''])) = (fst sample_finished, snd sample_finished)"
    by (simp add: sample_finished_def)
  have "\<exists>outcome. snd sample_finished = Inr outcome \<and> is_own_outcome outcome"
    using sample_finished_facts(3) by (auto split: sum.splits)
  with outcome_needs_lease [OF sample_reaches_running t f] show ?thesis by simp
qed

lemma sample_phases:
  "run_phases sample_running_store ''r1'' = Some (Run_RUNNING, 1)"
  "run_phases (fst sample_finished) ''r1'' = Some (Run_SUCCEEDED, 1)"
proof -
  have w: "store_wf sample_running_store" "store_wf (fst sample_finished)"
    using reachable_ok [OF sample_reaches_running] reachable_ok [OF sample_reaches_finished]
    by (auto simp: system_ok_def store_ok_def)
  have "map_option r_status (findRunById sample_running_store ''r1'') = Some Run_RUNNING"
    "map_option r_status (findRunById (fst sample_finished) ''r1'') = Some Run_SUCCEEDED"
    "card (set (attempts_of sample_running_store ''r1'')) = 1"
    "card (set (attempts_of (fst sample_finished) ''r1'')) = 1"
    by code_simp+
  with set_attempts_of [OF w(1)] set_attempts_of [OF w(2)]
  show "run_phases sample_running_store ''r1'' = Some (Run_RUNNING, 1)"
    "run_phases (fst sample_finished) ''r1'' = Some (Run_SUCCEEDED, 1)"
    by (auto simp: run_phases_def)
qed

theorem system_refines_protocol_witness:
  "protocol (Some (Run_RUNNING, 1)) (Run_SUCCEEDED, 1)
    \<and> run_phases (fst sample_finished) = (run_phases sample_running_store)(''r1'' \<mapsto> (Run_SUCCEEDED, 1))"
proof -
  have "protocol_step (run_phases sample_running_store) (run_phases (fst sample_finished))"
    using system_refines_protocol [OF sample_reaches_running sample_steps(7)] by simp
  then obtain i x where m: "protocol (run_phases sample_running_store i) x"
      "run_phases (fst sample_finished) = (run_phases sample_running_store)(i \<mapsto> x)"
    using sample_phases by (auto simp: protocol_step_def)
  then have "i = ''r1''" using sample_phases by (auto split: if_splits)
  then show ?thesis using m sample_phases by auto
qed

end
