(* ===== verification/Run_Recovery_Facts.thy ===== *)
theory Run_Recovery_Facts
  imports Run_Properties
begin

text \<open>
  What recovery does: a successor attempt is scheduled only when that is safe, a queued run is
  always delivered again, and the count of recoveries that is meant to limit them never grows.
\<close>

subsection \<open>Scheduling\<close>

lemma eligible_iff:
  "assessRunRecoveryEligibility run checkpoints operationJournal pending = Eligible \<longleftrightarrow>
     (\<forall>m. r_recoveryMetadata run = Some m \<longrightarrow> rm_blocked m = None
        \<and> rm_recoveryAttemptCount m < DEFAULT_MAX_RECOVERY_ATTEMPTS)
     \<and> r_status run = Run_INTERRUPTED \<and> \<not> pending
     \<and> findLatestByRun checkpoints (r_workspaceId run) (r_id run) \<noteq> None
     \<and> (\<forall>e\<in>set (map_values operationJournal). je_runId e = r_id run \<longrightarrow>
          isSideEffectSafeToAutoReplay (je_idempotencyClass e) (je_status e))"
  by (auto simp: assessRunRecoveryEligibility_def Let_def findBlockingOperationsForRun_def
      split: option.splits if_splits)

lemma set_listRunAttempts: "store_wf s \<Longrightarrow> set (listRunAttempts s i) = run_attempts s i"
  by (simp add: listRunAttempts_def set_attempts_of)

lemma plan_schedule:
  assumes "planRecovery c s checkpoints operationJournal = Inr (Plan_schedule m)"
  shows "\<exists>run. findRunById s (rcv_runId c) = Some run \<and> r_workspaceId run = rcv_workspaceId c
    \<and> assessRunRecoveryEligibility run checkpoints operationJournal
        (\<exists>a\<in>set (listRunAttempts s (rcv_runId c)). is_active a) = Eligible
    \<and> rm_recoveryAttemptCount m
      = (case r_recoveryMetadata run of None \<Rightarrow> 0 | Some k \<Rightarrow> rm_recoveryAttemptCount k) + 1"
  using assms
  by (auto simp: planRecovery_def Let_def and_then_Inr next_metadata_def
      split: option.splits if_splits recovery_eligibility.splits)

text \<open>
  C14. A lost run is recovered only when that is safe: whenever a successor attempt is scheduled,
  the run was interrupted with no attempt pending or running, it has a checkpoint to continue
  from, no journaled operation of it could be repeated with a second effect, and it was neither
  blocked nor over the limit. Then the run is queued, the new attempt is pending and comes after
  all earlier ones, its job is in the queue, and the store is consistent.
\<close>

theorem recovery_scheduled_safely:
  assumes ok: "store_ok (pf_runs p)" and fresh: "findRunAttemptById (pf_runs p) (rcv_newRunAttemptId c) = None"
    and r: "recoverInterruptedRun c p = (p', Inr (Recovery_scheduled i))"
  shows "i = rcv_newRunAttemptId c
    \<and> (\<exists>run. findRunById (pf_runs p) (rcv_runId c) = Some run \<and> r_status run = Run_INTERRUPTED
        \<and> (\<forall>a\<in>run_attempts (pf_runs p) (rcv_runId c). \<not> is_active a)
        \<and> findLatestByRun (pf_checkpoints p) (r_workspaceId run) (rcv_runId c) \<noteq> None
        \<and> (\<forall>e\<in>set (map_values (pf_journal p)). je_runId e = rcv_runId c \<longrightarrow>
            isSideEffectSafeToAutoReplay (je_idempotencyClass e) (je_status e)))
    \<and> (\<exists>run a. findRunById (pf_runs p') (rcv_runId c) = Some run \<and> r_status run = Run_QUEUED
        \<and> findRunAttemptById (pf_runs p') i = Some a \<and> a_status a = Att_PENDING
        \<and> (\<forall>b\<in>run_attempts (pf_runs p) (rcv_runId c). a_sequence b < a_sequence a)
        \<and> i \<in> set (jq_pending (pf_queue p')))
    \<and> store_ok (pf_runs p')"
proof -
  let ?s = "pf_runs p"
  have wf: "store_wf ?s" using ok by (rule store_ok_wf)
  from r obtain plan s x where pl: "planRecovery c ?s (pf_checkpoints p) (pf_journal p) = Inr plan"
      and w: "writeRecovery c plan ?s = (s, Inr (Recovery_scheduled i, x))"
    by (auto simp: recoverInterruptedRun_def split: sum.splits prod.splits option.splits)
  obtain m where m: "plan = Plan_schedule m"
    using w pl by (cases plan) (auto simp: writeRecovery_def op_then_def planRecovery_def Let_def and_then_Inr
      split: prod.splits sum.splits option.splits if_splits recovery_eligibility.splits)
  obtain t sch where t: "scheduleRecoveryRunAttempt (rcv_runId c) (rcv_newRunAttemptId c) (rcv_now c) m ?s = (t, sch)"
    by fastforce
  from w t m obtain run' a where sch: "sch = Inr (Some (run', a))" "t = s" "i = a_id a" "x = Some i"
    by (auto simp: writeRecovery_def op_then_def split: sum.splits option.splits)
  from scheduleRecovery_cases [OF ok t] sch obtain q l where *: "findRunById ?s (rcv_runId c) = Some q"
      "r_status q = Run_INTERRUPTED" "is_last (run_attempts ?s (rcv_runId c)) l" "a_id a = rcv_newRunAttemptId c"
      "a_sequence a = a_sequence l + 1" "a_status a = Att_PENDING"
      "run' = q\<lparr> r_status := Run_QUEUED, r_updatedAt := rcv_now c, r_recoveryMetadata := Some m \<rparr>"
      "s = put_run run' (put_attempt a ?s)"
    by auto
  have id: "r_id q = rcv_runId c" using store_wf_runD [OF wf *(1)] by simp
  from plan_schedule [OF pl [unfolded m]] *(1)
  have el: "assessRunRecoveryEligibility q (pf_checkpoints p) (pf_journal p)
      (\<exists>a\<in>run_attempts ?s (rcv_runId c). is_active a) = Eligible"
    by (simp add: set_listRunAttempts [OF wf])
  have q: "pf_runs p' = s" "i \<in> set (jq_pending (pf_queue p'))"
    using r pl w sch by (auto simp: recoverInterruptedRun_def enqueue_def split: prod.splits sum.splits if_splits)
  have "a_sequence b < a_sequence a" if "b \<in> run_attempts ?s (rcv_runId c)" for b
    using *(3,5) that by (cases "b = l") (auto simp: is_last_def less_trans dest!: bspec [of _ _ b])
  moreover have "store_ok s" using scheduleRecovery_ok [OF ok t fresh] sch by simp
  ultimately show ?thesis
    using el * q id sch by (auto simp: eligible_iff)
qed

subsection \<open>The count of recoveries\<close>

text \<open>
  What the runs of a store and the plans of the tasks hold of the count: an interrupted run has
  count 0, any other at most 1, and a blocked run has count 0.
\<close>

definition count_of :: "run \<Rightarrow> int" where
  "count_of r = (case r_recoveryMetadata r of None \<Rightarrow> 0 | Some m \<Rightarrow> rm_recoveryAttemptCount m)"

definition blocked_run :: "run \<Rightarrow> bool" where
  "blocked_run r \<longleftrightarrow> (\<exists>m. r_recoveryMetadata r = Some m \<and> rm_blocked m \<noteq> None)"

definition count_ok :: "run \<Rightarrow> bool" where
  "count_ok r \<longleftrightarrow> count_of r \<in> {0, 1} \<and> (r_status r = Run_INTERRUPTED \<or> blocked_run r \<longrightarrow> count_of r = 0)"

fun task_counts :: "task \<Rightarrow> bool" where
  "task_counts (Task_expiry plan) = (\<forall>m. snd plan = Some m \<longrightarrow> rm_recoveryAttemptCount m = 0 \<and> rm_blocked m = None)"
| "task_counts (Task_recovery c (Plan_block m outcome)) = (rm_recoveryAttemptCount m = 0)"
| "task_counts (Task_recovery c (Plan_schedule m)) = (rm_recoveryAttemptCount m = 1 \<and> rm_blocked m = None)"
| "task_counts t = True"

definition store_counts :: "run_store \<Rightarrow> bool" where
  "store_counts s \<longleftrightarrow> (\<forall>i r. findRunById s i = Some r \<longrightarrow> count_ok r)"

lemma store_counts_put [simp]:
  "store_counts s \<Longrightarrow> count_ok r \<Longrightarrow> store_counts (put_run r s)"
  "store_counts (put_attempt a s) = store_counts s"
  "store_counts (s\<lparr> rs_index := m \<rparr>) = store_counts s"
  by (auto simp: store_counts_def)

lemma count_ok_simps [simp]:
  "r_recoveryMetadata r = None \<Longrightarrow> count_ok r"
  "rm_recoveryAttemptCount m = 0 \<Longrightarrow> r_recoveryMetadata r = Some m \<Longrightarrow> count_ok r"
  "rm_recoveryAttemptCount m = 1 \<Longrightarrow> rm_blocked m = None \<Longrightarrow> r_recoveryMetadata r = Some m \<Longrightarrow>
     r_status r \<noteq> Run_INTERRUPTED \<Longrightarrow> count_ok r"
  by (auto simp: count_ok_def count_of_def blocked_run_def)

lemma counts_transitionRun:
  assumes "store_wf s" "store_counts s" "transitionRun e r s = (t, res)"
  shows "store_counts t"
  using transitionRun_cases [OF assms(1,3)] assms(2) by auto

lemma counts_transitionRunAndAttempt:
  assumes "store_wf s" "attempt_wf a" "attempt_timeline a" "store_counts s"
    "transitionRunAndAttempt clock eR r eA a ttl s = (t, res)"
  shows "store_counts t"
  using transitionRunAndAttempt_cases [OF assms(1-3,5)] assms(4) by auto

definition counts_kept :: "run_store \<Rightarrow> run_store \<Rightarrow> bool" where
  "counts_kept s t \<longleftrightarrow> (store_ok s \<and> store_counts s \<longrightarrow> store_ok t \<and> store_counts t)"

lemma counts_keptI:
  "evolves s (fst r) \<Longrightarrow> (store_wf s \<Longrightarrow> store_counts s \<Longrightarrow> store_counts (fst r)) \<Longrightarrow> counts_kept s (fst r)"
  using evolves_keeps store_ok_wf by (auto simp: counts_kept_def)

lemma counts_failExpired:
  assumes "store_wf s" "store_counts s"
  shows "store_counts (fst (failExpiredLeasedAttempt c s))"
proof -
  obtain t res where t: "failExpiredLeasedAttempt c s = (t, res)" by fastforce
  from failExpiredLeasedAttempt_cases [OF assms(1) t] show ?thesis
  proof (elim disjE exE conjE)
    fix b q a r
    assume *: "fails_with s b q a r" "r = q\<lparr> r_status := Run_FAILED, r_updatedAt := ec_now c \<rparr>"
      "t = put_run r (put_attempt a s)"
    have "count_ok q" using assms(2) *(1) by (auto simp: store_counts_def fails_with_def)
    then have "count_ok r" by (simp add: *(2) count_ok_def count_of_def blocked_run_def)
    then show ?thesis using assms(2) by (simp add: t *(3))
  qed (use assms(2) t in simp)
qed

lemma counts_renew: "store_wf s \<Longrightarrow> store_counts s \<Longrightarrow> store_counts (fst (renewExecutionLease i owner g ttlMs now s))"
  using renewExecutionLease_cases [of s i owner g ttlMs now] by (metis prod.collapse store_counts_put(2))

lemma counts_create:
  "store_counts s \<Longrightarrow> r_recoveryMetadata r = None \<Longrightarrow> store_counts (fst (createRunWithInitialAttempt r a s))"
  using createRunWithInitialAttempt_cases [of r a s] by (cases "createRunWithInitialAttempt r a s") auto

interpretation counts: run_transition_relation counts_kept
proof unfold_locales
  show "counts_kept s (fst (createRunWithInitialAttempt r a s))"
    if "run_wf r" "attempt_wf a" "attempt_timeline a" "r_status r = Run_PENDING" "a_status a = Att_PENDING"
      "r_recoveryMetadata r = None" for r a s
    using that by (intro counts_keptI evolves_create counts_create)
  show "counts_kept s (fst (transitionRun Run_PENDING r s))" if "r_status r = Run_QUEUED" for r s
    using that counts_transitionRun [of s Run_PENDING r] by (intro counts_keptI evolves_queue) (metis prod.collapse)+
  show "counts_kept s (fst (transitionRunAndAttempt clock eR r eA a ttl s))"
    if "legal_pair s r a" for s r a clock eR eA ttl
  proof (rule counts_keptI [OF evolves_move [OF that]])
    assume "store_wf s" "store_counts s"
    with that show "store_counts (fst (transitionRunAndAttempt clock eR r eA a ttl s))"
      using counts_transitionRunAndAttempt [of s a clock eR r eA ttl] unfolding legal_pair_def
      by (metis prod.collapse)
  qed
  show "counts_kept s (fst (renewExecutionLease i owner g ttlMs now s))" for s i owner g ttlMs now
    by (intro counts_keptI evolves_renew counts_renew)
  show "counts_kept s (fst (failExpiredLeasedAttempt c s))" for s c
    by (intro counts_keptI evolves_expire counts_failExpired)
qed (simp add: counts_kept_def)

definition system_counts :: "'w system \<Rightarrow> bool" where
  "system_counts y \<longleftrightarrow> store_counts (runs_of y) \<and> (\<forall>t\<in>set (sy_tasks y). task_counts t)"

lemma counts_expiry:
  assumes "store_ok s" "store_counts s" "task_counts (Task_expiry plan)"
  shows "store_counts (fst (writeExpiry plan s))"
proof (cases "snd plan")
  case None
  then show ?thesis
    using assms counts_failExpired [OF store_ok_wf] by (cases plan) (simp add: writeExpiry_def)
next
  case (Some m)
  obtain t res where t: "interruptExpiredLeasedAttemptForRecovery (fst plan) m s = (t, res)" by fastforce
  from interruptExpired_cases [OF store_ok_wf [OF assms(1)] t] assms(2,3) Some have "store_counts t" by auto
  then show ?thesis using t Some by (cases plan) (simp add: writeExpiry_def)
qed

lemma counts_recovery:
  assumes ok: "store_ok s" and c: "store_counts s" and p: "task_counts (Task_recovery c plan)"
  shows "store_counts (fst (writeRecovery c plan s))"
proof (cases plan)
  case (Plan_done outcome)
  then show ?thesis using c by (simp add: writeRecovery_def)
next
  case (Plan_block m outcome)
  obtain t res where t: "updateInterruptedRunRecoveryMetadata (rcv_workspaceId c) (rcv_runId c) m (rcv_now c) s = (t, res)"
    by fastforce
  from updateInterruptedRunRecoveryMetadata_cases [OF store_ok_wf [OF ok] t] c p Plan_block
  have "store_counts t" by auto
  then show ?thesis using t Plan_block by (cases res) (simp_all add: writeRecovery_def)
next
  case (Plan_schedule m)
  obtain t res where t: "scheduleRecoveryRunAttempt (rcv_runId c) (rcv_newRunAttemptId c) (rcv_now c) m s = (t, res)"
    by fastforce
  from scheduleRecovery_cases [OF ok t] c p Plan_schedule have "store_counts t" by auto
  then show ?thesis using t Plan_schedule by (cases res) (simp_all add: writeRecovery_def)
qed

lemma plan_counts:
  assumes "store_counts s" "planRecovery c s checkpoints operationJournal = Inr plan"
  shows "task_counts (Task_recovery c plan)"
proof (cases plan)
  case (Plan_schedule m)
  with assms(2) obtain run where run: "findRunById s (rcv_runId c) = Some run"
      "assessRunRecoveryEligibility run checkpoints operationJournal
        (\<exists>a\<in>set (listRunAttempts s (rcv_runId c)). is_active a) = Eligible"
      "rm_recoveryAttemptCount m = count_of run + 1"
    using plan_schedule unfolding count_of_def by blast
  then have "count_of run = 0" using assms(1) by (auto simp: store_counts_def count_ok_def eligible_iff)
  moreover have "rm_blocked m = None"
    using assms(2) Plan_schedule
    by (auto simp: planRecovery_def Let_def and_then_Inr next_metadata_def
        split: option.splits if_splits recovery_eligibility.splits)
  ultimately show ?thesis using run Plan_schedule by simp
next
  case (Plan_block m outcome)
  with assms(2) obtain run code msg where run: "findRunById s (rcv_runId c) = Some run"
      "assessRunRecoveryEligibility run checkpoints operationJournal
        (\<exists>a\<in>set (listRunAttempts s (rcv_runId c)). is_active a) = Ineligible code msg True"
      "rm_recoveryAttemptCount m = count_of run"
    by (auto simp: planRecovery_def Let_def and_then_Inr buildBlockedRecoveryMetadata_def count_of_def
        split: option.splits if_splits recovery_eligibility.splits)
  have ok: "count_ok run" using run(1) assms(1) by (auto simp: store_counts_def)
  from run(2) consider "blocked_run run" | "DEFAULT_MAX_RECOVERY_ATTEMPTS \<le> count_of run" | "r_status run = Run_INTERRUPTED"
    by (fastforce simp: assessRunRecoveryEligibility_def Let_def blocked_run_def count_of_def
        split: option.splits if_splits)
  then have "count_of run = 0"
    using ok by cases (auto simp: count_ok_def DEFAULT_MAX_RECOVERY_ATTEMPTS_def)
  then show ?thesis using run Plan_block by simp
qed simp

lemma expiry_counts:
  "expiryPlan cfg now a s agents checkpoints = Inr (Some plan) \<Longrightarrow> task_counts (Task_expiry plan)"
  by (auto simp: expiryPlan_def and_then_Inr buildRecoveryMetadata_def fresh_metadata_def Let_def
      split: option.splits if_splits)

lemma kept_fst: "f = (t, r) \<Longrightarrow> counts_kept s (fst f) \<Longrightarrow> counts_kept s t"
  by simp

lemma counts_fst: "f = (t, r) \<Longrightarrow> store_counts (fst f) \<Longrightarrow> store_counts t"
  by simp

lemma counts_step:
  assumes "sys_step y z" "system_ok y" "system_counts y"
  shows "system_counts z"
proof -
  have so: "store_ok (runs_of y)" and tk: "\<And>t. t \<in> set (sy_tasks y) \<Longrightarrow> task_ok (runs_of y) t"
    and c: "store_counts (runs_of y)" and tc: "\<And>t. t \<in> set (sy_tasks y) \<Longrightarrow> task_counts t"
    using assms(2,3) by (auto simp: system_ok_def system_counts_def)
  have kept: "store_counts s" if "counts_kept (runs_of y) s" for s
    using that so c by (simp add: counts_kept_def)
  from assms(1) show ?thesis
  proof cases
    case (step_create props run i now a s res)
    then have "counts_kept (runs_of y) s"
      by (intro kept_fst [OF step_create(6) counts.create] created_facts [OF step_create(2-5)])
    then show ?thesis using step_create tc kept by (simp add: system_counts_def)
  next
    case (step_queue ts run now us s res)
    then have "run_wf run" using tk [of "Task_queue run now"] by simp
    then have "counts_kept (runs_of y) s" by (rule kept_fst [OF step_queue(3) counts.queueing])
    then show ?thesis using step_queue tc kept by (simp add: system_counts_def)
  next
    case (step_acquire ts cfg now run a v us s run' a')
    then have "held_pair (runs_of y) run a" using tk [of "Task_loaded cfg now run a v"] by simp
    then have "counts_kept (runs_of y) s"
      by (intro kept_fst [OF step_acquire(3) counts.acquiring] acquire_legal)
    then show ?thesis using step_acquire tc kept by (auto simp: system_counts_def)
  next
    case (step_conflict ts cfg now run a v us s res)
    then have "held_pair (runs_of y) run a" using tk [of "Task_loaded cfg now run a v"] by simp
    then have "counts_kept (runs_of y) s"
      by (intro kept_fst [OF step_conflict(3) counts.acquiring] acquire_legal)
    then show ?thesis using step_conflict tc kept by (simp add: system_counts_def)
  next
    case (step_heartbeat cfg now run a request owner s res)
    then have "counts_kept (runs_of y) s" by (intro kept_fst [OF step_heartbeat(4) counts.renew])
    then show ?thesis using step_heartbeat tc kept by (simp add: system_counts_def)
  next
    case (step_finish ts cfg now run a request us ending lost s res)
    then have "held_pair (runs_of y) run a" using tk [of "Task_running cfg now run a request"] by simp
    then have "counts_kept (runs_of y) s"
      by (intro kept_fst [OF step_finish(3) counts.finishing] finish_legal)
    then show ?thesis using step_finish tc kept by (simp add: system_counts_def)
  next
    case (step_expiry_write ts plan us s res)
    then have "store_counts s"
      by (intro counts_fst [OF step_expiry_write(3)] counts_expiry [OF so c] tc) simp
    then show ?thesis using step_expiry_write tc by (simp add: system_counts_def)
  next
    case (step_recovery_write ts c' plan us s res)
    then have "store_counts s"
      by (intro counts_fst [OF step_recovery_write(4)] counts_recovery [OF so c] tc) simp
    then show ?thesis using step_recovery_write tc by (simp add: system_counts_def)
  next
    case (step_expiry_read tick now attempt plan)
    then show ?thesis using c tc expiry_counts [OF step_expiry_read(2)] by (simp add: system_counts_def)
  next
    case (step_recovery_read c' plan)
    then show ?thesis using c tc plan_counts [OF c step_recovery_read(2)] by (simp add: system_counts_def)
  next
    case (step_start ts cfg now run a v us request)
    then show ?thesis using c tc by (auto simp: system_counts_def with_tasks_def)
  qed (use c tc in \<open>auto simp: system_counts_def\<close>)
qed

text \<open>
  C33. The limit of automatic recoveries is never reached: in no reachable state does a run have a
  count of recoveries above 1, as every interruption starts the count again at 0 and the memory
  repository forgets it when the run starts. So the test against the limit of 5 never refuses a
  run, however often it was interrupted and recovered.
\<close>

theorem recovery_limit_unreached:
  assumes "sys_step\<^sup>*\<^sup>* (initial_system p) y" "findRunById (runs_of y) i = Some r"
    "r_recoveryMetadata r = Some m"
  shows "rm_recoveryAttemptCount m \<le> 1"
proof -
  have "system_counts y" using assms(1)
  proof (induction rule: rtranclp_induct)
    case base
    then show ?case
      by (simp add: system_counts_def store_counts_def initial_system_def findRunById_def empty_run_store_def)
  next
    case (step y z)
    with counts_step [OF step(2) reachable_ok [OF step(1)]] show ?case by simp
  qed
  then have "count_ok r" using assms(2) by (simp add: system_counts_def store_counts_def)
  with assms(3) show ?thesis by (auto simp: count_ok_def count_of_def)
qed

subsection \<open>A run that is lost and recovered\<close>

definition sample_checkpointed_platform :: "run_store \<Rightarrow> unit platform" where
  "sample_checkpointed_platform s = sample_platform\<lparr> pf_runs := s, pf_checkpoints :=
     empty_checkpoint_store\<lparr> cs_checkpoints := [sample_row\<lparr> ck_runId := ''r1'' \<rparr>] \<rparr> \<rparr>"

definition sample_tick :: "unit tick_config" where
  "sample_tick = \<lparr> tc_clock = pf_clock, tc_expiredBatchLimit = 50, tc_transportBatchLimit = 50,
     tc_interruptedBatchLimit = 50, tc_checkpoints = True, tc_operationJournal = True, tc_agents = True,
     tc_createRunAttemptId = None \<rparr>"

definition sample_expiry :: "expire_command \<times> recovery_metadata option" where
  "sample_expiry = (case expiryPlan sample_tick (DateMs 40000) sample_running_attempt sample_running_store
     (pf_agents sample_platform) (pf_checkpoints (sample_checkpointed_platform empty_run_store)) of
       Inr (Some plan) \<Rightarrow> plan | _ \<Rightarrow> (\<lparr> ec_runAttemptId = '''', ec_generation = 0, ec_now = DateMs 0,
         ec_error = \<lparr> re_code = '''', re_message = '''' \<rparr>, ec_infrastructureMetadata = None \<rparr>, None))"

definition sample_interrupted_store :: run_store where
  "sample_interrupted_store = fst (writeExpiry sample_expiry sample_running_store)"

definition sample_recover :: recover_command where
  "sample_recover = \<lparr> rcv_workspaceId = ''w'', rcv_runId = ''r1'', rcv_now = DateMs 50000,
     rcv_newRunAttemptId = ''a2'' \<rparr>"

definition sample_recovered :: "unit platform \<times> (osva_error + recover_outcome)" where
  "sample_recovered = recoverInterruptedRun sample_recover (sample_checkpointed_platform sample_interrupted_store)"

lemma sample_recovery_runs:
  "expiryPlan sample_tick (DateMs 40000) sample_running_attempt sample_running_store (pf_agents sample_platform)
     (pf_checkpoints (sample_checkpointed_platform empty_run_store)) = Inr (Some sample_expiry)"
  "snd sample_recovered = Inr (Recovery_scheduled ''a2'')"
  "findRunAttemptById sample_interrupted_store ''a2'' = None"
  by code_simp+

theorem recovery_scheduled_safely_witness:
  "''a2'' \<in> set (jq_pending (pf_queue (fst sample_recovered)))"
proof -
  have "store_ok sample_running_store"
    using reachable_ok [OF sample_reaches_running] by (simp add: system_ok_def)
  then have "store_ok sample_interrupted_store"
    using memory.expiring [of sample_running_store sample_expiry] evolves_keeps
    by (auto simp: sample_interrupted_store_def)
  then have ok: "store_ok (pf_runs (sample_checkpointed_platform sample_interrupted_store))"
    by (simp add: sample_checkpointed_platform_def)
  have f: "findRunAttemptById (pf_runs (sample_checkpointed_platform sample_interrupted_store))
      (rcv_newRunAttemptId sample_recover) = None"
    using sample_recovery_runs(3) by (simp add: sample_checkpointed_platform_def sample_recover_def)
  have r: "recoverInterruptedRun sample_recover (sample_checkpointed_platform sample_interrupted_store)
      = (fst sample_recovered, Inr (Recovery_scheduled ''a2''))"
    using sample_recovery_runs(2) by (metis prod.collapse sample_recovered_def)
  from recovery_scheduled_safely [OF ok f r] show ?thesis by blast
qed

definition sample_lost :: "unit system" where
  "sample_lost = \<lparr> sy_platform = sample_checkpointed_platform sample_running_store,
     sy_tasks = [sample_task], sy_started = [''a1''] \<rparr>"

definition sample_interrupted :: "unit system" where
  "sample_interrupted = with_tasks [sample_task] (with_runs sample_interrupted_store sample_lost)"

lemma sample_interrupts: "sys_step\<^sup>*\<^sup>* (initial_system sample_platform) sample_interrupted"
proof -
  note s = rtranclp.rtrancl_into_rtrancl [where r = sys_step]
  have "sys_step (sample_system sample_running_store [sample_task] [''a1'']) sample_lost"
    using step_world [of "sample_checkpointed_platform sample_running_store"
        "sample_system sample_running_store [sample_task] [''a1'']"]
    by (simp add: sample_lost_def sample_checkpointed_platform_def sample_system_def)
  note lost = s [OF sample_reaches_running this]
  have "sys_step sample_lost (with_tasks [Task_expiry sample_expiry, sample_task] sample_lost)"
    using step_expiry_read [of sample_tick "DateMs 40000" sample_running_attempt sample_lost sample_expiry]
      sample_recovery_runs(1)
    by (simp add: sample_lost_def sample_checkpointed_platform_def)
  note planned = s [OF lost this]
  obtain res where "writeExpiry sample_expiry sample_running_store = (sample_interrupted_store, res)"
    by (metis prod.collapse sample_interrupted_store_def)
  then have "sys_step (with_tasks [Task_expiry sample_expiry, sample_task] sample_lost) sample_interrupted"
    using step_expiry_write [of "with_tasks [Task_expiry sample_expiry, sample_task] sample_lost" "[]"
        sample_expiry "[sample_task]" sample_interrupted_store res]
    by (simp add: sample_interrupted_def sample_lost_def sample_checkpointed_platform_def with_tasks_def with_runs_def)
  then show ?thesis by (rule s [OF planned])
qed

lemma sample_interrupted_count:
  "map_option r_recoveryMetadata (findRunById sample_interrupted_store ''r1'') = Some (Some (fresh_metadata False))"
  by code_simp

theorem recovery_limit_unreached_witness:
  "rm_recoveryAttemptCount (fresh_metadata False) \<le> 1"
proof -
  obtain r where "findRunById (runs_of sample_interrupted) ''r1'' = Some r"
      "r_recoveryMetadata r = Some (fresh_metadata False)"
    using sample_interrupted_count by (auto simp: sample_interrupted_def)
  then show ?thesis by (rule recovery_limit_unreached [OF sample_interrupts])
qed

end
