(* ===== verification/Run_Delivery.thy ===== *)
theory Run_Delivery
  imports Run_Recovery_Facts
begin

text \<open>
  A queued run is not lost when its job is: the repair loop of the recovery tick puts the jobs of
  the oldest pending attempts back into the queue, in particular after \<open>CreateRun\<close> failed to
  enqueue them.
\<close>

lemma enqueue_jobs:
  "\<not> jq_closed q \<Longrightarrow> \<not> jq_closed (fst (enqueue i q)) \<and> set (jq_pending (fst (enqueue i q))) = insert i (set (jq_pending q))"
  by (auto simp: enqueue_def)

lemma repair_fold:
  assumes "\<not> jq_closed (pf_queue p)" "\<forall>d\<in>set ds. r_status (fst d) = Run_QUEUED \<and> a_status (snd d) = Att_PENDING"
  shows "set (jq_pending (pf_queue (fold repairDelivery ds p))) = (a_id \<circ> snd) ` set ds \<union> set (jq_pending (pf_queue p))"
  using assms
proof (induction ds arbitrary: p)
  case (Cons d ds)
  have "pf_queue (repairDelivery d p) = fst (enqueue (a_id (snd d)) (pf_queue p))"
    using Cons.prems(2) by (simp add: repairDelivery_def)
  with Cons.IH [of "repairDelivery d p"] Cons.prems enqueue_jobs [of "pf_queue p" "a_id (snd d)"] show ?case by auto
qed simp

lemma repair_closed: "jq_closed (pf_queue p) \<Longrightarrow> pf_queue (fold repairDelivery ds p) = pf_queue p"
  by (induction ds arbitrary: p) (simp_all add: repairDelivery_def enqueue_def)

definition pending_deliveries :: "run_store \<Rightarrow> (run \<times> run_attempt) list" where
  "pending_deliveries s = concat (List.map (\<lambda>r. List.map (\<lambda>a. (r, a))
       (filter (\<lambda>a. a_runId a = r_id r \<and> a_status a = Att_PENDING) (map_values (rs_attempts s))))
     (filter (\<lambda>r. r_status r = Run_QUEUED) (map_values (rs_runs s))))"

text \<open>The first of the queue: as many elements of a sorted list as its own rank are enough to see it.\<close>

lemma sorted_rank:
  assumes "x \<in> set xs" "length (filter (\<lambda>y. k y \<le> k x) xs) \<le> n"
  shows "x \<in> set (take n (sort_key k xs))"
proof -
  let ?ys = "sort_key k xs" and ?P = "\<lambda>y. k y \<le> k x"
  obtain i where i: "i < length ?ys" "?ys ! i = x" using assms(1) by (metis in_set_conv_nth set_sort)
  have "?P y" if "y \<in> set (take (Suc i) ?ys)" for y
  proof -
    from that obtain j where j: "j < Suc i" "?ys ! j = y" by (auto simp: in_set_conv_nth)
    have "sorted (List.map k ?ys)" by (rule sorted_sort_key)
    with i j have "k (?ys ! j) \<le> k (?ys ! i)" using sorted_nth_mono [of "List.map k ?ys" j i] by simp
    with i j show ?thesis by simp
  qed
  then have "filter ?P (take (Suc i) ?ys) = take (Suc i) ?ys" by (simp add: filter_id_conv)
  moreover have "length (filter ?P ?ys) = length (filter ?P (take (Suc i) ?ys)) + length (filter ?P (drop (Suc i) ?ys))"
    by (metis append_take_drop_id filter_append length_append)
  ultimately have "Suc i \<le> length (filter ?P ?ys)" using i(1) by simp
  also have "\<dots> = size (filter_mset ?P (mset ?ys))" by (metis mset_filter size_mset)
  also have "\<dots> = length (filter ?P xs)" by (metis mset_filter mset_sort size_mset)
  finally have "i < n" using assms(2) by simp
  with i show ?thesis by (force simp: in_set_conv_nth)
qed

lemma queued_delivery: "d \<in> set (listQueuedPendingDeliveries s limit) \<Longrightarrow> d \<in> set (pending_deliveries s)"
  unfolding listQueuedPendingDeliveries_def pending_deliveries_def [symmetric] by (auto dest: in_set_takeD)

lemma repaired_jobs:
  assumes "\<not> jq_closed (pf_queue p)"
  shows "set (jq_pending (pf_queue (repairQueuedDeliveries cfg p))) = set (jq_pending (pf_queue p))
    \<union> (a_id \<circ> snd) ` set (listQueuedPendingDeliveries (pf_runs p) (tc_transportBatchLimit cfg))"
proof -
  let ?ds = "listQueuedPendingDeliveries (pf_runs p) (tc_transportBatchLimit cfg)"
  have "\<forall>d\<in>set ?ds. r_status (fst d) = Run_QUEUED \<and> a_status (snd d) = Att_PENDING"
    using queued_delivery by (fastforce simp: pending_deliveries_def)
  from repair_fold [OF assms this] show ?thesis by (simp add: repairQueuedDeliveries_def Un_commute)
qed

text \<open>
  C32. A queued run is not lost with its job: as long as the queue is open, one repair of the
  recovery tick puts the pending attempt of a queued run into the queue if at most as many pending
  deliveries as the tick's batch holds belong to runs created no later than it, in the order of
  the creation times and identifiers. The queue holds its old jobs then and those of the batch, the
  oldest deliveries, and no others; a queue that is shut down stays as it is.
\<close>

theorem queued_runs_delivered:
  assumes "findRunById (pf_runs p) i = Some r" "r_status r = Run_QUEUED"
    and "findRunAttemptById (pf_runs p) j = Some a" "a_runId a = r_id r" "a_status a = Att_PENDING"
    and "length (filter (\<lambda>(q, b). (r_createdAt q, r_id q) \<le> (r_createdAt r, r_id r))
      (pending_deliveries (pf_runs p))) \<le> tc_transportBatchLimit cfg"
  shows "if jq_closed (pf_queue p) then pf_queue (repairQueuedDeliveries cfg p) = pf_queue p
    else a_id a \<in> set (jq_pending (pf_queue (repairQueuedDeliveries cfg p)))
      \<and> set (jq_pending (pf_queue (repairQueuedDeliveries cfg p))) = set (jq_pending (pf_queue p))
          \<union> (a_id \<circ> snd) ` set (listQueuedPendingDeliveries (pf_runs p) (tc_transportBatchLimit cfg))"
proof -
  let ?key = "\<lambda>(q :: run, b :: run_attempt). (r_createdAt q, r_id q)"
  have "r \<in> set (map_values (rs_runs (pf_runs p)))" "a \<in> set (map_values (rs_attempts (pf_runs p)))"
    using assms(1,3) by (force simp: findRunById_def findRunAttemptById_def dest: map_of_SomeD)+
  then have "(r, a) \<in> set (pending_deliveries (pf_runs p))"
    using assms(2,4,5) by (simp add: pending_deliveries_def) blast
  moreover have "length (filter (\<lambda>d. ?key d \<le> ?key (r, a)) (pending_deliveries (pf_runs p))) \<le> tc_transportBatchLimit cfg"
    using assms(6) by (simp add: case_prod_unfold)
  ultimately have "(r, a) \<in> set (take (tc_transportBatchLimit cfg) (sort_key ?key (pending_deliveries (pf_runs p))))"
    by (rule sorted_rank)
  then have "(r, a) \<in> set (listQueuedPendingDeliveries (pf_runs p) (tc_transportBatchLimit cfg))"
    by (simp add: listQueuedPendingDeliveries_def pending_deliveries_def)
  then have "a_id a \<in> (a_id \<circ> snd) ` set (listQueuedPendingDeliveries (pf_runs p) (tc_transportBatchLimit cfg))"
    by force
  moreover have "jq_closed (pf_queue p) \<Longrightarrow> pf_queue (repairQueuedDeliveries cfg p) = pf_queue p"
    unfolding repairQueuedDeliveries_def by (rule repair_closed)
  ultimately show ?thesis using repaired_jobs [of p cfg] by simp
qed

theorem queued_runs_delivered_witness:
  "''a1'' \<in> set (jq_pending (pf_queue (repairQueuedDeliveries sample_tick
     (sample_platform\<lparr> pf_runs := sample_queued_store \<rparr>))))"
proof -
  let ?p = "sample_platform\<lparr> pf_runs := sample_queued_store \<rparr>"
  have o: "\<not> jq_closed (pf_queue ?p)" by (simp add: sample_platform_def empty_queue_def)
  have f: "findRunById (pf_runs ?p) ''r1'' = Some (sample_run Run_QUEUED 2)" "r_status (sample_run Run_QUEUED 2) = Run_QUEUED"
      "findRunAttemptById (pf_runs ?p) ''a1'' = Some sample_attempt" "a_runId sample_attempt = r_id (sample_run Run_QUEUED 2)"
      "a_status sample_attempt = Att_PENDING"
      "length (filter (\<lambda>(q, b). (r_createdAt q, r_id q) \<le> (r_createdAt (sample_run Run_QUEUED 2),
        r_id (sample_run Run_QUEUED 2))) (pending_deliveries (pf_runs ?p))) \<le> tc_transportBatchLimit sample_tick"
    by code_simp+
  have "a_id sample_attempt \<in> set (jq_pending (pf_queue (repairQueuedDeliveries sample_tick ?p)))"
    using queued_runs_delivered [OF f] unfolding if_not_P [OF o] by (rule conjunct1)
  moreover have "a_id sample_attempt = ''a1''" by (simp add: sample_attempt_def)
  ultimately show ?thesis by (simp only:)
qed

end
