(* ===== verification/Spec2Isabelle.thy ===== *)
theory Spec2Isabelle
  imports Office_Properties Office_Handlers Office_Application Office Schedule_Properties Schedule_Handlers Schedule_Application Schedule Workflow_Properties Workflow_World Workflow_Handlers Workflow_Application Access_Control Workflow_Passes Workflow_Safety Workflow_Agents Workflow_Child_Runs Workflow_Writes Workflow_Guarantee Workflow_Flow Workflow_Reconcile Lifecycle Js_Value Json_Text Json_Pointer Run_Model Workflow_Run_Model
    Workflow_Readiness Workflow_Wait_Facts Approval Run_Step Run_Store Run_Store_Facts Agents
    Run_Checkpoint Run_Journal Execution_Request Declarative_Loop Declarative_Facts Declarative_Replay
    Declarative_Adapter Run_Execution Run_Recovery Run_Effects Run_System Run_Properties Run_Recovery_Facts Run_Delivery
begin

text \<open>
  OSVA: a model of the domain core of an agent platform.

  The program. OSVA runs agents. A request creates a run and its first attempt; a worker takes the
  job of the attempt from a queue, acquires a lease, hands an execution request to a runtime and
  stores what the runtime answers. A worker may die at any point: a periodic tick expires its lease,
  interrupts the run and, when a checkpoint exists and no outside effect is in doubt, schedules a
  successor attempt that resumes. Workflows compose runs: a definition is a graph of agent nodes,
  approvals, waits, branches and joins, and a reconciliation decides from the stored node runs what
  may start next. The logic is in \<open>packages/domain\<close> (entities and pure decisions) and
  \<open>packages/orchestration\<close> (handlers over repositories); \<open>adapters/memory\<close> is the
  reference implementation of the repositories, \<open>adapters/runtime-declarative\<close> the runtime
  whose loop is part of the program.

  Conventions. All of them are defined in \<open>Osva_Prelude\<close>, \<open>Osva_Errors\<close> and
  \<open>Js_Value\<close>. A call that may throw returns \<open>osva_error + 'a\<close>, an assertion that may throw
  \<open>osva_error option\<close>; every throw of the source is a branch. An interface of the source is a record
  whose fields carry a short prefix (\<open>r_\<close> runs, \<open>a_\<close> attempts, \<open>w_\<close> and
  \<open>n_\<close> workflow and node runs, and so on), a string enumeration a datatype. JavaScript values are
  the datatype \<open>jsv\<close>, whose objects are association lists in insertion order; \<open>jref\<close> adds the
  identity of the objects, because the canonical-JSON test depends on it; a \<open>Map\<close> is an association
  list too, whose update keeps the position of an existing key, as JavaScript does. Numbers that only
  count are \<open>int\<close> or \<open>nat\<close>, instants are integers (milliseconds). An operation of a
  repository takes a store and returns the new store with its result, also when it throws.

  The theories, bottom up:
  \<^item> \<open>Lifecycle\<close>: the nine state machines of \<open>domain/src/*-state-machine.ts\<close>; terminal
    states are those no check lets leave.
  \<^item> \<open>Js_Value\<close>, \<open>Json_Text\<close>, \<open>Json_Pointer\<close>: canonical JSON, the copies entities take,
    canonical text and equality, RFC 6901 pointers.
  \<^item> \<open>Run_Model\<close>, \<open>Run_Step\<close>, \<open>Workflow_Run_Model\<close>, \<open>Approval\<close>, \<open>Workflow_Wait\<close>, \<open>Agents\<close>: the
    entities of \<open>domain/src\<close>. Each has its constructors, its transitions and its rehydration, an
    invariant, and an inductive set of the values the operations can build, over which the
    invariant is proved by rule induction; where an entity must not change once decided, that is a
    reachability theorem.
  \<^item> \<open>Workflow_Definition\<close>, \<open>Workflow_Graph\<close>, \<open>Workflow_Chain\<close>, \<open>Workflow_Readiness\<close>: the
    validation of definitions (\<open>workflow-definition.ts\<close>) against the mathematical graph, the graph
    index, and the readiness decisions with their progress theorem.
  \<^item> \<open>Run_Store\<close>, \<open>Run_Store_Facts\<close>: the run repository of \<open>adapters/memory\<close> with its
    compare-and-set transitions and execution fence, and the invariant every operation keeps.
  \<^item> \<open>Run_Checkpoint\<close>, \<open>Run_Journal\<close>: checkpoints and the journal of external operations, with
    their stores.
  \<^item> \<open>Execution_Request\<close>, \<open>Declarative_Loop\<close>, \<open>Declarative_Adapter\<close>: the declarative runtime
    from request to result; \<open>Declarative_Facts\<close> proves its budgets. \<open>Declarative_Replay\<close>
    interleaves the awaits of the tool calls of any attempts over one journal (\<open>tool_step\<close>): an
    outside effect is not dispatched by a look-up after its first record, so at most once unless two
    attempts look at once, which does dispatch it twice (\<open>overlapping_calls_dispatch_twice\<close>).
  \<^item> \<open>Run_Execution\<close>, \<open>Run_Recovery\<close>: the handlers of \<open>packages/orchestration\<close> over the
    stores, split at the points where other processes may act; \<open>Run_Effects\<close> abstracts what they do
    to the store, one effect for each step, \<open>Run_System\<close> interleaves any number of them, and \<open>Run_Properties\<close>,
    \<open>Run_Recovery_Facts\<close> and \<open>Run_Delivery\<close> hold the theorems about the whole.
  \<^item> \<open>Workflow_Store\<close>: workflows, versions and the repositories of workflow runs, waits, events
    and approval requests of \<open>adapters/memory\<close>, and the writes of the PostgreSQL repository of workflow
    runs, which differ from the memory ones.
  \<^item> \<open>Workflow_Reconcile\<close>: \<open>orchestration/src/reconcile-workflow-run.ts\<close>,
    \<open>workflow-wait-reconciliation.ts\<close> and \<open>workflow-orchestrator-tick.ts\<close> as programs: values of the
    datatype \<open>act\<close>, whose constructors are the end, one access to the stores and the draw of an
    identifier. A program does not say who else acts between two accesses, nor which access fails;
    \<open>fault\<close> says that an access was not done or that its answer was lost.
  \<^item> \<open>Access_Control\<close>: roles and their tables, principals, the decisions of the control plane, the
    routes of human identity with the table of their permissions, the actions of the control-plane
    routes and the check of human requests to them, API keys with their tokens, audit events
    (\<open>authorization.ts\<close>, \<open>control-plane.ts\<close>, \<open>human-auth.ts\<close>, \<open>human-authorization.ts\<close>,
    \<open>v1-control-plane-access.ts\<close>, \<open>v1-route-authorization-policy.ts\<close>, \<open>api-key*.ts\<close>,
    \<open>authenticate-api-key.ts\<close> and others). The inventory that finds the record of a route is an
    argument of the check.
  \<^item> \<open>Workflow_Application\<close>: the handlers of \<open>domain/src/workflow-application.ts\<close>, the wait driver
    and the event ingestion, as programs too.
  \<^item> \<open>Schedule\<close>: schedules and their occurrences (\<open>schedule.ts\<close>, \<open>schedule-occurrence.ts\<close>), the
    repository of the memory adapter and the writes of the PostgreSQL one; \<open>Schedule_Application\<close>: the
    handlers of \<open>schedule-application.ts\<close> and the scheduler (\<open>scheduler-tick.ts\<close>,
    \<open>dispatch-schedule-occurrence.ts\<close>) as programs, shown harmless in \<open>Schedule_Handlers\<close>;
    \<open>Schedule_Properties\<close>: one occurrence and one run for each instant, and the update that stops the
    scheduler.
  \<^item> \<open>Office\<close>: workers, roles, teams, goals and assignments with both repositories (\<open>office-worker.ts\<close>,
    \<open>role.ts\<close>, \<open>team.ts\<close>, \<open>goal.ts\<close>, \<open>assignment.ts\<close>); \<open>Office_Application\<close>: the handlers of
    \<open>office-application.ts\<close>, the launch and the reconciliation of assignments (\<open>launch-assignment.ts\<close>,
    \<open>reconcile-assignment.ts\<close>) and the two routes of \<open>office-http.ts\<close> that call these, as programs,
    shown harmless in \<open>Office_Handlers\<close>; \<open>Office_Properties\<close>: the status of an assignment has its reason
    in the run that backs it, an agent gets one run for an assignment, and the update and the routes
    that go wrong.
  \<^item> \<open>Workflow_Flow\<close> states what holds of the stores (\<open>flow_ok\<close>) and which changes are
    allowed (\<open>flow_kept\<close>); \<open>Workflow_Guarantee\<close> is a rely/guarantee calculus for programs:
    \<open>harmless\<close> means that every access of a program keeps both, whatever harmless processes do in
    between and whatever fails. \<open>Workflow_Writes\<close>, \<open>Workflow_Child_Runs\<close>, \<open>Workflow_Agents\<close>,
    \<open>Workflow_Safety\<close>, \<open>Workflow_Passes\<close> and \<open>Workflow_Handlers\<close> prove it of the writes, the phases
    of a reconciliation and the handlers.
  \<^item> \<open>Workflow_World\<close> puts everything together: any number of processes, started from any handler at
    any time, interleaved access by access with each other and with the workers of \<open>Run_System\<close>,
    failing and dying anywhere. \<open>Workflow_Properties\<close> states what holds in all reachable worlds, and
    \<open>Workflow_Sample\<close> drives two small workflows through the handlers as the concrete inputs.

  Interfaces. The transition tables share the locale \<open>lifecycle\<close> and its extension
  \<open>ranked_lifecycle\<close> for tables without cycles (\<open>Lifecycle\<close>), interpreted for every entity. What a
  relation on the world must satisfy for the declarative loop to respect it is \<open>loop_relation\<close>
  (\<open>Declarative_Loop\<close>). What the handlers need of the run repository is the locale
  \<open>run_transition_relation\<close> and its extension \<open>run_repository_relation\<close> (\<open>Run_Effects\<close>),
  interpreted on the repository of the memory adapter, once for a single effect (\<open>once\<close>) and once for
  any history of effects (\<open>memory\<close>); every theorem on interleavings goes through it.

  Loops. Loops over lists are structural recursions. The worklist loops of the graph walks and of the
  cycle search terminate by the number of unvisited nodes; the chain loop by the number of unvisited
  nodes; the declarative loop by what is left of its iteration budget; the rounds of a reconciliation
  are as many as the graph has nodes, as in the source. No definition uses fuel. A handler on
  workflows is a well-founded program, so it ends after finitely many accesses.

  Parameters. Code that is not in the repository is an argument: SHA-256, the byte length of a text,
  JSON printing and parsing, random ids, cron expressions and time zones, the JSON-Schema validator, and the gateways to models, tools,
  knowledge and memory with the world they act on. The theorems hold for all of them; where a property
  needs one to behave (a digest that separates different texts), it is a hypothesis and its witness
  gives an instance. Random ids of workflow handlers are drawn: any identifier that belongs to the
  process and is not yet used, as no two processes draw the same UUID. The theorems on worlds are
  about the PostgreSQL writes of workflow runs, schedules and the office; \<open>memory_save_reverts\<close> shows where the memory
  repository would break them.

  Not modelled, with the reasons in the manifest: user interfaces, the HTTP surface (but for the two routes and the checks of access named above) and clients;
  users, sessions and organizations; the PostgreSQL, Redis, object-store and provider adapters, which
  are calls of libraries; telemetry and logging; the text of most error messages. Object freezing has
  no counterpart, as the values here are immutable. \<open>Promise.all\<close> over independent calls is taken
  in list order within one handler; handlers themselves interleave, access by access.
\<close>

end
